(* ===== verification/Prelude.thy ===== *)
theory Prelude
  imports Main "HOL-Library.AList" "HOL-Library.Char_ord" "HOL-Library.List_Lexorder"
    "HOL-Library.Product_Lexorder"
begin

text \<open>
  Shared vocabulary of the development: results that carry an error, Python dictionaries as
  insertion-ordered association lists, Python enumerations with their string values, aggregates
  with an optimistic version counter, and the generic lemmas the component theories rest on.
  The four interfaces are locales; each component theory interprets them on its own definitions.
\<close>

section \<open>Collections of rewrite rules\<close>

named_theorems dict_simps \<open>lookup after an update or a deletion of a dictionary\<close>
named_theorems codec_simps \<open>decoding what an encoder produced\<close>
named_theorems wf_intros \<open>preservation of well-formedness predicates\<close>

section \<open>Results\<close>

text \<open>
  A Python call that may raise returns \<open>Inl\<close> of the exception or \<open>Inr\<close> of the value.
  \<open>bindE\<close> sequences two calls; the second does not run when the first raises.
\<close>

fun bindE :: "'e + 'a \<Rightarrow> ('a \<Rightarrow> 'e + 'b) \<Rightarrow> 'e + 'b" where
  "bindE (Inl e) f = Inl e"
| "bindE (Inr a) f = f a"

fun mapE :: "('a \<Rightarrow> 'e + 'b) \<Rightarrow> 'a list \<Rightarrow> 'e + 'b list" where
  "mapE f [] = Inr []"
| "mapE f (x # xs) = bindE (f x) (\<lambda>y. bindE (mapE f xs) (\<lambda>ys. Inr (y # ys)))"

definition guardE :: "bool \<Rightarrow> 'e \<Rightarrow> 'e + unit" where
  "guardE b e = (if b then Inr () else Inl e)"

lemma bindE_Inr_iff: "bindE m f = Inr b \<longleftrightarrow> (\<exists>a. m = Inr a \<and> f a = Inr b)"
  by (cases m) auto

lemma bindE_InrE:
  assumes "bindE m f = Inr b" obtains x where "m = Inr x" and "f x = Inr b"
  using assms by (cases m) auto

lemma bindE_cong [fundef_cong]:
  "m = m' \<Longrightarrow> (\<And>a. m' = Inr a \<Longrightarrow> f a = f' a) \<Longrightarrow> bindE m f = bindE m' f'"
  by (cases m') auto

lemma guardE_simps [simp]:
  "guardE True e = Inr ()" "guardE False e = Inl e"
  "guardE b e = Inr u \<longleftrightarrow> b"
  by (auto simp: guardE_def)

lemma mapE_map:
  "(\<And>x. x \<in> set xs \<Longrightarrow> f (g x) = Inr x) \<Longrightarrow> mapE f (map g xs) = Inr xs"
  by (induction xs) auto

lemma mapE_list_all2: "mapE f xs = Inr ys \<longleftrightarrow> list_all2 (\<lambda>x y. f x = Inr y) xs ys"
proof (induction xs arbitrary: ys)
  case Nil
  then show ?case by (cases ys) auto
next
  case (Cons x xs)
  then show ?case by (cases ys) (auto simp: bindE_Inr_iff)
qed

section \<open>Python dictionaries\<close>

text \<open>
  A \<open>dict\<close> keeps its keys in insertion order: assigning to a present key keeps its place,
  a new key goes to the end, \<open>pop\<close> removes the key.
\<close>

type_synonym ('k, 'v) dict = "('k \<times> 'v) list"

abbreviation dget :: "('k, 'v) dict \<Rightarrow> 'k \<Rightarrow> 'v option" where
  "dget d k \<equiv> map_of d k"

definition dset :: "('k, 'v) dict \<Rightarrow> 'k \<Rightarrow> 'v \<Rightarrow> ('k, 'v) dict" where
  "dset d k v = AList.update k v d"

definition dpop :: "('k, 'v) dict \<Rightarrow> 'k \<Rightarrow> ('k, 'v) dict" where
  "dpop d k = AList.delete k d"

abbreviation dkeys :: "('k, 'v) dict \<Rightarrow> 'k list" where
  "dkeys d \<equiv> map fst d"

abbreviation dvals :: "('k, 'v) dict \<Rightarrow> 'v list" where
  "dvals d \<equiv> map snd d"

definition dict_ok :: "('k, 'v) dict \<Rightarrow> bool" where
  "dict_ok d \<longleftrightarrow> distinct (dkeys d)"

text \<open>The contract of a dictionary, as the components use it.\<close>

locale py_dict =
  fixes empty :: "'d"
    and lookup :: "'d \<Rightarrow> 'k \<Rightarrow> 'v option"
    and assign :: "'d \<Rightarrow> 'k \<Rightarrow> 'v \<Rightarrow> 'd"
    and remove :: "'d \<Rightarrow> 'k \<Rightarrow> 'd"
    and items :: "'d \<Rightarrow> ('k \<times> 'v) list"
    and invar :: "'d \<Rightarrow> bool"
  assumes lookup_empty: "lookup empty k = None"
    and lookup_assign: "lookup (assign d k v) k' = (if k' = k then Some v else lookup d k')"
    and lookup_remove: "lookup (remove d k) k' = (if k' = k then None else lookup d k')"
    and items_lookup: "invar d \<Longrightarrow> (k, v) \<in> set (items d) \<longleftrightarrow> lookup d k = Some v"
    and invar_empty: "invar empty"
    and invar_assign: "invar d \<Longrightarrow> invar (assign d k v)"
    and invar_remove: "invar d \<Longrightarrow> invar (remove d k)"
begin

lemma items_assign:
  assumes "invar d"
  shows "(k', v') \<in> set (items (assign d k v)) \<longleftrightarrow>
    (if k' = k then v' = v else (k', v') \<in> set (items d))"
  using assms by (auto simp: items_lookup invar_assign lookup_assign)

lemma items_remove:
  assumes "invar d"
  shows "(k', v') \<in> set (items (remove d k)) \<longleftrightarrow> k' \<noteq> k \<and> (k', v') \<in> set (items d)"
  using assms by (auto simp: items_lookup invar_remove lookup_remove)

lemma assign_preserves:
  assumes "invar d" and "\<And>k' v'. (k', v') \<in> set (items d) \<Longrightarrow> P k' v'" and "P k v"
  shows "(k', v') \<in> set (items (assign d k v)) \<Longrightarrow> P k' v'"
  using assms by (auto simp: items_assign split: if_splits)

end

interpretation pd: py_dict "[]" map_of dset dpop "\<lambda>d. d" dict_ok
  by unfold_locales
    (auto simp: dset_def dpop_def dict_ok_def update_conv' delete_conv' distinct_update
      distinct_delete intro: map_of_is_SomeI dest: map_of_SomeD)

lemmas dict_rules [dict_simps, simp] = pd.lookup_assign pd.lookup_remove
lemmas dict_ok_rules [wf_intros, simp, intro] = pd.invar_empty pd.invar_assign pd.invar_remove

lemma dict_ok_Nil: "dict_ok ([] :: ('k, 'v) dict)"
  by (simp add: dict_ok_def)

lemma dset_twice: "dset (dset d k v) k w = dset d k w"
  unfolding dset_def by (induction d) auto

lemma dset_append_new: "k \<notin> fst ` set d \<Longrightarrow> dset d k v = d @ [(k, v)]"
  unfolding dset_def by (induction d) auto

lemma dset_same: "dget d k = Some v \<Longrightarrow> dset d k v = d"
  unfolding dset_def by (induction d) (auto split: if_splits)

lemma length_dset: "length (dset d k v) = (if dget d k = None then Suc (length d) else length d)"
  unfolding dset_def by (induction d) (auto split: if_splits)

lemma length_dpop: "length (dpop d k) \<le> length d"
  unfolding dpop_def by (simp add: AList.length_delete_le)

lemma set_dvals: "dict_ok d \<Longrightarrow> v \<in> set (dvals d) \<longleftrightarrow> (\<exists>k. dget d k = Some v)"
  by (force simp: dict_ok_def)

lemma in_dkeys: "k \<in> set (dkeys d) \<longleftrightarrow> dget d k \<noteq> None"
  by (induction d) auto

lemma dpop_absent: "dget d k = None \<Longrightarrow> dpop d k = d"
  unfolding dpop_def by (induction d) (auto split: if_splits)

section \<open>Python enumerations with string values\<close>

text \<open>
  \<open>class E(str, Enum)\<close> has members with distinct string values; \<open>E(s)\<close> finds the member
  with value \<open>s\<close> or raises.
\<close>

definition enum_of :: "('a \<Rightarrow> string) \<Rightarrow> 'a list \<Rightarrow> string \<Rightarrow> 'a option" where
  "enum_of value members s = List.find (\<lambda>x. value x = s) members"

locale py_enum =
  fixes enum_value :: "'a \<Rightarrow> string"
    and members :: "'a list"
  assumes complete: "x \<in> set members"
    and distinct_values: "distinct (map enum_value members)"
begin

lemma value_inj: "enum_value x = enum_value y \<longleftrightarrow> x = y"
proof
  assume "enum_value x = enum_value y"
  moreover from distinct_values have "inj_on enum_value (set members)"
    by (simp add: distinct_map)
  ultimately show "x = y" using complete by (auto simp: inj_on_def)
qed simp

lemma of_value: "enum_of enum_value members (enum_value x) = Some x"
proof -
  have "List.find (\<lambda>y. enum_value y = enum_value x) ms = Some x" if "x \<in> set ms" for ms
    using that by (induction ms) (auto simp: value_inj)
  then show ?thesis using complete by (simp add: enum_of_def)
qed

lemma of_value_iff: "enum_of enum_value members s = Some x \<longleftrightarrow> enum_value x = s"
  by (auto simp: of_value) (auto simp: enum_of_def find_Some_iff)

end

section \<open>Aggregates with an optimistic version\<close>

text \<open>
  Every aggregate of the domain carries \<open>aggregate_version\<close>; a transition may state the version
  it expects and is rejected on a mismatch, and every accepted transition increments it.
\<close>

locale versioned =
  fixes apply_event :: "'s \<Rightarrow> 'ev \<Rightarrow> int option \<Rightarrow> 'e + 's"
    and version :: "'s \<Rightarrow> int"
  assumes cas: "apply_event s ev (Some n) = Inr t \<Longrightarrow> version s = n"
    and bump: "apply_event s ev ex = Inr t \<Longrightarrow> version t = version s + 1"
begin

fun apply_events :: "'s \<Rightarrow> ('ev \<times> int option) list \<Rightarrow> 'e + 's" where
  "apply_events s [] = Inr s"
| "apply_events s ((ev, ex) # es) = bindE (apply_event s ev ex) (\<lambda>t. apply_events t es)"

lemma version_apply_events:
  "apply_events s es = Inr t \<Longrightarrow> version t = version s + int (length es)"
proof (induction es arbitrary: s)
  case (Cons e es)
  then show ?case by (cases e) (auto simp: bindE_Inr_iff dest: bump)
qed simp

lemma no_lost_update:
  assumes "apply_event s ev1 (Some n) = Inr t" and "apply_events t es = Inr u"
  shows "\<not> (\<exists>v. apply_event u ev2 (Some n) = Inr v)"
proof
  assume "\<exists>v. apply_event u ev2 (Some n) = Inr v"
  then have "version u = n" by (auto dest: cas)
  moreover from assms(1) have "version s = n" and "version t = version s + 1"
    by (auto dest: cas bump)
  moreover from assms(2) have "version u = version t + int (length es)"
    by (rule version_apply_events)
  ultimately show False by simp
qed

end

section \<open>Codecs\<close>

text \<open>
  A class with \<open>to_dict\<close> and \<open>from_dict\<close>: decoding what a well-formed value encodes gives the
  value back.
\<close>

locale codec =
  fixes enc :: "'a \<Rightarrow> 'v"
    and dec :: "'v \<Rightarrow> 'e + 'a"
    and wf :: "'a \<Rightarrow> bool"
  assumes dec_enc: "wf x \<Longrightarrow> dec (enc x) = Inr x"
begin

lemma enc_inj: "wf x \<Longrightarrow> wf y \<Longrightarrow> enc x = enc y \<longleftrightarrow> x = y"
  using dec_enc by (metis sum.inject(2))

lemma mapE_enc: "list_all wf xs \<Longrightarrow> mapE dec (map enc xs) = Inr xs"
  by (rule mapE_map) (auto simp: list_all_iff dec_enc)

end

section \<open>Decimal numerals\<close>

fun show_nat :: "nat \<Rightarrow> string" where
  "show_nat n = (if n < 10 then [char_of (48 + n)]
     else show_nat (n div 10) @ [char_of (48 + n mod 10)])"

declare show_nat.simps [simp del]

definition show_int :: "int \<Rightarrow> string" where
  "show_int i = (if i < 0 then ''-'' @ show_nat (nat (- i)) else show_nat (nat i))"

section \<open>Generic list lemmas\<close>

lemma list_all2_all: "list_all2 P xs ys \<Longrightarrow> (\<And>x y. x \<in> set xs \<Longrightarrow> P x y \<Longrightarrow> Q y) \<Longrightarrow> list_all Q ys"
  by (induction rule: list_all2_induct) auto

lemma find_None_not_ex: "List.find P xs = None \<longleftrightarrow> (\<forall>x \<in> set xs. \<not> P x)"
  by (induction xs) auto

lemma find_SomeD: "List.find P xs = Some x \<Longrightarrow> x \<in> set xs \<and> P x"
  by (induction xs) (auto split: if_splits)

lemma sum_list_update_nat:
  fixes f :: "'a \<Rightarrow> 'b :: ab_group_add"
  shows "i < length xs \<Longrightarrow>
    sum_list (map f (xs[i := x])) = sum_list (map f xs) - f (xs ! i) + f x"
  by (induction xs arbitrary: i) (auto split: nat.splits)

end
