(* ===== verification/Python_Float.thy ===== *)
theory Python_Float
  imports Prelude Complex_Main
begin

text \<open>
  Python's \<open>float\<close> is an IEEE-754 binary64 value: a finite rational, an infinity or NaN. The
  arithmetic of the modelled code (\<open>+\<close>, \<open>-\<close>, \<open>*\<close>, \<open>sum\<close>, comparisons) is computed exactly on
  rationals and rounded once per operation, to nearest with ties to even. Clock readings are
  finite floats; they are kept as the rational they denote and only their sums are rounded.
\<close>

section \<open>Rounding to binary64\<close>

function bit_length :: "int \<Rightarrow> int" where
  "bit_length n = (if n \<le> 0 then 0 else 1 + bit_length (n div 2))"
  by pat_completeness auto
termination
  by (relation "measure nat") auto

declare bit_length.simps [simp del]

definition round_half_even :: "rat \<Rightarrow> int" where
  "round_half_even x =
     (let f = floor x; d = x - of_int f
      in if d < 1 / 2 then f else if 1 / 2 < d then f + 1 else if even f then f else f + 1)"

text \<open>The exponent of the leading binary digit of a positive rational.\<close>

definition float_log2 :: "rat \<Rightarrow> int" where
  "float_log2 x =
     (let (p, q) = quotient_of x; k = bit_length p - bit_length q
      in if 2 powi k \<le> x then k else k - 1)"

definition round64 :: "rat \<Rightarrow> rat" where
  "round64 x =
     (if x = 0 then 0
      else let e = max (float_log2 \<bar>x\<bar> - 52) (- 1074)
           in of_int (round_half_even (x / 2 powi e)) * 2 powi e)"

section \<open>Float values\<close>

datatype pyfloat = Fin rat | PInf | NInf | NaN

definition to_float :: "rat \<Rightarrow> pyfloat" where
  "to_float x = (let r = round64 x in
     if r \<ge> (2 ^ 32) ^ 32 then PInf else if r \<le> - ((2 ^ 32) ^ 32) then NInf else Fin r)"

fun fneg :: "pyfloat \<Rightarrow> pyfloat" where
  "fneg (Fin a) = Fin (- a)"
| "fneg PInf = NInf"
| "fneg NInf = PInf"
| "fneg NaN = NaN"

fun fadd :: "pyfloat \<Rightarrow> pyfloat \<Rightarrow> pyfloat" where
  "fadd NaN _ = NaN"
| "fadd _ NaN = NaN"
| "fadd PInf NInf = NaN"
| "fadd NInf PInf = NaN"
| "fadd PInf _ = PInf"
| "fadd _ PInf = PInf"
| "fadd NInf _ = NInf"
| "fadd _ NInf = NInf"
| "fadd (Fin a) (Fin b) = to_float (a + b)"

definition fsub :: "pyfloat \<Rightarrow> pyfloat \<Rightarrow> pyfloat" where
  "fsub a b = fadd a (fneg b)"

fun flt :: "pyfloat \<Rightarrow> pyfloat \<Rightarrow> bool" where
  "flt (Fin a) (Fin b) = (a < b)"
| "flt NInf (Fin b) = True"
| "flt NInf PInf = True"
| "flt (Fin a) PInf = True"
| "flt _ _ = False"

fun fisnan :: "pyfloat \<Rightarrow> bool" where
  "fisnan NaN = True"
| "fisnan _ = False"

fun fisinf :: "pyfloat \<Rightarrow> bool" where
  "fisinf PInf = True"
| "fisinf NInf = True"
| "fisinf _ = False"

definition fisfinite :: "pyfloat \<Rightarrow> bool" where
  "fisfinite x \<longleftrightarrow> \<not> fisnan x \<and> \<not> fisinf x"

text \<open>
  Python's equality on floats: NaN differs from everything. \<open>sum\<close> adds from the left, starting
  at the integer zero (the summation of Python 3.11, the version the project requires at least;
  later versions compensate rounding errors, which makes no difference on sums without any).
\<close>

definition feq :: "pyfloat \<Rightarrow> pyfloat \<Rightarrow> bool" where
  "feq a b \<longleftrightarrow> \<not> fisnan a \<and> a = b"

definition fsum :: "pyfloat list \<Rightarrow> pyfloat" where
  "fsum xs = fold (\<lambda>x acc. fadd acc x) xs (Fin 0)"

fun fmul :: "pyfloat \<Rightarrow> pyfloat \<Rightarrow> pyfloat" where
  "fmul NaN _ = NaN"
| "fmul _ NaN = NaN"
| "fmul (Fin a) (Fin b) = to_float (a * b)"
| "fmul (Fin a) PInf = (if a = 0 then NaN else if 0 < a then PInf else NInf)"
| "fmul PInf (Fin a) = (if a = 0 then NaN else if 0 < a then PInf else NInf)"
| "fmul (Fin a) NInf = (if a = 0 then NaN else if 0 < a then NInf else PInf)"
| "fmul NInf (Fin a) = (if a = 0 then NaN else if 0 < a then NInf else PInf)"
| "fmul PInf PInf = PInf"
| "fmul NInf NInf = PInf"
| "fmul PInf NInf = NInf"
| "fmul NInf PInf = NInf"

text \<open>Clock arithmetic: the sum or the difference of two finite readings, rounded.\<close>

type_synonym timestamp = rat

definition tadd :: "timestamp \<Rightarrow> timestamp \<Rightarrow> timestamp" where
  "tadd a b = round64 (a + b)"

definition tsub :: "timestamp \<Rightarrow> timestamp \<Rightarrow> timestamp" where
  "tsub a b = round64 (a - b)"

section \<open>Integers below \<open>2\<^sup>5\<^sup>3\<close> are exact\<close>

lemma bit_length_lower: "0 < n \<Longrightarrow> 2 ^ nat (bit_length n - 1) \<le> n \<and> 1 \<le> bit_length n"
proof (induction n rule: bit_length.induct)
  case (1 n)
  show ?case
  proof (cases "n = 1")
    case True
    then show ?thesis by (simp add: bit_length.simps)
  next
    case False
    with 1 have pos: "0 < n div 2" by simp
    with 1 have ih: "2 ^ nat (bit_length (n div 2) - 1) \<le> n div 2" "1 \<le> bit_length (n div 2)"
      by auto
    have eq: "bit_length n = 1 + bit_length (n div 2)"
      using "1.prems" by (subst bit_length.simps) simp
    have "2 ^ nat (bit_length n - 1) = 2 * 2 ^ nat (bit_length (n div 2) - 1)"
      using ih(2) by (simp add: eq flip: power_Suc) (simp add: nat_eq_iff Suc_nat_eq_nat_zadd1)
    also have "\<dots> \<le> n" using ih(1) by linarith
    finally show ?thesis using eq ih(2) by simp
  qed
qed

lemma float_log2_int:
  assumes "0 < n" and "n < 2 ^ Suc m"
  shows "float_log2 (of_int n) \<le> int m"
proof -
  let ?k = "bit_length n - 1"
  have k: "2 ^ nat ?k \<le> n" "0 \<le> ?k" using bit_length_lower [OF assms(1)] by auto
  have one: "bit_length 1 = 1" by (simp add: bit_length.simps)
  have pk: "(2 :: rat) powi ?k = of_int (2 ^ nat ?k)"
    using k(2) by (simp add: power_int_def)
  have "float_log2 (of_int n) = ?k"
    using k(1) by (simp add: float_log2_def one pk del: of_int_power)
  moreover have "(2 :: int) ^ nat ?k < 2 ^ Suc m" using k(1) assms(2) by linarith
  then have "nat ?k < Suc m" by (rule power_less_imp_less_exp [rotated]) simp
  ultimately show ?thesis using k(2) by linarith
qed

lemma round_half_even_int [simp]: "round_half_even (of_int n) = n"
  by (simp add: round_half_even_def)

lemma round64_int:
  assumes "\<bar>n\<bar> < 2 ^ 53"
  shows "round64 (of_int n) = of_int n"
proof (cases "n = 0")
  case False
  define e where "e = max (float_log2 \<bar>of_int n :: rat\<bar> - 52) (- 1074)"
  have "float_log2 \<bar>of_int n\<bar> \<le> 52"
    using float_log2_int [of "\<bar>n\<bar>" 52] assms False by simp
  then have e: "e \<le> 0" by (simp add: e_def)
  have scaled: "of_int n / (2 :: rat) powi e = of_int (n * 2 ^ nat (- e))"
    using e by (simp add: power_int_def field_simps)
  have "round64 (of_int n) = of_int (round_half_even (of_int n / 2 powi e)) * 2 powi e"
    using False by (simp add: round64_def e_def Let_def)
  also have "\<dots> = (of_int n / 2 powi e) * 2 powi e"
    by (simp only: scaled round_half_even_int)
  finally show ?thesis by simp
qed (simp add: round64_def)

lemma to_float_int:
  assumes "\<bar>n\<bar> < 2 ^ 53"
  shows "to_float (of_int n) = Fin (of_int n)"
proof -
  have "(2 :: int) ^ 53 \<le> 2 ^ 1024" by (rule power_increasing) simp_all
  with assms have "\<bar>n\<bar> < 2 ^ 1024" by (rule less_le_trans)
  then have "(of_int \<bar>n\<bar> :: rat) < of_int (2 ^ 1024)" by (simp only: of_int_less_iff)
  then have "\<bar>of_int n :: rat\<bar> < 2 ^ 1024" by (simp only: of_int_abs of_int_power of_int_numeral)
  then have "\<not> (2 :: rat) ^ 1024 \<le> of_int n" "\<not> of_int n \<le> - ((2 :: rat) ^ 1024)"
    by (simp_all only: abs_less_iff not_le neg_less_iff_less minus_less_iff)
  moreover have "(2 ^ 32) ^ 32 = (2 :: rat) ^ 1024" by (simp only: flip: power_mult) simp
  ultimately show ?thesis by (simp only: to_float_def round64_int [OF assms] Let_def if_False)
qed

lemma to_float_0 [simp]: "to_float 0 = Fin 0"
  using to_float_int [of 0] by simp

lemma to_float_1 [simp]: "to_float 1 = Fin 1"
  using to_float_int [of 1] by simp

lemma to_float_numeral [simp]:
  "(numeral k :: int) < 2 ^ 53 \<Longrightarrow> to_float (numeral k) = Fin (numeral k)"
  using to_float_int [of "numeral k"] by simp

lemma to_float_neg_numeral [simp]:
  "(numeral k :: int) < 2 ^ 53 \<Longrightarrow> to_float (- numeral k) = Fin (- numeral k)"
  using to_float_int [of "- numeral k"] by simp

section \<open>Sums of integer amounts\<close>

text \<open>
  An amount list of non-negative integers whose total stays below \<open>2\<^sup>5\<^sup>3\<close> is summed without
  rounding error.
\<close>

lemma fadd_int:
  "\<bar>a + b\<bar> < 2 ^ 53 \<Longrightarrow> fadd (Fin (of_int a)) (Fin (of_int b)) = Fin (of_int (a + b))"
  using to_float_int [of "a + b"] by simp

lemma fsum_int_aux:
  "0 \<le> a \<Longrightarrow> list_all (\<lambda>n. 0 \<le> n) ns \<Longrightarrow> a + sum_list ns < 2 ^ 53 \<Longrightarrow>
    fold (\<lambda>x acc. fadd acc x) (map (\<lambda>n. Fin (of_int n)) ns) (Fin (of_int a))
      = Fin (of_int (a + sum_list ns))"
proof (induction ns arbitrary: a)
  case (Cons n ns)
  then have "0 \<le> sum_list ns" by (auto simp: list_all_iff intro: sum_list_nonneg)
  with Cons.prems have "\<bar>a + n\<bar> < 2 ^ 53" by simp
  then have "fadd (Fin (of_int a)) (Fin (of_int n)) = Fin (of_int (a + n))" by (rule fadd_int)
  with Cons.IH [of "a + n"] Cons.prems show ?case by (simp add: add.assoc)
qed simp

lemma fsum_int:
  "list_all (\<lambda>n. 0 \<le> n) ns \<Longrightarrow> sum_list ns < 2 ^ 53 \<Longrightarrow>
    fsum (map (\<lambda>n. Fin (of_int n)) ns) = Fin (of_int (sum_list ns))"
  using fsum_int_aux [of 0 ns] by (simp add: fsum_def)

end
