(* ===== verification/Python_Value.thy ===== *)
theory Python_Value
  imports Python_Float
begin

text \<open>
  The untyped values that cross a serialization boundary, and the helpers of
  \<^verbatim>\<open>src/src/autonomous/domain/ids.py\<close>: \<open>freeze\<close> and \<open>thaw\<close> and the strict readers that accept
  a value only at its exact type. Decoders of the domain theories are written with the field
  readers at the end of this theory. \<open>Untyped\<close> marks the places where Python would carry on with
  a value outside the field's declared type.
\<close>

section \<open>Values\<close>

datatype pyval =
    PNone
  | PBool bool
  | PInt int
  | PFloat pyfloat
  | PStr string
  | PList "pyval list"
  | PTuple "pyval list"
  | PDict "(string \<times> pyval) list"
  | PProxy "(string \<times> pyval) list"
  | PSet "string list"
  | PFrozenset "string list"

type_synonym pydict = "(string, pyval) dict"

datatype py_exn =
    ValueError string
  | KeyError string
  | TypeError string
  | OverflowError string
  | Untyped string

section \<open>Freezing and thawing\<close>

text \<open>Sets are modelled with string elements; \<open>thaw\<close> lists them in order.\<close>

primrec freeze :: "pyval \<Rightarrow> pyval" where
  "freeze PNone = PNone"
| "freeze (PBool b) = PBool b"
| "freeze (PInt i) = PInt i"
| "freeze (PFloat f) = PFloat f"
| "freeze (PStr s) = PStr s"
| "freeze (PList xs) = PTuple (map freeze xs)"
| "freeze (PTuple xs) = PTuple (map freeze xs)"
| "freeze (PDict kvs) = PProxy (map (map_prod id freeze) kvs)"
| "freeze (PProxy kvs) = PProxy (map (map_prod id freeze) kvs)"
| "freeze (PSet ss) = PFrozenset ss"
| "freeze (PFrozenset ss) = PFrozenset ss"

primrec thaw :: "pyval \<Rightarrow> pyval" where
  "thaw PNone = PNone"
| "thaw (PBool b) = PBool b"
| "thaw (PInt i) = PInt i"
| "thaw (PFloat f) = PFloat f"
| "thaw (PStr s) = PStr s"
| "thaw (PList xs) = PList xs"
| "thaw (PTuple xs) = PList (map thaw xs)"
| "thaw (PDict kvs) = PDict (map (map_prod id thaw) kvs)"
| "thaw (PProxy kvs) = PDict (map (map_prod id thaw) kvs)"
| "thaw (PSet ss) = PSet ss"
| "thaw (PFrozenset ss) = PList (map PStr (sort ss))"

text \<open>JSON values (what \<open>json.loads\<close> returns) and frozen values (what \<open>freeze\<close> makes of them).\<close>

primrec json_value :: "pyval \<Rightarrow> bool" where
  "json_value PNone = True"
| "json_value (PBool b) = True"
| "json_value (PInt i) = True"
| "json_value (PFloat f) = True"
| "json_value (PStr s) = True"
| "json_value (PList xs) = list_all id (map json_value xs)"
| "json_value (PTuple xs) = False"
| "json_value (PDict kvs) = list_all snd (map (map_prod id json_value) kvs)"
| "json_value (PProxy kvs) = False"
| "json_value (PSet ss) = False"
| "json_value (PFrozenset ss) = False"

primrec frozen_value :: "pyval \<Rightarrow> bool" where
  "frozen_value PNone = True"
| "frozen_value (PBool b) = True"
| "frozen_value (PInt i) = True"
| "frozen_value (PFloat f) = True"
| "frozen_value (PStr s) = True"
| "frozen_value (PList xs) = False"
| "frozen_value (PTuple xs) = list_all id (map frozen_value xs)"
| "frozen_value (PDict kvs) = False"
| "frozen_value (PProxy kvs) = list_all snd (map (map_prod id frozen_value) kvs)"
| "frozen_value (PSet ss) = False"
| "frozen_value (PFrozenset ss) = False"

lemma thaw_freeze: "json_value v \<Longrightarrow> thaw (freeze v) = v"
  by (induction v) (auto simp: list_all_iff intro!: map_idI)

lemma frozen_freeze: "json_value v \<Longrightarrow> frozen_value (freeze v)"
  by (induction v) (auto simp: list_all_iff)

lemma freeze_thaw [codec_simps]: "frozen_value v \<Longrightarrow> freeze (thaw v) = v"
  by (induction v) (auto simp: list_all_iff intro!: map_idI)

lemma json_thaw: "frozen_value v \<Longrightarrow> json_value (thaw v)"
  by (induction v) (auto simp: list_all_iff)

lemma freeze_idem: "freeze (freeze v) = freeze v"
  by (induction v) (auto)

section \<open>Strict readers\<close>

fun strict_bool :: "pyval \<Rightarrow> string \<Rightarrow> py_exn + bool" where
  "strict_bool (PBool b) field = Inr b"
| "strict_bool _ field = Inl (ValueError (field @ '' must be a boolean''))"

fun strict_int :: "pyval \<Rightarrow> string \<Rightarrow> int option \<Rightarrow> py_exn + int" where
  "strict_int (PInt i) field minimum =
     (case minimum of
        None \<Rightarrow> Inr i
      | Some m \<Rightarrow> if i < m then Inl (ValueError (field @ '' must be >= '' @ show_int m)) else Inr i)"
| "strict_int _ field minimum = Inl (ValueError (field @ '' must be an integer''))"

fun finite_float :: "pyfloat \<Rightarrow> string \<Rightarrow> py_exn + timestamp" where
  "finite_float (Fin r) field = Inr r"
| "finite_float _ field = Inl (ValueError (field @ '' must be finite''))"

fun strict_float :: "pyval \<Rightarrow> string \<Rightarrow> py_exn + timestamp" where
  "strict_float (PInt i) field =
     (case to_float (of_int i) of
        Fin r \<Rightarrow> Inr r
      | _ \<Rightarrow> Inl (OverflowError ''int too large to convert to float''))"
| "strict_float (PFloat f) field = finite_float f field"
| "strict_float _ field = Inl (ValueError (field @ '' must be numeric''))"

fun strict_str :: "pyval \<Rightarrow> string \<Rightarrow> py_exn + string" where
  "strict_str (PStr s) field = Inr s"
| "strict_str _ field = Inl (ValueError (field @ '' must be a string''))"

section \<open>Reading fields of a dictionary\<close>

text \<open>\<open>data[k]\<close> raises on a missing key, \<open>data.get(k, default)\<close> does not.\<close>

definition req :: "pydict \<Rightarrow> string \<Rightarrow> py_exn + pyval" where
  "req d k = (case dget d k of None \<Rightarrow> Inl (KeyError k) | Some v \<Rightarrow> Inr v)"

definition opt :: "pydict \<Rightarrow> string \<Rightarrow> pyval \<Rightarrow> pyval" where
  "opt d k dflt = (case dget d k of None \<Rightarrow> dflt | Some v \<Rightarrow> v)"

definition opt_str :: "pydict \<Rightarrow> string \<Rightarrow> string \<Rightarrow> py_exn + string" where
  "opt_str d k dflt = strict_str (opt d k (PStr dflt)) k"

definition req_str :: "pydict \<Rightarrow> string \<Rightarrow> py_exn + string" where
  "req_str d k = bindE (req d k) (\<lambda>v. strict_str v k)"

definition opt_int :: "pydict \<Rightarrow> string \<Rightarrow> int \<Rightarrow> int \<Rightarrow> py_exn + int" where
  "opt_int d k dflt minimum = strict_int (opt d k (PInt dflt)) k (Some minimum)"

definition opt_float :: "pydict \<Rightarrow> string \<Rightarrow> py_exn + timestamp" where
  "opt_float d k = strict_float (opt d k (PInt 0)) k"

definition opt_bool :: "pydict \<Rightarrow> string \<Rightarrow> bool \<Rightarrow> py_exn + bool" where
  "opt_bool d k dflt = strict_bool (opt d k (PBool dflt)) k"

text \<open>A field read with no type check: \<open>None\<close> or a value of the declared type.\<close>

fun raw_float_option :: "pyval \<Rightarrow> string \<Rightarrow> py_exn + timestamp option" where
  "raw_float_option PNone field = Inr None"
| "raw_float_option (PFloat (Fin r)) field = Inr (Some r)"
| "raw_float_option _ field = Inl (Untyped field)"

text \<open>\<open>None\<close> stays \<open>None\<close>, anything else must be a finite number.\<close>

fun strict_float_option :: "pyval \<Rightarrow> string \<Rightarrow> py_exn + timestamp option" where
  "strict_float_option PNone field = Inr None"
| "strict_float_option v field = bindE (strict_float v field) (\<lambda>r. Inr (Some r))"

fun raw_str_option :: "pyval \<Rightarrow> string \<Rightarrow> py_exn + string option" where
  "raw_str_option PNone field = Inr None"
| "raw_str_option (PStr s) field = Inr (Some s)"
| "raw_str_option _ field = Inl (Untyped field)"

text \<open>
  \<open>tuple(v)\<close> for a field declared as a tuple of strings. A string gives its characters: a byte of its encoding that
  is no continuation byte starts one.
\<close>

definition continues :: "char \<Rightarrow> bool" where
  "continues c \<longleftrightarrow> (of_char c :: nat) div 64 = 2"

function characters :: "string \<Rightarrow> string list" where
  "characters [] = []"
| "characters (c # cs) = (c # takeWhile continues cs) # characters (dropWhile continues cs)"
  by pat_completeness auto
termination
  by (relation "measure length") (auto simp: le_imp_less_Suc length_dropWhile_le)

fun raw_str :: "string \<Rightarrow> pyval \<Rightarrow> py_exn + string" where
  "raw_str field (PStr s) = Inr s"
| "raw_str field _ = Inl (Untyped field)"

fun str_tuple :: "pyval \<Rightarrow> string \<Rightarrow> py_exn + string list" where
  "str_tuple (PList vs) field = mapE (raw_str field) vs"
| "str_tuple (PTuple vs) field = mapE (raw_str field) vs"
| "str_tuple (PStr s) field = Inr (characters s)"
| "str_tuple (PDict kvs) field = Inr (map fst kvs)"
| "str_tuple (PProxy kvs) field = Inr (map fst kvs)"
| "str_tuple (PSet ss) field = Inl (Untyped field)"
| "str_tuple (PFrozenset ss) field = Inl (Untyped field)"
| "str_tuple _ field = Inl (TypeError ''object is not iterable'')"

definition opt_strs :: "pydict \<Rightarrow> string \<Rightarrow> py_exn + string list" where
  "opt_strs d k = str_tuple (opt d k (PTuple [])) k"

text \<open>\<open>E(v)\<close> of an enumeration: \<open>ValueError\<close> unless \<open>v\<close> is the value of a member.\<close>

fun enum_field :: "('a \<Rightarrow> string) \<Rightarrow> 'a list \<Rightarrow> pyval \<Rightarrow> py_exn + 'a" where
  "enum_field value members (PStr s) =
     (case enum_of value members s of
        Some x \<Rightarrow> Inr x
      | None \<Rightarrow> Inl (ValueError (s @ '' is not a valid member'')))"
| "enum_field value members _ = Inl (ValueError ''not a valid member'')"

definition strs_val :: "string list \<Rightarrow> pyval" where
  "strs_val ss = PList (map PStr ss)"

fun float_option_val :: "timestamp option \<Rightarrow> pyval" where
  "float_option_val None = PNone"
| "float_option_val (Some r) = PFloat (Fin r)"

fun str_option_val :: "string option \<Rightarrow> pyval" where
  "str_option_val None = PNone"
| "str_option_val (Some s) = PStr s"

lemma mapE_raw_str: "mapE (raw_str field) (map PStr ss) = Inr ss"
  by (rule mapE_map) simp

lemma field_codecs [codec_simps]:
  "str_tuple (strs_val ss) field = Inr ss"
  "raw_float_option (float_option_val ro) field = Inr ro"
  "strict_float_option (float_option_val ro) field = Inr ro"
  "raw_str_option (str_option_val so) field = Inr so"
  by (simp_all add: strs_val_def mapE_raw_str split: option.split)
    (cases ro; simp; fail | cases so; simp; fail)+

lemmas field_reader_defs [codec_simps] =
  req_def opt_def opt_str_def req_str_def opt_int_def opt_float_def opt_bool_def opt_strs_def

text \<open>\<open>set(payload) == {...}\<close> and \<open>isinstance(value, str)\<close>.\<close>

definition exact_keys :: "pydict \<Rightarrow> string list \<Rightarrow> bool" where
  "exact_keys p ks \<longleftrightarrow> set (dkeys p) = set ks"

fun pstr :: "pyval \<Rightarrow> string option" where
  "pstr (PStr s) = Some s"
| "pstr _ = None"

lemma pstr_Some [simp]: "pstr v = Some s \<longleftrightarrow> v = PStr s"
  by (cases v) simp_all

text \<open>\<open>isinstance(value, str) and value\<close>.\<close>

definition is_text :: "pyval \<Rightarrow> bool" where
  "is_text v \<longleftrightarrow> (case pstr v of None \<Rightarrow> False | Some s \<Rightarrow> s \<noteq> [])"

lemma is_text_iff: "is_text v \<longleftrightarrow> (\<exists>s. v = PStr s \<and> s \<noteq> [])"
  by (cases v) (simp_all add: is_text_def)

end
