(* ===== verification/Domain_Enums.thy ===== *)
theory Domain_Enums
  imports Python_Value
begin

text \<open>
  The state, event and policy enumerations of \<^verbatim>\<open>src/src/autonomous/domain/enums.py\<close>: one
  datatype per class, the string value of each member and the list of members in source order.
  \<open>RunState.PLANNING\<close> and \<open>StepState.EXECUTING\<close> repeat the value of an earlier member, so Python
  makes them aliases of \<open>PLAN_READY\<close> and \<open>RUNNING\<close>; they have no constructor of their own. Each
  enumeration is an instance of the interface \<open>py_enum\<close>.
\<close>

datatype goal_type =
    GT_ONE_SHOT
  | GT_SCHEDULED
  | GT_STANDING

fun goal_type_value :: "goal_type \<Rightarrow> string" where
  "goal_type_value GT_ONE_SHOT = ''one_shot''"
| "goal_type_value GT_SCHEDULED = ''scheduled''"
| "goal_type_value GT_STANDING = ''standing''"

definition goal_type_members :: "goal_type list" where
  "goal_type_members =
     [GT_ONE_SHOT, GT_SCHEDULED, GT_STANDING]"

interpretation goal_type_enum: py_enum goal_type_value goal_type_members
proof
  show "x \<in> set goal_type_members" for x by (cases x) (simp_all add: goal_type_members_def)
  show "distinct (map goal_type_value goal_type_members)" by (simp add: goal_type_members_def)
qed

datatype goal_state =
    GS_DRAFT
  | GS_ACTIVE
  | GS_PAUSED
  | GS_DEGRADED_SOURCE
  | GS_BLOCKED_SOURCE
  | GS_CANCELED
  | GS_EXPIRED

fun goal_state_value :: "goal_state \<Rightarrow> string" where
  "goal_state_value GS_DRAFT = ''draft''"
| "goal_state_value GS_ACTIVE = ''active''"
| "goal_state_value GS_PAUSED = ''paused''"
| "goal_state_value GS_DEGRADED_SOURCE = ''degraded_source''"
| "goal_state_value GS_BLOCKED_SOURCE = ''blocked_source''"
| "goal_state_value GS_CANCELED = ''canceled''"
| "goal_state_value GS_EXPIRED = ''expired''"

definition goal_state_members :: "goal_state list" where
  "goal_state_members =
     [GS_DRAFT, GS_ACTIVE, GS_PAUSED, GS_DEGRADED_SOURCE, GS_BLOCKED_SOURCE, GS_CANCELED,
      GS_EXPIRED]"

interpretation goal_state_enum: py_enum goal_state_value goal_state_members
proof
  show "x \<in> set goal_state_members" for x by (cases x) (simp_all add: goal_state_members_def)
  show "distinct (map goal_state_value goal_state_members)" by (simp add: goal_state_members_def)
qed

datatype run_state =
    RS_RECEIVED
  | RS_CLARIFYING
  | RS_PLAN_READY
  | RS_APPROVAL_PENDING
  | RS_SCHEDULED
  | RS_QUEUED
  | RS_EXECUTING
  | RS_VERIFYING
  | RS_REPLAN_PENDING
  | RS_PAUSED
  | RS_BLOCKED
  | RS_ACCEPTANCE_PENDING
  | RS_CANCELLING
  | RS_RECONCILIATION_PENDING
  | RS_SUCCEEDED
  | RS_FAILED
  | RS_CANCELED
  | RS_EXPIRED
  | RS_SUPERSEDED_PENDING_DRAIN

fun run_state_value :: "run_state \<Rightarrow> string" where
  "run_state_value RS_RECEIVED = ''received''"
| "run_state_value RS_CLARIFYING = ''clarifying''"
| "run_state_value RS_PLAN_READY = ''plan_ready''"
| "run_state_value RS_APPROVAL_PENDING = ''approval_pending''"
| "run_state_value RS_SCHEDULED = ''scheduled''"
| "run_state_value RS_QUEUED = ''queued''"
| "run_state_value RS_EXECUTING = ''executing''"
| "run_state_value RS_VERIFYING = ''verifying''"
| "run_state_value RS_REPLAN_PENDING = ''replan_pending''"
| "run_state_value RS_PAUSED = ''paused''"
| "run_state_value RS_BLOCKED = ''blocked''"
| "run_state_value RS_ACCEPTANCE_PENDING = ''acceptance_pending''"
| "run_state_value RS_CANCELLING = ''cancelling''"
| "run_state_value RS_RECONCILIATION_PENDING = ''reconciliation_pending''"
| "run_state_value RS_SUCCEEDED = ''succeeded''"
| "run_state_value RS_FAILED = ''failed''"
| "run_state_value RS_CANCELED = ''canceled''"
| "run_state_value RS_EXPIRED = ''expired''"
| "run_state_value RS_SUPERSEDED_PENDING_DRAIN = ''superseded_pending_drain''"

definition run_state_members :: "run_state list" where
  "run_state_members =
     [RS_RECEIVED, RS_CLARIFYING, RS_PLAN_READY, RS_APPROVAL_PENDING, RS_SCHEDULED, RS_QUEUED,
      RS_EXECUTING, RS_VERIFYING, RS_REPLAN_PENDING, RS_PAUSED, RS_BLOCKED,
      RS_ACCEPTANCE_PENDING, RS_CANCELLING, RS_RECONCILIATION_PENDING, RS_SUCCEEDED, RS_FAILED,
      RS_CANCELED, RS_EXPIRED, RS_SUPERSEDED_PENDING_DRAIN]"

interpretation run_state_enum: py_enum run_state_value run_state_members
proof
  show "x \<in> set run_state_members" for x by (cases x) (simp_all add: run_state_members_def)
  show "distinct (map run_state_value run_state_members)" by (simp add: run_state_members_def)
qed

datatype plan_state =
    PS_DRAFT
  | PS_COMPILED
  | PS_VALIDATED
  | PS_ACTIVE
  | PS_SUPERSEDED_PENDING_DRAIN
  | PS_SUPERSEDED
  | PS_INVALID

fun plan_state_value :: "plan_state \<Rightarrow> string" where
  "plan_state_value PS_DRAFT = ''draft''"
| "plan_state_value PS_COMPILED = ''compiled''"
| "plan_state_value PS_VALIDATED = ''validated''"
| "plan_state_value PS_ACTIVE = ''active''"
| "plan_state_value PS_SUPERSEDED_PENDING_DRAIN = ''superseded_pending_drain''"
| "plan_state_value PS_SUPERSEDED = ''superseded''"
| "plan_state_value PS_INVALID = ''invalid''"

definition plan_state_members :: "plan_state list" where
  "plan_state_members =
     [PS_DRAFT, PS_COMPILED, PS_VALIDATED, PS_ACTIVE, PS_SUPERSEDED_PENDING_DRAIN, PS_SUPERSEDED,
      PS_INVALID]"

interpretation plan_state_enum: py_enum plan_state_value plan_state_members
proof
  show "x \<in> set plan_state_members" for x by (cases x) (simp_all add: plan_state_members_def)
  show "distinct (map plan_state_value plan_state_members)" by (simp add: plan_state_members_def)
qed

datatype step_state =
    SS_PENDING
  | SS_READY
  | SS_LEASED
  | SS_RUNNING
  | SS_OUTPUT_STAGED
  | SS_VERIFYING
  | SS_SUCCEEDED
  | SS_RETRY_WAIT
  | SS_ORPHANED
  | SS_RECONCILING
  | SS_REJECTED
  | SS_CANCELLING
  | SS_FAILED
  | SS_SKIPPED
  | SS_CANCELED

fun step_state_value :: "step_state \<Rightarrow> string" where
  "step_state_value SS_PENDING = ''pending''"
| "step_state_value SS_READY = ''ready''"
| "step_state_value SS_LEASED = ''leased''"
| "step_state_value SS_RUNNING = ''running''"
| "step_state_value SS_OUTPUT_STAGED = ''output_staged''"
| "step_state_value SS_VERIFYING = ''verifying''"
| "step_state_value SS_SUCCEEDED = ''succeeded''"
| "step_state_value SS_RETRY_WAIT = ''retry_wait''"
| "step_state_value SS_ORPHANED = ''orphaned''"
| "step_state_value SS_RECONCILING = ''reconciling''"
| "step_state_value SS_REJECTED = ''rejected''"
| "step_state_value SS_CANCELLING = ''cancelling''"
| "step_state_value SS_FAILED = ''failed''"
| "step_state_value SS_SKIPPED = ''skipped''"
| "step_state_value SS_CANCELED = ''canceled''"

definition step_state_members :: "step_state list" where
  "step_state_members =
     [SS_PENDING, SS_READY, SS_LEASED, SS_RUNNING, SS_OUTPUT_STAGED, SS_VERIFYING, SS_SUCCEEDED,
      SS_RETRY_WAIT, SS_ORPHANED, SS_RECONCILING, SS_REJECTED, SS_CANCELLING, SS_FAILED,
      SS_SKIPPED, SS_CANCELED]"

interpretation step_state_enum: py_enum step_state_value step_state_members
proof
  show "x \<in> set step_state_members" for x by (cases x) (simp_all add: step_state_members_def)
  show "distinct (map step_state_value step_state_members)" by (simp add: step_state_members_def)
qed

datatype attempt_state =
    AS_ACTIVE
  | AS_SUCCEEDED
  | AS_FAILED
  | AS_TIMED_OUT
  | AS_CANCELLING
  | AS_CANCELED
  | AS_ORPHANED
  | AS_RECONCILING

fun attempt_state_value :: "attempt_state \<Rightarrow> string" where
  "attempt_state_value AS_ACTIVE = ''active''"
| "attempt_state_value AS_SUCCEEDED = ''succeeded''"
| "attempt_state_value AS_FAILED = ''failed''"
| "attempt_state_value AS_TIMED_OUT = ''timed_out''"
| "attempt_state_value AS_CANCELLING = ''cancelling''"
| "attempt_state_value AS_CANCELED = ''canceled''"
| "attempt_state_value AS_ORPHANED = ''orphaned''"
| "attempt_state_value AS_RECONCILING = ''reconciling''"

definition attempt_state_members :: "attempt_state list" where
  "attempt_state_members =
     [AS_ACTIVE, AS_SUCCEEDED, AS_FAILED, AS_TIMED_OUT, AS_CANCELLING, AS_CANCELED, AS_ORPHANED,
      AS_RECONCILING]"

interpretation attempt_state_enum: py_enum attempt_state_value attempt_state_members
proof
  show "x \<in> set attempt_state_members" for x by (cases x) (simp_all add: attempt_state_members_def)
  show "distinct (map attempt_state_value attempt_state_members)" by (simp add: attempt_state_members_def)
qed

datatype effect_state =
    ES_PROPOSED
  | ES_POLICY_ALLOWED
  | ES_POLICY_DENIED
  | ES_PREPARED
  | ES_ABORTED_NO_DISPATCH
  | ES_EXECUTING
  | ES_COMMITTED
  | ES_UNKNOWN_EFFECT
  | ES_RECONCILING
  | ES_RETRY_AUTHORIZED
  | ES_MANUAL_RECONCILIATION
  | ES_FAILED_SAFE
  | ES_COMPENSATING
  | ES_COMPENSATED
  | ES_COMPENSATION_FAILED
  | ES_ABANDONED_ACCEPTED

fun effect_state_value :: "effect_state \<Rightarrow> string" where
  "effect_state_value ES_PROPOSED = ''proposed''"
| "effect_state_value ES_POLICY_ALLOWED = ''policy_allowed''"
| "effect_state_value ES_POLICY_DENIED = ''policy_denied''"
| "effect_state_value ES_PREPARED = ''prepared''"
| "effect_state_value ES_ABORTED_NO_DISPATCH = ''aborted_no_dispatch''"
| "effect_state_value ES_EXECUTING = ''executing''"
| "effect_state_value ES_COMMITTED = ''committed''"
| "effect_state_value ES_UNKNOWN_EFFECT = ''unknown_effect''"
| "effect_state_value ES_RECONCILING = ''reconciling''"
| "effect_state_value ES_RETRY_AUTHORIZED = ''retry_authorized''"
| "effect_state_value ES_MANUAL_RECONCILIATION = ''manual_reconciliation''"
| "effect_state_value ES_FAILED_SAFE = ''failed_safe''"
| "effect_state_value ES_COMPENSATING = ''compensating''"
| "effect_state_value ES_COMPENSATED = ''compensated''"
| "effect_state_value ES_COMPENSATION_FAILED = ''compensation_failed''"
| "effect_state_value ES_ABANDONED_ACCEPTED = ''abandoned_accepted''"

definition effect_state_members :: "effect_state list" where
  "effect_state_members =
     [ES_PROPOSED, ES_POLICY_ALLOWED, ES_POLICY_DENIED, ES_PREPARED, ES_ABORTED_NO_DISPATCH,
      ES_EXECUTING, ES_COMMITTED, ES_UNKNOWN_EFFECT, ES_RECONCILING, ES_RETRY_AUTHORIZED,
      ES_MANUAL_RECONCILIATION, ES_FAILED_SAFE, ES_COMPENSATING, ES_COMPENSATED,
      ES_COMPENSATION_FAILED, ES_ABANDONED_ACCEPTED]"

interpretation effect_state_enum: py_enum effect_state_value effect_state_members
proof
  show "x \<in> set effect_state_members" for x by (cases x) (simp_all add: effect_state_members_def)
  show "distinct (map effect_state_value effect_state_members)" by (simp add: effect_state_members_def)
qed

datatype risk_level =
    RL_R0
  | RL_R1
  | RL_R2
  | RL_R3
  | RL_R4

fun risk_level_value :: "risk_level \<Rightarrow> string" where
  "risk_level_value RL_R0 = ''r0''"
| "risk_level_value RL_R1 = ''r1''"
| "risk_level_value RL_R2 = ''r2''"
| "risk_level_value RL_R3 = ''r3''"
| "risk_level_value RL_R4 = ''r4''"

definition risk_level_members :: "risk_level list" where
  "risk_level_members =
     [RL_R0, RL_R1, RL_R2, RL_R3, RL_R4]"

interpretation risk_level_enum: py_enum risk_level_value risk_level_members
proof
  show "x \<in> set risk_level_members" for x by (cases x) (simp_all add: risk_level_members_def)
  show "distinct (map risk_level_value risk_level_members)" by (simp add: risk_level_members_def)
qed

datatype autonomy_mode =
    AM_ASSIST
  | AM_SUPERVISED
  | AM_BOUNDED_AUTONOMOUS

fun autonomy_mode_value :: "autonomy_mode \<Rightarrow> string" where
  "autonomy_mode_value AM_ASSIST = ''assist''"
| "autonomy_mode_value AM_SUPERVISED = ''supervised''"
| "autonomy_mode_value AM_BOUNDED_AUTONOMOUS = ''bounded_autonomous''"

definition autonomy_mode_members :: "autonomy_mode list" where
  "autonomy_mode_members =
     [AM_ASSIST, AM_SUPERVISED, AM_BOUNDED_AUTONOMOUS]"

interpretation autonomy_mode_enum: py_enum autonomy_mode_value autonomy_mode_members
proof
  show "x \<in> set autonomy_mode_members" for x by (cases x) (simp_all add: autonomy_mode_members_def)
  show "distinct (map autonomy_mode_value autonomy_mode_members)" by (simp add: autonomy_mode_members_def)
qed

datatype oracle_type =
    OT_COMMAND
  | OT_RESOURCE
  | OT_DATA
  | OT_SCHEMA
  | OT_REVIEW
  | OT_HUMAN

fun oracle_type_value :: "oracle_type \<Rightarrow> string" where
  "oracle_type_value OT_COMMAND = ''command''"
| "oracle_type_value OT_RESOURCE = ''resource''"
| "oracle_type_value OT_DATA = ''data''"
| "oracle_type_value OT_SCHEMA = ''schema''"
| "oracle_type_value OT_REVIEW = ''review''"
| "oracle_type_value OT_HUMAN = ''human''"

definition oracle_type_members :: "oracle_type list" where
  "oracle_type_members =
     [OT_COMMAND, OT_RESOURCE, OT_DATA, OT_SCHEMA, OT_REVIEW, OT_HUMAN]"

interpretation oracle_type_enum: py_enum oracle_type_value oracle_type_members
proof
  show "x \<in> set oracle_type_members" for x by (cases x) (simp_all add: oracle_type_members_def)
  show "distinct (map oracle_type_value oracle_type_members)" by (simp add: oracle_type_members_def)
qed

datatype misfire_policy =
    MP_RUN_ALL
  | MP_SKIP
  | MP_RUN_LATEST

fun misfire_policy_value :: "misfire_policy \<Rightarrow> string" where
  "misfire_policy_value MP_RUN_ALL = ''run_all''"
| "misfire_policy_value MP_SKIP = ''skip''"
| "misfire_policy_value MP_RUN_LATEST = ''run_latest''"

definition misfire_policy_members :: "misfire_policy list" where
  "misfire_policy_members =
     [MP_RUN_ALL, MP_SKIP, MP_RUN_LATEST]"

interpretation misfire_policy_enum: py_enum misfire_policy_value misfire_policy_members
proof
  show "x \<in> set misfire_policy_members" for x by (cases x) (simp_all add: misfire_policy_members_def)
  show "distinct (map misfire_policy_value misfire_policy_members)" by (simp add: misfire_policy_members_def)
qed

datatype overlap_policy =
    OP_FORBID
  | OP_QUEUE
  | OP_ALLOW_PARALLEL

fun overlap_policy_value :: "overlap_policy \<Rightarrow> string" where
  "overlap_policy_value OP_FORBID = ''forbid''"
| "overlap_policy_value OP_QUEUE = ''queue''"
| "overlap_policy_value OP_ALLOW_PARALLEL = ''allow_parallel''"

definition overlap_policy_members :: "overlap_policy list" where
  "overlap_policy_members =
     [OP_FORBID, OP_QUEUE, OP_ALLOW_PARALLEL]"

interpretation overlap_policy_enum: py_enum overlap_policy_value overlap_policy_members
proof
  show "x \<in> set overlap_policy_members" for x by (cases x) (simp_all add: overlap_policy_members_def)
  show "distinct (map overlap_policy_value overlap_policy_members)" by (simp add: overlap_policy_members_def)
qed

datatype run_event =
    RE_CLARIFICATION_REQUIRED
  | RE_GOAL_DEFINED
  | RE_PLAN_VALIDATED
  | RE_APPROVAL_REQUIRED
  | RE_ACTIVATED
  | RE_STARTED
  | RE_OUTPUT_SUBMITTED
  | RE_VERIFICATION_FAILED
  | RE_VERIFICATION_PASSED
  | RE_REPLAN_REQUESTED
  | RE_SUPERSEDE_REQUESTED
  | RE_SUPERSEDE_DRAINED
  | RE_BLOCKED
  | RE_PAUSED
  | RE_RESUMED
  | RE_ACCEPTANCE_REQUIRED
  | RE_HUMAN_ACCEPTED
  | RE_HUMAN_REJECTED
  | RE_CANCEL_REQUESTED
  | RE_CANCEL_DRAINED
  | RE_FAILED
  | RE_EXPIRED
  | RE_RECONCILIATION_COMPLETED

fun run_event_value :: "run_event \<Rightarrow> string" where
  "run_event_value RE_CLARIFICATION_REQUIRED = ''clarification_required''"
| "run_event_value RE_GOAL_DEFINED = ''goal_defined''"
| "run_event_value RE_PLAN_VALIDATED = ''plan_validated''"
| "run_event_value RE_APPROVAL_REQUIRED = ''approval_required''"
| "run_event_value RE_ACTIVATED = ''activated''"
| "run_event_value RE_STARTED = ''started''"
| "run_event_value RE_OUTPUT_SUBMITTED = ''output_submitted''"
| "run_event_value RE_VERIFICATION_FAILED = ''verification_failed''"
| "run_event_value RE_VERIFICATION_PASSED = ''verification_passed''"
| "run_event_value RE_REPLAN_REQUESTED = ''replan_requested''"
| "run_event_value RE_SUPERSEDE_REQUESTED = ''supersede_requested''"
| "run_event_value RE_SUPERSEDE_DRAINED = ''supersede_drained''"
| "run_event_value RE_BLOCKED = ''blocked''"
| "run_event_value RE_PAUSED = ''paused''"
| "run_event_value RE_RESUMED = ''resumed''"
| "run_event_value RE_ACCEPTANCE_REQUIRED = ''acceptance_required''"
| "run_event_value RE_HUMAN_ACCEPTED = ''human_accepted''"
| "run_event_value RE_HUMAN_REJECTED = ''human_rejected''"
| "run_event_value RE_CANCEL_REQUESTED = ''cancel_requested''"
| "run_event_value RE_CANCEL_DRAINED = ''cancel_drained''"
| "run_event_value RE_FAILED = ''failed''"
| "run_event_value RE_EXPIRED = ''expired''"
| "run_event_value RE_RECONCILIATION_COMPLETED = ''reconciliation_completed''"

definition run_event_members :: "run_event list" where
  "run_event_members =
     [RE_CLARIFICATION_REQUIRED, RE_GOAL_DEFINED, RE_PLAN_VALIDATED, RE_APPROVAL_REQUIRED,
      RE_ACTIVATED, RE_STARTED, RE_OUTPUT_SUBMITTED, RE_VERIFICATION_FAILED,
      RE_VERIFICATION_PASSED, RE_REPLAN_REQUESTED, RE_SUPERSEDE_REQUESTED, RE_SUPERSEDE_DRAINED,
      RE_BLOCKED, RE_PAUSED, RE_RESUMED, RE_ACCEPTANCE_REQUIRED, RE_HUMAN_ACCEPTED,
      RE_HUMAN_REJECTED, RE_CANCEL_REQUESTED, RE_CANCEL_DRAINED, RE_FAILED, RE_EXPIRED,
      RE_RECONCILIATION_COMPLETED]"

interpretation run_event_enum: py_enum run_event_value run_event_members
proof
  show "x \<in> set run_event_members" for x by (cases x) (simp_all add: run_event_members_def)
  show "distinct (map run_event_value run_event_members)" by (simp add: run_event_members_def)
qed

datatype plan_event =
    PE_COMPILED
  | PE_VALIDATED
  | PE_ACTIVATED
  | PE_SUPERSEDE_REQUESTED
  | PE_DRAINED
  | PE_INVALIDATED

fun plan_event_value :: "plan_event \<Rightarrow> string" where
  "plan_event_value PE_COMPILED = ''compiled''"
| "plan_event_value PE_VALIDATED = ''validated''"
| "plan_event_value PE_ACTIVATED = ''activated''"
| "plan_event_value PE_SUPERSEDE_REQUESTED = ''supersede_requested''"
| "plan_event_value PE_DRAINED = ''drained''"
| "plan_event_value PE_INVALIDATED = ''invalidated''"

definition plan_event_members :: "plan_event list" where
  "plan_event_members =
     [PE_COMPILED, PE_VALIDATED, PE_ACTIVATED, PE_SUPERSEDE_REQUESTED, PE_DRAINED, PE_INVALIDATED]"

interpretation plan_event_enum: py_enum plan_event_value plan_event_members
proof
  show "x \<in> set plan_event_members" for x by (cases x) (simp_all add: plan_event_members_def)
  show "distinct (map plan_event_value plan_event_members)" by (simp add: plan_event_members_def)
qed

datatype step_event =
    SE_DEPENDENCIES_SATISFIED
  | SE_LEASE_GRANTED
  | SE_WORKER_STARTED
  | SE_OUTPUT_STAGED
  | SE_VERIFY_STARTED
  | SE_VERIFIED
  | SE_ATTEMPT_FAILED
  | SE_ATTEMPTS_EXHAUSTED
  | SE_RETRY_READY
  | SE_RETRY_AUTHORIZED
  | SE_WORKER_LOST
  | SE_RECONCILE_STARTED
  | SE_RECONCILE_RETRY
  | SE_REJECTED
  | SE_SKIP_AUTHORIZED
  | SE_CANCEL_REQUESTED
  | SE_CANCELED

fun step_event_value :: "step_event \<Rightarrow> string" where
  "step_event_value SE_DEPENDENCIES_SATISFIED = ''dependencies_satisfied''"
| "step_event_value SE_LEASE_GRANTED = ''lease_granted''"
| "step_event_value SE_WORKER_STARTED = ''worker_started''"
| "step_event_value SE_OUTPUT_STAGED = ''output_staged''"
| "step_event_value SE_VERIFY_STARTED = ''verify_started''"
| "step_event_value SE_VERIFIED = ''verified''"
| "step_event_value SE_ATTEMPT_FAILED = ''attempt_failed''"
| "step_event_value SE_ATTEMPTS_EXHAUSTED = ''attempts_exhausted''"
| "step_event_value SE_RETRY_READY = ''retry_ready''"
| "step_event_value SE_RETRY_AUTHORIZED = ''retry_authorized''"
| "step_event_value SE_WORKER_LOST = ''worker_lost''"
| "step_event_value SE_RECONCILE_STARTED = ''reconcile_started''"
| "step_event_value SE_RECONCILE_RETRY = ''reconcile_retry''"
| "step_event_value SE_REJECTED = ''rejected''"
| "step_event_value SE_SKIP_AUTHORIZED = ''skip_authorized''"
| "step_event_value SE_CANCEL_REQUESTED = ''cancel_requested''"
| "step_event_value SE_CANCELED = ''canceled''"

definition step_event_members :: "step_event list" where
  "step_event_members =
     [SE_DEPENDENCIES_SATISFIED, SE_LEASE_GRANTED, SE_WORKER_STARTED, SE_OUTPUT_STAGED,
      SE_VERIFY_STARTED, SE_VERIFIED, SE_ATTEMPT_FAILED, SE_ATTEMPTS_EXHAUSTED, SE_RETRY_READY,
      SE_RETRY_AUTHORIZED, SE_WORKER_LOST, SE_RECONCILE_STARTED, SE_RECONCILE_RETRY, SE_REJECTED,
      SE_SKIP_AUTHORIZED, SE_CANCEL_REQUESTED, SE_CANCELED]"

interpretation step_event_enum: py_enum step_event_value step_event_members
proof
  show "x \<in> set step_event_members" for x by (cases x) (simp_all add: step_event_members_def)
  show "distinct (map step_event_value step_event_members)" by (simp add: step_event_members_def)
qed

datatype effect_event =
    EE_POLICY_ALLOWED
  | EE_POLICY_DENIED
  | EE_PREPARED
  | EE_PREPARE_FAILED
  | EE_ABORT_BEFORE_DISPATCH
  | EE_DISPATCH_STARTED
  | EE_DISPATCH_COMMITTED
  | EE_DISPATCH_FAILED_SAFE
  | EE_DISPATCH_UNKNOWN
  | EE_RECONCILE_STARTED
  | EE_REMOTE_COMMITTED
  | EE_REMOTE_NOT_EXECUTED
  | EE_RETRY_AUTHORIZED
  | EE_MANUAL_REQUIRED
  | EE_COMPENSATE_STARTED
  | EE_COMPENSATED
  | EE_COMPENSATION_FAILED
  | EE_ABANDONED_ACCEPTED

fun effect_event_value :: "effect_event \<Rightarrow> string" where
  "effect_event_value EE_POLICY_ALLOWED = ''policy_allowed''"
| "effect_event_value EE_POLICY_DENIED = ''policy_denied''"
| "effect_event_value EE_PREPARED = ''prepared''"
| "effect_event_value EE_PREPARE_FAILED = ''prepare_failed''"
| "effect_event_value EE_ABORT_BEFORE_DISPATCH = ''abort_before_dispatch''"
| "effect_event_value EE_DISPATCH_STARTED = ''dispatch_started''"
| "effect_event_value EE_DISPATCH_COMMITTED = ''dispatch_committed''"
| "effect_event_value EE_DISPATCH_FAILED_SAFE = ''dispatch_failed_safe''"
| "effect_event_value EE_DISPATCH_UNKNOWN = ''dispatch_unknown''"
| "effect_event_value EE_RECONCILE_STARTED = ''reconcile_started''"
| "effect_event_value EE_REMOTE_COMMITTED = ''remote_committed''"
| "effect_event_value EE_REMOTE_NOT_EXECUTED = ''remote_not_executed''"
| "effect_event_value EE_RETRY_AUTHORIZED = ''retry_authorized''"
| "effect_event_value EE_MANUAL_REQUIRED = ''manual_required''"
| "effect_event_value EE_COMPENSATE_STARTED = ''compensate_started''"
| "effect_event_value EE_COMPENSATED = ''compensated''"
| "effect_event_value EE_COMPENSATION_FAILED = ''compensation_failed''"
| "effect_event_value EE_ABANDONED_ACCEPTED = ''abandoned_accepted''"

definition effect_event_members :: "effect_event list" where
  "effect_event_members =
     [EE_POLICY_ALLOWED, EE_POLICY_DENIED, EE_PREPARED, EE_PREPARE_FAILED,
      EE_ABORT_BEFORE_DISPATCH, EE_DISPATCH_STARTED, EE_DISPATCH_COMMITTED,
      EE_DISPATCH_FAILED_SAFE, EE_DISPATCH_UNKNOWN, EE_RECONCILE_STARTED, EE_REMOTE_COMMITTED,
      EE_REMOTE_NOT_EXECUTED, EE_RETRY_AUTHORIZED, EE_MANUAL_REQUIRED, EE_COMPENSATE_STARTED,
      EE_COMPENSATED, EE_COMPENSATION_FAILED, EE_ABANDONED_ACCEPTED]"

interpretation effect_event_enum: py_enum effect_event_value effect_event_members
proof
  show "x \<in> set effect_event_members" for x by (cases x) (simp_all add: effect_event_members_def)
  show "distinct (map effect_event_value effect_event_members)" by (simp add: effect_event_members_def)
qed

datatype effect_disposition_type =
    ED_RETAINED
  | ED_COMPENSATED
  | ED_ABANDONED_ACCEPTED
  | ED_FAILED_SAFE

fun effect_disposition_type_value :: "effect_disposition_type \<Rightarrow> string" where
  "effect_disposition_type_value ED_RETAINED = ''retained''"
| "effect_disposition_type_value ED_COMPENSATED = ''compensated''"
| "effect_disposition_type_value ED_ABANDONED_ACCEPTED = ''abandoned_accepted''"
| "effect_disposition_type_value ED_FAILED_SAFE = ''failed_safe''"

definition effect_disposition_type_members :: "effect_disposition_type list" where
  "effect_disposition_type_members =
     [ED_RETAINED, ED_COMPENSATED, ED_ABANDONED_ACCEPTED, ED_FAILED_SAFE]"

interpretation effect_disposition_type_enum: py_enum effect_disposition_type_value effect_disposition_type_members
proof
  show "x \<in> set effect_disposition_type_members" for x by (cases x) (simp_all add: effect_disposition_type_members_def)
  show "distinct (map effect_disposition_type_value effect_disposition_type_members)" by (simp add: effect_disposition_type_members_def)
qed

lemmas enum_value_rules [simp, codec_simps] =
  goal_type_enum.of_value goal_type_enum.value_inj
  goal_state_enum.of_value goal_state_enum.value_inj
  run_state_enum.of_value run_state_enum.value_inj
  plan_state_enum.of_value plan_state_enum.value_inj
  step_state_enum.of_value step_state_enum.value_inj
  attempt_state_enum.of_value attempt_state_enum.value_inj
  effect_state_enum.of_value effect_state_enum.value_inj
  risk_level_enum.of_value risk_level_enum.value_inj
  autonomy_mode_enum.of_value autonomy_mode_enum.value_inj
  oracle_type_enum.of_value oracle_type_enum.value_inj
  misfire_policy_enum.of_value misfire_policy_enum.value_inj
  overlap_policy_enum.of_value overlap_policy_enum.value_inj
  run_event_enum.of_value run_event_enum.value_inj
  plan_event_enum.of_value plan_event_enum.value_inj
  step_event_enum.of_value step_event_enum.value_inj
  effect_event_enum.of_value effect_event_enum.value_inj
  effect_disposition_type_enum.of_value effect_disposition_type_enum.value_inj

end
