(* ===== verification/Domain_Effects.thy ===== *)
theory Domain_Effects
  imports Domain_Enums
begin

text \<open>
  The aggregates of \<^verbatim>\<open>src/src/autonomous/domain/effects.py\<close>: an external side effect and its
  ledger state, evidence, capability descriptors, final dispositions and resource quarantines,
  with their dictionary encodings. The identifiers that Python draws at random and the clock
  readings are arguments. Each class with \<open>to_dict\<close> and \<open>from_dict\<close> interprets the interface
  \<open>codec\<close>.
\<close>

section \<open>Effects\<close>

definition UNRESOLVED_EFFECT_STATES :: "effect_state list" where
  "UNRESOLVED_EFFECT_STATES =
     [ES_PROPOSED, ES_POLICY_ALLOWED, ES_PREPARED, ES_EXECUTING, ES_UNKNOWN_EFFECT,
      ES_RECONCILING, ES_RETRY_AUTHORIZED, ES_MANUAL_RECONCILIATION, ES_COMPENSATING,
      ES_COMPENSATION_FAILED]"

record effect =
  ef_effect_id :: string
  ef_effect_instance_id :: string
  ef_effect_lineage_id :: string
  ef_action_intent_id :: string
  ef_execution_seq :: int
  ef_state :: effect_state
  ef_capability :: string
  ef_capability_version :: string
  ef_resource_id :: string
  ef_resource_key :: string
  ef_semantic_action_key :: string
  ef_risk_level :: risk_level
  ef_attempt_id :: string
  ef_run_id :: string
  ef_tenant_key :: string
  ef_created_at :: timestamp
  ef_committed_at :: "timestamp option"
  ef_evidence_hash :: string
  ef_cleanup_grant_id :: string
  ef_provider_idempotency_key :: string
  ef_adapter_hash :: string
  ef_schema_hash :: string
  ef_canonicalization_version :: string
  ef_active_dispatch :: bool
  ef_parent_effect_instance_id :: string
  ef_aggregate_version :: int

text \<open>The constructor's \<open>__post_init__\<close>: identifiers are completed, then the dispatch flag checked.\<close>

definition effect_init :: "effect \<Rightarrow> py_exn + effect" where
  "effect_init e0 =
     (let e1 = (if ef_effect_instance_id e0 = [] then e0\<lparr>ef_effect_instance_id := ef_effect_id e0\<rparr> else e0);
          e2 = (if ef_effect_id e1 = [] then e1\<lparr>ef_effect_id := ef_effect_instance_id e1\<rparr> else e1);
          e3 = (if ef_effect_lineage_id e2 = []
                then e2\<lparr>ef_effect_lineage_id :=
                  (if ef_action_intent_id e2 \<noteq> [] then ef_action_intent_id e2
                   else ef_effect_instance_id e2)\<rparr>
                else e2)
      in if ef_active_dispatch e3 \<noteq> (ef_state e3 = ES_EXECUTING)
         then Inl (ValueError ''active_dispatch must be true exactly while Effect is executing'')
         else Inr e3)"

definition is_unresolved :: "effect \<Rightarrow> bool" where
  "is_unresolved e \<longleftrightarrow> ef_state e \<in> set UNRESOLVED_EFFECT_STATES"

definition effect_to_dict :: "effect \<Rightarrow> pydict" where
  "effect_to_dict e =
     [(''effect_id'', PStr (ef_effect_id e)),
      (''effect_instance_id'', PStr (ef_effect_instance_id e)),
      (''effect_lineage_id'', PStr (ef_effect_lineage_id e)),
      (''action_intent_id'', PStr (ef_action_intent_id e)),
      (''execution_seq'', PInt (ef_execution_seq e)),
      (''state'', PStr (effect_state_value (ef_state e))),
      (''capability'', PStr (ef_capability e)),
      (''capability_version'', PStr (ef_capability_version e)),
      (''resource_id'', PStr (ef_resource_id e)),
      (''resource_key'', PStr (ef_resource_key e)),
      (''semantic_action_key'', PStr (ef_semantic_action_key e)),
      (''risk_level'', PStr (risk_level_value (ef_risk_level e))),
      (''attempt_id'', PStr (ef_attempt_id e)),
      (''run_id'', PStr (ef_run_id e)),
      (''tenant_key'', PStr (ef_tenant_key e)),
      (''created_at'', PFloat (Fin (ef_created_at e))),
      (''committed_at'', float_option_val (ef_committed_at e)),
      (''evidence_hash'', PStr (ef_evidence_hash e)),
      (''cleanup_grant_id'', PStr (ef_cleanup_grant_id e)),
      (''provider_idempotency_key'', PStr (ef_provider_idempotency_key e)),
      (''adapter_hash'', PStr (ef_adapter_hash e)),
      (''schema_hash'', PStr (ef_schema_hash e)),
      (''canonicalization_version'', PStr (ef_canonicalization_version e)),
      (''active_dispatch'', PBool (ef_active_dispatch e)),
      (''parent_effect_instance_id'', PStr (ef_parent_effect_instance_id e)),
      (''aggregate_version'', PInt (ef_aggregate_version e))]"

definition effect_from_dict :: "pydict \<Rightarrow> py_exn + effect" where
  "effect_from_dict d =
     (if dget d ''risk_level'' = None then Inl (ValueError ''risk_level is required'') else
     bindE (opt_str d ''effect_id'' []) (\<lambda>x_effect_id.
     bindE (opt_str d ''effect_instance_id'' []) (\<lambda>x_effect_instance_id.
     bindE (opt_str d ''effect_lineage_id'' []) (\<lambda>x_effect_lineage_id.
     bindE (opt_str d ''action_intent_id'' []) (\<lambda>x_action_intent_id.
     bindE (opt_int d ''execution_seq'' 0 0) (\<lambda>x_execution_seq.
     bindE (enum_field effect_state_value effect_state_members (opt d ''state'' (PStr (effect_state_value ES_PROPOSED)))) (\<lambda>x_state.
     bindE (opt_str d ''capability'' []) (\<lambda>x_capability.
     bindE (opt_str d ''capability_version'' []) (\<lambda>x_capability_version.
     bindE (opt_str d ''resource_id'' []) (\<lambda>x_resource_id.
     bindE (opt_str d ''resource_key'' []) (\<lambda>x_resource_key.
     bindE (opt_str d ''semantic_action_key'' []) (\<lambda>x_semantic_action_key.
     bindE (bindE (req d ''risk_level'') (enum_field risk_level_value risk_level_members)) (\<lambda>x_risk_level.
     bindE (opt_str d ''attempt_id'' []) (\<lambda>x_attempt_id.
     bindE (opt_str d ''run_id'' []) (\<lambda>x_run_id.
     bindE (opt_str d ''tenant_key'' []) (\<lambda>x_tenant_key.
     bindE (opt_float d ''created_at'') (\<lambda>x_created_at.
     bindE (strict_float_option (opt d ''committed_at'' PNone) ''committed_at'') (\<lambda>x_committed_at.
     bindE (opt_str d ''evidence_hash'' []) (\<lambda>x_evidence_hash.
     bindE (opt_str d ''cleanup_grant_id'' []) (\<lambda>x_cleanup_grant_id.
     bindE (opt_str d ''provider_idempotency_key'' []) (\<lambda>x_provider_idempotency_key.
     bindE (opt_str d ''adapter_hash'' []) (\<lambda>x_adapter_hash.
     bindE (opt_str d ''schema_hash'' []) (\<lambda>x_schema_hash.
     bindE (opt_str d ''canonicalization_version'' []) (\<lambda>x_canonicalization_version.
     bindE (opt_bool d ''active_dispatch'' False) (\<lambda>x_active_dispatch.
     bindE (opt_str d ''parent_effect_instance_id'' []) (\<lambda>x_parent_effect_instance_id.
     bindE (opt_int d ''aggregate_version'' 0 0) (\<lambda>x_aggregate_version.
     effect_init (\<lparr>ef_effect_id = x_effect_id, ef_effect_instance_id = x_effect_instance_id,
        ef_effect_lineage_id = x_effect_lineage_id, ef_action_intent_id =
        x_action_intent_id, ef_execution_seq = x_execution_seq, ef_state = x_state,
        ef_capability = x_capability, ef_capability_version = x_capability_version,
        ef_resource_id = x_resource_id, ef_resource_key = x_resource_key,
        ef_semantic_action_key = x_semantic_action_key, ef_risk_level = x_risk_level,
        ef_attempt_id = x_attempt_id, ef_run_id = x_run_id, ef_tenant_key = x_tenant_key,
        ef_created_at = x_created_at, ef_committed_at = x_committed_at, ef_evidence_hash =
        x_evidence_hash, ef_cleanup_grant_id = x_cleanup_grant_id,
        ef_provider_idempotency_key = x_provider_idempotency_key, ef_adapter_hash =
        x_adapter_hash, ef_schema_hash = x_schema_hash, ef_canonicalization_version =
        x_canonicalization_version, ef_active_dispatch = x_active_dispatch,
        ef_parent_effect_instance_id = x_parent_effect_instance_id, ef_aggregate_version =
        x_aggregate_version\<rparr>))))))))))))))))))))))))))))"

definition effect_wf :: "effect \<Rightarrow> bool" where
  "effect_wf e \<longleftrightarrow> effect_init e = Inr e \<and> 0 \<le> ef_execution_seq e \<and> 0 \<le> ef_aggregate_version e"

lemma effect_init_idem: "effect_init e = Inr e' \<Longrightarrow> effect_init e' = Inr e'"
  by (auto simp: effect_init_def Let_def split: if_splits)

lemma effect_init_active:
  "effect_init e = Inr e' \<Longrightarrow> ef_active_dispatch e' \<longleftrightarrow> ef_state e' = ES_EXECUTING"
  by (auto simp: effect_init_def Let_def split: if_splits)

lemma enum_field_value [codec_simps]:
  "enum_field effect_state_value effect_state_members (PStr (effect_state_value es)) = Inr es"
  "enum_field risk_level_value risk_level_members (PStr (risk_level_value rl)) = Inr rl"
  "enum_field effect_disposition_type_value effect_disposition_type_members
     (PStr (effect_disposition_type_value ed)) = Inr ed"
  by simp_all

lemma effect_codec_law:
  "effect_wf e \<Longrightarrow> effect_from_dict (effect_to_dict e) = Inr e"
  by (cases e) (simp add: effect_to_dict_def effect_from_dict_def effect_wf_def codec_simps
      del: enum_field.simps)

interpretation effect_codec: codec effect_to_dict effect_from_dict effect_wf
  by unfold_locales (rule effect_codec_law)

section \<open>Evidence\<close>

record evidence =
  ev_evidence_id :: string
  ev_tenant_key :: string
  ev_run_id :: string
  ev_criterion_id :: string
  ev_source :: string
  ev_content_hash :: string
  ev_sensitivity :: string
  ev_taint_labels :: "string list"
  ev_freshness_at :: timestamp
  ev_blob_ref :: pyval
  ev_lineage_ids :: "string list"

definition evidence_to_dict :: "evidence \<Rightarrow> pydict" where
  "evidence_to_dict e =
     [(''evidence_id'', PStr (ev_evidence_id e)),
      (''tenant_key'', PStr (ev_tenant_key e)),
      (''run_id'', PStr (ev_run_id e)),
      (''criterion_id'', PStr (ev_criterion_id e)),
      (''source'', PStr (ev_source e)),
      (''content_hash'', PStr (ev_content_hash e)),
      (''sensitivity'', PStr (ev_sensitivity e)),
      (''taint_labels'', strs_val (ev_taint_labels e)),
      (''freshness_at'', PFloat (Fin (ev_freshness_at e))),
      (''blob_ref'', thaw (ev_blob_ref e)),
      (''lineage_ids'', strs_val (ev_lineage_ids e))]"

definition evidence_from_dict :: "pydict \<Rightarrow> py_exn + evidence" where
  "evidence_from_dict d =
     bindE (req_str d ''evidence_id'') (\<lambda>x_evidence_id.
     bindE (opt_str d ''tenant_key'' []) (\<lambda>x_tenant_key.
     bindE (opt_str d ''run_id'' []) (\<lambda>x_run_id.
     bindE (opt_str d ''criterion_id'' []) (\<lambda>x_criterion_id.
     bindE (opt_str d ''source'' []) (\<lambda>x_source.
     bindE (opt_str d ''content_hash'' []) (\<lambda>x_content_hash.
     bindE (opt_str d ''sensitivity'' ''normal'') (\<lambda>x_sensitivity.
     bindE (opt_strs d ''taint_labels'') (\<lambda>x_taint_labels.
     bindE (opt_float d ''freshness_at'') (\<lambda>x_freshness_at.
     bindE (Inr (freeze (opt d ''blob_ref'' (PNone)))) (\<lambda>x_blob_ref.
     bindE (opt_strs d ''lineage_ids'') (\<lambda>x_lineage_ids.
     Inr (\<lparr>ev_evidence_id = x_evidence_id, ev_tenant_key = x_tenant_key, ev_run_id =
        x_run_id, ev_criterion_id = x_criterion_id, ev_source = x_source, ev_content_hash =
        x_content_hash, ev_sensitivity = x_sensitivity, ev_taint_labels = x_taint_labels,
        ev_freshness_at = x_freshness_at, ev_blob_ref = x_blob_ref, ev_lineage_ids =
        x_lineage_ids\<rparr>))))))))))))"

interpretation evidence_codec: codec evidence_to_dict evidence_from_dict
  "\<lambda>e. frozen_value (ev_blob_ref e)"
  by unfold_locales (simp add: evidence_to_dict_def evidence_from_dict_def codec_simps)

section \<open>Capability descriptors\<close>

record capability_descriptor =
  cd_capability_id :: string
  cd_name :: string
  cd_version :: string
  cd_business_operation_id :: string
  cd_description :: string
  cd_risk_level :: risk_level
  cd_principal_types :: "string list"
  cd_idempotency :: string
  cd_idempotency_ttl_seconds :: int
  cd_query_after_unknown :: string
  cd_query_consistency :: string
  cd_negative_observation_window_seconds :: int
  cd_compensation :: string
  cd_resource_key_template :: string
  cd_verifier :: string
  cd_parameters_schema :: pyval
  cd_output_schema :: pyval
  cd_adapter_hash :: string
  cd_schema_hash :: string
  cd_canonicalization_version :: string
  cd_creates_persistent_execution :: bool
  cd_stop_capability :: string
  cd_idempotent :: bool
  cd_supports_query :: bool
  cd_supports_compensation :: bool

definition capability_descriptor_to_dict :: "capability_descriptor \<Rightarrow> pydict" where
  "capability_descriptor_to_dict e =
     [(''capability_id'', PStr (cd_capability_id e)),
      (''name'', PStr (cd_name e)),
      (''version'', PStr (cd_version e)),
      (''business_operation_id'', PStr (cd_business_operation_id e)),
      (''description'', PStr (cd_description e)),
      (''risk_level'', PStr (risk_level_value (cd_risk_level e))),
      (''principal_types'', strs_val (cd_principal_types e)),
      (''idempotency'', PStr (cd_idempotency e)),
      (''idempotency_ttl_seconds'', PInt (cd_idempotency_ttl_seconds e)),
      (''query_after_unknown'', PStr (cd_query_after_unknown e)),
      (''query_consistency'', PStr (cd_query_consistency e)),
      (''negative_observation_window_seconds'', PInt (cd_negative_observation_window_seconds e)),
      (''compensation'', PStr (cd_compensation e)),
      (''resource_key_template'', PStr (cd_resource_key_template e)),
      (''verifier'', PStr (cd_verifier e)),
      (''parameters_schema'', thaw (cd_parameters_schema e)),
      (''output_schema'', thaw (cd_output_schema e)),
      (''adapter_hash'', PStr (cd_adapter_hash e)),
      (''schema_hash'', PStr (cd_schema_hash e)),
      (''canonicalization_version'', PStr (cd_canonicalization_version e)),
      (''creates_persistent_execution'', PBool (cd_creates_persistent_execution e)),
      (''stop_capability'', PStr (cd_stop_capability e)),
      (''idempotent'', PBool (cd_idempotent e)),
      (''supports_query'', PBool (cd_supports_query e)),
      (''supports_compensation'', PBool (cd_supports_compensation e))]"

definition capability_descriptor_from_dict :: "pydict \<Rightarrow> py_exn + capability_descriptor" where
  "capability_descriptor_from_dict d =
     (if dget d ''risk_level'' = None then Inl (ValueError ''risk_level is required'') else
     bindE (opt_str d ''capability_id'' []) (\<lambda>x_capability_id.
     bindE (opt_str d ''name'' []) (\<lambda>x_name.
     bindE (opt_str d ''version'' []) (\<lambda>x_version.
     bindE (opt_str d ''business_operation_id'' []) (\<lambda>x_business_operation_id.
     bindE (opt_str d ''description'' []) (\<lambda>x_description.
     bindE (bindE (req d ''risk_level'') (enum_field risk_level_value risk_level_members)) (\<lambda>x_risk_level.
     bindE (opt_strs d ''principal_types'') (\<lambda>x_principal_types.
     bindE (opt_str d ''idempotency'' ''none'') (\<lambda>x_idempotency.
     bindE (opt_int d ''idempotency_ttl_seconds'' 0 0) (\<lambda>x_idempotency_ttl_seconds.
     bindE (opt_str d ''query_after_unknown'' []) (\<lambda>x_query_after_unknown.
     bindE (opt_str d ''query_consistency'' []) (\<lambda>x_query_consistency.
     bindE (opt_int d ''negative_observation_window_seconds'' 0 0) (\<lambda>x_negative_observation_window_seconds.
     bindE (opt_str d ''compensation'' []) (\<lambda>x_compensation.
     bindE (opt_str d ''resource_key_template'' []) (\<lambda>x_resource_key_template.
     bindE (opt_str d ''verifier'' []) (\<lambda>x_verifier.
     bindE (Inr (freeze (opt d ''parameters_schema'' (PDict [])))) (\<lambda>x_parameters_schema.
     bindE (Inr (freeze (opt d ''output_schema'' (PDict [])))) (\<lambda>x_output_schema.
     bindE (opt_str d ''adapter_hash'' []) (\<lambda>x_adapter_hash.
     bindE (opt_str d ''schema_hash'' []) (\<lambda>x_schema_hash.
     bindE (opt_str d ''canonicalization_version'' []) (\<lambda>x_canonicalization_version.
     bindE (opt_bool d ''creates_persistent_execution'' False) (\<lambda>x_creates_persistent_execution.
     bindE (opt_str d ''stop_capability'' []) (\<lambda>x_stop_capability.
     bindE (opt_bool d ''idempotent'' False) (\<lambda>x_idempotent.
     bindE (opt_bool d ''supports_query'' False) (\<lambda>x_supports_query.
     bindE (opt_bool d ''supports_compensation'' False) (\<lambda>x_supports_compensation.
     Inr (\<lparr>cd_capability_id = x_capability_id, cd_name = x_name, cd_version =
        x_version, cd_business_operation_id = x_business_operation_id, cd_description =
        x_description, cd_risk_level = x_risk_level, cd_principal_types =
        x_principal_types, cd_idempotency = x_idempotency, cd_idempotency_ttl_seconds =
        x_idempotency_ttl_seconds, cd_query_after_unknown = x_query_after_unknown,
        cd_query_consistency = x_query_consistency, cd_negative_observation_window_seconds
        = x_negative_observation_window_seconds, cd_compensation = x_compensation,
        cd_resource_key_template = x_resource_key_template, cd_verifier = x_verifier,
        cd_parameters_schema = x_parameters_schema, cd_output_schema = x_output_schema,
        cd_adapter_hash = x_adapter_hash, cd_schema_hash = x_schema_hash,
        cd_canonicalization_version = x_canonicalization_version,
        cd_creates_persistent_execution = x_creates_persistent_execution,
        cd_stop_capability = x_stop_capability, cd_idempotent = x_idempotent,
        cd_supports_query = x_supports_query, cd_supports_compensation =
        x_supports_compensation\<rparr>)))))))))))))))))))))))))))"

definition capability_wf :: "capability_descriptor \<Rightarrow> bool" where
  "capability_wf c \<longleftrightarrow> frozen_value (cd_parameters_schema c) \<and> frozen_value (cd_output_schema c) \<and>
     0 \<le> cd_idempotency_ttl_seconds c \<and> 0 \<le> cd_negative_observation_window_seconds c"

interpretation capability_codec: codec capability_descriptor_to_dict capability_descriptor_from_dict
  capability_wf
  by unfold_locales (simp add: capability_descriptor_to_dict_def capability_descriptor_from_dict_def
      capability_wf_def codec_simps del: enum_field.simps)

section \<open>Dispositions\<close>

record effect_disposition =
  di_disposition_id :: string
  di_effect_instance_id :: string
  di_disposition :: effect_disposition_type
  di_actor_principal_id :: string
  di_created_at :: timestamp

text \<open>The table \<open>allowed\<close> of \<open>create\<close>, then the constructor that checks it.\<close>

fun disposition_allowed :: "effect_disposition_type \<Rightarrow> effect_state list" where
  "disposition_allowed ED_RETAINED = [ES_COMMITTED]"
| "disposition_allowed ED_COMPENSATED = [ES_COMPENSATED]"
| "disposition_allowed ED_ABANDONED_ACCEPTED = [ES_ABANDONED_ACCEPTED]"
| "disposition_allowed ED_FAILED_SAFE = [ES_FAILED_SAFE, ES_ABORTED_NO_DISPATCH]"

definition disposition_create ::
  "effect \<Rightarrow> effect_disposition_type \<Rightarrow> string \<Rightarrow> string \<Rightarrow> timestamp \<Rightarrow> py_exn + effect_disposition" where
  "disposition_create e disposition actor_principal_id new_disposition_id now =
     (if is_unresolved e
      then Inl (ValueError ''unresolved Effect cannot receive final disposition'')
      else if ef_state e \<notin> set (disposition_allowed disposition)
      then Inl (ValueError (''Effect state '' @ effect_state_value (ef_state e) @
             '' is incompatible with '' @ effect_disposition_type_value disposition))
      else Inr \<lparr>di_disposition_id = new_disposition_id,
                di_effect_instance_id = ef_effect_instance_id e, di_disposition = disposition,
                di_actor_principal_id = actor_principal_id, di_created_at = now\<rparr>)"

definition effect_disposition_to_dict :: "effect_disposition \<Rightarrow> pydict" where
  "effect_disposition_to_dict e =
     [(''disposition_id'', PStr (di_disposition_id e)),
      (''effect_instance_id'', PStr (di_effect_instance_id e)),
      (''disposition'', PStr (effect_disposition_type_value (di_disposition e))),
      (''actor_principal_id'', PStr (di_actor_principal_id e)),
      (''created_at'', PFloat (Fin (di_created_at e)))]"

definition effect_disposition_from_dict :: "pydict \<Rightarrow> py_exn + effect_disposition" where
  "effect_disposition_from_dict d =
     bindE (req_str d ''disposition_id'') (\<lambda>x_disposition_id.
     bindE (req_str d ''effect_instance_id'') (\<lambda>x_effect_instance_id.
     bindE (bindE (req d ''disposition'') (enum_field effect_disposition_type_value effect_disposition_type_members)) (\<lambda>x_disposition.
     bindE (req_str d ''actor_principal_id'') (\<lambda>x_actor_principal_id.
     bindE (bindE (req d ''created_at'') (\<lambda>v. strict_float v ''created_at'')) (\<lambda>x_created_at.
     Inr (\<lparr>di_disposition_id = x_disposition_id, di_effect_instance_id =
        x_effect_instance_id, di_disposition = x_disposition, di_actor_principal_id =
        x_actor_principal_id, di_created_at = x_created_at\<rparr>))))))"

interpretation disposition_codec: codec effect_disposition_to_dict effect_disposition_from_dict
  "\<lambda>_. True"
  by unfold_locales
    (simp add: effect_disposition_to_dict_def effect_disposition_from_dict_def codec_simps
      del: enum_field.simps)

section \<open>Quarantines\<close>

record resource_quarantine =
  qu_quarantine_id :: string
  qu_tenant_key :: string
  qu_resource_key :: string
  qu_source_effect_instance_id :: string
  qu_reason :: string
  qu_created_at :: timestamp
  qu_released_at :: "timestamp option"

definition resource_quarantine_to_dict :: "resource_quarantine \<Rightarrow> pydict" where
  "resource_quarantine_to_dict e =
     [(''quarantine_id'', PStr (qu_quarantine_id e)),
      (''tenant_key'', PStr (qu_tenant_key e)),
      (''resource_key'', PStr (qu_resource_key e)),
      (''source_effect_instance_id'', PStr (qu_source_effect_instance_id e)),
      (''reason'', PStr (qu_reason e)),
      (''created_at'', PFloat (Fin (qu_created_at e))),
      (''released_at'', float_option_val (qu_released_at e))]"

definition resource_quarantine_from_dict :: "pydict \<Rightarrow> py_exn + resource_quarantine" where
  "resource_quarantine_from_dict d =
     bindE (req_str d ''quarantine_id'') (\<lambda>x_quarantine_id.
     bindE (opt_str d ''tenant_key'' []) (\<lambda>x_tenant_key.
     bindE (opt_str d ''resource_key'' []) (\<lambda>x_resource_key.
     bindE (opt_str d ''source_effect_instance_id'' []) (\<lambda>x_source_effect_instance_id.
     bindE (opt_str d ''reason'' []) (\<lambda>x_reason.
     bindE (opt_float d ''created_at'') (\<lambda>x_created_at.
     bindE (strict_float_option (opt d ''released_at'' PNone) ''released_at'') (\<lambda>x_released_at.
     Inr (\<lparr>qu_quarantine_id = x_quarantine_id, qu_tenant_key = x_tenant_key,
        qu_resource_key = x_resource_key, qu_source_effect_instance_id =
        x_source_effect_instance_id, qu_reason = x_reason, qu_created_at = x_created_at,
        qu_released_at = x_released_at\<rparr>))))))))"

interpretation quarantine_codec: codec resource_quarantine_to_dict resource_quarantine_from_dict
  "\<lambda>_. True"
  by unfold_locales
    (simp add: resource_quarantine_to_dict_def resource_quarantine_from_dict_def codec_simps)

end
