(* ===== verification/Domain_Goals.thy ===== *)
theory Domain_Goals
  imports Domain_Enums
begin

text \<open>
  The aggregates of \<^verbatim>\<open>src/src/autonomous/domain/goals.py\<close>: epoch sets, acceptance criteria, runs,
  schedule cursors and trigger subscriptions, with their dictionary encodings. The canonical hash
  (SHA-256 of a canonical JSON text) is a parameter of the criterion's constructor.
\<close>

section \<open>Epochs\<close>

record epoch_set =
  ep_definition_version :: int
  ep_admission_epoch :: int
  ep_revocation_epoch :: int
  ep_run_control_epoch :: int
  ep_plan_epoch :: int
  ep_kill_epoch :: int

section \<open>Criteria\<close>

record goal_criterion =
  gc_criterion_id :: string
  gc_description :: string
  gc_oracle_type :: oracle_type
  gc_oracle_config :: pyval
  gc_criterion_hash :: string

text \<open>
  The constructor recomputes the hash over the content and refuses a stored hash that differs.
\<close>

definition criterion_content :: "goal_criterion \<Rightarrow> pyval" where
  "criterion_content c = PDict
     [(''criterion_id'', PStr (gc_criterion_id c)), (''description'', PStr (gc_description c)),
      (''oracle_type'', PStr (oracle_type_value (gc_oracle_type c))),
      (''oracle_config'', thaw (gc_oracle_config c))]"

definition goal_criterion_init ::
  "(pyval \<Rightarrow> string) \<Rightarrow> goal_criterion \<Rightarrow> py_exn + goal_criterion" where
  "goal_criterion_init canonical_hash c0 =
     (let c = c0\<lparr>gc_oracle_config := freeze (gc_oracle_config c0)\<rparr>;
          computed = canonical_hash (criterion_content c)
      in if gc_criterion_hash c \<noteq> [] \<and> gc_criterion_hash c \<noteq> computed
         then Inl (ValueError ''criterion hash does not match criterion content'')
         else Inr (c\<lparr>gc_criterion_hash := computed\<rparr>))"

definition goal_criterion_to_dict :: "goal_criterion \<Rightarrow> pydict" where
  "goal_criterion_to_dict e =
     [(''criterion_id'', PStr (gc_criterion_id e)),
      (''description'', PStr (gc_description e)),
      (''oracle_type'', PStr (oracle_type_value (gc_oracle_type e))),
      (''oracle_config'', thaw (gc_oracle_config e)),
      (''criterion_hash'', PStr (gc_criterion_hash e))]"

definition goal_criterion_from_dict :: "(pyval \<Rightarrow> string) \<Rightarrow> pydict \<Rightarrow> py_exn + goal_criterion" where
  "goal_criterion_from_dict canonical_hash d =
     bindE (req_str d ''criterion_id'') (\<lambda>x_criterion_id.
     bindE (opt_str d ''description'' []) (\<lambda>x_description.
     bindE (enum_field oracle_type_value oracle_type_members (opt d ''oracle_type'' (PStr (oracle_type_value OT_COMMAND)))) (\<lambda>x_oracle_type.
     bindE (Inr (opt d ''oracle_config'' (PDict []))) (\<lambda>x_oracle_config.
     bindE (opt_str d ''criterion_hash'' []) (\<lambda>x_criterion_hash.
     goal_criterion_init canonical_hash (\<lparr>gc_criterion_id = x_criterion_id, gc_description = x_description,
        gc_oracle_type = x_oracle_type, gc_oracle_config = x_oracle_config,
        gc_criterion_hash = x_criterion_hash\<rparr>))))))"

definition goal_criterion_wf :: "(pyval \<Rightarrow> string) \<Rightarrow> goal_criterion \<Rightarrow> bool" where
  "goal_criterion_wf canonical_hash c \<longleftrightarrow>
     frozen_value (gc_oracle_config c) \<and> gc_criterion_hash c = canonical_hash (criterion_content c)"

lemma goal_enum_fields [codec_simps]:
  "enum_field oracle_type_value oracle_type_members (PStr (oracle_type_value ot)) = Inr ot"
  "enum_field run_state_value run_state_members (PStr (run_state_value rs)) = Inr rs"
  "enum_field misfire_policy_value misfire_policy_members (PStr (misfire_policy_value mp)) = Inr mp"
  "enum_field overlap_policy_value overlap_policy_members (PStr (overlap_policy_value op)) = Inr op"
  by simp_all

lemma goal_criterion_init_wf:
  assumes "json_value j" and "goal_criterion_init h (c\<lparr>gc_oracle_config := j\<rparr>) = Inr c'"
  shows "goal_criterion_wf h c'"
  using assms
  by (auto simp: goal_criterion_init_def goal_criterion_wf_def Let_def criterion_content_def
      frozen_freeze split: if_splits)

interpretation criterion_codec: codec goal_criterion_to_dict "goal_criterion_from_dict h"
  "goal_criterion_wf h" for h
  by unfold_locales
    (simp add: goal_criterion_to_dict_def goal_criterion_from_dict_def goal_criterion_wf_def
      goal_criterion_init_def criterion_content_def Let_def codec_simps del: enum_field.simps)

section \<open>Runs\<close>

fun run_state_option_val :: "run_state option \<Rightarrow> pyval" where
  "run_state_option_val None = PNone"
| "run_state_option_val (Some s) = PStr (run_state_value s)"

text \<open>\<open>RunState(target) if target else None\<close>: a falsy value is no target.\<close>

fun py_truthy :: "pyval \<Rightarrow> bool" where
  "py_truthy PNone = False"
| "py_truthy (PBool b) = b"
| "py_truthy (PInt i) = (i \<noteq> 0)"
| "py_truthy (PFloat f) = (f \<noteq> Fin 0)"
| "py_truthy (PStr s) = (s \<noteq> [])"
| "py_truthy (PList xs) = (xs \<noteq> [])"
| "py_truthy (PTuple xs) = (xs \<noteq> [])"
| "py_truthy (PDict kvs) = (kvs \<noteq> [])"
| "py_truthy (PProxy kvs) = (kvs \<noteq> [])"
| "py_truthy (PSet ss) = (ss \<noteq> [])"
| "py_truthy (PFrozenset ss) = (ss \<noteq> [])"

definition target_state_field :: "pyval \<Rightarrow> py_exn + run_state option" where
  "target_state_field v =
     (if py_truthy v then bindE (enum_field run_state_value run_state_members v) (\<lambda>s. Inr (Some s))
      else Inr None)"

record run =
  rn_run_id :: string
  rn_tenant_key :: string
  rn_goal_id :: string
  rn_goal_version :: int
  rn_run_definition_version :: int
  rn_root_run_lineage :: string
  rn_occurrence_key :: string
  rn_trigger_event_id :: string
  rn_state :: run_state
  rn_plan_epoch :: int
  rn_budget_ledger_id :: string
  rn_created_at :: timestamp
  rn_deadline :: "timestamp option"
  rn_supersedes_run_id :: "string option"
  rn_retry_of_run_id :: "string option"
  rn_revision_of_run_id :: "string option"
  rn_authorization_snapshot_id :: string
  rn_run_control_epoch :: int
  rn_revocation_epoch :: int
  rn_target_terminal_state :: "run_state option"
  rn_aggregate_version :: int

definition run_init :: "run \<Rightarrow> py_exn + run" where
  "run_init r0 =
     (let r = (if rn_root_run_lineage r0 = [] then r0\<lparr>rn_root_run_lineage := rn_run_id r0\<rparr> else r0)
      in if rn_target_terminal_state r \<notin> set [None, Some RS_CANCELED, Some RS_FAILED, Some RS_EXPIRED]
         then Inl (ValueError ''target terminal target must be canceled, failed, or expired'')
         else Inr r)"

definition run_to_dict :: "run \<Rightarrow> pydict" where
  "run_to_dict r =
     [(''run_id'', PStr (rn_run_id r)),
      (''tenant_key'', PStr (rn_tenant_key r)),
      (''goal_id'', PStr (rn_goal_id r)),
      (''goal_version'', PInt (rn_goal_version r)),
      (''run_definition_version'', PInt (rn_run_definition_version r)),
      (''root_run_lineage'', PStr (rn_root_run_lineage r)),
      (''occurrence_key'', PStr (rn_occurrence_key r)),
      (''trigger_event_id'', PStr (rn_trigger_event_id r)),
      (''state'', PStr (run_state_value (rn_state r))),
      (''plan_epoch'', PInt (rn_plan_epoch r)),
      (''budget_ledger_id'', PStr (rn_budget_ledger_id r)),
      (''created_at'', PFloat (Fin (rn_created_at r))),
      (''deadline'', float_option_val (rn_deadline r)),
      (''supersedes_run_id'', str_option_val (rn_supersedes_run_id r)),
      (''retry_of_run_id'', str_option_val (rn_retry_of_run_id r)),
      (''revision_of_run_id'', str_option_val (rn_revision_of_run_id r)),
      (''authorization_snapshot_id'', PStr (rn_authorization_snapshot_id r)),
      (''run_control_epoch'', PInt (rn_run_control_epoch r)),
      (''revocation_epoch'', PInt (rn_revocation_epoch r)),
      (''target_terminal_state'', run_state_option_val (rn_target_terminal_state r)),
      (''aggregate_version'', PInt (rn_aggregate_version r))]"

definition run_from_dict :: "pydict \<Rightarrow> py_exn + run" where
  "run_from_dict d =
     bindE (req_str d ''run_id'') (\<lambda>x_run_id.
     bindE (opt_str d ''tenant_key'' []) (\<lambda>x_tenant_key.
     bindE (opt_str d ''goal_id'' []) (\<lambda>x_goal_id.
     bindE (opt_int d ''goal_version'' 1 1) (\<lambda>x_goal_version.
     bindE (strict_int (opt d ''run_definition_version'' (opt d ''goal_version'' (PInt 1))) ''run_definition_version'' (Some 1)) (\<lambda>x_run_definition_version.
     bindE (opt_str d ''root_run_lineage'' []) (\<lambda>x_root_run_lineage.
     bindE (opt_str d ''occurrence_key'' []) (\<lambda>x_occurrence_key.
     bindE (opt_str d ''trigger_event_id'' []) (\<lambda>x_trigger_event_id.
     bindE (enum_field run_state_value run_state_members (opt d ''state'' (PStr (run_state_value RS_QUEUED)))) (\<lambda>x_state.
     bindE (opt_int d ''plan_epoch'' 0 0) (\<lambda>x_plan_epoch.
     bindE (opt_str d ''budget_ledger_id'' []) (\<lambda>x_budget_ledger_id.
     bindE (opt_float d ''created_at'') (\<lambda>x_created_at.
     bindE (raw_float_option (opt d ''deadline'' PNone) ''deadline'') (\<lambda>x_deadline.
     bindE (raw_str_option (opt d ''supersedes_run_id'' PNone) ''supersedes_run_id'') (\<lambda>x_supersedes_run_id.
     bindE (raw_str_option (opt d ''retry_of_run_id'' PNone) ''retry_of_run_id'') (\<lambda>x_retry_of_run_id.
     bindE (raw_str_option (opt d ''revision_of_run_id'' PNone) ''revision_of_run_id'') (\<lambda>x_revision_of_run_id.
     bindE (opt_str d ''authorization_snapshot_id'' []) (\<lambda>x_authorization_snapshot_id.
     bindE (opt_int d ''run_control_epoch'' 0 0) (\<lambda>x_run_control_epoch.
     bindE (opt_int d ''revocation_epoch'' 0 0) (\<lambda>x_revocation_epoch.
     bindE (target_state_field (opt d ''target_terminal_state'' PNone)) (\<lambda>x_target_terminal_state.
     bindE (opt_int d ''aggregate_version'' 0 0) (\<lambda>x_aggregate_version.
     run_init (\<lparr>rn_run_id = x_run_id, rn_tenant_key = x_tenant_key, rn_goal_id = x_goal_id,
        rn_goal_version = x_goal_version, rn_run_definition_version =
        x_run_definition_version, rn_root_run_lineage = x_root_run_lineage,
        rn_occurrence_key = x_occurrence_key, rn_trigger_event_id = x_trigger_event_id,
        rn_state = x_state, rn_plan_epoch = x_plan_epoch, rn_budget_ledger_id =
        x_budget_ledger_id, rn_created_at = x_created_at, rn_deadline = x_deadline,
        rn_supersedes_run_id = x_supersedes_run_id, rn_retry_of_run_id = x_retry_of_run_id,
        rn_revision_of_run_id = x_revision_of_run_id, rn_authorization_snapshot_id =
        x_authorization_snapshot_id, rn_run_control_epoch = x_run_control_epoch,
        rn_revocation_epoch = x_revocation_epoch, rn_target_terminal_state =
        x_target_terminal_state, rn_aggregate_version = x_aggregate_version\<rparr>))))))))))))))))))))))"

definition run_wf :: "run \<Rightarrow> bool" where
  "run_wf r \<longleftrightarrow> run_init r = Inr r \<and> 1 \<le> rn_goal_version r \<and> 1 \<le> rn_run_definition_version r \<and>
     0 \<le> rn_plan_epoch r \<and> 0 \<le> rn_run_control_epoch r \<and> 0 \<le> rn_revocation_epoch r \<and>
     0 \<le> rn_aggregate_version r"

lemma run_state_value_nonempty [simp]: "run_state_value s \<noteq> []"
  by (cases s) simp_all

lemma target_state_field_val [codec_simps]: "target_state_field (run_state_option_val t) = Inr t"
  by (cases t) (simp_all add: target_state_field_def)

lemma run_codec_law: "run_wf r \<Longrightarrow> run_from_dict (run_to_dict r) = Inr r"
  by (cases r) (simp add: run_to_dict_def run_from_dict_def run_wf_def codec_simps
      del: enum_field.simps)

interpretation run_codec: codec run_to_dict run_from_dict run_wf
  by unfold_locales (rule run_codec_law)

section \<open>Trigger subscriptions\<close>

fun dict_field :: "string \<Rightarrow> (pydict \<Rightarrow> py_exn + 'a) \<Rightarrow> pyval \<Rightarrow> py_exn + 'a" where
  "dict_field field f (PDict kvs) = f kvs"
| "dict_field field f _ = Inl (Untyped field)"

record schedule_cursor =
  sc_last_occurrence :: "string option"
  sc_next_planned :: "string option"
  sc_last_success_at :: "timestamp option"
  sc_watermark :: "string option"
  sc_misfire_count :: int

definition schedule_cursor_to_dict :: "schedule_cursor \<Rightarrow> pydict" where
  "schedule_cursor_to_dict e =
     [(''last_occurrence'', str_option_val (sc_last_occurrence e)),
      (''next_planned'', str_option_val (sc_next_planned e)),
      (''last_success_at'', float_option_val (sc_last_success_at e)),
      (''watermark'', str_option_val (sc_watermark e)),
      (''misfire_count'', PInt (sc_misfire_count e))]"

definition schedule_cursor_from_dict :: "pydict \<Rightarrow> py_exn + schedule_cursor" where
  "schedule_cursor_from_dict d =
     bindE (raw_str_option (opt d ''last_occurrence'' PNone) ''last_occurrence'') (\<lambda>x_last_occurrence.
     bindE (raw_str_option (opt d ''next_planned'' PNone) ''next_planned'') (\<lambda>x_next_planned.
     bindE (raw_float_option (opt d ''last_success_at'' PNone) ''last_success_at'') (\<lambda>x_last_success_at.
     bindE (raw_str_option (opt d ''watermark'' PNone) ''watermark'') (\<lambda>x_watermark.
     bindE (opt_int d ''misfire_count'' 0 0) (\<lambda>x_misfire_count.
     Inr (\<lparr>sc_last_occurrence = x_last_occurrence, sc_next_planned = x_next_planned,
        sc_last_success_at = x_last_success_at, sc_watermark = x_watermark,
        sc_misfire_count = x_misfire_count\<rparr>))))))"

lemma schedule_cursor_codec_law:
  "0 \<le> sc_misfire_count c \<Longrightarrow> schedule_cursor_from_dict (schedule_cursor_to_dict c) = Inr c"
  by (cases c) (simp add: schedule_cursor_to_dict_def schedule_cursor_from_dict_def codec_simps)

record trigger_subscription =
  ts_subscription_id :: string
  ts_tenant_key :: string
  ts_goal_id :: string
  ts_timezone :: string
  ts_cron_expr :: string
  ts_event_rule :: pyval
  ts_misfire_policy :: misfire_policy
  ts_overlap_policy :: overlap_policy
  ts_cursor :: schedule_cursor
  ts_definition_version :: int
  ts_admission_epoch :: int
  ts_active :: bool
  ts_delivery_semantics :: string
  ts_replay_supported :: bool
  ts_cursor_format :: string
  ts_gap_detection :: bool
  ts_max_recovery_window_seconds :: int
  ts_heartbeat_seconds :: int

definition is_autonomous_eligible :: "trigger_subscription \<Rightarrow> bool" where
  "is_autonomous_eligible t \<longleftrightarrow>
     ts_active t \<and>
     (ts_delivery_semantics t \<in> set [''durable_ack'', ''exactly_once''] \<or> ts_replay_supported t) \<and>
     ts_cursor_format t \<noteq> [] \<and> ts_gap_detection t \<and>
     ts_max_recovery_window_seconds t > 0 \<and> ts_heartbeat_seconds t > 0"

definition trigger_subscription_to_dict :: "trigger_subscription \<Rightarrow> pydict" where
  "trigger_subscription_to_dict e =
     [(''subscription_id'', PStr (ts_subscription_id e)),
      (''tenant_key'', PStr (ts_tenant_key e)),
      (''goal_id'', PStr (ts_goal_id e)),
      (''timezone'', PStr (ts_timezone e)),
      (''cron_expr'', PStr (ts_cron_expr e)),
      (''event_rule'', thaw (ts_event_rule e)),
      (''misfire_policy'', PStr (misfire_policy_value (ts_misfire_policy e))),
      (''overlap_policy'', PStr (overlap_policy_value (ts_overlap_policy e))),
      (''cursor'', PDict (schedule_cursor_to_dict (ts_cursor e))),
      (''definition_version'', PInt (ts_definition_version e)),
      (''admission_epoch'', PInt (ts_admission_epoch e)),
      (''active'', PBool (ts_active e)),
      (''delivery_semantics'', PStr (ts_delivery_semantics e)),
      (''replay_supported'', PBool (ts_replay_supported e)),
      (''cursor_format'', PStr (ts_cursor_format e)),
      (''gap_detection'', PBool (ts_gap_detection e)),
      (''max_recovery_window_seconds'', PInt (ts_max_recovery_window_seconds e)),
      (''heartbeat_seconds'', PInt (ts_heartbeat_seconds e))]"

definition trigger_subscription_from_dict :: "pydict \<Rightarrow> py_exn + trigger_subscription" where
  "trigger_subscription_from_dict d =
     bindE (req_str d ''subscription_id'') (\<lambda>x_subscription_id.
     bindE (opt_str d ''tenant_key'' []) (\<lambda>x_tenant_key.
     bindE (opt_str d ''goal_id'' []) (\<lambda>x_goal_id.
     bindE (opt_str d ''timezone'' ''UTC'') (\<lambda>x_timezone.
     bindE (opt_str d ''cron_expr'' []) (\<lambda>x_cron_expr.
     bindE (Inr (freeze (opt d ''event_rule'' (PNone)))) (\<lambda>x_event_rule.
     bindE (enum_field misfire_policy_value misfire_policy_members (opt d ''misfire_policy'' (PStr (misfire_policy_value MP_RUN_LATEST)))) (\<lambda>x_misfire_policy.
     bindE (enum_field overlap_policy_value overlap_policy_members (opt d ''overlap_policy'' (PStr (overlap_policy_value OP_FORBID)))) (\<lambda>x_overlap_policy.
     bindE (dict_field ''cursor'' schedule_cursor_from_dict (opt d ''cursor'' (PDict []))) (\<lambda>x_cursor.
     bindE (opt_int d ''definition_version'' 1 1) (\<lambda>x_definition_version.
     bindE (opt_int d ''admission_epoch'' 1 0) (\<lambda>x_admission_epoch.
     bindE (opt_bool d ''active'' True) (\<lambda>x_active.
     bindE (opt_str d ''delivery_semantics'' []) (\<lambda>x_delivery_semantics.
     bindE (opt_bool d ''replay_supported'' False) (\<lambda>x_replay_supported.
     bindE (opt_str d ''cursor_format'' []) (\<lambda>x_cursor_format.
     bindE (opt_bool d ''gap_detection'' False) (\<lambda>x_gap_detection.
     bindE (opt_int d ''max_recovery_window_seconds'' 0 0) (\<lambda>x_max_recovery_window_seconds.
     bindE (opt_int d ''heartbeat_seconds'' 0 0) (\<lambda>x_heartbeat_seconds.
     Inr (\<lparr>ts_subscription_id = x_subscription_id, ts_tenant_key = x_tenant_key,
        ts_goal_id = x_goal_id, ts_timezone = x_timezone, ts_cron_expr = x_cron_expr,
        ts_event_rule = x_event_rule, ts_misfire_policy = x_misfire_policy,
        ts_overlap_policy = x_overlap_policy, ts_cursor = x_cursor, ts_definition_version =
        x_definition_version, ts_admission_epoch = x_admission_epoch, ts_active = x_active,
        ts_delivery_semantics = x_delivery_semantics, ts_replay_supported =
        x_replay_supported, ts_cursor_format = x_cursor_format, ts_gap_detection =
        x_gap_detection, ts_max_recovery_window_seconds = x_max_recovery_window_seconds,
        ts_heartbeat_seconds = x_heartbeat_seconds\<rparr>)))))))))))))))))))"

definition trigger_subscription_wf :: "trigger_subscription \<Rightarrow> bool" where
  "trigger_subscription_wf t \<longleftrightarrow> frozen_value (ts_event_rule t) \<and> 0 \<le> sc_misfire_count (ts_cursor t) \<and>
     1 \<le> ts_definition_version t \<and> 0 \<le> ts_admission_epoch t \<and>
     0 \<le> ts_max_recovery_window_seconds t \<and> 0 \<le> ts_heartbeat_seconds t"

lemma trigger_subscription_codec_law:
  "trigger_subscription_wf t \<Longrightarrow>
    trigger_subscription_from_dict (trigger_subscription_to_dict t) = Inr t"
  by (cases t) (simp add: trigger_subscription_to_dict_def trigger_subscription_from_dict_def
      trigger_subscription_wf_def schedule_cursor_codec_law codec_simps del: enum_field.simps)

interpretation trigger_subscription_codec: codec trigger_subscription_to_dict
  trigger_subscription_from_dict trigger_subscription_wf
  by unfold_locales (rule trigger_subscription_codec_law)

end
