(* ===== verification/Domain_Plans.thy ===== *)
theory Domain_Plans
  imports Domain_Goals
begin

text \<open>
  The aggregates of \<^verbatim>\<open>src/src/autonomous/domain/plans.py\<close>: plan steps, plans and attempts with
  their dictionary encodings, the selection of ready steps and the validation of the step graph.
  The main result is that \<open>validate_dag\<close> reports nothing exactly on acyclic graphs all of whose
  dependencies exist.
\<close>

section \<open>Steps\<close>

record plan_step =
  st_step_id :: string
  st_name :: string
  st_description :: string
  st_state :: step_state
  st_depends_on :: "string list"
  st_capability :: string
  st_capability_version :: string
  st_arguments_schema :: pyval
  st_principal_policy :: pyval
  st_resource_key :: string
  st_verifier_oracle :: pyval
  st_compensation :: string
  st_assigned_employee :: string
  st_max_attempts :: int
  st_timeout_seconds :: timestamp
  st_criterion_ids :: "string list"
  st_aggregate_version :: int

definition plan_step_to_dict :: "plan_step \<Rightarrow> pydict" where
  "plan_step_to_dict s =
     [(''step_id'', PStr (st_step_id s)),
      (''name'', PStr (st_name s)),
      (''description'', PStr (st_description s)),
      (''state'', PStr (step_state_value (st_state s))),
      (''depends_on'', strs_val (st_depends_on s)),
      (''capability'', PStr (st_capability s)),
      (''capability_version'', PStr (st_capability_version s)),
      (''arguments_schema'', thaw (st_arguments_schema s)),
      (''principal_policy'', thaw (st_principal_policy s)),
      (''resource_key'', PStr (st_resource_key s)),
      (''verifier_oracle'', thaw (st_verifier_oracle s)),
      (''compensation'', PStr (st_compensation s)),
      (''assigned_employee'', PStr (st_assigned_employee s)),
      (''max_attempts'', PInt (st_max_attempts s)),
      (''timeout_seconds'', PFloat (Fin (st_timeout_seconds s))),
      (''criterion_ids'', strs_val (st_criterion_ids s)),
      (''aggregate_version'', PInt (st_aggregate_version s))]"

definition plan_step_from_dict :: "pydict \<Rightarrow> py_exn + plan_step" where
  "plan_step_from_dict d =
     bindE (req_str d ''step_id'') (\<lambda>x_step_id.
     bindE (opt_str d ''name'' []) (\<lambda>x_name.
     bindE (opt_str d ''description'' []) (\<lambda>x_description.
     bindE (enum_field step_state_value step_state_members (opt d ''state'' (PStr (step_state_value SS_PENDING)))) (\<lambda>x_state.
     bindE (opt_strs d ''depends_on'') (\<lambda>x_depends_on.
     bindE (opt_str d ''capability'' []) (\<lambda>x_capability.
     bindE (opt_str d ''capability_version'' []) (\<lambda>x_capability_version.
     bindE (Inr (freeze (opt d ''arguments_schema'' (PDict [])))) (\<lambda>x_arguments_schema.
     bindE (Inr (freeze (opt d ''principal_policy'' (PDict [])))) (\<lambda>x_principal_policy.
     bindE (opt_str d ''resource_key'' []) (\<lambda>x_resource_key.
     bindE (Inr (freeze (opt d ''verifier_oracle'' (PNone)))) (\<lambda>x_verifier_oracle.
     bindE (opt_str d ''compensation'' []) (\<lambda>x_compensation.
     bindE (opt_str d ''assigned_employee'' []) (\<lambda>x_assigned_employee.
     bindE (opt_int d ''max_attempts'' 3 1) (\<lambda>x_max_attempts.
     bindE (strict_float (opt d ''timeout_seconds'' (PFloat (Fin 600))) ''timeout_seconds'') (\<lambda>x_timeout_seconds.
     bindE (opt_strs d ''criterion_ids'') (\<lambda>x_criterion_ids.
     bindE (opt_int d ''aggregate_version'' 0 0) (\<lambda>x_aggregate_version.
     Inr (\<lparr>st_step_id = x_step_id, st_name = x_name, st_description = x_description,
        st_state = x_state, st_depends_on = x_depends_on, st_capability = x_capability,
        st_capability_version = x_capability_version, st_arguments_schema =
        x_arguments_schema, st_principal_policy = x_principal_policy, st_resource_key =
        x_resource_key, st_verifier_oracle = x_verifier_oracle, st_compensation =
        x_compensation, st_assigned_employee = x_assigned_employee, st_max_attempts =
        x_max_attempts, st_timeout_seconds = x_timeout_seconds, st_criterion_ids =
        x_criterion_ids, st_aggregate_version = x_aggregate_version\<rparr>))))))))))))))))))"

definition plan_step_wf :: "plan_step \<Rightarrow> bool" where
  "plan_step_wf s \<longleftrightarrow> frozen_value (st_arguments_schema s) \<and> frozen_value (st_principal_policy s) \<and>
     frozen_value (st_verifier_oracle s) \<and> 1 \<le> st_max_attempts s \<and> 0 \<le> st_aggregate_version s"

lemma plan_enum_fields [codec_simps]:
  "enum_field step_state_value step_state_members (PStr (step_state_value ss)) = Inr ss"
  "enum_field plan_state_value plan_state_members (PStr (plan_state_value ps)) = Inr ps"
  "enum_field attempt_state_value attempt_state_members (PStr (attempt_state_value as)) = Inr as"
  by simp_all

lemma plan_step_codec_law: "plan_step_wf s \<Longrightarrow> plan_step_from_dict (plan_step_to_dict s) = Inr s"
  by (cases s) (simp add: plan_step_to_dict_def plan_step_from_dict_def plan_step_wf_def codec_simps
      del: enum_field.simps)

interpretation plan_step_codec: codec "\<lambda>s. PDict (plan_step_to_dict s)"
  "dict_field ''steps'' plan_step_from_dict" plan_step_wf
  by unfold_locales (simp add: plan_step_codec_law)

section \<open>Criteria coverage\<close>

text \<open>\<open>tuple(step_ids)\<close> of each entry, then \<open>freeze\<close>.\<close>

fun py_tuple :: "pyval \<Rightarrow> py_exn + pyval" where
  "py_tuple (PList vs) = Inr (PTuple vs)"
| "py_tuple (PTuple vs) = Inr (PTuple vs)"
| "py_tuple (PStr s) = Inr (PTuple (map (\<lambda>c. PStr [c]) s))"
| "py_tuple (PDict kvs) = Inr (PTuple (map (PStr \<circ> fst) kvs))"
| "py_tuple (PProxy kvs) = Inr (PTuple (map (PStr \<circ> fst) kvs))"
| "py_tuple (PSet ss) = Inl (Untyped ''set order'')"
| "py_tuple (PFrozenset ss) = Inl (Untyped ''set order'')"
| "py_tuple _ = Inl (TypeError ''object is not iterable'')"

fun retuple :: "string \<times> pyval \<Rightarrow> py_exn + string \<times> pyval" where
  "retuple (k, v) = bindE (py_tuple v) (\<lambda>t. Inr (k, t))"

fun coverage_init :: "pyval \<Rightarrow> py_exn + pyval" where
  "coverage_init (PDict kvs) =
     bindE (mapE retuple kvs) (\<lambda>kts. Inr (freeze (PDict kts)))"
| "coverage_init (PProxy kvs) =
     bindE (mapE retuple kvs) (\<lambda>kts. Inr (freeze (PDict kts)))"
| "coverage_init _ = Inl (Untyped ''mappings'')"

definition coverage_from_dict :: "pydict \<Rightarrow> py_exn + pyval" where
  "coverage_from_dict d = coverage_init (opt d ''mappings'' (PDict []))"

text \<open>A coverage value: every criterion mapped to a tuple of frozen values.\<close>

fun tuple_value :: "pyval \<Rightarrow> bool" where
  "tuple_value (PTuple vs) = list_all frozen_value vs"
| "tuple_value _ = False"

fun coverage_value :: "pyval \<Rightarrow> bool" where
  "coverage_value (PProxy kvs) = list_all (\<lambda>(k, v). tuple_value v) kvs"
| "coverage_value _ = False"

lemma tuple_value_retuple:
  "tuple_value v \<Longrightarrow> \<exists>t. py_tuple (thaw v) = Inr t \<and> freeze t = v"
  by (cases v) (auto simp: list_all_iff freeze_thaw intro!: map_idI)

lemma coverage_retuple:
  "list_all (\<lambda>(k, v). tuple_value v) kvs \<Longrightarrow>
    \<exists>kts. mapE retuple (map (map_prod id thaw) kvs) = Inr kts \<and> map (map_prod id freeze) kts = kvs"
proof (induction kvs)
  case (Cons kv kvs)
  obtain k v where kv: "kv = (k, v)" by (cases kv)
  from Cons.prems kv obtain t where t: "py_tuple (thaw v) = Inr t" "freeze t = v"
    using tuple_value_retuple [of v] by auto
  from Cons.prems have "list_all (\<lambda>(k, v). tuple_value v) kvs" by simp
  with Cons.IH obtain kts where "mapE retuple (map (map_prod id thaw) kvs) = Inr kts"
    and "map (map_prod id freeze) kts = kvs"
    by blast
  with kv t show ?case by (intro exI [of _ "(k, t) # kts"]) (simp add: id_def)
qed simp

lemma coverage_codec_law [codec_simps]:
  "coverage_value c \<Longrightarrow> coverage_from_dict [(''mappings'', thaw c)] = Inr c"
  by (cases c) (auto simp: coverage_from_dict_def opt_def dest!: coverage_retuple)

section \<open>Plans\<close>

fun steps_field :: "pyval \<Rightarrow> py_exn + plan_step list" where
  "steps_field (PList vs) = mapE (dict_field ''steps'' plan_step_from_dict) vs"
| "steps_field (PTuple vs) = mapE (dict_field ''steps'' plan_step_from_dict) vs"
| "steps_field _ = Inl (Untyped ''steps'')"

record plan =
  pl_plan_id :: string
  pl_run_id :: string
  pl_tenant_key :: string
  pl_state :: plan_state
  pl_epoch :: int
  pl_steps :: "plan_step list"
  pl_criteria_coverage :: pyval
  pl_budget_estimate :: pyval
  pl_authorization_id :: string
  pl_parent_authorization_id :: string
  pl_created_at :: timestamp
  pl_aggregate_version :: int

definition plan_to_dict :: "plan \<Rightarrow> pydict" where
  "plan_to_dict p =
     [(''plan_id'', PStr (pl_plan_id p)),
      (''run_id'', PStr (pl_run_id p)),
      (''tenant_key'', PStr (pl_tenant_key p)),
      (''state'', PStr (plan_state_value (pl_state p))),
      (''epoch'', PInt (pl_epoch p)),
      (''steps'', PList (map (\<lambda>s. PDict (plan_step_to_dict s)) (pl_steps p))),
      (''criteria_coverage'', PDict [(''mappings'', thaw (pl_criteria_coverage p))]),
      (''budget_estimate'', thaw (pl_budget_estimate p)),
      (''authorization_id'', PStr (pl_authorization_id p)),
      (''parent_authorization_id'', PStr (pl_parent_authorization_id p)),
      (''created_at'', PFloat (Fin (pl_created_at p))),
      (''aggregate_version'', PInt (pl_aggregate_version p))]"

definition plan_from_dict :: "pydict \<Rightarrow> py_exn + plan" where
  "plan_from_dict d =
     bindE (req_str d ''plan_id'') (\<lambda>x_plan_id.
     bindE (opt_str d ''run_id'' []) (\<lambda>x_run_id.
     bindE (opt_str d ''tenant_key'' []) (\<lambda>x_tenant_key.
     bindE (enum_field plan_state_value plan_state_members (opt d ''state'' (PStr (plan_state_value PS_DRAFT)))) (\<lambda>x_state.
     bindE (opt_int d ''epoch'' 1 1) (\<lambda>x_epoch.
     bindE (steps_field (opt d ''steps'' (PTuple []))) (\<lambda>x_steps.
     bindE (dict_field ''criteria_coverage'' coverage_from_dict (opt d ''criteria_coverage'' (PDict []))) (\<lambda>x_criteria_coverage.
     bindE (Inr (freeze (opt d ''budget_estimate'' (PNone)))) (\<lambda>x_budget_estimate.
     bindE (opt_str d ''authorization_id'' []) (\<lambda>x_authorization_id.
     bindE (opt_str d ''parent_authorization_id'' []) (\<lambda>x_parent_authorization_id.
     bindE (opt_float d ''created_at'') (\<lambda>x_created_at.
     bindE (opt_int d ''aggregate_version'' 0 0) (\<lambda>x_aggregate_version.
     Inr (\<lparr>pl_plan_id = x_plan_id, pl_run_id = x_run_id, pl_tenant_key = x_tenant_key,
        pl_state = x_state, pl_epoch = x_epoch, pl_steps = x_steps, pl_criteria_coverage =
        x_criteria_coverage, pl_budget_estimate = x_budget_estimate, pl_authorization_id =
        x_authorization_id, pl_parent_authorization_id = x_parent_authorization_id,
        pl_created_at = x_created_at, pl_aggregate_version = x_aggregate_version\<rparr>)))))))))))))"

definition plan_wf :: "plan \<Rightarrow> bool" where
  "plan_wf p \<longleftrightarrow> list_all plan_step_wf (pl_steps p) \<and> coverage_value (pl_criteria_coverage p) \<and>
     frozen_value (pl_budget_estimate p) \<and> 1 \<le> pl_epoch p \<and> 0 \<le> pl_aggregate_version p"

lemma plan_codec_law: "plan_wf p \<Longrightarrow> plan_from_dict (plan_to_dict p) = Inr p"
  by (cases p) (simp add: plan_to_dict_def plan_from_dict_def plan_wf_def plan_step_codec.mapE_enc
      codec_simps del: enum_field.simps)

interpretation plan_codec: codec plan_to_dict plan_from_dict plan_wf
  by unfold_locales (rule plan_codec_law)

section \<open>Attempts\<close>

record attempt =
  at_attempt_id :: string
  at_tenant_key :: string
  at_step_id :: string
  at_run_id :: string
  at_state :: attempt_state
  at_lease_id :: string
  at_fencing_token :: int
  at_lease_expires :: timestamp
  at_started_at :: timestamp
  at_completed_at :: "timestamp option"
  at_worker_id :: string
  at_turn_count :: int
  at_checkpoint_blob_ref :: pyval
  at_checkpoint_path :: string
  at_last_heartbeat :: timestamp
  at_aggregate_version :: int

definition attempt_to_dict :: "attempt \<Rightarrow> pydict" where
  "attempt_to_dict a =
     [(''attempt_id'', PStr (at_attempt_id a)),
      (''tenant_key'', PStr (at_tenant_key a)),
      (''step_id'', PStr (at_step_id a)),
      (''run_id'', PStr (at_run_id a)),
      (''state'', PStr (attempt_state_value (at_state a))),
      (''lease_id'', PStr (at_lease_id a)),
      (''fencing_token'', PInt (at_fencing_token a)),
      (''lease_expires'', PFloat (Fin (at_lease_expires a))),
      (''started_at'', PFloat (Fin (at_started_at a))),
      (''completed_at'', float_option_val (at_completed_at a)),
      (''worker_id'', PStr (at_worker_id a)),
      (''turn_count'', PInt (at_turn_count a)),
      (''checkpoint_blob_ref'', thaw (at_checkpoint_blob_ref a)),
      (''checkpoint_path'', PStr (at_checkpoint_path a)),
      (''last_heartbeat'', PFloat (Fin (at_last_heartbeat a))),
      (''aggregate_version'', PInt (at_aggregate_version a))]"

definition attempt_from_dict :: "pydict \<Rightarrow> py_exn + attempt" where
  "attempt_from_dict d =
     bindE (req_str d ''attempt_id'') (\<lambda>x_attempt_id.
     bindE (opt_str d ''tenant_key'' []) (\<lambda>x_tenant_key.
     bindE (opt_str d ''step_id'' []) (\<lambda>x_step_id.
     bindE (opt_str d ''run_id'' []) (\<lambda>x_run_id.
     bindE (enum_field attempt_state_value attempt_state_members (opt d ''state'' (PStr (attempt_state_value AS_ACTIVE)))) (\<lambda>x_state.
     bindE (opt_str d ''lease_id'' []) (\<lambda>x_lease_id.
     bindE (opt_int d ''fencing_token'' 0 0) (\<lambda>x_fencing_token.
     bindE (opt_float d ''lease_expires'') (\<lambda>x_lease_expires.
     bindE (opt_float d ''started_at'') (\<lambda>x_started_at.
     bindE (raw_float_option (opt d ''completed_at'' PNone) ''completed_at'') (\<lambda>x_completed_at.
     bindE (opt_str d ''worker_id'' []) (\<lambda>x_worker_id.
     bindE (opt_int d ''turn_count'' 0 0) (\<lambda>x_turn_count.
     bindE (Inr (freeze (opt d ''checkpoint_blob_ref'' (PNone)))) (\<lambda>x_checkpoint_blob_ref.
     bindE (opt_str d ''checkpoint_path'' []) (\<lambda>x_checkpoint_path.
     bindE (opt_float d ''last_heartbeat'') (\<lambda>x_last_heartbeat.
     bindE (opt_int d ''aggregate_version'' 0 0) (\<lambda>x_aggregate_version.
     Inr (\<lparr>at_attempt_id = x_attempt_id, at_tenant_key = x_tenant_key, at_step_id =
        x_step_id, at_run_id = x_run_id, at_state = x_state, at_lease_id = x_lease_id,
        at_fencing_token = x_fencing_token, at_lease_expires = x_lease_expires,
        at_started_at = x_started_at, at_completed_at = x_completed_at, at_worker_id =
        x_worker_id, at_turn_count = x_turn_count, at_checkpoint_blob_ref =
        x_checkpoint_blob_ref, at_checkpoint_path = x_checkpoint_path, at_last_heartbeat =
        x_last_heartbeat, at_aggregate_version = x_aggregate_version\<rparr>)))))))))))))))))"

definition is_lease_valid :: "attempt \<Rightarrow> timestamp \<Rightarrow> bool" where
  "is_lease_valid a now \<longleftrightarrow> at_lease_expires a > now"

definition attempt_wf :: "attempt \<Rightarrow> bool" where
  "attempt_wf a \<longleftrightarrow> frozen_value (at_checkpoint_blob_ref a) \<and> 0 \<le> at_fencing_token a \<and>
     0 \<le> at_turn_count a \<and> 0 \<le> at_aggregate_version a"

interpretation attempt_codec: codec attempt_to_dict attempt_from_dict attempt_wf
  by unfold_locales
    (simp add: attempt_to_dict_def attempt_from_dict_def attempt_wf_def codec_simps
      del: enum_field.simps)

section \<open>Ready steps\<close>

definition get_ready_steps :: "plan \<Rightarrow> plan_step list" where
  "get_ready_steps p =
     (let done_ids = map st_step_id (filter (\<lambda>s. st_state s = SS_SUCCEEDED) (pl_steps p))
      in filter (\<lambda>s. st_state s = SS_PENDING \<and> list_all (\<lambda>d. d \<in> set done_ids) (st_depends_on s))
           (pl_steps p))"

section \<open>Validation of the step graph\<close>

text \<open>
  \<open>step_map\<close> is a dictionary comprehension: a repeated identifier keeps the last step. \<open>visit\<close> is
  the recursive closure of \<open>validate_dag\<close>. Its local sets are threaded: \<open>errors\<close> and \<open>visited\<close> are
  returned, \<open>active\<close> is an argument, because the Python body removes on exit exactly the identifier
  it added on entry, so a call leaves \<open>active\<close> as it found it.
\<close>

datatype dag_error = Cycle string | Missing string

definition step_map :: "plan_step list \<Rightarrow> (string, plan_step) dict" where
  "step_map steps = foldl (\<lambda>m s. dset m (st_step_id s) s) [] steps"

lemma dget_in_keys: "dget m k = Some v \<Longrightarrow> k \<in> fst ` set m"
  by (force dest: map_of_SomeD)

type_synonym dag_state = "dag_error list \<times> string list"

function visit :: "(string, plan_step) dict \<Rightarrow> string list \<Rightarrow> string \<Rightarrow> dag_state \<Rightarrow> dag_state"
  and visit_all :: "(string, plan_step) dict \<Rightarrow> string list \<Rightarrow> string list \<Rightarrow> dag_state \<Rightarrow> dag_state"
where
  "visit m active sid (errors, visited) =
     (if sid \<in> set active then (errors @ [Cycle sid], visited)
      else if sid \<in> set visited then (errors, visited)
      else case dget m sid of
        None \<Rightarrow> (errors @ [Missing sid], visited)
      | Some step \<Rightarrow>
          (case visit_all m (sid # active) (st_depends_on step) (errors, visited) of
             (errors', visited') \<Rightarrow> (errors', visited' @ [sid])))"
| "visit_all m active [] s = s"
| "visit_all m active (d # ds) s = visit_all m active ds (visit m active d s)"
  by pat_completeness auto
termination
  by (relation "measures
      [\<lambda>x. case x of Inl (m, active, sid, s) \<Rightarrow> card (set (dkeys m) - set active)
                   | Inr (m, active, ds, s) \<Rightarrow> card (set (dkeys m) - set active),
       \<lambda>x. case x of Inl _ \<Rightarrow> 0 | Inr (m, active, ds, s) \<Rightarrow> Suc (length ds)]")
    (auto intro!: psubset_card_mono dest!: dget_in_keys)

definition validate_dag :: "plan \<Rightarrow> dag_error list" where
  "validate_dag p =
     (let m = step_map (pl_steps p) in fst (visit_all m [] (dkeys m) ([], [])))"

text \<open>The dependency relation of a step map: \<open>(x, y)\<close> when step \<open>x\<close> lists \<open>y\<close> in \<open>depends_on\<close>.\<close>

definition depends_rel :: "(string, plan_step) dict \<Rightarrow> (string \<times> string) set" where
  "depends_rel m = {(x, y). \<exists>s. dget m x = Some s \<and> y \<in> set (st_depends_on s)}"

text \<open>A finishing order: every step comes after all of its dependencies.\<close>

definition topo :: "(string, plan_step) dict \<Rightarrow> string list \<Rightarrow> bool" where
  "topo m vs \<longleftrightarrow> (\<forall>ys x zs. vs = ys @ x # zs \<longrightarrow>
     (\<exists>s. dget m x = Some s \<and> set (st_depends_on s) \<subseteq> set ys))"

lemma topo_Nil [simp]: "topo m []"
  by (simp add: topo_def)

lemma topo_snoc:
  assumes "topo m vs" and "dget m x = Some s" and "set (st_depends_on s) \<subseteq> set vs"
  shows "topo m (vs @ [x])"
  unfolding topo_def
proof (intro allI impI)
  fix ys y zs
  assume eq: "vs @ [x] = ys @ y # zs"
  show "\<exists>s. dget m y = Some s \<and> set (st_depends_on s) \<subseteq> set ys"
  proof (cases zs rule: rev_cases)
    case Nil
    with eq assms show ?thesis by simp
  next
    case (snoc zs' z)
    with eq have "vs = ys @ y # zs'" by simp
    with assms(1) show ?thesis unfolding topo_def by blast
  qed
qed

lemma visit_errors_grow:
  "\<exists>es'. fst (visit m active sid st) = fst st @ es'"
  "\<exists>es'. fst (visit_all m active ds st) = fst st @ es'"
proof (induction m active sid st and m active ds st rule: visit_visit_all.induct)
  case (1 m active sid errors visited)
  show ?case
  proof (cases "sid \<in> set active \<or> sid \<in> set visited \<or> dget m sid = None")
    case True
    then show ?thesis by auto
  next
    case False
    then obtain s where "dget m sid = Some s" by auto
    with False 1 show ?thesis by (fastforce split: prod.splits)
  qed
next
  case (3 m active d ds s)
  then show ?case by (metis append.assoc visit_all.simps(2))
qed simp

text \<open>A run without errors extends the finishing order and finishes what it was asked to visit.\<close>

lemma visit_sound:
  "fst (visit m active sid st) = [] \<Longrightarrow> topo m (snd st) \<Longrightarrow>
     topo m (snd (visit m active sid st)) \<and>
     insert sid (set (snd st)) \<subseteq> set (snd (visit m active sid st))"
  "fst (visit_all m active ds st) = [] \<Longrightarrow> topo m (snd st) \<Longrightarrow>
     topo m (snd (visit_all m active ds st)) \<and>
     set ds \<union> set (snd st) \<subseteq> set (snd (visit_all m active ds st))"
proof (induction m active sid st and m active ds st rule: visit_visit_all.induct)
  case (1 m active sid errors visited)
  show ?case
  proof (cases "sid \<in> set active \<or> sid \<in> set visited \<or> dget m sid = None")
    case True
    with 1 show ?thesis by auto
  next
    case False
    then obtain s where s: "dget m sid = Some s" by auto
    obtain es vs where r: "visit_all m (sid # active) (st_depends_on s) (errors, visited) = (es, vs)"
      by (cases "visit_all m (sid # active) (st_depends_on s) (errors, visited)")
    with False s have eq: "visit m active sid (errors, visited) = (es, vs @ [sid])" by simp
    with "1.prems" have "es = []" by simp
    with False s r "1.IH" [OF _ _ s] "1.prems" have "topo m vs"
      and "set (st_depends_on s) \<union> set visited \<subseteq> set vs" by auto
    with s eq show ?thesis by (auto intro: topo_snoc)
  qed
next
  case (3 m active d ds s)
  obtain es' where "fst (visit_all m active ds (visit m active d s)) = fst (visit m active d s) @ es'"
    using visit_errors_grow(2) by blast
  with 3 show ?case by auto
qed simp

lemma takeWhile_stops: "y \<in> set ys \<Longrightarrow> length (takeWhile (\<lambda>z. z \<noteq> y) ys) < length ys"
  by (induction ys) auto

lemma topo_acyclic:
  assumes "topo m vs" and "\<And>x. dget m x \<noteq> None \<Longrightarrow> x \<in> set vs"
  shows "acyclic (depends_rel m) \<and> (\<forall>(x, y) \<in> depends_rel m. dget m y \<noteq> None)"
proof
  define idx where "idx x = length (takeWhile (\<lambda>y. y \<noteq> x) vs)" for x
  have edge: "idx y < idx x \<and> y \<in> set vs" if "(x, y) \<in> depends_rel m" for x y
  proof -
    from that obtain s where s: "dget m x = Some s" "y \<in> set (st_depends_on s)"
      by (auto simp: depends_rel_def)
    with assms(2) obtain ys zs where split: "vs = ys @ x # zs" "x \<notin> set ys"
      by (metis option.distinct(1) split_list_first)
    with assms(1) s have "y \<in> set ys" unfolding topo_def by fastforce
    moreover from this have "idx y < length ys"
      unfolding idx_def split(1) by (auto simp: takeWhile_append1 takeWhile_stops)
    moreover from split(2) have "takeWhile (\<lambda>y. y \<noteq> x) ys = ys"
      by (auto simp: takeWhile_eq_all_conv)
    with split have "idx x = length ys" by (simp add: idx_def takeWhile_tail)
    ultimately show ?thesis using split by simp
  qed
  then have "(depends_rel m)\<inverse> \<subseteq> measure idx" by auto
  then have "wf ((depends_rel m)\<inverse>)" by (rule wf_subset [rotated]) simp
  then show "acyclic (depends_rel m)" by (auto dest: wf_acyclic)
  have "dget m y \<noteq> None" if "(x, y) \<in> depends_rel m" for x y
  proof -
    from edge [OF that] obtain ys zs where "vs = ys @ y # zs" by (metis split_list)
    with assms(1) show ?thesis unfolding topo_def by fastforce
  qed
  then show "\<forall>(x, y) \<in> depends_rel m. dget m y \<noteq> None" by blast
qed

text \<open>On a closed acyclic graph no error is reported: an active identifier reaches the visited one.\<close>

lemma visit_complete:
  "acyclic (depends_rel m) \<Longrightarrow> (\<forall>(x, y) \<in> depends_rel m. dget m y \<noteq> None) \<Longrightarrow>
     dget m sid \<noteq> None \<Longrightarrow> (\<forall>a \<in> set active. (a, sid) \<in> (depends_rel m)\<^sup>+) \<Longrightarrow>
     fst (visit m active sid st) = fst st"
  "acyclic (depends_rel m) \<Longrightarrow> (\<forall>(x, y) \<in> depends_rel m. dget m y \<noteq> None) \<Longrightarrow>
     (\<forall>d \<in> set ds. dget m d \<noteq> None \<and> (\<forall>a \<in> set active. (a, d) \<in> (depends_rel m)\<^sup>+)) \<Longrightarrow>
     fst (visit_all m active ds st) = fst st"
proof (induction m active sid st and m active ds st rule: visit_visit_all.induct)
  case (1 m active sid errors visited)
  from "1.prems"(1,4) have na: "sid \<notin> set active" by (auto simp: acyclic_def)
  show ?case
  proof (cases "sid \<in> set visited")
    case False
    from "1.prems"(3) obtain s where s: "dget m sid = Some s" by auto
    have "(sid, d) \<in> depends_rel m" if "d \<in> set (st_depends_on s)" for d
      using that s by (auto simp: depends_rel_def)
    moreover from this "1.prems"(2) have "dget m d \<noteq> None" if "d \<in> set (st_depends_on s)" for d
      using that by blast
    ultimately have "\<forall>d \<in> set (st_depends_on s). dget m d \<noteq> None \<and>
        (\<forall>a \<in> set (sid # active). (a, d) \<in> (depends_rel m)\<^sup>+)"
      using "1.prems"(4) by (auto intro: trancl_into_trancl)
    with "1.IH" [OF na False s] "1.prems"(1,2) na False s show ?thesis
      by (auto split: prod.splits)
  qed (use na in simp)
qed simp_all

lemma dget_step_map: "dget (step_map steps) x \<noteq> None \<longleftrightarrow> x \<in> st_step_id ` set steps"
proof -
  have "dget (foldl (\<lambda>m s. dset m (st_step_id s) s) m steps) x \<noteq> None \<longleftrightarrow>
      dget m x \<noteq> None \<or> x \<in> st_step_id ` set steps" for m
    by (induction steps arbitrary: m) auto
  then show ?thesis by (simp add: step_map_def)
qed

lemma validate_dag_iff:
  "validate_dag p = [] \<longleftrightarrow>
     acyclic (depends_rel (step_map (pl_steps p))) \<and>
     (\<forall>(x, y) \<in> depends_rel (step_map (pl_steps p)). y \<in> st_step_id ` set (pl_steps p))"
proof -
  let ?m = "step_map (pl_steps p)"
  have mem: "dget ?m y \<noteq> None \<longleftrightarrow> y \<in> st_step_id ` set (pl_steps p)" for y
    by (rule dget_step_map)
  show ?thesis
  proof
    assume "validate_dag p = []"
    then have "fst (visit_all ?m [] (dkeys ?m) ([], [])) = []" by (simp add: validate_dag_def Let_def)
    from visit_sound(2) [OF this] obtain vs where "topo ?m vs" "set (dkeys ?m) \<subseteq> set vs" by auto
    moreover from this(2) have "x \<in> set vs" if "dget ?m x \<noteq> None" for x
      using that in_dkeys [of x ?m] by blast
    ultimately have "acyclic (depends_rel ?m) \<and> (\<forall>(x, y) \<in> depends_rel ?m. dget ?m y \<noteq> None)"
      by (intro topo_acyclic)
    then show "acyclic (depends_rel ?m) \<and>
      (\<forall>(x, y) \<in> depends_rel ?m. y \<in> st_step_id ` set (pl_steps p))"
      unfolding mem .
  next
    assume "acyclic (depends_rel ?m) \<and>
      (\<forall>(x, y) \<in> depends_rel ?m. y \<in> st_step_id ` set (pl_steps p))"
    then have "acyclic (depends_rel ?m)" and "\<forall>(x, y) \<in> depends_rel ?m. dget ?m y \<noteq> None"
      unfolding mem by blast+
    moreover have "\<forall>d \<in> set (dkeys ?m). dget ?m d \<noteq> None" using in_dkeys [of _ ?m] by blast
    ultimately have "fst (visit_all ?m [] (dkeys ?m) ([], [])) = fst ([] :: dag_error list, [] :: string list)"
      by (intro visit_complete(2)) simp_all
    then show "validate_dag p = []" by (simp add: validate_dag_def Let_def)
  qed
qed

end
