(* ===== verification/State_Machine.thy ===== *)
theory State_Machine
  imports Domain_Effects Domain_Plans
begin

text \<open>
  The guarded transitions of \<^verbatim>\<open>src/src/autonomous/domain/state_machine.py\<close>: the four transition
  tables as the dictionaries the code has, and \<open>transition_run\<close>, \<open>transition_plan\<close>,
  \<open>transition_step\<close>, \<open>transition_effect\<close> with every guard and every rejection. A rejected call
  returns \<open>Inl\<close> of the reason; an accepted one the new aggregate, the audit record and the emitted
  event names. The clock reading is the last argument. All four machines are instances of the
  interface \<open>versioned\<close>.
\<close>

section \<open>Records and rejections\<close>

fun all_strings :: "pyval list \<Rightarrow> string list option" where
  "all_strings [] = Some []"
| "all_strings (PStr s # vs) = map_option (\<lambda>ss. s # ss) (all_strings vs)"
| "all_strings (_ # vs) = None"

fun side_effects_field :: "pyval \<Rightarrow> py_exn + string list" where
  "side_effects_field (PList vs) = (case all_strings vs of
       Some ss \<Rightarrow> Inr ss | None \<Rightarrow> Inl (ValueError ''durable_side_effects must contain strings''))"
| "side_effects_field (PTuple vs) = (case all_strings vs of
       Some ss \<Rightarrow> Inr ss | None \<Rightarrow> Inl (ValueError ''durable_side_effects must contain strings''))"
| "side_effects_field _ = Inl (ValueError ''durable_side_effects must contain strings'')"

record transition_record =
  tr_aggregate_id :: string
  tr_aggregate_type :: string
  tr_from_state :: string
  tr_event :: string
  tr_guard :: string
  tr_to_state :: string
  tr_owner_activity :: string
  tr_aggregate_version :: int
  tr_durable_side_effects :: "string list"
  tr_audit_event :: string
  tr_fsync_before_ack :: bool
  tr_timestamp :: timestamp

definition transition_record_to_dict :: "transition_record \<Rightarrow> pydict" where
  "transition_record_to_dict r =
     [(''aggregate_id'', PStr (tr_aggregate_id r)),
      (''aggregate_type'', PStr (tr_aggregate_type r)),
      (''from_state'', PStr (tr_from_state r)),
      (''event'', PStr (tr_event r)),
      (''guard'', PStr (tr_guard r)),
      (''to_state'', PStr (tr_to_state r)),
      (''owner_activity'', PStr (tr_owner_activity r)),
      (''aggregate_version'', PInt (tr_aggregate_version r)),
      (''durable_side_effects'', strs_val (tr_durable_side_effects r)),
      (''audit_event'', PStr (tr_audit_event r)),
      (''fsync_before_ack'', PBool (tr_fsync_before_ack r)),
      (''timestamp'', PFloat (Fin (tr_timestamp r)))]"

definition transition_record_from_dict :: "pydict \<Rightarrow> py_exn + transition_record" where
  "transition_record_from_dict d =
     bindE (side_effects_field (opt d ''durable_side_effects'' (PTuple []))) (\<lambda>x_durable_side_effects.
     bindE (req_str d ''aggregate_id'') (\<lambda>x_aggregate_id.
     bindE (req_str d ''aggregate_type'') (\<lambda>x_aggregate_type.
     bindE (req_str d ''from_state'') (\<lambda>x_from_state.
     bindE (req_str d ''event'') (\<lambda>x_event.
     bindE (req_str d ''guard'') (\<lambda>x_guard.
     bindE (req_str d ''to_state'') (\<lambda>x_to_state.
     bindE (req_str d ''owner_activity'') (\<lambda>x_owner_activity.
     bindE (bindE (req d ''aggregate_version'') (\<lambda>v. strict_int v ''aggregate_version'' (Some 0))) (\<lambda>x_aggregate_version.
     bindE (req_str d ''audit_event'') (\<lambda>x_audit_event.
     bindE (bindE (req d ''fsync_before_ack'') (\<lambda>v. strict_bool v ''fsync_before_ack'')) (\<lambda>x_fsync_before_ack.
     bindE (bindE (req d ''timestamp'') (\<lambda>v. strict_float v ''timestamp'')) (\<lambda>x_timestamp.
     Inr (\<lparr>tr_aggregate_id = x_aggregate_id, tr_aggregate_type = x_aggregate_type,
        tr_from_state = x_from_state, tr_event = x_event, tr_guard = x_guard, tr_to_state =
        x_to_state, tr_owner_activity = x_owner_activity, tr_aggregate_version =
        x_aggregate_version, tr_durable_side_effects = x_durable_side_effects,
        tr_audit_event = x_audit_event, tr_fsync_before_ack = x_fsync_before_ack,
        tr_timestamp = x_timestamp\<rparr>)))))))))))))"

lemma all_strings_map [simp]: "all_strings (map PStr ss) = Some ss"
  by (induction ss) simp_all

interpretation transition_record_codec: codec transition_record_to_dict transition_record_from_dict
  "\<lambda>r. 0 \<le> tr_aggregate_version r"
  by unfold_locales
    (simp add: transition_record_to_dict_def transition_record_from_dict_def strs_val_def codec_simps)

record run_transition_context =
  cx_run_id :: string
  cx_plan_epoch :: int
  cx_source_sequence :: int
  cx_unresolved_effect_ids :: "string list"
  cx_undisposed_committed_effect_ids :: "string list"
  cx_criteria_verified :: bool
  cx_verification_attestation_ids :: "string list"
  cx_finalization_record_id :: string
  cx_human_acceptance_decision_id :: string
  cx_actor_principal_id :: string
  cx_decision_nonce_consumed :: bool
  cx_decision_epoch_valid :: bool

datatype transition_error =
    VersionMismatch int int
  | ContextNotBound
  | IllegalRunTransition run_state run_event
  | ContextRequired string
  | UnresolvedEffects "string list"
  | DispositionRequired
  | CriteriaNotVerified
  | FinalizationRequired string
  | AttestationRequired
  | HumanDecisionRequired
  | TerminalRunReopened
  | ReconciliationIncomplete
  | ReconciliationTargetMissing
  | IllegalPlanTransition plan_state plan_event
  | IllegalStepTransition step_state step_event
  | AbortAfterDispatch
  | IllegalEffectTransition effect_state effect_event
  | ConstructorError py_exn

definition check_version :: "int \<Rightarrow> int option \<Rightarrow> transition_error + unit" where
  "check_version current expected =
     (case expected of
        None \<Rightarrow> Inr ()
      | Some e \<Rightarrow> if current \<noteq> e then Inl (VersionMismatch e current) else Inr ())"

definition mk_record ::
  "string \<Rightarrow> string \<Rightarrow> string \<Rightarrow> string \<Rightarrow> string \<Rightarrow> string \<Rightarrow> int \<Rightarrow> string list \<Rightarrow> string \<Rightarrow> timestamp
    \<Rightarrow> transition_record" where
  "mk_record aggregate_id aggregate_type from_state event guard to_state version emitted owner now =
     \<lparr>tr_aggregate_id = aggregate_id, tr_aggregate_type = aggregate_type,
      tr_from_state = from_state, tr_event = event, tr_guard = guard, tr_to_state = to_state,
      tr_owner_activity = owner, tr_aggregate_version = version, tr_durable_side_effects = emitted,
      tr_audit_event = aggregate_type @ ''.'' @ event, tr_fsync_before_ack = True, tr_timestamp = now\<rparr>"

fun lift_init :: "py_exn + 'a \<Rightarrow> transition_error + 'a" where
  "lift_init (Inl e) = Inl (ConstructorError e)"
| "lift_init (Inr a) = Inr a"

section \<open>Runs\<close>

definition RUN_TRANSITIONS :: "(run_state \<times> run_event, run_state \<times> string list \<times> string) dict" where
  "RUN_TRANSITIONS =
     [((RS_RECEIVED, RE_CLARIFICATION_REQUIRED),
       (RS_CLARIFYING, [''decision.created''], ''goal requires clarification'')),
      ((RS_RECEIVED, RE_GOAL_DEFINED),
       (RS_PLAN_READY, [''run.plan_requested''], ''goal definition complete'')),
      ((RS_CLARIFYING, RE_GOAL_DEFINED),
       (RS_PLAN_READY, [''run.plan_requested''], ''clarification resolved'')),
      ((RS_PLAN_READY, RE_PLAN_VALIDATED),
       (RS_PLAN_READY, [''run.plan_validated''], ''plan compiler accepted plan'')),
      ((RS_PLAN_READY, RE_APPROVAL_REQUIRED),
       (RS_APPROVAL_PENDING, [''approval.created''], ''plan exceeds automatic authorization'')),
      ((RS_PLAN_READY, RE_ACTIVATED),
       (RS_SCHEDULED, [''run.scheduled''], ''activation authorization consumed'')),
      ((RS_APPROVAL_PENDING, RE_ACTIVATED),
       (RS_SCHEDULED, [''run.scheduled''], ''approval and activation authorization consumed'')),
      ((RS_SCHEDULED, RE_STARTED),
       (RS_EXECUTING, [''run.execution_started''], ''ready step received legal lease'')),
      ((RS_QUEUED, RE_STARTED),
       (RS_EXECUTING, [''run.execution_started''], ''queued run received legal lease'')),
      ((RS_EXECUTING, RE_OUTPUT_SUBMITTED),
       (RS_VERIFYING, [''verification.requested''], ''worker submitted staged output'')),
      ((RS_VERIFYING, RE_VERIFICATION_FAILED),
       (RS_REPLAN_PENDING, [''run.replan_requested''], ''verification rejected current plan output'')),
      ((RS_EXECUTING, RE_REPLAN_REQUESTED),
       (RS_REPLAN_PENDING, [''run.replan_requested''], ''runtime requested replan'')),
      ((RS_EXECUTING, RE_SUPERSEDE_REQUESTED),
       (RS_SUPERSEDED_PENDING_DRAIN, [''run.safe_drain_requested''], ''new goal or plan version superseded active work'')),
      ((RS_SCHEDULED, RE_SUPERSEDE_REQUESTED),
       (RS_SUPERSEDED_PENDING_DRAIN, [''run.safe_drain_requested''], ''new goal or plan version superseded scheduled work'')),
      ((RS_SUPERSEDED_PENDING_DRAIN, RE_SUPERSEDE_DRAINED),
       (RS_REPLAN_PENDING, [''run.replan_requested''], ''old attempts reached a safe point'')),
      ((RS_BLOCKED, RE_REPLAN_REQUESTED),
       (RS_REPLAN_PENDING, [''run.replan_requested''], ''blocking decision selected replan'')),
      ((RS_REPLAN_PENDING, RE_STARTED),
       (RS_EXECUTING, [''run.execution_resumed''], ''new plan epoch activated'')),
      ((RS_EXECUTING, RE_BLOCKED),
       (RS_BLOCKED, [''decision.created''], ''runtime produced a legal blocker'')),
      ((RS_VERIFYING, RE_ACCEPTANCE_REQUIRED),
       (RS_ACCEPTANCE_PENDING, [''decision.human_acceptance_created''], ''criterion requires Human Oracle'')),
      ((RS_EXECUTING, RE_PAUSED),
       (RS_PAUSED, [''run.dispatch_gate_closed''], ''run control gate drained'')),
      ((RS_SCHEDULED, RE_PAUSED),
       (RS_PAUSED, [''run.dispatch_gate_closed''], ''scheduled run paused'')),
      ((RS_PAUSED, RE_RESUMED),
       (RS_SCHEDULED, [''run.resume_requested''], ''run control epoch advanced''))]"

text \<open>
  The outcome of the guards: target state, new target terminal state, guard text, emitted events.
\<close>

type_synonym run_outcome = "run_state \<times> run_state option \<times> string \<times> string list"

definition success_outcome ::
  "run \<Rightarrow> run_event \<Rightarrow> run_transition_context option \<Rightarrow> transition_error + run_outcome" where
  "success_outcome r event context =
     (let expected_source =
            (if event = RE_VERIFICATION_PASSED then RS_VERIFYING else RS_ACCEPTANCE_PENDING)
      in if rn_state r \<noteq> expected_source then Inl (IllegalRunTransition (rn_state r) event)
      else case context of
        None \<Rightarrow> Inl (ContextRequired ''success'')
      | Some c \<Rightarrow>
          if cx_unresolved_effect_ids c \<noteq> [] then Inl (UnresolvedEffects (cx_unresolved_effect_ids c))
          else if cx_undisposed_committed_effect_ids c \<noteq> [] then Inl DispositionRequired
          else if \<not> cx_criteria_verified c then Inl CriteriaNotVerified
          else if cx_finalization_record_id c = [] then Inl (FinalizationRequired ''success'')
          else if event = RE_VERIFICATION_PASSED \<and> cx_verification_attestation_ids c = []
          then Inl AttestationRequired
          else if event = RE_HUMAN_ACCEPTED \<and>
            (cx_human_acceptance_decision_id c = [] \<or> cx_actor_principal_id c = [] \<or>
             \<not> cx_decision_nonce_consumed c \<or> \<not> cx_decision_epoch_valid c)
          then Inl HumanDecisionRequired
          else Inr (RS_SUCCEEDED, None,
            (if event = RE_VERIFICATION_PASSED then ''criteria verified and effects finalized''
             else ''human acceptance recorded and effects finalized''),
            [''run.terminal_report_required'']))"

fun terminal_by_event :: "run_event \<Rightarrow> run_state" where
  "terminal_by_event RE_CANCEL_REQUESTED = RS_CANCELED"
| "terminal_by_event RE_FAILED = RS_FAILED"
| "terminal_by_event _ = RS_EXPIRED"

definition drain_outcome ::
  "run \<Rightarrow> run_event \<Rightarrow> run_transition_context option \<Rightarrow> transition_error + run_outcome" where
  "drain_outcome r event context =
     (if rn_state r \<noteq> RS_CANCELLING then Inl (IllegalRunTransition (rn_state r) event)
      else case context of
        None \<Rightarrow> Inl (ContextRequired ''cancel drain finalization'')
      | Some c \<Rightarrow>
          let terminal = (case rn_target_terminal_state r of None \<Rightarrow> RS_CANCELED | Some t \<Rightarrow> t)
          in if cx_unresolved_effect_ids c \<noteq> [] \<or> cx_undisposed_committed_effect_ids c \<noteq> []
             then Inr (RS_RECONCILIATION_PENDING, Some terminal,
                    ''effects require reconciliation before terminal state'',
                    [''reconciliation.requested''])
             else if cx_finalization_record_id c = [] then Inl (FinalizationRequired ''terminal state'')
             else Inr (terminal, None, ''dispatch drained and effects finalized'',
                    [''run.terminal_report_required'']))"

definition reconciled_outcome ::
  "run \<Rightarrow> run_event \<Rightarrow> run_transition_context option \<Rightarrow> transition_error + run_outcome" where
  "reconciled_outcome r event context =
     (if rn_state r \<noteq> RS_RECONCILIATION_PENDING then Inl (IllegalRunTransition (rn_state r) event)
      else case context of
        None \<Rightarrow> Inl (ContextRequired ''reconciliation completion'')
      | Some c \<Rightarrow>
          if cx_unresolved_effect_ids c \<noteq> [] \<or> cx_undisposed_committed_effect_ids c \<noteq> []
          then Inl ReconciliationIncomplete
          else case rn_target_terminal_state r of
            None \<Rightarrow> Inl ReconciliationTargetMissing
          | Some t \<Rightarrow>
              if cx_finalization_record_id c = [] then Inl (FinalizationRequired ''terminal state'')
              else Inr (t, None, ''all effects reconciled and disposed'',
                     [''run.terminal_report_required'']))"

definition run_outcome ::
  "run \<Rightarrow> run_event \<Rightarrow> run_transition_context option \<Rightarrow> transition_error + run_outcome" where
  "run_outcome r event context =
     (if event \<in> set [RE_VERIFICATION_PASSED, RE_HUMAN_ACCEPTED] then success_outcome r event context
      else if event = RE_HUMAN_REJECTED then
        (if rn_state r \<noteq> RS_ACCEPTANCE_PENDING then Inl (IllegalRunTransition (rn_state r) event)
         else Inr (RS_REPLAN_PENDING, rn_target_terminal_state r,
                ''human acceptance rejected current result'', [''run.revision_requested'']))
      else if event \<in> set [RE_CANCEL_REQUESTED, RE_FAILED, RE_EXPIRED] then
        (if rn_state r \<in> set [RS_SUCCEEDED, RS_FAILED, RS_CANCELED, RS_EXPIRED]
         then Inl TerminalRunReopened
         else Inr (RS_CANCELLING, Some (terminal_by_event event),
                ''dispatch gate closed and control epoch advanced'', [''run.finalization_requested'']))
      else if event = RE_CANCEL_DRAINED then drain_outcome r event context
      else if event = RE_RECONCILIATION_COMPLETED then reconciled_outcome r event context
      else case dget RUN_TRANSITIONS (rn_state r, event) of
        None \<Rightarrow> Inl (IllegalRunTransition (rn_state r) event)
      | Some (target, emitted, guard) \<Rightarrow> Inr (target, rn_target_terminal_state r, guard, emitted))"

definition transition_run ::
  "run \<Rightarrow> run_event \<Rightarrow> int option \<Rightarrow> run_transition_context option \<Rightarrow> string \<Rightarrow> timestamp
    \<Rightarrow> transition_error + run \<times> transition_record \<times> string list" where
  "transition_run r event expected context owner now =
     bindE (check_version (rn_aggregate_version r) expected) (\<lambda>_.
     bindE (case context of
              None \<Rightarrow> Inr ()
            | Some c \<Rightarrow>
                guardE (\<not> (cx_run_id c \<noteq> rn_run_id r \<or> cx_plan_epoch c \<noteq> rn_plan_epoch r \<or>
                           cx_source_sequence c < 1)) ContextNotBound) (\<lambda>_.
     bindE (run_outcome r event context) (\<lambda>(target, terminal, guard, emitted).
     bindE (lift_init (run_init (r\<lparr>rn_state := target, rn_target_terminal_state := terminal,
                                  rn_aggregate_version := rn_aggregate_version r + 1\<rparr>))) (\<lambda>updated.
     Inr (updated,
          mk_record (rn_run_id r) ''run'' (run_state_value (rn_state r)) (run_event_value event) guard
            (run_state_value target) (rn_aggregate_version r + 1) emitted owner now,
          emitted)))))"

section \<open>Plans and steps\<close>

definition PLAN_TRANSITIONS :: "(plan_state \<times> plan_event, plan_state) dict" where
  "PLAN_TRANSITIONS =
     [((PS_DRAFT, PE_COMPILED), PS_COMPILED),
      ((PS_COMPILED, PE_VALIDATED), PS_VALIDATED),
      ((PS_COMPILED, PE_INVALIDATED), PS_INVALID),
      ((PS_VALIDATED, PE_ACTIVATED), PS_ACTIVE),
      ((PS_VALIDATED, PE_INVALIDATED), PS_INVALID),
      ((PS_ACTIVE, PE_SUPERSEDE_REQUESTED), PS_SUPERSEDED_PENDING_DRAIN),
      ((PS_SUPERSEDED_PENDING_DRAIN, PE_DRAINED), PS_SUPERSEDED),
      ((PS_ACTIVE, PE_INVALIDATED), PS_INVALID)]"

definition transition_plan ::
  "plan \<Rightarrow> plan_event \<Rightarrow> int option \<Rightarrow> string \<Rightarrow> timestamp
    \<Rightarrow> transition_error + plan \<times> transition_record \<times> string list" where
  "transition_plan p event expected owner now =
     bindE (check_version (pl_aggregate_version p) expected) (\<lambda>_.
     case dget PLAN_TRANSITIONS (pl_state p, event) of
       None \<Rightarrow> Inl (IllegalPlanTransition (pl_state p) event)
     | Some target \<Rightarrow>
         let version = pl_aggregate_version p + 1;
             emitted = [''plan.'' @ plan_state_value target]
         in Inr (p\<lparr>pl_state := target, pl_aggregate_version := version\<rparr>,
                 mk_record (pl_plan_id p) ''plan'' (plan_state_value (pl_state p))
                   (plan_event_value event) ''plan transition table accepted event''
                   (plan_state_value target) version emitted owner now,
                 emitted))"

definition STEP_TRANSITIONS :: "(step_state \<times> step_event, step_state) dict" where
  "STEP_TRANSITIONS =
     [((SS_PENDING, SE_DEPENDENCIES_SATISFIED), SS_READY),
      ((SS_READY, SE_LEASE_GRANTED), SS_LEASED),
      ((SS_LEASED, SE_WORKER_STARTED), SS_RUNNING),
      ((SS_RUNNING, SE_OUTPUT_STAGED), SS_OUTPUT_STAGED),
      ((SS_OUTPUT_STAGED, SE_VERIFY_STARTED), SS_VERIFYING),
      ((SS_VERIFYING, SE_VERIFIED), SS_SUCCEEDED),
      ((SS_RUNNING, SE_ATTEMPT_FAILED), SS_RETRY_WAIT),
      ((SS_RETRY_WAIT, SE_ATTEMPTS_EXHAUSTED), SS_FAILED),
      ((SS_RETRY_WAIT, SE_RETRY_READY), SS_READY),
      ((SS_REJECTED, SE_RETRY_AUTHORIZED), SS_RETRY_WAIT),
      ((SS_LEASED, SE_WORKER_LOST), SS_ORPHANED),
      ((SS_RUNNING, SE_WORKER_LOST), SS_ORPHANED),
      ((SS_ORPHANED, SE_RECONCILE_STARTED), SS_RECONCILING),
      ((SS_RECONCILING, SE_RECONCILE_RETRY), SS_READY),
      ((SS_VERIFYING, SE_REJECTED), SS_REJECTED),
      ((SS_PENDING, SE_SKIP_AUTHORIZED), SS_SKIPPED),
      ((SS_READY, SE_SKIP_AUTHORIZED), SS_SKIPPED),
      ((SS_RUNNING, SE_CANCEL_REQUESTED), SS_CANCELLING),
      ((SS_LEASED, SE_CANCEL_REQUESTED), SS_CANCELLING),
      ((SS_PENDING, SE_CANCEL_REQUESTED), SS_CANCELLING),
      ((SS_READY, SE_CANCEL_REQUESTED), SS_CANCELLING),
      ((SS_OUTPUT_STAGED, SE_CANCEL_REQUESTED), SS_CANCELLING),
      ((SS_VERIFYING, SE_CANCEL_REQUESTED), SS_CANCELLING),
      ((SS_RETRY_WAIT, SE_CANCEL_REQUESTED), SS_CANCELLING),
      ((SS_ORPHANED, SE_CANCEL_REQUESTED), SS_CANCELLING),
      ((SS_RECONCILING, SE_CANCEL_REQUESTED), SS_CANCELLING),
      ((SS_REJECTED, SE_CANCEL_REQUESTED), SS_CANCELLING),
      ((SS_CANCELLING, SE_CANCELED), SS_CANCELED)]"

definition transition_step ::
  "plan_step \<Rightarrow> step_event \<Rightarrow> int option \<Rightarrow> string \<Rightarrow> timestamp
    \<Rightarrow> transition_error + plan_step \<times> transition_record \<times> string list" where
  "transition_step s event expected owner now =
     bindE (check_version (st_aggregate_version s) expected) (\<lambda>_.
     case dget STEP_TRANSITIONS (st_state s, event) of
       None \<Rightarrow> Inl (IllegalStepTransition (st_state s) event)
     | Some target \<Rightarrow>
         let version = st_aggregate_version s + 1;
             emitted = [''step.'' @ step_state_value target]
         in Inr (s\<lparr>st_state := target, st_aggregate_version := version\<rparr>,
                 mk_record (st_step_id s) ''step'' (step_state_value (st_state s))
                   (step_event_value event) ''step transition table accepted event''
                   (step_state_value target) version emitted owner now,
                 emitted))"

section \<open>Effects\<close>

definition EFFECT_TRANSITIONS :: "(effect_state \<times> effect_event, effect_state) dict" where
  "EFFECT_TRANSITIONS =
     [((ES_PROPOSED, EE_POLICY_ALLOWED), ES_POLICY_ALLOWED),
      ((ES_PROPOSED, EE_POLICY_DENIED), ES_POLICY_DENIED),
      ((ES_POLICY_ALLOWED, EE_PREPARED), ES_PREPARED),
      ((ES_POLICY_ALLOWED, EE_PREPARE_FAILED), ES_ABORTED_NO_DISPATCH),
      ((ES_PREPARED, EE_ABORT_BEFORE_DISPATCH), ES_ABORTED_NO_DISPATCH),
      ((ES_PREPARED, EE_DISPATCH_STARTED), ES_EXECUTING),
      ((ES_EXECUTING, EE_DISPATCH_COMMITTED), ES_COMMITTED),
      ((ES_EXECUTING, EE_DISPATCH_FAILED_SAFE), ES_FAILED_SAFE),
      ((ES_EXECUTING, EE_DISPATCH_UNKNOWN), ES_UNKNOWN_EFFECT),
      ((ES_UNKNOWN_EFFECT, EE_RECONCILE_STARTED), ES_RECONCILING),
      ((ES_RECONCILING, EE_REMOTE_COMMITTED), ES_COMMITTED),
      ((ES_RECONCILING, EE_REMOTE_NOT_EXECUTED), ES_FAILED_SAFE),
      ((ES_RECONCILING, EE_RETRY_AUTHORIZED), ES_RETRY_AUTHORIZED),
      ((ES_RETRY_AUTHORIZED, EE_PREPARED), ES_PREPARED),
      ((ES_RETRY_AUTHORIZED, EE_ABORT_BEFORE_DISPATCH), ES_ABORTED_NO_DISPATCH),
      ((ES_RECONCILING, EE_MANUAL_REQUIRED), ES_MANUAL_RECONCILIATION),
      ((ES_COMMITTED, EE_COMPENSATE_STARTED), ES_COMPENSATING),
      ((ES_MANUAL_RECONCILIATION, EE_COMPENSATE_STARTED), ES_COMPENSATING),
      ((ES_MANUAL_RECONCILIATION, EE_REMOTE_COMMITTED), ES_COMMITTED),
      ((ES_MANUAL_RECONCILIATION, EE_DISPATCH_FAILED_SAFE), ES_FAILED_SAFE),
      ((ES_COMPENSATING, EE_COMPENSATED), ES_COMPENSATED),
      ((ES_COMPENSATING, EE_COMPENSATION_FAILED), ES_COMPENSATION_FAILED),
      ((ES_COMPENSATION_FAILED, EE_MANUAL_REQUIRED), ES_MANUAL_RECONCILIATION),
      ((ES_MANUAL_RECONCILIATION, EE_ABANDONED_ACCEPTED), ES_ABANDONED_ACCEPTED)]"

definition transition_effect ::
  "effect \<Rightarrow> effect_event \<Rightarrow> int option \<Rightarrow> timestamp
    \<Rightarrow> transition_error + effect \<times> transition_record \<times> string list" where
  "transition_effect e event expected now =
     bindE (check_version (ef_aggregate_version e) expected) (\<lambda>_.
     case dget EFFECT_TRANSITIONS (ef_state e, event) of
       None \<Rightarrow>
         if event = EE_ABORT_BEFORE_DISPATCH then Inl AbortAfterDispatch
         else Inl (IllegalEffectTransition (ef_state e) event)
     | Some target \<Rightarrow>
         let active_dispatch =
               (if event = EE_DISPATCH_STARTED then True
                else if event \<in> set [EE_DISPATCH_COMMITTED, EE_DISPATCH_FAILED_SAFE, EE_DISPATCH_UNKNOWN]
                then False else ef_active_dispatch e);
             version = ef_aggregate_version e + 1;
             emitted = [''effect.'' @ effect_state_value target]
         in bindE (lift_init (effect_init
              (e\<lparr>ef_state := target, ef_active_dispatch := active_dispatch,
                 ef_committed_at := (if target = ES_COMMITTED then Some now else ef_committed_at e),
                 ef_aggregate_version := version\<rparr>))) (\<lambda>updated.
            Inr (updated,
                 mk_record (ef_effect_instance_id e) ''effect'' (effect_state_value (ef_state e))
                   (effect_event_value event)
                   ''effect transition table and dispatch guard accepted event''
                   (effect_state_value target) version emitted ''effect_state_machine'' now,
                 emitted)))"

section \<open>Replanning keeps the criteria\<close>

datatype criterion_error = MissingCriteria "string list" | ChangedCriteria "string list"

definition criterion_hashes :: "goal_criterion list \<Rightarrow> (string, string) dict" where
  "criterion_hashes cs = foldl (\<lambda>m c. dset m (gc_criterion_id c) (gc_criterion_hash c)) [] cs"

definition assert_replan_criteria_compatible ::
  "goal_criterion list \<Rightarrow> goal_criterion list \<Rightarrow> criterion_error + unit" where
  "assert_replan_criteria_compatible original replanned =
     (let original_hashes = criterion_hashes original;
          replanned_hashes = criterion_hashes replanned;
          missing = sort (filter (\<lambda>k. dget replanned_hashes k = None) (dkeys original_hashes));
          changed = sort (map fst (filter (\<lambda>(k, h). dget replanned_hashes k \<noteq> Some h) original_hashes))
      in if missing \<noteq> [] then Inl (MissingCriteria missing)
         else if changed \<noteq> [] then Inl (ChangedCriteria changed)
         else Inr ())"

section \<open>Inversion of accepted transitions\<close>

lemma check_version_Inr: "check_version cur ex = Inr u \<longleftrightarrow> ex = None \<or> ex = Some cur"
  by (auto simp: check_version_def split: option.splits)

lemma lift_init_Inr: "lift_init x = Inr a \<longleftrightarrow> x = Inr a"
  by (cases x) auto

lemma run_init_Inr:
  "run_init r = Inr r' \<Longrightarrow>
    rn_state r' = rn_state r \<and> rn_target_terminal_state r' = rn_target_terminal_state r \<and>
    rn_aggregate_version r' = rn_aggregate_version r \<and> rn_run_id r' = rn_run_id r \<and>
    rn_plan_epoch r' = rn_plan_epoch r"
  by (auto simp: run_init_def Let_def split: if_splits)

definition context_bound :: "run \<Rightarrow> run_transition_context \<Rightarrow> bool" where
  "context_bound r c \<longleftrightarrow>
     cx_run_id c = rn_run_id r \<and> cx_plan_epoch c = rn_plan_epoch r \<and> 1 \<le> cx_source_sequence c"

lemma transition_run_InrD:
  assumes "transition_run r ev ex ctx owner now = Inr (r', rec, emitted)"
  obtains guard where
    "run_outcome r ev ctx = Inr (rn_state r', rn_target_terminal_state r', guard, emitted)"
    and "ex = None \<or> ex = Some (rn_aggregate_version r)"
    and "\<forall>c. ctx = Some c \<longrightarrow> context_bound r c"
    and "rn_aggregate_version r' = rn_aggregate_version r + 1"
    and "rn_run_id r' = rn_run_id r" and "rn_plan_epoch r' = rn_plan_epoch r"
  using assms
  by (fastforce simp: transition_run_def bindE_Inr_iff check_version_Inr lift_init_Inr
      context_bound_def split: option.splits dest!: run_init_Inr)

lemma transition_run_accepts:
  assumes "ex = None \<or> ex = Some (rn_aggregate_version r)"
    and "\<forall>c. ctx = Some c \<longrightarrow> context_bound r c"
    and "run_outcome r ev ctx = Inr (target, terminal, guard, emitted)"
    and "terminal \<in> {None, Some RS_CANCELED, Some RS_FAILED, Some RS_EXPIRED}"
  shows "\<exists>r' rec. transition_run r ev ex ctx owner now = Inr (r', rec, emitted) \<and>
    rn_state r' = target \<and> rn_target_terminal_state r' = terminal"
proof -
  have "\<exists>r'. run_init (r\<lparr>rn_state := target, rn_target_terminal_state := terminal,
      rn_aggregate_version := rn_aggregate_version r + 1\<rparr>) = Inr r' \<and>
      rn_state r' = target \<and> rn_target_terminal_state r' = terminal"
    using assms(4) by (auto simp: run_init_def Let_def)
  with assms show ?thesis
    by (auto simp: transition_run_def check_version_def context_bound_def split: option.splits)
qed

section \<open>Terminal runs\<close>

abbreviation terminal_run_states :: "run_state list" where
  "terminal_run_states \<equiv> [RS_SUCCEEDED, RS_FAILED, RS_CANCELED, RS_EXPIRED]"

lemma run_table_closed:
  assumes "dget RUN_TRANSITIONS (s, ev) = Some (t, emitted, guard)"
  shows "s \<notin> set terminal_run_states" and "t \<notin> set terminal_run_states"
    and "s \<notin> {RS_CANCELLING, RS_RECONCILIATION_PENDING}"
    and "t \<notin> {RS_CANCELLING, RS_RECONCILIATION_PENDING}"
proof -
  have "((s, ev), (t, emitted, guard)) \<in> set RUN_TRANSITIONS"
    using assms by (rule map_of_SomeD)
  then show "s \<notin> set terminal_run_states" and "t \<notin> set terminal_run_states"
    and "s \<notin> {RS_CANCELLING, RS_RECONCILIATION_PENDING}"
    and "t \<notin> {RS_CANCELLING, RS_RECONCILIATION_PENDING}"
    by (auto simp: RUN_TRANSITIONS_def)
qed

definition effects_settled :: "run_transition_context \<Rightarrow> bool" where
  "effects_settled c \<longleftrightarrow> cx_unresolved_effect_ids c = [] \<and>
     cx_undisposed_committed_effect_ids c = [] \<and> cx_finalization_record_id c \<noteq> []"

definition success_evidence :: "run_state \<Rightarrow> run_transition_context \<Rightarrow> bool" where
  "success_evidence s c \<longleftrightarrow> cx_criteria_verified c \<and>
     (s = RS_VERIFYING \<and> cx_verification_attestation_ids c \<noteq> [] \<or>
      s = RS_ACCEPTANCE_PENDING \<and> cx_human_acceptance_decision_id c \<noteq> [] \<and>
      cx_actor_principal_id c \<noteq> [] \<and> cx_decision_nonce_consumed c \<and> cx_decision_epoch_valid c)"

lemma success_outcome_Inr:
  assumes "success_outcome r ev ctx = Inr (t, tt, g, em)"
    and "ev \<in> {RE_VERIFICATION_PASSED, RE_HUMAN_ACCEPTED}"
  shows "t = RS_SUCCEEDED \<and> tt = None \<and>
    (\<exists>c. ctx = Some c \<and> effects_settled c \<and> success_evidence (rn_state r) c)"
  using assms unfolding success_outcome_def effects_settled_def success_evidence_def Let_def
  by (auto split: if_splits option.splits)

lemma drain_outcome_Inr:
  assumes "drain_outcome r ev ctx = Inr (t, tt, g, em)"
  shows "rn_state r = RS_CANCELLING \<and> (\<exists>c. ctx = Some c \<and>
    (t = RS_RECONCILIATION_PENDING \<and> tt = Some (case_option RS_CANCELED id (rn_target_terminal_state r)) \<or>
     t = case_option RS_CANCELED id (rn_target_terminal_state r) \<and> tt = None \<and> effects_settled c))"
  using assms unfolding drain_outcome_def effects_settled_def Let_def
  by (cases "rn_target_terminal_state r") (auto split: if_splits option.splits)

lemma reconciled_outcome_Inr:
  assumes "reconciled_outcome r ev ctx = Inr (t, tt, g, em)"
  shows "rn_state r = RS_RECONCILIATION_PENDING \<and> rn_target_terminal_state r = Some t \<and> tt = None \<and>
    (\<exists>c. ctx = Some c \<and> effects_settled c)"
  using assms unfolding reconciled_outcome_def effects_settled_def
  by (auto split: if_splits option.splits)

text \<open>How an accepted transition came about: one case per branch of the source.\<close>

lemma run_outcome_cases:
  assumes "run_outcome r ev ctx = Inr (t, tt, g, em)"
  obtains
    (success) c where "t = RS_SUCCEEDED" "tt = None" "ctx = Some c" "effects_settled c"
      "success_evidence (rn_state r) c"
  | (rejected) "rn_state r = RS_ACCEPTANCE_PENDING" "t = RS_REPLAN_PENDING"
      "tt = rn_target_terminal_state r"
  | (closing) "rn_state r \<notin> set terminal_run_states" "t = RS_CANCELLING"
      "tt = Some (terminal_by_event ev)"
  | (parked) "rn_state r = RS_CANCELLING" "t = RS_RECONCILIATION_PENDING"
      "tt = Some (case_option RS_CANCELED id (rn_target_terminal_state r))"
  | (drained) c where "rn_state r = RS_CANCELLING" "ctx = Some c" "effects_settled c"
      "t = case_option RS_CANCELED id (rn_target_terminal_state r)" "tt = None"
  | (reconciled) c where "rn_state r = RS_RECONCILIATION_PENDING"
      "rn_target_terminal_state r = Some t" "tt = None" "ctx = Some c" "effects_settled c"
  | (table) "dget RUN_TRANSITIONS (rn_state r, ev) = Some (t, em, g)"
      "tt = rn_target_terminal_state r"
proof -
  consider "ev \<in> {RE_VERIFICATION_PASSED, RE_HUMAN_ACCEPTED}" | "ev = RE_HUMAN_REJECTED"
    | "ev \<in> {RE_CANCEL_REQUESTED, RE_FAILED, RE_EXPIRED}" | "ev = RE_CANCEL_DRAINED"
    | "ev = RE_RECONCILIATION_COMPLETED"
    | "ev \<notin> {RE_VERIFICATION_PASSED, RE_HUMAN_ACCEPTED, RE_HUMAN_REJECTED, RE_CANCEL_REQUESTED,
        RE_FAILED, RE_EXPIRED, RE_CANCEL_DRAINED, RE_RECONCILIATION_COMPLETED}"
    by blast
  then show thesis
  proof cases
    case 1
    with assms have "success_outcome r ev ctx = Inr (t, tt, g, em)"
      by (auto simp: run_outcome_def)
    from success_outcome_Inr [OF this 1] show ?thesis by (auto intro: success)
  next
    case 2
    with assms show ?thesis by (auto simp: run_outcome_def split: if_splits intro: rejected)
  next
    case 3
    with assms show ?thesis by (auto simp: run_outcome_def split: if_splits intro: closing)
  next
    case 4
    with assms have "drain_outcome r ev ctx = Inr (t, tt, g, em)" by (simp add: run_outcome_def)
    from drain_outcome_Inr [OF this] show ?thesis by (auto intro: parked drained)
  next
    case 5
    with assms have "reconciled_outcome r ev ctx = Inr (t, tt, g, em)"
      by (simp add: run_outcome_def)
    from reconciled_outcome_Inr [OF this] show ?thesis by (auto intro: reconciled)
  next
    case 6
    with assms show ?thesis
      by (intro table) (simp_all add: run_outcome_def split: option.splits prod.splits)
  qed
qed

lemma outcome_from_live:
  "run_outcome r ev ctx = Inr (t, tt, g, em) \<Longrightarrow> rn_state r \<notin> set terminal_run_states"
  by (erule run_outcome_cases) (auto simp: success_evidence_def dest: run_table_closed(1))

lemma outcome_into_terminal:
  assumes "run_outcome r ev ctx = Inr (t, tt, g, em)" and "t \<in> set terminal_run_states"
  shows "\<exists>c. ctx = Some c \<and> effects_settled c"
  using assms by (cases rule: run_outcome_cases) (auto dest: run_table_closed(2))

section \<open>Reachable runs\<close>

inductive run_step :: "run \<Rightarrow> run \<Rightarrow> bool" where
  accepted: "transition_run r ev ex ctx owner now = Inr (r', rec, emitted) \<Longrightarrow> run_step r r'"

definition initial_run :: "run \<Rightarrow> bool" where
  "initial_run r \<longleftrightarrow>
     rn_state r \<in> {RS_RECEIVED, RS_QUEUED} \<and> rn_target_terminal_state r = None"

inductive reachable_run :: "run \<Rightarrow> bool" where
  start: "initial_run r \<Longrightarrow> reachable_run r"
| step: "reachable_run r \<Longrightarrow> run_step r r' \<Longrightarrow> reachable_run r'"

text \<open>A target terminal state is recorded exactly while the run is being wound down.\<close>

definition run_inv :: "run \<Rightarrow> bool" where
  "run_inv r \<longleftrightarrow>
     (rn_target_terminal_state r \<noteq> None \<longleftrightarrow> rn_state r \<in> {RS_CANCELLING, RS_RECONCILIATION_PENDING}) \<and>
     rn_target_terminal_state r \<in> {None, Some RS_CANCELED, Some RS_FAILED, Some RS_EXPIRED}"

lemma terminal_by_event_range:
  "terminal_by_event ev \<in> {RS_CANCELED, RS_FAILED, RS_EXPIRED}"
  by (cases ev) auto

lemma run_outcome_inv:
  assumes "run_inv r" and "run_outcome r ev ctx = Inr (rn_state r', rn_target_terminal_state r', g, em)"
  shows "run_inv r'"
  using assms(2)
proof (cases rule: run_outcome_cases)
  case table
  with assms(1) run_table_closed [OF table(1)] show ?thesis by (auto simp: run_inv_def)
next
  case closing
  with terminal_by_event_range [of ev] show ?thesis by (auto simp: run_inv_def)
qed (use assms(1) in \<open>auto simp: run_inv_def split: option.splits\<close>)

lemma run_step_inv: "run_step r r' \<Longrightarrow> run_inv r \<Longrightarrow> run_inv r'"
  by (auto elim!: run_step.cases transition_run_InrD intro: run_outcome_inv)

lemma reachable_run_inv: "reachable_run r \<Longrightarrow> run_inv r"
proof (induction rule: reachable_run.induct)
  case (start r)
  then show ?case by (auto simp: initial_run_def run_inv_def)
qed (rule run_step_inv)

section \<open>Versions\<close>

text \<open>The four machines as instances of \<open>versioned\<close>; a run event comes with its context.\<close>

definition apply_run ::
  "run \<Rightarrow> run_event \<times> run_transition_context option \<times> string \<times> timestamp \<Rightarrow> int option
    \<Rightarrow> transition_error + run" where
  "apply_run r e ex = (case e of (ev, ctx, owner, now) \<Rightarrow>
     bindE (transition_run r ev ex ctx owner now) (\<lambda>(r', _). Inr r'))"

definition apply_plan ::
  "plan \<Rightarrow> plan_event \<times> string \<times> timestamp \<Rightarrow> int option \<Rightarrow> transition_error + plan" where
  "apply_plan p e ex = (case e of (ev, owner, now) \<Rightarrow>
     bindE (transition_plan p ev ex owner now) (\<lambda>(p', _). Inr p'))"

definition apply_step ::
  "plan_step \<Rightarrow> step_event \<times> string \<times> timestamp \<Rightarrow> int option \<Rightarrow> transition_error + plan_step" where
  "apply_step s e ex = (case e of (ev, owner, now) \<Rightarrow>
     bindE (transition_step s ev ex owner now) (\<lambda>(s', _). Inr s'))"

definition apply_effect ::
  "effect \<Rightarrow> effect_event \<times> timestamp \<Rightarrow> int option \<Rightarrow> transition_error + effect" where
  "apply_effect x e ex = (case e of (ev, now) \<Rightarrow>
     bindE (transition_effect x ev ex now) (\<lambda>(x', _). Inr x'))"

lemma effect_init_Inr:
  "effect_init e = Inr e' \<Longrightarrow>
    ef_state e' = ef_state e \<and> ef_aggregate_version e' = ef_aggregate_version e \<and>
    ef_execution_seq e' = ef_execution_seq e"
  by (auto simp: effect_init_def Let_def split: if_splits)

lemma transition_plan_InrD:
  assumes "transition_plan p ev ex owner now = Inr (p', rec, emitted)"
  shows "dget PLAN_TRANSITIONS (pl_state p, ev) = Some (pl_state p') \<and>
    (ex = None \<or> ex = Some (pl_aggregate_version p)) \<and>
    p' = p\<lparr>pl_state := pl_state p', pl_aggregate_version := pl_aggregate_version p + 1\<rparr>"
  using assms
  by (auto simp: transition_plan_def bindE_Inr_iff check_version_Inr Let_def split: option.splits)

lemma transition_step_InrD:
  assumes "transition_step s ev ex owner now = Inr (s', rec, emitted)"
  shows "dget STEP_TRANSITIONS (st_state s, ev) = Some (st_state s') \<and>
    (ex = None \<or> ex = Some (st_aggregate_version s)) \<and>
    s' = s\<lparr>st_state := st_state s', st_aggregate_version := st_aggregate_version s + 1\<rparr>"
  using assms
  by (auto simp: transition_step_def bindE_Inr_iff check_version_Inr Let_def split: option.splits)

lemma transition_effect_InrD:
  assumes "transition_effect e ev ex now = Inr (e', rec, emitted)"
  shows "dget EFFECT_TRANSITIONS (ef_state e, ev) = Some (ef_state e')"
    and "ex = None \<or> ex = Some (ef_aggregate_version e)"
    and "ef_aggregate_version e' = ef_aggregate_version e + 1"
    and "ef_execution_seq e' = ef_execution_seq e"
    and "ef_active_dispatch e' \<longleftrightarrow> ef_state e' = ES_EXECUTING"
    and "effect_init e' = Inr e'"
  using assms
  by (auto simp: transition_effect_def bindE_Inr_iff check_version_Inr lift_init_Inr Let_def
      split: option.splits if_splits dest: effect_init_Inr effect_init_active effect_init_idem)

interpretation run_versions: versioned apply_run rn_aggregate_version
  by unfold_locales
    (auto simp: apply_run_def bindE_Inr_iff elim!: transition_run_InrD split: prod.splits)

interpretation plan_versions: versioned apply_plan pl_aggregate_version
  by unfold_locales
    (auto simp: apply_plan_def bindE_Inr_iff split: prod.splits dest!: transition_plan_InrD
      dest: arg_cong [of _ _ pl_aggregate_version])

interpretation step_versions: versioned apply_step st_aggregate_version
  by unfold_locales
    (auto simp: apply_step_def bindE_Inr_iff split: prod.splits dest!: transition_step_InrD
      dest: arg_cong [of _ _ st_aggregate_version])

interpretation effect_versions: versioned apply_effect ef_aggregate_version
  by unfold_locales
    (auto simp: apply_effect_def bindE_Inr_iff split: prod.splits dest: transition_effect_InrD)

section \<open>Effects after dispatch\<close>

fun effect_trace ::
  "effect \<Rightarrow> (effect_event \<times> int option \<times> timestamp) list \<Rightarrow> transition_error + effect" where
  "effect_trace e [] = Inr e"
| "effect_trace e ((ev, ex, now) # evs) =
     bindE (transition_effect e ev ex now) (\<lambda>(e', _). effect_trace e' evs)"

definition dispatched_states :: "effect_state set" where
  "dispatched_states =
     {ES_COMMITTED, ES_FAILED_SAFE, ES_UNKNOWN_EFFECT, ES_RECONCILING, ES_MANUAL_RECONCILIATION,
      ES_COMPENSATING, ES_COMPENSATED, ES_COMPENSATION_FAILED, ES_ABANDONED_ACCEPTED}"

definition committed_states :: "effect_state set" where
  "committed_states =
     {ES_COMMITTED, ES_COMPENSATING, ES_COMPENSATED, ES_COMPENSATION_FAILED,
      ES_MANUAL_RECONCILIATION, ES_FAILED_SAFE, ES_ABANDONED_ACCEPTED}"

lemma effect_table_closed:
  assumes "dget EFFECT_TRANSITIONS (s, ev) = Some t"
  shows "s = ES_EXECUTING \<Longrightarrow> t \<in> dispatched_states"
    and "s \<in> dispatched_states \<Longrightarrow> ev \<noteq> EE_RETRY_AUTHORIZED \<Longrightarrow> t \<in> dispatched_states"
    and "s \<in> committed_states \<Longrightarrow> t \<in> committed_states"
    and "t = ES_EXECUTING \<longleftrightarrow> ev = EE_DISPATCH_STARTED"
    and "s = ES_EXECUTING \<longleftrightarrow> ev \<in> {EE_DISPATCH_COMMITTED, EE_DISPATCH_UNKNOWN} \<or>
      ev = EE_DISPATCH_FAILED_SAFE \<and> s \<noteq> ES_MANUAL_RECONCILIATION"
proof -
  have "((s, ev), t) \<in> set EFFECT_TRANSITIONS" using assms by (rule map_of_SomeD)
  then show "s = ES_EXECUTING \<Longrightarrow> t \<in> dispatched_states"
    and "s \<in> dispatched_states \<Longrightarrow> ev \<noteq> EE_RETRY_AUTHORIZED \<Longrightarrow> t \<in> dispatched_states"
    and "s \<in> committed_states \<Longrightarrow> t \<in> committed_states"
    and "t = ES_EXECUTING \<longleftrightarrow> ev = EE_DISPATCH_STARTED"
    and "s = ES_EXECUTING \<longleftrightarrow> ev \<in> {EE_DISPATCH_COMMITTED, EE_DISPATCH_UNKNOWN} \<or>
      ev = EE_DISPATCH_FAILED_SAFE \<and> s \<noteq> ES_MANUAL_RECONCILIATION"
    by (auto simp: EFFECT_TRANSITIONS_def dispatched_states_def committed_states_def)
qed

lemma effect_trace_dispatched:
  "effect_trace e evs = Inr e' \<Longrightarrow> ef_state e \<in> dispatched_states \<Longrightarrow>
    \<forall>(ev, x) \<in> set evs. ev \<noteq> EE_RETRY_AUTHORIZED \<Longrightarrow> ef_state e' \<in> dispatched_states"
proof (induction e evs rule: effect_trace.induct)
  case (2 e ev ex now evs)
  then obtain e1 rec em where t: "transition_effect e ev ex now = Inr (e1, rec, em)"
    and "effect_trace e1 evs = Inr e'"
    by (auto simp: bindE_Inr_iff)
  moreover have "ef_state e1 \<in> dispatched_states"
    using transition_effect_InrD(1) [OF t] "2.prems" effect_table_closed(2) by auto
  ultimately show ?case using "2.IH" "2.prems" by auto
qed simp

lemma effect_trace_committed:
  "effect_trace e evs = Inr e' \<Longrightarrow> ef_state e \<in> committed_states \<Longrightarrow> ef_state e' \<in> committed_states"
proof (induction e evs rule: effect_trace.induct)
  case (2 e ev ex now evs)
  then obtain e1 rec em where t: "transition_effect e ev ex now = Inr (e1, rec, em)"
    and "effect_trace e1 evs = Inr e'"
    by (auto simp: bindE_Inr_iff)
  moreover have "ef_state e1 \<in> committed_states"
    using transition_effect_InrD(1) [OF t] "2.prems"(2) by (rule effect_table_closed(3))
  ultimately show ?case using "2.IH" by auto
qed simp

text \<open>A well-formed effect never trips the constructor's check of the dispatch flag.\<close>

lemma transition_effect_wf:
  assumes "effect_wf e" and "transition_effect e ev ex now = Inr (e', rec, emitted)"
  shows "effect_wf e'"
  using assms transition_effect_InrD [OF assms(2)] by (simp add: effect_wf_def)

lemma transition_effect_total:
  assumes "effect_wf e" and "dget EFFECT_TRANSITIONS (ef_state e, ev) = Some t"
    and "ex = None \<or> ex = Some (ef_aggregate_version e)"
  shows "\<exists>e' rec emitted. transition_effect e ev ex now = Inr (e', rec, emitted) \<and> ef_state e' = t"
proof -
  have "ef_active_dispatch e \<longleftrightarrow> ef_state e = ES_EXECUTING"
    using assms(1) effect_init_active by (auto simp: effect_wf_def)
  then have "(if ev = EE_DISPATCH_STARTED then True
      else if ev \<in> set [EE_DISPATCH_COMMITTED, EE_DISPATCH_FAILED_SAFE, EE_DISPATCH_UNKNOWN] then False
      else ef_active_dispatch e) \<longleftrightarrow> t = ES_EXECUTING"
    using effect_table_closed(4,5) [OF assms(2)] by auto
  then show ?thesis using assms(2,3)
    by (auto simp: transition_effect_def check_version_def effect_init_def Let_def split: option.splits)
qed

section \<open>Step cancellation\<close>

abbreviation terminal_step_states :: "step_state list" where
  "terminal_step_states \<equiv> [SS_SUCCEEDED, SS_FAILED, SS_SKIPPED, SS_CANCELED]"

lemma step_table_terminal: "s \<in> set terminal_step_states \<Longrightarrow> dget STEP_TRANSITIONS (s, ev) = None"
  by (cases ev) (auto simp: STEP_TRANSITIONS_def)

lemma step_table_cancel:
  "s \<notin> set terminal_step_states \<Longrightarrow> s \<noteq> SS_CANCELLING \<Longrightarrow>
    dget STEP_TRANSITIONS (s, SE_CANCEL_REQUESTED) = Some SS_CANCELLING"
  by (cases s) (simp_all add: STEP_TRANSITIONS_def)

lemma transition_step_accepts:
  assumes "dget STEP_TRANSITIONS (st_state s, ev) = Some t"
  shows "\<exists>rec. transition_step s ev None owner now =
    Inr (s\<lparr>st_state := t, st_aggregate_version := st_aggregate_version s + 1\<rparr>, rec,
         [''step.'' @ step_state_value t])"
  using assms by (simp add: transition_step_def check_version_def Let_def)

section \<open>Criteria\<close>

lemma dget_criterion_hashes:
  "dget (criterion_hashes cs) k =
    map_option gc_criterion_hash (List.find (\<lambda>c. gc_criterion_id c = k) (rev cs))"
proof -
  have "dget (foldl (\<lambda>m c. dset m (gc_criterion_id c) (gc_criterion_hash c)) m cs) k =
      (case List.find (\<lambda>c. gc_criterion_id c = k) (rev cs) of
         None \<Rightarrow> dget m k | Some c \<Rightarrow> Some (gc_criterion_hash c))" for m
    by (induction cs arbitrary: m rule: rev_induct) (auto split: option.splits)
  then show ?thesis by (simp add: criterion_hashes_def split: option.splits)
qed

lemma dict_ok_criterion_hashes: "dict_ok (criterion_hashes cs)"
proof -
  have "dict_ok m \<Longrightarrow> dict_ok (foldl (\<lambda>m c. dset m (gc_criterion_id c) (gc_criterion_hash c)) m cs)" for m
    by (induction cs arbitrary: m) auto
  then show ?thesis by (simp add: criterion_hashes_def dict_ok_Nil)
qed

lemma sort_Nil_iff: "sort xs = [] \<longleftrightarrow> xs = []"
  by (metis length_0_conv length_sort)

lemma replan_compatible_iff:
  "assert_replan_criteria_compatible original replanned = Inr () \<longleftrightarrow>
     (\<forall>k h. dget (criterion_hashes original) k = Some h \<longrightarrow>
        dget (criterion_hashes replanned) k = Some h)"
proof -
  have "assert_replan_criteria_compatible original replanned = Inr () \<longleftrightarrow>
      (\<forall>(k, h) \<in> set (criterion_hashes original). dget (criterion_hashes replanned) k = Some h)"
    by (auto simp: assert_replan_criteria_compatible_def Let_def sort_Nil_iff filter_empty_conv)
  then show ?thesis
    using pd.items_lookup [OF dict_ok_criterion_hashes [of original]] by blast
qed

lemma distinct_criterion_hashes:
  assumes "distinct (map gc_criterion_id cs)"
  shows "dget (criterion_hashes cs) k = Some v \<longleftrightarrow>
    (\<exists>c \<in> set cs. gc_criterion_id c = k \<and> gc_criterion_hash c = v)"
proof -
  have "List.find (\<lambda>c. gc_criterion_id c = k) (rev cs) = Some c \<longleftrightarrow>
      c \<in> set cs \<and> gc_criterion_id c = k" for c
  proof
    assume "c \<in> set cs \<and> gc_criterion_id c = k"
    moreover from this obtain d where "List.find (\<lambda>c. gc_criterion_id c = k) (rev cs) = Some d"
      by (cases "List.find (\<lambda>c. gc_criterion_id c = k) (rev cs)") (auto simp: find_None_not_ex)
    ultimately show "List.find (\<lambda>c. gc_criterion_id c = k) (rev cs) = Some c"
      using assms by (auto dest!: find_SomeD simp: distinct_map inj_on_def)
  qed (auto dest: find_SomeD)
  then show ?thesis by (auto simp: dget_criterion_hashes)
qed

lemma criterion_content_inj:
  assumes "goal_criterion_wf h c" and "goal_criterion_wf h d"
    and "criterion_content c = criterion_content d"
  shows "c = d"
proof -
  have "thaw (gc_oracle_config c) = thaw (gc_oracle_config d)"
    using assms(3) by (simp add: criterion_content_def)
  then have "gc_oracle_config c = gc_oracle_config d"
    using assms(1,2) freeze_thaw by (metis goal_criterion_wf_def)
  moreover have "gc_criterion_hash c = gc_criterion_hash d"
    using assms by (simp add: goal_criterion_wf_def)
  ultimately show ?thesis using assms(3) by (cases c; cases d) (simp add: criterion_content_def)
qed

section \<open>Properties of the machines\<close>

definition sample_run :: "run_state \<Rightarrow> run_state option \<Rightarrow> int \<Rightarrow> run" where
  "sample_run s t v =
     \<lparr>rn_run_id = ''run_1'', rn_tenant_key = ''t'', rn_goal_id = ''goal_1'', rn_goal_version = 1,
      rn_run_definition_version = 1, rn_root_run_lineage = ''run_1'', rn_occurrence_key = [],
      rn_trigger_event_id = [], rn_state = s, rn_plan_epoch = 2, rn_budget_ledger_id = [],
      rn_created_at = 0, rn_deadline = None, rn_supersedes_run_id = None, rn_retry_of_run_id = None,
      rn_revision_of_run_id = None, rn_authorization_snapshot_id = [], rn_run_control_epoch = 0,
      rn_revocation_epoch = 0, rn_target_terminal_state = t, rn_aggregate_version = v\<rparr>"

definition sample_context :: "string list \<Rightarrow> run_transition_context" where
  "sample_context unresolved =
     \<lparr>cx_run_id = ''run_1'', cx_plan_epoch = 2, cx_source_sequence = 7,
      cx_unresolved_effect_ids = unresolved, cx_undisposed_committed_effect_ids = [],
      cx_criteria_verified = True, cx_verification_attestation_ids = [''att_1''],
      cx_finalization_record_id = ''fin_1'', cx_human_acceptance_decision_id = [],
      cx_actor_principal_id = [], cx_decision_nonce_consumed = False, cx_decision_epoch_valid = False\<rparr>"

lemmas sample_run_eval =
  transition_run_def check_version_def run_outcome_def success_outcome_def drain_outcome_def
  reconciled_outcome_def sample_run_def sample_context_def run_init_def RUN_TRANSITIONS_def
  mk_record_def guardE_def Let_def

text \<open>
  C15. A run enters a terminal state (succeeded, failed, canceled or expired) only through a
  context that is bound to this run and its plan epoch, with no unresolved effect, no committed
  effect without a disposition and a finalization record; and success further needs every
  criterion verified, with an attestation (from verification) or an authenticated human decision
  (from acceptance).
\<close>

theorem run_terminal_requires_settled_effects:
  assumes "transition_run r ev ex ctx owner now = Inr (r', rec, emitted)"
    and "rn_state r' \<in> {RS_SUCCEEDED, RS_FAILED, RS_CANCELED, RS_EXPIRED}"
    and "reachable_run r"
  shows "\<exists>c. ctx = Some c \<and> context_bound r c \<and> effects_settled c \<and>
    (rn_state r' = RS_SUCCEEDED \<longrightarrow> success_evidence (rn_state r) c)"
proof -
  obtain guard where
    out: "run_outcome r ev ctx = Inr (rn_state r', rn_target_terminal_state r', guard, emitted)"
    and bound: "\<forall>c. ctx = Some c \<longrightarrow> context_bound r c"
    using assms(1) by (rule transition_run_InrD)
  obtain c where c: "ctx = Some c" "effects_settled c"
    using outcome_into_terminal [OF out] assms(2) by auto
  have "success_evidence (rn_state r) c" if "rn_state r' = RS_SUCCEEDED"
    using out reachable_run_inv [OF assms(3)] that c
    by (cases rule: run_outcome_cases)
      (auto simp: run_inv_def split: option.splits dest: run_table_closed(2))
  with c bound show ?thesis by blast
qed

theorem run_terminal_requires_settled_effects_witness:
  "\<exists>r' rec em. transition_run (sample_run RS_RECONCILIATION_PENDING (Some RS_FAILED) 4)
       RE_RECONCILIATION_COMPLETED None (Some (sample_context [])) ''owner'' 0 = Inr (r', rec, em) \<and>
     effects_settled (sample_context [])"
proof -
  let ?c0 = "sample_run RS_QUEUED None 1" and ?c1 = "sample_run RS_CANCELLING (Some RS_FAILED) 2"
  let ?r = "sample_run RS_RECONCILIATION_PENDING (Some RS_FAILED) 3"
  have s1: "run_step ?c0 ?c1"
    by (rule run_step.accepted [of _ RE_FAILED None None "''o''" 0]) (simp add: sample_run_eval)
  have s2: "run_step ?c1 ?r"
    by (rule run_step.accepted [of _ RE_CANCEL_DRAINED None "Some (sample_context [''e''])" "''o''" 0])
      (simp add: sample_run_eval)
  have "reachable_run ?c0" by (rule reachable_run.start) (simp add: initial_run_def sample_run_def)
  with s1 s2 have reach: "reachable_run ?r" by (blast intro: reachable_run.step)
  obtain r' rec em where t: "transition_run ?r RE_RECONCILIATION_COMPLETED None
      (Some (sample_context [])) ''owner'' 0 = Inr (r', rec, em)" "rn_state r' = RS_FAILED"
    by (simp add: sample_run_eval)
  have "\<exists>c. Some (sample_context []) = Some c \<and> context_bound ?r c \<and> effects_settled c \<and>
      (rn_state r' = RS_SUCCEEDED \<longrightarrow> success_evidence (rn_state ?r) c)"
    by (rule run_terminal_requires_settled_effects [OF t(1) _ reach]) (simp add: t(2))
  then have "effects_settled (sample_context [])" by simp
  then show ?thesis by (simp add: sample_run_eval)
qed

text \<open>A terminal run accepts no event at all: every transition from it is rejected.\<close>

theorem terminal_run_absorbing:
  assumes "rn_state r \<in> {RS_SUCCEEDED, RS_FAILED, RS_CANCELED, RS_EXPIRED}"
  shows "\<exists>e. transition_run r ev ex ctx owner now = Inl e"
proof (cases "transition_run r ev ex ctx owner now")
  case (Inr x)
  obtain r' rec em where "x = (r', rec, em)" by (cases x)
  with Inr obtain t tt g where "run_outcome r ev ctx = Inr (t, tt, g, em)"
    by (metis transition_run_InrD)
  with outcome_from_live assms show ?thesis by auto
qed simp

theorem terminal_run_absorbing_witness:
  "\<exists>e. transition_run (sample_run RS_SUCCEEDED None 3) RE_STARTED None None ''o'' 0 = Inl e"
  by (rule terminal_run_absorbing) (simp add: sample_run_def)

text \<open>
  C16. Winding down always completes: a reachable run that waits for reconciliation accepts
  \<open>reconciliation_completed\<close> under any bound context with settled effects, and ends in exactly the
  terminal state that was asked for when it was closed (never in an error about a missing target).
\<close>

theorem reconciliation_completes:
  assumes "reachable_run r" and "rn_state r = RS_RECONCILIATION_PENDING"
    and "context_bound r c" and "effects_settled c"
  shows "\<exists>t r' rec emitted. rn_target_terminal_state r = Some t \<and>
    t \<in> {RS_CANCELED, RS_FAILED, RS_EXPIRED} \<and>
    transition_run r RE_RECONCILIATION_COMPLETED None (Some c) owner now = Inr (r', rec, emitted) \<and>
    rn_state r' = t \<and> rn_target_terminal_state r' = None"
proof -
  have "run_inv r" using assms(1) by (rule reachable_run_inv)
  with assms(2) obtain t where t: "rn_target_terminal_state r = Some t"
    "t \<in> {RS_CANCELED, RS_FAILED, RS_EXPIRED}"
    by (auto simp: run_inv_def)
  have "run_outcome r RE_RECONCILIATION_COMPLETED (Some c) =
      Inr (t, None, ''all effects reconciled and disposed'', [''run.terminal_report_required''])"
    using assms t by (simp add: run_outcome_def reconciled_outcome_def effects_settled_def)
  from transition_run_accepts [OF _ _ this] assms(3) t show ?thesis by blast
qed

theorem reconciliation_completes_witness:
  "\<exists>t r' rec em. rn_target_terminal_state (sample_run RS_RECONCILIATION_PENDING (Some RS_CANCELED) 3) = Some t \<and>
     t \<in> {RS_CANCELED, RS_FAILED, RS_EXPIRED} \<and>
     transition_run (sample_run RS_RECONCILIATION_PENDING (Some RS_CANCELED) 3)
       RE_RECONCILIATION_COMPLETED None (Some (sample_context [])) ''o'' 0 = Inr (r', rec, em) \<and>
     rn_state r' = t \<and> rn_target_terminal_state r' = None"
proof (rule reconciliation_completes)
  let ?c0 = "sample_run RS_QUEUED None 1" and ?c1 = "sample_run RS_CANCELLING (Some RS_CANCELED) 2"
  have "run_step ?c0 ?c1"
    by (rule run_step.accepted [of _ RE_CANCEL_REQUESTED None None "''o''" 0])
      (simp add: sample_run_eval)
  moreover have "run_step ?c1 (sample_run RS_RECONCILIATION_PENDING (Some RS_CANCELED) 3)"
    by (rule run_step.accepted [of _ RE_CANCEL_DRAINED None "Some (sample_context [''e''])" "''o''" 0])
      (simp add: sample_run_eval)
  moreover have "reachable_run ?c0"
    by (rule reachable_run.start) (simp add: initial_run_def sample_run_def)
  ultimately show "reachable_run (sample_run RS_RECONCILIATION_PENDING (Some RS_CANCELED) 3)"
    by (blast intro: reachable_run.step)
qed (simp_all add: sample_run_def sample_context_def context_bound_def effects_settled_def)

definition sample_effect :: "effect_state \<Rightarrow> int \<Rightarrow> effect" where
  "sample_effect s v =
     \<lparr>ef_effect_id = ''efx_1'', ef_effect_instance_id = ''efx_1'', ef_effect_lineage_id = ''efx_1'',
      ef_action_intent_id = [], ef_execution_seq = 0, ef_state = s, ef_capability = ''mail.send'',
      ef_capability_version = ''1'', ef_resource_id = [], ef_resource_key = [],
      ef_semantic_action_key = [], ef_risk_level = RL_R2, ef_attempt_id = ''att_1'',
      ef_run_id = ''run_1'', ef_tenant_key = [], ef_created_at = 0, ef_committed_at = None,
      ef_evidence_hash = [], ef_cleanup_grant_id = [], ef_provider_idempotency_key = [],
      ef_adapter_hash = [], ef_schema_hash = [], ef_canonicalization_version = [],
      ef_active_dispatch = (s = ES_EXECUTING), ef_parent_effect_instance_id = [],
      ef_aggregate_version = v\<rparr>"

lemmas sample_effect_eval =
  transition_effect_def check_version_def sample_effect_def effect_init_def EFFECT_TRANSITIONS_def
  Let_def

text \<open>
  C17. No double dispatch: whatever events an effect accepts, it is executing again after it was
  executing only if one of them authorized a retry (which only a reconciliation can), and an effect
  that was committed is never executing again.
\<close>

theorem effect_redispatch_needs_authorization:
  assumes "effect_trace e evs = Inr e'" and "evs \<noteq> []" and "ef_state e' = ES_EXECUTING"
  shows "(ef_state e = ES_EXECUTING \<longrightarrow> EE_RETRY_AUTHORIZED \<in> fst ` set evs) \<and>
    ef_state e \<noteq> ES_COMMITTED"
proof (intro conjI impI)
  assume ex: "ef_state e = ES_EXECUTING"
  obtain ev x now es where evs: "evs = (ev, x, now) # es" using assms(2) by (cases evs) auto
  with assms(1) obtain e1 rec em where t: "transition_effect e ev x now = Inr (e1, rec, em)"
    and rest: "effect_trace e1 es = Inr e'"
    by (auto simp: bindE_Inr_iff)
  have "ef_state e1 \<in> dispatched_states"
    using transition_effect_InrD(1) [OF t] ex by (rule effect_table_closed(1))
  with effect_trace_dispatched [OF rest] assms(3) evs show "EE_RETRY_AUTHORIZED \<in> fst ` set evs"
    by (force simp: dispatched_states_def)
next
  show "ef_state e \<noteq> ES_COMMITTED"
    using effect_trace_committed [OF assms(1)] assms(3) by (auto simp: committed_states_def)
qed

theorem effect_redispatch_needs_authorization_witness:
  "EE_RETRY_AUTHORIZED \<in> fst ` set [(EE_DISPATCH_UNKNOWN, None :: int option, 0 :: timestamp),
       (EE_RECONCILE_STARTED, None, 0), (EE_RETRY_AUTHORIZED, None, 0), (EE_PREPARED, None, 0),
       (EE_DISPATCH_STARTED, None, 0)] \<and> ef_state (sample_effect ES_EXECUTING 3) \<noteq> ES_COMMITTED"
proof -
  have "effect_trace (sample_effect ES_EXECUTING 3) [(EE_DISPATCH_UNKNOWN, None, 0),
       (EE_RECONCILE_STARTED, None, 0), (EE_RETRY_AUTHORIZED, None, 0), (EE_PREPARED, None, 0),
       (EE_DISPATCH_STARTED, None, 0)] = Inr (sample_effect ES_EXECUTING 8)"
    by (simp add: sample_effect_eval)
  from effect_redispatch_needs_authorization [OF this] show ?thesis
    by (simp add: sample_effect_eval)
qed

text \<open>
  C19. The dispatch flag is exact: a well-formed effect accepts exactly the events of the transition
  table (given a matching version), the constructor's consistency check never fails on it, and the
  result is well formed again, with \<open>active_dispatch\<close> set exactly while it is executing.
\<close>

theorem effect_transition_wf:
  assumes "effect_wf e"
  shows "((\<exists>e' rec em. transition_effect e ev None now = Inr (e', rec, em)) \<longleftrightarrow>
      dget EFFECT_TRANSITIONS (ef_state e, ev) \<noteq> None) \<and>
    (\<forall>ex e' rec em. transition_effect e ev ex now = Inr (e', rec, em) \<longrightarrow>
      effect_wf e' \<and> (ef_active_dispatch e' \<longleftrightarrow> ef_state e' = ES_EXECUTING))"
proof (intro conjI iffI allI impI)
  show "dget EFFECT_TRANSITIONS (ef_state e, ev) \<noteq> None"
    if "\<exists>e' rec em. transition_effect e ev None now = Inr (e', rec, em)"
    using that transition_effect_InrD(1) by fastforce
  show "\<exists>e' rec em. transition_effect e ev None now = Inr (e', rec, em)"
    if "dget EFFECT_TRANSITIONS (ef_state e, ev) \<noteq> None"
    using that transition_effect_total [OF assms] by blast
qed (use transition_effect_wf [OF assms] transition_effect_InrD(5) in blast)+

theorem effect_transition_wf_witness:
  "effect_wf (sample_effect ES_PREPARED 2) \<and>
   (\<exists>e' rec em. transition_effect (sample_effect ES_PREPARED 2) EE_DISPATCH_STARTED None 5 = Inr (e', rec, em))"
proof -
  have wf: "effect_wf (sample_effect ES_PREPARED 2)"
    by (simp add: effect_wf_def effect_init_def sample_effect_def)
  with effect_transition_wf [OF wf, of EE_DISPATCH_STARTED 5] show ?thesis
    by (simp add: sample_effect_def EFFECT_TRANSITIONS_def)
qed

text \<open>
  Optimistic concurrency: after a run, plan, step or effect accepted one event for an expected
  version and any further events, no writer that still expects that version is accepted.
\<close>

lemma no_lost_update_any_aggregate:
  "(apply_run r eva (Some n) = Inr ra \<and> run_versions.apply_events ra res = Inr rb \<longrightarrow>
     (\<nexists>rc. apply_run rb evb (Some n) = Inr rc)) \<and>
   (apply_plan p pea (Some n) = Inr pa \<and> plan_versions.apply_events pa pes = Inr pb \<longrightarrow>
     (\<nexists>pc. apply_plan pb peb (Some n) = Inr pc)) \<and>
   (apply_step s sea (Some n) = Inr sa \<and> step_versions.apply_events sa ses = Inr sb \<longrightarrow>
     (\<nexists>sc. apply_step sb seb (Some n) = Inr sc)) \<and>
   (apply_effect x xea (Some n) = Inr xa \<and> effect_versions.apply_events xa xes = Inr xb \<longrightarrow>
     (\<nexists>xc. apply_effect xb xeb (Some n) = Inr xc))"
  by (intro conjI impI; elim conjE)
    (rule run_versions.no_lost_update plan_versions.no_lost_update step_versions.no_lost_update
      effect_versions.no_lost_update, assumption+)+

lemma no_lost_update_any_aggregate_witness:
  "\<nexists>xc. apply_effect (sample_effect ES_EXECUTING 3) (EE_ABORT_BEFORE_DISPATCH, 1) (Some 2) = Inr xc"
proof -
  have "apply_effect (sample_effect ES_PREPARED 2) (EE_DISPATCH_STARTED, 1) (Some 2) =
      Inr (sample_effect ES_EXECUTING 3)"
    by (simp add: apply_effect_def sample_effect_eval)
  moreover have "effect_versions.apply_events (sample_effect ES_EXECUTING 3) [] =
      Inr (sample_effect ES_EXECUTING 3)"
    by simp
  ultimately show ?thesis
    by (rule no_lost_update_any_aggregate
        [THEN conjunct2, THEN conjunct2, THEN conjunct2, THEN mp, OF conjI])
qed

text \<open>
  Every step that is not finished can be canceled: the two events \<open>cancel_requested\<close> and
  \<open>canceled\<close> take it to \<open>CANCELED\<close> (the first is not needed when it is already cancelling), while a
  finished step rejects every event.
\<close>

theorem step_cancel_total:
  "if st_state s \<in> {SS_SUCCEEDED, SS_FAILED, SS_SKIPPED, SS_CANCELED}
   then \<exists>e. transition_step s ev ex owner now = Inl e
   else \<exists>s1 s2 rec1 rec2 em1 em2.
     (if st_state s = SS_CANCELLING then s1 = s
      else transition_step s SE_CANCEL_REQUESTED None owner now = Inr (s1, rec1, em1)) \<and>
     transition_step s1 SE_CANCELED None owner now = Inr (s2, rec2, em2) \<and>
     st_state s2 = SS_CANCELED"
proof (cases "st_state s \<in> set terminal_step_states")
  case True
  then have "dget STEP_TRANSITIONS (st_state s, ev) = None" by (rule step_table_terminal)
  then have "\<exists>e. transition_step s ev ex owner now = Inl e"
    by (cases "check_version (st_aggregate_version s) ex") (simp_all add: transition_step_def)
  with True show ?thesis by auto
next
  case False
  have cancel: "dget STEP_TRANSITIONS (SS_CANCELLING, SE_CANCELED) = Some SS_CANCELED"
    by (simp add: STEP_TRANSITIONS_def)
  show ?thesis
  proof (cases "st_state s = SS_CANCELLING")
    case True
    with cancel obtain rec where "transition_step s SE_CANCELED None owner now =
        Inr (s\<lparr>st_state := SS_CANCELED, st_aggregate_version := st_aggregate_version s + 1\<rparr>, rec,
             [''step.'' @ step_state_value SS_CANCELED])"
      using transition_step_accepts [of s SE_CANCELED SS_CANCELED owner now] by auto
    with True show ?thesis by fastforce
  next
    case not_yet: False
    let ?s1 = "s\<lparr>st_state := SS_CANCELLING, st_aggregate_version := st_aggregate_version s + 1\<rparr>"
    obtain rec1 where "transition_step s SE_CANCEL_REQUESTED None owner now =
        Inr (?s1, rec1, [''step.'' @ step_state_value SS_CANCELLING])"
      using transition_step_accepts [OF step_table_cancel] False not_yet by blast
    moreover obtain rec2 where "transition_step ?s1 SE_CANCELED None owner now =
        Inr (?s1\<lparr>st_state := SS_CANCELED, st_aggregate_version := st_aggregate_version ?s1 + 1\<rparr>, rec2,
             [''step.'' @ step_state_value SS_CANCELED])"
      using transition_step_accepts [of ?s1 SE_CANCELED SS_CANCELED owner now] cancel by auto
    ultimately show ?thesis using False not_yet by fastforce
  qed
qed

text \<open>
  Replanning keeps the acceptance criteria: for criteria whose stored hashes are the hashes of
  their content, with distinct identifiers and no hash collision among the contents at hand, the
  check passes exactly when every original criterion is in the new list, unchanged.
\<close>

theorem replan_keeps_criteria:
  assumes wf: "list_all (goal_criterion_wf h) (original @ replanned)"
    and ids: "distinct (map gc_criterion_id original)" "distinct (map gc_criterion_id replanned)"
    and inj: "inj_on h (criterion_content ` set (original @ replanned))"
  shows "assert_replan_criteria_compatible original replanned = Inr () \<longleftrightarrow>
    set original \<subseteq> set replanned"
proof -
  have same: "c = d" if "c \<in> set original" "d \<in> set replanned" "gc_criterion_hash c = gc_criterion_hash d"
    for c d
  proof (rule criterion_content_inj)
    show wfs: "goal_criterion_wf h c" "goal_criterion_wf h d" using that wf by (auto simp: list_all_iff)
    then have "h (criterion_content c) = h (criterion_content d)"
      using that(3) by (simp add: goal_criterion_wf_def)
    then show "criterion_content c = criterion_content d"
      by (rule inj_onD [OF inj]) (use that(1,2) in simp_all)
  qed
  show ?thesis
    unfolding replan_compatible_iff distinct_criterion_hashes [OF ids(1)]
      distinct_criterion_hashes [OF ids(2)]
  proof
    assume keep: "\<forall>k v. (\<exists>c \<in> set original. gc_criterion_id c = k \<and> gc_criterion_hash c = v) \<longrightarrow>
      (\<exists>c \<in> set replanned. gc_criterion_id c = k \<and> gc_criterion_hash c = v)"
    show "set original \<subseteq> set replanned"
    proof
      fix c assume c: "c \<in> set original"
      with keep obtain d where d: "d \<in> set replanned" "gc_criterion_hash c = gc_criterion_hash d"
        by metis
      from same [OF c d] d(1) show "c \<in> set replanned" by simp
    qed
  qed blast
qed

theorem replan_keeps_criteria_witness:
  "let c = (\<lambda>i. \<lparr>gc_criterion_id = i, gc_description = ''d'', gc_oracle_type = OT_COMMAND,
                 gc_oracle_config = PProxy [], gc_criterion_hash = i\<rparr>) in
   assert_replan_criteria_compatible [c ''a''] [c ''b'', c ''a''] = Inr () \<longleftrightarrow>
     set [c ''a''] \<subseteq> set [c ''b'', c ''a'']"
  unfolding Let_def
  by (rule replan_keeps_criteria
      [where h = "\<lambda>v. case v of PDict (kv # _) \<Rightarrow> (case kv of (_, PStr i) \<Rightarrow> i | _ \<Rightarrow> []) | _ \<Rightarrow> []"])
    (auto simp: goal_criterion_wf_def criterion_content_def inj_on_def)

end
