(* ===== verification/Kill_Switch.thy ===== *)
theory Kill_Switch
  imports Python_Value
begin

text \<open>
  The kill switch of \<^verbatim>\<open>src/src/autonomous/policy/kill_switch.py\<close>. The state is the in-memory
  dictionary of scopes, the global epoch and the content of the file \<open>kill.switch\<close> (the JSON
  object, \<open>None\<close> when there is no file). Whether a write of the file succeeds is an argument:
  \<open>_persist\<close> replaces the file atomically or raises and leaves it as it was.
\<close>

section \<open>State\<close>

record kill_state =
  ks_active :: bool
  ks_kill_epoch :: int
  ks_scope :: string
  ks_activated_at :: "timestamp option"
  ks_reason :: string

definition kill_state_to_dict :: "kill_state \<Rightarrow> pydict" where
  "kill_state_to_dict k =
     [(''active'', PBool (ks_active k)),
      (''kill_epoch'', PInt (ks_kill_epoch k)),
      (''scope'', PStr (ks_scope k)),
      (''activated_at'', float_option_val (ks_activated_at k)),
      (''reason'', PStr (ks_reason k))]"

definition kill_state_from_dict :: "pydict \<Rightarrow> py_exn + kill_state" where
  "kill_state_from_dict d =
     bindE (opt_bool d ''active'' False) (\<lambda>a.
     bindE (strict_int (opt d ''kill_epoch'' (PInt 0)) ''kill_epoch'' None) (\<lambda>e.
     bindE (opt_str d ''scope'' ''global'') (\<lambda>s.
     bindE (raw_float_option (opt d ''activated_at'' PNone) ''activated_at'') (\<lambda>t.
     bindE (opt_str d ''reason'' []) (\<lambda>r.
     Inr \<lparr>ks_active = a, ks_kill_epoch = e, ks_scope = s, ks_activated_at = t, ks_reason = r\<rparr>)))))"

interpretation kill_state_codec: codec kill_state_to_dict kill_state_from_dict "\<lambda>_. True"
  by unfold_locales (simp add: kill_state_to_dict_def kill_state_from_dict_def codec_simps)

record kill_switch =
  sw_states :: "(string, kill_state) dict"
  sw_global_epoch :: int
  sw_file :: "pydict option"

datatype os_exn = OSError

section \<open>Operations\<close>

definition kill_payload :: "kill_switch \<Rightarrow> pydict" where
  "kill_payload s =
     [(''global_epoch'', PInt (sw_global_epoch s)),
      (''states'', PList (map (PDict \<circ> kill_state_to_dict) (dvals (sw_states s))))]"

definition kill_persist :: "kill_switch \<Rightarrow> bool \<Rightarrow> kill_switch \<times> (os_exn + unit)" where
  "kill_persist s write_ok =
     (if write_ok then (s\<lparr>sw_file := Some (kill_payload s)\<rparr>, Inr ()) else (s, Inl OSError))"

fun kill_state_item :: "pyval \<Rightarrow> py_exn + kill_state" where
  "kill_state_item (PDict d) = kill_state_from_dict d"
| "kill_state_item _ = Inl (Untyped ''states'')"

fun kill_items :: "pyval \<Rightarrow> py_exn + kill_state list" where
  "kill_items (PList vs) = mapE kill_state_item vs"
| "kill_items _ = Inl (Untyped ''states'')"

definition kill_load :: "kill_switch \<Rightarrow> py_exn + kill_switch" where
  "kill_load s =
     (case sw_file s of
        None \<Rightarrow> Inr s
      | Some data \<Rightarrow>
          bindE (strict_int (opt data ''global_epoch'' (PInt 0)) ''global_epoch'' None) (\<lambda>e.
          bindE (kill_items (opt data ''states'' (PList []))) (\<lambda>items.
          Inr (s\<lparr>sw_global_epoch := e,
                 sw_states := fold (\<lambda>k st. dset st (ks_scope k) k) items (sw_states s)\<rparr>))))"

definition kill_init :: "pydict option \<Rightarrow> py_exn + kill_switch" where
  "kill_init file = kill_load \<lparr>sw_states = [], sw_global_epoch = 0, sw_file = file\<rparr>"

definition kill_activate ::
  "kill_switch \<Rightarrow> string \<Rightarrow> string \<Rightarrow> timestamp \<Rightarrow> bool \<Rightarrow> kill_switch \<times> (os_exn + int)" where
  "kill_activate s scope reason now write_ok =
     (let e = sw_global_epoch s + 1;
          s1 = s\<lparr>sw_global_epoch := e,
                 sw_states := dset (sw_states s) scope
                   \<lparr>ks_active = True, ks_kill_epoch = e, ks_scope = scope,
                    ks_activated_at = Some now, ks_reason = reason\<rparr>\<rparr>;
          (s2, r) = kill_persist s1 write_ok
      in (s2, bindE r (\<lambda>_. Inr e)))"

definition kill_deactivate :: "kill_switch \<Rightarrow> string \<Rightarrow> bool \<Rightarrow> kill_switch \<times> (os_exn + unit)" where
  "kill_deactivate s scope write_ok =
     (case dget (sw_states s) scope of
        None \<Rightarrow> (s, Inr ())
      | Some k \<Rightarrow> kill_persist
          (s\<lparr>sw_states := dset (sw_states s) scope (k\<lparr>ks_active := False\<rparr>)\<rparr>) write_ok)"

definition scope_active :: "kill_switch \<Rightarrow> string \<Rightarrow> bool" where
  "scope_active s scope =
     (case dget (sw_states s) scope of None \<Rightarrow> False | Some k \<Rightarrow> ks_active k)"

definition is_killed :: "kill_switch \<Rightarrow> string \<Rightarrow> bool" where
  "is_killed s scope =
     (if scope_active s scope then True
      else if scope \<noteq> ''global'' then scope_active s ''global''
      else False)"

definition check_gate :: "kill_switch \<Rightarrow> string \<Rightarrow> int \<Rightarrow> bool" where
  "check_gate s scope current_epoch =
     (if is_killed s scope then False else sw_global_epoch s \<le> current_epoch)"

definition kill_load_state :: "kill_switch \<Rightarrow> py_exn + kill_switch \<times> kill_state list" where
  "kill_load_state s = bindE (kill_load s) (\<lambda>s'. Inr (s', dvals (sw_states s')))"

section \<open>Histories of calls\<close>

text \<open>
  A history is a sequence of calls and process restarts; a restart keeps only the file. A call
  whose write fails raises, but its in-memory change stays.
\<close>

datatype kill_call =
    KActivate string string timestamp bool
  | KDeactivate string bool
  | KReload
  | KRestart

fun kill_step :: "kill_switch \<Rightarrow> kill_call \<Rightarrow> py_exn + kill_switch" where
  "kill_step s (KActivate scope reason now ok) = Inr (fst (kill_activate s scope reason now ok))"
| "kill_step s (KDeactivate scope ok) = Inr (fst (kill_deactivate s scope ok))"
| "kill_step s KReload = kill_load s"
| "kill_step s KRestart = kill_init (sw_file s)"

fun kill_run :: "kill_switch \<Rightarrow> kill_call list \<Rightarrow> py_exn + kill_switch" where
  "kill_run s [] = Inr s"
| "kill_run s (c # cs) = bindE (kill_step s c) (\<lambda>t. kill_run t cs)"

fun call_durable :: "kill_call \<Rightarrow> bool" where
  "call_durable (KActivate _ _ _ ok) = ok"
| "call_durable (KDeactivate _ ok) = ok"
| "call_durable _ = True"

text \<open>The state the process would have after a restart is the state it has.\<close>

definition kill_wf :: "kill_switch \<Rightarrow> bool" where
  "kill_wf s \<longleftrightarrow> dict_ok (sw_states s) \<and> (\<forall>(k, v) \<in> set (sw_states s). ks_scope v = k)"

definition kill_synced :: "kill_switch \<Rightarrow> bool" where
  "kill_synced s \<longleftrightarrow> kill_wf s \<and>
     (case sw_file s of
        None \<Rightarrow> sw_states s = [] \<and> sw_global_epoch s = 0
      | Some d \<Rightarrow> d = kill_payload s)"

lemma kill_items_payload:
  "kill_items (PList (map (PDict \<circ> kill_state_to_dict \<circ> snd) kvs)) = Inr (dvals kvs)"
proof -
  have "mapE kill_state_item (map (PDict \<circ> kill_state_to_dict) (dvals kvs)) = Inr (dvals kvs)"
    by (rule mapE_map) (simp add: kill_state_codec.dec_enc)
  then show ?thesis by (simp add: comp_assoc)
qed

lemma fold_dset_fresh:
  assumes "\<forall>(k, v) \<in> set kvs. f v = k" and "distinct (map fst acc @ map fst kvs)"
  shows "fold (\<lambda>v d. dset d (f v) v) (map snd kvs) acc = acc @ kvs"
  using assms
proof (induction kvs arbitrary: acc)
  case (Cons kv kvs)
  then show ?case by (cases kv) (auto simp: dset_append_new)
qed simp

lemma fold_dset_same:
  assumes "\<forall>v \<in> set vs. dget d (f v) = Some v"
  shows "fold (\<lambda>v d. dset d (f v) v) vs d = d"
  using assms by (induction vs) (auto simp: dset_same)

lemma kill_init_synced:
  assumes "kill_synced s" shows "kill_init (sw_file s) = Inr s"
proof (cases "sw_file s")
  case None
  with assms show ?thesis
    by (cases s) (simp add: kill_init_def kill_load_def kill_synced_def)
next
  case (Some d)
  with assms have wf: "kill_wf s" and d: "d = kill_payload s" by (auto simp: kill_synced_def)
  have "fold (\<lambda>v d. dset d (ks_scope v) v) (dvals (sw_states s)) [] = [] @ sw_states s"
    by (rule fold_dset_fresh) (use wf in \<open>auto simp: kill_wf_def dict_ok_def\<close>)
  with Some d show ?thesis
    by (cases s) (simp add: kill_init_def kill_load_def kill_payload_def opt_def kill_items_payload
        del: kill_items.simps)
qed

lemma kill_load_synced:
  assumes "kill_synced s" shows "kill_load s = Inr s"
proof (cases "sw_file s")
  case None
  then show ?thesis by (simp add: kill_load_def)
next
  case (Some d)
  with assms have wf: "kill_wf s" and d: "d = kill_payload s" by (auto simp: kill_synced_def)
  have "fold (\<lambda>v d. dset d (ks_scope v) v) (dvals (sw_states s)) (sw_states s) = sw_states s"
    by (rule fold_dset_same) (use wf in \<open>auto simp: kill_wf_def dict_ok_def\<close>)
  with Some d show ?thesis
    by (cases s) (simp add: kill_load_def kill_payload_def opt_def kill_items_payload
        del: kill_items.simps)
qed

lemma kill_wf_dset:
  "kill_wf s \<Longrightarrow> ks_scope v = k \<Longrightarrow> sw_states t = dset (sw_states s) k v \<Longrightarrow> kill_wf t"
  by (auto simp: kill_wf_def pd.items_assign split: if_splits)

lemma kill_persist_synced: "kill_wf s \<Longrightarrow> kill_synced (fst (kill_persist s True))"
  by (simp add: kill_persist_def kill_synced_def kill_wf_def kill_payload_def)

lemma scope_of_lookup: "kill_wf s \<Longrightarrow> dget (sw_states s) k = Some v \<Longrightarrow> ks_scope v = k"
  by (auto simp: kill_wf_def dest!: map_of_SomeD)

lemma kill_activate_persist:
  "kill_activate s scope reason now ok =
     map_prod id (\<lambda>r. bindE r (\<lambda>_. Inr (sw_global_epoch s + 1)))
       (kill_persist (s\<lparr>sw_global_epoch := sw_global_epoch s + 1,
          sw_states := dset (sw_states s) scope
            \<lparr>ks_active = True, ks_kill_epoch = sw_global_epoch s + 1, ks_scope = scope,
             ks_activated_at = Some now, ks_reason = reason\<rparr>\<rparr>) ok)"
  by (simp add: kill_activate_def map_prod_def Let_def)

lemma kill_persist_keeps [simp]:
  "sw_states (fst (kill_persist s ok)) = sw_states s"
  "sw_global_epoch (fst (kill_persist s ok)) = sw_global_epoch s"
  by (simp_all add: kill_persist_def)

lemma kill_activate_synced:
  assumes "kill_wf s" shows "kill_synced (fst (kill_activate s scope reason now True))"
proof -
  have "kill_wf (s\<lparr>sw_global_epoch := sw_global_epoch s + 1,
    sw_states := dset (sw_states s) scope \<lparr>ks_active = True, ks_kill_epoch = sw_global_epoch s + 1,
      ks_scope = scope, ks_activated_at = Some now, ks_reason = reason\<rparr>\<rparr>)"
    by (rule kill_wf_dset [OF assms, where k = scope]) simp_all
  from kill_persist_synced [OF this] show ?thesis
    by (simp only: kill_activate_persist fst_map_prod id_apply)
qed

lemma kill_deactivate_synced:
  assumes "kill_synced s" shows "kill_synced (fst (kill_deactivate s scope True))"
proof (cases "dget (sw_states s) scope")
  case None
  with assms show ?thesis by (simp add: kill_deactivate_def)
next
  case (Some k)
  from assms have wf: "kill_wf s" by (simp add: kill_synced_def)
  have "kill_wf (s\<lparr>sw_states := dset (sw_states s) scope (k\<lparr>ks_active := False\<rparr>)\<rparr>)"
    by (rule kill_wf_dset [OF wf, where k = scope]) (simp_all add: scope_of_lookup [OF wf Some])
  from kill_persist_synced [OF this] Some show ?thesis
    by (simp only: kill_deactivate_def option.case)
qed

lemma kill_activate_epoch [simp]:
  "sw_global_epoch (fst (kill_activate s scope reason now ok)) = sw_global_epoch s + 1"
  by (simp add: kill_activate_persist)

lemma kill_deactivate_epoch [simp]:
  "sw_global_epoch (fst (kill_deactivate s scope ok)) = sw_global_epoch s"
  by (simp add: kill_deactivate_def split: option.split)

lemma kill_step_synced:
  assumes "kill_synced s" and "call_durable c"
  shows "\<exists>t. kill_step s c = Inr t \<and> kill_synced t \<and> sw_global_epoch s \<le> sw_global_epoch t"
proof (cases c)
  case (KActivate scope reason now ok)
  with assms show ?thesis by (simp add: kill_activate_synced kill_synced_def [of s])
next
  case (KDeactivate scope ok)
  with assms show ?thesis by (simp add: kill_deactivate_synced)
next
  case KReload
  with assms(1) show ?thesis by (simp add: kill_load_synced)
next
  case KRestart
  with assms(1) show ?thesis by (simp add: kill_init_synced)
qed

lemma kill_run_synced:
  assumes "kill_synced s" and "list_all call_durable cs"
  shows "\<exists>t. kill_run s cs = Inr t \<and> kill_synced t \<and> sw_global_epoch s \<le> sw_global_epoch t"
  using assms
proof (induction cs arbitrary: s)
  case (Cons c cs)
  then obtain t where "kill_step s c = Inr t" "kill_synced t" "sw_global_epoch s \<le> sw_global_epoch t"
    using kill_step_synced by fastforce
  with Cons show ?case by fastforce
qed simp

lemma check_gate_epoch: "check_gate s scope e \<Longrightarrow> sw_global_epoch s \<le> e"
  by (simp add: check_gate_def split: if_splits)

lemma is_killed_global: "is_killed s ''global'' \<Longrightarrow> is_killed s scope"
  by (simp add: is_killed_def split: if_splits)

lemma is_killed_activate:
  "is_killed (fst (kill_activate s scope reason now ok)) scope"
  by (simp add: kill_activate_persist is_killed_def scope_active_def)

lemma kill_activate_result:
  "snd (kill_activate s scope reason now ok) =
     (if ok then Inr (sw_global_epoch s + 1) else Inl OSError)"
  by (simp add: kill_activate_persist kill_persist_def)

section \<open>Properties\<close>



text \<open>
  A restart loses nothing: after any history of calls whose writes succeed, starting from an
  empty directory, the switch is defined and reading its file back gives exactly its scopes, their
  order and its epoch.
\<close>

theorem kill_restart_identity:
  assumes "list_all call_durable cs"
  shows "\<exists>s. kill_run \<lparr>sw_states = [], sw_global_epoch = 0, sw_file = None\<rparr> cs = Inr s \<and>
    kill_init (sw_file s) = Inr s \<and> kill_load s = Inr s"
proof -
  have "kill_synced \<lparr>sw_states = [], sw_global_epoch = 0, sw_file = None\<rparr>"
    by (simp add: kill_synced_def kill_wf_def dict_ok_def)
  from kill_run_synced [OF this assms] show ?thesis
    using kill_init_synced kill_load_synced by blast
qed

theorem kill_restart_identity_witness:
  "\<exists>s. kill_run \<lparr>sw_states = [], sw_global_epoch = 0, sw_file = None\<rparr>
      [KActivate ''tool:mail'' ''leak'' 3 True, KActivate ''global'' [] 4 True,
       KDeactivate ''tool:mail'' True] = Inr s \<and>
    kill_init (sw_file s) = Inr s \<and> kill_load s = Inr s"
  using kill_restart_identity [of "[KActivate ''tool:mail'' ''leak'' 3 True,
    KActivate ''global'' [] 4 True, KDeactivate ''tool:mail'' True]"] by simp

end
