(* ===== verification/Policy_Engine.thy ===== *)
theory Policy_Engine
  imports Kill_Switch Domain_Goals
begin

text \<open>
  The policy engine of \<^verbatim>\<open>src/src/autonomous/policy/policy_engine.py\<close>: the kill switch comes
  first, then standing orders, the matrix of autonomy mode and risk level, and recorded human
  approvals. Fresh approval ids and the clock are arguments.
\<close>

section \<open>Data\<close>

datatype policy_decision = PD_ALLOW | PD_REQUIRE_APPROVAL | PD_DENY

fun policy_decision_value :: "policy_decision \<Rightarrow> string" where
  "policy_decision_value PD_ALLOW = ''allow''"
| "policy_decision_value PD_REQUIRE_APPROVAL = ''require_approval''"
| "policy_decision_value PD_DENY = ''deny''"

datatype authorization_type = AT_ACTIVATION | AT_DERIVED | AT_EFFECT | AT_MODEL | AT_STANDING_ORDER

fun authorization_type_value :: "authorization_type \<Rightarrow> string" where
  "authorization_type_value AT_ACTIVATION = ''activation''"
| "authorization_type_value AT_DERIVED = ''derived''"
| "authorization_type_value AT_EFFECT = ''effect''"
| "authorization_type_value AT_MODEL = ''model''"
| "authorization_type_value AT_STANDING_ORDER = ''standing_order''"

interpretation policy_decision_enum: py_enum policy_decision_value
  "[PD_ALLOW, PD_REQUIRE_APPROVAL, PD_DENY]"
proof
  show "x \<in> set [PD_ALLOW, PD_REQUIRE_APPROVAL, PD_DENY]" for x by (cases x) simp_all
qed simp

interpretation authorization_type_enum: py_enum authorization_type_value
  "[AT_ACTIVATION, AT_DERIVED, AT_EFFECT, AT_MODEL, AT_STANDING_ORDER]"
proof
  show "x \<in> set [AT_ACTIVATION, AT_DERIVED, AT_EFFECT, AT_MODEL, AT_STANDING_ORDER]" for x
    by (cases x) simp_all
qed simp

record policy_context =
  pc_run_id :: string
  pc_step_id :: string
  pc_attempt_id :: string
  pc_capability :: string
  pc_risk_level :: risk_level
  pc_autonomy_mode :: autonomy_mode
  pc_employee_id :: string
  pc_resource_id :: string
  pc_arguments :: pydict
  pc_authorization_type :: authorization_type
  pc_model_id :: string
  pc_effect_id :: string
  pc_parent_auth_id :: string

record policy_result =
  pv_decision :: policy_decision
  pv_reasons :: "string list"
  pv_approval_id :: "string option"
  pv_authorization_type :: authorization_type

record approval_record =
  ap_approval_id :: string
  ap_context :: policy_context
  ap_granted :: bool
  ap_approver_id :: string
  ap_created_at :: timestamp
  ap_resolved_at :: "timestamp option"

record policy_engine =
  pe_kill_switch :: kill_switch
  pe_approvals :: "(string, approval_record) dict"
  pe_standing_orders :: "(string \<times> risk_level, policy_decision) dict"

fun POLICY_MATRIX :: "autonomy_mode \<Rightarrow> risk_level \<Rightarrow> policy_decision" where
  "POLICY_MATRIX AM_ASSIST RL_R0 = PD_ALLOW"
| "POLICY_MATRIX AM_ASSIST RL_R1 = PD_DENY"
| "POLICY_MATRIX AM_ASSIST RL_R2 = PD_DENY"
| "POLICY_MATRIX AM_ASSIST RL_R3 = PD_DENY"
| "POLICY_MATRIX AM_ASSIST RL_R4 = PD_DENY"
| "POLICY_MATRIX AM_SUPERVISED RL_R0 = PD_ALLOW"
| "POLICY_MATRIX AM_SUPERVISED RL_R1 = PD_ALLOW"
| "POLICY_MATRIX AM_SUPERVISED RL_R2 = PD_REQUIRE_APPROVAL"
| "POLICY_MATRIX AM_SUPERVISED RL_R3 = PD_DENY"
| "POLICY_MATRIX AM_SUPERVISED RL_R4 = PD_DENY"
| "POLICY_MATRIX AM_BOUNDED_AUTONOMOUS RL_R0 = PD_ALLOW"
| "POLICY_MATRIX AM_BOUNDED_AUTONOMOUS RL_R1 = PD_ALLOW"
| "POLICY_MATRIX AM_BOUNDED_AUTONOMOUS RL_R2 = PD_ALLOW"
| "POLICY_MATRIX AM_BOUNDED_AUTONOMOUS RL_R3 = PD_REQUIRE_APPROVAL"
| "POLICY_MATRIX AM_BOUNDED_AUTONOMOUS RL_R4 = PD_DENY"

definition policy_engine_init :: "kill_switch \<Rightarrow> policy_engine" where
  "policy_engine_init k =
     \<lparr>pe_kill_switch = k, pe_approvals = [], pe_standing_orders = []\<rparr>"

section \<open>Operations\<close>

definition mk_result ::
  "policy_decision \<Rightarrow> string list \<Rightarrow> string option \<Rightarrow> authorization_type \<Rightarrow> policy_result" where
  "mk_result d rs a t = \<lparr>pv_decision = d, pv_reasons = rs, pv_approval_id = a,
     pv_authorization_type = t\<rparr>"

definition register_standing_order ::
  "policy_engine \<Rightarrow> string \<Rightarrow> risk_level \<Rightarrow> policy_decision \<Rightarrow> policy_engine" where
  "register_standing_order p capability risk decision =
     p\<lparr>pe_standing_orders := dset (pe_standing_orders p) (capability, risk) decision\<rparr>"

definition find_granted_approval :: "policy_engine \<Rightarrow> policy_context \<Rightarrow> approval_record option" where
  "find_granted_approval p c =
     List.find (\<lambda>r. ap_granted r \<and> pc_run_id (ap_context r) = pc_run_id c \<and>
        pc_step_id (ap_context r) = pc_step_id c \<and>
        pc_capability (ap_context r) = pc_capability c) (dvals (pe_approvals p))"

definition standing_reason :: "policy_context \<Rightarrow> string" where
  "standing_reason c = ''standing_order: cap='' @ pc_capability c @ '' risk='' @
     risk_level_value (pc_risk_level c)"

definition mode_reasons :: "policy_context \<Rightarrow> string list" where
  "mode_reasons c = [''mode='' @ autonomy_mode_value (pc_autonomy_mode c),
     ''risk='' @ risk_level_value (pc_risk_level c)]"

definition evaluate_activation ::
  "policy_engine \<Rightarrow> policy_context \<Rightarrow> string \<Rightarrow> timestamp \<Rightarrow> policy_engine \<times> policy_result" where
  "evaluate_activation p c fresh now =
     (case dget (pe_standing_orders p) (pc_capability c, pc_risk_level c) of
        Some standing \<Rightarrow> (p, mk_result standing [standing_reason c] None AT_ACTIVATION)
      | None \<Rightarrow>
          let decision = POLICY_MATRIX (pc_autonomy_mode c) (pc_risk_level c)
          in if decision = PD_REQUIRE_APPROVAL then
               (case find_granted_approval p c of
                  Some r \<Rightarrow> (p, mk_result PD_ALLOW (mode_reasons c @ [''pre-approved''])
                     (Some (ap_approval_id r)) AT_ACTIVATION)
                | None \<Rightarrow>
                    (p\<lparr>pe_approvals := dset (pe_approvals p) fresh
                        \<lparr>ap_approval_id = fresh, ap_context = c, ap_granted = False,
                         ap_approver_id = [], ap_created_at = now, ap_resolved_at = None\<rparr>\<rparr>,
                     mk_result decision (mode_reasons c) (Some fresh) AT_ACTIVATION))
             else (p, mk_result decision (mode_reasons c) None AT_ACTIVATION))"

definition evaluate_derived :: "policy_context \<Rightarrow> policy_result" where
  "evaluate_derived c =
     (if pc_parent_auth_id c = []
      then mk_result PD_DENY [''derived authorization requires parent_auth_id''] None AT_DERIVED
      else mk_result (POLICY_MATRIX (pc_autonomy_mode c) (pc_risk_level c))
        ((''derived from='' @ pc_parent_auth_id c) # mode_reasons c) None AT_DERIVED)"

definition evaluate_effect :: "policy_context \<Rightarrow> policy_result" where
  "evaluate_effect c =
     (if pc_effect_id c = []
      then mk_result PD_DENY [''effect authorization requires effect_id''] None AT_EFFECT
      else mk_result (POLICY_MATRIX (pc_autonomy_mode c) (pc_risk_level c))
        ((''effect='' @ pc_effect_id c) # mode_reasons c) None AT_EFFECT)"

definition evaluate_model :: "policy_context \<Rightarrow> policy_result" where
  "evaluate_model c =
     (if pc_model_id c = []
      then mk_result PD_DENY [''model authorization requires model_id''] None AT_MODEL
      else mk_result (POLICY_MATRIX (pc_autonomy_mode c) (pc_risk_level c))
        ((''model='' @ pc_model_id c) # mode_reasons c) None AT_MODEL)"

definition evaluate_standing_order ::
  "policy_engine \<Rightarrow> policy_context \<Rightarrow> string \<Rightarrow> timestamp \<Rightarrow> policy_engine \<times> policy_result" where
  "evaluate_standing_order p c fresh now =
     (case dget (pe_standing_orders p) (pc_capability c, pc_risk_level c) of
        Some standing \<Rightarrow> (p, mk_result standing [standing_reason c] None AT_STANDING_ORDER)
      | None \<Rightarrow> evaluate_activation p c fresh now)"

definition scoped_keys :: "policy_context \<Rightarrow> string list" where
  "scoped_keys c = [''goal:'' @ pc_run_id c, ''employee:'' @ pc_employee_id c,
     ''tool:'' @ pc_capability c]"

definition evaluate ::
  "policy_engine \<Rightarrow> policy_context \<Rightarrow> epoch_set \<Rightarrow> string \<Rightarrow> timestamp \<Rightarrow> policy_engine \<times> policy_result" where
  "evaluate p c epochs fresh now =
     (let k = pe_kill_switch p;
          deny = (\<lambda>reason. (p, mk_result PD_DENY [reason] None (pc_authorization_type c)))
      in if is_killed k ''global'' then deny ''kill switch active (global)''
         else case List.find (is_killed k) (scoped_keys c) of
           Some scope \<Rightarrow> deny (''kill switch active ('' @ scope @ '')'')
         | None \<Rightarrow>
             if \<not> check_gate k ''global'' (ep_kill_epoch epochs)
             then deny ''epoch stale: kill_epoch behind current''
             else case pc_authorization_type c of
               AT_STANDING_ORDER \<Rightarrow> evaluate_standing_order p c fresh now
             | AT_DERIVED \<Rightarrow> (p, evaluate_derived c)
             | AT_EFFECT \<Rightarrow> (p, evaluate_effect c)
             | AT_MODEL \<Rightarrow> (p, evaluate_model c)
             | AT_ACTIVATION \<Rightarrow> evaluate_activation p c fresh now)"

definition grant_approval ::
  "policy_engine \<Rightarrow> string \<Rightarrow> string \<Rightarrow> timestamp \<Rightarrow> policy_engine \<times> bool" where
  "grant_approval p approval_id approver now =
     (case dget (pe_approvals p) approval_id of
        None \<Rightarrow> (p, False)
      | Some r \<Rightarrow>
          if ap_granted r then (p, False)
          else (p\<lparr>pe_approvals := dset (pe_approvals p) approval_id
                  (r\<lparr>ap_granted := True, ap_approver_id := approver, ap_resolved_at := Some now\<rparr>)\<rparr>,
                True))"

definition revoke_approval ::
  "policy_engine \<Rightarrow> string \<Rightarrow> timestamp \<Rightarrow> policy_engine \<times> bool" where
  "revoke_approval p approval_id now =
     (case dget (pe_approvals p) approval_id of
        None \<Rightarrow> (p, False)
      | Some r \<Rightarrow>
          (p\<lparr>pe_approvals := dset (pe_approvals p) approval_id
              (r\<lparr>ap_granted := False, ap_resolved_at := Some now\<rparr>)\<rparr>, True))"

section \<open>The specification of a positive decision\<close>

text \<open>
  What a policy decision of \<open>ALLOW\<close> means, without the order in which the code checks it: nothing
  in scope is killed, the caller's kill epoch is current, and the request is pre-authorized by a
  standing order, by the matrix, or by a human approval still granted for the same run, step and
  capability.
\<close>

definition gate_open :: "kill_switch \<Rightarrow> policy_context \<Rightarrow> int \<Rightarrow> bool" where
  "gate_open k c epoch \<longleftrightarrow> \<not> scope_active k ''global'' \<and>
     \<not> scope_active k (''goal:'' @ pc_run_id c) \<and>
     \<not> scope_active k (''employee:'' @ pc_employee_id c) \<and>
     \<not> scope_active k (''tool:'' @ pc_capability c) \<and> sw_global_epoch k \<le> epoch"

definition approved :: "policy_engine \<Rightarrow> policy_context \<Rightarrow> bool" where
  "approved p c \<longleftrightarrow> (\<exists>r \<in> set (dvals (pe_approvals p)). ap_granted r \<and>
     pc_run_id (ap_context r) = pc_run_id c \<and> pc_step_id (ap_context r) = pc_step_id c \<and>
     pc_capability (ap_context r) = pc_capability c)"

definition named_subject :: "policy_context \<Rightarrow> bool" where
  "named_subject c \<longleftrightarrow> (case pc_authorization_type c of
     AT_DERIVED \<Rightarrow> pc_parent_auth_id c \<noteq> [] | AT_EFFECT \<Rightarrow> pc_effect_id c \<noteq> []
   | AT_MODEL \<Rightarrow> pc_model_id c \<noteq> [] | _ \<Rightarrow> True)"

definition matrix_of :: "policy_context \<Rightarrow> policy_decision" where
  "matrix_of c = POLICY_MATRIX (pc_autonomy_mode c) (pc_risk_level c)"

definition permits :: "policy_engine \<Rightarrow> policy_context \<Rightarrow> int \<Rightarrow> bool" where
  "permits p c epoch \<longleftrightarrow> gate_open (pe_kill_switch p) c epoch \<and> named_subject c \<and>
     (if pc_authorization_type c \<in> {AT_ACTIVATION, AT_STANDING_ORDER}
      then (case dget (pe_standing_orders p) (pc_capability c, pc_risk_level c) of
              Some d \<Rightarrow> d = PD_ALLOW
            | None \<Rightarrow> matrix_of c = PD_ALLOW \<or> (matrix_of c = PD_REQUIRE_APPROVAL \<and> approved p c))
      else matrix_of c = PD_ALLOW)"

lemma is_killed_iff: "is_killed k scope \<longleftrightarrow> scope_active k scope \<or> scope_active k ''global''"
  by (auto simp: is_killed_def)

lemma find_granted_None: "find_granted_approval p c = None \<longleftrightarrow> \<not> approved p c"
  by (auto simp: find_granted_approval_def approved_def find_None_not_ex)

lemma approved_iff_Some: "approved p c \<longleftrightarrow> (\<exists>r. find_granted_approval p c = Some r)"
  using find_granted_None [of p c] by auto

lemma gate_open_checks:
  "gate_open k c epoch \<longleftrightarrow> \<not> is_killed k ''global'' \<and> List.find (is_killed k) (scoped_keys c) = None \<and>
     check_gate k ''global'' epoch"
  by (auto simp: gate_open_def is_killed_iff scoped_keys_def check_gate_def)

lemma mk_result_sel [simp]:
  "pv_decision (mk_result d rs a t) = d" "pv_approval_id (mk_result d rs a t) = a"
  "pv_authorization_type (mk_result d rs a t) = t" "pv_reasons (mk_result d rs a t) = rs"
  by (simp_all add: mk_result_def)

lemma evaluate_closed:
  assumes "\<not> gate_open (pe_kill_switch p) c (ep_kill_epoch epochs)"
  shows "fst (evaluate p c epochs fresh now) = p \<and>
    pv_decision (snd (evaluate p c epochs fresh now)) = PD_DENY \<and>
    pv_approval_id (snd (evaluate p c epochs fresh now)) = None"
  using assms by (auto simp: gate_open_checks evaluate_def Let_def split: option.split)

lemma evaluate_open:
  assumes "gate_open (pe_kill_switch p) c (ep_kill_epoch epochs)"
  shows "evaluate p c epochs fresh now =
    (case pc_authorization_type c of
       AT_STANDING_ORDER \<Rightarrow> evaluate_standing_order p c fresh now
     | AT_DERIVED \<Rightarrow> (p, evaluate_derived c)
     | AT_EFFECT \<Rightarrow> (p, evaluate_effect c)
     | AT_MODEL \<Rightarrow> (p, evaluate_model c)
     | AT_ACTIVATION \<Rightarrow> evaluate_activation p c fresh now)"
  using assms by (simp add: gate_open_checks evaluate_def Let_def)

lemma evaluate_activation_allow:
  "pv_decision (snd (evaluate_activation p c fresh now)) = PD_ALLOW \<longleftrightarrow>
     (case dget (pe_standing_orders p) (pc_capability c, pc_risk_level c) of
        Some d \<Rightarrow> d = PD_ALLOW
      | None \<Rightarrow> matrix_of c = PD_ALLOW \<or> (matrix_of c = PD_REQUIRE_APPROVAL \<and> approved p c))"
  by (auto simp: evaluate_activation_def Let_def matrix_of_def approved_iff_Some
      split: option.split)

section \<open>Properties\<close>

lemma allow_iff_permits:
  "pv_decision (snd (evaluate p c epochs fresh now)) = PD_ALLOW \<longleftrightarrow> permits p c (ep_kill_epoch epochs)"
proof (cases "gate_open (pe_kill_switch p) c (ep_kill_epoch epochs)")
  case False
  with evaluate_closed [OF False] show ?thesis by (simp add: permits_def)
next
  case True
  note ev = evaluate_open [OF True]
  show ?thesis
  proof (cases "pc_authorization_type c")
    case AT_ACTIVATION
    with True show ?thesis by (simp add: ev permits_def named_subject_def evaluate_activation_allow)
  next
    case AT_STANDING_ORDER
    with True show ?thesis
      by (simp add: ev permits_def named_subject_def evaluate_standing_order_def
          evaluate_activation_allow split: option.split)
  qed (use True in \<open>simp_all add: ev permits_def named_subject_def matrix_of_def evaluate_derived_def
      evaluate_effect_def evaluate_model_def\<close>)
qed


fun risk_rank :: "risk_level \<Rightarrow> nat" where
  "risk_rank RL_R0 = 0" | "risk_rank RL_R1 = 1" | "risk_rank RL_R2 = 2" | "risk_rank RL_R3 = 3"
| "risk_rank RL_R4 = 4"

fun mode_rank :: "autonomy_mode \<Rightarrow> nat" where
  "mode_rank AM_ASSIST = 0" | "mode_rank AM_SUPERVISED = 1" | "mode_rank AM_BOUNDED_AUTONOMOUS = 2"

lemma matrix_monotone:
  assumes "risk_rank r' \<le> risk_rank r" and "mode_rank m \<le> mode_rank m'"
  shows "POLICY_MATRIX m r = PD_ALLOW \<Longrightarrow> POLICY_MATRIX m' r' = PD_ALLOW"
    and "POLICY_MATRIX m r = PD_REQUIRE_APPROVAL \<Longrightarrow>
      POLICY_MATRIX m' r' = PD_ALLOW \<or> POLICY_MATRIX m' r' = PD_REQUIRE_APPROVAL"
  using assms by (cases m; cases m'; cases r; cases r'; simp)+

lemma matrix_R4: "POLICY_MATRIX m RL_R4 = PD_DENY"
  by (cases m) simp_all

lemma permits_monotone:
  assumes "pe_standing_orders p = []" and "permits p c e"
    and "risk_rank r' \<le> risk_rank (pc_risk_level c)" and "mode_rank (pc_autonomy_mode c) \<le> mode_rank m'"
  shows "permits p (c\<lparr>pc_risk_level := r', pc_autonomy_mode := m'\<rparr>) e"
  using assms(1,2) matrix_monotone [OF assms(3,4)]
  by (auto simp: permits_def gate_open_def named_subject_def matrix_of_def approved_def
      split: authorization_type.splits if_splits)

text \<open>
  Without standing orders the engine is monotone: a request it allows stays allowed at every
  lower risk level and in every more autonomous mode, and a request at the highest risk level is
  never allowed.
\<close>

theorem policy_monotone:
  assumes "pe_standing_orders p = []" and "pv_decision (snd (evaluate p c epochs fresh now)) = PD_ALLOW"
    and "risk_rank r' \<le> risk_rank (pc_risk_level c)" and "mode_rank (pc_autonomy_mode c) \<le> mode_rank m'"
  shows "pv_decision (snd (evaluate p (c\<lparr>pc_risk_level := r', pc_autonomy_mode := m'\<rparr>) epochs fresh now))
      = PD_ALLOW \<and> pc_risk_level c \<noteq> RL_R4"
  using assms permits_monotone [OF assms(1) _ assms(3,4)]
  unfolding allow_iff_permits
  by (auto simp: permits_def matrix_of_def matrix_R4 split: if_splits)

definition sample_policy_context :: policy_context where
  "sample_policy_context = \<lparr>pc_run_id = ''run_1'', pc_step_id = ''step_1'', pc_attempt_id = ''att_1'',
     pc_capability = ''mail'', pc_risk_level = RL_R2, pc_autonomy_mode = AM_SUPERVISED,
     pc_employee_id = ''emp_1'', pc_resource_id = [], pc_arguments = [],
     pc_authorization_type = AT_ACTIVATION, pc_model_id = [], pc_effect_id = [],
     pc_parent_auth_id = []\<rparr>"

definition sample_kill_switch :: kill_switch where
  "sample_kill_switch = \<lparr>sw_states = [], sw_global_epoch = 0, sw_file = None\<rparr>"

definition sample_epochs :: epoch_set where
  "sample_epochs = \<lparr>ep_definition_version = 0, ep_admission_epoch = 0, ep_revocation_epoch = 0,
     ep_run_control_epoch = 0, ep_plan_epoch = 0, ep_kill_epoch = 0\<rparr>"

lemmas sample_policy = sample_policy_context_def sample_kill_switch_def sample_epochs_def
  policy_engine_init_def

theorem policy_monotone_witness:
  "let p = policy_engine_init sample_kill_switch; c = sample_policy_context\<lparr>pc_risk_level := RL_R1\<rparr>
   in pv_decision (snd (evaluate p (c\<lparr>pc_risk_level := RL_R0, pc_autonomy_mode := AM_BOUNDED_AUTONOMOUS\<rparr>)
        sample_epochs ''appr_1'' 0)) = PD_ALLOW"
proof -
  have "pv_decision (snd (evaluate (policy_engine_init sample_kill_switch)
      (sample_policy_context\<lparr>pc_risk_level := RL_R1\<rparr>) sample_epochs ''appr_1'' 0)) = PD_ALLOW"
    by (simp add: allow_iff_permits permits_def gate_open_def named_subject_def matrix_of_def
        sample_policy scope_active_def)
  from policy_monotone [OF _ this, of RL_R0 AM_BOUNDED_AUTONOMOUS] show ?thesis
    by (simp add: sample_policy)
qed

definition needs_approval :: "policy_engine \<Rightarrow> policy_context \<Rightarrow> bool" where
  "needs_approval p c \<longleftrightarrow> pc_authorization_type c \<in> {AT_ACTIVATION, AT_STANDING_ORDER} \<and>
     dget (pe_standing_orders p) (pc_capability c, pc_risk_level c) = None \<and>
     matrix_of c = PD_REQUIRE_APPROVAL"

lemma evaluate_pending_iff:
  "pv_decision (snd (evaluate p c epochs fresh now)) = PD_REQUIRE_APPROVAL \<and>
     pv_approval_id (snd (evaluate p c epochs fresh now)) \<noteq> None \<longleftrightarrow>
   gate_open (pe_kill_switch p) c (ep_kill_epoch epochs) \<and> needs_approval p c \<and> \<not> approved p c"
proof (cases "gate_open (pe_kill_switch p) c (ep_kill_epoch epochs)")
  case False
  with evaluate_closed [OF False] show ?thesis by simp
next
  case True
  note ev = evaluate_open [OF True]
  show ?thesis
    by (cases "pc_authorization_type c")
      (auto simp: ev True needs_approval_def matrix_of_def evaluate_activation_def Let_def
        evaluate_standing_order_def evaluate_derived_def evaluate_effect_def evaluate_model_def
        approved_iff_Some split: option.split)
qed

lemma evaluate_pending:
  assumes "gate_open (pe_kill_switch p) c (ep_kill_epoch epochs)" and "needs_approval p c"
  shows "evaluate p c epochs fresh now =
    (case find_granted_approval p c of
       Some r \<Rightarrow> (p, mk_result PD_ALLOW (mode_reasons c @ [''pre-approved''])
          (Some (ap_approval_id r)) AT_ACTIVATION)
     | None \<Rightarrow>
         (p\<lparr>pe_approvals := dset (pe_approvals p) fresh
             \<lparr>ap_approval_id = fresh, ap_context = c, ap_granted = False,
              ap_approver_id = [], ap_created_at = now, ap_resolved_at = None\<rparr>\<rparr>,
          mk_result PD_REQUIRE_APPROVAL (mode_reasons c) (Some fresh) AT_ACTIVATION))"
  using assms(2)
  by (auto simp: evaluate_open [OF assms(1)] needs_approval_def evaluate_standing_order_def
      evaluate_activation_def matrix_of_def Let_def)

lemma approved_dset:
  assumes "dict_ok (pe_approvals p)" and "\<not> approved p c" and "q = p\<lparr>pe_approvals := dset (pe_approvals p) k r\<rparr>"
    and "pc_run_id (ap_context r) = pc_run_id c" "pc_step_id (ap_context r) = pc_step_id c"
    "pc_capability (ap_context r) = pc_capability c"
  shows "find_granted_approval q c = (if ap_granted r then Some r else None)"
proof -
  have only: "r' = r" if "find_granted_approval q c = Some r'" for r'
  proof -
    from that have "r' \<in> set (dvals (pe_approvals q))" "ap_granted r'"
      "pc_run_id (ap_context r') = pc_run_id c" "pc_step_id (ap_context r') = pc_step_id c"
      "pc_capability (ap_context r') = pc_capability c"
      by (auto simp: find_granted_approval_def dest!: find_SomeD)
    moreover then obtain k' where "(k', r') \<in> set (dset (pe_approvals p) k r)"
      using assms(3) by auto
    ultimately show ?thesis using assms(1,2)
      by (force simp: pd.items_assign approved_def split: if_splits)
  qed
  have "r \<in> set (dvals (pe_approvals q))"
    using assms(1,3) pd.items_assign [of "pe_approvals p" k r k r] by force
  with assms(4-6) have "ap_granted r \<Longrightarrow> find_granted_approval q c \<noteq> None"
    by (auto simp: find_granted_None approved_def)
  moreover have "find_granted_approval q c = Some r \<Longrightarrow> ap_granted r"
    by (auto simp: find_granted_approval_def dest!: find_SomeD)
  ultimately show ?thesis using only by (cases "find_granted_approval q c") auto
qed

text \<open>
  C25. The approval protocol: when an evaluation asks for approval under a fresh id, granting that
  id succeeds once, the same request is then allowed under that id and records nothing new, a
  second grant is refused, and revoking the approval makes the request need approval again.
\<close>

theorem approval_protocol:
  assumes "dict_ok (pe_approvals p)" and "evaluate p c epochs a now = (p1, r)"
    and "pv_decision r = PD_REQUIRE_APPROVAL" and "pv_approval_id r \<noteq> None"
  shows "pv_approval_id r = Some a \<and>
    (\<exists>p2. grant_approval p1 a who t1 = (p2, True) \<and> grant_approval p2 a who' t2 = (p2, False) \<and>
      (\<exists>r2. evaluate p2 c epochs b t3 = (p2, r2) \<and> pv_decision r2 = PD_ALLOW \<and>
        pv_approval_id r2 = Some a) \<and>
      (\<exists>p3. revoke_approval p2 a t4 = (p3, True) \<and>
        pv_decision (snd (evaluate p3 c epochs b t5)) = PD_REQUIRE_APPROVAL))"
proof -
  have pend: "gate_open (pe_kill_switch p) c (ep_kill_epoch epochs)" "needs_approval p c" "\<not> approved p c"
    using evaluate_pending_iff [of p c epochs a now] assms(2-4) by auto
  define rec where "rec = \<lparr>ap_approval_id = a, ap_context = c, ap_granted = False,
    ap_approver_id = [], ap_created_at = now, ap_resolved_at = None\<rparr>"
  have p1: "p1 = p\<lparr>pe_approvals := dset (pe_approvals p) a rec\<rparr>" and r: "pv_approval_id r = Some a"
    using assms(2) pend(3) by (auto simp: evaluate_pending [OF pend(1,2)] rec_def
        approved_iff_Some split: option.splits)
  define rec2 where "rec2 = rec\<lparr>ap_granted := True, ap_approver_id := who, ap_resolved_at := Some t1\<rparr>"
  define rec3 where "rec3 = rec2\<lparr>ap_granted := False, ap_resolved_at := Some t4\<rparr>"
  define p2 where "p2 = p1\<lparr>pe_approvals := dset (pe_approvals p1) a rec2\<rparr>"
  define p3 where "p3 = p2\<lparr>pe_approvals := dset (pe_approvals p2) a rec3\<rparr>"
  have grant: "grant_approval p1 a who t1 = (p2, True)" "grant_approval p2 a who' t2 = (p2, False)"
    "revoke_approval p2 a t4 = (p3, True)"
    by (simp_all add: grant_approval_def revoke_approval_def p1 p2_def p3_def rec_def rec2_def rec3_def)
  have ok: "dict_ok (pe_approvals p1)" "dict_ok (pe_approvals p2)"
    using assms(1) by (simp_all add: p1 p2_def)
  have n1: "\<not> approved p1 c"
    using approved_dset [OF assms(1) pend(3) p1] by (simp add: rec_def approved_iff_Some)
  have f2: "find_granted_approval p2 c = Some rec2"
    using approved_dset [OF ok(1) n1 p2_def] by (simp add: rec2_def rec_def)
  have "p3 = p1\<lparr>pe_approvals := dset (pe_approvals p1) a rec3\<rparr>"
    by (simp add: p3_def p2_def dset_twice)
  then have f3: "find_granted_approval p3 c = None"
    using approved_dset [OF ok(1) n1, of p3 a rec3] by (simp add: rec3_def rec2_def rec_def)
  have keep: "gate_open (pe_kill_switch q) c (ep_kill_epoch epochs) \<and> needs_approval q c"
    if "q = p2 \<or> q = p3" for q
    using that pend by (auto simp: p2_def p3_def p1 needs_approval_def)
  have "evaluate p2 c epochs b t3 = (p2, mk_result PD_ALLOW (mode_reasons c @ [''pre-approved''])
      (Some (ap_approval_id rec2)) AT_ACTIVATION)"
    using evaluate_pending [of p2 c epochs b t3] keep f2 by simp
  moreover have "pv_decision (snd (evaluate p3 c epochs b t5)) = PD_REQUIRE_APPROVAL"
    using evaluate_pending [of p3 c epochs b t5] keep f3 by simp
  ultimately show ?thesis using grant r by (auto simp: rec2_def rec_def)
qed

theorem approval_protocol_witness:
  "\<exists>p1 p2 r2. evaluate (policy_engine_init sample_kill_switch) sample_policy_context sample_epochs
      ''appr_1'' 0 = (p1, mk_result PD_REQUIRE_APPROVAL (mode_reasons sample_policy_context)
        (Some ''appr_1'') AT_ACTIVATION) \<and>
    grant_approval p1 ''appr_1'' ''alice'' 1 = (p2, True) \<and>
    evaluate p2 sample_policy_context sample_epochs ''appr_2'' 2 = (p2, r2) \<and> pv_decision r2 = PD_ALLOW"
proof -
  let ?p = "policy_engine_init sample_kill_switch"
  have g: "gate_open (pe_kill_switch ?p) sample_policy_context (ep_kill_epoch sample_epochs)"
    by (simp add: gate_open_def sample_policy scope_active_def)
  have n: "needs_approval ?p sample_policy_context"
    by (simp add: needs_approval_def sample_policy matrix_of_def)
  have f: "find_granted_approval ?p sample_policy_context = None"
    by (simp add: find_granted_approval_def sample_policy)
  obtain p1 where p1: "evaluate ?p sample_policy_context sample_epochs ''appr_1'' 0 =
      (p1, mk_result PD_REQUIRE_APPROVAL (mode_reasons sample_policy_context) (Some ''appr_1'')
        AT_ACTIVATION)"
    using evaluate_pending [OF g n] f by simp
  have ok: "dict_ok (pe_approvals ?p)" by (simp add: policy_engine_init_def)
  show ?thesis
    using approval_protocol [OF ok p1, of "''alice''" 1 "''bob''" 2 "''appr_2''" 2 3 4] p1 by auto
qed

end
