(* ===== verification/Domain_Control.thy ===== *)
theory Domain_Control
  imports Domain_Goals
begin

text \<open>
  The aggregates of \<^verbatim>\<open>src/src/autonomous/domain/control.py\<close>: principals, one-shot activation
  authorizations, budget entries and budget ledgers, with their dictionary encodings.
\<close>

section \<open>Principals\<close>

record principal =
  pr_principal_id :: string
  pr_tenant_key :: string
  pr_user_id :: string
  pr_union_id :: string
  pr_app_open_ids :: pyval
  pr_roles :: "string list"
  pr_data_scopes :: "string list"
  pr_resource_scopes :: "string list"

definition principal_to_dict :: "principal \<Rightarrow> pydict" where
  "principal_to_dict p =
     [(''principal_id'', PStr (pr_principal_id p)),
      (''tenant_key'', PStr (pr_tenant_key p)),
      (''user_id'', PStr (pr_user_id p)),
      (''union_id'', PStr (pr_union_id p)),
      (''app_open_ids'', thaw (pr_app_open_ids p)),
      (''roles'', strs_val (pr_roles p)),
      (''data_scopes'', strs_val (pr_data_scopes p)),
      (''resource_scopes'', strs_val (pr_resource_scopes p))]"

definition principal_from_dict :: "pydict \<Rightarrow> py_exn + principal" where
  "principal_from_dict d =
     bindE (req_str d ''principal_id'') (\<lambda>x_principal_id.
     bindE (opt_str d ''tenant_key'' []) (\<lambda>x_tenant_key.
     bindE (opt_str d ''user_id'' []) (\<lambda>x_user_id.
     bindE (opt_str d ''union_id'' []) (\<lambda>x_union_id.
     bindE (Inr (freeze (opt d ''app_open_ids'' (PDict [])))) (\<lambda>x_app_open_ids.
     bindE (opt_strs d ''roles'') (\<lambda>x_roles.
     bindE (opt_strs d ''data_scopes'') (\<lambda>x_data_scopes.
     bindE (opt_strs d ''resource_scopes'') (\<lambda>x_resource_scopes.
     Inr (\<lparr>pr_principal_id = x_principal_id, pr_tenant_key = x_tenant_key, pr_user_id
        = x_user_id, pr_union_id = x_union_id, pr_app_open_ids = x_app_open_ids, pr_roles =
        x_roles, pr_data_scopes = x_data_scopes, pr_resource_scopes =
        x_resource_scopes\<rparr>)))))))))"

interpretation principal_codec: codec principal_to_dict principal_from_dict
  "\<lambda>p. frozen_value (pr_app_open_ids p)"
  by unfold_locales (simp add: principal_to_dict_def principal_from_dict_def codec_simps)

section \<open>Activation authorizations\<close>

record goal_activation_authorization =
  ga_auth_id :: string
  ga_tenant_key :: string
  ga_principal_id :: string
  ga_goal_id :: string
  ga_plan_hash :: string
  ga_criteria_hash :: string
  ga_budget_hash :: string
  ga_canonical_payload_hash :: string
  ga_canonical_render_hash :: string
  ga_authorization_envelope :: pyval
  ga_epochs :: pyval
  ga_nonce :: string
  ga_expires_at :: timestamp
  ga_consumed :: bool
  ga_consumed_at :: "timestamp option"

definition goal_activation_authorization_to_dict :: "goal_activation_authorization \<Rightarrow> pydict" where
  "goal_activation_authorization_to_dict a =
     [(''auth_id'', PStr (ga_auth_id a)),
      (''tenant_key'', PStr (ga_tenant_key a)),
      (''principal_id'', PStr (ga_principal_id a)),
      (''goal_id'', PStr (ga_goal_id a)),
      (''plan_hash'', PStr (ga_plan_hash a)),
      (''criteria_hash'', PStr (ga_criteria_hash a)),
      (''budget_hash'', PStr (ga_budget_hash a)),
      (''canonical_payload_hash'', PStr (ga_canonical_payload_hash a)),
      (''canonical_render_hash'', PStr (ga_canonical_render_hash a)),
      (''authorization_envelope'', thaw (ga_authorization_envelope a)),
      (''epochs'', thaw (ga_epochs a)),
      (''nonce'', PStr (ga_nonce a)),
      (''expires_at'', PFloat (Fin (ga_expires_at a))),
      (''consumed'', PBool (ga_consumed a)),
      (''consumed_at'', float_option_val (ga_consumed_at a))]"

definition goal_activation_authorization_from_dict :: "pydict \<Rightarrow> py_exn + goal_activation_authorization" where
  "goal_activation_authorization_from_dict d =
     bindE (req_str d ''auth_id'') (\<lambda>x_auth_id.
     bindE (opt_str d ''tenant_key'' []) (\<lambda>x_tenant_key.
     bindE (opt_str d ''principal_id'' []) (\<lambda>x_principal_id.
     bindE (opt_str d ''goal_id'' []) (\<lambda>x_goal_id.
     bindE (opt_str d ''plan_hash'' []) (\<lambda>x_plan_hash.
     bindE (opt_str d ''criteria_hash'' []) (\<lambda>x_criteria_hash.
     bindE (opt_str d ''budget_hash'' []) (\<lambda>x_budget_hash.
     bindE (opt_str d ''canonical_payload_hash'' []) (\<lambda>x_canonical_payload_hash.
     bindE (opt_str d ''canonical_render_hash'' []) (\<lambda>x_canonical_render_hash.
     bindE (Inr (freeze (opt d ''authorization_envelope'' (PDict [])))) (\<lambda>x_authorization_envelope.
     bindE (Inr (freeze (opt d ''epochs'' (PDict [])))) (\<lambda>x_epochs.
     bindE (opt_str d ''nonce'' []) (\<lambda>x_nonce.
     bindE (opt_float d ''expires_at'') (\<lambda>x_expires_at.
     bindE (opt_bool d ''consumed'' False) (\<lambda>x_consumed.
     bindE (raw_float_option (opt d ''consumed_at'' PNone) ''consumed_at'') (\<lambda>x_consumed_at.
     Inr (\<lparr>ga_auth_id = x_auth_id, ga_tenant_key = x_tenant_key, ga_principal_id =
        x_principal_id, ga_goal_id = x_goal_id, ga_plan_hash = x_plan_hash,
        ga_criteria_hash = x_criteria_hash, ga_budget_hash = x_budget_hash,
        ga_canonical_payload_hash = x_canonical_payload_hash, ga_canonical_render_hash =
        x_canonical_render_hash, ga_authorization_envelope = x_authorization_envelope,
        ga_epochs = x_epochs, ga_nonce = x_nonce, ga_expires_at = x_expires_at, ga_consumed
        = x_consumed, ga_consumed_at = x_consumed_at\<rparr>))))))))))))))))"

definition auth_is_valid :: "goal_activation_authorization \<Rightarrow> timestamp \<Rightarrow> bool" where
  "auth_is_valid a now \<longleftrightarrow> \<not> ga_consumed a \<and> ga_expires_at a > now"

text \<open>
  \<open>consume\<close> rebuilds the value from its own dictionary with the two consumption fields replaced;
  \<open>__post_init__\<close> freezes the two nested mappings again.
\<close>

definition auth_consume ::
  "goal_activation_authorization \<Rightarrow> timestamp \<Rightarrow> py_exn + goal_activation_authorization" where
  "auth_consume a now =
     (if \<not> auth_is_valid a now
      then Inl (ValueError ''activation authorization is expired or consumed'')
      else Inr (a\<lparr>ga_authorization_envelope := freeze (thaw (ga_authorization_envelope a)),
                  ga_epochs := freeze (thaw (ga_epochs a)),
                  ga_consumed := True, ga_consumed_at := Some now\<rparr>))"

interpretation authorization_codec: codec goal_activation_authorization_to_dict
  goal_activation_authorization_from_dict
  "\<lambda>a. frozen_value (ga_authorization_envelope a) \<and> frozen_value (ga_epochs a)"
  by unfold_locales
    (simp add: goal_activation_authorization_to_dict_def goal_activation_authorization_from_dict_def
      codec_simps)

section \<open>Budget entries\<close>

datatype budget_entry_state =
    BE_RESERVED | BE_SETTLED | BE_RELEASED | BE_UNKNOWN_BILLING | BE_CONSERVATIVE_SETTLED

fun budget_entry_state_value :: "budget_entry_state \<Rightarrow> string" where
  "budget_entry_state_value BE_RESERVED = ''reserved''"
| "budget_entry_state_value BE_SETTLED = ''settled''"
| "budget_entry_state_value BE_RELEASED = ''released''"
| "budget_entry_state_value BE_UNKNOWN_BILLING = ''unknown_billing''"
| "budget_entry_state_value BE_CONSERVATIVE_SETTLED = ''conservative_settled''"

definition budget_entry_state_members :: "budget_entry_state list" where
  "budget_entry_state_members =
     [BE_RESERVED, BE_SETTLED, BE_RELEASED, BE_UNKNOWN_BILLING, BE_CONSERVATIVE_SETTLED]"

interpretation budget_entry_state_enum: py_enum budget_entry_state_value budget_entry_state_members
proof
  show "x \<in> set budget_entry_state_members" for x
    by (cases x) (simp_all add: budget_entry_state_members_def)
  show "distinct (map budget_entry_state_value budget_entry_state_members)"
    by (simp add: budget_entry_state_members_def)
qed

lemma budget_entry_state_field [codec_simps]:
  "enum_field budget_entry_state_value budget_entry_state_members
     (PStr (budget_entry_state_value s)) = Inr s"
  by (simp add: budget_entry_state_enum.of_value)

record budget_entry =
  be_entry_id :: string
  be_ledger_id :: string
  be_amount :: pyfloat
  be_state :: budget_entry_state
  be_dimension :: string
  be_reserved_at :: timestamp
  be_settled_at :: "timestamp option"

definition budget_entry_to_dict :: "budget_entry \<Rightarrow> pydict" where
  "budget_entry_to_dict e =
     [(''entry_id'', PStr (be_entry_id e)),
      (''ledger_id'', PStr (be_ledger_id e)),
      (''amount'', PFloat (be_amount e)),
      (''state'', PStr (budget_entry_state_value (be_state e))),
      (''dimension'', PStr (be_dimension e)),
      (''reserved_at'', PFloat (Fin (be_reserved_at e))),
      (''settled_at'', float_option_val (be_settled_at e))]"

definition budget_entry_from_dict :: "pydict \<Rightarrow> py_exn + budget_entry" where
  "budget_entry_from_dict d =
     bindE (req_str d ''entry_id'') (\<lambda>x_entry_id.
     bindE (opt_str d ''ledger_id'' []) (\<lambda>x_ledger_id.
     bindE (bindE (opt_float d ''amount'') (\<lambda>r. Inr (Fin r))) (\<lambda>x_amount.
     bindE (enum_field budget_entry_state_value budget_entry_state_members (opt d ''state'' (PStr (budget_entry_state_value BE_RESERVED)))) (\<lambda>x_state.
     bindE (opt_str d ''dimension'' []) (\<lambda>x_dimension.
     bindE (opt_float d ''reserved_at'') (\<lambda>x_reserved_at.
     bindE (raw_float_option (opt d ''settled_at'' PNone) ''settled_at'') (\<lambda>x_settled_at.
     Inr (\<lparr>be_entry_id = x_entry_id, be_ledger_id = x_ledger_id, be_amount = x_amount,
        be_state = x_state, be_dimension = x_dimension, be_reserved_at = x_reserved_at,
        be_settled_at = x_settled_at\<rparr>))))))))"

definition budget_entry_wf :: "budget_entry \<Rightarrow> bool" where
  "budget_entry_wf e \<longleftrightarrow> fisfinite (be_amount e)"

lemma finite_float_Fin: "fisfinite f \<Longrightarrow> \<exists>r. f = Fin r"
  by (cases f) (auto simp: fisfinite_def)

interpretation budget_entry_codec: codec "\<lambda>e. PDict (budget_entry_to_dict e)"
  "dict_field ''entries'' budget_entry_from_dict" budget_entry_wf
  by unfold_locales
    (auto simp: budget_entry_to_dict_def budget_entry_from_dict_def budget_entry_wf_def codec_simps
      simp del: enum_field.simps dest!: finite_float_Fin)

section \<open>Budget ledgers\<close>

fun limit_field :: "string \<times> pyval \<Rightarrow> py_exn + string \<times> pyfloat" where
  "limit_field (k, PFloat f) = Inr (k, f)"
| "limit_field (k, _) = Inl (Untyped ''limits'')"

fun limits_field :: "pyval \<Rightarrow> py_exn + (string, pyfloat) dict" where
  "limits_field (PDict kvs) = mapE limit_field kvs"
| "limits_field _ = Inl (Untyped ''limits'')"

fun entries_field :: "pyval \<Rightarrow> py_exn + budget_entry list" where
  "entries_field (PList vs) = mapE (dict_field ''entries'' budget_entry_from_dict) vs"
| "entries_field (PTuple vs) = mapE (dict_field ''entries'' budget_entry_from_dict) vs"
| "entries_field _ = Inl (Untyped ''entries'')"

record budget_ledger =
  bl_ledger_id :: string
  bl_tenant_key :: string
  bl_run_id :: string
  bl_goal_id :: string
  bl_employee_id :: string
  bl_team_id :: string
  bl_limits :: "(string, pyfloat) dict"
  bl_entries :: "budget_entry list"
  bl_aggregate_version :: int

text \<open>
  \<open>available\<close>: the limit of a dimension (infinite when none is set) less the amounts of the entries
  that count against it, every state but \<open>RELEASED\<close>.
\<close>

definition counts_against :: "string \<Rightarrow> budget_entry \<Rightarrow> bool" where
  "counts_against dimension e \<longleftrightarrow> be_dimension e = dimension \<and>
     be_state e \<in> set [BE_RESERVED, BE_SETTLED, BE_UNKNOWN_BILLING, BE_CONSERVATIVE_SETTLED]"

definition ledger_limit :: "budget_ledger \<Rightarrow> string \<Rightarrow> pyfloat" where
  "ledger_limit l dimension = (case dget (bl_limits l) dimension of None \<Rightarrow> PInf | Some x \<Rightarrow> x)"

definition ledger_used :: "budget_ledger \<Rightarrow> string \<Rightarrow> pyfloat" where
  "ledger_used l dimension = fsum (map be_amount (filter (counts_against dimension) (bl_entries l)))"

definition available :: "budget_ledger \<Rightarrow> string \<Rightarrow> pyfloat" where
  "available l dimension = fsub (ledger_limit l dimension) (ledger_used l dimension)"

definition budget_ledger_to_dict :: "budget_ledger \<Rightarrow> pydict" where
  "budget_ledger_to_dict l =
     [(''ledger_id'', PStr (bl_ledger_id l)),
      (''tenant_key'', PStr (bl_tenant_key l)),
      (''run_id'', PStr (bl_run_id l)),
      (''goal_id'', PStr (bl_goal_id l)),
      (''employee_id'', PStr (bl_employee_id l)),
      (''team_id'', PStr (bl_team_id l)),
      (''limits'', PDict (map (map_prod id PFloat) (bl_limits l))),
      (''entries'', PList (map (\<lambda>x. PDict (budget_entry_to_dict x)) (bl_entries l))),
      (''aggregate_version'', PInt (bl_aggregate_version l))]"

definition budget_ledger_from_dict :: "pydict \<Rightarrow> py_exn + budget_ledger" where
  "budget_ledger_from_dict d =
     bindE (req_str d ''ledger_id'') (\<lambda>x_ledger_id.
     bindE (opt_str d ''tenant_key'' []) (\<lambda>x_tenant_key.
     bindE (opt_str d ''run_id'' []) (\<lambda>x_run_id.
     bindE (opt_str d ''goal_id'' []) (\<lambda>x_goal_id.
     bindE (opt_str d ''employee_id'' []) (\<lambda>x_employee_id.
     bindE (opt_str d ''team_id'' []) (\<lambda>x_team_id.
     bindE (limits_field (opt d ''limits'' (PDict []))) (\<lambda>x_limits.
     bindE (entries_field (opt d ''entries'' (PTuple []))) (\<lambda>x_entries.
     bindE (opt_int d ''aggregate_version'' 0 0) (\<lambda>x_aggregate_version.
     Inr (\<lparr>bl_ledger_id = x_ledger_id, bl_tenant_key = x_tenant_key, bl_run_id =
        x_run_id, bl_goal_id = x_goal_id, bl_employee_id = x_employee_id, bl_team_id =
        x_team_id, bl_limits = x_limits, bl_entries = x_entries, bl_aggregate_version =
        x_aggregate_version\<rparr>))))))))))"

definition budget_ledger_wf :: "budget_ledger \<Rightarrow> bool" where
  "budget_ledger_wf l \<longleftrightarrow> list_all budget_entry_wf (bl_entries l) \<and> 0 \<le> bl_aggregate_version l"

lemma limits_codec [codec_simps]: "mapE limit_field (map (map_prod id PFloat) ls) = Inr ls"
  by (rule mapE_map) auto

lemma budget_ledger_codec_law:
  "budget_ledger_wf l \<Longrightarrow> budget_ledger_from_dict (budget_ledger_to_dict l) = Inr l"
  by (cases l) (simp add: budget_ledger_to_dict_def budget_ledger_from_dict_def budget_ledger_wf_def
      budget_entry_codec.mapE_enc codec_simps)

interpretation budget_ledger_codec: codec budget_ledger_to_dict budget_ledger_from_dict budget_ledger_wf
  by unfold_locales (rule budget_ledger_codec_law)

end
