(* ===== verification/Authorization_Gate.thy ===== *)
theory Authorization_Gate
  imports Domain_Control
begin

text \<open>
  The default-deny gate of \<^verbatim>\<open>src/src/autonomous/policy/authorization.py\<close>: access control lists,
  administrators, one-time nonces and committed authorization envelopes. The clock, fresh ids and
  fresh nonces are arguments, and so is the hash function of the domain layer.
\<close>

section \<open>Data\<close>

datatype operation =
    OPN_CREATE | OPN_READ | OPN_UPDATE | OPN_DELETE | OPN_EXECUTE | OPN_APPROVE | OPN_ACTIVATE
  | OPN_CANCEL

fun operation_value :: "operation \<Rightarrow> string" where
  "operation_value OPN_CREATE = ''create''"
| "operation_value OPN_READ = ''read''"
| "operation_value OPN_UPDATE = ''update''"
| "operation_value OPN_DELETE = ''delete''"
| "operation_value OPN_EXECUTE = ''execute''"
| "operation_value OPN_APPROVE = ''approve''"
| "operation_value OPN_ACTIVATE = ''activate''"
| "operation_value OPN_CANCEL = ''cancel''"

definition operation_members :: "operation list" where
  "operation_members = [OPN_CREATE, OPN_READ, OPN_UPDATE, OPN_DELETE, OPN_EXECUTE, OPN_APPROVE,
     OPN_ACTIVATE, OPN_CANCEL]"

interpretation operation_enum: py_enum operation_value operation_members
proof
  show "x \<in> set operation_members" for x by (cases x) (simp_all add: operation_members_def)
qed (simp add: operation_members_def)

record authorization_denied =
  den_principal_id :: string
  den_operation :: operation
  den_resource :: string
  den_reason :: string

record authorization_result =
  ar_allowed :: bool
  ar_principal_id :: string
  ar_operation :: operation
  ar_resource :: string
  ar_reason :: string
  ar_timestamp :: timestamp
  ar_envelope_hash :: string

definition authorization_result_to_dict :: "authorization_result \<Rightarrow> pydict" where
  "authorization_result_to_dict r =
     [(''allowed'', PBool (ar_allowed r)),
      (''principal_id'', PStr (ar_principal_id r)),
      (''operation'', PStr (operation_value (ar_operation r))),
      (''resource'', PStr (ar_resource r)),
      (''reason'', PStr (ar_reason r)),
      (''timestamp'', PFloat (Fin (ar_timestamp r))),
      (''envelope_hash'', PStr (ar_envelope_hash r))]"

record authorization_envelope =
  en_envelope_id :: string
  en_principal_id :: string
  en_tenant_key :: string
  en_operation :: string
  en_resource :: string
  en_canonical_payload_hash :: string
  en_canonical_render_hash :: string
  en_recipients :: "string list"
  en_resource_labels :: "string list"
  en_data_labels :: "string list"
  en_budget_id :: string
  en_budget_amount :: pyfloat
  en_version :: int
  en_epoch :: int
  en_nonce :: string
  en_expires_at :: timestamp
  en_created_at :: timestamp

definition envelope_payload :: "authorization_envelope \<Rightarrow> pydict" where
  "envelope_payload e =
     [(''envelope_id'', PStr (en_envelope_id e)),
      (''principal_id'', PStr (en_principal_id e)),
      (''tenant_key'', PStr (en_tenant_key e)),
      (''operation'', PStr (en_operation e)),
      (''resource'', PStr (en_resource e)),
      (''canonical_payload_hash'', PStr (en_canonical_payload_hash e)),
      (''canonical_render_hash'', PStr (en_canonical_render_hash e)),
      (''recipients'', strs_val (en_recipients e)),
      (''resource_labels'', strs_val (en_resource_labels e)),
      (''data_labels'', strs_val (en_data_labels e)),
      (''budget_id'', PStr (en_budget_id e)),
      (''budget_amount'', PFloat (en_budget_amount e)),
      (''version'', PInt (en_version e)),
      (''epoch'', PInt (en_epoch e)),
      (''nonce'', PStr (en_nonce e)),
      (''expires_at'', PFloat (Fin (en_expires_at e)))]"

definition content_hash :: "(pyval \<Rightarrow> string) \<Rightarrow> authorization_envelope \<Rightarrow> string" where
  "content_hash canonical_hash e = canonical_hash (PDict (envelope_payload e))"

definition envelope_is_expired :: "authorization_envelope \<Rightarrow> timestamp \<Rightarrow> bool" where
  "envelope_is_expired e now \<longleftrightarrow> en_expires_at e > 0 \<and> now \<ge> en_expires_at e"

definition authorization_envelope_to_dict :: "authorization_envelope \<Rightarrow> pydict" where
  "authorization_envelope_to_dict e =
     envelope_payload e @ [(''created_at'', PFloat (Fin (en_created_at e)))]"

record resource_acl =
  acl_resource :: string
  acl_owner_principal_id :: string
  acl_tenant_key :: string
  acl_allowed_principals :: "string set"
  acl_allowed_roles :: "string set"
  acl_allowed_operations :: "(string, operation set) dict"

record auth_gate =
  cg_admin_principal_ids :: "string set"
  cg_admin_roles :: "string set"
  cg_acls :: "(string, resource_acl) dict"
  cg_consumed_nonces :: "string set"
  cg_envelopes :: "(string, authorization_envelope) dict"

section \<open>Operations\<close>

definition auth_gate_init :: "string list \<Rightarrow> string list \<Rightarrow> auth_gate" where
  "auth_gate_init admin_ids admin_roles =
     \<lparr>cg_admin_principal_ids = set admin_ids, cg_admin_roles = set admin_roles, cg_acls = [],
      cg_consumed_nonces = {}, cg_envelopes = []\<rparr>"

definition register_acl :: "auth_gate \<Rightarrow> resource_acl \<Rightarrow> auth_gate" where
  "register_acl g acl = g\<lparr>cg_acls := dset (cg_acls g) (acl_resource acl) acl\<rparr>"

definition is_admin :: "auth_gate \<Rightarrow> principal \<Rightarrow> bool" where
  "is_admin g p =
     (if pr_principal_id p \<in> cg_admin_principal_ids g then True
      else set (pr_roles p) \<inter> cg_admin_roles g \<noteq> {})"

definition grant_result ::
  "principal \<Rightarrow> operation \<Rightarrow> string \<Rightarrow> string \<Rightarrow> timestamp \<Rightarrow> authorization_result" where
  "grant_result p opn resource reason now =
     \<lparr>ar_allowed = True, ar_principal_id = pr_principal_id p, ar_operation = opn,
      ar_resource = resource, ar_reason = reason, ar_timestamp = now, ar_envelope_hash = []\<rparr>"

definition denied ::
  "principal \<Rightarrow> operation \<Rightarrow> string \<Rightarrow> string \<Rightarrow> authorization_denied" where
  "denied p opn resource reason =
     \<lparr>den_principal_id = pr_principal_id p, den_operation = opn, den_resource = resource,
      den_reason = reason\<rparr>"

definition principal_grant :: "resource_acl \<Rightarrow> principal \<Rightarrow> operation \<Rightarrow> bool" where
  "principal_grant acl p opn =
     (if pr_principal_id p \<in> acl_allowed_principals acl then
        if acl_allowed_operations acl \<noteq> [] then
          opn \<in> (case dget (acl_allowed_operations acl) (pr_principal_id p) of None \<Rightarrow> {} | Some s \<Rightarrow> s)
        else True
      else False)"

definition authorize ::
  "auth_gate \<Rightarrow> principal \<Rightarrow> operation \<Rightarrow> string \<Rightarrow> timestamp \<Rightarrow>
     authorization_denied + authorization_result" where
  "authorize g p opn resource now =
     (let ok = (\<lambda>reason. Inr (grant_result p opn resource reason now));
          deny = (\<lambda>reason. Inl (denied p opn resource reason))
      in if is_admin g p then ok ''admin''
         else case dget (cg_acls g) resource of
           None \<Rightarrow> deny ''no ACL registered''
         | Some acl \<Rightarrow>
             if acl_tenant_key acl \<noteq> [] \<and> pr_tenant_key p \<noteq> acl_tenant_key acl
             then deny ''tenant mismatch''
             else if pr_principal_id p = acl_owner_principal_id acl then ok ''owner''
             else if principal_grant acl p opn then ok ''principal grant''
             else if set (pr_roles p) \<inter> acl_allowed_roles acl \<noteq> {} then ok ''role grant''
             else deny ''default deny'')"

definition consume_nonce :: "auth_gate \<Rightarrow> string \<Rightarrow> auth_gate \<times> bool" where
  "consume_nonce g nonce =
     (if nonce \<in> cg_consumed_nonces g then (g, False)
      else (g\<lparr>cg_consumed_nonces := insert nonce (cg_consumed_nonces g)\<rparr>, True))"

definition commit_envelope ::
  "auth_gate \<Rightarrow> authorization_envelope \<Rightarrow> timestamp \<Rightarrow> auth_gate \<times> bool" where
  "commit_envelope g e now =
     (case consume_nonce g (en_nonce e) of
        (g1, fresh) \<Rightarrow>
          if \<not> fresh then (g1, False)
          else if envelope_is_expired e now
          then (g1\<lparr>cg_consumed_nonces := cg_consumed_nonces g1 - {en_nonce e}\<rparr>, False)
          else (g1\<lparr>cg_envelopes := dset (cg_envelopes g1) (en_envelope_id e) e\<rparr>, True))"

definition get_envelope :: "auth_gate \<Rightarrow> string \<Rightarrow> authorization_envelope option" where
  "get_envelope g envelope_id = dget (cg_envelopes g) envelope_id"

definition create_dependent_authorization ::
  "auth_gate \<Rightarrow> authorization_envelope \<Rightarrow> principal \<Rightarrow> operation \<Rightarrow> string \<Rightarrow> string \<Rightarrow> pyfloat \<Rightarrow>
     timestamp \<Rightarrow> string \<Rightarrow> string \<Rightarrow> timestamp \<Rightarrow>
     auth_gate \<times> (authorization_denied + authorization_envelope)" where
  "create_dependent_authorization g parent p opn resource budget_id budget_amount expires_at
      fresh_id fresh_nonce now =
     (if dget (cg_envelopes g) (en_envelope_id parent) = None
      then (g, Inl (denied p opn resource ''parent envelope not committed''))
      else
        let child = \<lparr>en_envelope_id = fresh_id, en_principal_id = pr_principal_id p,
              en_tenant_key = pr_tenant_key p, en_operation = operation_value opn,
              en_resource = resource, en_canonical_payload_hash = [], en_canonical_render_hash = [],
              en_recipients = [], en_resource_labels = [], en_data_labels = [],
              en_budget_id = budget_id, en_budget_amount = budget_amount,
              en_version = en_version parent + 1, en_epoch = en_epoch parent,
              en_nonce = fresh_nonce, en_expires_at = expires_at, en_created_at = now\<rparr>
        in case commit_envelope g child now of
             (g1, True) \<Rightarrow> (g1, Inr child)
           | (g1, False) \<Rightarrow>
               (g1, Inl (denied p opn resource ''nonce collision on dependent authorization'')))"

section \<open>What the gate grants\<close>

text \<open>The access-control contract, independent of the order of the checks.\<close>

definition tenant_ok :: "resource_acl \<Rightarrow> principal \<Rightarrow> bool" where
  "tenant_ok acl p \<longleftrightarrow> acl_tenant_key acl = [] \<or> pr_tenant_key p = acl_tenant_key acl"

definition may_access :: "auth_gate \<Rightarrow> principal \<Rightarrow> operation \<Rightarrow> string \<Rightarrow> bool" where
  "may_access g p opn resource \<longleftrightarrow>
     pr_principal_id p \<in> cg_admin_principal_ids g \<or>
     (\<exists>role \<in> set (pr_roles p). role \<in> cg_admin_roles g) \<or>
     (\<exists>acl. dget (cg_acls g) resource = Some acl \<and> tenant_ok acl p \<and>
        (pr_principal_id p = acl_owner_principal_id acl \<or>
         (\<exists>role \<in> set (pr_roles p). role \<in> acl_allowed_roles acl) \<or>
         pr_principal_id p \<in> acl_allowed_principals acl \<and>
           (acl_allowed_operations acl = [] \<or>
            (\<exists>ops. dget (acl_allowed_operations acl) (pr_principal_id p) = Some ops \<and> opn \<in> ops))))"

lemma is_admin_iff:
  "is_admin g p \<longleftrightarrow> pr_principal_id p \<in> cg_admin_principal_ids g \<or>
     (\<exists>role \<in> set (pr_roles p). role \<in> cg_admin_roles g)"
  by (auto simp: is_admin_def)

lemma principal_grant_iff:
  "principal_grant acl p opn \<longleftrightarrow> pr_principal_id p \<in> acl_allowed_principals acl \<and>
     (acl_allowed_operations acl = [] \<or>
      (\<exists>ops. dget (acl_allowed_operations acl) (pr_principal_id p) = Some ops \<and> opn \<in> ops))"
  by (auto simp: principal_grant_def split: option.splits)

lemma may_access_iff:
  "may_access g p opn resource \<longleftrightarrow> is_admin g p \<or>
     (\<exists>acl. dget (cg_acls g) resource = Some acl \<and> tenant_ok acl p \<and>
       (pr_principal_id p = acl_owner_principal_id acl \<or> principal_grant acl p opn \<or>
        set (pr_roles p) \<inter> acl_allowed_roles acl \<noteq> {}))"
proof -
  have roles: "(\<exists>role \<in> set (pr_roles p). role \<in> R) \<longleftrightarrow> set (pr_roles p) \<inter> R \<noteq> {}" for R by auto
  show ?thesis unfolding may_access_def is_admin_iff principal_grant_iff roles by meson
qed

lemma authorize_grants:
  "(\<exists>r. authorize g p opn resource now = Inr r) \<longleftrightarrow> may_access g p opn resource"
proof (cases "is_admin g p")
  case True
  then show ?thesis by (simp add: authorize_def Let_def may_access_iff)
next
  case False
  then show ?thesis
    by (cases "dget (cg_acls g) resource")
      (simp_all add: authorize_def Let_def may_access_iff tenant_ok_def)
qed

lemma authorize_result:
  "authorize g p opn resource now = Inr r \<Longrightarrow> ar_allowed r \<and> ar_principal_id r = pr_principal_id p \<and>
     ar_operation r = opn \<and> ar_resource r = resource"
  by (auto simp: authorize_def Let_def grant_result_def split: if_splits option.splits)

section \<open>Histories of the gate\<close>

datatype gate_call =
    GCommit authorization_envelope timestamp
  | GNonce string
  | GAcl resource_acl
  | GDependent authorization_envelope principal operation string string pyfloat timestamp string string timestamp

fun gate_step :: "auth_gate \<Rightarrow> gate_call \<Rightarrow> auth_gate" where
  "gate_step g (GCommit e now) = fst (commit_envelope g e now)"
| "gate_step g (GNonce n) = fst (consume_nonce g n)"
| "gate_step g (GAcl acl) = register_acl g acl"
| "gate_step g (GDependent parent p opn r b a x i n now) =
     fst (create_dependent_authorization g parent p opn r b a x i n now)"

definition gate_run :: "auth_gate \<Rightarrow> gate_call list \<Rightarrow> auth_gate" where
  "gate_run g cs = fold (\<lambda>c g. gate_step g c) cs g"

text \<open>A committed envelope's nonce is consumed, and no two committed envelopes share one.\<close>

definition gate_inv :: "auth_gate \<Rightarrow> bool" where
  "gate_inv g \<longleftrightarrow> dict_ok (cg_envelopes g) \<and>
     (\<forall>(i, e) \<in> set (cg_envelopes g). en_envelope_id e = i \<and> en_nonce e \<in> cg_consumed_nonces g) \<and>
     (\<forall>(i, e) \<in> set (cg_envelopes g). \<forall>(j, f) \<in> set (cg_envelopes g).
        en_nonce e = en_nonce f \<longrightarrow> i = j)"

lemma commit_envelope_eq:
  "commit_envelope g e now =
     (if en_nonce e \<in> cg_consumed_nonces g \<or> envelope_is_expired e now then (g, False)
      else (g\<lparr>cg_consumed_nonces := insert (en_nonce e) (cg_consumed_nonces g),
              cg_envelopes := dset (cg_envelopes g) (en_envelope_id e) e\<rparr>, True))"
  by (simp add: commit_envelope_def consume_nonce_def)

lemma gate_inv_insert:
  assumes inv: "gate_inv g" and fresh: "en_nonce e \<notin> cg_consumed_nonces g"
  shows "gate_inv (g\<lparr>cg_consumed_nonces := insert (en_nonce e) (cg_consumed_nonces g),
    cg_envelopes := dset (cg_envelopes g) (en_envelope_id e) e\<rparr>)"
proof -
  let ?d = "dset (cg_envelopes g) (en_envelope_id e) e"
  have items: "(i, f) \<in> set ?d \<longleftrightarrow>
      (if i = en_envelope_id e then f = e else (i, f) \<in> set (cg_envelopes g))" for i f
    using inv by (intro pd.items_assign) (simp add: gate_inv_def)
  have old: "en_envelope_id f = i" "en_nonce f \<in> cg_consumed_nonces g"
    if "(i, f) \<in> set (cg_envelopes g)" for i f
    using inv that by (auto simp: gate_inv_def)
  have uniq: "i = j" if "(i, f) \<in> set (cg_envelopes g)" "(j, f') \<in> set (cg_envelopes g)"
    "en_nonce f = en_nonce f'" for i f j f'
    using inv that by (auto simp: gate_inv_def)
  have "i = j" if "(i, f) \<in> set ?d" "(j, f') \<in> set ?d" "en_nonce f = en_nonce f'" for i f j f'
    using that fresh by (auto simp: items dest: old uniq split: if_splits)
  moreover have "en_envelope_id f = i \<and> en_nonce f \<in> insert (en_nonce e) (cg_consumed_nonces g)"
    if "(i, f) \<in> set ?d" for i f
    using that by (auto simp: items dest: old split: if_splits)
  moreover have "dict_ok ?d" using inv by (simp add: gate_inv_def)
  ultimately show ?thesis unfolding gate_inv_def by fastforce
qed

lemma commit_envelope_inv: "gate_inv g \<Longrightarrow> gate_inv (fst (commit_envelope g e now))"
  by (simp add: commit_envelope_eq gate_inv_insert)

lemma create_dependent_gate:
  "\<exists>child. fst (create_dependent_authorization g parent p opn r b a x i n now) = g \<or>
    fst (create_dependent_authorization g parent p opn r b a x i n now) = fst (commit_envelope g child now)"
  by (auto simp: create_dependent_authorization_def Let_def split: prod.split bool.split)
    (metis fst_conv)+

lemma gate_step_inv: "gate_inv g \<Longrightarrow> gate_inv (gate_step g c)"
proof (cases c)
  case (GDependent parent p opn r b a x i n now)
  assume "gate_inv g"
  with GDependent create_dependent_gate [of g parent p opn r b a x i n now] show ?thesis
    by (auto simp: commit_envelope_inv)
next
  case (GCommit e now)
  then show "gate_inv g \<Longrightarrow> ?thesis" by (simp add: commit_envelope_inv)
qed (auto simp: gate_inv_def consume_nonce_def register_acl_def)

lemma gate_step_mono: "cg_consumed_nonces g \<subseteq> cg_consumed_nonces (gate_step g c)"
proof (cases c)
  case (GDependent parent p opn r b a x i n now)
  with create_dependent_gate [of g parent p opn r b a x i n now] show ?thesis
    by (auto simp: commit_envelope_eq)
qed (auto simp: commit_envelope_eq consume_nonce_def register_acl_def)

lemma gate_run_Cons: "gate_run g (c # cs) = gate_run (gate_step g c) cs"
  by (simp add: gate_run_def)

lemma gate_run_inv: "gate_inv g \<Longrightarrow> gate_inv (gate_run g cs)"
  by (induction cs arbitrary: g) (auto simp: gate_run_Cons gate_step_inv, simp add: gate_run_def)

lemma gate_run_mono: "cg_consumed_nonces g \<subseteq> cg_consumed_nonces (gate_run g cs)"
proof (induction cs arbitrary: g)
  case (Cons c cs)
  then show ?case using gate_step_mono by (force simp: gate_run_Cons)
qed (simp add: gate_run_def)

section \<open>Properties\<close>

text \<open>
  C26. The gate is exactly its access-control contract: a call returns a result, which names the
  caller, operation and resource, if and only if the contract grants the access; otherwise it
  raises. Without an administrator role or id, a resource of another tenant is never accessible.
\<close>

theorem authorize_iff_may_access:
  "((\<exists>r. authorize g p opn resource now = Inr r) \<longleftrightarrow> may_access g p opn resource) \<and>
   (\<forall>r. authorize g p opn resource now = Inr r \<longrightarrow> ar_allowed r \<and> ar_operation r = opn \<and>
      ar_resource r = resource \<and> ar_principal_id r = pr_principal_id p) \<and>
   (\<forall>acl. \<not> is_admin g p \<and> dget (cg_acls g) resource = Some acl \<and> \<not> tenant_ok acl p \<longrightarrow>
      authorize g p opn resource now = Inl (denied p opn resource ''tenant mismatch''))"
  using authorize_grants authorize_result
  by (auto simp: authorize_def Let_def tenant_ok_def)

definition sample_principal :: principal where
  "sample_principal = \<lparr>pr_principal_id = ''p1'', pr_tenant_key = ''t1'', pr_user_id = [],
     pr_union_id = [], pr_app_open_ids = PProxy [], pr_roles = [''dev''], pr_data_scopes = [],
     pr_resource_scopes = []\<rparr>"

definition sample_acl :: resource_acl where
  "sample_acl = \<lparr>acl_resource = ''goal/1'', acl_owner_principal_id = ''p9'', acl_tenant_key = ''t1'',
     acl_allowed_principals = {''p1''}, acl_allowed_roles = {},
     acl_allowed_operations = [(''p1'', {OPN_READ})]\<rparr>"

definition sample_gate :: auth_gate where
  "sample_gate = register_acl (auth_gate_init [''root''] [''admin'', ''system'']) sample_acl"

definition sample_envelope :: "string \<Rightarrow> string \<Rightarrow> authorization_envelope" where
  "sample_envelope i n = \<lparr>en_envelope_id = i, en_principal_id = ''p1'', en_tenant_key = ''t1'',
     en_operation = ''read'', en_resource = ''goal/1'', en_canonical_payload_hash = [],
     en_canonical_render_hash = [], en_recipients = [], en_resource_labels = [], en_data_labels = [],
     en_budget_id = [], en_budget_amount = Fin 0, en_version = 0, en_epoch = 0, en_nonce = n,
     en_expires_at = 100, en_created_at = 1\<rparr>"

theorem authorize_iff_may_access_witness:
  "(\<exists>r. authorize sample_gate sample_principal OPN_READ ''goal/1'' 5 = Inr r) \<and>
   \<not> (\<exists>r. authorize sample_gate sample_principal OPN_DELETE ''goal/1'' 5 = Inr r) \<and>
   authorize sample_gate (sample_principal\<lparr>pr_tenant_key := ''t2''\<rparr>) OPN_READ ''goal/1'' 5 =
     Inl (denied (sample_principal\<lparr>pr_tenant_key := ''t2''\<rparr>) OPN_READ ''goal/1'' ''tenant mismatch'')"
  using authorize_iff_may_access [of sample_gate sample_principal OPN_READ "''goal/1''" 5]
    authorize_iff_may_access [of sample_gate sample_principal OPN_DELETE "''goal/1''" 5]
    authorize_iff_may_access [of sample_gate "sample_principal\<lparr>pr_tenant_key := ''t2''\<rparr>" OPN_READ "''goal/1''" 5]
  by (simp add: may_access_def sample_gate_def sample_principal_def sample_acl_def register_acl_def
      auth_gate_init_def tenant_ok_def is_admin_def dset_def)

text \<open>
  Envelopes are replay-proof: from a fresh gate, after any history, a committed envelope's
  nonce is spent for good. Once an envelope is committed, no later call commits an envelope with the
  same nonce, whatever happened in between; an expired envelope changes nothing; and no two stored
  envelopes share a nonce.
\<close>

lemma envelope_replay_refused:
  assumes "commit_envelope (gate_run (auth_gate_init ids roles) cs) e now = (g1, b)"
  shows "(b \<and> en_nonce f = en_nonce e \<longrightarrow>
      commit_envelope (gate_run g1 ds) f now' = (gate_run g1 ds, False)) \<and>
    (envelope_is_expired e now \<longrightarrow> \<not> b \<and> g1 = gate_run (auth_gate_init ids roles) cs) \<and>
    gate_inv (gate_run g1 ds)"
proof (intro conjI impI)
  let ?g = "gate_run (auth_gate_init ids roles) cs"
  have "gate_inv ?g"
    by (rule gate_run_inv) (simp add: gate_inv_def auth_gate_init_def)
  with assms show "gate_inv (gate_run g1 ds)"
    by (metis commit_envelope_inv fst_conv gate_run_inv)
  show "commit_envelope (gate_run g1 ds) f now' = (gate_run g1 ds, False)"
    if b: "b \<and> en_nonce f = en_nonce e"
  proof -
    from assms b have "en_nonce f \<in> cg_consumed_nonces g1"
      by (auto simp: commit_envelope_eq split: if_splits)
    then have "en_nonce f \<in> cg_consumed_nonces (gate_run g1 ds)" using gate_run_mono by blast
    then show ?thesis by (simp add: commit_envelope_eq)
  qed
qed (use assms in \<open>auto simp: commit_envelope_eq split: if_splits\<close>)

lemma envelope_replay_refused_witness:
  "let g1 = fst (commit_envelope (gate_run (auth_gate_init [] []) [GNonce ''n0'']) (sample_envelope ''e1'' ''n1'') 5)
   in commit_envelope (gate_run g1 [GCommit (sample_envelope ''e2'' ''n2'') 6]) (sample_envelope ''e3'' ''n1'') 7
      = (gate_run g1 [GCommit (sample_envelope ''e2'' ''n2'') 6], False)"
proof -
  have "commit_envelope (gate_run (auth_gate_init [] []) [GNonce ''n0'']) (sample_envelope ''e1'' ''n1'') 5 =
    (fst (commit_envelope (gate_run (auth_gate_init [] []) [GNonce ''n0'']) (sample_envelope ''e1'' ''n1'') 5), True)"
    by (simp add: gate_run_def commit_envelope_eq consume_nonce_def auth_gate_init_def sample_envelope_def
        envelope_is_expired_def)
  from envelope_replay_refused [OF this, of "sample_envelope ''e3'' ''n1''" "[GCommit (sample_envelope ''e2'' ''n2'') 6]" 7]
  show ?thesis by (simp add: Let_def sample_envelope_def)
qed

section \<open>Limits of the gate\<close>

text \<open>
  An administrator's grant is decided before the tenant check, so it crosses tenants; and an
  envelope id can be committed again under another nonce, which replaces the stored envelope.
\<close>

lemma admin_crosses_tenants:
  "is_admin g p \<Longrightarrow> authorize g p opn resource now = Inr (grant_result p opn resource ''admin'' now)"
  by (simp add: authorize_def Let_def)

lemma committed_envelope_replaced:
  "get_envelope (gate_run (auth_gate_init [] []) [GCommit (sample_envelope ''e1'' ''n1'') 5,
     GCommit ((sample_envelope ''e1'' ''n2'')\<lparr>en_resource := ''goal/2''\<rparr>) 6]) ''e1'' =
   Some ((sample_envelope ''e1'' ''n2'')\<lparr>en_resource := ''goal/2''\<rparr>)"
  by (simp add: gate_run_def commit_envelope_eq auth_gate_init_def sample_envelope_def
      envelope_is_expired_def get_envelope_def)

end
