(* ===== verification/Scheduler.thy ===== *)
theory Scheduler
  imports Domain_Plans
begin

text \<open>
  The scheduler of \<^verbatim>\<open>src/src/autonomous/scheduler/scheduler.py\<close>. The journal is the protocol
  object the constructor receives: its state is the field \<open>sd_journal\<close> and its \<open>write_event\<close> is the
  parameter \<open>we\<close>, which returns the next journal state or \<open>None\<close> when the write raises. Every
  \<open>await\<close> of a write ends an atomic segment of the coroutine, so each operation is split there:
  \<open>acquire_begin\<close> runs up to the write and \<open>acquire_commit\<close> after it. The operation itself is their
  composition with no other coroutine in between; the step relation at the end of the theory
  interleaves the segments. The expiry heap is kept as the sorted list of its elements. Clock
  readings, random jitter and fresh ids are arguments.
\<close>

section \<open>Data\<close>

record lease_grant =
  lg_lease_id :: string
  lg_attempt_id :: string
  lg_step_id :: string
  lg_run_id :: string
  lg_fencing_token :: int
  lg_granted_at :: timestamp
  lg_expires_at :: timestamp
  lg_worker_id :: string

record queue_entry =
  qe_step_id :: string
  qe_run_id :: string
  qe_plan_epoch :: int
  qe_priority :: int
  qe_enqueued_at :: timestamp
  qe_retry_count :: int
  qe_max_retries :: int
  qe_next_retry_after :: timestamp
  qe_backoff_base :: timestamp

definition queue_entry_lt :: "queue_entry \<Rightarrow> queue_entry \<Rightarrow> bool" where
  "queue_entry_lt a b =
     (if qe_priority a \<noteq> qe_priority b then qe_priority b < qe_priority a
      else qe_enqueued_at a < qe_enqueued_at b)"

record dead_letter_entry =
  dl_step_id :: string
  dl_run_id :: string
  dl_reason :: string
  dl_moved_at :: timestamp

record scheduler_stats =
  ss_queued :: nat
  ss_active_leases :: nat
  ss_dead_letters :: nat
  ss_total_completed :: nat
  ss_total_failed :: nat

record 'j scheduler =
  sd_journal :: 'j
  sd_max_concurrent :: int
  sd_default_lease_seconds :: timestamp
  sd_fencing_counter :: int
  sd_queue :: "(string, queue_entry) dict"
  sd_active_leases :: "(string, lease_grant) dict"
  sd_step_to_lease :: "(string, string) dict"
  sd_dead_letters :: "(string, dead_letter_entry) dict"
  sd_expiry_heap :: "(timestamp \<times> string) list"
  sd_total_completed :: nat
  sd_total_failed :: nat

type_synonym 'j write_event = "'j \<Rightarrow> string \<Rightarrow> pydict \<Rightarrow> 'j option"

datatype sched_exn = JournalError

definition scheduler_init :: "'j \<Rightarrow> int \<Rightarrow> timestamp \<Rightarrow> 'j scheduler" where
  "scheduler_init j max_concurrent default_lease_seconds =
     \<lparr>sd_journal = j, sd_max_concurrent = max_concurrent,
      sd_default_lease_seconds = default_lease_seconds, sd_fencing_counter = 0, sd_queue = [],
      sd_active_leases = [], sd_step_to_lease = [], sd_dead_letters = [], sd_expiry_heap = [],
      sd_total_completed = 0, sd_total_failed = 0\<rparr>"

definition sched_write :: "'j write_event \<Rightarrow> 'j scheduler \<Rightarrow> string \<Rightarrow> pydict \<Rightarrow> 'j scheduler option" where
  "sched_write we s ev payload =
     map_option (\<lambda>j. s\<lparr>sd_journal := j\<rparr>) (we (sd_journal s) ev payload)"

section \<open>Queueing\<close>

definition enqueue_begin :: "plan_step \<Rightarrow> string \<Rightarrow> int \<Rightarrow> timestamp \<Rightarrow> queue_entry" where
  "enqueue_begin st run_id plan_epoch now =
     \<lparr>qe_step_id = st_step_id st, qe_run_id = run_id, qe_plan_epoch = plan_epoch, qe_priority = 0,
      qe_enqueued_at = now, qe_retry_count = 0, qe_max_retries = st_max_attempts st,
      qe_next_retry_after = 0, qe_backoff_base = 5\<rparr>"

definition enqueue_commit :: "'j scheduler \<Rightarrow> queue_entry \<Rightarrow> 'j scheduler" where
  "enqueue_commit s e = s\<lparr>sd_queue := dset (sd_queue s) (qe_step_id e) e\<rparr>"

definition enqueue_event :: "queue_entry \<Rightarrow> pydict" where
  "enqueue_event e = [(''step_id'', PStr (qe_step_id e)), (''run_id'', PStr (qe_run_id e)),
     (''plan_epoch'', PInt (qe_plan_epoch e))]"

definition enqueue_step ::
  "'j write_event \<Rightarrow> 'j scheduler \<Rightarrow> plan_step \<Rightarrow> string \<Rightarrow> int \<Rightarrow> timestamp \<Rightarrow>
     'j scheduler \<times> (sched_exn + unit)" where
  "enqueue_step we s st run_id plan_epoch now =
     (let e = enqueue_begin st run_id plan_epoch now in
      case sched_write we s ''scheduler.enqueue'' (enqueue_event e) of
        None \<Rightarrow> (s, Inl JournalError)
      | Some s1 \<Rightarrow> (enqueue_commit s1 e, Inr ()))"

section \<open>Leases\<close>

definition acquire_begin ::
  "'j scheduler \<Rightarrow> string \<Rightarrow> string \<Rightarrow> timestamp \<Rightarrow> string \<Rightarrow> string \<Rightarrow>
     ('j scheduler \<times> lease_grant) option" where
  "acquire_begin s step_id worker_id now lease_id attempt_id =
     (case dget (sd_queue s) step_id of
        None \<Rightarrow> None
      | Some entry \<Rightarrow>
          if dget (sd_step_to_lease s) step_id \<noteq> None then None
          else if int (length (sd_active_leases s)) \<ge> sd_max_concurrent s then None
          else if now < qe_next_retry_after entry then None
          else Some (s\<lparr>sd_fencing_counter := sd_fencing_counter s + 1\<rparr>,
            \<lparr>lg_lease_id = lease_id, lg_attempt_id = attempt_id, lg_step_id = step_id,
             lg_run_id = qe_run_id entry, lg_fencing_token = sd_fencing_counter s + 1,
             lg_granted_at = now, lg_expires_at = tadd now (sd_default_lease_seconds s),
             lg_worker_id = worker_id\<rparr>))"

definition acquire_event :: "lease_grant \<Rightarrow> pydict" where
  "acquire_event g = [(''lease_id'', PStr (lg_lease_id g)), (''attempt_id'', PStr (lg_attempt_id g)),
     (''step_id'', PStr (lg_step_id g)), (''run_id'', PStr (lg_run_id g)),
     (''fencing_token'', PInt (lg_fencing_token g)), (''worker_id'', PStr (lg_worker_id g)),
     (''expires_at'', PFloat (Fin (lg_expires_at g)))]"

definition heap_push :: "(timestamp \<times> string) list \<Rightarrow> timestamp \<times> string \<Rightarrow> (timestamp \<times> string) list" where
  "heap_push h x = insort x h"

definition acquire_commit :: "'j scheduler \<Rightarrow> lease_grant \<Rightarrow> 'j scheduler" where
  "acquire_commit s g =
     s\<lparr>sd_active_leases := dset (sd_active_leases s) (lg_lease_id g) g,
       sd_step_to_lease := dset (sd_step_to_lease s) (lg_step_id g) (lg_lease_id g),
       sd_expiry_heap := heap_push (sd_expiry_heap s) (lg_expires_at g, lg_lease_id g)\<rparr>"

definition acquire_lease ::
  "'j write_event \<Rightarrow> 'j scheduler \<Rightarrow> string \<Rightarrow> string \<Rightarrow> timestamp \<Rightarrow> string \<Rightarrow> string \<Rightarrow>
     'j scheduler \<times> (sched_exn + lease_grant option)" where
  "acquire_lease we s step_id worker_id now lease_id attempt_id =
     (case acquire_begin s step_id worker_id now lease_id attempt_id of
        None \<Rightarrow> (s, Inr None)
      | Some (s1, g) \<Rightarrow>
          (case sched_write we s1 ''scheduler.lease_acquired'' (acquire_event g) of
             None \<Rightarrow> (s1, Inl JournalError)
           | Some s2 \<Rightarrow> (acquire_commit s2 g, Inr (Some g))))"

definition renew_begin :: "'j scheduler \<Rightarrow> string \<Rightarrow> timestamp \<Rightarrow> ('j scheduler \<times> timestamp) option" where
  "renew_begin s lease_id now =
     (case dget (sd_active_leases s) lease_id of
        None \<Rightarrow> None
      | Some g \<Rightarrow>
          if now > lg_expires_at g then None
          else let new_expires = tadd now (sd_default_lease_seconds s)
               in Some (s\<lparr>sd_active_leases := dset (sd_active_leases s) lease_id
                     (g\<lparr>lg_expires_at := new_expires\<rparr>)\<rparr>, new_expires))"

definition renew_commit :: "'j scheduler \<Rightarrow> string \<Rightarrow> timestamp \<Rightarrow> 'j scheduler" where
  "renew_commit s lease_id new_expires =
     s\<lparr>sd_expiry_heap := heap_push (sd_expiry_heap s) (new_expires, lease_id)\<rparr>"

definition renew_lease ::
  "'j write_event \<Rightarrow> 'j scheduler \<Rightarrow> string \<Rightarrow> timestamp \<Rightarrow> 'j scheduler \<times> (sched_exn + bool)" where
  "renew_lease we s lease_id now =
     (case renew_begin s lease_id now of
        None \<Rightarrow> (s, Inr False)
      | Some (s1, new_expires) \<Rightarrow>
          (case sched_write we s1 ''scheduler.lease_renewed''
              [(''lease_id'', PStr lease_id), (''new_expires_at'', PFloat (Fin new_expires))] of
             None \<Rightarrow> (s1, Inl JournalError)
           | Some s2 \<Rightarrow> (renew_commit s2 lease_id new_expires, Inr True)))"

section \<open>Failures and dead letters\<close>

definition dead_letter_begin ::
  "'j scheduler \<Rightarrow> string \<Rightarrow> string \<Rightarrow> timestamp \<Rightarrow> 'j scheduler \<times> dead_letter_entry" where
  "dead_letter_begin s step_id reason now =
     (let run_id = (case dget (sd_queue s) step_id of Some e \<Rightarrow> qe_run_id e | None \<Rightarrow> []);
          dl = \<lparr>dl_step_id = step_id, dl_run_id = run_id, dl_reason = reason, dl_moved_at = now\<rparr>
      in (s\<lparr>sd_queue := dpop (sd_queue s) step_id,
            sd_step_to_lease := dpop (sd_step_to_lease s) step_id,
            sd_dead_letters := dset (sd_dead_letters s) step_id dl\<rparr>, dl))"

definition dead_letter_event :: "dead_letter_entry \<Rightarrow> pydict" where
  "dead_letter_event dl = [(''step_id'', PStr (dl_step_id dl)), (''run_id'', PStr (dl_run_id dl)),
     (''reason'', PStr (dl_reason dl))]"

definition mark_dead_letter ::
  "'j write_event \<Rightarrow> 'j scheduler \<Rightarrow> string \<Rightarrow> string \<Rightarrow> timestamp \<Rightarrow> 'j scheduler \<times> (sched_exn + unit)" where
  "mark_dead_letter we s step_id reason now =
     (case dead_letter_begin s step_id reason now of (s1, dl) \<Rightarrow>
        case sched_write we s1 ''scheduler.dead_letter'' (dead_letter_event dl) of
          None \<Rightarrow> (s1, Inl JournalError)
        | Some s2 \<Rightarrow> (s2, Inr ()))"

text \<open>
  What follows a failed attempt in \<open>release_lease\<close> and \<open>check_expired_leases\<close>: count it, then move
  the step to the dead letters or set its exponential backoff with jitter. \<open>u\<close> is the sample of
  \<open>random.uniform(0, 1)\<close>.
\<close>

definition backoff_delay :: "queue_entry \<Rightarrow> timestamp \<Rightarrow> timestamp" where
  "backoff_delay e u = tadd (round64 (qe_backoff_base e * 2 ^ nat (qe_retry_count e)))
     (round64 (u * qe_backoff_base e))"

definition retry_or_bury ::
  "'j write_event \<Rightarrow> 'j scheduler \<Rightarrow> string \<Rightarrow> string \<Rightarrow> timestamp \<Rightarrow> timestamp \<Rightarrow>
     'j scheduler \<times> (sched_exn + unit)" where
  "retry_or_bury we s step_id reason now u =
     (case dget (sd_queue s) step_id of
        None \<Rightarrow> (s, Inr ())
      | Some e \<Rightarrow>
          let e1 = e\<lparr>qe_retry_count := qe_retry_count e + 1\<rparr>;
              s1 = s\<lparr>sd_queue := dset (sd_queue s) step_id e1\<rparr>
          in if qe_retry_count e1 \<ge> qe_max_retries e1
             then mark_dead_letter we s1 step_id reason now
             else (s\<lparr>sd_queue := dset (sd_queue s) step_id
                      (e1\<lparr>qe_next_retry_after := tadd now (backoff_delay e1 u)\<rparr>)\<rparr>, Inr ()))"

definition release_begin :: "'j scheduler \<Rightarrow> string \<Rightarrow> ('j scheduler \<times> lease_grant) option" where
  "release_begin s lease_id =
     (case dget (sd_active_leases s) lease_id of
        None \<Rightarrow> None
      | Some g \<Rightarrow>
          Some (s\<lparr>sd_active_leases := dpop (sd_active_leases s) lease_id,
                  sd_step_to_lease := dpop (sd_step_to_lease s) (lg_step_id g)\<rparr>, g))"

definition release_success :: "'j scheduler \<Rightarrow> lease_grant \<Rightarrow> 'j scheduler" where
  "release_success s g = s\<lparr>sd_queue := dpop (sd_queue s) (lg_step_id g),
     sd_total_completed := sd_total_completed s + 1\<rparr>"

definition release_lease ::
  "'j write_event \<Rightarrow> 'j scheduler \<Rightarrow> string \<Rightarrow> bool \<Rightarrow> timestamp \<Rightarrow> timestamp \<Rightarrow>
     'j scheduler \<times> (sched_exn + unit)" where
  "release_lease we s lease_id success now u =
     (case release_begin s lease_id of
        None \<Rightarrow> (s, Inr ())
      | Some (s1, g) \<Rightarrow>
          (case sched_write we s1 ''scheduler.lease_released''
              [(''lease_id'', PStr lease_id), (''step_id'', PStr (lg_step_id g)),
               (''success'', PBool success)] of
             None \<Rightarrow> (s1, Inl JournalError)
           | Some s2 \<Rightarrow>
               if success then (release_success s2 g, Inr ())
               else (case retry_or_bury we s2 (lg_step_id g) ''max_retries_exceeded'' now u of
                       (s3, Inl e) \<Rightarrow> (s3, Inl e)
                     | (s3, Inr _) \<Rightarrow> (s3\<lparr>sd_total_failed := sd_total_failed s3 + 1\<rparr>, Inr ()))))"

section \<open>Expiry\<close>

text \<open>
  The loop of \<open>check_expired_leases\<close> over the sorted heap. \<open>later\<close> and \<open>u\<close> give the clock and the
  random sample at the moment a lease is handled. The heap list is the recursion argument: it is
  written back before the first \<open>await\<close> of each round.
\<close>

fun expire_loop ::
  "'j write_event \<Rightarrow> timestamp \<Rightarrow> (string \<Rightarrow> timestamp) \<Rightarrow> (string \<Rightarrow> timestamp) \<Rightarrow>
     (timestamp \<times> string) list \<Rightarrow> 'j scheduler \<Rightarrow> lease_grant list \<Rightarrow>
     'j scheduler \<times> (sched_exn + lease_grant list)" where
  "expire_loop we now later u [] s expired = (s\<lparr>sd_expiry_heap := []\<rparr>, Inr expired)"
| "expire_loop we now later u ((t, lease_id) # h) s expired =
     (if \<not> t \<le> now then (s\<lparr>sd_expiry_heap := (t, lease_id) # h\<rparr>, Inr expired)
      else case dget (sd_active_leases s) lease_id of
        None \<Rightarrow> expire_loop we now later u h s expired
      | Some g \<Rightarrow>
          if lg_expires_at g > now then expire_loop we now later u h s expired
          else
            let s1 = s\<lparr>sd_active_leases := dpop (sd_active_leases s) lease_id,
                       sd_step_to_lease := dpop (sd_step_to_lease s) (lg_step_id g),
                       sd_expiry_heap := h\<rparr>
            in case sched_write we s1 ''scheduler.lease_expired''
                   [(''lease_id'', PStr lease_id), (''step_id'', PStr (lg_step_id g)),
                    (''worker_id'', PStr (lg_worker_id g))] of
                 None \<Rightarrow> (s1, Inl JournalError)
               | Some s2 \<Rightarrow>
                   (case retry_or_bury we s2 (lg_step_id g) ''lease_expired_max_retries''
                       (later lease_id) (u lease_id) of
                      (s3, Inl e) \<Rightarrow> (s3, Inl e)
                    | (s3, Inr _) \<Rightarrow> expire_loop we now later u h s3 (expired @ [g])))"

definition check_expired_leases ::
  "'j write_event \<Rightarrow> 'j scheduler \<Rightarrow> timestamp \<Rightarrow> (string \<Rightarrow> timestamp) \<Rightarrow> (string \<Rightarrow> timestamp) \<Rightarrow>
     'j scheduler \<times> (sched_exn + lease_grant list)" where
  "check_expired_leases we s now later u = expire_loop we now later u (sd_expiry_heap s) s []"

section \<open>Ready steps and statistics\<close>

text \<open>\<open>list.sort\<close> is stable and uses only \<open>__lt__\<close>: insertion after every element not greater.\<close>

fun insert_ready :: "queue_entry \<Rightarrow> queue_entry list \<Rightarrow> queue_entry list" where
  "insert_ready x [] = [x]"
| "insert_ready x (y # ys) = (if queue_entry_lt y x then y # insert_ready x ys else x # y # ys)"

definition sort_ready :: "queue_entry list \<Rightarrow> queue_entry list" where
  "sort_ready xs = foldr insert_ready xs []"

definition scheduler_ready_steps :: "'j scheduler \<Rightarrow> timestamp \<Rightarrow> queue_entry list" where
  "scheduler_ready_steps s now =
     sort_ready (filter (\<lambda>e. dget (sd_step_to_lease s) (qe_step_id e) = None \<and>
       dget (sd_dead_letters s) (qe_step_id e) = None \<and> now \<ge> qe_next_retry_after e)
       (dvals (sd_queue s)))"

definition get_stats :: "'j scheduler \<Rightarrow> scheduler_stats" where
  "get_stats s = \<lparr>ss_queued = length (sd_queue s), ss_active_leases = length (sd_active_leases s),
     ss_dead_letters = length (sd_dead_letters s), ss_total_completed = sd_total_completed s,
     ss_total_failed = sd_total_failed s\<rparr>"

section \<open>Histories of atomic operations\<close>

datatype sched_call =
    SEnqueue plan_step string int timestamp
  | SAcquire string string timestamp string string
  | SRenew string timestamp
  | SRelease string bool timestamp timestamp
  | SExpire timestamp "string \<Rightarrow> timestamp" "string \<Rightarrow> timestamp"
  | SDead string string timestamp

fun sched_step :: "'j write_event \<Rightarrow> 'j scheduler \<Rightarrow> sched_call \<Rightarrow> 'j scheduler" where
  "sched_step we s (SEnqueue st r pe now) = fst (enqueue_step we s st r pe now)"
| "sched_step we s (SAcquire st w now l a) = fst (acquire_lease we s st w now l a)"
| "sched_step we s (SRenew l now) = fst (renew_lease we s l now)"
| "sched_step we s (SRelease l b now u) = fst (release_lease we s l b now u)"
| "sched_step we s (SExpire now later u) = fst (check_expired_leases we s now later u)"
| "sched_step we s (SDead st r now) = fst (mark_dead_letter we s st r now)"

text \<open>
  The assumptions on a history: \<open>uuid4\<close> does not repeat the id of an active lease, and a step is
  moved to the dead letters from outside only while it is not leased.
\<close>

fun sched_call_ok :: "'j scheduler \<Rightarrow> sched_call \<Rightarrow> bool" where
  "sched_call_ok s (SAcquire st w now l a) = (dget (sd_active_leases s) l = None)"
| "sched_call_ok s (SDead st r now) = (dget (sd_step_to_lease s) st = None)"
| "sched_call_ok s _ = True"

inductive sched_reach :: "'j write_event \<Rightarrow> 'j scheduler \<Rightarrow> bool" for we where
  init: "sched_reach we (scheduler_init j n d)"
| step: "sched_reach we s \<Longrightarrow> sched_call_ok s c \<Longrightarrow> sched_reach we (sched_step we s c)"

section \<open>The lease invariant\<close>

text \<open>
  Active leases and the map from steps to leases are inverse to each other, tokens are positive,
  bounded by the counter and pairwise different, and the concurrency limit holds.
\<close>

definition lease_inv :: "'j scheduler \<Rightarrow> bool" where
  "lease_inv s \<longleftrightarrow> dict_ok (sd_active_leases s) \<and> dict_ok (sd_step_to_lease s) \<and>
     (\<forall>l g. dget (sd_active_leases s) l = Some g \<longrightarrow> lg_lease_id g = l \<and> 0 < lg_fencing_token g \<and>
        lg_fencing_token g \<le> sd_fencing_counter s \<and> dget (sd_step_to_lease s) (lg_step_id g) = Some l) \<and>
     (\<forall>st l. dget (sd_step_to_lease s) st = Some l \<longrightarrow>
        (\<exists>g. dget (sd_active_leases s) l = Some g \<and> lg_step_id g = st)) \<and>
     (\<forall>l g l' g'. dget (sd_active_leases s) l = Some g \<longrightarrow> dget (sd_active_leases s) l' = Some g' \<longrightarrow>
        lg_fencing_token g = lg_fencing_token g' \<longrightarrow> l = l') \<and>
     int (length (sd_active_leases s)) \<le> max 0 (sd_max_concurrent s) \<and> 0 \<le> sd_fencing_counter s"

lemma lease_inv_cong:
  assumes "sd_active_leases t = sd_active_leases s" "sd_step_to_lease t = sd_step_to_lease s"
    "sd_fencing_counter t = sd_fencing_counter s" "sd_max_concurrent t = sd_max_concurrent s"
  shows "lease_inv t = lease_inv s"
  using assms by (simp add: lease_inv_def)

lemma sched_write_keeps:
  "sched_write we s ev p = Some t \<Longrightarrow> \<exists>j. t = s\<lparr>sd_journal := j\<rparr>"
  by (auto simp: sched_write_def)

lemma lease_inv_write: "sched_write we s ev p = Some t \<Longrightarrow> lease_inv t = lease_inv s"
  using lease_inv_cong [of t s] by (auto dest!: sched_write_keeps)

lemma lease_inv_queue [simp]:
  "lease_inv (s\<lparr>sd_queue := q\<rparr>) = lease_inv s"
  "lease_inv (s\<lparr>sd_total_failed := n\<rparr>) = lease_inv s"
  "lease_inv (s\<lparr>sd_expiry_heap := h\<rparr>) = lease_inv s"
  by (rule lease_inv_cong; simp)+

lemma lease_inv_active:
  assumes "lease_inv s" and "dget (sd_active_leases s) l = Some g"
  shows "lg_lease_id g = l" and "0 < lg_fencing_token g" and "lg_fencing_token g \<le> sd_fencing_counter s"
    and "dget (sd_step_to_lease s) (lg_step_id g) = Some l"
  using assms by (auto simp: lease_inv_def)

lemma lease_inv_mapped:
  assumes "lease_inv s" and "dget (sd_step_to_lease s) st = Some l"
  shows "\<exists>g. dget (sd_active_leases s) l = Some g \<and> lg_step_id g = st"
  using assms by (simp add: lease_inv_def)

lemma lease_inv_token:
  assumes "lease_inv s" and "dget (sd_active_leases s) l = Some g"
    and "dget (sd_active_leases s) l' = Some g'" and "lg_fencing_token g = lg_fencing_token g'"
  shows "l = l'"
  using assms unfolding lease_inv_def by blast

lemma lease_invI:
  assumes "dict_ok (sd_active_leases s)" and "dict_ok (sd_step_to_lease s)"
    and "\<And>l g. dget (sd_active_leases s) l = Some g \<Longrightarrow> lg_lease_id g = l \<and> 0 < lg_fencing_token g \<and>
        lg_fencing_token g \<le> sd_fencing_counter s \<and> dget (sd_step_to_lease s) (lg_step_id g) = Some l"
    and "\<And>st l. dget (sd_step_to_lease s) st = Some l \<Longrightarrow>
        \<exists>g. dget (sd_active_leases s) l = Some g \<and> lg_step_id g = st"
    and "\<And>l g l' g'. dget (sd_active_leases s) l = Some g \<Longrightarrow> dget (sd_active_leases s) l' = Some g' \<Longrightarrow>
        lg_fencing_token g = lg_fencing_token g' \<Longrightarrow> l = l'"
    and "int (length (sd_active_leases s)) \<le> max 0 (sd_max_concurrent s)" and "0 \<le> sd_fencing_counter s"
  shows "lease_inv s"
  using assms unfolding lease_inv_def by blast

lemma lease_inv_base:
  assumes "lease_inv s"
  shows "dict_ok (sd_active_leases s)" and "dict_ok (sd_step_to_lease s)"
    and "int (length (sd_active_leases s)) \<le> max 0 (sd_max_concurrent s)" and "0 \<le> sd_fencing_counter s"
  using assms by (simp_all add: lease_inv_def)

lemma lease_inv_drop:
  assumes inv: "lease_inv s" and g: "dget (sd_active_leases s) l = Some g"
  shows "lease_inv (s\<lparr>sd_active_leases := dpop (sd_active_leases s) l,
    sd_step_to_lease := dpop (sd_step_to_lease s) (lg_step_id g)\<rparr>)"
proof -
  from inv have len: "int (length (dpop (sd_active_leases s) l)) \<le> max 0 (sd_max_concurrent s)"
    using length_dpop [of "sd_active_leases s" l] by (simp add: lease_inv_def)
  have link: "dget (sd_step_to_lease s) (lg_step_id g) = Some l" using inv g by (simp add: lease_inv_def)
  have other: "lg_step_id h \<noteq> lg_step_id g" if "dget (sd_active_leases s) k = Some h" and "k \<noteq> l" for k h
    using lease_inv_active(4) [OF inv that(1)] link that(2) by auto
  show ?thesis
  proof (rule lease_invI)
    fix k h
    assume "dget (sd_active_leases (s\<lparr>sd_active_leases := dpop (sd_active_leases s) l,
      sd_step_to_lease := dpop (sd_step_to_lease s) (lg_step_id g)\<rparr>)) k = Some h"
    then show "lg_lease_id h = k \<and> 0 < lg_fencing_token h \<and> lg_fencing_token h \<le>
        sd_fencing_counter (s\<lparr>sd_active_leases := dpop (sd_active_leases s) l,
          sd_step_to_lease := dpop (sd_step_to_lease s) (lg_step_id g)\<rparr>) \<and>
      dget (sd_step_to_lease (s\<lparr>sd_active_leases := dpop (sd_active_leases s) l,
        sd_step_to_lease := dpop (sd_step_to_lease s) (lg_step_id g)\<rparr>)) (lg_step_id h) = Some k"
      using lease_inv_active [OF inv, of k h] other [of k h] by (auto split: if_splits)
  next
    fix st k
    assume "dget (sd_step_to_lease (s\<lparr>sd_active_leases := dpop (sd_active_leases s) l,
      sd_step_to_lease := dpop (sd_step_to_lease s) (lg_step_id g)\<rparr>)) st = Some k"
    then show "\<exists>h. dget (sd_active_leases (s\<lparr>sd_active_leases := dpop (sd_active_leases s) l,
      sd_step_to_lease := dpop (sd_step_to_lease s) (lg_step_id g)\<rparr>)) k = Some h \<and> lg_step_id h = st"
      using lease_inv_mapped [OF inv, of st k] g by (auto split: if_splits)
  qed (use len lease_inv_base [OF inv] lease_inv_token [OF inv] in \<open>auto split: if_splits\<close>)
qed

lemma lease_inv_counter:
  assumes "lease_inv s" shows "lease_inv (s\<lparr>sd_fencing_counter := sd_fencing_counter s + 1\<rparr>)"
  by (rule lease_invI)
    (use lease_inv_base [OF assms] lease_inv_active [OF assms] lease_inv_mapped [OF assms]
      lease_inv_token [OF assms] in \<open>simp_all add: order.trans [OF _ order_less_imp_le]
        add_increasing2\<close>)

lemma lease_inv_acquire:
  assumes inv: "lease_inv s" and fresh: "dget (sd_active_leases s) (lg_lease_id g) = None"
    and free: "dget (sd_step_to_lease s) (lg_step_id g) = None"
    and room: "int (length (sd_active_leases s)) < sd_max_concurrent s"
    and tok: "lg_fencing_token g = sd_fencing_counter s"
    and new: "\<And>l h. dget (sd_active_leases s) l = Some h \<Longrightarrow> lg_fencing_token h < sd_fencing_counter s"
    and pos: "0 < sd_fencing_counter s"
  shows "lease_inv (acquire_commit s g)"
proof -
  let ?t = "acquire_commit s g"
  have act: "dget (sd_active_leases ?t) l = (if l = lg_lease_id g then Some g else dget (sd_active_leases s) l)"
    and map: "dget (sd_step_to_lease ?t) st =
      (if st = lg_step_id g then Some (lg_lease_id g) else dget (sd_step_to_lease s) st)"
    and cnt: "sd_fencing_counter ?t = sd_fencing_counter s" "sd_max_concurrent ?t = sd_max_concurrent s"
    for l st by (simp_all add: acquire_commit_def)
  have old: "dget (sd_active_leases s) l = Some h \<Longrightarrow> lg_step_id h \<noteq> lg_step_id g" for l h
    using lease_inv_active(4) [OF inv, of l h] free by auto
  have tokens: "l = l'"
    if "dget (sd_active_leases ?t) l = Some h" "dget (sd_active_leases ?t) l' = Some h'"
      "lg_fencing_token h = lg_fencing_token h'" for l h l' h'
  proof (cases "l = lg_lease_id g \<or> l' = lg_lease_id g")
    case True
    with that tok new [of l h] new [of l' h'] show ?thesis by (auto simp: act split: if_splits)
  next
    case False
    with that show ?thesis by (simp add: act lease_inv_token [OF inv])
  qed
  show ?thesis
  proof (rule lease_invI)
    show "dict_ok (sd_active_leases ?t)" "dict_ok (sd_step_to_lease ?t)"
      using lease_inv_base [OF inv] by (simp_all add: acquire_commit_def)
    show "lg_lease_id h = l \<and> 0 < lg_fencing_token h \<and> lg_fencing_token h \<le> sd_fencing_counter ?t \<and>
        dget (sd_step_to_lease ?t) (lg_step_id h) = Some l"
      if "dget (sd_active_leases ?t) l = Some h" for l h
    proof (cases "l = lg_lease_id g")
      case True
      with that have "h = g" by (simp add: act)
      with True tok pos show ?thesis by (simp add: map cnt)
    next
      case False
      with that have "dget (sd_active_leases s) l = Some h" by (simp add: act)
      from lease_inv_active [OF inv this] old [OF this] show ?thesis by (simp add: map cnt)
    qed
    show "\<exists>h. dget (sd_active_leases ?t) l = Some h \<and> lg_step_id h = st"
      if "dget (sd_step_to_lease ?t) st = Some l" for st l
      using that fresh lease_inv_mapped [OF inv, of st l]
      by (cases "st = lg_step_id g") (auto simp: act map)
    show "int (length (sd_active_leases ?t)) \<le> max 0 (sd_max_concurrent ?t)" "0 \<le> sd_fencing_counter ?t"
      using room fresh pos by (simp_all add: acquire_commit_def length_dset)
  qed (rule tokens)
qed

lemma lease_inv_expires:
  assumes inv: "lease_inv s" and g: "dget (sd_active_leases s) l = Some g"
  shows "lease_inv (s\<lparr>sd_active_leases := dset (sd_active_leases s) l (g\<lparr>lg_expires_at := t\<rparr>)\<rparr>)"
proof -
  have "length (dset (sd_active_leases s) l (g\<lparr>lg_expires_at := t\<rparr>)) = length (sd_active_leases s)"
    using g by (simp add: length_dset)
  then show ?thesis
    by (intro lease_invI)
      (use lease_inv_base [OF inv] lease_inv_active [OF inv] lease_inv_mapped [OF inv]
        lease_inv_token [OF inv] g in \<open>auto split: if_splits dest!: lease_inv_mapped [OF inv]\<close>)
qed

lemma lease_inv_bury:
  assumes "lease_inv s" and "dget (sd_step_to_lease s) st = None"
  shows "lease_inv (fst (mark_dead_letter we s st r now))"
proof -
  have "lease_inv (fst (dead_letter_begin s st r now))"
    using assms by (simp add: dead_letter_begin_def Let_def dpop_absent)
      (subst lease_inv_cong [of _ s]; simp)
  then show ?thesis
    by (auto simp: mark_dead_letter_def lease_inv_write split: prod.split option.split)
qed

lemma lease_inv_retry:
  assumes "lease_inv s" and "dget (sd_step_to_lease s) st = None"
  shows "lease_inv (fst (retry_or_bury we s st r now u))"
  using assms lease_inv_bury [of "s\<lparr>sd_queue := _\<rparr>" st we r now]
  by (simp add: retry_or_bury_def Let_def split: option.split)

lemma lease_inv_release:
  assumes "lease_inv s" shows "lease_inv (fst (release_lease we s l b now u))"
proof (cases "dget (sd_active_leases s) l")
  case None
  with assms show ?thesis by (simp add: release_lease_def release_begin_def)
next
  case (Some g)
  define s1 where "s1 = s\<lparr>sd_active_leases := dpop (sd_active_leases s) l,
    sd_step_to_lease := dpop (sd_step_to_lease s) (lg_step_id g)\<rparr>"
  have b: "release_begin s l = Some (s1, g)" using Some by (simp add: release_begin_def s1_def)
  have inv1: "lease_inv s1" unfolding s1_def by (rule lease_inv_drop [OF assms Some])
  show ?thesis
  proof (cases "sched_write we s1 ''scheduler.lease_released''
      [(''lease_id'', PStr l), (''step_id'', PStr (lg_step_id g)), (''success'', PBool b)]")
    case None
    with b inv1 show ?thesis by (simp add: release_lease_def)
  next
    case (Some s2)
    from Some inv1 have inv2: "lease_inv s2" by (simp add: lease_inv_write)
    have free: "dget (sd_step_to_lease s2) (lg_step_id g) = None"
      using sched_write_keeps [OF Some] by (auto simp: s1_def)
    have "lease_inv (release_success s2 g)"
      using inv2 lease_inv_cong [of "release_success s2 g" s2] by (simp add: release_success_def)
    moreover note lease_inv_retry [OF inv2 free, of we "''max_retries_exceeded''" now u]
    ultimately show ?thesis using b Some
      by (auto simp: release_lease_def split: prod.split sum.split)
  qed
qed

lemma lease_inv_expire_loop:
  "lease_inv s \<Longrightarrow> lease_inv (fst (expire_loop we now later u h s expired))"
proof (induction we now later u h s expired rule: expire_loop.induct)
  case (2 we now later u t l h s expired)
  show ?case
  proof (cases "t \<le> now \<and> (\<exists>g. dget (sd_active_leases s) l = Some g \<and> \<not> lg_expires_at g > now)")
    case False
    with 2 show ?thesis by (auto split: option.split)
  next
    case True
    then obtain g where t: "t \<le> now" and g: "dget (sd_active_leases s) l = Some g"
      and ex: "\<not> lg_expires_at g > now" by auto
    define s1 where "s1 = s\<lparr>sd_active_leases := dpop (sd_active_leases s) l,
      sd_step_to_lease := dpop (sd_step_to_lease s) (lg_step_id g), sd_expiry_heap := h\<rparr>"
    have inv1: "lease_inv s1"
      using lease_inv_drop [OF "2.prems" g] lease_inv_cong [of s1
        "s\<lparr>sd_active_leases := dpop (sd_active_leases s) l,
           sd_step_to_lease := dpop (sd_step_to_lease s) (lg_step_id g)\<rparr>"] by (simp add: s1_def)
    show ?thesis
    proof (cases "sched_write we s1 ''scheduler.lease_expired''
        [(''lease_id'', PStr l), (''step_id'', PStr (lg_step_id g)), (''worker_id'', PStr (lg_worker_id g))]")
      case None
      with t g ex inv1 show ?thesis by (simp add: Let_def s1_def [symmetric])
    next
      case (Some s2)
      from Some inv1 have inv2: "lease_inv s2" by (simp add: lease_inv_write)
      have free: "dget (sd_step_to_lease s2) (lg_step_id g) = None"
        using sched_write_keeps [OF Some] by (auto simp: s1_def)
      obtain s3 r where r: "retry_or_bury we s2 (lg_step_id g) ''lease_expired_max_retries'' (later l) (u l) = (s3, r)"
        by fastforce
      with lease_inv_retry [OF inv2 free, of we "''lease_expired_max_retries''" "later l" "u l"]
      have inv3: "lease_inv s3" by simp
      with "2.IH"(3) [of g s1 s2] t g ex Some r show ?thesis
        by (cases r) (auto simp: Let_def s1_def [symmetric])
    qed
  qed
qed simp

lemma lease_inv_init: "lease_inv (scheduler_init j n d)"
  by (simp add: lease_inv_def scheduler_init_def)

lemma lease_inv_step:
  assumes "lease_inv s" and "sched_call_ok s c"
  shows "lease_inv (sched_step we s c)"
proof (cases c)
  case (SAcquire st w now l a)
  show ?thesis
  proof (cases "acquire_begin s st w now l a")
    case (Some sg)
    then obtain s1 g where b: "acquire_begin s st w now l a = Some (s1, g)" by (cases sg) auto
    then have s1: "s1 = s\<lparr>sd_fencing_counter := sd_fencing_counter s + 1\<rparr>"
      and g: "lg_lease_id g = l" "lg_step_id g = st" "lg_fencing_token g = sd_fencing_counter s + 1"
      and free: "dget (sd_step_to_lease s) st = None"
      and room: "int (length (sd_active_leases s)) < sd_max_concurrent s"
      by (auto simp: acquire_begin_def split: option.splits if_splits)
    have inv1: "lease_inv s1" using lease_inv_counter [OF assms(1)] s1 by simp
    show ?thesis
    proof (cases "sched_write we s1 ''scheduler.lease_acquired'' (acquire_event g)")
      case None
      with b inv1 SAcquire show ?thesis by (simp add: acquire_lease_def)
    next
      case (Some s2)
      then obtain j where s2: "s2 = s1\<lparr>sd_journal := j\<rparr>" using sched_write_keeps by blast
      have "lease_inv (acquire_commit s2 g)"
      proof (rule lease_inv_acquire)
        show "lease_inv s2" using Some inv1 by (simp add: lease_inv_write)
        show "lg_fencing_token h < sd_fencing_counter s2"
          if "dget (sd_active_leases s2) k = Some h" for k h
          using that lease_inv_active(3) [OF assms(1), of k h] by (simp add: s2 s1)
      qed (use assms SAcquire g free room lease_inv_base(4) [OF assms(1)] in \<open>simp_all add: s2 s1\<close>)
      with b Some SAcquire show ?thesis by (simp add: acquire_lease_def)
    qed
  qed (use assms SAcquire in \<open>simp add: acquire_lease_def\<close>)
next
  case (SRenew l now)
  show ?thesis
  proof (cases "renew_begin s l now")
    case (Some se)
    then obtain s1 e where b: "renew_begin s l now = Some (s1, e)" by (cases se) auto
    then have "lease_inv s1"
      using assms(1) by (auto simp: renew_begin_def Let_def intro!: lease_inv_expires
          split: option.splits if_splits)
    then show ?thesis using SRenew b
      by (auto simp: renew_lease_def renew_commit_def lease_inv_write split: option.split)
  qed (use assms SRenew in \<open>simp add: renew_lease_def\<close>)
next
  case (SEnqueue st r pe now)
  with assms(1) show ?thesis
    by (auto simp: enqueue_step_def enqueue_commit_def Let_def lease_inv_write split: option.split)
next
  case (SDead st r now)
  with assms show ?thesis by (simp add: lease_inv_bury)
qed (use assms(1) in \<open>simp_all add: lease_inv_release check_expired_leases_def lease_inv_expire_loop\<close>)

lemma sched_reach_inv: "sched_reach we s \<Longrightarrow> lease_inv s"
  by (induction rule: sched_reach.induct) (simp_all add: lease_inv_init lease_inv_step)

section \<open>Expiry\<close>

text \<open>Every active lease has its current expiry in the heap.\<close>

definition heap_covers :: "(timestamp \<times> string) list \<Rightarrow> 'j scheduler \<Rightarrow> bool" where
  "heap_covers h s \<longleftrightarrow> sorted h \<and>
     (\<forall>l g. dget (sd_active_leases s) l = Some g \<longrightarrow> (lg_expires_at g, l) \<in> set h)"

abbreviation heap_inv :: "'j scheduler \<Rightarrow> bool" where
  "heap_inv s \<equiv> heap_covers (sd_expiry_heap s) s"

lemma retry_or_bury_keeps:
  "sd_active_leases (fst (retry_or_bury we s st r now u)) = sd_active_leases s"
  "sd_expiry_heap (fst (retry_or_bury we s st r now u)) = sd_expiry_heap s"
  by (auto simp: retry_or_bury_def mark_dead_letter_def dead_letter_begin_def Let_def sched_write_def
      split: option.split prod.split)

lemma heap_covers_cong:
  "sd_active_leases s = sd_active_leases t \<Longrightarrow> heap_covers h s = heap_covers h t"
  by (simp add: heap_covers_def)

lemma heap_covers_heap [simp]: "heap_covers h (s\<lparr>sd_expiry_heap := h'\<rparr>) = heap_covers h s"
  by (rule heap_covers_cong) simp

lemma heap_covers_skip:
  assumes "heap_covers ((t, l) # h) s" and "t \<le> now"
    and "dget (sd_active_leases s) l = None \<or>
      (\<exists>g. dget (sd_active_leases s) l = Some g \<and> lg_expires_at g > now)"
  shows "heap_covers h s"
  using assms by (fastforce simp: heap_covers_def)

lemma heap_covers_pop:
  assumes "heap_covers ((t, l) # h) s" and "sd_active_leases s1 = dpop (sd_active_leases s) l"
  shows "heap_covers h s1"
  using assms by (fastforce simp: heap_covers_def split: if_splits)

definition unexpired :: "timestamp \<Rightarrow> lease_grant option \<Rightarrow> lease_grant option" where
  "unexpired now go = (case go of None \<Rightarrow> None | Some g \<Rightarrow> if lg_expires_at g > now then Some g else None)"

definition expired_leases :: "'j scheduler \<Rightarrow> timestamp \<Rightarrow> lease_grant set" where
  "expired_leases s now =
     {g. \<exists>l. dget (sd_active_leases s) l = Some g \<and> lg_expires_at g \<le> now}"

lemma expired_leases_pop:
  assumes "dget (sd_active_leases s) l = Some g" and "lg_expires_at g \<le> now"
    and "sd_active_leases s1 = dpop (sd_active_leases s) l"
  shows "insert g (expired_leases s1 now) = expired_leases s now"
proof (rule set_eqI)
  fix h
  have "(\<exists>k. dget (sd_active_leases s1) k = Some h) \<or> h = g \<longleftrightarrow>
      (\<exists>k. dget (sd_active_leases s) k = Some h)"
    unfolding assms(3) dict_rules using assms(1) by (metis option.distinct(1) option.inject)
  with assms(2) show "h \<in> insert g (expired_leases s1 now) \<longleftrightarrow> h \<in> expired_leases s now"
    by (auto simp: expired_leases_def)
qed

lemma heap_covers_done:
  assumes "heap_covers h s" and "\<forall>(t, l) \<in> set h. t > now"
  shows "expired_leases s now = {}" and "unexpired now (dget (sd_active_leases s) l) = dget (sd_active_leases s) l"
proof -
  have live: "\<not> lg_expires_at g \<le> now" if "dget (sd_active_leases s) k = Some g" for k g
  proof -
    from assms(1) that have "(lg_expires_at g, k) \<in> set h" by (simp add: heap_covers_def)
    with assms(2) have "lg_expires_at g > now" by blast
    then show ?thesis by simp
  qed
  show "expired_leases s now = {}"
    unfolding expired_leases_def using live by blast
  show "unexpired now (dget (sd_active_leases s) l) = dget (sd_active_leases s) l"
    using live [of l] by (cases "dget (sd_active_leases s) l") (simp_all add: unexpired_def not_le)
qed

lemma expire_loop_spec:
  assumes "heap_covers h s" and "expire_loop we now later u h s expired = (s', r)"
  shows "heap_inv s' \<and> (\<forall>out. r = Inr out \<longrightarrow>
    set out = set expired \<union> expired_leases s now \<and>
    (\<forall>l. dget (sd_active_leases s') l = unexpired now (dget (sd_active_leases s) l)))"
  using assms
proof (induction we now later u h s expired arbitrary: s' r rule: expire_loop.induct)
  case (1 we now later u s expired)
  then show ?case using heap_covers_done [of "[]" s now] by auto
next
  case (2 we now later u t l h s expired)
  consider (stop) "\<not> t \<le> now"
    | (skip) "t \<le> now" "dget (sd_active_leases s) l = None \<or>
        (\<exists>g. dget (sd_active_leases s) l = Some g \<and> lg_expires_at g > now)"
    | (pop) g where "t \<le> now" "dget (sd_active_leases s) l = Some g" "\<not> lg_expires_at g > now"
    by fastforce
  then show ?case
  proof cases
    case stop
    moreover have "\<forall>(t', l') \<in> set ((t, l) # h). t' > now"
      using 2(4) stop by (force simp: heap_covers_def)
    ultimately show ?thesis using 2(4,5) heap_covers_done [OF 2(4)] by auto
  next
    case skip
    have cov: "heap_covers h s" by (rule heap_covers_skip [OF 2(4) skip])
    have "expire_loop we now later u h s expired = (s', r)" using 2(5) skip by (auto split: option.splits)
    with 2(1,2) cov skip show ?thesis by (cases "dget (sd_active_leases s) l") auto
  next
    case (pop g)
    define s1 where "s1 = s\<lparr>sd_active_leases := dpop (sd_active_leases s) l,
      sd_step_to_lease := dpop (sd_step_to_lease s) (lg_step_id g), sd_expiry_heap := h\<rparr>"
    have cov1: "heap_covers h s1"
      by (rule heap_covers_pop [OF 2(4)]) (simp add: s1_def)
    show ?thesis
    proof (cases "sched_write we s1 ''scheduler.lease_expired''
        [(''lease_id'', PStr l), (''step_id'', PStr (lg_step_id g)), (''worker_id'', PStr (lg_worker_id g))]")
      case None
      with pop 2(5) have "s' = s1" "r = Inl JournalError" by (simp_all add: Let_def s1_def [symmetric])
      moreover have "sd_expiry_heap s1 = h" by (simp add: s1_def)
      ultimately show ?thesis using cov1 by simp
    next
      case (Some s2)
      obtain s3 q where q: "retry_or_bury we s2 (lg_step_id g) ''lease_expired_max_retries'' (later l) (u l) = (s3, q)"
        by fastforce
      have act: "sd_active_leases s3 = sd_active_leases s1" and heap: "sd_expiry_heap s3 = h"
        using retry_or_bury_keeps [of we s2 "lg_step_id g" "''lease_expired_max_retries''" "later l" "u l"]
          sched_write_keeps [OF Some] q by (auto simp: s1_def)
      have cov3: "heap_covers h s3" using cov1 act heap_covers_cong by metis
      show ?thesis
      proof (cases q)
        case (Inl e)
        with pop 2(5) Some q cov3 heap show ?thesis by (auto simp: Let_def s1_def [symmetric])
      next
        case (Inr x)
        with pop 2(5) Some q have loop: "expire_loop we now later u h s3 (expired @ [g]) = (s', r)"
          by (simp add: Let_def s1_def [symmetric])
        have ex: "insert g (expired_leases s3 now) = expired_leases s now"
          using pop act by (intro expired_leases_pop) (auto simp: s1_def)
        have "unexpired now (dget (sd_active_leases s3) k) = unexpired now (dget (sd_active_leases s) k)" for k
          using pop act by (auto simp: s1_def unexpired_def)
        with 2(3) [OF _ pop(2,3) s1_def Some _ _ cov3 loop] pop(1) q Inr ex show ?thesis
          by (auto simp flip: ex)
      qed
    qed
  qed
qed


lemma heap_covers_push:
  "heap_covers h s \<Longrightarrow> heap_covers (heap_push h x) s"
  by (auto simp: heap_covers_def heap_push_def sorted_insort set_insort_key)

lemma heap_inv_acquire:
  assumes "heap_inv s" shows "heap_inv (acquire_commit s g)"
  using assms by (auto simp: heap_covers_def acquire_commit_def heap_push_def sorted_insort set_insort_key
      split: if_splits)

lemma heap_inv_write: "sched_write we s ev p = Some t \<Longrightarrow> heap_inv t = heap_inv s"
  by (auto simp: heap_covers_def dest!: sched_write_keeps)

text \<open>The journal does not raise on a renewal.\<close>

definition renewals_written :: "'j write_event \<Rightarrow> bool" where
  "renewals_written we \<longleftrightarrow> (\<forall>j p. we j ''scheduler.lease_renewed'' p \<noteq> None)"

lemma heap_inv_renew:
  assumes "heap_inv s" and "renewals_written we"
  shows "heap_inv (fst (renew_lease we s l now))"
proof (cases "renew_begin s l now")
  case (Some se)
  then obtain s1 e where b: "renew_begin s l now = Some (s1, e)" by (cases se) auto
  then obtain g where s1: "s1 = s\<lparr>sd_active_leases := dset (sd_active_leases s) l (g\<lparr>lg_expires_at := e\<rparr>)\<rparr>"
    by (auto simp: renew_begin_def Let_def split: option.splits if_splits)
  obtain j where "sched_write we s1 ''scheduler.lease_renewed''
      [(''lease_id'', PStr l), (''new_expires_at'', PFloat (Fin e))] = Some (s1\<lparr>sd_journal := j\<rparr>)"
    using assms(2) by (fastforce simp: sched_write_def renewals_written_def)
  then have "fst (renew_lease we s l now) = renew_commit (s1\<lparr>sd_journal := j\<rparr>) l e"
    using b by (simp add: renew_lease_def)
  with assms(1) s1 show ?thesis
    by (auto simp: heap_covers_def renew_commit_def heap_push_def sorted_insort set_insort_key
        split: if_splits)
qed (use assms in \<open>simp add: renew_lease_def\<close>)

lemma heap_inv_release:
  assumes "heap_inv s" shows "heap_inv (fst (release_lease we s l b now u))"
proof (cases "dget (sd_active_leases s) l")
  case (Some g)
  let ?s1 = "s\<lparr>sd_active_leases := dpop (sd_active_leases s) l,
    sd_step_to_lease := dpop (sd_step_to_lease s) (lg_step_id g)\<rparr>"
  have inv1: "heap_inv ?s1" using assms by (auto simp: heap_covers_def split: if_splits)
  show ?thesis
  proof (cases "sched_write we ?s1 ''scheduler.lease_released''
      [(''lease_id'', PStr l), (''step_id'', PStr (lg_step_id g)), (''success'', PBool b)]")
    case None
    with Some inv1 show ?thesis by (simp add: release_lease_def release_begin_def)
  next
    case w: (Some s2)
    have inv2: "heap_inv s2" using inv1 heap_inv_write [OF w] by simp
    then have "heap_inv (release_success s2 g)"
      by (simp add: release_success_def heap_covers_def)
    moreover have "heap_inv (fst (retry_or_bury we s2 (lg_step_id g) ''max_retries_exceeded'' now u))"
      using inv2 by (simp add: heap_covers_def retry_or_bury_keeps)
    ultimately show ?thesis using Some w
      by (auto simp: release_lease_def release_begin_def heap_covers_def split: prod.split sum.split)
  qed
qed (use assms in \<open>simp add: release_lease_def release_begin_def\<close>)

lemma heap_inv_step:
  assumes "heap_inv s" and "renewals_written we"
  shows "heap_inv (sched_step we s c)"
proof (cases c)
  case (SEnqueue st r pe now)
  with assms(1) show ?thesis
    by (auto simp: enqueue_step_def enqueue_commit_def Let_def heap_covers_def sched_write_def
        split: option.split)
next
  case (SAcquire st w now l a)
  show ?thesis
  proof (cases "acquire_begin s st w now l a")
    case (Some sg)
    then obtain s1 g where b: "acquire_begin s st w now l a = Some (s1, g)" by (cases sg) auto
    then have inv1: "heap_inv s1" using assms(1)
      by (auto simp: acquire_begin_def heap_covers_def split: option.splits if_splits)
    then show ?thesis using SAcquire b
      by (auto simp: acquire_lease_def heap_inv_write intro: heap_inv_acquire split: option.split)
  qed (use assms SAcquire in \<open>simp add: acquire_lease_def\<close>)
next
  case (SExpire now later u)
  obtain s' r where "expire_loop we now later u (sd_expiry_heap s) s [] = (s', r)" by fastforce
  with expire_loop_spec [OF assms(1) this] SExpire show ?thesis by (simp add: check_expired_leases_def)
next
  case (SDead st r now)
  with assms(1) show ?thesis
    by (auto simp: mark_dead_letter_def dead_letter_begin_def Let_def heap_covers_def sched_write_def
        split: option.split)
next
  case (SRenew l now)
  with heap_inv_renew [OF assms] show ?thesis by simp
next
  case (SRelease l b now u)
  with heap_inv_release [OF assms(1)] show ?thesis by simp
qed

lemma sched_reach_heap:
  assumes "sched_reach we s" and "renewals_written we"
  shows "heap_inv s"
  using assms(1)
proof (induction rule: sched_reach.induct)
  case (init j n d)
  show ?case by (simp add: heap_covers_def scheduler_init_def)
next
  case (step s c)
  show ?case by (rule heap_inv_step [OF step.IH assms(2)])
qed

section \<open>The queue\<close>

text \<open>Entries are stored under their step id, and an entry still queued has retries left.\<close>

definition queue_inv :: "'j scheduler \<Rightarrow> bool" where
  "queue_inv s \<longleftrightarrow> dict_ok (sd_queue s) \<and> (\<forall>k e. dget (sd_queue s) k = Some e \<longrightarrow>
     qe_step_id e = k \<and> 0 \<le> qe_retry_count e \<and> (qe_retry_count e = 0 \<or> qe_retry_count e < qe_max_retries e))"

lemma queue_inv_cong: "sd_queue t = sd_queue s \<Longrightarrow> queue_inv t = queue_inv s"
  by (simp add: queue_inv_def)

lemma queue_inv_put:
  assumes "queue_inv s" and "sd_queue t = dset (sd_queue s) k e" and "qe_step_id e = k"
    and "0 \<le> qe_retry_count e" and "qe_retry_count e = 0 \<or> qe_retry_count e < qe_max_retries e"
  shows "queue_inv t"
  using assms by (simp add: queue_inv_def)

lemma queue_inv_pop:
  assumes "queue_inv s" and "sd_queue t = dpop (sd_queue s) k" shows "queue_inv t"
  using assms by (simp add: queue_inv_def)

lemma mark_dead_letter_queue:
  "sd_queue (fst (mark_dead_letter we s st r now)) = dpop (sd_queue s) st"
  by (auto simp: mark_dead_letter_def dead_letter_begin_def Let_def sched_write_def split: option.split)

lemma dpop_dset: "dpop (dset d k v) k = dpop d k"
  unfolding dset_def dpop_def by (induction d) auto

lemma queue_inv_retry:
  assumes "queue_inv s" shows "queue_inv (fst (retry_or_bury we s st r now u))"
proof (cases "dget (sd_queue s) st")
  case (Some e)
  with assms have e: "qe_step_id e = st" "0 \<le> qe_retry_count e" by (simp_all add: queue_inv_def)
  show ?thesis
  proof (cases "qe_retry_count e + 1 \<ge> qe_max_retries e")
    case True
    with Some have "sd_queue (fst (retry_or_bury we s st r now u)) = dpop (sd_queue s) st"
      by (simp add: retry_or_bury_def Let_def mark_dead_letter_queue dpop_dset)
    with assms show ?thesis by (rule queue_inv_pop)
  next
    case False
    with Some e assms show ?thesis
      by (intro queue_inv_put [OF assms, where k = st and e = "e\<lparr>qe_retry_count := qe_retry_count e + 1,
          qe_next_retry_after := tadd now (backoff_delay (e\<lparr>qe_retry_count := qe_retry_count e + 1\<rparr>) u)\<rparr>"])
        (auto simp: retry_or_bury_def Let_def)
  qed
qed (use assms in \<open>simp add: retry_or_bury_def\<close>)

lemma queue_inv_write: "sched_write we s ev p = Some t \<Longrightarrow> queue_inv t = queue_inv s"
  using queue_inv_cong [of t s] by (auto dest!: sched_write_keeps)

lemma queue_inv_expire:
  "queue_inv s \<Longrightarrow> queue_inv (fst (expire_loop we now later u h s expired))"
proof (induction we now later u h s expired rule: expire_loop.induct)
  case (1 we now later u s expired)
  then show ?case by (simp add: queue_inv_def)
next
  case (2 we now later u t l h s expired)
  show ?case
  proof (cases "t \<le> now \<and> (\<exists>g. dget (sd_active_leases s) l = Some g \<and> \<not> lg_expires_at g > now)")
    case False
    with 2 show ?thesis by (auto simp: queue_inv_def split: option.split)
  next
    case True
    then obtain g where t: "t \<le> now" and g: "dget (sd_active_leases s) l = Some g"
      and ex: "\<not> lg_expires_at g > now" by auto
    define s1 where "s1 = s\<lparr>sd_active_leases := dpop (sd_active_leases s) l,
      sd_step_to_lease := dpop (sd_step_to_lease s) (lg_step_id g), sd_expiry_heap := h\<rparr>"
    have inv1: "queue_inv s1" using 2(4) by (simp add: s1_def queue_inv_def)
    show ?thesis
    proof (cases "sched_write we s1 ''scheduler.lease_expired''
        [(''lease_id'', PStr l), (''step_id'', PStr (lg_step_id g)), (''worker_id'', PStr (lg_worker_id g))]")
      case None
      with t g ex inv1 show ?thesis by (simp add: Let_def s1_def [symmetric])
    next
      case (Some s2)
      obtain s3 r where r: "retry_or_bury we s2 (lg_step_id g) ''lease_expired_max_retries'' (later l) (u l) = (s3, r)"
        by fastforce
      have "queue_inv s3"
        using queue_inv_retry [of s2 we "lg_step_id g" "''lease_expired_max_retries''" "later l" "u l"]
          inv1 queue_inv_write [OF Some] r by simp
      with "2.IH"(3) [of g s1 s2] t g ex Some r show ?thesis
        by (cases r) (auto simp: Let_def s1_def [symmetric])
    qed
  qed
qed

lemma queue_inv_step: "queue_inv s \<Longrightarrow> queue_inv (sched_step we s c)"
proof (cases c)
  case (SEnqueue st r pe now)
  assume "queue_inv s"
  with SEnqueue show ?thesis
    by (auto simp: enqueue_step_def enqueue_commit_def enqueue_begin_def Let_def sched_write_def queue_inv_def
        split: option.split)
next
  case (SAcquire st w now l a)
  assume "queue_inv s"
  with SAcquire show ?thesis
    by (auto simp: acquire_lease_def acquire_begin_def acquire_commit_def sched_write_def queue_inv_def
        split: option.split)
next
  case (SRenew l now)
  assume "queue_inv s"
  with SRenew show ?thesis
    by (auto simp: renew_lease_def renew_begin_def renew_commit_def sched_write_def queue_inv_def Let_def
        split: option.split)
next
  case (SRelease l b now u)
  assume inv: "queue_inv s"
  show ?thesis
  proof (cases "release_begin s l")
    case (Some sg)
    then obtain s1 g where b: "release_begin s l = Some (s1, g)" and inv1: "queue_inv s1"
      using inv by (cases sg) (auto simp: release_begin_def queue_inv_def split: option.splits)
    show ?thesis
    proof (cases "sched_write we s1 ''scheduler.lease_released''
        [(''lease_id'', PStr l), (''step_id'', PStr (lg_step_id g)), (''success'', PBool b)]")
      case None
      with \<open>release_begin s l = Some (s1, g)\<close> inv1 SRelease show ?thesis by (simp add: release_lease_def)
    next
      case w: (Some s2)
      with inv1 have inv2: "queue_inv s2" by (simp add: queue_inv_write)
      then have "queue_inv (release_success s2 g)" by (simp add: release_success_def queue_inv_def)
      moreover note queue_inv_retry [OF inv2, of we "lg_step_id g" "''max_retries_exceeded''" now u]
      ultimately show ?thesis using \<open>release_begin s l = Some (s1, g)\<close> w SRelease
        by (auto simp: release_lease_def queue_inv_def split: prod.split sum.split)
    qed
  qed (use inv SRelease in \<open>simp add: release_lease_def\<close>)
next
  case (SDead st r now)
  assume "queue_inv s"
  from queue_inv_pop [OF this mark_dead_letter_queue] SDead show ?thesis by simp
qed (simp add: check_expired_leases_def queue_inv_expire)

lemma sched_reach_queue: "sched_reach we s \<Longrightarrow> queue_inv s"
proof (induction rule: sched_reach.induct)
  case (init j n d)
  show ?case by (simp add: queue_inv_def scheduler_init_def)
qed (simp add: queue_inv_step)


section \<open>A sample scheduler\<close>

definition ok_journal :: "unit write_event" where
  "ok_journal j ev payload = Some ()"

definition sample_plan_step :: "string \<Rightarrow> plan_step" where
  "sample_plan_step i = \<lparr>st_step_id = i, st_name = [], st_description = [], st_state = SS_PENDING,
     st_depends_on = [], st_capability = [], st_capability_version = [],
     st_arguments_schema = PProxy [], st_principal_policy = PProxy [], st_resource_key = [],
     st_verifier_oracle = PProxy [], st_compensation = [], st_assigned_employee = [],
     st_max_attempts = 2, st_timeout_seconds = 60, st_criterion_ids = [], st_aggregate_version = 0\<rparr>"

definition sample_sched :: "unit scheduler" where
  "sample_sched = sched_step ok_journal (sched_step ok_journal (scheduler_init () 1 300)
     (SEnqueue (sample_plan_step ''s1'') ''r1'' 0 1)) (SAcquire ''s1'' ''w1'' 2 ''l1'' ''a1'')"

lemma round64_numeral: "(numeral k :: int) < 2 ^ 53 \<Longrightarrow> round64 (numeral k) = numeral k"
  using round64_int [of "numeral k"] by simp

lemma tadd_eval: "tadd 2 300 = 302" "tadd 1 300 = 301"
  by (simp_all add: tadd_def round64_numeral)


lemmas sched_eval = enqueue_step_def enqueue_begin_def enqueue_commit_def enqueue_event_def
  sched_write_def acquire_lease_def acquire_begin_def acquire_commit_def scheduler_init_def dset_def
  heap_push_def tadd_eval ok_journal_def sample_plan_step_def

lemma sample_sched_eval:
  "sample_sched = (scheduler_init () 1 300)\<lparr>sd_fencing_counter := 1,
     sd_queue := [(''s1'', \<lparr>qe_step_id = ''s1'', qe_run_id = ''r1'', qe_plan_epoch = 0, qe_priority = 0,
        qe_enqueued_at = 1, qe_retry_count = 0, qe_max_retries = 2, qe_next_retry_after = 0,
        qe_backoff_base = 5\<rparr>)],
     sd_active_leases := [(''l1'', \<lparr>lg_lease_id = ''l1'', lg_attempt_id = ''a1'', lg_step_id = ''s1'',
        lg_run_id = ''r1'', lg_fencing_token = 1, lg_granted_at = 2, lg_expires_at = 302,
        lg_worker_id = ''w1''\<rparr>)],
     sd_step_to_lease := [(''s1'', ''l1'')], sd_expiry_heap := [(302, ''l1'')]\<rparr>"
  by (simp add: sample_sched_def sched_eval)

lemma sample_reach: "sched_reach ok_journal sample_sched"
  unfolding sample_sched_def by (intro sched_reach.intros) (simp_all add: sched_eval)

section \<open>Properties\<close>



definition journal_total :: "'j write_event \<Rightarrow> bool" where
  "journal_total we \<longleftrightarrow> (\<forall>j e p. we j e p \<noteq> None)"

lemma sched_write_total: "journal_total we \<Longrightarrow> \<exists>j. sched_write we s ev p = Some (s\<lparr>sd_journal := j\<rparr>)"
  by (fastforce simp: journal_total_def sched_write_def)

lemma retry_or_bury_total:
  assumes "journal_total we" shows "\<exists>s'. retry_or_bury we s st r now u = (s', Inr ())"
proof -
  have "\<exists>s'. mark_dead_letter we t st r now = (s', Inr ())" for t
  proof -
    obtain t1 dl where b: "dead_letter_begin t st r now = (t1, dl)" by fastforce
    obtain j where "sched_write we t1 ''scheduler.dead_letter'' (dead_letter_event dl) = Some (t1\<lparr>sd_journal := j\<rparr>)"
      using sched_write_total [OF assms] by blast
    with b show ?thesis by (simp add: mark_dead_letter_def)
  qed
  then show ?thesis by (auto simp: retry_or_bury_def Let_def split: option.split)
qed

lemma expire_loop_total:
  assumes "journal_total we"
  shows "\<exists>s' out. expire_loop we now later u h s expired = (s', Inr out)"
proof (induction h arbitrary: s expired)
  case (Cons x h)
  obtain t l where x: "x = (t, l)" by (cases x)
  have w: "\<exists>t. sched_write we s0 ev p = Some t" for s0 ev p
    using sched_write_total [OF assms] by blast
  show ?case
  proof (cases "t \<le> now \<and> (\<exists>g. dget (sd_active_leases s) l = Some g \<and> \<not> lg_expires_at g > now)")
    case True
    then obtain g where g: "t \<le> now" "dget (sd_active_leases s) l = Some g" "\<not> lg_expires_at g > now" by auto
    obtain s2 where s2: "sched_write we (s\<lparr>sd_active_leases := dpop (sd_active_leases s) l,
        sd_step_to_lease := dpop (sd_step_to_lease s) (lg_step_id g), sd_expiry_heap := h\<rparr>)
        ''scheduler.lease_expired'' [(''lease_id'', PStr l), (''step_id'', PStr (lg_step_id g)),
        (''worker_id'', PStr (lg_worker_id g))] = Some s2" using w by blast
    obtain s3 where "retry_or_bury we s2 (lg_step_id g) ''lease_expired_max_retries'' (later l) (u l) = (s3, Inr ())"
      using retry_or_bury_total [OF assms] by blast
    with Cons.IH g s2 x show ?thesis by (simp add: Let_def)
  next
    case False
    with Cons.IH x show ?thesis by (auto split: option.split)
  qed
qed simp

text \<open>
  Expired leases are reclaimed, all of them and no others: when the journal accepts renewals,
  then in every reachable state the expiry check that returns hands out exactly the active leases
  whose expiry has passed, and keeps exactly the rest; if the journal accepts every write, it
  returns.
\<close>

lemma expired_leases_reclaimed:
  assumes "renewals_written we" and "sched_reach we s"
    and "check_expired_leases we s now later u = (s', r)"
  shows "(\<forall>out. r = Inr out \<longrightarrow> set out = expired_leases s now \<and>
      (\<forall>l. dget (sd_active_leases s') l = unexpired now (dget (sd_active_leases s) l))) \<and>
    (journal_total we \<longrightarrow> (\<exists>out. r = Inr out))"
proof -
  have "heap_covers (sd_expiry_heap s) s" by (rule sched_reach_heap [OF assms(2,1)])
  from expire_loop_spec [OF this] assms(3)
    expire_loop_total [of we now later u "sd_expiry_heap s" s "[]"]
  show ?thesis by (fastforce simp: check_expired_leases_def)
qed

lemma expired_leases_reclaimed_witness:
  "\<exists>s' out. check_expired_leases ok_journal sample_sched 302 (\<lambda>_. 303) (\<lambda>_. 0) = (s', Inr out) \<and>
     dget (sd_active_leases s') ''l1'' = None \<and> map lg_lease_id out = [''l1'']"
proof -
  have ok: "renewals_written ok_journal" "journal_total ok_journal"
    by (simp_all add: ok_journal_def renewals_written_def journal_total_def)
  obtain s' r where r: "check_expired_leases ok_journal sample_sched 302 (\<lambda>_. 303) (\<lambda>_. 0) = (s', r)"
    by fastforce
  from expired_leases_reclaimed [OF ok(1) sample_reach this] ok(2) obtain out where
    out: "r = Inr out" "dget (sd_active_leases s') ''l1'' = unexpired 302 (dget (sd_active_leases sample_sched) ''l1'')"
    by auto
  moreover have "dget (sd_active_leases s') ''l1'' = None"
    using out(2) by (simp add: unexpired_def sample_sched_eval)
  moreover have "map lg_lease_id out = [''l1'']"
    using r out(1) by (auto simp: check_expired_leases_def sample_sched_eval scheduler_init_def
        sched_write_def ok_journal_def retry_or_bury_def Let_def)
  ultimately show ?thesis using r by simp
qed


text \<open>
  C29. A failed attempt is counted and bounded: releasing a lease as failed frees the step, counts
  one failure, and either moves the step out of the queue into the dead letters, when its attempts
  are used up, or requeues it with a later retry time by exponential backoff. No queued step ever
  has used up its attempts.
\<close>

theorem failed_attempt_bounded:
  assumes "sched_reach we s" and "dget (sd_active_leases s) l = Some g"
    and "dget (sd_queue s) (lg_step_id g) = Some e"
    and "release_lease we s l False now u = (s', Inr ())"
  shows "dget (sd_active_leases s') l = None \<and> dget (sd_step_to_lease s') (lg_step_id g) = None \<and>
    sd_total_failed s' = sd_total_failed s + 1 \<and>
    (qe_retry_count e = 0 \<or> qe_retry_count e < qe_max_retries e) \<and>
    (if qe_retry_count e + 1 \<ge> qe_max_retries e
     then dget (sd_queue s') (lg_step_id g) = None \<and>
       dget (sd_dead_letters s') (lg_step_id g) = Some \<lparr>dl_step_id = lg_step_id g, dl_run_id = qe_run_id e,
         dl_reason = ''max_retries_exceeded'', dl_moved_at = now\<rparr>
     else dget (sd_queue s') (lg_step_id g) = Some (e\<lparr>qe_retry_count := qe_retry_count e + 1,
         qe_next_retry_after := tadd now (backoff_delay (e\<lparr>qe_retry_count := qe_retry_count e + 1\<rparr>) u)\<rparr>))"
proof -
  have "qe_retry_count e = 0 \<or> qe_retry_count e < qe_max_retries e"
    using sched_reach_queue [OF assms(1)] assms(3) by (simp add: queue_inv_def)
  with assms(2-4) show ?thesis
    by (auto simp: release_lease_def release_begin_def sched_write_def retry_or_bury_def Let_def
        mark_dead_letter_def dead_letter_begin_def split: option.splits if_splits)
qed

theorem failed_attempt_bounded_witness:
  "\<exists>s'. release_lease ok_journal sample_sched ''l1'' False 10 0 = (s', Inr ()) \<and>
     dget (sd_active_leases s') ''l1'' = None \<and> sd_total_failed s' = 1"
proof -
  obtain g e where g: "dget (sd_active_leases sample_sched) ''l1'' = Some g"
    and e: "dget (sd_queue sample_sched) (lg_step_id g) = Some e"
    by (simp add: sample_sched_eval)
  obtain s' where s': "release_lease ok_journal sample_sched ''l1'' False 10 0 = (s', Inr ())"
    by (simp add: release_lease_def release_begin_def sample_sched_eval scheduler_init_def sched_write_def
        ok_journal_def retry_or_bury_def Let_def)
  from failed_attempt_bounded [OF sample_reach g e s'] s' show ?thesis
    by (simp add: sample_sched_eval scheduler_init_def)
qed

lemma insert_ready_set: "set (insert_ready x ys) = insert x (set ys)"
  by (induction ys) auto

lemma sort_ready_set: "set (sort_ready xs) = set xs"
  by (induction xs) (auto simp: sort_ready_def insert_ready_set)

lemma sort_ready_distinct: "distinct (map qe_step_id xs) \<Longrightarrow> distinct (map qe_step_id (sort_ready xs))"
proof (induction xs)
  case (Cons x xs)
  have "distinct (map qe_step_id (insert_ready y ys))"
    if "distinct (map qe_step_id ys)" "qe_step_id y \<notin> qe_step_id ` set ys" for y ys
    using that by (induction ys) (auto simp: insert_ready_set)
  with Cons show ?case using sort_ready_set [of xs] by (simp add: sort_ready_def)
qed (simp add: sort_ready_def)

definition ready_le :: "queue_entry \<Rightarrow> queue_entry \<Rightarrow> bool" where
  "ready_le a b \<longleftrightarrow> \<not> queue_entry_lt b a"

lemma ready_le_iff:
  "ready_le a b \<longleftrightarrow> qe_priority b < qe_priority a \<or>
     qe_priority b = qe_priority a \<and> qe_enqueued_at a \<le> qe_enqueued_at b"
  by (auto simp: ready_le_def queue_entry_lt_def)

lemma insert_ready_sorted: "sorted_wrt ready_le ys \<Longrightarrow> sorted_wrt ready_le (insert_ready x ys)"
proof (induction ys)
  case (Cons y ys)
  show ?case
  proof (cases "queue_entry_lt y x")
    case True
    then have "ready_le y x" by (auto simp: ready_le_def queue_entry_lt_def split: if_splits)
    with True Cons show ?thesis by (simp add: insert_ready_set)
  next
    case False
    then have "ready_le x y" by (simp add: ready_le_def)
    with False Cons show ?thesis by (auto simp: ready_le_iff)
  qed
qed simp

lemma sort_ready_sorted: "sorted_wrt ready_le (sort_ready xs)"
  by (induction xs) (simp_all add: sort_ready_def insert_ready_sorted)

text \<open>
  C30. Ready steps can be leased: in a reachable state with room for another lease, every step
  that \<open>get_ready_steps\<close> returns is granted a lease at the same clock reading, with a fencing token
  larger than every earlier one, provided the journal accepts the write. The ready list is ordered
  by priority, then by enqueue time, and holds each queued step at most once.
\<close>

theorem ready_steps_leasable:
  assumes "sched_reach we s" and "e \<in> set (scheduler_ready_steps s now)"
    and "int (length (sd_active_leases s)) < sd_max_concurrent s" and "journal_total we"
  shows "(\<exists>s' g. acquire_lease we s (qe_step_id e) worker now l a = (s', Inr (Some g)) \<and>
      dget (sd_active_leases s') l = Some g \<and> lg_step_id g = qe_step_id e \<and>
      (\<forall>k h. dget (sd_active_leases s) k = Some h \<longrightarrow> lg_fencing_token h < lg_fencing_token g)) \<and>
    sorted_wrt ready_le (scheduler_ready_steps s now) \<and>
    distinct (map qe_step_id (scheduler_ready_steps s now))"
proof (intro conjI)
  have q: "queue_inv s" by (rule sched_reach_queue [OF assms(1)])
  have e: "dget (sd_queue s) (qe_step_id e) = Some e" "dget (sd_step_to_lease s) (qe_step_id e) = None"
    "\<not> now < qe_next_retry_after e"
    using assms(2) q by (auto simp: scheduler_ready_steps_def sort_ready_set queue_inv_def dict_ok_def
        dest!: map_of_is_SomeI)
  let ?s1 = "s\<lparr>sd_fencing_counter := sd_fencing_counter s + 1\<rparr>"
  let ?g = "\<lparr>lg_lease_id = l, lg_attempt_id = a, lg_step_id = qe_step_id e, lg_run_id = qe_run_id e,
    lg_fencing_token = sd_fencing_counter s + 1, lg_granted_at = now,
    lg_expires_at = tadd now (sd_default_lease_seconds s), lg_worker_id = worker\<rparr>"
  have b: "acquire_begin s (qe_step_id e) worker now l a = Some (?s1, ?g)"
    using e assms(3) by (simp add: acquire_begin_def)
  obtain j where w: "sched_write we ?s1 ''scheduler.lease_acquired'' (acquire_event ?g) = Some (?s1\<lparr>sd_journal := j\<rparr>)"
    using sched_write_total [OF assms(4)] by blast
  have "lg_fencing_token h < sd_fencing_counter s + 1" if "dget (sd_active_leases s) k = Some h" for k h
    using lease_inv_active(3) [OF sched_reach_inv [OF assms(1)] that] by simp
  then show "\<exists>s' g. acquire_lease we s (qe_step_id e) worker now l a = (s', Inr (Some g)) \<and>
      dget (sd_active_leases s') l = Some g \<and> lg_step_id g = qe_step_id e \<and>
      (\<forall>k h. dget (sd_active_leases s) k = Some h \<longrightarrow> lg_fencing_token h < lg_fencing_token g)"
    using b w by (simp add: acquire_lease_def acquire_commit_def)
  show "sorted_wrt ready_le (scheduler_ready_steps s now)"
    by (simp add: scheduler_ready_steps_def sort_ready_sorted)
  have keys: "map qe_step_id (dvals (sd_queue s)) = dkeys (sd_queue s)"
    using q by (auto simp: queue_inv_def dict_ok_def)
  have "distinct (map qe_step_id (dvals (sd_queue s)))"
    unfolding keys using q by (simp add: queue_inv_def dict_ok_def)
  then show "distinct (map qe_step_id (scheduler_ready_steps s now))"
    unfolding scheduler_ready_steps_def by (intro sort_ready_distinct distinct_map_filter)
qed

theorem ready_steps_leasable_witness:
  "let s = sched_step ok_journal (scheduler_init () 1 300) (SEnqueue (sample_plan_step ''s1'') ''r1'' 0 1)
   in \<exists>s' g. acquire_lease ok_journal s ''s1'' ''w1'' 2 ''l1'' ''a1'' = (s', Inr (Some g)) \<and>
        dget (sd_active_leases s') ''l1'' = Some g"
proof -
  let ?s = "sched_step ok_journal (scheduler_init () 1 300) (SEnqueue (sample_plan_step ''s1'') ''r1'' 0 1)"
  let ?e = "\<lparr>qe_step_id = ''s1'', qe_run_id = ''r1'', qe_plan_epoch = 0, qe_priority = 0,
    qe_enqueued_at = 1, qe_retry_count = 0, qe_max_retries = 2, qe_next_retry_after = 0, qe_backoff_base = 5\<rparr>"
  have reach: "sched_reach ok_journal ?s" by (intro sched_reach.intros) simp
  have e: "?e \<in> set (scheduler_ready_steps ?s 2)"
    by (simp add: scheduler_ready_steps_def sched_eval sort_ready_def)
  have room: "int (length (sd_active_leases ?s)) < sd_max_concurrent ?s" by (simp add: sched_eval)
  have j: "journal_total ok_journal" by (simp add: journal_total_def ok_journal_def)
  from ready_steps_leasable [OF reach e room j, of "''w1''" "''l1''" "''a1''"] show ?thesis
    by (auto simp: Let_def)
qed


section \<open>Interleaved grants\<close>

text \<open>
  Between the checks of \<open>acquire_lease\<close> and its updates the coroutine waits for the journal. Here
  the grants in flight are explicit, and any other operation may run in between.
\<close>

inductive sched_async :: "'j write_event \<Rightarrow> 'j scheduler \<Rightarrow> lease_grant list \<Rightarrow> bool" for we where
  init: "sched_async we (scheduler_init j n d) []"
| begin_acquire: "sched_async we s ps \<Longrightarrow> acquire_begin s st w now l a = Some (s1, g) \<Longrightarrow>
    sched_async we s1 (g # ps)"
| commit_acquire: "sched_async we s ps \<Longrightarrow> g \<in> set ps \<Longrightarrow>
    sched_write we s ''scheduler.lease_acquired'' (acquire_event g) = Some s1 \<Longrightarrow>
    sched_async we (acquire_commit s1 g) (remove1 g ps)"
| fail_acquire: "sched_async we s ps \<Longrightarrow> g \<in> set ps \<Longrightarrow>
    sched_write we s ''scheduler.lease_acquired'' (acquire_event g) = None \<Longrightarrow>
    sched_async we s (remove1 g ps)"
| other: "sched_async we s ps \<Longrightarrow> \<not> (\<exists>st w now l a. c = SAcquire st w now l a) \<Longrightarrow>
    sched_async we (sched_step we s c) ps"

definition tokens_ok :: "'j scheduler \<Rightarrow> lease_grant list \<Rightarrow> bool" where
  "tokens_ok s ps \<longleftrightarrow> distinct (map lg_fencing_token ps) \<and>
     (\<forall>g \<in> set ps. lg_fencing_token g \<le> sd_fencing_counter s) \<and>
     (\<forall>l g. dget (sd_active_leases s) l = Some g \<longrightarrow>
        lg_fencing_token g \<le> sd_fencing_counter s \<and> lg_fencing_token g \<notin> lg_fencing_token ` set ps) \<and>
     (\<forall>l g l' g'. dget (sd_active_leases s) l = Some g \<longrightarrow> dget (sd_active_leases s) l' = Some g' \<longrightarrow>
        lg_fencing_token g = lg_fencing_token g' \<longrightarrow> l = l')"

text \<open>An operation other than a grant only drops leases or moves their expiry.\<close>

definition leases_shrink :: "'j scheduler \<Rightarrow> 'j scheduler \<Rightarrow> bool" where
  "leases_shrink s t \<longleftrightarrow> sd_fencing_counter t = sd_fencing_counter s \<and>
     (\<forall>l g. dget (sd_active_leases t) l = Some g \<longrightarrow>
        (\<exists>g'. dget (sd_active_leases s) l = Some g' \<and> lg_fencing_token g' = lg_fencing_token g))"

lemma leases_shrink_refl: "sd_fencing_counter t = sd_fencing_counter s \<Longrightarrow>
    sd_active_leases t = sd_active_leases s \<Longrightarrow> leases_shrink s t"
  by (auto simp: leases_shrink_def)

lemma leases_shrink_trans: "leases_shrink s t \<Longrightarrow> leases_shrink t v \<Longrightarrow> leases_shrink s v"
  unfolding leases_shrink_def by (metis (no_types, lifting))

lemma tokens_ok_shrink: "tokens_ok s ps \<Longrightarrow> leases_shrink s t \<Longrightarrow> tokens_ok t ps"
  unfolding tokens_ok_def leases_shrink_def by (metis (no_types, lifting))

lemma retry_shrink: "leases_shrink s (fst (retry_or_bury we s st r now u))"
  by (rule leases_shrink_refl)
    (auto simp: retry_or_bury_keeps retry_or_bury_def mark_dead_letter_def dead_letter_begin_def Let_def
      sched_write_def split: option.split)

lemma write_shrink: "sched_write we s ev p = Some t \<Longrightarrow> leases_shrink s t"
  by (auto dest!: sched_write_keeps intro!: leases_shrink_refl)

lemma drop_shrink:
  "sd_active_leases t = dpop (sd_active_leases s) l \<Longrightarrow> sd_fencing_counter t = sd_fencing_counter s \<Longrightarrow>
     leases_shrink s t"
  by (auto simp: leases_shrink_def split: if_splits)

lemma expire_shrink: "leases_shrink s (fst (expire_loop we now later u h s expired))"
proof (induction we now later u h s expired rule: expire_loop.induct)
  case (1 we now later u s expired)
  then show ?case by (simp add: leases_shrink_refl)
next
  case (2 we now later u t l h s expired)
  show ?case
  proof (cases "t \<le> now \<and> (\<exists>g. dget (sd_active_leases s) l = Some g \<and> \<not> lg_expires_at g > now)")
    case False
    with 2 show ?thesis by (auto simp: leases_shrink_refl split: option.split)
  next
    case True
    then obtain g where t: "t \<le> now" and g: "dget (sd_active_leases s) l = Some g"
      and ex: "\<not> lg_expires_at g > now" by auto
    define s1 where "s1 = s\<lparr>sd_active_leases := dpop (sd_active_leases s) l,
      sd_step_to_lease := dpop (sd_step_to_lease s) (lg_step_id g), sd_expiry_heap := h\<rparr>"
    have s1: "leases_shrink s s1" by (rule drop_shrink [of _ _ l]) (simp_all add: s1_def)
    show ?thesis
    proof (cases "sched_write we s1 ''scheduler.lease_expired''
        [(''lease_id'', PStr l), (''step_id'', PStr (lg_step_id g)), (''worker_id'', PStr (lg_worker_id g))]")
      case None
      with t g ex s1 show ?thesis by (simp add: Let_def s1_def [symmetric])
    next
      case (Some s2)
      obtain s3 r where r: "retry_or_bury we s2 (lg_step_id g) ''lease_expired_max_retries'' (later l) (u l) = (s3, r)"
        by fastforce
      have s3: "leases_shrink s s3"
        using leases_shrink_trans [OF leases_shrink_trans [OF s1 write_shrink [OF Some]]
          retry_shrink [of s2 we "lg_step_id g" "''lease_expired_max_retries''" "later l" "u l"]] r by simp
      with "2.IH"(3) [of g s1 s2] t g ex Some r show ?thesis
        by (cases r) (auto simp: Let_def s1_def [symmetric] intro: leases_shrink_trans)
    qed
  qed
qed

lemma release_shrink: "leases_shrink s (fst (release_lease we s l b now u))"
proof (cases "dget (sd_active_leases s) l")
  case (Some g)
  let ?s1 = "s\<lparr>sd_active_leases := dpop (sd_active_leases s) l,
    sd_step_to_lease := dpop (sd_step_to_lease s) (lg_step_id g)\<rparr>"
  have s1: "leases_shrink s ?s1" by (rule drop_shrink [of _ _ l]) simp_all
  show ?thesis
  proof (cases "sched_write we ?s1 ''scheduler.lease_released''
      [(''lease_id'', PStr l), (''step_id'', PStr (lg_step_id g)), (''success'', PBool b)]")
    case None
    with Some s1 show ?thesis by (simp add: release_lease_def release_begin_def)
  next
    case w: (Some s2)
    have s2: "leases_shrink s s2" by (rule leases_shrink_trans [OF s1 write_shrink [OF w]])
    have "leases_shrink s2 (release_success s2 g)"
      by (rule leases_shrink_refl) (simp_all add: release_success_def)
    moreover obtain s3 r where r: "retry_or_bury we s2 (lg_step_id g) ''max_retries_exceeded'' now u = (s3, r)"
      by fastforce
    moreover have "leases_shrink s2 s3" "leases_shrink s2 (s3\<lparr>sd_total_failed := n\<rparr>)" for n
      using retry_shrink [of s2 we "lg_step_id g" "''max_retries_exceeded''" now u] r
      by (simp_all add: leases_shrink_def)
    ultimately show ?thesis using Some w s2 leases_shrink_trans
      by (cases r) (auto simp: release_lease_def release_begin_def)
  qed
qed (simp add: release_lease_def release_begin_def leases_shrink_refl)

lemma other_shrink:
  assumes "\<not> (\<exists>st w now l a. c = SAcquire st w now l a)"
  shows "leases_shrink s (sched_step we s c)"
proof (cases c)
  case (SEnqueue st r pe now)
  then show ?thesis
    by (auto simp: enqueue_step_def enqueue_commit_def Let_def sched_write_def leases_shrink_def
        split: option.split)
next
  case (SRenew l now)
  then show ?thesis
    by (auto simp: renew_lease_def renew_begin_def renew_commit_def Let_def sched_write_def leases_shrink_def
        split: option.splits if_splits)
next
  case (SDead st r now)
  then show ?thesis
    by (auto simp: mark_dead_letter_def dead_letter_begin_def Let_def sched_write_def leases_shrink_def
        split: option.split)
qed (use assms in \<open>simp_all add: release_shrink expire_shrink check_expired_leases_def\<close>)


lemma tokens_okD:
  assumes "tokens_ok s ps"
  shows "distinct (map lg_fencing_token ps)"
    and "g \<in> set ps \<Longrightarrow> lg_fencing_token g \<le> sd_fencing_counter s"
    and "dget (sd_active_leases s) l = Some g \<Longrightarrow> lg_fencing_token g \<le> sd_fencing_counter s"
    and "dget (sd_active_leases s) l = Some g \<Longrightarrow> h \<in> set ps \<Longrightarrow> lg_fencing_token g \<noteq> lg_fencing_token h"
    and "dget (sd_active_leases s) l = Some g \<Longrightarrow> dget (sd_active_leases s) l' = Some g' \<Longrightarrow>
        lg_fencing_token g = lg_fencing_token g' \<Longrightarrow> l = l'"
  using assms unfolding tokens_ok_def by blast+

lemma tokens_okI:
  assumes "distinct (map lg_fencing_token ps)"
    and "\<And>g. g \<in> set ps \<Longrightarrow> lg_fencing_token g \<le> sd_fencing_counter s"
    and "\<And>l g. dget (sd_active_leases s) l = Some g \<Longrightarrow> lg_fencing_token g \<le> sd_fencing_counter s"
    and "\<And>l g h. dget (sd_active_leases s) l = Some g \<Longrightarrow> h \<in> set ps \<Longrightarrow> lg_fencing_token g \<noteq> lg_fencing_token h"
    and "\<And>l g l' g'. dget (sd_active_leases s) l = Some g \<Longrightarrow> dget (sd_active_leases s) l' = Some g' \<Longrightarrow>
        lg_fencing_token g = lg_fencing_token g' \<Longrightarrow> l = l'"
  shows "tokens_ok s ps"
  using assms unfolding tokens_ok_def by blast

lemma acquire_begin_token:
  assumes "acquire_begin s st w now l a = Some (s1, g)"
  shows "s1 = s\<lparr>sd_fencing_counter := sd_fencing_counter s + 1\<rparr>"
    and "lg_fencing_token g = sd_fencing_counter s + 1"
  using assms by (auto simp: acquire_begin_def split: option.splits if_splits)

lemma tokens_ok_begin:
  assumes ok: "tokens_ok s ps" and "acquire_begin s st w now l a = Some (s1, g)"
  shows "tokens_ok s1 (g # ps)"
proof -
  note s1 = acquire_begin_token(1) [OF assms(2)] and g = acquire_begin_token(2) [OF assms(2)]
  have lt: "lg_fencing_token h < lg_fencing_token g" if "h \<in> set ps" for h
    using tokens_okD(2) [OF ok that] g by simp
  have lt': "lg_fencing_token h < lg_fencing_token g" if "dget (sd_active_leases s) k = Some h" for k h
    using tokens_okD(3) [OF ok that] g by simp
  have counter: "sd_fencing_counter s1 = lg_fencing_token g" and act: "sd_active_leases s1 = sd_active_leases s"
    by (simp_all add: s1 g)
  show ?thesis
  proof (rule tokens_okI)
    show "distinct (map lg_fencing_token (g # ps))"
      using tokens_okD(1) [OF ok] lt [THEN less_imp_neq] by fastforce
    show "lg_fencing_token h \<le> sd_fencing_counter s1" if "h \<in> set (g # ps)" for h
      using that lt [of h] by (auto simp: counter)
    show "lg_fencing_token h \<le> sd_fencing_counter s1" if "dget (sd_active_leases s1) k = Some h" for k h
      using that lt' [of k h] by (simp add: act counter)
    show "lg_fencing_token h \<noteq> lg_fencing_token h'"
      if "dget (sd_active_leases s1) k = Some h" "h' \<in> set (g # ps)" for k h h'
      using that lt' [of k h] tokens_okD(4) [OF ok, of k h h'] by (auto simp: act)
    show "k = k'" if "dget (sd_active_leases s1) k = Some h" "dget (sd_active_leases s1) k' = Some h'"
      "lg_fencing_token h = lg_fencing_token h'" for k h k' h'
      using that unfolding act by (rule tokens_okD(5) [OF ok])
  qed
qed

lemma tokens_ok_remove:
  assumes ok: "tokens_ok s ps" shows "tokens_ok s (remove1 g ps)"
proof (rule tokens_okI)
  show "distinct (map lg_fencing_token (remove1 g ps))"
    using tokens_okD(1) [OF ok] by (auto simp: distinct_map inj_on_def dest: notin_set_remove1)
qed (use tokens_okD [OF ok] notin_set_remove1 in \<open>metis+\<close>)

lemma tokens_ok_commit:
  assumes ok: "tokens_ok s ps" and g: "g \<in> set ps"
  shows "tokens_ok (acquire_commit s g) (remove1 g ps)"
proof -
  have dist: "inj_on lg_fencing_token (set ps)" and dps: "distinct ps"
    using tokens_okD(1) [OF ok] by (simp_all add: distinct_map)
  have sub: "set (remove1 g ps) = set ps - {g}" using dps by (simp add: set_remove1_eq)
  have act: "dget (sd_active_leases (acquire_commit s g)) l =
      (if l = lg_lease_id g then Some g else dget (sd_active_leases s) l)"
    and counter: "sd_fencing_counter (acquire_commit s g) = sd_fencing_counter s" for l
    by (simp_all add: acquire_commit_def)
  have neq: "lg_fencing_token h \<noteq> lg_fencing_token g" if "dget (sd_active_leases s) l = Some h" for l h
    using tokens_okD(4) [OF ok that g] .
  show ?thesis
  proof (rule tokens_okI)
    show "distinct (map lg_fencing_token (remove1 g ps))"
      using tokens_okD(1) [OF tokens_ok_remove [OF ok]] .
    show "lg_fencing_token h \<le> sd_fencing_counter (acquire_commit s g)" if "h \<in> set (remove1 g ps)" for h
      using that sub tokens_okD(2) [OF ok, of h] by (simp add: counter)
    show "lg_fencing_token h \<le> sd_fencing_counter (acquire_commit s g)"
      if "dget (sd_active_leases (acquire_commit s g)) k = Some h" for k h
      using that g tokens_okD(2) [OF ok, of h] tokens_okD(3) [OF ok, of k h]
      by (auto simp: act counter split: if_splits)
    show "lg_fencing_token h \<noteq> lg_fencing_token h'"
      if "dget (sd_active_leases (acquire_commit s g)) k = Some h" "h' \<in> set (remove1 g ps)" for k h h'
      using that sub g inj_onD [OF dist, of h h'] tokens_okD(4) [OF ok, of k h h']
      by (auto simp: act split: if_splits)
    show "k = k'" if "dget (sd_active_leases (acquire_commit s g)) k = Some h"
      "dget (sd_active_leases (acquire_commit s g)) k' = Some h'"
      "lg_fencing_token h = lg_fencing_token h'" for k h k' h'
      using that neq [of k h] neq [of k' h'] tokens_okD(5) [OF ok, of k h k' h']
      by (auto simp: act split: if_splits)
  qed
qed

lemma sched_async_tokens: "sched_async we s ps \<Longrightarrow> tokens_ok s ps"
proof (induction rule: sched_async.induct)
  case (init j n d)
  show ?case by (rule tokens_okI) (simp_all add: scheduler_init_def)
next
  case (begin_acquire s ps st w now l a s1 g)
  from begin_acquire.IH begin_acquire.hyps(2) show ?case by (rule tokens_ok_begin)
next
  case (commit_acquire s ps g s1)
  from tokens_ok_shrink [OF commit_acquire.IH write_shrink [OF commit_acquire.hyps(3)]]
    commit_acquire.hyps(2) show ?case by (rule tokens_ok_commit)
next
  case (fail_acquire s ps g)
  from fail_acquire.IH show ?case by (rule tokens_ok_remove)
next
  case (other s ps c)
  from other.IH other_shrink [OF other.hyps(2)] show ?case by (rule tokens_ok_shrink)
qed


definition queued_sched :: "unit scheduler" where
  "queued_sched = sched_step ok_journal (scheduler_init () 1 300)
     (SEnqueue (sample_plan_step ''s1'') ''r1'' 0 1)"

definition sample_grant :: "string \<Rightarrow> int \<Rightarrow> string \<Rightarrow> lease_grant" where
  "sample_grant l n w = \<lparr>lg_lease_id = l, lg_attempt_id = ''a'', lg_step_id = ''s1'', lg_run_id = ''r1'',
     lg_fencing_token = n, lg_granted_at = 2, lg_expires_at = 302, lg_worker_id = w\<rparr>"

lemma queued_async: "sched_async ok_journal queued_sched []"
  unfolding queued_sched_def by (rule sched_async.other [OF sched_async.init]) simp

lemma queued_begin:
  "acquire_begin queued_sched ''s1'' ''w1'' 2 ''l1'' ''a'' =
     Some (queued_sched\<lparr>sd_fencing_counter := 1\<rparr>, sample_grant ''l1'' 1 ''w1'')"
  "acquire_begin (queued_sched\<lparr>sd_fencing_counter := 1\<rparr>) ''s1'' ''w2'' 2 ''l2'' ''a'' =
     Some (queued_sched\<lparr>sd_fencing_counter := 2\<rparr>, sample_grant ''l2'' 2 ''w2'')"
  by (simp_all add: queued_sched_def sched_eval sample_grant_def)


section \<open>Limits of the scheduler\<close>

text \<open>
  Two coroutines that both passed the checks before either updated the tables leave two active
  leases for one step, above the concurrency limit of one.
\<close>

lemma double_lease_interleaving:
  "\<exists>s. sched_async ok_journal s [] \<and> length (sd_active_leases s) = 2 \<and> sd_max_concurrent s = 1 \<and>
     map (lg_step_id \<circ> snd) (sd_active_leases s) = [''s1'', ''s1'']"
proof -
  let ?g1 = "sample_grant ''l1'' 1 ''w1''" and ?g2 = "sample_grant ''l2'' 2 ''w2''"
  let ?s2 = "queued_sched\<lparr>sd_fencing_counter := 2\<rparr>"
  have w: "sched_write ok_journal s ev p = Some s" for s :: "unit scheduler" and ev p
    by (simp add: sched_write_def ok_journal_def)
  have 0: "sched_async ok_journal ?s2 [?g2, ?g1]"
    by (rule sched_async.begin_acquire [OF sched_async.begin_acquire
        [OF queued_async queued_begin(1)] queued_begin(2)])
  have 1: "sched_async ok_journal (acquire_commit ?s2 ?g1) (remove1 ?g1 [?g2, ?g1])"
    by (rule sched_async.commit_acquire [OF 0 _ w]) simp
  then have "sched_async ok_journal (acquire_commit (acquire_commit ?s2 ?g1) ?g2)
      (remove1 ?g2 (remove1 ?g1 [?g2, ?g1]))"
    by (rule sched_async.commit_acquire [OF _ _ w]) (simp add: sample_grant_def)
  moreover have "remove1 ?g2 (remove1 ?g1 [?g2, ?g1]) = []" by (simp add: sample_grant_def)
  ultimately show ?thesis
    by (intro exI [of _ "acquire_commit (acquire_commit ?s2 ?g1) ?g2"])
      (simp add: acquire_commit_def queued_sched_def sched_eval sample_grant_def)
qed

text \<open>
  \<open>renew_lease\<close> moves the expiry before the write: when the write raises, the lease is extended but
  the heap does not know it, so the check that pops the old entry drops it for good.
\<close>

lemma failed_renewal_never_expires:
  "let s1 = fst (renew_lease (\<lambda>j ev p. if ev = ''scheduler.lease_renewed'' then None else Some ()) sample_sched ''l1'' 100);
       s2 = fst (check_expired_leases ok_journal s1 350 (\<lambda>_. 350) (\<lambda>_. 0))
   in dget (sd_active_leases s2) ''l1'' \<noteq> None \<and> sd_expiry_heap s2 = []"
  by (simp add: renew_lease_def renew_begin_def sample_sched_eval scheduler_init_def sched_write_def
      check_expired_leases_def Let_def dset_def tadd_def round64_numeral)

text \<open>\<open>mark_dead_letter\<close> forgets the step of an active lease but keeps the lease.\<close>

lemma dead_letter_keeps_lease:
  "let s = sched_step ok_journal sample_sched (SDead ''s1'' ''operator'' 5)
   in dget (sd_step_to_lease s) ''s1'' = None \<and> dget (sd_active_leases s) ''l1'' \<noteq> None"
  by (simp add: mark_dead_letter_def dead_letter_begin_def sample_sched_eval scheduler_init_def
      sched_write_def ok_journal_def Let_def)

inductive_cases sched_asyncE [elim]: "sched_async we s (g # ps)"

end
