(* ===== verification/Activities.thy ===== *)
theory Activities
  imports Scheduler
begin

text \<open>
  The activity executor of \<^verbatim>\<open>src/src/autonomous/scheduler/activities.py\<close>: durable activities bound
  to a lease by its fencing token. As in the scheduler the journal is a parameter; every operation
  changes the state first and then writes, so a write that raises leaves the change in place.
\<close>

section \<open>Data\<close>

datatype activity_state =
    AV_PENDING | AV_RUNNING | AV_CHECKPOINTED | AV_SUCCEEDED | AV_FAILED | AV_TIMED_OUT | AV_CANCELED

fun activity_state_value :: "activity_state \<Rightarrow> string" where
  "activity_state_value AV_PENDING = ''pending''"
| "activity_state_value AV_RUNNING = ''running''"
| "activity_state_value AV_CHECKPOINTED = ''checkpointed''"
| "activity_state_value AV_SUCCEEDED = ''succeeded''"
| "activity_state_value AV_FAILED = ''failed''"
| "activity_state_value AV_TIMED_OUT = ''timed_out''"
| "activity_state_value AV_CANCELED = ''canceled''"

datatype activity_type =
    AY_ADMISSION | AY_PLANNING | AY_EXECUTION | AY_VERIFICATION | AY_RECONCILIATION | AY_REPORTING
  | AY_COMPENSATION

fun activity_type_value :: "activity_type \<Rightarrow> string" where
  "activity_type_value AY_ADMISSION = ''admission''"
| "activity_type_value AY_PLANNING = ''planning''"
| "activity_type_value AY_EXECUTION = ''execution''"
| "activity_type_value AY_VERIFICATION = ''verification''"
| "activity_type_value AY_RECONCILIATION = ''reconciliation''"
| "activity_type_value AY_REPORTING = ''reporting''"
| "activity_type_value AY_COMPENSATION = ''compensation''"

interpretation activity_state_enum: py_enum activity_state_value
  "[AV_PENDING, AV_RUNNING, AV_CHECKPOINTED, AV_SUCCEEDED, AV_FAILED, AV_TIMED_OUT, AV_CANCELED]"
proof
  show "x \<in> set [AV_PENDING, AV_RUNNING, AV_CHECKPOINTED, AV_SUCCEEDED, AV_FAILED, AV_TIMED_OUT,
    AV_CANCELED]" for x by (cases x) simp_all
qed simp

interpretation activity_type_enum: py_enum activity_type_value
  "[AY_ADMISSION, AY_PLANNING, AY_EXECUTION, AY_VERIFICATION, AY_RECONCILIATION, AY_REPORTING,
    AY_COMPENSATION]"
proof
  show "x \<in> set [AY_ADMISSION, AY_PLANNING, AY_EXECUTION, AY_VERIFICATION, AY_RECONCILIATION,
    AY_REPORTING, AY_COMPENSATION]" for x by (cases x) simp_all
qed simp

datatype activity_exn =
    StaleLease int int
  | ActivityNotFound string
  | ActivityValueError string
  | ActivityJournalError

record activity_checkpoint =
  cp_checkpoint_id :: string
  cp_activity_id :: string
  cp_data :: pydict
  cp_created_at :: timestamp
  cp_blob_ref :: string

record activity =
  av_activity_id :: string
  av_activity_type :: activity_type
  av_run_id :: string
  av_step_id :: string
  av_state :: activity_state
  av_input_hash :: string
  av_attempt_number :: int
  av_lease_id :: string
  av_fencing_token :: int
  av_heartbeat_at :: timestamp
  av_started_at :: timestamp
  av_completed_at :: timestamp
  av_last_checkpoint :: "activity_checkpoint option"
  av_effect_ids :: "string list"
  av_error :: string
  av_aggregate_version :: int

record 'j activity_executor =
  ae_journal :: 'j
  ae_activities :: "(string, activity) dict"
  ae_lease_to_activity :: "(string, string) dict"

section \<open>Operations\<close>

definition executor_init :: "'j \<Rightarrow> 'j activity_executor" where
  "executor_init j = \<lparr>ae_journal = j, ae_activities = [], ae_lease_to_activity = []\<rparr>"

definition ae_write ::
  "'j write_event \<Rightarrow> 'j activity_executor \<Rightarrow> string \<Rightarrow> pydict \<Rightarrow> 'a \<Rightarrow>
     'j activity_executor \<times> (activity_exn + 'a)" where
  "ae_write we x ev payload result =
     (case we (ae_journal x) ev payload of
        None \<Rightarrow> (x, Inl ActivityJournalError)
      | Some j \<Rightarrow> (x\<lparr>ae_journal := j\<rparr>, Inr result))"

definition put_activity :: "'j activity_executor \<Rightarrow> string \<Rightarrow> activity \<Rightarrow> 'j activity_executor" where
  "put_activity x i a = x\<lparr>ae_activities := dset (ae_activities x) i a\<rparr>"

definition activity_get :: "'j activity_executor \<Rightarrow> string \<Rightarrow> activity_exn + activity" where
  "activity_get x i =
     (case dget (ae_activities x) i of
        None \<Rightarrow> Inl (ActivityNotFound (''activity not found: '' @ i))
      | Some a \<Rightarrow> Inr a)"

definition check_fence :: "activity \<Rightarrow> int \<Rightarrow> activity_exn + unit" where
  "check_fence a token =
     (if av_fencing_token a \<noteq> 0 \<and> token < av_fencing_token a
      then Inl (StaleLease token (av_fencing_token a)) else Inr ())"

definition activity_create ::
  "'j write_event \<Rightarrow> 'j activity_executor \<Rightarrow> activity_type \<Rightarrow> string \<Rightarrow> string \<Rightarrow> string \<Rightarrow> string \<Rightarrow> int \<Rightarrow>
     string \<Rightarrow> 'j activity_executor \<times> (activity_exn + activity)" where
  "activity_create we x ty run_id step_id input_hash lease_id token fresh =
     (let a = \<lparr>av_activity_id = fresh, av_activity_type = ty, av_run_id = run_id, av_step_id = step_id,
            av_state = AV_PENDING, av_input_hash = input_hash, av_attempt_number = 1,
            av_lease_id = lease_id, av_fencing_token = token, av_heartbeat_at = 0, av_started_at = 0,
            av_completed_at = 0, av_last_checkpoint = None, av_effect_ids = [], av_error = [],
            av_aggregate_version = 0\<rparr>;
          x1 = put_activity x fresh a;
          x2 = (if lease_id \<noteq> []
                then x1\<lparr>ae_lease_to_activity := dset (ae_lease_to_activity x1) lease_id fresh\<rparr> else x1)
      in ae_write we x2 ''activity.created''
           [(''activity_id'', PStr fresh), (''activity_type'', PStr (activity_type_value ty)),
            (''run_id'', PStr run_id), (''step_id'', PStr step_id), (''input_hash'', PStr input_hash),
            (''lease_id'', PStr lease_id), (''fencing_token'', PInt token)] a)"

text \<open>The common shape of the operations on an existing activity: look up, check, change, write.\<close>

definition activity_update ::
  "'j write_event \<Rightarrow> 'j activity_executor \<Rightarrow> string \<Rightarrow> (activity \<Rightarrow> activity_exn + activity) \<Rightarrow> string \<Rightarrow>
     pydict \<Rightarrow> 'j activity_executor \<times> (activity_exn + activity)" where
  "activity_update we x i f ev payload =
     (case bindE (activity_get x i) f of
        Inl e \<Rightarrow> (x, Inl e)
      | Inr a \<Rightarrow> ae_write we (put_activity x i a) ev payload a)"

definition start_change :: "int \<Rightarrow> timestamp \<Rightarrow> activity \<Rightarrow> activity_exn + activity" where
  "start_change token now a =
     bindE (check_fence a token) (\<lambda>_.
       if av_state a \<notin> {AV_PENDING, AV_CHECKPOINTED}
       then Inl (ActivityValueError (''cannot start activity in state '' @ activity_state_value (av_state a)))
       else Inr (a\<lparr>av_state := AV_RUNNING, av_started_at := now, av_heartbeat_at := now,
                   av_aggregate_version := av_aggregate_version a + 1\<rparr>))"

definition activity_start ::
  "'j write_event \<Rightarrow> 'j activity_executor \<Rightarrow> string \<Rightarrow> int \<Rightarrow> timestamp \<Rightarrow>
     'j activity_executor \<times> (activity_exn + activity)" where
  "activity_start we x i token now =
     activity_update we x i (start_change token now) ''activity.started''
       [(''activity_id'', PStr i), (''fencing_token'', PInt token)]"

definition activity_heartbeat ::
  "'j activity_executor \<Rightarrow> string \<Rightarrow> int \<Rightarrow> timestamp \<Rightarrow> 'j activity_executor \<times> (activity_exn + unit)" where
  "activity_heartbeat x i token now =
     (case bindE (activity_get x i) (\<lambda>a. bindE (check_fence a token) (\<lambda>_. Inr a)) of
        Inl e \<Rightarrow> (x, Inl e)
      | Inr a \<Rightarrow> (put_activity x i (a\<lparr>av_heartbeat_at := now\<rparr>), Inr ()))"

definition checkpoint_change :: "int \<Rightarrow> activity_checkpoint \<Rightarrow> activity \<Rightarrow> activity_exn + activity" where
  "checkpoint_change token cp a =
     bindE (check_fence a token) (\<lambda>_.
       if av_state a \<noteq> AV_RUNNING then Inl (ActivityValueError ''can only checkpoint a running activity'')
       else Inr (a\<lparr>av_last_checkpoint := Some cp, av_state := AV_CHECKPOINTED,
                   av_aggregate_version := av_aggregate_version a + 1\<rparr>))"

definition checkpoint ::
  "'j write_event \<Rightarrow> 'j activity_executor \<Rightarrow> string \<Rightarrow> int \<Rightarrow> pydict \<Rightarrow> string \<Rightarrow> string \<Rightarrow> timestamp \<Rightarrow>
     'j activity_executor \<times> (activity_exn + activity_checkpoint)" where
  "checkpoint we x i token data blob_ref fresh now =
     (let cp = \<lparr>cp_checkpoint_id = fresh, cp_activity_id = i, cp_data = data, cp_created_at = now,
                cp_blob_ref = blob_ref\<rparr>
      in map_prod id (map_sum id (\<lambda>_. cp))
           (activity_update we x i (checkpoint_change token cp) ''activity.checkpointed''
             [(''activity_id'', PStr i), (''checkpoint_id'', PStr fresh), (''blob_ref'', PStr blob_ref)]))"

definition complete_change :: "int \<Rightarrow> bool \<Rightarrow> string \<Rightarrow> timestamp \<Rightarrow> activity \<Rightarrow> activity_exn + activity" where
  "complete_change token success err now a =
     bindE (check_fence a token) (\<lambda>_.
       if av_state a \<notin> {AV_RUNNING, AV_CHECKPOINTED}
       then Inl (ActivityValueError (''cannot complete activity in state '' @ activity_state_value (av_state a)))
       else Inr (a\<lparr>av_state := (if success then AV_SUCCEEDED else AV_FAILED), av_completed_at := now,
                   av_error := err, av_aggregate_version := av_aggregate_version a + 1\<rparr>))"

definition complete ::
  "'j write_event \<Rightarrow> 'j activity_executor \<Rightarrow> string \<Rightarrow> int \<Rightarrow> bool \<Rightarrow> string \<Rightarrow> timestamp \<Rightarrow>
     'j activity_executor \<times> (activity_exn + activity)" where
  "complete we x i token success err now =
     activity_update we x i (complete_change token success err now) ''activity.completed''
       [(''activity_id'', PStr i), (''success'', PBool success), (''error'', PStr err)]"

definition cancel_change :: "timestamp \<Rightarrow> activity \<Rightarrow> activity_exn + activity" where
  "cancel_change now a =
     (if av_state a \<in> {AV_SUCCEEDED, AV_FAILED, AV_CANCELED}
      then Inl (ActivityValueError ''cannot cancel terminal activity'')
      else Inr (a\<lparr>av_state := AV_CANCELED, av_completed_at := now,
                  av_aggregate_version := av_aggregate_version a + 1\<rparr>))"

definition activity_cancel ::
  "'j write_event \<Rightarrow> 'j activity_executor \<Rightarrow> string \<Rightarrow> timestamp \<Rightarrow>
     'j activity_executor \<times> (activity_exn + activity)" where
  "activity_cancel we x i now =
     activity_update we x i (cancel_change now) ''activity.canceled'' [(''activity_id'', PStr i)]"

definition timeout_change :: "timestamp \<Rightarrow> activity \<Rightarrow> activity_exn + activity" where
  "timeout_change now a =
     (if av_state a \<in> {AV_SUCCEEDED, AV_FAILED, AV_CANCELED, AV_TIMED_OUT}
      then Inl (ActivityValueError ''cannot timeout terminal activity'')
      else Inr (a\<lparr>av_state := AV_TIMED_OUT, av_completed_at := now,
                  av_aggregate_version := av_aggregate_version a + 1\<rparr>))"

definition activity_timeout ::
  "'j write_event \<Rightarrow> 'j activity_executor \<Rightarrow> string \<Rightarrow> timestamp \<Rightarrow>
     'j activity_executor \<times> (activity_exn + activity)" where
  "activity_timeout we x i now =
     activity_update we x i (timeout_change now) ''activity.timed_out'' [(''activity_id'', PStr i)]"

definition get_by_lease :: "'j activity_executor \<Rightarrow> string \<Rightarrow> activity option" where
  "get_by_lease x lease_id =
     (case dget (ae_lease_to_activity x) lease_id of
        None \<Rightarrow> None
      | Some aid \<Rightarrow> if aid = [] then None else dget (ae_activities x) aid)"

definition list_active :: "'j activity_executor \<Rightarrow> string \<Rightarrow> activity list" where
  "list_active x run_id = filter (\<lambda>a. av_run_id a = run_id \<and>
     av_state a \<in> {AV_PENDING, AV_RUNNING, AV_CHECKPOINTED}) (dvals (ae_activities x))"

definition list_resumable :: "'j activity_executor \<Rightarrow> activity list" where
  "list_resumable x = filter (\<lambda>a. av_state a = AV_CHECKPOINTED) (dvals (ae_activities x))"

section \<open>Histories\<close>

datatype activity_call =
    ACreate activity_type string string string string int string
  | AStart string int timestamp
  | AHeartbeat string int timestamp
  | ACheckpoint string int pydict string string timestamp
  | AComplete string int bool string timestamp
  | ACancel string timestamp
  | ATimeout string timestamp

fun activity_step :: "'j write_event \<Rightarrow> 'j activity_executor \<Rightarrow> activity_call \<Rightarrow> 'j activity_executor" where
  "activity_step we x (ACreate ty r st h l t i) = fst (activity_create we x ty r st h l t i)"
| "activity_step we x (AStart i t now) = fst (activity_start we x i t now)"
| "activity_step we x (AHeartbeat i t now) = fst (activity_heartbeat x i t now)"
| "activity_step we x (ACheckpoint i t d b f now) = fst (checkpoint we x i t d b f now)"
| "activity_step we x (AComplete i t s e now) = fst (complete we x i t s e now)"
| "activity_step we x (ACancel i now) = fst (activity_cancel we x i now)"
| "activity_step we x (ATimeout i now) = fst (activity_timeout we x i now)"

text \<open>Fresh ids are not in use, as \<open>new_id\<close> promises.\<close>

fun activity_run_ok :: "'j write_event \<Rightarrow> 'j activity_executor \<Rightarrow> activity_call list \<Rightarrow> bool" where
  "activity_run_ok we x [] = True"
| "activity_run_ok we x (c # cs) =
     ((case c of ACreate _ _ _ _ _ _ i \<Rightarrow> dget (ae_activities x) i = None | _ \<Rightarrow> True) \<and>
      activity_run_ok we (activity_step we x c) cs)"

definition activity_run :: "'j write_event \<Rightarrow> 'j activity_executor \<Rightarrow> activity_call list \<Rightarrow> 'j activity_executor" where
  "activity_run we x cs = fold (\<lambda>c x. activity_step we x c) cs x"

text \<open>The moves of an activity's state that the operations make.\<close>

inductive activity_move :: "activity \<Rightarrow> activity \<Rightarrow> bool" where
  stay: "activity_move a (a\<lparr>av_heartbeat_at := t\<rparr>)"
| start: "start_change tok now a = Inr b \<Longrightarrow> activity_move a b"
| check: "checkpoint_change tok cp a = Inr b \<Longrightarrow> activity_move a b"
| complete: "complete_change tok ok e now a = Inr b \<Longrightarrow> activity_move a b"
| cancel: "cancel_change now a = Inr b \<Longrightarrow> activity_move a b"
| timeout: "timeout_change now a = Inr b \<Longrightarrow> activity_move a b"

lemmas change_defs = start_change_def checkpoint_change_def complete_change_def cancel_change_def
  timeout_change_def

definition finished_states :: "activity_state set" where
  "finished_states = {AV_SUCCEEDED, AV_FAILED, AV_CANCELED}"

lemma activity_move_final:
  "activity_move a b \<Longrightarrow> av_state a \<in> finished_states \<Longrightarrow> av_state b = av_state a \<and>
     av_aggregate_version b = av_aggregate_version a \<and> av_error b = av_error a"
  by (erule activity_move.cases)
    (auto simp: change_defs finished_states_def bindE_Inr_iff split: if_splits)

lemma activity_move_token: "activity_move a b \<Longrightarrow> av_fencing_token b = av_fencing_token a"
  by (erule activity_move.cases) (auto simp: change_defs bindE_Inr_iff split: if_splits)

lemma activity_move_version:
  "activity_move a b \<Longrightarrow> av_state b \<noteq> av_state a \<Longrightarrow> av_aggregate_version b = av_aggregate_version a + 1"
  by (erule activity_move.cases) (auto simp: change_defs bindE_Inr_iff split: if_splits)

lemma ae_write_activities [simp]: "ae_activities (fst (ae_write we x ev p r)) = ae_activities x"
  by (simp add: ae_write_def split: option.split)

lemma activity_update_move:
  assumes "\<And>a b. f a = Inr b \<Longrightarrow> activity_move a b"
    and "dget (ae_activities x) i = Some a"
  shows "\<exists>b. dget (ae_activities (fst (activity_update we x k f ev p))) i = Some b \<and> (b = a \<or> activity_move a b)"
proof (cases "bindE (activity_get x k) f")
  case (Inl e)
  with assms(2) show ?thesis by (simp add: activity_update_def)
next
  case (Inr b)
  then obtain c where c: "dget (ae_activities x) k = Some c" "f c = Inr b"
    by (auto simp: bindE_Inr_iff activity_get_def split: option.splits)
  with Inr assms show ?thesis
    by (cases "i = k") (auto simp: activity_update_def put_activity_def)
qed

lemma activity_step_move:
  assumes "dget (ae_activities x) i = Some a" and "activity_run_ok we x [c]"
  shows "\<exists>b. dget (ae_activities (activity_step we x c)) i = Some b \<and> (b = a \<or> activity_move a b)"
proof (cases c)
  case (ACreate ty r st h l t k)
  with assms show ?thesis by (auto simp: activity_create_def put_activity_def Let_def)
next
  case (AHeartbeat k t now)
  show ?thesis
  proof (cases "bindE (activity_get x k) (\<lambda>a. bindE (check_fence a t) (\<lambda>_. Inr a))")
    case (Inr c)
    then have "dget (ae_activities x) k = Some c"
      by (auto simp: bindE_Inr_iff activity_get_def split: option.splits)
    with Inr assms AHeartbeat show ?thesis
      by (auto simp: activity_heartbeat_def put_activity_def intro: activity_move.stay)
  qed (use assms AHeartbeat in \<open>simp add: activity_heartbeat_def\<close>)
next
  case (ACheckpoint k t d b f now)
  then show ?thesis
    using activity_update_move [of "checkpoint_change t _", OF activity_move.check assms(1)]
    by (simp add: checkpoint_def Let_def)
next
  case (AStart k t now)
  then show ?thesis
    using activity_update_move [of "start_change t now", OF activity_move.start assms(1)]
    by (simp add: activity_start_def)
next
  case (AComplete k t s e now)
  then show ?thesis
    using activity_update_move [of "complete_change t s e now", OF activity_move.complete assms(1)]
    by (simp add: complete_def)
next
  case (ACancel k now)
  then show ?thesis
    using activity_update_move [of "cancel_change now", OF activity_move.cancel assms(1)]
    by (simp add: activity_cancel_def)
next
  case (ATimeout k now)
  then show ?thesis
    using activity_update_move [of "timeout_change now", OF activity_move.timeout assms(1)]
    by (simp add: activity_timeout_def)
qed

lemma activity_run_move:
  assumes "dget (ae_activities x) i = Some a" and "activity_run_ok we x cs"
  shows "\<exists>b. dget (ae_activities (activity_run we x cs)) i = Some b \<and> activity_move\<^sup>*\<^sup>* a b"
  using assms
proof (induction cs arbitrary: x a)
  case (Cons c cs)
  obtain b where b: "dget (ae_activities (activity_step we x c)) i = Some b" "b = a \<or> activity_move a b"
    using activity_step_move [OF Cons.prems(1), of we c] Cons.prems(2) by auto
  from Cons.IH [OF b(1)] Cons.prems(2) obtain d where
    "dget (ae_activities (activity_run we (activity_step we x c) cs)) i = Some d" "activity_move\<^sup>*\<^sup>* b d" by auto
  with b(2) show ?case by (auto simp: activity_run_def intro: converse_rtranclp_into_rtranclp)
qed (simp add: activity_run_def)

lemma rtrancl_final:
  "activity_move\<^sup>*\<^sup>* a b \<Longrightarrow> av_state a \<in> finished_states \<Longrightarrow> av_state b = av_state a \<and>
     av_aggregate_version b = av_aggregate_version a \<and> av_error b = av_error a"
  by (induction rule: rtranclp_induct) (auto dest: activity_move_final)

lemma rtrancl_token: "activity_move\<^sup>*\<^sup>* a b \<Longrightarrow> av_fencing_token b = av_fencing_token a"
  by (induction rule: rtranclp_induct) (auto dest: activity_move_token)

section \<open>Properties\<close>


definition sample_activity :: "activity_state \<Rightarrow> activity" where
  "sample_activity st = \<lparr>av_activity_id = ''act_1'', av_activity_type = AY_EXECUTION, av_run_id = ''r1'',
     av_step_id = ''s1'', av_state = st, av_input_hash = [], av_attempt_number = 1,
     av_lease_id = ''l2'', av_fencing_token = 2, av_heartbeat_at = 0, av_started_at = 0,
     av_completed_at = 0, av_last_checkpoint = None, av_effect_ids = [], av_error = [],
     av_aggregate_version = 0\<rparr>"

definition sample_executor :: "activity_state \<Rightarrow> unit activity_executor" where
  "sample_executor st = \<lparr>ae_journal = (), ae_activities = [(''act_1'', sample_activity st)],
     ae_lease_to_activity = [(''l2'', ''act_1'')]\<rparr>"


text \<open>
  A finished activity is final: once it succeeded, failed or was canceled, no later call
  changes its state, its version or its error, and every checkpointed activity can be resumed with
  its own token.
\<close>

lemma finished_activity_final:
  assumes "dget (ae_activities x) i = Some a" and "activity_run_ok we x cs"
  shows "(av_state a \<in> {AV_SUCCEEDED, AV_FAILED, AV_CANCELED} \<longrightarrow>
      (\<exists>b. dget (ae_activities (activity_run we x cs)) i = Some b \<and> av_state b = av_state a \<and>
        av_aggregate_version b = av_aggregate_version a \<and> av_error b = av_error a)) \<and>
    (a \<in> set (list_resumable x) \<longrightarrow> journal_total we \<longrightarrow>
      (\<exists>y b. activity_start we x i (av_fencing_token a) now = (y, Inr b) \<and> av_state b = AV_RUNNING))"
proof (intro conjI impI)
  assume fin: "av_state a \<in> {AV_SUCCEEDED, AV_FAILED, AV_CANCELED}"
  obtain b where "dget (ae_activities (activity_run we x cs)) i = Some b" "activity_move\<^sup>*\<^sup>* a b"
    using activity_run_move [OF assms(1,2)] by blast
  with rtrancl_final fin show "\<exists>b. dget (ae_activities (activity_run we x cs)) i = Some b \<and>
      av_state b = av_state a \<and> av_aggregate_version b = av_aggregate_version a \<and> av_error b = av_error a"
    by (auto simp: finished_states_def)
next
  assume res: "a \<in> set (list_resumable x)" and j: "journal_total we"
  from res have "start_change (av_fencing_token a) now a =
      Inr (a\<lparr>av_state := AV_RUNNING, av_started_at := now, av_heartbeat_at := now,
             av_aggregate_version := av_aggregate_version a + 1\<rparr>)"
    by (simp add: list_resumable_def start_change_def check_fence_def)
  with assms(1) j show "\<exists>y b. activity_start we x i (av_fencing_token a) now = (y, Inr b) \<and> av_state b = AV_RUNNING"
    by (auto simp: activity_start_def activity_update_def activity_get_def ae_write_def journal_total_def
        split: option.split)
qed

lemma finished_activity_final_witness:
  "\<exists>b. dget (ae_activities (activity_run ok_journal (sample_executor AV_FAILED)
      [AStart ''act_1'' 2 5, ACancel ''act_1'' 6, ATimeout ''act_1'' 7])) ''act_1'' = Some b \<and> av_state b = AV_FAILED"
proof -
  have a: "dget (ae_activities (sample_executor AV_FAILED)) ''act_1'' = Some (sample_activity AV_FAILED)"
    by (simp add: sample_executor_def)
  have ok: "activity_run_ok ok_journal (sample_executor AV_FAILED)
      [AStart ''act_1'' 2 5, ACancel ''act_1'' 6, ATimeout ''act_1'' 7]" by simp
  from finished_activity_final [OF a ok] show ?thesis by (auto simp: sample_activity_def)
qed

text \<open>A timed-out activity can still be canceled: \<open>cancel\<close> does not treat it as terminal.\<close>

lemma timed_out_can_be_canceled:
  "map_prod id (map_sum id av_state) (activity_cancel ok_journal (sample_executor AV_TIMED_OUT) ''act_1'' 5) =
   (fst (activity_cancel ok_journal (sample_executor AV_TIMED_OUT) ''act_1'' 5), Inr AV_CANCELED)"
  by (simp add: activity_cancel_def activity_update_def activity_get_def sample_executor_def
      sample_activity_def cancel_change_def ae_write_def ok_journal_def)

end
