(* ===== verification/Triggers.thy ===== *)
theory Triggers
  imports Activities
begin

text \<open>
  The trigger service of \<^verbatim>\<open>src/src/autonomous/scheduler/triggers.py\<close>. The state changes before the
  journal write; a write that raises leaves it changed.
\<close>

section \<open>Data\<close>

datatype trigger_type = TT_SCHEDULE | TT_STANDING | TT_EVENT

fun trigger_type_value :: "trigger_type \<Rightarrow> string" where
  "trigger_type_value TT_SCHEDULE = ''schedule''"
| "trigger_type_value TT_STANDING = ''standing''"
| "trigger_type_value TT_EVENT = ''event''"

datatype trigger_state = TS_ACTIVE | TS_PAUSED | TS_EXPIRED | TS_CANCELED

fun trigger_state_value :: "trigger_state \<Rightarrow> string" where
  "trigger_state_value TS_ACTIVE = ''active''"
| "trigger_state_value TS_PAUSED = ''paused''"
| "trigger_state_value TS_EXPIRED = ''expired''"
| "trigger_state_value TS_CANCELED = ''canceled''"

interpretation trigger_type_enum: py_enum trigger_type_value "[TT_SCHEDULE, TT_STANDING, TT_EVENT]"
proof
  show "x \<in> set [TT_SCHEDULE, TT_STANDING, TT_EVENT]" for x by (cases x) simp_all
qed simp

interpretation trigger_state_enum: py_enum trigger_state_value
  "[TS_ACTIVE, TS_PAUSED, TS_EXPIRED, TS_CANCELED]"
proof
  show "x \<in> set [TS_ACTIVE, TS_PAUSED, TS_EXPIRED, TS_CANCELED]" for x by (cases x) simp_all
qed simp

record trigger_definition =
  td_trigger_id :: string
  td_trigger_type :: trigger_type
  td_goal_template_id :: string
  td_tenant_key :: string
  td_owner_principal_id :: string
  td_state :: trigger_state
  td_schedule_cron :: string
  td_event_filter :: string
  td_max_occurrences :: int
  td_occurrence_count :: int
  td_last_fired_at :: timestamp
  td_next_fire_at :: timestamp
  td_created_at :: timestamp

record trigger_occurrence =
  oc_occurrence_id :: string
  oc_trigger_id :: string
  oc_goal_id :: string
  oc_run_id :: string
  oc_fired_at :: timestamp

record 'j trigger_service =
  tr_journal :: 'j
  tr_triggers :: "(string, trigger_definition) dict"
  tr_occurrences :: "trigger_occurrence list"

datatype trigger_exn = TriggerValueError string | TriggerJournalError

section \<open>Operations\<close>

definition trigger_service_init :: "'j \<Rightarrow> 'j trigger_service" where
  "trigger_service_init j = \<lparr>tr_journal = j, tr_triggers = [], tr_occurrences = []\<rparr>"

definition tr_write ::
  "'j write_event \<Rightarrow> 'j trigger_service \<Rightarrow> string \<Rightarrow> pydict \<Rightarrow> 'a \<Rightarrow> 'j trigger_service \<times> (trigger_exn + 'a)" where
  "tr_write we x ev payload result =
     (case we (tr_journal x) ev payload of
        None \<Rightarrow> (x, Inl TriggerJournalError)
      | Some j \<Rightarrow> (x\<lparr>tr_journal := j\<rparr>, Inr result))"

definition trigger_register ::
  "'j write_event \<Rightarrow> 'j trigger_service \<Rightarrow> trigger_type \<Rightarrow> string \<Rightarrow> string \<Rightarrow> string \<Rightarrow> string \<Rightarrow> string \<Rightarrow>
     int \<Rightarrow> string \<Rightarrow> timestamp \<Rightarrow> 'j trigger_service \<times> (trigger_exn + trigger_definition)" where
  "trigger_register we x ty template tenant owner cron event_filter max_occurrences fresh now =
     (let t = \<lparr>td_trigger_id = fresh, td_trigger_type = ty, td_goal_template_id = template,
            td_tenant_key = tenant, td_owner_principal_id = owner, td_state = TS_ACTIVE,
            td_schedule_cron = cron, td_event_filter = event_filter,
            td_max_occurrences = max_occurrences, td_occurrence_count = 0, td_last_fired_at = 0,
            td_next_fire_at = 0, td_created_at = now\<rparr>
      in tr_write we (x\<lparr>tr_triggers := dset (tr_triggers x) fresh t\<rparr>) ''trigger.registered''
           [(''trigger_id'', PStr fresh), (''trigger_type'', PStr (trigger_type_value ty)),
            (''goal_template_id'', PStr template), (''tenant_key'', PStr tenant)] t)"

definition trigger_fire ::
  "'j write_event \<Rightarrow> 'j trigger_service \<Rightarrow> string \<Rightarrow> string \<Rightarrow> string \<Rightarrow> string \<Rightarrow> timestamp \<Rightarrow>
     'j trigger_service \<times> (trigger_exn + trigger_occurrence option)" where
  "trigger_fire we x trigger_id goal_id run_id fresh now =
     (case dget (tr_triggers x) trigger_id of
        None \<Rightarrow> (x, Inl (TriggerValueError (''trigger not found: '' @ trigger_id)))
      | Some t \<Rightarrow>
          if td_state t \<noteq> TS_ACTIVE then (x, Inr None)
          else if td_max_occurrences t \<noteq> 0 \<and> td_occurrence_count t \<ge> td_max_occurrences t
          then (x\<lparr>tr_triggers := dset (tr_triggers x) trigger_id (t\<lparr>td_state := TS_EXPIRED\<rparr>)\<rparr>, Inr None)
          else
            let oc = \<lparr>oc_occurrence_id = fresh, oc_trigger_id = trigger_id, oc_goal_id = goal_id,
                  oc_run_id = run_id, oc_fired_at = now\<rparr>;
                t1 = t\<lparr>td_occurrence_count := td_occurrence_count t + 1, td_last_fired_at := now\<rparr>
            in tr_write we (x\<lparr>tr_triggers := dset (tr_triggers x) trigger_id t1,
                              tr_occurrences := tr_occurrences x @ [oc]\<rparr>) ''trigger.fired''
                 [(''trigger_id'', PStr trigger_id), (''occurrence_id'', PStr fresh),
                  (''occurrence_count'', PInt (td_occurrence_count t1))] (Some oc))"

definition trigger_get :: "'j trigger_service \<Rightarrow> string \<Rightarrow> trigger_exn + trigger_definition" where
  "trigger_get x trigger_id =
     (case dget (tr_triggers x) trigger_id of
        None \<Rightarrow> Inl (TriggerValueError (''trigger not found: '' @ trigger_id))
      | Some t \<Rightarrow> Inr t)"

definition set_trigger_state ::
  "'j write_event \<Rightarrow> 'j trigger_service \<Rightarrow> string \<Rightarrow> trigger_definition \<Rightarrow> trigger_state \<Rightarrow> string \<Rightarrow>
     'j trigger_service \<times> (trigger_exn + unit)" where
  "set_trigger_state we x trigger_id t st ev =
     tr_write we (x\<lparr>tr_triggers := dset (tr_triggers x) trigger_id (t\<lparr>td_state := st\<rparr>)\<rparr>) ev
       [(''trigger_id'', PStr trigger_id)] ()"

definition trigger_pause ::
  "'j write_event \<Rightarrow> 'j trigger_service \<Rightarrow> string \<Rightarrow> 'j trigger_service \<times> (trigger_exn + unit)" where
  "trigger_pause we x trigger_id =
     (case trigger_get x trigger_id of
        Inl e \<Rightarrow> (x, Inl e)
      | Inr t \<Rightarrow> set_trigger_state we x trigger_id t TS_PAUSED ''trigger.paused'')"

definition trigger_resume ::
  "'j write_event \<Rightarrow> 'j trigger_service \<Rightarrow> string \<Rightarrow> 'j trigger_service \<times> (trigger_exn + unit)" where
  "trigger_resume we x trigger_id =
     (case trigger_get x trigger_id of
        Inl e \<Rightarrow> (x, Inl e)
      | Inr t \<Rightarrow>
          if td_state t \<noteq> TS_PAUSED then (x, Inl (TriggerValueError ''can only resume paused triggers''))
          else set_trigger_state we x trigger_id t TS_ACTIVE ''trigger.resumed'')"

definition trigger_cancel ::
  "'j write_event \<Rightarrow> 'j trigger_service \<Rightarrow> string \<Rightarrow> 'j trigger_service \<times> (trigger_exn + unit)" where
  "trigger_cancel we x trigger_id =
     (case trigger_get x trigger_id of
        Inl e \<Rightarrow> (x, Inl e)
      | Inr t \<Rightarrow> set_trigger_state we x trigger_id t TS_CANCELED ''trigger.canceled'')"

text \<open>\<open>now or time.time()\<close>: a reading of zero counts as missing.\<close>

definition get_due_triggers :: "'j trigger_service \<Rightarrow> timestamp option \<Rightarrow> timestamp \<Rightarrow> trigger_definition list" where
  "get_due_triggers x now clock =
     (let current = (case now of Some n \<Rightarrow> if n \<noteq> 0 then n else clock | None \<Rightarrow> clock)
      in filter (\<lambda>t. td_state t = TS_ACTIVE \<and> td_trigger_type t = TT_SCHEDULE \<and>
           td_next_fire_at t \<le> current) (dvals (tr_triggers x)))"

definition trigger_list_active :: "'j trigger_service \<Rightarrow> string \<Rightarrow> trigger_definition list" where
  "trigger_list_active x tenant =
     (let ts = filter (\<lambda>t. td_state t = TS_ACTIVE) (dvals (tr_triggers x))
      in if tenant \<noteq> [] then filter (\<lambda>t. td_tenant_key t = tenant) ts else ts)"

section \<open>Histories\<close>

datatype trigger_call =
    TRegister trigger_type string string string string string int string timestamp
  | TFire string string string string timestamp
  | TPause string
  | TResume string
  | TCancel string

fun trigger_step :: "'j write_event \<Rightarrow> 'j trigger_service \<Rightarrow> trigger_call \<Rightarrow> 'j trigger_service" where
  "trigger_step we x (TRegister ty tm te ow cr ef mx i now) = fst (trigger_register we x ty tm te ow cr ef mx i now)"
| "trigger_step we x (TFire i g r f now) = fst (trigger_fire we x i g r f now)"
| "trigger_step we x (TPause i) = fst (trigger_pause we x i)"
| "trigger_step we x (TResume i) = fst (trigger_resume we x i)"
| "trigger_step we x (TCancel i) = fst (trigger_cancel we x i)"

inductive trigger_reach :: "'j write_event \<Rightarrow> 'j trigger_service \<Rightarrow> bool" for we where
  init: "trigger_reach we (trigger_service_init j)"
| step: "trigger_reach we x \<Longrightarrow>
    (\<forall>ty tm te ow cr ef mx i now. c = TRegister ty tm te ow cr ef mx i now \<longrightarrow>
       dget (tr_triggers x) i = None) \<Longrightarrow> trigger_reach we (trigger_step we x c)"

definition fired :: "'j trigger_service \<Rightarrow> string \<Rightarrow> nat" where
  "fired x i = length (filter (\<lambda>oc. oc_trigger_id oc = i) (tr_occurrences x))"

definition count_ok :: "nat \<Rightarrow> trigger_definition \<Rightarrow> bool" where
  "count_ok n t \<longleftrightarrow> td_occurrence_count t = int n \<and>
     (td_max_occurrences t > 0 \<longrightarrow> int n \<le> td_max_occurrences t) \<and>
     (td_max_occurrences t < 0 \<longrightarrow> n = 0)"

definition trigger_inv :: "'j trigger_service \<Rightarrow> bool" where
  "trigger_inv x \<longleftrightarrow> (\<forall>i. case dget (tr_triggers x) i of
     Some t \<Rightarrow> count_ok (fired x i) t | None \<Rightarrow> fired x i = 0)"

lemma trigger_invD: "trigger_inv x \<Longrightarrow> dget (tr_triggers x) i = Some t \<Longrightarrow> count_ok (fired x i) t"
  unfolding trigger_inv_def by (metis option.case(2))

lemma tr_write_keeps [simp]:
  "tr_triggers (fst (tr_write we x ev p r)) = tr_triggers x"
  "tr_occurrences (fst (tr_write we x ev p r)) = tr_occurrences x"
  "fired (fst (tr_write we x ev p r)) i = fired x i"
  by (simp_all add: tr_write_def fired_def split: option.split)

lemma fired_triggers [simp]: "fired (x\<lparr>tr_triggers := ts\<rparr>) i = fired x i"
  by (simp add: fired_def)

lemma trigger_inv_cong:
  "tr_triggers y = tr_triggers x \<Longrightarrow> fired y = fired x \<Longrightarrow> trigger_inv y = trigger_inv x"
  unfolding trigger_inv_def by (simp cong: option.case_cong)

lemma trigger_inv_write [simp]: "trigger_inv (fst (tr_write we x ev p r)) = trigger_inv x"
  by (rule trigger_inv_cong) (simp_all add: fun_eq_iff)

lemma trigger_inv_put:
  assumes "trigger_inv x" and "tr_triggers y = dset (tr_triggers x) i t" and "count_ok (fired y i) t"
    and "\<And>k. k \<noteq> i \<Longrightarrow> fired y k = fired x k"
  shows "trigger_inv y"
  unfolding trigger_inv_def
proof
  fix k
  show "case dget (tr_triggers y) k of Some t \<Rightarrow> count_ok (fired y k) t | None \<Rightarrow> fired y k = 0"
    using assms(1) [unfolded trigger_inv_def, rule_format, of k] assms(2-4)
    by (cases "k = i") (simp_all split: option.splits)
qed

lemma trigger_inv_state:
  "trigger_inv x \<Longrightarrow> dget (tr_triggers x) i = Some t \<Longrightarrow>
     trigger_inv (x\<lparr>tr_triggers := dset (tr_triggers x) i (t\<lparr>td_state := st\<rparr>)\<rparr>)"
  by (rule trigger_inv_put) (auto simp: count_ok_def fired_def dest: trigger_invD)

lemma trigger_inv_fire:
  assumes "trigger_inv x" shows "trigger_inv (fst (trigger_fire we x i g r f now))"
proof (cases "dget (tr_triggers x) i")
  case (Some t)
  let ?oc = "\<lparr>oc_occurrence_id = f, oc_trigger_id = i, oc_goal_id = g, oc_run_id = r, oc_fired_at = now\<rparr>"
  let ?y = "x\<lparr>tr_triggers := dset (tr_triggers x) i
      (t\<lparr>td_occurrence_count := td_occurrence_count t + 1, td_last_fired_at := now\<rparr>),
    tr_occurrences := tr_occurrences x @ [?oc]\<rparr>"
  have "trigger_inv ?y" if "\<not> (td_max_occurrences t \<noteq> 0 \<and> td_occurrence_count t \<ge> td_max_occurrences t)"
  proof -
    have f: "fired ?y k = (if k = i then fired x i + 1 else fired x k)" for k by (simp add: fired_def)
    have "count_ok (fired x i) t" by (rule trigger_invD [OF assms Some])
    with that have "count_ok (fired x i + 1) (t\<lparr>td_occurrence_count := td_occurrence_count t + 1, td_last_fired_at := now\<rparr>)"
      by (auto simp: count_ok_def)
    then show ?thesis by (intro trigger_inv_put [OF assms, where i = i]) (simp_all add: f)
  qed
  with Some assms trigger_inv_state [OF assms Some] show ?thesis
    by (auto simp: trigger_fire_def Let_def)
qed (use assms in \<open>simp add: trigger_fire_def\<close>)

lemma trigger_reach_inv: "trigger_reach we x \<Longrightarrow> trigger_inv x"
proof (induction rule: trigger_reach.induct)
  case (init j)
  show ?case by (simp add: trigger_inv_def trigger_service_init_def fired_def)
next
  case (step x c)
  show ?case
  proof (cases c)
    case (TRegister ty tm te ow cr ef mx i now)
    with step.hyps have "dget (tr_triggers x) i = None" by blast
    with step.IH [unfolded trigger_inv_def, rule_format, of i] have zero: "fired x i = 0" by simp
    show ?thesis unfolding TRegister trigger_step.simps trigger_register_def Let_def trigger_inv_write
      by (rule trigger_inv_put [OF step.IH]) (simp, simp add: count_ok_def zero, simp)
  next
    case (TFire i g r f now)
    with step.IH show ?thesis by (simp add: trigger_inv_fire)
  qed (use step.IH in \<open>auto simp: trigger_pause_def trigger_resume_def trigger_cancel_def trigger_get_def
      set_trigger_state_def trigger_inv_state split: option.split\<close>)
qed

section \<open>Properties\<close>

text \<open>
  A trigger never fires more often than allowed: in every reachable state its counter is the
  number of its recorded occurrences, which is at most a positive \<open>max_occurrences\<close>; once the limit
  is reached, firing it returns nothing, records nothing and expires it.
\<close>

theorem trigger_fires_bounded:
  assumes "trigger_reach we x" and "dget (tr_triggers x) i = Some t"
  shows "td_occurrence_count t = int (fired x i) \<and>
    (td_max_occurrences t > 0 \<longrightarrow> int (fired x i) \<le> td_max_occurrences t) \<and>
    (td_max_occurrences t > 0 \<and> int (fired x i) = td_max_occurrences t \<and> td_state t = TS_ACTIVE \<longrightarrow>
      trigger_fire we x i g r f now =
        (x\<lparr>tr_triggers := dset (tr_triggers x) i (t\<lparr>td_state := TS_EXPIRED\<rparr>)\<rparr>, Inr None))"
proof -
  have "trigger_inv x" by (rule trigger_reach_inv [OF assms(1)])
  from trigger_invD [OF this assms(2)] assms(2) show ?thesis by (auto simp: count_ok_def trigger_fire_def)
qed

definition sample_triggers :: "unit trigger_service" where
  "sample_triggers = fold (\<lambda>c x. trigger_step ok_journal x c)
     [TRegister TT_STANDING ''tpl'' ''t1'' ''p1'' [] [] 1 ''trg_1'' 0, TFire ''trg_1'' ''g1'' ''r1'' ''occ_1'' 1]
     (trigger_service_init ())"

lemmas trigger_eval = trigger_register_def trigger_fire_def trigger_cancel_def trigger_pause_def
  trigger_resume_def trigger_get_def set_trigger_state_def tr_write_def ok_journal_def dset_def
  trigger_service_init_def Let_def

lemma sample_triggers_reach: "trigger_reach ok_journal sample_triggers"
  unfolding sample_triggers_def fold.simps comp_def id_def
  by (intro trigger_reach.intros) (simp_all add: trigger_service_init_def)

theorem trigger_fires_bounded_witness:
  "\<exists>t. dget (tr_triggers sample_triggers) ''trg_1'' = Some t \<and> td_occurrence_count t = 1 \<and>
     int (fired sample_triggers ''trg_1'') \<le> td_max_occurrences t"
proof -
  obtain t where t: "dget (tr_triggers sample_triggers) ''trg_1'' = Some t"
    and c: "td_occurrence_count t = 1" "td_max_occurrences t = 1"
    by (simp add: sample_triggers_def trigger_eval)
  from trigger_fires_bounded [OF sample_triggers_reach t] c t show ?thesis by auto
qed

text \<open>A canceled trigger can be paused and then resumed, and fires again.\<close>

lemma canceled_trigger_revived:
  "let x = fold (\<lambda>c x. trigger_step ok_journal x c)
     [TRegister TT_STANDING ''tpl'' ''t1'' ''p1'' [] [] 0 ''trg_1'' 0, TCancel ''trg_1'', TPause ''trg_1'',
      TResume ''trg_1'', TFire ''trg_1'' ''g1'' ''r1'' ''occ_1'' 1] (trigger_service_init ())
   in fired x ''trg_1'' = 1"
  by (simp add: trigger_eval fired_def)

end
