(* ===== verification/Json_Text.thy ===== *)
theory Json_Text
  imports Python_Value
begin

text \<open>
  The canonical JSON text of Python's \<open>json.dumps(value, sort_keys=True, separators=(",", ":"),
  ensure_ascii=False, allow_nan=False)\<close>, encoded in UTF-8. A Python string is represented by its
  UTF-8 bytes, so the encoding step is the identity and the order of keys by code point is the order
  of the byte sequences. The decimal text of a finite float (\<open>float.__repr__\<close>) is a parameter.
  \<open>None\<close> is the exception \<open>dumps\<close> raises on a value outside JSON and on a float that is not finite.
\<close>

section \<open>Text of a value\<close>

definition hex_digit :: "nat \<Rightarrow> char" where
  "hex_digit n = (if n < 10 then char_of (48 + n) else char_of (87 + n))"

definition json_escape :: "char \<Rightarrow> string" where
  "json_escape c =
     (if c = CHR 0x22 then [CHR 0x5C, CHR 0x22]
      else if c = CHR 0x5C then [CHR 0x5C, CHR 0x5C]
      else if c = CHR 0x0A then [CHR 0x5C, CHR ''n'']
      else if c = CHR 0x0D then [CHR 0x5C, CHR ''r'']
      else if c = CHR 0x09 then [CHR 0x5C, CHR ''t'']
      else if c = CHR 0x0C then [CHR 0x5C, CHR ''f'']
      else if c = CHR 0x08 then [CHR 0x5C, CHR ''b'']
      else if of_char c < (32 :: nat)
      then [CHR 0x5C, CHR ''u'', CHR ''0'', CHR ''0'', hex_digit (of_char c div 16), hex_digit (of_char c mod 16)]
      else [c])"

definition json_string :: "string \<Rightarrow> string" where
  "json_string s = [CHR 0x22] @ concat (map json_escape s) @ [CHR 0x22]"

fun join_comma :: "string list \<Rightarrow> string" where
  "join_comma [] = []"
| "join_comma [t] = t"
| "join_comma (t # ts) = t @ [CHR '',''] @ join_comma ts"

fun json_float :: "(rat \<Rightarrow> string) \<Rightarrow> pyfloat \<Rightarrow> string option" where
  "json_float fr (Fin r) = Some (fr r)"
| "json_float fr _ = None"

definition json_item :: "string \<times> string option \<Rightarrow> string option" where
  "json_item kt = map_option (\<lambda>t. json_string (fst kt) @ [CHR '':''] @ t) (snd kt)"

primrec json_text :: "(rat \<Rightarrow> string) \<Rightarrow> pyval \<Rightarrow> string option" where
  "json_text fr PNone = Some ''null''"
| "json_text fr (PBool b) = Some (if b then ''true'' else ''false'')"
| "json_text fr (PInt i) = Some (show_int i)"
| "json_text fr (PFloat f) = json_float fr f"
| "json_text fr (PStr s) = Some (json_string s)"
| "json_text fr (PList xs) = map_option (\<lambda>ts. [CHR ''[''] @ join_comma ts @ [CHR '']'']) (those (map (json_text fr) xs))"
| "json_text fr (PTuple xs) = map_option (\<lambda>ts. [CHR ''[''] @ join_comma ts @ [CHR '']'']) (those (map (json_text fr) xs))"
| "json_text fr (PDict kvs) = map_option (\<lambda>ts. [CHR ''{''] @ join_comma ts @ [CHR ''}''])
     (those (map json_item (sort_key fst (map (map_prod id (json_text fr)) kvs))))"
| "json_text fr (PProxy kvs) = None"
| "json_text fr (PSet ss) = None"
| "json_text fr (PFrozenset ss) = None"

text \<open>\<open>json.loads(json.dumps(value, sort_keys=True))\<close>: mappings sorted by key at every level.\<close>

primrec json_sorted :: "pyval \<Rightarrow> pyval" where
  "json_sorted PNone = PNone"
| "json_sorted (PBool b) = PBool b"
| "json_sorted (PInt i) = PInt i"
| "json_sorted (PFloat f) = PFloat f"
| "json_sorted (PStr s) = PStr s"
| "json_sorted (PList xs) = PList (map json_sorted xs)"
| "json_sorted (PTuple xs) = PList (map json_sorted xs)"
| "json_sorted (PDict kvs) = PDict (sort_key fst (map (map_prod id json_sorted) kvs))"
| "json_sorted (PProxy kvs) = PProxy kvs"
| "json_sorted (PSet ss) = PSet ss"
| "json_sorted (PFrozenset ss) = PFrozenset ss"

section \<open>Sorting does not change the text\<close>

lemma insort_map_snd:
  "insort_key fst (map_prod id g x) (map (map_prod id g) xs) = map (map_prod id g) (insort_key fst x xs)"
  by (induction xs) auto

lemma sort_map_snd: "sort_key fst (map (map_prod id g) xs) = map (map_prod id g) (sort_key fst xs)"
  by (induction xs) (simp_all only: list.map sort_key_simps insort_map_snd)

lemma sort_key_sorted: "sorted (map f xs) \<Longrightarrow> sort_key f xs = xs"
proof (induction xs)
  case (Cons x xs)
  then show ?case by (cases xs) auto
qed simp

lemma sort_key_twice [simp]: "sort_key f (sort_key f xs) = sort_key f xs"
  by (rule sort_key_sorted) simp

lemma json_text_sorted: "json_text fr (json_sorted v) = json_text fr v"
proof (induction v)
  case (PDict kvs)
  then have eq: "map (map_prod id (json_text fr)) (map (map_prod id json_sorted) kvs) =
      map (map_prod id (json_text fr)) kvs"
    by (auto simp: snds.simps)
  have "json_text fr (json_sorted (PDict kvs)) =
    map_option (\<lambda>ts. [CHR ''{''] @ join_comma ts @ [CHR ''}''])
     (those (map json_item (sort_key fst (map (map_prod id (json_text fr)) (map (map_prod id json_sorted) kvs)))))"
    by (simp only: json_sorted.simps json_text.simps sort_map_snd sort_key_twice)
  then show ?case by (simp only: eq json_text.simps)
qed (simp_all cong: map_cong add: comp_def)

lemma json_sorted_idem: "json_sorted (json_sorted v) = json_sorted v"
proof (induction v)
  case (PDict kvs)
  then have eq: "map (map_prod id json_sorted) (map (map_prod id json_sorted) kvs) = map (map_prod id json_sorted) kvs"
    by (auto simp: snds.simps)
  have "json_sorted (json_sorted (PDict kvs)) =
      PDict (sort_key fst (map (map_prod id json_sorted) (map (map_prod id json_sorted) kvs)))"
    by (simp only: json_sorted.simps sort_map_snd sort_key_twice)
  then show ?case by (simp only: eq json_sorted.simps)
qed (auto intro!: map_idI)

lemma distinct_map_fst_sort: "distinct (map f (sort_key f d)) = distinct (map f d)"
  by (induction d) (auto simp: distinct_insort_key)

lemma dget_sort: "distinct (map fst d) \<Longrightarrow> dget (sort_key fst d) k = dget d k"
proof (cases "dget d k")
  case None
  then have "dget (sort_key fst d) k = None" by (simp add: map_of_eq_None_iff)
  with None show ?thesis by simp
next
  case (Some v)
  assume "distinct (map fst d)"
  then have "distinct (map fst (sort_key fst d))" by (simp add: distinct_map_fst_sort)
  moreover from Some have "(k, v) \<in> set (sort_key fst d)" by (auto dest: map_of_SomeD)
  ultimately show ?thesis using Some by simp
qed

section \<open>Length of the text\<close>

lemma those_map_Some: "those (map f xs) = Some ts \<longleftrightarrow> (\<forall>x \<in> set xs. f x \<noteq> None) \<and> ts = map (the \<circ> f) xs"
  by (induction xs arbitrary: ts) (auto split: option.splits)

lemma length_join_comma: "ts \<noteq> [] \<Longrightarrow> Suc (length (join_comma ts)) = sum_list (map (\<lambda>t. Suc (length t)) ts)"
  by (induction ts rule: join_comma.induct) auto

lemma sum_insort: "sum_list (map f (insort_key g x xs)) = (f x :: nat) + sum_list (map f xs)"
  by (induction xs) auto

lemma sum_sort [simp]: "sum_list (map f (sort_key g xs)) = (sum_list (map f xs) :: nat)"
  by (induction xs) (auto simp: sum_insort)

definition item_length :: "(rat \<Rightarrow> string) \<Rightarrow> string \<times> pyval \<Rightarrow> nat" where
  "item_length fr kv = length (json_string (fst kv)) + 2 + length (the (json_text fr (snd kv)))"

lemma json_dict_Some:
  assumes "json_text fr (PDict kvs) = Some t"
  shows "\<forall>kv \<in> set kvs. json_text fr (snd kv) \<noteq> None"
    and "t = [CHR ''{''] @ join_comma (map (the \<circ> json_item) (sort_key fst (map (map_prod id (json_text fr)) kvs))) @ [CHR ''}'']"
  using assms by (force simp: those_map_Some json_item_def)+

lemma json_dict_None:
  "json_text fr (PDict kvs) = None \<longleftrightarrow> (\<exists>kv \<in> set kvs. json_text fr (snd kv) = None)"
proof -
  have "json_text fr (PDict kvs) \<noteq> None \<longleftrightarrow> (\<forall>kv \<in> set kvs. json_text fr (snd kv) \<noteq> None)"
    by (force simp: those_map_Some json_item_def not_None_eq)
  then show ?thesis by (metis (no_types))
qed

lemma length_json_dict:
  assumes t: "json_text fr (PDict kvs) = Some t" and ne: "kvs \<noteq> []"
  shows "length t = Suc (sum_list (map (item_length fr) kvs))"
proof -
  let ?ts = "map (the \<circ> json_item) (sort_key fst (map (map_prod id (json_text fr)) kvs))"
  have "?ts \<noteq> []" using ne by (metis length_0_conv length_map length_sort)
  then have "Suc (length (join_comma ?ts)) = sum_list (map (\<lambda>x. Suc (length (the (json_item x))))
      (sort_key fst (map (map_prod id (json_text fr)) kvs)))"
    by (simp add: length_join_comma comp_def)
  also have "\<dots> = sum_list (map (\<lambda>x. Suc (length (the (json_item x)))) (map (map_prod id (json_text fr)) kvs))"
    by (rule sum_sort)
  also have "\<dots> = sum_list (map (item_length fr) kvs)"
    unfolding map_map using json_dict_Some(1) [OF t]
    by (intro arg_cong [where f = sum_list] map_cong) (auto simp: item_length_def json_item_def)
  finally show ?thesis using json_dict_Some(2) [OF t] by simp
qed

section \<open>The text is one line\<close>

definition one_line :: "string \<Rightarrow> bool" where
  "one_line s \<longleftrightarrow> CHR 0x0A \<notin> set s \<and> CHR 0x0D \<notin> set s"

lemma one_line_simps [simp]:
  "one_line []" "one_line (c # s) \<longleftrightarrow> c \<noteq> CHR 0x0A \<and> c \<noteq> CHR 0x0D \<and> one_line s"
  "one_line (s @ s') \<longleftrightarrow> one_line s \<and> one_line s'" "one_line (concat ss) \<longleftrightarrow> (\<forall>s \<in> set ss. one_line s)"
  by (auto simp: one_line_def)

lemma char_of_line [simp]:
  "n < 16 \<Longrightarrow> one_line [hex_digit n]" "n < 10 \<Longrightarrow> one_line [char_of (48 + n)]"
proof -
  have "char_of n \<noteq> CHR 0x0A \<and> char_of n \<noteq> CHR 0x0D" if "13 < n" "n < 256" for n :: nat
  proof -
    have "of_char (char_of n :: char) = n" using that(2) by (simp add: of_char_mod_256)
    then show ?thesis using that(1) by fastforce
  qed
  note * = this
  show "n < 16 \<Longrightarrow> one_line [hex_digit n]" using * [of "48 + n"] * [of "87 + n"]
    by (simp add: hex_digit_def)
  show "n < 10 \<Longrightarrow> one_line [char_of (48 + n)]" using * [of "48 + n"] by simp
qed

lemma one_line_escape: "one_line (json_escape c)"
proof -
  have "of_char c div 16 < (16 :: nat)" "of_char c mod 16 < (16 :: nat)"
    using of_char_mod_256 [of c] by (simp_all add: less_mult_imp_div_less)
  from this [THEN char_of_line(1)] show ?thesis by (auto simp: json_escape_def)
qed

lemma one_line_string [simp]: "one_line (json_string s)"
  by (simp add: json_string_def one_line_escape)

lemma one_line_nat [simp]: "one_line (show_nat n)"
proof (induction n rule: show_nat.induct)
  case (1 n)
  then show ?case using char_of_line(2) [of n] char_of_line(2) [of "n mod 10"]
    by (subst show_nat.simps) simp
qed

lemma one_line_int [simp]: "one_line (show_int i)"
  by (simp add: show_int_def)

lemma one_line_join: "one_line (join_comma ts) \<longleftrightarrow> (\<forall>t \<in> set ts. one_line t)"
  by (induction ts rule: join_comma.induct) auto

lemma json_text_one_line:
  assumes fr: "\<And>r. one_line (fr r)"
  shows "json_text fr v = Some t \<Longrightarrow> one_line t"
proof (induction v arbitrary: t)
  case (PFloat f)
  then show ?case by (cases f) (auto simp: fr)
next
  case (PDict kvs)
  have "one_line (the (json_item x))" if x: "x \<in> set (map (map_prod id (json_text fr)) kvs)" for x
  proof -
    from x obtain kv where kv: "kv \<in> set kvs" "x = (fst kv, json_text fr (snd kv))" by (auto simp: map_prod_def split: prod.splits)
    with json_dict_Some(1) [OF PDict.prems] obtain u where u: "json_text fr (snd kv) = Some u" by auto
    from PDict.IH [OF kv(1) _ u] have "one_line u" by (cases kv) auto
    with kv(2) u show ?thesis by (simp add: json_item_def)
  qed
  then show ?case using json_dict_Some(2) [OF PDict.prems] by (simp add: one_line_join)
qed (auto simp: those_map_Some one_line_join split: if_splits)

section \<open>Decimal length\<close>

abbreviation digits :: "nat \<Rightarrow> nat" where
  "digits n \<equiv> length (show_nat n)"

lemma digits_bounds: "n < 10 ^ digits n \<and> 1 \<le> digits n \<and> (0 < n \<longrightarrow> 10 ^ (digits n - 1) \<le> n)"
proof (induction n rule: show_nat.induct)
  case (1 n)
  show ?case
  proof (cases "n < 10")
    case True
    then show ?thesis by (simp add: show_nat.simps)
  next
    case False
    have d: "digits n = Suc (digits (n div 10))" using False by (simp add: show_nat.simps [of n])
    from False 1 have ih: "n div 10 < 10 ^ digits (n div 10)" "10 ^ (digits (n div 10) - 1) \<le> n div 10"
      "1 \<le> digits (n div 10)" by auto
    from ih(3) have p: "10 ^ digits (n div 10) = 10 * (10 :: nat) ^ (digits (n div 10) - 1)"
      by (metis One_nat_def Suc_pred' less_eq_Suc_le power_Suc)
    have "n = 10 * (n div 10) + n mod 10" "n mod 10 < 10" by simp_all
    with ih p show ?thesis unfolding d by (auto simp only: diff_Suc_1 power_Suc)
  qed
qed

lemma digits_eq: "10 ^ k \<le> n \<Longrightarrow> n < 10 ^ Suc k \<Longrightarrow> digits n = Suc k"
proof -
  assume a: "10 ^ k \<le> n" "n < 10 ^ Suc k"
  then have "0 < n" by (metis gr0I not_le zero_less_numeral zero_less_power)
  with digits_bounds [of n] have b: "10 ^ (digits n - 1) \<le> n" "n < 10 ^ digits n" "1 \<le> digits n" by auto
  from a(1) b(2) have "(10 :: nat) ^ k < 10 ^ digits n" by linarith
  then have 1: "k < digits n" by (rule power_less_imp_less_exp [rotated]) simp
  from a(2) b(1) have "(10 :: nat) ^ (digits n - 1) < 10 ^ Suc k" by linarith
  then have "digits n - 1 < Suc k" by (rule power_less_imp_less_exp [rotated]) simp
  with 1 show ?thesis by linarith
qed

text \<open>The length of a text that contains its own length is found after at most three corrections.\<close>

lemma digits_step:
  fixes c :: nat
  defines "a \<equiv> digits (c + 1)"
  shows "digits (c + a) = a \<or> digits (c + a) = Suc a \<and> digits (c + Suc a) = Suc a"
proof -
  have b: "c + 1 < 10 ^ a" "1 \<le> a" "10 ^ (a - 1) \<le> c + 1" using digits_bounds [of "c + 1"] by (auto simp: a_def)
  then obtain k where a: "a = Suc k" by (cases a) auto
  have p: "a < 10 ^ a" by (induction a) auto
  show ?thesis
  proof (cases "c + a < 10 ^ a")
    case True
    then have "digits (c + a) = Suc k" using b a by (intro digits_eq) auto
    then show ?thesis by (simp add: a)
  next
    case False
    then have "digits (c + a) = Suc a" "digits (c + Suc a) = Suc a" using b p by (intro digits_eq; simp)+
    then show ?thesis by simp
  qed
qed

end
