(* ===== verification/Capability_Registry.thy ===== *)
theory Capability_Registry
  imports Domain_Effects Json_Text
begin

text \<open>
  The immutable registry of \<^verbatim>\<open>src/src/autonomous/broker/capability_registry.py\<close>. Unicode
  normalization, the rounding of floats to ten places, the JSON text and SHA-256 are parameters;
  adapters are identified by the module and qualified name the code hashes.
\<close>

section \<open>Canonical descriptors\<close>

definition py_whitespace :: "char list" where
  "py_whitespace = [CHR '' '', CHR 0x09, CHR 0x0A, CHR 0x0B, CHR 0x0C, CHR 0x0D, CHR 0x1C, CHR 0x1D, CHR 0x1E, CHR 0x1F]"

definition py_strip :: "string \<Rightarrow> string" where
  "py_strip s = rev (dropWhile (\<lambda>c. c \<in> set py_whitespace)
     (rev (dropWhile (\<lambda>c. c \<in> set py_whitespace) s)))"

fun normalize_item :: "(string \<Rightarrow> string) \<Rightarrow> pyval \<Rightarrow> pyval" where
  "normalize_item nfc (PStr s) = PStr (py_strip (nfc s))"
| "normalize_item nfc v = v"

fun normalize_value :: "(string \<Rightarrow> string) \<Rightarrow> (pyfloat \<Rightarrow> pyfloat) \<Rightarrow> pyval \<Rightarrow> pyval" where
  "normalize_value nfc rnd (PStr s) = PStr (py_strip (nfc s))"
| "normalize_value nfc rnd (PFloat f) = PFloat (rnd f)"
| "normalize_value nfc rnd (PList xs) = PList (map (normalize_item nfc) xs)"
| "normalize_value nfc rnd (PDict kvs) = json_sorted (PDict kvs)"
| "normalize_value nfc rnd v = v"

record canonical_env =
  ce_nfc :: "string \<Rightarrow> string"
  ce_round10 :: "pyfloat \<Rightarrow> pyfloat"
  ce_dumps :: "pydict \<Rightarrow> string"
  ce_sha256 :: "string \<Rightarrow> string"

definition canonicalize_descriptor :: "canonical_env \<Rightarrow> capability_descriptor \<Rightarrow> string" where
  "canonicalize_descriptor ce d =
     ce_sha256 ce (ce_dumps ce (map (map_prod id (normalize_value (ce_nfc ce) (ce_round10 ce)))
       (sort_key fst (capability_descriptor_to_dict d))))"

record adapter =
  ad_module :: string
  ad_qualname :: string

definition compute_adapter_hash :: "canonical_env \<Rightarrow> adapter \<Rightarrow> string" where
  "compute_adapter_hash ce a = take 32 (ce_sha256 ce (ad_module a @ '':'' @ ad_qualname a))"

section \<open>The registry\<close>

datatype registry_exn =
    RegistryFrozen
  | DuplicateCapability string
  | AdapterHashMismatch string string
  | SchemaHashMismatch string string
  | UnknownCapability string

record registry =
  rg_descriptors :: "(string, capability_descriptor) dict"
  rg_adapters :: "(string, adapter) dict"
  rg_canonical_hashes :: "(string, string) dict"
  rg_frozen :: bool

definition registry_init :: registry where
  "registry_init = \<lparr>rg_descriptors = [], rg_adapters = [], rg_canonical_hashes = [], rg_frozen = False\<rparr>"

definition cap_key :: "string \<Rightarrow> string \<Rightarrow> string" where
  "cap_key capability_id version = capability_id @ ''@'' @ version"

definition register_capability ::
  "canonical_env \<Rightarrow> registry \<Rightarrow> capability_descriptor \<Rightarrow> adapter \<Rightarrow> bool \<Rightarrow> registry \<times> (registry_exn + string)" where
  "register_capability ce r d a verify =
     (let key = cap_key (cd_capability_id d) (cd_version d);
          actual = compute_adapter_hash ce a;
          canon = canonicalize_descriptor ce d
      in if rg_frozen r then (r, Inl RegistryFrozen)
         else if dget (rg_descriptors r) key \<noteq> None then (r, Inl (DuplicateCapability key))
         else if verify \<and> cd_adapter_hash d \<noteq> [] \<and> actual \<noteq> cd_adapter_hash d
         then (r, Inl (AdapterHashMismatch (cd_adapter_hash d) actual))
         else if cd_schema_hash d \<noteq> [] \<and> cd_schema_hash d \<noteq> canon
         then (r, Inl (SchemaHashMismatch (cd_schema_hash d) canon))
         else (r\<lparr>rg_descriptors := dset (rg_descriptors r) key d,
                 rg_adapters := dset (rg_adapters r) key a,
                 rg_canonical_hashes := dset (rg_canonical_hashes r) key canon\<rparr>, Inr canon))"

definition registry_freeze :: "registry \<Rightarrow> registry" where
  "registry_freeze r = r\<lparr>rg_frozen := True\<rparr>"

definition get_capability :: "registry \<Rightarrow> string \<Rightarrow> string \<Rightarrow> registry_exn + capability_descriptor" where
  "get_capability r capability_id version =
     (case dget (rg_descriptors r) (cap_key capability_id version) of
        None \<Rightarrow> Inl (UnknownCapability (cap_key capability_id version))
      | Some d \<Rightarrow> Inr d)"

definition get_adapter :: "registry \<Rightarrow> string \<Rightarrow> string \<Rightarrow> registry_exn + adapter" where
  "get_adapter r capability_id version =
     (case dget (rg_adapters r) (cap_key capability_id version) of
        None \<Rightarrow> Inl (UnknownCapability (cap_key capability_id version))
      | Some a \<Rightarrow> Inr a)"

definition get_canonical_hash :: "registry \<Rightarrow> string \<Rightarrow> string \<Rightarrow> registry_exn + string" where
  "get_canonical_hash r capability_id version =
     (case dget (rg_canonical_hashes r) (cap_key capability_id version) of
        None \<Rightarrow> Inl (UnknownCapability (cap_key capability_id version))
      | Some h \<Rightarrow> Inr h)"

definition resolve_latest :: "registry \<Rightarrow> string \<Rightarrow> capability_descriptor option" where
  "resolve_latest r capability_id =
     (let prefix = capability_id @ ''@'';
          matches = filter (\<lambda>kd. take (length prefix) (fst kd) = prefix) (rg_descriptors r)
      in if matches = [] then None else Some (snd (last (sort_key fst matches))))"

definition capability_exists :: "registry \<Rightarrow> string \<Rightarrow> string \<Rightarrow> bool" where
  "capability_exists r capability_id version \<longleftrightarrow>
     dget (rg_descriptors r) (cap_key capability_id version) \<noteq> None"

section \<open>Histories\<close>

datatype registry_call = RRegister capability_descriptor adapter bool | RFreeze

fun registry_step :: "canonical_env \<Rightarrow> registry \<Rightarrow> registry_call \<Rightarrow> registry" where
  "registry_step ce r (RRegister d a v) = fst (register_capability ce r d a v)"
| "registry_step ce r RFreeze = registry_freeze r"

definition registry_run :: "canonical_env \<Rightarrow> registry \<Rightarrow> registry_call list \<Rightarrow> registry" where
  "registry_run ce r cs = fold (\<lambda>c r. registry_step ce r c) cs r"

text \<open>The three tables have the same keys, and every entry carries verified hashes.\<close>

fun entry_ok :: "canonical_env \<Rightarrow> string \<Rightarrow> capability_descriptor option \<Rightarrow> adapter option \<Rightarrow> string option \<Rightarrow> bool" where
  "entry_ok ce k None a h \<longleftrightarrow> a = None \<and> h = None"
| "entry_ok ce k (Some d) a h \<longleftrightarrow> k = cap_key (cd_capability_id d) (cd_version d) \<and> a \<noteq> None \<and>
     h = Some (canonicalize_descriptor ce d) \<and>
     (cd_schema_hash d = [] \<or> cd_schema_hash d = canonicalize_descriptor ce d)"

definition registry_inv :: "canonical_env \<Rightarrow> registry \<Rightarrow> bool" where
  "registry_inv ce r \<longleftrightarrow> (\<forall>k. entry_ok ce k (dget (rg_descriptors r) k) (dget (rg_adapters r) k)
     (dget (rg_canonical_hashes r) k))"

lemma registry_inv_step: "registry_inv ce r \<Longrightarrow> registry_inv ce (registry_step ce r c)"
proof (cases c)
  case (RRegister d a v)
  assume inv: "registry_inv ce r"
  show ?thesis
  proof (cases "registry_step ce r c = r")
    case False
    let ?key = "cap_key (cd_capability_id d) (cd_version d)"
    from False RRegister have r: "registry_step ce r c = r\<lparr>rg_descriptors := dset (rg_descriptors r) ?key d,
        rg_adapters := dset (rg_adapters r) ?key a,
        rg_canonical_hashes := dset (rg_canonical_hashes r) ?key (canonicalize_descriptor ce d)\<rparr>"
      and h: "cd_schema_hash d = [] \<or> cd_schema_hash d = canonicalize_descriptor ce d"
      by (auto simp: register_capability_def Let_def split: if_splits)
    from inv h show ?thesis unfolding r by (simp add: registry_inv_def)
  qed (use inv in simp)
next
  case RFreeze
  assume "registry_inv ce r"
  with RFreeze show ?thesis by (simp add: registry_freeze_def registry_inv_def)
qed

lemma registry_run_Cons: "registry_run ce r (c # cs) = registry_run ce (registry_step ce r c) cs"
  by (simp add: registry_run_def)

lemma registry_run_inv: "registry_inv ce r \<Longrightarrow> registry_inv ce (registry_run ce r cs)"
proof (induction cs arbitrary: r)
  case (Cons c cs)
  then show ?case by (simp add: registry_run_Cons registry_inv_step)
qed (simp add: registry_run_def)

lemma registry_inv_init: "registry_inv ce registry_init"
  by (simp add: registry_inv_def registry_init_def)

lemma registry_step_keeps:
  assumes "registry_inv ce r" and "dget (rg_descriptors r) k = Some d"
  shows "dget (rg_descriptors (registry_step ce r c)) k = Some d \<and>
    dget (rg_adapters (registry_step ce r c)) k = dget (rg_adapters r) k \<and>
    dget (rg_canonical_hashes (registry_step ce r c)) k = dget (rg_canonical_hashes r) k"
  using assms(2)
  by (cases c) (auto simp: register_capability_def registry_freeze_def Let_def)

lemma registry_run_keeps:
  assumes "registry_inv ce r" and "dget (rg_descriptors r) k = Some d"
  shows "dget (rg_descriptors (registry_run ce r cs)) k = Some d \<and>
    dget (rg_adapters (registry_run ce r cs)) k = dget (rg_adapters r) k \<and>
    dget (rg_canonical_hashes (registry_run ce r cs)) k = dget (rg_canonical_hashes r) k"
  using assms
proof (induction cs arbitrary: r)
  case (Cons c cs)
  from registry_step_keeps [OF Cons.prems, of c]
    Cons.IH [OF registry_inv_step [OF Cons.prems(1), of c]] show ?case
    by (simp add: registry_run_Cons)
qed (simp add: registry_run_def)

lemma registry_frozen_run: "rg_frozen r \<Longrightarrow> registry_run ce r cs = r"
proof (induction cs)
  case (Cons c cs)
  then have "registry_step ce r c = r"
    by (cases c) (simp_all add: register_capability_def registry_freeze_def Let_def)
  with Cons show ?case by (simp add: registry_run_Cons)
qed (simp add: registry_run_def)

section \<open>Properties\<close>

text \<open>
  Registered capabilities are immutable and verified: after any history of registrations and
  freezes, a descriptor found under an id and version keeps its value, its adapter and its canonical
  hash under every continuation; the stored hash is the canonical hash of the descriptor and agrees
  with the declared schema hash; and a frozen registry never changes.
\<close>

lemma capability_immutable:
  assumes "r = registry_run ce registry_init cs" and "get_capability r i v = Inr d"
  shows "get_capability (registry_run ce r ds) i v = Inr d \<and>
    get_adapter (registry_run ce r ds) i v = get_adapter r i v \<and> (\<exists>a. get_adapter r i v = Inr a) \<and>
    get_canonical_hash (registry_run ce r ds) i v = Inr (canonicalize_descriptor ce d) \<and>
    (cd_schema_hash d = [] \<or> cd_schema_hash d = canonicalize_descriptor ce d) \<and>
    registry_run ce (registry_freeze r) ds = registry_freeze r"
proof -
  have inv: "registry_inv ce r" using registry_run_inv [OF registry_inv_init] assms(1) by simp
  have d: "dget (rg_descriptors r) (cap_key i v) = Some d"
    using assms(2) by (simp add: get_capability_def split: option.splits)
  have "registry_run ce (registry_freeze r) ds = registry_freeze r"
    by (rule registry_frozen_run) (simp add: registry_freeze_def)
  with registry_run_keeps [OF inv d, of ds] inv [unfolded registry_inv_def, rule_format, of "cap_key i v"] d
  show ?thesis by (auto simp: get_capability_def get_adapter_def get_canonical_hash_def)
qed

definition sample_env :: canonical_env where
  "sample_env = \<lparr>ce_nfc = id, ce_round10 = id, ce_dumps = (\<lambda>d. ''json''), ce_sha256 = id\<rparr>"

definition plain_descriptor :: "string \<Rightarrow> string \<Rightarrow> capability_descriptor" where
  "plain_descriptor i v = \<lparr>cd_capability_id = i, cd_name = [], cd_version = v,
     cd_business_operation_id = [], cd_description = [], cd_risk_level = RL_R1, cd_principal_types = [],
     cd_idempotency = [], cd_idempotency_ttl_seconds = 0, cd_query_after_unknown = [],
     cd_query_consistency = [], cd_negative_observation_window_seconds = 0, cd_compensation = [],
     cd_resource_key_template = [], cd_verifier = [], cd_parameters_schema = PProxy [],
     cd_output_schema = PProxy [], cd_adapter_hash = [], cd_schema_hash = [],
     cd_canonicalization_version = [], cd_creates_persistent_execution = False,
     cd_stop_capability = [], cd_idempotent = False, cd_supports_query = False,
     cd_supports_compensation = False\<rparr>"

definition plain_adapter :: adapter where
  "plain_adapter = \<lparr>ad_module = ''m'', ad_qualname = ''A''\<rparr>"

lemma capability_immutable_witness:
  "let r = registry_run sample_env registry_init [RRegister (plain_descriptor ''mail'' ''1'') plain_adapter True]
   in get_capability (registry_run sample_env r
        [RRegister ((plain_descriptor ''mail'' ''1'')\<lparr>cd_risk_level := RL_R0\<rparr>) plain_adapter True]) ''mail'' ''1'' =
      Inr (plain_descriptor ''mail'' ''1'')"
proof -
  define r where "r = registry_run sample_env registry_init [RRegister (plain_descriptor ''mail'' ''1'') plain_adapter True]"
  have "get_capability r ''mail'' ''1'' = Inr (plain_descriptor ''mail'' ''1'')"
    by (simp add: r_def registry_run_def register_capability_def registry_init_def Let_def
        plain_descriptor_def get_capability_def)
  from capability_immutable [OF r_def this] show ?thesis unfolding r_def [symmetric] Let_def by blast
qed

text \<open>The latest version is the greatest string, so version 9 wins over version 10.\<close>

lemma latest_is_lexicographic:
  "map_option cd_version (resolve_latest \<lparr>rg_descriptors =
       [(''mail@9'', plain_descriptor ''mail'' ''9''), (''mail@10'', plain_descriptor ''mail'' ''10'')],
     rg_adapters = [], rg_canonical_hashes = [], rg_frozen = False\<rparr> ''mail'') = Some ''9''"
  by (simp add: Let_def plain_descriptor_def resolve_latest_def)

text \<open>
  The canonical form contains the field \<open>schema_hash\<close> itself, so a declared schema hash is accepted
  only when it is the hash of a text that contains it.
\<close>

lemma schema_hash_self_reference:
  assumes "register_capability ce r d a v = (r', Inr h)" and "cd_schema_hash d \<noteq> []"
  shows "\<exists>content. cd_schema_hash d = ce_sha256 ce (ce_dumps ce content) \<and>
    (''schema_hash'', PStr (py_strip (ce_nfc ce (cd_schema_hash d)))) \<in> set content"
proof -
  let ?content = "map (map_prod id (normalize_value (ce_nfc ce) (ce_round10 ce)))
    (sort_key fst (capability_descriptor_to_dict d))"
  have "cd_schema_hash d = ce_sha256 ce (ce_dumps ce ?content)"
    using assms by (simp add: register_capability_def Let_def canonicalize_descriptor_def split: if_splits)
  moreover have "(''schema_hash'', PStr (cd_schema_hash d)) \<in> set (sort_key fst (capability_descriptor_to_dict d))"
    by (simp add: capability_descriptor_to_dict_def)
  then have "(''schema_hash'', PStr (py_strip (ce_nfc ce (cd_schema_hash d)))) \<in> set ?content"
    by (force simp: image_iff)
  ultimately show ?thesis by blast
qed

end
