(* ===== verification/Dispatch_Gate.thy ===== *)
theory Dispatch_Gate
  imports Domain_Effects
begin

text \<open>
  The dispatch gate of \<^verbatim>\<open>src/src/autonomous/broker/dispatch_gate.py\<close>. The two callables of the
  constructor are parameters: \<open>rec\<close> is \<open>record_frame_fn\<close> (a journal state, an event and its payload
  to the next journal state and a sequence number, or \<open>None\<close> when it raises) and \<open>anc\<close> is
  \<open>anchor_fn\<close>. \<open>execute\<close> holds its lock only up to the executing frame and then awaits the adapter,
  so it is split there: \<open>execute_begin\<close> ends with the physical send, \<open>execute_finish\<close> runs when the
  adapter has returned or raised.
\<close>

section \<open>Data\<close>

datatype dispatch_exn =
    DispatchGateClosed string
  | StaleEpoch int int
  | EffectNotPrepared string
  | EffectInvalid
  | FrameError

record dispatch_epoch =
  de_run_id :: string
  de_plan_epoch :: int
  de_gate_epoch :: int
  de_opened_at :: timestamp
  de_closed :: bool
  de_close_reason :: string

record prepared_effect =
  pf_effect :: effect
  pf_dispatch_epoch :: dispatch_epoch
  pf_prepared_at :: timestamp
  pf_anchored :: bool
  pf_anchor_sequence :: int

record dispatch_outcome =
  do_effect_instance_id :: string
  do_success :: bool
  do_committed_at :: "timestamp option"
  do_error :: string
  do_idempotent_hit :: bool
  do_needs_reconciliation :: bool

record 'j dispatch_gate =
  dg_journal :: 'j
  dg_epochs :: "(string, dispatch_epoch) dict"
  dg_prepared :: "(string, prepared_effect) dict"
  dg_active_dispatches :: "(string, string) dict"
  dg_gate_sequence :: int

type_synonym 'j record_frame = "'j \<Rightarrow> string \<Rightarrow> pydict \<Rightarrow> ('j \<times> int) option"
type_synonym 'j anchor = "'j \<Rightarrow> int \<Rightarrow> string \<Rightarrow> bool"

section \<open>Opening and closing\<close>

definition dispatch_gate_init :: "'j \<Rightarrow> 'j dispatch_gate" where
  "dispatch_gate_init j = \<lparr>dg_journal = j, dg_epochs = [], dg_prepared = [],
     dg_active_dispatches = [], dg_gate_sequence = 0\<rparr>"

definition open_gate ::
  "'j dispatch_gate \<Rightarrow> string \<Rightarrow> int \<Rightarrow> timestamp \<Rightarrow> 'j dispatch_gate \<times> dispatch_epoch" where
  "open_gate g run_id plan_epoch now =
     (let e = \<lparr>de_run_id = run_id, de_plan_epoch = plan_epoch, de_gate_epoch = dg_gate_sequence g + 1,
               de_opened_at = now, de_closed = False, de_close_reason = []\<rparr>
      in (g\<lparr>dg_gate_sequence := dg_gate_sequence g + 1, dg_epochs := dset (dg_epochs g) run_id e\<rparr>, e))"

definition close_gate :: "'j dispatch_gate \<Rightarrow> string \<Rightarrow> string \<Rightarrow> 'j dispatch_gate" where
  "close_gate g run_id reason =
     (case dget (dg_epochs g) run_id of
        None \<Rightarrow> g
      | Some e \<Rightarrow>
          if de_closed e then g
          else g\<lparr>dg_epochs := dset (dg_epochs g) run_id (e\<lparr>de_closed := True, de_close_reason := reason\<rparr>)\<rparr>)"

definition gate_is_open :: "'j dispatch_gate \<Rightarrow> string \<Rightarrow> bool" where
  "gate_is_open g run_id =
     (case dget (dg_epochs g) run_id of None \<Rightarrow> False | Some e \<Rightarrow> \<not> de_closed e)"

definition gate_get_epoch :: "'j dispatch_gate \<Rightarrow> string \<Rightarrow> dispatch_epoch option" where
  "gate_get_epoch g run_id = dget (dg_epochs g) run_id"

section \<open>Preparing\<close>

definition effect_default :: "string \<Rightarrow> timestamp \<Rightarrow> effect" where
  "effect_default effect_id now =
     \<lparr>ef_effect_id = effect_id, ef_effect_instance_id = [], ef_effect_lineage_id = [],
      ef_action_intent_id = [], ef_execution_seq = 0, ef_state = ES_PROPOSED, ef_capability = [],
      ef_capability_version = [], ef_resource_id = [], ef_resource_key = [],
      ef_semantic_action_key = [], ef_risk_level = RL_R0, ef_attempt_id = [], ef_run_id = [],
      ef_tenant_key = [], ef_created_at = now, ef_committed_at = None, ef_evidence_hash = [],
      ef_cleanup_grant_id = [], ef_provider_idempotency_key = [], ef_adapter_hash = [],
      ef_schema_hash = [], ef_canonicalization_version = [], ef_active_dispatch = False,
      ef_parent_effect_instance_id = [], ef_aggregate_version = 0\<rparr>"

definition prepared_effect_of ::
  "string \<Rightarrow> capability_descriptor \<Rightarrow> string \<Rightarrow> string \<Rightarrow> string \<Rightarrow> string \<Rightarrow> string \<Rightarrow> string \<Rightarrow> timestamp \<Rightarrow>
     py_exn + effect" where
  "prepared_effect_of run_id cap attempt_id key tenant instance_id effect_id intent_id now =
     effect_init ((effect_default effect_id now)\<lparr>
       ef_effect_instance_id := instance_id, ef_effect_lineage_id := instance_id,
       ef_action_intent_id := (if key \<noteq> [] then key else intent_id), ef_state := ES_PREPARED,
       ef_capability := cd_capability_id cap, ef_capability_version := cd_version cap,
       ef_semantic_action_key := key, ef_risk_level := cd_risk_level cap,
       ef_attempt_id := attempt_id, ef_run_id := run_id, ef_tenant_key := tenant,
       ef_adapter_hash := cd_adapter_hash cap, ef_schema_hash := cd_schema_hash cap,
       ef_canonicalization_version := cd_canonicalization_version cap\<rparr>)"

definition prepare ::
  "'j record_frame \<Rightarrow> 'j anchor \<Rightarrow> 'j dispatch_gate \<Rightarrow> string \<Rightarrow> capability_descriptor \<Rightarrow> pydict \<Rightarrow> string \<Rightarrow>
     string \<Rightarrow> string \<Rightarrow> string \<Rightarrow> string \<Rightarrow> string \<Rightarrow> timestamp \<Rightarrow>
     'j dispatch_gate \<times> (dispatch_exn + prepared_effect)" where
  "prepare rec anc g run_id cap parameters attempt_id key tenant instance_id effect_id intent_id now =
     (case dget (dg_epochs g) run_id of
        None \<Rightarrow> (g, Inl (DispatchGateClosed run_id))
      | Some epoch \<Rightarrow>
          if de_closed epoch then (g, Inl (DispatchGateClosed run_id))
          else case prepared_effect_of run_id cap attempt_id key tenant instance_id effect_id intent_id now of
            Inl _ \<Rightarrow> (g, Inl EffectInvalid)
          | Inr e \<Rightarrow>
              (case rec (dg_journal g) ''effect.prepared''
                  [(''effect'', PDict (effect_to_dict e)), (''parameters'', PDict parameters),
                   (''epoch'', PInt (de_gate_epoch epoch))] of
                 None \<Rightarrow> (g, Inl FrameError)
               | Some (j, seq) \<Rightarrow>
                   let anchored = anc j seq (ef_effect_instance_id e);
                       p = \<lparr>pf_effect = e, pf_dispatch_epoch = epoch, pf_prepared_at = now,
                            pf_anchored = anchored,
                            pf_anchor_sequence = (if anchored then seq else 0)\<rparr>
                   in (g\<lparr>dg_journal := j, dg_prepared := dset (dg_prepared g) instance_id p\<rparr>, Inr p)))"

section \<open>Executing\<close>

text \<open>The guarded section of \<open>execute\<close>. After it returns, the adapter is called.\<close>

definition execute_begin ::
  "'j record_frame \<Rightarrow> 'j dispatch_gate \<Rightarrow> string \<Rightarrow> 'j dispatch_gate \<times> (dispatch_exn + unit)" where
  "execute_begin rec g i =
     (case dget (dg_prepared g) i of
        None \<Rightarrow> (g, Inl (EffectNotPrepared i))
      | Some p \<Rightarrow>
          if \<not> pf_anchored p then (g, Inl (EffectNotPrepared i))
          else case dget (dg_epochs g) (ef_run_id (pf_effect p)) of
            None \<Rightarrow> (g, Inl (DispatchGateClosed i))
          | Some epoch \<Rightarrow>
              if de_closed epoch then (g, Inl (DispatchGateClosed i))
              else if de_gate_epoch epoch \<noteq> de_gate_epoch (pf_dispatch_epoch p)
              then (g, Inl (StaleEpoch (de_gate_epoch (pf_dispatch_epoch p)) (de_gate_epoch epoch)))
              else
                let g1 = g\<lparr>dg_active_dispatches :=
                  dset (dg_active_dispatches g) i (ef_run_id (pf_effect p))\<rparr>
                in (case rec (dg_journal g1) ''effect.executing'' [(''effect_instance_id'', PStr i)] of
                      None \<Rightarrow> (g1, Inl FrameError)
                    | Some (j, _) \<Rightarrow> (g1\<lparr>dg_journal := j\<rparr>, Inr ())))"

datatype adapter_outcome = AdapterReturned timestamp | AdapterRaised string

text \<open>
  The handler of the \<open>except\<close> clause: it also runs when the commit frame raises or when \<open>del\<close>
  finds the effect already gone.
\<close>

definition execute_unknown ::
  "'j record_frame \<Rightarrow> 'j dispatch_gate \<Rightarrow> string \<Rightarrow> string \<Rightarrow> 'j dispatch_gate \<times> (dispatch_exn + dispatch_outcome)" where
  "execute_unknown rec g i err =
     (case rec (dg_journal g) ''effect.unknown'' [(''effect_instance_id'', PStr i), (''error'', PStr err)] of
        None \<Rightarrow> (g, Inl FrameError)
      | Some (j, _) \<Rightarrow>
          (g\<lparr>dg_journal := j, dg_active_dispatches := dpop (dg_active_dispatches g) i\<rparr>,
           Inr \<lparr>do_effect_instance_id = i, do_success = False, do_committed_at = None, do_error = err,
                do_idempotent_hit = False, do_needs_reconciliation = True\<rparr>))"

definition execute_finish ::
  "'j record_frame \<Rightarrow> 'j dispatch_gate \<Rightarrow> string \<Rightarrow> adapter_outcome \<Rightarrow>
     'j dispatch_gate \<times> (dispatch_exn + dispatch_outcome)" where
  "execute_finish rec g i outcome =
     (case outcome of
        AdapterRaised err \<Rightarrow> execute_unknown rec g i err
      | AdapterReturned now \<Rightarrow>
          (case rec (dg_journal g) ''effect.committed''
              [(''effect_instance_id'', PStr i), (''committed_at'', PFloat (Fin now))] of
             None \<Rightarrow> execute_unknown rec g i ''record_frame_fn failed''
           | Some (j, _) \<Rightarrow>
               let g1 = g\<lparr>dg_journal := j\<rparr>
               in if dget (dg_prepared g1) i = None then execute_unknown rec g1 i i
                  else (g1\<lparr>dg_prepared := dpop (dg_prepared g1) i,
                           dg_active_dispatches := dpop (dg_active_dispatches g1) i\<rparr>,
                        Inr \<lparr>do_effect_instance_id = i, do_success = True, do_committed_at = Some now,
                             do_error = [], do_idempotent_hit = False, do_needs_reconciliation = False\<rparr>)))"

definition get_active_dispatches :: "'j dispatch_gate \<Rightarrow> string \<Rightarrow> string list" where
  "get_active_dispatches g run_id = map fst (filter (\<lambda>(e, r). r = run_id) (dg_active_dispatches g))"

definition drain_count :: "'j dispatch_gate \<Rightarrow> string \<Rightarrow> nat" where
  "drain_count g run_id =
     length (filter (\<lambda>p. ef_run_id (pf_effect p) = run_id) (dvals (dg_prepared g))) +
     length (get_active_dispatches g run_id)"

section \<open>Interleaved executions\<close>

text \<open>
  A world is the gate, the sends that reached an adapter so far and the executions that wait for
  one. Any number of executions may be in flight.
\<close>

record 'j dispatch_world =
  dw_gate :: "'j dispatch_gate"
  dw_sends :: "string list"
  dw_inflight :: "string list"

datatype dispatch_op =
    DOpen string int timestamp
  | DClose string string
  | DPrepare string capability_descriptor pydict string string string string string string timestamp
  | DBegin string
  | DFinish string adapter_outcome

fun dispatch_step :: "'j record_frame \<Rightarrow> 'j anchor \<Rightarrow> 'j dispatch_world \<Rightarrow> dispatch_op \<Rightarrow> 'j dispatch_world" where
  "dispatch_step rec anc w (DOpen r pe now) = w\<lparr>dw_gate := fst (open_gate (dw_gate w) r pe now)\<rparr>"
| "dispatch_step rec anc w (DClose r reason) = w\<lparr>dw_gate := close_gate (dw_gate w) r reason\<rparr>"
| "dispatch_step rec anc w (DPrepare r cap ps att k t i e n now) =
     w\<lparr>dw_gate := fst (prepare rec anc (dw_gate w) r cap ps att k t i e n now)\<rparr>"
| "dispatch_step rec anc w (DBegin i) =
     (case execute_begin rec (dw_gate w) i of
        (g, Inl _) \<Rightarrow> w\<lparr>dw_gate := g\<rparr>
      | (g, Inr _) \<Rightarrow> w\<lparr>dw_gate := g, dw_sends := dw_sends w @ [i], dw_inflight := i # dw_inflight w\<rparr>)"
| "dispatch_step rec anc w (DFinish i outcome) =
     (if i \<in> set (dw_inflight w)
      then w\<lparr>dw_gate := fst (execute_finish rec (dw_gate w) i outcome), dw_inflight := remove1 i (dw_inflight w)\<rparr>
      else w)"

definition dispatch_run ::
  "'j record_frame \<Rightarrow> 'j anchor \<Rightarrow> 'j dispatch_world \<Rightarrow> dispatch_op list \<Rightarrow> 'j dispatch_world" where
  "dispatch_run rec anc w ops = fold (\<lambda>c w. dispatch_step rec anc w c) ops w"

definition dispatch_world_init :: "'j \<Rightarrow> 'j dispatch_world" where
  "dispatch_world_init j = \<lparr>dw_gate = dispatch_gate_init j, dw_sends = [], dw_inflight = []\<rparr>"

fun op_prepares :: "string \<Rightarrow> dispatch_op \<Rightarrow> bool" where
  "op_prepares i (DPrepare r cap ps att k t i' e n now) = (i' = i)"
| "op_prepares i _ = False"

text \<open>Epochs never exceed the gate's counter.\<close>

definition epochs_bounded :: "'j dispatch_gate \<Rightarrow> bool" where
  "epochs_bounded g \<longleftrightarrow>
     (\<forall>r e. dget (dg_epochs g) r = Some e \<longrightarrow> de_gate_epoch e \<le> dg_gate_sequence g) \<and>
     (\<forall>i p. dget (dg_prepared g) i = Some p \<longrightarrow>
        de_gate_epoch (pf_dispatch_epoch p) \<le> dg_gate_sequence g)"

text \<open>An effect that can no longer be sent: not prepared, or its gate closed or reopened.\<close>

definition blocked :: "'j dispatch_gate \<Rightarrow> string \<Rightarrow> bool" where
  "blocked g i \<longleftrightarrow> (\<forall>p. dget (dg_prepared g) i = Some p \<longrightarrow>
     (case dget (dg_epochs g) (ef_run_id (pf_effect p)) of
        None \<Rightarrow> True
      | Some e \<Rightarrow> de_closed e \<or> de_gate_epoch (pf_dispatch_epoch p) < de_gate_epoch e))"

definition same_tables :: "'j dispatch_gate \<Rightarrow> 'j dispatch_gate \<Rightarrow> bool" where
  "same_tables g h \<longleftrightarrow> dg_epochs h = dg_epochs g \<and> dg_gate_sequence h = dg_gate_sequence g \<and>
     (dg_prepared h = dg_prepared g \<or> (\<exists>k. dg_prepared h = dpop (dg_prepared g) k))"

lemma same_tables_keeps:
  assumes "same_tables g h"
  shows "epochs_bounded g \<Longrightarrow> epochs_bounded h" and "blocked g i \<Longrightarrow> blocked h i"
  using assms by (auto simp: same_tables_def epochs_bounded_def blocked_def split: if_splits)

lemma execute_begin_tables: "same_tables g (fst (execute_begin rec g i))"
  by (auto simp: execute_begin_def same_tables_def Let_def split: option.split)

lemma execute_finish_tables: "same_tables g (fst (execute_finish rec g i oc))"
  by (auto simp: execute_finish_def execute_unknown_def same_tables_def Let_def
      split: option.split adapter_outcome.split)

lemma execute_begin_sends:
  assumes "execute_begin rec g i = (g', Inr u)"
  shows "\<exists>p e. dget (dg_prepared g) i = Some p \<and> pf_anchored p \<and>
    dget (dg_epochs g) (ef_run_id (pf_effect p)) = Some e \<and> \<not> de_closed e \<and>
    de_gate_epoch e = de_gate_epoch (pf_dispatch_epoch p)"
  using assms by (auto simp: execute_begin_def Let_def split: option.splits if_splits)

lemma blocked_refuses: "blocked g i \<Longrightarrow> \<exists>e. snd (execute_begin rec g i) = Inl e"
  by (cases "execute_begin rec g i"; cases "snd (execute_begin rec g i)")
    (fastforce simp: blocked_def dest!: execute_begin_sends)+

lemma prepared_effect_of_run:
  "prepared_effect_of r cap att k t i e n now = Inr x \<Longrightarrow> ef_run_id x = r \<and> ef_effect_instance_id x =
     (if i = [] then e else i)"
  by (auto simp: prepared_effect_of_def effect_init_def effect_default_def Let_def split: if_splits)

lemma prepare_cases:
  obtains (same) "fst (prepare rec anc g r cap ps att k t i e n now) = g"
  | (put) j p epoch where "fst (prepare rec anc g r cap ps att k t i e n now) =
      g\<lparr>dg_journal := j, dg_prepared := dset (dg_prepared g) i p\<rparr>" "dget (dg_epochs g) r = Some epoch"
      "\<not> de_closed epoch" "pf_dispatch_epoch p = epoch" "ef_run_id (pf_effect p) = r"
proof (cases "dget (dg_epochs g) r")
  case (Some epoch)
  show thesis
  proof (cases "prepared_effect_of r cap att k t i e n now")
    case (Inr x)
    then have "ef_run_id x = r" using prepared_effect_of_run by blast
    with Some Inr show thesis
      by (cases "de_closed epoch"; cases "rec (dg_journal g) ''effect.prepared''
          [(''effect'', PDict (effect_to_dict x)), (''parameters'', PDict ps), (''epoch'', PInt (de_gate_epoch epoch))]")
        (auto simp: prepare_def Let_def intro: same put)
  qed (use Some in \<open>auto simp: prepare_def intro: same\<close>)
qed (auto simp: prepare_def intro: same)

lemma epochs_bounded_step:
  assumes "epochs_bounded (dw_gate w)"
  shows "epochs_bounded (dw_gate (dispatch_step rec anc w c))"
proof (cases c)
  case (DOpen r pe now)
  with assms show ?thesis
    by (fastforce simp: epochs_bounded_def open_gate_def Let_def)
next
  case (DClose r reason)
  with assms show ?thesis by (auto simp: epochs_bounded_def close_gate_def split: option.split)
next
  case (DPrepare r cap ps att k t i e n now)
  show ?thesis
    by (cases rule: prepare_cases [of rec anc "dw_gate w" r cap ps att k t i e n now])
      (use assms DPrepare in \<open>auto simp: epochs_bounded_def\<close>)
next
  case (DBegin i)
  with same_tables_keeps(1) [OF execute_begin_tables assms] show ?thesis
    by (auto split: prod.split sum.split) (metis fst_conv)+
next
  case (DFinish i oc)
  with same_tables_keeps(1) [OF execute_finish_tables assms] assms show ?thesis by simp
qed

lemma blocked_step:
  assumes "epochs_bounded (dw_gate w)" and "blocked (dw_gate w) i" and "\<not> op_prepares i c"
  shows "blocked (dw_gate (dispatch_step rec anc w c)) i \<and>
    count_list (dw_sends (dispatch_step rec anc w c)) i = count_list (dw_sends w) i"
proof (cases c)
  case (DOpen r pe now)
  with assms show ?thesis
    by (force simp: blocked_def epochs_bounded_def open_gate_def Let_def split: option.splits)
next
  case (DClose r reason)
  with assms(2) show ?thesis by (auto simp: blocked_def close_gate_def split: option.splits)
next
  case (DPrepare r cap ps att k t i' e n now)
  show ?thesis
    by (cases rule: prepare_cases [of rec anc "dw_gate w" r cap ps att k t i' e n now])
      (use assms DPrepare in \<open>auto simp: blocked_def\<close>)
next
  case (DBegin k)
  have b: "blocked (fst (execute_begin rec (dw_gate w) k)) i"
    by (rule same_tables_keeps(2) [OF execute_begin_tables assms(2)])
  have "k \<noteq> i" if "snd (execute_begin rec (dw_gate w) k) = Inr u" for u
    using blocked_refuses [OF assms(2), of rec] that by auto
  with b DBegin show ?thesis
    by (cases "execute_begin rec (dw_gate w) k"; cases "snd (execute_begin rec (dw_gate w) k)") auto
next
  case (DFinish k oc)
  with same_tables_keeps(2) [OF execute_finish_tables assms(2)] assms show ?thesis by simp
qed

lemma dispatch_run_Cons: "dispatch_run rec anc w (c # cs) = dispatch_run rec anc (dispatch_step rec anc w c) cs"
  by (simp add: dispatch_run_def)

lemma epochs_bounded_run:
  "epochs_bounded (dw_gate w) \<Longrightarrow> epochs_bounded (dw_gate (dispatch_run rec anc w cs))"
proof (induction cs arbitrary: w)
  case (Cons c cs)
  then show ?case by (simp add: dispatch_run_Cons epochs_bounded_step)
qed (simp add: dispatch_run_def)

lemma blocked_run:
  assumes "epochs_bounded (dw_gate w)" and "blocked (dw_gate w) i" and "\<forall>c \<in> set cs. \<not> op_prepares i c"
  shows "count_list (dw_sends (dispatch_run rec anc w cs)) i = count_list (dw_sends w) i"
  using assms
proof (induction cs arbitrary: w)
  case (Cons c cs)
  with blocked_step [of w i c rec anc] epochs_bounded_step [of w rec anc c] show ?case
    by (simp add: dispatch_run_Cons)
qed (simp add: dispatch_run_def)

lemma epochs_bounded_init: "epochs_bounded (dw_gate (dispatch_world_init j))"
  by (simp add: epochs_bounded_def dispatch_world_init_def dispatch_gate_init_def)

section \<open>A sample world\<close>

definition sample_rec :: "int record_frame" where
  "sample_rec n ev payload = Some (n + 1, n)"

definition sample_anchor :: "int anchor" where
  "sample_anchor n seq i \<longleftrightarrow> seq < n"

definition sample_capability :: capability_descriptor where
  "sample_capability = \<lparr>cd_capability_id = ''mail'', cd_name = [], cd_version = ''1'',
     cd_business_operation_id = [], cd_description = [], cd_risk_level = RL_R1, cd_principal_types = [],
     cd_idempotency = [], cd_idempotency_ttl_seconds = 0, cd_query_after_unknown = [],
     cd_query_consistency = [], cd_negative_observation_window_seconds = 0, cd_compensation = [],
     cd_resource_key_template = [], cd_verifier = [], cd_parameters_schema = PProxy [],
     cd_output_schema = PProxy [], cd_adapter_hash = [], cd_schema_hash = [],
     cd_canonicalization_version = [], cd_creates_persistent_execution = False,
     cd_stop_capability = [], cd_idempotent = False, cd_supports_query = False,
     cd_supports_compensation = False\<rparr>"

definition sample_open :: "dispatch_op list" where
  "sample_open = [DOpen ''r1'' 0 1, DPrepare ''r1'' sample_capability [] ''a1'' ''k'' ''t'' ''efx_1'' ''eff_1'' ''n'' 2]"

lemmas dispatch_eval = dispatch_run_def dispatch_world_init_def dispatch_gate_init_def sample_open_def
  open_gate_def prepare_def prepared_effect_of_def effect_init_def effect_default_def Let_def
  sample_rec_def sample_anchor_def sample_capability_def dset_def dpop_def execute_begin_def
  execute_finish_def execute_unknown_def close_gate_def drain_count_def get_active_dispatches_def

section \<open>Properties\<close>

text \<open>
  C33. The gate fences: when the gate of an effect's run is closed or opened anew, the effect is
  never sent again, whatever is opened, closed, prepared, begun or finished afterwards, in any
  interleaving and with any journal, unless an effect with the same id is prepared again.
\<close>

theorem closed_gate_fences:
  assumes "w = dispatch_run rec anc (dispatch_world_init j) cs"
    and "dget (dg_prepared (dw_gate w)) i = Some p"
    and "c = DClose (ef_run_id (pf_effect p)) reason \<or> c = DOpen (ef_run_id (pf_effect p)) pe now"
    and "\<forall>d \<in> set ds. \<not> op_prepares i d"
  shows "count_list (dw_sends (dispatch_run rec anc (dispatch_step rec anc w c) ds)) i = count_list (dw_sends w) i"
proof -
  have b: "epochs_bounded (dw_gate w)" using epochs_bounded_run [OF epochs_bounded_init] assms(1) by simp
  have "blocked (dw_gate (dispatch_step rec anc w c)) i"
    using assms(3)
  proof
    assume c: "c = DClose (ef_run_id (pf_effect p)) reason"
    show ?thesis using assms(2)
      by (auto simp: c blocked_def close_gate_def split: option.splits)
  next
    assume c: "c = DOpen (ef_run_id (pf_effect p)) pe now"
    have "de_gate_epoch (pf_dispatch_epoch p) \<le> dg_gate_sequence (dw_gate w)"
      using b assms(2) by (auto simp: epochs_bounded_def)
    then show ?thesis using assms(2) by (auto simp: c blocked_def open_gate_def Let_def)
  qed
  from blocked_run [OF epochs_bounded_step [OF b] this assms(4)] assms(3) show ?thesis by auto
qed

theorem closed_gate_fences_witness:
  "let w = dispatch_run sample_rec sample_anchor (dispatch_world_init 0) sample_open
   in count_list (dw_sends (dispatch_run sample_rec sample_anchor
        (dispatch_step sample_rec sample_anchor w (DClose ''r1'' ''kill'')) [DOpen ''r1'' 0 3, DBegin ''efx_1''])) ''efx_1'' = 0"
proof -
  define w where "w = dispatch_run sample_rec sample_anchor (dispatch_world_init 0) sample_open"
  obtain p where p: "dget (dg_prepared (dw_gate w)) ''efx_1'' = Some p"
    and r: "ef_run_id (pf_effect p) = ''r1''" and s: "dw_sends w = []"
    by (simp add: w_def dispatch_eval)
  from closed_gate_fences [OF w_def p, of "DClose ''r1'' ''kill''" "''kill''" 0 0 "[DOpen ''r1'' 0 3, DBegin ''efx_1'']"]
  show ?thesis by (simp add: r s w_def [symmetric] Let_def)
qed

text \<open>
  C34. Every send is justified, and a committed effect is final: a send happens only for an effect
  that is prepared and anchored, whose gate is open in the epoch it was prepared in, and after its
  executing frame was recorded; and once an execution reported success, the effect is never sent
  again unless it is prepared again.
\<close>

theorem sends_justified:
  assumes "w = dispatch_run rec anc (dispatch_world_init j) cs"
  shows "(dw_sends (dispatch_step rec anc w (DBegin i)) \<noteq> dw_sends w \<longrightarrow>
      (\<exists>p e n. dget (dg_prepared (dw_gate w)) i = Some p \<and> pf_anchored p \<and>
        dget (dg_epochs (dw_gate w)) (ef_run_id (pf_effect p)) = Some e \<and> \<not> de_closed e \<and>
        de_gate_epoch e = de_gate_epoch (pf_dispatch_epoch p) \<and>
        rec (dg_journal (dw_gate w)) ''effect.executing'' [(''effect_instance_id'', PStr i)] =
          Some (dg_journal (dw_gate (dispatch_step rec anc w (DBegin i))), n))) \<and>
    (i \<in> set (dw_inflight w) \<and> execute_finish rec (dw_gate w) i oc = (g', Inr r) \<and> do_success r \<and>
      (\<forall>d \<in> set ds. \<not> op_prepares i d) \<longrightarrow>
      count_list (dw_sends (dispatch_run rec anc (dispatch_step rec anc w (DFinish i oc)) ds)) i =
        count_list (dw_sends w) i)"
proof (intro conjI impI)
  assume "dw_sends (dispatch_step rec anc w (DBegin i)) \<noteq> dw_sends w"
  then obtain g u where g: "execute_begin rec (dw_gate w) i = (g, Inr u)"
    by (auto split: prod.splits sum.splits)
  then obtain n where "rec (dg_journal (dw_gate w)) ''effect.executing'' [(''effect_instance_id'', PStr i)] = Some (dg_journal g, n)"
    by (auto simp: execute_begin_def Let_def split: option.splits if_splits)
  with execute_begin_sends [OF g] g show "\<exists>p e n. dget (dg_prepared (dw_gate w)) i = Some p \<and> pf_anchored p \<and>
        dget (dg_epochs (dw_gate w)) (ef_run_id (pf_effect p)) = Some e \<and> \<not> de_closed e \<and>
        de_gate_epoch e = de_gate_epoch (pf_dispatch_epoch p) \<and>
        rec (dg_journal (dw_gate w)) ''effect.executing'' [(''effect_instance_id'', PStr i)] =
          Some (dg_journal (dw_gate (dispatch_step rec anc w (DBegin i))), n)"
    by simp
next
  assume a: "i \<in> set (dw_inflight w) \<and> execute_finish rec (dw_gate w) i oc = (g', Inr r) \<and> do_success r \<and>
      (\<forall>d \<in> set ds. \<not> op_prepares i d)"
  have b: "epochs_bounded (dw_gate w)" using epochs_bounded_run [OF epochs_bounded_init] assms(1) by simp
  from a have "dget (dg_prepared g') i = None"
    by (auto simp: execute_finish_def execute_unknown_def Let_def split: adapter_outcome.splits option.splits if_splits)
  with a have "blocked (dw_gate (dispatch_step rec anc w (DFinish i oc))) i" by (simp add: blocked_def)
  from blocked_run [OF epochs_bounded_step [OF b] this] a
  show "count_list (dw_sends (dispatch_run rec anc (dispatch_step rec anc w (DFinish i oc)) ds)) i =
      count_list (dw_sends w) i" by simp
qed

theorem sends_justified_witness:
  "let w = dispatch_run sample_rec sample_anchor (dispatch_world_init 0) (sample_open @ [DBegin ''efx_1''])
   in count_list (dw_sends (dispatch_run sample_rec sample_anchor
        (dispatch_step sample_rec sample_anchor w (DFinish ''efx_1'' (AdapterReturned 5))) [DBegin ''efx_1''])) ''efx_1'' = 1"
proof -
  define w where "w = dispatch_run sample_rec sample_anchor (dispatch_world_init 0) (sample_open @ [DBegin ''efx_1''])"
  obtain g' r where r: "execute_finish sample_rec (dw_gate w) ''efx_1'' (AdapterReturned 5) = (g', Inr r)" "do_success r"
    and i: "''efx_1'' \<in> set (dw_inflight w)" and s: "count_list (dw_sends w) ''efx_1'' = 1"
    by (simp add: w_def dispatch_eval)
  from sends_justified [OF w_def, of "''efx_1''" "AdapterReturned 5" g' r "[DBegin ''efx_1'']"] r i s
  show ?thesis unfolding w_def [symmetric] Let_def by simp
qed

section \<open>Limits of the gate\<close>

text \<open>
  An effect whose adapter raised stays prepared, so \<open>execute\<close> sends it a second time; and two calls
  of \<open>execute\<close> that overlap while the first waits for the adapter both send.
\<close>

lemma failed_effect_resent:
  "dw_sends (dispatch_run sample_rec sample_anchor (dispatch_world_init 0)
     (sample_open @ [DBegin ''efx_1'', DFinish ''efx_1'' (AdapterRaised ''timeout''), DBegin ''efx_1''])) =
   [''efx_1'', ''efx_1'']"
  by (simp add: dispatch_eval)

lemma overlapping_executes_send_twice:
  "dw_sends (dispatch_run sample_rec sample_anchor (dispatch_world_init 0)
     (sample_open @ [DBegin ''efx_1'', DBegin ''efx_1''])) = [''efx_1'', ''efx_1'']"
  by (simp add: dispatch_eval)

text \<open>\<open>drain_count\<close> counts an executing effect twice, and a failed one for ever.\<close>

lemma drain_count_double:
  "drain_count (dw_gate (dispatch_run sample_rec sample_anchor (dispatch_world_init 0)
     (sample_open @ [DBegin ''efx_1'']))) ''r1'' = 2 \<and>
   drain_count (dw_gate (dispatch_run sample_rec sample_anchor (dispatch_world_init 0)
     (sample_open @ [DBegin ''efx_1'', DFinish ''efx_1'' (AdapterRaised ''timeout'')]))) ''r1'' = 1"
  by (simp add: dispatch_eval)

end
