(* ===== verification/Tool_Broker.thy ===== *)
theory Tool_Broker
  imports Domain_Goals Dispatch_Gate
begin

text \<open>
  The tool broker of \<^verbatim>\<open>src/src/autonomous/broker/tool_broker.py\<close>. The callables of the constructor
  are parameters over a state \<open>'e\<close> of the outside world: kill check, epoch check, policy check,
  budget reservation (a falsy result is \<open>None\<close>) and settlement (\<open>None\<close> when it raises). \<open>dispatch\<close>
  awaits the adapter, so it is split there: \<open>tool_begin\<close> ends with a result or with the call of the
  adapter, \<open>tool_finish\<close> runs when the adapter has returned or raised.
\<close>

section \<open>Data\<close>

record dispatch_request =
  rq_capability :: string
  rq_arguments :: pydict
  rq_run_id :: string
  rq_step_id :: string
  rq_attempt_id :: string
  rq_plan_epoch :: int
  rq_employee_id :: string
  rq_semantic_action_key :: string

record dispatch_result =
  dr_success :: bool
  dr_effect_id :: string
  dr_result_data :: pydict
  dr_error :: string
  dr_idempotent_hit :: bool

record capability_table =
  ct_capabilities :: "(string, capability_descriptor) dict"
  ct_adapters :: "string list"

definition table_register :: "capability_table \<Rightarrow> capability_descriptor \<Rightarrow> capability_table" where
  "table_register t d = t\<lparr>ct_capabilities := dset (ct_capabilities t) (cd_capability_id d) d,
     ct_adapters := cd_capability_id d # ct_adapters t\<rparr>"

definition table_get :: "capability_table \<Rightarrow> string \<Rightarrow> capability_descriptor option" where
  "table_get t i = dget (ct_capabilities t) i"

definition table_exists :: "capability_table \<Rightarrow> string \<Rightarrow> bool" where
  "table_exists t i \<longleftrightarrow> dget (ct_capabilities t) i \<noteq> None"

record 'e broker_env =
  en_kill_check :: "'e \<Rightarrow> string \<Rightarrow> bool"
  en_epoch_check :: "'e \<Rightarrow> string \<Rightarrow> int \<Rightarrow> epoch_set \<Rightarrow> bool"
  en_policy_check :: "'e \<Rightarrow> dispatch_request \<Rightarrow> capability_descriptor \<Rightarrow> pydict"
  en_budget_reserve :: "'e \<Rightarrow> string \<Rightarrow> string \<Rightarrow> pyfloat \<Rightarrow> 'e \<times> string option"
  en_budget_settle :: "'e \<Rightarrow> string \<Rightarrow> pyfloat \<Rightarrow> 'e option"
  en_action_hash :: "string \<Rightarrow> pydict \<Rightarrow> string"
  en_sha256 :: "string \<Rightarrow> string"

record 'e tool_broker =
  tb_world :: 'e
  tb_registry :: capability_table
  tb_effect_ledger :: "(string, effect) dict"
  tb_action_intents :: "(string, string) dict"

section \<open>The dispatch pipeline\<close>

definition compute_action_key :: "'e broker_env \<Rightarrow> dispatch_request \<Rightarrow> string" where
  "compute_action_key en rq =
     (if rq_semantic_action_key rq \<noteq> [] then rq_semantic_action_key rq
      else take 24 (en_action_hash en (rq_capability rq) (rq_arguments rq)))"

definition dispatch_error :: "string \<Rightarrow> string \<Rightarrow> dispatch_result" where
  "dispatch_error effect_id err = \<lparr>dr_success = False, dr_effect_id = effect_id, dr_result_data = [],
     dr_error = err, dr_idempotent_hit = False\<rparr>"

text \<open>An f-string of a value of the policy dictionary: a string as it is, anything else opaque.\<close>

definition policy_text :: "pydict \<Rightarrow> string \<Rightarrow> string" where
  "policy_text d k = (case dget d k of None \<Rightarrow> [] | Some (PStr s) \<Rightarrow> s | Some _ \<Rightarrow> ''?'')"

definition resource_argument :: "pydict \<Rightarrow> string" where
  "resource_argument d = (case dget d ''resource_id'' of Some (PStr s) \<Rightarrow> s | _ \<Rightarrow> [])"

definition tool_effect ::
  "'e broker_env \<Rightarrow> dispatch_request \<Rightarrow> capability_descriptor \<Rightarrow> string \<Rightarrow> timestamp \<Rightarrow> effect" where
  "tool_effect en rq d fresh now =
     (let key = compute_action_key en rq; intent = take 16 (en_sha256 en key)
      in (effect_default fresh now)\<lparr>ef_effect_instance_id := fresh,
           ef_effect_lineage_id := (if intent \<noteq> [] then intent else fresh),
           ef_action_intent_id := intent, ef_capability := rq_capability rq,
           ef_resource_id := resource_argument (rq_arguments rq), ef_semantic_action_key := key,
           ef_risk_level := cd_risk_level d, ef_attempt_id := rq_attempt_id rq,
           ef_run_id := rq_run_id rq\<rparr>)"

definition put_effect :: "'e tool_broker \<Rightarrow> effect \<Rightarrow> 'e tool_broker" where
  "put_effect b e = b\<lparr>tb_effect_ledger := dset (tb_effect_ledger b) (ef_effect_id e) e\<rparr>"

definition committed_before :: "'e tool_broker \<Rightarrow> string \<Rightarrow> string option" where
  "committed_before b key =
     (case dget (tb_action_intents b) key of
        None \<Rightarrow> None
      | Some i \<Rightarrow>
          (case dget (tb_effect_ledger b) i of
             None \<Rightarrow> None
           | Some e \<Rightarrow> if ef_state e = ES_COMMITTED then Some i else None))"

definition tool_begin ::
  "'e broker_env \<Rightarrow> 'e tool_broker \<Rightarrow> dispatch_request \<Rightarrow> epoch_set \<Rightarrow> string \<Rightarrow> timestamp \<Rightarrow>
     'e tool_broker \<times> (dispatch_result + effect \<times> string)" where
  "tool_begin en b rq epochs fresh now =
     (if \<not> en_kill_check en (tb_world b) (rq_capability rq)
      then (b, Inl (dispatch_error [] ''Kill switch active''))
      else if \<not> en_epoch_check en (tb_world b) (rq_run_id rq) (rq_plan_epoch rq) epochs
      then (b, Inl (dispatch_error [] ''Stale epoch - operation revoked''))
      else case table_get (tb_registry b) (rq_capability rq) of
        None \<Rightarrow> (b, Inl (dispatch_error [] (''Unknown capability: '' @ rq_capability rq)))
      | Some d \<Rightarrow>
          let pol = en_policy_check en (tb_world b) rq d in
          if dget pol ''decision'' = Some (PStr ''deny'')
          then (b, Inl (dispatch_error [] (''Policy denied: '' @ policy_text pol ''reason'')))
          else if dget pol ''decision'' = Some (PStr ''require_approval'')
          then (b, Inl (dispatch_error [] (''Requires approval: '' @ policy_text pol ''approval_id'')))
          else
            let key = compute_action_key en rq in
            case committed_before b key of
              Some i \<Rightarrow> (b, Inl \<lparr>dr_success = True, dr_effect_id = i, dr_result_data = [], dr_error = [],
                             dr_idempotent_hit = True\<rparr>)
            | None \<Rightarrow>
                (case en_budget_reserve en (tb_world b) (rq_run_id rq) ''tool_calls'' (Fin 1) of
                   (w, None) \<Rightarrow> (b\<lparr>tb_world := w\<rparr>, Inl (dispatch_error [] ''Budget exceeded''))
                 | (w, Some entry) \<Rightarrow>
                     let e = tool_effect en rq d fresh now;
                         b1 = (put_effect b e)\<lparr>tb_world := w,
                           tb_action_intents := dset (tb_action_intents b) key (ef_effect_id e)\<rparr>
                     in if rq_capability rq \<notin> set (ct_adapters (tb_registry b))
                        then (put_effect b1 (e\<lparr>ef_state := ES_UNKNOWN_EFFECT, ef_active_dispatch := False\<rparr>),
                              Inl (dispatch_error (ef_effect_id e) ''No adapter''))
                        else
                          let e1 = e\<lparr>ef_state := ES_EXECUTING, ef_active_dispatch := True\<rparr>
                          in (put_effect b1 e1, Inr (e1, entry))))"

datatype tool_outcome = ToolReturned pyval timestamp | ToolRaised string

definition tool_unknown :: "'e tool_broker \<Rightarrow> effect \<Rightarrow> string \<Rightarrow> 'e tool_broker \<times> dispatch_result" where
  "tool_unknown b e err =
     (put_effect b (e\<lparr>ef_state := ES_UNKNOWN_EFFECT, ef_active_dispatch := False\<rparr>),
      dispatch_error (ef_effect_id e) err)"

definition tool_finish ::
  "'e broker_env \<Rightarrow> 'e tool_broker \<Rightarrow> effect \<Rightarrow> string \<Rightarrow> tool_outcome \<Rightarrow> 'e tool_broker \<times> dispatch_result" where
  "tool_finish en b e entry outcome =
     (case outcome of
        ToolRaised err \<Rightarrow> tool_unknown b e err
      | ToolReturned v now \<Rightarrow>
          let e1 = e\<lparr>ef_state := ES_COMMITTED, ef_active_dispatch := False, ef_committed_at := Some now\<rparr>;
              b1 = put_effect b e1
          in (case en_budget_settle en (tb_world b1) entry (Fin 1) of
                None \<Rightarrow> tool_unknown b1 e1 ''settlement failed''
              | Some w \<Rightarrow>
                  (b1\<lparr>tb_world := w\<rparr>,
                   \<lparr>dr_success = True, dr_effect_id = ef_effect_id e,
                    dr_result_data = (case v of PDict d \<Rightarrow> d | _ \<Rightarrow> [(''output'', v)]),
                    dr_error = [], dr_idempotent_hit = False\<rparr>)))"

text \<open>The whole call when no other one runs while the adapter works; \<open>oc\<close> is the adapter's outcome.\<close>

definition tool_dispatch ::
  "'e broker_env \<Rightarrow> 'e tool_broker \<Rightarrow> dispatch_request \<Rightarrow> epoch_set \<Rightarrow> string \<Rightarrow> timestamp \<Rightarrow> tool_outcome \<Rightarrow>
     'e tool_broker \<times> dispatch_result \<times> bool" where
  "tool_dispatch en b rq epochs fresh now oc =
     (case tool_begin en b rq epochs fresh now of
        (b1, Inl r) \<Rightarrow> (b1, r, False)
      | (b1, Inr (e, entry)) \<Rightarrow>
          (case tool_finish en b1 e entry oc of (b2, r) \<Rightarrow> (b2, r, True)))"

definition get_effect :: "'e tool_broker \<Rightarrow> string \<Rightarrow> effect option" where
  "get_effect b i = dget (tb_effect_ledger b) i"

definition list_effects :: "'e tool_broker \<Rightarrow> string \<Rightarrow> effect list" where
  "list_effects b run_id = filter (\<lambda>e. ef_run_id e = run_id) (dvals (tb_effect_ledger b))"

definition get_uncommitted_effects :: "'e tool_broker \<Rightarrow> string \<Rightarrow> effect list" where
  "get_uncommitted_effects b run_id = filter (\<lambda>e. ef_run_id e = run_id \<and>
     ef_state e \<in> {ES_PREPARED, ES_EXECUTING, ES_UNKNOWN_EFFECT}) (dvals (tb_effect_ledger b))"

section \<open>Well-formedness\<close>

text \<open>Effects are stored under their id and satisfy the constructor's check on the dispatch flag.\<close>

definition ledger_inv :: "'e tool_broker \<Rightarrow> bool" where
  "ledger_inv b \<longleftrightarrow> (\<forall>i e. dget (tb_effect_ledger b) i = Some e \<longrightarrow>
     ef_effect_id e = i \<and> (ef_active_dispatch e \<longleftrightarrow> ef_state e = ES_EXECUTING))"

lemma put_effect_ledger:
  "ledger_inv b \<Longrightarrow> (ef_active_dispatch e \<longleftrightarrow> ef_state e = ES_EXECUTING) \<Longrightarrow> ledger_inv (put_effect b e)"
  by (simp add: ledger_inv_def put_effect_def)

lemma ledger_inv_cong: "tb_effect_ledger b = tb_effect_ledger c \<Longrightarrow> ledger_inv b = ledger_inv c"
  by (simp add: ledger_inv_def)

lemma tool_effect_fields:
  "ef_effect_id (tool_effect en rq d fresh now) = fresh"
  "ef_state (tool_effect en rq d fresh now) = ES_PROPOSED"
  "ef_active_dispatch (tool_effect en rq d fresh now) = False"
  "ef_run_id (tool_effect en rq d fresh now) = rq_run_id rq"
  "ef_semantic_action_key (tool_effect en rq d fresh now) = compute_action_key en rq"
  by (simp_all add: tool_effect_def effect_default_def Let_def)

lemma tool_effect_init: "fresh \<noteq> [] \<Longrightarrow> effect_init (tool_effect en rq d fresh now) = Inr (tool_effect en rq d fresh now)"
  by (simp add: effect_init_def tool_effect_def effect_default_def Let_def)

text \<open>What a call that reached the adapter went through.\<close>

lemma tool_begin_sends:
  assumes "tool_begin en b rq epochs fresh now = (b1, Inr (e, entry))"
  obtains d w where "en_kill_check en (tb_world b) (rq_capability rq)"
    "en_epoch_check en (tb_world b) (rq_run_id rq) (rq_plan_epoch rq) epochs"
    "table_get (tb_registry b) (rq_capability rq) = Some d"
    "dget (en_policy_check en (tb_world b) rq d) ''decision'' \<noteq> Some (PStr ''deny'')"
    "dget (en_policy_check en (tb_world b) rq d) ''decision'' \<noteq> Some (PStr ''require_approval'')"
    "committed_before b (compute_action_key en rq) = None"
    "en_budget_reserve en (tb_world b) (rq_run_id rq) ''tool_calls'' (Fin 1) = (w, Some entry)"
    "rq_capability rq \<in> set (ct_adapters (tb_registry b))"
    "e = (tool_effect en rq d fresh now)\<lparr>ef_state := ES_EXECUTING, ef_active_dispatch := True\<rparr>"
    "b1 = put_effect ((put_effect b (tool_effect en rq d fresh now))\<lparr>tb_world := w,
        tb_action_intents := dset (tb_action_intents b) (compute_action_key en rq) fresh\<rparr>) e"
proof -
  from assms obtain d where 1: "en_kill_check en (tb_world b) (rq_capability rq)"
    "en_epoch_check en (tb_world b) (rq_run_id rq) (rq_plan_epoch rq) epochs"
    "table_get (tb_registry b) (rq_capability rq) = Some d"
    "dget (en_policy_check en (tb_world b) rq d) ''decision'' \<noteq> Some (PStr ''deny'')"
    "dget (en_policy_check en (tb_world b) rq d) ''decision'' \<noteq> Some (PStr ''require_approval'')"
    "committed_before b (compute_action_key en rq) = None"
    by (simp add: tool_begin_def Let_def split: if_splits option.splits)
  obtain w eo where w: "en_budget_reserve en (tb_world b) (rq_run_id rq) ''tool_calls'' (Fin 1) = (w, eo)"
    by fastforce
  from assms 1 w show thesis
    by (cases eo) (auto simp: tool_begin_def Let_def tool_effect_fields split: if_splits intro!: that)
qed

lemma tool_begin_ledger:
  assumes "ledger_inv b" shows "ledger_inv (fst (tool_begin en b rq epochs fresh now))"
proof -
  obtain w eo where w: "en_budget_reserve en (tb_world b) (rq_run_id rq) ''tool_calls'' (Fin 1) = (w, eo)"
    by fastforce
  have cong: "ledger_inv (c\<lparr>tb_world := w, tb_action_intents := x\<rparr>) = ledger_inv c" for c x
    by (rule ledger_inv_cong) simp
  have 1: "ledger_inv ((put_effect b (tool_effect en rq d fresh now))\<lparr>tb_world := w, tb_action_intents := x\<rparr>)" for d x
    unfolding cong by (rule put_effect_ledger [OF assms]) (simp add: tool_effect_fields)
  have 2: "ledger_inv (b\<lparr>tb_world := w\<rparr>)" using assms ledger_inv_cong [of "b\<lparr>tb_world := w\<rparr>" b] by simp
  show ?thesis
    by (cases eo)
      (auto simp: tool_begin_def Let_def w assms 2 intro!: put_effect_ledger 1 split: option.split)
qed

lemma tool_finish_ledger:
  assumes "ledger_inv b" shows "ledger_inv (fst (tool_finish en b e entry oc))"
proof -
  have cong: "ledger_inv (c\<lparr>tb_world := w\<rparr>) = ledger_inv c" for c w
    by (rule ledger_inv_cong) simp
  show ?thesis
    by (auto simp: tool_finish_def tool_unknown_def Let_def cong assms intro!: put_effect_ledger
        split: tool_outcome.split option.split)
qed

section \<open>Sequential histories\<close>

record tool_call =
  tc_request :: dispatch_request
  tc_epochs :: epoch_set
  tc_fresh :: string
  tc_now :: timestamp
  tc_outcome :: tool_outcome

fun tool_run :: "'e broker_env \<Rightarrow> 'e tool_broker \<Rightarrow> tool_call list \<Rightarrow> 'e tool_broker \<times> string list" where
  "tool_run en b [] = (b, [])"
| "tool_run en b (c # cs) =
     (case tool_dispatch en b (tc_request c) (tc_epochs c) (tc_fresh c) (tc_now c) (tc_outcome c) of
        (b1, r, sent) \<Rightarrow>
          (case tool_run en b1 cs of
             (b2, keys) \<Rightarrow> (b2, if sent then compute_action_key en (tc_request c) # keys else keys)))"

lemma committed_before_put:
  "ef_effect_id e \<noteq> i \<Longrightarrow> committed_before b k = Some i \<Longrightarrow> committed_before (put_effect b e) k = Some i"
  by (auto simp: committed_before_def put_effect_def split: option.splits if_splits)

lemma committed_before_world [simp]: "committed_before (b\<lparr>tb_world := w\<rparr>) k = committed_before b k"
  by (simp add: committed_before_def cong: option.case_cong)

lemma committed_before_intent:
  "k' \<noteq> k \<Longrightarrow> committed_before (b\<lparr>tb_world := w, tb_action_intents := dset (tb_action_intents b) k' j\<rparr>) k =
     committed_before b k"
  by (simp add: committed_before_def cong: option.case_cong)

lemma put_effect_intents [simp]: "tb_action_intents (put_effect b e) = tb_action_intents b"
  by (simp add: put_effect_def)

lemma tool_begin_result:
  assumes "tool_begin en b rq epochs fresh now = (b1, Inl r)" and "committed_before b k = Some i" and "fresh \<noteq> i"
  shows "committed_before b1 k = Some i"
proof -
  obtain w eo where w: "en_budget_reserve en (tb_world b) (rq_run_id rq) ''tool_calls'' (Fin 1) = (w, eo)"
    by fastforce
  have new: "committed_before ((put_effect b (tool_effect en rq d fresh now))\<lparr>tb_world := w,
      tb_action_intents := dset (tb_action_intents b) (compute_action_key en rq) fresh\<rparr>) k = Some i"
    if "committed_before b (compute_action_key en rq) = None" for d
  proof -
    from that assms(2) have "compute_action_key en rq \<noteq> k" by auto
    from committed_before_intent [OF this, where b = "put_effect b (tool_effect en rq d fresh now)" and w = w and j = fresh]
      committed_before_put [of "tool_effect en rq d fresh now" i b k] assms(2,3) show ?thesis
      by (simp add: tool_effect_fields)
  qed
  from assms(1,2,3) w new show ?thesis
    by (cases eo) (auto simp: tool_begin_def Let_def tool_effect_fields intro!: committed_before_put
        split: if_splits option.splits)
qed

lemma tool_finish_committed:
  assumes "committed_before b k = Some i" and "ef_effect_id e \<noteq> i"
  shows "committed_before (fst (tool_finish en b e entry oc)) k = Some i"
  using assms by (auto simp: tool_finish_def tool_unknown_def Let_def intro!: committed_before_put
      split: tool_outcome.split option.split)

lemma tool_dispatch_committed:
  assumes "committed_before b k = Some i" and "fresh \<noteq> i"
    and "tool_dispatch en b rq epochs fresh now oc = (b1, r, sent)"
  shows "committed_before b1 k = Some i \<and> (sent \<longrightarrow> compute_action_key en rq \<noteq> k)"
proof (cases "tool_begin en b rq epochs fresh now")
  case (Pair b0 res)
  show ?thesis
  proof (cases res)
    case (Inl r0)
    with Pair assms tool_begin_result [of en b rq epochs fresh now b0 r0 k i] show ?thesis
      by (simp add: tool_dispatch_def)
  next
    case (Inr ee)
    obtain e entry where ee: "ee = (e, entry)" by (cases ee)
    with Pair Inr have t: "tool_begin en b rq epochs fresh now = (b0, Inr (e, entry))" by simp
    from t obtain d w where none: "committed_before b (compute_action_key en rq) = None"
      and e: "e = (tool_effect en rq d fresh now)\<lparr>ef_state := ES_EXECUTING, ef_active_dispatch := True\<rparr>"
      and b0: "b0 = put_effect ((put_effect b (tool_effect en rq d fresh now))\<lparr>tb_world := w,
        tb_action_intents := dset (tb_action_intents b) (compute_action_key en rq) fresh\<rparr>) e"
      by (rule tool_begin_sends)
    from none assms(1) have neq: "compute_action_key en rq \<noteq> k" by auto
    have id: "ef_effect_id e = fresh" by (simp add: e tool_effect_fields)
    have "committed_before (put_effect b (tool_effect en rq d fresh now)) k = Some i"
      using assms(1,2) by (intro committed_before_put) (simp_all add: tool_effect_fields)
    with committed_before_intent [OF neq, where b = "put_effect b (tool_effect en rq d fresh now)" and w = w and j = fresh]
    have "committed_before b0 k = Some i"
      unfolding b0 using id assms(2) by (intro committed_before_put) simp_all
    from tool_finish_committed [OF this, of e en entry oc] id assms(2,3) t neq show ?thesis
      by (auto simp: tool_dispatch_def split: prod.splits)
  qed
qed

lemma tool_run_committed:
  assumes "committed_before b k = Some i" and "\<forall>c \<in> set cs. tc_fresh c \<noteq> i"
  shows "k \<notin> set (snd (tool_run en b cs)) \<and> committed_before (fst (tool_run en b cs)) k = Some i"
  using assms
proof (induction cs arbitrary: b)
  case (Cons c cs)
  obtain b1 r sent where d: "tool_dispatch en b (tc_request c) (tc_epochs c) (tc_fresh c) (tc_now c) (tc_outcome c) =
      (b1, r, sent)" by (metis prod_cases3)
  have c: "tc_fresh c \<noteq> i" using Cons.prems(2) by simp
  from tool_dispatch_committed [OF Cons.prems(1) c d] have b1: "committed_before b1 k = Some i"
    and s: "sent \<Longrightarrow> compute_action_key en (tc_request c) \<noteq> k" by auto
  from Cons.IH [OF b1] Cons.prems(2) d s show ?case by (auto split: prod.split)
qed simp

section \<open>Properties\<close>

text \<open>
  C35. The adapter is the last step: a dispatch reaches the adapter only when the kill switch, the
  epoch, the registry and the policy let it pass, no effect of the same action was committed before,
  the budget was reserved and an adapter exists; at that moment the ledger holds the effect as
  executing, under the action's key. Every effect in the ledger keeps its dispatch flag consistent.
\<close>

theorem tool_send_justified:
  assumes "ledger_inv b" and "tool_begin en b rq epochs fresh now = (b1, Inr (e, entry))"
  shows "en_kill_check en (tb_world b) (rq_capability rq) \<and>
    en_epoch_check en (tb_world b) (rq_run_id rq) (rq_plan_epoch rq) epochs \<and>
    (\<exists>d. table_get (tb_registry b) (rq_capability rq) = Some d \<and>
      dget (en_policy_check en (tb_world b) rq d) ''decision'' \<notin>
        {Some (PStr ''deny''), Some (PStr ''require_approval'')}) \<and>
    committed_before b (compute_action_key en rq) = None \<and>
    (\<exists>w. en_budget_reserve en (tb_world b) (rq_run_id rq) ''tool_calls'' (Fin 1) = (w, Some entry)) \<and>
    dget (tb_effect_ledger b1) fresh = Some e \<and> ef_state e = ES_EXECUTING \<and>
    dget (tb_action_intents b1) (compute_action_key en rq) = Some fresh \<and>
    ledger_inv b1 \<and> ledger_inv (fst (tool_finish en b1 e entry oc))"
proof -
  have inv: "ledger_inv b1" using tool_begin_ledger [OF assms(1), of en rq epochs fresh now] assms(2) by simp
  from assms(2) show ?thesis
  proof (rule tool_begin_sends)
    fix d w
    assume e: "e = (tool_effect en rq d fresh now)\<lparr>ef_state := ES_EXECUTING, ef_active_dispatch := True\<rparr>"
      and b1: "b1 = put_effect ((put_effect b (tool_effect en rq d fresh now))\<lparr>tb_world := w,
        tb_action_intents := dset (tb_action_intents b) (compute_action_key en rq) fresh\<rparr>) e"
      and rest: "en_kill_check en (tb_world b) (rq_capability rq)"
        "en_epoch_check en (tb_world b) (rq_run_id rq) (rq_plan_epoch rq) epochs"
        "table_get (tb_registry b) (rq_capability rq) = Some d"
        "dget (en_policy_check en (tb_world b) rq d) ''decision'' \<noteq> Some (PStr ''deny'')"
        "dget (en_policy_check en (tb_world b) rq d) ''decision'' \<noteq> Some (PStr ''require_approval'')"
        "committed_before b (compute_action_key en rq) = None"
        "en_budget_reserve en (tb_world b) (rq_run_id rq) ''tool_calls'' (Fin 1) = (w, Some entry)"
    have "dget (tb_effect_ledger b1) fresh = Some e" "ef_state e = ES_EXECUTING"
      "dget (tb_action_intents b1) (compute_action_key en rq) = Some fresh"
      by (simp_all add: b1 e put_effect_def tool_effect_fields)
    with rest inv tool_finish_ledger [OF inv] show ?thesis by auto
  qed
qed


section \<open>A sample broker\<close>

definition sample_benv :: "bool \<Rightarrow> nat broker_env" where
  "sample_benv settles = \<lparr>en_kill_check = (\<lambda>w c. True), en_epoch_check = (\<lambda>w r p ep. True),
     en_policy_check = (\<lambda>w rq d. [(''decision'', PStr ''allow'')]),
     en_budget_reserve = (\<lambda>w r t a. (w + 1, Some ''b'')),
     en_budget_settle = (\<lambda>w b a. if settles then Some w else None),
     en_action_hash = (\<lambda>c a. c), en_sha256 = id\<rparr>"

definition sample_broker :: "nat tool_broker" where
  "sample_broker = \<lparr>tb_world = 0, tb_registry = table_register \<lparr>ct_capabilities = [], ct_adapters = []\<rparr> sample_capability,
     tb_effect_ledger = [], tb_action_intents = []\<rparr>"

definition sample_request :: dispatch_request where
  "sample_request = \<lparr>rq_capability = ''mail'', rq_arguments = [], rq_run_id = ''r1'', rq_step_id = ''s1'',
     rq_attempt_id = ''a1'', rq_plan_epoch = 0, rq_employee_id = ''e1'', rq_semantic_action_key = ''k''\<rparr>"

definition zero_epochs :: epoch_set where
  "zero_epochs = \<lparr>ep_definition_version = 0, ep_admission_epoch = 0, ep_revocation_epoch = 0,
     ep_run_control_epoch = 0, ep_plan_epoch = 0, ep_kill_epoch = 0\<rparr>"

definition sample_tool_call :: "string \<Rightarrow> tool_outcome \<Rightarrow> tool_call" where
  "sample_tool_call f oc = \<lparr>tc_request = sample_request, tc_epochs = zero_epochs, tc_fresh = f, tc_now = 1,
     tc_outcome = oc\<rparr>"

lemmas tool_eval = tool_dispatch_def tool_begin_def tool_finish_def tool_unknown_def Let_def put_effect_def
  tool_effect_fields table_get_def table_register_def committed_before_def compute_action_key_def
  sample_benv_def sample_broker_def sample_request_def sample_tool_call_def dispatch_error_def
  sample_capability_def

theorem tool_send_justified_witness:
  "\<exists>b1 e entry. tool_begin (sample_benv True) sample_broker sample_request zero_epochs ''eff_1'' 1 = (b1, Inr (e, entry)) \<and>
     dget (tb_effect_ledger b1) ''eff_1'' = Some e \<and> ef_state e = ES_EXECUTING \<and> ledger_inv b1"
proof -
  obtain b1 e entry where t: "tool_begin (sample_benv True) sample_broker sample_request zero_epochs ''eff_1'' 1 =
      (b1, Inr (e, entry))"
    by (simp add: tool_eval)
  have "ledger_inv sample_broker" by (simp add: ledger_inv_def sample_broker_def)
  from tool_send_justified [OF this t] t show ?thesis by blast
qed


section \<open>Limits of the broker\<close>

text \<open>
  An action whose adapter raised is sent again by the next dispatch of the same key, and so is one
  that was committed but whose settlement raised: the handler then overwrites the committed state.
\<close>

lemma unknown_action_resent:
  "snd (tool_run (sample_benv True) sample_broker [sample_tool_call ''eff_1'' (ToolRaised ''timeout''),
     sample_tool_call ''eff_2'' (ToolReturned PNone 3)]) = [''k'', ''k'']"
  by (simp add: tool_eval)

lemma settle_failure_resends:
  "snd (tool_run (sample_benv False) sample_broker [sample_tool_call ''eff_1'' (ToolReturned PNone 2),
     sample_tool_call ''eff_2'' (ToolReturned PNone 3)]) = [''k'', ''k'']"
  by (simp add: tool_eval)

end
