(* ===== verification/Budget_Manager.thy ===== *)
theory Budget_Manager
  imports Domain_Control
begin

text \<open>
  The budget manager of \<^verbatim>\<open>src/src/autonomous/policy/budget_manager.py\<close>: ledgers with limits per
  dimension, reservations, settlement, release and conservative settlement. Amounts are Python
  floats, so a sum may round; the theorems about totals are stated for integral amounts below
  \<open>2\<^sup>5\<^sup>3\<close>, where float arithmetic is exact. Fresh ids and the clock are arguments.
\<close>

section \<open>Errors and validation\<close>

datatype budget_exn =
    BudgetError string
  | BudgetValidationError string
  | BudgetOverdraftError pyfloat pyfloat string
  | BudgetCASError int int
  | BudgetEntryNotFoundError string
  | FloatOverflow

fun validate_amount :: "pyval \<Rightarrow> string \<Rightarrow> budget_exn + pyfloat" where
  "validate_amount (PInt i) label =
     (case to_float (of_int i) of
        Fin r \<Rightarrow> if r < 0 then Inl (BudgetValidationError (label @ '' must not be negative''))
          else Inr (Fin r)
      | _ \<Rightarrow> Inl FloatOverflow)"
| "validate_amount (PFloat f) label =
     (if fisnan f then Inl (BudgetValidationError (label @ '' must not be NaN''))
      else if fisinf f then Inl (BudgetValidationError (label @ '' must be finite''))
      else if flt f (Fin 0) then Inl (BudgetValidationError (label @ '' must not be negative''))
      else Inr f)"
| "validate_amount _ label = Inl (BudgetValidationError (label @ '' must be numeric''))"

section \<open>State\<close>

record budget_manager =
  bm_ledgers :: "(string, budget_ledger) dict"

definition budget_init :: budget_manager where
  "budget_init = \<lparr>bm_ledgers = []\<rparr>"

definition put_ledger :: "budget_manager \<Rightarrow> budget_ledger \<Rightarrow> budget_manager" where
  "put_ledger m l = m\<lparr>bm_ledgers := dset (bm_ledgers m) (bl_ledger_id l) l\<rparr>"

definition get_ledger :: "budget_manager \<Rightarrow> string \<Rightarrow> budget_ledger option" where
  "get_ledger m ledger_id = dget (bm_ledgers m) ledger_id"

text \<open>The search of \<open>_find_entry\<close>: the first ledger with an entry of that id, and its index.\<close>

fun entry_index :: "budget_entry list \<Rightarrow> string \<Rightarrow> nat option" where
  "entry_index [] i = None"
| "entry_index (e # es) i =
     (if be_entry_id e = i then Some 0 else map_option Suc (entry_index es i))"

fun find_in_ledgers :: "budget_ledger list \<Rightarrow> string \<Rightarrow> (budget_ledger \<times> nat) option" where
  "find_in_ledgers [] i = None"
| "find_in_ledgers (l # ls) i =
     (case entry_index (bl_entries l) i of
        Some n \<Rightarrow> Some (l, n)
      | None \<Rightarrow> find_in_ledgers ls i)"

definition find_entry :: "budget_manager \<Rightarrow> string \<Rightarrow> budget_exn + budget_ledger \<times> nat" where
  "find_entry m entry_id =
     (case find_in_ledgers (dvals (bm_ledgers m)) entry_id of
        Some r \<Rightarrow> Inr r
      | None \<Rightarrow> Inl (BudgetEntryNotFoundError (''entry '' @ entry_id @ '' not found'')))"

section \<open>Operations\<close>

definition validate_limit :: "string \<times> pyval \<Rightarrow> budget_exn + string \<times> pyfloat" where
  "validate_limit kv = bindE (validate_amount (snd kv) (''limit['' @ fst kv @ '']''))
     (\<lambda>x. Inr (fst kv, x))"

definition get_or_create_ledger ::
  "budget_manager \<Rightarrow> string \<Rightarrow> string \<Rightarrow> string \<Rightarrow> string \<Rightarrow> string \<Rightarrow> pydict option \<Rightarrow> string \<Rightarrow>
     budget_manager \<times> (budget_exn + budget_ledger)" where
  "get_or_create_ledger m tenant run_id goal_id employee team limits fresh =
     (case List.find (\<lambda>l. bl_run_id l = run_id \<and> bl_goal_id l = goal_id) (dvals (bm_ledgers m)) of
        Some l \<Rightarrow> (m, Inr l)
      | None \<Rightarrow>
          (case mapE validate_limit (case limits of None \<Rightarrow> [] | Some d \<Rightarrow> d) of
             Inl e \<Rightarrow> (m, Inl e)
           | Inr validated \<Rightarrow>
               let l = \<lparr>bl_ledger_id = fresh, bl_tenant_key = tenant, bl_run_id = run_id,
                     bl_goal_id = goal_id, bl_employee_id = employee, bl_team_id = team,
                     bl_limits = validated, bl_entries = [], bl_aggregate_version = 0\<rparr>
               in (put_ledger m l, Inr l)))"

text \<open>The next version of a ledger with new entries: what every mutation builds.\<close>

definition with_entries :: "budget_ledger \<Rightarrow> budget_entry list \<Rightarrow> budget_ledger" where
  "with_entries l es = l\<lparr>bl_entries := es, bl_aggregate_version := bl_aggregate_version l + 1\<rparr>"

definition ledger_reserve ::
  "budget_ledger \<Rightarrow> string \<times> string \<times> pyfloat \<times> string \<times> timestamp \<Rightarrow> int option \<Rightarrow> budget_exn + budget_ledger" where
  "ledger_reserve l args expected =
     (case args of (ledger_id, dimension, amount, fresh, now) \<Rightarrow>
        if expected \<noteq> None \<and> bl_aggregate_version l \<noteq> the expected
        then Inl (BudgetCASError (the expected) (bl_aggregate_version l))
        else if flt (available l dimension) amount
        then Inl (BudgetOverdraftError amount (available l dimension) dimension)
        else Inr (with_entries l (bl_entries l @
          [\<lparr>be_entry_id = fresh, be_ledger_id = ledger_id, be_amount = amount,
            be_state = BE_RESERVED, be_dimension = dimension, be_reserved_at = now,
            be_settled_at = None\<rparr>])))"

definition reserve ::
  "budget_manager \<Rightarrow> string \<Rightarrow> string \<Rightarrow> pyval \<Rightarrow> int option \<Rightarrow> string \<Rightarrow> timestamp \<Rightarrow>
     budget_manager \<times> (budget_exn + string)" where
  "reserve m ledger_id resource_type amount expected fresh now =
     (case bindE (validate_amount amount ''amount'') (\<lambda>validated.
           if feq validated (Fin 0) then Inl (BudgetValidationError ''amount must be positive'')
           else case dget (bm_ledgers m) ledger_id of
             None \<Rightarrow> Inl (BudgetEntryNotFoundError (''ledger '' @ ledger_id @ '' not found''))
           | Some l \<Rightarrow> ledger_reserve l (ledger_id, resource_type, validated, fresh, now) expected) of
        Inl e \<Rightarrow> (m, Inl e)
      | Inr l \<Rightarrow> (m\<lparr>bm_ledgers := dset (bm_ledgers m) ledger_id l\<rparr>, Inr fresh))"

text \<open>The three operations that replace an entry share the search and the write back.\<close>

definition replace_entry ::
  "budget_manager \<Rightarrow> string \<Rightarrow> (budget_entry \<Rightarrow> budget_exn + budget_entry option) \<Rightarrow>
     budget_manager \<times> (budget_exn + unit)" where
  "replace_entry m reservation_id f =
     (case find_entry m reservation_id of
        Inl e \<Rightarrow> (m, Inl e)
      | Inr (l, idx) \<Rightarrow>
          (case f (bl_entries l ! idx) of
             Inl e \<Rightarrow> (m, Inl e)
           | Inr None \<Rightarrow> (m, Inr ())
           | Inr (Some e') \<Rightarrow> (put_ledger m (with_entries l ((bl_entries l)[idx := e'])), Inr ())))"

definition settle_entry ::
  "pyval option \<Rightarrow> timestamp \<Rightarrow> budget_entry \<Rightarrow> budget_exn + budget_entry option" where
  "settle_entry actual now e =
     (if be_state e \<noteq> BE_RESERVED
      then Inl (BudgetError (''cannot settle entry in state '' @ budget_entry_state_value (be_state e)))
      else bindE (case actual of None \<Rightarrow> Inr (be_amount e) | Some a \<Rightarrow> validate_amount a ''actual_amount'')
        (\<lambda>amount. Inr (Some (e\<lparr>be_amount := amount, be_state := BE_SETTLED, be_settled_at := Some now\<rparr>))))"

definition release_entry :: "timestamp \<Rightarrow> budget_entry \<Rightarrow> budget_exn + budget_entry option" where
  "release_entry now e =
     (if be_state e \<noteq> BE_RESERVED
      then Inl (BudgetError (''cannot release entry in state '' @ budget_entry_state_value (be_state e)))
      else Inr (Some (e\<lparr>be_state := BE_RELEASED, be_settled_at := Some now\<rparr>)))"

definition restored_entry :: "timestamp \<Rightarrow> budget_entry \<Rightarrow> budget_exn + budget_entry option" where
  "restored_entry now e =
     (if be_state e = BE_RESERVED then Inr None
      else Inr (Some (e\<lparr>be_state := BE_RESERVED, be_reserved_at := now, be_settled_at := None\<rparr>)))"

definition settle ::
  "budget_manager \<Rightarrow> string \<Rightarrow> pyval option \<Rightarrow> timestamp \<Rightarrow> budget_manager \<times> (budget_exn + unit)" where
  "settle m reservation_id actual now = replace_entry m reservation_id (settle_entry actual now)"

definition release ::
  "budget_manager \<Rightarrow> string \<Rightarrow> timestamp \<Rightarrow> budget_manager \<times> (budget_exn + unit)" where
  "release m reservation_id now = replace_entry m reservation_id (release_entry now)"

definition restore_entry ::
  "budget_manager \<Rightarrow> string \<Rightarrow> timestamp \<Rightarrow> budget_manager \<times> (budget_exn + unit)" where
  "restore_entry m reservation_id now = replace_entry m reservation_id (restored_entry now)"

definition settle_unknown_billing ::
  "budget_manager \<Rightarrow> string \<Rightarrow> string \<Rightarrow> pyval \<Rightarrow> string \<Rightarrow> timestamp \<Rightarrow>
     budget_manager \<times> (budget_exn + string)" where
  "settle_unknown_billing m ledger_id resource_type amount fresh now =
     (case validate_amount amount ''amount'' of
        Inl e \<Rightarrow> (m, Inl e)
      | Inr validated \<Rightarrow>
          (case dget (bm_ledgers m) ledger_id of
             None \<Rightarrow> (m, Inl (BudgetEntryNotFoundError (''ledger '' @ ledger_id @ '' not found'')))
           | Some l \<Rightarrow>
               (m\<lparr>bm_ledgers := dset (bm_ledgers m) ledger_id (with_entries l (bl_entries l @
                  [\<lparr>be_entry_id = fresh, be_ledger_id = ledger_id, be_amount = validated,
                    be_state = BE_CONSERVATIVE_SETTLED, be_dimension = resource_type,
                    be_reserved_at = now, be_settled_at = Some now\<rparr>]))\<rparr>, Inr fresh)))"

section \<open>Histories\<close>

datatype budget_call =
    BCreate string string string string string "pydict option" string
  | BReserve string string pyval "int option" string timestamp
  | BSettle string "pyval option" timestamp
  | BRelease string timestamp
  | BRestore string timestamp
  | BUnknown string string pyval string timestamp

fun budget_step :: "budget_manager \<Rightarrow> budget_call \<Rightarrow> budget_manager" where
  "budget_step m (BCreate t r g e tm ls fresh) = fst (get_or_create_ledger m t r g e tm ls fresh)"
| "budget_step m (BReserve lid dm a v fresh now) = fst (reserve m lid dm a v fresh now)"
| "budget_step m (BSettle i a now) = fst (settle m i a now)"
| "budget_step m (BRelease i now) = fst (release m i now)"
| "budget_step m (BRestore i now) = fst (restore_entry m i now)"
| "budget_step m (BUnknown lid dm a fresh now) = fst (settle_unknown_billing m lid dm a fresh now)"

definition budget_run :: "budget_manager \<Rightarrow> budget_call list \<Rightarrow> budget_manager" where
  "budget_run m cs = fold (\<lambda>c m. budget_step m c) cs m"

lemma budget_run_Cons: "budget_run m (c # cs) = budget_run (budget_step m c) cs"
  by (simp add: budget_run_def)

text \<open>Ledgers are stored under their own id.\<close>

definition budget_inv :: "budget_manager \<Rightarrow> bool" where
  "budget_inv m \<longleftrightarrow> dict_ok (bm_ledgers m) \<and> (\<forall>(k, l) \<in> set (bm_ledgers m). bl_ledger_id l = k)"

lemma entry_index_Some: "entry_index es i = Some n \<Longrightarrow> n < length es \<and> be_entry_id (es ! n) = i"
  by (induction es arbitrary: n) (auto split: if_splits)

lemma find_in_ledgers_Some:
  "find_in_ledgers ls i = Some (l, n) \<Longrightarrow> l \<in> set ls \<and> entry_index (bl_entries l) i = Some n"
  by (induction ls) (auto split: option.splits)

lemma find_entry_Inr:
  assumes "budget_inv m" and "find_entry m i = Inr (l, n)"
  shows "dget (bm_ledgers m) (bl_ledger_id l) = Some l" and "n < length (bl_entries l)"
    and "be_entry_id (bl_entries l ! n) = i"
proof -
  from assms(2) have "find_in_ledgers (dvals (bm_ledgers m)) i = Some (l, n)"
    by (simp add: find_entry_def split: option.splits)
  from find_in_ledgers_Some [OF this] have l: "l \<in> set (dvals (bm_ledgers m))"
    and n: "entry_index (bl_entries l) i = Some n" by auto
  from l obtain k where "(k, l) \<in> set (bm_ledgers m)" by auto
  with assms(1) show "dget (bm_ledgers m) (bl_ledger_id l) = Some l"
    by (auto simp: budget_inv_def dict_ok_def)
  from entry_index_Some [OF n] show "n < length (bl_entries l)" "be_entry_id (bl_entries l ! n) = i"
    by auto
qed

text \<open>
  Every call leaves the manager as it is, adds an empty ledger, or replaces one ledger by its next
  version with an entry appended or one entry replaced. Invariants of single ledgers follow.
\<close>

definition ledger_change :: "budget_manager \<Rightarrow> budget_manager \<Rightarrow> budget_ledger \<Rightarrow> budget_entry list \<Rightarrow> bool" where
  "ledger_change m m' l es \<longleftrightarrow> dget (bm_ledgers m) (bl_ledger_id l) = Some l \<and>
     m' = m\<lparr>bm_ledgers := dset (bm_ledgers m) (bl_ledger_id l) (with_entries l es)\<rparr>"

lemma ledger_id_with_entries [simp]: "bl_ledger_id (with_entries l es) = bl_ledger_id l"
  "bl_limits (with_entries l es) = bl_limits l" "bl_entries (with_entries l es) = es"
  "bl_aggregate_version (with_entries l es) = bl_aggregate_version l + 1"
  by (simp_all add: with_entries_def)

lemma budget_inv_lookup: "budget_inv m \<Longrightarrow> dget (bm_ledgers m) k = Some l \<Longrightarrow> bl_ledger_id l = k"
  by (auto simp: budget_inv_def dest!: map_of_SomeD)

lemma replace_entry_cases:
  assumes "budget_inv m"
  obtains (same) "fst (replace_entry m i f) = m"
      "snd (replace_entry m i f) = Inr () \<Longrightarrow> \<exists>e. f e = Inr None"
  | (changed) l n e' where "find_entry m i = Inr (l, n)" "f (bl_entries l ! n) = Inr (Some e')"
      "ledger_change m (fst (replace_entry m i f)) l ((bl_entries l)[n := e'])"
      "snd (replace_entry m i f) = Inr ()" "n < length (bl_entries l)"
proof (cases "find_entry m i")
  case (Inr ln)
  obtain l n where ln: "ln = (l, n)" by (cases ln)
  show thesis
  proof (cases "f (bl_entries l ! n)")
    case (Inr r)
    then show thesis
      using \<open>find_entry m i = Inr ln\<close> ln find_entry_Inr [OF assms, of i l n]
      by (cases r) (auto simp: replace_entry_def ledger_change_def put_ledger_def
          intro: same changed)
  qed (use Inr ln in \<open>auto simp: replace_entry_def intro: same\<close>)
qed (auto simp: replace_entry_def intro: same)

lemma reserve_cases:
  assumes "budget_inv m"
  obtains (same) e where "reserve m lid dm a v fresh now = (m, Inl e)"
  | (changed) l x l' where "dget (bm_ledgers m) lid = Some l" "validate_amount a ''amount'' = Inr x"
      "\<not> feq x (Fin 0)" "ledger_reserve l (lid, dm, x, fresh, now) v = Inr l'"
      "reserve m lid dm a v fresh now = (m\<lparr>bm_ledgers := dset (bm_ledgers m) lid l'\<rparr>, Inr fresh)"
proof (cases "validate_amount a ''amount''")
  case (Inr x)
  show thesis
  proof (cases "feq x (Fin 0) \<or> dget (bm_ledgers m) lid = None")
    case False
    then obtain l where "dget (bm_ledgers m) lid = Some l" "\<not> feq x (Fin 0)" by auto
    with Inr show thesis
      by (cases "ledger_reserve l (lid, dm, x, fresh, now) v") (auto simp: reserve_def intro: same changed)
  next
    case True
    with Inr show thesis by (cases "feq x (Fin 0)") (auto simp: reserve_def intro: same)
  qed
qed (auto simp: reserve_def intro: same)

lemma ledger_reserve_Inr:
  "ledger_reserve l (lid, dm, x, fresh, now) v = Inr l' \<Longrightarrow>
     (v \<noteq> None \<longrightarrow> v = Some (bl_aggregate_version l)) \<and> \<not> flt (available l dm) x \<and>
     l' = with_entries l (bl_entries l @
          [\<lparr>be_entry_id = fresh, be_ledger_id = lid, be_amount = x,
            be_state = BE_RESERVED, be_dimension = dm, be_reserved_at = now,
            be_settled_at = None\<rparr>])"
  by (auto simp: ledger_reserve_def split: if_splits)

interpretation budget_versions: versioned ledger_reserve bl_aggregate_version
  by unfold_locales (auto simp: ledger_reserve_def split: if_splits prod.splits)

lemma budget_step_cases:
  assumes inv: "budget_inv m"
  obtains (same) "budget_step m c = m"
  | (created) l where "budget_step m c = put_ledger m l" "bl_entries l = []"
      "bl_aggregate_version l = 0" "\<exists>t r g e tm ls. c = BCreate t r g e tm ls (bl_ledger_id l)"
  | (changed) l es where "ledger_change m (budget_step m c) l es"
proof (cases c)
  case (BCreate t r g e tm ls fresh)
  then show thesis
    by (cases "List.find (\<lambda>l. bl_run_id l = r \<and> bl_goal_id l = g) (dvals (bm_ledgers m))";
        cases "mapE validate_limit (case ls of None \<Rightarrow> [] | Some d \<Rightarrow> d)")
      (auto simp: get_or_create_ledger_def Let_def intro: same created)
next
  case (BReserve lid dm a v fresh now)
  show thesis
  proof (cases rule: reserve_cases [OF inv, of lid dm a v fresh now, case_names same changed])
    case (changed l x l')
    with budget_inv_lookup [OF inv] have "bl_ledger_id l = lid" by simp
    with changed BReserve ledger_reserve_Inr [OF changed(4)] show thesis
      by (intro that(3)) (auto simp: ledger_change_def)
  qed (use BReserve same in simp)
next
  case (BUnknown lid dm a fresh now)
  show thesis
  proof (cases "validate_amount a ''amount''")
    case (Inr x)
    show thesis
    proof (cases "dget (bm_ledgers m) lid")
      case (Some l)
      with budget_inv_lookup [OF inv] have "bl_ledger_id l = lid" by simp
      with Some Inr BUnknown show thesis
        by (intro that(3)) (auto simp: ledger_change_def settle_unknown_billing_def)
    qed (use BUnknown Inr same in \<open>simp add: settle_unknown_billing_def\<close>)
  qed (use BUnknown same in \<open>simp add: settle_unknown_billing_def\<close>)
next
  case (BSettle i a now)
  from replace_entry_cases [OF inv, of i "settle_entry a now"] show thesis
    by cases (use BSettle same changed in \<open>simp_all add: settle_def\<close>)
next
  case (BRelease i now)
  from replace_entry_cases [OF inv, of i "release_entry now"] show thesis
    by cases (use BRelease same changed in \<open>simp_all add: release_def\<close>)
next
  case (BRestore i now)
  from replace_entry_cases [OF inv, of i "restored_entry now"] show thesis
    by cases (use BRestore same changed in \<open>simp_all add: restore_entry_def\<close>)
qed

lemma budget_inv_put:
  assumes "budget_inv m" and "bl_ledger_id l = k"
  shows "budget_inv (m\<lparr>bm_ledgers := dset (bm_ledgers m) k l\<rparr>)"
  using assms by (auto simp: budget_inv_def pd.items_assign split: if_splits)

lemma budget_step_inv: "budget_inv m \<Longrightarrow> budget_inv (budget_step m c)"
  by (rule budget_step_cases [of m c])
    (auto simp: put_ledger_def ledger_change_def budget_inv_put)

lemma budget_run_inv: "budget_inv m \<Longrightarrow> budget_inv (budget_run m cs)"
proof (induction cs arbitrary: m)
  case (Cons c cs)
  then show ?case by (simp add: budget_run_Cons budget_step_inv)
qed (simp add: budget_run_def)

lemma budget_inv_init: "budget_inv budget_init"
  by (simp add: budget_inv_def budget_init_def)

section \<open>Versions\<close>

text \<open>Fresh ledger ids are not in use, as \<open>new_id\<close> promises.\<close>

fun fresh_run :: "budget_manager \<Rightarrow> budget_call list \<Rightarrow> bool" where
  "fresh_run m [] = True"
| "fresh_run m (c # cs) =
     ((case c of BCreate _ _ _ _ _ _ fresh \<Rightarrow> dget (bm_ledgers m) fresh = None | _ \<Rightarrow> True) \<and>
      fresh_run (budget_step m c) cs)"

lemma budget_step_version:
  assumes "budget_inv m" and "dget (bm_ledgers m) k = Some l" and "fresh_run m [c]"
  shows "\<exists>l'. dget (bm_ledgers (budget_step m c)) k = Some l' \<and>
    bl_aggregate_version l \<le> bl_aggregate_version l' \<and> bl_limits l' = bl_limits l"
proof (cases rule: budget_step_cases [OF assms(1), of c, case_names same created changed])
  case (created l1)
  with assms have "k \<noteq> bl_ledger_id l1" by auto
  with created assms show ?thesis by (simp add: put_ledger_def)
next
  case (changed l1 es)
  with assms show ?thesis by (auto simp: ledger_change_def)
qed (use assms in simp)

lemma budget_run_version:
  assumes "budget_inv m" and "dget (bm_ledgers m) k = Some l" and "fresh_run m cs"
  shows "\<exists>l'. dget (bm_ledgers (budget_run m cs)) k = Some l' \<and>
    bl_aggregate_version l \<le> bl_aggregate_version l'"
  using assms
proof (induction cs arbitrary: m l)
  case (Cons c cs)
  then obtain l1 where "dget (bm_ledgers (budget_step m c)) k = Some l1"
    "bl_aggregate_version l \<le> bl_aggregate_version l1"
    using budget_step_version [of m k l c] by auto
  with Cons budget_step_inv show ?case by (fastforce simp: budget_run_Cons)
qed (simp add: budget_run_def)

section \<open>Exact totals\<close>

text \<open>
  Integral amounts: below \<open>2\<^sup>5\<^sup>3\<close> the floats of the ledger are integers and their sums are exact.
  \<open>used_int\<close> is the abstract total the limit is meant to bound.
\<close>

fun integral :: "pyfloat \<Rightarrow> bool" where
  "integral (Fin r) \<longleftrightarrow> 0 \<le> r \<and> r = of_int \<lfloor>r\<rfloor>"
| "integral _ \<longleftrightarrow> False"

fun int_amount :: "pyfloat \<Rightarrow> int" where
  "int_amount (Fin r) = \<lfloor>r\<rfloor>"
| "int_amount _ = 0"

fun int_val :: "pyval \<Rightarrow> bool" where
  "int_val (PInt n) \<longleftrightarrow> 0 \<le> n \<and> n < 2 ^ 53"
| "int_val (PFloat f) \<longleftrightarrow> integral f \<and> int_amount f < 2 ^ 53"
| "int_val _ \<longleftrightarrow> False"

fun int_of_val :: "pyval \<Rightarrow> int" where
  "int_of_val (PInt n) = n"
| "int_of_val (PFloat f) = int_amount f"
| "int_of_val _ = 0"

definition contribution :: "string \<Rightarrow> budget_entry \<Rightarrow> int" where
  "contribution dm e = (if counts_against dm e then int_amount (be_amount e) else 0)"

definition used_int :: "budget_ledger \<Rightarrow> string \<Rightarrow> int" where
  "used_int l dm = sum_list (map (contribution dm) (bl_entries l))"

definition exact_ledger :: "budget_ledger \<Rightarrow> bool" where
  "exact_ledger l \<longleftrightarrow> dict_ok (bl_limits l) \<and> (\<forall>e \<in> set (bl_entries l). integral (be_amount e)) \<and>
     (\<forall>(dm, x) \<in> set (bl_limits l). integral x \<and> int_amount x < 2 ^ 53 \<and> used_int l dm \<le> int_amount x)"

text \<open>
  A disciplined history: integral amounts and limits, settlement at no more than was reserved, and
  neither \<open>restore_entry\<close> nor \<open>settle_unknown_billing\<close>, which do not check the limit.
\<close>

fun disciplined :: "budget_manager \<Rightarrow> budget_call \<Rightarrow> bool" where
  "disciplined m (BCreate t r g e tm ls fresh) =
     (case ls of None \<Rightarrow> True | Some d \<Rightarrow> dict_ok d \<and> list_all (\<lambda>(k, v). int_val v) d)"
| "disciplined m (BReserve lid dm a v fresh now) = int_val a"
| "disciplined m (BSettle i None now) = True"
| "disciplined m (BSettle i (Some a) now) = (int_val a \<and>
     (case find_entry m i of
        Inr (l, n) \<Rightarrow> int_of_val a \<le> int_amount (be_amount (bl_entries l ! n))
      | Inl _ \<Rightarrow> True))"
| "disciplined m (BRelease i now) = True"
| "disciplined m (BRestore i now) = False"
| "disciplined m (BUnknown lid dm a fresh now) = False"

fun disciplined_run :: "budget_manager \<Rightarrow> budget_call list \<Rightarrow> bool" where
  "disciplined_run m [] = True"
| "disciplined_run m (c # cs) = (disciplined m c \<and> disciplined_run (budget_step m c) cs)"

lemma integral_iff: "integral f \<longleftrightarrow> (\<exists>n. 0 \<le> n \<and> f = Fin (of_int n))"
  by (cases f) (auto, metis of_int_0_le_iff)

lemma integral_eq: "integral f \<Longrightarrow> f = Fin (of_int (int_amount f)) \<and> 0 \<le> int_amount f"
  by (auto simp: integral_iff)

lemma int_val_nonneg: "int_val v \<Longrightarrow> 0 \<le> int_of_val v"
  by (cases v rule: int_val.cases) (auto dest: integral_eq)

lemma validate_int_val:
  "int_val v \<Longrightarrow> validate_amount v label = Inr (Fin (of_int (int_of_val v)))"
proof (induction v label rule: validate_amount.induct)
  case (1 i label)
  then have "to_float (of_int i) = Fin (of_int i)" by (intro to_float_int) simp
  with 1 show ?case by simp
next
  case (2 f label)
  then obtain n where "0 \<le> n" "f = Fin (of_int n)" by (auto simp: integral_iff)
  then show ?case by simp
qed simp_all

lemma contribution_nonneg: "integral (be_amount e) \<Longrightarrow> 0 \<le> contribution dm e"
  by (auto simp: contribution_def dest: integral_eq)

lemma used_int_nonneg: "exact_ledger l \<Longrightarrow> 0 \<le> used_int l dm"
  by (auto simp: used_int_def exact_ledger_def contribution_nonneg intro!: sum_list_nonneg)

lemma used_int_filter:
  "used_int l dm = sum_list (map (int_amount \<circ> be_amount) (filter (counts_against dm) (bl_entries l)))"
  by (simp add: used_int_def contribution_def [abs_def] sum_list_map_filter' comp_def)

lemma exact_available:
  assumes "exact_ledger l" and "dget (bl_limits l) dm = Some x"
  shows "ledger_used l dm = Fin (of_int (used_int l dm))"
    and "available l dm = Fin (of_int (int_amount x - used_int l dm))"
    and "used_int l dm \<le> int_amount x"
proof -
  from assms have x: "integral x" "int_amount x < 2 ^ 53" and le: "used_int l dm \<le> int_amount x"
    by (auto simp: exact_ledger_def dest!: map_of_SomeD)
  let ?es = "filter (counts_against dm) (bl_entries l)"
  let ?ns = "map (int_amount \<circ> be_amount) ?es"
  have int: "integral (be_amount e)" if "e \<in> set ?es" for e
    using assms(1) that by (auto simp: exact_ledger_def)
  have "map be_amount ?es = map (\<lambda>n. Fin (of_int n)) ?ns"
    using int integral_eq by auto
  moreover have "fsum (map (\<lambda>n. Fin (of_int n)) ?ns) = Fin (of_int (sum_list ?ns))"
  proof (rule fsum_int)
    show "list_all (\<lambda>n. 0 \<le> n) ?ns" using int integral_eq by (auto simp: list_all_iff)
    show "sum_list ?ns < 2 ^ 53" using le x(2) used_int_filter [of l dm] by simp
  qed
  ultimately show used: "ledger_used l dm = Fin (of_int (used_int l dm))"
    by (simp only: ledger_used_def used_int_filter)
  have "fadd (Fin (of_int (int_amount x))) (Fin (of_int (- used_int l dm))) =
      Fin (of_int (int_amount x + - used_int l dm))"
    by (rule fadd_int) (use le x used_int_nonneg [OF assms(1), of dm] integral_eq [OF x(1)] in linarith)
  then show "available l dm = Fin (of_int (int_amount x - used_int l dm))"
    using assms(2) integral_eq [OF x(1)] by (simp add: available_def ledger_limit_def used fsub_def)
  show "used_int l dm \<le> int_amount x" by (rule le)
qed

lemma exact_append:
  assumes "exact_ledger l" and "integral (be_amount e)" and "\<not> flt (available l (be_dimension e)) (be_amount e)"
  shows "exact_ledger (with_entries l (bl_entries l @ [e]))"
proof -
  have "used_int (with_entries l (bl_entries l @ [e])) dm \<le> int_amount x"
    if "(dm, x) \<in> set (bl_limits l)" for dm x
  proof -
    from that assms(1) have x: "dget (bl_limits l) dm = Some x"
      by (simp add: dict_ok_def exact_ledger_def)
    note av = exact_available [OF assms(1) x]
    have "used_int (with_entries l (bl_entries l @ [e])) dm = used_int l dm + contribution dm e"
      by (simp add: used_int_def)
    moreover have "contribution dm e \<le> int_amount x - used_int l dm"
    proof (cases "dm = be_dimension e")
      case True
      obtain n where "be_amount e = Fin (of_int n)" using assms(2) by (auto simp: integral_iff)
      moreover from this have "\<not> (of_int (int_amount x - used_int l dm) < (of_int n :: rat))"
        using assms(3) av(2) True by simp
      ultimately have "int_amount (be_amount e) \<le> int_amount x - used_int l dm" by simp
      then show ?thesis using av(3) by (simp add: contribution_def)
    qed (use av(3) in \<open>simp add: contribution_def counts_against_def\<close>)
    ultimately show ?thesis by simp
  qed
  with assms(1,2) show ?thesis by (auto simp: exact_ledger_def)
qed

lemma exact_update:
  assumes "exact_ledger l" and "n < length (bl_entries l)" and "integral (be_amount e)"
    and "\<And>dm. contribution dm e \<le> contribution dm (bl_entries l ! n)"
  shows "exact_ledger (with_entries l ((bl_entries l)[n := e]))"
proof -
  have "used_int (with_entries l ((bl_entries l)[n := e])) dm \<le> used_int l dm" for dm
    using sum_list_update_nat [OF assms(2), of "contribution dm" e] assms(4) [of dm]
    by (simp add: used_int_def)
  moreover have "\<forall>e' \<in> set ((bl_entries l)[n := e]). integral (be_amount e')"
    using assms(1,3) by (auto simp: exact_ledger_def dest!: set_update_subset_insert [THEN subsetD])
  ultimately show ?thesis using assms(1) order_trans unfolding exact_ledger_def by fastforce
qed

lemma mapE_validate_limit:
  assumes "list_all (\<lambda>(k, v). int_val v) d"
  shows "mapE validate_limit d = Inr (map (\<lambda>(k, v). (k, Fin (of_int (int_of_val v)))) d)"
  using assms by (induction d) (auto simp: validate_limit_def validate_int_val)

lemma int_of_val_bound: "int_val v \<Longrightarrow> int_of_val v < 2 ^ 53"
  by (cases v rule: int_val.cases) auto

lemma exact_new:
  assumes "dict_ok d" and "list_all (\<lambda>(k, v). int_val v) d"
    and "bl_limits l = map (\<lambda>(k, v). (k, Fin (of_int (int_of_val v)))) d" and "bl_entries l = []"
  shows "exact_ledger l"
proof -
  have "dict_ok (bl_limits l)"
    using assms(1,3) by (simp add: dict_ok_def comp_def split_def)
  moreover have "integral x \<and> int_amount x < 2 ^ 53 \<and> used_int l dm \<le> int_amount x"
    if "(dm, x) \<in> set (bl_limits l)" for dm x
    using that assms(2-4) int_of_val_bound int_val_nonneg
    by (fastforce simp: list_all_iff used_int_def integral_iff)
  ultimately show ?thesis using assms(4) by (auto simp: exact_ledger_def)
qed

definition exact_manager :: "budget_manager \<Rightarrow> bool" where
  "exact_manager m \<longleftrightarrow> (\<forall>k l. dget (bm_ledgers m) k = Some l \<longrightarrow> exact_ledger l)"

lemma exact_manager_put:
  "exact_manager m \<Longrightarrow> exact_ledger l \<Longrightarrow>
     exact_manager (m\<lparr>bm_ledgers := dset (bm_ledgers m) k l\<rparr>)"
  by (simp add: exact_manager_def)

lemma exact_create:
  assumes "exact_manager m" and "disciplined m (BCreate t r g e tm ls fresh)"
  shows "exact_manager (budget_step m (BCreate t r g e tm ls fresh))"
proof (cases "List.find (\<lambda>l. bl_run_id l = r \<and> bl_goal_id l = g) (dvals (bm_ledgers m))")
  case None
  define d where "d = (case ls of None \<Rightarrow> [] | Some d \<Rightarrow> d)"
  from assms(2) have d: "dict_ok d" "list_all (\<lambda>(k, v). int_val v) d"
    by (auto simp: d_def dict_ok_Nil split: option.splits)
  let ?l = "\<lparr>bl_ledger_id = fresh, bl_tenant_key = t, bl_run_id = r, bl_goal_id = g,
    bl_employee_id = e, bl_team_id = tm,
    bl_limits = map (\<lambda>(k, v). (k, Fin (of_int (int_of_val v)))) d, bl_entries = [],
    bl_aggregate_version = 0\<rparr>"
  have "exact_ledger ?l" by (rule exact_new [OF d]) simp_all
  moreover have "budget_step m (BCreate t r g e tm ls fresh) = put_ledger m ?l"
    using None mapE_validate_limit [OF d(2)]
    by (simp add: get_or_create_ledger_def d_def [symmetric] Let_def)
  ultimately show ?thesis using assms(1) by (simp add: put_ledger_def exact_manager_put)
qed (use assms in \<open>simp add: get_or_create_ledger_def\<close>)

lemma exact_reserve:
  assumes "budget_inv m" and "exact_manager m" and "int_val a"
  shows "exact_manager (budget_step m (BReserve lid dm a v fresh now))"
proof (cases rule: reserve_cases [OF assms(1), of lid dm a v fresh now, case_names same changed])
  case (changed l x l')
  from changed(2) assms(3) have x: "x = Fin (of_int (int_of_val a))"
    by (simp add: validate_int_val)
  with assms(3) have ix: "integral x" using int_val_nonneg by (auto simp: integral_iff)
  from changed(1) assms(2) have "exact_ledger l" by (simp add: exact_manager_def)
  moreover note ledger_reserve_Inr [OF changed(4)]
  ultimately have "exact_ledger l'" using ix by (auto intro!: exact_append)
  with changed assms(2) show ?thesis by (simp add: exact_manager_put)
qed (use assms in simp)

lemma exact_replace:
  assumes "budget_inv m" and "exact_manager m"
    and "\<And>l n e'. find_entry m i = Inr (l, n) \<Longrightarrow> f (bl_entries l ! n) = Inr (Some e') \<Longrightarrow>
      integral (be_amount (bl_entries l ! n)) \<Longrightarrow>
      integral (be_amount e') \<and> (\<forall>dm. contribution dm e' \<le> contribution dm (bl_entries l ! n))"
  shows "exact_manager (fst (replace_entry m i f))"
proof (cases rule: replace_entry_cases [OF assms(1), of i f, case_names same changed])
  case (changed l n e')
  from changed(3) assms(2) have "exact_ledger l" by (auto simp: ledger_change_def exact_manager_def)
  moreover from this changed(5) have "integral (be_amount (bl_entries l ! n))"
    by (auto simp: exact_ledger_def)
  ultimately have "exact_ledger (with_entries l ((bl_entries l)[n := e']))"
    using assms(3) [OF changed(1,2)] changed(5) by (intro exact_update) auto
  with changed(3) assms(2) show ?thesis by (simp add: ledger_change_def exact_manager_put)
qed (use assms in simp)

lemma exact_settle:
  assumes "budget_inv m" and "exact_manager m" and "disciplined m (BSettle i a now)"
  shows "exact_manager (fst (settle m i a now))"
  unfolding settle_def
proof (rule exact_replace [OF assms(1,2)])
  fix l n e' assume find: "find_entry m i = Inr (l, n)"
    and f: "settle_entry a now (bl_entries l ! n) = Inr (Some e')"
    and int: "integral (be_amount (bl_entries l ! n))"
  let ?e = "bl_entries l ! n"
  from f obtain x where e': "e' = ?e\<lparr>be_amount := x, be_state := BE_SETTLED, be_settled_at := Some now\<rparr>"
    and res: "be_state ?e = BE_RESERVED"
    and x: "(case a of None \<Rightarrow> Inr (be_amount ?e) | Some v \<Rightarrow> validate_amount v ''actual_amount'') = Inr x"
    by (auto simp: settle_entry_def bindE_Inr_iff split: if_splits)
  have "integral x \<and> int_amount x \<le> int_amount (be_amount ?e)"
  proof (cases a)
    case (Some v)
    with assms(3) find have "int_val v" "int_of_val v \<le> int_amount (be_amount ?e)" by auto
    with x Some show ?thesis using int_val_nonneg by (auto simp: validate_int_val integral_iff)
  qed (use x int in simp)
  with e' res show "integral (be_amount e') \<and> (\<forall>dm. contribution dm e' \<le> contribution dm ?e)"
    by (simp add: contribution_def counts_against_def)
qed

lemma exact_release:
  assumes "budget_inv m" and "exact_manager m"
  shows "exact_manager (fst (release m i now))"
  unfolding release_def
  by (rule exact_replace [OF assms])
    (auto simp: release_entry_def contribution_def counts_against_def dest: integral_eq split: if_splits)

lemma exact_step:
  assumes "budget_inv m" and "exact_manager m" and "disciplined m c"
  shows "exact_manager (budget_step m c)"
proof (cases c)
  case (BSettle i a now)
  with exact_settle [OF assms(1,2)] assms(3) show ?thesis by simp
qed (use assms exact_create exact_reserve exact_release in auto)

lemma exact_run:
  assumes "budget_inv m" and "exact_manager m" and "disciplined_run m cs"
  shows "exact_manager (budget_run m cs)"
  using assms
proof (induction cs arbitrary: m)
  case (Cons c cs)
  then show ?case by (auto simp: budget_run_Cons budget_step_inv exact_step)
qed (simp add: budget_run_def)

section \<open>Properties\<close>


text \<open>
  Compare-and-swap: when a reservation that expected version \<open>n\<close> was accepted, then whatever
  calls follow, a second reservation of that ledger expecting \<open>n\<close> is rejected and changes nothing.
\<close>

theorem reserve_cas_excludes:
  assumes "budget_inv m" and "reserve m k dm a (Some n) fresh now = (m1, Inr fresh)"
    and "fresh_run m1 cs"
  shows "fst (reserve (budget_run m1 cs) k dm' a' (Some n) fresh' now') = budget_run m1 cs \<and>
    (\<exists>e. snd (reserve (budget_run m1 cs) k dm' a' (Some n) fresh' now') = Inl e)"
proof (cases rule: reserve_cases [OF assms(1), of k dm a "Some n" fresh now, case_names same changed])
  case (changed l x l')
  have v: "bl_aggregate_version l = n" "bl_aggregate_version l' = n + 1"
    using budget_versions.cas [OF changed(4)] budget_versions.bump [OF changed(4)] by auto
  from assms(2) changed have m1: "m1 = m\<lparr>bm_ledgers := dset (bm_ledgers m) k l'\<rparr>" by simp
  have inv: "budget_inv m1"
    using budget_step_inv [OF assms(1), of "BReserve k dm a (Some n) fresh now"] assms(2) by simp
  then obtain l2 where l2: "dget (bm_ledgers (budget_run m1 cs)) k = Some l2"
    "bl_aggregate_version l' \<le> bl_aggregate_version l2"
    using budget_run_version [OF inv _ assms(3), of k l'] m1 by auto
  have inv2: "budget_inv (budget_run m1 cs)" using inv by (rule budget_run_inv)
  show ?thesis
  proof (cases rule: reserve_cases [OF inv2, of k dm' a' "Some n" fresh' now', case_names same changed])
    case (changed l3 x3 l4)
    from budget_versions.cas [OF changed(4)] changed(1) l2 v show ?thesis by simp
  qed simp
qed (use assms in simp)

lemma entry_index_update:
  "entry_index es i = Some n \<Longrightarrow> be_entry_id e = i \<Longrightarrow> entry_index (es[n := e]) i = Some n"
  by (induction es arbitrary: n) (auto split: if_splits nat.splits)

lemma find_in_ledgers_replace:
  assumes "find_in_ledgers (dvals d) i = Some (l, n)" and "\<forall>(k, l) \<in> set d. bl_ledger_id l = k"
    and "entry_index (bl_entries l') i = Some n"
  shows "find_in_ledgers (dvals (dset d (bl_ledger_id l) l')) i = Some (l', n)"
  using assms(1,2)
proof (induction d)
  case (Cons kv d)
  obtain k1 l1 where kv: "kv = (k1, l1)" by (cases kv)
  show ?case
  proof (cases "entry_index (bl_entries l1) i")
    case None
    with Cons.prems kv have "find_in_ledgers (dvals d) i = Some (l, n)" by simp
    with Cons.IH Cons.prems(2)
    have "find_in_ledgers (dvals (dset d (bl_ledger_id l) l')) i = Some (l', n)" by simp
    with None kv assms(3) show ?thesis by (simp add: dset_def)
  qed (use Cons.prems kv assms(3) in \<open>auto simp: dset_def\<close>)
qed simp

lemma replace_entry_find:
  assumes inv: "budget_inv m" and f: "replace_entry m i f = (m', Inr ())"
    and keep: "\<And>e e'. f e = Inr (Some e') \<Longrightarrow> be_entry_id e' = be_entry_id e"
    and some: "\<And>e. f e \<noteq> Inr None"
  obtains l n e e' where "find_entry m' i = Inr (l, n)" "bl_entries l ! n = e'" "f e = Inr (Some e')"
proof (cases rule: replace_entry_cases [OF inv, of i f, case_names same changed])
  case same
  with f some show thesis by auto
next
  case (changed l n e')
  let ?l = "with_entries l ((bl_entries l)[n := e'])"
  from changed(1) have find: "find_in_ledgers (dvals (bm_ledgers m)) i = Some (l, n)"
    by (simp add: find_entry_def split: option.splits)
  have "be_entry_id e' = i"
    using keep [OF changed(2)] find_entry_Inr(3) [OF inv changed(1)] by simp
  then have "entry_index (bl_entries ?l) i = Some n"
    using find_in_ledgers_Some [OF find] by (simp add: entry_index_update)
  with find inv have "find_in_ledgers (dvals (dset (bm_ledgers m) (bl_ledger_id l) ?l)) i = Some (?l, n)"
    by (intro find_in_ledgers_replace) (auto simp: budget_inv_def)
  with changed(3) f have "find_entry m' i = Inr (?l, n)"
    by (simp add: ledger_change_def find_entry_def)
  moreover have "bl_entries ?l ! n = e'" using changed(5) by simp
  ultimately show thesis using changed(2) by (rule that)
qed

text \<open>
  A reservation is closed once: after a successful settlement or release of an entry, a second
  settlement or release of the same id raises and changes nothing.
\<close>

lemma reservation_closed_once:
  assumes "budget_inv m" and "settle m i a now = (m1, Inr ()) \<or> release m i now = (m1, Inr ())"
  shows "fst (settle m1 i a' now') = m1 \<and> fst (release m1 i now') = m1 \<and>
    (\<exists>msg. snd (settle m1 i a' now') = Inl (BudgetError msg)) \<and>
    (\<exists>msg. snd (release m1 i now') = Inl (BudgetError msg))"
proof -
  obtain l n where find: "find_entry m1 i = Inr (l, n)" and st: "be_state (bl_entries l ! n) \<noteq> BE_RESERVED"
    using assms(2)
  proof
    assume "settle m i a now = (m1, Inr ())"
    then have "replace_entry m i (settle_entry a now) = (m1, Inr ())" by (simp add: settle_def)
    then obtain l n e e' where "find_entry m1 i = Inr (l, n)" "bl_entries l ! n = e'"
      and e: "settle_entry a now e = Inr (Some e')"
      by (rule replace_entry_find [OF assms(1)]) (auto simp: settle_entry_def bindE_Inr_iff split: if_splits)
    moreover from e have "be_state e' \<noteq> BE_RESERVED" by (auto simp: settle_entry_def bindE_Inr_iff split: if_splits)
    ultimately show thesis using that by simp
  next
    assume "release m i now = (m1, Inr ())"
    then have "replace_entry m i (release_entry now) = (m1, Inr ())" by (simp add: release_def)
    then obtain l n e e' where "find_entry m1 i = Inr (l, n)" "bl_entries l ! n = e'"
      and e: "release_entry now e = Inr (Some e')"
      by (rule replace_entry_find [OF assms(1)]) (auto simp: release_entry_def split: if_splits)
    moreover from e have "be_state e' \<noteq> BE_RESERVED" by (auto simp: release_entry_def split: if_splits)
    ultimately show thesis using that by simp
  qed
  then show ?thesis
    by (simp add: settle_def release_def replace_entry_def settle_entry_def release_entry_def)
qed

section \<open>A sample history\<close>

definition sample_calls :: "budget_call list" where
  "sample_calls = [BCreate ''t'' ''r1'' ''g1'' [] [] (Some [(''usd'', PInt 10)]) ''led_1'',
     BReserve ''led_1'' ''usd'' (PInt 6) (Some 0) ''bent_1'' 1,
     BReserve ''led_1'' ''usd'' (PInt 5) None ''bent_2'' 2,
     BSettle ''bent_1'' (Some (PInt 4)) 3]"

definition sample_entry :: "string \<Rightarrow> int \<Rightarrow> budget_entry_state \<Rightarrow> timestamp \<Rightarrow> timestamp option \<Rightarrow> budget_entry" where
  "sample_entry i n st t t' = \<lparr>be_entry_id = i, be_ledger_id = ''led_1'', be_amount = Fin (of_int n),
     be_state = st, be_dimension = ''usd'', be_reserved_at = t, be_settled_at = t'\<rparr>"

definition sample_manager :: "int \<Rightarrow> budget_entry list \<Rightarrow> budget_manager" where
  "sample_manager v es = \<lparr>bm_ledgers = [(''led_1'', \<lparr>bl_ledger_id = ''led_1'', bl_tenant_key = ''t'',
     bl_run_id = ''r1'', bl_goal_id = ''g1'', bl_employee_id = [], bl_team_id = [],
     bl_limits = [(''usd'', Fin 10)], bl_entries = es, bl_aggregate_version = v\<rparr>)]\<rparr>"

lemmas budget_eval = Let_def budget_run_def get_or_create_ledger_def validate_limit_def put_ledger_def dset_def
  reserve_def ledger_reserve_def settle_def release_def restore_entry_def replace_entry_def
  settle_entry_def release_entry_def restored_entry_def with_entries_def find_entry_def feq_def
  available_def ledger_limit_def ledger_used_def counts_against_def fsum_def fsub_def

lemma sample_calls_eval:
  "budget_run budget_init sample_calls =
     sample_manager 2 [sample_entry ''bent_1'' 4 BE_SETTLED 1 (Some 3)]"
  by (simp add: sample_calls_def sample_manager_def sample_entry_def budget_init_def budget_eval)

lemma sample_inv: "budget_inv (sample_manager v es)"
  by (simp add: sample_manager_def budget_inv_def dict_ok_def)



theorem reserve_cas_excludes_witness:
  "let m1 = fst (reserve (sample_manager 0 []) ''led_1'' ''usd'' (PInt 6) (Some 0) ''bent_1'' 1)
   in fst (reserve m1 ''led_1'' ''usd'' (PInt 1) (Some 0) ''bent_2'' 2) = m1"
proof -
  have "reserve (sample_manager 0 []) ''led_1'' ''usd'' (PInt 6) (Some 0) ''bent_1'' 1 =
    (fst (reserve (sample_manager 0 []) ''led_1'' ''usd'' (PInt 6) (Some 0) ''bent_1'' 1), Inr ''bent_1'')"
    by (simp add: sample_manager_def budget_eval)
  from reserve_cas_excludes [OF sample_inv this, of "[]" "''usd''" "PInt 1" "''bent_2''" 2]
  show ?thesis by (simp add: budget_run_def Let_def)
qed

lemma reservation_closed_once_witness:
  "let m1 = fst (release (sample_manager 1 [sample_entry ''bent_1'' 6 BE_RESERVED 1 None]) ''bent_1'' 2)
   in fst (settle m1 ''bent_1'' None 3) = m1 \<and> (\<exists>msg. snd (settle m1 ''bent_1'' None 3) = Inl (BudgetError msg))"
proof -
  let ?m = "sample_manager 1 [sample_entry ''bent_1'' 6 BE_RESERVED 1 None]"
  have "release ?m ''bent_1'' 2 = (fst (release ?m ''bent_1'' 2), Inr ())"
    by (simp add: sample_manager_def sample_entry_def budget_eval)
  from reservation_closed_once [OF sample_inv disjI2, OF this] show ?thesis by (simp add: Let_def)
qed

text \<open>
  \<open>restore_entry\<close> makes a released entry count again without looking at what is available: here
  the limit is 10 and 20 are reserved.
\<close>

lemma restore_entry_oversells:
  "let m = budget_run (sample_manager 0 [])
     [BReserve ''led_1'' ''usd'' (PInt 10) None ''bent_1'' 1, BRelease ''bent_1'' 2,
      BReserve ''led_1'' ''usd'' (PInt 10) None ''bent_2'' 3, BRestore ''bent_1'' 4]
   in map_option (\<lambda>l. available l ''usd'') (get_ledger m ''led_1'') = Some (Fin (- 10))"
  by (simp add: sample_manager_def budget_eval get_ledger_def)

end
