(* ===== verification/Model_Broker.thy ===== *)
theory Model_Broker
  imports Budget_Manager
begin

text \<open>
  The model broker of \<^verbatim>\<open>src/src/autonomous/broker/model_broker.py\<close>, on the budget manager's own
  model. \<open>_compute_hash\<close> (JSON and SHA-256) and the text of an exception are parameters. \<open>call\<close> awaits
  the model, so it is split there: \<open>model_begin\<close> ends with a result, an exception or the call of
  the model; \<open>model_finish\<close> runs when the model has returned or raised. The successive readings of the
  clock are a function of their number. \<open>_ledger\<close> and \<open>_calls_by_id\<close> hold the same objects and are
  one dictionary in insertion order here.
\<close>

section \<open>Data\<close>

datatype model_call_state = MC_REQUESTED | MC_EXECUTING | MC_COMMITTED | MC_FAILED

fun model_call_state_value :: "model_call_state \<Rightarrow> string" where
  "model_call_state_value MC_REQUESTED = ''requested''"
| "model_call_state_value MC_EXECUTING = ''executing''"
| "model_call_state_value MC_COMMITTED = ''committed''"
| "model_call_state_value MC_FAILED = ''failed''"

interpretation model_call_state_enum: py_enum model_call_state_value
  "[MC_REQUESTED, MC_EXECUTING, MC_COMMITTED, MC_FAILED]"
proof
  show "x \<in> set [MC_REQUESTED, MC_EXECUTING, MC_COMMITTED, MC_FAILED]" for x by (cases x) simp_all
qed simp

record model_call =
  mc_call_id :: string
  mc_state :: model_call_state
  mc_model_id :: string
  mc_prompt_hash :: string
  mc_response_hash :: string
  mc_budget_entry_id :: string
  mc_run_id :: string
  mc_attempt_id :: string
  mc_cost_estimate :: pyfloat
  mc_actual_cost :: pyfloat
  mc_requested_at :: timestamp
  mc_completed_at :: "timestamp option"
  mc_error :: string
  mc_token_usage :: pydict

definition model_call_to_dict :: "model_call \<Rightarrow> pydict" where
  "model_call_to_dict c =
     [(''call_id'', PStr (mc_call_id c)),
      (''state'', PStr (model_call_state_value (mc_state c))),
      (''model_id'', PStr (mc_model_id c)),
      (''prompt_hash'', PStr (mc_prompt_hash c)),
      (''response_hash'', PStr (mc_response_hash c)),
      (''budget_entry_id'', PStr (mc_budget_entry_id c)),
      (''run_id'', PStr (mc_run_id c)),
      (''attempt_id'', PStr (mc_attempt_id c)),
      (''cost_estimate'', PFloat (mc_cost_estimate c)),
      (''actual_cost'', PFloat (mc_actual_cost c)),
      (''requested_at'', PFloat (Fin (mc_requested_at c))),
      (''completed_at'', float_option_val (mc_completed_at c)),
      (''error'', PStr (mc_error c)),
      (''token_usage'', PDict (mc_token_usage c))]"

record model_call_result =
  mr_success :: bool
  mr_call_id :: string
  mr_response :: pydict
  mr_error :: string
  mr_prompt_hash :: string
  mr_response_hash :: string

section \<open>Rate limiter\<close>

record rate_limiter =
  rl_max_per_minute :: int
  rl_max_per_hour :: int
  rl_minute_window :: "timestamp list"
  rl_hour_window :: "timestamp list"

definition rate_check :: "rate_limiter \<Rightarrow> timestamp \<Rightarrow> rate_limiter \<times> bool" where
  "rate_check r now =
     (let r1 = r\<lparr>rl_minute_window := filter (\<lambda>t. tsub now t < 60) (rl_minute_window r),
                 rl_hour_window := filter (\<lambda>t. tsub now t < 3600) (rl_hour_window r)\<rparr>
      in if int (length (rl_minute_window r1)) \<ge> rl_max_per_minute r1 then (r1, False)
         else if int (length (rl_hour_window r1)) \<ge> rl_max_per_hour r1 then (r1, False)
         else (r1, True))"

definition rate_record :: "rate_limiter \<Rightarrow> timestamp \<Rightarrow> rate_limiter" where
  "rate_record r now = r\<lparr>rl_minute_window := rl_minute_window r @ [now],
     rl_hour_window := rl_hour_window r @ [now]\<rparr>"

section \<open>The broker\<close>

record model_env =
  me_hash :: "pyval \<Rightarrow> string"
  me_text :: "budget_exn \<Rightarrow> string"

record model_broker =
  mb_budget :: budget_manager
  mb_ledger_id :: string
  mb_rate :: rate_limiter
  mb_default_model :: string
  mb_cost_per_call :: pyfloat
  mb_calls :: "(string, model_call) dict"

datatype model_phase =
    MRaise budget_exn
  | MDone model_call_result
  | MCalled string string

definition model_error :: "string \<Rightarrow> string \<Rightarrow> string \<Rightarrow> model_phase" where
  "model_error call_id err prompt_hash = MDone \<lparr>mr_success = False, mr_call_id = call_id, mr_response = [],
     mr_error = err, mr_prompt_hash = prompt_hash, mr_response_hash = []\<rparr>"

definition model_begin ::
  "model_env \<Rightarrow> model_broker \<Rightarrow> goal_activation_authorization \<Rightarrow> pydict \<Rightarrow> string option \<Rightarrow> string \<Rightarrow> string \<Rightarrow>
     string \<Rightarrow> string \<Rightarrow> (nat \<Rightarrow> timestamp) \<Rightarrow> model_broker \<times> model_phase" where
  "model_begin me b auth prompt model_id run_id attempt_id fresh_entry fresh_call clk =
     (let effective = (case model_id of Some m \<Rightarrow> if m \<noteq> [] then m else mb_default_model b
                                      | None \<Rightarrow> mb_default_model b)
      in if \<not> auth_is_valid auth (clk 0) then (b, model_error [] ''Authorization expired or consumed'' [])
         else case rate_check (mb_rate b) (clk 1) of
           (r, False) \<Rightarrow> (b\<lparr>mb_rate := r\<rparr>, model_error [] ''Rate limited'' [])
         | (r, True) \<Rightarrow>
             let b1 = b\<lparr>mb_rate := r\<rparr>; prompt_hash = me_hash me (PDict prompt)
             in (case reserve (mb_budget b1) (mb_ledger_id b1) ''model_cost'' (PFloat (mb_cost_per_call b1))
                     None fresh_entry (clk 2) of
                   (m, Inl (BudgetOverdraftError q av dm)) \<Rightarrow> (b1, model_error [] ''Budget exhausted'' prompt_hash)
                 | (m, Inl e) \<Rightarrow> (b1, MRaise e)
                 | (m, Inr entry) \<Rightarrow>
                     (b1\<lparr>mb_budget := m,
                         mb_calls := dset (mb_calls b1) fresh_call
                           \<lparr>mc_call_id = fresh_call, mc_state = MC_EXECUTING, mc_model_id = effective,
                            mc_prompt_hash = prompt_hash, mc_response_hash = [],
                            mc_budget_entry_id = entry, mc_run_id = run_id, mc_attempt_id = attempt_id,
                            mc_cost_estimate = mb_cost_per_call b1, mc_actual_cost = Fin 0,
                            mc_requested_at = clk 3, mc_completed_at = None, mc_error = [],
                            mc_token_usage = []\<rparr>,
                         mb_rate := rate_record (mb_rate b1) (clk 4)\<rparr>, MCalled fresh_call entry)))"

datatype model_outcome = ModelReturned pyval | ModelRaised string

text \<open>
  The cost of a response: the estimate, or a thousandth of the reported tokens. \<open>Inl\<close> is the
  exception Python raises on a response whose usage is no mapping or whose count is no number.
\<close>

definition token_price :: pyfloat where
  "token_price = to_float (1 / 1000)"

fun tokens_cost :: "pyval \<Rightarrow> string + pyfloat" where
  "tokens_cost (PInt n) = (case to_float (of_int n) of
     Fin r \<Rightarrow> Inr (fmul (Fin r) token_price) | _ \<Rightarrow> Inl ''int too large to convert to float'')"
| "tokens_cost (PBool b) = Inr (fmul (Fin (if b then 1 else 0)) token_price)"
| "tokens_cost (PFloat f) = Inr (fmul f token_price)"
| "tokens_cost _ = Inl ''unsupported operand type(s)''"

fun response_cost :: "pyfloat \<Rightarrow> pyval \<Rightarrow> string + pyfloat \<times> pydict option" where
  "response_cost estimate (PDict d) =
     (case dget d ''usage'' of
        None \<Rightarrow> Inr (estimate, None)
      | Some (PDict u) \<Rightarrow> bindE (tokens_cost (opt u ''total_tokens'' (PInt 0))) (\<lambda>c. Inr (c, Some u))
      | Some _ \<Rightarrow> Inl ''object has no attribute get'')"
| "response_cost estimate _ = Inr (estimate, None)"

definition response_data :: "pyval \<Rightarrow> pydict" where
  "response_data v = (case v of PDict d \<Rightarrow> d | _ \<Rightarrow> [(''output'', v)])"

definition update_call :: "model_broker \<Rightarrow> string \<Rightarrow> (model_call \<Rightarrow> model_call) \<Rightarrow> model_broker" where
  "update_call b cid f =
     (case dget (mb_calls b) cid of
        None \<Rightarrow> b
      | Some c \<Rightarrow> b\<lparr>mb_calls := dset (mb_calls b) cid (f c)\<rparr>)"

definition model_fail ::
  "model_broker \<Rightarrow> string \<Rightarrow> string \<Rightarrow> string \<Rightarrow> string \<Rightarrow> (nat \<Rightarrow> timestamp) \<Rightarrow> model_broker \<times> model_phase" where
  "model_fail b cid entry prompt_hash err clk =
     (case release (mb_budget b) entry (clk 0) of
        (m, Inl e) \<Rightarrow> (b, MRaise e)
      | (m, Inr _) \<Rightarrow>
          (update_call (b\<lparr>mb_budget := m\<rparr>) cid (\<lambda>c. c\<lparr>mc_state := MC_FAILED, mc_error := err,
              mc_completed_at := Some (clk 1)\<rparr>), model_error cid err prompt_hash))"

definition model_finish ::
  "model_env \<Rightarrow> model_broker \<Rightarrow> string \<Rightarrow> string \<Rightarrow> string \<Rightarrow> model_outcome \<Rightarrow> (nat \<Rightarrow> timestamp) \<Rightarrow>
     model_broker \<times> model_phase" where
  "model_finish me b cid entry prompt_hash outcome clk =
     (case outcome of
        ModelRaised err \<Rightarrow> model_fail b cid entry prompt_hash err clk
      | ModelReturned v \<Rightarrow>
          let data = response_data v; response_hash = me_hash me (PDict data)
          in (case response_cost (mb_cost_per_call b) v of
                Inl err \<Rightarrow> model_fail b cid entry prompt_hash err clk
              | Inr (actual, usage) \<Rightarrow>
                  let b1 = (case usage of None \<Rightarrow> b | Some u \<Rightarrow> update_call b cid (\<lambda>c. c\<lparr>mc_token_usage := u\<rparr>))
                  in (case settle (mb_budget b1) entry (Some (PFloat actual)) (clk 0) of
                        (m, Inl e) \<Rightarrow> model_fail b1 cid entry prompt_hash (me_text me e) clk
                      | (m, Inr _) \<Rightarrow>
                          (update_call (b1\<lparr>mb_budget := m\<rparr>) cid (\<lambda>c. c\<lparr>mc_state := MC_COMMITTED,
                              mc_response_hash := response_hash, mc_actual_cost := actual,
                              mc_completed_at := Some (clk 1)\<rparr>),
                           MDone \<lparr>mr_success = True, mr_call_id = cid, mr_response = data, mr_error = [],
                                  mr_prompt_hash = prompt_hash, mr_response_hash = response_hash\<rparr>))))"

definition get_call :: "model_broker \<Rightarrow> string \<Rightarrow> model_call option" where
  "get_call b cid = dget (mb_calls b) cid"

definition model_ledger :: "model_broker \<Rightarrow> string option \<Rightarrow> model_call list" where
  "model_ledger b run_id =
     (case run_id of None \<Rightarrow> dvals (mb_calls b)
                   | Some r \<Rightarrow> filter (\<lambda>c. mc_run_id c = r) (dvals (mb_calls b)))"

definition get_total_cost :: "model_broker \<Rightarrow> string option \<Rightarrow> pyfloat" where
  "get_total_cost b run_id =
     fsum (map mc_actual_cost (filter (\<lambda>c. mc_state c = MC_COMMITTED) (model_ledger b run_id)))"

definition get_call_count :: "model_broker \<Rightarrow> string option \<Rightarrow> nat" where
  "get_call_count b run_id = length (model_ledger b run_id)"

section \<open>The state of a reservation\<close>

definition entry_state :: "budget_manager \<Rightarrow> string \<Rightarrow> budget_entry_state option" where
  "entry_state m i = (case find_entry m i of Inl _ \<Rightarrow> None | Inr (l, n) \<Rightarrow> Some (be_state (bl_entries l ! n)))"

lemma release_reserved:
  assumes inv: "budget_inv m" and res: "entry_state m i = Some BE_RESERVED"
  shows "\<exists>m'. release m i now = (m', Inr ()) \<and> entry_state m' i = Some BE_RELEASED"
proof -
  obtain l n where f: "find_entry m i = Inr (l, n)" "be_state (bl_entries l ! n) = BE_RESERVED"
    using res by (auto simp: entry_state_def split: sum.splits)
  then obtain m' where m': "replace_entry m i (release_entry now) = (m', Inr ())"
    by (simp add: replace_entry_def release_entry_def)
  then obtain l' n' e e' where "find_entry m' i = Inr (l', n')" "bl_entries l' ! n' = e'"
    and e: "release_entry now e = Inr (Some e')"
    by (rule replace_entry_find [OF inv]) (auto simp: release_entry_def split: if_splits)
  moreover from e have "be_state e' = BE_RELEASED" by (auto simp: release_entry_def split: if_splits)
  ultimately show ?thesis using m' by (simp add: entry_state_def release_def)
qed

lemma settle_entry_state:
  assumes inv: "budget_inv m" and s: "settle m i a now = (m', Inr ())"
  shows "entry_state m' i = Some BE_SETTLED"
proof -
  from s have "replace_entry m i (settle_entry a now) = (m', Inr ())" by (simp add: settle_def)
  then obtain l' n' e e' where "find_entry m' i = Inr (l', n')" "bl_entries l' ! n' = e'"
    and e: "settle_entry a now e = Inr (Some e')"
    by (rule replace_entry_find [OF inv]) (auto simp: settle_entry_def bindE_Inr_iff split: if_splits)
  moreover from e have "be_state e' = BE_SETTLED"
    by (auto simp: settle_entry_def bindE_Inr_iff split: if_splits)
  ultimately show ?thesis by (simp add: entry_state_def)
qed

lemma settle_error: "settle m i a now = (m', Inl e) \<Longrightarrow> m' = m"
  by (auto simp: settle_def replace_entry_def split: sum.splits prod.splits option.splits)

lemma entry_index_append:
  "entry_index es i = None \<Longrightarrow> be_entry_id e = i \<Longrightarrow> entry_index (es @ [e]) i = Some (length es)"
  by (induction es) (auto split: if_splits)

lemma find_in_ledgers_append:
  assumes "find_in_ledgers (dvals d) i = None" and "dget d k = Some l"
    and "entry_index (bl_entries l') i = Some n"
  shows "find_in_ledgers (dvals (dset d k l')) i = Some (l', n)"
  using assms(1,2)
proof (induction d)
  case (Cons kv d)
  then show ?case using assms(3) by (cases kv) (auto simp: dset_def split: option.splits if_splits)
qed simp

lemma find_in_ledgers_None: "find_in_ledgers ls i = None \<Longrightarrow> l \<in> set ls \<Longrightarrow> entry_index (bl_entries l) i = None"
  by (induction ls) (auto split: option.splits)

lemma reserve_entry_state:
  assumes inv: "budget_inv m" and fresh: "entry_state m fresh = None"
    and r: "reserve m lid dm a v fresh now = (m', Inr i)"
  shows "i = fresh \<and> entry_state m' i = Some BE_RESERVED \<and> budget_inv m'"
proof (cases rule: reserve_cases [OF inv, of lid dm a v fresh now, case_names same changed])
  case (changed l x l')
  from fresh have none: "find_in_ledgers (dvals (bm_ledgers m)) fresh = None"
    by (auto simp: entry_state_def find_entry_def split: option.splits)
  have l': "l' = with_entries l (bl_entries l @ [\<lparr>be_entry_id = fresh, be_ledger_id = lid, be_amount = x,
      be_state = BE_RESERVED, be_dimension = dm, be_reserved_at = now, be_settled_at = None\<rparr>])"
    using ledger_reserve_Inr [OF changed(4)] by simp
  have "entry_index (bl_entries l) fresh = None"
    using find_in_ledgers_None [OF none] changed(1) by (force dest: map_of_SomeD)
  then have "entry_index (bl_entries l') fresh = Some (length (bl_entries l))"
    by (simp add: l' entry_index_append)
  from find_in_ledgers_append [OF none changed(1) this] changed(5) r
  have "entry_state m' fresh = Some BE_RESERVED"
    by (auto simp: entry_state_def find_entry_def l')
  moreover have "budget_inv m'"
    using budget_step_inv [OF inv, of "BReserve lid dm a v fresh now"] r by simp
  ultimately show ?thesis using changed(5) r by simp
qed (use r in simp)

lemma update_call_budget [simp]: "mb_budget (update_call b cid f) = mb_budget b"
  "mb_rate (update_call b cid f) = mb_rate b"
  by (simp_all add: update_call_def split: option.split)

lemma model_fail_closes:
  assumes "budget_inv (mb_budget b)" and "entry_state (mb_budget b) entry = Some BE_RESERVED"
    and "model_fail b cid entry ph err clk = (b', r)"
  shows "entry_state (mb_budget b') entry = Some BE_RELEASED \<and> (\<exists>q. r = MDone q \<and> \<not> mr_success q)"
  using release_reserved [OF assms(1,2), of "clk 0"] assms(3)
  by (auto simp: model_fail_def model_error_def)

lemma model_finish_closes:
  assumes inv: "budget_inv (mb_budget b)" and res: "entry_state (mb_budget b) entry = Some BE_RESERVED"
    and f: "model_finish me b cid entry ph oc clk = (b', r)"
  shows "\<exists>q. r = MDone q \<and> mr_call_id q = cid \<and> entry_state (mb_budget b') entry =
    Some (if mr_success q then BE_SETTLED else BE_RELEASED)"
proof -
  have fail: ?thesis if "budget_inv (mb_budget c)" "entry_state (mb_budget c) entry = Some BE_RESERVED"
    "model_fail c cid entry ph err clk = (b', r)" for c err
  proof -
    from model_fail_closes [OF that] obtain q where "r = MDone q" "\<not> mr_success q"
      "entry_state (mb_budget b') entry = Some BE_RELEASED" by blast
    moreover from that(3) \<open>r = MDone q\<close> have "mr_call_id q = cid"
      by (auto simp: model_fail_def model_error_def split: prod.splits sum.splits)
    ultimately show ?thesis by simp
  qed
  show ?thesis
  proof (cases oc)
    case (ModelRaised err)
    with f fail [OF inv res] show ?thesis by (simp add: model_finish_def)
  next
    case (ModelReturned v)
    show ?thesis
    proof (cases "response_cost (mb_cost_per_call b) v")
      case (Inl err)
      with f ModelReturned fail [OF inv res] show ?thesis by (simp add: model_finish_def)
    next
      case (Inr au)
      obtain actual usage where au: "au = (actual, usage)" by (cases au)
      define b1 where "b1 = (case usage of None \<Rightarrow> b | Some u \<Rightarrow> update_call b cid (\<lambda>c. c\<lparr>mc_token_usage := u\<rparr>))"
      have bud: "mb_budget b1 = mb_budget b" by (simp add: b1_def split: option.split)
      obtain m s where s: "settle (mb_budget b1) entry (Some (PFloat actual)) (clk 0) = (m, s)" by fastforce
      show ?thesis
      proof (cases s)
        case (Inl e)
        with s f ModelReturned Inr au have "model_fail b1 cid entry ph (me_text me e) clk = (b', r)"
          by (simp add: model_finish_def Let_def b1_def [symmetric])
        with fail [of b1] inv res bud show ?thesis by simp
      next
        case (Inr u)
        with s have "settle (mb_budget b) entry (Some (PFloat actual)) (clk 0) = (m, Inr ())" by (simp add: bud)
        from settle_entry_state [OF inv this] s f ModelReturned Inr au
          \<open>response_cost (mb_cost_per_call b) v = Inr au\<close> show ?thesis
          by (auto simp: model_finish_def Let_def b1_def [symmetric])
      qed
    qed
  qed
qed

lemma model_begin_called:
  assumes "model_begin me b auth prompt mid run att fe fc clk = (b1, MCalled cid entry)"
  shows "auth_is_valid auth (clk 0) \<and> snd (rate_check (mb_rate b) (clk 1)) \<and> cid = fc \<and>
    reserve (mb_budget b) (mb_ledger_id b) ''model_cost'' (PFloat (mb_cost_per_call b)) None fe (clk 2) =
      (mb_budget b1, Inr entry) \<and>
    mb_rate b1 = rate_record (fst (rate_check (mb_rate b) (clk 1))) (clk 4)"
  using assms
  by (auto simp: model_begin_def model_error_def Let_def split: if_splits prod.splits bool.splits
      sum.splits budget_exn.splits)

section \<open>Every call is paid for\<close>

lemma model_begin_reserved:
  assumes "budget_inv (mb_budget b)" and "entry_state (mb_budget b) fe = None"
    and "model_begin me b auth prompt mid run att fe fc clk = (b1, MCalled cid entry)"
  shows "cid = fc \<and> entry = fe \<and> entry_state (mb_budget b1) entry = Some BE_RESERVED \<and> budget_inv (mb_budget b1)"
  using model_begin_called [OF assms(3)] reserve_entry_state [OF assms(1,2)] by blast


definition sample_model_broker :: model_broker where
  "sample_model_broker = \<lparr>mb_budget = \<lparr>bm_ledgers = [(''led_1'', \<lparr>bl_ledger_id = ''led_1'', bl_tenant_key = ''t'',
     bl_run_id = ''r1'', bl_goal_id = ''g1'', bl_employee_id = [], bl_team_id = [],
     bl_limits = [(''model_cost'', Fin 10)], bl_entries = [], bl_aggregate_version = 0\<rparr>)]\<rparr>, mb_ledger_id = ''led_1'',
     mb_rate = \<lparr>rl_max_per_minute = 2, rl_max_per_hour = 5, rl_minute_window = [], rl_hour_window = []\<rparr>,
     mb_default_model = ''m'', mb_cost_per_call = Fin 3, mb_calls = []\<rparr>"

definition sample_auth :: goal_activation_authorization where
  "sample_auth = \<lparr>ga_auth_id = ''a'', ga_tenant_key = ''t'', ga_principal_id = ''p'', ga_goal_id = ''g'',
     ga_plan_hash = [], ga_criteria_hash = [], ga_budget_hash = [], ga_canonical_payload_hash = [],
     ga_canonical_render_hash = [], ga_authorization_envelope = PDict [], ga_epochs = PDict [],
     ga_nonce = ''n'', ga_expires_at = 100, ga_consumed = False, ga_consumed_at = None\<rparr>"


end
