(* ===== verification/Json_Parser.thy ===== *)
theory Json_Parser
  imports Json_Text "HOL-Library.Sublist"
begin

text \<open>
  Python's \<open>json.loads\<close> on the bytes of a text: a recursive descent over the grammar that the standard library accepts
  (white space between tokens, escapes with surrogate pairs, the constants \<open>NaN\<close>, \<open>Infinity\<close> and \<open>-Infinity\<close>, the last value of
  a repeated key). \<open>None\<close> is the exception it raises. The value of a decimal text (\<open>float(text)\<close>) is a parameter. Bytes are read as
  UTF-8; the detection of UTF-16 and UTF-32 and the limit on the digits of an integer are not modelled.
  The lemmas show that it reads back every text that \<open>json.dumps\<close> writes.
\<close>

section \<open>UTF-8\<close>

abbreviation char_byte :: "char \<Rightarrow> nat" where
  "char_byte c \<equiv> of_char c"

definition utf8_tail :: "char \<Rightarrow> bool" where
  "utf8_tail c \<longleftrightarrow> 128 \<le> char_byte c \<and> char_byte c < 192"

text \<open>The number of continuation bytes after a first byte, and the bounds on the first of them that exclude overlong forms.\<close>

definition tail_bytes :: "char \<Rightarrow> nat option" where
  "tail_bytes c = (if char_byte c < 128 then Some 0 else if char_byte c < 194 then None else if char_byte c < 224 then Some 1
     else if char_byte c < 240 then Some 2 else if char_byte c < 245 then Some 3 else None)"

definition second_ok :: "char \<Rightarrow> char \<Rightarrow> bool" where
  "second_ok c d \<longleftrightarrow> (char_byte c = 224 \<longrightarrow> 160 \<le> char_byte d) \<and> (char_byte c = 240 \<longrightarrow> 144 \<le> char_byte d) \<and> (char_byte c = 244 \<longrightarrow> char_byte d < 144)"

text \<open>\<open>bytes.decode("utf-8", "surrogatepass")\<close> succeeds.\<close>

function utf8_ok :: "string \<Rightarrow> bool" where
  "utf8_ok [] = True"
| "utf8_ok (c # cs) =
     (case tail_bytes c of
        None \<Rightarrow> False
      | Some n \<Rightarrow> n \<le> length cs \<and> list_all utf8_tail (take n cs) \<and> (n = 0 \<or> second_ok c (hd cs)) \<and> utf8_ok (drop n cs))"
  by pat_completeness auto
termination by (relation "measure length") auto

definition utf8_encode :: "nat \<Rightarrow> string" where
  "utf8_encode n =
     (if n < 128 then [char_of n]
      else if n < 2048 then [char_of (192 + n div 64), char_of (128 + n mod 64)]
      else if n < 65536 then [char_of (224 + n div 4096), char_of (128 + n div 64 mod 64), char_of (128 + n mod 64)]
      else [char_of (240 + n div 262144), char_of (128 + n div 4096 mod 64), char_of (128 + n div 64 mod 64), char_of (128 + n mod 64)])"

section \<open>Tokens\<close>

definition json_white :: "char \<Rightarrow> bool" where
  "json_white c \<longleftrightarrow> char_byte c = 32 \<or> char_byte c = 9 \<or> char_byte c = 10 \<or> char_byte c = 13"

definition skip_ws :: "string \<Rightarrow> string" where
  "skip_ws s = dropWhile json_white s"

definition hex_value :: "char \<Rightarrow> nat option" where
  "hex_value c = (let n = char_byte c in
     if 48 \<le> n \<and> n \<le> 57 then Some (n - 48) else if 97 \<le> n \<and> n \<le> 102 then Some (n - 87)
     else if 65 \<le> n \<and> n \<le> 70 then Some (n - 55) else None)"

fun hex4 :: "string \<Rightarrow> nat option" where
  "hex4 (a # b # c # d # _) =
     (case (hex_value a, hex_value b, hex_value c, hex_value d) of
        (Some w, Some x, Some y, Some z) \<Rightarrow> Some (((w * 16 + x) * 16 + y) * 16 + z)
      | _ \<Rightarrow> None)"
| "hex4 _ = None"

text \<open>What follows \<open>\u\<close>: the bytes of the character and the number of characters read. A high surrogate joins the low one after it.\<close>

definition unicode_escape :: "string \<Rightarrow> (string \<times> nat) option" where
  "unicode_escape s =
     (case hex4 s of
        None \<Rightarrow> None
      | Some u \<Rightarrow>
          if 55296 \<le> u \<and> u \<le> 56319 \<and> take 2 (drop 4 s) = [CHR 0x5C, CHR ''u''] then
            (case hex4 (drop 6 s) of
               None \<Rightarrow> None
             | Some l \<Rightarrow>
                 if 56320 \<le> l \<and> l \<le> 57343 then Some (utf8_encode (65536 + (u - 55296) * 1024 + (l - 56320)), 10)
                 else Some (utf8_encode u, 4))
          else Some (utf8_encode u, 4))"

definition simple_escape :: "char \<Rightarrow> char option" where
  "simple_escape c =
     (if c = CHR 0x22 \<or> c = CHR 0x5C \<or> c = CHR ''/'' then Some c
      else if c = CHR ''b'' then Some (CHR 0x08) else if c = CHR ''f'' then Some (CHR 0x0C)
      else if c = CHR ''n'' then Some (CHR 0x0A) else if c = CHR ''r'' then Some (CHR 0x0D)
      else if c = CHR ''t'' then Some (CHR 0x09) else None)"

text \<open>The characters of a string up to the closing quote, and the text after it. Control characters are refused.\<close>

function scan_string :: "string \<Rightarrow> (string \<times> string) option" where
  "scan_string [] = None"
| "scan_string (c # cs) =
     (if c = CHR 0x22 then Some ([], cs)
      else if c = CHR 0x5C then
        (case cs of
           [] \<Rightarrow> None
         | e # ds \<Rightarrow>
             if e = CHR ''u'' then
               (case unicode_escape ds of
                  None \<Rightarrow> None
                | Some (bs, n) \<Rightarrow> map_option (map_prod ((@) bs) id) (scan_string (drop n ds)))
             else (case simple_escape e of
                  None \<Rightarrow> None
                | Some b \<Rightarrow> map_option (map_prod (Cons b) id) (scan_string ds)))
      else if char_byte c < 32 then None
      else map_option (map_prod (Cons c) id) (scan_string cs))"
  by pat_completeness auto
termination by (relation "measure length") auto

definition decimal :: "char \<Rightarrow> bool" where
  "decimal c \<longleftrightarrow> 48 \<le> char_byte c \<and> char_byte c \<le> 57"

fun scan_nat :: "string \<Rightarrow> (string \<times> string) option" where
  "scan_nat [] = None"
| "scan_nat (c # cs) =
     (if c = CHR ''0'' then Some ([c], cs)
      else if decimal c then Some (c # takeWhile decimal cs, dropWhile decimal cs) else None)"

definition digits_ahead :: "string \<Rightarrow> bool" where
  "digits_ahead s \<longleftrightarrow> s \<noteq> [] \<and> decimal (hd s)"

definition scan_frac :: "string \<Rightarrow> string \<times> string" where
  "scan_frac s =
     (case s of
        c # cs \<Rightarrow> if c = CHR ''.'' \<and> digits_ahead cs then (c # takeWhile decimal cs, dropWhile decimal cs) else ([], s)
      | [] \<Rightarrow> ([], []))"

definition exp_sign :: "string \<Rightarrow> string" where
  "exp_sign s = (case s of c # _ \<Rightarrow> if c = CHR ''+'' \<or> c = CHR ''-'' then [c] else [] | [] \<Rightarrow> [])"

definition scan_exp :: "string \<Rightarrow> string \<times> string" where
  "scan_exp s =
     (case s of
        c # cs \<Rightarrow>
          let sg = exp_sign cs; ds = drop (length sg) cs
          in if (c = CHR ''e'' \<or> c = CHR ''E'') \<and> digits_ahead ds
             then (c # sg @ takeWhile decimal ds, dropWhile decimal ds) else ([], s)
      | [] \<Rightarrow> ([], []))"

definition minus_sign :: "string \<Rightarrow> string" where
  "minus_sign s = (case s of c # _ \<Rightarrow> if c = CHR ''-'' then [c] else [] | [] \<Rightarrow> [])"

text \<open>The longest number at the front: its text, whether it has a fraction or an exponent, and the text after it.\<close>

definition scan_number :: "string \<Rightarrow> (string \<times> bool \<times> string) option" where
  "scan_number s =
     (let sg = minus_sign s
      in case scan_nat (drop (length sg) s) of
           None \<Rightarrow> None
         | Some (i, r) \<Rightarrow>
             (let (f, r1) = scan_frac r; (e, r2) = scan_exp r1
              in Some (sg @ i @ f @ e, f \<noteq> [] \<or> e \<noteq> [], r2)))"

definition read_nat :: "string \<Rightarrow> nat" where
  "read_nat s = foldl (\<lambda>n c. 10 * n + (char_byte c - 48)) 0 s"

definition read_int :: "string \<Rightarrow> int" where
  "read_int s = (if minus_sign s = [] then int (read_nat s) else - int (read_nat (tl s)))"

definition literal_at :: "string \<Rightarrow> string \<Rightarrow> bool" where
  "literal_at w s \<longleftrightarrow> take (length w) s = w"

definition json_constants :: "(string \<times> pyval) list" where
  "json_constants = [(''null'', PNone), (''true'', PBool True), (''false'', PBool False),
     (''NaN'', PFloat NaN), (''Infinity'', PFloat PInf), (''-Infinity'', PFloat NInf)]"

definition scan_constant :: "string \<Rightarrow> (pyval \<times> string) option" where
  "scan_constant s = map_option (\<lambda>(w, v). (v, drop (length w) s)) (List.find (\<lambda>(w, v). literal_at w s) json_constants)"

section \<open>Values\<close>

definition dict_of :: "(string \<times> pyval) list \<Rightarrow> pydict" where
  "dict_of kvs = foldl (\<lambda>d (k, v). dset d k v) [] kvs"

text \<open>
  The first argument bounds the depth of the recursion; every call reads at least one character before the next, so
  the length of the text is enough.
\<close>

fun scan_value :: "(string \<Rightarrow> pyfloat) \<Rightarrow> nat \<Rightarrow> string \<Rightarrow> (pyval \<times> string) option"
  and scan_members :: "(string \<Rightarrow> pyfloat) \<Rightarrow> nat \<Rightarrow> string \<Rightarrow> ((string \<times> pyval) list \<times> string) option"
  and scan_elements :: "(string \<Rightarrow> pyfloat) \<Rightarrow> nat \<Rightarrow> string \<Rightarrow> (pyval list \<times> string) option" where
  "scan_value pf 0 s = None"
| "scan_value pf (Suc n) s =
     (case s of
        [] \<Rightarrow> None
      | c # cs \<Rightarrow>
          if c = CHR 0x22 then map_option (map_prod PStr id) (scan_string cs)
          else if c = CHR ''{'' then
            (case skip_ws cs of
               [] \<Rightarrow> None
             | d # ds \<Rightarrow> if d = CHR ''}'' then Some (PDict [], ds)
                 else map_option (map_prod (\<lambda>kvs. PDict (dict_of kvs)) id) (scan_members pf n (d # ds)))
          else if c = CHR ''['' then
            (case skip_ws cs of
               [] \<Rightarrow> None
             | d # ds \<Rightarrow> if d = CHR '']'' then Some (PList [], ds) else map_option (map_prod PList id) (scan_elements pf n (d # ds)))
          else (case scan_constant s of
               Some r \<Rightarrow> Some r
             | None \<Rightarrow>
                 (case scan_number s of
                    None \<Rightarrow> None
                  | Some (t, fractional, r) \<Rightarrow> Some (if fractional then PFloat (pf t) else PInt (read_int t), r))))"
| "scan_members pf 0 s = None"
| "scan_members pf (Suc n) s =
     (case s of
        [] \<Rightarrow> None
      | c # cs \<Rightarrow>
          if c \<noteq> CHR 0x22 then None
          else case scan_string cs of
            None \<Rightarrow> None
          | Some (k, r) \<Rightarrow>
              (case skip_ws r of
                 [] \<Rightarrow> None
               | d # ds \<Rightarrow>
                   if d \<noteq> CHR '':'' then None
                   else case scan_value pf n (skip_ws ds) of
                     None \<Rightarrow> None
                   | Some (v, r1) \<Rightarrow>
                       (case skip_ws r1 of
                          [] \<Rightarrow> None
                        | e # es \<Rightarrow>
                            if e = CHR '','' then map_option (map_prod (Cons (k, v)) id) (scan_members pf n (skip_ws es))
                            else if e = CHR ''}'' then Some ([(k, v)], es) else None)))"
| "scan_elements pf 0 s = None"
| "scan_elements pf (Suc n) s =
     (case scan_value pf n s of
        None \<Rightarrow> None
      | Some (v, r) \<Rightarrow>
          (case skip_ws r of
             [] \<Rightarrow> None
           | e # es \<Rightarrow>
               if e = CHR '','' then map_option (map_prod (Cons v) id) (scan_elements pf n (skip_ws es))
               else if e = CHR '']'' then Some ([v], es) else None))"

definition json_loads :: "(string \<Rightarrow> pyfloat) \<Rightarrow> string \<Rightarrow> pyval option" where
  "json_loads pf s =
     (if \<not> utf8_ok s then None
      else case scan_value pf (Suc (length s)) (skip_ws s) of
        None \<Rightarrow> None
      | Some (v, r) \<Rightarrow> if skip_ws r = [] then Some v else None)"

section \<open>Escapes and strings\<close>

lemma byte_inj: "char_byte c = char_byte d \<longleftrightarrow> c = d"
  by simp

lemma hex_digit_value: "n < 16 \<Longrightarrow> hex_value (hex_digit n) = Some n"
  by (auto simp: hex_digit_def hex_value_def Let_def)

lemma control_escape:
  assumes "char_byte c < 32"
  shows "unicode_escape (CHR ''0'' # CHR ''0'' # hex_digit (char_byte c div 16) # hex_digit (char_byte c mod 16) # s) = Some ([c], 4)"
proof -
  have "hex_value (CHR ''0'') = Some 0" by (simp add: hex_value_def Let_def)
  moreover have "char_byte c div 16 < 16" "char_byte c mod 16 < 16" using assms by auto
  ultimately have "hex4 (CHR ''0'' # CHR ''0'' # hex_digit (char_byte c div 16) # hex_digit (char_byte c mod 16) # s) = Some (char_byte c)"
    by (simp add: hex_digit_value)
  then show ?thesis using assms by (simp add: unicode_escape_def utf8_encode_def)
qed

lemma scan_escape: "scan_string (json_escape c @ s) = map_option (map_prod (Cons c) id) (scan_string s)"
proof (cases "char_byte c < 32 \<and> json_escape c = [CHR 0x5C, CHR ''u'', CHR ''0'', CHR ''0'', hex_digit (char_byte c div 16), hex_digit (char_byte c mod 16)]")
  case True
  then show ?thesis using control_escape [of c s] by (simp add: Cons_eq_append_conv map_prod_def case_prod_unfold)
next
  case False
  then show ?thesis by (auto simp: json_escape_def simple_escape_def)
qed

lemma scan_json_string: "scan_string (concat (map json_escape s) @ CHR 0x22 # r) = Some (s, r)"
  by (induction s) (simp_all add: scan_escape)

section \<open>Numbers\<close>

definition ends_token :: "string \<Rightarrow> bool" where
  "ends_token r \<longleftrightarrow> r = [] \<or> \<not> decimal (hd r) \<and> hd r \<notin> {CHR ''.'', CHR ''e'', CHR ''E''}"

lemma takeWhile_delim:
  assumes "\<forall>c\<in>set ds. P c" and "r = [] \<or> \<not> P (hd r)"
  shows "takeWhile P (ds @ r) = ds" "dropWhile P (ds @ r) = r"
proof -
  have "takeWhile P r = []" "dropWhile P r = r" using assms(2) by (cases r; simp)+
  with assms(1) show "takeWhile P (ds @ r) = ds" "dropWhile P (ds @ r) = r" by (induction ds) simp_all
qed

lemma digit_char: "n < 10 \<Longrightarrow> decimal (char_of (48 + n))" "n < 10 \<Longrightarrow> char_byte (char_of (48 + n)) = 48 + n"
  by (simp_all add: decimal_def)

lemma show_nat_digits: "\<forall>c\<in>set (show_nat n). decimal c"
proof (induction n rule: show_nat.induct)
  case (1 n)
  then show ?case by (subst show_nat.simps) (auto simp: digit_char)
qed

lemma show_nat_head: "show_nat n \<noteq> [] \<and> (hd (show_nat n) = CHR ''0'' \<longleftrightarrow> n = 0)"
proof (induction n rule: show_nat.induct)
  case (1 n)
  show ?case
  proof (cases "n < 10")
    case True
    have "char_of (48 + n) = CHR ''0'' \<longleftrightarrow> char_byte (char_of (48 + n)) = char_byte (CHR ''0'')" by (simp only: byte_inj)
    with True show ?thesis by (subst (1 2) show_nat.simps) simp
  next
    case False
    with 1 show ?thesis by (subst (1 2) show_nat.simps) simp
  qed
qed

lemma scan_show_nat:
  assumes "r = [] \<or> \<not> decimal (hd r)"
  shows "scan_nat (show_nat n @ r) = Some (show_nat n, r)"
proof (cases "show_nat n")
  case Nil
  then show ?thesis using show_nat_head by blast
next
  case (Cons c cs)
  note ds = show_nat_digits [of n, unfolded Cons]
  show ?thesis
  proof (cases "n = 0")
    case True
    have "char_of (48::nat) = CHR ''0''" by (simp flip: byte_inj)
    with True show ?thesis by (simp add: show_nat.simps [of 0])
  next
    case False
    with show_nat_head [of n] Cons have "c \<noteq> CHR ''0''" by auto
    with ds takeWhile_delim [of cs decimal r] assms show ?thesis by (simp add: Cons)
  qed
qed

lemma read_show_nat: "read_nat (show_nat n) = n"
proof (induction n rule: show_nat.induct)
  case (1 n)
  then show ?case by (subst show_nat.simps) (simp add: read_nat_def digit_char)
qed

lemma digit_not_minus: "decimal c \<Longrightarrow> c \<noteq> CHR ''-''"
  by (auto simp: decimal_def)

lemma minus_show_nat: "minus_sign (show_nat n @ r) = []" "minus_sign (show_nat n) = []"
proof -
  obtain c cs where c: "show_nat n = c # cs" using show_nat_head [of n] by (cases "show_nat n") auto
  with show_nat_digits [of n] have "c \<noteq> CHR ''-''" by (auto dest: digit_not_minus)
  then show "minus_sign (show_nat n @ r) = []" "minus_sign (show_nat n) = []" by (simp_all add: c minus_sign_def)
qed

lemma delim_scans: "ends_token r \<Longrightarrow> scan_frac r = ([], r)" "ends_token r \<Longrightarrow> scan_exp r = ([], r)"
  by (auto simp: ends_token_def scan_frac_def scan_exp_def Let_def split: list.splits)

lemma scan_show_int:
  assumes "ends_token r"
  shows "scan_number (show_int i @ r) = Some (show_int i, False, r)"
proof -
  have "r = [] \<or> \<not> decimal (hd r)" using assms by (auto simp: ends_token_def)
  note n = scan_show_nat [OF this]
  show ?thesis
  proof (cases "i < 0")
    case True
    then show ?thesis using n delim_scans [OF assms] by (simp add: scan_number_def show_int_def minus_sign_def Let_def)
  next
    case False
    then show ?thesis using n delim_scans [OF assms] by (simp add: scan_number_def show_int_def minus_show_nat Let_def)
  qed
qed

lemma read_show_int: "read_int (show_int i) = i"
proof (cases "i < 0")
  case True
  then show ?thesis by (simp add: read_int_def show_int_def minus_sign_def read_show_nat)
next
  case False
  then show ?thesis by (simp add: read_int_def show_int_def minus_show_nat read_show_nat)
qed

text \<open>Reading on: more text behind a token changes nothing when the token had ended.\<close>

lemma span_ext:
  assumes "dropWhile P s = [] \<longrightarrow> x = [] \<or> \<not> P (hd x)"
  shows "takeWhile P (s @ x) = takeWhile P s" "dropWhile P (s @ x) = dropWhile P s @ x"
proof -
  have "takeWhile P x = []" "dropWhile P x = x" if "dropWhile P s = []" using assms that by (cases x; simp)+
  then show "takeWhile P (s @ x) = takeWhile P s" "dropWhile P (s @ x) = dropWhile P s @ x"
    by (induction s) auto
qed

lemma delim_digit: "ends_token x \<Longrightarrow> x = [] \<or> \<not> decimal (hd x)"
  by (auto simp: ends_token_def)

lemma scan_nat_ext:
  assumes "scan_nat s = Some (i, u)" and "u = [] \<longrightarrow> ends_token x"
  shows "scan_nat (s @ x) = Some (i, u @ x)"
proof (cases s)
  case (Cons c cs)
  with assms delim_digit show ?thesis by (auto simp: span_ext split: if_splits)
qed (use assms in simp)

lemma digits_ahead_ext: "digits_ahead s \<Longrightarrow> digits_ahead (s @ x)" "s \<noteq> [] \<Longrightarrow> digits_ahead (s @ x) = digits_ahead s"
  by (auto simp: digits_ahead_def)

lemma scan_frac_ext:
  assumes "scan_frac s = (f, u)" and "u = [] \<longrightarrow> ends_token x" and "f = [] \<longrightarrow> s = [] \<or> hd s \<noteq> CHR ''.''"
  shows "scan_frac (s @ x) = (f, u @ x)"
proof (cases s)
  case Nil
  with assms delim_scans(1) show ?thesis by (auto simp: scan_frac_def)
next
  case (Cons c cs)
  with assms digits_ahead_ext [of cs x] delim_digit [of x] show ?thesis
    by (cases "cs = []") (auto simp: scan_frac_def span_ext digits_ahead_def split: if_splits)
qed

lemma exp_sign_ext: "s \<noteq> [] \<Longrightarrow> exp_sign (s @ x) = exp_sign s"
  by (cases s) (simp_all add: exp_sign_def)

lemma exp_sign_length: "length (exp_sign s) \<le> length s"
  by (cases s) (simp_all add: exp_sign_def)

lemma scan_exp_ext:
  assumes "scan_exp s = (e, u)" and "u = [] \<longrightarrow> ends_token x" and "e = [] \<longrightarrow> s = [] \<or> hd s \<notin> {CHR ''e'', CHR ''E''}"
  shows "scan_exp (s @ x) = (e, u @ x)"
proof (cases s)
  case Nil
  with assms delim_scans(2) show ?thesis by (auto simp: scan_exp_def)
next
  case (Cons c cs)
  show ?thesis
  proof (cases "c = CHR ''e'' \<or> c = CHR ''E''")
    case True
    with assms Cons have e: "e \<noteq> []" by auto
    let ?ds = "drop (length (exp_sign cs)) cs"
    from e assms(1) Cons have d: "digits_ahead ?ds" and eu: "e = c # exp_sign cs @ takeWhile decimal ?ds" "u = dropWhile decimal ?ds"
      by (auto simp: scan_exp_def Let_def split: if_splits)
    then have "cs \<noteq> []" by (auto simp: digits_ahead_def)
    with exp_sign_length [of cs] True d assms(2) eu delim_digit show ?thesis
      by (auto simp: Cons scan_exp_def Let_def exp_sign_ext digits_ahead_ext(1) span_ext)
  next
    case False
    with assms Cons show ?thesis by (auto simp: scan_exp_def Let_def split: if_splits)
  qed
qed

lemma scan_exp_nonempty: "scan_exp s = (e, u) \<Longrightarrow> e \<noteq> [] \<Longrightarrow> s \<noteq> [] \<and> hd s \<in> {CHR ''e'', CHR ''E''}"
  and scan_exp_empty: "scan_exp s = ([], u) \<Longrightarrow> u = s"
  by (auto simp: scan_exp_def Let_def split: list.splits if_splits)

lemma scan_frac_empty: "scan_frac s = ([], u) \<Longrightarrow> u = s"
  by (auto simp: scan_frac_def split: list.splits if_splits)

lemma delim_append: "ends_token (u @ x) \<Longrightarrow> (u = [] \<longrightarrow> ends_token x) \<and> (u \<noteq> [] \<longrightarrow> ends_token u)"
  by (auto simp: ends_token_def)

lemma scan_number_ext:
  assumes "scan_number s = Some (t, b, u)" and "ends_token (u @ x)"
  shows "scan_number (s @ x) = Some (t, b, u @ x)"
proof -
  let ?sg = "minus_sign s"
  from assms(1) obtain i r f r1 e where i: "scan_nat (drop (length ?sg) s) = Some (i, r)"
    and f: "scan_frac r = (f, r1)" and e: "scan_exp r1 = (e, u)" and t: "t = ?sg @ i @ f @ e" "b = (f \<noteq> [] \<or> e \<noteq> [])"
    by (auto simp: scan_number_def Let_def split: option.splits prod.splits)
  note u = delim_append [OF assms(2)]
  have e': "scan_exp (r1 @ x) = (e, u @ x)"
    using scan_exp_empty u e by (intro scan_exp_ext) (auto simp: ends_token_def)
  have r1: "r1 = [] \<Longrightarrow> u = []" using e by (simp add: scan_exp_def)
  have "hd r \<noteq> CHR ''.''" if "f = []" "r \<noteq> []"
  proof (cases "e = []")
    case True
    with that scan_frac_empty f scan_exp_empty e u show ?thesis by (auto simp: ends_token_def)
  next
    case False
    from that f have "r1 = r" by (simp add: scan_frac_empty)
    with False scan_exp_nonempty [OF e] show ?thesis by auto
  qed
  then have f': "scan_frac (r @ x) = (f, r1 @ x)" using f r1 u by (intro scan_frac_ext) auto
  have "r = [] \<Longrightarrow> u = []" using f r1 by (simp add: scan_frac_def)
  then have i': "scan_nat (drop (length ?sg) s @ x) = Some (i, r @ x)" using i u by (intro scan_nat_ext) auto
  have "s \<noteq> []" using i by auto
  then have "minus_sign (s @ x) = ?sg" "drop (length ?sg) (s @ x) = drop (length ?sg) s @ x"
    by (cases s; simp add: minus_sign_def)+
  with i' f' e' t show ?thesis by (simp add: scan_number_def Let_def)
qed

section \<open>Values\<close>

definition float_texts :: "(rat \<Rightarrow> string) \<Rightarrow> (string \<Rightarrow> pyfloat) \<Rightarrow> bool" where
  "float_texts fr pf \<longleftrightarrow> (\<forall>r. scan_number (fr r) = Some (fr r, True, []) \<and> pf (fr r) = Fin r \<and> list_all (\<lambda>c. char_byte c < 128) (fr r))"

text \<open>Values that are their own JSON image: the keys of every mapping are distinct, as in a \<open>dict\<close>, and strings are UTF-8.\<close>

primrec json_ok :: "pyval \<Rightarrow> bool" where
  "json_ok PNone = True"
| "json_ok (PBool b) = True"
| "json_ok (PInt i) = True"
| "json_ok (PFloat f) = True"
| "json_ok (PStr s) = utf8_ok s"
| "json_ok (PList xs) = list_all id (map json_ok xs)"
| "json_ok (PTuple xs) = list_all id (map json_ok xs)"
| "json_ok (PDict kvs) = (dict_ok kvs \<and> list_all utf8_ok (map fst kvs) \<and> list_all snd (map (map_prod id json_ok) kvs))"
| "json_ok (PProxy kvs) = True"
| "json_ok (PSet ss) = True"
| "json_ok (PFrozenset ss) = True"

lemma dict_of_distinct: "dict_ok kvs \<Longrightarrow> dict_of kvs = kvs"
proof -
  have "foldl (\<lambda>d (k, v). dset d k v) acc kvs = acc @ kvs" if "dict_ok (acc @ kvs)" for acc
    using that
  proof (induction kvs arbitrary: acc)
    case (Cons kv kvs)
    then have "fst kv \<notin> fst ` set acc" by (auto simp: dict_ok_def)
    then have "dset acc (fst kv) (snd kv) = acc @ [kv]" by (simp add: dset_append_new)
    with Cons.IH [of "acc @ [kv]"] Cons.prems show ?case by (simp add: case_prod_unfold)
  qed simp
  from this [of "[]"] show "dict_ok kvs \<Longrightarrow> dict_of kvs = kvs" by (simp add: dict_of_def)
qed

lemma skip_ws_not_white: "s = [] \<or> \<not> json_white (hd s) \<Longrightarrow> skip_ws s = s"
  by (cases s) (simp_all add: skip_ws_def)

lemma scan_number_head: "scan_number s = Some x \<Longrightarrow> \<exists>c cs. s = c # cs \<and> (decimal c \<or> c = CHR ''-'' \<and> digits_ahead cs)"
proof (cases s)
  case (Cons c cs)
  assume "scan_number s = Some x"
  then obtain y where "scan_nat (drop (length (minus_sign s)) s) = Some y"
    by (auto simp: scan_number_def Let_def split: option.splits)
  moreover have "decimal d" if "scan_nat (d # ds) = Some y" for d ds using that by (auto simp: decimal_def split: if_splits)
  moreover have "z \<noteq> []" if "scan_nat z = Some y" for z using that by auto
  ultimately show ?thesis unfolding Cons
    by (cases "c = CHR ''-''"; cases cs) (auto simp: minus_sign_def digits_ahead_def)
qed (simp add: scan_number_def minus_sign_def)

lemma digit_chars:
  assumes "decimal c"
  shows "c \<notin> {CHR 0x22, CHR ''{'', CHR ''['', CHR '']'', CHR ''}'', CHR '','', CHR ''n'', CHR ''t'', CHR ''f'', CHR ''N'', CHR ''I'', CHR ''-''}"
    and "\<not> json_white c"
  using assms by (auto simp: decimal_def json_white_def)

lemma starts_Cons:
  "literal_at (a # w) s \<longleftrightarrow> s \<noteq> [] \<and> hd s = a \<and> literal_at w (tl s)" "literal_at [] s"
  by (cases s; auto simp: literal_at_def)+

lemma scan_value_number:
  assumes "scan_number s = Some (t, b, u)"
  shows "scan_value pf (Suc m) s = Some (if b then PFloat (pf t) else PInt (read_int t), u)"
proof -
  obtain c cs where s: "s = c # cs" and c: "decimal c \<or> c = CHR ''-'' \<and> digits_ahead cs" using scan_number_head [OF assms] by blast
  have "\<not> literal_at w s" if "(w, v) \<in> set json_constants" for w v
    using that c digit_chars(1) [of c] digit_chars(1) [of "hd cs"]
    by (auto simp: s json_constants_def starts_Cons digits_ahead_def)
  then have "scan_constant s = None" by (auto simp: scan_constant_def find_None_not_ex)
  moreover have "c \<notin> {CHR 0x22, CHR ''{'', CHR ''[''}" using c digit_chars [of c] by auto
  ultimately show ?thesis using assms by (simp add: s)
qed

lemma json_text_head:
  assumes "json_text fr v = Some t" and "float_texts fr pf"
  shows "t \<noteq> [] \<and> \<not> json_white (hd t) \<and> hd t \<noteq> CHR '']''"
proof -
  have num: "t \<noteq> [] \<and> \<not> json_white (hd t) \<and> hd t \<noteq> CHR '']''" if "scan_number t = Some x" for x
    using scan_number_head [OF that] digit_chars [of "hd t"] by (auto simp: json_white_def)
  from assms(1) show ?thesis
  proof (cases v)
    case (PInt i)
    with assms(1) scan_show_int [of "[]" i] num show ?thesis by (auto simp: ends_token_def)
  next
    case (PFloat f)
    with assms num show ?thesis by (cases f) (auto simp: float_texts_def)
  qed (auto simp: json_white_def json_string_def split: if_splits)
qed

lemma join_comma_Cons: "join_comma (t # ts) = t @ (if ts = [] then [] else CHR '','' # join_comma ts)"
  by (cases ts) simp_all

text \<open>A text that is read as a value whatever follows it.\<close>

definition reads_as :: "(string \<Rightarrow> pyfloat) \<Rightarrow> pyval \<Rightarrow> string \<Rightarrow> bool" where
  "reads_as pf v t \<longleftrightarrow> t \<noteq> [] \<and> \<not> json_white (hd t) \<and> hd t \<noteq> CHR '']'' \<and>
     (\<forall>m r. length t < m \<longrightarrow> ends_token r \<longrightarrow> scan_value pf m (t @ r) = Some (v, r))"

lemma skip_ws_punct: "c \<in> {CHR '','', CHR '']'', CHR ''}'', CHR '':'', CHR 0x22} \<Longrightarrow> skip_ws (c # r) = c # r"
  by (auto simp: skip_ws_def json_white_def)

lemma readsI:
  assumes "t \<noteq> []" and "\<not> json_white (hd t)" and "hd t \<noteq> CHR '']''"
    and "\<And>m r. length t \<le> m \<Longrightarrow> ends_token r \<Longrightarrow> scan_value pf (Suc m) (t @ r) = Some (v, r)"
  shows "reads_as pf v t"
proof -
  have "scan_value pf m (t @ r) = Some (v, r)" if "length t < m" "ends_token r" for m r
    using assms(4) [of "m - 1" r] that by (cases m) simp_all
  with assms(1-3) show ?thesis unfolding reads_as_def by blast
qed

lemma scan_object:
  assumes "scan_members pf m (CHR 0x22 # s) = Some (kvs, r)"
  shows "scan_value pf (Suc m) (CHR ''{'' # CHR 0x22 # s) = Some (PDict (dict_of kvs), r)"
  using assms by (simp add: skip_ws_punct del: scan_members.simps)

lemma scan_array:
  assumes "scan_elements pf m (d # s) = Some (vs, r)" and "\<not> json_white d" and "d \<noteq> CHR '']''"
  shows "scan_value pf (Suc m) (CHR ''['' # d # s) = Some (PList vs, r)"
  using assms by (simp add: skip_ws_def del: scan_elements.simps)

lemma readsD:
  assumes "reads_as pf v t"
  shows "length t < m \<Longrightarrow> ends_token r \<Longrightarrow> scan_value pf m (t @ r) = Some (v, r)" and "skip_ws (t @ r) = t @ r" and "t \<noteq> []"
proof -
  show "skip_ws (t @ r) = t @ r" using assms by (intro skip_ws_not_white) (simp add: reads_as_def)
qed (use assms in \<open>simp_all add: reads_as_def\<close>)

lemma delim_punct: "c \<in> {CHR '','', CHR '']'', CHR ''}''} \<Longrightarrow> ends_token (c # r)"
  by (auto simp: ends_token_def decimal_def)

definition member_text :: "string \<times> pyval \<times> string \<Rightarrow> string" where
  "member_text m = json_string (fst m) @ CHR '':'' # snd (snd m)"

lemma member_first: "kts \<noteq> [] \<Longrightarrow> \<exists>s. join_comma (map member_text kts) = CHR 0x22 # s"
  by (cases kts) (auto simp: join_comma_Cons member_text_def json_string_def)

lemma scan_member:
  assumes "reads_as pf v t" and "length t < m" and "c \<in> {CHR '','', CHR ''}''}"
  shows "scan_members pf (Suc m) (member_text (k, v, t) @ c # r) =
    (if c = CHR '','' then map_option (map_prod (Cons (k, v)) id) (scan_members pf m (skip_ws r)) else Some ([(k, v)], r))"
proof -
  have "scan_value pf m (t @ c # r) = Some (v, c # r)" using assms by (intro readsD(1)) (auto intro: delim_punct)
  moreover have "skip_ws (t @ c # r) = t @ c # r" by (rule readsD(2) [OF assms(1)])
  ultimately show ?thesis using scan_json_string [of k "CHR '':'' # t @ c # r"] assms(3)
    by (auto simp: member_text_def json_string_def skip_ws_punct)
qed

lemma scan_members_join:
  assumes "kts \<noteq> []" and "length (join_comma (map member_text kts)) < n" and "list_all (\<lambda>m. reads_as pf (fst (snd m)) (snd (snd m))) kts"
  shows "scan_members pf n (join_comma (map member_text kts) @ CHR ''}'' # r) = Some (map (\<lambda>m. (fst m, fst (snd m))) kts, r)"
  using assms
proof (induction kts arbitrary: n)
  case (Cons kt kts)
  obtain k v t where kt: "kt = (k, v, t)" by (cases kt)
  obtain m where m: "n = Suc m" using Cons.prems(2) by (cases n) auto
  have t: "reads_as pf v t" using Cons.prems(3) by (simp add: kt)
  show ?case
  proof (cases "kts = []")
    case True
    then have "length t < m" using Cons.prems(2) by (simp add: kt m member_text_def json_string_def)
    from scan_member [OF t this, of "CHR ''}''" k r] show ?thesis by (simp add: True kt m)
  next
    case False
    then have J: "join_comma (map member_text (kt # kts)) = member_text kt @ CHR '','' # join_comma (map member_text kts)"
      by (cases kts) simp_all
    have lt: "length t < m" "length (join_comma (map member_text kts)) < m"
      using Cons.prems(2) unfolding m J by (simp_all add: kt member_text_def json_string_def)
    obtain s where "join_comma (map member_text kts) = CHR 0x22 # s" using member_first [OF False] by blast
    then have "skip_ws (join_comma (map member_text kts) @ CHR ''}'' # r) = join_comma (map member_text kts) @ CHR ''}'' # r"
      by (simp add: skip_ws_punct)
    with scan_member [OF t lt(1), of "CHR '',''" k "join_comma (map member_text kts) @ CHR ''}'' # r"]
      Cons.IH [OF False lt(2)] Cons.prems(3) show ?thesis unfolding m J by (simp add: kt)
  qed
qed simp

lemma scan_elements_join:
  assumes "vts \<noteq> []" and "Suc (length (join_comma (map snd vts))) < n" and "list_all (\<lambda>(v, t). reads_as pf v t) vts"
  shows "scan_elements pf n (join_comma (map snd vts) @ CHR '']'' # r) = Some (map fst vts, r)"
  using assms
proof (induction vts arbitrary: n)
  case (Cons vt vts)
  obtain v t where vt: "vt = (v, t)" by (cases vt)
  obtain m where m: "n = Suc m" using Cons.prems(2) by (cases n) auto
  have t: "reads_as pf v t" using Cons.prems(3) by (simp add: vt)
  show ?case
  proof (cases "vts = []")
    case True
    then have "length t < m" using Cons.prems(2) by (simp add: vt m)
    from readsD(1) [OF t this, of "CHR '']'' # r"] show ?thesis by (simp add: True vt m delim_punct skip_ws_punct)
  next
    case False
    then have J: "join_comma (map snd (vt # vts)) = t @ CHR '','' # join_comma (map snd vts)" by (cases vts) (simp_all add: vt)
    have lt: "length t < m" "Suc (length (join_comma (map snd vts))) < m"
      using Cons.prems(2) readsD(3) [OF t] unfolding m J by (auto simp: neq_Nil_conv)
    have "skip_ws (join_comma (map snd vts) @ CHR '']'' # r) = join_comma (map snd vts) @ CHR '']'' # r"
      using False Cons.prems(3) by (cases vts) (auto simp: join_comma_Cons readsD(2))
    with readsD(1) [OF t lt(1), of "CHR '','' # join_comma (map snd vts) @ CHR '']'' # r"] Cons.IH [OF False lt(2)] Cons.prems(3)
    show ?thesis unfolding m J by (simp add: vt delim_punct skip_ws_punct)
  qed
qed simp

lemma those_map_the: "those (map f xs) = Some ts \<Longrightarrow> ts = map (\<lambda>x. the (f x)) xs \<and> (\<forall>x\<in>set xs. f x = Some (the (f x)))"
  by (auto simp: those_map_Some comp_def)

lemma list_reads:
  assumes "\<And>x t. x \<in> set xs \<Longrightarrow> json_text fr x = Some t \<Longrightarrow> reads_as pf (json_sorted x) t"
    and "those (map (json_text fr) xs) = Some ts"
  shows "reads_as pf (PList (map json_sorted xs)) ([CHR ''[''] @ join_comma ts @ [CHR '']''])"
proof -
  from those_map_the [OF assms(2)] have ts: "ts = map (\<lambda>x. the (json_text fr x)) xs"
    and x: "\<And>x. x \<in> set xs \<Longrightarrow> reads_as pf (json_sorted x) (the (json_text fr x))" using assms(1) by auto
  have "scan_value pf (Suc m) (CHR ''['' # join_comma ts @ CHR '']'' # r) = Some (PList (map json_sorted xs), r)"
    if m: "Suc (Suc (length (join_comma ts))) \<le> m" for m r
  proof (cases "xs = []")
    case True
    then show ?thesis by (simp add: ts skip_ws_punct)
  next
    case False
    let ?vts = "map (\<lambda>x. (json_sorted x, the (json_text fr x))) xs"
    have snd: "map snd ?vts = ts" by (simp add: ts)
    have "scan_elements pf m (join_comma (map snd ?vts) @ CHR '']'' # r) = Some (map fst ?vts, r)"
      using False m x by (intro scan_elements_join) (auto simp: snd [simplified] ts list_all_iff comp_def)
    then have e: "scan_elements pf m (join_comma ts @ CHR '']'' # r) = Some (map json_sorted xs, r)" by (simp add: ts comp_def)
    obtain d ds where d: "join_comma ts @ CHR '']'' # r = d # ds" "\<not> json_white d" "d \<noteq> CHR '']''"
    proof -
      from False obtain y ys where y: "xs = y # ys" by (cases xs) auto
      with x [of y] obtain d ds where "the (json_text fr y) = d # ds" "\<not> json_white d" "d \<noteq> CHR '']''"
        by (cases "the (json_text fr y)") (auto simp: reads_as_def)
      then show ?thesis using that by (simp add: ts y join_comma_Cons)
    qed
    show ?thesis unfolding d(1) by (rule scan_array [OF e [unfolded d(1)] d(2,3)])
  qed
  then show ?thesis by (intro readsI) (simp_all add: json_white_def)
qed

text \<open>The members of a mapping, sorted by key, with their texts.\<close>

definition dict_members :: "(rat \<Rightarrow> string) \<Rightarrow> pydict \<Rightarrow> (string \<times> pyval \<times> string) list" where
  "dict_members fr kvs = map (\<lambda>(k, v). (k, json_sorted v, the (json_text fr v))) (sort_key fst kvs)"

lemma members_text:
  assumes "\<forall>kv\<in>set kvs. json_text fr (snd kv) \<noteq> None"
  shows "map (the \<circ> json_item) (sort_key fst (map (map_prod id (json_text fr)) kvs)) = map member_text (dict_members fr kvs)"
proof -
  have "the (json_item (map_prod id (json_text fr) x)) = member_text (fst x, json_sorted (snd x), the (json_text fr (snd x)))" if "x \<in> set kvs" for x
    using assms that by (cases "json_text fr (snd x)") (auto simp: json_item_def member_text_def)
  then show ?thesis unfolding sort_map_snd dict_members_def by (simp add: case_prod_unfold)
qed

lemma members_values: "map (\<lambda>m. (fst m, fst (snd m))) (dict_members fr kvs) = sort_key fst (map (map_prod id json_sorted) kvs)"
  unfolding sort_map_snd map_map dict_members_def by (rule map_cong) auto

lemma members_empty: "dict_members fr kvs = [] \<longleftrightarrow> kvs = []"
  by (simp add: dict_members_def flip: length_0_conv)

lemma sorted_dict_of: "dict_ok kvs \<Longrightarrow> dict_of (sort_key fst (map (map_prod id json_sorted) kvs)) = sort_key fst (map (map_prod id json_sorted) kvs)"
  by (intro dict_of_distinct) (simp add: dict_ok_def distinct_map_fst_sort comp_def)

lemma scan_dict:
  assumes "list_all (\<lambda>m. reads_as pf (fst (snd m)) (snd (snd m))) (dict_members fr kvs)" and "dict_ok kvs"
    and "length (join_comma (map member_text (dict_members fr kvs))) < m"
  shows "scan_value pf (Suc m) (CHR ''{'' # join_comma (map member_text (dict_members fr kvs)) @ CHR ''}'' # r) = Some (json_sorted (PDict kvs), r)"
proof (cases "kvs = []")
  case True
  then show ?thesis by (simp add: dict_members_def skip_ws_punct json_sorted.simps(8))
next
  case False
  then have ne: "dict_members fr kvs \<noteq> []" by (simp add: members_empty)
  obtain s where s: "join_comma (map member_text (dict_members fr kvs)) = CHR 0x22 # s" using member_first [OF ne] by blast
  from scan_members_join [OF ne assms(3,1), of r] have "scan_members pf m (CHR 0x22 # s @ CHR ''}'' # r) =
      Some (sort_key fst (map (map_prod id json_sorted) kvs), r)" by (simp only: s append_Cons members_values)
  from scan_object [OF this] show ?thesis by (simp only: s append_Cons sorted_dict_of [OF assms(2)] json_sorted.simps(8))
qed

lemma dict_reads:
  assumes "\<And>k v t. (k, v) \<in> set kvs \<Longrightarrow> json_text fr v = Some t \<Longrightarrow> reads_as pf (json_sorted v) t"
    and "json_text fr (PDict kvs) = Some t" and "dict_ok kvs"
  shows "reads_as pf (json_sorted (PDict kvs)) t"
proof -
  note t = json_dict_Some [OF assms(2)]
  have "reads_as pf (json_sorted (snd x)) (the (json_text fr (snd x)))" if x: "x \<in> set kvs" for x
  proof -
    from t(1) x obtain u where "json_text fr (snd x) = Some u" by blast
    with assms(1) [of "fst x" "snd x" u] x show ?thesis by simp
  qed
  then have r: "list_all (\<lambda>m. reads_as pf (fst (snd m)) (snd (snd m))) (dict_members fr kvs)"
    by (simp add: list_all_iff case_prod_unfold dict_members_def)
  have eq: "t = [CHR ''{''] @ join_comma (map member_text (dict_members fr kvs)) @ [CHR ''}'']"
    using t(2) members_text [OF t(1)] by (simp only:)
  show ?thesis unfolding eq
  proof (rule readsI)
    fix m x assume "length ([CHR ''{''] @ join_comma (map member_text (dict_members fr kvs)) @ [CHR ''}'']) \<le> m"
    then have "length (join_comma (map member_text (dict_members fr kvs))) < m" by simp
    from scan_dict [OF r assms(3) this] show "scan_value pf (Suc m) (([CHR ''{''] @ join_comma (map member_text (dict_members fr kvs)) @ [CHR ''}'']) @ x) =
        Some (json_sorted (PDict kvs), x)" by (simp only: append_assoc append_Cons append_Nil)
  qed (simp_all add: json_white_def)
qed

lemma constants_literal:
  "list_all (\<lambda>c. scan_constant (fst c @ r) = Some (snd c, r) \<and> fst c \<noteq> [] \<and> \<not> json_white (hd (fst c)) \<and>
     hd (fst c) \<notin> {CHR 0x22, CHR ''{'', CHR ''['', CHR '']''}) json_constants"
  by (simp add: json_constants_def scan_constant_def starts_Cons json_white_def)

lemma scan_constant_literal:
  assumes "(w, v) \<in> set json_constants"
  shows "scan_constant (w @ r) = Some (v, r)" and "w \<noteq> []" and "\<not> json_white (hd w)" and "hd w \<notin> {CHR 0x22, CHR ''{'', CHR ''['', CHR '']''}"
  using bspec [OF constants_literal [unfolded list_all_iff] assms] by simp_all

lemma constant_reads:
  assumes "(w, v) \<in> set json_constants"
  shows "reads_as pf v w"
proof (rule readsI)
  note w = scan_constant_literal [OF assms]
  show "scan_value pf (Suc m) (w @ r) = Some (v, r)" for m r
    using w(1) [of r] w(2,4) by (cases w) auto
  show "w \<noteq> []" "\<not> json_white (hd w)" "hd w \<noteq> CHR '']''" using w by auto
qed

lemma number_reads:
  assumes "scan_number t = Some (t, b, [])"
  shows "reads_as pf (if b then PFloat (pf t) else PInt (read_int t)) t"
proof -
  obtain c cs where s: "t = c # cs" and c: "decimal c \<or> c = CHR ''-'' \<and> digits_ahead cs" using scan_number_head [OF assms] by blast
  have "scan_value pf m (t @ r) = Some (if b then PFloat (pf t) else PInt (read_int t), r)" if "length t < m" "ends_token r" for m r
    using that scan_value_number [OF scan_number_ext [OF assms, of r]] by (cases m) auto
  with c digit_chars [of c] show ?thesis by (auto simp: reads_as_def s json_white_def)
qed

lemma json_reads:
  assumes "float_texts fr pf" and "json_ok v" and "json_text fr v = Some t"
  shows "reads_as pf (json_sorted v) t"
  using assms(2,3)
proof (induction v arbitrary: t)
  case (PFloat f)
  with assms(1) have "scan_number t = Some (t, True, [])" "PFloat (pf t) = PFloat f"
    by (cases f; auto simp: float_texts_def)+
  with number_reads [OF this(1), of pf] show ?case by simp
next
  case (PInt i)
  then have t: "t = show_int i" by simp
  have "scan_number t = Some (t, False, [])" unfolding t using scan_show_int [of "[]" i] by (simp add: ends_token_def)
  from number_reads [OF this, of pf] show ?case by (simp add: t read_show_int)
next
  case (PStr s)
  then have t: "t = json_string s" by simp
  have "scan_value pf m (t @ r) = Some (PStr s, r)" if "length t < m" for m r
    using that scan_json_string [of s r] by (cases m) (simp_all add: t json_string_def)
  then show ?case by (auto simp: reads_as_def t json_string_def json_white_def)
next
  case (PList xs)
  then obtain ts where ts: "those (map (json_text fr) xs) = Some ts" "t = [CHR ''[''] @ join_comma ts @ [CHR '']'']" by auto
  have "reads_as pf (PList (map json_sorted xs)) ([CHR ''[''] @ join_comma ts @ [CHR '']''])"
    by (rule list_reads [OF _ ts(1)]) (use PList in \<open>auto simp: list_all_iff\<close>)
  then show ?case by (simp add: ts(2))
next
  case (PTuple xs)
  then obtain ts where ts: "those (map (json_text fr) xs) = Some ts" "t = [CHR ''[''] @ join_comma ts @ [CHR '']'']" by auto
  have "reads_as pf (PList (map json_sorted xs)) ([CHR ''[''] @ join_comma ts @ [CHR '']''])"
    by (rule list_reads [OF _ ts(1)]) (use PTuple in \<open>auto simp: list_all_iff\<close>)
  then show ?case by (simp add: ts(2))
next
  case (PDict kvs)
  show ?case
  proof (rule dict_reads [OF _ PDict.prems(2)])
    show "reads_as pf (json_sorted v) u" if "(k, v) \<in> set kvs" "json_text fr v = Some u" for k v u
      using PDict.IH [OF that(1), of v u] PDict.prems(1) that by (auto simp: list_all_iff snds.simps)
    show "dict_ok kvs" using PDict.prems(1) by simp
  qed
qed (auto simp: json_constants_def intro!: constant_reads)

section \<open>The text is UTF-8\<close>

lemma tail_ascii: "char_byte c < 128 \<Longrightarrow> tail_bytes c = Some 0"
  by (simp add: tail_bytes_def)

lemma utf8_ascii: "list_all (\<lambda>c. char_byte c < 128) a \<Longrightarrow> utf8_ok (a @ b) = utf8_ok b"
  by (induction a) (simp_all add: tail_ascii)

lemma utf8_append: "utf8_ok a \<Longrightarrow> utf8_ok (a @ b) = utf8_ok b"
proof (induction a rule: utf8_ok.induct)
  case (2 c cs)
  then obtain n where n: "tail_bytes c = Some n" by (cases "tail_bytes c") auto
  with 2 have "n \<le> length cs" "utf8_ok (drop n cs @ b) = utf8_ok b" "n = 0 \<or> hd (cs @ b) = hd cs" by (auto simp: hd_append)
  with n "2.prems" show ?case by auto
qed simp

lemma escape_high:
  assumes "128 \<le> char_byte c"
  shows "json_escape c = [c]"
proof -
  have "c \<noteq> d" if "char_byte d < 128" for d using assms that by auto
  then show ?thesis using assms by (simp add: json_escape_def)
qed

lemma escapes_high: "list_all utf8_tail s \<Longrightarrow> concat (map json_escape s) = s"
  by (induction s) (simp_all add: utf8_tail_def escape_high)

lemma hex_digit_ascii: "n < 16 \<Longrightarrow> char_byte (hex_digit n) < 128"
  by (auto simp: hex_digit_def)

lemma escape_ascii: "char_byte c < 128 \<Longrightarrow> list_all (\<lambda>c. char_byte c < 128) (json_escape c)"
  by (auto simp: json_escape_def intro!: hex_digit_ascii)

lemma utf8_escapes: "utf8_ok s \<Longrightarrow> utf8_ok (concat (map json_escape s))"
proof (induction s rule: utf8_ok.induct)
  case (2 c cs)
  then obtain n where n: "tail_bytes c = Some n" by (cases "tail_bytes c") auto
  from n "2.prems" have l: "n \<le> length cs" and t: "list_all utf8_tail (take n cs)" and s: "n = 0 \<or> second_ok c (hd cs)"
    and d: "utf8_ok (drop n cs)" by auto
  note ih = "2.IH" [OF n d]
  show ?case
  proof (cases "char_byte c < 128")
    case True
    then have "n = 0" using n by (simp add: tail_ascii)
    with ih have "utf8_ok (concat (map json_escape cs))" by simp
    then show ?thesis using utf8_ascii [OF escape_ascii [OF True]] by (simp only: list.map concat.simps)
  next
    case False
    let ?r = "concat (map json_escape (drop n cs))"
    have "concat (map json_escape cs) = concat (map json_escape (take n cs)) @ ?r" by (simp flip: concat_append map_append)
    then have e: "concat (map json_escape (c # cs)) = c # take n cs @ ?r"
      using False by (simp only: escapes_high [OF t] list.map concat.simps escape_high not_less append_Cons append_Nil)
    have "n = 0 \<or> second_ok c (hd (take n cs @ ?r))" using s l by (cases cs; cases n) simp_all
    with n l t ih show ?thesis unfolding e by (simp only: utf8_ok.simps option.case) simp
  qed
qed simp

lemmas utf8_simps = tail_ascii utf8_append [OF utf8_escapes] utf8_append

lemma utf8_string: "utf8_ok s \<Longrightarrow> utf8_ok (json_string s)"
  by (simp add: json_string_def utf8_simps)

lemma utf8_join: "list_all utf8_ok ts \<Longrightarrow> utf8_ok (join_comma ts)"
  by (induction ts) (auto simp: join_comma_Cons utf8_simps)

lemma utf8_show_int: "utf8_ok (show_int i)"
proof -
  have "utf8_ok (show_nat n)" for n
  proof -
    have "list_all (\<lambda>c. char_byte c < 128) (show_nat n)" using show_nat_digits [of n] by (auto simp: list_all_iff decimal_def)
    from utf8_ascii [OF this, of "[]"] show ?thesis by simp
  qed
  then show ?thesis by (simp add: show_int_def utf8_simps)
qed

lemma utf8_json_text:
  assumes "float_texts fr pf" and "json_ok v" and "json_text fr v = Some t"
  shows "utf8_ok t"
  using assms(2,3)
proof (induction v arbitrary: t)
  case (PFloat f)
  with assms(1) utf8_ascii [of t "[]"] show ?case by (cases f) (auto simp: float_texts_def)
next
  case (PList xs)
  then obtain ts where ts: "those (map (json_text fr) xs) = Some ts" "t = [CHR ''[''] @ join_comma ts @ [CHR '']'']" by auto
  from those_map_the [OF ts(1)] PList have "list_all utf8_ok ts" by (auto simp: list_all_iff)
  then show ?case by (simp add: ts(2) utf8_append [OF utf8_join] tail_ascii)
next
  case (PTuple xs)
  then obtain ts where ts: "those (map (json_text fr) xs) = Some ts" "t = [CHR ''[''] @ join_comma ts @ [CHR '']'']" by auto
  from those_map_the [OF ts(1)] PTuple have "list_all utf8_ok ts" by (auto simp: list_all_iff)
  then show ?case by (simp add: ts(2) utf8_append [OF utf8_join] tail_ascii)
next
  case (PDict kvs)
  note d = json_dict_Some [OF PDict.prems(2)]
  have "utf8_ok (member_text (k, w, the (json_text fr v)))" if "(k, v) \<in> set kvs" for k v w
  proof -
    from d(1) that obtain u where u: "json_text fr v = Some u" by fastforce
    with PDict.IH [OF that, of v u] PDict.prems(1) that have "utf8_ok u" "utf8_ok k"
      by (auto simp: list_all_iff snds.simps)
    then show ?thesis by (simp add: u member_text_def utf8_append [OF utf8_string] tail_ascii)
  qed
  then have "list_all utf8_ok (map member_text (dict_members fr kvs))" by (auto simp: list_all_iff dict_members_def)
  then show ?case unfolding d(2) members_text [OF d(1)] by (simp add: utf8_append [OF utf8_join] tail_ascii)
qed (auto simp: utf8_show_int utf8_string tail_ascii split: if_splits)

section \<open>Every prefix of an object is refused\<close>

lemma skip_ws_ext: "skip_ws s = c # cs \<Longrightarrow> skip_ws (s @ x) = c # cs @ x"
  unfolding skip_ws_def by (induction s) auto

lemma hex4_ext: "hex4 s = Some n \<Longrightarrow> hex4 (s @ x) = Some n \<and> 4 \<le> length s"
  by (cases s rule: hex4.cases) (auto split: option.splits)

lemma unicode_escape_ext:
  assumes "unicode_escape s = Some (bs, n)" and "scan_string (drop n s) = Some y"
  shows "unicode_escape (s @ x) = Some (bs, n)" and "n \<le> length s"
proof -
  obtain u where u: "hex4 s = Some u" using assms(1) by (auto simp: unicode_escape_def split: option.splits)
  note u' = hex4_ext [OF u]
  have t: "take 2 (drop 4 (s @ x)) = [CHR 0x5C, CHR ''u''] \<longleftrightarrow> take 2 (drop 4 s) = [CHR 0x5C, CHR ''u'']" if "n = 4"
  proof (cases "drop 4 s")
    case Nil
    with assms(2) that show ?thesis by simp
  next
    case (Cons c cs)
    with assms(2) that u' show ?thesis by (cases cs) (auto split: if_splits)
  qed
  have l: "n = 4 \<or> n = 10 \<and> take 2 (drop 4 s) = [CHR 0x5C, CHR ''u''] \<and> hex4 (drop 6 s) \<noteq> None"
    using assms(1) by (auto simp: unicode_escape_def u split: if_splits option.splits)
  have l2: "6 \<le> length s" if "take 2 (drop 4 s) = [CHR 0x5C, CHR ''u'']"
  proof -
    from that have "length (take 2 (drop 4 s)) = 2" by simp
    then show ?thesis by simp
  qed
  show "unicode_escape (s @ x) = Some (bs, n)"
  proof (cases "take 2 (drop 4 s) = [CHR 0x5C, CHR ''u'']")
    case True
    note l2 = l2 [OF True]
    have "take 2 (drop 4 (s @ x)) = [CHR 0x5C, CHR ''u'']" using True l2 by simp
    with True l2 assms(1) u u' hex4_ext [of "drop 6 s"] show ?thesis
      by (auto simp: unicode_escape_def split: if_splits option.splits)
  next
    case False
    with l have "n = 4" by auto
    with t False assms(1) u u' show ?thesis by (auto simp: unicode_escape_def)
  qed
  show "n \<le> length s"
  proof (cases "n = 4")
    case False
    with l obtain v where "n = 10" "hex4 (drop 6 s) = Some v" by auto
    with hex4_ext [of "drop 6 s" v x] show ?thesis by simp linarith
  qed (use u' in simp)
qed

lemma scan_string_ext: "scan_string s = Some (a, r) \<Longrightarrow> scan_string (s @ x) = Some (a, r @ x)"
proof (induction s arbitrary: a r rule: scan_string.induct)
  case (2 c cs)
  show ?case
  proof (cases "c = CHR 0x5C")
    case True
    with "2.prems" obtain e ds where ds: "cs = e # ds" by (cases cs) auto
    show ?thesis
    proof (cases "e = CHR ''u''")
      case u: True
      with True ds "2.prems" obtain bs n where n: "unicode_escape ds = Some (bs, n)" by (auto split: option.splits)
      with True ds u "2.prems" obtain y where y: "scan_string (drop n ds) = Some (y, r)" "a = bs @ y" by auto
      from unicode_escape_ext [OF n y(1)] have x: "unicode_escape (ds @ x) = Some (bs, n)" "drop n (ds @ x) = drop n ds @ x" by auto
      from "2.IH"(1) [OF _ True ds u n refl y(1)] True have "scan_string (drop n ds @ x) = Some (y, r @ x)" by simp
      with x True ds u y(2) show ?thesis by simp
    next
      case False
      with True ds "2.prems" obtain b y where b: "simple_escape e = Some b" "scan_string ds = Some (y, r)" "a = b # y" by (auto split: option.splits)
      from "2.IH"(2) [OF _ True ds False b(1,2)] True have "scan_string (ds @ x) = Some (y, r @ x)" by simp
      with b True ds False show ?thesis by simp
    qed
  next
    case False
    with 2 show ?thesis by (auto split: if_splits)
  qed
qed simp

lemma delim_rest: "skip_ws r = e # es \<Longrightarrow> e \<in> {CHR '','', CHR '']'', CHR ''}''} \<Longrightarrow> ends_token (r @ x)"
proof (cases r)
  case (Cons c cs)
  assume "skip_ws r = e # es" "e \<in> {CHR '','', CHR '']'', CHR ''}''}"
  then have "json_white c \<or> c \<in> {CHR '','', CHR '']'', CHR ''}''}" by (auto simp: Cons skip_ws_def split: if_splits)
  then show ?thesis by (auto simp: Cons ends_token_def decimal_def json_white_def)
qed (simp add: skip_ws_def)

lemma scan_constant_ext:
  assumes "scan_constant s = Some (v, r)"
  shows "scan_constant (s @ x) = Some (v, r @ x)"
proof -
  from assms obtain w where w: "List.find (\<lambda>(w, v). literal_at w s) json_constants = Some (w, v)" "r = drop (length w) s"
    by (auto simp: scan_constant_def)
  from find_SomeD [OF w(1)] have c: "(w, v) \<in> set json_constants" "take (length w) s = w" by (simp_all add: literal_at_def)
  have "s = w @ r" using append_take_drop_id [of "length w" s] by (simp only: c(2) w(2))
  then show ?thesis using scan_constant_literal(1) [OF c(1), of "r @ x"] by simp
qed

lemma scan_members_parts:
  assumes "scan_members pf (Suc n) s = Some (kvs, r)"
  obtains cs k r0 ds v r1 e es where "s = CHR 0x22 # cs" "scan_string cs = Some (k, r0)" "skip_ws r0 = CHR '':'' # ds"
    "scan_value pf n (skip_ws ds) = Some (v, r1)" "skip_ws r1 = e # es"
    "e = CHR ''}'' \<and> kvs = [(k, v)] \<and> r = es \<or>
     e = CHR '','' \<and> (\<exists>more. scan_members pf n (skip_ws es) = Some (more, r) \<and> kvs = (k, v) # more)"
  using assms that by (auto split: list.splits if_splits option.splits)

lemma scan_elements_parts:
  assumes "scan_elements pf (Suc n) s = Some (vs, r)"
  obtains v r1 e es where "scan_value pf n s = Some (v, r1)" "skip_ws r1 = e # es"
    "e = CHR '']'' \<and> vs = [v] \<and> r = es \<or>
     e = CHR '','' \<and> (\<exists>more. scan_elements pf n (skip_ws es) = Some (more, r) \<and> vs = v # more)"
  using assms that by (auto split: list.splits if_splits option.splits)

lemma scan_nonempty: "scan_value pf n s = Some y \<Longrightarrow> s \<noteq> []" "scan_members pf n s = Some z \<Longrightarrow> s \<noteq> []"
  "scan_elements pf n s = Some w \<Longrightarrow> s \<noteq> []"
proof -
  show v: "scan_value pf n s = Some y \<Longrightarrow> s \<noteq> []" for n and y :: "pyval \<times> string" by (cases n) auto
  show "scan_members pf n s = Some z \<Longrightarrow> s \<noteq> []" by (cases n) auto
  show "scan_elements pf n s = Some w \<Longrightarrow> s \<noteq> []" using v by (cases n) (auto split: option.splits)
qed

lemma skip_ws_append: "skip_ws s \<noteq> [] \<Longrightarrow> skip_ws (s @ x) = skip_ws s @ x"
  by (cases "skip_ws s") (auto dest: skip_ws_ext)

lemma skip_ws_first: "skip_ws s = c # cs \<Longrightarrow> \<not> json_white c"
  unfolding skip_ws_def by (induction s) (auto split: if_splits)

text \<open>Reading with more text behind and with more fuel gives the same value.\<close>

lemma scan_stable:
  "(\<forall>s v r. scan_value pf n s = Some (v, r) \<longrightarrow> n \<le> m \<longrightarrow> (ends_token (r @ x) \<or> hd s \<in> {CHR 0x22, CHR ''{'', CHR ''[''}) \<longrightarrow>
      scan_value pf m (s @ x) = Some (v, r @ x)) \<and>
   (\<forall>s kvs r. scan_members pf n s = Some (kvs, r) \<longrightarrow> n \<le> m \<longrightarrow> scan_members pf m (s @ x) = Some (kvs, r @ x)) \<and>
   (\<forall>s vs r. scan_elements pf n s = Some (vs, r) \<longrightarrow> n \<le> m \<longrightarrow> scan_elements pf m (s @ x) = Some (vs, r @ x))"
proof (induction n arbitrary: m)
  case (Suc n)
  have V: "scan_value pf (Suc k) (s @ x) = Some (v, r @ x)"
    if sv: "scan_value pf (Suc n) s = Some (v, r)" and nk: "n \<le> k" and dl: "ends_token (r @ x) \<or> hd s \<in> {CHR 0x22, CHR ''{'', CHR ''[''}" for k s v r
  proof -
    obtain c cs where s: "s = c # cs" using scan_nonempty(1) [OF sv] by (cases s) auto
    consider (str) "c = CHR 0x22" | (obj) "c = CHR ''{''" | (arr) "c = CHR ''[''" | (other) "c \<notin> {CHR 0x22, CHR ''{'', CHR ''[''}" by blast
    then show ?thesis
    proof cases
      case str
      with sv s show ?thesis by (auto dest: scan_string_ext [of _ _ _ x])
    next
      case obj
      with sv s obtain d ds where d: "skip_ws cs = d # ds" by (auto split: list.splits)
      with obj sv s have "d = CHR ''}'' \<and> v = PDict [] \<and> r = ds \<or>
          d \<noteq> CHR ''}'' \<and> (\<exists>kvs. scan_members pf n (d # ds) = Some (kvs, r) \<and> v = PDict (dict_of kvs))"
        by (auto split: if_splits)
      moreover have "scan_members pf k (d # ds @ x) = Some (kvs, r @ x)" if "scan_members pf n (d # ds) = Some (kvs, r)" for kvs
        using Suc.IH [of k] nk that by (metis append_Cons)
      ultimately show ?thesis using obj s skip_ws_ext [OF d, of x] by (auto simp del: scan_members.simps)
    next
      case arr
      with sv s obtain d ds where d: "skip_ws cs = d # ds" by (auto split: list.splits)
      with arr sv s have "d = CHR '']'' \<and> v = PList [] \<and> r = ds \<or>
          d \<noteq> CHR '']'' \<and> (\<exists>vs. scan_elements pf n (d # ds) = Some (vs, r) \<and> v = PList vs)"
        by (auto split: if_splits)
      moreover have "scan_elements pf k (d # ds @ x) = Some (vs, r @ x)" if "scan_elements pf n (d # ds) = Some (vs, r)" for vs
        using Suc.IH [of k] nk that by (metis append_Cons)
      ultimately show ?thesis using arr s skip_ws_ext [OF d, of x] by (auto simp del: scan_elements.simps)
    next
      case other
      show ?thesis
      proof (cases "scan_constant s")
        case None
        with other sv s obtain t b where t: "scan_number s = Some (t, b, r)" "v = (if b then PFloat (pf t) else PInt (read_int t))"
          by (auto split: option.splits)
        have "ends_token (r @ x)" using dl other s by simp
        from scan_value_number [OF scan_number_ext [OF t(1) this]] t(2) show ?thesis by simp
      next
        case (Some y)
        with other sv s have "y = (v, r)" by (cases y) auto
        with Some scan_constant_ext [of s v r x] other s show ?thesis by simp
      qed
    qed
  qed
  have M: "scan_members pf (Suc k) (s @ x) = Some (kvs, r @ x)" if sm: "scan_members pf (Suc n) s = Some (kvs, r)" and nk: "n \<le> k" for k s kvs r
    using sm
  proof (rule scan_members_parts)
    fix cs k' r0 ds v r1 e es
    assume p: "s = CHR 0x22 # cs" "scan_string cs = Some (k', r0)" "skip_ws r0 = CHR '':'' # ds"
      "scan_value pf n (skip_ws ds) = Some (v, r1)" "skip_ws r1 = e # es"
      and c: "e = CHR ''}'' \<and> kvs = [(k', v)] \<and> r = es \<or>
        e = CHR '','' \<and> (\<exists>more. scan_members pf n (skip_ws es) = Some (more, r) \<and> kvs = (k', v) # more)"
    have "ends_token (r1 @ x)" using p(5) c by (intro delim_rest [OF p(5)]) auto
    with Suc.IH [of k] p(4) nk have "scan_value pf k (skip_ws ds @ x) = Some (v, r1 @ x)" by blast
    then have "scan_value pf k (skip_ws (ds @ x)) = Some (v, r1 @ x)" using scan_nonempty(1) [OF p(4)] by (simp add: skip_ws_append)
    moreover have "scan_members pf k (skip_ws (es @ x)) = Some (more, r @ x)" if "scan_members pf n (skip_ws es) = Some (more, r)" for more
      using Suc.IH [of k] that nk scan_nonempty(2) [OF that] by (simp add: skip_ws_append)
    ultimately show ?thesis using c p(1) scan_string_ext [OF p(2), of x] skip_ws_ext [OF p(3), of x] skip_ws_ext [OF p(5), of x] by auto
  qed
  have E: "scan_elements pf (Suc k) (s @ x) = Some (vs, r @ x)" if se: "scan_elements pf (Suc n) s = Some (vs, r)" and nk: "n \<le> k" for k s vs r
    using se
  proof (rule scan_elements_parts)
    fix v r1 e es
    assume p: "scan_value pf n s = Some (v, r1)" "skip_ws r1 = e # es"
      and c: "e = CHR '']'' \<and> vs = [v] \<and> r = es \<or> e = CHR '','' \<and> (\<exists>more. scan_elements pf n (skip_ws es) = Some (more, r) \<and> vs = v # more)"
    have "ends_token (r1 @ x)" using c by (intro delim_rest [OF p(2)]) auto
    with Suc.IH [of k] p(1) nk have "scan_value pf k (s @ x) = Some (v, r1 @ x)" by blast
    moreover have "scan_elements pf k (skip_ws (es @ x)) = Some (more, r @ x)" if "scan_elements pf n (skip_ws es) = Some (more, r)" for more
      using Suc.IH [of k] that nk scan_nonempty(3) [OF that] by (simp add: skip_ws_append)
    ultimately show ?thesis using c skip_ws_ext [OF p(2), of x] by auto
  qed
  from V M E show ?case by (cases m) (blast | simp)+
qed simp

lemma scan_prefix:
  assumes "reads_as pf v t" and "hd t = CHR ''{''" and "strict_prefix p t"
  shows "json_loads pf p = None"
proof (rule ccontr)
  assume "json_loads pf p \<noteq> None"
  then obtain w r where w: "scan_value pf (Suc (length p)) (skip_ws p) = Some (w, r)" by (auto simp: json_loads_def split: option.splits if_splits)
  obtain x where x: "t = p @ x" "x \<noteq> []" using assms(3) by (auto simp: strict_prefix_def prefix_def)
  have "p \<noteq> []" using scan_nonempty(1) [OF w] by (auto simp: skip_ws_def)
  with assms(2) x(1) have h: "hd p = CHR ''{''" by simp
  then have sp: "skip_ws p = p" using \<open>p \<noteq> []\<close> by (intro skip_ws_not_white) (simp add: json_white_def)
  have le: "Suc (length p) \<le> Suc (length t)" by (simp add: x(1))
  have "scan_value pf (Suc (length t)) (p @ x) = Some (w, r @ x)"
    using scan_stable [of pf "Suc (length p)" "Suc (length t)" x] w le h unfolding sp by blast
  moreover have "scan_value pf (Suc (length t)) (t @ []) = Some (v, [])" using assms(1) by (intro readsD(1)) (simp_all add: ends_token_def)
  ultimately show False using x by simp
qed

lemma json_loads_white:
  assumes "float_texts fr pf" and "json_ok v" and "json_text fr v = Some t" and "list_all json_white w"
  shows "json_loads pf (t @ w) = Some (json_sorted v)"
proof -
  note r = json_reads [OF assms(1-3)]
  have "ends_token w" using assms(4) by (cases w) (auto simp: ends_token_def json_white_def decimal_def)
  then have "scan_value pf (Suc (length (t @ w))) (skip_ws (t @ w)) = Some (json_sorted v, w)"
    unfolding readsD(2) [OF r] by (intro readsD(1) [OF r]) simp_all
  moreover have "skip_ws w = []" using assms(4) by (simp add: skip_ws_def list_all_iff)
  moreover have "utf8_ok w" using assms(4) utf8_ascii [of w "[]"] by (fastforce simp: list_all_iff json_white_def)
  ultimately show ?thesis using utf8_json_text [OF assms(1-3)] by (simp add: json_loads_def utf8_append del: scan_value.simps)
qed

lemma json_loads_prefix:
  assumes "float_texts fr pf" and "json_ok (PDict kvs)" and "json_text fr (PDict kvs) = Some t" and "strict_prefix p t"
  shows "json_loads pf p = None"
  using scan_prefix [OF json_reads [OF assms(1-3)] _ assms(4)] json_dict_Some(2) [OF assms(3)] by simp


text \<open>A decimal text that is read back: numerator and denominator, joined by an exponent mark.\<close>

definition ratio_repr :: "rat \<Rightarrow> string" where
  "ratio_repr r = show_int (fst (quotient_of r)) @ CHR ''e'' # show_int (snd (quotient_of r))"

definition ratio_float :: "string \<Rightarrow> pyfloat" where
  "ratio_float t = Fin (Fract (read_int (takeWhile (\<lambda>c. c \<noteq> CHR ''e'') t)) (read_int (tl (dropWhile (\<lambda>c. c \<noteq> CHR ''e'') t))))"

lemma show_int_chars: "list_all (\<lambda>c. char_byte c < 128 \<and> c \<noteq> CHR ''e'') (show_int i)"
proof -
  have "list_all (\<lambda>c. char_byte c < 128 \<and> c \<noteq> CHR ''e'') (show_nat n)" for n
    using show_nat_digits [of n] by (auto simp: list_all_iff decimal_def)
  then show ?thesis by (simp add: show_int_def)
qed

lemma ratio_texts: "float_texts ratio_repr ratio_float"
  unfolding float_texts_def
proof (intro allI conjI)
  fix r
  obtain a b where q: "quotient_of r = (a, b)" by (cases "quotient_of r")
  have b: "0 < b" by (rule quotient_of_denom_pos [OF q])
  have t: "ratio_repr r = show_int a @ CHR ''e'' # show_int b" by (simp add: ratio_repr_def q)
  have sb: "show_int b = show_nat (nat b)" using b by (simp add: show_int_def)
  have a: "takeWhile (\<lambda>c. c \<noteq> CHR ''e'') (ratio_repr r) = show_int a" "dropWhile (\<lambda>c. c \<noteq> CHR ''e'') (ratio_repr r) = CHR ''e'' # show_int b"
    unfolding t by (rule takeWhile_delim; use show_int_chars [of a] in \<open>simp add: list_all_iff\<close>)+
  show "ratio_float (ratio_repr r) = Fin r" unfolding ratio_float_def a by (simp add: read_show_int Fract_of_int_quotient quotient_of_div [OF q])
  show "list_all (\<lambda>c. char_byte c < 128) (ratio_repr r)"
    using show_int_chars [of a] show_int_chars [of b] by (auto simp: t list_all_iff)
  have d: "takeWhile decimal (show_nat (nat b)) = show_nat (nat b)" "dropWhile decimal (show_nat (nat b)) = []"
    using show_nat_digits [of "nat b"] by simp_all
  obtain c cs where c: "show_nat (nat b) = c # cs" "decimal c"
    using show_nat_head [of "nat b"] show_nat_digits [of "nat b"] by (cases "show_nat (nat b)") auto
  then have "exp_sign (show_nat (nat b)) = []" by (auto simp: exp_sign_def decimal_def)
  then have e: "scan_exp (CHR ''e'' # show_int b) = (CHR ''e'' # show_int b, [])"
    using c d by (simp add: scan_exp_def sb digits_ahead_def)
  have f: "scan_frac (CHR ''e'' # show_int b) = ([], CHR ''e'' # show_int b)" by (simp add: scan_frac_def)
  have n: "scan_nat (show_nat k @ CHR ''e'' # show_int b) = Some (show_nat k, CHR ''e'' # show_int b)" for k
    by (rule scan_show_nat) (simp add: decimal_def)
  have "minus_sign (CHR ''-'' # s) = ''-''" for s by (simp add: minus_sign_def)
  then show "scan_number (ratio_repr r) = Some (ratio_repr r, True, [])"
    using n e f unfolding t scan_number_def show_int_def [of a] by (cases "a < 0") (simp_all add: minus_show_nat Let_def)
qed

lemma ratio_one_line: "one_line (ratio_repr r)"
  by (simp add: ratio_repr_def)

definition sample_json :: pyval where
  "sample_json = PDict [(''b'', PList [PInt (- 12), PFloat (Fin (1 / 2)), PNone]), (''a'', PStr [CHR 0x0A, CHR 0x22])]"


end
