(* ===== verification/Journal_Frame.thy ===== *)
theory Journal_Frame
  imports Domain_Goals Json_Parser "HOL-Library.Sublist" "HOL-Library.Multiset"
begin

text \<open>
  The authenticated transaction frames of \<^verbatim>\<open>src/src/autonomous/journal/frame.py\<close>: typed events,
  sealing with a checksum, an HMAC and the record's own byte length, and the decoder with every check
  in the order of the code. Bytes are characters. SHA-256, HMAC, the text of a float and its
  reader are parameters; what the code relies on is stated in
  \<open>digests_ok\<close> and \<open>floats_ok\<close>. Function arguments have their declared types, so the
  \<open>isinstance\<close> guards of \<open>seal\<close> that a type settles are not repeated; values read from a file are untyped
  and keep all of them.
\<close>

section \<open>Environment and errors\<close>

record frame_env =
  fe_repr :: "rat \<Rightarrow> string"
  fe_sha256 :: "string \<Rightarrow> string"
  fe_hmac :: "string \<Rightarrow> string \<Rightarrow> string"
  fe_float :: "string \<Rightarrow> pyfloat"

text \<open>\<open>json.loads\<close>, with the environment's reader of decimal texts.\<close>

definition fe_loads :: "frame_env \<Rightarrow> string \<Rightarrow> pyval option" where
  "fe_loads fe s = json_loads (fe_float fe) s"

datatype frame_exn =
    FrameValueError string
  | FrameTypeError string
  | FrameOverflowError string
  | FrameRuntimeError string
  | JournalIntegrityError string
  | IncompleteFrameError string

abbreviation FRAME_MAGIC :: string where
  "FRAME_MAGIC \<equiv> ''GHOSTAP-JOURNAL''"

abbreviation COMMIT_MARKER :: string where
  "COMMIT_MARKER \<equiv> ''COMMITTED''"

abbreviation UNCOMMITTED_MARKER :: string where
  "UNCOMMITTED_MARKER \<equiv> ''UNCOMMITTED''"

definition GENESIS_HASH :: string where
  "GENESIS_HASH = replicate 64 (CHR ''0'')"

definition hex_chars :: "char list" where
  "hex_chars = ''0123456789abcdef''"

definition valid_hash_str :: "string \<Rightarrow> bool" where
  "valid_hash_str s \<longleftrightarrow> length s = 64 \<and> list_all (\<lambda>c. c \<in> set hex_chars) s"

fun valid_hash :: "pyval \<Rightarrow> bool" where
  "valid_hash (PStr s) = valid_hash_str s"
| "valid_hash _ = False"

definition require_hmac_key :: "string \<Rightarrow> frame_exn + unit" where
  "require_hmac_key key = guardE (\<not> length key < 32) (FrameValueError ''journal hmac key must be at least 32 bytes'')"

definition canonical_json :: "frame_env \<Rightarrow> pyval \<Rightarrow> frame_exn + string" where
  "canonical_json fe v = (case json_text (fe_repr fe) v of
     None \<Rightarrow> Inl (FrameValueError ''not JSON serializable'') | Some t \<Rightarrow> Inr t)"

section \<open>Events\<close>

record journal_event =
  je_event_type :: string
  je_aggregate_id :: string
  je_payload :: pydict
  je_timestamp :: timestamp
  je_payload_hash :: string

fun nonempty_str :: "pyval \<Rightarrow> string \<Rightarrow> frame_exn + string" where
  "nonempty_str (PStr s) msg = (if s = [] then Inl (FrameValueError msg) else Inr s)"
| "nonempty_str _ msg = Inl (FrameValueError msg)"

fun mapping_items :: "pyval \<Rightarrow> frame_exn + pydict" where
  "mapping_items (PDict d) = Inr d"
| "mapping_items (PProxy d) = Inr d"
| "mapping_items _ = Inl (FrameValueError ''payload must be a mapping'')"

text \<open>A number that is no boolean, as a finite float; an integer too large for a float overflows.\<close>

fun finite_timestamp :: "pyval \<Rightarrow> frame_exn \<Rightarrow> frame_exn + timestamp" where
  "finite_timestamp (PInt i) e = (case to_float (of_int i) of
     Fin r \<Rightarrow> Inr r | _ \<Rightarrow> Inl (FrameOverflowError ''int too large to convert to float''))"
| "finite_timestamp (PFloat (Fin r)) e = Inr r"
| "finite_timestamp _ e = Inl e"

definition ascii :: "string \<Rightarrow> bool" where
  "ascii s \<longleftrightarrow> list_all (\<lambda>c. of_char c < (128 :: nat)) s"

text \<open>\<open>hmac.compare_digest\<close> on a value and a digest: only ASCII strings can be compared.\<close>

fun compare_digest :: "pyval \<Rightarrow> string \<Rightarrow> frame_exn + bool" where
  "compare_digest (PStr s) h = (if ascii s \<and> ascii h then Inr (s = h)
     else Inl (FrameTypeError ''comparing strings with non-ASCII characters is not supported''))"
| "compare_digest _ h = Inl (FrameTypeError ''unsupported operand types'')"

definition event_init ::
  "frame_env \<Rightarrow> pyval \<Rightarrow> pyval \<Rightarrow> pyval \<Rightarrow> pyval \<Rightarrow> pyval \<Rightarrow> frame_exn + journal_event" where
  "event_init fe event_type aggregate_id payload timestamp payload_hash =
     bindE (nonempty_str event_type ''event_type must be a non-empty string'') (\<lambda>ty.
     bindE (nonempty_str aggregate_id ''aggregate_id must be a non-empty string'') (\<lambda>ag.
     bindE (mapping_items payload) (\<lambda>d.
     bindE (finite_timestamp timestamp (FrameValueError ''timestamp must be finite'')) (\<lambda>ts.
     bindE (canonical_json fe (PDict d)) (\<lambda>text.
     let computed = fe_sha256 fe text
     in bindE (if py_truthy payload_hash then compare_digest payload_hash computed else Inr True) (\<lambda>same.
        if same then Inr \<lparr>je_event_type = ty, je_aggregate_id = ag, je_payload = d, je_timestamp = ts,
                          je_payload_hash = computed\<rparr>
        else Inl (FrameValueError ''event payload hash mismatch'')))))))"

definition event_to_dict :: "journal_event \<Rightarrow> pydict" where
  "event_to_dict e =
     [(''event_type'', PStr (je_event_type e)),
      (''aggregate_id'', PStr (je_aggregate_id e)),
      (''payload'', PDict (je_payload e)),
      (''timestamp'', PFloat (Fin (je_timestamp e))),
      (''payload_hash'', PStr (je_payload_hash e))]"

definition field_of :: "pydict \<Rightarrow> string \<Rightarrow> pyval" where
  "field_of d k = (case dget d k of None \<Rightarrow> PNone | Some v \<Rightarrow> v)"

fun event_error :: "frame_exn + 'a \<Rightarrow> frame_exn + 'a" where
  "event_error (Inl (FrameValueError m)) = Inl (JournalIntegrityError m)"
| "event_error (Inl (FrameTypeError m)) = Inl (JournalIntegrityError m)"
| "event_error r = r"

definition event_fields :: "string list" where
  "event_fields = [''event_type'', ''aggregate_id'', ''payload'', ''timestamp'', ''payload_hash'']"

definition event_from_dict :: "frame_env \<Rightarrow> pyval \<Rightarrow> frame_exn + journal_event" where
  "event_from_dict fe value =
     (case value of
        PDict d \<Rightarrow>
          if set (dkeys d) \<noteq> set event_fields then Inl (JournalIntegrityError ''invalid journal event envelope'')
          else event_error (event_init fe (field_of d ''event_type'') (field_of d ''aggregate_id'')
                 (field_of d ''payload'') (field_of d ''timestamp'') (field_of d ''payload_hash''))
      | _ \<Rightarrow> Inl (JournalIntegrityError ''invalid journal event envelope''))"

section \<open>Version maps\<close>

fun version_item :: "string \<Rightarrow> string \<times> pyval \<Rightarrow> frame_exn + string \<times> int" where
  "version_item field (key, PInt version) =
     (if key = [] \<or> version < 0 then Inl (JournalIntegrityError (''invalid '' @ field)) else Inr (key, version))"
| "version_item field _ = Inl (JournalIntegrityError (''invalid '' @ field))"

definition version_map :: "pyval \<Rightarrow> string \<Rightarrow> frame_exn + (string, int) dict" where
  "version_map value field =
     (case value of PDict d \<Rightarrow> mapE (version_item field) d
                  | _ \<Rightarrow> Inl (JournalIntegrityError (field @ '' must be a mapping'')))"

definition versions_val :: "(string, int) dict \<Rightarrow> pyval" where
  "versions_val m = PDict (map (map_prod id PInt) m)"

section \<open>Digests and the record\<close>

definition security_payload :: "pydict \<Rightarrow> pydict" where
  "security_payload d = filter (\<lambda>kv. fst kv \<notin> {''checksum'', ''hmac_digest''}) d"

definition hmac_payload :: "pydict \<Rightarrow> pydict" where
  "hmac_payload d = filter (\<lambda>kv. fst kv \<noteq> ''hmac_digest'') d"

definition with_digests :: "frame_env \<Rightarrow> pydict \<Rightarrow> string \<Rightarrow> frame_exn + pydict" where
  "with_digests fe envelope key =
     bindE (canonical_json fe (PDict (security_payload envelope))) (\<lambda>text.
     let secured = dset envelope ''checksum'' (PStr (fe_sha256 fe text))
     in bindE (canonical_json fe (PDict (hmac_payload secured))) (\<lambda>signed.
        Inr (dset secured ''hmac_digest'' (PStr (fe_hmac fe key signed)))))"

definition newline :: string where
  "newline = [CHR 0x0A]"

text \<open>
  The \<open>for\<close> loop of \<open>_encode_with_stable_length\<close> with its remaining iterations; the candidate that was
  serialized is returned with its record.
\<close>

fun stable_length_loop :: "frame_env \<Rightarrow> pydict \<Rightarrow> string \<Rightarrow> nat \<Rightarrow> nat \<Rightarrow> frame_exn + pydict \<times> string" where
  "stable_length_loop fe envelope key 0 len =
     Inl (FrameRuntimeError ''failed to stabilize transaction frame length'')"
| "stable_length_loop fe envelope key (Suc n) len =
     bindE (with_digests fe (dset envelope ''byte_length'' (PInt (int len))) key) (\<lambda>candidate.
     bindE (canonical_json fe (PDict candidate)) (\<lambda>text.
     if Suc (length text) = len then Inr (candidate, text @ newline)
     else stable_length_loop fe envelope key n (Suc (length text))))"

definition encode_with_stable_length :: "frame_env \<Rightarrow> pydict \<Rightarrow> string \<Rightarrow> frame_exn + string" where
  "encode_with_stable_length fe envelope key = bindE (stable_length_loop fe envelope key 8 0) (\<lambda>(candidate, r). Inr r)"

record transaction_frame =
  tf_magic :: string
  tf_schema_version :: pyval
  tf_byte_length :: int
  tf_commit_marker :: string
  tf_committed :: bool
  tf_tx_id :: string
  tf_sequence :: int
  tf_writer_epoch :: int
  tf_timestamp :: timestamp
  tf_expected_versions :: "(string, int) dict"
  tf_aggregate_versions :: "(string, int) dict"
  tf_previous_hash :: string
  tf_events :: "journal_event list"
  tf_checksum :: string
  tf_hmac_digest :: string
  tf_record :: string

definition record_hash :: "frame_env \<Rightarrow> string \<Rightarrow> string" where
  "record_hash fe r = fe_sha256 fe r"

definition frame_hash :: "frame_env \<Rightarrow> transaction_frame \<Rightarrow> string" where
  "frame_hash fe f = record_hash fe (tf_record f)"

section \<open>Decoding\<close>

definition frame_fields :: "string list" where
  "frame_fields = [''magic'', ''schema_version'', ''byte_length'', ''commit_marker'', ''committed'', ''tx_id'',
     ''sequence'', ''writer_epoch'', ''timestamp'', ''expected_versions'', ''aggregate_versions'',
     ''previous_hash'', ''events'', ''checksum'', ''hmac_digest'']"

definition ends_newline :: "string \<Rightarrow> bool" where
  "ends_newline r \<longleftrightarrow> r \<noteq> [] \<and> last r = CHR 0x0A"

text \<open>Python's \<open>==\<close> with the integer one: \<open>True\<close> and \<open>1.0\<close> equal it.\<close>

fun equals_one :: "pyval \<Rightarrow> bool" where
  "equals_one (PInt i) = (i = 1)"
| "equals_one (PBool b) = b"
| "equals_one (PFloat f) = (f = Fin 1)"
| "equals_one _ = False"

fun int_at_least :: "int \<Rightarrow> pyval \<Rightarrow> frame_exn \<Rightarrow> frame_exn + int" where
  "int_at_least m (PInt i) e = (if i < m then Inl e else Inr i)"
| "int_at_least m _ e = Inl e"

fun the_str :: "pyval \<Rightarrow> string" where
  "the_str (PStr s) = s"
| "the_str _ = []"

fun as_bool :: "pyval \<Rightarrow> frame_exn + bool" where
  "as_bool (PBool b) = Inr b"
| "as_bool _ = Inl (JournalIntegrityError ''committed must be boolean'')"

fun as_events :: "frame_env \<Rightarrow> pyval \<Rightarrow> frame_exn + journal_event list" where
  "as_events fe (PList vs) = (if vs = [] then Inl (JournalIntegrityError ''invalid events'')
     else mapE (event_from_dict fe) vs)"
| "as_events fe _ = Inl (JournalIntegrityError ''invalid events'')"

definition parse_record :: "frame_env \<Rightarrow> string \<Rightarrow> frame_exn + pydict" where
  "parse_record fe r =
     (case fe_loads fe r of
        None \<Rightarrow> Inl (if ends_newline r then JournalIntegrityError ''malformed committed transaction frame''
                     else IncompleteFrameError ''truncated transaction frame'')
      | Some (PDict d) \<Rightarrow> Inr d
      | Some _ \<Rightarrow> Inl (JournalIntegrityError ''transaction frame must be an object''))"

definition check_length :: "string \<Rightarrow> int \<Rightarrow> frame_exn + unit" where
  "check_length r byte_length =
     (if int (length r) \<noteq> byte_length
      then Inl (if int (length r) < byte_length \<and> \<not> ends_newline r
                then IncompleteFrameError ''transaction frame length is incomplete''
                else JournalIntegrityError ''transaction frame length mismatch'')
      else Inr ())"

definition check_digests :: "frame_env \<Rightarrow> pydict \<Rightarrow> string \<Rightarrow> frame_exn + unit" where
  "check_digests fe d key =
     bindE (guardE (valid_hash (field_of d ''checksum'') \<and> valid_hash (field_of d ''hmac_digest''))
        (JournalIntegrityError ''invalid frame digest'')) (\<lambda>_.
     bindE (canonical_json fe (PDict (security_payload d))) (\<lambda>text.
     bindE (compare_digest (field_of d ''checksum'') (fe_sha256 fe text)) (\<lambda>same.
     bindE (guardE same (JournalIntegrityError ''transaction frame checksum mismatch'')) (\<lambda>_.
     bindE (canonical_json fe (PDict (hmac_payload d))) (\<lambda>signed.
     bindE (compare_digest (field_of d ''hmac_digest'') (fe_hmac fe key signed)) (\<lambda>same.
     guardE same (JournalIntegrityError ''transaction frame hmac mismatch'')))))))"

definition decode_frame :: "frame_env \<Rightarrow> string \<Rightarrow> string \<Rightarrow> bool \<Rightarrow> frame_exn + transaction_frame" where
  "decode_frame fe r key allow_uncommitted =
     bindE (require_hmac_key key) (\<lambda>_.
     bindE (guardE (r \<noteq> []) (IncompleteFrameError ''empty or truncated transaction frame'')) (\<lambda>_.
     bindE (parse_record fe r) (\<lambda>d.
     bindE (guardE (set (dkeys d) = set frame_fields) (JournalIntegrityError ''invalid transaction frame fields'')) (\<lambda>_.
     bindE (guardE (field_of d ''magic'' = PStr FRAME_MAGIC) (JournalIntegrityError ''invalid transaction frame magic'')) (\<lambda>_.
     bindE (guardE (equals_one (field_of d ''schema_version'')) (JournalIntegrityError ''unsupported transaction frame schema'')) (\<lambda>_.
     bindE (as_bool (field_of d ''committed'')) (\<lambda>committed.
     let marker = (if committed then COMMIT_MARKER else UNCOMMITTED_MARKER)
     in bindE (guardE (field_of d ''commit_marker'' = PStr marker) (JournalIntegrityError ''invalid commit marker'')) (\<lambda>_.
     bindE (guardE (the_str (field_of d ''tx_id'') \<noteq> []) (JournalIntegrityError ''invalid tx_id'')) (\<lambda>_.
     bindE (int_at_least 1 (field_of d ''sequence'') (JournalIntegrityError ''invalid sequence'')) (\<lambda>sequence.
     bindE (int_at_least 0 (field_of d ''writer_epoch'') (JournalIntegrityError ''invalid writer_epoch'')) (\<lambda>epoch.
     bindE (finite_timestamp (field_of d ''timestamp'') (JournalIntegrityError ''invalid timestamp'')) (\<lambda>timestamp.
     bindE (int_at_least 1 (field_of d ''byte_length'') (JournalIntegrityError ''invalid byte length'')) (\<lambda>byte_length.
     bindE (check_length r byte_length) (\<lambda>_.
     bindE (version_map (field_of d ''expected_versions'') ''expected_versions'') (\<lambda>expected.
     bindE (version_map (field_of d ''aggregate_versions'') ''aggregate_versions'') (\<lambda>aggregate.
     bindE (guardE (valid_hash (field_of d ''previous_hash'')) (JournalIntegrityError ''invalid previous_hash'')) (\<lambda>_.
     bindE (as_events fe (field_of d ''events'')) (\<lambda>events.
     bindE (check_digests fe d key) (\<lambda>_.
     bindE (guardE (ends_newline r) (IncompleteFrameError ''transaction frame is missing delimiter'')) (\<lambda>_.
     bindE (guardE (committed \<or> allow_uncommitted) (IncompleteFrameError ''transaction frame is not committed'')) (\<lambda>_.
     Inr \<lparr>tf_magic = FRAME_MAGIC, tf_schema_version = field_of d ''schema_version'', tf_byte_length = byte_length,
          tf_commit_marker = marker, tf_committed = committed, tf_tx_id = the_str (field_of d ''tx_id''),
          tf_sequence = sequence, tf_writer_epoch = epoch, tf_timestamp = timestamp,
          tf_expected_versions = expected, tf_aggregate_versions = aggregate,
          tf_previous_hash = the_str (field_of d ''previous_hash''), tf_events = events,
          tf_checksum = the_str (field_of d ''checksum''), tf_hmac_digest = the_str (field_of d ''hmac_digest''),
          tf_record = r\<rparr>)))))))))))))))))))))"

section \<open>Sealing\<close>

record frame_args =
  fa_tx_id :: string
  fa_sequence :: int
  fa_writer_epoch :: int
  fa_timestamp :: timestamp
  fa_expected :: "(string, int) dict"
  fa_aggregate :: "(string, int) dict"
  fa_previous_hash :: string
  fa_events :: "journal_event list"
  fa_committed :: bool

definition frame_envelope :: "frame_args \<Rightarrow> pydict" where
  "frame_envelope a =
     [(''magic'', PStr FRAME_MAGIC),
      (''schema_version'', PInt 1),
      (''byte_length'', PInt 0),
      (''commit_marker'', PStr (if fa_committed a then COMMIT_MARKER else UNCOMMITTED_MARKER)),
      (''committed'', PBool (fa_committed a)),
      (''tx_id'', PStr (fa_tx_id a)),
      (''sequence'', PInt (fa_sequence a)),
      (''writer_epoch'', PInt (fa_writer_epoch a)),
      (''timestamp'', PFloat (Fin (fa_timestamp a))),
      (''expected_versions'', versions_val (fa_expected a)),
      (''aggregate_versions'', versions_val (fa_aggregate a)),
      (''previous_hash'', PStr (fa_previous_hash a)),
      (''events'', PList (map (\<lambda>e. PDict (event_to_dict e)) (fa_events a)))]"

definition seal :: "frame_env \<Rightarrow> frame_args \<Rightarrow> string \<Rightarrow> frame_exn + transaction_frame" where
  "seal fe a key =
     bindE (require_hmac_key key) (\<lambda>_.
     bindE (guardE (fa_tx_id a \<noteq> []) (FrameValueError ''tx_id must be a non-empty string'')) (\<lambda>_.
     bindE (guardE (1 \<le> fa_sequence a) (FrameValueError ''sequence must be a positive integer'')) (\<lambda>_.
     bindE (guardE (0 \<le> fa_writer_epoch a) (FrameValueError ''writer_epoch must be a non-negative integer'')) (\<lambda>_.
     bindE (guardE (valid_hash_str (fa_previous_hash a)) (FrameValueError ''previous_hash must be sha256 hex'')) (\<lambda>_.
     bindE (guardE (fa_events a \<noteq> []) (FrameValueError ''events must be a non-empty tuple'')) (\<lambda>_.
     bindE (version_map (versions_val (fa_expected a)) ''expected_versions'') (\<lambda>expected.
     bindE (version_map (versions_val (fa_aggregate a)) ''aggregate_versions'') (\<lambda>aggregate.
     bindE (encode_with_stable_length fe (frame_envelope (a\<lparr>fa_expected := expected, fa_aggregate := aggregate\<rparr>)) key) (\<lambda>r.
     decode_frame fe r key True)))))))))"

declare json_text.simps(8) [simp del] json_sorted.simps(8) [simp del]

section \<open>What the code relies on\<close>

definition digests_ok :: "frame_env \<Rightarrow> bool" where
  "digests_ok fe \<longleftrightarrow> (\<forall>s. valid_hash_str (fe_sha256 fe s)) \<and> (\<forall>k s. valid_hash_str (fe_hmac fe k s)) \<and>
     (\<forall>r. one_line (fe_repr fe r))"

definition reads_back :: "frame_env \<Rightarrow> string \<Rightarrow> pyval \<Rightarrow> bool" where
  "reads_back fe t v \<longleftrightarrow> fe_loads fe (t @ newline) = Some (json_sorted v) \<and> fe_loads fe t = Some (json_sorted v) \<and>
     (\<forall>p. strict_prefix p t \<longrightarrow> fe_loads fe p = None)"

section \<open>Events round trip\<close>

definition event_ok :: "frame_env \<Rightarrow> journal_event \<Rightarrow> bool" where
  "event_ok fe e \<longleftrightarrow> je_event_type e \<noteq> [] \<and> je_aggregate_id e \<noteq> [] \<and>
     (\<exists>t. json_text (fe_repr fe) (PDict (je_payload e)) = Some t \<and> je_payload_hash e = fe_sha256 fe t)"

definition sorted_items :: "pydict \<Rightarrow> pydict" where
  "sorted_items d = sort_key fst (map (map_prod id json_sorted) d)"

definition norm_event :: "journal_event \<Rightarrow> journal_event" where
  "norm_event e = e\<lparr>je_payload := sorted_items (je_payload e)\<rparr>"

lemma json_sorted_dict: "json_sorted (PDict d) = PDict (sorted_items d)"
  by (simp add: sorted_items_def json_sorted.simps)

lemma event_init_ok: "event_init fe ty ag pl ts ph = Inr e \<Longrightarrow> event_ok fe e"
  by (auto simp: event_init_def event_ok_def bindE_Inr_iff canonical_json_def Let_def
      elim!: nonempty_str.elims split: option.splits if_splits)

lemma hex_ascii: "c \<in> set hex_chars \<Longrightarrow> of_char c < (128 :: nat)"
  by (auto simp: hex_chars_def)

lemma valid_hash_ascii: "valid_hash_str s \<Longrightarrow> ascii s"
  by (auto simp: valid_hash_str_def ascii_def list_all_iff dest: hex_ascii)

lemma dkeys_sorted_items [simp]: "fst ` set (sorted_items d) = fst ` set d"
  by (simp add: sorted_items_def image_image)

lemma event_field_of:
  "field_of (event_to_dict e) ''event_type'' = PStr (je_event_type e)"
  "field_of (event_to_dict e) ''aggregate_id'' = PStr (je_aggregate_id e)"
  "field_of (event_to_dict e) ''payload'' = PDict (je_payload e)"
  "field_of (event_to_dict e) ''timestamp'' = PFloat (Fin (je_timestamp e))"
  "field_of (event_to_dict e) ''payload_hash'' = PStr (je_payload_hash e)"
  by (simp_all add: event_to_dict_def field_of_def)

lemma field_of_sorted_items:
  assumes "dict_ok d" and "k \<in> set (dkeys d)"
  shows "field_of (sorted_items d) k = json_sorted (field_of d k)"
proof -
  have "distinct (map fst (map (map_prod id json_sorted) d))"
    using assms(1) by (simp add: dict_ok_def comp_def)
  then have "dget (sorted_items d) k = map_option json_sorted (dget d k)"
    by (simp add: sorted_items_def dget_sort map_prod_def map_of_map)
  moreover from assms(2) have "dget d k \<noteq> None" by (simp add: map_of_eq_None_iff)
  ultimately show ?thesis by (auto simp: field_of_def)
qed

lemma event_codec:
  assumes "event_ok fe e" and "digests_ok fe"
  shows "event_from_dict fe (json_sorted (PDict (event_to_dict e))) = Inr (norm_event e)"
proof -
  obtain t where t: "json_text (fe_repr fe) (PDict (je_payload e)) = Some t" "je_payload_hash e = fe_sha256 fe t"
    using assms(1) by (auto simp: event_ok_def)
  have ok: "dict_ok (event_to_dict e)" by (simp add: dict_ok_def event_to_dict_def)
  have keys: "dkeys (event_to_dict e) = event_fields" by (simp add: event_to_dict_def event_fields_def)
  have jt: "json_text (fe_repr fe) (PDict (sorted_items (je_payload e))) = Some t"
    using t(1) json_text_sorted [of "fe_repr fe" "PDict (je_payload e)"] by (simp add: json_sorted_dict)
  have fields: "field_of (sorted_items (event_to_dict e)) k = json_sorted (field_of (event_to_dict e) k)"
    if "k \<in> set event_fields" for k
    using field_of_sorted_items [OF ok] that by (simp only: keys)
  have hash: "ascii (fe_sha256 fe t)" using assms(2) by (simp add: digests_ok_def valid_hash_ascii)
  have ev: "event_init fe (PStr (je_event_type e)) (PStr (je_aggregate_id e))
      (json_sorted (PDict (je_payload e))) (PFloat (Fin (je_timestamp e))) (PStr (je_payload_hash e)) = Inr (norm_event e)"
    using assms(1) jt hash t(2)
    by (cases e) (auto simp: json_sorted_dict event_init_def canonical_json_def event_ok_def norm_event_def Let_def)
  have "fst ` set (sorted_items (event_to_dict e)) = set event_fields" by (simp flip: keys)
  then show ?thesis using ev
    by (simp add: json_sorted_dict [of "event_to_dict e"] event_from_dict_def fields event_field_of event_fields_def)
qed

lemma version_item_ok: "version_item f (k, PInt v) = Inr (k, v) \<longleftrightarrow> k \<noteq> [] \<and> 0 \<le> v"
  by auto

definition versions_ok :: "(string, int) dict \<Rightarrow> bool" where
  "versions_ok m \<longleftrightarrow> dict_ok m \<and> list_all (\<lambda>kv. fst kv \<noteq> [] \<and> 0 \<le> snd kv) m"

lemma version_map_ok: "list_all (\<lambda>kv. fst kv \<noteq> [] \<and> 0 \<le> snd kv) m \<Longrightarrow> version_map (versions_val m) f = Inr m"
  by (induction m) (auto simp: version_map_def versions_val_def)

lemma sorted_versions: "json_sorted (versions_val m) = versions_val (sort_key fst m)"
proof -
  have "map (map_prod id json_sorted) (map (map_prod id PInt) m) = map (map_prod id PInt) m" by auto
  then show ?thesis unfolding versions_val_def json_sorted.simps sort_map_snd by simp
qed

section \<open>The sealed record\<close>

definition env_len :: "frame_args \<Rightarrow> nat \<Rightarrow> pydict" where
  "env_len a n = dset (frame_envelope a) ''byte_length'' (PInt (int n))"

definition sealed_envelope :: "frame_args \<Rightarrow> nat \<Rightarrow> string \<Rightarrow> string \<Rightarrow> pydict" where
  "sealed_envelope a n c h = env_len a n @ [(''checksum'', PStr c), (''hmac_digest'', PStr h)]"

definition args_ok :: "frame_env \<Rightarrow> frame_args \<Rightarrow> bool" where
  "args_ok fe a \<longleftrightarrow> fa_tx_id a \<noteq> [] \<and> 1 \<le> fa_sequence a \<and> 0 \<le> fa_writer_epoch a \<and>
     valid_hash_str (fa_previous_hash a) \<and> fa_events a \<noteq> [] \<and> versions_ok (fa_expected a) \<and>
     versions_ok (fa_aggregate a) \<and> list_all (event_ok fe) (fa_events a)"

lemma env_len_eq:
  "env_len a n =
     [(''magic'', PStr FRAME_MAGIC),
      (''schema_version'', PInt 1),
      (''byte_length'', PInt (int n)),
      (''commit_marker'', PStr (if fa_committed a then COMMIT_MARKER else UNCOMMITTED_MARKER)),
      (''committed'', PBool (fa_committed a)),
      (''tx_id'', PStr (fa_tx_id a)),
      (''sequence'', PInt (fa_sequence a)),
      (''writer_epoch'', PInt (fa_writer_epoch a)),
      (''timestamp'', PFloat (Fin (fa_timestamp a))),
      (''expected_versions'', versions_val (fa_expected a)),
      (''aggregate_versions'', versions_val (fa_aggregate a)),
      (''previous_hash'', PStr (fa_previous_hash a)),
      (''events'', PList (map (\<lambda>e. PDict (event_to_dict e)) (fa_events a)))]"
  by (simp add: env_len_def frame_envelope_def dset_def)

lemma dkeys_sealed: "dkeys (sealed_envelope a n c h) = frame_fields"
  by (simp add: sealed_envelope_def env_len_eq frame_fields_def)

lemma sealed_fields:
  "field_of (sealed_envelope a n c h) ''magic'' = PStr FRAME_MAGIC"
  "field_of (sealed_envelope a n c h) ''schema_version'' = PInt 1"
  "field_of (sealed_envelope a n c h) ''byte_length'' = PInt (int n)"
  "field_of (sealed_envelope a n c h) ''commit_marker'' = PStr (if fa_committed a then COMMIT_MARKER else UNCOMMITTED_MARKER)"
  "field_of (sealed_envelope a n c h) ''committed'' = PBool (fa_committed a)"
  "field_of (sealed_envelope a n c h) ''tx_id'' = PStr (fa_tx_id a)"
  "field_of (sealed_envelope a n c h) ''sequence'' = PInt (fa_sequence a)"
  "field_of (sealed_envelope a n c h) ''writer_epoch'' = PInt (fa_writer_epoch a)"
  "field_of (sealed_envelope a n c h) ''timestamp'' = PFloat (Fin (fa_timestamp a))"
  "field_of (sealed_envelope a n c h) ''expected_versions'' = versions_val (fa_expected a)"
  "field_of (sealed_envelope a n c h) ''aggregate_versions'' = versions_val (fa_aggregate a)"
  "field_of (sealed_envelope a n c h) ''previous_hash'' = PStr (fa_previous_hash a)"
  "field_of (sealed_envelope a n c h) ''events'' = PList (map (\<lambda>e. PDict (event_to_dict e)) (fa_events a))"
  "field_of (sealed_envelope a n c h) ''checksum'' = PStr c"
  "field_of (sealed_envelope a n c h) ''hmac_digest'' = PStr h"
  by (simp_all add: sealed_envelope_def env_len_eq field_of_def)

lemma security_sealed: "security_payload (sealed_envelope a n c h) = env_len a n"
  "security_payload (env_len a n) = env_len a n"
  by (simp_all add: sealed_envelope_def env_len_eq security_payload_def)

lemma hmac_sealed: "hmac_payload (sealed_envelope a n c h) = env_len a n @ [(''checksum'', PStr c)]"
  "hmac_payload (env_len a n @ [(''checksum'', PStr c)]) = env_len a n @ [(''checksum'', PStr c)]"
  by (simp_all add: sealed_envelope_def env_len_eq hmac_payload_def)

lemma dset_checksum: "dset (env_len a n) ''checksum'' v = env_len a n @ [(''checksum'', v)]"
  by (rule dset_append_new) (simp add: env_len_eq)

lemma dset_hmac: "dset (env_len a n @ [(''checksum'', v)]) ''hmac_digest'' w =
    env_len a n @ [(''checksum'', v), (''hmac_digest'', w)]"
  by (subst dset_append_new) (simp_all add: env_len_eq)

lemma json_list_None:
  "json_text fr (PList vs) = None \<longleftrightarrow> (\<exists>v \<in> set vs. json_text fr v = None)"
proof -
  have "json_text fr (PList vs) \<noteq> None \<longleftrightarrow> (\<forall>v \<in> set vs. json_text fr v \<noteq> None)"
    by (force simp: those_map_Some not_None_eq)
  then show ?thesis by (metis (no_types))
qed

lemma event_json: "event_ok fe e \<Longrightarrow> json_text (fe_repr fe) (PDict (event_to_dict e)) \<noteq> None"
  by (subst json_dict_None) (auto simp: event_to_dict_def event_ok_def)

lemma versions_json: "json_text fr (versions_val m) \<noteq> None"
  by (auto simp: versions_val_def json_dict_None)

lemma env_json:
  assumes "list_all (event_ok fe) (fa_events a)" and "kv \<in> set (env_len a n)"
  shows "json_text (fe_repr fe) (snd kv) \<noteq> None"
proof -
  have "json_text (fe_repr fe) (PList (map (\<lambda>e. PDict (event_to_dict e)) (fa_events a))) \<noteq> None"
    unfolding json_list_None using assms(1) by (force simp: list_all_iff dest: event_json)
  with assms(2) versions_json show ?thesis by (force simp: env_len_eq simp del: json_text.simps(6))
qed

lemma canonical_Some:
  assumes "\<forall>kv \<in> set d. json_text (fe_repr fe) (snd kv) \<noteq> None"
  obtains t where "json_text (fe_repr fe) (PDict d) = Some t" "canonical_json fe (PDict d) = Inr t"
  using assms json_dict_None [of "fe_repr fe" d] by (fastforce simp: canonical_json_def)

lemma with_digests_sealed:
  assumes "list_all (event_ok fe) (fa_events a)" and "digests_ok fe"
  obtains c h t s u where "with_digests fe (env_len a n) key = Inr (sealed_envelope a n c h)"
    and "canonical_json fe (PDict (env_len a n)) = Inr s" and "c = fe_sha256 fe s"
    and "canonical_json fe (PDict (env_len a n @ [(''checksum'', PStr c)])) = Inr u" and "h = fe_hmac fe key u"
    and "canonical_json fe (PDict (sealed_envelope a n c h)) = Inr t"
    and "json_text (fe_repr fe) (PDict (sealed_envelope a n c h)) = Some t"
    and "valid_hash_str c" and "valid_hash_str h"
proof -
  have d: "\<forall>kv \<in> set (env_len a n). json_text (fe_repr fe) (snd kv) \<noteq> None"
    using env_json [OF assms(1)] by blast
  obtain s where s: "canonical_json fe (PDict (env_len a n)) = Inr s" using canonical_Some [OF d] by blast
  define c where "c = fe_sha256 fe s"
  from d have "\<forall>kv \<in> set (env_len a n @ [(''checksum'', PStr c)]). json_text (fe_repr fe) (snd kv) \<noteq> None" by auto
  then obtain u where u: "canonical_json fe (PDict (env_len a n @ [(''checksum'', PStr c)])) = Inr u"
    using canonical_Some by blast
  define h where "h = fe_hmac fe key u"
  from d have "\<forall>kv \<in> set (sealed_envelope a n c h). json_text (fe_repr fe) (snd kv) \<noteq> None"
    by (auto simp: sealed_envelope_def)
  then obtain t where t: "json_text (fe_repr fe) (PDict (sealed_envelope a n c h)) = Some t"
    "canonical_json fe (PDict (sealed_envelope a n c h)) = Inr t" using canonical_Some by blast
  have "with_digests fe (env_len a n) key = Inr (sealed_envelope a n c h)"
    using s u by (simp add: with_digests_def security_sealed dset_checksum hmac_sealed dset_hmac Let_def
        flip: c_def, simp add: sealed_envelope_def h_def)
  moreover have "valid_hash_str c" "valid_hash_str h" using assms(2) by (simp_all add: digests_ok_def c_def h_def)
  ultimately show thesis using that s u t c_def h_def by blast
qed

section \<open>The length is found\<close>

lemma hex_escape: "c \<in> set hex_chars \<Longrightarrow> json_escape c = [c]"
  by (auto simp: hex_chars_def json_escape_def)

lemma length_hash_string: "valid_hash_str s \<Longrightarrow> length (json_string s) = 66"
proof -
  assume v: "valid_hash_str s"
  then have "map json_escape s = map (\<lambda>c. [c]) s"
    by (auto simp: valid_hash_str_def list_all_iff hex_escape)
  then have "concat (map json_escape s) = s" by (simp only: concat_map_singleton) simp
  then show ?thesis using v by (simp add: json_string_def valid_hash_str_def)
qed

definition record_base :: "frame_env \<Rightarrow> frame_args \<Rightarrow> nat" where
  "record_base fe a = sum_list (map (item_length (fe_repr fe)) (filter (\<lambda>kv. fst kv \<noteq> ''byte_length'') (frame_envelope a))) +
     item_length (fe_repr fe) (''checksum'', PStr GENESIS_HASH) + item_length (fe_repr fe) (''hmac_digest'', PStr GENESIS_HASH) + 17"

lemma valid_genesis [simp]: "valid_hash_str GENESIS_HASH"
  by (simp add: valid_hash_str_def GENESIS_HASH_def hex_chars_def list_all_iff)

lemma record_length:
  assumes "json_text (fe_repr fe) (PDict (sealed_envelope a n c h)) = Some t"
    and "valid_hash_str c" and "valid_hash_str h"
  shows "Suc (length t) = record_base fe a + digits n"
proof -
  have "sealed_envelope a n c h \<noteq> []" by (simp add: sealed_envelope_def)
  from length_json_dict [OF assms(1) this] show ?thesis
    using length_hash_string [OF assms(2)] length_hash_string [OF assms(3)] length_hash_string [OF valid_genesis]
    by (simp add: sealed_envelope_def env_len_eq record_base_def frame_envelope_def item_length_def show_int_def
        json_string_def json_escape_def)
qed

lemma stable_length_step:
  assumes "with_digests fe (env_len a n) key = Inr d" and "canonical_json fe (PDict d) = Inr t"
  shows "stable_length_loop fe (frame_envelope a) key (Suc k) n =
    (if Suc (length t) = n then Inr (d, t @ newline) else stable_length_loop fe (frame_envelope a) key k (Suc (length t)))"
  using assms by (simp add: env_len_def)

text \<open>The self-describing length is found: the loop never runs out of its eight iterations.\<close>

lemma encode_total:
  assumes ev: "list_all (event_ok fe) (fa_events a)" and dg: "digests_ok fe"
  obtains n t c h s u where "stable_length_loop fe (frame_envelope a) key 8 0 = Inr (sealed_envelope a n c h, t @ newline)"
    and "Suc (length t) = n"
    and "canonical_json fe (PDict (env_len a n)) = Inr s" and "c = fe_sha256 fe s"
    and "canonical_json fe (PDict (env_len a n @ [(''checksum'', PStr c)])) = Inr u" and "h = fe_hmac fe key u"
    and "json_text (fe_repr fe) (PDict (sealed_envelope a n c h)) = Some t"
    and "valid_hash_str c" and "valid_hash_str h"
proof -
  let ?K = "record_base fe a"
  let ?loop = "stable_length_loop fe (frame_envelope a) key"
  have ex: "\<exists>d t. (\<forall>k. ?loop (Suc k) n = (if ?K + digits n = n then Inr (d, t @ newline) else ?loop k (?K + digits n))) \<and>
      (\<exists>c h s u. d = sealed_envelope a n c h \<and> canonical_json fe (PDict (env_len a n)) = Inr s \<and> c = fe_sha256 fe s \<and>
        canonical_json fe (PDict (env_len a n @ [(''checksum'', PStr c)])) = Inr u \<and> h = fe_hmac fe key u \<and>
        json_text (fe_repr fe) (PDict (sealed_envelope a n c h)) = Some t \<and> valid_hash_str c \<and> valid_hash_str h \<and>
        Suc (length t) = ?K + digits n)" for n
  proof -
    obtain c h t s u where w: "with_digests fe (env_len a n) key = Inr (sealed_envelope a n c h)"
      "canonical_json fe (PDict (env_len a n)) = Inr s" "c = fe_sha256 fe s"
      "canonical_json fe (PDict (env_len a n @ [(''checksum'', PStr c)])) = Inr u" "h = fe_hmac fe key u"
      "canonical_json fe (PDict (sealed_envelope a n c h)) = Inr t"
      "json_text (fe_repr fe) (PDict (sealed_envelope a n c h)) = Some t" "valid_hash_str c" "valid_hash_str h"
      by (rule with_digests_sealed [OF ev dg])
    have "Suc (length t) = ?K + digits n" by (rule record_length [OF w(7,8,9)])
    with stable_length_step [OF w(1,6)] w show ?thesis by auto
  qed
  then obtain D T where T: "\<And>n k. ?loop (Suc k) n = (if ?K + digits n = n then Inr (D n, T n @ newline) else ?loop k (?K + digits n))"
    and R: "\<And>n. \<exists>c h s u. D n = sealed_envelope a n c h \<and> canonical_json fe (PDict (env_len a n)) = Inr s \<and> c = fe_sha256 fe s \<and>
        canonical_json fe (PDict (env_len a n @ [(''checksum'', PStr c)])) = Inr u \<and> h = fe_hmac fe key u \<and>
        json_text (fe_repr fe) (PDict (sealed_envelope a n c h)) = Some (T n) \<and> valid_hash_str c \<and> valid_hash_str h \<and>
        Suc (length (T n)) = ?K + digits n"
    by metis
  have one: "digits 0 = 1" by (simp add: show_nat.simps)
  obtain m where m: "\<And>k. ?loop (Suc (Suc (Suc (Suc k)))) 0 = Inr (D m, T m @ newline)" "?K + digits m = m"
  proof (cases "digits (?K + digits (?K + 1)) = digits (?K + 1)")
    case True
    show thesis by (rule that [of "?K + digits (?K + 1)"]) (simp_all add: T one True [simplified] del: stable_length_loop.simps)
  next
    case False
    with digits_step [of ?K] have d: "digits (?K + digits (?K + 1)) = Suc (digits (?K + 1))"
      "digits (?K + Suc (digits (?K + 1))) = Suc (digits (?K + 1))" by auto
    have ne: "digits (Suc ?K) \<noteq> Suc 0" using False by auto
    show thesis by (rule that [of "?K + Suc (digits (?K + 1))"]) (simp_all add: T one ne d [simplified] del: stable_length_loop.simps)
  qed
  have e: "?loop 8 0 = Inr (D m, T m @ newline)"
    using m(1) [of 4] by (simp del: stable_length_loop.simps)
  from R [of m] m(2) obtain c h s u where r: "canonical_json fe (PDict (env_len a m)) = Inr s" "c = fe_sha256 fe s"
    "canonical_json fe (PDict (env_len a m @ [(''checksum'', PStr c)])) = Inr u" "h = fe_hmac fe key u"
    "json_text (fe_repr fe) (PDict (sealed_envelope a m c h)) = Some (T m)" "valid_hash_str c" "valid_hash_str h"
    "Suc (length (T m)) = m" "D m = sealed_envelope a m c h" by auto
  from that [OF e [unfolded r(9)] r(8,1-7)] show thesis .
qed

section \<open>Decoding what was sealed\<close>

definition sealed_frame :: "frame_args \<Rightarrow> nat \<Rightarrow> string \<Rightarrow> string \<Rightarrow> string \<Rightarrow> transaction_frame" where
  "sealed_frame a n c h r = \<lparr>tf_magic = FRAME_MAGIC, tf_schema_version = PInt 1, tf_byte_length = int n,
     tf_commit_marker = (if fa_committed a then COMMIT_MARKER else UNCOMMITTED_MARKER), tf_committed = fa_committed a,
     tf_tx_id = fa_tx_id a, tf_sequence = fa_sequence a, tf_writer_epoch = fa_writer_epoch a, tf_timestamp = fa_timestamp a,
     tf_expected_versions = sort_key fst (fa_expected a), tf_aggregate_versions = sort_key fst (fa_aggregate a),
     tf_previous_hash = fa_previous_hash a, tf_events = map norm_event (fa_events a), tf_checksum = c, tf_hmac_digest = h,
     tf_record = r\<rparr>"

lemma filter_sorted_items: "filter (\<lambda>kv. P (fst kv)) (sorted_items d) = sorted_items (filter (\<lambda>kv. P (fst kv)) d)"
  by (simp add: sorted_items_def filter_map comp_def filter_sort)

lemma canonical_sorted_items: "canonical_json fe (PDict (sorted_items d)) = canonical_json fe (PDict d)"
  using json_text_sorted [of "fe_repr fe" "PDict d"] by (simp add: canonical_json_def json_sorted_dict)

lemma decode_fields:
  assumes "k \<in> set frame_fields"
  shows "field_of (sorted_items (sealed_envelope a n c h)) k = json_sorted (field_of (sealed_envelope a n c h) k)"
proof (rule field_of_sorted_items)
  show "dict_ok (sealed_envelope a n c h)" by (simp add: dict_ok_def dkeys_sealed) (simp add: frame_fields_def)
  show "k \<in> set (dkeys (sealed_envelope a n c h))" using assms by (simp only: dkeys_sealed)
qed

lemma check_digests_sealed:
  assumes "canonical_json fe (PDict (env_len a n)) = Inr s" and "c = fe_sha256 fe s"
    and "canonical_json fe (PDict (env_len a n @ [(''checksum'', PStr c)])) = Inr u" and "h = fe_hmac fe key u"
    and "valid_hash_str c" and "valid_hash_str h"
  shows "check_digests fe (sorted_items (sealed_envelope a n c h)) key = Inr ()"
proof -
  have f: "field_of (sorted_items (sealed_envelope a n c h)) ''checksum'' = PStr c"
    "field_of (sorted_items (sealed_envelope a n c h)) ''hmac_digest'' = PStr h"
    by (simp_all add: decode_fields frame_fields_def sealed_fields)
  have "security_payload (sorted_items (sealed_envelope a n c h)) = sorted_items (env_len a n)"
    unfolding security_sealed(1) [symmetric, of a n c h] security_payload_def
    by (rule filter_sorted_items [of "\<lambda>k. k \<notin> {''checksum'', ''hmac_digest''}"])
  moreover have "hmac_payload (sorted_items (sealed_envelope a n c h)) = sorted_items (env_len a n @ [(''checksum'', PStr c)])"
    unfolding hmac_sealed(1) [symmetric, of a n c h] hmac_payload_def
    by (rule filter_sorted_items [of "\<lambda>k. k \<noteq> ''hmac_digest''"])
  ultimately show ?thesis using assms f valid_hash_ascii [OF assms(5)] valid_hash_ascii [OF assms(6)]
    by (simp add: check_digests_def canonical_sorted_items)
qed

lemma as_events_sealed:
  assumes "list_all (event_ok fe) es" and "digests_ok fe" and "es \<noteq> []"
  shows "as_events fe (json_sorted (PList (map (\<lambda>e. PDict (event_to_dict e)) es))) = Inr (map norm_event es)"
proof -
  have "mapE (event_from_dict fe) (map (\<lambda>e. json_sorted (PDict (event_to_dict e))) es) = Inr (map norm_event es)"
    using assms(1) by (induction es) (simp_all add: event_codec [OF _ assms(2)])
  then show ?thesis using assms(3) by (simp add: comp_def)
qed

lemma decode_sealed_record:
  assumes ok: "args_ok fe a" "digests_ok fe" and key: "32 \<le> length key" and r: "r \<noteq> []"
    and p: "parse_record fe r = Inr (sorted_items (sealed_envelope a n c h))" and n: "1 \<le> n"
    and w: "canonical_json fe (PDict (env_len a n)) = Inr s" "c = fe_sha256 fe s"
      "canonical_json fe (PDict (env_len a n @ [(''checksum'', PStr c)])) = Inr u" "h = fe_hmac fe key u"
      "valid_hash_str c" "valid_hash_str h"
  shows "decode_frame fe r key allow =
    bindE (check_length r (int n)) (\<lambda>_.
    bindE (guardE (ends_newline r) (IncompleteFrameError ''transaction frame is missing delimiter'')) (\<lambda>_.
    bindE (guardE (fa_committed a \<or> allow) (IncompleteFrameError ''transaction frame is not committed'')) (\<lambda>_.
    Inr (sealed_frame a n c h r))))"
proof -
  let ?d = "sorted_items (sealed_envelope a n c h)"
  have keys: "fst ` set (sealed_envelope a n c h) = set frame_fields" using dkeys_sealed [of a n c h] by (metis list.set_map)
  have f: "field_of ?d k = json_sorted (field_of (sealed_envelope a n c h) k)" if "k \<in> set frame_fields" for k
    using decode_fields [OF that] .
  have ev: "as_events fe (json_sorted (PList (map (\<lambda>e. PDict (event_to_dict e)) (fa_events a)))) = Inr (map norm_event (fa_events a))"
    using ok by (intro as_events_sealed) (auto simp: args_ok_def)
  have vm: "version_map (json_sorted (versions_val m)) fld = Inr (sort_key fst m)" if "versions_ok m" for m fld
    unfolding sorted_versions using that by (intro version_map_ok) (auto simp: versions_ok_def list_all_iff)
  have cd: "check_digests fe ?d key = Inr ()" by (rule check_digests_sealed [OF w])
  have ks: "''magic'' \<in> set frame_fields" "''schema_version'' \<in> set frame_fields" "''byte_length'' \<in> set frame_fields"
    "''commit_marker'' \<in> set frame_fields" "''committed'' \<in> set frame_fields" "''tx_id'' \<in> set frame_fields"
    "''sequence'' \<in> set frame_fields" "''writer_epoch'' \<in> set frame_fields" "''timestamp'' \<in> set frame_fields"
    "''expected_versions'' \<in> set frame_fields" "''aggregate_versions'' \<in> set frame_fields"
    "''previous_hash'' \<in> set frame_fields" "''events'' \<in> set frame_fields" "''checksum'' \<in> set frame_fields"
    "''hmac_digest'' \<in> set frame_fields" by (simp_all add: frame_fields_def)
  show ?thesis using ok key r n
    by (simp add: decode_frame_def require_hmac_key_def p keys ks [THEN f] sealed_fields args_ok_def vm ev cd sealed_frame_def
        Let_def del: json_sorted.simps(6) cong: if_cong)
qed

lemma ends_newline_app [simp]: "ends_newline (t @ newline)"
  by (simp add: ends_newline_def newline_def)

lemma one_line_no_newline: "one_line t \<Longrightarrow> prefix p t \<Longrightarrow> \<not> ends_newline p"
  by (auto simp: ends_newline_def one_line_def prefix_def dest: last_in_set)

lemma length_newline [simp]: "length newline = 1" "newline \<noteq> []"
  by (simp_all add: newline_def)

definition reads_sealed :: "frame_env \<Rightarrow> frame_args \<Rightarrow> string \<Rightarrow> bool" where
  "reads_sealed fe a key \<longleftrightarrow>
     (\<forall>d t. stable_length_loop fe (frame_envelope a) key 8 0 = Inr (d, t @ newline) \<longrightarrow> reads_back fe t (PDict d))"

text \<open>Strings are UTF-8 bytes and the mappings of a payload have distinct keys, as in a \<open>dict\<close>.\<close>

definition event_text :: "journal_event \<Rightarrow> bool" where
  "event_text e \<longleftrightarrow> utf8_ok (je_event_type e) \<and> utf8_ok (je_aggregate_id e) \<and> json_ok (PDict (je_payload e))"

definition args_text :: "frame_args \<Rightarrow> bool" where
  "args_text a \<longleftrightarrow> utf8_ok (fa_tx_id a) \<and> list_all event_text (fa_events a) \<and>
     list_all utf8_ok (dkeys (fa_expected a)) \<and> list_all utf8_ok (dkeys (fa_aggregate a))"

definition floats_ok :: "frame_env \<Rightarrow> bool" where
  "floats_ok fe \<longleftrightarrow> float_texts (fe_repr fe) (fe_float fe)"

lemma ascii_utf8: "ascii s \<Longrightarrow> utf8_ok s"
  using utf8_ascii [of s "[]"] by (simp add: ascii_def)

lemma hash_utf8: "valid_hash_str s \<Longrightarrow> utf8_ok s"
  by (rule ascii_utf8) (rule valid_hash_ascii)

lemma event_dict_json:
  assumes "event_text e" and "event_ok fe e" and "digests_ok fe"
  shows "json_ok (PDict (event_to_dict e))"
proof -
  have "utf8_ok (je_payload_hash e)" using assms(2,3) by (auto simp: event_ok_def digests_ok_def intro: hash_utf8)
  with assms(1) show ?thesis
    by (simp add: event_text_def event_to_dict_def dict_ok_def tail_ascii)
qed

lemma sealed_json:
  assumes "args_ok fe a" and "digests_ok fe" and "args_text a" and "valid_hash_str c" and "valid_hash_str h"
  shows "json_ok (PDict (sealed_envelope a n c h))"
proof -
  have keys: "list_all utf8_ok frame_fields" "distinct frame_fields"
    by (simp_all add: frame_fields_def tail_ascii)
  have e: "list_all (\<lambda>e. json_ok (PDict (event_to_dict e))) (fa_events a)"
    using assms(1,3) event_dict_json [OF _ _ assms(2)] unfolding args_ok_def args_text_def list_all_iff by blast
  have v: "json_ok (versions_val m)" if "versions_ok m" "list_all utf8_ok (dkeys m)" for m
    using that by (auto simp: versions_val_def versions_ok_def dict_ok_def list_all_iff comp_def)
  have "list_all snd (map (map_prod id json_ok) (sealed_envelope a n c h))"
    using assms e v [of "fa_expected a"] v [of "fa_aggregate a"]
    by (simp add: sealed_envelope_def env_len_eq args_ok_def args_text_def hash_utf8 tail_ascii list_all_iff)
  with keys show ?thesis by (simp add: dict_ok_def dkeys_sealed)
qed

lemma reads_sealed_text:
  assumes ok: "args_ok fe a" and dg: "digests_ok fe" and fl: "floats_ok fe" and tx: "args_text a"
  shows "reads_sealed fe a key"
proof -
  obtain n t c h s u where e: "stable_length_loop fe (frame_envelope a) key 8 0 = Inr (sealed_envelope a n c h, t @ newline)"
    and t: "json_text (fe_repr fe) (PDict (sealed_envelope a n c h)) = Some t"
    and v: "valid_hash_str c" "valid_hash_str h"
    by (rule encode_total [OF _ dg, of a key]) (use ok in \<open>auto simp: args_ok_def\<close>)
  note j = sealed_json [OF ok dg tx v, of n]
  have w: "list_all json_white newline" by (simp add: newline_def json_white_def)
  have "reads_back fe t (PDict (sealed_envelope a n c h))"
    using json_loads_white [OF fl [unfolded floats_ok_def] j t w] json_loads_white [OF fl [unfolded floats_ok_def] j t, of "[]"]
      json_loads_prefix [OF fl [unfolded floats_ok_def] j t]
    by (simp add: reads_back_def fe_loads_def)
  with e show ?thesis by (simp add: reads_sealed_def del: stable_length_loop.simps)
qed

definition sealed_as :: "frame_env \<Rightarrow> frame_args \<Rightarrow> string \<Rightarrow> transaction_frame \<Rightarrow> bool" where
  "sealed_as fe a key f \<longleftrightarrow>
     (\<exists>n c h. f = sealed_frame a n c h (tf_record f) \<and> n = length (tf_record f)) \<and>
     (\<forall>allow. decode_frame fe (tf_record f) key allow =
       (if fa_committed a \<or> allow then Inr f else Inl (IncompleteFrameError ''transaction frame is not committed''))) \<and>
     (\<forall>p allow. strict_prefix p (tf_record f) \<longrightarrow> (\<exists>m. decode_frame fe p key allow = Inl (IncompleteFrameError m))) \<and>
     (\<exists>t. tf_record f = t @ newline \<and> one_line t \<and> t \<noteq> [] \<and> hd t = CHR ''{'')"

lemma seal_decodes:
  assumes ok: "args_ok fe a" "digests_ok fe" and key: "32 \<le> length key" and rd: "reads_sealed fe a key"
  shows "\<exists>f. seal fe a key = Inr f \<and> sealed_as fe a key f"
proof -
  obtain n t c h s u where e: "stable_length_loop fe (frame_envelope a) key 8 0 = Inr (sealed_envelope a n c h, t @ newline)"
    and n: "Suc (length t) = n"
    and w: "canonical_json fe (PDict (env_len a n)) = Inr s" "c = fe_sha256 fe s"
      "canonical_json fe (PDict (env_len a n @ [(''checksum'', PStr c)])) = Inr u" "h = fe_hmac fe key u"
    and t: "json_text (fe_repr fe) (PDict (sealed_envelope a n c h)) = Some t"
    and v: "valid_hash_str c" "valid_hash_str h"
    by (rule encode_total [OF _ ok(2), of a key]) (use ok in \<open>auto simp: args_ok_def\<close>)
  let ?d = "sealed_envelope a n c h" let ?f = "sealed_frame a n c h (t @ newline)"
  have line: "one_line t" using json_text_one_line [OF _ t] ok(2) by (simp add: digests_ok_def)
  have brace: "t \<noteq> [] \<and> hd t = CHR ''{''" using json_dict_Some(2) [OF t] by simp
  from rd e have rb: "reads_back fe t (PDict ?d)" by (simp add: reads_sealed_def)
  then have p: "parse_record fe (t @ newline) = Inr (sorted_items ?d)" "parse_record fe t = Inr (sorted_items ?d)"
    by (simp_all add: parse_record_def reads_back_def json_sorted_dict)
  have n1: "1 \<le> n" using n by simp
  have dec: "decode_frame fe (t @ newline) key allow =
      (if fa_committed a \<or> allow then Inr ?f else Inl (IncompleteFrameError ''transaction frame is not committed''))" for allow
    using decode_sealed_record [OF ok key _ p(1) n1 w v, of allow] n
    by (auto simp: check_length_def)
  have pre: "\<exists>m. decode_frame fe q key allow = Inl (IncompleteFrameError m)" if q: "strict_prefix q (t @ newline)" for q allow
  proof -
    from q have qt: "prefix q t" by (auto simp: newline_def strict_prefix_def prefix_snoc)
    note nn = one_line_no_newline [OF line qt]
    consider "q = []" | "q = t" | "q \<noteq> []" "strict_prefix q t" using qt by (auto simp: strict_prefix_def)
    then show ?thesis
    proof cases
      case 1
      then show ?thesis using key by (simp add: decode_frame_def require_hmac_key_def)
    next
      case 2
      then show ?thesis using decode_sealed_record [OF ok key _ p(2) n1 w v, of allow] brace n nn
        by (simp add: check_length_def)
    next
      case 3
      with rb have "fe_loads fe q = None" by (simp add: reads_back_def)
      with 3 nn key show ?thesis by (simp add: decode_frame_def require_hmac_key_def parse_record_def)
    qed
  qed
  have sl: "seal fe a key = Inr ?f"
  proof -
    have "a\<lparr>fa_expected := fa_expected a, fa_aggregate := fa_aggregate a\<rparr> = a" by simp
    with ok key e dec [of True] show ?thesis
      by (simp add: seal_def require_hmac_key_def args_ok_def versions_ok_def version_map_ok encode_with_stable_length_def
          del: stable_length_loop.simps)
  qed
  have rec: "tf_record ?f = t @ newline" by (simp add: sealed_frame_def)
  have "\<exists>n' c' h'. ?f = sealed_frame a n' c' h' (tf_record ?f) \<and> n' = length (tf_record ?f)"
    unfolding rec using n by auto
  with dec pre line brace have "sealed_as fe a key ?f" unfolding sealed_as_def rec by blast
  with sl show ?thesis by blast
qed

section \<open>What an accepted record guarantees\<close>

lemma as_events_Inr: "as_events fe v = Inr es \<Longrightarrow> es \<noteq> [] \<and> list_all (event_ok fe) es"
proof -
  assume "as_events fe v = Inr es"
  then obtain vs where "v = PList vs" "vs \<noteq> []" and m: "mapE (event_from_dict fe) vs = Inr es"
    by (auto elim!: as_events.elims split: if_splits)
  moreover have "event_ok fe e" if "event_from_dict fe x = Inr e" for x e
  proof -
    have "\<exists>ty ag pl ts ph. event_init fe ty ag pl ts ph = Inr e"
      using that by (auto simp: event_from_dict_def elim!: event_error.elims split: pyval.splits if_splits) blast
    then show ?thesis using event_init_ok by blast
  qed
  then have "mapE (event_from_dict fe) vs = Inr es \<Longrightarrow> length es = length vs \<and> list_all (event_ok fe) es" for es
    by (induction vs arbitrary: es) (auto simp: bindE_Inr_iff)
  ultimately show ?thesis by (metis length_0_conv)
qed

lemma int_at_least_Inr: "int_at_least m v e = Inr i \<longleftrightarrow> v = PInt i \<and> m \<le> i"
  by (cases v) auto

lemma compare_digest_Inr: "compare_digest v h = Inr True \<Longrightarrow> v = PStr h"
  by (cases v) (auto split: if_splits)

lemma decode_frame_InrD:
  assumes "decode_frame fe r key allow = Inr f"
  shows "tf_record f = r" and "1 \<le> tf_sequence f" and "tf_byte_length f = int (length r)" and "ends_newline r"
    and "valid_hash_str (tf_previous_hash f)" and "tf_committed f \<or> allow"
    and "tf_events f \<noteq> [] \<and> list_all (event_ok fe) (tf_events f)"
    and "\<exists>d signed. fe_loads fe r = Some (PDict d) \<and> canonical_json fe (PDict (hmac_payload d)) = Inr signed \<and>
      tf_hmac_digest f = fe_hmac fe key signed"
proof -
  have nl: "valid_hash v \<Longrightarrow> valid_hash_str (the_str v)" for v by (cases v) auto
  have cl: "check_length q b = Inr x \<longleftrightarrow> int (length q) = b" for q b x by (simp add: check_length_def)
  have pr: "parse_record fe q = Inr d \<longleftrightarrow> fe_loads fe q = Some (PDict d)" for q d
    by (auto simp: parse_record_def split: option.splits pyval.splits)
  note all = assms [unfolded decode_frame_def Let_def bindE_Inr_iff, simplified, unfolded cl pr int_at_least_Inr]
  show "tf_record f = r" "1 \<le> tf_sequence f" "tf_byte_length f = int (length r)" "ends_newline r"
    "valid_hash_str (tf_previous_hash f)" "tf_committed f \<or> allow"
    using all nl by auto
  show "tf_events f \<noteq> [] \<and> list_all (event_ok fe) (tf_events f)" using all as_events_Inr by force
  from all obtain d where d: "fe_loads fe r = Some (PDict d)" "check_digests fe d key = Inr ()"
    "tf_hmac_digest f = the_str (field_of d ''hmac_digest'')" by auto
  from d(2) obtain signed where "canonical_json fe (PDict (hmac_payload d)) = Inr signed"
    "compare_digest (field_of d ''hmac_digest'') (fe_hmac fe key signed) = Inr True"
    by (auto simp: check_digests_def bindE_Inr_iff)
  with d show "\<exists>d signed. fe_loads fe r = Some (PDict d) \<and> canonical_json fe (PDict (hmac_payload d)) = Inr signed \<and>
      tf_hmac_digest f = fe_hmac fe key signed"
    by (auto dest: compare_digest_Inr)
qed

section \<open>Sealing and decoding are inverse\<close>

text \<open>
  C20. A sealed frame is read back, and nothing shorter is: for well-formed arguments, a key of at least
  32 bytes and a \<open>float\<close> that inverts \<open>repr\<close>, sealing succeeds (the search for the
  self-describing length always ends within its eight iterations), the frame carries the arguments,
  its byte length is the length of the record, decoding the record gives the same frame, and every
  strict prefix of the record is reported as an incomplete frame.
\<close>

theorem frame_round_trip:
  assumes "args_ok fe a" and "digests_ok fe" and "32 \<le> length key" and "floats_ok fe" and "args_text a" and "fa_committed a"
  shows "\<exists>f. seal fe a key = Inr f \<and> decode_frame fe (tf_record f) key False = Inr f \<and>
    tf_byte_length f = int (length (tf_record f)) \<and> tf_sequence f = fa_sequence a \<and> tf_tx_id f = fa_tx_id a \<and>
    tf_previous_hash f = fa_previous_hash a \<and> tf_events f = map norm_event (fa_events a) \<and>
    mset (tf_expected_versions f) = mset (fa_expected a) \<and> mset (tf_aggregate_versions f) = mset (fa_aggregate a) \<and>
    (\<forall>p. strict_prefix p (tf_record f) \<longrightarrow> (\<exists>m. decode_frame fe p key False = Inl (IncompleteFrameError m)))"
proof -
  obtain f where f: "seal fe a key = Inr f" "sealed_as fe a key f" using seal_decodes [OF assms(1-3) reads_sealed_text [OF assms(1,2,4,5)]] by blast
  then obtain n c h where s: "f = sealed_frame a n c h (tf_record f)" "n = length (tf_record f)"
    unfolding sealed_as_def by blast
  have "tf_byte_length f = int n" "tf_sequence f = fa_sequence a" "tf_tx_id f = fa_tx_id a"
    "tf_previous_hash f = fa_previous_hash a" "tf_events f = map norm_event (fa_events a)"
    "mset (tf_expected_versions f) = mset (fa_expected a)" "mset (tf_aggregate_versions f) = mset (fa_aggregate a)"
    by (subst s(1), simp add: sealed_frame_def)+
  with f s(2) assms(6) show ?thesis by (auto simp: sealed_as_def)
qed

definition sample_frame_env :: frame_env where
  "sample_frame_env = \<lparr>fe_repr = ratio_repr, fe_sha256 = (\<lambda>_. GENESIS_HASH), fe_hmac = (\<lambda>_ _. GENESIS_HASH),
     fe_float = ratio_float\<rparr>"

definition sample_event :: journal_event where
  "sample_event = \<lparr>je_event_type = ''goal.created'', je_aggregate_id = ''g1'', je_payload = [(''n'', PInt 1)],
     je_timestamp = 0, je_payload_hash = GENESIS_HASH\<rparr>"

definition sample_frame_args :: frame_args where
  "sample_frame_args = \<lparr>fa_tx_id = ''tx_1'', fa_sequence = 1, fa_writer_epoch = 0, fa_timestamp = 0,
     fa_expected = [(''g1'', 0)], fa_aggregate = [(''g1'', 1)], fa_previous_hash = GENESIS_HASH,
     fa_events = [sample_event], fa_committed = True\<rparr>"

lemma sample_digests_ok: "digests_ok sample_frame_env"
  by (simp add: digests_ok_def sample_frame_env_def ratio_one_line)

lemma sample_floats_ok: "floats_ok sample_frame_env"
  by (simp add: floats_ok_def sample_frame_env_def ratio_texts)

lemma sample_event_text: "event_text sample_event"
  by (simp add: event_text_def sample_event_def dict_ok_def tail_ascii)

lemma sample_event_ok: "event_ok sample_frame_env sample_event"
  by (simp add: event_ok_def sample_event_def sample_frame_env_def json_text.simps json_item_def)

lemma sample_args_ok: "args_ok sample_frame_env sample_frame_args"
  by (simp add: args_ok_def sample_frame_args_def versions_ok_def dict_ok_def sample_event_ok)

lemma sample_args_text: "args_text sample_frame_args"
  by (simp add: args_text_def sample_frame_args_def sample_event_text tail_ascii)

theorem frame_round_trip_witness:
  "\<exists>f. seal sample_frame_env sample_frame_args (replicate 32 (CHR ''k'')) = Inr f \<and>
     decode_frame sample_frame_env (tf_record f) (replicate 32 (CHR ''k'')) False = Inr f \<and> tf_sequence f = 1"
  using frame_round_trip [OF sample_args_ok sample_digests_ok _ sample_floats_ok sample_args_text, of "replicate 32 (CHR ''k'')"]
  by (auto simp: sample_frame_args_def)

end
