(* ===== verification/Journal_Anchor.thy ===== *)
theory Journal_Anchor
  imports Journal_Frame
begin

text \<open>
  The monotonic anchors of \<^verbatim>\<open>src/src/autonomous/journal/anchor.py\<close>. \<open>AnchorProvider\<close> is a locale: the
  laws the journal relies on. \<open>MemoryAnchor\<close> and \<open>FileAnchor\<close> interpret it. The anchor file is modelled
  by what it holds once parsed; writing it is a temporary file, an atomic rename and a synchronization of
  the directory, and may fail before or after the rename. The file lock makes each call atomic.
\<close>

section \<open>States\<close>

record anchor_state =
  an_sequence :: int
  an_frame_hash :: string

definition anchor_default :: anchor_state where
  "anchor_default = \<lparr>an_sequence = 0, an_frame_hash = GENESIS_HASH\<rparr>"

datatype anchor_exn = AnchorCorruptionError string | AnchorOSError

section \<open>The contract of an anchor\<close>

text \<open>
  \<open>io\<close> is what the environment does to the write. A call that returns true moved the anchor from the
  expected to the new state; one that returns false changed nothing; one that raised did either.
\<close>

locale anchor_provider =
  fixes anchor_read :: "'a \<Rightarrow> anchor_exn + anchor_state"
    and anchor_cas :: "'a \<Rightarrow> 'io \<Rightarrow> int \<Rightarrow> string \<Rightarrow> int \<Rightarrow> string \<Rightarrow> 'a \<times> (anchor_exn + bool)"
  assumes cas_true: "anchor_cas a io es eh ns nh = (a', Inr True) \<Longrightarrow>
      anchor_read a = Inr \<lparr>an_sequence = es, an_frame_hash = eh\<rparr> \<and> ns = es + 1 \<and>
      anchor_read a' = Inr \<lparr>an_sequence = ns, an_frame_hash = nh\<rparr>"
    and cas_false: "anchor_cas a io es eh ns nh = (a', Inr False) \<Longrightarrow> a' = a"
    and cas_raise: "anchor_cas a io es eh ns nh = (a', Inl e) \<Longrightarrow> a' = a \<or>
      anchor_read a = Inr \<lparr>an_sequence = es, an_frame_hash = eh\<rparr> \<and> ns = es + 1 \<and>
      anchor_read a' = Inr \<lparr>an_sequence = ns, an_frame_hash = nh\<rparr>"
begin

lemma cas_cases:
  assumes "anchor_cas a io es eh ns nh = (a', r)"
  obtains (same) "a' = a" "r \<noteq> Inr True"
    | (moved) "anchor_read a = Inr \<lparr>an_sequence = es, an_frame_hash = eh\<rparr>" "ns = es + 1"
        "anchor_read a' = Inr \<lparr>an_sequence = ns, an_frame_hash = nh\<rparr>"
  using cas_true cas_false cas_raise assms by (metis (full_types) sum.exhaust_sel)

fun cas_run :: "'a \<Rightarrow> ('io \<times> int \<times> string \<times> int \<times> string) list \<Rightarrow> 'a" where
  "cas_run a [] = a"
| "cas_run a ((io, es, eh, ns, nh) # cs) = cas_run (fst (anchor_cas a io es eh ns nh)) cs"

lemma cas_step_monotone:
  assumes "anchor_read a = Inr s"
  shows "\<exists>s'. anchor_read (fst (anchor_cas a io es eh ns nh)) = Inr s' \<and>
    (s' = s \<or> an_sequence s' = an_sequence s + 1)"
proof -
  obtain a' r where c: "anchor_cas a io es eh ns nh = (a', r)" by fastforce
  then show ?thesis
  proof (cases rule: cas_cases)
    case same
    with c assms show ?thesis by simp
  next
    case moved
    with c assms show ?thesis by auto
  qed
qed

text \<open>A high-water mark never goes back, and an unchanged sequence number means an unchanged hash.\<close>

lemma cas_run_monotone:
  "anchor_read a = Inr s \<Longrightarrow> \<exists>s'. anchor_read (cas_run a cs) = Inr s' \<and> an_sequence s \<le> an_sequence s' \<and>
    (an_sequence s' = an_sequence s \<longrightarrow> s' = s)"
proof (induction cs arbitrary: a s)
  case (Cons c cs)
  obtain io es eh ns nh where c: "c = (io, es, eh, ns, nh)" by (cases c) auto
  from cas_step_monotone [OF Cons.prems, of io es eh ns nh] obtain s1 where
    s1: "anchor_read (fst (anchor_cas a io es eh ns nh)) = Inr s1" "s1 = s \<or> an_sequence s1 = an_sequence s + 1"
    by blast
  from Cons.IH [OF s1(1)] s1(2) show ?case by (auto simp: c)
qed simp

lemma cas_excludes:
  assumes "anchor_cas a io es eh ns nh = (a', Inr True)"
  shows "snd (anchor_cas (cas_run a' cs) io' es eh ns' nh') \<noteq> Inr True"
proof
  assume t: "snd (anchor_cas (cas_run a' cs) io' es eh ns' nh') = Inr True"
  from cas_true [OF assms] have r: "anchor_read a' = Inr \<lparr>an_sequence = es + 1, an_frame_hash = nh\<rparr>" by auto
  from t have "anchor_read (cas_run a' cs) = Inr \<lparr>an_sequence = es, an_frame_hash = eh\<rparr>"
    using cas_true [of "cas_run a' cs" io' es eh ns' nh'] by (metis prod.collapse)
  with cas_run_monotone [OF r, of cs] show False by auto
qed

end

section \<open>In memory\<close>

definition memory_read :: "anchor_state \<Rightarrow> anchor_exn + anchor_state" where
  "memory_read a = Inr a"

definition memory_cas ::
  "anchor_state \<Rightarrow> unit \<Rightarrow> int \<Rightarrow> string \<Rightarrow> int \<Rightarrow> string \<Rightarrow> anchor_state \<times> (anchor_exn + bool)" where
  "memory_cas a io expected_sequence expected_hash new_sequence new_hash =
     (if expected_sequence < 0 \<or> new_sequence \<noteq> expected_sequence + 1 \<or> length expected_hash \<noteq> 64 \<or>
         length new_hash \<noteq> 64 then (a, Inr False)
      else if a \<noteq> \<lparr>an_sequence = expected_sequence, an_frame_hash = expected_hash\<rparr> then (a, Inr False)
      else (\<lparr>an_sequence = new_sequence, an_frame_hash = new_hash\<rparr>, Inr True))"

interpretation memory_anchor: anchor_provider memory_read memory_cas
  by unfold_locales (auto simp: memory_cas_def memory_read_def split: if_splits)

section \<open>In a file\<close>

datatype anchor_file = NoAnchorFile | NotRegularFile | MalformedFile | AnchorContent pyval

datatype anchor_io = AnchorWritten | FailedBeforeReplace | FailedAfterReplace

definition anchor_fields :: "string list" where
  "anchor_fields = [''version'', ''sequence'', ''frame_hash'']"

fun not_bool :: "pyval \<Rightarrow> bool" where
  "not_bool (PBool b) = False"
| "not_bool _ = True"

definition validate_anchor_state :: "pyval \<Rightarrow> anchor_exn + anchor_state" where
  "validate_anchor_state value =
     (case value of
        PDict d \<Rightarrow>
          if set (dkeys d) \<noteq> set anchor_fields then Inl (AnchorCorruptionError ''invalid anchor envelope'')
          else if \<not> equals_one (field_of d ''version'') \<or> \<not> not_bool (field_of d ''version'')
          then Inl (AnchorCorruptionError ''unsupported anchor version'')
          else (case field_of d ''sequence'' of
             PInt n \<Rightarrow>
               if n < 0 \<or> \<not> valid_hash (field_of d ''frame_hash'') \<or>
                  (n = 0 \<and> field_of d ''frame_hash'' \<noteq> PStr GENESIS_HASH)
               then Inl (AnchorCorruptionError ''invalid anchor state'')
               else Inr \<lparr>an_sequence = n, an_frame_hash = the_str (field_of d ''frame_hash'')\<rparr>
           | _ \<Rightarrow> Inl (AnchorCorruptionError ''invalid anchor state''))
      | _ \<Rightarrow> Inl (AnchorCorruptionError ''invalid anchor envelope''))"

fun file_read :: "anchor_file \<Rightarrow> anchor_exn + anchor_state" where
  "file_read NoAnchorFile = Inr anchor_default"
| "file_read NotRegularFile = Inl (AnchorCorruptionError ''anchor is not a regular file'')"
| "file_read MalformedFile = Inl (AnchorCorruptionError ''malformed anchor envelope'')"
| "file_read (AnchorContent v) = validate_anchor_state v"

definition anchor_payload :: "anchor_state \<Rightarrow> pyval" where
  "anchor_payload s = PDict [(''frame_hash'', PStr (an_frame_hash s)), (''sequence'', PInt (an_sequence s)),
     (''version'', PInt 1)]"

definition file_write :: "anchor_file \<Rightarrow> anchor_io \<Rightarrow> anchor_state \<Rightarrow> anchor_file \<times> (anchor_exn + unit)" where
  "file_write a io s =
     (case io of
        AnchorWritten \<Rightarrow> (AnchorContent (anchor_payload s), Inr ())
      | FailedBeforeReplace \<Rightarrow> (a, Inl AnchorOSError)
      | FailedAfterReplace \<Rightarrow> (AnchorContent (anchor_payload s), Inl AnchorOSError))"

definition file_cas ::
  "anchor_file \<Rightarrow> anchor_io \<Rightarrow> int \<Rightarrow> string \<Rightarrow> int \<Rightarrow> string \<Rightarrow> anchor_file \<times> (anchor_exn + bool)" where
  "file_cas a io expected_sequence expected_hash new_sequence new_hash =
     (if expected_sequence < 0 \<or> new_sequence \<noteq> expected_sequence + 1 \<or> \<not> valid_hash_str expected_hash \<or>
         \<not> valid_hash_str new_hash then (a, Inr False)
      else case file_read a of
        Inl e \<Rightarrow> (a, Inl e)
      | Inr s \<Rightarrow>
          if s \<noteq> \<lparr>an_sequence = expected_sequence, an_frame_hash = expected_hash\<rparr> then (a, Inr False)
          else case file_write a io \<lparr>an_sequence = new_sequence, an_frame_hash = new_hash\<rparr> of
            (a', Inl e) \<Rightarrow> (a', Inl e)
          | (a', Inr _) \<Rightarrow> (a', Inr True))"

lemma anchor_read_payload:
  assumes "0 < n" and "valid_hash_str h"
  shows "validate_anchor_state (anchor_payload \<lparr>an_sequence = n, an_frame_hash = h\<rparr>) =
    Inr \<lparr>an_sequence = n, an_frame_hash = h\<rparr>"
proof -
  have "set (dkeys [(''frame_hash'', PStr h), (''sequence'', PInt n), (''version'', PInt 1)]) = set anchor_fields"
    by (auto simp: anchor_fields_def)
  with assms show ?thesis by (simp add: validate_anchor_state_def anchor_payload_def field_of_def)
qed

interpretation file_anchor: anchor_provider file_read file_cas
proof
  show "file_cas a io es eh ns nh = (a', Inr True) \<Longrightarrow>
      file_read a = Inr \<lparr>an_sequence = es, an_frame_hash = eh\<rparr> \<and> ns = es + 1 \<and>
      file_read a' = Inr \<lparr>an_sequence = ns, an_frame_hash = nh\<rparr>" for a io es eh ns nh a'
    by (auto simp: file_cas_def file_write_def anchor_read_payload split: if_splits sum.splits anchor_io.splits)
  show "file_cas a io es eh ns nh = (a', Inr False) \<Longrightarrow> a' = a" for a io es eh ns nh a'
    by (auto simp: file_cas_def file_write_def split: if_splits sum.splits anchor_io.splits)
  show "file_cas a io es eh ns nh = (a', Inl e) \<Longrightarrow> a' = a \<or>
      file_read a = Inr \<lparr>an_sequence = es, an_frame_hash = eh\<rparr> \<and> ns = es + 1 \<and>
      file_read a' = Inr \<lparr>an_sequence = ns, an_frame_hash = nh\<rparr>" for a io es eh ns nh a' e
    by (auto simp: file_cas_def file_write_def anchor_read_payload split: if_splits sum.splits anchor_io.splits)
qed



end
