(* ===== verification/Journal_Writer.thy ===== *)
theory Journal_Writer
  imports Journal_Anchor
begin

text \<open>
  The journal writer of \<^verbatim>\<open>src/src/autonomous/journal/writer.py\<close> over the bytes of its file: opening with
  recovery of a torn tail, commits with compare-and-swap on aggregate versions, and anchoring. The
  mutex makes every operation atomic. What the environment does to an append is an argument: it
  succeeds, or raises after some of the record's bytes reached the file. The anchor is any provider.
  Failures of the file system while a torn tail is being truncated are not modelled.
\<close>

section \<open>Blob references\<close>

record blob_ref =
  br_blob_hash :: string
  br_payload_hash :: string
  br_labels_hash :: string
  br_key_ref :: string
  br_size :: int
  br_labels :: "(string, string) dict"

definition truthy_aliases :: "pydict \<Rightarrow> string list \<Rightarrow> pyval list" where
  "truthy_aliases d ks = filter py_truthy (map (field_of d) ks)"

fun is_str :: "pyval \<Rightarrow> bool" where
  "is_str (PStr s) = True"
| "is_str _ = False"

definition blob_ref_fields :: "string list" where
  "blob_ref_fields = [''blob_id'', ''content_hash'', ''ciphertext_hash'', ''payload_hash'', ''labels_hash'', ''size'',
     ''labels'', ''key_ref'']"

fun string_labels :: "pyval \<Rightarrow> (string, string) dict option" where
  "string_labels (PDict d) = (if list_all (\<lambda>kv. is_str (snd kv)) d then Some (map (map_prod id the_str) d) else None)"
| "string_labels _ = None"

definition blob_ref_from_dict :: "frame_env \<Rightarrow> pydict \<Rightarrow> string + blob_ref" where
  "blob_ref_from_dict fe d =
     (let blobs = truthy_aliases d [''blob_hash'', ''blob_id'', ''ciphertext_hash''];
          payloads = truthy_aliases d [''payload_hash'', ''content_hash'']
      in bindE (guardE (list_all is_str (blobs @ payloads)) ''blob hash aliases must be strings'') (\<lambda>_.
         bindE (guardE (card (set blobs) \<le> 1) ''conflicting blob hash aliases'') (\<lambda>_.
         bindE (guardE (card (set payloads) \<le> 1) ''conflicting payload hash aliases'') (\<lambda>_.
         bindE (guardE (set (dkeys d) = set blob_ref_fields) ''invalid blob reference fields'') (\<lambda>_.
         bindE (guardE (list_all (\<lambda>k. valid_hash (field_of d k))
                  [''blob_id'', ''content_hash'', ''ciphertext_hash'', ''payload_hash'', ''labels_hash'']) ''invalid hash'') (\<lambda>_.
         bindE (guardE (field_of d ''blob_id'' = field_of d ''ciphertext_hash'') ''conflicting blob hash aliases'') (\<lambda>_.
         bindE (guardE (field_of d ''content_hash'' = field_of d ''payload_hash'') ''conflicting payload hash aliases'') (\<lambda>_.
         bindE (guardE (the_str (field_of d ''key_ref'') \<noteq> []) ''invalid key_ref'') (\<lambda>_.
         case field_of d ''size'' of
           PInt sz \<Rightarrow>
             if sz < 0 then Inl ''invalid blob size''
             else (case string_labels (field_of d ''labels'') of
                None \<Rightarrow> Inl ''invalid blob labels''
              | Some labels \<Rightarrow>
                  if map_option (fe_sha256 fe) (json_text (fe_repr fe) (field_of d ''labels'')) \<noteq>
                     Some (the_str (field_of d ''labels_hash'')) then Inl ''blob labels hash mismatch''
                  else Inr \<lparr>br_blob_hash = the_str (field_of d ''blob_id''),
                            br_payload_hash = the_str (field_of d ''payload_hash''),
                            br_labels_hash = the_str (field_of d ''labels_hash''),
                            br_key_ref = the_str (field_of d ''key_ref''), br_size = sz, br_labels = labels\<rparr>)
         | _ \<Rightarrow> Inl ''invalid blob size'')))))))))"

section \<open>Errors and environment\<close>

datatype journal_exn =
    JFrame frame_exn
  | AnchorMismatchError string
  | JournalClosedError
  | WriterLockError
  | JAnchor anchor_exn
  | JOSError

abbreviation integrity :: "string \<Rightarrow> journal_exn" where
  "integrity m \<equiv> JFrame (JournalIntegrityError m)"

fun lift_frame :: "frame_exn + 'x \<Rightarrow> journal_exn + 'x" where
  "lift_frame (Inl e) = Inl (JFrame e)"
| "lift_frame (Inr x) = Inr x"

fun lift_anchor :: "anchor_exn + 'x \<Rightarrow> journal_exn + 'x" where
  "lift_anchor (Inl e) = Inl (JAnchor e)"
| "lift_anchor (Inr x) = Inr x"

record ('a, 'io) anchor_ops =
  ao_read :: "'a \<Rightarrow> anchor_exn + anchor_state"
  ao_cas :: "'a \<Rightarrow> 'io \<Rightarrow> int \<Rightarrow> string \<Rightarrow> int \<Rightarrow> string \<Rightarrow> 'a \<times> (anchor_exn + bool)"

record writer_env =
  we_frame :: frame_env
  we_validator :: "(blob_ref \<Rightarrow> bool) option"

definition validate_event_blob :: "frame_env \<Rightarrow> (blob_ref \<Rightarrow> bool) \<Rightarrow> journal_event \<Rightarrow> journal_exn + unit" where
  "validate_event_blob fe validator e =
     (case field_of (je_payload e) ''blob_ref'' of
        PNone \<Rightarrow> Inr ()
      | PDict d \<Rightarrow> (case blob_ref_from_dict fe d of
            Inl _ \<Rightarrow> Inl (integrity ''invalid blob reference'')
          | Inr b \<Rightarrow> guardE (validator b) (integrity ''blob reference is not published''))
      | _ \<Rightarrow> Inl (integrity ''invalid blob reference''))"

definition validate_blob_refs :: "writer_env \<Rightarrow> journal_event list \<Rightarrow> journal_exn + unit" where
  "validate_blob_refs we es =
     (case we_validator we of
        None \<Rightarrow> Inr ()
      | Some validator \<Rightarrow> bindE (mapE (validate_event_blob (we_frame we) validator) es) (\<lambda>_. Inr ()))"

record journal_writer =
  jw_file :: string
  jw_frames :: "transaction_frame list"
  jw_sequence :: int
  jw_previous_hash :: string
  jw_versions :: "(string, int) dict"
  jw_closed :: bool
  jw_write_disabled :: bool
  jw_key :: string
  jw_epoch :: int

section \<open>Recovery\<close>

text \<open>\<open>bytes.splitlines(keepends=True)\<close>: lines end at LF, CR or CR LF.\<close>

fun first_line :: "string \<Rightarrow> string \<times> string" where
  "first_line [] = ([], [])"
| "first_line (c # s) =
     (if c = CHR 0x0A then ([c], s)
      else if c = CHR 0x0D then (if s \<noteq> [] \<and> hd s = CHR 0x0A then ([c, CHR 0x0A], tl s) else ([c], s))
      else case first_line s of (l, r) \<Rightarrow> (c # l, r))"

lemma first_line_rest: "length (snd (first_line s)) \<le> length s \<and> (s \<noteq> [] \<longrightarrow> length (snd (first_line s)) < length s)"
  by (induction s rule: first_line.induct) (auto split: prod.splits)

function split_lines :: "string \<Rightarrow> string list" where
  "split_lines s = (if s = [] then [] else fst (first_line s) # split_lines (snd (first_line s)))"
  by pat_completeness auto
termination
  by (relation "measure length") (auto simp: first_line_rest)

declare split_lines.simps [simp del]

definition byte_whitespace :: "char list" where
  "byte_whitespace = [CHR '' '', CHR 0x09, CHR 0x0A, CHR 0x0D, CHR 0x0B, CHR 0x0C]"

definition blank :: "string \<Rightarrow> bool" where
  "blank s \<longleftrightarrow> list_all (\<lambda>c. c \<in> set byte_whitespace) s"

text \<open>
  The loop over the physical lines, with the frames so far and their total length. A line is the
  tail when no later line holds anything. The result says whether an incomplete tail was met.
\<close>

fun recover_loop ::
  "writer_env \<Rightarrow> string \<Rightarrow> string list \<Rightarrow> string \<Rightarrow> int \<Rightarrow> transaction_frame list \<Rightarrow> nat \<Rightarrow>
     journal_exn + transaction_frame list \<times> nat \<times> bool" where
  "recover_loop we key [] previous_hash expected_sequence frames len = Inr (frames, len, False)"
| "recover_loop we key (physical # rest) previous_hash expected_sequence frames len =
     (if blank physical then
        (if \<not> list_all blank rest then Inl (integrity ''blank record before journal tail'')
         else Inr (frames, len, True))
      else case decode_frame (we_frame we) physical key False of
        Inl (IncompleteFrameError _) \<Rightarrow>
          if \<not> list_all blank rest then Inl (integrity ''incomplete frame before journal tail'')
          else Inr (frames, len, True)
      | Inl e \<Rightarrow> Inl (JFrame e)
      | Inr f \<Rightarrow>
          if tf_sequence f \<noteq> expected_sequence then Inl (integrity ''journal sequence mismatch'')
          else if tf_previous_hash f \<noteq> previous_hash then Inl (integrity ''journal previous hash mismatch'')
          else bindE (validate_blob_refs we (tf_events f)) (\<lambda>_.
            recover_loop we key rest (frame_hash (we_frame we) f) (expected_sequence + 1) (frames @ [f])
              (len + length physical)))"

definition last_sequence :: "transaction_frame list \<Rightarrow> int" where
  "last_sequence fs = (if fs = [] then 0 else tf_sequence (last fs))"

definition load_and_recover ::
  "writer_env \<Rightarrow> ('a, 'io) anchor_ops \<Rightarrow> 'a \<Rightarrow> string \<Rightarrow> string \<Rightarrow> string \<times> (journal_exn + transaction_frame list)" where
  "load_and_recover we ao a key raw =
     (if raw = [] then (raw, Inr [])
      else case lift_anchor (ao_read ao a) of
        Inl e \<Rightarrow> (raw, Inl e)
      | Inr anchored \<Rightarrow>
          (let lines = split_lines raw
           in if list_all blank lines then ([], Inr [])
              else case recover_loop we key lines GENESIS_HASH 1 [] 0 of
                Inl e \<Rightarrow> (raw, Inl e)
              | Inr (frames, len, False) \<Rightarrow> (raw, Inr frames)
              | Inr (frames, len, True) \<Rightarrow>
                  if an_sequence anchored > last_sequence frames
                  then (raw, Inl (AnchorMismatchError ''anchor confirms a journal tail that is incomplete locally''))
                  else (take len raw, Inr frames)))"

definition version_of :: "(string, int) dict \<Rightarrow> string \<Rightarrow> int" where
  "version_of vs k = (case dget vs k of None \<Rightarrow> 0 | Some v \<Rightarrow> v)"

fun bump_versions :: "(string, int) dict \<Rightarrow> (string, int) dict \<Rightarrow> (string, int) dict \<Rightarrow> journal_exn + (string, int) dict" where
  "bump_versions expected versions [] = Inr versions"
| "bump_versions expected versions ((k, v) # m) =
     (let e = (case dget expected k of None \<Rightarrow> version_of versions k | Some n \<Rightarrow> n)
      in if v \<noteq> e + 1 then Inl (integrity ''invalid aggregate version'')
         else bump_versions expected (dset versions k v) m)"

definition rebuild_frame :: "(string, int) dict \<Rightarrow> transaction_frame \<Rightarrow> journal_exn + (string, int) dict" where
  "rebuild_frame versions f =
     (let ids = set (map je_aggregate_id (tf_events f))
      in if ids \<noteq> set (dkeys (tf_expected_versions f)) \<or> ids \<noteq> set (dkeys (tf_aggregate_versions f))
         then Inl (integrity ''event aggregate ids and version maps must match'')
         else if \<not> list_all (\<lambda>(k, e). version_of versions k = e) (tf_expected_versions f)
         then Inl (integrity ''aggregate version mismatch'')
         else bump_versions (tf_expected_versions f) versions (tf_aggregate_versions f))"

fun rebuild_aggregate_versions :: "(string, int) dict \<Rightarrow> transaction_frame list \<Rightarrow> journal_exn + (string, int) dict" where
  "rebuild_aggregate_versions versions [] = Inr versions"
| "rebuild_aggregate_versions versions (f # fs) =
     bindE (rebuild_frame versions f) (\<lambda>vs. rebuild_aggregate_versions vs fs)"

definition head_hash :: "frame_env \<Rightarrow> transaction_frame list \<Rightarrow> string" where
  "head_hash fe fs = (if fs = [] then GENESIS_HASH else frame_hash fe (last fs))"

definition verify_anchor :: "('a, 'io) anchor_ops \<Rightarrow> 'a \<Rightarrow> int \<Rightarrow> string \<Rightarrow> journal_exn + unit" where
  "verify_anchor ao a sequence previous_hash =
     bindE (lift_anchor (ao_read ao a)) (\<lambda>anchored.
     guardE (anchored = \<lparr>an_sequence = sequence, an_frame_hash = previous_hash\<rparr>)
       (AnchorMismatchError ''journal and monotonic anchor high-water mark differ''))"

definition open_writer ::
  "writer_env \<Rightarrow> ('a, 'io) anchor_ops \<Rightarrow> 'a \<Rightarrow> string \<Rightarrow> int \<Rightarrow> bool \<Rightarrow> string \<Rightarrow> string \<times> (journal_exn + journal_writer)" where
  "open_writer we ao a key epoch lock_free raw =
     (if length key < 32 then (raw, Inl (JFrame (FrameValueError ''journal hmac key must be at least 32 bytes'')))
      else if epoch < 0 then (raw, Inl (JFrame (FrameValueError ''writer_epoch must be a non-negative integer'')))
      else if \<not> lock_free then (raw, Inl WriterLockError)
      else case load_and_recover we ao a key raw of
        (file, Inl e) \<Rightarrow> (file, Inl e)
      | (file, Inr frames) \<Rightarrow>
          (file,
           bindE (rebuild_aggregate_versions [] frames) (\<lambda>versions.
           bindE (verify_anchor ao a (last_sequence frames) (head_hash (we_frame we) frames)) (\<lambda>_.
           Inr \<lparr>jw_file = file, jw_frames = frames, jw_sequence = last_sequence frames,
                jw_previous_hash = head_hash (we_frame we) frames, jw_versions = versions, jw_closed = False,
                jw_write_disabled = False, jw_key = key, jw_epoch = epoch\<rparr>))))"

section \<open>Commit\<close>

datatype commit_state = ANCHORED | DURABLE_NOT_ANCHORED

datatype append_io = Appended | AppendFailed nat

record commit_call =
  cc_events :: "journal_event list"
  cc_expected :: "(string, int) dict"
  cc_head_sequence :: "int option"
  cc_head_hash :: "string option"
  cc_tx_id :: string
  cc_now :: timestamp

definition close_writer :: "journal_writer \<Rightarrow> journal_writer" where
  "close_writer w = w\<lparr>jw_closed := True\<rparr>"

definition ensure_writable :: "journal_writer \<Rightarrow> journal_exn + unit" where
  "ensure_writable w = guardE (\<not> (jw_closed w \<or> jw_write_disabled w)) JournalClosedError"

definition next_versions :: "(string, int) dict \<Rightarrow> (string, int) dict" where
  "next_versions m = map (map_prod id (\<lambda>e. e + 1)) m"

definition commit_args :: "journal_writer \<Rightarrow> commit_call \<Rightarrow> frame_args" where
  "commit_args w c = \<lparr>fa_tx_id = cc_tx_id c, fa_sequence = jw_sequence w + 1, fa_writer_epoch = jw_epoch w,
     fa_timestamp = cc_now c, fa_expected = cc_expected c, fa_aggregate = next_versions (cc_expected c),
     fa_previous_hash = jw_previous_hash w, fa_events = cc_events c, fa_committed = True\<rparr>"

definition commit_checks :: "writer_env \<Rightarrow> journal_writer \<Rightarrow> commit_call \<Rightarrow> journal_exn + unit" where
  "commit_checks we w c =
     bindE (ensure_writable w) (\<lambda>_.
     bindE (guardE (cc_events c \<noteq> []) (JFrame (FrameValueError ''cannot commit an empty transaction''))) (\<lambda>_.
     bindE (validate_blob_refs we (cc_events c)) (\<lambda>_.
     bindE (guardE (\<not> ((case cc_head_sequence c of None \<Rightarrow> False | Some n \<Rightarrow> n \<noteq> jw_sequence w) \<or>
                       (case cc_head_hash c of None \<Rightarrow> False
                        | Some h \<Rightarrow> h \<noteq> (if jw_sequence w = 0 then [] else jw_previous_hash w))))
              (integrity ''journal head mismatch'')) (\<lambda>_.
     bindE (guardE (set (dkeys (cc_expected c)) = set (map je_aggregate_id (cc_events c)))
              (integrity ''expected aggregate versions must cover transaction events'')) (\<lambda>_.
     guardE (list_all (\<lambda>(k, e). e = version_of (jw_versions w) k) (cc_expected c))
       (integrity ''aggregate version mismatch''))))))"

definition dict_update :: "('k, 'v) dict \<Rightarrow> ('k, 'v) dict \<Rightarrow> ('k, 'v) dict" where
  "dict_update d m = foldl (\<lambda>acc (k, v). dset acc k v) d m"

definition commit_durable :: "frame_env \<Rightarrow> journal_writer \<Rightarrow> commit_call \<Rightarrow> transaction_frame \<Rightarrow> journal_writer" where
  "commit_durable fe w c f = w\<lparr>jw_file := jw_file w @ tf_record f, jw_frames := jw_frames w @ [f],
     jw_sequence := tf_sequence f, jw_previous_hash := frame_hash fe f,
     jw_versions := dict_update (jw_versions w) (next_versions (cc_expected c))\<rparr>"

definition commit ::
  "writer_env \<Rightarrow> ('a, 'io) anchor_ops \<Rightarrow> journal_writer \<Rightarrow> 'a \<Rightarrow> commit_call \<Rightarrow> append_io \<Rightarrow> 'io \<Rightarrow>
     journal_writer \<times> 'a \<times> (journal_exn + transaction_frame \<times> commit_state)" where
  "commit we ao w a c wio aio =
     (case bindE (commit_checks we w c) (\<lambda>_. lift_frame (seal (we_frame we) (commit_args w c) (jw_key w))) of
        Inl e \<Rightarrow> (w, a, Inl e)
      | Inr f \<Rightarrow>
          (case wio of
             AppendFailed k \<Rightarrow>
               (w\<lparr>jw_file := jw_file w @ take k (tf_record f), jw_write_disabled := True\<rparr>, a, Inl JOSError)
           | Appended \<Rightarrow>
               (let w1 = commit_durable (we_frame we) w c f
                in case ao_cas ao a aio (tf_sequence f - 1) (tf_previous_hash f) (tf_sequence f)
                          (frame_hash (we_frame we) f) of
                     (a', Inr True) \<Rightarrow> (w1, a', Inr (f, ANCHORED))
                   | (a', _) \<Rightarrow> (w1\<lparr>jw_write_disabled := True\<rparr>, a', Inr (f, DURABLE_NOT_ANCHORED)))))"

definition replay ::
  "writer_env \<Rightarrow> ('a, 'io) anchor_ops \<Rightarrow> journal_writer \<Rightarrow> 'a \<Rightarrow> int \<Rightarrow> journal_writer \<times> (journal_exn + transaction_frame list)" where
  "replay we ao w a from_sequence =
     (if from_sequence < 1 then (w, Inl (JFrame (FrameValueError ''from_sequence must be >= 1'')))
      else case load_and_recover we ao a (jw_key w) (jw_file w) of
        (file, Inl e) \<Rightarrow> (w\<lparr>jw_file := file\<rparr>, Inl e)
      | (file, Inr frames) \<Rightarrow>
          (w\<lparr>jw_file := file\<rparr>, bindE (rebuild_aggregate_versions [] frames) (\<lambda>_.
             Inr (filter (\<lambda>f. from_sequence \<le> tf_sequence f) frames))))"

definition get_last_frame :: "journal_writer \<Rightarrow> transaction_frame option" where
  "get_last_frame w = (if jw_frames w = [] then None else Some (last (jw_frames w)))"

definition get_aggregate_versions :: "journal_writer \<Rightarrow> string list \<Rightarrow> (string, int) dict" where
  "get_aggregate_versions w ids = foldl (\<lambda>m k. dset m k (version_of (jw_versions w) k)) [] ids"

definition verify_chain ::
  "writer_env \<Rightarrow> ('a, 'io) anchor_ops \<Rightarrow> journal_writer \<Rightarrow> 'a \<Rightarrow> journal_writer \<times> (journal_exn + bool)" where
  "verify_chain we ao w a =
     (case replay we ao w a 1 of
        (w', Inr _) \<Rightarrow> (w', Inr True)
      | (w', Inl (JFrame (JournalIntegrityError m))) \<Rightarrow> (w', Inr False)
      | (w', Inl (JFrame (IncompleteFrameError m))) \<Rightarrow> (w', Inr False)
      | (w', Inl (AnchorMismatchError m)) \<Rightarrow> (w', Inr False)
      | (w', Inl e) \<Rightarrow> (w', Inl e))"

section \<open>Physical lines\<close>

definition closed_line :: "string \<Rightarrow> bool" where
  "closed_line l \<longleftrightarrow> l \<noteq> [] \<and> (\<forall>rest. first_line (l @ rest) = (l, rest))"

lemma first_line_append: "fst (first_line s) @ snd (first_line s) = s"
  by (induction s rule: first_line.induct) (auto split: prod.splits, metis list.collapse)

lemma concat_split_lines: "concat (split_lines s) = s"
proof (induction s rule: split_lines.induct)
  case (1 s)
  then show ?case by (subst split_lines.simps) (auto simp: first_line_append)
qed

lemma first_line_closed: "s \<noteq> [] \<Longrightarrow> ends_newline (fst (first_line s)) \<Longrightarrow> closed_line (fst (first_line s))"
proof (induction s rule: first_line.induct)
  case (2 c s)
  show ?case
  proof (cases "c = CHR 0x0A \<or> c = CHR 0x0D")
    case True
    with 2 show ?thesis by (auto simp: closed_line_def ends_newline_def split: if_splits)
  next
    case False
    obtain l r where lr: "first_line s = (l, r)" by fastforce
    from 2(3) False lr have "ends_newline (c # l)" by simp
    with False have l: "ends_newline l" "l \<noteq> []" by (auto simp: ends_newline_def split: if_splits)
    with lr have "s \<noteq> []" by auto
    with 2(1) False lr l have "closed_line l" by auto
    then show ?thesis using False lr by (auto simp: closed_line_def)
  qed
qed simp

lemma split_lines_closed: "l \<in> set (split_lines s) \<Longrightarrow> ends_newline l \<Longrightarrow> closed_line l"
proof (induction s rule: split_lines.induct)
  case (1 s)
  show ?case
  proof (cases "s = []")
    case True
    with 1(2) show ?thesis by (simp add: split_lines.simps)
  next
    case False
    with 1 show ?thesis by (subst (asm) (2) split_lines.simps) (auto intro: first_line_closed)
  qed
qed

lemma split_closed: "closed_line l \<Longrightarrow> split_lines (l @ s) = l # split_lines s"
  by (subst split_lines.simps) (simp add: closed_line_def)

lemma split_closed_lines: "list_all closed_line ls \<Longrightarrow> split_lines (concat ls @ s) = ls @ split_lines s"
  by (induction ls) (auto simp: split_closed)

lemma first_line_one_line: "one_line t \<Longrightarrow> first_line (t @ newline @ s) = (t @ newline, s)" "one_line t \<Longrightarrow> first_line t = (t, [])"
  by (induction t) (auto simp: newline_def)

lemma closed_one_line: "one_line t \<Longrightarrow> closed_line (t @ newline)"
  by (simp add: closed_line_def first_line_one_line)

lemma split_one_line: "one_line p \<Longrightarrow> p \<noteq> [] \<Longrightarrow> split_lines p = [p]"
  by (subst split_lines.simps) (simp add: first_line_one_line split_lines.simps)

lemma not_blank: "s \<noteq> [] \<Longrightarrow> hd s = CHR ''{'' \<Longrightarrow> \<not> blank s"
  by (cases s) (auto simp: blank_def byte_whitespace_def)

section \<open>The chain of frames\<close>

fun chain :: "frame_env \<Rightarrow> string \<Rightarrow> int \<Rightarrow> transaction_frame list \<Rightarrow> bool" where
  "chain fe ph n [] = True"
| "chain fe ph n (f # fs) =
     (tf_sequence f = n \<and> tf_previous_hash f = ph \<and> chain fe (frame_hash fe f) (n + 1) fs)"

lemma chain_snoc: "chain fe ph n (fs @ [f]) \<longleftrightarrow> chain fe ph n fs \<and> tf_sequence f = n + int (length fs) \<and>
    tf_previous_hash f = (if fs = [] then ph else frame_hash fe (last fs))"
  by (induction fs arbitrary: ph n) auto

lemma chain_last: "chain fe GENESIS_HASH 1 fs \<Longrightarrow> last_sequence fs = int (length fs)"
  by (induction fs rule: rev_induct) (auto simp: chain_snoc last_sequence_def)

lemma chain_head:
  "chain fe GENESIS_HASH 1 (fs @ [f]) \<longleftrightarrow> chain fe GENESIS_HASH 1 fs \<and> tf_sequence f = last_sequence fs + 1 \<and>
     tf_previous_hash f = head_hash fe fs"
  by (auto simp: chain_snoc head_hash_def chain_last)

definition stored :: "frame_env \<Rightarrow> string \<Rightarrow> transaction_frame \<Rightarrow> bool" where
  "stored fe key f \<longleftrightarrow> closed_line (tf_record f) \<and> \<not> blank (tf_record f) \<and> decode_frame fe (tf_record f) key False = Inr f"

section \<open>What recovery accepts\<close>

lemma recover_loop_Inr:
  assumes "recover_loop we key ls ph n acc len = Inr (fs, len', tail)"
    and "\<And>l. l \<in> set ls \<Longrightarrow> ends_newline l \<Longrightarrow> closed_line l"
  shows "\<exists>new. fs = acc @ new \<and> chain (we_frame we) ph n new \<and> list_all (stored (we_frame we) key) new \<and>
    len' = len + length (concat (map tf_record new)) \<and> prefix (concat (map tf_record new)) (concat ls) \<and>
    (\<not> tail \<longrightarrow> concat (map tf_record new) = concat ls)"
  using assms
proof (induction ls arbitrary: ph n acc len)
  case (Cons l ls)
  show ?case
  proof (cases "\<not> blank l \<and> (\<exists>f. decode_frame (we_frame we) l key False = Inr f)")
    case True
    then obtain f where d: "decode_frame (we_frame we) l key False = Inr f" and nb: "\<not> blank l" by blast
    note rec = decode_frame_InrD [OF d]
    from Cons.prems(1) d nb have "recover_loop we key ls (frame_hash (we_frame we) f) (n + 1) (acc @ [f]) (len + length l) = Inr (fs, len', tail)"
      and f: "tf_sequence f = n" "tf_previous_hash f = ph"
      by (auto simp: bindE_Inr_iff split: if_splits)
    from Cons.IH [OF this(1)] Cons.prems(2) obtain new where
      new: "fs = (acc @ [f]) @ new" "chain (we_frame we) (frame_hash (we_frame we) f) (n + 1) new"
        "list_all (stored (we_frame we) key) new" "len' = len + length l + length (concat (map tf_record new))"
        "prefix (concat (map tf_record new)) (concat ls)" "\<not> tail \<longrightarrow> concat (map tf_record new) = concat ls"
      by auto
    have "stored (we_frame we) key f"
      using d nb rec(1,4) Cons.prems(2) by (auto simp: stored_def)
    with new f rec(1) show ?thesis by (intro exI [of _ "f # new"]) auto
  next
    case False
    with Cons.prems(1) have "fs = acc \<and> len' = len \<and> tail"
      by (auto split: if_splits sum.splits frame_exn.splits)
    then show ?thesis by (intro exI [of _ "[]"]) auto
  qed
qed auto

lemma load_and_recover_Inr:
  assumes "load_and_recover we ao a key raw = (file, Inr fs)"
  shows "chain (we_frame we) GENESIS_HASH 1 fs \<and> list_all (stored (we_frame we) key) fs \<and> file = concat (map tf_record fs)"
proof (cases "raw = [] \<or> list_all blank (split_lines raw)")
  case True
  with assms show ?thesis by (auto simp: load_and_recover_def Let_def split: sum.splits if_splits)
next
  case False
  with assms obtain len tail where r: "recover_loop we key (split_lines raw) GENESIS_HASH 1 [] 0 = Inr (fs, len, tail)"
    and fl: "file = (if tail then take len raw else raw)"
    by (auto simp: load_and_recover_def Let_def split: sum.splits if_splits prod.splits bool.splits)
  from recover_loop_Inr [OF r] split_lines_closed obtain "chain (we_frame we) GENESIS_HASH 1 fs"
    "list_all (stored (we_frame we) key) fs" "len = length (concat (map tf_record fs))"
    "prefix (concat (map tf_record fs)) raw" "\<not> tail \<longrightarrow> concat (map tf_record fs) = raw"
    by (auto simp: concat_split_lines)
  with fl show ?thesis by (auto simp: prefix_def)
qed

section \<open>Aggregate versions\<close>

definition versions_nonneg :: "(string, int) dict \<Rightarrow> bool" where
  "versions_nonneg vs \<longleftrightarrow> (\<forall>k. 0 \<le> version_of vs k)"

lemma version_of_dset: "version_of (dset vs k v) j = (if j = k then v else version_of vs j)"
  by (simp add: version_of_def)

lemma bump_nonneg:
  assumes "list_all (\<lambda>(k, e). 0 \<le> e) expected"
  shows "versions_nonneg vs \<Longrightarrow> bump_versions expected vs m = Inr vs' \<Longrightarrow> versions_nonneg vs'"
proof (induction m arbitrary: vs)
  case (Cons kv m)
  obtain k v where kv: "kv = (k, v)" by (cases kv)
  have "0 \<le> (case dget expected k of None \<Rightarrow> version_of vs k | Some n \<Rightarrow> n)"
    using Cons.prems(1) assms
    by (auto simp: versions_nonneg_def list_all_iff split: option.split dest: map_of_SomeD)
  with Cons.prems kv have "versions_nonneg (dset vs k v)" "bump_versions expected (dset vs k v) m = Inr vs'"
    by (auto simp: Let_def versions_nonneg_def version_of_dset split: if_splits)
  then show ?case by (rule Cons.IH)
qed simp

lemma rebuild_frame_nonneg:
  assumes "versions_nonneg vs" and r: "rebuild_frame vs f = Inr vs'"
  shows "versions_nonneg vs'"
proof (rule bump_nonneg)
  from r show "bump_versions (tf_expected_versions f) vs (tf_aggregate_versions f) = Inr vs'"
    by (simp add: rebuild_frame_def Let_def split: if_splits)
  from assms show "list_all (\<lambda>(k, e). 0 \<le> e) (tf_expected_versions f)"
    by (auto simp: rebuild_frame_def Let_def list_all_iff versions_nonneg_def split: if_splits)
qed fact

lemma rebuild_nonneg: "versions_nonneg vs \<Longrightarrow> rebuild_aggregate_versions vs fs = Inr vs' \<Longrightarrow> versions_nonneg vs'"
  by (induction fs arbitrary: vs) (auto simp: bindE_Inr_iff intro: rebuild_frame_nonneg)

lemma rebuild_snoc:
  "rebuild_aggregate_versions vs (fs @ [f]) = bindE (rebuild_aggregate_versions vs fs) (\<lambda>vs'. rebuild_frame vs' f)"
proof (induction fs arbitrary: vs)
  case Nil
  then show ?case by (cases "rebuild_frame vs f") simp_all
next
  case (Cons g fs)
  then show ?case by (cases "rebuild_frame vs g") simp_all
qed

lemma bump_versions_next:
  assumes "\<And>k v. (k, v) \<in> set m \<Longrightarrow> \<exists>e. dget expected k = Some e \<and> v = e + 1" and "dict_ok m"
  shows "\<exists>vs'. bump_versions expected vs m = Inr vs' \<and>
    version_of vs' = (\<lambda>k. case dget m k of None \<Rightarrow> version_of vs k | Some v \<Rightarrow> v)"
  using assms
proof (induction m arbitrary: vs)
  case (Cons kv m)
  obtain k v where kv: "kv = (k, v)" by (cases kv)
  from Cons.prems(1) [of k v] obtain e where e: "dget expected k = Some e" "v = e + 1" by (auto simp: kv)
  have m: "\<exists>e. dget expected j = Some e \<and> u = e + 1" if "(j, u) \<in> set m" for j u
    using Cons.prems(1) [of j u] that by simp
  have m2: "dict_ok m" "k \<notin> fst ` set m" using Cons.prems(2) by (simp_all add: dict_ok_def kv)
  from Cons.IH [OF m m2(1), of "dset vs k v"] obtain vs' where
    v: "bump_versions expected (dset vs k v) m = Inr vs'"
      "version_of vs' = (\<lambda>j. case dget m j of None \<Rightarrow> version_of (dset vs k v) j | Some v \<Rightarrow> v)" by blast
  from m2(2) have "dget m k = None" by (simp add: map_of_eq_None_iff)
  with v(2) have "version_of vs' = (\<lambda>j. case dget (kv # m) j of None \<Rightarrow> version_of vs j | Some v \<Rightarrow> v)"
    by (auto simp: kv version_of_dset fun_eq_iff split: option.split)
  with v(1) e show ?case by (simp add: kv)
qed simp

lemma dget_map_snd: "dget (map (map_prod id g) m) k = map_option g (dget m k)"
  by (induction m) auto

lemma fold_dset: "dict_ok m \<Longrightarrow> version_of (dict_update d m) = (\<lambda>k. case dget m k of None \<Rightarrow> version_of d k | Some v \<Rightarrow> v)"
  unfolding dict_update_def
proof (induction m arbitrary: d)
  case (Cons kv m)
  obtain k v where kv: "kv = (k, v)" by (cases kv)
  with Cons.prems have m: "dict_ok m" "dget m k = None" by (auto simp: dict_ok_def map_of_eq_None_iff)
  from Cons.IH [OF m(1), of "dset d k v"] kv m(2) show ?case
    by (auto simp: version_of_dset fun_eq_iff split: option.split)
qed simp

section \<open>The invariant of a writer\<close>

definition journal_inv :: "writer_env \<Rightarrow> journal_writer \<Rightarrow> bool" where
  "journal_inv we w \<longleftrightarrow> jw_file w = concat (map tf_record (jw_frames w)) \<and>
     chain (we_frame we) GENESIS_HASH 1 (jw_frames w) \<and> list_all (stored (we_frame we) (jw_key w)) (jw_frames w) \<and>
     jw_sequence w = last_sequence (jw_frames w) \<and> jw_previous_hash w = head_hash (we_frame we) (jw_frames w) \<and>
     (\<exists>vs. rebuild_aggregate_versions [] (jw_frames w) = Inr vs \<and> version_of vs = version_of (jw_versions w)) \<and>
     32 \<le> length (jw_key w) \<and> 0 \<le> jw_epoch w"

definition head_of :: "journal_writer \<Rightarrow> anchor_state" where
  "head_of w = \<lparr>an_sequence = jw_sequence w, an_frame_hash = jw_previous_hash w\<rparr>"

lemma lift_anchor_Inr [simp]: "lift_anchor x = Inr y \<longleftrightarrow> x = Inr y"
  by (cases x) auto

lemma open_writer_Inr:
  assumes "open_writer we ao a key epoch lf raw = (file, Inr w)"
  shows "journal_inv we w \<and> ao_read ao a = Inr (head_of w) \<and> jw_file w = file \<and> jw_key w = key \<and>
    \<not> jw_closed w \<and> \<not> jw_write_disabled w"
proof -
  from assms obtain fs where l: "load_and_recover we ao a key raw = (file, Inr fs)"
    and w: "bindE (rebuild_aggregate_versions [] fs) (\<lambda>versions.
           bindE (verify_anchor ao a (last_sequence fs) (head_hash (we_frame we) fs)) (\<lambda>_.
           Inr \<lparr>jw_file = file, jw_frames = fs, jw_sequence = last_sequence fs,
                jw_previous_hash = head_hash (we_frame we) fs, jw_versions = versions, jw_closed = False,
                jw_write_disabled = False, jw_key = key, jw_epoch = epoch\<rparr>)) = Inr w"
    and g: "32 \<le> length key" "0 \<le> epoch"
    by (auto simp: open_writer_def split: if_splits prod.splits sum.splits)
  from w load_and_recover_Inr [OF l] g show ?thesis
    by (auto simp: bindE_Inr_iff verify_anchor_def journal_inv_def head_of_def)
qed

section \<open>The anchor determines the journal\<close>

lemma stored_record_inj:
  assumes "stored fe key f" and "stored fe key g" and "tf_record f = tf_record g"
  shows "f = g"
  using assms by (auto simp: stored_def)

lemma chain_unique:
  assumes "list_all (stored fe key) fs" and "list_all (stored fe key) gs"
    and "chain fe GENESIS_HASH 1 fs" and "chain fe GENESIS_HASH 1 gs" and "length fs = length gs"
    and "head_hash fe fs = head_hash fe gs"
    and "inj_on (fe_sha256 fe) (tf_record ` (set fs \<union> set gs))"
  shows "fs = gs"
  using assms
proof (induction fs arbitrary: gs rule: rev_induct)
  case (snoc f fs)
  then obtain g gs' where gs: "gs = gs' @ [g]" by (cases gs rule: rev_cases) auto
  from snoc.prems(6) have "fe_sha256 fe (tf_record f) = fe_sha256 fe (tf_record g)"
    by (simp add: gs head_hash_def frame_hash_def record_hash_def)
  moreover have "tf_record f \<in> tf_record ` (set (fs @ [f]) \<union> set gs)" "tf_record g \<in> tf_record ` (set (fs @ [f]) \<union> set gs)"
    by (auto simp: gs)
  ultimately have "tf_record f = tf_record g" using inj_onD [OF snoc.prems(7)] by blast
  then have fg: "f = g" using snoc.prems(1,2) gs by (auto intro: stored_record_inj)
  have "fs = gs'"
  proof (rule snoc.IH)
    show "head_hash fe fs = head_hash fe gs'" using snoc.prems(3,4) fg by (simp add: gs chain_head)
    show "inj_on (fe_sha256 fe) (tf_record ` (set fs \<union> set gs'))"
      by (rule inj_on_subset [OF snoc.prems(7)]) (auto simp: gs)
  qed (use snoc.prems gs in \<open>auto simp: chain_head\<close>)
  with fg gs show ?case by simp
qed simp

section \<open>Recovery of what was written\<close>

definition blobs_published :: "writer_env \<Rightarrow> transaction_frame list \<Rightarrow> bool" where
  "blobs_published we fs \<longleftrightarrow> list_all (\<lambda>f. validate_blob_refs we (tf_events f) = Inr ()) fs"

lemma recover_loop_frames:
  assumes "list_all (stored (we_frame we) key) fs" and "blobs_published we fs" and "chain (we_frame we) ph n fs"
  shows "recover_loop we key (map tf_record fs @ ls) ph n acc len =
    recover_loop we key ls (if fs = [] then ph else frame_hash (we_frame we) (last fs)) (n + int (length fs)) (acc @ fs)
      (len + length (concat (map tf_record fs)))"
  using assms
  by (induction fs arbitrary: ph n acc len) (auto simp: blobs_published_def stored_def ac_simps)

lemma load_stored:
  assumes st: "list_all (stored (we_frame we) key) fs" and bl: "blobs_published we fs"
    and ch: "chain (we_frame we) GENESIS_HASH 1 fs" and rd: "ao_read ao a = Inr s"
  shows "load_and_recover we ao a key (concat (map tf_record fs)) = (concat (map tf_record fs), Inr fs)"
proof (cases "fs = []")
  case True
  then show ?thesis by (simp add: load_and_recover_def)
next
  case False
  have lines: "split_lines (concat (map tf_record fs)) = map tf_record fs"
    using split_closed_lines [of "map tf_record fs" "[]"] st
    by (simp add: list_all_iff stored_def split_lines.simps [of "[]"])
  from False obtain g gs where gs: "fs = g # gs" by (cases fs) auto
  with st have nb: "\<not> list_all blank (map tf_record fs)" "concat (map tf_record fs) \<noteq> []"
    by (auto simp: stored_def closed_line_def)
  have "recover_loop we key (map tf_record fs) GENESIS_HASH 1 [] 0 = Inr (fs, length (concat (map tf_record fs)), False)"
    using recover_loop_frames [OF st bl ch, of "[]" "[]" 0] by simp
  with nb rd show ?thesis by (simp only: load_and_recover_def lines Let_def) simp
qed

lemma load_torn:
  assumes st: "list_all (stored (we_frame we) key) fs" and bl: "blobs_published we fs"
    and ch: "chain (we_frame we) GENESIS_HASH 1 fs" and rd: "ao_read ao a = Inr s"
    and low: "an_sequence s \<le> last_sequence fs"
    and p: "p \<noteq> []" "one_line p" "\<not> blank p" "decode_frame (we_frame we) p key False = Inl (IncompleteFrameError m)"
  shows "load_and_recover we ao a key (concat (map tf_record fs) @ p) = (concat (map tf_record fs), Inr fs)"
proof -
  have lines: "split_lines (concat (map tf_record fs) @ p) = map tf_record fs @ [p]"
    using split_closed_lines [of "map tf_record fs" p] st p
    by (simp add: list_all_iff stored_def split_one_line)
  have "recover_loop we key (map tf_record fs @ [p]) GENESIS_HASH 1 [] 0 = Inr (fs, length (concat (map tf_record fs)), True)"
    using recover_loop_frames [OF st bl ch, of "[p]" "[]" 0] p by simp
  with p rd low show ?thesis by (simp add: load_and_recover_def lines Let_def)
qed

section \<open>Committing a transaction\<close>

definition call_ok :: "frame_env \<Rightarrow> commit_call \<Rightarrow> bool" where
  "call_ok fe c \<longleftrightarrow> dict_ok (cc_expected c) \<and> list_all (event_ok fe) (cc_events c) \<and> cc_tx_id c \<noteq> [] \<and>
     utf8_ok (cc_tx_id c) \<and> list_all event_text (cc_events c)"

lemma commit_checks_Inr:
  assumes "commit_checks we w c = Inr u"
  shows "\<not> jw_closed w \<and> \<not> jw_write_disabled w \<and> cc_events c \<noteq> [] \<and>
    set (dkeys (cc_expected c)) = set (map je_aggregate_id (cc_events c)) \<and>
    (\<forall>k e. (k, e) \<in> set (cc_expected c) \<longrightarrow> e = version_of (jw_versions w) k)"
  using assms by (auto simp: commit_checks_def bindE_Inr_iff ensure_writable_def list_all_iff)

lemma journal_versions_nonneg:
  assumes "journal_inv we w"
  shows "0 \<le> version_of (jw_versions w) k"
proof -
  obtain vs where vs: "rebuild_aggregate_versions [] (jw_frames w) = Inr vs" "version_of vs = version_of (jw_versions w)"
    using assms by (auto simp: journal_inv_def)
  have "versions_nonneg []" by (simp add: versions_nonneg_def version_of_def)
  from rebuild_nonneg [OF this vs(1)] vs(2) show ?thesis by (simp add: versions_nonneg_def)
qed

lemma dict_ok_next [simp]: "dict_ok (next_versions m) = dict_ok m"
  by (simp add: dict_ok_def next_versions_def comp_def)

lemma commit_args_ok:
  assumes inv: "journal_inv we w" and dg: "digests_ok (we_frame we)" and ck: "commit_checks we w c = Inr u"
    and c: "call_ok (we_frame we) c"
  shows "args_ok (we_frame we) (commit_args w c)"
proof -
  note ch = commit_checks_Inr [OF ck]
  have "k \<noteq> [] \<and> 0 \<le> e" if "(k, e) \<in> set (cc_expected c)" for k e
  proof -
    from that have "k \<in> set (dkeys (cc_expected c))" by force
    with ch c have "k \<noteq> []" by (auto simp: call_ok_def list_all_iff event_ok_def)
    moreover from ch that journal_versions_nonneg [OF inv, of k] have "0 \<le> e" by simp
    ultimately show ?thesis by simp
  qed
  then have "versions_ok (cc_expected c) \<and> versions_ok (next_versions (cc_expected c))"
    using c by (auto simp: versions_ok_def call_ok_def list_all_iff next_versions_def) (fastforce simp: dict_ok_def comp_def)+
  moreover have "valid_hash_str (jw_previous_hash w)" "0 \<le> jw_sequence w"
    using inv dg by (auto simp: journal_inv_def head_hash_def frame_hash_def record_hash_def digests_ok_def chain_last)
  ultimately show ?thesis using c ch inv by (auto simp: args_ok_def commit_args_def call_ok_def journal_inv_def)
qed

lemma commit_args_text:
  assumes "commit_checks we w c = Inr u" and "call_ok (we_frame we) c"
  shows "args_text (commit_args w c)"
proof -
  have "utf8_ok k" if "k \<in> set (dkeys (cc_expected c))" for k
    using that commit_checks_Inr [OF assms(1)] assms(2) by (auto simp: call_ok_def list_all_iff event_text_def)
  then show ?thesis using assms(2) by (auto simp: args_text_def commit_args_def call_ok_def next_versions_def list_all_iff)
qed

lemma sealed_frame_fields:
  assumes "sealed_as fe a key f"
  shows "tf_sequence f = fa_sequence a" "tf_previous_hash f = fa_previous_hash a"
    "tf_expected_versions f = sort_key fst (fa_expected a)" "tf_aggregate_versions f = sort_key fst (fa_aggregate a)"
    "tf_events f = map norm_event (fa_events a)"
proof -
  obtain n c h where s: "f = sealed_frame a n c h (tf_record f)" using assms unfolding sealed_as_def by blast
  show "tf_sequence f = fa_sequence a" "tf_previous_hash f = fa_previous_hash a"
    "tf_expected_versions f = sort_key fst (fa_expected a)" "tf_aggregate_versions f = sort_key fst (fa_aggregate a)"
    "tf_events f = map norm_event (fa_events a)"
    by (subst s, simp add: sealed_frame_def)+
qed

lemma rebuild_committed:
  assumes vs: "version_of vs = version_of (jw_versions w)" and ck: "commit_checks we w c = Inr u"
    and ok: "dict_ok (cc_expected c)" and f: "sealed_as fe (commit_args w c) key f"
  shows "\<exists>vs'. rebuild_frame vs f = Inr vs' \<and> version_of vs' = version_of (dict_update (jw_versions w) (next_versions (cc_expected c)))"
proof -
  let ?e = "cc_expected c"
  note ff = sealed_frame_fields [OF f, unfolded commit_args_def, simplified]
  note ch = commit_checks_Inr [OF ck]
  have ids: "set (map je_aggregate_id (tf_events f)) = fst ` set ?e"
    using ch by (simp add: ff norm_event_def image_image)
  have "\<exists>vs'. bump_versions (sort_key fst ?e) vs (sort_key fst (next_versions ?e)) = Inr vs' \<and>
    version_of vs' = (\<lambda>k. case dget (sort_key fst (next_versions ?e)) k of None \<Rightarrow> version_of (jw_versions w) k | Some v \<Rightarrow> v)"
    unfolding vs [symmetric]
  proof (rule bump_versions_next)
    show "\<exists>e. dget (sort_key fst ?e) k = Some e \<and> v = e + 1" if kv: "(k, v) \<in> set (sort_key fst (next_versions ?e))" for k v
    proof -
      from kv obtain e where "(k, e) \<in> set ?e" "v = e + 1" by (auto simp: next_versions_def)
      moreover from this ok have "dget ?e k = Some e" by (simp add: dict_ok_def)
      ultimately show ?thesis using ok by (simp add: dget_sort dict_ok_def)
    qed
    show "dict_ok (sort_key fst (next_versions ?e))" using ok dict_ok_next [of ?e]
      by (simp add: dict_ok_def distinct_map_fst_sort)
  qed
  moreover have "dget (sort_key fst (next_versions ?e)) k = dget (next_versions ?e) k" for k
    using ok dict_ok_next [of ?e] by (simp add: dict_ok_def dget_sort)
  moreover have "fst ` set (next_versions ?e) = fst ` set ?e" by (simp add: next_versions_def image_image)
  moreover have "list_all (\<lambda>(k, e). version_of vs k = e) (sort_key fst ?e)"
    using ch vs by (auto simp: list_all_iff)
  ultimately show ?thesis using ids vs ok
    by (simp add: rebuild_frame_def ff Let_def fold_dset)
qed

lemma commit_seals:
  assumes inv: "journal_inv we w" and dg: "digests_ok (we_frame we)" and ck: "commit_checks we w c = Inr u"
    and c: "call_ok (we_frame we) c" and fl: "floats_ok (we_frame we)"
  obtains f where "seal (we_frame we) (commit_args w c) (jw_key w) = Inr f"
    and "sealed_as (we_frame we) (commit_args w c) (jw_key w) f"
    and "journal_inv we (commit_durable (we_frame we) w c f)"
    and "tf_sequence f = jw_sequence w + 1" and "tf_previous_hash f = jw_previous_hash w"
proof -
  let ?fe = "we_frame we"
  have key: "32 \<le> length (jw_key w)" using inv by (simp add: journal_inv_def)
  obtain f where f: "seal ?fe (commit_args w c) (jw_key w) = Inr f" "sealed_as ?fe (commit_args w c) (jw_key w) f"
    using seal_decodes [OF commit_args_ok [OF inv dg ck c] dg key
        reads_sealed_text [OF commit_args_ok [OF inv dg ck c] dg fl commit_args_text [OF ck c]]] by blast
  note ff = sealed_frame_fields [OF f(2), unfolded commit_args_def, simplified]
  obtain t where t: "tf_record f = t @ newline" "one_line t" "t \<noteq> []" "hd t = CHR ''{''"
    using f(2) unfolding sealed_as_def by blast
  have dec: "decode_frame ?fe (tf_record f) (jw_key w) False = Inr f"
    using f(2) by (simp add: sealed_as_def commit_args_def)
  have st: "stored ?fe (jw_key w) f"
    unfolding stored_def using closed_one_line [OF t(2)] not_blank [of "tf_record f"] t dec by simp
  obtain vs where vs: "rebuild_aggregate_versions [] (jw_frames w) = Inr vs" "version_of vs = version_of (jw_versions w)"
    using inv by (auto simp: journal_inv_def)
  have "dict_ok (cc_expected c)" using c by (simp add: call_ok_def)
  from rebuild_committed [OF vs(2) ck this f(2)] obtain vs' where
    vs': "rebuild_frame vs f = Inr vs'" "version_of vs' = version_of (dict_update (jw_versions w) (next_versions (cc_expected c)))"
    by blast
  have "chain ?fe GENESIS_HASH 1 (jw_frames w @ [f])"
    using inv by (simp add: chain_head ff journal_inv_def)
  with inv st vs vs' have "journal_inv we (commit_durable ?fe w c f)"
    by (simp add: journal_inv_def commit_durable_def rebuild_snoc last_sequence_def head_hash_def)
  with f ff(1,2) that show thesis by blast
qed

section \<open>Reopening\<close>

definition reopened ::
  "writer_env \<Rightarrow> ('a, 'io) anchor_ops \<Rightarrow> 'a \<Rightarrow> int \<Rightarrow> journal_writer \<Rightarrow> transaction_frame list \<Rightarrow> bool" where
  "reopened we ao a ep w fs \<longleftrightarrow> (\<exists>w1. open_writer we ao a (jw_key w) ep True (jw_file w) =
     (concat (map tf_record fs), Inr w1) \<and> jw_frames w1 = fs)"

definition fails_closed ::
  "writer_env \<Rightarrow> ('a, 'io) anchor_ops \<Rightarrow> 'a \<Rightarrow> int \<Rightarrow> journal_writer \<Rightarrow> bool" where
  "fails_closed we ao a ep w \<longleftrightarrow> (\<exists>m. open_writer we ao a (jw_key w) ep True (jw_file w) = (jw_file w, Inl (AnchorMismatchError m)))"

lemma open_loaded:
  assumes "load_and_recover we ao a (jw_key w) (jw_file w) = (concat (map tf_record fs), Inr fs)"
    and "rebuild_aggregate_versions [] fs = Inr vs" and "ao_read ao a = Inr s"
    and "32 \<le> length (jw_key w)" and "0 \<le> ep"
  shows "s = \<lparr>an_sequence = last_sequence fs, an_frame_hash = head_hash (we_frame we) fs\<rparr> \<Longrightarrow> reopened we ao a ep w fs"
    and "s \<noteq> \<lparr>an_sequence = last_sequence fs, an_frame_hash = head_hash (we_frame we) fs\<rparr> \<Longrightarrow>
      jw_file w = concat (map tf_record fs) \<Longrightarrow> fails_closed we ao a ep w"
  using assms by (simp_all add: reopened_def fails_closed_def open_writer_def verify_anchor_def)

lemma reopen_inv:
  assumes inv: "journal_inv we w" and bl: "blobs_published we (jw_frames w)" and rd: "ao_read ao a = Inr s" and ep: "0 \<le> ep"
  shows "if s = head_of w then reopened we ao a ep w (jw_frames w) else fails_closed we ao a ep w"
proof -
  obtain vs where vs: "rebuild_aggregate_versions [] (jw_frames w) = Inr vs" using inv by (auto simp: journal_inv_def)
  have "load_and_recover we ao a (jw_key w) (jw_file w) = (concat (map tf_record (jw_frames w)), Inr (jw_frames w))"
    using load_stored [OF _ bl _ rd, of "jw_key w"] inv by (simp add: journal_inv_def)
  from open_loaded [OF this vs rd _ ep] inv show ?thesis by (auto simp: journal_inv_def head_of_def)
qed

lemma reopen_torn:
  assumes inv: "journal_inv we w" and bl: "blobs_published we (jw_frames w)" and rd: "ao_read ao a = Inr (head_of w)"
    and ep: "0 \<le> ep" and f: "sealed_as (we_frame we) (commit_args w c) (jw_key w) f" and k: "k < length (tf_record f)"
    and w': "jw_file w' = jw_file w @ take k (tf_record f)" "jw_key w' = jw_key w"
  shows "reopened we ao a ep w' (jw_frames w)"
proof -
  let ?p = "take k (tf_record f)"
  obtain vs where vs: "rebuild_aggregate_versions [] (jw_frames w) = Inr vs" using inv by (auto simp: journal_inv_def)
  have st: "list_all (stored (we_frame we) (jw_key w)) (jw_frames w)" and ch: "chain (we_frame we) GENESIS_HASH 1 (jw_frames w)"
    using inv by (auto simp: journal_inv_def)
  have load: "load_and_recover we ao a (jw_key w') (jw_file w') = (concat (map tf_record (jw_frames w)), Inr (jw_frames w))"
  proof (cases "?p = []")
    case True
    then have "jw_file w' = jw_file w" using w'(1) by (simp only: append_Nil2)
    then show ?thesis using load_stored [OF st bl ch rd] inv w'(2) by (simp add: journal_inv_def)
  next
    case False
    obtain t where t: "tf_record f = t @ newline" "one_line t" "t \<noteq> []" "hd t = CHR ''{''"
      using f unfolding sealed_as_def by blast
    from k t(1) have p: "?p = take k t" by (simp add: newline_def)
    have "strict_prefix ?p (tf_record f)" using k by (metis take_is_prefix strict_prefix_def length_take min.absorb4 less_irrefl)
    then obtain m where m: "decode_frame (we_frame we) ?p (jw_key w) False = Inl (IncompleteFrameError m)"
      using f unfolding sealed_as_def by blast
    have "one_line ?p" using t(2) unfolding p by (auto simp: one_line_def dest: in_set_takeD)
    moreover have "\<not> blank ?p" using False t(3,4) unfolding p by (intro not_blank) auto
    ultimately show ?thesis using load_torn [OF st bl ch rd _ False _ _ m] inv w'
      by (simp add: journal_inv_def head_of_def)
  qed
  show ?thesis using open_loaded(1) [OF load vs rd _ ep] inv w'(2) by (simp add: journal_inv_def head_of_def)
qed

lemma commit_appended:
  assumes "commit_checks we w c = Inr ()" and "seal (we_frame we) (commit_args w c) (jw_key w) = Inr f"
    and "ao_cas ao a aio (tf_sequence f - 1) (tf_previous_hash f) (tf_sequence f) (frame_hash (we_frame we) f) = (a', cr)"
  shows "commit we ao w a c Appended aio =
    (if cr = Inr True then (commit_durable (we_frame we) w c f, a', Inr (f, ANCHORED))
     else ((commit_durable (we_frame we) w c f)\<lparr>jw_write_disabled := True\<rparr>, a', Inr (f, DURABLE_NOT_ANCHORED)))"
  using assms by (simp add: commit_def Let_def split: sum.split bool.split)

text \<open>
  C1. Commits survive crashes: take a writer that agrees with its anchor, and a commit that passes its
  checks. If the append stops short of the whole record, reopening the file recovers exactly the frames
  before the commit and cuts the torn bytes off. If the record is complete, the anchor either still holds the
  old head, and then reopening fails closed with an anchor mismatch, or holds the new one, and then
  reopening gives the frames before the commit and the new one; a commit reported as anchored is always in
  the last case. This holds for every anchor that keeps its contract, whatever its writes do.
\<close>

theorem commit_crash_safe:
  assumes prov: "anchor_provider (ao_read ao) (ao_cas ao)" and dg: "digests_ok (we_frame we)"
    and inv: "journal_inv we w" and rd: "ao_read ao a = Inr (head_of w)" and ck: "commit_checks we w c = Inr ()"
    and c: "call_ok (we_frame we) c" and rs: "floats_ok (we_frame we)"
    and bl: "blobs_published we (jw_frames w)" and blf: "validate_blob_refs we (map norm_event (cc_events c)) = Inr ()"
    and ep: "0 \<le> ep" and run: "commit we ao w a c wio aio = (w', a', r)"
  shows "\<exists>f. seal (we_frame we) (commit_args w c) (jw_key w) = Inr f \<and>
    (case wio of
       AppendFailed k \<Rightarrow> if k < length (tf_record f) then reopened we ao a' ep w' (jw_frames w)
                         else fails_closed we ao a' ep w'
     | Appended \<Rightarrow> (ao_read ao a' = Inr (head_of w) \<and> fails_closed we ao a' ep w' \<or>
                    ao_read ao a' = Inr (head_of w') \<and> reopened we ao a' ep w' (jw_frames w @ [f])) \<and>
                   (r = Inr (f, ANCHORED) \<longrightarrow> reopened we ao a' ep w' (jw_frames w @ [f])))"
proof -
  let ?fe = "we_frame we"
  obtain f where f: "seal ?fe (commit_args w c) (jw_key w) = Inr f" "sealed_as ?fe (commit_args w c) (jw_key w) f"
    "journal_inv we (commit_durable ?fe w c f)" "tf_sequence f = jw_sequence w + 1" "tf_previous_hash f = jw_previous_hash w"
    by (rule commit_seals [OF inv dg ck c rs])
  let ?w = "commit_durable ?fe w c f"
  have fr: "jw_frames ?w = jw_frames w @ [f]" "jw_key ?w = jw_key w" "jw_sequence ?w = jw_sequence w + 1"
    "jw_file ?w = jw_file w @ tf_record f"
    using f(4) by (simp_all add: commit_durable_def)
  have bl1: "blobs_published we (jw_frames ?w)"
    using bl blf sealed_frame_fields(5) [OF f(2)] by (simp add: fr blobs_published_def commit_args_def)
  have ne: "head_of w \<noteq> head_of ?w" by (simp add: head_of_def fr)
  have same: "reopened we ao x ep v fs \<longleftrightarrow> reopened we ao x ep ?w fs" "fails_closed we ao x ep v \<longleftrightarrow> fails_closed we ao x ep ?w"
    if "jw_key v = jw_key w" "jw_file v = jw_file ?w" for x v fs
    using that by (simp_all add: reopened_def fails_closed_def fr)
  show ?thesis
  proof (cases wio)
    case (AppendFailed k)
    with run ck f(1) have w': "jw_file w' = jw_file w @ take k (tf_record f)" "jw_key w' = jw_key w" "a' = a"
      by (auto simp: commit_def)
    have "fails_closed we ao a' ep w'" if "\<not> k < length (tf_record f)"
    proof -
      have full: "jw_file w' = jw_file ?w" using w'(1) that by (simp add: fr(4))
      from reopen_inv [OF f(3) bl1 rd ep] ne show ?thesis unfolding same(2) [OF w'(2) full] w'(3) by simp
    qed
    moreover have "reopened we ao a' ep w' (jw_frames w)" if "k < length (tf_record f)"
      using reopen_torn [OF inv bl rd ep f(2) that w'(1,2)] w'(3) by simp
    ultimately show ?thesis using f(1) AppendFailed by (intro exI [of _ f]) simp
  next
    case Appended
    obtain a2 cr where cas2: "ao_cas ao a aio (tf_sequence f - 1) (tf_previous_hash f) (tf_sequence f) (frame_hash ?fe f) = (a2, cr)"
      by (cases "ao_cas ao a aio (tf_sequence f - 1) (tf_previous_hash f) (tf_sequence f) (frame_hash ?fe f)")
    note res = commit_appended [OF ck f(1) cas2] run [unfolded Appended]
    have cas: "ao_cas ao a aio (tf_sequence f - 1) (tf_previous_hash f) (tf_sequence f) (frame_hash ?fe f) = (a', cr)"
      using res cas2 by (simp split: if_splits)
    have w': "jw_key w' = jw_key w" "jw_file w' = jw_file ?w" "head_of w' = head_of ?w" "r = Inr (f, ANCHORED) \<longrightarrow> cr = Inr True"
      using res fr(2) by (auto simp: head_of_def split: if_splits)
    have new: "\<lparr>an_sequence = tf_sequence f, an_frame_hash = frame_hash ?fe f\<rparr> = head_of ?w"
      by (simp add: head_of_def commit_durable_def)
    have old: "\<lparr>an_sequence = tf_sequence f - 1, an_frame_hash = tf_previous_hash f\<rparr> = head_of w"
      using f(4,5) by (simp add: head_of_def)
    have moved: "ao_read ao a' = Inr (head_of ?w)" if "cr = Inr True"
      using anchor_provider.cas_true [OF prov cas [unfolded that]] new by simp
    have either: "ao_read ao a' = Inr (head_of w) \<or> ao_read ao a' = Inr (head_of ?w)"
    proof (rule anchor_provider.cas_cases [OF prov cas])
      assume "a' = a"
      with rd show ?thesis by simp
    next
      assume "ao_read ao a' = Inr \<lparr>an_sequence = tf_sequence f, an_frame_hash = frame_hash ?fe f\<rparr>"
      with new show ?thesis by simp
    qed
    have re1: "reopened we ao a' ep w' (jw_frames w @ [f])" if "ao_read ao a' = Inr (head_of ?w)"
      using reopen_inv [OF f(3) bl1 that ep] unfolding same(1) [OF w'(1,2)] fr(1) by simp
    have re2: "fails_closed we ao a' ep w'" if "ao_read ao a' = Inr (head_of w)"
      using reopen_inv [OF f(3) bl1 that ep] ne unfolding same(2) [OF w'(1,2)] by simp
    have "ao_read ao a' = Inr (head_of w) \<and> fails_closed we ao a' ep w' \<or>
        ao_read ao a' = Inr (head_of w') \<and> reopened we ao a' ep w' (jw_frames w @ [f])"
      using either re1 re2 w'(3) by metis
    moreover have "r = Inr (f, ANCHORED) \<longrightarrow> reopened we ao a' ep w' (jw_frames w @ [f])"
      using w'(4) moved re1 by blast
    ultimately show ?thesis using f(1) Appended by (intro exI [of _ f]) simp
  qed
qed


section \<open>Compare-and-swap and fail-stop\<close>

fun commit_run ::
  "writer_env \<Rightarrow> ('a, 'io) anchor_ops \<Rightarrow> journal_writer \<times> 'a \<Rightarrow> (commit_call \<times> append_io \<times> 'io) list \<Rightarrow> journal_writer \<times> 'a" where
  "commit_run we ao s [] = s"
| "commit_run we ao (w, a) ((c, wio, aio) # cs) =
     (case commit we ao w a c wio aio of (w', a', r) \<Rightarrow> commit_run we ao (w', a') cs)"

lemma commit_cases:
  assumes "commit we ao w a c wio aio = (w', a', r)"
  obtains (rejected) "w' = w" "a' = a" "\<exists>e. r = Inl e"
    | (torn) "jw_write_disabled w'" "jw_versions w' = jw_versions w" "\<exists>e. r = Inl e" "commit_checks we w c = Inr ()"
    | (durable) f st where "r = Inr (f, st)" "jw_versions w' = dict_update (jw_versions w) (next_versions (cc_expected c))"
        "st = DURABLE_NOT_ANCHORED \<longrightarrow> jw_write_disabled w'" "commit_checks we w c = Inr ()"
  using assms unfolding commit_def
  by (auto simp: bindE_Inr_iff Let_def commit_durable_def split: sum.splits append_io.splits prod.splits bool.splits)

lemma dict_update_value:
  "version_of (dict_update d m) j = version_of d j \<or> (\<exists>v. (j, v) \<in> set m \<and> version_of (dict_update d m) j = v)"
  unfolding dict_update_def
proof (induction m arbitrary: d)
  case (Cons kv m)
  obtain k v where kv: "kv = (k, v)" by (cases kv)
  from Cons.IH [of "dset d k v"] show ?case by (auto simp: kv version_of_dset split: if_splits)
qed simp

lemma dict_update_grows:
  assumes "\<And>k v. (k, v) \<in> set m \<Longrightarrow> version_of d k < v"
  shows "version_of d j \<le> version_of (dict_update d m) j"
  using dict_update_value [of d m j] assms by (metis less_imp_le order_refl)

lemma commit_versions_grow:
  assumes "commit we ao w a c wio aio = (w', a', r)"
  shows "version_of (jw_versions w) k \<le> version_of (jw_versions w') k"
  using assms
proof (cases rule: commit_cases)
  case (durable f st)
  have "version_of (jw_versions w) j < v" if "(j, v) \<in> set (next_versions (cc_expected c))" for j v
    using that commit_checks_Inr [OF durable(4)] by (auto simp: next_versions_def)
  with durable(2) show ?thesis by (simp add: dict_update_grows)
qed simp_all

lemma commit_run_versions:
  "version_of (jw_versions (fst s)) k \<le> version_of (jw_versions (fst (commit_run we ao s cs))) k"
proof (induction we ao s cs rule: commit_run.induct)
  case (2 we ao w a c wio aio cs)
  obtain w' a' r where c: "commit we ao w a c wio aio = (w', a', r)" by (cases "commit we ao w a c wio aio") auto
  from commit_versions_grow [OF c, of k] 2 [OF c [symmetric] refl] c show ?case by simp
qed simp

lemma commit_run_disabled:
  "jw_write_disabled (fst s) \<Longrightarrow> commit_run we ao s cs = s"
proof (induction we ao s cs rule: commit_run.induct)
  case (2 we ao w a c wio aio cs)
  then have "commit we ao w a c wio aio = (w, a, Inl JournalClosedError)"
    by (simp add: commit_def commit_checks_def ensure_writable_def)
  with 2 show ?case by simp
qed simp


section \<open>A sample journal\<close>

definition memory_ops :: "(anchor_state, unit) anchor_ops" where
  "memory_ops = \<lparr>ao_read = memory_read, ao_cas = memory_cas\<rparr>"

definition sample_key :: string where
  "sample_key = replicate 32 (CHR ''k'')"

definition sample_writer :: journal_writer where
  "sample_writer = \<lparr>jw_file = [], jw_frames = [], jw_sequence = 0, jw_previous_hash = GENESIS_HASH, jw_versions = [],
     jw_closed = False, jw_write_disabled = False, jw_key = sample_key, jw_epoch = 0\<rparr>"

definition sample_commit :: commit_call where
  "sample_commit = \<lparr>cc_events = [sample_event], cc_expected = [(''g1'', 0)], cc_head_sequence = Some 0,
     cc_head_hash = Some [], cc_tx_id = ''tx_1'', cc_now = 0\<rparr>"

lemma memory_ops_provider: "anchor_provider (ao_read memory_ops) (ao_cas memory_ops)"
  by (simp add: memory_ops_def memory_anchor.anchor_provider_axioms)

lemma sample_commit_args: "commit_args sample_writer sample_commit = sample_frame_args"
  by (simp add: commit_args_def sample_writer_def sample_commit_def sample_frame_args_def next_versions_def)

lemma sample_writer_inv: "journal_inv we sample_writer" "head_of sample_writer = anchor_default"
  by (simp_all add: journal_inv_def sample_writer_def last_sequence_def head_hash_def sample_key_def head_of_def anchor_default_def)

definition sample_we :: writer_env where
  "sample_we = \<lparr>we_frame = sample_frame_env, we_validator = None\<rparr>"

lemma sample_world:
  obtains we where "we_validator we = None" and "digests_ok (we_frame we)" and "call_ok (we_frame we) sample_commit"
    and "floats_ok (we_frame we)"
    and "commit_checks we sample_writer sample_commit = Inr ()" and "fe_sha256 (we_frame we) = (\<lambda>_. GENESIS_HASH)"
proof (rule that [of sample_we])
  show "call_ok (we_frame sample_we) sample_commit" using sample_event_ok sample_event_text
    by (simp add: call_ok_def sample_commit_def dict_ok_def sample_we_def tail_ascii)
  show "commit_checks sample_we sample_writer sample_commit = Inr ()"
    by (simp add: commit_checks_def ensure_writable_def sample_writer_def sample_commit_def validate_blob_refs_def sample_we_def
        sample_event_def version_of_def)
qed (simp_all add: sample_we_def sample_digests_ok sample_floats_ok, simp add: sample_frame_env_def)

lemma sample_anchored:
  assumes we: "we_validator we = None" "digests_ok (we_frame we)" "call_ok (we_frame we) sample_commit"
    "floats_ok (we_frame we)"
    "commit_checks we sample_writer sample_commit = Inr ()" "fe_sha256 (we_frame we) = (\<lambda>_. GENESIS_HASH)"
  obtains f where "commit we memory_ops sample_writer anchor_default sample_commit Appended () =
      (commit_durable (we_frame we) sample_writer sample_commit f, \<lparr>an_sequence = 1, an_frame_hash = GENESIS_HASH\<rparr>, Inr (f, ANCHORED))"
    and "seal (we_frame we) (commit_args sample_writer sample_commit) sample_key = Inr f"
proof -
  have k: "jw_key sample_writer = sample_key" by (simp add: sample_writer_def)
  obtain f where f: "seal (we_frame we) (commit_args sample_writer sample_commit) sample_key = Inr f"
    "tf_sequence f = jw_sequence sample_writer + 1" "tf_previous_hash f = jw_previous_hash sample_writer"
    by (rule commit_seals [OF sample_writer_inv(1) we(2,5,3,4), unfolded k])
  have "ao_cas memory_ops anchor_default () (tf_sequence f - 1) (tf_previous_hash f) (tf_sequence f) (frame_hash (we_frame we) f) =
      (\<lparr>an_sequence = 1, an_frame_hash = GENESIS_HASH\<rparr>, Inr True)"
    using f(2,3) by (simp add: memory_ops_def memory_cas_def anchor_default_def frame_hash_def record_hash_def we(6) sample_writer_def
        GENESIS_HASH_def)
  from commit_appended [OF we(5) f(1) [folded k] this] f(1) show thesis by (simp add: that)
qed

lemma sample_reads: "ao_read memory_ops anchor_default = Inr (head_of sample_writer)"
  by (simp add: memory_ops_def memory_read_def sample_writer_inv)

theorem commit_crash_safe_witness:
  "\<exists>we f. reopened we memory_ops \<lparr>an_sequence = 1, an_frame_hash = GENESIS_HASH\<rparr> 3
     (fst (commit we memory_ops sample_writer anchor_default sample_commit Appended ())) [f]"
proof -
  obtain we where we: "we_validator we = None" "digests_ok (we_frame we)" "call_ok (we_frame we) sample_commit"
    "floats_ok (we_frame we)"
    "commit_checks we sample_writer sample_commit = Inr ()" "fe_sha256 (we_frame we) = (\<lambda>_. GENESIS_HASH)"
    by (rule sample_world)
  obtain f where f: "commit we memory_ops sample_writer anchor_default sample_commit Appended () =
      (commit_durable (we_frame we) sample_writer sample_commit f, \<lparr>an_sequence = 1, an_frame_hash = GENESIS_HASH\<rparr>, Inr (f, ANCHORED))"
    "seal (we_frame we) (commit_args sample_writer sample_commit) sample_key = Inr f"
    by (rule sample_anchored [OF we])
  let ?w = "fst (commit we memory_ops sample_writer anchor_default sample_commit Appended ())"
  let ?a = "\<lparr>an_sequence = 1, an_frame_hash = GENESIS_HASH\<rparr>"
  have k: "jw_key sample_writer = sample_key" "jw_frames sample_writer = []" by (simp_all add: sample_writer_def)
  have bl: "validate_blob_refs we es = Inr ()" for es by (simp add: validate_blob_refs_def we(1))
  have bp: "blobs_published we (jw_frames sample_writer)" by (simp add: blobs_published_def k)
  obtain g where "seal (we_frame we) (commit_args sample_writer sample_commit) sample_key = Inr g"
    "Inr (f, ANCHORED) = (Inr (g, ANCHORED) :: journal_exn + transaction_frame \<times> commit_state) \<longrightarrow> reopened we memory_ops ?a 3 ?w [g]"
    using commit_crash_safe [OF memory_ops_provider we(2) sample_writer_inv(1) sample_reads we(5,3,4) bp bl _ f(1), of 3]
    unfolding k f(1) fst_conv append_Nil append_io.case by auto
  with f(2) show ?thesis by auto
qed



end
