(* ===== verification/Domain_Employees.thy ===== *)
theory Domain_Employees
  imports Domain_Goals
begin

text \<open>
  The aggregates of \<^verbatim>\<open>src/src/autonomous/domain/employees.py\<close>: employees, the bot principals that give
  them an identity in the chat service, and worker runtimes, with their constructors and dictionary
  encodings; and the enumerations of \<^verbatim>\<open>domain/enums.py\<close> they use. A default that would be drawn fresh (an
  identifier, a clock reading) never occurs in \<open>from_dict\<close>, which gives every field.
\<close>

section \<open>Enumerations\<close>

datatype worker_type = WT_LOGICAL | WT_VISIBLE | WT_EPHEMERAL

fun worker_type_value :: "worker_type \<Rightarrow> string" where
  "worker_type_value WT_LOGICAL = ''logical''"
| "worker_type_value WT_VISIBLE = ''visible''"
| "worker_type_value WT_EPHEMERAL = ''ephemeral''"

definition worker_type_members :: "worker_type list" where
  "worker_type_members = [WT_LOGICAL, WT_VISIBLE, WT_EPHEMERAL]"

interpretation worker_type_enum: py_enum worker_type_value worker_type_members
proof
  show "x \<in> set worker_type_members" for x by (cases x) (simp_all add: worker_type_members_def)
qed (simp add: worker_type_members_def)

datatype employee_id_origin = EO_NATIVE | EO_LEGACY_ALIAS

fun employee_id_origin_value :: "employee_id_origin \<Rightarrow> string" where
  "employee_id_origin_value EO_NATIVE = ''native''"
| "employee_id_origin_value EO_LEGACY_ALIAS = ''legacy_alias''"

definition employee_id_origin_members :: "employee_id_origin list" where
  "employee_id_origin_members = [EO_NATIVE, EO_LEGACY_ALIAS]"

interpretation employee_id_origin_enum: py_enum employee_id_origin_value employee_id_origin_members
proof
  show "x \<in> set employee_id_origin_members" for x by (cases x) (simp_all add: employee_id_origin_members_def)
qed (simp add: employee_id_origin_members_def)

datatype employee_state =
    ES_DRAFT | ES_PROVISIONING_APP | ES_STORING_CREDENTIAL | ES_CONFIGURING | ES_VALIDATING
  | ES_READY_PENDING_VERIFICATION | ES_ACTIVE | ES_RETIRING | ES_ACTION_REQUIRED | ES_ARCHIVED

fun employee_state_value :: "employee_state \<Rightarrow> string" where
  "employee_state_value ES_DRAFT = ''draft''"
| "employee_state_value ES_PROVISIONING_APP = ''provisioning_app''"
| "employee_state_value ES_STORING_CREDENTIAL = ''storing_credential''"
| "employee_state_value ES_CONFIGURING = ''configuring''"
| "employee_state_value ES_VALIDATING = ''validating''"
| "employee_state_value ES_READY_PENDING_VERIFICATION = ''ready_pending_verification''"
| "employee_state_value ES_ACTIVE = ''active''"
| "employee_state_value ES_RETIRING = ''retiring''"
| "employee_state_value ES_ACTION_REQUIRED = ''action_required''"
| "employee_state_value ES_ARCHIVED = ''archived''"

definition employee_state_members :: "employee_state list" where
  "employee_state_members = [ES_DRAFT, ES_PROVISIONING_APP, ES_STORING_CREDENTIAL, ES_CONFIGURING, ES_VALIDATING,
     ES_READY_PENDING_VERIFICATION, ES_ACTIVE, ES_RETIRING, ES_ACTION_REQUIRED, ES_ARCHIVED]"

interpretation employee_state_enum: py_enum employee_state_value employee_state_members
proof
  show "x \<in> set employee_state_members" for x by (cases x) (simp_all add: employee_state_members_def)
qed (simp add: employee_state_members_def)

lemma employee_enum_fields [codec_simps]:
  "enum_field worker_type_value worker_type_members (PStr (worker_type_value wt)) = Inr wt"
  "enum_field employee_id_origin_value employee_id_origin_members (PStr (employee_id_origin_value eo)) = Inr eo"
  "enum_field employee_state_value employee_state_members (PStr (employee_state_value es)) = Inr es"
  by (simp_all add: worker_type_enum.of_value employee_id_origin_enum.of_value employee_state_enum.of_value)

section \<open>Canonical identifiers\<close>

text \<open>The regular expressions \<open>agt_[A-Za-z0-9][A-Za-z0-9_-]*\<close> and \<open>bot_[A-Za-z0-9][A-Za-z0-9_-]*\<close>, matched in full.\<close>

definition ascii_alnum :: "char \<Rightarrow> bool" where
  "ascii_alnum c \<longleftrightarrow> (let n = (of_char c :: nat) in 48 \<le> n \<and> n \<le> 57 \<or> 65 \<le> n \<and> n \<le> 90 \<or> 97 \<le> n \<and> n \<le> 122)"

fun id_suffix :: "string \<Rightarrow> bool" where
  "id_suffix [] \<longleftrightarrow> False"
| "id_suffix (c # cs) \<longleftrightarrow> ascii_alnum c \<and> list_all (\<lambda>d. ascii_alnum d \<or> d = CHR ''_'' \<or> d = CHR ''-'') cs"

definition canonical_id :: "string \<Rightarrow> string \<Rightarrow> bool" where
  "canonical_id pre s \<longleftrightarrow> take (length pre) s = pre \<and> id_suffix (drop (length pre) s)"

abbreviation canonical_agent_id :: "string \<Rightarrow> bool" where
  "canonical_agent_id \<equiv> canonical_id ''agt_''"

abbreviation canonical_bot_principal_id :: "string \<Rightarrow> bool" where
  "canonical_bot_principal_id \<equiv> canonical_id ''bot_''"

lemma agent_ids_not_bot_ids: "canonical_agent_id s \<Longrightarrow> \<not> canonical_bot_principal_id s"
  by (auto simp: canonical_id_def)

lemma canonical_id_nonempty: "canonical_id pre s \<Longrightarrow> s \<noteq> []"
  by (auto simp: canonical_id_def)

section \<open>Employees\<close>

record employee_definition =
  em_agent_id :: string
  em_tenant_key :: string
  em_owner_principal_id :: string
  em_name :: string
  em_emoji :: string
  em_tool :: string
  em_model :: string
  em_profile :: string
  em_effort :: string
  em_role :: string
  em_persona :: string
  em_personality_traits :: "string list"
  em_worker_type :: worker_type
  em_state :: employee_state
  em_capabilities :: "string list"
  em_permissions :: "string list"
  em_budget_template :: pyval
  em_bot_principal_id :: "string option"
  em_member_groups :: "string list"
  em_id_origin :: employee_id_origin
  em_legacy_id_alias :: string
  em_created_at :: timestamp
  em_updated_at :: timestamp
  em_aggregate_version :: int

text \<open>The robot emoji in UTF-8.\<close>

definition default_emoji :: string where
  "default_emoji = [CHR 0xF0, CHR 0x9F, CHR 0xA4, CHR 0x96]"

definition employee_init :: "employee_definition \<Rightarrow> py_exn + employee_definition" where
  "employee_init e =
     (if \<not> canonical_agent_id (em_agent_id e) then Inl (ValueError ''agent_id must be canonical'')
      else if em_worker_type e = WT_VISIBLE \<and> em_tenant_key e = []
      then Inl (ValueError ''visible employee requires tenant_key'')
      else if em_worker_type e = WT_VISIBLE \<and> em_owner_principal_id e = []
      then Inl (ValueError ''visible employee requires owner_principal_id'')
      else Inr (e\<lparr>em_budget_template := freeze (em_budget_template e)\<rparr>))"

definition employee_to_dict :: "employee_definition \<Rightarrow> pydict" where
  "employee_to_dict e =
     [(''agent_id'', PStr (em_agent_id e)),
      (''tenant_key'', PStr (em_tenant_key e)),
      (''owner_principal_id'', PStr (em_owner_principal_id e)),
      (''name'', PStr (em_name e)),
      (''emoji'', PStr (em_emoji e)),
      (''tool'', PStr (em_tool e)),
      (''model'', PStr (em_model e)),
      (''profile'', PStr (em_profile e)),
      (''effort'', PStr (em_effort e)),
      (''role'', PStr (em_role e)),
      (''persona'', PStr (em_persona e)),
      (''personality_traits'', strs_val (em_personality_traits e)),
      (''worker_type'', PStr (worker_type_value (em_worker_type e))),
      (''state'', PStr (employee_state_value (em_state e))),
      (''capabilities'', strs_val (em_capabilities e)),
      (''permissions'', strs_val (em_permissions e)),
      (''budget_template'', thaw (em_budget_template e)),
      (''bot_principal_id'', str_option_val (em_bot_principal_id e)),
      (''member_groups'', strs_val (em_member_groups e)),
      (''id_origin'', PStr (employee_id_origin_value (em_id_origin e))),
      (''legacy_id_alias'', PStr (em_legacy_id_alias e)),
      (''created_at'', PFloat (Fin (em_created_at e))),
      (''updated_at'', PFloat (Fin (em_updated_at e))),
      (''aggregate_version'', PInt (em_aggregate_version e))]"

text \<open>\<open>data.get("agent_id", data.get("employee_id"))\<close>, which must not be \<open>None\<close>.\<close>

definition raw_agent_id :: "pydict \<Rightarrow> py_exn + string" where
  "raw_agent_id d =
     (case opt d ''agent_id'' (opt d ''employee_id'' PNone) of
        PNone \<Rightarrow> Inl (ValueError ''agent_id is required'')
      | v \<Rightarrow> strict_str v ''agent_id'')"

definition employee_from_dict :: "pydict \<Rightarrow> py_exn + employee_definition" where
  "employee_from_dict d =
     bindE (raw_agent_id d) (\<lambda>x_agent_id.
     bindE (opt_str d ''tenant_key'' []) (\<lambda>x_tenant_key.
     bindE (opt_str d ''owner_principal_id'' []) (\<lambda>x_owner_principal_id.
     bindE (opt_str d ''name'' []) (\<lambda>x_name.
     bindE (opt_str d ''emoji'' default_emoji) (\<lambda>x_emoji.
     bindE (opt_str d ''tool'' []) (\<lambda>x_tool.
     bindE (opt_str d ''model'' []) (\<lambda>x_model.
     bindE (opt_str d ''profile'' ''standard'') (\<lambda>x_profile.
     bindE (opt_str d ''effort'' ''default'') (\<lambda>x_effort.
     bindE (opt_str d ''role'' []) (\<lambda>x_role.
     bindE (opt_str d ''persona'' []) (\<lambda>x_persona.
     bindE (opt_strs d ''personality_traits'') (\<lambda>x_personality_traits.
     bindE (enum_field worker_type_value worker_type_members (opt d ''worker_type'' (PStr (worker_type_value WT_LOGICAL)))) (\<lambda>x_worker_type.
     bindE (enum_field employee_state_value employee_state_members (opt d ''state'' (PStr (employee_state_value ES_DRAFT)))) (\<lambda>x_state.
     bindE (opt_strs d ''capabilities'') (\<lambda>x_capabilities.
     bindE (opt_strs d ''permissions'') (\<lambda>x_permissions.
     bindE (Inr (opt d ''budget_template'' (PDict []))) (\<lambda>x_budget_template.
     bindE (raw_str_option (opt d ''bot_principal_id'' PNone) ''bot_principal_id'') (\<lambda>x_bot_principal_id.
     bindE (opt_strs d ''member_groups'') (\<lambda>x_member_groups.
     bindE (enum_field employee_id_origin_value employee_id_origin_members (opt d ''id_origin'' (PStr (employee_id_origin_value EO_NATIVE)))) (\<lambda>x_id_origin.
     bindE (opt_str d ''legacy_id_alias'' []) (\<lambda>x_legacy_id_alias.
     bindE (opt_float d ''created_at'') (\<lambda>x_created_at.
     bindE (opt_float d ''updated_at'') (\<lambda>x_updated_at.
     bindE (opt_int d ''aggregate_version'' 0 0) (\<lambda>x_aggregate_version.
     employee_init \<lparr>em_agent_id = x_agent_id, em_tenant_key = x_tenant_key,
       em_owner_principal_id = x_owner_principal_id, em_name = x_name, em_emoji = x_emoji, em_tool = x_tool,
       em_model = x_model, em_profile = x_profile, em_effort = x_effort, em_role = x_role, em_persona = x_persona,
       em_personality_traits = x_personality_traits, em_worker_type = x_worker_type, em_state = x_state,
       em_capabilities = x_capabilities, em_permissions = x_permissions, em_budget_template = x_budget_template,
       em_bot_principal_id = x_bot_principal_id, em_member_groups = x_member_groups, em_id_origin = x_id_origin,
       em_legacy_id_alias = x_legacy_id_alias, em_created_at = x_created_at, em_updated_at = x_updated_at,
       em_aggregate_version = x_aggregate_version\<rparr>))))))))))))))))))))))))"

definition employee_wf :: "employee_definition \<Rightarrow> bool" where
  "employee_wf e \<longleftrightarrow> employee_init e = Inr e \<and> frozen_value (em_budget_template e) \<and> 0 \<le> em_aggregate_version e"

lemma raw_agent_id_encoded [codec_simps]: "raw_agent_id (employee_to_dict e) = Inr (em_agent_id e)"
  by (simp add: raw_agent_id_def employee_to_dict_def opt_def)

lemma employee_codec_law:
  assumes wf: "employee_wf e"
  shows "employee_from_dict (employee_to_dict e) = Inr e"
proof -
  have init: "employee_init (e\<lparr>em_budget_template := thaw (em_budget_template e)\<rparr>) = Inr e"
    using wf by (auto simp: employee_wf_def employee_init_def freeze_thaw split: if_splits)
  have "0 \<le> em_aggregate_version e" using wf by (simp add: employee_wf_def)
  with init show ?thesis
    unfolding employee_from_dict_def raw_agent_id_encoded
    by (cases e) (simp add: employee_to_dict_def codec_simps del: enum_field.simps)
qed

interpretation employee_codec: codec employee_to_dict employee_from_dict employee_wf
  by unfold_locales (rule employee_codec_law)

section \<open>Bot principals\<close>

record bot_principal =
  bp_bot_principal_id :: string
  bp_tenant_key :: string
  bp_agent_id :: string
  bp_app_id :: string
  bp_credential_ref :: string
  bp_scopes :: "string list"
  bp_desired_manifest_hash :: string
  bp_observed_manifest_hash :: string
  bp_manifest_evidence_source :: string
  bp_aggregate_version :: int

definition bot_principal_init :: "bot_principal \<Rightarrow> py_exn + bot_principal" where
  "bot_principal_init p = (if bp_agent_id p = [] then Inl (ValueError ''BotPrincipal agent_id is required'') else Inr p)"

definition bot_principal_to_dict :: "bot_principal \<Rightarrow> pydict" where
  "bot_principal_to_dict p =
     [(''bot_principal_id'', PStr (bp_bot_principal_id p)),
      (''tenant_key'', PStr (bp_tenant_key p)),
      (''agent_id'', PStr (bp_agent_id p)),
      (''app_id'', PStr (bp_app_id p)),
      (''credential_ref'', PStr (bp_credential_ref p)),
      (''scopes'', strs_val (bp_scopes p)),
      (''desired_manifest_hash'', PStr (bp_desired_manifest_hash p)),
      (''observed_manifest_hash'', PStr (bp_observed_manifest_hash p)),
      (''manifest_evidence_source'', PStr (bp_manifest_evidence_source p)),
      (''aggregate_version'', PInt (bp_aggregate_version p))]"

definition bot_principal_from_dict :: "pydict \<Rightarrow> py_exn + bot_principal" where
  "bot_principal_from_dict d =
     bindE (case opt d ''agent_id'' (opt d ''employee_id'' PNone) of
        PNone \<Rightarrow> Inl (ValueError ''agent_id is required'') | v \<Rightarrow> Inr v) (\<lambda>raw.
     bindE (req_str d ''bot_principal_id'') (\<lambda>x_bot_principal_id.
     bindE (opt_str d ''tenant_key'' []) (\<lambda>x_tenant_key.
     bindE (strict_str raw ''agent_id'') (\<lambda>x_agent_id.
     bindE (opt_str d ''app_id'' []) (\<lambda>x_app_id.
     bindE (opt_str d ''credential_ref'' []) (\<lambda>x_credential_ref.
     bindE (opt_strs d ''scopes'') (\<lambda>x_scopes.
     bindE (opt_str d ''desired_manifest_hash'' []) (\<lambda>x_desired.
     bindE (opt_str d ''observed_manifest_hash'' []) (\<lambda>x_observed.
     bindE (opt_str d ''manifest_evidence_source'' []) (\<lambda>x_evidence.
     bindE (opt_int d ''aggregate_version'' 0 0) (\<lambda>x_aggregate_version.
     bot_principal_init \<lparr>bp_bot_principal_id = x_bot_principal_id, bp_tenant_key = x_tenant_key,
       bp_agent_id = x_agent_id, bp_app_id = x_app_id, bp_credential_ref = x_credential_ref, bp_scopes = x_scopes,
       bp_desired_manifest_hash = x_desired, bp_observed_manifest_hash = x_observed,
       bp_manifest_evidence_source = x_evidence, bp_aggregate_version = x_aggregate_version\<rparr>)))))))))))"

definition bot_principal_wf :: "bot_principal \<Rightarrow> bool" where
  "bot_principal_wf p \<longleftrightarrow> bp_agent_id p \<noteq> [] \<and> 0 \<le> bp_aggregate_version p"

lemma bot_principal_codec_law: "bot_principal_wf p \<Longrightarrow> bot_principal_from_dict (bot_principal_to_dict p) = Inr p"
  by (cases p) (simp add: bot_principal_to_dict_def bot_principal_from_dict_def bot_principal_wf_def
      bot_principal_init_def codec_simps)

interpretation bot_principal_codec: codec bot_principal_to_dict bot_principal_from_dict bot_principal_wf
  by unfold_locales (rule bot_principal_codec_law)

section \<open>Worker runtimes\<close>

record worker_runtime =
  wr_worker_runtime_id :: string
  wr_tenant_key :: string
  wr_employee_id :: string
  wr_run_id :: string
  wr_step_id :: string
  wr_attempt_id :: string
  wr_pid :: "int option"
  wr_os_uid :: "int option"
  wr_lease_id :: string
  wr_fencing_token :: int
  wr_checkpoint_blob_ref :: pyval

fun int_option_val :: "int option \<Rightarrow> pyval" where
  "int_option_val None = PNone"
| "int_option_val (Some i) = PInt i"

fun strict_int_option :: "pyval \<Rightarrow> string \<Rightarrow> int \<Rightarrow> py_exn + int option" where
  "strict_int_option PNone field minimum = Inr None"
| "strict_int_option v field minimum = bindE (strict_int v field (Some minimum)) (\<lambda>i. Inr (Some i))"

definition worker_runtime_to_dict :: "worker_runtime \<Rightarrow> pydict" where
  "worker_runtime_to_dict w =
     [(''worker_runtime_id'', PStr (wr_worker_runtime_id w)),
      (''tenant_key'', PStr (wr_tenant_key w)),
      (''employee_id'', PStr (wr_employee_id w)),
      (''run_id'', PStr (wr_run_id w)),
      (''step_id'', PStr (wr_step_id w)),
      (''attempt_id'', PStr (wr_attempt_id w)),
      (''pid'', int_option_val (wr_pid w)),
      (''os_uid'', int_option_val (wr_os_uid w)),
      (''lease_id'', PStr (wr_lease_id w)),
      (''fencing_token'', PInt (wr_fencing_token w)),
      (''checkpoint_blob_ref'', thaw (wr_checkpoint_blob_ref w))]"

definition worker_runtime_from_dict :: "pydict \<Rightarrow> py_exn + worker_runtime" where
  "worker_runtime_from_dict d =
     bindE (req_str d ''worker_runtime_id'') (\<lambda>x_worker_runtime_id.
     bindE (opt_str d ''tenant_key'' []) (\<lambda>x_tenant_key.
     bindE (opt_str d ''employee_id'' []) (\<lambda>x_employee_id.
     bindE (opt_str d ''run_id'' []) (\<lambda>x_run_id.
     bindE (opt_str d ''step_id'' []) (\<lambda>x_step_id.
     bindE (opt_str d ''attempt_id'' []) (\<lambda>x_attempt_id.
     bindE (strict_int_option (opt d ''pid'' PNone) ''pid'' 1) (\<lambda>x_pid.
     bindE (strict_int_option (opt d ''os_uid'' PNone) ''os_uid'' 0) (\<lambda>x_os_uid.
     bindE (opt_str d ''lease_id'' []) (\<lambda>x_lease_id.
     bindE (opt_int d ''fencing_token'' 0 0) (\<lambda>x_fencing_token.
     Inr \<lparr>wr_worker_runtime_id = x_worker_runtime_id, wr_tenant_key = x_tenant_key, wr_employee_id = x_employee_id,
       wr_run_id = x_run_id, wr_step_id = x_step_id, wr_attempt_id = x_attempt_id, wr_pid = x_pid,
       wr_os_uid = x_os_uid, wr_lease_id = x_lease_id, wr_fencing_token = x_fencing_token,
       wr_checkpoint_blob_ref = freeze (opt d ''checkpoint_blob_ref'' PNone)\<rparr>))))))))))"

definition worker_runtime_wf :: "worker_runtime \<Rightarrow> bool" where
  "worker_runtime_wf w \<longleftrightarrow> (case wr_pid w of None \<Rightarrow> True | Some i \<Rightarrow> 1 \<le> i) \<and>
     (case wr_os_uid w of None \<Rightarrow> True | Some i \<Rightarrow> 0 \<le> i) \<and> 0 \<le> wr_fencing_token w \<and>
     frozen_value (wr_checkpoint_blob_ref w)"

lemma strict_int_option_val [codec_simps]:
  "(case io of None \<Rightarrow> True | Some i \<Rightarrow> m \<le> i) \<Longrightarrow> strict_int_option (int_option_val io) field m = Inr io"
  by (cases io) auto

interpretation worker_runtime_codec: codec worker_runtime_to_dict worker_runtime_from_dict worker_runtime_wf
proof
  fix w :: worker_runtime
  assume "worker_runtime_wf w"
  then show "worker_runtime_from_dict (worker_runtime_to_dict w) = Inr w"
    by (cases w) (simp add: worker_runtime_to_dict_def worker_runtime_from_dict_def worker_runtime_wf_def codec_simps
        del: strict_int_option.simps)
qed

end
