(* ===== verification/Workforce.thy ===== *)
theory Workforce
  imports Domain_Employees Journal_Frame
begin

text \<open>
  The workforce projection of \<^verbatim>\<open>src/src/autonomous/workforce/projection.py\<close> and the writer authority of
  \<^verbatim>\<open>workforce/authority.py\<close>. The state is the part that events change; the reducers are one function each,
  found by the event type in \<open>APPLIERS\<close>. \<open>str.casefold\<close> is a parameter. A reducer raises before it changes
  anything, so it returns the new state or the error. Where Python would go on with a value outside a
  field's declared type, the result is the error \<open>Untyped\<close>.
\<close>

section \<open>State\<close>

datatype authority_mode = AM_LEGACY_WRITE | AM_SHADOW_READ | AM_V5_WRITE | AM_V5_ONLY

fun authority_mode_value :: "authority_mode \<Rightarrow> string" where
  "authority_mode_value AM_LEGACY_WRITE = ''legacy_write''"
| "authority_mode_value AM_SHADOW_READ = ''shadow_read''"
| "authority_mode_value AM_V5_WRITE = ''v5_write''"
| "authority_mode_value AM_V5_ONLY = ''v5_only''"

definition authority_mode_members :: "authority_mode list" where
  "authority_mode_members = [AM_LEGACY_WRITE, AM_SHADOW_READ, AM_V5_WRITE, AM_V5_ONLY]"

interpretation authority_mode_enum: py_enum authority_mode_value authority_mode_members
proof
  show "x \<in> set authority_mode_members" for x by (cases x) (simp_all add: authority_mode_members_def)
qed (simp add: authority_mode_members_def)

record authority_snapshot =
  as_epoch :: int
  as_mode :: authority_mode
  as_cutover_sequence :: int

record workforce_state =
  ws_employees :: "(string, employee_definition) dict"
  ws_bot_principals :: "(string, bot_principal) dict"
  ws_name_keys :: "(string \<times> string, string) dict"
  ws_legacy_aliases :: "(string, string) dict"
  ws_legacy_hashes :: "(string, string) dict"
  ws_authority_epoch :: int
  ws_authority_mode :: authority_mode
  ws_cutover_sequence :: int

definition authority_of :: "'a workforce_state_scheme \<Rightarrow> authority_snapshot" where
  "authority_of st = \<lparr>as_epoch = ws_authority_epoch st, as_mode = ws_authority_mode st,
     as_cutover_sequence = ws_cutover_sequence st\<rparr>"

datatype projection_exn = ProjectionError string | ProjectionRaise py_exn

text \<open>\<open>except (TypeError, ValueError)\<close> around a constructor.\<close>

fun as_projection_error :: "string \<Rightarrow> py_exn + 'x \<Rightarrow> projection_exn + 'x" where
  "as_projection_error msg (Inl (TypeError m)) = Inl (ProjectionError msg)"
| "as_projection_error msg (Inl (ValueError m)) = Inl (ProjectionError msg)"
| "as_projection_error msg (Inl e) = Inl (ProjectionRaise e)"
| "as_projection_error msg (Inr x) = Inr x"

fun raise_py :: "py_exn + 'x \<Rightarrow> projection_exn + 'x" where
  "raise_py (Inl e) = Inl (ProjectionRaise e)"
| "raise_py (Inr x) = Inr x"

text \<open>\<open>str(value or default)\<close> of a payload value declared as a string.\<close>

fun text_or :: "pyval \<Rightarrow> string \<Rightarrow> string \<Rightarrow> projection_exn + string" where
  "text_or (PStr s) dflt field = Inr (if s = [] then dflt else s)"
| "text_or v dflt field = (if py_truthy v then Inl (ProjectionRaise (Untyped field)) else Inr dflt)"

fun nonempty_text :: "pyval \<Rightarrow> string \<Rightarrow> projection_exn + string" where
  "nonempty_text (PStr s) msg = (if s = [] then Inl (ProjectionError msg) else Inr s)"
| "nonempty_text _ msg = Inl (ProjectionError msg)"

section \<open>Reducers\<close>

definition ws_employee :: "'a workforce_state_scheme \<Rightarrow> string \<Rightarrow> projection_exn + employee_definition" where
  "ws_employee st agent_id = (case dget (ws_employees st) agent_id of
     None \<Rightarrow> Inl (ProjectionError ''unknown employee'') | Some e \<Rightarrow> Inr e)"

definition ws_principal :: "'a workforce_state_scheme \<Rightarrow> string \<Rightarrow> projection_exn + bot_principal" where
  "ws_principal st principal_id = (case dget (ws_bot_principals st) principal_id of
     None \<Rightarrow> Inl (ProjectionError ''unknown bot principal'') | Some p \<Rightarrow> Inr p)"

definition require_mutable_employee :: "employee_definition \<Rightarrow> projection_exn + unit" where
  "require_mutable_employee e = guardE (em_state e \<noteq> ES_ARCHIVED) (ProjectionError ''archived employee is terminal'')"

definition name_key :: "(string \<Rightarrow> string) \<Rightarrow> string \<Rightarrow> string \<Rightarrow> string \<times> string" where
  "name_key casefold tenant_key name = (tenant_key, casefold name)"

definition put_employee :: "'a workforce_state_scheme \<Rightarrow> employee_definition \<Rightarrow> 'a workforce_state_scheme" where
  "put_employee st e = st\<lparr>ws_employees := dset (ws_employees st) (em_agent_id e) e\<rparr>"

definition put_principal :: "'a workforce_state_scheme \<Rightarrow> bot_principal \<Rightarrow> 'a workforce_state_scheme" where
  "put_principal st p = st\<lparr>ws_bot_principals := dset (ws_bot_principals st) (bp_bot_principal_id p) p\<rparr>"

definition reserve_name ::
  "(string \<Rightarrow> string) \<Rightarrow> 'a workforce_state_scheme \<Rightarrow> employee_definition \<Rightarrow> string \<Rightarrow> projection_exn + 'a workforce_state_scheme" where
  "reserve_name casefold st e previous_name =
     (let key = name_key casefold (em_tenant_key e) (em_name e);
          previous_key = name_key casefold (em_tenant_key e) previous_name;
          keys = ws_name_keys st;
          freed = (if previous_name \<noteq> [] \<and> casefold previous_name \<noteq> casefold (em_name e) \<and>
                      dget keys previous_key = Some (em_agent_id e)
                   then dpop keys previous_key else keys)
      in case dget keys key of
           Some owner \<Rightarrow> if owner \<noteq> em_agent_id e then Inl (ProjectionError ''duplicate active employee name'')
                         else Inr (st\<lparr>ws_name_keys := dset freed key (em_agent_id e)\<rparr>)
         | None \<Rightarrow> Inr (st\<lparr>ws_name_keys := dset freed key (em_agent_id e)\<rparr>))"

text \<open>\<open>dict.setdefault\<close>.\<close>

definition dict_setdefault :: "pydict \<Rightarrow> string \<Rightarrow> pyval \<Rightarrow> pydict" where
  "dict_setdefault d k v = (if dget d k = None then dset d k v else d)"

definition created_payload :: "journal_event \<Rightarrow> string \<Rightarrow> pydict" where
  "created_payload ev agent_id =
     (let p1 = dset (je_payload ev) ''agent_id'' (PStr agent_id);
          p2 = dict_setdefault p1 ''created_at'' (PFloat (Fin (je_timestamp ev)));
          p3 = dict_setdefault p2 ''updated_at'' (PFloat (Fin (je_timestamp ev)))
      in dset p3 ''aggregate_version'' (PInt 1))"

definition create_employee ::
  "(string \<Rightarrow> string) \<Rightarrow> 'a workforce_state_scheme \<Rightarrow> journal_event \<Rightarrow> projection_exn + 'a workforce_state_scheme" where
  "create_employee casefold st ev =
     bindE (text_or (field_of (je_payload ev) ''agent_id'') (je_aggregate_id ev) ''agent_id'') (\<lambda>agent_id.
     bindE (guardE (agent_id = je_aggregate_id ev) (ProjectionError ''employee aggregate_id does not match agent_id'')) (\<lambda>_.
     bindE (guardE (canonical_agent_id agent_id) (ProjectionError ''employee requires canonical agent_id'')) (\<lambda>_.
     bindE (guardE (dget (ws_employees st) agent_id = None) (ProjectionError ''employee already exists'')) (\<lambda>_.
     bindE (as_projection_error ''invalid employee.created'' (employee_from_dict (created_payload ev agent_id))) (\<lambda>e.
     bindE (reserve_name casefold st e []) (\<lambda>st'. Inr (put_employee st' e)))))))"

definition release_employee_name ::
  "(string \<Rightarrow> string) \<Rightarrow> 'a workforce_state_scheme \<Rightarrow> journal_event \<Rightarrow> projection_exn + 'a workforce_state_scheme" where
  "release_employee_name casefold st ev =
     bindE (ws_employee st (je_aggregate_id ev)) (\<lambda>e.
     bindE (guardE (em_state e = ES_ARCHIVED) (ProjectionError ''only archived employee names can be released'')) (\<lambda>_.
     bindE (guardE (set (dkeys (je_payload ev)) = {''name''}) (ProjectionError ''employee name release payload is invalid'')) (\<lambda>_.
     bindE (guardE (case field_of (je_payload ev) ''name'' of PStr n \<Rightarrow> casefold n = casefold (em_name e) | _ \<Rightarrow> False)
              (ProjectionError ''employee name release does not match archive'')) (\<lambda>_.
     let key = name_key casefold (em_tenant_key e) (em_name e)
     in case dget (ws_name_keys st) key of
          None \<Rightarrow> Inr st
        | Some owner \<Rightarrow>
            if owner \<noteq> em_agent_id e then Inl (ProjectionError ''employee name release owner mismatch'')
            else Inr (st\<lparr>ws_name_keys := dpop (ws_name_keys st) key\<rparr>)))))"

definition touch_employee :: "journal_event \<Rightarrow> employee_definition \<Rightarrow> employee_definition" where
  "touch_employee ev e = e\<lparr>em_updated_at := je_timestamp ev, em_aggregate_version := em_aggregate_version e + 1\<rparr>"

definition change_employee_state ::
  "'a workforce_state_scheme \<Rightarrow> journal_event \<Rightarrow> projection_exn + 'a workforce_state_scheme" where
  "change_employee_state st ev =
     bindE (ws_employee st (je_aggregate_id ev)) (\<lambda>e.
     bindE (require_mutable_employee e) (\<lambda>_.
     case bindE (req (je_payload ev) ''state'') (enum_field employee_state_value employee_state_members) of
       Inl _ \<Rightarrow> Inl (ProjectionError ''invalid employee state'')
     | Inr next_state \<Rightarrow> Inr (put_employee st ((touch_employee ev e)\<lparr>em_state := next_state\<rparr>))))"

definition profile_fields :: "string list" where
  "profile_fields = [''name'', ''emoji'', ''tool'', ''model'', ''profile'', ''effort'', ''role'', ''persona'',
     ''personality_traits'', ''capabilities'', ''permissions'', ''budget_template'']"

text \<open>\<open>replace(employee, **values)\<close>: the constructor runs again on the fields that were given.\<close>

definition text_field :: "pydict \<Rightarrow> string \<Rightarrow> string \<Rightarrow> py_exn + string" where
  "text_field d k old = (case dget d k of None \<Rightarrow> Inr old | Some v \<Rightarrow> raw_str k v)"

definition texts_field :: "pydict \<Rightarrow> string \<Rightarrow> string list \<Rightarrow> py_exn + string list" where
  "texts_field d k old = (case dget d k of None \<Rightarrow> Inr old | Some v \<Rightarrow> str_tuple v k)"

definition replace_profile :: "employee_definition \<Rightarrow> pydict \<Rightarrow> py_exn + employee_definition" where
  "replace_profile e d =
     bindE (text_field d ''name'' (em_name e)) (\<lambda>name.
     bindE (text_field d ''emoji'' (em_emoji e)) (\<lambda>emoji.
     bindE (text_field d ''tool'' (em_tool e)) (\<lambda>tool.
     bindE (text_field d ''model'' (em_model e)) (\<lambda>model.
     bindE (text_field d ''profile'' (em_profile e)) (\<lambda>profile.
     bindE (text_field d ''effort'' (em_effort e)) (\<lambda>effort.
     bindE (text_field d ''role'' (em_role e)) (\<lambda>role.
     bindE (text_field d ''persona'' (em_persona e)) (\<lambda>persona.
     bindE (texts_field d ''personality_traits'' (em_personality_traits e)) (\<lambda>traits.
     bindE (texts_field d ''capabilities'' (em_capabilities e)) (\<lambda>capabilities.
     bindE (texts_field d ''permissions'' (em_permissions e)) (\<lambda>permissions.
     employee_init (e\<lparr>em_name := name, em_emoji := emoji, em_tool := tool, em_model := model, em_profile := profile,
       em_effort := effort, em_role := role, em_persona := persona, em_personality_traits := traits,
       em_capabilities := capabilities, em_permissions := permissions,
       em_budget_template := (case dget d ''budget_template'' of None \<Rightarrow> em_budget_template e | Some v \<Rightarrow> v)\<rparr>))))))))))))"

definition change_employee_profile ::
  "(string \<Rightarrow> string) \<Rightarrow> 'a workforce_state_scheme \<Rightarrow> journal_event \<Rightarrow> projection_exn + 'a workforce_state_scheme" where
  "change_employee_profile casefold st ev =
     bindE (ws_employee st (je_aggregate_id ev)) (\<lambda>e.
     bindE (require_mutable_employee e) (\<lambda>_.
     bindE (guardE (list_all (\<lambda>k. k \<in> set profile_fields) (dkeys (je_payload ev)))
              (ProjectionError ''unsupported employee profile fields'')) (\<lambda>_.
     bindE (as_projection_error ''invalid employee profile'' (replace_profile (touch_employee ev e) (je_payload ev))) (\<lambda>updated.
     bindE (reserve_name casefold st updated (em_name e)) (\<lambda>st'. Inr (put_employee st' updated))))))"

fun group_names :: "pyval \<Rightarrow> string list option" where
  "group_names (PList vs) = (if list_all (\<lambda>v. case v of PStr s \<Rightarrow> s \<noteq> [] | _ \<Rightarrow> False) vs then Some (map the_str vs) else None)"
| "group_names (PTuple vs) = (if list_all (\<lambda>v. case v of PStr s \<Rightarrow> s \<noteq> [] | _ \<Rightarrow> False) vs then Some (map the_str vs) else None)"
| "group_names _ = None"

text \<open>\<open>tuple(dict.fromkeys(groups))\<close> keeps the first occurrence of each.\<close>

definition first_occurrences :: "string list \<Rightarrow> string list" where
  "first_occurrences xs = rev (remdups (rev xs))"

definition change_membership ::
  "'a workforce_state_scheme \<Rightarrow> journal_event \<Rightarrow> projection_exn + 'a workforce_state_scheme" where
  "change_membership st ev =
     bindE (ws_employee st (je_aggregate_id ev)) (\<lambda>e.
     bindE (require_mutable_employee e) (\<lambda>_.
     case group_names (field_of (je_payload ev) ''member_groups'') of
       None \<Rightarrow> Inl (ProjectionError ''member_groups must be non-empty strings'')
     | Some groups \<Rightarrow> Inr (put_employee st ((touch_employee ev e)\<lparr>em_member_groups := first_occurrences groups\<rparr>))))"

definition bind_legacy_alias ::
  "'a workforce_state_scheme \<Rightarrow> journal_event \<Rightarrow> projection_exn + 'a workforce_state_scheme" where
  "bind_legacy_alias st ev =
     bindE (ws_employee st (je_aggregate_id ev)) (\<lambda>e.
     bindE (require_mutable_employee e) (\<lambda>_.
     bindE (nonempty_text (field_of (je_payload ev) ''legacy_id_alias'') ''legacy_id_alias is required'') (\<lambda>alias.
     bindE (nonempty_text (field_of (je_payload ev) ''source_hash'') ''source_hash is required'') (\<lambda>source_hash.
     bindE (guardE (dget (ws_legacy_aliases st) alias \<in> {None, Some (em_agent_id e)}) (ProjectionError ''legacy alias already bound'')) (\<lambda>_.
     bindE (guardE (dget (ws_legacy_hashes st) source_hash \<in> {None, Some (em_agent_id e)})
              (ProjectionError ''legacy source hash already bound'')) (\<lambda>_.
     Inr (put_employee (st\<lparr>ws_legacy_aliases := dset (ws_legacy_aliases st) alias (em_agent_id e),
              ws_legacy_hashes := dset (ws_legacy_hashes st) source_hash (em_agent_id e)\<rparr>)
            ((touch_employee ev e)\<lparr>em_id_origin := EO_LEGACY_ALIAS, em_legacy_id_alias := alias\<rparr>))))))))"

definition bind_employee_principal ::
  "'a workforce_state_scheme \<Rightarrow> journal_event \<Rightarrow> projection_exn + 'a workforce_state_scheme" where
  "bind_employee_principal st ev =
     bindE (ws_employee st (je_aggregate_id ev)) (\<lambda>e.
     bindE (require_mutable_employee e) (\<lambda>_.
     bindE (guardE (field_of (je_payload ev) ''agent_id'' = PStr (em_agent_id e)) (ProjectionError ''invalid employee bot principal binding'')) (\<lambda>_.
     bindE (nonempty_text (field_of (je_payload ev) ''bot_principal_id'') ''invalid employee bot principal binding'') (\<lambda>principal_id.
     bindE (guardE (canonical_bot_principal_id principal_id) (ProjectionError ''binding requires canonical bot_principal_id'')) (\<lambda>_.
     bindE (guardE (em_bot_principal_id e \<in> {None, Some principal_id})
              (ProjectionError ''employee already bound to another bot principal'')) (\<lambda>_.
     Inr (put_employee st ((touch_employee ev e)\<lparr>em_bot_principal_id := Some principal_id\<rparr>))))))))"

text \<open>An application is taken while an employee that is not archived is bound to it.\<close>

definition app_taken :: "'a workforce_state_scheme \<Rightarrow> string \<Rightarrow> bool" where
  "app_taken st app_id \<longleftrightarrow> list_ex (\<lambda>p. bp_app_id p = app_id \<and>
     (case dget (ws_employees st) (bp_agent_id p) of None \<Rightarrow> False | Some e \<Rightarrow> em_state e \<noteq> ES_ARCHIVED))
     (dvals (ws_bot_principals st))"

definition bind_bot_principal ::
  "'a workforce_state_scheme \<Rightarrow> journal_event \<Rightarrow> projection_exn + 'a workforce_state_scheme" where
  "bind_bot_principal st ev =
     (let payload = je_payload ev in
      bindE (text_or (field_of payload ''bot_principal_id'') (je_aggregate_id ev) ''bot_principal_id'') (\<lambda>principal_id.
      bindE (guardE (principal_id = je_aggregate_id ev) (ProjectionError ''bot principal aggregate_id mismatch'')) (\<lambda>_.
      bindE (guardE (canonical_bot_principal_id principal_id) (ProjectionError ''binding requires canonical bot_principal_id'')) (\<lambda>_.
      bindE (guardE (dget (ws_bot_principals st) principal_id = None) (ProjectionError ''bot principal already exists'')) (\<lambda>_.
      bindE (text_or (field_of payload ''agent_id'') [] ''agent_id'') (\<lambda>agent_id.
      bindE (ws_employee st agent_id) (\<lambda>e.
      bindE (guardE (em_bot_principal_id e = Some principal_id) (ProjectionError ''bot binding events do not match'')) (\<lambda>_.
      bindE (guardE (field_of payload ''tenant_key'' = PStr (em_tenant_key e))
               (ProjectionError ''bot principal tenant does not match employee tenant'')) (\<lambda>_.
      bindE (nonempty_text (field_of payload ''app_id'') ''bot principal app_id is required'') (\<lambda>app_id.
      bindE (nonempty_text (field_of payload ''credential_ref'') ''bot principal credential_ref is required'') (\<lambda>_.
      bindE (guardE (\<not> app_taken st app_id) (ProjectionError ''app_id already bound'')) (\<lambda>_.
      bindE (as_projection_error ''invalid bot principal''
               (bot_principal_from_dict (dset (dset payload ''bot_principal_id'' (PStr principal_id)) ''aggregate_version'' (PInt 1)))) (\<lambda>p.
      Inr (put_principal st p))))))))))))))"

definition MANIFEST_EVIDENCE :: string where
  "MANIFEST_EVIDENCE = ''lark_oapi.aregister_app/exact_app_id''"

definition observe_manifest ::
  "'a workforce_state_scheme \<Rightarrow> journal_event \<Rightarrow> projection_exn + 'a workforce_state_scheme" where
  "observe_manifest st ev =
     bindE (ws_principal st (je_aggregate_id ev)) (\<lambda>p.
     bindE (guardE (set (dkeys (je_payload ev)) = {''observed_manifest_hash''} \<or>
                    set (dkeys (je_payload ev)) = {''observed_manifest_hash'', ''evidence_source''})
              (ProjectionError ''manifest observation payload is invalid'')) (\<lambda>_.
     bindE (nonempty_text (field_of (je_payload ev) ''observed_manifest_hash'') ''observed_manifest_hash is required'') (\<lambda>observed.
     bindE (guardE (field_of (je_payload ev) ''evidence_source'' \<in> {PNone, PStr MANIFEST_EVIDENCE})
              (ProjectionError ''manifest evidence source is invalid'')) (\<lambda>_.
     Inr (put_principal st (p\<lparr>bp_observed_manifest_hash := observed,
            bp_manifest_evidence_source := the_str (field_of (je_payload ev) ''evidence_source''),
            bp_aggregate_version := bp_aggregate_version p + 1\<rparr>))))))"

fun scope_names :: "pyval \<Rightarrow> string list option" where
  "scope_names (PList vs) = group_names (PList vs)"
| "scope_names _ = None"

definition desire_manifest ::
  "'a workforce_state_scheme \<Rightarrow> journal_event \<Rightarrow> projection_exn + 'a workforce_state_scheme" where
  "desire_manifest st ev =
     bindE (ws_principal st (je_aggregate_id ev)) (\<lambda>p.
     bindE (guardE (set (dkeys (je_payload ev)) = {''desired_manifest_hash'', ''scopes''})
              (ProjectionError ''manifest desired payload is invalid'')) (\<lambda>_.
     bindE (nonempty_text (field_of (je_payload ev) ''desired_manifest_hash'') ''desired_manifest_hash is required'') (\<lambda>desired.
     case scope_names (field_of (je_payload ev) ''scopes'') of
       None \<Rightarrow> Inl (ProjectionError ''manifest scopes are invalid'')
     | Some scopes \<Rightarrow> Inr (put_principal st (p\<lparr>bp_desired_manifest_hash := desired, bp_scopes := scopes,
            bp_aggregate_version := bp_aggregate_version p + 1\<rparr>)))))"

definition destroy_credential ::
  "'a workforce_state_scheme \<Rightarrow> journal_event \<Rightarrow> projection_exn + 'a workforce_state_scheme" where
  "destroy_credential st ev =
     bindE (ws_principal st (je_aggregate_id ev)) (\<lambda>p.
     bindE (guardE (field_of (je_payload ev) ''credential_ref'' = PStr (bp_credential_ref p))
              (ProjectionError ''credential ref does not match bot principal'')) (\<lambda>_.
     Inr (put_principal st (p\<lparr>bp_credential_ref := [], bp_aggregate_version := bp_aggregate_version p + 1\<rparr>))))"

fun above :: "(int \<Rightarrow> bool) \<Rightarrow> pyval \<Rightarrow> string \<Rightarrow> projection_exn + int" where
  "above ok (PInt i) msg = (if ok i then Inr i else Inl (ProjectionError msg))"
| "above ok _ msg = Inl (ProjectionError msg)"

definition cutover_authority ::
  "'a workforce_state_scheme \<Rightarrow> journal_event \<Rightarrow> projection_exn + 'a workforce_state_scheme" where
  "cutover_authority st ev =
     bindE (guardE (je_aggregate_id ev = ''workforce_authority'') (ProjectionError ''authority cutover aggregate is invalid'')) (\<lambda>_.
     bindE (guardE (set (dkeys (je_payload ev)) = {''authority_epoch'', ''authority_mode'', ''cutover_sequence''})
              (ProjectionError ''authority cutover payload fields are invalid'')) (\<lambda>_.
     bindE (above (\<lambda>i. ws_authority_epoch st < i) (field_of (je_payload ev) ''authority_epoch'') ''authority_epoch must increase'') (\<lambda>epoch.
     case enum_field authority_mode_value authority_mode_members (field_of (je_payload ev) ''authority_mode'') of
       Inl _ \<Rightarrow> Inl (ProjectionError ''authority_mode is invalid'')
     | Inr mode \<Rightarrow>
         bindE (above (\<lambda>i. ws_cutover_sequence st \<le> i) (field_of (je_payload ev) ''cutover_sequence'')
                  ''cutover_sequence must not decrease'') (\<lambda>cutover.
         Inr (st\<lparr>ws_authority_epoch := epoch, ws_authority_mode := mode, ws_cutover_sequence := cutover\<rparr>)))))"

definition APPLIERS ::
  "(string \<Rightarrow> string) \<Rightarrow> (string, 'a workforce_state_scheme \<Rightarrow> journal_event \<Rightarrow> projection_exn + 'a workforce_state_scheme) dict" where
  "APPLIERS casefold =
     [(''employee.created'', create_employee casefold),
      (''employee.name_released'', release_employee_name casefold),
      (''employee.state_changed'', change_employee_state),
      (''employee.profile_changed'', change_employee_profile casefold),
      (''employee.membership_changed'', change_membership),
      (''employee.membership.effect_prepared'', \<lambda>st ev. Inr st),
      (''employee.membership.effect_executing'', \<lambda>st ev. Inr st),
      (''employee.membership.effect_committed'', \<lambda>st ev. Inr st),
      (''employee.membership.effect_action_required'', \<lambda>st ev. Inr st),
      (''employee.legacy_alias_bound'', bind_legacy_alias),
      (''employee.bot_principal_bound'', bind_employee_principal),
      (''bot_principal.bound'', bind_bot_principal),
      (''bot_principal.manifest_desired'', desire_manifest),
      (''bot_principal.manifest_observed'', observe_manifest),
      (''credential.destroyed'', destroy_credential),
      (''authority.cutover'', cutover_authority)]"

definition WORKFORCE_EVENTS :: "string list" where
  "WORKFORCE_EVENTS = [''employee.created'', ''employee.name_released'', ''employee.state_changed'', ''employee.profile_changed'',
     ''employee.membership_changed'', ''employee.membership.effect_prepared'', ''employee.membership.effect_executing'',
     ''employee.membership.effect_committed'', ''employee.membership.effect_action_required'', ''employee.legacy_alias_bound'',
     ''employee.bot_principal_bound'', ''bot_principal.bound'', ''bot_principal.manifest_desired'',
     ''bot_principal.manifest_observed'', ''credential.destroyed'', ''authority.cutover'']"

definition is_workforce_event :: "string \<Rightarrow> bool" where
  "is_workforce_event ty \<longleftrightarrow> ty \<in> set WORKFORCE_EVENTS"

text \<open>The new state, and whether the event was recognized.\<close>

definition apply_workforce_event ::
  "(string \<Rightarrow> string) \<Rightarrow> 'a workforce_state_scheme \<Rightarrow> journal_event \<Rightarrow> projection_exn + 'a workforce_state_scheme \<times> bool" where
  "apply_workforce_event casefold st ev =
     (case dget (APPLIERS casefold) (je_event_type ev) of
        None \<Rightarrow> Inr (st, False)
      | Some applier \<Rightarrow> bindE (applier st ev) (\<lambda>st'. Inr (st', True)))"

section \<open>Transactions\<close>

definition binding_text :: "pyval \<Rightarrow> string \<Rightarrow> projection_exn + string" where
  "binding_text v field = raise_py (raw_str field v)"

definition validate_bot_binding_pairs :: "journal_event list \<Rightarrow> projection_exn + unit" where
  "validate_bot_binding_pairs evs =
     (let employee_events = filter (\<lambda>ev. je_event_type ev = ''employee.bot_principal_bound'') evs;
          principal_events = filter (\<lambda>ev. je_event_type ev = ''bot_principal.bound'') evs
      in if employee_events = [] \<and> principal_events = [] then Inr ()
         else if employee_events = [] \<or> principal_events = []
         then Inl (ProjectionError ''bot binding events must be in same transaction'')
         else if length employee_events \<noteq> 1 \<or> length principal_events \<noteq> 1
         then Inl (ProjectionError ''bot binding transaction requires exactly one event per aggregate'')
         else let e = hd employee_events; p = hd principal_events in
           bindE (binding_text (field_of (je_payload e) ''agent_id'') ''agent_id'') (\<lambda>a1.
           bindE (binding_text (field_of (je_payload e) ''bot_principal_id'') ''bot_principal_id'') (\<lambda>b1.
           bindE (binding_text (field_of (je_payload p) ''agent_id'') ''agent_id'') (\<lambda>a2.
           bindE (text_or (field_of (je_payload p) ''bot_principal_id'') (je_aggregate_id p) ''bot_principal_id'') (\<lambda>b2.
           guardE (a1 = a2 \<and> b1 = b2) (ProjectionError ''bot binding events do not match''))))))"

definition validate_workforce_frame_events :: "journal_event list \<Rightarrow> projection_exn + unit" where
  "validate_workforce_frame_events evs =
     (let workforce_events = filter (\<lambda>ev. is_workforce_event (je_event_type ev)) evs
      in if \<not> distinct (map (\<lambda>ev. (je_aggregate_id ev, je_event_type ev)) workforce_events)
         then Inl (ProjectionError ''workforce transaction rejects duplicate event type per aggregate'')
         else validate_bot_binding_pairs workforce_events)"

definition set_version :: "'a workforce_state_scheme \<Rightarrow> string \<Rightarrow> int \<Rightarrow> 'a workforce_state_scheme" where
  "set_version st i v =
     (let st1 = (case dget (ws_employees st) i of None \<Rightarrow> st
                 | Some e \<Rightarrow> st\<lparr>ws_employees := dset (ws_employees st) i (e\<lparr>em_aggregate_version := v\<rparr>)\<rparr>)
      in case dget (ws_bot_principals st1) i of None \<Rightarrow> st1
         | Some p \<Rightarrow> st1\<lparr>ws_bot_principals := dset (ws_bot_principals st1) i (p\<lparr>bp_aggregate_version := v\<rparr>)\<rparr>)"

text \<open>The loop runs over a set of identifiers; the updates of different keys commute.\<close>

fun set_versions ::
  "'a workforce_state_scheme \<Rightarrow> (string, int) dict \<Rightarrow> string list \<Rightarrow> projection_exn + 'a workforce_state_scheme" where
  "set_versions st versions [] = Inr st"
| "set_versions st versions (i # ids) =
     (case dget versions i of None \<Rightarrow> Inl (ProjectionRaise (KeyError i))
      | Some v \<Rightarrow> set_versions (set_version st i v) versions ids)"

definition normalize_workforce_aggregate_versions ::
  "'a workforce_state_scheme \<Rightarrow> (string, int) dict \<Rightarrow> journal_event list \<Rightarrow> projection_exn + 'a workforce_state_scheme" where
  "normalize_workforce_aggregate_versions st versions evs =
     set_versions st versions (remdups (map je_aggregate_id (filter (\<lambda>ev. is_workforce_event (je_event_type ev)) evs)))"

fun apply_workforce_events ::
  "(string \<Rightarrow> string) \<Rightarrow> 'a workforce_state_scheme \<Rightarrow> journal_event list \<Rightarrow> projection_exn + 'a workforce_state_scheme" where
  "apply_workforce_events casefold st [] = Inr st"
| "apply_workforce_events casefold st (ev # evs) =
     bindE (apply_workforce_event casefold st ev) (\<lambda>(st', _). apply_workforce_events casefold st' evs)"

text \<open>The isolated copy of the state shares its immutable values, so the copy is the value itself.\<close>

datatype workforce_exn = WorkforceValueError string | WorkforceProjection projection_exn

definition validate_workforce_events ::
  "(string \<Rightarrow> string) \<Rightarrow> 'a workforce_state_scheme \<Rightarrow> journal_event list \<Rightarrow> workforce_exn + 'a workforce_state_scheme" where
  "validate_workforce_events casefold st evs =
     (if evs = [] then Inl (WorkforceValueError ''workforce transaction cannot be empty'')
      else if \<not> list_all (\<lambda>ev. is_workforce_event (je_event_type ev)) evs
      then Inl (WorkforceValueError ''workforce transaction contains a non-workforce event'')
      else case bindE (validate_workforce_frame_events evs) (\<lambda>_. apply_workforce_events casefold st evs) of
        Inl e \<Rightarrow> Inl (WorkforceProjection e)
      | Inr st' \<Rightarrow> Inr st')"

section \<open>Legacy writers\<close>

datatype authority_exn = StaleAuthorityEpoch int int authority_mode | AuthorityRuntimeError string | AuthorityValueError string

definition writable_modes :: "authority_mode list" where
  "writable_modes = [AM_LEGACY_WRITE, AM_SHADOW_READ]"

definition assert_writable :: "int \<Rightarrow> authority_snapshot \<Rightarrow> int option \<Rightarrow> authority_exn + int" where
  "assert_writable expected_epoch snapshot validated_epoch =
     (let expected = (case validated_epoch of None \<Rightarrow> expected_epoch | Some n \<Rightarrow> n)
      in if as_epoch snapshot \<noteq> expected \<or> as_mode snapshot \<notin> set writable_modes
         then Inl (StaleAuthorityEpoch expected (as_epoch snapshot) (as_mode snapshot))
         else Inr (as_epoch snapshot))"

text \<open>
  \<open>cutover\<close> with the snapshots its provider gives before and after the callback, and the one the
  callback returned. The two optional callbacks are left to the caller: the first runs exactly when
  the result is \<open>Inr\<close>, the second always.
\<close>

definition guard_cutover :: "authority_snapshot \<Rightarrow> authority_snapshot \<Rightarrow> authority_snapshot \<Rightarrow> authority_exn + authority_snapshot" where
  "guard_cutover before after observed =
     (if after \<noteq> observed then Inl (AuthorityRuntimeError ''authority cutover callback did not publish snapshot'')
      else if as_epoch after \<le> as_epoch before then Inl (AuthorityValueError ''authority cutover must increase epoch'')
      else Inr after)"

section \<open>The invariant of the projection\<close>

text \<open>
  Every employee that is not archived owns its name within its tenant, case folded; every principal
  belongs to an employee of its tenant that names it; and two principals share an application only
  when the employee of one of them is archived.
\<close>

definition names_owned :: "(string \<Rightarrow> string) \<Rightarrow> 'a workforce_state_scheme \<Rightarrow> bool" where
  "names_owned casefold st \<longleftrightarrow> (\<forall>k e. dget (ws_employees st) k = Some e \<longrightarrow> em_agent_id e = k \<and> canonical_agent_id k \<and>
     (em_state e \<noteq> ES_ARCHIVED \<longrightarrow> dget (ws_name_keys st) (name_key casefold (em_tenant_key e) (em_name e)) = Some k))"

definition principals_bound :: "'a workforce_state_scheme \<Rightarrow> bool" where
  "principals_bound st \<longleftrightarrow> (\<forall>k p. dget (ws_bot_principals st) k = Some p \<longrightarrow> bp_bot_principal_id p = k \<and>
     (\<exists>e. dget (ws_employees st) (bp_agent_id p) = Some e \<and> em_bot_principal_id e = Some k \<and>
       em_tenant_key e = bp_tenant_key p))"

definition active_agent :: "'a workforce_state_scheme \<Rightarrow> string \<Rightarrow> bool" where
  "active_agent st k \<longleftrightarrow> (\<exists>e. dget (ws_employees st) k = Some e \<and> em_state e \<noteq> ES_ARCHIVED)"

definition apps_exclusive :: "'a workforce_state_scheme \<Rightarrow> bool" where
  "apps_exclusive st \<longleftrightarrow> (\<forall>k p l q. dget (ws_bot_principals st) k = Some p \<longrightarrow> dget (ws_bot_principals st) l = Some q \<longrightarrow>
     bp_app_id p = bp_app_id q \<longrightarrow> active_agent st (bp_agent_id p) \<longrightarrow> active_agent st (bp_agent_id q) \<longrightarrow> k = l)"

definition workforce_inv :: "(string \<Rightarrow> string) \<Rightarrow> 'a workforce_state_scheme \<Rightarrow> bool" where
  "workforce_inv casefold st \<longleftrightarrow> dict_ok (ws_bot_principals st) \<and> names_owned casefold st \<and>
     principals_bound st \<and> apps_exclusive st"

section \<open>Updates of one aggregate\<close>

text \<open>What every change of an existing employee keeps.\<close>

definition employee_kept :: "employee_definition \<Rightarrow> employee_definition \<Rightarrow> bool" where
  "employee_kept e e' \<longleftrightarrow> em_agent_id e' = em_agent_id e \<and> em_tenant_key e' = em_tenant_key e \<and>
     (em_state e = ES_ARCHIVED \<longrightarrow> em_state e' = ES_ARCHIVED) \<and>
     (em_bot_principal_id e = None \<or> em_bot_principal_id e' = em_bot_principal_id e)"

lemma put_employee_fields [simp]:
  "ws_employees (put_employee st e) = dset (ws_employees st) (em_agent_id e) e"
  "ws_bot_principals (put_employee st e) = ws_bot_principals st"
  "ws_name_keys (put_employee st e) = ws_name_keys st"
  by (simp_all add: put_employee_def)

lemma put_principal_fields [simp]:
  "ws_employees (put_principal st p) = ws_employees st"
  "ws_bot_principals (put_principal st p) = dset (ws_bot_principals st) (bp_bot_principal_id p) p"
  "ws_name_keys (put_principal st p) = ws_name_keys st"
  by (simp_all add: put_principal_def)

text \<open>
  The invariant reads only the three tables. A state whose employees change by keeping their binding
  and whose names stay owned keeps it.
\<close>

lemma inv_change_employee:
  assumes inv: "workforce_inv cf st" and old: "dget (ws_employees st) (em_agent_id e') = Some e"
    and kept: "employee_kept e e'" and emp: "ws_employees st' = dset (ws_employees st) (em_agent_id e') e'"
    and prin: "ws_bot_principals st' = ws_bot_principals st" and names: "names_owned cf st'"
  shows "workforce_inv cf st'"
proof -
  have active: "active_agent st' k \<Longrightarrow> active_agent st k" for k
    using old kept by (auto simp: active_agent_def emp employee_kept_def split: if_splits)
  have "principals_bound st'"
    unfolding principals_bound_def prin
  proof (intro allI impI)
    fix k p
    assume p: "dget (ws_bot_principals st) k = Some p"
    with inv obtain x where x: "bp_bot_principal_id p = k" "dget (ws_employees st) (bp_agent_id p) = Some x"
      "em_bot_principal_id x = Some k" "em_tenant_key x = bp_tenant_key p"
      by (auto simp: workforce_inv_def principals_bound_def)
    then show "bp_bot_principal_id p = k \<and> (\<exists>e. dget (ws_employees st') (bp_agent_id p) = Some e \<and>
        em_bot_principal_id e = Some k \<and> em_tenant_key e = bp_tenant_key p)"
      using old kept by (auto simp: emp employee_kept_def)
  qed
  moreover have "apps_exclusive st'"
    using inv active unfolding workforce_inv_def apps_exclusive_def prin by meson
  ultimately show ?thesis using inv names by (simp add: workforce_inv_def prin)
qed

lemma inv_put_employee:
  assumes inv: "workforce_inv cf st" and old: "dget (ws_employees st) (em_agent_id e') = Some e"
    and kept: "employee_kept e e'" and name: "em_name e' = em_name e"
  shows "workforce_inv cf (put_employee st e')"
proof (rule inv_change_employee [OF inv old kept])
  show "names_owned cf (put_employee st e')"
    using inv old kept name by (auto simp: workforce_inv_def names_owned_def employee_kept_def)
qed simp_all

lemma inv_new_employee:
  assumes inv: "workforce_inv cf st" and new: "dget (ws_employees st) (em_agent_id e) = None"
    and emp: "ws_employees st' = dset (ws_employees st) (em_agent_id e) e"
    and prin: "ws_bot_principals st' = ws_bot_principals st" and names: "names_owned cf st'"
  shows "workforce_inv cf st'"
proof -
  have agents: "bp_agent_id p \<noteq> em_agent_id e" if "dget (ws_bot_principals st) k = Some p" for k p
    using inv new that unfolding workforce_inv_def principals_bound_def by (metis option.distinct(1))
  then have "principals_bound st'"
    using inv by (simp add: workforce_inv_def principals_bound_def prin emp)
  moreover have "active_agent st' (bp_agent_id p) \<longleftrightarrow> active_agent st (bp_agent_id p)"
    if "dget (ws_bot_principals st) k = Some p" for k p
    using agents [OF that] by (simp add: active_agent_def emp)
  then have "apps_exclusive st'"
    using inv unfolding workforce_inv_def apps_exclusive_def prin by metis
  ultimately show ?thesis using inv names by (simp add: workforce_inv_def prin)
qed

lemma inv_put_principal:
  assumes inv: "workforce_inv cf st" and old: "dget (ws_bot_principals st) (bp_bot_principal_id p') = Some p"
    and kept: "bp_agent_id p' = bp_agent_id p" "bp_tenant_key p' = bp_tenant_key p" "bp_app_id p' = bp_app_id p"
  shows "workforce_inv cf (put_principal st p')"
proof -
  have "principals_bound (put_principal st p')"
    using inv old kept by (auto simp: workforce_inv_def principals_bound_def)
  moreover have "apps_exclusive (put_principal st p')"
    using inv old kept unfolding workforce_inv_def apps_exclusive_def active_agent_def by simp metis
  ultimately show ?thesis using inv by (simp add: workforce_inv_def names_owned_def)
qed

lemma inv_same_tables:
  assumes "workforce_inv cf st" and "ws_employees st' = ws_employees st" and "ws_bot_principals st' = ws_bot_principals st"
    and "ws_name_keys st' = ws_name_keys st"
  shows "workforce_inv cf st'"
  using assms by (simp add: workforce_inv_def names_owned_def principals_bound_def apps_exclusive_def active_agent_def)

section \<open>Every event keeps the invariant\<close>

lemma ws_employee_Inr [simp]: "ws_employee st i = Inr e \<longleftrightarrow> dget (ws_employees st) i = Some e"
  by (simp add: ws_employee_def split: option.split)

lemma ws_principal_Inr [simp]: "ws_principal st i = Inr p \<longleftrightarrow> dget (ws_bot_principals st) i = Some p"
  by (simp add: ws_principal_def split: option.split)

lemma as_projection_error_Inr [simp]: "as_projection_error m x = Inr y \<longleftrightarrow> x = Inr y"
  by (cases "(m, x)" rule: as_projection_error.cases) auto

lemma inv_agent_id: "workforce_inv cf st \<Longrightarrow> dget (ws_employees st) k = Some e \<Longrightarrow> em_agent_id e = k"
  by (simp add: workforce_inv_def names_owned_def)

lemma inv_canonical: "workforce_inv cf st \<Longrightarrow> dget (ws_employees st) k = Some e \<Longrightarrow> canonical_agent_id k"
  by (simp add: workforce_inv_def names_owned_def)

lemma inv_principal_id: "workforce_inv cf st \<Longrightarrow> dget (ws_bot_principals st) k = Some p \<Longrightarrow> bp_bot_principal_id p = k"
  by (simp add: workforce_inv_def principals_bound_def)

lemma reserve_name_Inr:
  assumes "reserve_name cf st e previous = Inr st'"
  shows "st' = st\<lparr>ws_name_keys := ws_name_keys st'\<rparr>"
    and "dget (ws_name_keys st') (name_key cf (em_tenant_key e) (em_name e)) = Some (em_agent_id e)"
    and "dget (ws_name_keys st) k = Some owner \<Longrightarrow> owner \<noteq> em_agent_id e \<Longrightarrow> dget (ws_name_keys st') k = Some owner"
  using assms by (auto simp: reserve_name_def Let_def split: option.splits if_splits)

lemma reserve_name_tables:
  assumes "reserve_name cf st e previous = Inr st'"
  shows "ws_employees st' = ws_employees st" "ws_bot_principals st' = ws_bot_principals st"
  using assms by (auto simp: reserve_name_def Let_def split: option.splits if_splits)

lemma reserve_keeps_names:
  assumes inv: "workforce_inv cf st" and res: "reserve_name cf st e previous = Inr st'" and "canonical_agent_id (em_agent_id e)"
  shows "names_owned cf (put_employee st' e)"
  using inv reserve_name_Inr(2,3) [OF res] assms(3) by (simp add: workforce_inv_def names_owned_def reserve_name_tables [OF res])

lemma create_employee_inv:
  assumes inv: "workforce_inv cf st" and ok: "create_employee cf st ev = Inr st'"
  shows "workforce_inv cf st'"
proof -
  from ok obtain agent_id e st1 where c: "dget (ws_employees st) agent_id = None"
    "employee_from_dict (created_payload ev agent_id) = Inr e" "reserve_name cf st e [] = Inr st1" "st' = put_employee st1 e"
    by (auto simp: create_employee_def bindE_Inr_iff)
  have "raw_agent_id (created_payload ev agent_id) = Inr agent_id"
    by (simp add: raw_agent_id_def created_payload_def dict_setdefault_def opt_def Let_def)
  with c(2) have "em_agent_id e = agent_id" and can: "canonical_agent_id (em_agent_id e)"
    by (auto simp: employee_from_dict_def bindE_Inr_iff employee_init_def split: if_splits)
  with c(1) have new: "dget (ws_employees st) (em_agent_id e) = None" by simp
  show ?thesis unfolding c(4)
    by (rule inv_new_employee [OF inv new _ _ reserve_keeps_names [OF inv c(3) can]]) (simp_all add: reserve_name_tables [OF c(3)])
qed

lemma replace_profile_kept:
  assumes "replace_profile e d = Inr e'"
  shows "em_agent_id e' = em_agent_id e \<and> em_tenant_key e' = em_tenant_key e \<and> em_state e' = em_state e \<and>
    em_bot_principal_id e' = em_bot_principal_id e"
  using assms by (auto simp: replace_profile_def bindE_Inr_iff employee_init_def split: if_splits)

lemma touch_kept:
  "em_agent_id (touch_employee ev e) = em_agent_id e" "em_tenant_key (touch_employee ev e) = em_tenant_key e"
  "em_state (touch_employee ev e) = em_state e" "em_bot_principal_id (touch_employee ev e) = em_bot_principal_id e"
  "em_name (touch_employee ev e) = em_name e"
  by (simp_all add: touch_employee_def)

lemma change_profile_inv:
  assumes inv: "workforce_inv cf st" and ok: "change_employee_profile cf st ev = Inr st'"
  shows "workforce_inv cf st'"
proof -
  from ok obtain e updated st1 where c: "dget (ws_employees st) (je_aggregate_id ev) = Some e"
    "replace_profile (touch_employee ev e) (je_payload ev) = Inr updated"
    "reserve_name cf st updated (em_name e) = Inr st1" "st' = put_employee st1 updated"
    by (auto simp: change_employee_profile_def bindE_Inr_iff)
  note kept = replace_profile_kept [OF c(2), unfolded touch_kept]
  from kept inv_agent_id [OF inv c(1)] c(1) have old: "dget (ws_employees st) (em_agent_id updated) = Some e" by simp
  show ?thesis unfolding c(4)
    by (rule inv_change_employee [OF inv old _ _ _ reserve_keeps_names [OF inv c(3) inv_canonical [OF inv old]]])
      (use old kept in \<open>simp_all add: reserve_name_tables [OF c(3)] employee_kept_def\<close>)
qed

lemma release_name_inv:
  assumes inv: "workforce_inv cf st" and ok: "release_employee_name cf st ev = Inr st'"
  shows "workforce_inv cf st'"
proof -
  from ok obtain e where e: "dget (ws_employees st) (je_aggregate_id ev) = Some e" "em_state e = ES_ARCHIVED"
    and st': "st' = st \<or> dget (ws_name_keys st) (name_key cf (em_tenant_key e) (em_name e)) = Some (em_agent_id e) \<and>
      st' = st\<lparr>ws_name_keys := dpop (ws_name_keys st) (name_key cf (em_tenant_key e) (em_name e))\<rparr>"
    by (auto simp: release_employee_name_def bindE_Inr_iff Let_def split: option.splits if_splits)
  have "names_owned cf st'"
    using inv e st' inv_agent_id [OF inv e(1)] by (auto simp: workforce_inv_def names_owned_def) (metis option.inject)
  moreover have "ws_employees st' = ws_employees st" "ws_bot_principals st' = ws_bot_principals st" using st' by auto
  ultimately show ?thesis using inv
    by (simp add: workforce_inv_def principals_bound_def apps_exclusive_def active_agent_def)
qed

lemma strict_str_Inr [simp]: "strict_str v k = Inr s \<longleftrightarrow> v = PStr s"
  by (cases v) auto

lemma bot_principal_from_dict_Inr:
  assumes "bot_principal_from_dict d = Inr p"
  shows "opt d ''agent_id'' (opt d ''employee_id'' PNone) = PStr (bp_agent_id p) \<and>
    dget d ''bot_principal_id'' = Some (PStr (bp_bot_principal_id p)) \<and>
    opt d ''tenant_key'' (PStr []) = PStr (bp_tenant_key p) \<and> opt d ''app_id'' (PStr []) = PStr (bp_app_id p) \<and> bp_agent_id p \<noteq> []"
proof -
  obtain raw where raw: "(case opt d ''agent_id'' (opt d ''employee_id'' PNone) of PNone \<Rightarrow> Inl (ValueError ''agent_id is required'') | v \<Rightarrow> Inr v) = Inr raw"
    and rest: "strict_str raw ''agent_id'' = Inr (bp_agent_id p)" "req_str d ''bot_principal_id'' = Inr (bp_bot_principal_id p)"
      "opt_str d ''tenant_key'' [] = Inr (bp_tenant_key p)" "opt_str d ''app_id'' [] = Inr (bp_app_id p)" "bp_agent_id p \<noteq> []"
    using assms by (auto simp: bot_principal_from_dict_def bindE_Inr_iff bot_principal_init_def split: if_splits)
  have "raw = opt d ''agent_id'' (opt d ''employee_id'' PNone)"
    using raw by (cases "opt d ''agent_id'' (opt d ''employee_id'' PNone)") auto
  with rest show ?thesis by (auto simp: req_str_def req_def opt_str_def bindE_Inr_iff split: option.splits)
qed

lemma nonempty_text_Inr [simp]: "nonempty_text v m = Inr s \<longleftrightarrow> v = PStr s \<and> s \<noteq> []"
  by (cases v) auto

lemma bind_bot_principal_inv:
  assumes inv: "workforce_inv cf st" and ok: "bind_bot_principal st ev = Inr st'"
  shows "workforce_inv cf st'"
proof -
  from ok obtain i agent e app p where c: "dget (ws_bot_principals st) i = None" "dget (ws_employees st) agent = Some e"
    "em_bot_principal_id e = Some i" "field_of (je_payload ev) ''tenant_key'' = PStr (em_tenant_key e)"
    "field_of (je_payload ev) ''app_id'' = PStr app" "\<not> app_taken st app"
    "bot_principal_from_dict (dset (dset (je_payload ev) ''bot_principal_id'' (PStr i)) ''aggregate_version'' (PInt 1)) = Inr p"
    "st' = put_principal st p" "text_or (field_of (je_payload ev) ''agent_id'') [] ''agent_id'' = Inr agent"
    by (auto simp: bind_bot_principal_def bindE_Inr_iff Let_def)
  have p: "bp_bot_principal_id p = i" "bp_app_id p = app" "bp_tenant_key p = em_tenant_key e" "bp_agent_id p = agent"
  proof -
    note d = bot_principal_from_dict_Inr [OF c(7)]
    show "bp_bot_principal_id p = i" "bp_app_id p = app" "bp_tenant_key p = em_tenant_key e"
      using d c(4,5) by (auto simp: field_of_def opt_def split: option.splits)
    show "bp_agent_id p = agent"
      using d c(9) canonical_id_nonempty [OF inv_canonical [OF inv c(2)]] by (auto simp: field_of_def opt_def split: option.splits)
  qed
  have "principals_bound st'"
    using inv c(2,3) p by (auto simp: workforce_inv_def principals_bound_def c(8))
  moreover have taken: "\<not> active_agent st (bp_agent_id q)" if "dget (ws_bot_principals st) k = Some q" "bp_app_id q = app" for k q
  proof -
    have "q \<in> set (dvals (ws_bot_principals st))" using map_of_SomeD [OF that(1)] by force
    with c(6) that(2) show ?thesis by (auto simp: app_taken_def list_ex_iff active_agent_def)
  qed
  have "apps_exclusive st'"
    using inv taken p c(1) unfolding workforce_inv_def apps_exclusive_def c(8) active_agent_def by auto
  ultimately show ?thesis using inv by (simp add: workforce_inv_def names_owned_def c(8))
qed

lemma require_mutable_Inr [simp]: "require_mutable_employee e = Inr u \<longleftrightarrow> em_state e \<noteq> ES_ARCHIVED"
  by (simp add: require_mutable_employee_def)

text \<open>The changes of one employee or one principal, by what they keep.\<close>

definition employee_step :: "'a workforce_state_scheme \<Rightarrow> 'a workforce_state_scheme \<Rightarrow> bool" where
  "employee_step st st' \<longleftrightarrow> (\<exists>e e' st1. dget (ws_employees st) (em_agent_id e) = Some e \<and> employee_kept e e' \<and> em_name e' = em_name e \<and>
     ws_employees st1 = ws_employees st \<and> ws_bot_principals st1 = ws_bot_principals st \<and> ws_name_keys st1 = ws_name_keys st \<and>
     st' = put_employee st1 e')"

definition principal_step :: "'a workforce_state_scheme \<Rightarrow> 'a workforce_state_scheme \<Rightarrow> bool" where
  "principal_step st st' \<longleftrightarrow> (\<exists>p p'. dget (ws_bot_principals st) (bp_bot_principal_id p) = Some p \<and>
     bp_bot_principal_id p' = bp_bot_principal_id p \<and> bp_agent_id p' = bp_agent_id p \<and>
     bp_tenant_key p' = bp_tenant_key p \<and> bp_app_id p' = bp_app_id p \<and> st' = put_principal st p')"

lemma employee_stepI:
  assumes "workforce_inv cf st" and "dget (ws_employees st) i = Some e" and "employee_kept e e'" and "em_name e' = em_name e"
    and "ws_employees st1 = ws_employees st" and "ws_bot_principals st1 = ws_bot_principals st" and "ws_name_keys st1 = ws_name_keys st"
  shows "employee_step st (put_employee st1 e')"
  using assms inv_agent_id [OF assms(1,2)] unfolding employee_step_def by blast

lemma employee_step_inv:
  assumes inv: "workforce_inv cf st" and s: "employee_step st st'"
  shows "workforce_inv cf st'"
proof -
  from s obtain e e' st1 where c: "dget (ws_employees st) (em_agent_id e) = Some e" "employee_kept e e'" "em_name e' = em_name e"
    "ws_employees st1 = ws_employees st" "ws_bot_principals st1 = ws_bot_principals st" "ws_name_keys st1 = ws_name_keys st"
    "st' = put_employee st1 e'"
    unfolding employee_step_def by blast
  from inv_same_tables [OF inv c(4-6)] have "workforce_inv cf st1" .
  moreover have "dget (ws_employees st1) (em_agent_id e') = Some e" using c by (simp add: employee_kept_def)
  ultimately show ?thesis using inv_put_employee c by metis
qed

lemma principal_step_inv: "workforce_inv cf st \<Longrightarrow> principal_step st st' \<Longrightarrow> workforce_inv cf st'"
  unfolding principal_step_def using inv_put_principal by metis

lemma change_state_Inr:
  assumes "change_employee_state st ev = Inr st'"
  shows "\<exists>e s. dget (ws_employees st) (je_aggregate_id ev) = Some e \<and> em_state e \<noteq> ES_ARCHIVED \<and>
    st' = put_employee st ((touch_employee ev e)\<lparr>em_state := s\<rparr>)"
proof (cases "bindE (req (je_payload ev) ''state'') (enum_field employee_state_value employee_state_members)")
  case (Inr s)
  with assms show ?thesis unfolding change_employee_state_def Inr by (auto simp: bindE_Inr_iff [of "ws_employee st i" for i] bindE_Inr_iff)
qed (use assms in \<open>auto simp: change_employee_state_def bindE_Inr_iff [of "ws_employee st i" for i] bindE_Inr_iff [of "require_mutable_employee e" for e]\<close>)

lemma employee_reducers:
  assumes inv: "workforce_inv cf st"
  shows "change_employee_state st ev = Inr st' \<Longrightarrow> employee_step st st'"
    and "change_membership st ev = Inr st' \<Longrightarrow> employee_step st st'"
    and "bind_legacy_alias st ev = Inr st' \<Longrightarrow> employee_step st st'"
    and "bind_employee_principal st ev = Inr st' \<Longrightarrow> employee_step st st'"
  by (auto simp: change_membership_def bind_legacy_alias_def bind_employee_principal_def
      bindE_Inr_iff employee_kept_def touch_kept intro!: employee_stepI [OF inv] dest!: change_state_Inr split: option.splits)

lemma principal_stepI:
  assumes "workforce_inv cf st" and "dget (ws_bot_principals st) i = Some p" and "bp_bot_principal_id p' = bp_bot_principal_id p"
    and "bp_agent_id p' = bp_agent_id p" and "bp_tenant_key p' = bp_tenant_key p" and "bp_app_id p' = bp_app_id p"
  shows "principal_step st (put_principal st p')"
  using assms inv_principal_id [OF assms(1,2)] unfolding principal_step_def by metis

lemma principal_reducers:
  assumes inv: "workforce_inv cf st"
  shows "observe_manifest st ev = Inr st' \<Longrightarrow> principal_step st st'"
    and "desire_manifest st ev = Inr st' \<Longrightarrow> principal_step st st'"
    and "destroy_credential st ev = Inr st' \<Longrightarrow> principal_step st st'"
  unfolding observe_manifest_def desire_manifest_def destroy_credential_def
    apply (elim bindE_InrE)
    apply (drule sym, simp, rule principal_stepI [OF inv]; simp)
   apply (elim bindE_InrE)
   apply (simp split: option.splits, drule sym, simp, rule principal_stepI [OF inv]; simp)
  apply (elim bindE_InrE)
  apply (drule sym, simp, rule principal_stepI [OF inv]; simp)
  done

lemma above_Inr: "above ok v m = Inr i \<Longrightarrow> ok i"
  by (cases v) (auto split: if_splits)

lemma cutover_Inr:
  assumes "cutover_authority st ev = Inr st'"
  shows "\<exists>ep mode cs. st' = st\<lparr>ws_authority_epoch := ep, ws_authority_mode := mode, ws_cutover_sequence := cs\<rparr> \<and>
    ws_authority_epoch st < ep \<and> ws_cutover_sequence st \<le> cs"
  using assms unfolding cutover_authority_def
proof (elim bindE_InrE)
  fix ep u v
  assume ep: "above (\<lambda>i. ws_authority_epoch st < i) (field_of (je_payload ev) ''authority_epoch'') ''authority_epoch must increase'' = Inr ep"
    and rest: "(case enum_field authority_mode_value authority_mode_members (field_of (je_payload ev) ''authority_mode'') of
      Inl _ \<Rightarrow> Inl (ProjectionError ''authority_mode is invalid'')
    | Inr mode \<Rightarrow> bindE (above (\<lambda>i. ws_cutover_sequence st \<le> i) (field_of (je_payload ev) ''cutover_sequence'')
        ''cutover_sequence must not decrease'') (\<lambda>cutover. Inr (st\<lparr>ws_authority_epoch := ep, ws_authority_mode := mode,
          ws_cutover_sequence := cutover\<rparr>))) = Inr st'"
  show ?thesis
  proof (cases "enum_field authority_mode_value authority_mode_members (field_of (je_payload ev) ''authority_mode'')")
    case (Inr mode)
    with rest obtain cs where "above (\<lambda>i. ws_cutover_sequence st \<le> i) (field_of (je_payload ev) ''cutover_sequence'')
        ''cutover_sequence must not decrease'' = Inr cs"
      "st' = st\<lparr>ws_authority_epoch := ep, ws_authority_mode := mode, ws_cutover_sequence := cs\<rparr>"
      by (auto elim: bindE_InrE)
    with above_Inr [OF ep] above_Inr show ?thesis by blast
  qed (use rest in simp)
qed

lemma APPLIERS_cases:
  assumes "dget (APPLIERS cf) ty = Some f"
  shows "f = create_employee cf \<or> f = release_employee_name cf \<or> f = change_employee_state \<or> f = change_employee_profile cf \<or>
    f = change_membership \<or> f = (\<lambda>st ev. Inr st) \<or> f = bind_legacy_alias \<or> f = bind_employee_principal \<or> f = bind_bot_principal \<or>
    f = desire_manifest \<or> f = observe_manifest \<or> f = destroy_credential \<or> f = cutover_authority"
  using map_of_SomeD [OF assms] unfolding APPLIERS_def list.set insert_iff prod.inject empty_iff by metis

text \<open>How an accepted event changes the projection.\<close>

lemma applier_cases:
  assumes inv: "workforce_inv cf st" and f: "dget (APPLIERS cf) ty = Some f" and ok: "f st ev = Inr st'"
  obtains (same) "st' = st"
    | (created) "create_employee cf st ev = Inr st'"
    | (released) "release_employee_name cf st ev = Inr st'"
    | (profile) "change_employee_profile cf st ev = Inr st'"
    | (legacy) "bind_legacy_alias st ev = Inr st'" "employee_step st st'"
    | (employee) "employee_step st st'" "ws_legacy_aliases st' = ws_legacy_aliases st" "ws_legacy_hashes st' = ws_legacy_hashes st"
        "authority_of st' = authority_of st"
    | (bound) "bind_bot_principal st ev = Inr st'"
    | (principal) "principal_step st st'"
    | (cutover) "cutover_authority st ev = Inr st'"
proof -
  have rest: "ws_legacy_aliases st' = ws_legacy_aliases st \<and> ws_legacy_hashes st' = ws_legacy_hashes st \<and> authority_of st' = authority_of st"
    if "change_employee_state st ev = Inr st' \<or> change_membership st ev = Inr st' \<or> bind_employee_principal st ev = Inr st'"
    using that by (auto simp: change_membership_def bind_employee_principal_def put_employee_def
        authority_of_def bindE_Inr_iff dest!: change_state_Inr split: option.splits)
  note reds = employee_reducers [OF inv, of ev st'] principal_reducers [OF inv, of ev st']
  show thesis
    using APPLIERS_cases [OF f]
    by (elim disjE) (use ok reds rest in \<open>metis that sum.inject(2)\<close>)+
qed

lemma applier_inv:
  assumes inv: "workforce_inv cf st" and f: "dget (APPLIERS cf) ty = Some f" and ok: "f st ev = Inr st'"
  shows "workforce_inv cf st'"
  using inv f ok
proof (cases rule: applier_cases)
  case cutover
  with inv show ?thesis by (auto dest!: cutover_Inr intro: inv_same_tables)
qed (use inv in \<open>auto intro: create_employee_inv release_name_inv change_profile_inv bind_bot_principal_inv
  employee_step_inv principal_step_inv\<close>)

section \<open>What never changes\<close>

text \<open>Employees and principals stay, with their identity; aliases stay bound; the epoch does not go back.\<close>

definition workforce_kept :: "'a workforce_state_scheme \<Rightarrow> 'a workforce_state_scheme \<Rightarrow> bool" where
  "workforce_kept st st' \<longleftrightarrow>
     (\<forall>k e. dget (ws_employees st) k = Some e \<longrightarrow> (\<exists>e'. dget (ws_employees st') k = Some e' \<and> employee_kept e e')) \<and>
     (\<forall>k p. dget (ws_bot_principals st) k = Some p \<longrightarrow> (\<exists>p'. dget (ws_bot_principals st') k = Some p' \<and>
        bp_agent_id p' = bp_agent_id p \<and> bp_tenant_key p' = bp_tenant_key p \<and> bp_app_id p' = bp_app_id p)) \<and>
     (\<forall>a k. dget (ws_legacy_aliases st) a = Some k \<longrightarrow> dget (ws_legacy_aliases st') a = Some k) \<and>
     (\<forall>h k. dget (ws_legacy_hashes st) h = Some k \<longrightarrow> dget (ws_legacy_hashes st') h = Some k) \<and>
     (authority_of st' = authority_of st \<or> ws_authority_epoch st < ws_authority_epoch st')"

lemma employee_kept_refl [simp]: "employee_kept e e"
  by (simp add: employee_kept_def)

lemma employee_kept_trans: "employee_kept a b \<Longrightarrow> employee_kept b c \<Longrightarrow> employee_kept a c"
  by (auto simp: employee_kept_def)

lemma workforce_kept_refl [simp]: "workforce_kept st st"
  by (simp add: workforce_kept_def)

lemma workforce_kept_trans:
  assumes "workforce_kept a b" and "workforce_kept b c"
  shows "workforce_kept a c"
  unfolding workforce_kept_def
proof (intro conjI allI impI)
  fix k e
  assume "dget (ws_employees a) k = Some e"
  with assms obtain e1 e2 where "employee_kept e e1" "dget (ws_employees c) k = Some e2" "employee_kept e1 e2"
    unfolding workforce_kept_def by meson
  then show "\<exists>e'. dget (ws_employees c) k = Some e' \<and> employee_kept e e'" by (blast intro: employee_kept_trans)
next
  show "authority_of c = authority_of a \<or> ws_authority_epoch a < ws_authority_epoch c"
    using assms by (auto simp: workforce_kept_def authority_of_def)
qed (use assms in \<open>auto simp: workforce_kept_def; metis\<close>)+

lemma put_other_fields [simp]:
  "ws_legacy_aliases (put_employee st e) = ws_legacy_aliases st" "ws_legacy_hashes (put_employee st e) = ws_legacy_hashes st"
  "authority_of (put_employee st e) = authority_of st" "authority_of (put_principal st p) = authority_of st"
  "ws_legacy_aliases (put_principal st p) = ws_legacy_aliases st" "ws_legacy_hashes (put_principal st p) = ws_legacy_hashes st"
  by (simp_all add: put_employee_def put_principal_def authority_of_def)

lemma employee_step_tables:
  assumes s: "employee_step st st'"
  shows "dget (ws_employees st) k = Some d \<Longrightarrow> \<exists>d'. dget (ws_employees st') k = Some d' \<and> employee_kept d d'"
    and "ws_bot_principals st' = ws_bot_principals st"
proof -
  from s obtain e e' st1 where c: "dget (ws_employees st) (em_agent_id e) = Some e" "employee_kept e e'"
    "ws_employees st1 = ws_employees st" "ws_bot_principals st1 = ws_bot_principals st" "st' = put_employee st1 e'"
    unfolding employee_step_def by blast
  then have e: "ws_employees st' = dset (ws_employees st) (em_agent_id e) e'" "ws_bot_principals st' = ws_bot_principals st"
    by (simp_all add: employee_kept_def)
  from e(2) show "ws_bot_principals st' = ws_bot_principals st" .
  show "dget (ws_employees st) k = Some d \<Longrightarrow> \<exists>d'. dget (ws_employees st') k = Some d' \<and> employee_kept d d'"
    using c(1,2) by (cases "k = em_agent_id e") (simp_all add: e)
qed

lemma employee_step_kept:
  assumes "employee_step st st'" and "ws_legacy_aliases st' = ws_legacy_aliases st"
    "ws_legacy_hashes st' = ws_legacy_hashes st" "authority_of st' = authority_of st"
  shows "workforce_kept st st'"
  using employee_step_tables [OF assms(1)] assms(2-) by (simp add: workforce_kept_def)

lemma principal_step_kept: "principal_step st st' \<Longrightarrow> workforce_kept st st'"
  by (auto simp: principal_step_def workforce_kept_def)

lemma reserve_name_other:
  assumes "reserve_name cf st e previous = Inr st'"
  shows "ws_legacy_aliases st' = ws_legacy_aliases st" "ws_legacy_hashes st' = ws_legacy_hashes st"
    "authority_of st' = authority_of st"
  using assms by (auto simp: reserve_name_def Let_def authority_of_def split: option.splits if_splits)

lemma created_kept:
  assumes "create_employee cf st ev = Inr st'"
  shows "workforce_kept st st'"
proof -
  from assms obtain agent_id e st1 where c: "dget (ws_employees st) agent_id = None"
    "employee_from_dict (created_payload ev agent_id) = Inr e" "reserve_name cf st e [] = Inr st1" "st' = put_employee st1 e"
    by (auto simp: create_employee_def bindE_Inr_iff)
  have "raw_agent_id (created_payload ev agent_id) = Inr agent_id"
    by (simp add: raw_agent_id_def created_payload_def dict_setdefault_def opt_def Let_def)
  with c(2) have "em_agent_id e = agent_id"
    by (auto simp: employee_from_dict_def bindE_Inr_iff employee_init_def split: if_splits)
  with c show ?thesis by (auto simp: workforce_kept_def reserve_name_tables [OF c(3)] reserve_name_other [OF c(3)])
qed

lemma profile_kept:
  assumes inv: "workforce_inv cf st" and ok: "change_employee_profile cf st ev = Inr st'"
  shows "workforce_kept st st'"
proof -
  from ok obtain e updated st1 where c: "dget (ws_employees st) (je_aggregate_id ev) = Some e"
    "replace_profile (touch_employee ev e) (je_payload ev) = Inr updated"
    "reserve_name cf st updated (em_name e) = Inr st1" "st' = put_employee st1 updated"
    by (auto simp: change_employee_profile_def bindE_Inr_iff)
  from replace_profile_kept [OF c(2), unfolded touch_kept] inv_agent_id [OF inv c(1)]
  have "employee_kept e updated" "em_agent_id updated = je_aggregate_id ev" by (simp_all add: employee_kept_def)
  with c show ?thesis by (auto simp: workforce_kept_def reserve_name_tables [OF c(3)] reserve_name_other [OF c(3)])
qed

lemma legacy_kept:
  assumes inv: "workforce_inv cf st" and ok: "bind_legacy_alias st ev = Inr st'" and s: "employee_step st st'"
  shows "workforce_kept st st'"
proof -
  from ok obtain e e' :: employee_definition and al h where c: "dget (ws_legacy_aliases st) al \<in> {None, Some (em_agent_id e)}"
    "dget (ws_legacy_hashes st) h \<in> {None, Some (em_agent_id e)}"
    "st' = put_employee (st\<lparr>ws_legacy_aliases := dset (ws_legacy_aliases st) al (em_agent_id e),
       ws_legacy_hashes := dset (ws_legacy_hashes st) h (em_agent_id e)\<rparr>) e'"
    unfolding bind_legacy_alias_def bindE_Inr_iff guardE_simps(3) sum.inject(2) by blast
  with employee_step_tables [OF s] show ?thesis
    by (auto simp: workforce_kept_def authority_of_def put_employee_def)
qed

lemma bound_kept:
  assumes ok: "bind_bot_principal st ev = Inr st'"
  shows "workforce_kept st st'"
proof -
  from ok obtain i p where c: "dget (ws_bot_principals st) i = None"
    "bot_principal_from_dict (dset (dset (je_payload ev) ''bot_principal_id'' (PStr i)) ''aggregate_version'' (PInt 1)) = Inr p"
    "st' = put_principal st p"
    by (auto simp: bind_bot_principal_def bindE_Inr_iff Let_def)
  with bot_principal_from_dict_Inr [OF c(2)] show ?thesis by (auto simp: workforce_kept_def)
qed

lemma released_kept:
  assumes "release_employee_name cf st ev = Inr st'"
  shows "workforce_kept st st'"
proof -
  from assms have "ws_employees st' = ws_employees st \<and> ws_bot_principals st' = ws_bot_principals st \<and>
      ws_legacy_aliases st' = ws_legacy_aliases st \<and> ws_legacy_hashes st' = ws_legacy_hashes st \<and> authority_of st' = authority_of st"
    unfolding release_employee_name_def Let_def
    by (elim bindE_InrE) (simp split: option.splits if_splits, (drule sym, simp add: authority_of_def)+)
  then show ?thesis by (simp add: workforce_kept_def)
qed

lemma cutover_kept: "cutover_authority st ev = Inr st' \<Longrightarrow> workforce_kept st st'"
  by (auto simp: workforce_kept_def dest!: cutover_Inr)

lemma applier_kept:
  assumes inv: "workforce_inv cf st" and f: "dget (APPLIERS cf) ty = Some f" and ok: "f st ev = Inr st'"
  shows "workforce_kept st st'"
  using inv f ok
proof (cases rule: applier_cases)
  case employee
  then show ?thesis by (rule employee_step_kept)
next
  case legacy
  with inv show ?thesis by (rule legacy_kept)
qed (use inv in \<open>auto intro: created_kept released_kept profile_kept bound_kept principal_step_kept cutover_kept\<close>)

section \<open>Transactions keep the invariant\<close>

definition workforce_ok :: "(string \<Rightarrow> string) \<Rightarrow> 'a workforce_state_scheme \<Rightarrow> 'a workforce_state_scheme \<Rightarrow> bool" where
  "workforce_ok cf st st' \<longleftrightarrow> workforce_inv cf st' \<and> workforce_kept st st'"

lemma apply_workforce_event_ok:
  assumes "workforce_inv cf st" and "apply_workforce_event cf st ev = Inr (st', b)"
  shows "workforce_ok cf st st'"
  using assms unfolding apply_workforce_event_def workforce_ok_def
  by (auto simp: bindE_Inr_iff intro: applier_inv applier_kept split: option.splits)

lemma set_version_ok:
  assumes inv: "workforce_inv cf st"
  shows "workforce_ok cf st (set_version st i v)"
proof -
  define st1 where "st1 = (case dget (ws_employees st) i of None \<Rightarrow> st
    | Some e \<Rightarrow> st\<lparr>ws_employees := dset (ws_employees st) i (e\<lparr>em_aggregate_version := v\<rparr>)\<rparr>)"
  have 1: "st1 = st \<or> employee_step st st1 \<and> ws_legacy_aliases st1 = ws_legacy_aliases st \<and>
      ws_legacy_hashes st1 = ws_legacy_hashes st \<and> authority_of st1 = authority_of st"
  proof (cases "dget (ws_employees st) i")
    case (Some e)
    from inv_agent_id [OF inv Some] have "st1 = put_employee st (e\<lparr>em_aggregate_version := v\<rparr>)"
      by (simp add: st1_def Some put_employee_def)
    with employee_stepI [OF inv Some, of "e\<lparr>em_aggregate_version := v\<rparr>" st] show ?thesis
      by (simp add: employee_kept_def)
  qed (simp add: st1_def)
  then have ok1: "workforce_inv cf st1" "workforce_kept st st1"
    using inv by (auto intro: employee_step_inv employee_step_kept)
  have 2: "set_version st i v = st1 \<or> principal_step st1 (set_version st i v)"
  proof (cases "dget (ws_bot_principals st1) i")
    case (Some p)
    from inv_principal_id [OF ok1(1) Some] have "set_version st i v = put_principal st1 (p\<lparr>bp_aggregate_version := v\<rparr>)"
      by (simp add: set_version_def st1_def [symmetric] Some put_principal_def Let_def)
    with principal_stepI [OF ok1(1) Some, of "p\<lparr>bp_aggregate_version := v\<rparr>"] show ?thesis by simp
  qed (simp add: set_version_def st1_def [symmetric] Let_def)
  with ok1 show ?thesis
    unfolding workforce_ok_def by (metis principal_step_inv principal_step_kept workforce_kept_trans)
qed

lemma workforce_ok_trans: "workforce_ok cf a b \<Longrightarrow> workforce_ok cf b c \<Longrightarrow> workforce_ok cf a c"
  by (auto simp: workforce_ok_def intro: workforce_kept_trans)

lemma workforce_ok_refl: "workforce_inv cf st \<Longrightarrow> workforce_ok cf st st"
  by (simp add: workforce_ok_def)

lemma set_versions_ok:
  "workforce_inv cf st \<Longrightarrow> set_versions st versions ids = Inr st' \<Longrightarrow> workforce_ok cf st st'"
proof (induction ids arbitrary: st)
  case (Cons i ids)
  then obtain v where v: "set_versions (set_version st i v) versions ids = Inr st'"
    by (auto split: option.splits)
  from set_version_ok [OF Cons.prems(1)] have s: "workforce_ok cf st (set_version st i v)" .
  with Cons.IH [OF _ v] show ?case by (auto simp: workforce_ok_def intro: workforce_kept_trans)
qed (simp add: workforce_ok_refl)

text \<open>The initial state.\<close>

lemma workforce_inv_empty:
  assumes "ws_employees st = []" and "ws_bot_principals st = []"
  shows "workforce_inv cf st"
  using assms by (simp add: workforce_inv_def names_owned_def principals_bound_def apps_exclusive_def)

text \<open>What the invariant says of two employees.\<close>

lemma inv_names_unique:
  assumes inv: "workforce_inv cf st" and "dget (ws_employees st) k = Some e" and "dget (ws_employees st) l = Some d"
    and "em_state e \<noteq> ES_ARCHIVED" and "em_state d \<noteq> ES_ARCHIVED" and "em_tenant_key e = em_tenant_key d"
    and "cf (em_name e) = cf (em_name d)"
  shows "k = l"
  using assms unfolding workforce_inv_def names_owned_def name_key_def by (metis option.inject)

end
