(* ===== verification/Goal_Definitions.thy ===== *)
theory Goal_Definitions
  imports Domain_Goals
begin

text \<open>
  The rest of \<^verbatim>\<open>src/src/autonomous/domain/goals.py\<close>: the encoding of epoch sets, goal specifications and goal
  definitions. The canonical hash of the criteria is a parameter.
\<close>

section \<open>Epoch sets\<close>

definition default_epochs :: epoch_set where
  "default_epochs = \<lparr>ep_definition_version = 1, ep_admission_epoch = 1, ep_revocation_epoch = 0,
     ep_run_control_epoch = 0, ep_plan_epoch = 0, ep_kill_epoch = 0\<rparr>"

text \<open>\<open>int(v)\<close>: a float is cut off towards zero. Strings are outside the declared type.\<close>

fun py_int :: "string \<Rightarrow> pyval \<Rightarrow> py_exn + int" where
  "py_int field (PInt i) = Inr i"
| "py_int field (PBool b) = Inr (if b then 1 else 0)"
| "py_int field (PFloat (Fin r)) = Inr (if 0 \<le> r then \<lfloor>r\<rfloor> else - \<lfloor>- r\<rfloor>)"
| "py_int field (PFloat NaN) = Inl (ValueError ''cannot convert float NaN to integer'')"
| "py_int field (PFloat f) = Inl (OverflowError ''cannot convert float infinity to integer'')"
| "py_int field (PStr s) = Inl (Untyped field)"
| "py_int field v = Inl (TypeError ''int() argument must be a number'')"

definition epoch_field :: "pydict \<Rightarrow> string \<Rightarrow> int \<Rightarrow> py_exn + int" where
  "epoch_field d k dflt = (case dget d k of None \<Rightarrow> Inr dflt | Some v \<Rightarrow> py_int k v)"

definition epoch_set_to_dict :: "epoch_set \<Rightarrow> pydict" where
  "epoch_set_to_dict e =
     [(''definition_version'', PInt (ep_definition_version e)),
      (''admission_epoch'', PInt (ep_admission_epoch e)),
      (''revocation_epoch'', PInt (ep_revocation_epoch e)),
      (''run_control_epoch'', PInt (ep_run_control_epoch e)),
      (''plan_epoch'', PInt (ep_plan_epoch e)),
      (''kill_epoch'', PInt (ep_kill_epoch e))]"

definition epoch_set_from_dict :: "pydict \<Rightarrow> py_exn + epoch_set" where
  "epoch_set_from_dict d =
     bindE (epoch_field d ''definition_version'' (ep_definition_version default_epochs)) (\<lambda>a.
     bindE (epoch_field d ''admission_epoch'' (ep_admission_epoch default_epochs)) (\<lambda>b.
     bindE (epoch_field d ''revocation_epoch'' (ep_revocation_epoch default_epochs)) (\<lambda>c.
     bindE (epoch_field d ''run_control_epoch'' (ep_run_control_epoch default_epochs)) (\<lambda>e.
     bindE (epoch_field d ''plan_epoch'' (ep_plan_epoch default_epochs)) (\<lambda>f.
     bindE (epoch_field d ''kill_epoch'' (ep_kill_epoch default_epochs)) (\<lambda>g.
     Inr \<lparr>ep_definition_version = a, ep_admission_epoch = b, ep_revocation_epoch = c, ep_run_control_epoch = e,
       ep_plan_epoch = f, ep_kill_epoch = g\<rparr>))))))"

interpretation epoch_set_codec: codec epoch_set_to_dict epoch_set_from_dict "\<lambda>_. True"
  by unfold_locales (simp add: epoch_set_to_dict_def epoch_set_from_dict_def epoch_field_def)

section \<open>Goal specifications\<close>

record goal_spec =
  gs_objective :: string
  gs_deliverables :: "string list"
  gs_scope :: string
  gs_constraints :: "string list"
  gs_deadline :: "timestamp option"
  gs_criteria :: "goal_criterion list"
  gs_data_sources :: "string list"
  gs_tools :: "string list"
  gs_budget :: pyval
  gs_risks :: "string list"
  gs_notification_policy :: pyval

definition goal_spec_to_dict :: "goal_spec \<Rightarrow> pydict" where
  "goal_spec_to_dict g =
     [(''objective'', PStr (gs_objective g)),
      (''deliverables'', strs_val (gs_deliverables g)),
      (''scope'', PStr (gs_scope g)),
      (''constraints'', strs_val (gs_constraints g)),
      (''deadline'', float_option_val (gs_deadline g)),
      (''criteria'', PList (map (\<lambda>c. PDict (goal_criterion_to_dict c)) (gs_criteria g))),
      (''data_sources'', strs_val (gs_data_sources g)),
      (''tools'', strs_val (gs_tools g)),
      (''budget'', thaw (gs_budget g)),
      (''risks'', strs_val (gs_risks g)),
      (''notification_policy'', thaw (gs_notification_policy g))]"

fun criteria_field :: "(pyval \<Rightarrow> string) \<Rightarrow> pyval \<Rightarrow> py_exn + goal_criterion list" where
  "criteria_field h (PList vs) = mapE (dict_field ''criteria'' (goal_criterion_from_dict h)) vs"
| "criteria_field h (PTuple vs) = mapE (dict_field ''criteria'' (goal_criterion_from_dict h)) vs"
| "criteria_field h _ = Inl (Untyped ''criteria'')"

definition goal_spec_from_dict :: "(pyval \<Rightarrow> string) \<Rightarrow> pydict \<Rightarrow> py_exn + goal_spec" where
  "goal_spec_from_dict h d =
     bindE (opt_str d ''objective'' []) (\<lambda>x_objective.
     bindE (opt_strs d ''deliverables'') (\<lambda>x_deliverables.
     bindE (opt_str d ''scope'' []) (\<lambda>x_scope.
     bindE (opt_strs d ''constraints'') (\<lambda>x_constraints.
     bindE (raw_float_option (opt d ''deadline'' PNone) ''deadline'') (\<lambda>x_deadline.
     bindE (criteria_field h (opt d ''criteria'' (PTuple []))) (\<lambda>x_criteria.
     bindE (opt_strs d ''data_sources'') (\<lambda>x_data_sources.
     bindE (opt_strs d ''tools'') (\<lambda>x_tools.
     bindE (opt_strs d ''risks'') (\<lambda>x_risks.
     Inr \<lparr>gs_objective = x_objective, gs_deliverables = x_deliverables, gs_scope = x_scope, gs_constraints = x_constraints,
       gs_deadline = x_deadline, gs_criteria = x_criteria, gs_data_sources = x_data_sources, gs_tools = x_tools,
       gs_budget = freeze (opt d ''budget'' PNone), gs_risks = x_risks,
       gs_notification_policy = freeze (opt d ''notification_policy'' (PDict []))\<rparr>)))))))))"

definition goal_spec_wf :: "(pyval \<Rightarrow> string) \<Rightarrow> goal_spec \<Rightarrow> bool" where
  "goal_spec_wf h g \<longleftrightarrow> list_all (goal_criterion_wf h) (gs_criteria g) \<and> frozen_value (gs_budget g) \<and>
     frozen_value (gs_notification_policy g)"

lemma criteria_round_trip:
  "list_all (goal_criterion_wf h) cs \<Longrightarrow> criteria_field h (PList (map (\<lambda>c. PDict (goal_criterion_to_dict c)) cs)) = Inr cs"
  by (simp, rule mapE_map) (simp add: list_all_iff criterion_codec.dec_enc)

interpretation goal_spec_codec: codec goal_spec_to_dict "goal_spec_from_dict h" "goal_spec_wf h" for h
proof
  fix g :: goal_spec
  assume "goal_spec_wf h g"
  then show "goal_spec_from_dict h (goal_spec_to_dict g) = Inr g"
    by (cases g) (simp add: goal_spec_to_dict_def goal_spec_from_dict_def goal_spec_wf_def codec_simps criteria_round_trip
        del: criteria_field.simps)
qed

section \<open>Goal definitions\<close>

record goal_definition =
  gd_goal_id :: string
  gd_tenant_key :: string
  gd_owner_principal_id :: string
  gd_owner_id :: string
  gd_goal_type :: goal_type
  gd_state :: goal_state
  gd_spec :: goal_spec
  gd_epochs :: epoch_set
  gd_autonomy_mode :: autonomy_mode
  gd_created_at :: timestamp
  gd_updated_at :: timestamp
  gd_standing_order :: pyval
  gd_aggregate_version :: int

definition goal_definition_to_dict :: "goal_definition \<Rightarrow> pydict" where
  "goal_definition_to_dict g =
     [(''goal_id'', PStr (gd_goal_id g)),
      (''tenant_key'', PStr (gd_tenant_key g)),
      (''owner_principal_id'', PStr (gd_owner_principal_id g)),
      (''owner_id'', PStr (gd_owner_id g)),
      (''goal_type'', PStr (goal_type_value (gd_goal_type g))),
      (''state'', PStr (goal_state_value (gd_state g))),
      (''spec'', PDict (goal_spec_to_dict (gd_spec g))),
      (''epochs'', PDict (epoch_set_to_dict (gd_epochs g))),
      (''autonomy_mode'', PStr (autonomy_mode_value (gd_autonomy_mode g))),
      (''created_at'', PFloat (Fin (gd_created_at g))),
      (''updated_at'', PFloat (Fin (gd_updated_at g))),
      (''standing_order'', thaw (gd_standing_order g)),
      (''aggregate_version'', PInt (gd_aggregate_version g))]"

definition goal_definition_from_dict :: "(pyval \<Rightarrow> string) \<Rightarrow> pydict \<Rightarrow> py_exn + goal_definition" where
  "goal_definition_from_dict h d =
     bindE (req_str d ''goal_id'') (\<lambda>x_goal_id.
     bindE (opt_str d ''tenant_key'' []) (\<lambda>x_tenant_key.
     bindE (opt_str d ''owner_principal_id'' []) (\<lambda>x_owner_principal_id.
     bindE (opt_str d ''owner_id'' []) (\<lambda>x_owner_id.
     bindE (enum_field goal_type_value goal_type_members (opt d ''goal_type'' (PStr (goal_type_value GT_ONE_SHOT)))) (\<lambda>x_goal_type.
     bindE (enum_field goal_state_value goal_state_members (opt d ''state'' (PStr (goal_state_value GS_DRAFT)))) (\<lambda>x_state.
     bindE (dict_field ''spec'' (goal_spec_from_dict h) (opt d ''spec'' (PDict []))) (\<lambda>x_spec.
     bindE (dict_field ''epochs'' epoch_set_from_dict (opt d ''epochs'' (PDict []))) (\<lambda>x_epochs.
     bindE (enum_field autonomy_mode_value autonomy_mode_members
              (opt d ''autonomy_mode'' (PStr (autonomy_mode_value AM_SUPERVISED)))) (\<lambda>x_autonomy_mode.
     bindE (opt_float d ''created_at'') (\<lambda>x_created_at.
     bindE (opt_float d ''updated_at'') (\<lambda>x_updated_at.
     bindE (opt_int d ''aggregate_version'' 0 0) (\<lambda>x_aggregate_version.
     Inr \<lparr>gd_goal_id = x_goal_id, gd_tenant_key = x_tenant_key, gd_owner_principal_id = x_owner_principal_id,
       gd_owner_id = x_owner_id, gd_goal_type = x_goal_type, gd_state = x_state, gd_spec = x_spec, gd_epochs = x_epochs,
       gd_autonomy_mode = x_autonomy_mode, gd_created_at = x_created_at, gd_updated_at = x_updated_at,
       gd_standing_order = freeze (opt d ''standing_order'' PNone), gd_aggregate_version = x_aggregate_version\<rparr>))))))))))))"

definition goal_definition_wf :: "(pyval \<Rightarrow> string) \<Rightarrow> goal_definition \<Rightarrow> bool" where
  "goal_definition_wf h g \<longleftrightarrow> goal_spec_wf h (gd_spec g) \<and> frozen_value (gd_standing_order g) \<and> 0 \<le> gd_aggregate_version g"

lemma goal_definition_enum_fields [codec_simps]:
  "enum_field goal_type_value goal_type_members (PStr (goal_type_value gt)) = Inr gt"
  "enum_field goal_state_value goal_state_members (PStr (goal_state_value gst)) = Inr gst"
  "enum_field autonomy_mode_value autonomy_mode_members (PStr (autonomy_mode_value am)) = Inr am"
  by simp_all

interpretation goal_definition_codec: codec goal_definition_to_dict "goal_definition_from_dict h" "goal_definition_wf h" for h
proof
  fix g :: goal_definition
  assume "goal_definition_wf h g"
  then show "goal_definition_from_dict h (goal_definition_to_dict g) = Inr g"
    by (cases g) (simp add: goal_definition_to_dict_def goal_definition_from_dict_def goal_definition_wf_def codec_simps
        goal_spec_codec.dec_enc epoch_set_codec.dec_enc del: enum_field.simps)
qed

end
