(* ===== verification/Projections.thy ===== *)
theory Projections
  imports Workforce Goal_Definitions State_Machine
begin

text \<open>
  The replay projections of \<^verbatim>\<open>src/src/autonomous/journal/projections.py\<close>: the materialized state extends the
  workforce state, the reducers are found by event type, and a frame is applied event by event. A
  reducer raises before it changes anything; a frame that raises in the middle leaves the events before it
  applied, so \<open>apply_frame\<close> returns the state beside the result.
\<close>

section \<open>State\<close>

record inbox_record =
  ib_event_id :: string
  ib_dedup_key :: string
  ib_source_type :: string
  ib_payload :: pyval
  ib_received_at :: timestamp
  ib_processed :: bool
  ib_goal_id :: "string option"
  ib_run_id :: "string option"
  ib_tombstone :: bool

record projection_state = workforce_state +
  ps_goals :: "(string, goal_definition) dict"
  ps_runs :: "(string, run) dict"
  ps_plans :: "(string, plan) dict"
  ps_steps :: "(string, plan_step) dict"
  ps_effects :: "(string, effect) dict"
  ps_inbox :: "(string, inbox_record) dict"
  ps_dedup_keys :: "string set"
  ps_occurrence_keys :: "string set"
  ps_cursor_sequence :: int
  ps_cursor_hash :: string

definition projection_init :: projection_state where
  "projection_init = \<lparr>ws_employees = [], ws_bot_principals = [], ws_name_keys = [], ws_legacy_aliases = [],
     ws_legacy_hashes = [], ws_authority_epoch = 0, ws_authority_mode = AM_LEGACY_WRITE, ws_cutover_sequence = 0,
     ps_goals = [], ps_runs = [], ps_plans = [], ps_steps = [], ps_effects = [], ps_inbox = [], ps_dedup_keys = {},
     ps_occurrence_keys = {}, ps_cursor_sequence = 0, ps_cursor_hash = []\<rparr>"

definition pending_inbox :: "projection_state \<Rightarrow> inbox_record list" where
  "pending_inbox st = filter (\<lambda>r. \<not> ib_processed r \<and> \<not> ib_tombstone r) (dvals (ps_inbox st))"

record projection_env =
  pe_casefold :: "string \<Rightarrow> string"
  pe_hash :: "pyval \<Rightarrow> string"

type_synonym reducer = "projection_state \<Rightarrow> journal_event \<Rightarrow> projection_exn + projection_state"

section \<open>Reducers\<close>

text \<open>\<open>payload.get(k, aggregate_id)\<close> put back with \<open>setdefault\<close>.\<close>

definition with_id :: "journal_event \<Rightarrow> string \<Rightarrow> pydict" where
  "with_id ev k = dict_setdefault (je_payload ev) k (PStr (je_aggregate_id ev))"

definition unknown :: "string \<Rightarrow> projection_exn + 'x" where
  "unknown msg = Inl (ProjectionError msg)"

definition reduce_goal_created :: "(pyval \<Rightarrow> string) \<Rightarrow> reducer" where
  "reduce_goal_created h st ev =
     bindE (raise_py (goal_definition_from_dict h (with_id ev ''goal_id''))) (\<lambda>g.
     Inr (st\<lparr>ps_goals := dset (ps_goals st) (gd_goal_id g) g\<rparr>))"

definition goal_in_state :: "goal_definition \<Rightarrow> goal_state \<Rightarrow> journal_event \<Rightarrow> goal_definition" where
  "goal_in_state g s ev = g\<lparr>gd_state := s, gd_updated_at := je_timestamp ev,
     gd_standing_order := freeze (gd_standing_order g), gd_aggregate_version := gd_aggregate_version g + 1\<rparr>"

definition reduce_goal_state_changed :: reducer where
  "reduce_goal_state_changed st ev =
     (case dget (ps_goals st) (je_aggregate_id ev) of
        None \<Rightarrow> unknown ''goal.state_changed for unknown goal''
      | Some g \<Rightarrow>
          bindE (raise_py (bindE (req (je_payload ev) ''state'') (enum_field goal_state_value goal_state_members))) (\<lambda>s.
          Inr (st\<lparr>ps_goals := dset (ps_goals st) (je_aggregate_id ev) (goal_in_state g s ev)\<rparr>)))"

definition reduce_goal_activated :: reducer where
  "reduce_goal_activated st ev =
     (case dget (ps_goals st) (je_aggregate_id ev) of
        None \<Rightarrow> unknown ''goal.activated for unknown goal''
      | Some g \<Rightarrow> Inr (st\<lparr>ps_goals := dset (ps_goals st) (je_aggregate_id ev) (goal_in_state g GS_ACTIVE ev)\<rparr>))"

definition reduce_run_created :: reducer where
  "reduce_run_created st ev =
     bindE (raise_py (run_from_dict (with_id ev ''run_id''))) (\<lambda>r.
     Inr (st\<lparr>ps_runs := dset (ps_runs st) (rn_run_id r) r\<rparr>))"

definition reduce_run_state_changed :: reducer where
  "reduce_run_state_changed st ev =
     (case dget (ps_runs st) (je_aggregate_id ev) of
        None \<Rightarrow> unknown ''run.state_changed for unknown run''
      | Some r \<Rightarrow>
          bindE (raise_py (bindE (req (je_payload ev) ''state'') (enum_field run_state_value run_state_members))) (\<lambda>s.
          bindE (raise_py (run_init (r\<lparr>rn_state := s, rn_aggregate_version := rn_aggregate_version r + 1\<rparr>))) (\<lambda>updated.
          Inr (st\<lparr>ps_runs := dset (ps_runs st) (je_aggregate_id ev) updated\<rparr>))))"

definition put_step :: "(string, plan_step) dict \<Rightarrow> plan_step \<Rightarrow> (string, plan_step) dict" where
  "put_step steps s = dset steps (st_step_id s) s"

definition reduce_plan_created :: reducer where
  "reduce_plan_created st ev =
     bindE (raise_py (plan_from_dict (with_id ev ''plan_id''))) (\<lambda>p.
     Inr (st\<lparr>ps_plans := dset (ps_plans st) (pl_plan_id p) p,
            ps_steps := foldl put_step (ps_steps st) (pl_steps p)\<rparr>))"

definition reduce_plan_state_changed :: reducer where
  "reduce_plan_state_changed st ev =
     (case dget (ps_plans st) (je_aggregate_id ev) of
        None \<Rightarrow> unknown ''plan.state_changed for unknown plan''
      | Some p \<Rightarrow>
          bindE (raise_py (bindE (req (je_payload ev) ''state'') (enum_field plan_state_value plan_state_members))) (\<lambda>s.
          Inr (st\<lparr>ps_plans := dset (ps_plans st) (je_aggregate_id ev)
            (p\<lparr>pl_state := s, pl_budget_estimate := freeze (pl_budget_estimate p),
               pl_aggregate_version := pl_aggregate_version p + 1\<rparr>)\<rparr>)))"

definition reduce_step_state_changed :: reducer where
  "reduce_step_state_changed st ev =
     (case dget (ps_steps st) (je_aggregate_id ev) of
        None \<Rightarrow> unknown ''step.state_changed for unknown step''
      | Some x \<Rightarrow>
          bindE (raise_py (bindE (req (je_payload ev) ''state'') (enum_field step_state_value step_state_members))) (\<lambda>s.
          Inr (st\<lparr>ps_steps := dset (ps_steps st) (je_aggregate_id ev)
            (x\<lparr>st_state := s, st_arguments_schema := freeze (st_arguments_schema x),
               st_principal_policy := freeze (st_principal_policy x), st_verifier_oracle := freeze (st_verifier_oracle x),
               st_aggregate_version := st_aggregate_version x + 1\<rparr>)\<rparr>)))"

definition reduce_effect_created :: reducer where
  "reduce_effect_created st ev =
     bindE (raise_py (effect_from_dict (with_id ev ''effect_id''))) (\<lambda>e.
     Inr (st\<lparr>ps_effects := dset (ps_effects st)
       (case dget (with_id ev ''effect_id'') ''effect_id'' of Some v \<Rightarrow> the_str v | None \<Rightarrow> []) e\<rparr>))"

definition reduce_effect_state_changed :: reducer where
  "reduce_effect_state_changed st ev =
     (case dget (ps_effects st) (je_aggregate_id ev) of
        None \<Rightarrow> unknown ''effect.state_changed for unknown effect''
      | Some e \<Rightarrow>
          bindE (raise_py (bindE (req (je_payload ev) ''state'') (enum_field effect_state_value effect_state_members))) (\<lambda>s.
          bindE (raise_py (raw_float_option (opt (je_payload ev) ''committed_at'' (float_option_val (ef_committed_at e))) ''committed_at'')) (\<lambda>c.
          bindE (raise_py (effect_init (e\<lparr>ef_state := s, ef_committed_at := c, ef_active_dispatch := (s = ES_EXECUTING),
            ef_aggregate_version := ef_aggregate_version e + 1\<rparr>))) (\<lambda>updated.
          Inr (st\<lparr>ps_effects := dset (ps_effects st) (je_aggregate_id ev) updated\<rparr>)))))"

definition payload_str :: "pyval \<Rightarrow> string \<Rightarrow> projection_exn + string" where
  "payload_str v k = raise_py (raw_str k v)"

definition req_payload_str :: "journal_event \<Rightarrow> string \<Rightarrow> projection_exn + string" where
  "req_payload_str ev k = bindE (raise_py (req (je_payload ev) k)) (\<lambda>v. payload_str v k)"

definition new_inbox :: "string \<Rightarrow> string \<Rightarrow> string \<Rightarrow> pyval \<Rightarrow> timestamp \<Rightarrow> inbox_record" where
  "new_inbox i dk ty pl received = \<lparr>ib_event_id = i, ib_dedup_key = dk, ib_source_type = ty, ib_payload = pl,
     ib_received_at = received, ib_processed = False, ib_goal_id = None, ib_run_id = None, ib_tombstone = False\<rparr>"

definition reduce_inbox_event_received :: reducer where
  "reduce_inbox_event_received st ev =
     bindE (req_payload_str ev ''event_id'') (\<lambda>i.
     bindE (req_payload_str ev ''dedup_key'') (\<lambda>dk.
     bindE (payload_str (opt (je_payload ev) ''source_type'' (PStr [])) ''source_type'') (\<lambda>ty.
     Inr (st\<lparr>ps_dedup_keys := insert dk (ps_dedup_keys st),
            ps_inbox := dset (ps_inbox st) i (new_inbox i dk ty (opt (je_payload ev) ''payload'' (PDict [])) (je_timestamp ev))\<rparr>))))"

definition id_update :: "journal_event \<Rightarrow> string \<Rightarrow> string option \<Rightarrow> projection_exn + string option" where
  "id_update ev k old = (case dget (je_payload ev) k of None \<Rightarrow> Inr old | Some v \<Rightarrow> raise_py (raw_str_option v k))"

definition reduce_inbox_event_processed :: reducer where
  "reduce_inbox_event_processed st ev =
     bindE (req_payload_str ev ''event_id'') (\<lambda>i.
     case dget (ps_inbox st) i of
       None \<Rightarrow> Inr st
     | Some r \<Rightarrow>
         bindE (id_update ev ''goal_id'' (ib_goal_id r)) (\<lambda>g.
         bindE (id_update ev ''run_id'' (ib_run_id r)) (\<lambda>n.
         Inr (st\<lparr>ps_inbox := dset (ps_inbox st) i (r\<lparr>ib_processed := True, ib_goal_id := g, ib_run_id := n\<rparr>)\<rparr>))))"

definition reduce_inbox_tombstone :: reducer where
  "reduce_inbox_tombstone st ev =
     bindE (req_payload_str ev ''event_id'') (\<lambda>i.
     case dget (ps_inbox st) i of
       None \<Rightarrow> Inr st
     | Some r \<Rightarrow> Inr (st\<lparr>ps_inbox := dset (ps_inbox st) i (r\<lparr>ib_tombstone := True\<rparr>)\<rparr>))"

definition reduce_occurrence_consumed :: reducer where
  "reduce_occurrence_consumed st ev =
     bindE (req_payload_str ev ''occurrence_key'') (\<lambda>k. Inr (st\<lparr>ps_occurrence_keys := insert k (ps_occurrence_keys st)\<rparr>))"

fun payload_int :: "string \<Rightarrow> pyval \<Rightarrow> projection_exn + int" where
  "payload_int k (PInt i) = Inr i"
| "payload_int k _ = Inl (ProjectionRaise (Untyped k))"

definition reduce_cursor_advanced :: reducer where
  "reduce_cursor_advanced st ev =
     bindE (raise_py (req (je_payload ev) ''sequence'')) (\<lambda>v.
     bindE (payload_int ''sequence'' v) (\<lambda>n.
     bindE (payload_str (opt (je_payload ev) ''hash'' (PStr [])) ''hash'') (\<lambda>h.
     Inr (st\<lparr>ps_cursor_sequence := n, ps_cursor_hash := h\<rparr>))))"

definition reduce_legacy_inbox_event :: reducer where
  "reduce_legacy_inbox_event st ev =
     (let d = je_payload ev in
      bindE (payload_str (opt d ''event_id'' (PStr (je_aggregate_id ev))) ''event_id'') (\<lambda>i.
      bindE (payload_str (opt d ''dedup_key'' (PStr [])) ''dedup_key'') (\<lambda>dk.
      bindE (payload_str (opt d ''source_type'' (opt d ''event_type'' (PStr []))) ''source_type'') (\<lambda>ty.
      bindE (raise_py (raw_float_option (opt d ''received_at'' (PFloat (Fin (je_timestamp ev)))) ''received_at'')) (\<lambda>r.
      case r of
        None \<Rightarrow> Inl (ProjectionRaise (Untyped ''received_at''))
      | Some t \<Rightarrow>
          Inr (st\<lparr>ps_dedup_keys := (if dk = [] then ps_dedup_keys st else insert dk (ps_dedup_keys st)),
                 ps_inbox := dset (ps_inbox st) i (new_inbox i dk ty (opt d ''payload'' (PDict [])) t)\<rparr>))))))"

definition reduce_legacy_occurrence :: reducer where
  "reduce_legacy_occurrence st ev =
     bindE (payload_str (opt (je_payload ev) ''occurrence_key'' (PStr [])) ''occurrence_key'') (\<lambda>k.
     Inr (if k = [] then st else st\<lparr>ps_occurrence_keys := insert k (ps_occurrence_keys st)\<rparr>))"

text \<open>
  The table in the order of the decorators; \<open>occurrence.consumed\<close> is registered twice and the second
  registration replaces the first.
\<close>

definition REDUCERS :: "(pyval \<Rightarrow> string) \<Rightarrow> (string, reducer) dict" where
  "REDUCERS h = foldl (\<lambda>d (k, f). dset d k f) []
     [(''goal.created'', reduce_goal_created h),
      (''goal.state_changed'', reduce_goal_state_changed),
      (''goal.activated'', reduce_goal_activated),
      (''run.created'', reduce_run_created),
      (''run.state_changed'', reduce_run_state_changed),
      (''plan.created'', reduce_plan_created),
      (''plan.state_changed'', reduce_plan_state_changed),
      (''step.state_changed'', reduce_step_state_changed),
      (''effect.created'', reduce_effect_created),
      (''effect.state_changed'', reduce_effect_state_changed),
      (''inbox.event_received'', reduce_inbox_event_received),
      (''inbox.event_processed'', reduce_inbox_event_processed),
      (''inbox.tombstone'', reduce_inbox_tombstone),
      (''occurrence.consumed'', reduce_occurrence_consumed),
      (''cursor.advanced'', reduce_cursor_advanced),
      (''inbox.event'', reduce_legacy_inbox_event),
      (''goal.state.changed'', reduce_goal_state_changed),
      (''run.state.changed'', reduce_run_state_changed),
      (''occurrence.consumed'', reduce_legacy_occurrence)]"

section \<open>Replay\<close>

definition apply_event :: "projection_env \<Rightarrow> projection_state \<Rightarrow> journal_event \<Rightarrow> projection_exn + projection_state" where
  "apply_event pe st ev =
     bindE (apply_workforce_event (pe_casefold pe) st ev) (\<lambda>(st', recognized).
     if recognized then Inr st'
     else case dget (REDUCERS (pe_hash pe)) (je_event_type ev) of
       None \<Rightarrow> Inr st'
     | Some reducer \<Rightarrow> reducer st' ev)"

fun apply_frame_events ::
  "projection_env \<Rightarrow> projection_state \<Rightarrow> journal_event list \<Rightarrow> projection_state \<times> (projection_exn + unit)" where
  "apply_frame_events pe st [] = (st, Inr ())"
| "apply_frame_events pe st (ev # evs) =
     (case apply_event pe st ev of Inl e \<Rightarrow> (st, Inl e) | Inr st' \<Rightarrow> apply_frame_events pe st' evs)"

definition apply_frame ::
  "projection_env \<Rightarrow> frame_env \<Rightarrow> projection_state \<Rightarrow> transaction_frame \<Rightarrow> projection_state \<times> (projection_exn + unit)" where
  "apply_frame pe fe st f =
     (case validate_workforce_frame_events (tf_events f) of
        Inl e \<Rightarrow> (st, Inl e)
      | Inr _ \<Rightarrow>
          (case apply_frame_events pe st (tf_events f) of
             (st1, Inl e) \<Rightarrow> (st1, Inl e)
           | (st1, Inr _) \<Rightarrow>
               (case normalize_workforce_aggregate_versions st1 (tf_aggregate_versions f) (tf_events f) of
                  Inl e \<Rightarrow> (st1, Inl e)
                | Inr st2 \<Rightarrow> (st2\<lparr>ps_cursor_sequence := tf_sequence f, ps_cursor_hash := frame_hash fe f\<rparr>, Inr ()))))"

fun apply_frames ::
  "projection_env \<Rightarrow> frame_env \<Rightarrow> projection_state \<Rightarrow> transaction_frame list \<Rightarrow> projection_state \<times> (projection_exn + unit)" where
  "apply_frames pe fe st [] = (st, Inr ())"
| "apply_frames pe fe st (f # fs) =
     (case apply_frame pe fe st f of (st', Inl e) \<Rightarrow> (st', Inl e) | (st', Inr _) \<Rightarrow> apply_frames pe fe st' fs)"

definition rebuild :: "projection_env \<Rightarrow> frame_env \<Rightarrow> transaction_frame list \<Rightarrow> projection_state \<times> (projection_exn + unit)" where
  "rebuild pe fe frames = apply_frames pe fe projection_init frames"

section \<open>Reducers and the workforce\<close>

definition same_workforce :: "projection_state \<Rightarrow> projection_state \<Rightarrow> bool" where
  "same_workforce st st' \<longleftrightarrow> ws_employees st' = ws_employees st \<and> ws_bot_principals st' = ws_bot_principals st \<and>
     ws_name_keys st' = ws_name_keys st \<and> ws_legacy_aliases st' = ws_legacy_aliases st \<and>
     ws_legacy_hashes st' = ws_legacy_hashes st \<and> authority_of st' = authority_of st"

lemma same_workforce_ok: "same_workforce st st' \<Longrightarrow> workforce_inv cf st \<Longrightarrow> workforce_ok cf st st'"
  unfolding workforce_ok_def by (auto simp: same_workforce_def workforce_kept_def intro: inv_same_tables)

lemma raise_py_Inr [simp]: "raise_py x = Inr y \<longleftrightarrow> x = Inr y"
  by (cases x) auto

lemma dget_fold_dset: "dget (foldl (\<lambda>d (k, f). dset d k f) d xs) k = Some f \<Longrightarrow> (k, f) \<in> set xs \<or> dget d k = Some f"
proof (induction xs arbitrary: d)
  case (Cons x xs)
  obtain l g where x: "x = (l, g)" by (cases x)
  with Cons.IH [of "dset d l g"] Cons.prems show ?case by (auto split: if_splits)
qed simp

lemma dget_fold_dset_value:
  assumes "dget (foldl (\<lambda>d (k, f). dset d k f) [] xs) k = Some f"
  shows "f \<in> set (map snd xs)"
  using dget_fold_dset [OF assms] by force

lemma REDUCERS_cases:
  assumes "dget (REDUCERS h) ty = Some f"
  shows "f \<in> {reduce_goal_created h, reduce_goal_state_changed, reduce_goal_activated, reduce_run_created,
    reduce_run_state_changed, reduce_plan_created, reduce_plan_state_changed, reduce_step_state_changed,
    reduce_effect_created, reduce_effect_state_changed, reduce_inbox_event_received, reduce_inbox_event_processed,
    reduce_inbox_tombstone, reduce_occurrence_consumed, reduce_cursor_advanced, reduce_legacy_inbox_event,
    reduce_legacy_occurrence}"
  using dget_fold_dset_value [OF assms [unfolded REDUCERS_def]]
  unfolding list.map snd_conv list.set by blast

lemmas reducer_defs = reduce_goal_created_def reduce_goal_state_changed_def reduce_goal_activated_def reduce_run_created_def
  reduce_run_state_changed_def reduce_plan_created_def reduce_plan_state_changed_def reduce_step_state_changed_def
  reduce_effect_created_def reduce_effect_state_changed_def reduce_inbox_event_received_def reduce_inbox_event_processed_def
  reduce_inbox_tombstone_def reduce_occurrence_consumed_def reduce_cursor_advanced_def reduce_legacy_inbox_event_def
  reduce_legacy_occurrence_def

lemma reducer_same_workforce:
  assumes f: "dget (REDUCERS h) ty = Some f" and ok: "f st ev = Inr st'"
  shows "same_workforce st st'"
  using REDUCERS_cases [OF f] ok
  by (auto simp: reducer_defs bindE_Inr_iff unknown_def same_workforce_def authority_of_def Let_def split: option.splits if_splits)

lemma apply_event_ok:
  assumes inv: "workforce_inv (pe_casefold pe) st" and ok: "apply_event pe st ev = Inr st'"
  shows "workforce_ok (pe_casefold pe) st st'"
proof -
  from ok obtain st1 b where w: "apply_workforce_event (pe_casefold pe) st ev = Inr (st1, b)"
    and r: "b \<and> st' = st1 \<or> st' = st1 \<or> (\<exists>f. dget (REDUCERS (pe_hash pe)) (je_event_type ev) = Some f \<and> f st1 ev = Inr st')"
    by (auto simp: apply_event_def bindE_Inr_iff split: if_splits option.splits)
  note ok1 = apply_workforce_event_ok [OF inv w]
  with r show ?thesis
    by (metis reducer_same_workforce same_workforce_ok workforce_ok_def workforce_ok_trans)
qed

lemma apply_frame_events_ok:
  "workforce_inv (pe_casefold pe) st \<Longrightarrow> workforce_ok (pe_casefold pe) st (fst (apply_frame_events pe st evs))"
proof (induction evs arbitrary: st)
  case (Cons ev evs)
  show ?case
  proof (cases "apply_event pe st ev")
    case (Inr st')
    from apply_event_ok [OF Cons.prems Inr] have o1: "workforce_ok (pe_casefold pe) st st'" .
    with Cons.IH [of st'] Inr show ?thesis by (auto simp: workforce_ok_def intro: workforce_kept_trans)
  qed (simp add: workforce_ok_refl Cons.prems)
qed (simp add: workforce_ok_refl)

lemma apply_frame_ok:
  assumes inv: "workforce_inv (pe_casefold pe) st"
  shows "workforce_ok (pe_casefold pe) st (fst (apply_frame pe fe st f))"
proof -
  obtain st1 r where e: "apply_frame_events pe st (tf_events f) = (st1, r)" by (cases "apply_frame_events pe st (tf_events f)")
  with apply_frame_events_ok [OF inv, of "tf_events f"] have o1: "workforce_ok (pe_casefold pe) st st1" by simp
  have o2: "workforce_ok (pe_casefold pe) st (st2\<lparr>ps_cursor_sequence := n, ps_cursor_hash := h\<rparr>)"
    if "normalize_workforce_aggregate_versions st1 (tf_aggregate_versions f) (tf_events f) = Inr st2" for st2 n h
  proof -
    have s: "workforce_ok (pe_casefold pe) st1 st2"
      using o1 that by (auto simp: workforce_ok_def normalize_workforce_aggregate_versions_def dest: set_versions_ok)
    moreover have "same_workforce st2 (st2\<lparr>ps_cursor_sequence := n, ps_cursor_hash := h\<rparr>)"
      by (simp add: same_workforce_def authority_of_def)
    ultimately show ?thesis using o1 by (meson same_workforce_ok workforce_ok_def workforce_ok_trans)
  qed
  show ?thesis
    using o1 o2 workforce_ok_refl [OF inv]
    by (auto simp: apply_frame_def e split: sum.splits)
qed

lemma apply_frames_ok:
  "workforce_inv (pe_casefold pe) st \<Longrightarrow> workforce_ok (pe_casefold pe) st (fst (apply_frames pe fe st fs))"
proof (induction fs arbitrary: st)
  case (Cons f fs)
  from apply_frame_ok [OF Cons.prems, of fe f] have o1: "workforce_ok (pe_casefold pe) st (fst (apply_frame pe fe st f))" .
  obtain st1 r where e: "apply_frame pe fe st f = (st1, r)" by (cases "apply_frame pe fe st f")
  with o1 Cons.IH [of st1] show ?case
    by (cases r) (auto simp: workforce_ok_def intro: workforce_kept_trans)
qed (simp add: workforce_ok_refl)

lemma apply_frames_append:
  "apply_frames pe fe st (fs @ gs) =
     (case apply_frames pe fe st fs of (st', Inl e) \<Rightarrow> (st', Inl e) | (st', Inr _) \<Rightarrow> apply_frames pe fe st' gs)"
  by (induction fs arbitrary: st) (auto split: prod.splits sum.splits)

lemma rebuild_inv: "workforce_inv (pe_casefold pe) (fst (rebuild pe fe frames))"
proof -
  have "workforce_inv (pe_casefold pe) projection_init" by (rule workforce_inv_empty) (simp_all add: projection_init_def)
  from apply_frames_ok [OF this, of fe frames] show ?thesis by (simp add: workforce_ok_def rebuild_def)
qed

text \<open>
  C4. Identities in a replayed workforce are exclusive: whatever the frames are and whether or not the
  replay fails in the middle, two employees of one tenant that are not archived have names that differ
  after case folding, an application belongs to at most one principal whose employee is not
  archived, and every principal belongs to an employee of its tenant that names it.
\<close>

theorem workforce_identities_exclusive:
  assumes "fst (rebuild pe fe frames) = st"
  shows "(\<forall>k e l d. dget (ws_employees st) k = Some e \<and> dget (ws_employees st) l = Some d \<and> em_state e \<noteq> ES_ARCHIVED \<and>
      em_state d \<noteq> ES_ARCHIVED \<and> em_tenant_key e = em_tenant_key d \<and>
      pe_casefold pe (em_name e) = pe_casefold pe (em_name d) \<longrightarrow> k = l) \<and>
    (\<forall>i p j q. dget (ws_bot_principals st) i = Some p \<and> dget (ws_bot_principals st) j = Some q \<and> bp_app_id p = bp_app_id q \<and>
      active_agent st (bp_agent_id p) \<and> active_agent st (bp_agent_id q) \<longrightarrow> i = j) \<and>
    (\<forall>i p. dget (ws_bot_principals st) i = Some p \<longrightarrow> (\<exists>e. dget (ws_employees st) (bp_agent_id p) = Some e \<and>
      em_bot_principal_id e = Some i \<and> em_tenant_key e = bp_tenant_key p))"
proof -
  from rebuild_inv [of pe fe frames] assms have inv: "workforce_inv (pe_casefold pe) st" by simp
  show ?thesis
  proof (intro conjI)
    show "\<forall>k e l d. dget (ws_employees st) k = Some e \<and> dget (ws_employees st) l = Some d \<and> em_state e \<noteq> ES_ARCHIVED \<and>
      em_state d \<noteq> ES_ARCHIVED \<and> em_tenant_key e = em_tenant_key d \<and>
      pe_casefold pe (em_name e) = pe_casefold pe (em_name d) \<longrightarrow> k = l"
      using inv_names_unique [OF inv] by blast
  qed (use inv in \<open>auto simp: workforce_inv_def apps_exclusive_def principals_bound_def\<close>)
qed

text \<open>
  C5. What a journal says of an identity stays: replaying more frames, even ones that fail, removes no
  employee and no principal, changes no tenant, unbinds or rebinds no bot, no application and no legacy
  alias, reopens no archived employee and never lowers the authority epoch; so a legacy writer that validated
  an epoch from before a cutover is refused ever after.
\<close>

theorem workforce_identities_permanent:
  assumes "rebuild pe fe frames = (st, Inr ())"
    and "fst (rebuild pe fe (frames @ later)) = st'"
  shows "workforce_kept st st' \<and>
    (n < ws_authority_epoch st \<longrightarrow> (\<exists>e. assert_writable expected (authority_of st') (Some n) = Inl e))"
proof -
  have "fst (apply_frames pe fe st later) = st'"
    using assms by (simp add: rebuild_def apply_frames_append)
  with apply_frames_ok [of pe st fe later] rebuild_inv [of pe fe frames] assms(1)
  have kept: "workforce_kept st st'" by (simp add: workforce_ok_def)
  then have "ws_authority_epoch st \<le> ws_authority_epoch st'"
    by (auto simp: workforce_kept_def authority_of_def)
  then have "n < ws_authority_epoch st \<longrightarrow> (\<exists>e. assert_writable expected (authority_of st') (Some n) = Inl e)"
    by (auto simp: assert_writable_def authority_of_def)
  with kept show ?thesis by simp
qed

section \<open>Replay and the state machines\<close>

definition state_change :: "string \<Rightarrow> string \<Rightarrow> string \<Rightarrow> journal_event \<Rightarrow> bool" where
  "state_change ty k s ev \<longleftrightarrow> je_event_type ev = ty \<and> je_aggregate_id ev = k \<and> dget (je_payload ev) ''state'' = Some (PStr s)"

lemma not_workforce_event:
  assumes "dget (APPLIERS cf :: (string, projection_state \<Rightarrow> journal_event \<Rightarrow> projection_exn + projection_state) dict) (je_event_type ev) = None"
    and "dget (REDUCERS (pe_hash pe)) (je_event_type ev) = Some f" and "cf = pe_casefold pe"
  shows "apply_event pe st ev = f st ev"
  using assms by (simp add: apply_event_def apply_workforce_event_def)

lemma apply_state_changes:
  "je_event_type ev = ''run.state_changed'' \<Longrightarrow> apply_event pe st ev = reduce_run_state_changed st ev"
  "je_event_type ev = ''plan.state_changed'' \<Longrightarrow> apply_event pe st ev = reduce_plan_state_changed st ev"
  "je_event_type ev = ''step.state_changed'' \<Longrightarrow> apply_event pe st ev = reduce_step_state_changed st ev"
  "je_event_type ev = ''effect.state_changed'' \<Longrightarrow> apply_event pe st ev = reduce_effect_state_changed st ev"
  by (rule not_workforce_event [OF _ _ refl]; simp add: APPLIERS_def REDUCERS_def)+

lemma run_follows:
  assumes "dget (ps_runs st) k = Some r" and t: "transition_run r ev0 ex ctx owner now = Inr (r', rec, em)"
    and same: "rn_target_terminal_state r' = rn_target_terminal_state r"
    and ev: "state_change ''run.state_changed'' k (run_state_value (rn_state r')) ev"
  shows "\<exists>st'. apply_event pe st ev = Inr st' \<and> dget (ps_runs st') k = Some r'"
proof -
  from t obtain r0 where init: "run_init r0 = Inr r'" and r0: "r0 = r\<lparr>rn_state := rn_state r0,
      rn_target_terminal_state := rn_target_terminal_state r0, rn_aggregate_version := rn_aggregate_version r + 1\<rparr>"
    by (auto simp: transition_run_def bindE_Inr_iff lift_init_Inr)
  from init have eqs: "rn_state r0 = rn_state r'" "rn_target_terminal_state r0 = rn_target_terminal_state r"
    using same by (auto simp: run_init_def Let_def split: if_splits)
  have "r0 = r\<lparr>rn_state := rn_state r', rn_target_terminal_state := rn_target_terminal_state r,
      rn_aggregate_version := rn_aggregate_version r + 1\<rparr>"
    using r0 unfolding eqs .
  also have "\<dots> = r\<lparr>rn_state := rn_state r', rn_aggregate_version := rn_aggregate_version r + 1\<rparr>" by (cases r) simp
  finally have "r0 = r\<lparr>rn_state := rn_state r', rn_aggregate_version := rn_aggregate_version r + 1\<rparr>" .
  with init assms(1) ev show ?thesis
    by (auto simp: state_change_def apply_state_changes reduce_run_state_changed_def req_def)
qed


lemma frozen_freeze_same: "frozen_value v \<Longrightarrow> freeze v = v"
  by (induction v) (auto simp: list_all_iff intro!: map_idI)

lemma plan_follows:
  assumes "dget (ps_plans st) k = Some p" and t: "transition_plan p ev0 ex owner now = Inr (p', rec, em)" and wf: "plan_wf p"
    and ev: "state_change ''plan.state_changed'' k (plan_state_value (pl_state p')) ev"
  shows "\<exists>st'. apply_event pe st ev = Inr st' \<and> dget (ps_plans st') k = Some p'"
proof -
  have "p' = p\<lparr>pl_state := pl_state p', pl_budget_estimate := freeze (pl_budget_estimate p),
      pl_aggregate_version := pl_aggregate_version p + 1\<rparr>"
    using transition_plan_InrD [OF t] wf by (cases p) (simp add: plan_wf_def frozen_freeze_same)
  with assms(1) ev show ?thesis
    by (auto simp: state_change_def apply_state_changes reduce_plan_state_changed_def req_def)
qed

lemma step_follows:
  assumes "dget (ps_steps st) k = Some x" and t: "transition_step x ev0 ex owner now = Inr (x', rec, em)" and wf: "plan_step_wf x"
    and ev: "state_change ''step.state_changed'' k (step_state_value (st_state x')) ev"
  shows "\<exists>st'. apply_event pe st ev = Inr st' \<and> dget (ps_steps st') k = Some x'"
proof -
  have "x' = x\<lparr>st_state := st_state x', st_arguments_schema := freeze (st_arguments_schema x),
      st_principal_policy := freeze (st_principal_policy x), st_verifier_oracle := freeze (st_verifier_oracle x),
      st_aggregate_version := st_aggregate_version x + 1\<rparr>"
    using transition_step_InrD [OF t] wf by (cases x) (simp add: plan_step_wf_def frozen_freeze_same)
  with assms(1) ev show ?thesis
    by (auto simp: state_change_def apply_state_changes reduce_step_state_changed_def req_def)
qed

lemma effect_follows:
  assumes "dget (ps_effects st) k = Some e" and t: "transition_effect e ev0 ex now = Inr (e', rec, em)"
    and c: "dget (je_payload ev) ''committed_at'' = (if ef_state e' = ES_COMMITTED then Some (PFloat (Fin now)) else None)"
    and ev: "state_change ''effect.state_changed'' k (effect_state_value (ef_state e')) ev"
  shows "\<exists>st'. apply_event pe st ev = Inr st' \<and> dget (ps_effects st') k = Some e'"
proof -
  from t obtain e0 where init: "effect_init e0 = Inr e'"
    and e0: "e0 = e\<lparr>ef_state := ef_state e0, ef_active_dispatch := ef_active_dispatch e0,
      ef_committed_at := (if ef_state e0 = ES_COMMITTED then Some now else ef_committed_at e),
      ef_aggregate_version := ef_aggregate_version e + 1\<rparr>"
    by (auto simp: transition_effect_def bindE_Inr_iff lift_init_Inr Let_def split: option.splits if_splits)
  have st: "ef_state e0 = ef_state e'" "ef_active_dispatch e0 = (ef_state e' = ES_EXECUTING)"
    using init transition_effect_InrD(5) [OF t] by (auto simp: effect_init_def Let_def split: if_splits)
  have "e0 = e\<lparr>ef_state := ef_state e', ef_committed_at := (if ef_state e' = ES_COMMITTED then Some now else ef_committed_at e),
      ef_active_dispatch := (ef_state e' = ES_EXECUTING), ef_aggregate_version := ef_aggregate_version e + 1\<rparr>"
    using e0 unfolding st by (cases e) simp
  with init assms(1) ev c show ?thesis
    by (auto simp: state_change_def apply_state_changes reduce_effect_state_changed_def req_def opt_def field_codecs)
qed



definition sample_penv :: projection_env where
  "sample_penv = \<lparr>pe_casefold = id, pe_hash = (\<lambda>_. [])\<rparr>"

definition sample_change :: "string \<Rightarrow> string \<Rightarrow> pydict \<Rightarrow> journal_event" where
  "sample_change ty k d = \<lparr>je_event_type = ty, je_aggregate_id = k, je_payload = d, je_timestamp = 5, je_payload_hash = []\<rparr>"

definition replay_step :: plan_step where
  "replay_step = \<lparr>st_step_id = ''s1'', st_name = [], st_description = [], st_state = SS_PENDING, st_depends_on = [],
     st_capability = [], st_capability_version = [], st_arguments_schema = PProxy [], st_principal_policy = PProxy [],
     st_resource_key = [], st_verifier_oracle = PNone, st_compensation = [], st_assigned_employee = [],
     st_max_attempts = 3, st_timeout_seconds = 600, st_criterion_ids = [], st_aggregate_version = 0\<rparr>"

definition replay_plan :: plan where
  "replay_plan = \<lparr>pl_plan_id = ''p1'', pl_run_id = ''run_1'', pl_tenant_key = ''t'', pl_state = PS_DRAFT, pl_epoch = 1,
     pl_steps = [replay_step], pl_criteria_coverage = PProxy [], pl_budget_estimate = PNone, pl_authorization_id = [],
     pl_parent_authorization_id = [], pl_created_at = 0, pl_aggregate_version = 0\<rparr>"

definition replay_state :: projection_state where
  "replay_state = projection_init\<lparr>ps_runs := [(''run_1'', sample_run RS_SCHEDULED None 3)], ps_plans := [(''p1'', replay_plan)],
     ps_steps := [(''s1'', replay_step)], ps_effects := [(''e1'', sample_effect ES_EXECUTING 3)]\<rparr>"


lemmas replay_eval = replay_state_def replay_plan_def replay_step_def sample_change_def projection_init_def


text \<open>
  \<open>run.state_changed\<close> carries no target terminal state, so a replayed run forgets why it is being
  cancelled: a run that failed ends as failed, its replayed copy as canceled.
\<close>

lemma failed_run_replays_as_canceled:
  "\<exists>r s r2. map_sum id fst (transition_run (sample_run RS_EXECUTING None 3) RE_FAILED None None ''o'' 0) = Inr r \<and>
     map_sum id (rn_state \<circ> fst) (transition_run r RE_CANCEL_DRAINED None (Some (sample_context [])) ''o'' 0) = Inr RS_FAILED \<and>
     apply_event sample_penv (replay_state\<lparr>ps_runs := [(''run_1'', sample_run RS_EXECUTING None 3)]\<rparr>)
       (sample_change ''run.state_changed'' ''run_1'' [(''state'', PStr (run_state_value (rn_state r)))]) = Inr s \<and>
     dget (ps_runs s) ''run_1'' = Some r2 \<and>
     map_sum id (rn_state \<circ> fst) (transition_run r2 RE_CANCEL_DRAINED None (Some (sample_context [])) ''o'' 0) = Inr RS_CANCELED"
  by (simp add: sample_run_eval apply_state_changes sample_change_def reduce_run_state_changed_def req_def enum_of_def
      run_state_members_def replay_state_def)

text \<open>\<open>step.state_changed\<close> updates the table of steps but not the steps inside the plan.\<close>

lemma plan_keeps_stale_steps:
  "\<exists>s. apply_event sample_penv replay_state (sample_change ''step.state_changed'' ''s1'' [(''state'', PStr ''ready'')]) = Inr s \<and>
     map_option st_state (dget (ps_steps s) ''s1'') = Some SS_READY \<and>
     map_option (map st_state \<circ> pl_steps) (dget (ps_plans s) ''p1'') = Some [SS_PENDING]"
  by (simp add: apply_state_changes sample_change_def reduce_step_state_changed_def req_def enum_of_def
      step_state_members_def replay_state_def replay_plan_def replay_step_def)

section \<open>A sample workforce\<close>

definition sample_tx :: "int \<Rightarrow> journal_event list \<Rightarrow> transaction_frame" where
  "sample_tx n evs = \<lparr>tf_magic = FRAME_MAGIC, tf_schema_version = PInt 1, tf_byte_length = 1, tf_commit_marker = COMMIT_MARKER,
     tf_committed = True, tf_tx_id = ''tx'', tf_sequence = n, tf_writer_epoch = 0, tf_timestamp = 0,
     tf_expected_versions = map (\<lambda>e. (je_aggregate_id e, n - 1)) evs, tf_aggregate_versions = map (\<lambda>e. (je_aggregate_id e, n)) evs,
     tf_previous_hash = GENESIS_HASH, tf_events = evs, tf_checksum = [], tf_hmac_digest = [], tf_record = []\<rparr>"

definition sample_hiring :: "transaction_frame list" where
  "sample_hiring =
     [sample_tx 1 [sample_change ''employee.created'' ''agt_1'' [(''name'', PStr ''Ann''), (''tenant_key'', PStr ''t'')]],
      sample_tx 2 [sample_change ''employee.bot_principal_bound'' ''agt_1''
          [(''agent_id'', PStr ''agt_1''), (''bot_principal_id'', PStr ''bot_1'')],
        sample_change ''bot_principal.bound'' ''bot_1'' [(''agent_id'', PStr ''agt_1''), (''tenant_key'', PStr ''t''),
          (''app_id'', PStr ''cli_1''), (''credential_ref'', PStr ''ref_1'')]],
      sample_tx 3 [sample_change ''authority.cutover'' ''workforce_authority''
          [(''authority_epoch'', PInt 1), (''authority_mode'', PStr ''v5_write''), (''cutover_sequence'', PInt 2)]]]"

definition sample_hash_env :: frame_env where
  "sample_hash_env = \<lparr>fe_repr = (\<lambda>_. ''0''), fe_sha256 = (\<lambda>_. GENESIS_HASH), fe_hmac = (\<lambda>_ _. GENESIS_HASH), fe_float = (\<lambda>_. NaN)\<rparr>"

lemmas workforce_eval = apply_frame_def validate_workforce_frame_events_def validate_bot_binding_pairs_def binding_text_def
  is_workforce_event_def WORKFORCE_EVENTS_def apply_event_def apply_workforce_event_def APPLIERS_def
  create_employee_def created_payload_def dict_setdefault_def canonical_id_def ascii_alnum_def employee_from_dict_def raw_agent_id_def
  field_reader_defs enum_of_def worker_type_members_def employee_state_members_def employee_id_origin_members_def
  employee_init_def reserve_name_def name_key_def put_employee_def put_principal_def field_of_def
  bind_employee_principal_def bind_bot_principal_def ws_employee_def ws_principal_def require_mutable_employee_def touch_employee_def
  app_taken_def bot_principal_from_dict_def bot_principal_init_def cutover_authority_def authority_mode_members_def
  change_employee_state_def normalize_workforce_aggregate_versions_def set_version_def sample_tx_def sample_change_def
  sample_penv_def projection_init_def guardE_def dset_def dpop_def Let_def

lemma sample_hiring_replayed:
  "\<exists>st e p. rebuild sample_penv sample_hash_env sample_hiring = (st, Inr ()) \<and> dget (ws_employees st) ''agt_1'' = Some e \<and>
     em_aggregate_version e = 2 \<and> dget (ws_bot_principals st) ''bot_1'' = Some p \<and> bp_agent_id p = ''agt_1'' \<and> bp_tenant_key p = ''t'' \<and>
     ws_authority_epoch st = 1"
  unfolding rebuild_def sample_hiring_def
  by (simp add: workforce_eval cong: if_cong)


theorem workforce_identities_exclusive_witness:
  "\<exists>st e p. fst (rebuild sample_penv sample_hash_env sample_hiring) = st \<and> dget (ws_bot_principals st) ''bot_1'' = Some p \<and>
     dget (ws_employees st) (bp_agent_id p) = Some e \<and> em_bot_principal_id e = Some ''bot_1'' \<and> em_tenant_key e = bp_tenant_key p"
proof -
  obtain st p where r: "rebuild sample_penv sample_hash_env sample_hiring = (st, Inr ())" and p: "dget (ws_bot_principals st) ''bot_1'' = Some p"
    using sample_hiring_replayed by blast
  from r have st: "fst (rebuild sample_penv sample_hash_env sample_hiring) = st" by simp
  from workforce_identities_exclusive [OF st] p
  obtain e where "dget (ws_employees st) (bp_agent_id p) = Some e" "em_bot_principal_id e = Some ''bot_1''" "em_tenant_key e = bp_tenant_key p"
    by blast
  with st p show ?thesis by blast
qed

theorem workforce_identities_permanent_witness:
  "\<exists>st st' e. rebuild sample_penv sample_hash_env sample_hiring = (st, Inr ()) \<and> workforce_kept st st' \<and>
     fst (rebuild sample_penv sample_hash_env (sample_hiring @ [sample_tx 4 [sample_change ''employee.state_changed'' ''agt_1'' [(''state'', PStr ''archived'')]]])) = st' \<and>
     assert_writable 0 (authority_of st') (Some 0) = Inl e"
proof -
  obtain st where r: "rebuild sample_penv sample_hash_env sample_hiring = (st, Inr ())" and e: "ws_authority_epoch st = 1"
    using sample_hiring_replayed by blast
  from workforce_identities_permanent [OF r refl, of "[sample_tx 4 [sample_change ''employee.state_changed'' ''agt_1'' [(''state'', PStr ''archived'')]]]" 0 0]
    r e show ?thesis by auto
qed

end
