(* ===== verification/Outbox_Models.thy ===== *)
theory Outbox_Models
  imports Journal_Writer
begin

text \<open>
  The contracts of \<^verbatim>\<open>src/src/autonomous/outbox/models.py\<close>: the status-card snapshots an employee publishes, the binding
  of an outbox to the message that shows them, and the delivery effects. Constructors take untyped
  keyword arguments and keep every check in the order of the source. Strings are UTF-8 bytes,
  so lengths and control characters are taken over \<open>codepoints\<close>. SHA-256, \<open>uuid5\<close> and the Unicode tables
  behind \<open>casefold\<close> and \<open>\d\<close> are fields of the environment. Messages of errors leave out the JSON path.
\<close>

section \<open>Environment and text\<close>

record outbox_env =
  oe_frame :: frame_env
  oe_uuid5 :: "string \<Rightarrow> string"
  oe_casefold :: "string \<Rightarrow> string"
  oe_digit :: "string \<Rightarrow> bool"

definition continuation :: "char \<Rightarrow> bool" where
  "continuation c \<longleftrightarrow> 128 \<le> (of_char c :: nat) \<and> (of_char c :: nat) < 192"

function codepoints :: "string \<Rightarrow> string list" where
  "codepoints [] = []"
| "codepoints (c # cs) = (c # takeWhile continuation cs) # codepoints (dropWhile continuation cs)"
  by pat_completeness auto
termination
  by (relation "measure length") (auto simp: le_imp_less_Suc length_dropWhile_le)

text \<open>The category \<open>Cc\<close>: U+0000 to U+001F and U+007F to U+009F.\<close>

definition control_point :: "string \<Rightarrow> bool" where
  "control_point p \<longleftrightarrow>
     (case p of
        [c] \<Rightarrow> (of_char c :: nat) < 32 \<or> (of_char c :: nat) = 127
      | [c, d] \<Rightarrow> (of_char c :: nat) = 194 \<and> (of_char d :: nat) < 160
      | _ \<Rightarrow> False)"

definition strict_text :: "pyval \<Rightarrow> string \<Rightarrow> nat \<Rightarrow> bool \<Rightarrow> py_exn + string" where
  "strict_text v name maximum allow_empty =
     (case v of
        PStr s \<Rightarrow>
          if \<not> allow_empty \<and> s = [] then Inl (ValueError (''invalid '' @ name))
          else if maximum < length (codepoints s) \<or> list_ex control_point (codepoints s)
          then Inl (ValueError (''invalid '' @ name))
          else Inr s
      | _ \<Rightarrow> Inl (ValueError (''invalid '' @ name)))"

definition exact_dict :: "pyval \<Rightarrow> string list \<Rightarrow> string \<Rightarrow> py_exn + pydict" where
  "exact_dict v expected name =
     (case v of
        PDict d \<Rightarrow>
          if set expected - set (dkeys d) \<noteq> {} then Inl (ValueError (name @ '' missing fields''))
          else if set (dkeys d) - set expected \<noteq> {} then Inl (ValueError (name @ '' has unknown fields''))
          else Inr d
      | _ \<Rightarrow> Inl (ValueError (name @ '' must be an object'')))"

text \<open>An argument that must be an \<open>int\<close>, and not a \<open>bool\<close>, of at least \<open>minimum\<close>.\<close>

definition exact_int :: "pyval \<Rightarrow> int \<Rightarrow> string \<Rightarrow> py_exn + int" where
  "exact_int v minimum message =
     (case v of PInt i \<Rightarrow> if i < minimum then Inl (ValueError message) else Inr i | _ \<Rightarrow> Inl (ValueError message))"

text \<open>\<open>\d{4}-\d{2}-\d{2}T\d{2}:\d{2}:\d{2}(?:\.\d{1,6})?Z\<close>, matched in full.\<close>

definition decimal_digit :: "outbox_env \<Rightarrow> string \<Rightarrow> bool" where
  "decimal_digit env p \<longleftrightarrow> p \<in> (\<lambda>c. [c]) ` set ''0123456789'' \<or> oe_digit env p"

definition rfc3339_utc :: "outbox_env \<Rightarrow> string \<Rightarrow> bool" where
  "rfc3339_utc env s \<longleftrightarrow>
     (let ps = codepoints s; rest = drop 19 ps; ds = butlast (tl rest)
      in list_all2 (\<lambda>c p. if c = CHR ''d'' then decimal_digit env p else p = [c]) ''dddd-dd-ddTdd:dd:dd'' (take 19 ps) \<and>
         (rest = [''Z''] \<or>
          3 \<le> length rest \<and> hd rest = ''.'' \<and> last rest = ''Z'' \<and> length ds \<le> 6 \<and> list_all (decimal_digit env) ds))"

section \<open>Card content\<close>

definition FORBIDDEN_COLLAPSED_KEYS :: "string list" where
  "FORBIDDEN_COLLAPSED_KEYS = [''appsecret'', ''accesstoken'', ''tenantaccesstoken'', ''refreshtoken'', ''authorization'',
     ''apikey'', ''clientsecret'', ''privatekey'', ''password'', ''token'', ''credentialref'', ''masterkey'', ''vaultkey'']"

definition lower_alnum :: "char \<Rightarrow> bool" where
  "lower_alnum c \<longleftrightarrow> (let n = (of_char c :: nat) in 48 \<le> n \<and> n \<le> 57 \<or> 97 \<le> n \<and> n \<le> 122)"

definition secret_key :: "outbox_env \<Rightarrow> string \<Rightarrow> bool" where
  "secret_key env k \<longleftrightarrow> filter lower_alnum (oe_casefold env k) \<in> set FORBIDDEN_COLLAPSED_KEYS"

definition freeze_item :: "outbox_env \<Rightarrow> string \<times> (py_exn + pyval) \<Rightarrow> py_exn + string \<times> pyval" where
  "freeze_item env kr =
     (if fst kr = [] then Inl (ValueError ''invalid JSON key'')
      else if secret_key env (fst kr) then Inl (ValueError ''secret-bearing field is forbidden'')
      else bindE (snd kr) (\<lambda>v. Inr (fst kr, v)))"

primrec freeze_json :: "outbox_env \<Rightarrow> pyval \<Rightarrow> py_exn + pyval" where
  "freeze_json env PNone = Inr PNone"
| "freeze_json env (PBool b) = Inr (PBool b)"
| "freeze_json env (PInt i) = Inr (PInt i)"
| "freeze_json env (PFloat f) = (case f of Fin r \<Rightarrow> Inr (PFloat f) | _ \<Rightarrow> Inl (ValueError ''unsupported JSON value''))"
| "freeze_json env (PStr s) = Inr (PStr s)"
| "freeze_json env (PList xs) = bindE (mapE id (map (freeze_json env) xs)) (\<lambda>ys. Inr (PTuple ys))"
| "freeze_json env (PTuple xs) = bindE (mapE id (map (freeze_json env) xs)) (\<lambda>ys. Inr (PTuple ys))"
| "freeze_json env (PDict kvs) =
     bindE (mapE (freeze_item env) (map (map_prod id (freeze_json env)) kvs)) (\<lambda>kws. Inr (PProxy kws))"
| "freeze_json env (PProxy kvs) =
     bindE (mapE (freeze_item env) (map (map_prod id (freeze_json env)) kvs)) (\<lambda>kws. Inr (PProxy kws))"
| "freeze_json env (PSet ss) = Inl (ValueError ''unsupported JSON value'')"
| "freeze_json env (PFrozenset ss) = Inl (ValueError ''unsupported JSON value'')"

primrec thaw_json :: "pyval \<Rightarrow> pyval" where
  "thaw_json PNone = PNone"
| "thaw_json (PBool b) = PBool b"
| "thaw_json (PInt i) = PInt i"
| "thaw_json (PFloat f) = PFloat f"
| "thaw_json (PStr s) = PStr s"
| "thaw_json (PList xs) = PList xs"
| "thaw_json (PTuple xs) = PList (map thaw_json xs)"
| "thaw_json (PDict kvs) = PDict (map (map_prod id thaw_json) kvs)"
| "thaw_json (PProxy kvs) = PDict (map (map_prod id thaw_json) kvs)"
| "thaw_json (PSet ss) = PSet ss"
| "thaw_json (PFrozenset ss) = PFrozenset ss"

section \<open>Enumerations\<close>

datatype employee_card_state =
    CARD_QUEUED | CARD_RUNNING | CARD_COMPLETED | CARD_FAILED | CARD_CANCELED | CARD_ACTION_REQUIRED

fun card_state_value :: "employee_card_state \<Rightarrow> string" where
  "card_state_value CARD_QUEUED = ''queued''"
| "card_state_value CARD_RUNNING = ''running''"
| "card_state_value CARD_COMPLETED = ''completed''"
| "card_state_value CARD_FAILED = ''failed''"
| "card_state_value CARD_CANCELED = ''canceled''"
| "card_state_value CARD_ACTION_REQUIRED = ''action_required''"

definition card_state_members :: "employee_card_state list" where
  "card_state_members = [CARD_QUEUED, CARD_RUNNING, CARD_COMPLETED, CARD_FAILED, CARD_CANCELED, CARD_ACTION_REQUIRED]"

definition card_terminal :: "employee_card_state \<Rightarrow> bool" where
  "card_terminal s \<longleftrightarrow> s \<in> {CARD_COMPLETED, CARD_FAILED, CARD_CANCELED, CARD_ACTION_REQUIRED}"

interpretation card_state_enum: py_enum card_state_value card_state_members
proof
  show "x \<in> set card_state_members" for x by (cases x) (simp_all add: card_state_members_def)
qed (simp add: card_state_members_def)

datatype delivery_effect_kind = DK_CREATE | DK_PATCH

fun delivery_kind_value :: "delivery_effect_kind \<Rightarrow> string" where
  "delivery_kind_value DK_CREATE = ''create''"
| "delivery_kind_value DK_PATCH = ''patch''"

definition delivery_kind_members :: "delivery_effect_kind list" where
  "delivery_kind_members = [DK_CREATE, DK_PATCH]"

interpretation delivery_kind_enum: py_enum delivery_kind_value delivery_kind_members
proof
  show "x \<in> set delivery_kind_members" for x by (cases x) (simp_all add: delivery_kind_members_def)
qed (simp add: delivery_kind_members_def)

datatype delivery_effect_state = DS_PREPARED | DS_EXECUTING | DS_COMMITTED | DS_ACTION_REQUIRED

fun delivery_state_value :: "delivery_effect_state \<Rightarrow> string" where
  "delivery_state_value DS_PREPARED = ''prepared''"
| "delivery_state_value DS_EXECUTING = ''executing''"
| "delivery_state_value DS_COMMITTED = ''committed''"
| "delivery_state_value DS_ACTION_REQUIRED = ''action_required''"

definition delivery_state_members :: "delivery_effect_state list" where
  "delivery_state_members = [DS_PREPARED, DS_EXECUTING, DS_COMMITTED, DS_ACTION_REQUIRED]"

interpretation delivery_state_enum: py_enum delivery_state_value delivery_state_members
proof
  show "x \<in> set delivery_state_members" for x by (cases x) (simp_all add: delivery_state_members_def)
qed (simp add: delivery_state_members_def)

lemma outbox_enum_fields [codec_simps]:
  "enum_field card_state_value card_state_members (PStr (card_state_value cs)) = Inr cs"
  "enum_field delivery_kind_value delivery_kind_members (PStr (delivery_kind_value dk)) = Inr dk"
  "enum_field delivery_state_value delivery_state_members (PStr (delivery_state_value ds)) = Inr ds"
  by (simp_all add: card_state_enum.of_value delivery_kind_enum.of_value delivery_state_enum.of_value)

section \<open>Identifiers\<close>

definition hex_id :: "string \<Rightarrow> string \<Rightarrow> bool" where
  "hex_id pre s \<longleftrightarrow> take (length pre) s = pre \<and> valid_hash_str (drop (length pre) s)"

definition require_hex_id :: "string \<Rightarrow> pyval \<Rightarrow> string \<Rightarrow> py_exn + string" where
  "require_hex_id pre v message =
     (case v of PStr s \<Rightarrow> if hex_id pre s then Inr s else Inl (ValueError message) | _ \<Rightarrow> Inl (ValueError message))"

abbreviation nul :: string where
  "nul \<equiv> [CHR 0x00]"

definition employee_outbox_id :: "outbox_env \<Rightarrow> pyval \<Rightarrow> pyval \<Rightarrow> pyval \<Rightarrow> py_exn + string" where
  "employee_outbox_id env tenant_key agent_id attempt_id =
     bindE (strict_text tenant_key ''tenant_key'' 256 False) (\<lambda>t.
     bindE (strict_text agent_id ''agent_id'' 256 False) (\<lambda>a.
     bindE (strict_text attempt_id ''attempt_id'' 256 False) (\<lambda>n.
     Inr (''out_'' @ fe_sha256 (oe_frame env) (t @ nul @ a @ nul @ n)))))"

definition employee_outbox_uuid :: "outbox_env \<Rightarrow> pyval \<Rightarrow> py_exn + string" where
  "employee_outbox_uuid env outbox_id =
     bindE (require_hex_id ''out_'' outbox_id ''invalid outbox_id'') (\<lambda>i. Inr (oe_uuid5 env i))"

definition employee_outbox_effect_id ::
  "outbox_env \<Rightarrow> pyval \<Rightarrow> delivery_effect_kind \<Rightarrow> pyval \<Rightarrow> pyval \<Rightarrow> py_exn + string" where
  "employee_outbox_effect_id env outbox_id kind snapshot_version attempt =
     bindE (require_hex_id ''out_'' outbox_id ''invalid outbox_id'') (\<lambda>i.
     bindE (exact_int snapshot_version 1 ''invalid snapshot_version'') (\<lambda>v.
     bindE (exact_int attempt 1 ''invalid attempt'') (\<lambda>n.
     Inr (''outeff_'' @ fe_sha256 (oe_frame env)
       (i @ nul @ delivery_kind_value kind @ nul @ show_int v @ nul @ show_int n)))))"

section \<open>Snapshots\<close>

record employee_outbox_snapshot =
  sn_schema_version :: int
  sn_outbox_id :: string
  sn_tenant_key :: string
  sn_agent_id :: string
  sn_attempt_id :: string
  sn_chat_id :: string
  sn_thread_root_message_id :: string
  sn_version :: int
  sn_state :: employee_card_state
  sn_title :: string
  sn_summary :: string
  sn_progress_percent :: int
  sn_card_json :: pyval
  sn_created_at :: string
  sn_terminal_version :: int

definition snapshot_fields :: "string list" where
  "snapshot_fields = [''schema_version'', ''outbox_id'', ''tenant_key'', ''agent_id'', ''attempt_id'', ''chat_id'',
     ''thread_root_message_id'', ''version'', ''state'', ''title'', ''summary'', ''progress_percent'', ''card_json'',
     ''created_at'', ''terminal_version'']"

fun is_mapping :: "pyval \<Rightarrow> bool" where
  "is_mapping (PDict d) = True"
| "is_mapping (PProxy d) = True"
| "is_mapping _ = False"

text \<open>\<open>E(value)\<close> with the constructor's own message.\<close>

definition enum_or :: "('a \<Rightarrow> string) \<Rightarrow> 'a list \<Rightarrow> pyval \<Rightarrow> string \<Rightarrow> py_exn + 'a" where
  "enum_or val members v message = (case enum_field val members v of Inl _ \<Rightarrow> Inl (ValueError message) | Inr x \<Rightarrow> Inr x)"

definition created_at_text :: "outbox_env \<Rightarrow> pyval \<Rightarrow> py_exn + string" where
  "created_at_text env v =
     (case v of PStr s \<Rightarrow> if rfc3339_utc env s then Inr s else Inl (ValueError ''invalid created_at'')
      | _ \<Rightarrow> Inl (ValueError ''invalid created_at''))"

definition snapshot_init :: "outbox_env \<Rightarrow> pydict \<Rightarrow> py_exn + employee_outbox_snapshot" where
  "snapshot_init env d =
     bindE (guardE (field_of d ''schema_version'' = PInt 1) (ValueError ''unsupported snapshot schema_version'')) (\<lambda>_.
     bindE (strict_text (field_of d ''tenant_key'') ''tenant_key'' 256 False) (\<lambda>x_tenant_key.
     bindE (strict_text (field_of d ''agent_id'') ''agent_id'' 256 False) (\<lambda>x_agent_id.
     bindE (strict_text (field_of d ''attempt_id'') ''attempt_id'' 256 False) (\<lambda>x_attempt_id.
     bindE (strict_text (field_of d ''chat_id'') ''chat_id'' 256 False) (\<lambda>x_chat_id.
     bindE (strict_text (field_of d ''thread_root_message_id'') ''thread_root_message_id'' 256 True) (\<lambda>x_thread.
     bindE (employee_outbox_id env (PStr x_tenant_key) (PStr x_agent_id) (PStr x_attempt_id)) (\<lambda>expected_id.
     bindE (guardE (field_of d ''outbox_id'' = PStr expected_id)
              (ValueError ''outbox_id does not match employee coordinates'')) (\<lambda>_.
     bindE (exact_int (field_of d ''version'') 1 ''invalid snapshot version'') (\<lambda>x_version.
     bindE (enum_or card_state_value card_state_members (field_of d ''state'') ''invalid employee card state'') (\<lambda>x_state.
     bindE (strict_text (field_of d ''title'') ''title'' 512 False) (\<lambda>x_title.
     bindE (strict_text (field_of d ''summary'') ''summary'' 100000 True) (\<lambda>x_summary.
     bindE (exact_int (field_of d ''progress_percent'') 0 ''invalid progress_percent'') (\<lambda>x_progress.
     bindE (guardE (x_progress \<le> 100) (ValueError ''invalid progress_percent'')) (\<lambda>_.
     bindE (guardE (is_mapping (field_of d ''card_json'')) (ValueError ''card_json must be an object'')) (\<lambda>_.
     bindE (freeze_json env (field_of d ''card_json'')) (\<lambda>x_card.
     bindE (created_at_text env (field_of d ''created_at'')) (\<lambda>x_created_at.
     bindE (exact_int (field_of d ''terminal_version'') 0 ''invalid terminal_version'') (\<lambda>x_terminal_version.
     bindE (if card_terminal x_state
            then guardE (x_terminal_version = x_version) (ValueError ''terminal_version must equal terminal snapshot version'')
            else guardE (x_terminal_version = 0) (ValueError ''nonterminal snapshot cannot set terminal_version'')) (\<lambda>_.
     Inr \<lparr>sn_schema_version = 1, sn_outbox_id = expected_id, sn_tenant_key = x_tenant_key, sn_agent_id = x_agent_id,
       sn_attempt_id = x_attempt_id, sn_chat_id = x_chat_id, sn_thread_root_message_id = x_thread, sn_version = x_version,
       sn_state = x_state, sn_title = x_title, sn_summary = x_summary, sn_progress_percent = x_progress,
       sn_card_json = x_card, sn_created_at = x_created_at, sn_terminal_version = x_terminal_version\<rparr>)))))))))))))))))))"

definition snapshot_to_dict :: "employee_outbox_snapshot \<Rightarrow> pydict" where
  "snapshot_to_dict s =
     [(''schema_version'', PInt (sn_schema_version s)),
      (''outbox_id'', PStr (sn_outbox_id s)),
      (''tenant_key'', PStr (sn_tenant_key s)),
      (''agent_id'', PStr (sn_agent_id s)),
      (''attempt_id'', PStr (sn_attempt_id s)),
      (''chat_id'', PStr (sn_chat_id s)),
      (''thread_root_message_id'', PStr (sn_thread_root_message_id s)),
      (''version'', PInt (sn_version s)),
      (''state'', PStr (card_state_value (sn_state s))),
      (''title'', PStr (sn_title s)),
      (''summary'', PStr (sn_summary s)),
      (''progress_percent'', PInt (sn_progress_percent s)),
      (''card_json'', thaw_json (sn_card_json s)),
      (''created_at'', PStr (sn_created_at s)),
      (''terminal_version'', PInt (sn_terminal_version s))]"

definition snapshot_from_dict :: "outbox_env \<Rightarrow> pyval \<Rightarrow> py_exn + employee_outbox_snapshot" where
  "snapshot_from_dict env v =
     bindE (exact_dict v snapshot_fields ''employee Outbox snapshot'') (snapshot_init env)"

definition canonical_bytes :: "outbox_env \<Rightarrow> employee_outbox_snapshot \<Rightarrow> py_exn + string" where
  "canonical_bytes env s =
     (case json_text (fe_repr (oe_frame env)) (PDict (snapshot_to_dict s)) of
        None \<Rightarrow> Inl (ValueError ''not JSON serializable'') | Some t \<Rightarrow> Inr t)"

definition payload_sha256 :: "outbox_env \<Rightarrow> employee_outbox_snapshot \<Rightarrow> py_exn + string" where
  "payload_sha256 env s = bindE (canonical_bytes env s) (\<lambda>t. Inr (fe_sha256 (oe_frame env) t))"

section \<open>Bindings\<close>

record employee_outbox_binding =
  ob_schema_version :: int
  ob_outbox_id :: string
  ob_stable_uuid :: string
  ob_app_id :: string
  ob_generation :: int
  ob_connection_id :: string
  ob_message_id :: string
  ob_bound_snapshot_version :: int

definition binding_fields :: "string list" where
  "binding_fields = [''schema_version'', ''outbox_id'', ''stable_uuid'', ''app_id'', ''generation'', ''connection_id'',
     ''message_id'', ''bound_snapshot_version'']"

definition binding_init :: "outbox_env \<Rightarrow> pydict \<Rightarrow> py_exn + employee_outbox_binding" where
  "binding_init env d =
     bindE (guardE (field_of d ''schema_version'' = PInt 1) (ValueError ''unsupported Outbox binding schema_version'')) (\<lambda>_.
     bindE (require_hex_id ''out_'' (field_of d ''outbox_id'') ''invalid outbox_id'') (\<lambda>x_outbox_id.
     bindE (employee_outbox_uuid env (PStr x_outbox_id)) (\<lambda>x_uuid.
     bindE (guardE (field_of d ''stable_uuid'' = PStr x_uuid) (ValueError ''stable_uuid does not match outbox_id'')) (\<lambda>_.
     bindE (strict_text (field_of d ''app_id'') ''app_id'' 256 False) (\<lambda>x_app_id.
     bindE (strict_text (field_of d ''connection_id'') ''connection_id'' 256 False) (\<lambda>x_connection_id.
     bindE (strict_text (field_of d ''message_id'') ''message_id'' 256 False) (\<lambda>x_message_id.
     bindE (exact_int (field_of d ''generation'') 1 ''invalid generation'') (\<lambda>x_generation.
     bindE (exact_int (field_of d ''bound_snapshot_version'') 1 ''invalid bound_snapshot_version'') (\<lambda>x_version.
     Inr \<lparr>ob_schema_version = 1, ob_outbox_id = x_outbox_id, ob_stable_uuid = x_uuid, ob_app_id = x_app_id,
       ob_generation = x_generation, ob_connection_id = x_connection_id, ob_message_id = x_message_id,
       ob_bound_snapshot_version = x_version\<rparr>)))))))))"

definition binding_to_dict :: "employee_outbox_binding \<Rightarrow> pydict" where
  "binding_to_dict b =
     [(''schema_version'', PInt (ob_schema_version b)),
      (''outbox_id'', PStr (ob_outbox_id b)),
      (''stable_uuid'', PStr (ob_stable_uuid b)),
      (''app_id'', PStr (ob_app_id b)),
      (''generation'', PInt (ob_generation b)),
      (''connection_id'', PStr (ob_connection_id b)),
      (''message_id'', PStr (ob_message_id b)),
      (''bound_snapshot_version'', PInt (ob_bound_snapshot_version b))]"

definition binding_from_dict :: "outbox_env \<Rightarrow> pyval \<Rightarrow> py_exn + employee_outbox_binding" where
  "binding_from_dict env v = bindE (exact_dict v binding_fields ''employee Outbox binding'') (binding_init env)"

section \<open>Delivery effects\<close>

record outbox_delivery_effect =
  oe_schema_version :: int
  oe_effect_id :: string
  oe_outbox_id :: string
  oe_kind :: delivery_effect_kind
  oe_state :: delivery_effect_state
  oe_snapshot_version :: int
  oe_snapshot_sha256 :: string
  oe_attempt :: int
  oe_error_code :: string

definition delivery_fields :: "string list" where
  "delivery_fields = [''schema_version'', ''effect_id'', ''outbox_id'', ''kind'', ''state'', ''snapshot_version'',
     ''snapshot_sha256'', ''attempt'', ''error_code'']"

definition delivery_init :: "outbox_env \<Rightarrow> pydict \<Rightarrow> py_exn + outbox_delivery_effect" where
  "delivery_init env d =
     bindE (guardE (field_of d ''schema_version'' = PInt 1) (ValueError ''unsupported Outbox effect schema_version'')) (\<lambda>_.
     bindE (require_hex_id ''outeff_'' (field_of d ''effect_id'') ''invalid effect_id'') (\<lambda>x_effect_id.
     bindE (require_hex_id ''out_'' (field_of d ''outbox_id'') ''invalid outbox_id'') (\<lambda>x_outbox_id.
     bindE (enum_or delivery_kind_value delivery_kind_members (field_of d ''kind'') ''invalid Outbox effect enum'') (\<lambda>x_kind.
     bindE (enum_or delivery_state_value delivery_state_members (field_of d ''state'') ''invalid Outbox effect enum'') (\<lambda>x_state.
     bindE (exact_int (field_of d ''snapshot_version'') 1 ''invalid snapshot_version'') (\<lambda>x_version.
     bindE (require_hex_id [] (field_of d ''snapshot_sha256'') ''invalid snapshot_sha256'') (\<lambda>x_sha256.
     bindE (exact_int (field_of d ''attempt'') 1 ''invalid delivery attempt'') (\<lambda>x_attempt.
     bindE (employee_outbox_effect_id env (PStr x_outbox_id) x_kind (PInt x_version) (PInt x_attempt)) (\<lambda>expected.
     bindE (guardE (x_effect_id = expected) (ValueError ''effect_id does not match delivery coordinates'')) (\<lambda>_.
     bindE (strict_text (field_of d ''error_code'') ''error_code'' 128 True) (\<lambda>x_error.
     Inr \<lparr>oe_schema_version = 1, oe_effect_id = x_effect_id, oe_outbox_id = x_outbox_id, oe_kind = x_kind,
       oe_state = x_state, oe_snapshot_version = x_version, oe_snapshot_sha256 = x_sha256, oe_attempt = x_attempt,
       oe_error_code = x_error\<rparr>)))))))))))"

definition delivery_to_dict :: "outbox_delivery_effect \<Rightarrow> pydict" where
  "delivery_to_dict e =
     [(''schema_version'', PInt (oe_schema_version e)),
      (''effect_id'', PStr (oe_effect_id e)),
      (''outbox_id'', PStr (oe_outbox_id e)),
      (''kind'', PStr (delivery_kind_value (oe_kind e))),
      (''state'', PStr (delivery_state_value (oe_state e))),
      (''snapshot_version'', PInt (oe_snapshot_version e)),
      (''snapshot_sha256'', PStr (oe_snapshot_sha256 e)),
      (''attempt'', PInt (oe_attempt e)),
      (''error_code'', PStr (oe_error_code e))]"

definition delivery_from_dict :: "outbox_env \<Rightarrow> pyval \<Rightarrow> py_exn + outbox_delivery_effect" where
  "delivery_from_dict env v = bindE (exact_dict v delivery_fields ''employee Outbox effect'') (delivery_init env)"

section \<open>Advancing a status card\<close>

definition allowed_card_states :: "employee_card_state \<Rightarrow> employee_card_state list" where
  "allowed_card_states s =
     (case s of
        CARD_QUEUED \<Rightarrow> [CARD_QUEUED, CARD_RUNNING, CARD_FAILED, CARD_CANCELED, CARD_ACTION_REQUIRED]
      | CARD_RUNNING \<Rightarrow> [CARD_RUNNING, CARD_COMPLETED, CARD_FAILED, CARD_CANCELED, CARD_ACTION_REQUIRED]
      | _ \<Rightarrow> [])"

definition snapshot_coordinates :: "employee_outbox_snapshot \<Rightarrow> string list" where
  "snapshot_coordinates s = [sn_outbox_id s, sn_tenant_key s, sn_agent_id s, sn_attempt_id s, sn_chat_id s,
     sn_thread_root_message_id s]"

definition advance_snapshot ::
  "employee_outbox_snapshot \<Rightarrow> employee_outbox_snapshot \<Rightarrow> py_exn + employee_outbox_snapshot" where
  "advance_snapshot previous candidate =
     (if snapshot_coordinates previous \<noteq> snapshot_coordinates candidate
      then Inl (ValueError ''employee Outbox coordinates changed'')
      else if sn_version candidate \<noteq> sn_version previous + 1
      then Inl (ValueError ''snapshot version must increase by exactly one'')
      else if sn_created_at candidate \<noteq> sn_created_at previous
      then Inl (ValueError ''snapshot created_at is immutable'')
      else if card_terminal (sn_state previous) then Inl (ValueError ''terminal employee Outbox snapshot is fenced'')
      else if sn_state candidate \<notin> set (allowed_card_states (sn_state previous))
      then Inl (ValueError ''invalid employee card state transition'')
      else if sn_progress_percent candidate < sn_progress_percent previous
      then Inl (ValueError ''snapshot progress cannot decrease'')
      else Inr candidate)"

section \<open>Reading back\<close>

text \<open>What the readers accept, and that they return it.\<close>

definition text_ok :: "nat \<Rightarrow> bool \<Rightarrow> string \<Rightarrow> bool" where
  "text_ok maximum allow_empty s \<longleftrightarrow>
     (allow_empty \<or> s \<noteq> []) \<and> length (codepoints s) \<le> maximum \<and> \<not> list_ex control_point (codepoints s)"

lemma reader_Inr:
  "strict_text v name m ae = Inr s \<longleftrightarrow> v = PStr s \<and> text_ok m ae s"
  "exact_int v n msg = Inr i \<longleftrightarrow> v = PInt i \<and> n \<le> i"
  "require_hex_id pre v msg = Inr s \<longleftrightarrow> v = PStr s \<and> hex_id pre s"
  "created_at_text env v = Inr s \<longleftrightarrow> v = PStr s \<and> rfc3339_utc env s"
  by (auto simp: strict_text_def text_ok_def exact_int_def require_hex_id_def created_at_text_def not_le
      split: pyval.splits if_splits)

lemma reader_accepts:
  "text_ok m ae s \<Longrightarrow> strict_text (PStr s) name m ae = Inr s"
  "n \<le> i \<Longrightarrow> exact_int (PInt i) n msg = Inr i"
  "hex_id pre s \<Longrightarrow> require_hex_id pre (PStr s) msg = Inr s"
  "rfc3339_utc env s \<Longrightarrow> created_at_text env (PStr s) = Inr s"
  by (simp_all add: reader_Inr)

lemma enum_or_members [simp]:
  "enum_or card_state_value card_state_members (PStr (card_state_value cs)) msg = Inr cs"
  "enum_or delivery_kind_value delivery_kind_members (PStr (delivery_kind_value dk)) msg = Inr dk"
  "enum_or delivery_state_value delivery_state_members (PStr (delivery_state_value ds)) msg = Inr ds"
  by (simp_all add: enum_or_def codec_simps del: enum_field.simps)

lemma exact_dict_Inr: "set (dkeys d) = set expected \<Longrightarrow> exact_dict (PDict d) expected name = Inr d"
  by (simp add: exact_dict_def)

lemma freeze_item_Inr:
  "freeze_item env (k, r) = Inr (k', v) \<longleftrightarrow> k' = k \<and> r = Inr v \<and> k \<noteq> [] \<and> \<not> secret_key env k"
  by (cases r) (auto simp: freeze_item_def)

lemma freeze_items_Inr:
  "mapE (freeze_item env) (map (map_prod id (freeze_json env)) kvs) = Inr kws \<longleftrightarrow>
     list_all2 (\<lambda>kv kw. fst kw = fst kv \<and> freeze_json env (snd kv) = Inr (snd kw) \<and> fst kv \<noteq> [] \<and> \<not> secret_key env (fst kv)) kvs kws"
  unfolding mapE_list_all2 list.rel_map
  by (rule arg_cong [where f = "\<lambda>P. list_all2 P kvs kws"]) (auto simp: fun_eq_iff freeze_item_Inr)

lemma freeze_dict_Inr:
  "freeze_json env (PDict kvs) = Inr f \<longleftrightarrow> (\<exists>kws. f = PProxy kws \<and>
     list_all2 (\<lambda>kv kw. fst kw = fst kv \<and> freeze_json env (snd kv) = Inr (snd kw) \<and> fst kv \<noteq> [] \<and> \<not> secret_key env (fst kv)) kvs kws)"
  "freeze_json env (PProxy kvs) = freeze_json env (PDict kvs)"
  "freeze_json env (PList xs) = Inr f \<longleftrightarrow> (\<exists>ys. f = PTuple ys \<and> list_all2 (\<lambda>x y. freeze_json env x = Inr y) xs ys)"
  "freeze_json env (PTuple xs) = freeze_json env (PList xs)"
  by (simp_all only: freeze_json.simps bindE_Inr_iff freeze_items_Inr)
    (auto simp: mapE_list_all2 list.rel_map)

text \<open>What \<open>freeze_json\<close> returns is a scalar, a tuple or a read-only mapping, of frozen values.\<close>

lemma freeze_json_induct [consumes 1, case_names scalar tuple proxy]:
  assumes "freeze_json env v = Inr f"
    and scalar: "\<And>v. freeze_json env v = Inr v \<Longrightarrow> thaw_json v = v \<Longrightarrow> json_sorted v = v \<Longrightarrow> (\<And>fr. json_text fr v \<noteq> None) \<Longrightarrow> P v"
    and tuple: "\<And>ys. (\<And>y. y \<in> set ys \<Longrightarrow> P y) \<Longrightarrow> P (PTuple ys)"
    and proxy: "\<And>kws. (\<And>kw. kw \<in> set kws \<Longrightarrow> fst kw \<noteq> [] \<and> \<not> secret_key env (fst kw) \<and> P (snd kw)) \<Longrightarrow> P (PProxy kws)"
  shows "P f"
  using assms(1)
proof (induction v arbitrary: f)
  case (PDict kvs)
  then obtain kws where f: "f = PProxy kws"
    and ks: "list_all2 (\<lambda>kv kw. fst kw = fst kv \<and> freeze_json env (snd kv) = Inr (snd kw) \<and> fst kv \<noteq> [] \<and> \<not> secret_key env (fst kv)) kvs kws"
    by (auto simp: freeze_dict_Inr(1) simp del: freeze_json.simps)
  from ks have "list_all (\<lambda>kw. fst kw \<noteq> [] \<and> \<not> secret_key env (fst kw) \<and> P (snd kw)) kws"
    by (rule list_all2_all) (use PDict.IH in \<open>metis prod_set_simps(2) prod.collapse singletonI\<close>)
  then show ?case unfolding f by (intro proxy) (auto simp: list_all_iff)
next
  case (PProxy kvs)
  then obtain kws where f: "f = PProxy kws"
    and ks: "list_all2 (\<lambda>kv kw. fst kw = fst kv \<and> freeze_json env (snd kv) = Inr (snd kw) \<and> fst kv \<noteq> [] \<and> \<not> secret_key env (fst kv)) kvs kws"
    by (auto simp: freeze_dict_Inr(1,2) simp del: freeze_json.simps)
  from ks have "list_all (\<lambda>kw. fst kw \<noteq> [] \<and> \<not> secret_key env (fst kw) \<and> P (snd kw)) kws"
    by (rule list_all2_all) (use PProxy.IH in \<open>metis prod_set_simps(2) prod.collapse singletonI\<close>)
  then show ?case unfolding f by (intro proxy) (auto simp: list_all_iff)
next
  case (PList xs)
  then obtain ys where f: "f = PTuple ys" and ks: "list_all2 (\<lambda>x y. freeze_json env x = Inr y) xs ys"
    by (auto simp: freeze_dict_Inr(3) simp del: freeze_json.simps)
  from ks have "list_all P ys" by (rule list_all2_all) (use PList.IH in blast)
  then show ?case unfolding f by (intro tuple) (auto simp: list_all_iff)
next
  case (PTuple xs)
  then obtain ys where f: "f = PTuple ys" and ks: "list_all2 (\<lambda>x y. freeze_json env x = Inr y) xs ys"
    by (auto simp: freeze_dict_Inr(3,4) simp del: freeze_json.simps)
  from ks have "list_all P ys" by (rule list_all2_all) (use PTuple.IH in blast)
  then show ?case unfolding f by (intro tuple) (auto simp: list_all_iff)
qed (auto split: pyfloat.splits intro: scalar)

lemma freeze_json_thaw: "freeze_json env v = Inr f \<Longrightarrow> freeze_json env (thaw_json f) = Inr f"
proof (induction rule: freeze_json_induct)
  case (tuple ys)
  then show ?case by (simp only: thaw_json.simps freeze_dict_Inr) (auto simp: list.rel_map intro!: list.rel_refl_strong)
next
  case (proxy kws)
  then show ?case by (simp only: thaw_json.simps freeze_dict_Inr) (auto simp: list.rel_map intro!: list.rel_refl_strong)
qed simp

section \<open>Round trips\<close>

definition snapshot_ok :: "outbox_env \<Rightarrow> employee_outbox_snapshot \<Rightarrow> bool" where
  "snapshot_ok env s \<longleftrightarrow> (\<exists>d. snapshot_init env d = Inr s)"

definition binding_ok :: "outbox_env \<Rightarrow> employee_outbox_binding \<Rightarrow> bool" where
  "binding_ok env b \<longleftrightarrow> (\<exists>d. binding_init env d = Inr b)"

definition delivery_ok :: "outbox_env \<Rightarrow> outbox_delivery_effect \<Rightarrow> bool" where
  "delivery_ok env e \<longleftrightarrow> (\<exists>d. delivery_init env d = Inr e)"

lemma binding_fields_of:
  "field_of (binding_to_dict b) ''schema_version'' = PInt (ob_schema_version b)"
  "field_of (binding_to_dict b) ''outbox_id'' = PStr (ob_outbox_id b)"
  "field_of (binding_to_dict b) ''stable_uuid'' = PStr (ob_stable_uuid b)"
  "field_of (binding_to_dict b) ''app_id'' = PStr (ob_app_id b)"
  "field_of (binding_to_dict b) ''generation'' = PInt (ob_generation b)"
  "field_of (binding_to_dict b) ''connection_id'' = PStr (ob_connection_id b)"
  "field_of (binding_to_dict b) ''message_id'' = PStr (ob_message_id b)"
  "field_of (binding_to_dict b) ''bound_snapshot_version'' = PInt (ob_bound_snapshot_version b)"
  "dkeys (binding_to_dict b) = binding_fields"
  by (simp_all add: binding_to_dict_def field_of_def binding_fields_def)

lemma delivery_fields_of:
  "field_of (delivery_to_dict e) ''schema_version'' = PInt (oe_schema_version e)"
  "field_of (delivery_to_dict e) ''effect_id'' = PStr (oe_effect_id e)"
  "field_of (delivery_to_dict e) ''outbox_id'' = PStr (oe_outbox_id e)"
  "field_of (delivery_to_dict e) ''kind'' = PStr (delivery_kind_value (oe_kind e))"
  "field_of (delivery_to_dict e) ''state'' = PStr (delivery_state_value (oe_state e))"
  "field_of (delivery_to_dict e) ''snapshot_version'' = PInt (oe_snapshot_version e)"
  "field_of (delivery_to_dict e) ''snapshot_sha256'' = PStr (oe_snapshot_sha256 e)"
  "field_of (delivery_to_dict e) ''attempt'' = PInt (oe_attempt e)"
  "field_of (delivery_to_dict e) ''error_code'' = PStr (oe_error_code e)"
  "dkeys (delivery_to_dict e) = delivery_fields"
  by (simp_all add: delivery_to_dict_def field_of_def delivery_fields_def)

lemma snapshot_fields_of:
  "field_of (snapshot_to_dict s) ''schema_version'' = PInt (sn_schema_version s)"
  "field_of (snapshot_to_dict s) ''outbox_id'' = PStr (sn_outbox_id s)"
  "field_of (snapshot_to_dict s) ''tenant_key'' = PStr (sn_tenant_key s)"
  "field_of (snapshot_to_dict s) ''agent_id'' = PStr (sn_agent_id s)"
  "field_of (snapshot_to_dict s) ''attempt_id'' = PStr (sn_attempt_id s)"
  "field_of (snapshot_to_dict s) ''chat_id'' = PStr (sn_chat_id s)"
  "field_of (snapshot_to_dict s) ''thread_root_message_id'' = PStr (sn_thread_root_message_id s)"
  "field_of (snapshot_to_dict s) ''version'' = PInt (sn_version s)"
  "field_of (snapshot_to_dict s) ''state'' = PStr (card_state_value (sn_state s))"
  "field_of (snapshot_to_dict s) ''title'' = PStr (sn_title s)"
  "field_of (snapshot_to_dict s) ''summary'' = PStr (sn_summary s)"
  "field_of (snapshot_to_dict s) ''progress_percent'' = PInt (sn_progress_percent s)"
  "field_of (snapshot_to_dict s) ''card_json'' = thaw_json (sn_card_json s)"
  "field_of (snapshot_to_dict s) ''created_at'' = PStr (sn_created_at s)"
  "field_of (snapshot_to_dict s) ''terminal_version'' = PInt (sn_terminal_version s)"
  "dkeys (snapshot_to_dict s) = snapshot_fields"
  by (simp_all add: snapshot_to_dict_def field_of_def snapshot_fields_def)

lemma binding_reread:
  assumes "binding_ok env b" and "\<And>k. k \<in> set binding_fields \<Longrightarrow> field_of d k = field_of (binding_to_dict b) k"
  shows "binding_init env d = Inr b"
proof -
  from assms(1) obtain d0 where "binding_init env d0 = Inr b" by (auto simp: binding_ok_def)
  then show ?thesis
    unfolding binding_init_def
    apply (elim bindE_InrE)
    by (drule Inr_inject [THEN sym]) (simp add: reader_Inr reader_accepts assms binding_fields_def binding_fields_of)
qed

lemma delivery_reread:
  assumes "delivery_ok env e" and "\<And>k. k \<in> set delivery_fields \<Longrightarrow> field_of d k = field_of (delivery_to_dict e) k"
  shows "delivery_init env d = Inr e"
proof -
  from assms(1) obtain d0 where "delivery_init env d0 = Inr e" by (auto simp: delivery_ok_def)
  then show ?thesis
    unfolding delivery_init_def
    apply (elim bindE_InrE)
    by (drule Inr_inject [THEN sym]) (simp add: reader_Inr reader_accepts assms delivery_fields_def delivery_fields_of)
qed

lemma thaw_is_mapping: "freeze_json env v = Inr f \<Longrightarrow> is_mapping v \<Longrightarrow> is_mapping (thaw_json f)"
  by (cases v) (auto simp: bindE_Inr_iff)

lemma snapshot_reread:
  assumes "snapshot_ok env s" and "\<And>k. k \<in> set snapshot_fields \<Longrightarrow> k \<noteq> ''card_json'' \<Longrightarrow> field_of d k = field_of (snapshot_to_dict s) k"
    and "is_mapping (field_of d ''card_json'')" and "freeze_json env (field_of d ''card_json'') = Inr c"
  shows "snapshot_init env d = Inr (s\<lparr>sn_card_json := c\<rparr>)"
proof -
  from assms(1) obtain d0 where "snapshot_init env d0 = Inr s" by (auto simp: snapshot_ok_def)
  then show ?thesis
    unfolding snapshot_init_def
    apply (elim bindE_InrE)
    by (drule Inr_inject [THEN sym]) (simp add: reader_Inr reader_accepts assms snapshot_fields_def snapshot_fields_of split: if_splits)
qed

lemma snapshot_card:
  assumes "snapshot_ok env s"
  shows "is_mapping (thaw_json (sn_card_json s))" "freeze_json env (thaw_json (sn_card_json s)) = Inr (sn_card_json s)"
  using assms by (auto simp: snapshot_ok_def snapshot_init_def bindE_Inr_iff freeze_json_thaw thaw_is_mapping)

interpretation snapshot_codec: codec "\<lambda>s. PDict (snapshot_to_dict s)" "snapshot_from_dict env" "snapshot_ok env"
  by unfold_locales
    (simp add: snapshot_from_dict_def exact_dict_def snapshot_fields_of snapshot_reread snapshot_card flip: set_map)

interpretation binding_codec: codec "\<lambda>b. PDict (binding_to_dict b)" "binding_from_dict env" "binding_ok env"
  by unfold_locales (simp add: binding_from_dict_def exact_dict_def binding_fields_of binding_reread flip: set_map)

interpretation delivery_codec: codec "\<lambda>e. PDict (delivery_to_dict e)" "delivery_from_dict env" "delivery_ok env"
  by unfold_locales (simp add: delivery_from_dict_def exact_dict_def delivery_fields_of delivery_reread flip: set_map)

text \<open>The journal and the blob store sort the keys of what they write; the contracts do not depend on it.\<close>

lemma exact_dict_sorted: "dkeys d = expected \<Longrightarrow> exact_dict (json_sorted (PDict d)) expected name = Inr (sorted_items d)"
  by (simp only: json_sorted_dict) (force simp: exact_dict_def)

lemma binding_sorted:
  assumes "binding_ok env b"
  shows "binding_from_dict env (json_sorted (PDict (binding_to_dict b))) = Inr b"
proof -
  have "dict_ok (binding_to_dict b)" by (simp add: dict_ok_def binding_fields_of) (simp add: binding_fields_def)
  then have "field_of (sorted_items (binding_to_dict b)) k = field_of (binding_to_dict b) k" if "k \<in> set binding_fields" for k
    using that field_of_sorted_items [of "binding_to_dict b" k]
    by (simp only: binding_fields_of) (auto simp: binding_fields_def binding_fields_of)
  with assms show ?thesis
    by (simp add: binding_from_dict_def exact_dict_sorted binding_fields_of binding_reread del: json_sorted.simps)
qed

lemma delivery_sorted:
  assumes "delivery_ok env e"
  shows "delivery_from_dict env (json_sorted (PDict (delivery_to_dict e))) = Inr e"
proof -
  have "dict_ok (delivery_to_dict e)" by (simp add: dict_ok_def delivery_fields_of) (simp add: delivery_fields_def)
  then have "field_of (sorted_items (delivery_to_dict e)) k = field_of (delivery_to_dict e) k" if "k \<in> set delivery_fields" for k
    using that field_of_sorted_items [of "delivery_to_dict e" k]
    by (simp only: delivery_fields_of) (auto simp: delivery_fields_def delivery_fields_of)
  with assms show ?thesis
    by (simp add: delivery_from_dict_def exact_dict_sorted delivery_fields_of delivery_reread del: json_sorted.simps)
qed

lemma freeze_dict_thawed:
  assumes "\<And>kv. kv \<in> set kvs \<Longrightarrow> fst kv \<noteq> [] \<and> \<not> secret_key env (fst kv) \<and> (\<exists>y. freeze_json env (snd kv) = Inr y \<and> thaw_json y = snd kv)"
  shows "\<exists>f. freeze_json env (PDict kvs) = Inr f \<and> thaw_json f = PDict kvs"
  using assms
proof (induction kvs)
  case (Cons kv kvs)
  from Cons.IH Cons.prems obtain f where "freeze_json env (PDict kvs) = Inr f" "thaw_json f = PDict kvs"
    by (metis list.set_intros(2))
  moreover from this obtain kws where f: "f = PProxy kws" by (auto simp: freeze_dict_Inr(1) simp del: freeze_json.simps)
  moreover from Cons.prems [of kv] obtain y where "freeze_json env (snd kv) = Inr y" "thaw_json y = snd kv" "fst kv \<noteq> []"
    "\<not> secret_key env (fst kv)" by auto
  ultimately show ?case
    by (intro exI [of _ "PProxy ((fst kv, y) # kws)"])
      (cases kv, auto simp: bindE_Inr_iff freeze_item_Inr split: if_splits)
qed simp

lemma freeze_list_thawed:
  assumes "\<And>x. x \<in> set xs \<Longrightarrow> \<exists>y. freeze_json env x = Inr y \<and> thaw_json y = x"
  shows "\<exists>f. freeze_json env (PList xs) = Inr f \<and> thaw_json f = PList xs"
  using assms
proof (induction xs)
  case (Cons x xs)
  from Cons.IH Cons.prems obtain f where "freeze_json env (PList xs) = Inr f" "thaw_json f = PList xs"
    by (metis list.set_intros(2))
  moreover from this obtain ys where f: "f = PTuple ys" by (auto simp: freeze_dict_Inr(3) simp del: freeze_json.simps)
  moreover from Cons.prems [of x] obtain y where "freeze_json env x = Inr y" "thaw_json y = x" by auto
  ultimately show ?case by (intro exI [of _ "PTuple (y # ys)"]) (auto simp: bindE_Inr_iff)
qed simp

lemma freeze_json_sorted:
  "freeze_json env v = Inr f \<Longrightarrow> \<exists>g. freeze_json env (json_sorted (thaw_json f)) = Inr g \<and> thaw_json g = json_sorted (thaw_json f)"
proof (induction rule: freeze_json_induct)
  case (tuple ys)
  then show ?case unfolding thaw_json.simps json_sorted.simps by (intro freeze_list_thawed) auto
next
  case (proxy kws)
  then show ?case unfolding thaw_json.simps json_sorted.simps by (intro freeze_dict_thawed) auto
qed simp

lemma json_text_frozen: "freeze_json env v = Inr f \<Longrightarrow> json_text fr (thaw_json f) \<noteq> None"
proof (induction rule: freeze_json_induct)
  case (tuple ys)
  then have "those (map (json_text fr) (map thaw_json ys)) = Some (map (the \<circ> (json_text fr \<circ> thaw_json)) ys)"
    by (auto simp: those_map_Some)
  then show ?case by simp
next
  case (proxy kws)
  then show ?case unfolding thaw_json.simps json_dict_None by auto
qed simp

text \<open>
  A snapshot written to the blob store and read back is the same snapshot up to the order of the
  keys of its card, with the same bytes and hence the same digest.
\<close>

lemma snapshot_text: "snapshot_ok env s \<Longrightarrow> \<exists>t. canonical_bytes env s = Inr t"
  using snapshot_card(2) [of env s, THEN json_text_frozen, of "fe_repr (oe_frame env)"]
  by (auto simp: canonical_bytes_def snapshot_to_dict_def json_dict_None split: option.split)

lemma snapshot_sorted:
  assumes "snapshot_ok env s"
  obtains s' where "snapshot_from_dict env (json_sorted (PDict (snapshot_to_dict s))) = Inr s'"
    and "s' = s\<lparr>sn_card_json := sn_card_json s'\<rparr>" and "canonical_bytes env s' = canonical_bytes env s"
proof -
  obtain g where g: "freeze_json env (json_sorted (thaw_json (sn_card_json s))) = Inr g"
    "thaw_json g = json_sorted (thaw_json (sn_card_json s))"
    using freeze_json_sorted [OF snapshot_card(2) [OF assms]] freeze_json_thaw snapshot_card(2) [OF assms] by fastforce
  have ok: "dict_ok (snapshot_to_dict s)" by (simp add: dict_ok_def snapshot_fields_of) (simp add: snapshot_fields_def)
  then have f: "field_of (sorted_items (snapshot_to_dict s)) k = json_sorted (field_of (snapshot_to_dict s) k)"
    if "k \<in> set snapshot_fields" for k
    using that field_of_sorted_items [of "snapshot_to_dict s" k] by (simp only: snapshot_fields_of)
  have "is_mapping (json_sorted (thaw_json (sn_card_json s)))"
    using snapshot_card(1) [OF assms] by (cases "thaw_json (sn_card_json s)") (auto simp: json_sorted.simps(8))
  then have "snapshot_init env (sorted_items (snapshot_to_dict s)) = Inr (s\<lparr>sn_card_json := g\<rparr>)"
    using g(1) by (intro snapshot_reread [OF assms]) (auto simp: f snapshot_fields_of snapshot_fields_def)
  then have r: "snapshot_from_dict env (json_sorted (PDict (snapshot_to_dict s))) = Inr (s\<lparr>sn_card_json := g\<rparr>)"
    by (simp add: snapshot_from_dict_def exact_dict_sorted snapshot_fields_of del: json_sorted.simps)
  have "json_sorted (PDict (snapshot_to_dict (s\<lparr>sn_card_json := g\<rparr>))) = json_sorted (PDict (snapshot_to_dict s))"
    by (simp add: json_sorted.simps snapshot_to_dict_def g(2) json_sorted_idem)
  then have "canonical_bytes env (s\<lparr>sn_card_json := g\<rparr>) = canonical_bytes env s"
    by (metis canonical_bytes_def json_text_sorted)
  with r show thesis by (intro that [of "s\<lparr>sn_card_json := g\<rparr>"]) simp_all
qed

lemma enum_or_value:
  assumes of_val: "\<And>s x. enum_of val members s = Some x \<longleftrightarrow> val x = s"
  shows "enum_or val members v msg = Inr x \<longleftrightarrow> v = PStr (val x)"
proof (cases v)
  case (PStr s)
  have "enum_of val members s = Some x \<longleftrightarrow> s = val x" by (simp only: of_val eq_commute [of "val x"])
  then show ?thesis by (cases "enum_of val members s") (auto simp: PStr enum_or_def)
qed (simp_all add: enum_or_def)

lemmas enum_or_Inr = enum_or_value [OF card_state_enum.of_value_iff] enum_or_value [OF delivery_kind_enum.of_value_iff]
  enum_or_value [OF delivery_state_enum.of_value_iff]

lemma delivery_init_fields:
  assumes "delivery_init env d = Inr e"
  shows "field_of d ''outbox_id'' = PStr (oe_outbox_id e) \<and> field_of d ''effect_id'' = PStr (oe_effect_id e) \<and>
    field_of d ''kind'' = PStr (delivery_kind_value (oe_kind e)) \<and> field_of d ''state'' = PStr (delivery_state_value (oe_state e)) \<and>
    field_of d ''snapshot_version'' = PInt (oe_snapshot_version e) \<and> field_of d ''attempt'' = PInt (oe_attempt e)"
  using assms unfolding delivery_init_def
  apply (elim bindE_InrE)
  by (drule Inr_inject [THEN sym]) (simp add: reader_Inr enum_or_Inr)

lemma binding_init_fields:
  assumes "binding_init env d = Inr b"
  shows "field_of d ''outbox_id'' = PStr (ob_outbox_id b) \<and> field_of d ''stable_uuid'' = PStr (ob_stable_uuid b) \<and>
    ob_stable_uuid b = oe_uuid5 env (ob_outbox_id b) \<and> field_of d ''app_id'' = PStr (ob_app_id b) \<and>
    field_of d ''message_id'' = PStr (ob_message_id b) \<and> field_of d ''bound_snapshot_version'' = PInt (ob_bound_snapshot_version b)"
  using assms unfolding binding_init_def
  apply (elim bindE_InrE)
  by (drule Inr_inject [THEN sym]) (simp add: reader_Inr employee_outbox_uuid_def bindE_Inr_iff)

end
