(* ===== verification/Replay.thy ===== *)
theory Replay
  imports Prelude
begin

text \<open>
  Event-sourced projections: a state is rebuilt by folding a reducer over the events of the journal. The
  locale states what a projection promises of one event, an invariant of the state and a relation between the
  states before and after it, and proves that both hold over every history that is accepted.
  The outbox, retirement and hiring projections interpret it.
\<close>

primrec foldE :: "('s \<Rightarrow> 'e \<Rightarrow> 'x + 's) \<Rightarrow> 's \<Rightarrow> 'e list \<Rightarrow> 'x + 's" where
  "foldE f s [] = Inr s"
| "foldE f s (e # es) = bindE (f s e) (\<lambda>t. foldE f t es)"

lemma foldE_append: "foldE f s (es @ fs) = bindE (foldE f s es) (\<lambda>t. foldE f t fs)"
proof (induction es arbitrary: s)
  case (Cons e es)
  then show ?case by (cases "f s e") simp_all
qed simp

lemma foldE_snoc: "foldE f s (es @ [e]) = bindE (foldE f s es) (\<lambda>t. f t e)"
proof -
  have "bindE (f t e) Inr = f t e" for t by (cases "f t e") simp_all
  then show ?thesis by (simp add: foldE_append)
qed

text \<open>An event that one state rejects stops every longer history.\<close>

lemma foldE_stuck: "foldE f s es = Inl x \<Longrightarrow> foldE f s (es @ fs) = Inl x"
  by (simp add: foldE_append)

text \<open>What holds of a history and the state it leads to, by induction on its last event.\<close>

lemma foldE_history:
  assumes "foldE f s0 es = Inr t" and "P [] s0"
    and "\<And>es e s t. foldE f s0 es = Inr s \<Longrightarrow> P es s \<Longrightarrow> f s e = Inr t \<Longrightarrow> P (es @ [e]) t"
  shows "P es t"
  using assms(1)
proof (induction es arbitrary: t rule: rev_induct)
  case (snoc e es)
  then obtain s where "foldE f s0 es = Inr s" "f s e = Inr t" by (auto simp: foldE_snoc elim!: bindE_InrE)
  with snoc.IH assms(3) show ?case by blast
qed (use assms(2) in simp)

locale event_sourced =
  fixes reduce :: "'s \<Rightarrow> 'e \<Rightarrow> 'x + 's"
    and invar :: "'s \<Rightarrow> bool"
    and kept :: "'s \<Rightarrow> 's \<Rightarrow> bool"
  assumes step_invar: "invar s \<Longrightarrow> reduce s e = Inr t \<Longrightarrow> invar t"
    and step_kept: "invar s \<Longrightarrow> reduce s e = Inr t \<Longrightarrow> kept s t"
    and kept_refl: "kept s s"
    and kept_trans: "kept s t \<Longrightarrow> kept t u \<Longrightarrow> kept s u"
begin

lemma replay_invar_kept: "invar s \<Longrightarrow> foldE reduce s es = Inr t \<Longrightarrow> invar t \<and> kept s t"
proof (induction es arbitrary: s)
  case (Cons e es)
  from Cons.prems(2) obtain u where u: "reduce s e = Inr u" "foldE reduce u es = Inr t" by (auto elim: bindE_InrE)
  from Cons.IH [OF step_invar [OF Cons.prems(1) u(1)] u(2)] step_kept [OF Cons.prems(1) u(1)]
  show ?case by (blast intro: kept_trans)
qed (simp add: kept_refl)

lemma replay_invar: "invar s \<Longrightarrow> foldE reduce s es = Inr t \<Longrightarrow> invar t"
  and replay_kept: "invar s \<Longrightarrow> foldE reduce s es = Inr t \<Longrightarrow> kept s t"
  using replay_invar_kept by blast+

lemma history_kept:
  assumes "invar s" and "foldE reduce s es = Inr t" and "foldE reduce t fs = Inr u"
  shows "invar t \<and> invar u \<and> kept t u"
  using replay_invar [OF assms(1,2)] replay_invar_kept [OF replay_invar [OF assms(1,2)] assms(3)] by blast

end

end
