(* ===== verification/Outbox.thy ===== *)
theory Outbox
  imports Outbox_Models Replay
begin

text \<open>
  The projection of \<^verbatim>\<open>src/src/autonomous/outbox/projection.py\<close>: one reducer per outbox event over the table of outboxes,
  with the history of status cards, delivery effects and the message binding of each. A reducer raises before it
  changes anything, so it returns an error or the new state. The invariant and the relation kept from one
  state to every later one interpret \<open>event_sourced\<close>.
\<close>

section \<open>State\<close>

datatype outbox_exn =
    OutboxProjectionError string
  | OutboxConflictError string
  | OutboxBlobError string
  | OutboxWriteDisabledError string
  | OutboxClosedError string
  | OutboxKeyError
  | OutboxTypeError
  | OutboxValueError py_exn
  | OutboxJournalError journal_exn
  | OutboxRuntimeError string

record outbox_snapshot_record =
  so_version :: int
  so_state :: employee_card_state
  so_progress_percent :: int
  so_created_at :: string
  so_terminal_version :: int
  so_payload_sha256 :: string
  so_blob_ref :: blob_ref

record outbox_record =
  ot_outbox_id :: string
  ot_tenant_key :: string
  ot_agent_id :: string
  ot_attempt_id :: string
  ot_chat_id :: string
  ot_thread_root_message_id :: string
  ot_snapshots :: "(int, outbox_snapshot_record) dict"
  ot_latest_version :: int
  ot_tombstoned_versions :: "int list"
  ot_binding :: "employee_outbox_binding option"
  ot_effects :: "(string, outbox_delivery_effect) dict"

definition employee_key :: "outbox_record \<Rightarrow> string \<times> string" where
  "employee_key r = (ot_tenant_key r, ot_agent_id r)"

definition latest :: "outbox_record \<Rightarrow> outbox_exn + outbox_snapshot_record" where
  "latest r = (case dget (ot_snapshots r) (ot_latest_version r) of None \<Rightarrow> Inl OutboxKeyError | Some m \<Rightarrow> Inr m)"

record outbox_state =
  ox_by_outbox_id :: "(string, outbox_record) dict"
  ox_closed_employees :: "(string \<times> string) list"
  ox_cursor_sequence :: int
  ox_cursor_hash :: string

definition outbox_init :: outbox_state where
  "outbox_init = \<lparr>ox_by_outbox_id = [], ox_closed_employees = [], ox_cursor_sequence = 0, ox_cursor_hash = []\<rparr>"

definition put_outbox :: "outbox_state \<Rightarrow> string \<Rightarrow> outbox_record \<Rightarrow> outbox_state" where
  "put_outbox st i r = st\<lparr>ox_by_outbox_id := dset (ox_by_outbox_id st) i r\<rparr>"

abbreviation projection_error :: "string \<Rightarrow> outbox_exn + 'x" where
  "projection_error m \<equiv> Inl (OutboxProjectionError m)"

section \<open>Reducers\<close>

definition OUTBOX_EVENTS :: "string list" where
  "OUTBOX_EVENTS = [''employee.outbox.snapshot_appended'', ''employee.outbox.snapshot_tombstoned'',
     ''employee.outbox.effect_prepared'', ''employee.outbox.effect_executing'', ''employee.outbox.delivery_committed'']"

definition is_outbox_event :: "string \<Rightarrow> bool" where
  "is_outbox_event t \<longleftrightarrow> t \<in> set OUTBOX_EVENTS"

definition snapshot_event_fields :: "string list" where
  "snapshot_event_fields = [''tenant_key'', ''agent_id'', ''attempt_id'', ''chat_id'', ''thread_root_message_id'',
     ''version'', ''state'', ''progress_percent'', ''created_at'', ''terminal_version'', ''payload_sha256'', ''blob_ref'']"

definition require_text :: "pyval \<Rightarrow> bool \<Rightarrow> string \<Rightarrow> py_exn + string" where
  "require_text v allow_empty message =
     (case v of PStr s \<Rightarrow> if \<not> allow_empty \<and> s = [] then Inl (ValueError message) else Inr s | _ \<Rightarrow> Inl (ValueError message))"

definition blob_ref_value :: "frame_env \<Rightarrow> pyval \<Rightarrow> py_exn + blob_ref" where
  "blob_ref_value fe v =
     (case v of
        PDict d \<Rightarrow> (case blob_ref_from_dict fe d of Inl m \<Rightarrow> Inl (ValueError m) | Inr b \<Rightarrow> Inr b)
      | PProxy d \<Rightarrow> (case blob_ref_from_dict fe d of Inl m \<Rightarrow> Inl (ValueError m) | Inr b \<Rightarrow> Inr b)
      | _ \<Rightarrow> Inl (ValueError ''blob reference must be a mapping''))"

text \<open>The \<open>try\<close> block: the identifier of the outbox, its chat and thread, and the metadata of the snapshot.\<close>

definition snapshot_metadata ::
  "outbox_env \<Rightarrow> journal_event \<Rightarrow> py_exn + string \<times> string \<times> string \<times> outbox_snapshot_record" where
  "snapshot_metadata env ev =
     (let p = je_payload ev in
      bindE (employee_outbox_id env (field_of p ''tenant_key'') (field_of p ''agent_id'') (field_of p ''attempt_id'')) (\<lambda>outbox_id.
      bindE (enum_field card_state_value card_state_members (field_of p ''state'')) (\<lambda>state_value.
      bindE (blob_ref_value (oe_frame env) (field_of p ''blob_ref'')) (\<lambda>blob_ref.
      bindE (guardE (je_aggregate_id ev = outbox_id) (ValueError ''aggregate mismatch'')) (\<lambda>_.
      bindE (exact_int (field_of p ''version'') 1 ''invalid version'') (\<lambda>version.
      bindE (exact_int (field_of p ''progress_percent'') 0 ''invalid progress'') (\<lambda>progress.
      bindE (guardE (progress \<le> 100) (ValueError ''invalid progress'')) (\<lambda>_.
      bindE (exact_int (field_of p ''terminal_version'') 0 ''invalid terminal version'') (\<lambda>terminal_version.
      bindE (guardE (card_terminal state_value = (terminal_version = version)) (ValueError ''terminal fence mismatch'')) (\<lambda>_.
      bindE (require_hex_id [] (field_of p ''payload_sha256'') ''invalid snapshot digest'') (\<lambda>digest.
      bindE (require_text (field_of p ''chat_id'') False ''invalid chat_id'') (\<lambda>chat_id.
      bindE (require_text (field_of p ''created_at'') False ''invalid created_at'') (\<lambda>created_at.
      bindE (require_text (field_of p ''thread_root_message_id'') True ''invalid thread root'') (\<lambda>thread.
      Inr (outbox_id, chat_id, thread,
        \<lparr>so_version = version, so_state = state_value, so_progress_percent = progress, so_created_at = created_at,
         so_terminal_version = terminal_version, so_payload_sha256 = digest, so_blob_ref = blob_ref\<rparr>)))))))))))))))"

definition reduce_snapshot_appended :: "outbox_env \<Rightarrow> outbox_state \<Rightarrow> journal_event \<Rightarrow> outbox_exn + outbox_state" where
  "reduce_snapshot_appended env st ev =
     (let p = je_payload ev; t = the_str (field_of p ''tenant_key''); a = the_str (field_of p ''agent_id'');
          n = the_str (field_of p ''attempt_id'')
      in if \<not> exact_keys p snapshot_event_fields
         then projection_error ''invalid employee.outbox.snapshot_appended payload''
         else case snapshot_metadata env ev of
           Inl _ \<Rightarrow> projection_error ''invalid employee Outbox snapshot metadata''
         | Inr (outbox_id, chat_id, thread, snapshot) \<Rightarrow>
             (case dget (ox_by_outbox_id st) outbox_id of
                None \<Rightarrow>
                  if so_version snapshot \<noteq> 1 \<or> so_state snapshot \<noteq> CARD_QUEUED
                  then projection_error ''Outbox must start with queued version 1''
                  else Inr (put_outbox st outbox_id
                    \<lparr>ot_outbox_id = outbox_id, ot_tenant_key = t, ot_agent_id = a, ot_attempt_id = n, ot_chat_id = chat_id,
                     ot_thread_root_message_id = thread, ot_snapshots = [(1, snapshot)], ot_latest_version = 1,
                     ot_tombstoned_versions = [], ot_binding = None, ot_effects = []\<rparr>)
              | Some current \<Rightarrow>
                  if (ot_tenant_key current, ot_agent_id current, ot_attempt_id current, ot_chat_id current,
                      ot_thread_root_message_id current) \<noteq> (t, a, n, chat_id, thread)
                  then projection_error ''Outbox coordinates changed''
                  else bindE (latest current) (\<lambda>previous.
                    if so_version snapshot \<noteq> ot_latest_version current + 1
                    then projection_error ''Outbox snapshot version is not continuous''
                    else if card_terminal (so_state previous) then projection_error ''terminal Outbox snapshot is fenced''
                    else if so_state snapshot \<notin> set (allowed_card_states (so_state previous))
                    then projection_error ''invalid Outbox state transition''
                    else if so_progress_percent snapshot < so_progress_percent previous
                    then projection_error ''Outbox progress decreased''
                    else if so_created_at snapshot \<noteq> so_created_at previous
                    then projection_error ''Outbox created_at changed''
                    else Inr (put_outbox st outbox_id
                      (current\<lparr>ot_snapshots := dset (ot_snapshots current) (so_version snapshot) snapshot,
                         ot_latest_version := so_version snapshot\<rparr>)))))"

definition reduce_snapshot_tombstoned :: "outbox_state \<Rightarrow> journal_event \<Rightarrow> outbox_exn + outbox_state" where
  "reduce_snapshot_tombstoned st ev =
     (if \<not> exact_keys (je_payload ev) [''version'', ''tombstoned_at'']
      then projection_error ''invalid Outbox tombstone payload''
      else case (dget (ox_by_outbox_id st) (je_aggregate_id ev), field_of (je_payload ev) ''version'') of
        (Some record, PInt version) \<Rightarrow>
          if dget (ot_snapshots record) version = None
          then projection_error ''Outbox tombstone references unknown snapshot''
          else if version = ot_latest_version record
          then projection_error ''Outbox latest or nonterminal snapshot cannot tombstone''
          else bindE (latest record) (\<lambda>l.
            if \<not> card_terminal (so_state l)
            then projection_error ''Outbox latest or nonterminal snapshot cannot tombstone''
            else if version \<in> set (ot_tombstoned_versions record)
            then projection_error ''Outbox snapshot already tombstoned''
            else Inr (put_outbox st (je_aggregate_id ev)
              (record\<lparr>ot_tombstoned_versions := ot_tombstoned_versions record @ [version]\<rparr>)))
      | _ \<Rightarrow> projection_error ''Outbox tombstone references unknown snapshot'')"

definition delivery_active :: "outbox_delivery_effect \<Rightarrow> bool" where
  "delivery_active e \<longleftrightarrow> oe_state e \<in> {DS_PREPARED, DS_EXECUTING}"

definition delivery_kind_for :: "outbox_record \<Rightarrow> delivery_effect_kind" where
  "delivery_kind_for r = (if ot_binding r = None then DK_CREATE else DK_PATCH)"

definition put_effect :: "outbox_record \<Rightarrow> outbox_delivery_effect \<Rightarrow> outbox_record" where
  "put_effect r e = r\<lparr>ot_effects := dset (ot_effects r) (oe_effect_id e) e\<rparr>"

definition reduce_effect_prepared :: "outbox_env \<Rightarrow> outbox_state \<Rightarrow> journal_event \<Rightarrow> outbox_exn + outbox_state" where
  "reduce_effect_prepared env st ev =
     (if \<not> exact_keys (je_payload ev) [''effect''] then projection_error ''invalid Outbox effect prepared payload''
      else case dget (ox_by_outbox_id st) (je_aggregate_id ev) of
        None \<Rightarrow> projection_error ''Outbox effect references unknown record''
      | Some record \<Rightarrow>
          (case delivery_from_dict env (field_of (je_payload ev) ''effect'') of
             Inl _ \<Rightarrow> projection_error ''invalid Outbox delivery effect''
           | Inr effect \<Rightarrow>
               if oe_outbox_id effect \<noteq> ot_outbox_id record then projection_error ''Outbox effect aggregate mismatch''
               else if oe_state effect \<noteq> DS_PREPARED then projection_error ''new Outbox effect must be PREPARED''
               else if dget (ot_snapshots record) (oe_snapshot_version effect) = None
               then projection_error ''Outbox effect references unknown snapshot''
               else if oe_kind effect \<noteq> delivery_kind_for record
               then projection_error ''Outbox effect kind does not match binding''
               else if dget (ot_effects record) (oe_effect_id effect) \<noteq> None
               then projection_error ''duplicate Outbox effect''
               else if list_ex delivery_active (dvals (ot_effects record))
               then projection_error ''Outbox already has an active delivery effect''
               else Inr (put_outbox st (je_aggregate_id ev) (put_effect record effect))))"

text \<open>\<open>record.effects.get(effect_id)\<close> raises for a value that cannot be hashed.\<close>

fun hashable :: "pyval \<Rightarrow> bool" where
  "hashable (PList xs) = False"
| "hashable (PDict d) = False"
| "hashable (PSet ss) = False"
| "hashable (PProxy d) = False"
| "hashable (PTuple xs) = list_all hashable xs"
| "hashable _ = True"

definition effect_named :: "outbox_record \<Rightarrow> pyval \<Rightarrow> outbox_exn + outbox_delivery_effect option" where
  "effect_named r v =
     (if \<not> hashable v then Inl OutboxTypeError
      else Inr (case v of PStr s \<Rightarrow> dget (ot_effects r) s | _ \<Rightarrow> None))"

definition reduce_effect_executing :: "outbox_state \<Rightarrow> journal_event \<Rightarrow> outbox_exn + outbox_state" where
  "reduce_effect_executing st ev =
     (if \<not> exact_keys (je_payload ev) [''effect_id''] then projection_error ''invalid Outbox effect executing payload''
      else case dget (ox_by_outbox_id st) (je_aggregate_id ev) of
        None \<Rightarrow> projection_error ''Outbox effect references unknown record''
      | Some record \<Rightarrow>
          bindE (effect_named record (field_of (je_payload ev) ''effect_id'')) (\<lambda>found.
            case found of
              None \<Rightarrow> projection_error ''Outbox effect cannot enter EXECUTING''
            | Some effect \<Rightarrow>
                if oe_state effect \<noteq> DS_PREPARED then projection_error ''Outbox effect cannot enter EXECUTING''
                else Inr (put_outbox st (je_aggregate_id ev) (put_effect record (effect\<lparr>oe_state := DS_EXECUTING\<rparr>)))))"

definition binding_accepted ::
  "outbox_record \<Rightarrow> outbox_delivery_effect \<Rightarrow> employee_outbox_binding \<Rightarrow> outbox_exn + unit" where
  "binding_accepted record effect b =
     (if ob_outbox_id b \<noteq> ot_outbox_id record \<or> ob_bound_snapshot_version b \<noteq> oe_snapshot_version effect
      then projection_error ''Outbox delivery binding mismatch''
      else case (oe_kind effect, ot_binding record) of
        (DK_CREATE, Some _) \<Rightarrow> projection_error ''Outbox create already has a binding''
      | (DK_CREATE, None) \<Rightarrow> Inr ()
      | (DK_PATCH, None) \<Rightarrow> projection_error ''Outbox patch has no binding''
      | (DK_PATCH, Some current) \<Rightarrow>
          if ob_app_id b \<noteq> ob_app_id current \<or> ob_message_id b \<noteq> ob_message_id current \<or>
             ob_stable_uuid b \<noteq> ob_stable_uuid current \<or>
             ob_bound_snapshot_version b \<le> ob_bound_snapshot_version current
          then projection_error ''Outbox patch changed stable binding''
          else Inr ())"

definition reduce_delivery_committed :: "outbox_env \<Rightarrow> outbox_state \<Rightarrow> journal_event \<Rightarrow> outbox_exn + outbox_state" where
  "reduce_delivery_committed env st ev =
     (if \<not> exact_keys (je_payload ev) [''effect_id'', ''binding'']
      then projection_error ''invalid Outbox delivery committed payload''
      else case dget (ox_by_outbox_id st) (je_aggregate_id ev) of
        None \<Rightarrow> projection_error ''Outbox delivery references unknown record''
      | Some record \<Rightarrow>
          bindE (effect_named record (field_of (je_payload ev) ''effect_id'')) (\<lambda>found.
            case found of
              None \<Rightarrow> projection_error ''Outbox delivery effect is not EXECUTING''
            | Some effect \<Rightarrow>
                if oe_state effect \<noteq> DS_EXECUTING then projection_error ''Outbox delivery effect is not EXECUTING''
                else (case binding_from_dict env (field_of (je_payload ev) ''binding'') of
                    Inl _ \<Rightarrow> projection_error ''invalid Outbox delivery binding''
                  | Inr b \<Rightarrow>
                      bindE (binding_accepted record effect b) (\<lambda>_.
                      Inr (put_outbox st (je_aggregate_id ev)
                        ((put_effect record (effect\<lparr>oe_state := DS_COMMITTED\<rparr>))\<lparr>ot_binding := Some b\<rparr>))))))"

definition reduce_outbox_event :: "outbox_env \<Rightarrow> outbox_state \<Rightarrow> journal_event \<Rightarrow> outbox_exn + outbox_state" where
  "reduce_outbox_event env st ev =
     (if je_event_type ev = ''employee.outbox.snapshot_appended'' then reduce_snapshot_appended env st ev
      else if je_event_type ev = ''employee.outbox.snapshot_tombstoned'' then reduce_snapshot_tombstoned st ev
      else if je_event_type ev = ''employee.outbox.effect_prepared'' then reduce_effect_prepared env st ev
      else if je_event_type ev = ''employee.outbox.effect_executing'' then reduce_effect_executing st ev
      else if je_event_type ev = ''employee.outbox.delivery_committed'' then reduce_delivery_committed env st ev
      else projection_error (''unknown Outbox event: '' @ je_event_type ev))"

section \<open>The life of one outbox\<close>

text \<open>
  What may happen to an outbox, as a step relation on its record. The reducers refine it: an accepted event
  is one step of the outbox it names and leaves every other outbox alone.
\<close>

inductive outbox_step :: "outbox_env \<Rightarrow> string \<Rightarrow> outbox_record option \<Rightarrow> outbox_record \<Rightarrow> bool"
  for env :: outbox_env and i :: string where
  opened: "\<lbrakk>ot_outbox_id r = i; so_version m = 1; so_state m = CARD_QUEUED; ot_snapshots r = [(1, m)]; ot_latest_version r = 1;
      card_terminal (so_state m) = (so_terminal_version m = so_version m); ot_tombstoned_versions r = []; ot_binding r = None;
      ot_effects r = []\<rbrakk> \<Longrightarrow> outbox_step env i None r"
| appended: "\<lbrakk>dget (ot_snapshots r) (ot_latest_version r) = Some l; so_version m = ot_latest_version r + 1;
      \<not> card_terminal (so_state l); so_state m \<in> set (allowed_card_states (so_state l));
      so_progress_percent l \<le> so_progress_percent m; so_created_at m = so_created_at l;
      card_terminal (so_state m) = (so_terminal_version m = so_version m)\<rbrakk> \<Longrightarrow>
    outbox_step env i (Some r) (r\<lparr>ot_snapshots := dset (ot_snapshots r) (so_version m) m, ot_latest_version := so_version m\<rparr>)"
| tombstoned: "\<lbrakk>dget (ot_snapshots r) v \<noteq> None; v \<noteq> ot_latest_version r; dget (ot_snapshots r) (ot_latest_version r) = Some l;
      card_terminal (so_state l); v \<notin> set (ot_tombstoned_versions r)\<rbrakk> \<Longrightarrow>
    outbox_step env i (Some r) (r\<lparr>ot_tombstoned_versions := ot_tombstoned_versions r @ [v]\<rparr>)"
| prepared: "\<lbrakk>delivery_ok env e; oe_outbox_id e = ot_outbox_id r; oe_state e = DS_PREPARED; dget (ot_snapshots r) (oe_snapshot_version e) \<noteq> None;
      oe_kind e = delivery_kind_for r; dget (ot_effects r) (oe_effect_id e) = None;
      \<not> list_ex delivery_active (dvals (ot_effects r))\<rbrakk> \<Longrightarrow>
    outbox_step env i (Some r) (put_effect r e)"
| executing: "\<lbrakk>dget (ot_effects r) k = Some e; oe_state e = DS_PREPARED\<rbrakk> \<Longrightarrow>
    outbox_step env i (Some r) (put_effect r (e\<lparr>oe_state := DS_EXECUTING\<rparr>))"
| committed: "\<lbrakk>dget (ot_effects r) k = Some e; oe_state e = DS_EXECUTING; binding_ok env b; binding_accepted r e b = Inr ()\<rbrakk> \<Longrightarrow>
    outbox_step env i (Some r) ((put_effect r (e\<lparr>oe_state := DS_COMMITTED\<rparr>))\<lparr>ot_binding := Some b\<rparr>)"

lemma latest_Inr [simp]: "latest r = Inr l \<longleftrightarrow> dget (ot_snapshots r) (ot_latest_version r) = Some l"
  by (simp add: latest_def split: option.split)

lemma effect_named_Inr:
  "effect_named r v = Inr (Some e) \<Longrightarrow> \<exists>k. v = PStr k \<and> dget (ot_effects r) k = Some e"
  by (cases v) (auto simp: effect_named_def split: if_splits)

lemma delivery_from_dict_ok: "delivery_from_dict env v = Inr e \<Longrightarrow> delivery_ok env e"
  and binding_from_dict_ok: "binding_from_dict env v = Inr b \<Longrightarrow> binding_ok env b"
  by (auto simp: delivery_from_dict_def delivery_ok_def binding_from_dict_def binding_ok_def elim: bindE_InrE)

lemma snapshot_metadata_Inr:
  assumes "snapshot_metadata env ev = Inr (i, chat, thread, m)"
  shows "je_aggregate_id ev = i" "card_terminal (so_state m) = (so_terminal_version m = so_version m)"
  using assms unfolding snapshot_metadata_def Let_def by (auto elim!: bindE_InrE)

lemma reduce_snapshot_appended_step:
  assumes "reduce_snapshot_appended env st ev = Inr st'"
  shows "\<exists>r. st' = put_outbox st (je_aggregate_id ev) r \<and> outbox_step env (je_aggregate_id ev) (dget (ox_by_outbox_id st) (je_aggregate_id ev)) r"
proof -
  from assms obtain chat thread m where md: "snapshot_metadata env ev = Inr (je_aggregate_id ev, chat, thread, m)"
    by (auto simp: reduce_snapshot_appended_def Let_def split: if_splits sum.splits dest: snapshot_metadata_Inr(1))
  note t = snapshot_metadata_Inr(2) [OF md]
  show ?thesis
  proof (cases "dget (ox_by_outbox_id st) (je_aggregate_id ev)")
    case None
    with assms md t show ?thesis
      by (auto simp: reduce_snapshot_appended_def Let_def split: if_splits intro!: outbox_step.opened exI)
  next
    case (Some r)
    with assms md obtain l where "latest r = Inr l" "so_version m = ot_latest_version r + 1" "\<not> card_terminal (so_state l)"
      "so_state m \<in> set (allowed_card_states (so_state l))" "so_progress_percent l \<le> so_progress_percent m" "so_created_at m = so_created_at l"
      "st' = put_outbox st (je_aggregate_id ev) (r\<lparr>ot_snapshots := dset (ot_snapshots r) (so_version m) m, ot_latest_version := so_version m\<rparr>)"
      by (auto simp: reduce_snapshot_appended_def Let_def not_less split: if_splits elim!: bindE_InrE)
    with Some t outbox_step.appended [of r l m env "je_aggregate_id ev"] show ?thesis by simp blast
  qed
qed

lemma reduce_snapshot_tombstoned_step:
  assumes "reduce_snapshot_tombstoned st ev = Inr st'"
  shows "\<exists>r. st' = put_outbox st (je_aggregate_id ev) r \<and> outbox_step env (je_aggregate_id ev) (dget (ox_by_outbox_id st) (je_aggregate_id ev)) r"
proof -
  from assms obtain r v where r: "dget (ox_by_outbox_id st) (je_aggregate_id ev) = Some r" "field_of (je_payload ev) ''version'' = PInt v"
    by (auto simp: reduce_snapshot_tombstoned_def split: if_splits option.splits pyval.splits)
  with assms have "dget (ot_snapshots r) v \<noteq> None" "v \<noteq> ot_latest_version r" "v \<notin> set (ot_tombstoned_versions r)"
    "\<exists>l. latest r = Inr l \<and> card_terminal (so_state l)"
    "st' = put_outbox st (je_aggregate_id ev) (r\<lparr>ot_tombstoned_versions := ot_tombstoned_versions r @ [v]\<rparr>)"
    by (simp_all add: reduce_snapshot_tombstoned_def split: if_splits) (auto split: if_splits elim!: bindE_InrE)
  with r show ?thesis by (auto intro: outbox_step.tombstoned)
qed

lemma reduce_effect_prepared_step:
  assumes "reduce_effect_prepared env st ev = Inr st'"
  shows "\<exists>r. st' = put_outbox st (je_aggregate_id ev) r \<and> outbox_step env (je_aggregate_id ev) (dget (ox_by_outbox_id st) (je_aggregate_id ev)) r"
proof -
  from assms obtain r e where r: "dget (ox_by_outbox_id st) (je_aggregate_id ev) = Some r" "delivery_from_dict env (field_of (je_payload ev) ''effect'') = Inr e"
    by (auto simp: reduce_effect_prepared_def split: if_splits option.splits sum.splits)
  with assms have "oe_outbox_id e = ot_outbox_id r" "oe_state e = DS_PREPARED" "dget (ot_snapshots r) (oe_snapshot_version e) \<noteq> None"
    "oe_kind e = delivery_kind_for r" "dget (ot_effects r) (oe_effect_id e) = None" "\<not> list_ex delivery_active (dvals (ot_effects r))"
    "st' = put_outbox st (je_aggregate_id ev) (put_effect r e)"
    by (simp_all add: reduce_effect_prepared_def split: if_splits)
  with r delivery_from_dict_ok [OF r(2)] outbox_step.prepared [of env e r] show ?thesis by auto
qed

lemma reduce_effect_executing_step:
  assumes "reduce_effect_executing st ev = Inr st'"
  shows "\<exists>r. st' = put_outbox st (je_aggregate_id ev) r \<and> outbox_step env (je_aggregate_id ev) (dget (ox_by_outbox_id st) (je_aggregate_id ev)) r"
proof -
  from assms obtain r e where r: "dget (ox_by_outbox_id st) (je_aggregate_id ev) = Some r"
      "effect_named r (field_of (je_payload ev) ''effect_id'') = Inr (Some e)"
    by (auto simp: reduce_effect_executing_def split: if_splits option.splits elim!: bindE_InrE)
  with assms have "oe_state e = DS_PREPARED" "st' = put_outbox st (je_aggregate_id ev) (put_effect r (e\<lparr>oe_state := DS_EXECUTING\<rparr>))"
    by (simp_all add: reduce_effect_executing_def split: if_splits)
  with r(1) effect_named_Inr [OF r(2)] show ?thesis by (auto intro: outbox_step.executing)
qed

lemma reduce_delivery_committed_step:
  assumes "reduce_delivery_committed env st ev = Inr st'"
  shows "\<exists>r. st' = put_outbox st (je_aggregate_id ev) r \<and> outbox_step env (je_aggregate_id ev) (dget (ox_by_outbox_id st) (je_aggregate_id ev)) r"
proof -
  from assms obtain r e where r: "dget (ox_by_outbox_id st) (je_aggregate_id ev) = Some r"
      "effect_named r (field_of (je_payload ev) ''effect_id'') = Inr (Some e)" "oe_state e = DS_EXECUTING"
    by (auto simp: reduce_delivery_committed_def split: if_splits option.splits elim!: bindE_InrE)
  with assms obtain b where b: "binding_from_dict env (field_of (je_payload ev) ''binding'') = Inr b" "binding_accepted r e b = Inr ()"
    "st' = put_outbox st (je_aggregate_id ev) ((put_effect r (e\<lparr>oe_state := DS_COMMITTED\<rparr>))\<lparr>ot_binding := Some b\<rparr>)"
    by (auto simp: reduce_delivery_committed_def split: if_splits sum.splits elim!: bindE_InrE)
  from effect_named_Inr [OF r(2)] obtain k where "dget (ot_effects r) k = Some e" by blast
  from outbox_step.committed [OF this r(3) binding_from_dict_ok [OF b(1)] b(2)] r(1) b(3) show ?thesis by auto
qed

lemma reduce_outbox_event_step:
  assumes "reduce_outbox_event env st ev = Inr st'"
  shows "\<exists>r. st' = put_outbox st (je_aggregate_id ev) r \<and> outbox_step env (je_aggregate_id ev) (dget (ox_by_outbox_id st) (je_aggregate_id ev)) r"
  using assms unfolding reduce_outbox_event_def
  by (simp split: if_splits add: reduce_snapshot_appended_step reduce_snapshot_tombstoned_step reduce_effect_prepared_step
      reduce_effect_executing_step reduce_delivery_committed_step)

section \<open>The invariant of an outbox\<close>

text \<open>
  The cards form a history: versions are contiguous from one, each card follows from the one before it, and nothing
  follows a terminal card. At most one delivery is under way, of the kind the binding calls for; at most one delivery
  ever created a message; and the binding names the newest version that was delivered.
\<close>

definition card_follows :: "outbox_snapshot_record \<Rightarrow> outbox_snapshot_record \<Rightarrow> bool" where
  "card_follows m m' \<longleftrightarrow> \<not> card_terminal (so_state m) \<and> so_state m' \<in> set (allowed_card_states (so_state m)) \<and>
     so_progress_percent m \<le> so_progress_percent m' \<and> so_created_at m' = so_created_at m"

definition card_version :: "int \<Rightarrow> outbox_snapshot_record \<Rightarrow> bool" where
  "card_version v m \<longleftrightarrow> so_version m = v \<and> card_terminal (so_state m) = (so_terminal_version m = v)"

definition cards_ok :: "outbox_record \<Rightarrow> bool" where
  "cards_ok r \<longleftrightarrow> 1 \<le> ot_latest_version r \<and>
     (\<forall>v. v \<in> dom (map_of (ot_snapshots r)) \<longleftrightarrow> 1 \<le> v \<and> v \<le> ot_latest_version r) \<and>
     (\<forall>v m. dget (ot_snapshots r) v = Some m \<longrightarrow> card_version v m) \<and>
     (\<forall>v m m'. dget (ot_snapshots r) v = Some m \<longrightarrow> dget (ot_snapshots r) (v + 1) = Some m' \<longrightarrow> card_follows m m')"

definition deliveries_ok :: "outbox_record \<Rightarrow> bool" where
  "deliveries_ok r \<longleftrightarrow> dict_ok (ot_effects r) \<and>
     (\<forall>k e. dget (ot_effects r) k = Some e \<longrightarrow> oe_effect_id e = k \<and> oe_outbox_id e = ot_outbox_id r \<and>
        oe_snapshot_version e \<in> dom (map_of (ot_snapshots r))) \<and>
     (\<forall>k k' e e'. dget (ot_effects r) k = Some e \<and> dget (ot_effects r) k' = Some e' \<and> delivery_active e \<and> delivery_active e' \<longrightarrow> k = k') \<and>
     (\<forall>k e. dget (ot_effects r) k = Some e \<and> delivery_active e \<longrightarrow> oe_kind e = delivery_kind_for r) \<and>
     (\<forall>k k' e e'. dget (ot_effects r) k = Some e \<and> dget (ot_effects r) k' = Some e' \<and> oe_state e = DS_COMMITTED \<and>
        oe_state e' = DS_COMMITTED \<and> oe_kind e = DK_CREATE \<and> oe_kind e' = DK_CREATE \<longrightarrow> k = k')"

definition binding_follows :: "outbox_record \<Rightarrow> bool" where
  "binding_follows r \<longleftrightarrow>
     (\<forall>k e. dget (ot_effects r) k = Some e \<and> oe_state e = DS_COMMITTED \<longrightarrow>
        (\<exists>b. ot_binding r = Some b \<and> oe_snapshot_version e \<le> ob_bound_snapshot_version b)) \<and>
     (\<forall>b. ot_binding r = Some b \<longrightarrow> ob_outbox_id b = ot_outbox_id r \<and>
        (\<exists>k e. dget (ot_effects r) k = Some e \<and> oe_state e = DS_COMMITTED \<and> oe_snapshot_version e = ob_bound_snapshot_version b))"

definition outbox_record_ok :: "string \<Rightarrow> outbox_record \<Rightarrow> bool" where
  "outbox_record_ok i r \<longleftrightarrow> ot_outbox_id r = i \<and> cards_ok r \<and> deliveries_ok r \<and> binding_follows r"

definition outbox_inv :: "outbox_state \<Rightarrow> bool" where
  "outbox_inv st \<longleftrightarrow> dict_ok (ox_by_outbox_id st) \<and> (\<forall>i r. dget (ox_by_outbox_id st) i = Some r \<longrightarrow> outbox_record_ok i r)"

section \<open>What an outbox keeps\<close>

definition terminal_outbox :: "outbox_record \<Rightarrow> bool" where
  "terminal_outbox r \<longleftrightarrow> (\<exists>m. dget (ot_snapshots r) (ot_latest_version r) = Some m \<and> card_terminal (so_state m))"

definition same_message :: "employee_outbox_binding \<Rightarrow> employee_outbox_binding \<Rightarrow> bool" where
  "same_message b b' \<longleftrightarrow> ob_app_id b' = ob_app_id b \<and> ob_message_id b' = ob_message_id b \<and>
     ob_stable_uuid b' = ob_stable_uuid b \<and> ob_bound_snapshot_version b \<le> ob_bound_snapshot_version b'"

definition outbox_coordinates :: "outbox_record \<Rightarrow> string list" where
  "outbox_coordinates r = [ot_outbox_id r, ot_tenant_key r, ot_agent_id r, ot_attempt_id r, ot_chat_id r, ot_thread_root_message_id r]"

definition outbox_record_kept :: "outbox_record \<Rightarrow> outbox_record \<Rightarrow> bool" where
  "outbox_record_kept r r' \<longleftrightarrow> outbox_coordinates r' = outbox_coordinates r \<and> ot_latest_version r \<le> ot_latest_version r' \<and>
     (\<forall>v m. dget (ot_snapshots r) v = Some m \<longrightarrow> dget (ot_snapshots r') v = Some m) \<and>
     (terminal_outbox r \<longrightarrow> ot_latest_version r' = ot_latest_version r) \<and>
     set (ot_tombstoned_versions r) \<subseteq> set (ot_tombstoned_versions r') \<and>
     (\<forall>b. ot_binding r = Some b \<longrightarrow> (\<exists>b'. ot_binding r' = Some b' \<and> same_message b b')) \<and>
     (\<forall>k e. dget (ot_effects r) k = Some e \<longrightarrow>
        (\<exists>s. dget (ot_effects r') k = Some (e\<lparr>oe_state := s\<rparr>) \<and> (oe_state e = DS_COMMITTED \<longrightarrow> s = DS_COMMITTED)))"

definition outbox_kept :: "outbox_state \<Rightarrow> outbox_state \<Rightarrow> bool" where
  "outbox_kept st st' \<longleftrightarrow> (\<forall>i r. dget (ox_by_outbox_id st) i = Some r \<longrightarrow>
     (\<exists>r'. dget (ox_by_outbox_id st') i = Some r' \<and> outbox_record_kept r r'))"

lemma record_kept_refl: "outbox_record_kept r r"
proof -
  have "\<exists>s. e = e\<lparr>oe_state := s\<rparr> \<and> (oe_state e = DS_COMMITTED \<longrightarrow> s = DS_COMMITTED)" for e :: outbox_delivery_effect
    by (rule exI [of _ "oe_state e"]) simp
  then show ?thesis by (simp add: outbox_record_kept_def same_message_def)
qed

lemma record_keptD:
  assumes "outbox_record_kept r r'"
  shows "outbox_coordinates r' = outbox_coordinates r" "ot_latest_version r \<le> ot_latest_version r'"
    "dget (ot_snapshots r) v = Some m \<Longrightarrow> dget (ot_snapshots r') v = Some m"
    "terminal_outbox r \<Longrightarrow> ot_latest_version r' = ot_latest_version r"
    "set (ot_tombstoned_versions r) \<subseteq> set (ot_tombstoned_versions r')"
    "ot_binding r = Some b \<Longrightarrow> \<exists>b'. ot_binding r' = Some b' \<and> same_message b b'"
    "dget (ot_effects r) k = Some e \<Longrightarrow>
      \<exists>s. dget (ot_effects r') k = Some (e\<lparr>oe_state := s\<rparr>) \<and> (oe_state e = DS_COMMITTED \<longrightarrow> s = DS_COMMITTED)"
  using assms by (simp_all add: outbox_record_kept_def)

lemma record_keptI:
  assumes "outbox_coordinates r' = outbox_coordinates r" "ot_latest_version r \<le> ot_latest_version r'"
    "\<And>v m. dget (ot_snapshots r) v = Some m \<Longrightarrow> dget (ot_snapshots r') v = Some m"
    "terminal_outbox r \<Longrightarrow> ot_latest_version r' = ot_latest_version r"
    "set (ot_tombstoned_versions r) \<subseteq> set (ot_tombstoned_versions r')"
    "\<And>b. ot_binding r = Some b \<Longrightarrow> \<exists>b'. ot_binding r' = Some b' \<and> same_message b b'"
    "\<And>k e. dget (ot_effects r) k = Some e \<Longrightarrow>
      \<exists>s. dget (ot_effects r') k = Some (e\<lparr>oe_state := s\<rparr>) \<and> (oe_state e = DS_COMMITTED \<longrightarrow> s = DS_COMMITTED)"
  shows "outbox_record_kept r r'"
  using assms by (simp add: outbox_record_kept_def)

lemma same_message_trans: "same_message a b \<Longrightarrow> same_message b c \<Longrightarrow> same_message a c"
  by (simp add: same_message_def)

lemma terminal_kept: "outbox_record_kept r s \<Longrightarrow> terminal_outbox r \<Longrightarrow> terminal_outbox s"
  using record_keptD(3) record_keptD(4) by (metis terminal_outbox_def)

lemma record_kept_trans:
  assumes rs: "outbox_record_kept r s" and st: "outbox_record_kept s t"
  shows "outbox_record_kept r t"
proof (rule record_keptI)
  show "outbox_coordinates t = outbox_coordinates r" "ot_latest_version r \<le> ot_latest_version t"
    "set (ot_tombstoned_versions r) \<subseteq> set (ot_tombstoned_versions t)"
    using record_keptD(1,2,5) [OF rs] record_keptD(1,2,5) [OF st] by auto
  show "dget (ot_snapshots t) v = Some m" if "dget (ot_snapshots r) v = Some m" for v m
    using record_keptD(3) [OF st record_keptD(3) [OF rs that]] .
  show "ot_latest_version t = ot_latest_version r" if "terminal_outbox r"
    using record_keptD(4) [OF rs that] record_keptD(4) [OF st terminal_kept [OF rs that]] by simp
  show "\<exists>b'. ot_binding t = Some b' \<and> same_message b b'" if "ot_binding r = Some b" for b
    using record_keptD(6) [OF rs that] record_keptD(6) [OF st] same_message_trans by blast
  show "\<exists>u. dget (ot_effects t) k = Some (e\<lparr>oe_state := u\<rparr>) \<and> (oe_state e = DS_COMMITTED \<longrightarrow> u = DS_COMMITTED)"
    if k: "dget (ot_effects r) k = Some e" for k e
  proof -
    obtain u where u: "dget (ot_effects s) k = Some (e\<lparr>oe_state := u\<rparr>)" "oe_state e = DS_COMMITTED \<longrightarrow> u = DS_COMMITTED"
      using record_keptD(7) [OF rs k] by blast
    from record_keptD(7) [OF st u(1)] u(2) show ?thesis by auto
  qed
qed

lemma binding_acceptedD:
  assumes "binding_accepted r e b = Inr ()"
  shows "ob_outbox_id b = ot_outbox_id r" and "ob_bound_snapshot_version b = oe_snapshot_version e"
    and "ot_binding r = Some c \<Longrightarrow> oe_kind e = DK_PATCH \<and> same_message c b \<and> ob_bound_snapshot_version c < ob_bound_snapshot_version b"
    and "ot_binding r = None \<Longrightarrow> oe_kind e = DK_CREATE"
  using assms
  by (auto simp: binding_accepted_def same_message_def split: if_splits delivery_effect_kind.splits option.splits)

lemma cards_okD:
  assumes "cards_ok r"
  shows "1 \<le> ot_latest_version r" "v \<in> dom (map_of (ot_snapshots r)) \<longleftrightarrow> 1 \<le> v \<and> v \<le> ot_latest_version r"
    "dget (ot_snapshots r) v = Some m \<Longrightarrow> card_version v m"
    "dget (ot_snapshots r) v = Some m \<Longrightarrow> dget (ot_snapshots r) (v + 1) = Some m' \<Longrightarrow> card_follows m m'"
  using assms unfolding cards_ok_def by blast+

lemma cards_okI:
  assumes "1 \<le> ot_latest_version r" "\<And>v. v \<in> dom (map_of (ot_snapshots r)) \<longleftrightarrow> 1 \<le> v \<and> v \<le> ot_latest_version r"
    "\<And>v m. dget (ot_snapshots r) v = Some m \<Longrightarrow> card_version v m"
    "\<And>v m m'. dget (ot_snapshots r) v = Some m \<Longrightarrow> dget (ot_snapshots r) (v + 1) = Some m' \<Longrightarrow> card_follows m m'"
  shows "cards_ok r"
  using assms unfolding cards_ok_def by blast

lemma cards_next: "cards_ok r \<Longrightarrow> dget (ot_snapshots r) (ot_latest_version r + 1) = None"
  using cards_okD(2) [of r "ot_latest_version r + 1"] by (simp add: domIff)

lemma effect_state_kept: "\<exists>s. e = e\<lparr>oe_state := s\<rparr> \<and> (oe_state e = DS_COMMITTED \<longrightarrow> s = DS_COMMITTED)"
  for e :: outbox_delivery_effect
  by (rule exI [of _ "oe_state e"]) simp

lemma effect_id_key: "outbox_record_ok i r \<Longrightarrow> dget (ot_effects r) k = Some e \<Longrightarrow> oe_effect_id e = k"
  unfolding outbox_record_ok_def deliveries_ok_def by blast

lemma put_effect_kept:
  assumes "outbox_record_ok i r" and "dget (ot_effects r) k = Some e" and "oe_state e \<noteq> DS_COMMITTED"
    and "\<And>b. ot_binding r = Some b \<Longrightarrow> \<exists>b'. c = Some b' \<and> same_message b b'"
  shows "outbox_record_kept r ((put_effect r (e\<lparr>oe_state := s\<rparr>))\<lparr>ot_binding := c\<rparr>)"
proof (rule record_keptI)
  have k: "oe_effect_id e = k" by (rule effect_id_key [OF assms(1,2)])
  fix k' e' assume k': "dget (ot_effects r) k' = Some e'"
  show "\<exists>s'. dget (ot_effects ((put_effect r (e\<lparr>oe_state := s\<rparr>))\<lparr>ot_binding := c\<rparr>)) k' = Some (e'\<lparr>oe_state := s'\<rparr>) \<and>
      (oe_state e' = DS_COMMITTED \<longrightarrow> s' = DS_COMMITTED)"
  proof (cases "k' = k")
    case True
    with k k' assms(2,3) show ?thesis by (intro exI [of _ s]) (simp add: put_effect_def)
  next
    case False
    with k k' show ?thesis by (simp add: put_effect_def effect_state_kept)
  qed
next
  fix b assume "ot_binding r = Some b"
  from assms(4) [OF this] show "\<exists>b'. ot_binding ((put_effect r (e\<lparr>oe_state := s\<rparr>))\<lparr>ot_binding := c\<rparr>) = Some b' \<and> same_message b b'"
    by simp
qed (simp_all add: outbox_coordinates_def put_effect_def)

lemma step_kept:
  assumes "outbox_step env i (Some r) r'" and ok: "outbox_record_ok i r"
  shows "outbox_record_kept r r'"
  using assms(1)
proof cases
  case (appended l m)
  have "dget (ot_snapshots r) (ot_latest_version r + 1) = None" using ok by (simp add: outbox_record_ok_def cards_next)
  with appended show ?thesis
    by (intro record_keptI) (auto simp: outbox_coordinates_def terminal_outbox_def same_message_def effect_state_kept)
next
  case (tombstoned v l)
  then show ?thesis
    by (intro record_keptI) (auto simp: outbox_coordinates_def terminal_outbox_def same_message_def effect_state_kept)
next
  case (prepared e)
  then show ?thesis
    by (intro record_keptI) (auto simp: outbox_coordinates_def terminal_outbox_def same_message_def effect_state_kept put_effect_def)
next
  case (executing k e)
  have "(put_effect r (e\<lparr>oe_state := DS_EXECUTING\<rparr>))\<lparr>ot_binding := ot_binding r\<rparr> = put_effect r (e\<lparr>oe_state := DS_EXECUTING\<rparr>)"
    by (simp add: put_effect_def)
  with put_effect_kept [OF ok executing(2), of "ot_binding r" DS_EXECUTING] executing show ?thesis by (simp add: same_message_def)
next
  case (committed k e b)
  then show ?thesis using put_effect_kept [OF ok committed(2), of "Some b"] binding_acceptedD(3) [OF committed(5)] by simp
qed

section \<open>The invariant is kept\<close>

lemma cards_appended:
  assumes ok: "cards_ok r" and l: "dget (ot_snapshots r) (ot_latest_version r) = Some l" and v: "so_version m = ot_latest_version r + 1"
    and step: "card_follows l m" and t: "card_terminal (so_state m) = (so_terminal_version m = so_version m)"
  shows "cards_ok (r\<lparr>ot_snapshots := dset (ot_snapshots r) (so_version m) m, ot_latest_version := so_version m\<rparr>)"
proof (rule cards_okI, goal_cases)
  case 1
  then show ?case using cards_okD(1) [OF ok] v by simp
next
  case (2 w)
  then show ?case using cards_okD(2) [OF ok, of w] cards_okD(1) [OF ok] v by (auto simp: domIff)
next
  case (3 w x)
  then show ?case using cards_okD(3) [OF ok, of w x] t by (auto simp: card_version_def split: if_splits)
next
  case (4 w x x')
  have "dget (ot_snapshots r) (so_version m + 1) = None"
    using cards_okD(2) [OF ok, of "so_version m + 1"] v by (simp add: domIff)
  with 4 v have w: "w \<noteq> so_version m" by auto
  show ?case
  proof (cases "w = ot_latest_version r")
    case True
    with 4 l v step show ?thesis by simp
  next
    case False
    with 4 w v cards_okD(4) [OF ok, of w x x'] show ?thesis by simp
  qed
qed

lemma deliveries_okD:
  assumes "deliveries_ok r"
  shows "dict_ok (ot_effects r)"
    and "dget (ot_effects r) k = Some e \<Longrightarrow> oe_effect_id e = k \<and> oe_outbox_id e = ot_outbox_id r \<and> oe_snapshot_version e \<in> dom (map_of (ot_snapshots r))"
    and "dget (ot_effects r) k = Some e \<Longrightarrow> dget (ot_effects r) k' = Some e' \<Longrightarrow> delivery_active e \<Longrightarrow> delivery_active e' \<Longrightarrow> k = k'"
    and "dget (ot_effects r) k = Some e \<Longrightarrow> delivery_active e \<Longrightarrow> oe_kind e = delivery_kind_for r"
    and "dget (ot_effects r) k = Some e \<Longrightarrow> dget (ot_effects r) k' = Some e' \<Longrightarrow> oe_state e = DS_COMMITTED \<Longrightarrow>
        oe_state e' = DS_COMMITTED \<Longrightarrow> oe_kind e = DK_CREATE \<Longrightarrow> oe_kind e' = DK_CREATE \<Longrightarrow> k = k'"
  using assms unfolding deliveries_ok_def by blast+

lemma deliveries_okI:
  assumes "dict_ok (ot_effects r)"
    and "\<And>k e. dget (ot_effects r) k = Some e \<Longrightarrow> oe_effect_id e = k \<and> oe_outbox_id e = ot_outbox_id r \<and> oe_snapshot_version e \<in> dom (map_of (ot_snapshots r))"
    and "\<And>k k' e e'. dget (ot_effects r) k = Some e \<Longrightarrow> dget (ot_effects r) k' = Some e' \<Longrightarrow> delivery_active e \<Longrightarrow> delivery_active e' \<Longrightarrow> k = k'"
    and "\<And>k e. dget (ot_effects r) k = Some e \<Longrightarrow> delivery_active e \<Longrightarrow> oe_kind e = delivery_kind_for r"
    and "\<And>k k' e e'. dget (ot_effects r) k = Some e \<Longrightarrow> dget (ot_effects r) k' = Some e' \<Longrightarrow> oe_state e = DS_COMMITTED \<Longrightarrow>
        oe_state e' = DS_COMMITTED \<Longrightarrow> oe_kind e = DK_CREATE \<Longrightarrow> oe_kind e' = DK_CREATE \<Longrightarrow> k = k'"
  shows "deliveries_ok r"
  unfolding deliveries_ok_def by (intro conjI allI impI; (elim conjE)?) (fact assms(1), simp_all only: assms(2), (rule assms; assumption)+)

lemma record_ok_cong:
  assumes "outbox_record_ok i r" and "ot_outbox_id r' = ot_outbox_id r" and "ot_effects r' = ot_effects r" and "ot_binding r' = ot_binding r"
    and "cards_ok r'" and "dom (map_of (ot_snapshots r)) \<subseteq> dom (map_of (ot_snapshots r'))"
  shows "outbox_record_ok i r'"
proof -
  have ok: "deliveries_ok r" using assms(1) by (simp add: outbox_record_ok_def)
  have "delivery_kind_for r' = delivery_kind_for r" by (simp add: delivery_kind_for_def assms(4))
  with deliveries_okD [OF ok] assms(2,3,6) have "deliveries_ok r'" by (intro deliveries_okI) (simp_all, blast+)
  moreover have "binding_follows r'" using assms(1) unfolding outbox_record_ok_def binding_follows_def assms(2,3,4) by blast
  ultimately show ?thesis using assms(1,2,5) by (simp add: outbox_record_ok_def)
qed

lemma opened_ok:
  assumes "ot_outbox_id r = i" "so_version m = 1" "so_state m = CARD_QUEUED" "ot_snapshots r = [(1, m)]" "ot_latest_version r = 1"
    "card_terminal (so_state m) = (so_terminal_version m = so_version m)" "ot_binding r = None" "ot_effects r = []"
  shows "outbox_record_ok i r"
  using assms by (auto simp: outbox_record_ok_def cards_ok_def card_version_def deliveries_ok_def binding_follows_def)

text \<open>The three deliveries events put one effect while no other is active.\<close>

lemma put_effect_deliveries:
  assumes ok: "deliveries_ok r" and e: "oe_outbox_id e = ot_outbox_id r" "oe_snapshot_version e \<in> dom (map_of (ot_snapshots r))"
    and others: "\<And>k x. dget (ot_effects r) k = Some x \<Longrightarrow> k \<noteq> oe_effect_id e \<Longrightarrow> \<not> delivery_active x"
    and active: "delivery_active e \<Longrightarrow> oe_kind e = delivery_kind_for (r\<lparr>ot_binding := c\<rparr>)"
    and creates: "\<And>k x. oe_state e = DS_COMMITTED \<Longrightarrow> oe_kind e = DK_CREATE \<Longrightarrow> dget (ot_effects r) k = Some x \<Longrightarrow> oe_state x \<noteq> DS_COMMITTED"
  shows "deliveries_ok ((put_effect r e)\<lparr>ot_binding := c\<rparr>)"
proof (rule deliveries_okI, goal_cases)
  note D = deliveries_okD [OF ok]
  have [simp]: "ot_effects ((put_effect r e)\<lparr>ot_binding := c\<rparr>) = dset (ot_effects r) (oe_effect_id e) e"
    "delivery_kind_for ((put_effect r e)\<lparr>ot_binding := c\<rparr>) = delivery_kind_for (r\<lparr>ot_binding := c\<rparr>)"
    "ot_outbox_id (put_effect r e) = ot_outbox_id r" "ot_snapshots (put_effect r e) = ot_snapshots r"
    by (simp_all add: delivery_kind_for_def put_effect_def)
  {
    case 1
    show ?case using D(1) by simp
  next
    case (2 k x)
    then show ?case using e D(2) [of k x] by (simp split: if_splits)
  next
    case (3 k k' x x')
    then show ?case using others [of k x] others [of k' x'] by (simp split: if_splits)
  next
    case (4 k x)
    then show ?case using others [of k x] active by (simp split: if_splits)
  next
    case (5 k k' x x')
    then show ?case using creates [of k x] creates [of k' x'] D(5) [of k x k' x'] by (simp split: if_splits)
  }
qed

lemma binding_followsD:
  assumes "binding_follows r"
  shows "dget (ot_effects r) k = Some e \<Longrightarrow> oe_state e = DS_COMMITTED \<Longrightarrow> \<exists>b. ot_binding r = Some b \<and> oe_snapshot_version e \<le> ob_bound_snapshot_version b"
    and "ot_binding r = Some b \<Longrightarrow> ob_outbox_id b = ot_outbox_id r"
    and "ot_binding r = Some b \<Longrightarrow> \<exists>k e. dget (ot_effects r) k = Some e \<and> oe_state e = DS_COMMITTED \<and> oe_snapshot_version e = ob_bound_snapshot_version b"
  using assms unfolding binding_follows_def by blast+

lemma put_effect_binding_follows:
  assumes bf: "binding_follows r" and "oe_state e \<noteq> DS_COMMITTED"
    and new: "\<And>x. dget (ot_effects r) (oe_effect_id e) = Some x \<Longrightarrow> oe_state x \<noteq> DS_COMMITTED"
  shows "binding_follows (put_effect r e)"
  unfolding binding_follows_def
proof (intro conjI allI impI)
  fix k x assume "dget (ot_effects (put_effect r e)) k = Some x \<and> oe_state x = DS_COMMITTED"
  with assms(2) have "dget (ot_effects r) k = Some x" "oe_state x = DS_COMMITTED" by (auto simp: put_effect_def split: if_splits)
  from binding_followsD(1) [OF bf this]
  show "\<exists>b. ot_binding (put_effect r e) = Some b \<and> oe_snapshot_version x \<le> ob_bound_snapshot_version b" by (simp add: put_effect_def)
next
  fix b assume "ot_binding (put_effect r e) = Some b"
  then have b: "ot_binding r = Some b" by (simp add: put_effect_def)
  show "ob_outbox_id b = ot_outbox_id (put_effect r e)" using binding_followsD(2) [OF bf b] by (simp add: put_effect_def)
  from binding_followsD(3) [OF bf b] obtain k x where x: "dget (ot_effects r) k = Some x" "oe_state x = DS_COMMITTED"
    "oe_snapshot_version x = ob_bound_snapshot_version b" by blast
  with new [of x] have "k \<noteq> oe_effect_id e" by auto
  with x show "\<exists>k x. dget (ot_effects (put_effect r e)) k = Some x \<and> oe_state x = DS_COMMITTED \<and> oe_snapshot_version x = ob_bound_snapshot_version b"
    by (intro exI [of _ k] exI [of _ x]) (simp add: put_effect_def)
qed

lemma commit_binding_follows:
  assumes bf: "binding_follows r" and e: "dget (ot_effects r) (oe_effect_id e) = Some e" and acc: "binding_accepted r e b = Inr ()"
  shows "binding_follows ((put_effect r (e\<lparr>oe_state := DS_COMMITTED\<rparr>))\<lparr>ot_binding := Some b\<rparr>)"
  unfolding binding_follows_def
proof (intro conjI allI impI)
  note A = binding_acceptedD [OF acc]
  let ?r = "(put_effect r (e\<lparr>oe_state := DS_COMMITTED\<rparr>))\<lparr>ot_binding := Some b\<rparr>"
  show "ob_outbox_id b' = ot_outbox_id ?r" if "ot_binding ?r = Some b'" for b' using that A(1) by (simp add: put_effect_def)
  show "\<exists>k x. dget (ot_effects ?r) k = Some x \<and> oe_state x = DS_COMMITTED \<and> oe_snapshot_version x = ob_bound_snapshot_version b'"
    if "ot_binding ?r = Some b'" for b'
    using that A(2) by (intro exI [of _ "oe_effect_id e"] exI [of _ "e\<lparr>oe_state := DS_COMMITTED\<rparr>"]) (simp add: put_effect_def)
  fix k x assume x: "dget (ot_effects ?r) k = Some x \<and> oe_state x = DS_COMMITTED"
  have "oe_snapshot_version x \<le> ob_bound_snapshot_version b"
  proof (cases "k = oe_effect_id e")
    case True
    with x A(2) show ?thesis by (auto simp: put_effect_def)
  next
    case False
    with x have "dget (ot_effects r) k = Some x" "oe_state x = DS_COMMITTED" by (auto simp: put_effect_def)
    from binding_followsD(1) [OF bf this] obtain c where "ot_binding r = Some c" "oe_snapshot_version x \<le> ob_bound_snapshot_version c" by blast
    with A(3) [of c] show ?thesis by simp
  qed
  then show "\<exists>b. ot_binding ?r = Some b \<and> oe_snapshot_version x \<le> ob_bound_snapshot_version b" by simp
qed

lemma put_effect_same_binding: "put_effect r e = (put_effect r e)\<lparr>ot_binding := ot_binding r\<rparr>"
  by (simp add: put_effect_def)

lemma cards_put_effect [simp]: "cards_ok ((put_effect r e)\<lparr>ot_binding := c\<rparr>) = cards_ok r" "cards_ok (put_effect r e) = cards_ok r"
  by (simp_all add: cards_ok_def put_effect_def)

lemma prepared_ok:
  assumes ok: "outbox_record_ok i r" and e: "oe_outbox_id e = ot_outbox_id r" "oe_state e = DS_PREPARED"
    "dget (ot_snapshots r) (oe_snapshot_version e) \<noteq> None" "oe_kind e = delivery_kind_for r" "dget (ot_effects r) (oe_effect_id e) = None"
    "\<not> list_ex delivery_active (dvals (ot_effects r))"
  shows "outbox_record_ok i (put_effect r e)"
proof -
  have na: "\<not> delivery_active x" if "dget (ot_effects r) k = Some x" for k x
  proof -
    from that have "x \<in> set (dvals (ot_effects r))" by (force dest: map_of_SomeD)
    with e(6) show ?thesis by (auto simp: list_ex_iff)
  qed
  have "deliveries_ok ((put_effect r e)\<lparr>ot_binding := ot_binding r\<rparr>)"
    by (rule put_effect_deliveries) (use ok e na in \<open>auto simp: outbox_record_ok_def\<close>)
  moreover have "binding_follows (put_effect r e)"
    by (rule put_effect_binding_follows) (use ok e in \<open>auto simp: outbox_record_ok_def\<close>)
  ultimately show ?thesis using ok by (simp add: outbox_record_ok_def flip: put_effect_same_binding) (simp add: put_effect_def)
qed

lemma advanced_deliveries:
  assumes ok: "outbox_record_ok i r" and k: "dget (ot_effects r) k = Some e" and act: "delivery_active e"
    and active: "s \<in> {DS_PREPARED, DS_EXECUTING} \<Longrightarrow> oe_kind e = delivery_kind_for (r\<lparr>ot_binding := c\<rparr>)"
  shows "deliveries_ok ((put_effect r (e\<lparr>oe_state := s\<rparr>))\<lparr>ot_binding := c\<rparr>)"
proof (rule put_effect_deliveries)
  show dok: "deliveries_ok r" using ok by (simp add: outbox_record_ok_def)
  note D = deliveries_okD [OF dok]
  show "oe_outbox_id (e\<lparr>oe_state := s\<rparr>) = ot_outbox_id r" "oe_snapshot_version (e\<lparr>oe_state := s\<rparr>) \<in> dom (map_of (ot_snapshots r))"
    using D(2) [OF k] by simp_all
  show "\<not> delivery_active x" if "dget (ot_effects r) k' = Some x" "k' \<noteq> oe_effect_id (e\<lparr>oe_state := s\<rparr>)" for k' x
    using that D(2) [OF k] D(3) [OF that(1) k] act by auto
  show "oe_kind (e\<lparr>oe_state := s\<rparr>) = delivery_kind_for (r\<lparr>ot_binding := c\<rparr>)" if "delivery_active (e\<lparr>oe_state := s\<rparr>)"
    using that active by (simp add: delivery_active_def)
  show "oe_state x \<noteq> DS_COMMITTED" if "oe_state (e\<lparr>oe_state := s\<rparr>) = DS_COMMITTED" "oe_kind (e\<lparr>oe_state := s\<rparr>) = DK_CREATE"
    "dget (ot_effects r) k' = Some x" for k' x
  proof
    assume "oe_state x = DS_COMMITTED"
    with that(3) ok obtain b where "ot_binding r = Some b" by (auto simp: outbox_record_ok_def dest: binding_followsD(1))
    with that(2) D(4) [OF k act] show False by (simp add: delivery_kind_for_def)
  qed
qed

lemma step_ok:
  assumes "outbox_step env i old r'" and ok: "\<And>r. old = Some r \<Longrightarrow> outbox_record_ok i r"
  shows "outbox_record_ok i r'"
  using assms(1)
proof cases
  case (opened m)
  then show ?thesis by (intro opened_ok)
next
  case (appended r l m)
  from ok [OF appended(1)] have r: "outbox_record_ok i r" .
  have "cards_ok r'" unfolding appended(2)
    by (rule cards_appended) (use r appended in \<open>auto simp: outbox_record_ok_def card_follows_def\<close>)
  with appended(2) show ?thesis by (intro record_ok_cong [OF r]) (auto simp: domIff)
next
  case (tombstoned r v l)
  from ok [OF tombstoned(1)] have r: "outbox_record_ok i r" .
  then have "cards_ok r'" using tombstoned(2) by (simp add: outbox_record_ok_def cards_ok_def)
  with tombstoned(2) show ?thesis by (intro record_ok_cong [OF r]) auto
next
  case (prepared e r)
  from prepared_ok [OF ok [OF prepared(1)]] prepared show ?thesis by simp
next
  case (executing r k e)
  from ok [OF executing(1)] have r: "outbox_record_ok i r" .
  have act: "delivery_active e" using executing(4) by (simp add: delivery_active_def)
  have key: "oe_effect_id e = k" by (rule effect_id_key [OF r executing(3)])
  have "oe_kind e = delivery_kind_for r" using r act deliveries_okD(4) executing(3) by (auto simp: outbox_record_ok_def)
  then have "deliveries_ok ((put_effect r (e\<lparr>oe_state := DS_EXECUTING\<rparr>))\<lparr>ot_binding := ot_binding r\<rparr>)"
    by (intro advanced_deliveries [OF r executing(3) act]) simp
  then have "deliveries_ok r'" by (simp add: executing(2) flip: put_effect_same_binding)
  moreover have "binding_follows r'" unfolding executing(2)
    by (rule put_effect_binding_follows) (use r executing(3,4) key in \<open>auto simp: outbox_record_ok_def\<close>)
  ultimately show ?thesis using r executing(2) by (simp add: outbox_record_ok_def) (simp add: put_effect_def)
next
  case (committed r k e b)
  from ok [OF committed(1)] have r: "outbox_record_ok i r" .
  have act: "delivery_active e" using committed(4) by (simp add: delivery_active_def)
  have key: "oe_effect_id e = k" by (rule effect_id_key [OF r committed(3)])
  have "deliveries_ok r'" unfolding committed(2) by (rule advanced_deliveries [OF r committed(3) act]) simp
  moreover have "binding_follows r'" unfolding committed(2)
    by (rule commit_binding_follows) (use r committed key in \<open>auto simp: outbox_record_ok_def\<close>)
  ultimately show ?thesis using r committed(2) by (simp add: outbox_record_ok_def) (simp add: put_effect_def)
qed

interpretation outbox: event_sourced "reduce_outbox_event env" outbox_inv outbox_kept
proof
  fix st st' ev assume inv: "outbox_inv st" and r: "reduce_outbox_event env st ev = Inr st'"
  from reduce_outbox_event_step [OF r] obtain x where
    x: "st' = put_outbox st (je_aggregate_id ev) x" "outbox_step env (je_aggregate_id ev) (dget (ox_by_outbox_id st) (je_aggregate_id ev)) x" by blast
  from step_ok [OF x(2)] inv have "outbox_record_ok (je_aggregate_id ev) x" by (simp add: outbox_inv_def)
  with inv x(1) show "outbox_inv st'" by (simp add: outbox_inv_def put_outbox_def)
  have "outbox_record_kept y x" if "dget (ox_by_outbox_id st) (je_aggregate_id ev) = Some y" for y
    using x(2) that inv by (auto simp: outbox_inv_def intro!: step_kept)
  with x(1) show "outbox_kept st st'" by (auto simp: outbox_kept_def put_outbox_def intro: record_kept_refl)
next
  show "outbox_kept st st" for st by (auto simp: outbox_kept_def intro: record_kept_refl)
next
  show "outbox_kept st u" if "outbox_kept st t" "outbox_kept t u" for st t u
    using that record_kept_trans unfolding outbox_kept_def by meson
qed

lemma outbox_inv_init: "outbox_inv outbox_init"
  by (simp add: outbox_inv_def outbox_init_def)

section \<open>One message per outbox\<close>

lemma filter_vals_le_1:
  assumes "dict_ok d" and "\<And>k k' x x'. dget d k = Some x \<Longrightarrow> dget d k' = Some x' \<Longrightarrow> P x \<Longrightarrow> P x' \<Longrightarrow> k = k'"
  shows "length (filter P (dvals d)) \<le> 1"
  using assms
proof (induction d)
  case (Cons kv d)
  obtain k v where kv: "kv = (k, v)" by (cases kv)
  from Cons.prems(1) kv have d: "dict_ok d" "dget d k = None" by (auto simp: dict_ok_def map_of_eq_None_iff)
  have "k1 = k2" if "dget d k1 = Some x1" "dget d k2 = Some x2" "P x1" "P x2" for k1 k2 x1 x2
  proof -
    from that d(2) have "k1 \<noteq> k" "k2 \<noteq> k" by auto
    with that Cons.prems(2) [of k1 x1 k2 x2] kv show ?thesis by simp
  qed
  then have le: "length (filter P (dvals d)) \<le> 1" by (rule Cons.IH [OF d(1)])
  moreover have "filter P (dvals d) = []" if "P v"
  proof -
    have "\<not> P x" if "x \<in> set (dvals d)" for x
    proof
      assume "P x"
      from that obtain k' where "dget d k' = Some x" using set_dvals [OF d(1), of x] by blast
      moreover from this d(2) have "k' \<noteq> k" by auto
      ultimately show False using Cons.prems(2) [of k v k' x] \<open>P v\<close> \<open>P x\<close> kv by simp
    qed
    then show ?thesis by (simp add: filter_empty_conv)
  qed
  ultimately show ?case using kv by auto
qed simp

lemma record_ok_counts:
  assumes "outbox_record_ok i r"
  shows "length (filter delivery_active (dvals (ot_effects r))) \<le> 1"
    and "length (filter (\<lambda>e. oe_state e = DS_COMMITTED \<and> oe_kind e = DK_CREATE) (dvals (ot_effects r))) \<le> 1"
proof -
  have ok: "deliveries_ok r" using assms by (simp add: outbox_record_ok_def)
  note D = deliveries_okD [OF ok]
  show "length (filter delivery_active (dvals (ot_effects r))) \<le> 1"
    by (rule filter_vals_le_1 [OF D(1)]) (rule D(3))
  show "length (filter (\<lambda>e. oe_state e = DS_COMMITTED \<and> oe_kind e = DK_CREATE) (dvals (ot_effects r))) \<le> 1"
    by (rule filter_vals_le_1 [OF D(1)]) (auto intro: D(5))
qed

text \<open>
  C6. An outbox shows one message for ever. Whatever history the projection accepted, at most one delivery is under way, at
  most one delivery created a message, and after any further history the outbox is bound to the same message
  of the same app, at a version that did not go back; published cards never change and nothing follows a terminal card.
\<close>

theorem outbox_one_message:
  assumes "foldE (reduce_outbox_event env) outbox_init es = Inr st" and "foldE (reduce_outbox_event env) st fs = Inr st'"
    and "dget (ox_by_outbox_id st) i = Some r"
  shows "\<exists>r'. dget (ox_by_outbox_id st') i = Some r' \<and>
    (\<forall>b. ot_binding r = Some b \<longrightarrow> (\<exists>b'. ot_binding r' = Some b' \<and> ob_message_id b' = ob_message_id b \<and>
       ob_app_id b' = ob_app_id b \<and> ob_bound_snapshot_version b \<le> ob_bound_snapshot_version b')) \<and>
    (\<forall>v m. dget (ot_snapshots r) v = Some m \<longrightarrow> dget (ot_snapshots r') v = Some m) \<and>
    (terminal_outbox r \<longrightarrow> ot_latest_version r' = ot_latest_version r) \<and>
    length (filter delivery_active (dvals (ot_effects r'))) \<le> 1 \<and>
    length (filter (\<lambda>e. oe_state e = DS_COMMITTED \<and> oe_kind e = DK_CREATE) (dvals (ot_effects r'))) \<le> 1"
proof -
  from outbox.history_kept [OF outbox_inv_init assms(1,2)] have inv: "outbox_inv st'" "outbox_kept st st'" by blast+
  from inv(2) assms(3) obtain r' where r': "dget (ox_by_outbox_id st') i = Some r'" "outbox_record_kept r r'"
    unfolding outbox_kept_def by blast
  have ok: "outbox_record_ok i r'" using inv(1) r'(1) by (simp add: outbox_inv_def)
  show ?thesis
    using r'(1) record_keptD(3,4,6) [OF r'(2)] record_ok_counts [OF ok] unfolding same_message_def by (intro exI [of _ r']) blast
qed

subsection \<open>A sample history\<close>

definition sample_digest :: string where
  "sample_digest = replicate 64 (CHR ''a'')"

definition sample_outbox_env :: outbox_env where
  "sample_outbox_env = \<lparr>oe_frame = \<lparr>fe_repr = (\<lambda>_. ''0.0''), fe_sha256 = (\<lambda>_. sample_digest), fe_hmac = (\<lambda>_ _. sample_digest),
     fe_float = (\<lambda>_. NaN)\<rparr>, oe_uuid5 = (\<lambda>_. ''u''), oe_casefold = (\<lambda>s. s), oe_digit = (\<lambda>_. False)\<rparr>"

definition sample_outbox_id :: string where
  "sample_outbox_id = ''out_'' @ sample_digest"

definition outbox_event :: "string \<Rightarrow> pydict \<Rightarrow> journal_event" where
  "outbox_event t p = \<lparr>je_event_type = ''employee.outbox.'' @ t, je_aggregate_id = sample_outbox_id, je_payload = p, je_timestamp = 0,
     je_payload_hash = sample_digest\<rparr>"

definition sample_blob :: pyval where
  "sample_blob = PDict [(''blob_id'', PStr sample_digest), (''content_hash'', PStr sample_digest), (''ciphertext_hash'', PStr sample_digest),
     (''payload_hash'', PStr sample_digest), (''labels_hash'', PStr sample_digest), (''size'', PInt 1), (''labels'', PDict []),
     (''key_ref'', PStr ''k'')]"

definition sample_card :: "int \<Rightarrow> string \<Rightarrow> int \<Rightarrow> journal_event" where
  "sample_card v s t = outbox_event ''snapshot_appended'' [(''tenant_key'', PStr ''t''), (''agent_id'', PStr ''a''), (''attempt_id'', PStr ''n''),
     (''chat_id'', PStr ''c''), (''thread_root_message_id'', PStr []), (''version'', PInt v), (''state'', PStr s), (''progress_percent'', PInt 0),
     (''created_at'', PStr ''now''), (''terminal_version'', PInt t), (''payload_sha256'', PStr sample_digest), (''blob_ref'', sample_blob)]"

definition sample_effect_id :: string where
  "sample_effect_id = ''outeff_'' @ sample_digest"

definition sample_delivery :: "int \<Rightarrow> delivery_effect_kind \<Rightarrow> outbox_delivery_effect" where
  "sample_delivery v k = \<lparr>oe_schema_version = 1, oe_effect_id = sample_effect_id, oe_outbox_id = sample_outbox_id, oe_kind = k,
     oe_state = DS_PREPARED, oe_snapshot_version = v, oe_snapshot_sha256 = sample_digest, oe_attempt = 1, oe_error_code = []\<rparr>"

definition sample_binding :: "int \<Rightarrow> employee_outbox_binding" where
  "sample_binding v = \<lparr>ob_schema_version = 1, ob_outbox_id = sample_outbox_id, ob_stable_uuid = ''u'', ob_app_id = ''app'', ob_generation = 1,
     ob_connection_id = ''cn'', ob_message_id = ''m'', ob_bound_snapshot_version = v\<rparr>"

definition sample_delivered :: "journal_event list" where
  "sample_delivered = [sample_card 1 ''queued'' 0,
     outbox_event ''effect_prepared'' [(''effect'', PDict (delivery_to_dict (sample_delivery 1 DK_CREATE)))],
     outbox_event ''effect_executing'' [(''effect_id'', PStr sample_effect_id)],
     outbox_event ''delivery_committed'' [(''effect_id'', PStr sample_effect_id), (''binding'', PDict (binding_to_dict (sample_binding 1)))]]"

lemma sample_delivered_eval:
  "\<exists>st r. foldE (reduce_outbox_event sample_outbox_env) outbox_init sample_delivered = Inr st \<and>
     dget (ox_by_outbox_id st) sample_outbox_id = Some r \<and> ot_binding r = Some (sample_binding 1) \<and>
     (\<exists>st'. foldE (reduce_outbox_event sample_outbox_env) st [sample_card 2 ''failed'' 2] = Inr st')"
proof -
  have "(case foldE (reduce_outbox_event sample_outbox_env) outbox_init sample_delivered of Inl _ \<Rightarrow> False
     | Inr st \<Rightarrow> (case dget (ox_by_outbox_id st) sample_outbox_id of None \<Rightarrow> False | Some r \<Rightarrow> ot_binding r = Some (sample_binding 1)) \<and>
        (case foldE (reduce_outbox_event sample_outbox_env) st [sample_card 2 ''failed'' 2] of Inl _ \<Rightarrow> False | Inr _ \<Rightarrow> True))"
    by code_simp
  then show ?thesis by (auto split: sum.splits option.splits)
qed

theorem outbox_one_message_witness:
  "\<exists>st' r' b'. foldE (reduce_outbox_event sample_outbox_env) outbox_init (sample_delivered @ [sample_card 2 ''failed'' 2]) = Inr st' \<and>
     dget (ox_by_outbox_id st') sample_outbox_id = Some r' \<and> ot_binding r' = Some b' \<and> ob_message_id b' = ''m''"
proof -
  obtain st r st' where s: "foldE (reduce_outbox_event sample_outbox_env) outbox_init sample_delivered = Inr st"
    "dget (ox_by_outbox_id st) sample_outbox_id = Some r" "ot_binding r = Some (sample_binding 1)"
    "foldE (reduce_outbox_event sample_outbox_env) st [sample_card 2 ''failed'' 2] = Inr st'"
    using sample_delivered_eval by blast
  from outbox_one_message [OF s(1,4,2)] s(3) obtain r' b' where
    "dget (ox_by_outbox_id st') sample_outbox_id = Some r'" "ot_binding r' = Some b'" "ob_message_id b' = ob_message_id (sample_binding 1)"
    by blast
  with s(1,4) show ?thesis
    by (intro exI [of _ st'] exI [of _ r'] exI [of _ b']) (simp add: foldE_append sample_binding_def del: foldE.simps)
qed

end
