(* ===== verification/Actions.thy ===== *)
theory Actions
  imports Journal_Writer
begin

text \<open>
  Operations of the services over the journal: state passing with exceptions, a small logic for what every
  operation keeps, and what the environment supplies to one commit.
\<close>

section \<open>State and exceptions\<close>

text \<open>Operations that change a state and may raise; what was changed before the exception stays.\<close>

type_synonym ('s, 'x, 'r) action = "'s \<Rightarrow> 's \<times> ('x + 'r)"

definition returnA :: "'r \<Rightarrow> ('s, 'x, 'r) action" where
  "returnA r = (\<lambda>s. (s, Inr r))"

definition raiseA :: "'x \<Rightarrow> ('s, 'x, 'r) action" where
  "raiseA x = (\<lambda>s. (s, Inl x))"

definition bindA :: "('s, 'x, 'r) action \<Rightarrow> ('r \<Rightarrow> ('s, 'x, 'q) action) \<Rightarrow> ('s, 'x, 'q) action" where
  "bindA m f = (\<lambda>s. case m s of (t, Inl x) \<Rightarrow> (t, Inl x) | (t, Inr r) \<Rightarrow> f r t)"

definition liftA :: "'x + 'r \<Rightarrow> ('s, 'x, 'r) action" where
  "liftA e = (\<lambda>s. (s, e))"

definition getA :: "('s \<Rightarrow> 'r) \<Rightarrow> ('s, 'x, 'r) action" where
  "getA f = (\<lambda>s. (s, Inr (f s)))"

definition modifyA :: "('s \<Rightarrow> 's) \<Rightarrow> ('s, 'x, unit) action" where
  "modifyA f = (\<lambda>s. (f s, Inr ()))"

text \<open>What one commit draws from its environment: the identifier, the clock readings and the fate of the append and of the anchor.\<close>

record 'io journal_io =
  ji_tx_id :: string
  ji_event_time :: timestamp
  ji_now :: timestamp
  ji_append :: append_io
  ji_anchor :: 'io

section \<open>What an action keeps\<close>

text \<open>
  A small logic: an action keeps a predicate when it leads from every state with the predicate to one with it, whether it
  returns or raises.
\<close>

definition keeps :: "('s \<Rightarrow> bool) \<Rightarrow> ('s, 'x, 'r) action \<Rightarrow> bool" where
  "keeps P m \<longleftrightarrow> (\<forall>s. P s \<longrightarrow> P (fst (m s)))"

lemma keepsI: "(\<And>s. P s \<Longrightarrow> P (fst (m s))) \<Longrightarrow> keeps P m"
  by (simp add: keeps_def)

lemma keepsD: "keeps P m \<Longrightarrow> P s \<Longrightarrow> P (fst (m s))"
  by (simp add: keeps_def)

lemma keeps_bind: "keeps P m \<Longrightarrow> (\<And>r. keeps P (f r)) \<Longrightarrow> keeps P (bindA m f)"
  unfolding keeps_def bindA_def by (fastforce split: prod.splits sum.splits)

lemma keeps_basic: "keeps P (returnA r)" "keeps P (raiseA x)" "keeps P (liftA e)" "keeps P (getA g)"
  by (simp_all add: keeps_def returnA_def raiseA_def liftA_def getA_def)

lemma keeps_bind_state: "keeps P m \<Longrightarrow> (\<And>r s. P s \<Longrightarrow> P (fst (f r s))) \<Longrightarrow> keeps P (bindA m f)"
  by (rule keeps_bind) (auto intro: keepsI)

lemmas keeps_rules = keeps_bind keeps_basic

lemma keeps_if: "keeps P x \<Longrightarrow> keeps P y \<Longrightarrow> keeps P (if b then x else y)"
  by simp

lemma keeps_option: "keeps P x \<Longrightarrow> (\<And>v. keeps P (f v)) \<Longrightarrow> keeps P (case z of None \<Rightarrow> x | Some v \<Rightarrow> f v)"
  by (cases z) simp_all

lemma keeps_sum: "(\<And>v. keeps P (f v)) \<Longrightarrow> (\<And>w. keeps P (g w)) \<Longrightarrow> keeps P (case z of Inl v \<Rightarrow> f v | Inr w \<Rightarrow> g w)"
  by (cases z) simp_all

lemma keeps_prod: "(\<And>v w. keeps P (f v w)) \<Longrightarrow> keeps P (case z of (v, w) \<Rightarrow> f v w)"
  by (cases z) simp

lemmas keeps_cases = keeps_if keeps_option keeps_sum keeps_prod

section \<open>What an action does to the state and returns\<close>

text \<open>
  An action does a relation when it leads from every state to a related one, what it returns has a property and what it raises has one.
  For a reflexive and transitive relation the rules compose.
\<close>

definition does :: "('s \<Rightarrow> 's \<Rightarrow> bool) \<Rightarrow> ('x \<Rightarrow> bool) \<Rightarrow> ('s, 'x, 'r) action \<Rightarrow> ('r \<Rightarrow> bool) \<Rightarrow> bool" where
  "does R X m Q \<longleftrightarrow> (\<forall>s. R s (fst (m s)) \<and> (case snd (m s) of Inl x \<Rightarrow> X x | Inr r \<Rightarrow> Q r))"

lemma doesI:
  "(\<And>s t y. m s = (t, y) \<Longrightarrow> R s t) \<Longrightarrow> (\<And>s t r. m s = (t, Inr r) \<Longrightarrow> Q r) \<Longrightarrow> (\<And>s t x. m s = (t, Inl x) \<Longrightarrow> X x) \<Longrightarrow> does R X m Q"
  unfolding does_def by (metis prod.collapse sum.case sum.exhaust)

lemma doesD:
  "does R X m Q \<Longrightarrow> m s = (t, y) \<Longrightarrow> R s t" "does R X m Q \<Longrightarrow> m s = (t, Inr r) \<Longrightarrow> Q r" "does R X m Q \<Longrightarrow> m s = (t, Inl x) \<Longrightarrow> X x"
  unfolding does_def by (metis fst_conv, metis snd_conv sum.case(2), metis snd_conv sum.case(1))

locale state_order =
  fixes R :: "'s \<Rightarrow> 's \<Rightarrow> bool" and X :: "'x \<Rightarrow> bool"
  assumes refl: "R s s" and trans: "R s t \<Longrightarrow> R t u \<Longrightarrow> R s u"
begin

lemma bind:
  assumes "does R X m P" and "\<And>r. P r \<Longrightarrow> does R X (f r) Q"
  shows "does R X (bindA m f) Q"
proof -
  have "R s (fst (bindA m f s)) \<and> (case snd (bindA m f s) of Inl x \<Rightarrow> X x | Inr r \<Rightarrow> Q r)" for s
  proof -
    obtain u y where u: "m s = (u, y)" by fastforce
    note su = doesD(1) [OF assms(1) u]
    show ?thesis
    proof (cases y)
      case (Inl x)
      with u su doesD(3) [OF assms(1) u [unfolded Inl]] show ?thesis by (simp add: bindA_def)
    next
      case (Inr r)
      with assms(2) [OF doesD(2) [OF assms(1) u [unfolded Inr]]] have "R u (fst (f r u)) \<and> (case snd (f r u) of Inl x \<Rightarrow> X x | Inr r \<Rightarrow> Q r)"
        by (simp add: does_def)
      with u Inr su trans show ?thesis by (auto simp: bindA_def)
    qed
  qed
  then show ?thesis by (simp add: does_def)
qed

lemma simple:
  "Q r \<Longrightarrow> does R X (returnA r) Q" "X x \<Longrightarrow> does R X (raiseA x) Q" "(\<And>s. Q (g s)) \<Longrightarrow> does R X (getA g) Q"
  "(\<And>r. e = Inr r \<Longrightarrow> Q r) \<Longrightarrow> (\<And>x. e = Inl x \<Longrightarrow> X x) \<Longrightarrow> does R X (liftA e) Q"
  by (simp_all add: does_def returnA_def raiseA_def liftA_def getA_def refl split: sum.split)

lemma branch:
  "(b \<Longrightarrow> does R X x Q) \<Longrightarrow> (\<not> b \<Longrightarrow> does R X y Q) \<Longrightarrow> does R X (if b then x else y) Q"
  "(z = None \<Longrightarrow> does R X x Q) \<Longrightarrow> (\<And>v. z = Some v \<Longrightarrow> does R X (f v) Q) \<Longrightarrow> does R X (case z of None \<Rightarrow> x | Some v \<Rightarrow> f v) Q"
  by (simp_all split: option.split)

lemmas rules = bind simple branch

end

section \<open>Pre- and postconditions\<close>

text \<open>
  A triple: from a state with the precondition the action returns a value and a state with the postcondition, or raises an exception in a
  state with the exceptional one.
\<close>

definition triple :: "('s \<Rightarrow> bool) \<Rightarrow> ('s, 'x, 'r) action \<Rightarrow> ('r \<Rightarrow> 's \<Rightarrow> bool) \<Rightarrow> ('x \<Rightarrow> 's \<Rightarrow> bool) \<Rightarrow> bool" where
  "triple P m Q E \<longleftrightarrow> (\<forall>s. P s \<longrightarrow> (case m s of (t, Inr r) \<Rightarrow> Q r t | (t, Inl x) \<Rightarrow> E x t))"

lemma tripleI:
  "(\<And>s t r. P s \<Longrightarrow> m s = (t, Inr r) \<Longrightarrow> Q r t) \<Longrightarrow> (\<And>s t x. P s \<Longrightarrow> m s = (t, Inl x) \<Longrightarrow> E x t) \<Longrightarrow> triple P m Q E"
  by (auto simp: triple_def split: prod.split sum.split)

lemma tripleD:
  "triple P m Q E \<Longrightarrow> P s \<Longrightarrow> m s = (t, Inr r) \<Longrightarrow> Q r t" "triple P m Q E \<Longrightarrow> P s \<Longrightarrow> m s = (t, Inl x) \<Longrightarrow> E x t"
  by (fastforce simp: triple_def)+

lemma triple_bind: "triple P m R E \<Longrightarrow> (\<And>r. triple (R r) (f r) Q E) \<Longrightarrow> triple P (bindA m f) Q E"
  unfolding triple_def bindA_def by (fastforce split: prod.splits sum.splits)

lemma triple_pre: "triple P m Q E \<Longrightarrow> (\<And>s. P' s \<Longrightarrow> P s) \<Longrightarrow> triple P' m Q E"
  by (auto simp: triple_def)

lemma triple_post: "triple P m Q E \<Longrightarrow> (\<And>r s. Q r s \<Longrightarrow> Q' r s) \<Longrightarrow> triple P m Q' E"
  unfolding triple_def by (fastforce split: prod.splits sum.splits)

lemma triple_return: "triple (Q r) (returnA r) Q E"
  by (simp add: triple_def returnA_def)

lemma triple_raise: "triple (E x) (raiseA x) Q E"
  by (simp add: triple_def raiseA_def)

lemma triple_if: "(b \<Longrightarrow> triple P x Q E) \<Longrightarrow> (\<not> b \<Longrightarrow> triple P y Q E) \<Longrightarrow> triple P (if b then x else y) Q E"
  by simp

lemma triple_option: "(z = None \<Longrightarrow> triple P x Q E) \<Longrightarrow> (\<And>v. z = Some v \<Longrightarrow> triple P (f v) Q E) \<Longrightarrow> triple P (case z of None \<Rightarrow> x | Some v \<Rightarrow> f v) Q E"
  by (cases z) simp_all

end
