(* ===== verification/Outbox_Service.thy ===== *)
theory Outbox_Service
  imports Outbox Actions
begin

text \<open>
  The service of \<^verbatim>\<open>src/src/autonomous/outbox/service.py\<close> and the delivery coordinator of \<^verbatim>\<open>outbox/delivery.py\<close>, over the journal
  writer of \<open>Journal_Writer\<close>. The mutex makes every operation of the service atomic. The encrypted blob store and the anchor are
  any providers (records of operations); what the environment does to one append of the journal, with the
  transaction identifier and the clock readings it draws, is an argument. A delivery waits for the chat
  service, so it is split there into \<open>deliver_begin\<close> and \<open>deliver_finish\<close>.
\<close>

section \<open>State and effects\<close>

text \<open>The blob store: reading, publishing, listing and quarantining may each fail with a \<open>BlobError\<close>.\<close>

record 'b blob_ops =
  bo_read :: "'b \<Rightarrow> blob_ref \<Rightarrow> unit + string"
  bo_publish :: "'b \<Rightarrow> string \<Rightarrow> (string, string) dict \<Rightarrow> string \<Rightarrow> 'b \<times> (unit + blob_ref)"
  bo_ids :: "'b \<Rightarrow> unit + string list"
  bo_quarantine :: "'b \<Rightarrow> string \<Rightarrow> 'b \<times> (unit + unit)"
  bo_closed :: "'b \<Rightarrow> bool"
  bo_close :: "'b \<Rightarrow> 'b"

record ('a, 'io, 'b) service_env =
  sx_outbox :: outbox_env
  sx_writer :: writer_env
  sx_anchor :: "('a, 'io) anchor_ops"
  sx_blobs :: "'b blob_ops"

record ('a, 'b) outbox_service =
  sv_writer :: journal_writer
  sv_anchor :: 'a
  sv_blobs :: 'b
  sv_state :: outbox_state
  sv_active_key_id :: string
  sv_admission_closed :: bool
  sv_closed :: bool

section \<open>Reading snapshots\<close>

definition blob_labels :: "string \<Rightarrow> string \<Rightarrow> string \<Rightarrow> string \<Rightarrow> int \<Rightarrow> string \<Rightarrow> (string, string) dict" where
  "blob_labels tenant employee attempt outbox_id version sha =
     [(''schema'', ''employee-outbox-v1''), (''tenant'', tenant), (''employee'', employee), (''attempt_id'', attempt),
      (''outbox_id'', outbox_id), (''version'', show_int version), (''payload_sha256'', sha)]"

definition snapshot_blob_labels :: "employee_outbox_snapshot \<Rightarrow> string \<Rightarrow> (string, string) dict" where
  "snapshot_blob_labels s sha = blob_labels (sn_tenant_key s) (sn_agent_id s) (sn_attempt_id s) (sn_outbox_id s) (sn_version s) sha"

definition record_blob_labels :: "outbox_record \<Rightarrow> outbox_snapshot_record \<Rightarrow> (string, string) dict" where
  "record_blob_labels r m = blob_labels (ot_tenant_key r) (ot_agent_id r) (ot_attempt_id r) (ot_outbox_id r) (so_version m)
     (so_payload_sha256 m)"

text \<open>A failed read is a \<open>ValueError\<close> (a malformed snapshot or text) or a blob error.\<close>

datatype read_exn = ReadValueError | ReadBlobError

definition read_snapshot ::
  "('a, 'io, 'b) service_env \<Rightarrow> 'b \<Rightarrow> outbox_record \<Rightarrow> outbox_snapshot_record \<Rightarrow> read_exn + employee_outbox_snapshot" where
  "read_snapshot sx store record metadata =
     (let env = sx_outbox sx in
      if set (br_labels (so_blob_ref metadata)) \<noteq> set (record_blob_labels record metadata) then Inl ReadBlobError
      else case bo_read (sx_blobs sx) store (so_blob_ref metadata) of
        Inl _ \<Rightarrow> Inl ReadBlobError
      | Inr raw \<Rightarrow>
          (case fe_loads (oe_frame env) raw of
             None \<Rightarrow> Inl ReadValueError
           | Some v \<Rightarrow>
               (case snapshot_from_dict env v of
                  Inl _ \<Rightarrow> Inl ReadValueError
                | Inr s \<Rightarrow>
                    if sn_outbox_id s \<noteq> ot_outbox_id record \<or> sn_version s \<noteq> so_version metadata \<or>
                       payload_sha256 env s \<noteq> Inr (so_payload_sha256 metadata) \<or> canonical_bytes env s \<noteq> Inr raw
                    then Inl ReadBlobError else Inr s)))"

definition service_error :: "read_exn + 'r \<Rightarrow> outbox_exn + 'r" where
  "service_error x = (case x of Inr r \<Rightarrow> Inr r | Inl ReadBlobError \<Rightarrow> Inl (OutboxBlobError ''Outbox blob verification failed'')
     | Inl ReadValueError \<Rightarrow> Inl (OutboxValueError (ValueError ''invalid snapshot'')))"

text \<open>Python's \<open>==\<close> on frozen card content: numbers by value, mappings without order.\<close>

primrec py_norm :: "pyval \<Rightarrow> pyval" where
  "py_norm PNone = PNone"
| "py_norm (PBool b) = PFloat (Fin (if b then 1 else 0))"
| "py_norm (PInt i) = PFloat (Fin (of_int i))"
| "py_norm (PFloat f) = PFloat f"
| "py_norm (PStr s) = PStr s"
| "py_norm (PList xs) = PList (map py_norm xs)"
| "py_norm (PTuple xs) = PTuple (map py_norm xs)"
| "py_norm (PDict kvs) = PDict (sort_key fst (map (map_prod id py_norm) kvs))"
| "py_norm (PProxy kvs) = PProxy (sort_key fst (map (map_prod id py_norm) kvs))"
| "py_norm (PSet ss) = PSet ss"
| "py_norm (PFrozenset ss) = PFrozenset ss"

definition snapshot_equal :: "employee_outbox_snapshot \<Rightarrow> employee_outbox_snapshot \<Rightarrow> bool" where
  "snapshot_equal a b \<longleftrightarrow> a\<lparr>sn_card_json := py_norm (sn_card_json a)\<rparr> = b\<lparr>sn_card_json := py_norm (sn_card_json b)\<rparr>"

section \<open>The projection of the service\<close>

type_synonym ('a, 'b, 'r) service_action = "(('a, 'b) outbox_service, outbox_exn, 'r) action"

definition ensure_open :: "('a, 'io, 'b) service_env \<Rightarrow> ('a, 'b, unit) service_action" where
  "ensure_open sx = (\<lambda>sv. if sv_closed sv \<or> bo_closed (sx_blobs sx) (sv_blobs sv)
     then (sv, Inl (OutboxClosedError ''employee Outbox service is closed'')) else (sv, Inr ()))"

definition outbox_events :: "transaction_frame list \<Rightarrow> journal_event list" where
  "outbox_events fs = filter (\<lambda>e. is_outbox_event (je_event_type e)) (concat (map tf_events fs))"

definition at_cursor :: "frame_env \<Rightarrow> transaction_frame list \<Rightarrow> outbox_state \<Rightarrow> outbox_state" where
  "at_cursor fe fs st = (if fs = [] then st else st\<lparr>ox_cursor_sequence := tf_sequence (last fs), ox_cursor_hash := frame_hash fe (last fs)\<rparr>)"

text \<open>An employee is closed when a card that is not tombstoned cannot be read.\<close>

definition unreadable :: "('a, 'io, 'b) service_env \<Rightarrow> 'b \<Rightarrow> outbox_record \<Rightarrow> bool" where
  "unreadable sx store r \<longleftrightarrow> list_ex (\<lambda>(v, m). v \<notin> set (ot_tombstoned_versions r) \<and>
     (case read_snapshot sx store r m of Inl _ \<Rightarrow> True | Inr _ \<Rightarrow> False)) (ot_snapshots r)"

definition close_unreadable :: "('a, 'io, 'b) service_env \<Rightarrow> 'b \<Rightarrow> outbox_state \<Rightarrow> outbox_state" where
  "close_unreadable sx store st = st\<lparr>ox_closed_employees := ox_closed_employees st @
     map employee_key (filter (unreadable sx store) (dvals (ox_by_outbox_id st)))\<rparr>"

definition live_blobs :: "outbox_state \<Rightarrow> string list" where
  "live_blobs st = concat (map (\<lambda>r. map (\<lambda>(v, m). br_blob_hash (so_blob_ref m))
     (filter (\<lambda>(v, m). v \<notin> set (ot_tombstoned_versions r)) (ot_snapshots r))) (dvals (ox_by_outbox_id st)))"

fun quarantine_all :: "'b blob_ops \<Rightarrow> 'b \<Rightarrow> string list \<Rightarrow> 'b \<times> (unit + unit)" where
  "quarantine_all bo store [] = (store, Inr ())"
| "quarantine_all bo store (i # ids) =
     (case bo_quarantine bo store i of (store', Inl e) \<Rightarrow> (store', Inl e) | (store', Inr _) \<Rightarrow> quarantine_all bo store' ids)"

definition quarantine_unreferenced_unlocked :: "('a, 'io, 'b) service_env \<Rightarrow> ('a, 'b, nat) service_action" where
  "quarantine_unreferenced_unlocked sx = (\<lambda>sv.
     case bo_ids (sx_blobs sx) (sv_blobs sv) of
       Inl _ \<Rightarrow> (sv, Inl (OutboxBlobError ''blob store''))
     | Inr ids \<Rightarrow>
         (let orphans = filter (\<lambda>i. i \<notin> set (live_blobs (sv_state sv))) (remdups ids)
          in case quarantine_all (sx_blobs sx) (sv_blobs sv) orphans of
               (store, Inl _) \<Rightarrow> (sv\<lparr>sv_blobs := store\<rparr>, Inl (OutboxBlobError ''blob store''))
             | (store, Inr _) \<Rightarrow> (sv\<lparr>sv_blobs := store\<rparr>, Inr (length orphans))))"

definition rebuild_open :: "('a, 'io, 'b) service_env \<Rightarrow> ('a, 'b, unit) service_action" where
  "rebuild_open sx = (\<lambda>sv.
       case ao_read (sx_anchor sx) (sv_anchor sv) of
         Inl e \<Rightarrow> (sv, Inl (OutboxJournalError (JAnchor e)))
       | Inr anchor \<Rightarrow>
           (case replay (sx_writer sx) (sx_anchor sx) (sv_writer sv) (sv_anchor sv) 1 of
              (w, Inl e) \<Rightarrow> (sv\<lparr>sv_writer := w\<rparr>, Inl (OutboxJournalError e))
            | (w, Inr frames) \<Rightarrow>
                (let sv1 = sv\<lparr>sv_writer := w\<rparr>;
                     anchored = takeWhile (\<lambda>f. tf_sequence f \<le> an_sequence anchor) frames
                 in case foldE (reduce_outbox_event (sx_outbox sx)) outbox_init (outbox_events anchored) of
                      Inl e \<Rightarrow> (sv1, Inl e)
                    | Inr fresh \<Rightarrow>
                        if head_hash (we_frame (sx_writer sx)) anchored \<noteq> an_frame_hash anchor
                        then (sv1, Inl (OutboxWriteDisabledError ''Outbox projection cannot verify the Journal anchor''))
                        else bindA (quarantine_unreferenced_unlocked sx) (\<lambda>_. returnA ())
                          (sv1\<lparr>sv_state := close_unreadable sx (sv_blobs sv1) (at_cursor (we_frame (sx_writer sx)) anchored fresh)\<rparr>))))"

definition rebuild_projection :: "('a, 'io, 'b) service_env \<Rightarrow> ('a, 'b, unit) service_action" where
  "rebuild_projection sx = bindA (ensure_open sx) (\<lambda>_. rebuild_open sx)"

definition synchronize_projection :: "('a, 'io, 'b) service_env \<Rightarrow> ('a, 'b, unit) service_action" where
  "synchronize_projection sx = (\<lambda>sv.
     case ao_read (sx_anchor sx) (sv_anchor sv) of
       Inl e \<Rightarrow> (sv, Inl (OutboxJournalError (JAnchor e)))
     | Inr anchor \<Rightarrow>
         if (ox_cursor_sequence (sv_state sv), ox_cursor_hash (sv_state sv)) \<noteq>
            (an_sequence anchor, if an_sequence anchor = 0 then [] else an_frame_hash anchor)
         then rebuild_projection sx sv else (sv, Inr ()))"

text \<open>The journal makes a frame of the one event; the projection then reduces what the frame holds.\<close>

definition commit_unlocked ::
  "('a, 'io, 'b) service_env \<Rightarrow> 'io journal_io \<Rightarrow> string \<Rightarrow> string \<Rightarrow> pydict \<Rightarrow> ('a, 'b, transaction_frame) service_action" where
  "commit_unlocked sx io aggregate_id event_type payload = (\<lambda>sv.
     case event_init (we_frame (sx_writer sx)) (PStr event_type) (PStr aggregate_id) (PDict payload) (PFloat (Fin (ji_event_time io))) (PStr []) of
       Inl e \<Rightarrow> (sv, Inl (OutboxJournalError (JFrame e)))
     | Inr event \<Rightarrow>
         (case commit (sx_writer sx) (sx_anchor sx) (sv_writer sv) (sv_anchor sv)
            \<lparr>cc_events = [event], cc_expected = get_aggregate_versions (sv_writer sv) [aggregate_id],
             cc_head_sequence = Some (ox_cursor_sequence (sv_state sv)),
             cc_head_hash = (if ox_cursor_hash (sv_state sv) = [] then None else Some (ox_cursor_hash (sv_state sv))),
             cc_tx_id = ji_tx_id io, cc_now = ji_now io\<rparr> (ji_append io) (ji_anchor io) of
            (w, a, Inl e) \<Rightarrow> (sv\<lparr>sv_writer := w, sv_anchor := a\<rparr>, Inl (OutboxJournalError e))
          | (w, a, Inr (f, DURABLE_NOT_ANCHORED)) \<Rightarrow>
              (sv\<lparr>sv_writer := w, sv_anchor := a\<rparr>, Inl (OutboxWriteDisabledError ''Outbox lifecycle event was not anchored''))
          | (w, a, Inr (f, ANCHORED)) \<Rightarrow>
              (case foldE (reduce_outbox_event (sx_outbox sx)) (sv_state sv) (outbox_events [f]) of
                 Inl e \<Rightarrow> (sv\<lparr>sv_writer := w, sv_anchor := a\<rparr>, Inl e)
               | Inr st \<Rightarrow> (sv\<lparr>sv_writer := w, sv_anchor := a,
                     sv_state := st\<lparr>ox_cursor_sequence := tf_sequence f, ox_cursor_hash := frame_hash (we_frame (sx_writer sx)) f\<rparr>\<rparr>,
                   Inr f))))"

definition record_of :: "string \<Rightarrow> ('a, 'b, outbox_record) service_action" where
  "record_of outbox_id = (\<lambda>sv. (sv, case dget (ox_by_outbox_id (sv_state sv)) outbox_id of None \<Rightarrow> Inl OutboxKeyError | Some r \<Rightarrow> Inr r))"

section \<open>Operations\<close>

definition stop_admission :: "('a, 'io, 'b) service_env \<Rightarrow> ('a, 'b, unit) service_action" where
  "stop_admission sx = bindA (ensure_open sx) (\<lambda>_. modifyA (\<lambda>sv. sv\<lparr>sv_admission_closed := True\<rparr>))"

definition close_service :: "('a, 'io, 'b) service_env \<Rightarrow> ('a, 'b, unit) service_action" where
  "close_service sx = modifyA (\<lambda>sv. if sv_closed sv then sv else sv\<lparr>sv_closed := True, sv_blobs := bo_close (sx_blobs sx) (sv_blobs sv)\<rparr>)"

definition close_employee :: "string \<times> string \<Rightarrow> string \<Rightarrow> ('a, 'b, 'r) service_action" where
  "close_employee key message = (\<lambda>sv.
     (sv\<lparr>sv_state := (sv_state sv)\<lparr>ox_closed_employees := key # ox_closed_employees (sv_state sv)\<rparr>\<rparr>, Inl (OutboxClosedError message)))"

definition blob_ref_to_dict :: "blob_ref \<Rightarrow> pydict" where
  "blob_ref_to_dict b = [(''blob_id'', PStr (br_blob_hash b)), (''content_hash'', PStr (br_payload_hash b)),
     (''ciphertext_hash'', PStr (br_blob_hash b)), (''payload_hash'', PStr (br_payload_hash b)), (''labels_hash'', PStr (br_labels_hash b)),
     (''size'', PInt (br_size b)), (''labels'', PDict (map (map_prod id PStr) (br_labels b))), (''key_ref'', PStr (br_key_ref b))]"

definition appended_payload :: "employee_outbox_snapshot \<Rightarrow> string \<Rightarrow> blob_ref \<Rightarrow> pydict" where
  "appended_payload s sha b = [(''tenant_key'', PStr (sn_tenant_key s)), (''agent_id'', PStr (sn_agent_id s)), (''attempt_id'', PStr (sn_attempt_id s)),
     (''chat_id'', PStr (sn_chat_id s)), (''thread_root_message_id'', PStr (sn_thread_root_message_id s)), (''version'', PInt (sn_version s)),
     (''state'', PStr (card_state_value (sn_state s))), (''progress_percent'', PInt (sn_progress_percent s)), (''created_at'', PStr (sn_created_at s)),
     (''terminal_version'', PInt (sn_terminal_version s)), (''payload_sha256'', PStr sha), (''blob_ref'', PDict (blob_ref_to_dict b))]"

fun quarantine_each :: "'b blob_ops \<Rightarrow> 'b \<Rightarrow> string list \<Rightarrow> 'b" where
  "quarantine_each bo store [] = store"
| "quarantine_each bo store (i # ids) = quarantine_each bo (fst (bo_quarantine bo store i)) ids"

definition quarantine_new :: "'b blob_ops \<Rightarrow> 'b \<Rightarrow> string list \<Rightarrow> 'b" where
  "quarantine_new bo store before =
     (case bo_ids bo store of Inl _ \<Rightarrow> store | Inr ids \<Rightarrow> quarantine_each bo store (filter (\<lambda>i. i \<notin> set before) (remdups ids)))"

definition verify_snapshot_blob :: "('a, 'io, 'b) service_env \<Rightarrow> 'b \<Rightarrow> employee_outbox_snapshot \<Rightarrow> string \<Rightarrow> string \<Rightarrow> blob_ref \<Rightarrow> bool" where
  "verify_snapshot_blob sx store s bytes sha b \<longleftrightarrow> set (br_labels b) = set (snapshot_blob_labels s sha) \<and>
     bo_read (sx_blobs sx) store b = Inr bytes \<and> br_payload_hash b = sha"

definition publish_snapshot :: "('a, 'io, 'b) service_env \<Rightarrow> employee_outbox_snapshot \<Rightarrow> string \<Rightarrow> string \<Rightarrow> ('a, 'b, blob_ref) service_action" where
  "publish_snapshot sx s bytes sha = (\<lambda>sv.
     let bo = sx_blobs sx in
     case bo_ids bo (sv_blobs sv) of
       Inl _ \<Rightarrow> (sv, Inl (OutboxBlobError ''blob store''))
     | Inr before \<Rightarrow>
         (case bo_publish bo (sv_blobs sv) bytes (snapshot_blob_labels s sha) (sv_active_key_id sv) of
            (store, Inl _) \<Rightarrow> (sv\<lparr>sv_blobs := quarantine_new bo store before\<rparr>, Inl (OutboxBlobError ''Outbox snapshot publication failed''))
          | (store, Inr b) \<Rightarrow>
              if verify_snapshot_blob sx store s bytes sha b then (sv\<lparr>sv_blobs := store\<rparr>, Inr b)
              else (sv\<lparr>sv_blobs := quarantine_new bo store before\<rparr>, Inl (OutboxBlobError ''Outbox snapshot publication failed''))))"

definition existing_or_next ::
  "('a, 'io, 'b) service_env \<Rightarrow> employee_outbox_snapshot \<Rightarrow> ('a, 'b, outbox_snapshot_record option) service_action" where
  "existing_or_next sx s = (\<lambda>sv.
     let key = (sn_tenant_key s, sn_agent_id s); gone = ''authenticated Outbox snapshot is unavailable'' in
     case dget (ox_by_outbox_id (sv_state sv)) (sn_outbox_id s) of
       None \<Rightarrow>
         (sv, if sn_version s \<noteq> 1 \<or> sn_state s \<noteq> CARD_QUEUED then Inl (OutboxConflictError ''Outbox must start with queued version 1'')
              else Inr None)
     | Some current \<Rightarrow>
         (case dget (ot_snapshots current) (sn_version s) of
            Some existing \<Rightarrow>
              (case read_snapshot sx (sv_blobs sv) current existing of
                 Inl _ \<Rightarrow> close_employee key gone sv
               | Inr persisted \<Rightarrow>
                   (sv, if \<not> snapshot_equal persisted s then Inl (OutboxConflictError ''durable employee Outbox conflict'')
                        else Inr (Some existing)))
          | None \<Rightarrow>
              (case latest current of
                 Inl e \<Rightarrow> (sv, Inl e)
               | Inr l \<Rightarrow>
                   (case read_snapshot sx (sv_blobs sv) current l of
                      Inl ReadValueError \<Rightarrow> (sv, Inl (OutboxConflictError ''invalid snapshot''))
                    | Inl ReadBlobError \<Rightarrow> close_employee key gone sv
                    | Inr previous \<Rightarrow>
                        (sv, case advance_snapshot previous s of
                               Inl _ \<Rightarrow> Inl (OutboxConflictError ''invalid advance'') | Inr _ \<Rightarrow> Inr None)))))"

definition stored_card :: "string \<Rightarrow> int \<Rightarrow> ('a, 'b, outbox_snapshot_record) service_action" where
  "stored_card outbox_id version = bindA (record_of outbox_id) (\<lambda>r.
     liftA (case dget (ot_snapshots r) version of None \<Rightarrow> Inl OutboxKeyError | Some m \<Rightarrow> Inr m))"

definition commit_published ::
  "('a, 'io, 'b) service_env \<Rightarrow> 'io journal_io \<Rightarrow> employee_outbox_snapshot \<Rightarrow> string \<Rightarrow> blob_ref \<Rightarrow> ('a, 'b, transaction_frame) service_action" where
  "commit_published sx io s sha b = (\<lambda>sv.
     case commit_unlocked sx io (sn_outbox_id s) ''employee.outbox.snapshot_appended'' (appended_payload s sha b) sv of
       (sv', Inl e) \<Rightarrow> (sv'\<lparr>sv_blobs := fst (bo_quarantine (sx_blobs sx) (sv_blobs sv') (br_blob_hash b))\<rparr>, Inl e)
     | (sv', Inr f) \<Rightarrow> (sv', Inr f))"

definition append_snapshot ::
  "('a, 'io, 'b) service_env \<Rightarrow> 'io journal_io \<Rightarrow> employee_outbox_snapshot \<Rightarrow> ('a, 'b, outbox_snapshot_record) service_action" where
  "append_snapshot sx io s =
     bindA (ensure_open sx) (\<lambda>_.
     bindA (getA sv_admission_closed) (\<lambda>stopped.
     if stopped then raiseA (OutboxClosedError ''employee Outbox admission is closed'') else
     bindA (synchronize_projection sx) (\<lambda>_.
     bindA (getA (\<lambda>sv. ox_closed_employees (sv_state sv))) (\<lambda>closed.
     if (sn_tenant_key s, sn_agent_id s) \<in> set closed then raiseA (OutboxClosedError ''employee Outbox is closed'') else
     bindA (existing_or_next sx s) (\<lambda>existing.
     case existing of
       Some m \<Rightarrow> returnA m
     | None \<Rightarrow>
         (case canonical_bytes (sx_outbox sx) s of
            Inl e \<Rightarrow> raiseA (OutboxValueError e)
          | Inr bytes \<Rightarrow>
              (let sha = fe_sha256 (oe_frame (sx_outbox sx)) bytes in
               bindA (publish_snapshot sx s bytes sha) (\<lambda>b.
               bindA (commit_published sx io s sha b) (\<lambda>_.
               stored_card (sn_outbox_id s) (sn_version s))))))))))"

definition get_snapshot :: "('a, 'io, 'b) service_env \<Rightarrow> string \<Rightarrow> int option \<Rightarrow> ('a, 'b, employee_outbox_snapshot) service_action" where
  "get_snapshot sx outbox_id version =
     bindA (ensure_open sx) (\<lambda>_.
     bindA (synchronize_projection sx) (\<lambda>_.
     bindA (record_of outbox_id) (\<lambda>r.
     let selected = (case version of None \<Rightarrow> ot_latest_version r | Some v \<Rightarrow> v) in
     case dget (ot_snapshots r) selected of
       None \<Rightarrow> raiseA (OutboxBlobError ''Outbox snapshot is unavailable'')
     | Some m \<Rightarrow>
         if selected \<in> set (ot_tombstoned_versions r) then raiseA (OutboxBlobError ''Outbox snapshot is unavailable'')
         else bindA (getA sv_blobs) (\<lambda>store. liftA (service_error (read_snapshot sx store r m))))))"

definition get_record :: "('a, 'io, 'b) service_env \<Rightarrow> string \<Rightarrow> ('a, 'b, outbox_record) service_action" where
  "get_record sx outbox_id = bindA (ensure_open sx) (\<lambda>_. bindA (synchronize_projection sx) (\<lambda>_. record_of outbox_id))"

section \<open>Delivery effects\<close>

definition delivery_of :: "string \<Rightarrow> string \<Rightarrow> ('a, 'b, outbox_delivery_effect) service_action" where
  "delivery_of outbox_id effect_id = bindA (record_of outbox_id) (\<lambda>r.
     liftA (case dget (ot_effects r) effect_id of None \<Rightarrow> Inl OutboxKeyError | Some e \<Rightarrow> Inr e))"

definition lift_value :: "py_exn + 'r \<Rightarrow> outbox_exn + 'r" where
  "lift_value x = (case x of Inl e \<Rightarrow> Inl (OutboxValueError e) | Inr r \<Rightarrow> Inr r)"

definition pending_delivery :: "outbox_record \<Rightarrow> int \<Rightarrow> outbox_delivery_effect option" where
  "pending_delivery r version =
     (case sort_key (\<lambda>e. (oe_snapshot_version e, oe_attempt e)) (filter delivery_active (dvals (ot_effects r))) of
        e # _ \<Rightarrow> Some e
      | [] \<Rightarrow> List.find (\<lambda>e. oe_snapshot_version e = version \<and> oe_state e \<in> {DS_PREPARED, DS_EXECUTING, DS_COMMITTED})
                (dvals (ot_effects r)))"

definition next_attempt :: "outbox_record \<Rightarrow> int \<Rightarrow> int" where
  "next_attempt r version = foldr max (map oe_attempt (filter (\<lambda>e. oe_snapshot_version e = version \<and> oe_kind e = delivery_kind_for r)
     (dvals (ot_effects r)))) 0 + 1"

definition new_delivery :: "outbox_env \<Rightarrow> outbox_record \<Rightarrow> string \<Rightarrow> int \<Rightarrow> outbox_snapshot_record \<Rightarrow> py_exn + outbox_delivery_effect" where
  "new_delivery env r outbox_id version m =
     (let k = delivery_kind_for r; n = next_attempt r version in
      bindE (employee_outbox_effect_id env (PStr outbox_id) k (PInt version) (PInt n)) (\<lambda>i.
      delivery_init env [(''schema_version'', PInt 1), (''effect_id'', PStr i), (''outbox_id'', PStr outbox_id), (''kind'', PStr (delivery_kind_value k)),
        (''state'', PStr (delivery_state_value DS_PREPARED)), (''snapshot_version'', PInt version), (''snapshot_sha256'', PStr (so_payload_sha256 m)),
        (''attempt'', PInt n), (''error_code'', PStr [])]))"

definition prepare_delivery :: "('a, 'io, 'b) service_env \<Rightarrow> 'io journal_io \<Rightarrow> string \<Rightarrow> int \<Rightarrow> ('a, 'b, outbox_delivery_effect) service_action" where
  "prepare_delivery sx io outbox_id version =
     bindA (ensure_open sx) (\<lambda>_.
     bindA (synchronize_projection sx) (\<lambda>_.
     bindA (record_of outbox_id) (\<lambda>r.
     case dget (ot_snapshots r) version of
       None \<Rightarrow> raiseA OutboxKeyError
     | Some m \<Rightarrow>
         if version \<in> set (ot_tombstoned_versions r) then raiseA (OutboxBlobError ''Outbox delivery snapshot is tombstoned'')
         else case pending_delivery r version of
           Some e \<Rightarrow> returnA e
         | None \<Rightarrow>
             bindA (liftA (lift_value (new_delivery (sx_outbox sx) r outbox_id version m))) (\<lambda>e.
             bindA (commit_unlocked sx io outbox_id ''employee.outbox.effect_prepared'' [(''effect'', PDict (delivery_to_dict e))]) (\<lambda>_.
             delivery_of outbox_id (oe_effect_id e))))))"

fun find_effect :: "outbox_record list \<Rightarrow> string \<Rightarrow> (outbox_record \<times> outbox_delivery_effect) option" where
  "find_effect [] i = None"
| "find_effect (r # rs) i = (case dget (ot_effects r) i of Some e \<Rightarrow> Some (r, e) | None \<Rightarrow> find_effect rs i)"

definition effect_of :: "string \<Rightarrow> ('a, 'b, outbox_record \<times> outbox_delivery_effect) service_action" where
  "effect_of effect_id = (\<lambda>sv. (sv, case find_effect (dvals (ox_by_outbox_id (sv_state sv))) effect_id of
     None \<Rightarrow> Inl OutboxKeyError | Some x \<Rightarrow> Inr x))"

definition mark_effect_executing :: "('a, 'io, 'b) service_env \<Rightarrow> 'io journal_io \<Rightarrow> string \<Rightarrow> ('a, 'b, outbox_delivery_effect) service_action" where
  "mark_effect_executing sx io effect_id =
     bindA (ensure_open sx) (\<lambda>_.
     bindA (synchronize_projection sx) (\<lambda>_.
     bindA (effect_of effect_id) (\<lambda>(r, e).
     if oe_state e \<in> {DS_EXECUTING, DS_COMMITTED} then returnA e
     else if oe_state e \<noteq> DS_PREPARED then raiseA (OutboxConflictError ''Outbox effect cannot execute'')
     else bindA (commit_unlocked sx io (ot_outbox_id r) ''employee.outbox.effect_executing'' [(''effect_id'', PStr (oe_effect_id e))]) (\<lambda>_.
       delivery_of (ot_outbox_id r) (oe_effect_id e)))))"

definition new_binding :: "outbox_env \<Rightarrow> outbox_record \<Rightarrow> outbox_delivery_effect \<Rightarrow> pyval \<Rightarrow> pyval \<Rightarrow> pyval \<Rightarrow> pyval \<Rightarrow> py_exn + employee_outbox_binding" where
  "new_binding env r e app_id generation connection_id message_id =
     bindE (employee_outbox_uuid env (PStr (ot_outbox_id r))) (\<lambda>u.
     binding_init env [(''schema_version'', PInt 1), (''outbox_id'', PStr (ot_outbox_id r)), (''stable_uuid'', PStr u), (''app_id'', app_id),
       (''generation'', generation), (''connection_id'', connection_id), (''message_id'', message_id),
       (''bound_snapshot_version'', PInt (oe_snapshot_version e))])"

text \<open>What \<open>commit_delivery\<close> requires of a patch before it writes.\<close>

definition patch_matches :: "outbox_record \<Rightarrow> outbox_delivery_effect \<Rightarrow> pyval \<Rightarrow> pyval \<Rightarrow> outbox_exn + unit" where
  "patch_matches r e app_id message_id =
     (if oe_kind e \<noteq> DK_PATCH then Inr ()
      else case ot_binding r of
        None \<Rightarrow> Inl (OutboxConflictError ''Outbox patch message binding mismatch'')
      | Some current \<Rightarrow>
          if PStr (ob_message_id current) \<noteq> message_id then Inl (OutboxConflictError ''Outbox patch message binding mismatch'')
          else if PStr (ob_app_id current) \<noteq> app_id then Inl (OutboxConflictError ''Outbox patch app binding mismatch'')
          else Inr ())"

definition commit_delivery ::
  "('a, 'io, 'b) service_env \<Rightarrow> 'io journal_io \<Rightarrow> string \<Rightarrow> pyval \<Rightarrow> pyval \<Rightarrow> pyval \<Rightarrow> pyval \<Rightarrow> ('a, 'b, employee_outbox_binding) service_action" where
  "commit_delivery sx io effect_id app_id generation connection_id message_id =
     bindA (ensure_open sx) (\<lambda>_.
     bindA (synchronize_projection sx) (\<lambda>_.
     bindA (effect_of effect_id) (\<lambda>(r, e).
     if oe_state e = DS_COMMITTED then
       (case ot_binding r of None \<Rightarrow> raiseA (OutboxWriteDisabledError ''committed delivery lacks binding'') | Some b \<Rightarrow> returnA b)
     else if oe_state e \<noteq> DS_EXECUTING then raiseA (OutboxConflictError ''Outbox effect is not EXECUTING'')
     else
       bindA (liftA (patch_matches r e app_id message_id)) (\<lambda>_.
       bindA (liftA (lift_value (new_binding (sx_outbox sx) r e app_id generation connection_id message_id))) (\<lambda>b.
       bindA (commit_unlocked sx io (ot_outbox_id r) ''employee.outbox.delivery_committed''
         [(''effect_id'', PStr (oe_effect_id e)), (''binding'', PDict (binding_to_dict b))]) (\<lambda>_.
       bindA (record_of (ot_outbox_id r)) (\<lambda>r'.
       case ot_binding r' of
         None \<Rightarrow> raiseA (OutboxWriteDisabledError ''Outbox delivery binding was not applied'')
       | Some c \<Rightarrow> returnA c)))))))"

section \<open>Garbage collection\<close>

definition collectable :: "outbox_record \<Rightarrow> bool" where
  "collectable r \<longleftrightarrow>
     (case (dget (ot_snapshots r) (ot_latest_version r), ot_binding r) of
        (Some l, Some b) \<Rightarrow> card_terminal (so_state l) \<and> ot_latest_version r \<le> ob_bound_snapshot_version b \<and>
          \<not> list_ex delivery_active (dvals (ot_effects r))
      | _ \<Rightarrow> False)"

text \<open>One superseded card: a tombstone in the journal, then its blob, which another collection may have taken.\<close>

definition collect_card ::
  "('a, 'io, 'b) service_env \<Rightarrow> 'io journal_io \<Rightarrow> string \<Rightarrow> string \<Rightarrow> int \<Rightarrow> outbox_snapshot_record \<Rightarrow> string list \<Rightarrow> ('a, 'b, string list) service_action" where
  "collect_card sx io now outbox_id version m present =
     bindA (record_of outbox_id) (\<lambda>current.
     if version = ot_latest_version current then returnA present
     else
       bindA (if version \<in> set (ot_tombstoned_versions current) then returnA ()
              else bindA (commit_unlocked sx io outbox_id ''employee.outbox.snapshot_tombstoned''
                     [(''version'', PInt version), (''tombstoned_at'', PStr now)]) (\<lambda>_. returnA ())) (\<lambda>_ sv.
       let i = br_blob_hash (so_blob_ref m) in
       if i \<notin> set present then (sv, Inr present)
       else case bo_quarantine (sx_blobs sx) (sv_blobs sv) i of
         (store, Inl _) \<Rightarrow> (sv\<lparr>sv_blobs := store\<rparr>, Inr present)
       | (store, Inr _) \<Rightarrow> (sv\<lparr>sv_blobs := store\<rparr>, Inr (filter (\<lambda>j. j \<noteq> i) present))))"

text \<open>The cards of the collectable outboxes in order, each with the journal's behaviour and the clock at its turn.\<close>

definition superseded :: "outbox_state \<Rightarrow> (string \<times> int \<times> outbox_snapshot_record) list" where
  "superseded st = concat (map (\<lambda>(i, r). map (\<lambda>(v, m). (i, v, m)) (ot_snapshots r)) (filter (\<lambda>(i, r). collectable r) (ox_by_outbox_id st)))"

fun collect_cards ::
  "('a, 'io, 'b) service_env \<Rightarrow> (nat \<Rightarrow> 'io journal_io) \<Rightarrow> (nat \<Rightarrow> string) \<Rightarrow> nat \<Rightarrow> (string \<times> int \<times> outbox_snapshot_record) list \<Rightarrow>
     string list \<Rightarrow> nat \<Rightarrow> ('a, 'b, nat) service_action" where
  "collect_cards sx ios nows n [] present collected = returnA collected"
| "collect_cards sx ios nows n ((i, v, m) # cards) present collected =
     bindA (collect_card sx (ios n) (nows n) i v m present) (\<lambda>present'.
     collect_cards sx ios nows (Suc n) cards present' (if length present' < length present then Suc collected else collected))"

definition gc_superseded_snapshots ::
  "('a, 'io, 'b) service_env \<Rightarrow> (nat \<Rightarrow> 'io journal_io) \<Rightarrow> (nat \<Rightarrow> string) \<Rightarrow> ('a, 'b, nat) service_action" where
  "gc_superseded_snapshots sx ios nows =
     bindA (ensure_open sx) (\<lambda>_.
     bindA (synchronize_projection sx) (\<lambda>_ sv.
     case bo_ids (sx_blobs sx) (sv_blobs sv) of
       Inl _ \<Rightarrow> (sv, Inl (OutboxBlobError ''blob store''))
     | Inr ids \<Rightarrow> collect_cards sx ios nows 0 (superseded (sv_state sv)) (remdups ids) 0 sv))"

definition quarantine_unreferenced_blobs :: "('a, 'io, 'b) service_env \<Rightarrow> ('a, 'b, nat) service_action" where
  "quarantine_unreferenced_blobs sx =
     bindA (ensure_open sx) (\<lambda>_. bindA (synchronize_projection sx) (\<lambda>_. quarantine_unreferenced_unlocked sx))"

section \<open>Delivery coordinator\<close>

record delivery_authority =
  da_app_id :: string
  da_generation :: int
  da_connection_id :: string

definition delivery_authority_init :: "pyval \<Rightarrow> pyval \<Rightarrow> pyval \<Rightarrow> py_exn + delivery_authority" where
  "delivery_authority_init app_id generation connection_id =
     bindE (require_text app_id False ''delivery authority app_id is required'') (\<lambda>a.
     bindE (exact_int generation 1 ''delivery authority generation is invalid'') (\<lambda>g.
     bindE (require_text connection_id False ''delivery authority connection_id is required'') (\<lambda>c.
     Inr \<lparr>da_app_id = a, da_generation = g, da_connection_id = c\<rparr>)))"

datatype card_request =
    SendCard (send_agent: string) (send_generation: int) (send_target: string) (send_card: pyval) (send_uuid: string) (send_reply_to: "string option")
  | UpdateCard (update_agent: string) (update_generation: int) (update_message_id: string) (update_card: pyval)

datatype delivery_step =
    AlreadyDelivered "employee_outbox_binding option"
  | CallChannel string delivery_authority "employee_outbox_binding option" card_request

definition executable_effect :: "('a, 'io, 'b) service_env \<Rightarrow> 'io journal_io \<Rightarrow> outbox_delivery_effect \<Rightarrow> ('a, 'b, outbox_delivery_effect) service_action" where
  "executable_effect sx io e =
     bindA (if oe_state e = DS_PREPARED then mark_effect_executing sx io (oe_effect_id e) else returnA e) (\<lambda>e'.
     if oe_state e' \<noteq> DS_EXECUTING then raiseA (OutboxRuntimeError ''Outbox delivery effect is not executable'') else returnA e')"

definition card_call :: "outbox_env \<Rightarrow> outbox_record \<Rightarrow> string \<Rightarrow> employee_outbox_snapshot \<Rightarrow> delivery_authority \<Rightarrow> py_exn + card_request" where
  "card_call env r outbox_id s au =
     (case ot_binding r of
        None \<Rightarrow> bindE (employee_outbox_uuid env (PStr outbox_id)) (\<lambda>u.
          Inr (SendCard (ot_agent_id r) (da_generation au) (sn_chat_id s) (thaw_json (sn_card_json s)) u
            (if sn_thread_root_message_id s = [] then None else Some (sn_thread_root_message_id s))))
      | Some b \<Rightarrow> Inr (UpdateCard (ot_agent_id r) (da_generation au) (ob_message_id b) (thaw_json (sn_card_json s))))"

definition deliver_begin ::
  "('a, 'io, 'b) service_env \<Rightarrow> (outbox_record \<Rightarrow> outbox_exn + delivery_authority) \<Rightarrow> 'io journal_io \<Rightarrow> 'io journal_io \<Rightarrow> string \<Rightarrow> int option \<Rightarrow>
     ('a, 'b, delivery_step) service_action" where
  "deliver_begin sx resolver io1 io2 outbox_id snapshot_version =
     bindA (get_record sx outbox_id) (\<lambda>r0.
     let version = (case snapshot_version of None \<Rightarrow> ot_latest_version r0 | Some v \<Rightarrow> v) in
     if (case ot_binding r0 of None \<Rightarrow> False | Some b \<Rightarrow> version \<le> ob_bound_snapshot_version b)
     then returnA (AlreadyDelivered (ot_binding r0))
     else
       bindA (prepare_delivery sx io1 outbox_id version) (\<lambda>e0.
       if oe_state e0 = DS_COMMITTED then bindA (get_record sx outbox_id) (\<lambda>r. returnA (AlreadyDelivered (ot_binding r)))
       else
         bindA (executable_effect sx io2 e0) (\<lambda>e.
         bindA (get_snapshot sx outbox_id (Some (oe_snapshot_version e))) (\<lambda>s.
         bindA (get_record sx outbox_id) (\<lambda>r.
         bindA (liftA (resolver r)) (\<lambda>au.
         bindA (liftA (lift_value (card_call (sx_outbox sx) r outbox_id s au))) (\<lambda>c.
         returnA (CallChannel (oe_effect_id e) au (ot_binding r) c))))))))"

record delivery_receipt =
  rc_success :: pyval
  rc_app_id :: pyval
  rc_generation :: pyval
  rc_connection_id :: pyval
  rc_message_id :: pyval

definition validate_receipt :: "delivery_receipt \<Rightarrow> delivery_authority \<Rightarrow> employee_outbox_binding option \<Rightarrow> bool" where
  "validate_receipt rc au current \<longleftrightarrow> rc_success rc = PBool True \<and> rc_app_id rc = PStr (da_app_id au) \<and>
     py_norm (rc_generation rc) = py_norm (PInt (da_generation au)) \<and> rc_connection_id rc = PStr (da_connection_id au) \<and>
     (case rc_message_id rc of PStr m \<Rightarrow> m \<noteq> [] \<and> (case current of None \<Rightarrow> True | Some b \<Rightarrow> m = ob_message_id b) | _ \<Rightarrow> False)"

definition deliver_finish ::
  "('a, 'io, 'b) service_env \<Rightarrow> 'io journal_io \<Rightarrow> string \<Rightarrow> delivery_authority \<Rightarrow> employee_outbox_binding option \<Rightarrow> delivery_receipt \<Rightarrow>
     ('a, 'b, employee_outbox_binding) service_action" where
  "deliver_finish sx io effect_id au current rc =
     (if \<not> validate_receipt rc au current then raiseA (OutboxRuntimeError ''employee delivery receipt does not match authority'')
      else commit_delivery sx io effect_id (rc_app_id rc) (rc_generation rc) (rc_connection_id rc) (rc_message_id rc))"

section \<open>Collaboration publications\<close>

definition published_as :: "string \<Rightarrow> string \<Rightarrow> string \<Rightarrow> journal_event \<Rightarrow> bool" where
  "published_as outbox_id team_run_id assignment_id e \<longleftrightarrow> je_aggregate_id e = outbox_id \<and>
     field_of (je_payload e) ''team_run_id'' = PStr team_run_id \<and> field_of (je_payload e) ''assignment_id'' = PStr assignment_id"

definition publication_of :: "string \<Rightarrow> transaction_frame list \<Rightarrow> journal_event option" where
  "publication_of causal_event_id fs = List.find (\<lambda>e. je_event_type e = ''employee.outbox.collaboration_published'' \<and>
     field_of (je_payload e) ''causal_event_id'' = PStr causal_event_id) (concat (map tf_events fs))"

definition write_publication ::
  "('a, 'io, 'b) service_env \<Rightarrow> 'io journal_io \<Rightarrow> outbox_record \<Rightarrow> employee_outbox_binding \<Rightarrow> string \<Rightarrow> string \<Rightarrow> string \<Rightarrow> string \<Rightarrow> ('a, 'b, bool) service_action" where
  "write_publication sx io r b outbox_id team_run_id assignment_id causal_event_id = (\<lambda>sv.
     case event_init (we_frame (sx_writer sx)) (PStr ''employee.outbox.collaboration_published'') (PStr outbox_id)
        (PDict [(''tenant_key'', PStr (ot_tenant_key r)), (''chat_id'', PStr (ot_chat_id r)), (''agent_id'', PStr (ot_agent_id r)),
           (''app_id'', PStr (ob_app_id b)), (''generation'', PInt (ob_generation b)), (''team_run_id'', PStr team_run_id),
           (''assignment_id'', PStr assignment_id), (''causal_event_id'', PStr causal_event_id)]) (PFloat (Fin (ji_event_time io))) (PStr []) of
       Inl e \<Rightarrow> (sv, Inl (OutboxJournalError (JFrame e)))
     | Inr event \<Rightarrow>
         (let l = get_last_frame (sv_writer sv) in
          case commit (sx_writer sx) (sx_anchor sx) (sv_writer sv) (sv_anchor sv)
            \<lparr>cc_events = [event], cc_expected = get_aggregate_versions (sv_writer sv) [outbox_id],
             cc_head_sequence = Some (case l of None \<Rightarrow> 0 | Some f \<Rightarrow> tf_sequence f),
             cc_head_hash = Some (case l of None \<Rightarrow> [] | Some f \<Rightarrow> frame_hash (we_frame (sx_writer sx)) f),
             cc_tx_id = ji_tx_id io, cc_now = ji_now io\<rparr> (ji_append io) (ji_anchor io) of
            (w, a, Inl e) \<Rightarrow> (sv\<lparr>sv_writer := w, sv_anchor := a\<rparr>, Inl (OutboxJournalError e))
          | (w, a, Inr (f, DURABLE_NOT_ANCHORED)) \<Rightarrow>
              (sv\<lparr>sv_writer := w, sv_anchor := a\<rparr>, Inl (OutboxWriteDisabledError ''collaboration publication was not anchored''))
          | (w, a, Inr (f, ANCHORED)) \<Rightarrow>
              bindA (synchronize_projection sx) (\<lambda>_. returnA True) (sv\<lparr>sv_writer := w, sv_anchor := a\<rparr>)))"

definition record_collaboration_publication ::
  "('a, 'io, 'b) service_env \<Rightarrow> 'io journal_io \<Rightarrow> string \<Rightarrow> string \<Rightarrow> string \<Rightarrow> string \<Rightarrow> ('a, 'b, bool) service_action" where
  "record_collaboration_publication sx io outbox_id team_run_id assignment_id causal_event_id =
     (if [] \<in> set [outbox_id, team_run_id, assignment_id, causal_event_id]
      then raiseA (OutboxValueError (ValueError ''collaboration publication coordinates are required''))
      else
        bindA (ensure_open sx) (\<lambda>_.
        bindA (synchronize_projection sx) (\<lambda>_.
        bindA (getA (\<lambda>sv. dget (ox_by_outbox_id (sv_state sv)) outbox_id)) (\<lambda>found.
        case found of
          None \<Rightarrow> raiseA (OutboxConflictError ''collaboration publication is not delivered'')
        | Some r \<Rightarrow>
            (case ot_binding r of
               None \<Rightarrow> raiseA (OutboxConflictError ''collaboration publication is not delivered'')
             | Some b \<Rightarrow>
                 bindA (liftA (latest r)) (\<lambda>m.
                 bindA (getA sv_blobs) (\<lambda>store.
                 bindA (liftA (service_error (read_snapshot sx store r m))) (\<lambda>s.
                 if \<not> card_terminal (sn_state s) then raiseA (OutboxConflictError ''collaboration publication is not terminal'')
                 else (\<lambda>sv.
                   case replay (sx_writer sx) (sx_anchor sx) (sv_writer sv) (sv_anchor sv) 1 of
                     (w, Inl e) \<Rightarrow> (sv\<lparr>sv_writer := w\<rparr>, Inl (OutboxJournalError e))
                   | (w, Inr fs) \<Rightarrow>
                       (case publication_of causal_event_id fs of
                          Some e \<Rightarrow> (sv\<lparr>sv_writer := w\<rparr>, Inr (published_as outbox_id team_run_id assignment_id e))
                        | None \<Rightarrow> write_publication sx io r b outbox_id team_run_id assignment_id causal_event_id (sv\<lparr>sv_writer := w\<rparr>)))))))))))"

section \<open>The invariant holds whatever the environment does\<close>

definition service_ok :: "('a, 'b) outbox_service \<Rightarrow> bool" where
  "service_ok sv \<longleftrightarrow> outbox_inv (sv_state sv)"

lemma inv_irrelevant [simp]:
  "outbox_inv (st\<lparr>ox_closed_employees := c\<rparr>) = outbox_inv st" "outbox_inv (st\<lparr>ox_cursor_sequence := n\<rparr>) = outbox_inv st"
  "outbox_inv (st\<lparr>ox_cursor_hash := h\<rparr>) = outbox_inv st" "outbox_inv (close_unreadable sx b st) = outbox_inv st"
  "outbox_inv (at_cursor fe fs st) = outbox_inv st"
  by (simp_all add: outbox_inv_def close_unreadable_def at_cursor_def)

lemma keeps_ensure_open: "keeps service_ok (ensure_open sx)"
  by (rule keepsI) (simp add: ensure_open_def)

lemma keeps_quarantine: "keeps service_ok (quarantine_unreferenced_unlocked sx)"
  by (rule keepsI) (simp add: quarantine_unreferenced_unlocked_def service_ok_def Let_def split: sum.split prod.split)

lemma keeps_rebuild_open: "keeps service_ok (rebuild_open sx)" for sx :: "('a, 'io, 'b) service_env"
proof (rule keepsI)
  fix sv :: "('a, 'b) outbox_service" assume sv: "service_ok sv"
  have q: "service_ok (fst (bindA (quarantine_unreferenced_unlocked sx) (\<lambda>_. returnA ()) t))" if "service_ok t" for t
    by (rule keepsD [OF keeps_bind [OF keeps_quarantine keeps_basic(1)] that])
  have f: "outbox_inv fresh" if "foldE (reduce_outbox_event (sx_outbox sx)) outbox_init es = Inr fresh" for es fresh
    by (rule outbox.replay_invar [OF outbox_inv_init that])
  show "service_ok (fst (rebuild_open sx sv))"
  proof (cases "ao_read (sx_anchor sx) (sv_anchor sv)")
    case (Inr anchor)
    obtain w res where rp: "replay (sx_writer sx) (sx_anchor sx) (sv_writer sv) (sv_anchor sv) 1 = (w, res)" by force
    show ?thesis
    proof (cases res)
      case frames: (Inr frames)
      let ?a = "takeWhile (\<lambda>f. tf_sequence f \<le> an_sequence anchor) frames"
      show ?thesis
      proof (cases "foldE (reduce_outbox_event (sx_outbox sx)) outbox_init (outbox_events ?a)")
        case fresh: (Inr fresh)
        have "service_ok (sv\<lparr>sv_writer := w, sv_state := close_unreadable sx (sv_blobs sv) (at_cursor (we_frame (sx_writer sx)) ?a fresh)\<rparr>)"
          using f [OF fresh] by (simp add: service_ok_def)
        from q [OF this] show ?thesis using sv
          by (simp add: rebuild_open_def Inr rp frames fresh Let_def) (simp add: service_ok_def)
      qed (use sv in \<open>simp add: rebuild_open_def Inr rp frames service_ok_def\<close>)
    qed (use sv in \<open>simp add: rebuild_open_def Inr rp service_ok_def\<close>)
  qed (use sv in \<open>simp add: rebuild_open_def\<close>)
qed

lemma keeps_rebuild: "keeps service_ok (rebuild_projection sx)"
  unfolding rebuild_projection_def by (intro keeps_bind keeps_ensure_open keeps_rebuild_open)

lemma keeps_synchronize: "keeps service_ok (synchronize_projection sx)"
  using keeps_rebuild [of sx] by (auto simp: keeps_def synchronize_projection_def split: sum.split)

lemma keeps_commit: "keeps service_ok (commit_unlocked sx io i t p)" for sx :: "('a, 'io, 'b) service_env"
proof (rule keepsI)
  fix sv :: "('a, 'b) outbox_service" assume "service_ok sv"
  moreover from this have "outbox_inv st" if "foldE (reduce_outbox_event (sx_outbox sx)) (sv_state sv) es = Inr st" for es st
    using that outbox.replay_invar by (auto simp: service_ok_def)
  ultimately show "service_ok (fst (commit_unlocked sx io i t p sv))"
    by (auto simp: commit_unlocked_def service_ok_def split: sum.split prod.split commit_state.split)
qed

lemma keeps_lookups: "keeps service_ok (record_of i)" "keeps service_ok (effect_of k)" "keeps service_ok (close_employee key msg)"
  by (simp_all add: keeps_def record_of_def effect_of_def close_employee_def service_ok_def)

lemmas keeps_service = keeps_ensure_open keeps_quarantine keeps_rebuild keeps_synchronize keeps_commit keeps_lookups

lemma keeps_stored: "keeps service_ok (stored_card i v)" "keeps service_ok (delivery_of i k)"
  unfolding stored_card_def delivery_of_def by (intro keeps_rules keeps_service)+

lemma keeps_publish: "keeps service_ok (publish_snapshot sx s bytes sha)"
  by (rule keepsI) (simp add: publish_snapshot_def service_ok_def Let_def split: sum.split prod.split)

lemma keeps_existing: "keeps service_ok (existing_or_next sx s)"
  by (rule keepsI)
    (simp add: existing_or_next_def Let_def keepsD [OF keeps_lookups(3)] split: option.split sum.split read_exn.split)

lemma keeps_commit_published: "keeps service_ok (commit_published sx io s sha b)" for sx :: "('a, 'io, 'b) service_env"
proof (rule keepsI)
  fix sv :: "('a, 'b) outbox_service" assume "service_ok sv"
  note ok = keepsD [OF keeps_commit this, of sx io "sn_outbox_id s" "''employee.outbox.snapshot_appended''" "appended_payload s sha b"]
  obtain u x where c: "commit_unlocked sx io (sn_outbox_id s) ''employee.outbox.snapshot_appended'' (appended_payload s sha b) sv = (u, x)"
    by (rule prod.exhaust)
  from ok show "service_ok (fst (commit_published sx io s sha b sv))"
    by (cases x) (simp_all add: c commit_published_def service_ok_def)
qed

lemma keeps_append: "keeps service_ok (append_snapshot sx io s)"
  unfolding append_snapshot_def Let_def
  by (intro keeps_rules keeps_service keeps_cases keeps_stored keeps_publish keeps_existing keeps_commit_published)

lemma keeps_get: "keeps service_ok (get_snapshot sx i v)" "keeps service_ok (get_record sx i)"
  unfolding get_snapshot_def get_record_def Let_def by (intro keeps_rules keeps_service keeps_cases)+

lemma keeps_prepare: "keeps service_ok (prepare_delivery sx io i v)"
  unfolding prepare_delivery_def by (intro keeps_rules keeps_service keeps_cases keeps_stored)

lemma keeps_mark: "keeps service_ok (mark_effect_executing sx io k)"
  unfolding mark_effect_executing_def by (intro keeps_rules keeps_service keeps_cases keeps_stored)

lemma keeps_commit_delivery: "keeps service_ok (commit_delivery sx io k app gen conn mid)"
  unfolding commit_delivery_def by (intro keeps_rules keeps_service keeps_cases)

lemma keeps_collect: "keeps service_ok (collect_card sx io now i v m present)"
  unfolding collect_card_def
  by (intro keeps_rules keeps_service keeps_if) (rule keepsI, simp add: service_ok_def Let_def split: prod.split sum.split)

lemma keeps_collect_cards: "keeps service_ok (collect_cards sx ios nows n cards present collected)"
  by (induction sx ios nows n cards present collected rule: collect_cards.induct)
    (auto intro: keeps_rules keeps_collect)

lemma keeps_gc: "keeps service_ok (gc_superseded_snapshots sx ios nows)"
  unfolding gc_superseded_snapshots_def
  by (intro keeps_rules keeps_service, rule keepsI) (simp add: keepsD [OF keeps_collect_cards] split: sum.split)

lemma keeps_write_publication: "keeps service_ok (write_publication sx io r b i t a c)" for sx :: "('a, 'io, 'b) service_env"
proof (rule keepsI)
  fix sv :: "('a, 'b) outbox_service" assume "service_ok sv"
  moreover have "service_ok (fst (bindA (synchronize_projection sx) (\<lambda>_. returnA True) u))" if "service_ok u" for u
    by (rule keepsD [OF keeps_bind [OF keeps_synchronize keeps_basic(1)] that])
  ultimately show "service_ok (fst (write_publication sx io r b i t a c sv))"
    by (simp add: write_publication_def service_ok_def Let_def split: sum.split prod.split commit_state.split)
qed

lemma keeps_publication: "keeps service_ok (record_collaboration_publication sx io i t a c)" for sx :: "('a, 'io, 'b) service_env"
  unfolding record_collaboration_publication_def
proof (intro keeps_rules keeps_service keeps_cases, rule keepsI)
  fix r b and sv :: "('a, 'b) outbox_service" assume "service_ok sv"
  then have "service_ok (sv\<lparr>sv_writer := w\<rparr>)" for w by (simp add: service_ok_def)
  then show "service_ok (fst (case replay (sx_writer sx) (sx_anchor sx) (sv_writer sv) (sv_anchor sv) 1 of
       (w, Inl e) \<Rightarrow> (sv\<lparr>sv_writer := w\<rparr>, Inl (OutboxJournalError e))
     | (w, Inr fs) \<Rightarrow> (case publication_of c fs of
          Some e \<Rightarrow> (sv\<lparr>sv_writer := w\<rparr>, Inr (published_as i t a e))
        | None \<Rightarrow> write_publication sx io r b i t a c (sv\<lparr>sv_writer := w\<rparr>))))"
    by (simp add: keepsD [OF keeps_write_publication] split: prod.split sum.split option.split)
qed

lemma keeps_admission: "keeps service_ok (stop_admission sx)" "keeps service_ok (close_service sx)"
  unfolding stop_admission_def close_service_def
  by (intro keeps_rules keeps_service keepsI; simp add: modifyA_def service_ok_def)+

text \<open>The calls a service can serve, each with what the environment does while it runs.\<close>

datatype 'io outbox_call =
    AppendSnapshot "'io journal_io" employee_outbox_snapshot
  | GetSnapshot string "int option"
  | PrepareDelivery "'io journal_io" string int
  | MarkExecuting "'io journal_io" string
  | CommitDelivery "'io journal_io" string pyval pyval pyval pyval
  | Publish "'io journal_io" string string string string
  | CollectGarbage "nat \<Rightarrow> 'io journal_io" "nat \<Rightarrow> string"
  | QuarantineBlobs
  | StopAdmission
  | CloseService

primrec serve :: "('a, 'io, 'b) service_env \<Rightarrow> 'io outbox_call \<Rightarrow> ('a, 'b) outbox_service \<Rightarrow> ('a, 'b) outbox_service" where
  "serve sx (AppendSnapshot io s) sv = fst (append_snapshot sx io s sv)"
| "serve sx (GetSnapshot i v) sv = fst (get_snapshot sx i v sv)"
| "serve sx (PrepareDelivery io i v) sv = fst (prepare_delivery sx io i v sv)"
| "serve sx (MarkExecuting io k) sv = fst (mark_effect_executing sx io k sv)"
| "serve sx (CommitDelivery io k app gen conn mid) sv = fst (commit_delivery sx io k app gen conn mid sv)"
| "serve sx (Publish io i t a c) sv = fst (record_collaboration_publication sx io i t a c sv)"
| "serve sx (CollectGarbage ios nows) sv = fst (gc_superseded_snapshots sx ios nows sv)"
| "serve sx QuarantineBlobs sv = fst (quarantine_unreferenced_blobs sx sv)"
| "serve sx StopAdmission sv = fst (stop_admission sx sv)"
| "serve sx CloseService sv = fst (close_service sx sv)"

lemma serve_keeps: "service_ok sv \<Longrightarrow> service_ok (serve sx c sv)"
  by (cases c) (simp_all add: keepsD [OF keeps_append] keepsD [OF keeps_get(1)] keepsD [OF keeps_prepare] keepsD [OF keeps_mark]
      keepsD [OF keeps_commit_delivery] keepsD [OF keeps_publication] keepsD [OF keeps_gc] keepsD [OF keeps_admission(1)]
      keepsD [OF keeps_admission(2)] quarantine_unreferenced_blobs_def
      keepsD [OF keeps_bind [OF keeps_ensure_open keeps_bind [OF keeps_synchronize keeps_quarantine]]])

definition fresh_service :: "journal_writer \<Rightarrow> 'a \<Rightarrow> 'b \<Rightarrow> string \<Rightarrow> ('a, 'b) outbox_service" where
  "fresh_service w a store key = \<lparr>sv_writer = w, sv_anchor = a, sv_blobs = store, sv_state = outbox_init, sv_active_key_id = key,
     sv_admission_closed = False, sv_closed = False\<rparr>"


section \<open>What the service writes can be replayed\<close>

text \<open>
  The service writes an event before the projection reduces it. An event the projection refused would stay in the journal
  and stop every later rebuild, so the checks before the write have to imply the reducer's. They do, except for one:
  \<open>commit_delivery\<close> does not require a patch to be newer than the binding.
\<close>

definition written :: "string \<Rightarrow> string \<Rightarrow> pydict \<Rightarrow> timestamp \<Rightarrow> string \<Rightarrow> journal_event" where
  "written t i p ts h = norm_event \<lparr>je_event_type = t, je_aggregate_id = i, je_payload = p, je_timestamp = ts, je_payload_hash = h\<rparr>"

lemma written_field: "dict_ok p \<Longrightarrow> k \<in> set (dkeys p) \<Longrightarrow> field_of (je_payload (written t i p ts h)) k = json_sorted (field_of p k)"
  by (simp add: written_def norm_event_def field_of_sorted_items)

lemma written_keys: "exact_keys (je_payload (written t i p ts h)) ks = (set (dkeys p) = set ks)"
  by (simp add: written_def norm_event_def exact_keys_def)

lemma written_simps [simp]: "je_event_type (written t i p ts h) = t" "je_aggregate_id (written t i p ts h) = i"
  by (simp_all add: written_def norm_event_def)

lemma new_delivery_Inr:
  assumes "new_delivery env r i v m = Inr e"
  shows "delivery_ok env e \<and> oe_outbox_id e = i \<and> oe_state e = DS_PREPARED \<and> oe_snapshot_version e = v \<and> oe_kind e = delivery_kind_for r"
proof -
  from assms obtain x where d: "delivery_init env [(''schema_version'', PInt 1), (''effect_id'', PStr x), (''outbox_id'', PStr i),
      (''kind'', PStr (delivery_kind_value (delivery_kind_for r))), (''state'', PStr (delivery_state_value DS_PREPARED)), (''snapshot_version'', PInt v),
      (''snapshot_sha256'', PStr (so_payload_sha256 m)), (''attempt'', PInt (next_attempt r v)), (''error_code'', PStr [])] = Inr e"
    unfolding new_delivery_def Let_def by (elim bindE_InrE)
  from delivery_init_fields [OF d] d show ?thesis
    by (auto simp: delivery_ok_def field_of_def delivery_kind_enum.value_inj delivery_state_enum.value_inj
        simp del: delivery_kind_value.simps delivery_state_value.simps)
qed

lemma new_binding_Inr:
  assumes "new_binding env r e app gen conn mid = Inr b"
  shows "binding_ok env b \<and> ob_outbox_id b = ot_outbox_id r \<and> ob_stable_uuid b = oe_uuid5 env (ot_outbox_id r) \<and> app = PStr (ob_app_id b) \<and>
    mid = PStr (ob_message_id b) \<and> ob_bound_snapshot_version b = oe_snapshot_version e"
proof -
  from assms obtain u where d: "binding_init env [(''schema_version'', PInt 1), (''outbox_id'', PStr (ot_outbox_id r)), (''stable_uuid'', PStr u), (''app_id'', app),
       (''generation'', gen), (''connection_id'', conn), (''message_id'', mid), (''bound_snapshot_version'', PInt (oe_snapshot_version e))] = Inr b"
    unfolding new_binding_def by (elim bindE_InrE)
  from binding_init_fields [OF d] d show ?thesis by (auto simp: binding_ok_def field_of_def)
qed

lemma pending_None:
  assumes "pending_delivery r v = None"
  shows "\<not> list_ex delivery_active (dvals (ot_effects r))"
proof -
  have "sort_key (\<lambda>e. (oe_snapshot_version e, oe_attempt e)) (filter delivery_active (dvals (ot_effects r))) = []"
    using assms by (simp add: pending_delivery_def split: list.splits)
  then have "set (filter delivery_active (dvals (ot_effects r))) = {}" by (metis set_sort list.set(1))
  then show ?thesis by (auto simp: list_ex_iff)
qed

lemma prepared_replayable:
  assumes r: "dget (ox_by_outbox_id st) i = Some r" "outbox_record_ok i r" and m: "dget (ot_snapshots r) v = Some m"
    and e: "pending_delivery r v = None" "new_delivery env r i v m = Inr e" "dget (ot_effects r) (oe_effect_id e) = None"
  shows "reduce_outbox_event env st (written ''employee.outbox.effect_prepared'' i [(''effect'', PDict (delivery_to_dict e))] ts h) =
    Inr (put_outbox st i (put_effect r e))"
proof -
  note ne = new_delivery_Inr [OF e(2)]
  have "delivery_from_dict env (json_sorted (PDict (delivery_to_dict e))) = Inr e" using ne delivery_sorted by blast
  moreover have "field_of (je_payload (written t i [(''effect'', PDict (delivery_to_dict e))] ts h)) ''effect'' = json_sorted (PDict (delivery_to_dict e))" for t
    by (subst written_field) (simp_all add: dict_ok_def field_of_def)
  ultimately show ?thesis using r m ne e(3) pending_None [OF e(1)]
    by (simp add: reduce_outbox_event_def reduce_effect_prepared_def written_keys outbox_record_ok_def)
qed

lemma executing_replayable:
  assumes r: "dget (ox_by_outbox_id st) i = Some r" and e: "dget (ot_effects r) k = Some e" "oe_state e = DS_PREPARED"
  shows "reduce_outbox_event env st (written ''employee.outbox.effect_executing'' i [(''effect_id'', PStr k)] ts h) =
    Inr (put_outbox st i (put_effect r (e\<lparr>oe_state := DS_EXECUTING\<rparr>)))"
proof -
  have "field_of (je_payload (written t i [(''effect_id'', PStr k)] ts h)) ''effect_id'' = PStr k" for t
    by (subst written_field) (simp_all add: dict_ok_def field_of_def)
  with r e show ?thesis by (simp add: reduce_outbox_event_def reduce_effect_executing_def written_keys effect_named_def)
qed

lemma committed_replayable:
  assumes r: "dget (ox_by_outbox_id st) i = Some r" "outbox_record_ok i r" and e: "dget (ot_effects r) k = Some e" "oe_state e = DS_EXECUTING"
    and b: "patch_matches r e app mid = Inr ()" "new_binding env r e app gen conn mid = Inr b" and uuid: "\<And>c. ot_binding r = Some c \<Longrightarrow> binding_ok env c"
  shows "reduce_outbox_event env st (written ''employee.outbox.delivery_committed'' i [(''effect_id'', PStr k), (''binding'', PDict (binding_to_dict b))] ts h) =
    (if (case ot_binding r of None \<Rightarrow> True | Some c \<Rightarrow> ob_bound_snapshot_version c < oe_snapshot_version e)
     then Inr (put_outbox st i ((put_effect r (e\<lparr>oe_state := DS_COMMITTED\<rparr>))\<lparr>ot_binding := Some b\<rparr>))
     else projection_error ''Outbox patch changed stable binding'')"
proof -
  note nb = new_binding_Inr [OF b(2)]
  let ?p = "[(''effect_id'', PStr k), (''binding'', PDict (binding_to_dict b))]"
  have "binding_from_dict env (json_sorted (PDict (binding_to_dict b))) = Inr b" using nb binding_sorted by blast
  moreover have "field_of (je_payload (written t i ?p ts h)) ''effect_id'' = PStr k"
    "field_of (je_payload (written t i ?p ts h)) ''binding'' = json_sorted (PDict (binding_to_dict b))" for t
    by (subst written_field; simp add: dict_ok_def field_of_def)+
  moreover have "oe_kind e = delivery_kind_for r"
    using r(2) e deliveries_okD(4) by (auto simp: outbox_record_ok_def delivery_active_def)
  moreover have "binding_accepted r e b = (if (case ot_binding r of None \<Rightarrow> True | Some c \<Rightarrow> ob_bound_snapshot_version c < oe_snapshot_version e)
      then Inr () else projection_error ''Outbox patch changed stable binding'')"
  proof (cases "ot_binding r")
    case None
    with nb calculation(4) show ?thesis by (simp add: binding_accepted_def delivery_kind_for_def)
  next
    case (Some c)
    from uuid [OF Some] obtain d where "binding_init env d = Inr c" by (auto simp: binding_ok_def)
    from binding_init_fields [OF this] have "ob_stable_uuid c = oe_uuid5 env (ob_outbox_id c)" by blast
    moreover have "ob_outbox_id c = ot_outbox_id r" using r(2) Some binding_followsD(2) by (auto simp: outbox_record_ok_def)
    ultimately show ?thesis using Some nb b(1) \<open>oe_kind e = delivery_kind_for r\<close>
      by (auto simp: binding_accepted_def delivery_kind_for_def patch_matches_def split: if_splits)
  qed
  ultimately show ?thesis using r(1) e
    by (simp add: reduce_outbox_event_def reduce_delivery_committed_def written_keys effect_named_def insert_commute)
qed

definition bindings_valid :: "outbox_env \<Rightarrow> outbox_state \<Rightarrow> bool" where
  "bindings_valid env st \<longleftrightarrow> outbox_inv st \<and> (\<forall>i r b. dget (ox_by_outbox_id st) i = Some r \<longrightarrow> ot_binding r = Some b \<longrightarrow> binding_ok env b)"

interpretation outbox_bindings: event_sourced "reduce_outbox_event env" "bindings_valid env" "\<lambda>_ _. True"
proof
  fix st st' ev assume inv: "bindings_valid env st" and r: "reduce_outbox_event env st ev = Inr st'"
  from reduce_outbox_event_step [OF r] obtain x where
    x: "st' = put_outbox st (je_aggregate_id ev) x" "outbox_step env (je_aggregate_id ev) (dget (ox_by_outbox_id st) (je_aggregate_id ev)) x" by blast
  have "binding_ok env b" if "ot_binding x = Some b" for b
    using x(2) that inv by (cases rule: outbox_step.cases) (auto simp: bindings_valid_def put_effect_def)
  moreover have "outbox_inv st'" using inv r outbox.step_invar by (auto simp: bindings_valid_def)
  ultimately show "bindings_valid env st'" using inv x(1) by (auto simp: bindings_valid_def put_outbox_def split: if_splits)
qed simp_all



section \<open>A patch that is older than the binding\<close>

text \<open>
  Two deliveries that overlap can order it: the first reads an outbox without a binding and asks for version one,
  the second delivers version two meanwhile. The checks of \<open>prepare_delivery\<close> and \<open>commit_delivery\<close> then let the patch to
  version one through to the journal, where no later history can be replayed past it.
\<close>

definition kind_digest :: "string \<Rightarrow> string" where
  "kind_digest s = replicate 63 (CHR ''a'') @ [if CHR ''p'' \<in> set s then CHR ''b'' else CHR ''a'']"

definition overlap_env :: outbox_env where
  "overlap_env = sample_outbox_env\<lparr>oe_frame := (oe_frame sample_outbox_env)\<lparr>fe_sha256 := kind_digest\<rparr>\<rparr>"

definition overlap_id :: string where
  "overlap_id = ''out_'' @ kind_digest (''t'' @ nul @ ''a'' @ nul @ ''n'')"

definition overlap_card :: "int \<Rightarrow> string \<Rightarrow> journal_event" where
  "overlap_card v s = (sample_card v s 0)\<lparr>je_aggregate_id := overlap_id,
     je_payload := dset (je_payload (sample_card v s 0)) ''blob_ref''
       (PDict (dset (case sample_blob of PDict d \<Rightarrow> d | _ \<Rightarrow> []) ''labels_hash'' (PStr (kind_digest ''{}''))))\<rparr>"

definition overlap_effect :: "delivery_effect_kind \<Rightarrow> int \<Rightarrow> outbox_delivery_effect" where
  "overlap_effect k v = (sample_delivery v k)\<lparr>oe_outbox_id := overlap_id,
     oe_effect_id := ''outeff_'' @ kind_digest (overlap_id @ nul @ delivery_kind_value k @ nul @ show_int v @ nul @ show_int 1)\<rparr>"

definition overlap_binding :: "int \<Rightarrow> employee_outbox_binding" where
  "overlap_binding v = (sample_binding v)\<lparr>ob_outbox_id := overlap_id\<rparr>"

definition overlap_commit :: "delivery_effect_kind \<Rightarrow> int \<Rightarrow> journal_event" where
  "overlap_commit k v = (outbox_event ''delivery_committed'' [(''effect_id'', PStr (oe_effect_id (overlap_effect k v))),
     (''binding'', PDict (binding_to_dict (overlap_binding v)))])\<lparr>je_aggregate_id := overlap_id\<rparr>"

definition overlap_start :: "delivery_effect_kind \<Rightarrow> int \<Rightarrow> journal_event list" where
  "overlap_start k v = map (je_aggregate_id_update (\<lambda>_. overlap_id))
     [outbox_event ''effect_prepared'' [(''effect'', PDict (delivery_to_dict (overlap_effect k v)))],
      outbox_event ''effect_executing'' [(''effect_id'', PStr (oe_effect_id (overlap_effect k v)))]]"

definition overlap_delivered :: "journal_event list" where
  "overlap_delivered = [overlap_card 1 ''queued'', overlap_card 2 ''running''] @ overlap_start DK_CREATE 2 @ [overlap_commit DK_CREATE 2]"

text \<open>Version two is delivered; version one has no pending delivery, so a patch to it is prepared as the new effect.\<close>

lemma overlap_prepares:
  "\<exists>st r m. foldE (reduce_outbox_event overlap_env) outbox_init overlap_delivered = Inr st \<and>
     dget (ox_by_outbox_id st) overlap_id = Some r \<and> dget (ot_snapshots r) 1 = Some m \<and> pending_delivery r 1 = None \<and>
     new_delivery overlap_env r overlap_id 1 m = Inr (overlap_effect DK_PATCH 1)"
proof -
  have "(case foldE (reduce_outbox_event overlap_env) outbox_init overlap_delivered of Inl _ \<Rightarrow> False | Inr st \<Rightarrow>
     (case dget (ox_by_outbox_id st) overlap_id of None \<Rightarrow> False | Some r \<Rightarrow> (case dget (ot_snapshots r) 1 of None \<Rightarrow> False | Some m \<Rightarrow>
       Option.is_none (pending_delivery r 1) \<and>
       new_delivery overlap_env r overlap_id 1 m = Inr (overlap_effect DK_PATCH 1))))"
    by code_simp
  then show ?thesis by (auto simp: Option.is_none_def split: sum.splits option.splits)
qed

lemma overlap_checks:
  "\<exists>st r e. foldE (reduce_outbox_event overlap_env) outbox_init (overlap_delivered @ overlap_start DK_PATCH 1) = Inr st \<and>
     dget (ox_by_outbox_id st) overlap_id = Some r \<and> dget (ot_effects r) (oe_effect_id (overlap_effect DK_PATCH 1)) = Some e \<and>
     oe_state e = DS_EXECUTING \<and> patch_matches r e (PStr ''app'') (PStr ''m'') = Inr () \<and>
     new_binding overlap_env r e (PStr ''app'') (PInt 1) (PStr ''cn'') (PStr ''m'') = Inr (overlap_binding 1)"
proof -
  have "(case foldE (reduce_outbox_event overlap_env) outbox_init (overlap_delivered @ overlap_start DK_PATCH 1) of Inl _ \<Rightarrow> False | Inr st \<Rightarrow>
     (case dget (ox_by_outbox_id st) overlap_id of None \<Rightarrow> False | Some r \<Rightarrow>
       (case dget (ot_effects r) (oe_effect_id (overlap_effect DK_PATCH 1)) of None \<Rightarrow> False | Some e \<Rightarrow> oe_state e = DS_EXECUTING \<and>
       patch_matches r e (PStr ''app'') (PStr ''m'') = Inr () \<and>
       new_binding overlap_env r e (PStr ''app'') (PInt 1) (PStr ''cn'') (PStr ''m'') = Inr (overlap_binding 1))))"
    by code_simp
  then show ?thesis by (auto simp: Option.is_none_def split: sum.splits option.splits)
qed

lemma stale_patch_poisons:
  "foldE (reduce_outbox_event overlap_env) outbox_init (overlap_delivered @ overlap_start DK_PATCH 1 @ [overlap_commit DK_PATCH 1] @ later) =
     projection_error ''Outbox patch changed stable binding''"
proof -
  have "(case foldE (reduce_outbox_event overlap_env) outbox_init (overlap_delivered @ overlap_start DK_PATCH 1 @ [overlap_commit DK_PATCH 1]) of
      Inl (OutboxProjectionError m) \<Rightarrow> m = ''Outbox patch changed stable binding'' | _ \<Rightarrow> False)"
    by code_simp
  then have "foldE (reduce_outbox_event overlap_env) outbox_init (overlap_delivered @ overlap_start DK_PATCH 1 @ [overlap_commit DK_PATCH 1]) =
      projection_error ''Outbox patch changed stable binding''"
    by (simp split: sum.splits outbox_exn.splits)
  from foldE_stuck [OF this, of later] show ?thesis by simp
qed

end
