(* ===== verification/Fire_State.thy ===== *)
theory Fire_State
  imports Journal_Frame Replay
begin

text \<open>
  The retirement saga of \<^verbatim>\<open>src/src/autonomous/provisioning/fire_state.py\<close>: the state of a retirement request, rebuilt from the
  events of the journal. \<open>reduce_fire\<close> is the body of the loop over events; an event comes with the
  sequence number of its frame. \<open>str(value)\<close> of a value that is not a string and \<open>datetime.fromisoformat\<close> are
  fields of the environment.
\<close>

section \<open>State\<close>

datatype fire_exn = FireProjectionError string | FireValueError

datatype fire_effect_state = FE_PREPARED | FE_EXECUTING | FE_COMMITTED | FE_ACTION_REQUIRED

fun fire_effect_state_value :: "fire_effect_state \<Rightarrow> string" where
  "fire_effect_state_value FE_PREPARED = ''prepared''"
| "fire_effect_state_value FE_EXECUTING = ''executing''"
| "fire_effect_state_value FE_COMMITTED = ''committed''"
| "fire_effect_state_value FE_ACTION_REQUIRED = ''action_required''"

definition fire_effect_state_members :: "fire_effect_state list" where
  "fire_effect_state_members = [FE_PREPARED, FE_EXECUTING, FE_COMMITTED, FE_ACTION_REQUIRED]"

interpretation fire_effect_state_enum: py_enum fire_effect_state_value fire_effect_state_members
proof
  show "x \<in> set fire_effect_state_members" for x by (cases x) (simp_all add: fire_effect_state_members_def)
qed (simp add: fire_effect_state_members_def)

datatype fire_phase = FP_RETIRING | FP_ACTION_REQUIRED | FP_ARCHIVED | FP_SUPERSEDED

datatype fire_cleanup_mode = CM_BOUND | CM_SAFE_ABORT | CM_RECOVERABLE | CM_EXTERNAL_UNKNOWN

fun fire_cleanup_mode_value :: "fire_cleanup_mode \<Rightarrow> string" where
  "fire_cleanup_mode_value CM_BOUND = ''bound''"
| "fire_cleanup_mode_value CM_SAFE_ABORT = ''safe_abort''"
| "fire_cleanup_mode_value CM_RECOVERABLE = ''recoverable''"
| "fire_cleanup_mode_value CM_EXTERNAL_UNKNOWN = ''external_unknown''"

definition fire_cleanup_mode_members :: "fire_cleanup_mode list" where
  "fire_cleanup_mode_members = [CM_BOUND, CM_SAFE_ABORT, CM_RECOVERABLE, CM_EXTERNAL_UNKNOWN]"

interpretation fire_cleanup_mode_enum: py_enum fire_cleanup_mode_value fire_cleanup_mode_members
proof
  show "x \<in> set fire_cleanup_mode_members" for x by (cases x) (simp_all add: fire_cleanup_mode_members_def)
qed (simp add: fire_cleanup_mode_members_def)

definition FIRE_EFFECT_ORDER :: "string list" where
  "FIRE_EFFECT_ORDER = [''execution_quiesce'', ''slash_cleanup'', ''channel_stop'', ''membership_cleanup'',
     ''credential_destroy'', ''archive_move'']"

record durable_fire_state =
  fs_intent_id :: string
  fs_tenant_key :: string
  fs_message_id :: string
  fs_chat_id :: string
  fs_requester_principal_id :: string
  fs_agent_id :: string
  fs_employee_name :: string
  fs_bot_principal_id :: string
  fs_app_id :: string
  fs_credential_ref :: string
  fs_drain :: bool
  fs_cleanup_mode :: fire_cleanup_mode
  fs_phase :: fire_phase
  fs_effects :: "(string, fire_effect_state) dict"
  fs_error_code :: string
  fs_external_disposition_confirmed :: bool
  fs_external_disposition_ref :: string
  fs_external_disposed_by :: string
  fs_external_disposed_at :: string
  fs_requested_sequence :: int
  fs_last_sequence :: int

abbreviation effect_state :: "durable_fire_state \<Rightarrow> string \<Rightarrow> fire_effect_state option" where
  "effect_state s n \<equiv> dget (fs_effects s) n"

record fire_env =
  fv_str :: "pyval \<Rightarrow> string"
  fv_isoformat :: "string \<Rightarrow> bool"

type_synonym fire_states = "(string, durable_fire_state) dict"

section \<open>Requests\<close>

definition fire_required :: "string list" where
  "fire_required = [''intent_id'', ''tenant_key'', ''message_id'', ''chat_id'', ''requester_principal_id'', ''agent_id'', ''employee_name'',
     ''bot_principal_id'', ''app_id'', ''credential_ref'', ''drain'']"

definition fire_shape :: "pydict \<Rightarrow> bool" where
  "fire_shape p \<longleftrightarrow> exact_keys p fire_required \<or> exact_keys p (''pre_binding'' # fire_required) \<or> exact_keys p (''cleanup_mode'' # fire_required)"

text \<open>\<open>value in {None, False}\<close>: a number equal to zero is \<open>False\<close>; a value that cannot be hashed raises, which is caught.\<close>

fun none_or_false :: "pyval \<Rightarrow> bool" where
  "none_or_false PNone = True"
| "none_or_false (PBool b) = (\<not> b)"
| "none_or_false (PInt i) = (i = 0)"
| "none_or_false (PFloat f) = (f = Fin 0)"
| "none_or_false _ = False"

definition request_mode :: "pydict \<Rightarrow> fire_cleanup_mode option" where
  "request_mode p =
     (case dget p ''cleanup_mode'' of
        Some v \<Rightarrow> (case enum_field fire_cleanup_mode_value fire_cleanup_mode_members v of Inl _ \<Rightarrow> None | Inr m \<Rightarrow> Some m)
      | None \<Rightarrow>
          if field_of p ''pre_binding'' = PBool True then Some CM_EXTERNAL_UNKNOWN
          else if none_or_false (field_of p ''pre_binding'') then Some CM_BOUND else None)"

definition identity_keys :: "string list" where
  "identity_keys = [''intent_id'', ''tenant_key'', ''message_id'', ''chat_id'', ''requester_principal_id'', ''agent_id'', ''employee_name'']"

text \<open>Resources the cleanup mode calls for: none known, or all of them.\<close>

definition resources_ok :: "pydict \<Rightarrow> fire_cleanup_mode \<Rightarrow> bool" where
  "resources_ok p m \<longleftrightarrow>
     list_all (\<lambda>k. pstr (field_of p k) \<noteq> None) [''bot_principal_id'', ''app_id'', ''credential_ref''] \<and>
     \<not> (m \<in> {CM_SAFE_ABORT, CM_EXTERNAL_UNKNOWN} \<and> (is_text (field_of p ''bot_principal_id'') \<or> is_text (field_of p ''credential_ref''))) \<and>
     \<not> (m \<in> {CM_BOUND, CM_RECOVERABLE} \<and> list_ex (\<lambda>k. \<not> is_text (field_of p k)) [''bot_principal_id'', ''app_id'', ''credential_ref''])"

definition fire_text :: "pydict \<Rightarrow> string \<Rightarrow> string" where
  "fire_text p k = (case pstr (field_of p k) of None \<Rightarrow> [] | Some s \<Rightarrow> s)"

definition fire_requested :: "journal_event \<Rightarrow> int \<Rightarrow> fire_exn + durable_fire_state" where
  "fire_requested ev seq =
     (let p = je_payload ev; invalid = FireProjectionError ''invalid fire request'' in
      if \<not> fire_shape p \<or> field_of p ''intent_id'' \<noteq> PStr (je_aggregate_id ev) then Inl invalid
      else case request_mode p of
        None \<Rightarrow> Inl invalid
      | Some m \<Rightarrow>
          if list_ex (\<lambda>k. \<not> is_text (field_of p k)) identity_keys then Inl invalid
          else if \<not> resources_ok p m then Inl invalid
          else case field_of p ''drain'' of
            PBool drain \<Rightarrow>
              Inr \<lparr>fs_intent_id = fire_text p ''intent_id'', fs_tenant_key = fire_text p ''tenant_key'', fs_message_id = fire_text p ''message_id'',
                fs_chat_id = fire_text p ''chat_id'', fs_requester_principal_id = fire_text p ''requester_principal_id'',
                fs_agent_id = fire_text p ''agent_id'', fs_employee_name = fire_text p ''employee_name'',
                fs_bot_principal_id = fire_text p ''bot_principal_id'', fs_app_id = fire_text p ''app_id'',
                fs_credential_ref = fire_text p ''credential_ref'', fs_drain = drain, fs_cleanup_mode = m, fs_phase = FP_RETIRING, fs_effects = [],
                fs_error_code = [], fs_external_disposition_confirmed = False, fs_external_disposition_ref = [], fs_external_disposed_by = [],
                fs_external_disposed_at = [], fs_requested_sequence = seq, fs_last_sequence = seq\<rparr>
          | _ \<Rightarrow> Inl invalid)"

section \<open>Later events\<close>

definition with_effect :: "(string, fire_effect_state) dict \<Rightarrow> string \<Rightarrow> fire_effect_state \<Rightarrow> (string, fire_effect_state) dict" where
  "with_effect effects name st =
     (let d = dset effects name st in map (\<lambda>n. (n, the (dget d n))) (filter (\<lambda>n. dget d n \<noteq> None) FIRE_EFFECT_ORDER))"

definition disposition_keys :: "string list" where
  "disposition_keys = [''disposition_ref'', ''disposed_by'', ''disposed_at'', ''confirmation_message_id'']"

definition NO_APP_FOUND :: string where
  "NO_APP_FOUND = ''NO_APP_FOUND''"

definition disposition_reference :: "durable_fire_state \<Rightarrow> string" where
  "disposition_reference s = (if fs_app_id s = [] then NO_APP_FOUND else fs_app_id s)"

definition fire_disposition_confirmed :: "fire_env \<Rightarrow> durable_fire_state \<Rightarrow> pydict \<Rightarrow> int \<Rightarrow> fire_exn + durable_fire_state" where
  "fire_disposition_confirmed env s p seq =
     (if \<not> exact_keys p disposition_keys \<or> list_ex (\<lambda>k. \<not> is_text (field_of p k)) disposition_keys
      then Inl (FireProjectionError ''invalid external disposition confirmation'')
      else if fs_cleanup_mode s \<noteq> CM_EXTERNAL_UNKNOWN \<or> fs_phase s \<noteq> FP_ACTION_REQUIRED \<or>
        fs_error_code s \<noteq> ''external_cleanup_authority_unavailable'' \<or> effect_state s ''credential_destroy'' \<noteq> Some FE_ACTION_REQUIRED
      then Inl (FireProjectionError ''external disposition confirmation is not admissible'')
      else if fire_text p ''disposition_ref'' \<noteq> disposition_reference s
      then Inl (FireProjectionError ''external disposition reference mismatch'')
      else if \<not> fv_isoformat env (fire_text p ''disposed_at'')
      then Inl (FireProjectionError ''invalid external disposition timestamp'')
      else Inr (s\<lparr>fs_effects := with_effect (fs_effects s) ''credential_destroy'' FE_COMMITTED, fs_phase := FP_RETIRING, fs_error_code := [],
        fs_external_disposition_confirmed := True, fs_external_disposition_ref := fire_text p ''disposition_ref'',
        fs_external_disposed_by := fire_text p ''disposed_by'', fs_external_disposed_at := fire_text p ''disposed_at'',
        fs_last_sequence := seq\<rparr>))"

definition fire_effect_type :: "pydict \<Rightarrow> string option" where
  "fire_effect_type p = (case pstr (field_of p ''effect_type'') of None \<Rightarrow> None | Some n \<Rightarrow> if n \<in> set FIRE_EFFECT_ORDER then Some n else None)"

definition fire_effect_reconciled :: "durable_fire_state \<Rightarrow> pydict \<Rightarrow> int \<Rightarrow> fire_exn + durable_fire_state" where
  "fire_effect_reconciled s p seq =
     (if \<not> exact_keys p [''effect_type'', ''resolution_code''] \<or> field_of p ''resolution_code'' \<noteq> PStr ''observed_committed''
      then Inl (FireProjectionError ''invalid reconciled fire effect'')
      else case fire_effect_type p of
        None \<Rightarrow> Inl (FireProjectionError ''invalid reconciled fire effect'')
      | Some n \<Rightarrow>
          if fs_phase s \<noteq> FP_ACTION_REQUIRED \<or> effect_state s n \<noteq> Some FE_ACTION_REQUIRED
          then Inl (FireProjectionError ''invalid reconciled fire effect'')
          else Inr (s\<lparr>fs_effects := with_effect (fs_effects s) n FE_COMMITTED, fs_phase := FP_RETIRING, fs_error_code := [], fs_last_sequence := seq\<rparr>))"

definition fire_predecessor :: "fire_effect_state \<Rightarrow> fire_effect_state option" where
  "fire_predecessor st = (case st of FE_PREPARED \<Rightarrow> None | FE_EXECUTING \<Rightarrow> Some FE_PREPARED | FE_COMMITTED \<Rightarrow> Some FE_EXECUTING
     | FE_ACTION_REQUIRED \<Rightarrow> Some FE_EXECUTING)"

definition fire_error_text :: "fire_env \<Rightarrow> pydict \<Rightarrow> string" where
  "fire_error_text env p = (let v = field_of p ''error_code'' in if \<not> py_truthy v then [] else case pstr v of Some s \<Rightarrow> s | None \<Rightarrow> fv_str env v)"

definition fire_effect_event :: "fire_env \<Rightarrow> durable_fire_state \<Rightarrow> string \<Rightarrow> pydict \<Rightarrow> int \<Rightarrow> fire_exn + durable_fire_state" where
  "fire_effect_event env s sfx p seq =
     (case (fire_effect_type p, set (dkeys p) \<subseteq> {''effect_type'', ''error_code''}) of
        (Some n, True) \<Rightarrow>
          (case enum_of fire_effect_state_value fire_effect_state_members sfx of
             None \<Rightarrow> Inl FireValueError
           | Some st \<Rightarrow>
               if effect_state s n \<noteq> fire_predecessor st then Inl (FireProjectionError ''invalid fire effect transition'')
               else if st = FE_ACTION_REQUIRED \<and> fire_error_text env p = [] then Inl (FireProjectionError ''action required needs an error code'')
               else Inr (s\<lparr>fs_effects := with_effect (fs_effects s) n st,
                 fs_phase := (if st = FE_ACTION_REQUIRED then FP_ACTION_REQUIRED else fs_phase s),
                 fs_error_code := fire_error_text env p, fs_last_sequence := seq\<rparr>))
      | _ \<Rightarrow> Inl (FireProjectionError ''invalid fire effect''))"

definition fire_superseded :: "durable_fire_state \<Rightarrow> pydict \<Rightarrow> int \<Rightarrow> fire_exn + durable_fire_state" where
  "fire_superseded s p seq =
     (if \<not> exact_keys p [''canonical_intent_id''] \<or> \<not> is_text (field_of p ''canonical_intent_id'') \<or>
        fire_text p ''canonical_intent_id'' = fs_intent_id s \<or> fs_phase s \<notin> {FP_RETIRING, FP_ACTION_REQUIRED}
      then Inl (FireProjectionError ''invalid fire supersession'')
      else Inr (s\<lparr>fs_phase := FP_SUPERSEDED, fs_last_sequence := seq\<rparr>))"

definition fire_completed :: "durable_fire_state \<Rightarrow> pydict \<Rightarrow> int \<Rightarrow> fire_exn + durable_fire_state" where
  "fire_completed s p seq =
     (let confirmed = (field_of p ''external_app_disposition'' = PStr ''manual_disposition_confirmed'') in
      if \<not> exact_keys p [''external_app_disposition''] \<or>
        \<not> (confirmed \<or> field_of p ''external_app_disposition'' = PStr ''manual_deletion_required'')
      then Inl (FireProjectionError ''invalid fire completion'')
      else if fs_cleanup_mode s = CM_EXTERNAL_UNKNOWN \<and> (\<not> fs_external_disposition_confirmed s \<or> \<not> confirmed) \<or>
        fs_cleanup_mode s \<noteq> CM_EXTERNAL_UNKNOWN \<and> confirmed
      then Inl (FireProjectionError ''fire completion lacks external disposition evidence'')
      else if list_ex (\<lambda>n. effect_state s n \<noteq> Some FE_COMMITTED) FIRE_EFFECT_ORDER
      then Inl (FireProjectionError ''fire completed before all effects'')
      else Inr (s\<lparr>fs_phase := FP_ARCHIVED, fs_last_sequence := seq\<rparr>))"

definition starts_with :: "string \<Rightarrow> string \<Rightarrow> bool" where
  "starts_with s pre \<longleftrightarrow> take (length pre) s = pre"

definition fire_later :: "fire_env \<Rightarrow> durable_fire_state \<Rightarrow> journal_event \<Rightarrow> int \<Rightarrow> fire_exn + durable_fire_state" where
  "fire_later env s ev seq =
     (let t = je_event_type ev; p = je_payload ev in
      if fs_phase s \<in> {FP_ARCHIVED, FP_SUPERSEDED} then Inl (FireProjectionError ''terminal fire request rejects later events'')
      else if t = ''fire.external_disposition_confirmed'' then fire_disposition_confirmed env s p seq
      else if t = ''fire.effect.reconciled'' then fire_effect_reconciled s p seq
      else if starts_with t ''fire.effect.'' then fire_effect_event env s (drop 12 t) p seq
      else if t = ''fire.superseded'' then fire_superseded s p seq
      else if t = ''fire.completed'' then fire_completed s p seq
      else Inl (FireProjectionError ''unknown fire event''))"

definition reduce_fire :: "fire_env \<Rightarrow> fire_states \<Rightarrow> int \<times> journal_event \<Rightarrow> fire_exn + fire_states" where
  "reduce_fire env sts sev =
     (let ev = snd sev; i = je_aggregate_id ev in
      if je_event_type ev = ''fire.requested'' then
        (if dget sts i \<noteq> None then Inl (FireProjectionError ''duplicate fire request'')
         else bindE (fire_requested ev (fst sev)) (\<lambda>s. Inr (dset sts i s)))
      else if \<not> starts_with (je_event_type ev) ''fire.'' then Inr sts
      else case dget sts i of
        None \<Rightarrow> Inl (FireProjectionError ''fire event references unknown request'')
      | Some s \<Rightarrow> bindE (fire_later env s ev (fst sev)) (\<lambda>s'. Inr (dset sts i s')))"

definition sequenced :: "transaction_frame list \<Rightarrow> (int \<times> journal_event) list" where
  "sequenced fs = concat (map (\<lambda>f. map (Pair (tf_sequence f)) (tf_events f)) fs)"

definition rebuild_fire_projection :: "fire_env \<Rightarrow> transaction_frame list \<Rightarrow> fire_exn + fire_states" where
  "rebuild_fire_projection env fs = foldE (reduce_fire env) [] (sequenced fs)"

section \<open>Steps of a retirement\<close>

lemma dget_filtered: "distinct ns \<Longrightarrow> dget (map (\<lambda>n. (n, the (dget d n))) (filter (\<lambda>n. dget d n \<noteq> None) ns)) m = (if m \<in> set ns then dget d m else None)"
  by (induction ns) auto

lemma fire_order_distinct [simp]: "distinct FIRE_EFFECT_ORDER"
  by (simp add: FIRE_EFFECT_ORDER_def)

lemma dget_with_effect:
  "dget (with_effect e n st) m = (if m \<notin> set FIRE_EFFECT_ORDER then None else if m = n then Some st else dget e m)"
proof -
  have "dget (with_effect e n st) m = (if m \<in> set FIRE_EFFECT_ORDER then dget (dset e n st) m else None)"
    unfolding with_effect_def Let_def by (rule dget_filtered) simp
  then show ?thesis by simp
qed

definition fire_open :: "durable_fire_state \<Rightarrow> bool" where
  "fire_open s \<longleftrightarrow> fs_phase s = FP_RETIRING \<or> fs_phase s = FP_ACTION_REQUIRED"

inductive fire_step :: "journal_event \<Rightarrow> durable_fire_state \<Rightarrow> durable_fire_state \<Rightarrow> bool" for ev s where
  confirmed: "fire_step ev s t"
  if "fire_open s" "je_event_type ev = ''fire.external_disposition_confirmed''"
    "field_of (je_payload ev) ''disposition_ref'' = PStr (disposition_reference s)"
    "fs_cleanup_mode s = CM_EXTERNAL_UNKNOWN" "effect_state s ''credential_destroy'' = Some FE_ACTION_REQUIRED"
    "t = s\<lparr>fs_effects := with_effect (fs_effects s) ''credential_destroy'' FE_COMMITTED, fs_phase := FP_RETIRING, fs_error_code := [],
       fs_external_disposition_confirmed := True, fs_external_disposition_ref := disposition_reference s,
       fs_external_disposed_by := db, fs_external_disposed_at := da, fs_last_sequence := q\<rparr>"
| reconciled: "fire_step ev s t"
  if "fire_open s" "je_event_type ev = ''fire.effect.reconciled''"
    "n \<in> set FIRE_EFFECT_ORDER" "effect_state s n = Some FE_ACTION_REQUIRED"
    "t = s\<lparr>fs_effects := with_effect (fs_effects s) n FE_COMMITTED, fs_phase := FP_RETIRING, fs_error_code := [], fs_last_sequence := q\<rparr>"
| advanced: "fire_step ev s t"
  if "fire_open s" "je_event_type ev = ''fire.effect.'' @ fire_effect_state_value st" "field_of (je_payload ev) ''effect_type'' = PStr n"
    "n \<in> set FIRE_EFFECT_ORDER" "effect_state s n = fire_predecessor st"
    "t = s\<lparr>fs_effects := with_effect (fs_effects s) n st, fs_phase := p, fs_error_code := e, fs_last_sequence := q\<rparr>"
    "p = (if st = FE_ACTION_REQUIRED then FP_ACTION_REQUIRED else fs_phase s)"
| superseded: "fire_step ev s t"
  if "fire_open s" "t = s\<lparr>fs_phase := FP_SUPERSEDED, fs_last_sequence := q\<rparr>"
| completed: "fire_step ev s t"
  if "fire_open s" "\<forall>n\<in>set FIRE_EFFECT_ORDER. effect_state s n = Some FE_COMMITTED"
    "fs_cleanup_mode s = CM_EXTERNAL_UNKNOWN \<longrightarrow> fs_external_disposition_confirmed s"
    "t = s\<lparr>fs_phase := FP_ARCHIVED, fs_last_sequence := q\<rparr>"

lemma fire_effect_type_Some: "fire_effect_type p = Some n \<longleftrightarrow> field_of p ''effect_type'' = PStr n \<and> n \<in> set FIRE_EFFECT_ORDER"
  by (cases "field_of p ''effect_type''") (auto simp: fire_effect_type_def)

lemma starts_with_split: "starts_with t pre \<Longrightarrow> t = pre @ drop (length pre) t"
  unfolding starts_with_def by (metis append_take_drop_id)

lemma fire_effect_event_step:
  assumes "fire_effect_event env s sfx (je_payload ev) q = Inr t" and "fire_open s" and "je_event_type ev = ''fire.effect.'' @ sfx"
  shows "fire_step ev s t"
proof -
  from assms(1) obtain n st where n: "fire_effect_type (je_payload ev) = Some n"
    and st: "enum_of fire_effect_state_value fire_effect_state_members sfx = Some st" "effect_state s n = fire_predecessor st"
    and t: "t = s\<lparr>fs_effects := with_effect (fs_effects s) n st,
      fs_phase := (if st = FE_ACTION_REQUIRED then FP_ACTION_REQUIRED else fs_phase s),
      fs_error_code := fire_error_text env (je_payload ev), fs_last_sequence := q\<rparr>"
    unfolding fire_effect_event_def by (auto split: option.splits if_splits bool.splits)
  from st(1) have "sfx = fire_effect_state_value st" by (simp add: fire_effect_state_enum.of_value_iff)
  with n st(2) t assms(2,3) show ?thesis
    by (intro fire_step.advanced [where st = st and n = n and q = q, OF _ _ _ _ _ _ refl]) (simp_all add: fire_effect_type_Some)
qed

lemma fire_confirmed_step:
  assumes "fire_disposition_confirmed env s (je_payload ev) q = Inr t" and "fire_open s"
    and "je_event_type ev = ''fire.external_disposition_confirmed''"
  shows "fire_step ev s t"
proof -
  have "''disposition_ref'' \<in> set disposition_keys" by (simp add: disposition_keys_def)
  with assms(1) obtain r where r: "field_of (je_payload ev) ''disposition_ref'' = PStr r" "r = disposition_reference s"
    unfolding fire_disposition_confirmed_def by (auto split: if_splits simp: list_ex_iff is_text_iff fire_text_def)
  with assms show ?thesis unfolding fire_disposition_confirmed_def
    by (auto split: if_splits simp: fire_text_def intro!: fire_step.confirmed)
qed

lemma fire_later_step:
  assumes "fire_later env s ev q = Inr t"
  shows "fire_step ev s t"
proof -
  from assms have o: "fire_open s" by (cases "fs_phase s") (auto simp: fire_later_def fire_open_def)
  consider (confirmed) "je_event_type ev = ''fire.external_disposition_confirmed''" "fire_disposition_confirmed env s (je_payload ev) q = Inr t"
    | (reconciled) "je_event_type ev = ''fire.effect.reconciled''" "fire_effect_reconciled s (je_payload ev) q = Inr t"
    | (advanced) "starts_with (je_event_type ev) ''fire.effect.''" "fire_effect_event env s (drop 12 (je_event_type ev)) (je_payload ev) q = Inr t"
    | (superseded) "fire_superseded s (je_payload ev) q = Inr t"
    | (completed) "fire_completed s (je_payload ev) q = Inr t"
    using assms by (auto simp: fire_later_def Let_def split: if_splits)
  then show ?thesis
  proof cases
    case confirmed
    then show ?thesis using o by (blast intro: fire_confirmed_step)
  next
    case reconciled
    then show ?thesis using o
      by (auto simp: fire_effect_reconciled_def fire_effect_type_Some split: if_splits option.splits intro: fire_step.reconciled)
  next
    case advanced
    from starts_with_split [OF advanced(1)] have "je_event_type ev = ''fire.effect.'' @ drop 12 (je_event_type ev)"
      by (simp add: eval_nat_numeral)
    with advanced(2) o show ?thesis by (rule fire_effect_event_step)
  next
    case superseded
    then show ?thesis using o by (auto simp: fire_superseded_def split: if_splits intro: fire_step.superseded)
  next
    case completed
    then show ?thesis using o
      by (auto simp: fire_completed_def Let_def list_ex_iff split: if_splits intro!: fire_step.completed)
  qed
qed

section \<open>Invariant of a retirement\<close>

definition fire_resources_ok :: "durable_fire_state \<Rightarrow> bool" where
  "fire_resources_ok s \<longleftrightarrow>
     (if fs_cleanup_mode s \<in> {CM_BOUND, CM_RECOVERABLE}
      then fs_bot_principal_id s \<noteq> [] \<and> fs_app_id s \<noteq> [] \<and> fs_credential_ref s \<noteq> []
      else fs_bot_principal_id s = [] \<and> fs_credential_ref s = [])"

definition fire_ok :: "string \<Rightarrow> durable_fire_state \<Rightarrow> bool" where
  "fire_ok i s \<longleftrightarrow> fs_intent_id s = i \<and> fire_resources_ok s \<and>
     (fs_phase s = FP_ARCHIVED \<longrightarrow> (\<forall>n\<in>set FIRE_EFFECT_ORDER. effect_state s n = Some FE_COMMITTED)) \<and>
     (fs_phase s = FP_ARCHIVED \<longrightarrow> fs_cleanup_mode s = CM_EXTERNAL_UNKNOWN \<longrightarrow> fs_external_disposition_confirmed s) \<and>
     (fs_external_disposition_confirmed s \<longrightarrow> fs_cleanup_mode s = CM_EXTERNAL_UNKNOWN \<and>
        fs_external_disposition_ref s = disposition_reference s \<and> effect_state s ''credential_destroy'' = Some FE_COMMITTED)"

definition fire_identity where
  "fire_identity s = (fs_intent_id s, fs_tenant_key s, fs_message_id s, fs_chat_id s, fs_requester_principal_id s, fs_agent_id s,
     fs_employee_name s, fs_bot_principal_id s, fs_app_id s, fs_credential_ref s, fs_drain s, fs_cleanup_mode s, fs_requested_sequence s)"

definition fire_state_kept :: "durable_fire_state \<Rightarrow> durable_fire_state \<Rightarrow> bool" where
  "fire_state_kept s t \<longleftrightarrow> fire_identity t = fire_identity s \<and> (\<not> fire_open s \<longrightarrow> t = s) \<and>
     (\<forall>n\<in>set FIRE_EFFECT_ORDER. effect_state s n = Some FE_COMMITTED \<longrightarrow> effect_state t n = Some FE_COMMITTED) \<and>
     (fs_external_disposition_confirmed s \<longrightarrow> fs_external_disposition_confirmed t)"

lemma fire_predecessor_not_committed: "fire_predecessor st \<noteq> Some FE_COMMITTED"
  by (cases st) (simp_all add: fire_predecessor_def)

lemma in_order: "''credential_destroy'' \<in> set FIRE_EFFECT_ORDER"
  by (simp add: FIRE_EFFECT_ORDER_def)

lemma fire_step_identity: "fire_step ev s t \<Longrightarrow> fire_identity t = fire_identity s"
  by (erule fire_step.cases) (simp_all add: fire_identity_def)

lemma fire_step_committed:
  "fire_step ev s t \<Longrightarrow> n \<in> set FIRE_EFFECT_ORDER \<Longrightarrow> effect_state s n = Some FE_COMMITTED \<Longrightarrow> effect_state t n = Some FE_COMMITTED"
  by (erule fire_step.cases) (auto simp: dget_with_effect fire_predecessor_not_committed fire_predecessor_not_committed [symmetric])

lemma fire_step_kept:
  assumes "fire_step ev s t"
  shows "fire_state_kept s t"
proof -
  from assms have "fire_open s" and "fs_external_disposition_confirmed s \<Longrightarrow> fs_external_disposition_confirmed t"
    by (cases; simp)+
  with fire_step_identity [OF assms] fire_step_committed [OF assms] show ?thesis unfolding fire_state_kept_def by blast
qed

lemma fire_resources_upd [simp]:
  "fire_resources_ok (s\<lparr>fs_effects := e\<rparr>) = fire_resources_ok s" "fire_resources_ok (s\<lparr>fs_phase := p\<rparr>) = fire_resources_ok s"
  "fire_resources_ok (s\<lparr>fs_error_code := c\<rparr>) = fire_resources_ok s" "fire_resources_ok (s\<lparr>fs_external_disposition_confirmed := b\<rparr>) = fire_resources_ok s"
  "fire_resources_ok (s\<lparr>fs_external_disposition_ref := r\<rparr>) = fire_resources_ok s" "fire_resources_ok (s\<lparr>fs_external_disposed_by := x\<rparr>) = fire_resources_ok s"
  "fire_resources_ok (s\<lparr>fs_external_disposed_at := y\<rparr>) = fire_resources_ok s" "fire_resources_ok (s\<lparr>fs_last_sequence := q\<rparr>) = fire_resources_ok s"
  by (simp_all add: fire_resources_ok_def)

lemma fire_step_ok:
  assumes "fire_step ev s t" and "fire_ok i s"
  shows "fire_ok i t"
  using assms(1)
proof cases
  case (confirmed q da db)
  with assms(2) in_order show ?thesis by (simp add: fire_ok_def dget_with_effect disposition_reference_def)
next
  case (reconciled n q)
  with assms(2) in_order show ?thesis by (simp add: fire_ok_def dget_with_effect disposition_reference_def)
next
  case (advanced st n q e p)
  moreover from advanced have "p \<noteq> FP_ARCHIVED" by (auto simp: fire_open_def)
  moreover from advanced assms(2) have "fs_external_disposition_confirmed s \<longrightarrow> n \<noteq> ''credential_destroy''"
    using fire_predecessor_not_committed [of st] by (auto simp: fire_ok_def)
  ultimately show ?thesis using assms(2) in_order by (auto simp: fire_ok_def dget_with_effect disposition_reference_def)
next
  case (superseded q)
  with assms(2) show ?thesis by (simp add: fire_ok_def disposition_reference_def)
next
  case (completed q)
  with assms(2) show ?thesis by (simp add: fire_ok_def disposition_reference_def)
qed

section \<open>The projection\<close>

lemma resources_ok_state:
  assumes "resources_ok p m" and "fs_cleanup_mode s = m" "fs_bot_principal_id s = fire_text p ''bot_principal_id''"
    "fs_app_id s = fire_text p ''app_id''" "fs_credential_ref s = fire_text p ''credential_ref''"
  shows "fire_resources_ok s"
  using assms by (cases m) (auto simp: resources_ok_def fire_resources_ok_def fire_text_def is_text_iff split: option.splits)

lemma fire_requested_new:
  assumes "fire_requested ev q = Inr s"
  shows "fire_ok (je_aggregate_id ev) s" and "fs_effects s = []" and "fs_external_disposition_confirmed s = False" and "fs_phase s = FP_RETIRING"
proof -
  from assms obtain m d where m: "resources_ok (je_payload ev) m" and i: "field_of (je_payload ev) ''intent_id'' = PStr (je_aggregate_id ev)"
    and s: "fs_cleanup_mode s = m" "fs_intent_id s = fire_text (je_payload ev) ''intent_id''"
      "fs_bot_principal_id s = fire_text (je_payload ev) ''bot_principal_id''"
      "fs_app_id s = fire_text (je_payload ev) ''app_id''" "fs_credential_ref s = fire_text (je_payload ev) ''credential_ref''"
    and e: "fs_phase s = FP_RETIRING" "fs_effects s = []" "\<not> fs_external_disposition_confirmed s"
    by (auto simp: fire_requested_def Let_def split: if_splits option.splits pyval.splits)
  show "fs_effects s = []" "fs_external_disposition_confirmed s = False" "fs_phase s = FP_RETIRING" using e by simp_all
  from resources_ok_state [OF m s(1,3-5)] i s(2) e show "fire_ok (je_aggregate_id ev) s"
    by (simp add: fire_ok_def fire_text_def)
qed

definition fire_inv :: "fire_states \<Rightarrow> bool" where
  "fire_inv sts \<longleftrightarrow> (\<forall>i s. dget sts i = Some s \<longrightarrow> fire_ok i s)"

definition fire_kept :: "fire_states \<Rightarrow> fire_states \<Rightarrow> bool" where
  "fire_kept sts ts \<longleftrightarrow> (\<forall>i s. dget sts i = Some s \<longrightarrow> (\<exists>t. dget ts i = Some t \<and> fire_state_kept s t))"

lemma fire_state_kept_refl: "fire_state_kept s s"
  by (simp add: fire_state_kept_def)

lemma fire_state_kept_trans: "fire_state_kept s t \<Longrightarrow> fire_state_kept t u \<Longrightarrow> fire_state_kept s u"
  unfolding fire_state_kept_def by metis

text \<open>An event makes a new request, takes one step of a known one, or changes nothing.\<close>

lemma reduce_fire_requested:
  assumes "reduce_fire env sts (q, ev) = Inr ts" and "je_event_type ev = ''fire.requested''"
  shows "dget sts (je_aggregate_id ev) = None" and "\<exists>s. fire_requested ev q = Inr s \<and> ts = dset sts (je_aggregate_id ev) s"
proof -
  from assms have r: "(if dget sts (je_aggregate_id ev) \<noteq> None then Inl (FireProjectionError ''duplicate fire request'')
      else bindE (fire_requested ev q) (\<lambda>s. Inr (dset sts (je_aggregate_id ev) s))) = Inr ts"
    unfolding reduce_fire_def Let_def fst_conv snd_conv by simp
  then show "dget sts (je_aggregate_id ev) = None" by (simp split: if_splits)
  with r show "\<exists>s. fire_requested ev q = Inr s \<and> ts = dset sts (je_aggregate_id ev) s" by (auto elim!: bindE_InrE)
qed

lemma reduce_fire_other:
  assumes "reduce_fire env sts (q, ev) = Inr ts" and "je_event_type ev \<noteq> ''fire.requested''" and "ts \<noteq> sts"
  shows "\<exists>s t. dget sts (je_aggregate_id ev) = Some s \<and> fire_step ev s t \<and> ts = dset sts (je_aggregate_id ev) t"
proof -
  from assms have "(case dget sts (je_aggregate_id ev) of
        None \<Rightarrow> Inl (FireProjectionError ''fire event references unknown request'')
      | Some s \<Rightarrow> bindE (fire_later env s ev q) (\<lambda>s'. Inr (dset sts (je_aggregate_id ev) s'))) = Inr ts"
    unfolding reduce_fire_def Let_def fst_conv snd_conv by (simp split: if_splits)
  then show ?thesis by (auto split: option.splits elim!: bindE_InrE dest: fire_later_step)
qed

lemma reduce_fire_cases:
  assumes "reduce_fire env sts (q, ev) = Inr ts"
  obtains (requested) s where "je_event_type ev = ''fire.requested''" "dget sts (je_aggregate_id ev) = None" "fire_requested ev q = Inr s"
      "ts = dset sts (je_aggregate_id ev) s"
    | (ignored) "ts = sts"
    | (step) s t where "dget sts (je_aggregate_id ev) = Some s" "fire_step ev s t" "ts = dset sts (je_aggregate_id ev) t"
  using reduce_fire_requested [OF assms] reduce_fire_other [OF assms] by blast

interpretation fire: event_sourced "reduce_fire env" fire_inv fire_kept
proof
  fix sts ts and sev :: "int \<times> journal_event"
  assume inv: "fire_inv sts" and r: "reduce_fire env sts sev = Inr ts"
  obtain q ev where sev: "sev = (q, ev)" by (cases sev)
  note red = r [unfolded sev]
  from red show "fire_inv ts" by (cases rule: reduce_fire_cases)
    (use inv in \<open>auto simp: fire_inv_def fire_requested_new(1) intro: fire_step_ok\<close>)
  from red show "fire_kept sts ts" by (cases rule: reduce_fire_cases)
    (auto simp: fire_kept_def intro: fire_state_kept_refl fire_step_kept)
next
  show "fire_kept sts sts" for sts by (auto simp: fire_kept_def intro: fire_state_kept_refl)
next
  show "fire_kept s u" if "fire_kept s t" "fire_kept t u" for s t u
    using that fire_state_kept_trans unfolding fire_kept_def by meson
qed

text \<open>What the history holds for a request: an effect that was started has its \<open>executing\<close> event, a confirmed disposition its event.\<close>

definition executing_event :: "string \<Rightarrow> string \<Rightarrow> journal_event \<Rightarrow> bool" where
  "executing_event i n ev \<longleftrightarrow> je_aggregate_id ev = i \<and> je_event_type ev = ''fire.effect.executing'' \<and> field_of (je_payload ev) ''effect_type'' = PStr n"

definition confirmation_event :: "string \<Rightarrow> string \<Rightarrow> journal_event \<Rightarrow> bool" where
  "confirmation_event i r ev \<longleftrightarrow> je_aggregate_id ev = i \<and> je_event_type ev = ''fire.external_disposition_confirmed'' \<and>
     field_of (je_payload ev) ''disposition_ref'' = PStr r"

definition recorded :: "(journal_event \<Rightarrow> bool) \<Rightarrow> (int \<times> journal_event) list \<Rightarrow> bool" where
  "recorded P es \<longleftrightarrow> list_ex (\<lambda>e. P (snd e)) es"

lemma recorded_snoc [simp]: "recorded P (es @ [e]) \<longleftrightarrow> recorded P es \<or> P (snd e)"
  by (auto simp: recorded_def)

definition fire_backed :: "string \<Rightarrow> (int \<times> journal_event) list \<Rightarrow> durable_fire_state \<Rightarrow> bool" where
  "fire_backed i es s \<longleftrightarrow>
     (\<forall>n x. effect_state s n = Some x \<longrightarrow> x \<noteq> FE_PREPARED \<longrightarrow> recorded (executing_event i n) es) \<and>
     (fs_external_disposition_confirmed s \<longrightarrow> recorded (confirmation_event i (disposition_reference s)) es)"

lemma fire_backed_mono: "fire_backed i es s \<Longrightarrow> fire_backed i (es @ [e]) s"
  by (simp add: fire_backed_def)

lemma fire_step_backed:
  assumes "fire_step ev s t" and "fire_backed (je_aggregate_id ev) es s"
  shows "fire_backed (je_aggregate_id ev) (es @ [(q, ev)]) t"
  using assms(1)
proof cases
  case (confirmed q da db)
  with assms(2) show ?thesis
    by (auto simp: fire_backed_def dget_with_effect disposition_reference_def confirmation_event_def)
next
  case (reconciled n q)
  with assms(2) show ?thesis by (auto simp: fire_backed_def dget_with_effect disposition_reference_def)
next
  case (advanced st n q e p)
  have "effect_state s n \<noteq> None \<and> effect_state s n \<noteq> Some FE_PREPARED" if "st \<noteq> FE_PREPARED" "st \<noteq> FE_EXECUTING"
    using that advanced(5) by (cases st) (simp_all add: fire_predecessor_def)
  moreover have "executing_event (je_aggregate_id ev) n ev" if "st = FE_EXECUTING"
    using that advanced(2,3) by (simp add: executing_event_def)
  ultimately have "recorded (executing_event (je_aggregate_id ev) n) (es @ [(q, ev)])" if "st \<noteq> FE_PREPARED"
    using that assms(2) by (cases "st = FE_EXECUTING") (auto simp: fire_backed_def)
  with advanced(6) assms(2) show ?thesis
    by (auto simp: fire_backed_def dget_with_effect disposition_reference_def)
next
  case (superseded q)
  with assms(2) show ?thesis by (auto simp: fire_backed_def disposition_reference_def)
next
  case (completed q)
  with assms(2) show ?thesis by (auto simp: fire_backed_def disposition_reference_def)
qed

lemma replay_backed:
  assumes "foldE (reduce_fire env) [] es = Inr sts"
  shows "\<forall>i s. dget sts i = Some s \<longrightarrow> fire_backed i es s"
  using assms
proof (rule foldE_history)
  fix es e sts ts
  assume IH: "\<forall>i s. dget sts i = Some s \<longrightarrow> fire_backed i es s" and r: "reduce_fire env sts e = Inr ts"
  obtain q ev where e: "e = (q, ev)" by (cases e)
  have mono: "fire_backed i (es @ [e]) s" if "dget sts i = Some s" for i s
    using IH that fire_backed_mono by blast
  from r [unfolded e] show "\<forall>i s. dget ts i = Some s \<longrightarrow> fire_backed i (es @ [e]) s"
  proof (cases rule: reduce_fire_cases)
    case (requested s)
    then show ?thesis using mono fire_requested_new(2,3) [OF requested(3)] by (auto simp: fire_backed_def)
  next
    case ignored
    then show ?thesis using mono by blast
  next
    case (step s t)
    then show ?thesis using mono IH by (auto simp: e intro: fire_step_backed)
  qed
qed simp

lemma sequenced_append: "sequenced (fs @ gs) = sequenced fs @ sequenced gs"
  by (simp add: sequenced_def)

text \<open>
  C9. Retirement is complete and final: when the projection of a journal shows a request archived, each of the six
  cleanups has been committed and an event that started it is in the journal; where the authority
  over external resources is unknown the journal holds a confirmation for exactly the application of the request; and no
  longer journal changes the request.
\<close>

theorem archived_after_every_cleanup:
  assumes "rebuild_fire_projection env fs = Inr sts" and "dget sts i = Some s" and "fs_phase s = FP_ARCHIVED"
  shows "list_all (\<lambda>n. effect_state s n = Some FE_COMMITTED \<and> recorded (executing_event i n) (sequenced fs)) FIRE_EFFECT_ORDER \<and>
    (fs_cleanup_mode s = CM_EXTERNAL_UNKNOWN \<longrightarrow> recorded (confirmation_event i (disposition_reference s)) (sequenced fs)) \<and>
    (\<forall>gs ts. rebuild_fire_projection env (fs @ gs) = Inr ts \<longrightarrow> dget ts i = Some s)"
proof -
  note red = assms(1) [unfolded rebuild_fire_projection_def]
  have init: "fire_inv []" by (simp add: fire_inv_def)
  from fire.replay_invar [OF init red] assms(2) have ok: "fire_ok i s" by (simp add: fire_inv_def)
  from replay_backed [OF red] assms(2) have b: "fire_backed i (sequenced fs) s" by blast
  have "dget ts i = Some s" if "rebuild_fire_projection env (fs @ gs) = Inr ts" for gs ts
  proof -
    from that red have "foldE (reduce_fire env) sts (sequenced gs) = Inr ts"
      by (simp add: rebuild_fire_projection_def sequenced_append foldE_append)
    from fire.history_kept [OF init red this] have "fire_kept sts ts" by blast
    with assms(2) obtain t where "dget ts i = Some t" "fire_state_kept s t" unfolding fire_kept_def by blast
    with assms(3) show ?thesis by (simp add: fire_state_kept_def fire_open_def)
  qed
  with ok b assms(3) show ?thesis by (auto simp: fire_ok_def fire_backed_def list_all_iff)
qed

definition example_fire_env :: fire_env where
  "example_fire_env = \<lparr>fv_str = (\<lambda>_. ''value''), fv_isoformat = (\<lambda>s. s \<noteq> [])\<rparr>"

definition fire_event :: "string \<Rightarrow> pydict \<Rightarrow> journal_event" where
  "fire_event t p = \<lparr>je_event_type = t, je_aggregate_id = ''fire_1'', je_payload = p, je_timestamp = 0, je_payload_hash = []\<rparr>"

definition effect_event :: "string \<Rightarrow> string \<Rightarrow> journal_event" where
  "effect_event n st = fire_event (''fire.effect.'' @ st) [(''effect_type'', PStr n)]"

definition example_fire_events :: "journal_event list" where
  "example_fire_events =
     fire_event ''fire.requested''
       (map (\<lambda>k. (k, if k \<in> {''bot_principal_id'', ''credential_ref''} then PStr [] else if k = ''intent_id'' then PStr ''fire_1'' else
          if k = ''drain'' then PBool True else PStr ''v'')) fire_required @ [(''pre_binding'', PBool True)])
     # concat (map (\<lambda>n. [effect_event n ''prepared'', effect_event n ''executing'']) FIRE_EFFECT_ORDER)
     @ map (\<lambda>n. effect_event n ''committed'') [''execution_quiesce'', ''slash_cleanup'', ''channel_stop'', ''membership_cleanup'', ''archive_move'']
     @ [fire_event ''fire.effect.action_required''
          [(''effect_type'', PStr ''credential_destroy''), (''error_code'', PStr ''external_cleanup_authority_unavailable'')],
        fire_event ''fire.external_disposition_confirmed''
          [(''disposition_ref'', PStr ''v''), (''disposed_by'', PStr ''owner''), (''disposed_at'', PStr ''2025-01-01''), (''confirmation_message_id'', PStr ''m'')],
        fire_event ''fire.completed'' [(''external_app_disposition'', PStr ''manual_disposition_confirmed'')]]"

definition example_fire_frame :: "int \<Rightarrow> journal_event list \<Rightarrow> transaction_frame" where
  "example_fire_frame q es = \<lparr>tf_magic = [], tf_schema_version = PInt 1, tf_byte_length = 0, tf_commit_marker = [], tf_committed = True, tf_tx_id = ''tx'',
     tf_sequence = q, tf_writer_epoch = 1, tf_timestamp = 0, tf_expected_versions = [], tf_aggregate_versions = [], tf_previous_hash = [],
     tf_events = es, tf_checksum = [], tf_hmac_digest = [], tf_record = []\<rparr>"

definition example_fire_journal :: "transaction_frame list" where
  "example_fire_journal = [example_fire_frame 1 example_fire_events]"

lemma example_fire_replay:
  "(case rebuild_fire_projection example_fire_env example_fire_journal of
      Inr sts \<Rightarrow> (case dget sts ''fire_1'' of
        Some s \<Rightarrow> fs_phase s = FP_ARCHIVED \<and> fs_cleanup_mode s = CM_EXTERNAL_UNKNOWN | None \<Rightarrow> False)
    | Inl _ \<Rightarrow> False) = True"
  by code_simp

theorem archived_after_every_cleanup_witness:
  "\<exists>sts s. rebuild_fire_projection example_fire_env example_fire_journal = Inr sts \<and> dget sts ''fire_1'' = Some s \<and> fs_phase s = FP_ARCHIVED \<and>
     list_all (\<lambda>n. effect_state s n = Some FE_COMMITTED \<and> recorded (executing_event ''fire_1'' n) (sequenced example_fire_journal)) FIRE_EFFECT_ORDER \<and>
     recorded (confirmation_event ''fire_1'' (disposition_reference s)) (sequenced example_fire_journal)"
proof -
  from example_fire_replay obtain sts s where s: "rebuild_fire_projection example_fire_env example_fire_journal = Inr sts"
    "dget sts ''fire_1'' = Some s" "fs_phase s = FP_ARCHIVED" "fs_cleanup_mode s = CM_EXTERNAL_UNKNOWN"
    by (auto split: sum.splits option.splits)
  from archived_after_every_cleanup [OF s(1-3)] s show ?thesis by blast
qed

end
