(* ===== verification/Hire_State.thy ===== *)
theory Hire_State
  imports Journal_Frame Replay
begin

text \<open>
  The hiring saga of \<^verbatim>\<open>src/src/autonomous/provisioning/hire_state.py\<close>: the state of a hire, rebuilt from the frames of the
  journal. \<open>reduce_hire\<close> is the body of the loop over the events of a frame, \<open>reduce_frame\<close> that of the loop over frames with
  its set of phase-only recoveries. \<open>str(value)\<close> of a value that is no string and \<open>float(text)\<close> are fields of the environment.
\<close>

section \<open>State\<close>

datatype hire_exn = HireProjectionError string | HireKeyError string | HireTypeError string | HireOverflowError

datatype hire_phase =
    HP_PROVISIONING_APP | HP_STORING_CREDENTIAL | HP_CONFIGURING | HP_VALIDATING | HP_READY_PENDING_VERIFICATION
  | HP_ACTIVE | HP_RETIRING | HP_ACTION_REQUIRED | HP_ARCHIVED

fun hire_phase_value :: "hire_phase \<Rightarrow> string" where
  "hire_phase_value HP_PROVISIONING_APP = ''provisioning_app''"
| "hire_phase_value HP_STORING_CREDENTIAL = ''storing_credential''"
| "hire_phase_value HP_CONFIGURING = ''configuring''"
| "hire_phase_value HP_VALIDATING = ''validating''"
| "hire_phase_value HP_READY_PENDING_VERIFICATION = ''ready_pending_verification''"
| "hire_phase_value HP_ACTIVE = ''active''"
| "hire_phase_value HP_RETIRING = ''retiring''"
| "hire_phase_value HP_ACTION_REQUIRED = ''action_required''"
| "hire_phase_value HP_ARCHIVED = ''archived''"

definition hire_phase_members :: "hire_phase list" where
  "hire_phase_members = [HP_PROVISIONING_APP, HP_STORING_CREDENTIAL, HP_CONFIGURING, HP_VALIDATING, HP_READY_PENDING_VERIFICATION,
     HP_ACTIVE, HP_RETIRING, HP_ACTION_REQUIRED, HP_ARCHIVED]"

interpretation hire_phase_enum: py_enum hire_phase_value hire_phase_members
proof
  show "x \<in> set hire_phase_members" for x by (cases x) (simp_all add: hire_phase_members_def)
qed (simp add: hire_phase_members_def)

datatype hire_effect_state = HE_PLANNED | HE_PREPARED | HE_EXECUTING | HE_COMMITTED | HE_ACTION_REQUIRED

record durable_hire_state =
  hs_intent_id :: string
  hs_tenant_key :: string
  hs_message_id :: string
  hs_chat_id :: string
  hs_requester_principal_id :: string
  hs_requester_union_id :: string
  hs_employee_name :: string
  hs_tool :: string
  hs_model :: string
  hs_effort :: string
  hs_profile :: string
  hs_role :: string
  hs_persona :: string
  hs_personality_traits :: "pyval list"
  hs_capabilities :: "pyval list"
  hs_permissions :: "pyval list"
  hs_existing_app_id :: string
  hs_agent_id :: string
  hs_bot_principal_id :: string
  hs_attempt_id :: string
  hs_app_id :: string
  hs_credential_ref :: string
  hs_slash_spec_hash :: string
  hs_slash_observed_hash :: string
  hs_slash_verified_at :: pyfloat
  hs_channel_generation :: int
  hs_channel_identity_app_id :: string
  hs_channel_connection_id :: string
  hs_channel_verified_at :: pyfloat
  hs_verification_nonce :: string
  hs_verification_issued_at :: pyfloat
  hs_verification_expires_at :: pyfloat
  hs_verification_consumed :: bool
  hs_activation_ingress_event_id :: string
  hs_activation_ingress_message_id :: string
  hs_activation_send_request_id :: string
  hs_activation_source :: string
  hs_activation_verified_at :: pyfloat
  hs_phase :: hire_phase
  hs_effects :: "(string, hire_effect_state) dict"
  hs_effect_types :: "(string, string) dict"
  hs_effect_metadata :: "(string, (string, string) dict) dict"
  hs_last_sequence :: int

definition hire_effect_events :: "(string, hire_effect_state) dict" where
  "hire_effect_events = [(''hire.effect.prepared'', HE_PREPARED), (''hire.effect.executing'', HE_EXECUTING),
     (''hire.effect.committed'', HE_COMMITTED), (''hire.effect.action_required'', HE_ACTION_REQUIRED)]"

fun allowed_effect_predecessors :: "hire_effect_state \<Rightarrow> hire_effect_state option list" where
  "allowed_effect_predecessors HE_PREPARED = [None, Some HE_PLANNED]"
| "allowed_effect_predecessors HE_EXECUTING = [Some HE_PREPARED]"
| "allowed_effect_predecessors HE_COMMITTED = [Some HE_EXECUTING]"
| "allowed_effect_predecessors HE_ACTION_REQUIRED = [Some HE_PREPARED, Some HE_EXECUTING]"
| "allowed_effect_predecessors HE_PLANNED = []"

fun allowed_phase_successors :: "hire_phase \<Rightarrow> hire_phase list" where
  "allowed_phase_successors HP_PROVISIONING_APP = [HP_STORING_CREDENTIAL, HP_CONFIGURING, HP_RETIRING, HP_ACTION_REQUIRED, HP_ARCHIVED]"
| "allowed_phase_successors HP_STORING_CREDENTIAL = [HP_CONFIGURING, HP_RETIRING, HP_ACTION_REQUIRED, HP_ARCHIVED]"
| "allowed_phase_successors HP_CONFIGURING = [HP_VALIDATING, HP_RETIRING, HP_ACTION_REQUIRED, HP_ARCHIVED]"
| "allowed_phase_successors HP_VALIDATING = [HP_READY_PENDING_VERIFICATION, HP_RETIRING, HP_ACTION_REQUIRED, HP_ARCHIVED]"
| "allowed_phase_successors HP_READY_PENDING_VERIFICATION = [HP_VALIDATING, HP_ACTIVE, HP_RETIRING, HP_ACTION_REQUIRED, HP_ARCHIVED]"
| "allowed_phase_successors HP_ACTIVE = [HP_VALIDATING, HP_RETIRING, HP_ACTION_REQUIRED, HP_ARCHIVED]"
| "allowed_phase_successors HP_RETIRING = [HP_ACTION_REQUIRED, HP_ARCHIVED]"
| "allowed_phase_successors HP_ACTION_REQUIRED = [HP_RETIRING, HP_ARCHIVED]"
| "allowed_phase_successors HP_ARCHIVED = []"

definition effect_payload_keys :: "string list" where
  "effect_payload_keys = [''effect_id'', ''effect_type'', ''metadata'']"

definition effect_metadata_keys :: "string list" where
  "effect_metadata_keys = [''app_id'', ''credential_ref'', ''slash_spec_hash'', ''slash_observed_hash'', ''slash_verified_at'', ''generation'',
     ''identity_app_id'', ''connection_id'', ''channel_verified_at'', ''send_request_id'', ''ingress_event_id'', ''reply_app_id'',
     ''reply_message_id'', ''main_bot_send_count'', ''error_code'']"

record hire_env =
  hv_str :: "pyval \<Rightarrow> string"
  hv_float :: "string \<Rightarrow> pyfloat option"

section \<open>Values of a payload\<close>

definition required_string :: "pydict \<Rightarrow> string \<Rightarrow> hire_exn + string" where
  "required_string p k = (case pstr (field_of p k) of
     Some s \<Rightarrow> if s = [] then Inl (HireProjectionError (k @ '' is required'')) else Inr s
   | None \<Rightarrow> Inl (HireProjectionError (k @ '' is required'')))"

text \<open>
  \<open>isinstance(v, (int, float)) and not isinstance(v, bool)\<close>, with the exact value of the number: Python compares an
  integer with a float exactly. \<open>float(v)\<close> rounds an integer, or overflows. \<open>equals_int\<close> is \<open>v == n\<close>, where a
  boolean counts as an integer.
\<close>

fun number :: "pyval \<Rightarrow> pyfloat option" where
  "number (PInt i) = Some (Fin (of_int i))"
| "number (PFloat f) = Some f"
| "number _ = None"

fun float_of :: "pyval \<Rightarrow> hire_exn + pyfloat" where
  "float_of (PInt i) = (case to_float (of_int i) of Fin r \<Rightarrow> Inr (Fin r) | _ \<Rightarrow> Inl HireOverflowError)"
| "float_of (PFloat f) = Inr f"
| "float_of _ = Inl (HireTypeError ''float() argument must be a string or a real number'')"

fun equals_int :: "pyval \<Rightarrow> int \<Rightarrow> bool" where
  "equals_int (PInt i) n = (i = n)"
| "equals_int (PBool b) n = (of_bool b = n)"
| "equals_int (PFloat f) n = (f = Fin (of_int n))"
| "equals_int _ n = False"

definition fle :: "pyfloat \<Rightarrow> pyfloat \<Rightarrow> bool" where
  "fle a b \<longleftrightarrow> flt a b \<or> feq a b"

text \<open>\<open>max(a, b)\<close> keeps the first argument unless the second is greater.\<close>

definition fmax :: "pyfloat \<Rightarrow> pyfloat \<Rightarrow> pyfloat" where
  "fmax a b = (if flt a b then b else a)"

text \<open>\<open>c and m\<close>, where evaluating \<open>m\<close> may raise.\<close>

definition andE :: "bool \<Rightarrow> 'x + bool \<Rightarrow> 'x + bool" where
  "andE c m = (if c then m else Inr False)"

definition hire_str :: "hire_env \<Rightarrow> pydict \<Rightarrow> string \<Rightarrow> string" where
  "hire_str env p k = (case dget p k of None \<Rightarrow> [] | Some (PStr s) \<Rightarrow> s | Some v \<Rightarrow> hv_str env v)"

fun tuple_of :: "pyval \<Rightarrow> hire_exn + pyval list" where
  "tuple_of (PList vs) = Inr vs"
| "tuple_of (PTuple vs) = Inr vs"
| "tuple_of (PStr s) = Inr (map PStr (characters s))"
| "tuple_of (PDict kvs) = Inr (map (PStr \<circ> fst) kvs)"
| "tuple_of (PProxy kvs) = Inr (map (PStr \<circ> fst) kvs)"
| "tuple_of (PSet ss) = Inr (map PStr ss)"
| "tuple_of (PFrozenset ss) = Inr (map PStr ss)"
| "tuple_of _ = Inl (HireTypeError ''object is not iterable'')"

text \<open>\<open>re.fullmatch(r"cli_[A-Za-z0-9_-]{3,128}", s)\<close>.\<close>

definition app_char :: "char \<Rightarrow> bool" where
  "app_char c \<longleftrightarrow> (let n = of_char c :: nat in
     65 \<le> n \<and> n \<le> 90 \<or> 97 \<le> n \<and> n \<le> 122 \<or> 48 \<le> n \<and> n \<le> 57 \<or> n = 95 \<or> n = 45)"

definition app_id_ok :: "string \<Rightarrow> bool" where
  "app_id_ok s \<longleftrightarrow> take 4 s = ''cli_'' \<and> list_all app_char (drop 4 s) \<and> 3 \<le> length (drop 4 s) \<and> length (drop 4 s) \<le> 128"

section \<open>Admission\<close>

definition is_hire_admission :: "journal_event \<Rightarrow> bool" where
  "is_hire_admission ev \<longleftrightarrow> je_event_type ev = ''employee.created'' \<and> dget (je_payload ev) ''hire_intent_id'' \<noteq> None"

definition phase_field :: "pydict \<Rightarrow> string \<Rightarrow> hire_exn + hire_phase" where
  "phase_field p msg = bindE (required_string p ''state'') (\<lambda>s.
     case enum_of hire_phase_value hire_phase_members s of None \<Rightarrow> Inl (HireProjectionError msg) | Some ph \<Rightarrow> Inr ph)"

definition created_state :: "hire_env \<Rightarrow> journal_event \<Rightarrow> int \<Rightarrow> hire_exn + durable_hire_state" where
  "created_state env ev seq =
     (let p = je_payload ev in
      bindE (phase_field p ''invalid initial hire phase'') (\<lambda>ph.
      if ph \<noteq> HP_PROVISIONING_APP then Inl (HireProjectionError ''invalid initial hire phase'') else
      bindE (required_string p ''agent_id'') (\<lambda>agent.
      if agent \<noteq> je_aggregate_id ev then Inl (HireProjectionError ''hire employee aggregate mismatch'') else
      case pstr (opt p ''requester_union_id'' (PStr [])) of
        None \<Rightarrow> Inl (HireProjectionError ''requester_union_id must be a string'')
      | Some requester_union \<Rightarrow>
      case pstr (opt p ''existing_app_id'' (PStr [])) of
        None \<Rightarrow> Inl (HireProjectionError ''existing_app_id is invalid'')
      | Some app \<Rightarrow>
      if app \<noteq> [] \<and> \<not> app_id_ok app then Inl (HireProjectionError ''existing_app_id is invalid'') else
      bindE (required_string p ''hire_intent_id'') (\<lambda>intent.
      bindE (required_string p ''tenant_key'') (\<lambda>tenant.
      bindE (required_string p ''hire_message_id'') (\<lambda>message.
      bindE (required_string p ''hire_chat_id'') (\<lambda>chat.
      bindE (required_string p ''owner_principal_id'') (\<lambda>owner.
      bindE (required_string p ''name'') (\<lambda>name.
      bindE (required_string p ''tool'') (\<lambda>tool.
      bindE (required_string p ''model'') (\<lambda>model.
      bindE (required_string p ''effort'') (\<lambda>effort.
      bindE (required_string p ''profile'') (\<lambda>profile.
      bindE (tuple_of (opt p ''personality_traits'' (PTuple []))) (\<lambda>traits.
      bindE (tuple_of (opt p ''capabilities'' (PTuple []))) (\<lambda>caps.
      bindE (tuple_of (opt p ''permissions'' (PTuple []))) (\<lambda>perms.
      bindE (required_string p ''planned_bot_principal_id'') (\<lambda>bot.
      bindE (required_string p ''provisioning_attempt_id'') (\<lambda>attempt.
      Inr \<lparr>hs_intent_id = intent, hs_tenant_key = tenant, hs_message_id = message, hs_chat_id = chat, hs_requester_principal_id = owner,
        hs_requester_union_id = requester_union, hs_employee_name = name, hs_tool = tool, hs_model = model, hs_effort = effort, hs_profile = profile,
        hs_role = hire_str env p ''role'', hs_persona = hire_str env p ''persona'', hs_personality_traits = traits, hs_capabilities = caps,
        hs_permissions = perms, hs_existing_app_id = app, hs_agent_id = agent, hs_bot_principal_id = bot, hs_attempt_id = attempt,
        hs_app_id = [], hs_credential_ref = [], hs_slash_spec_hash = [], hs_slash_observed_hash = [], hs_slash_verified_at = Fin 0,
        hs_channel_generation = 0, hs_channel_identity_app_id = [], hs_channel_connection_id = [], hs_channel_verified_at = Fin 0,
        hs_verification_nonce = [], hs_verification_issued_at = Fin 0, hs_verification_expires_at = Fin 0, hs_verification_consumed = False,
        hs_activation_ingress_event_id = [], hs_activation_ingress_message_id = [], hs_activation_send_request_id = [],
        hs_activation_source = [], hs_activation_verified_at = Fin 0, hs_phase = ph, hs_effects = [], hs_effect_types = [],
        hs_effect_metadata = [], hs_last_sequence = seq\<rparr>))))))))))))))))))"

section \<open>Effects\<close>

fun metadata_fields :: "pyval \<Rightarrow> hire_exn + pydict" where
  "metadata_fields (PDict d) = Inr d"
| "metadata_fields (PProxy d) = Inr d"
| "metadata_fields _ = Inl (HireProjectionError ''invalid hire effect metadata'')"

definition metadata_item :: "(string, string) dict \<Rightarrow> string \<times> pyval \<Rightarrow> hire_exn + (string, string) dict" where
  "metadata_item m kv = (case pstr (snd kv) of
     Some s \<Rightarrow> if s = [] then Inl (HireProjectionError ''invalid hire effect metadata'') else Inr (dset m (fst kv) s)
   | None \<Rightarrow> Inl (HireProjectionError ''invalid hire effect metadata''))"

definition effect_fact :: "journal_event \<Rightarrow> hire_exn + string \<times> string \<times> (string, string) dict" where
  "effect_fact ev =
     (let p = je_payload ev in
      if \<not> set [''effect_id'', ''effect_type''] \<subseteq> set (dkeys p) \<or> \<not> set (dkeys p) \<subseteq> set effect_payload_keys
      then Inl (HireProjectionError ''invalid hire effect payload'') else
      bindE (required_string p ''effect_id'') (\<lambda>eid.
      bindE (required_string p ''effect_type'') (\<lambda>etype.
      bindE (metadata_fields (opt p ''metadata'' (PDict []))) (\<lambda>raw.
      if \<not> set (dkeys raw) \<subseteq> set effect_metadata_keys then Inl (HireProjectionError ''invalid hire effect metadata'') else
      bindE (foldE metadata_item [] raw) (\<lambda>m.
      if dget m ''credential_ref'' \<noteq> None \<and> dget m ''app_id'' = None then Inl (HireProjectionError ''credential metadata requires app_id'')
      else Inr (eid, etype, sort_key fst m))))))"

text \<open>Metadata recorded before is kept: the new event may repeat a value but not change it.\<close>

definition merge_item :: "(string, string) dict \<Rightarrow> string \<times> string \<Rightarrow> hire_exn + (string, string) dict" where
  "merge_item m kv = (case dget m (fst kv) of
     None \<Rightarrow> Inr (dset m (fst kv) (snd kv))
   | Some v \<Rightarrow> if v = snd kv then Inr m else Inl (HireProjectionError ''hire effect metadata changed''))"

definition get_or :: "('k, 'v) dict \<Rightarrow> 'k \<Rightarrow> 'v \<Rightarrow> 'v" where
  "get_or d k v = (case dget d k of None \<Rightarrow> v | Some x \<Rightarrow> x)"

definition evidence_time :: "hire_env \<Rightarrow> (string, string) dict \<Rightarrow> string \<Rightarrow> pyfloat \<Rightarrow> string \<Rightarrow> hire_exn + pyfloat" where
  "evidence_time env m k current msg = (case dget m k of
     None \<Rightarrow> Inr current
   | Some t \<Rightarrow> (case hv_float env t of
       None \<Rightarrow> Inl (HireProjectionError msg)
     | Some f \<Rightarrow> if fle f (Fin 0) then Inl (HireProjectionError msg) else Inr f))"

text \<open>
  \<open>int(text)\<close> succeeds and \<open>str\<close> of it is the text again: only for a canonical decimal number, of no more digits than
  Python converts.
\<close>

definition ascii_digit :: "char \<Rightarrow> bool" where
  "ascii_digit c \<longleftrightarrow> 48 \<le> (of_char c :: nat) \<and> (of_char c :: nat) \<le> 57"

definition generation_field :: "(string, string) dict \<Rightarrow> int \<Rightarrow> hire_exn + int" where
  "generation_field m current = (case dget m ''generation'' of
     None \<Rightarrow> Inr current
   | Some t \<Rightarrow>
       if t \<noteq> [] \<and> list_all ascii_digit t \<and> hd t \<noteq> CHR ''0'' \<and> length t \<le> 4300 then Inr (int (read_nat t))
       else Inl (HireProjectionError ''invalid Channel generation''))"

definition hire_effect :: "hire_env \<Rightarrow> durable_hire_state \<Rightarrow> hire_effect_state \<Rightarrow> journal_event \<Rightarrow> int \<Rightarrow> hire_exn + durable_hire_state" where
  "hire_effect env s nxt ev seq =
     bindE (effect_fact ev) (\<lambda>(eid, etype, items).
     if dget (hs_effects s) eid \<notin> set (allowed_effect_predecessors nxt) then Inl (HireProjectionError ''invalid hire effect transition'') else
     if dget (hs_effect_types s) eid \<noteq> None \<and> dget (hs_effect_types s) eid \<noteq> Some etype then Inl (HireProjectionError ''hire effect type changed'') else
     bindE (foldE merge_item items (get_or (hs_effect_metadata s) eid [])) (\<lambda>m.
     let app = get_or m ''app_id'' (hs_app_id s); cred = get_or m ''credential_ref'' (hs_credential_ref s) in
     bindE (evidence_time env m ''slash_verified_at'' (hs_slash_verified_at s) ''invalid Slash evidence time'') (\<lambda>slash_at.
     bindE (generation_field m (hs_channel_generation s)) (\<lambda>gen.
     bindE (evidence_time env m ''channel_verified_at'' (hs_channel_verified_at s) ''invalid Channel evidence time'') (\<lambda>channel_at.
     if hs_app_id s \<noteq> [] \<and> app \<noteq> hs_app_id s then Inl (HireProjectionError ''hire app_id evidence mismatch'') else
     if hs_credential_ref s \<noteq> [] \<and> cred \<noteq> hs_credential_ref s then Inl (HireProjectionError ''hire credential evidence mismatch'') else
     Inr (s\<lparr>hs_effects := sort_key fst (dset (hs_effects s) eid nxt), hs_effect_types := sort_key fst (dset (hs_effect_types s) eid etype),
       hs_effect_metadata := sort_key fst (dset (hs_effect_metadata s) eid (sort_key fst m)), hs_app_id := app, hs_credential_ref := cred,
       hs_slash_spec_hash := get_or m ''slash_spec_hash'' (hs_slash_spec_hash s),
       hs_slash_observed_hash := get_or m ''slash_observed_hash'' (hs_slash_observed_hash s), hs_slash_verified_at := slash_at,
       hs_channel_generation := gen, hs_channel_identity_app_id := get_or m ''identity_app_id'' (hs_channel_identity_app_id s),
       hs_channel_connection_id := get_or m ''connection_id'' (hs_channel_connection_id s), hs_channel_verified_at := channel_at,
       hs_last_sequence := seq\<rparr>))))))"

section \<open>Verification and activation\<close>

definition ACTIVATION_CHALLENGE_RENEWAL_LEAD_SECONDS :: pyfloat where
  "ACTIVATION_CHALLENGE_RENEWAL_LEAD_SECONDS = Fin 30"

definition challenge_keys :: "string list" where
  "challenge_keys = [''tenant_key'', ''app_id'', ''agent_id'', ''generation'', ''requester_principal_id'', ''expected_slash_spec_hash'', ''nonce'',
     ''issued_at'', ''expires_at'']"

definition replaces_nonce :: "durable_hire_state \<Rightarrow> pydict \<Rightarrow> bool" where
  "replaces_nonce s p \<longleftrightarrow> hs_phase s = HP_READY_PENDING_VERIFICATION \<and> \<not> hs_verification_consumed s \<and> flt (Fin 0) (hs_verification_expires_at s) \<and>
     pstr (field_of p ''nonce'') \<noteq> None \<and> field_of p ''nonce'' \<noteq> PStr (hs_verification_nonce s)"

definition renewed_challenge :: "durable_hire_state \<Rightarrow> bool \<Rightarrow> pydict \<Rightarrow> hire_exn + bool" where
  "renewed_challenge s reissued p =
     andE (\<not> reissued \<and> replaces_nonce s p \<and> number (field_of p ''issued_at'') \<noteq> None)
       (bindE (float_of (field_of p ''issued_at'')) (\<lambda>i.
        andE (fle (fsub (hs_verification_expires_at s) ACTIVATION_CHALLENGE_RENEWAL_LEAD_SECONDS) i \<and> number (field_of p ''expires_at'') \<noteq> None)
          (bindE (float_of (field_of p ''expires_at'')) (\<lambda>e. Inr (flt (hs_verification_expires_at s) e)))))"

definition collision_reissue :: "durable_hire_state \<Rightarrow> bool \<Rightarrow> pydict \<Rightarrow> hire_exn + bool" where
  "collision_reissue s reissued p =
     andE (reissued \<and> replaces_nonce s p \<and> number (field_of p ''issued_at'') \<noteq> None)
       (bindE (float_of (field_of p ''issued_at'')) (\<lambda>i.
        andE (flt (hs_verification_issued_at s) i \<and> number (field_of p ''expires_at'') \<noteq> None)
          (bindE (float_of (field_of p ''expires_at'')) (\<lambda>e. Inr (flt i e)))))"

definition union_matches :: "durable_hire_state \<Rightarrow> pydict \<Rightarrow> string \<Rightarrow> bool" where
  "union_matches s p k \<longleftrightarrow> dget p k = None \<or> field_of p k = PStr (hs_requester_union_id s)"

text \<open>The numbers of a challenge: the current generation, and a time of expiry after the time of issue.\<close>

definition challenge_numbers :: "durable_hire_state \<Rightarrow> pydict \<Rightarrow> bool" where
  "challenge_numbers s p \<longleftrightarrow> field_of p ''generation'' = PInt (hs_channel_generation s) \<and>
     (case (number (field_of p ''issued_at''), number (field_of p ''expires_at'')) of (Some i, Some e) \<Rightarrow> \<not> fle e i | _ \<Rightarrow> False)"

definition hire_challenge :: "durable_hire_state \<Rightarrow> bool \<Rightarrow> journal_event \<Rightarrow> int \<Rightarrow> hire_exn + durable_hire_state" where
  "hire_challenge s reissued ev seq =
     (let p = je_payload ev in
      if \<not> exact_keys p (''requester_union_id'' # challenge_keys) \<and> \<not> exact_keys p challenge_keys
      then Inl (HireProjectionError ''invalid verification challenge payload'') else
      bindE (renewed_challenge s reissued p) (\<lambda>renewed.
      bindE (collision_reissue s reissued p) (\<lambda>collision.
      if je_aggregate_id ev \<noteq> hs_intent_id s \<or> \<not> (\<not> reissued \<and> hs_phase s = HP_VALIDATING \<or> renewed \<or> collision) \<or>
        field_of p ''tenant_key'' \<noteq> PStr (hs_tenant_key s) \<or> field_of p ''app_id'' \<noteq> PStr (hs_app_id s) \<or>
        field_of p ''agent_id'' \<noteq> PStr (hs_agent_id s) \<or> field_of p ''requester_principal_id'' \<noteq> PStr (hs_requester_principal_id s) \<or>
        \<not> union_matches s p ''requester_union_id'' \<or> field_of p ''expected_slash_spec_hash'' \<noteq> PStr (hs_slash_spec_hash s) \<or>
        \<not> challenge_numbers s p
      then Inl (HireProjectionError ''invalid verification challenge binding'') else
      bindE (required_string p ''nonce'') (\<lambda>nonce.
      bindE (float_of (field_of p ''issued_at'')) (\<lambda>i.
      bindE (float_of (field_of p ''expires_at'')) (\<lambda>e.
      Inr (s\<lparr>hs_verification_nonce := nonce, hs_verification_issued_at := i, hs_verification_expires_at := e, hs_verification_consumed := False,
        hs_activation_ingress_event_id := [], hs_activation_ingress_message_id := [], hs_activation_send_request_id := [],
        hs_activation_source := [], hs_activation_verified_at := Fin 0, hs_last_sequence := seq\<rparr>)))))))"

definition in_window :: "durable_hire_state \<Rightarrow> pyfloat \<Rightarrow> bool" where
  "in_window s f \<longleftrightarrow> fle (hs_verification_issued_at s) f \<and> fle f (hs_verification_expires_at s)"

definition hire_nonce_consumed :: "durable_hire_state \<Rightarrow> journal_event \<Rightarrow> int \<Rightarrow> hire_exn + durable_hire_state" where
  "hire_nonce_consumed s ev seq =
     (let p = je_payload ev; invalid = HireProjectionError ''invalid verification nonce consumption'' in
      if \<not> exact_keys p [''nonce'', ''consumed_at''] then Inl (HireProjectionError ''invalid verification nonce payload'') else
      if je_aggregate_id ev \<noteq> hs_intent_id s \<or> hs_phase s \<noteq> HP_READY_PENDING_VERIFICATION \<or> hs_verification_consumed s then Inl invalid else
      bindE (required_string p ''nonce'') (\<lambda>nonce.
      if nonce \<noteq> hs_verification_nonce s \<or> number (field_of p ''consumed_at'') = None then Inl invalid else
      bindE (float_of (field_of p ''consumed_at'')) (\<lambda>f.
      if \<not> in_window s f then Inl invalid else
      Inr (s\<lparr>hs_verification_consumed := True, hs_last_sequence := seq\<rparr>))))"

text \<open>What both activations require of the evidence: it names the tenant, application, agent, generation, commands and connection of the hire.\<close>

definition evidence_matches :: "durable_hire_state \<Rightarrow> pydict \<Rightarrow> bool" where
  "evidence_matches s p \<longleftrightarrow> field_of p ''tenant_key'' = PStr (hs_tenant_key s) \<and> field_of p ''app_id'' = PStr (hs_app_id s) \<and>
     field_of p ''agent_id'' = PStr (hs_agent_id s) \<and> equals_int (field_of p ''generation'') (hs_channel_generation s) \<and>
     field_of p ''slash_spec_hash'' = PStr (hs_slash_spec_hash s) \<and> field_of p ''channel_connection_id'' = PStr (hs_channel_connection_id s)"

definition activation_keys :: "string list" where
  "activation_keys = [''tenant_key'', ''app_id'', ''agent_id'', ''generation'', ''nonce'', ''slash_spec_hash'', ''channel_connection_id'',
     ''ingress_event_id'', ''ingress_message_id'', ''employee_send_request_id'', ''reply_app_id'', ''main_bot_send_count'', ''verified_at'']"

definition hire_activation_verified :: "durable_hire_state \<Rightarrow> journal_event \<Rightarrow> int \<Rightarrow> hire_exn + durable_hire_state" where
  "hire_activation_verified s ev seq =
     (let p = je_payload ev; invalid = HireProjectionError ''invalid activation evidence binding'' in
      if \<not> exact_keys p (''sender_union_id'' # activation_keys) \<and> \<not> exact_keys p activation_keys
      then Inl (HireProjectionError ''invalid activation evidence payload'') else
      if je_aggregate_id ev \<noteq> hs_intent_id s \<or> hs_phase s \<noteq> HP_READY_PENDING_VERIFICATION \<or> \<not> hs_verification_consumed s \<or>
        \<not> evidence_matches s p \<or> field_of p ''nonce'' \<noteq> PStr (hs_verification_nonce s) \<or> field_of p ''reply_app_id'' \<noteq> PStr (hs_app_id s) \<or>
        \<not> equals_int (field_of p ''main_bot_send_count'') 0 \<or> \<not> union_matches s p ''sender_union_id'' \<or> number (field_of p ''verified_at'') = None
      then Inl invalid else
      bindE (float_of (field_of p ''verified_at'')) (\<lambda>f.
      if \<not> fisfinite f \<or> \<not> in_window s f then Inl invalid else
      bindE (required_string p ''ingress_event_id'') (\<lambda>ingress_event.
      bindE (required_string p ''ingress_message_id'') (\<lambda>ingress_message.
      bindE (required_string p ''employee_send_request_id'') (\<lambda>send_request.
      Inr (s\<lparr>hs_activation_ingress_event_id := ingress_event, hs_activation_ingress_message_id := ingress_message,
        hs_activation_send_request_id := send_request, hs_activation_source := ''status'', hs_activation_verified_at := f,
        hs_last_sequence := seq\<rparr>))))))"

definition automatic_keys :: "string list" where
  "automatic_keys = [''tenant_key'', ''app_id'', ''agent_id'', ''generation'', ''slash_spec_hash'', ''channel_connection_id'',
     ''requester_principal_id'', ''requester_union_id'', ''source'', ''activated_at'']"

definition hire_activation_automatic :: "durable_hire_state \<Rightarrow> journal_event \<Rightarrow> int \<Rightarrow> hire_exn + durable_hire_state" where
  "hire_activation_automatic s ev seq =
     (let p = je_payload ev; invalid = HireProjectionError ''invalid automatic activation binding'' in
      if \<not> exact_keys p automatic_keys \<or> je_aggregate_id ev \<noteq> hs_intent_id s \<or> hs_phase s \<noteq> HP_READY_PENDING_VERIFICATION \<or>
        hs_verification_consumed s \<or> \<not> evidence_matches s p \<or> field_of p ''requester_principal_id'' \<noteq> PStr (hs_requester_principal_id s) \<or>
        field_of p ''requester_union_id'' \<noteq> PStr (hs_requester_union_id s) \<or> field_of p ''source'' \<noteq> PStr ''channel_ready'' \<or>
        number (field_of p ''activated_at'') = None
      then Inl invalid else
      bindE (float_of (field_of p ''activated_at'')) (\<lambda>f.
      if \<not> fisfinite f \<or> flt f (fmax (hs_slash_verified_at s) (hs_channel_verified_at s)) then Inl invalid else
      Inr (s\<lparr>hs_verification_consumed := True, hs_activation_source := ''channel_ready'', hs_activation_verified_at := f,
        hs_last_sequence := seq\<rparr>)))"

section \<open>Identities\<close>

definition hire_identity_bound :: "durable_hire_state \<Rightarrow> journal_event \<Rightarrow> int \<Rightarrow> hire_exn + durable_hire_state" where
  "hire_identity_bound s ev seq =
     (if \<not> exact_keys (je_payload ev) [''requester_union_id''] then Inl (HireProjectionError ''invalid requester identity payload'') else
      bindE (required_string (je_payload ev) ''requester_union_id'') (\<lambda>requester_union.
      if je_aggregate_id ev \<noteq> hs_intent_id s \<or> hs_requester_union_id s \<noteq> [] \<and> hs_requester_union_id s \<noteq> requester_union
      then Inl (HireProjectionError ''requester identity binding mismatch'')
      else Inr (s\<lparr>hs_requester_union_id := requester_union, hs_last_sequence := seq\<rparr>)))"

definition hire_bot_bound :: "durable_hire_state \<Rightarrow> journal_event \<Rightarrow> int \<Rightarrow> hire_exn + durable_hire_state" where
  "hire_bot_bound s ev seq =
     (let p = je_payload ev in
      if je_aggregate_id ev \<noteq> hs_bot_principal_id s then Inl (HireProjectionError ''hire bot principal mismatch'') else
      if field_of p ''agent_id'' \<noteq> PStr (hs_agent_id s) then Inl (HireProjectionError ''hire bot principal agent mismatch'') else
      bindE (required_string p ''app_id'') (\<lambda>app.
      bindE (required_string p ''credential_ref'') (\<lambda>cred.
      if hs_app_id s \<noteq> [] \<and> hs_app_id s \<noteq> app then Inl (HireProjectionError ''hire app_id evidence mismatch'') else
      if hs_credential_ref s \<noteq> [] \<and> hs_credential_ref s \<noteq> cred then Inl (HireProjectionError ''hire credential evidence mismatch'') else
      Inr (s\<lparr>hs_app_id := app, hs_credential_ref := cred, hs_last_sequence := seq\<rparr>))))"

section \<open>The projection\<close>

record hire_tables =
  ht_states :: "(string, durable_hire_state) dict"
  ht_agents :: "(string, string) dict"
  ht_bots :: "(string, string) dict"
  ht_apps :: "(string, string) dict"
  ht_recoveries :: "string set"

definition hire_admit :: "hire_tables \<Rightarrow> durable_hire_state \<Rightarrow> hire_exn + hire_tables" where
  "hire_admit t s =
     (if dget (ht_states t) (hs_intent_id s) \<noteq> None \<or> dget (ht_agents t) (hs_agent_id s) \<noteq> None
      then Inl (HireProjectionError ''duplicate durable hire admission'') else
      bindE (case (hs_existing_app_id s, dget (ht_apps t) (hs_existing_app_id s)) of
          (_ # _, Some owner) \<Rightarrow> (case dget (ht_states t) owner of None \<Rightarrow> Inl (HireKeyError owner) | Some ow \<Rightarrow> Inr (hs_phase ow \<noteq> HP_ARCHIVED))
        | _ \<Rightarrow> Inr False) (\<lambda>taken.
      if taken then Inl (HireProjectionError ''duplicate existing_app_id admission'') else
      Inr (t\<lparr>ht_states := dset (ht_states t) (hs_intent_id s) s, ht_agents := dset (ht_agents t) (hs_agent_id s) (hs_intent_id s),
        ht_bots := dset (ht_bots t) (hs_bot_principal_id s) (hs_intent_id s),
        ht_apps := (if hs_existing_app_id s = [] then ht_apps t else dset (ht_apps t) (hs_existing_app_id s) (hs_intent_id s))\<rparr>)))"

definition hire_intent_of :: "hire_tables \<Rightarrow> string \<Rightarrow> string option" where
  "hire_intent_of t a =
     (if dget (ht_states t) a \<noteq> None then Some a
      else case dget (ht_agents t) a of
        Some (c # cs) \<Rightarrow> Some (c # cs)
      | _ \<Rightarrow> dget (ht_bots t) a)"

text \<open>The marker of a recovery stands first in a frame of two events, before the change of phase it allows.\<close>

definition recovery_marker_ok :: "durable_hire_state \<Rightarrow> journal_event list \<Rightarrow> nat \<Rightarrow> journal_event \<Rightarrow> bool" where
  "recovery_marker_ok s events idx ev \<longleftrightarrow>
     exact_keys (je_payload ev) [''generation''] \<and> je_aggregate_id ev = hs_intent_id s \<and> hs_phase s = HP_ACTION_REQUIRED \<and>
     (case field_of (je_payload ev) ''generation'' of PInt g \<Rightarrow> 0 < g \<and> g = hs_channel_generation s | _ \<Rightarrow> False) \<and>
     (case (idx, events) of
        (0, [_, companion]) \<Rightarrow> je_event_type companion = ''employee.state_changed'' \<and> je_aggregate_id companion = hs_agent_id s \<and>
          exact_keys (je_payload companion) [''state''] \<and> field_of (je_payload companion) ''state'' = PStr (hire_phase_value HP_VALIDATING)
      | _ \<Rightarrow> False)"

definition hire_phase_changed :: "hire_tables \<Rightarrow> string \<Rightarrow> durable_hire_state \<Rightarrow> journal_event \<Rightarrow> int \<Rightarrow> hire_exn + hire_tables" where
  "hire_phase_changed t i s ev seq =
     (if \<not> exact_keys (je_payload ev) [''state''] then Inl (HireProjectionError ''invalid hire phase payload'') else
      bindE (phase_field (je_payload ev) ''invalid hire phase'') (\<lambda>ph.
      if ph \<notin> set (allowed_phase_successors (hs_phase s)) \<and>
        \<not> (hs_phase s = HP_ACTION_REQUIRED \<and> ph = HP_VALIDATING \<and> i \<in> ht_recoveries t)
      then Inl (HireProjectionError ''invalid hire phase transition'') else
      Inr (t\<lparr>ht_recoveries := ht_recoveries t - {i}, ht_states := dset (ht_states t) i (s\<lparr>hs_phase := ph, hs_last_sequence := seq\<rparr>),
        ht_apps := (if ph = HP_ARCHIVED \<and> hs_existing_app_id s \<noteq> [] \<and> dget (ht_apps t) (hs_existing_app_id s) = Some i
          then dpop (ht_apps t) (hs_existing_app_id s) else ht_apps t)\<rparr>)))"

definition hire_state_event :: "hire_env \<Rightarrow> durable_hire_state \<Rightarrow> journal_event \<Rightarrow> int \<Rightarrow> hire_exn + durable_hire_state" where
  "hire_state_event env s ev seq =
     (let ty = je_event_type ev in
      if ty = ''hire.requester_identity_bound'' then hire_identity_bound s ev seq
      else if ty = ''bot_principal.bound'' then hire_bot_bound s ev seq
      else if ty = ''hire.verification.challenge_issued'' then hire_challenge s False ev seq
      else if ty = ''hire.verification.challenge_reissued'' then hire_challenge s True ev seq
      else if ty = ''hire.verification.nonce_consumed'' then hire_nonce_consumed s ev seq
      else if ty = ''hire.activation.verified'' then hire_activation_verified s ev seq
      else if ty = ''hire.activation.automatic'' then hire_activation_automatic s ev seq
      else case dget hire_effect_events ty of None \<Rightarrow> Inr s | Some nxt \<Rightarrow> hire_effect env s nxt ev seq)"

definition reduce_hire :: "hire_env \<Rightarrow> transaction_frame \<Rightarrow> hire_tables \<Rightarrow> nat \<times> journal_event \<Rightarrow> hire_exn + hire_tables" where
  "reduce_hire env f t iev =
     (let ev = snd iev; seq = tf_sequence f in
      if is_hire_admission ev then bindE (created_state env ev seq) (hire_admit t)
      else case hire_intent_of t (je_aggregate_id ev) of
        None \<Rightarrow> Inr t
      | Some i \<Rightarrow>
          (case dget (ht_states t) i of
             None \<Rightarrow> Inl (HireKeyError i)
           | Some s \<Rightarrow>
               if je_event_type ev = ''hire.channel.phase_only_recovery'' then
                 (if recovery_marker_ok s (tf_events f) (fst iev) ev then Inr (t\<lparr>ht_recoveries := insert i (ht_recoveries t)\<rparr>)
                  else Inl (HireProjectionError ''invalid phase-only channel recovery marker''))
               else if je_event_type ev = ''employee.state_changed'' then hire_phase_changed t i s ev seq
               else bindE (hire_state_event env s ev seq) (\<lambda>s'. Inr (t\<lparr>ht_states := dset (ht_states t) i s'\<rparr>))))"

definition reduce_frame :: "hire_env \<Rightarrow> hire_tables \<Rightarrow> transaction_frame \<Rightarrow> hire_exn + hire_tables" where
  "reduce_frame env t f =
     bindE (foldE (reduce_hire env f) (t\<lparr>ht_recoveries := {}\<rparr>) (enumerate 0 (tf_events f))) (\<lambda>t'.
     if ht_recoveries t' \<noteq> {} then Inl (HireProjectionError ''phase-only channel recovery marker was not consumed'') else Inr t')"

definition empty_tables :: hire_tables where
  "empty_tables = \<lparr>ht_states = [], ht_agents = [], ht_bots = [], ht_apps = [], ht_recoveries = {}\<rparr>"

definition hire_rebuild :: "hire_env \<Rightarrow> transaction_frame list \<Rightarrow> hire_exn + hire_tables" where
  "hire_rebuild env fs = foldE (reduce_frame env) empty_tables fs"

section \<open>What an event keeps\<close>

lemma raise_if_Inr: "(if c then Inl x else m) = Inr b \<longleftrightarrow> \<not> c \<and> m = Inr b"
  by simp

lemma Inr_eq: "Inr a = Inr b \<longleftrightarrow> b = a"
  by auto

definition hire_fixed where
  "hire_fixed s = (hs_intent_id s, hs_tenant_key s, hs_message_id s, hs_chat_id s, hs_requester_principal_id s, hs_employee_name s, hs_tool s,
     hs_model s, hs_effort s, hs_profile s, hs_role s, hs_persona s, hs_personality_traits s, hs_capabilities s, hs_permissions s,
     hs_existing_app_id s, hs_agent_id s, hs_bot_principal_id s, hs_attempt_id s)"

text \<open>A value that is written at most once.\<close>

definition once :: "string \<Rightarrow> string \<Rightarrow> bool" where
  "once a b \<longleftrightarrow> a = [] \<or> b = a"

definition hire_state_kept :: "durable_hire_state \<Rightarrow> durable_hire_state \<Rightarrow> bool" where
  "hire_state_kept s t \<longleftrightarrow> hire_fixed t = hire_fixed s \<and> once (hs_requester_union_id s) (hs_requester_union_id t) \<and>
     once (hs_app_id s) (hs_app_id t) \<and> once (hs_credential_ref s) (hs_credential_ref t) \<and> (hs_phase s = HP_ARCHIVED \<longrightarrow> hs_phase t = HP_ARCHIVED)"

definition activation_ok :: "durable_hire_state \<Rightarrow> bool" where
  "activation_ok s \<longleftrightarrow> hs_activation_source s = [] \<or>
     hs_verification_consumed s \<and>
     (hs_activation_source s = ''channel_ready'' \<or>
      hs_activation_source s = ''status'' \<and> in_window s (hs_activation_verified_at s) \<and> hs_activation_ingress_event_id s \<noteq> [] \<and>
        hs_activation_ingress_message_id s \<noteq> [] \<and> hs_activation_send_request_id s \<noteq> [])"

lemma required_string_Inr: "required_string p k = Inr s \<longleftrightarrow> field_of p k = PStr s \<and> s \<noteq> []"
  by (cases "field_of p k") (auto simp: required_string_def)

lemma kept_refl_state: "hire_state_kept s s"
  by (simp add: hire_state_kept_def once_def)

lemma kept_trans_state: "hire_state_kept s t \<Longrightarrow> hire_state_kept t u \<Longrightarrow> hire_state_kept s u"
  by (auto simp: hire_state_kept_def once_def)

lemmas hire_op_defs = hire_identity_bound_def hire_bot_bound_def hire_challenge_def hire_nonce_consumed_def hire_activation_verified_def
  hire_activation_automatic_def Let_def

lemmas hire_relation_defs = hire_state_kept_def hire_fixed_def once_def activation_ok_def in_window_def

lemma hire_effect_keeps:
  assumes "hire_effect env s nxt ev seq = Inr s'"
  shows "hire_state_kept s s'" and "hs_phase s' = hs_phase s" and "activation_ok s \<Longrightarrow> activation_ok s'"
    and "hs_verification_consumed s' = hs_verification_consumed s"
proof -
  from assms obtain eid etype items where f: "effect_fact ev = Inr (eid, etype, items)" unfolding hire_effect_def by (auto elim!: bindE_InrE)
  from assms obtain m slash_at gen channel_at
    where c: "hs_app_id s = [] \<or> get_or m ''app_id'' (hs_app_id s) = hs_app_id s"
      "hs_credential_ref s = [] \<or> get_or m ''credential_ref'' (hs_credential_ref s) = hs_credential_ref s"
    and s': "s' = s\<lparr>hs_effects := sort_key fst (dset (hs_effects s) eid nxt), hs_effect_types := sort_key fst (dset (hs_effect_types s) eid etype),
       hs_effect_metadata := sort_key fst (dset (hs_effect_metadata s) eid (sort_key fst m)), hs_app_id := get_or m ''app_id'' (hs_app_id s),
       hs_credential_ref := get_or m ''credential_ref'' (hs_credential_ref s),
       hs_slash_spec_hash := get_or m ''slash_spec_hash'' (hs_slash_spec_hash s),
       hs_slash_observed_hash := get_or m ''slash_observed_hash'' (hs_slash_observed_hash s), hs_slash_verified_at := slash_at,
       hs_channel_generation := gen, hs_channel_identity_app_id := get_or m ''identity_app_id'' (hs_channel_identity_app_id s),
       hs_channel_connection_id := get_or m ''connection_id'' (hs_channel_connection_id s), hs_channel_verified_at := channel_at,
       hs_last_sequence := seq\<rparr>"
    unfolding hire_effect_def f bindE.simps prod.case Let_def raise_if_Inr bindE_Inr_iff Inr_eq by blast
  show "hire_state_kept s s'" using c by (simp add: s' hire_relation_defs)
  show "hs_phase s' = hs_phase s" "hs_verification_consumed s' = hs_verification_consumed s" by (simp_all add: s')
  show "activation_ok s'" if "activation_ok s" using that by (simp add: s' hire_relation_defs)
qed

lemma hire_challenge_keeps:
  assumes "hire_challenge s reissued ev seq = Inr s'"
  shows "hire_state_kept s s'" and "hs_phase s' = hs_phase s" and "activation_ok s'" and "\<not> hs_verification_consumed s'"
    and "je_aggregate_id ev = hs_intent_id s"
  using assms unfolding hire_op_defs raise_if_Inr bindE_Inr_iff Inr_eq
  by (auto simp: hire_relation_defs)

lemma hire_nonce_consumed_keeps:
  assumes "hire_nonce_consumed s ev seq = Inr s'"
  shows "hire_state_kept s s'" and "hs_phase s' = hs_phase s" and "activation_ok s \<Longrightarrow> activation_ok s'"
    and "\<not> hs_verification_consumed s" "hs_verification_consumed s'" and "je_aggregate_id ev = hs_intent_id s"
  using assms unfolding hire_op_defs raise_if_Inr bindE_Inr_iff Inr_eq
  by (auto simp: hire_relation_defs)

lemma hire_activation_verified_keeps:
  assumes "hire_activation_verified s ev seq = Inr s'"
  shows "hire_state_kept s s'" and "hs_phase s' = hs_phase s" and "activation_ok s'"
    and "hs_verification_consumed s' = hs_verification_consumed s"
  using assms unfolding hire_op_defs raise_if_Inr bindE_Inr_iff Inr_eq
  by (auto simp: hire_relation_defs required_string_Inr)

lemma hire_activation_automatic_keeps:
  assumes "hire_activation_automatic s ev seq = Inr s'"
  shows "hire_state_kept s s'" and "hs_phase s' = hs_phase s" and "activation_ok s'"
    and "\<not> hs_verification_consumed s" "hs_verification_consumed s'" and "je_aggregate_id ev = hs_intent_id s"
  using assms unfolding hire_op_defs raise_if_Inr bindE_Inr_iff Inr_eq
  by (auto simp: hire_relation_defs)

lemma hire_identity_bound_keeps:
  assumes "hire_identity_bound s ev seq = Inr s'"
  shows "hire_state_kept s s'" and "hs_phase s' = hs_phase s" and "activation_ok s \<Longrightarrow> activation_ok s'"
    and "hs_verification_consumed s' = hs_verification_consumed s"
  using assms unfolding hire_op_defs raise_if_Inr bindE_Inr_iff Inr_eq
  by (auto simp: hire_relation_defs)

lemma hire_bot_bound_keeps:
  assumes "hire_bot_bound s ev seq = Inr s'"
  shows "hire_state_kept s s'" and "hs_phase s' = hs_phase s" and "activation_ok s \<Longrightarrow> activation_ok s'"
    and "hs_verification_consumed s' = hs_verification_consumed s"
  using assms unfolding hire_op_defs raise_if_Inr bindE_Inr_iff Inr_eq
  by (auto simp: hire_relation_defs)

text \<open>Events that use up a verification, and events that open a new one.\<close>

definition uses_verification :: "string \<Rightarrow> journal_event \<Rightarrow> bool" where
  "uses_verification i ev \<longleftrightarrow> je_aggregate_id ev = i \<and>
     (je_event_type ev = ''hire.verification.nonce_consumed'' \<or> je_event_type ev = ''hire.activation.automatic'')"

definition opens_verification :: "string \<Rightarrow> journal_event \<Rightarrow> bool" where
  "opens_verification i ev \<longleftrightarrow> je_aggregate_id ev = i \<and>
     (je_event_type ev = ''hire.verification.challenge_issued'' \<or> je_event_type ev = ''hire.verification.challenge_reissued'')"

lemma hire_state_event_cases:
  assumes "hire_state_event env s ev seq = Inr s'"
  obtains (identity) "je_event_type ev = ''hire.requester_identity_bound''" "hire_identity_bound s ev seq = Inr s'"
    | (bot) "je_event_type ev = ''bot_principal.bound''" "hire_bot_bound s ev seq = Inr s'"
    | (issued) "je_event_type ev = ''hire.verification.challenge_issued''" "hire_challenge s False ev seq = Inr s'"
    | (reissued) "je_event_type ev = ''hire.verification.challenge_reissued''" "hire_challenge s True ev seq = Inr s'"
    | (nonce) "je_event_type ev = ''hire.verification.nonce_consumed''" "hire_nonce_consumed s ev seq = Inr s'"
    | (verified) "je_event_type ev = ''hire.activation.verified''" "hire_activation_verified s ev seq = Inr s'"
    | (automatic) "je_event_type ev = ''hire.activation.automatic''" "hire_activation_automatic s ev seq = Inr s'"
    | (effect) nxt where "dget hire_effect_events (je_event_type ev) = Some nxt" "hire_effect env s nxt ev seq = Inr s'"
    | (other) "dget hire_effect_events (je_event_type ev) = None" "s' = s"
      "je_event_type ev \<noteq> ''hire.verification.nonce_consumed''" "je_event_type ev \<noteq> ''hire.activation.automatic''"
  using assms unfolding hire_state_event_def Let_def by (auto split: if_splits option.splits)

lemma effect_event_other:
  "dget hire_effect_events (je_event_type ev) = Some nxt \<Longrightarrow> \<not> uses_verification i ev"
  by (auto simp: hire_effect_events_def uses_verification_def)

text \<open>
  One event of a known hire: fixed values stay, evidence stays valid, and a verification is used only when it is open
  and opened again only by a challenge.
\<close>

lemma hire_state_event_keeps:
  assumes "hire_state_event env s ev seq = Inr s'"
  shows "hire_state_kept s s'" and "hs_phase s' = hs_phase s" and "activation_ok s \<Longrightarrow> activation_ok s'"
  using assms
  by (cases rule: hire_state_event_cases;
    blast dest: hire_identity_bound_keeps hire_bot_bound_keeps hire_challenge_keeps hire_nonce_consumed_keeps hire_activation_verified_keeps
      hire_activation_automatic_keeps hire_effect_keeps intro: kept_refl_state)+

lemma hire_state_event_verification:
  assumes "hire_state_event env s ev seq = Inr s'"
  shows "of_bool (uses_verification (hs_intent_id s) ev) + of_bool (hs_verification_consumed s)
    \<le> (of_bool (opens_verification (hs_intent_id s) ev) + of_bool (hs_verification_consumed s') :: nat)"
  using assms
proof (cases rule: hire_state_event_cases)
  case identity
  then show ?thesis using hire_identity_bound_keeps(4) by (simp add: uses_verification_def)
next
  case bot
  then show ?thesis using hire_bot_bound_keeps(4) by (simp add: uses_verification_def)
next
  case issued
  then show ?thesis using hire_challenge_keeps(5) by (simp add: uses_verification_def opens_verification_def)
next
  case reissued
  then show ?thesis using hire_challenge_keeps(5) by (simp add: uses_verification_def opens_verification_def)
next
  case nonce
  then show ?thesis using hire_nonce_consumed_keeps(4,5) by simp
next
  case verified
  then show ?thesis using hire_activation_verified_keeps(4) by (simp add: uses_verification_def)
next
  case automatic
  then show ?thesis using hire_activation_automatic_keeps(4,5) by simp
next
  case (effect nxt)
  then show ?thesis using hire_effect_keeps(4) effect_event_other by simp
next
  case other
  then show ?thesis by (simp add: uses_verification_def)
qed

section \<open>The tables\<close>

definition hire_state_ok :: "hire_tables \<Rightarrow> string \<Rightarrow> durable_hire_state \<Rightarrow> bool" where
  "hire_state_ok t i s \<longleftrightarrow> hs_intent_id s = i \<and> i \<noteq> [] \<and> dget (ht_agents t) (hs_agent_id s) = Some i \<and> activation_ok s \<and>
     (hs_existing_app_id s \<noteq> [] \<longrightarrow> hs_phase s \<noteq> HP_ARCHIVED \<longrightarrow> dget (ht_apps t) (hs_existing_app_id s) = Some i)"

definition hire_inv :: "hire_tables \<Rightarrow> bool" where
  "hire_inv t \<longleftrightarrow> (\<forall>i s. dget (ht_states t) i = Some s \<longrightarrow> hire_state_ok t i s) \<and>
     (\<forall>a i. dget (ht_agents t) a = Some i \<longrightarrow> dget (ht_states t) i \<noteq> None) \<and>
     (\<forall>b i. dget (ht_bots t) b = Some i \<longrightarrow> dget (ht_states t) i \<noteq> None) \<and>
     (\<forall>a i. dget (ht_apps t) a = Some i \<longrightarrow> dget (ht_states t) i \<noteq> None)"

definition hire_kept :: "hire_tables \<Rightarrow> hire_tables \<Rightarrow> bool" where
  "hire_kept t u \<longleftrightarrow> (\<forall>i s. dget (ht_states t) i = Some s \<longrightarrow> (\<exists>s'. dget (ht_states u) i = Some s' \<and> hire_state_kept s s'))"

definition hire_app_taken :: "hire_tables \<Rightarrow> durable_hire_state \<Rightarrow> bool" where
  "hire_app_taken t s \<longleftrightarrow> hs_existing_app_id s \<noteq> [] \<and>
     (\<exists>i u. dget (ht_apps t) (hs_existing_app_id s) = Some i \<and> dget (ht_states t) i = Some u \<and> hs_phase u \<noteq> HP_ARCHIVED)"

definition admitted :: "hire_tables \<Rightarrow> durable_hire_state \<Rightarrow> hire_tables" where
  "admitted t s = t\<lparr>ht_states := dset (ht_states t) (hs_intent_id s) s, ht_agents := dset (ht_agents t) (hs_agent_id s) (hs_intent_id s),
     ht_bots := dset (ht_bots t) (hs_bot_principal_id s) (hs_intent_id s),
     ht_apps := (if hs_existing_app_id s = [] then ht_apps t else dset (ht_apps t) (hs_existing_app_id s) (hs_intent_id s))\<rparr>"

lemma hire_admit_Inr:
  assumes "hire_admit t s = Inr t'"
  shows "dget (ht_states t) (hs_intent_id s) = None" and "dget (ht_agents t) (hs_agent_id s) = None" and "\<not> hire_app_taken t s" and "t' = admitted t s"
  using assms unfolding hire_admit_def raise_if_Inr bindE_Inr_iff Inr_eq admitted_def hire_app_taken_def
  by (auto split: list.splits option.splits)

lemma created_state_new:
  assumes "created_state env ev seq = Inr s"
  shows "hs_intent_id s \<noteq> []" and "hs_activation_source s = []" and "\<not> hs_verification_consumed s" and "hs_agent_id s = je_aggregate_id ev"
proof -
  from assms [unfolded created_state_def Let_def raise_if_Inr bindE_Inr_iff]
  obtain requester_union where "pstr (opt (je_payload ev) ''requester_union_id'' (PStr [])) = Some requester_union" by (auto split: option.splits)
  moreover from assms [unfolded created_state_def Let_def raise_if_Inr bindE_Inr_iff]
  obtain app where "pstr (opt (je_payload ev) ''existing_app_id'' (PStr [])) = Some app" by (auto split: option.splits)
  ultimately show "hs_intent_id s \<noteq> []" "hs_activation_source s = []" "\<not> hs_verification_consumed s" "hs_agent_id s = je_aggregate_id ev"
    using assms unfolding created_state_def Let_def raise_if_Inr bindE_Inr_iff Inr_eq
    by (auto simp: raise_if_Inr bindE_Inr_iff Inr_eq required_string_Inr)
qed

inductive hire_step :: "hire_env \<Rightarrow> int \<Rightarrow> journal_event \<Rightarrow> hire_tables \<Rightarrow> hire_tables \<Rightarrow> bool" for env seq ev t where
  admission: "hire_step env seq ev t (admitted t s)"
  if "is_hire_admission ev" "created_state env ev seq = Inr s" "dget (ht_states t) (hs_intent_id s) = None" "dget (ht_agents t) (hs_agent_id s) = None" "\<not> hire_app_taken t s"
| ignored: "hire_step env seq ev t t" if "\<not> is_hire_admission ev" "hire_intent_of t (je_aggregate_id ev) = None"
| marked: "hire_step env seq ev t (t\<lparr>ht_recoveries := insert i (ht_recoveries t)\<rparr>)"
  if "je_event_type ev = ''hire.channel.phase_only_recovery''" "dget (ht_states t) i = Some s"
| phase: "hire_step env seq ev t (t\<lparr>ht_recoveries := ht_recoveries t - {i},
    ht_states := dset (ht_states t) i (s\<lparr>hs_phase := ph, hs_last_sequence := seq\<rparr>),
    ht_apps := (if ph = HP_ARCHIVED \<and> hs_existing_app_id s \<noteq> [] \<and> dget (ht_apps t) (hs_existing_app_id s) = Some i
      then dpop (ht_apps t) (hs_existing_app_id s) else ht_apps t)\<rparr>)"
  if "je_event_type ev = ''employee.state_changed''" "dget (ht_states t) i = Some s"
    "ph \<in> set (allowed_phase_successors (hs_phase s)) \<or> hs_phase s = HP_ACTION_REQUIRED \<and> ph = HP_VALIDATING"
| state: "hire_step env seq ev t (t\<lparr>ht_states := dset (ht_states t) i s'\<rparr>)"
  if "hire_intent_of t (je_aggregate_id ev) = Some i" "dget (ht_states t) i = Some s" "hire_state_event env s ev seq = Inr s'"

lemma reduce_hire_step:
  assumes "reduce_hire env f t (k, ev) = Inr t'"
  shows "hire_step env (tf_sequence f) ev t t'"
proof (cases "is_hire_admission ev")
  case True
  with assms obtain s where "created_state env ev (tf_sequence f) = Inr s" "hire_admit t s = Inr t'"
    unfolding reduce_hire_def Let_def snd_conv by (auto elim: bindE_InrE)
  with True hire_admit_Inr show ?thesis by (metis hire_step.admission)
next
  case False
  note na = this
  show ?thesis
  proof (cases "hire_intent_of t (je_aggregate_id ev)")
    case None
    with na assms show ?thesis unfolding reduce_hire_def Let_def snd_conv by (auto intro: hire_step.ignored)
  next
    case (Some i)
    with na assms obtain s where s: "dget (ht_states t) i = Some s"
      unfolding reduce_hire_def Let_def snd_conv by (auto split: option.splits)
    consider (marked) "je_event_type ev = ''hire.channel.phase_only_recovery''" "t' = t\<lparr>ht_recoveries := insert i (ht_recoveries t)\<rparr>"
      | (phase) "je_event_type ev = ''employee.state_changed''" "hire_phase_changed t i s ev (tf_sequence f) = Inr t'"
      | (state) s' where "hire_state_event env s ev (tf_sequence f) = Inr s'" "t' = t\<lparr>ht_states := dset (ht_states t) i s'\<rparr>"
      using assms na Some s unfolding reduce_hire_def Let_def fst_conv snd_conv by (auto split: if_splits elim!: bindE_InrE)
    then show ?thesis
    proof cases
      case marked
      with s show ?thesis by (auto intro: hire_step.marked)
    next
      case phase
      with s show ?thesis unfolding hire_phase_changed_def raise_if_Inr bindE_Inr_iff Inr_eq by (auto intro!: hire_step.phase)
    next
      case state
      with s Some show ?thesis by (auto intro: hire_step.state)
    qed
  qed
qed

lemma hire_state_kept_fixed:
  assumes "hire_state_kept s s'"
  shows "hs_intent_id s' = hs_intent_id s" and "hs_agent_id s' = hs_agent_id s" and "hs_existing_app_id s' = hs_existing_app_id s"
    and "hs_bot_principal_id s' = hs_bot_principal_id s"
  using assms by (simp_all add: hire_state_kept_def hire_fixed_def)

lemma no_successor_of_archived: "ph \<in> set (allowed_phase_successors p) \<Longrightarrow> p \<noteq> HP_ARCHIVED"
  by auto

lemma phase_update_ok [simp]: "activation_ok (s\<lparr>hs_phase := ph, hs_last_sequence := q\<rparr>) = activation_ok s"
  by (simp add: activation_ok_def in_window_def)

lemma admission_inv:
  assumes inv: "hire_inv t" and new: "created_state env ev seq = Inr s" "dget (ht_states t) (hs_intent_id s) = None"
    "dget (ht_agents t) (hs_agent_id s) = None" "\<not> hire_app_taken t s"
  shows "hire_inv (admitted t s)"
proof -
  have fresh: "hire_state_ok (admitted t s) (hs_intent_id s) s"
    using created_state_new [OF new(1)] by (simp add: hire_state_ok_def admitted_def activation_ok_def)
  have old: "hire_state_ok (admitted t s) i u" if u: "dget (ht_states t) i = Some u" for i u
  proof -
    from inv u have ok: "hire_state_ok t i u" by (simp add: hire_inv_def)
    moreover from ok new(3) have "hs_agent_id u \<noteq> hs_agent_id s" by (auto simp: hire_state_ok_def)
    moreover from ok new(4) u have "hs_existing_app_id u \<noteq> hs_existing_app_id s" if "hs_existing_app_id u \<noteq> []" "hs_phase u \<noteq> HP_ARCHIVED"
      using that by (auto simp: hire_state_ok_def hire_app_taken_def)
    ultimately show ?thesis by (auto simp: hire_state_ok_def admitted_def)
  qed
  from fresh old have "hire_state_ok (admitted t s) i u" if "dget (ht_states (admitted t s)) i = Some u" for i u
    using that by (auto simp: admitted_def split: if_splits)
  with inv show ?thesis unfolding hire_inv_def by (simp add: admitted_def)
qed

lemma phase_inv:
  assumes inv: "hire_inv t" and s: "dget (ht_states t) i = Some s" and live: "hs_phase s \<noteq> HP_ARCHIVED"
  shows "hire_inv (t\<lparr>ht_recoveries := R, ht_states := dset (ht_states t) i (s\<lparr>hs_phase := ph, hs_last_sequence := seq\<rparr>),
    ht_apps := (if ph = HP_ARCHIVED \<and> hs_existing_app_id s \<noteq> [] \<and> dget (ht_apps t) (hs_existing_app_id s) = Some i
      then dpop (ht_apps t) (hs_existing_app_id s) else ht_apps t)\<rparr>)" (is "hire_inv ?t")
proof -
  have ok: "hire_state_ok t j u" if "dget (ht_states t) j = Some u" for j u using inv that by (simp add: hire_inv_def)
  have "hire_state_ok ?t i (s\<lparr>hs_phase := ph, hs_last_sequence := seq\<rparr>)"
    using ok [OF s] live by (auto simp: hire_state_ok_def)
  moreover have "hire_state_ok ?t j u" if "dget (ht_states t) j = Some u" "j \<noteq> i" for j u
    using ok [OF that(1)] that(2) by (auto simp: hire_state_ok_def)
  ultimately have "hire_state_ok ?t j u" if "dget (ht_states ?t) j = Some u" for j u
    using that by (auto split: if_splits)
  then show ?thesis using inv unfolding hire_inv_def by (auto split: if_splits)
qed

lemma state_inv:
  assumes inv: "hire_inv t" and s: "dget (ht_states t) i = Some s" and k: "hire_state_kept s s'" "hs_phase s' = hs_phase s"
    and a: "activation_ok s \<Longrightarrow> activation_ok s'"
  shows "hire_inv (t\<lparr>ht_states := dset (ht_states t) i s'\<rparr>)"
proof -
  have ok: "hire_state_ok t j u" if "dget (ht_states t) j = Some u" for j u using inv that by (simp add: hire_inv_def)
  have "hire_state_ok (t\<lparr>ht_states := dset (ht_states t) i s'\<rparr>) j u" if "dget (dset (ht_states t) i s') j = Some u" for j u
    using that ok [OF s] ok [of j u] a hire_state_kept_fixed [OF k(1)] k(2) by (auto simp: hire_state_ok_def split: if_splits)
  then show ?thesis using inv unfolding hire_inv_def by simp
qed

lemma hire_step_inv: "hire_step env seq ev t t' \<Longrightarrow> hire_inv t \<Longrightarrow> hire_inv t'"
proof (induction rule: hire_step.induct)
  case (admission s)
  then show ?case by (intro admission_inv)
next
  case (marked i s)
  then show ?case by (simp add: hire_inv_def hire_state_ok_def)
next
  case (phase i s ph)
  then show ?case by (intro phase_inv) (auto dest: no_successor_of_archived)
next
  case (state i s s')
  then show ?case using hire_state_event_keeps [OF state(3)] by (intro state_inv [OF _ state(2)])
qed

lemma hire_kept_refl: "hire_kept t t"
  by (auto simp: hire_kept_def intro: kept_refl_state)

lemma hire_kept_trans: "hire_kept t u \<Longrightarrow> hire_kept u v \<Longrightarrow> hire_kept t v"
  unfolding hire_kept_def using kept_trans_state by meson

lemma hire_step_kept: "hire_step env seq ev t t' \<Longrightarrow> hire_kept t t'"
proof (induction rule: hire_step.induct)
  case (admission s)
  then show ?case by (auto simp: hire_kept_def admitted_def intro: kept_refl_state)
next
  case (phase i s ph)
  then have "hire_state_kept s (s\<lparr>hs_phase := ph, hs_last_sequence := seq\<rparr>)"
    by (auto simp: hire_state_kept_def hire_fixed_def once_def)
  with phase show ?case by (auto simp: hire_kept_def intro: kept_refl_state)
next
  case (state i s s')
  with hire_state_event_keeps(1) [OF state(3)] show ?case by (auto simp: hire_kept_def intro: kept_refl_state)
qed (auto simp: hire_kept_def intro: kept_refl_state)

interpretation hire_events: event_sourced "reduce_hire env f" hire_inv hire_kept
proof
  fix t t' and e :: "nat \<times> journal_event"
  assume "hire_inv t" and r: "reduce_hire env f t e = Inr t'"
  from r have "hire_step env (tf_sequence f) (snd e) t t'" by (cases e) (simp add: reduce_hire_step)
  with \<open>hire_inv t\<close> show "hire_inv t'" "hire_kept t t'" by (blast intro: hire_step_inv hire_step_kept)+
qed (fact hire_kept_refl | erule (1) hire_kept_trans)+

lemma reduce_frame_Inr:
  assumes "reduce_frame env t f = Inr t'"
  shows "foldE (reduce_hire env f) (t\<lparr>ht_recoveries := {}\<rparr>) (enumerate 0 (tf_events f)) = Inr t'"
  using assms unfolding reduce_frame_def raise_if_Inr bindE_Inr_iff by auto

lemma recoveries_irrelevant: "hire_inv (t\<lparr>ht_recoveries := R\<rparr>) = hire_inv t" "hire_kept (t\<lparr>ht_recoveries := R\<rparr>) u = hire_kept t u"
  by (simp_all add: hire_inv_def hire_state_ok_def hire_kept_def)

interpretation hire: event_sourced "reduce_frame env" hire_inv hire_kept
proof
  fix t t' f
  assume "hire_inv t" and r: "reduce_frame env t f = Inr t'"
  then have "hire_inv (t\<lparr>ht_recoveries := {}\<rparr>)" by (simp add: recoveries_irrelevant)
  from hire_events.replay_invar_kept [OF this reduce_frame_Inr [OF r]]
  show "hire_inv t'" "hire_kept t t'" by (simp_all add: recoveries_irrelevant)
qed (fact hire_kept_refl | erule (1) hire_kept_trans)+

text \<open>The tables never point to a hire that is missing.\<close>

lemma hire_intent_known:
  assumes "hire_inv t" and "hire_intent_of t a = Some i"
  shows "dget (ht_states t) i \<noteq> None"
  using assms unfolding hire_inv_def hire_intent_of_def by (auto split: if_splits option.splits list.splits)

text \<open>Verifications used and opened by the events of a journal.\<close>

definition verifications :: "(string \<Rightarrow> journal_event \<Rightarrow> bool) \<Rightarrow> string \<Rightarrow> journal_event list \<Rightarrow> nat" where
  "verifications P i es = length (filter (P i) es)"

lemma verifications_simps [simp]:
  "verifications P i [] = 0" "verifications P i (e # es) = of_bool (P i e) + verifications P i es"
  "verifications P i (es @ fs) = verifications P i es + verifications P i fs"
  by (simp_all add: verifications_def)

lemma hire_step_verification:
  assumes "hire_step env seq ev t t'" and "hire_inv t" and "dget (ht_states t) i = Some s"
  shows "\<exists>s'. dget (ht_states t') i = Some s' \<and> of_bool (uses_verification i ev) + of_bool (hs_verification_consumed s)
    \<le> (of_bool (opens_verification i ev) + of_bool (hs_verification_consumed s') :: nat)"
  using assms(1)
proof cases
  case (admission u)
  with assms(3) show ?thesis by (auto simp: admitted_def uses_verification_def is_hire_admission_def)
next
  case ignored
  with assms(3) have "je_aggregate_id ev \<noteq> i" by (auto simp: hire_intent_of_def)
  with ignored assms(3) show ?thesis by (simp add: uses_verification_def)
next
  case (marked j u)
  with assms(3) show ?thesis by (simp add: uses_verification_def)
next
  case (phase j u ph)
  with assms(3) show ?thesis by (auto simp: uses_verification_def)
next
  case (state j u u')
  show ?thesis
  proof (cases "j = i")
    case True
    from assms(2,3) have "hs_intent_id s = i" by (simp add: hire_inv_def hire_state_ok_def)
    with True state assms(3) hire_state_event_verification [of env s ev seq u'] show ?thesis by auto
  next
    case False
    with assms(3) have "je_aggregate_id ev \<noteq> i" using state(2) by (auto simp: hire_intent_of_def)
    with False state(1) assms(3) show ?thesis by (simp add: uses_verification_def)
  qed
qed

lemma hire_fold_verification:
  "foldE (reduce_hire env f) t es = Inr t' \<Longrightarrow> hire_inv t \<Longrightarrow> dget (ht_states t) i = Some s \<Longrightarrow>
    \<exists>s'. dget (ht_states t') i = Some s' \<and> verifications uses_verification i (map snd es) + of_bool (hs_verification_consumed s)
      \<le> verifications opens_verification i (map snd es) + of_bool (hs_verification_consumed s')"
proof (induction es arbitrary: t s)
  case (Cons e es)
  then obtain u where u: "reduce_hire env f t e = Inr u" "foldE (reduce_hire env f) u es = Inr t'" by (auto elim: bindE_InrE)
  then have st: "hire_step env (tf_sequence f) (snd e) t u" by (cases e) (simp add: reduce_hire_step)
  from hire_step_verification [OF this Cons.prems(2,3)] obtain v where v: "dget (ht_states u) i = Some v"
    "of_bool (uses_verification i (snd e)) + of_bool (hs_verification_consumed s)
      \<le> (of_bool (opens_verification i (snd e)) + of_bool (hs_verification_consumed v) :: nat)" by blast
  from Cons.IH [OF u(2) hire_step_inv [OF st Cons.prems(2)] v(1)] v(2) show ?case by auto
qed simp

definition journal_events :: "transaction_frame list \<Rightarrow> journal_event list" where
  "journal_events fs = concat (map tf_events fs)"

lemma hire_frames_verification:
  "foldE (reduce_frame env) t fs = Inr t' \<Longrightarrow> hire_inv t \<Longrightarrow> dget (ht_states t) i = Some s \<Longrightarrow>
    \<exists>s'. dget (ht_states t') i = Some s' \<and> verifications uses_verification i (journal_events fs) + of_bool (hs_verification_consumed s)
      \<le> verifications opens_verification i (journal_events fs) + of_bool (hs_verification_consumed s')"
proof (induction fs arbitrary: t s)
  case (Cons f fs)
  then obtain u where u: "reduce_frame env t f = Inr u" "foldE (reduce_frame env) u fs = Inr t'" by (auto elim: bindE_InrE)
  from Cons.prems(2,3) have t: "hire_inv (t\<lparr>ht_recoveries := {}\<rparr>)" "dget (ht_states (t\<lparr>ht_recoveries := {}\<rparr>)) i = Some s"
    by (simp_all add: recoveries_irrelevant)
  from hire_fold_verification [OF reduce_frame_Inr [OF u(1)] t] obtain v where v: "dget (ht_states u) i = Some v"
    "verifications uses_verification i (tf_events f) + of_bool (hs_verification_consumed s)
      \<le> verifications opens_verification i (tf_events f) + of_bool (hs_verification_consumed v)" by auto
  from Cons.IH [OF u(2) hire.step_invar [OF Cons.prems(2) u(1)] v(1)] v(2) show ?case by (auto simp: journal_events_def)
qed (simp add: journal_events_def)

lemma empty_inv: "hire_inv empty_tables"
  by (simp add: hire_inv_def empty_tables_def)

lemma rebuild_split:
  assumes "hire_rebuild env (fs @ gs) = Inr t'"
  obtains t where "hire_rebuild env fs = Inr t" "foldE (reduce_frame env) t gs = Inr t'"
  using assms by (auto simp: hire_rebuild_def foldE_append elim: bindE_InrE)



section \<open>Examples\<close>

definition example_hire_env :: hire_env where
  "example_hire_env = \<lparr>hv_str = (\<lambda>_. ''value''), hv_float = (\<lambda>s. if s = ''nan'' then Some NaN else if s = ''10.0'' then Some (Fin 10) else None)\<rparr>"

definition hire_event :: "string \<Rightarrow> string \<Rightarrow> pydict \<Rightarrow> journal_event" where
  "hire_event ty a p = \<lparr>je_event_type = ty, je_aggregate_id = a, je_payload = p, je_timestamp = 0, je_payload_hash = []\<rparr>"

definition hire_frame :: "int \<Rightarrow> journal_event list \<Rightarrow> transaction_frame" where
  "hire_frame q es = \<lparr>tf_magic = [], tf_schema_version = PInt 1, tf_byte_length = 0, tf_commit_marker = [], tf_committed = True, tf_tx_id = ''tx'',
     tf_sequence = q, tf_writer_epoch = 1, tf_timestamp = 0, tf_expected_versions = [], tf_aggregate_versions = [], tf_previous_hash = [],
     tf_events = es, tf_checksum = [], tf_hmac_digest = [], tf_record = []\<rparr>"

definition hire_created :: "string \<Rightarrow> string \<Rightarrow> journal_event" where
  "hire_created i a = hire_event ''employee.created'' a
     [(''hire_intent_id'', PStr i), (''state'', PStr ''provisioning_app''), (''agent_id'', PStr a), (''tenant_key'', PStr ''t''),
      (''hire_message_id'', PStr ''m''), (''hire_chat_id'', PStr ''c''), (''owner_principal_id'', PStr ''o''), (''requester_union_id'', PStr ''u''),
      (''name'', PStr ''Ada''), (''tool'', PStr ''x''), (''model'', PStr ''x''), (''effort'', PStr ''x''), (''profile'', PStr ''x''),
      (''existing_app_id'', PStr ''cli_abc''), (''planned_bot_principal_id'', PStr (''b_'' @ a)), (''provisioning_attempt_id'', PStr ''p'')]"

definition hire_effect_sample :: "string \<Rightarrow> string \<Rightarrow> pydict \<Rightarrow> journal_event" where
  "hire_effect_sample i st m = hire_event (''hire.effect.'' @ st) i [(''effect_id'', PStr ''e''), (''effect_type'', PStr ''channel''), (''metadata'', PDict m)]"

definition hire_metadata :: "string \<Rightarrow> pydict" where
  "hire_metadata slash_at = [(''app_id'', PStr ''cli_abc''), (''credential_ref'', PStr ''cr''), (''slash_spec_hash'', PStr ''h''),
     (''slash_verified_at'', PStr slash_at), (''generation'', PStr ''12''), (''connection_id'', PStr ''k''), (''channel_verified_at'', PStr ''10.0'')]"

definition hire_binding :: pydict where
  "hire_binding = [(''tenant_key'', PStr ''t''), (''app_id'', PStr ''cli_abc''), (''agent_id'', PStr ''a1''), (''generation'', PInt 12)]"

text \<open>A hire that failed, is archived, and is followed by a second one for the same application.\<close>

definition example_hire_journal :: "string \<Rightarrow> transaction_frame list" where
  "example_hire_journal slash_at =
     [hire_frame 1 [hire_created ''i0'' ''a0''], hire_frame 2 [hire_event ''employee.state_changed'' ''a0'' [(''state'', PStr ''archived'')]],
      hire_frame 3 [hire_created ''i1'' ''a1''],
      hire_frame 4 [hire_effect_sample ''i1'' ''prepared'' [], hire_effect_sample ''i1'' ''executing'' [],
        hire_effect_sample ''i1'' ''committed'' (hire_metadata slash_at)],
      hire_frame 5 (map (\<lambda>ph. hire_event ''employee.state_changed'' ''a1'' [(''state'', PStr ph)]) [''configuring'', ''validating''])]"

definition example_verification :: "transaction_frame list" where
  "example_verification =
     [hire_frame 6 [hire_event ''hire.verification.challenge_issued'' ''i1'' (hire_binding @ [(''requester_principal_id'', PStr ''o''),
          (''requester_union_id'', PStr ''u''), (''expected_slash_spec_hash'', PStr ''h''), (''nonce'', PStr ''n''), (''issued_at'', PInt 20), (''expires_at'', PFloat (Fin 50))]),
        hire_event ''employee.state_changed'' ''a1'' [(''state'', PStr ''ready_pending_verification'')]],
      hire_frame 7 [hire_event ''hire.verification.nonce_consumed'' ''i1'' [(''nonce'', PStr ''n''), (''consumed_at'', PFloat (Fin 30))],
        hire_event ''hire.activation.verified'' ''i1'' (hire_binding @ [(''nonce'', PStr ''n''), (''slash_spec_hash'', PStr ''h''),
          (''channel_connection_id'', PStr ''k''), (''ingress_event_id'', PStr ''x''), (''ingress_message_id'', PStr ''y''),
          (''employee_send_request_id'', PStr ''z''), (''reply_app_id'', PStr ''cli_abc''), (''main_bot_send_count'', PInt 0),
          (''sender_union_id'', PStr ''u''), (''verified_at'', PFloat (Fin 31))]),
        hire_event ''employee.state_changed'' ''a1'' [(''state'', PStr ''active'')]]]"

lemma example_hire_before:
  "(case hire_rebuild example_hire_env (example_hire_journal ''10.0'') of
      Inr t \<Rightarrow> (case dget (ht_states t) ''i1'' of Some s \<Rightarrow> hs_phase s = HP_VALIDATING \<and> \<not> hs_verification_consumed s | None \<Rightarrow> False) \<and>
        (case dget (ht_states t) ''i0'' of Some s \<Rightarrow> hs_phase s = HP_ARCHIVED \<and> hs_existing_app_id s = ''cli_abc'' | None \<Rightarrow> False)
    | Inl _ \<Rightarrow> False) = True"
  by code_simp

lemma example_hire_after:
  "(case hire_rebuild example_hire_env (example_hire_journal ''10.0'' @ example_verification) of
      Inr t \<Rightarrow> (case dget (ht_states t) ''i1'' of Some s \<Rightarrow> hs_phase s = HP_ACTIVE \<and> hs_activation_source s = ''status'' \<and> hs_verification_consumed s | None \<Rightarrow> False)
    | Inl _ \<Rightarrow> False) = True"
  by code_simp



text \<open>
  The check that evidence was taken at a positive time passes for NaN, and an automatic activation is then accepted at any time, before
  the evidence of the channel too.
\<close>

lemma nan_evidence_accepted:
  "evidence_time example_hire_env [(''slash_verified_at'', ''nan'')] ''slash_verified_at'' (Fin 0) msg = Inr NaN" "\<not> flt f (fmax NaN g)"
  by (simp_all add: evidence_time_def example_hire_env_def fle_def feq_def fmax_def)

lemma nan_evidence_activates_early:
  "(case hire_rebuild example_hire_env (example_hire_journal ''nan'' @ [hire_frame 6
      [hire_event ''employee.state_changed'' ''a1'' [(''state'', PStr ''ready_pending_verification'')],
       hire_event ''hire.activation.automatic'' ''i1'' (hire_binding @ [(''slash_spec_hash'', PStr ''h''), (''channel_connection_id'', PStr ''k''),
         (''requester_principal_id'', PStr ''o''), (''requester_union_id'', PStr ''u''), (''source'', PStr ''channel_ready''), (''activated_at'', PFloat (Fin 1))])]]) of
      Inr t \<Rightarrow> (case dget (ht_states t) ''i1'' of
        Some s \<Rightarrow> hs_activation_source s = ''channel_ready'' \<and> hs_activation_verified_at s = Fin 1 \<and> hs_channel_verified_at s = Fin 10 | None \<Rightarrow> False)
    | Inl _ \<Rightarrow> False) = True"
  by code_simp

end
