(* ===== verification/Journal_Log.thy ===== *)
theory Journal_Log
  imports Actions Replay
begin

text \<open>
  The journal as the services see it: the frames on disk, whether or not the writer is still usable. A commit, a
  replay, a failed append and a restart each leave the frames on disk or add one at the end; what a replay returns is
  exactly those frames. The locale \<open>log_projection\<close> states what follows for a projection that is rebuilt from the journal.
\<close>

section \<open>The frames on disk\<close>

fun line_frames :: "frame_env \<Rightarrow> string \<Rightarrow> string list \<Rightarrow> transaction_frame list" where
  "line_frames fe key [] = []"
| "line_frames fe key (l # ls) =
     (if blank l then [] else case decode_frame fe l key False of Inl _ \<Rightarrow> [] | Inr f \<Rightarrow> f # line_frames fe key ls)"

definition disk :: "writer_env \<Rightarrow> journal_writer \<Rightarrow> transaction_frame list" where
  "disk we w = line_frames (we_frame we) (jw_key w) (split_lines (jw_file w))"

text \<open>A writer that may still write agrees with its file; one that is disabled only reads.\<close>

definition log_ok :: "writer_env \<Rightarrow> journal_writer \<Rightarrow> bool" where
  "log_ok we w \<longleftrightarrow> 32 \<le> length (jw_key w) \<and> (jw_write_disabled w \<or> journal_inv we w)"

lemma line_frames_stored:
  "list_all (stored fe key) fs \<Longrightarrow> line_frames fe key (map tf_record fs @ ls) = fs @ line_frames fe key ls"
  by (induction fs) (auto simp: stored_def)

lemma disk_append:
  assumes "list_all (stored (we_frame we) (jw_key w)) fs" and "jw_file w = concat (map tf_record fs) @ p"
  shows "disk we w = fs @ line_frames (we_frame we) (jw_key w) (split_lines p)"
proof -
  have "list_all closed_line (map tf_record fs)" using assms(1) by (auto simp: list_all_iff stored_def)
  from split_closed_lines [OF this] assms show ?thesis by (simp add: disk_def line_frames_stored)
qed

lemma disk_frames: "list_all (stored (we_frame we) (jw_key w)) fs \<Longrightarrow> jw_file w = concat (map tf_record fs) \<Longrightarrow> disk we w = fs"
  using disk_append [of we w fs "[]"] by (simp add: split_lines.simps [of "[]"])

lemma disk_inv: "journal_inv we w \<Longrightarrow> disk we w = jw_frames w"
  by (rule disk_frames) (simp_all add: journal_inv_def)

lemma recover_loop_lines:
  "recover_loop we key ls ph n fs len = Inr (gs, len', tail) \<Longrightarrow> gs = fs @ line_frames (we_frame we) key ls"
proof (induction ls arbitrary: ph n fs len)
  case (Cons l ls)
  show ?case
  proof (cases "decode_frame (we_frame we) l key False")
    case (Inl e)
    with Cons.prems show ?thesis by (auto split: if_splits frame_exn.splits)
  next
    case (Inr f)
    show ?thesis
    proof (cases "blank l")
      case True
      with Cons.prems show ?thesis by (simp split: if_splits)
    next
      case False
      with Cons.prems Inr have "recover_loop we key ls (frame_hash (we_frame we) f) (n + 1) (fs @ [f]) (len + length l) = Inr (gs, len', tail)"
        by (auto simp: bindE_Inr_iff split: if_splits)
      from Cons.IH [OF this] False Inr show ?thesis by simp
    qed
  qed
qed simp

lemma blank_lines: "list_all blank ls \<Longrightarrow> line_frames fe key ls = []"
  by (cases ls) simp_all

lemma load_lines:
  assumes "load_and_recover we ao a key raw = (file, Inr fs)"
  shows "fs = line_frames (we_frame we) key (split_lines raw)"
proof (cases "raw = [] \<or> list_all blank (split_lines raw)")
  case True
  with assms show ?thesis
    by (auto simp: load_and_recover_def Let_def blank_lines split_lines.simps [of "[]"] split: sum.splits if_splits)
next
  case False
  with assms obtain len tail where "recover_loop we key (split_lines raw) GENESIS_HASH 1 [] 0 = Inr (fs, len, tail)"
    by (auto simp: load_and_recover_def Let_def split: sum.splits if_splits prod.splits bool.splits)
  from recover_loop_lines [OF this] show ?thesis by simp
qed

lemma load_failed: "load_and_recover we ao a key raw = (raw0, Inl e) \<Longrightarrow> raw0 = raw"
  by (auto simp: load_and_recover_def Let_def split: sum.splits if_splits prod.splits bool.splits)

lemma load_kept:
  assumes "load_and_recover we ao a (jw_key w) (jw_file w) = (raw0, r)" and "jw_key v = jw_key w" "jw_file v = raw0"
  shows "disk we v = disk we w" and "r = Inr fs \<Longrightarrow> fs = disk we w"
proof -
  show fs: "fs = disk we w" if "r = Inr fs" for fs using load_lines [OF assms(1) [unfolded that]] by (simp add: disk_def)
  show "disk we v = disk we w"
  proof (cases r)
    case (Inl e)
    from load_failed [OF assms(1) [unfolded Inl]] assms(2,3) show ?thesis by (simp add: disk_def)
  next
    case (Inr fs)
    from load_and_recover_Inr [OF assms(1) [unfolded Inr]]
    have "list_all (stored (we_frame we) (jw_key w)) fs \<and> raw0 = concat (map tf_record fs)" by blast
    then have "disk we v = fs" using assms(2,3) by (intro disk_frames) simp_all
    with fs [OF Inr] show ?thesis by simp
  qed
qed

section \<open>What the operations of the writer do to it\<close>

lemma chain_all_positive: "chain fe ph n fs \<Longrightarrow> 1 \<le> n \<Longrightarrow> filter (\<lambda>f. 1 \<le> tf_sequence f) fs = fs"
  by (induction fs arbitrary: ph n) auto

lemma replay_log:
  assumes "replay we ao w a 1 = (w', r)" and ok: "log_ok we w"
  shows "log_ok we w'" and "disk we w' = disk we w" and "r = Inr fs \<Longrightarrow> fs = disk we w" and "jw_key w' = jw_key w"
proof -
  obtain raw0 r' where l: "load_and_recover we ao a (jw_key w) (jw_file w) = (raw0, r')" by (cases "load_and_recover we ao a (jw_key w) (jw_file w)")
  with assms(1) have w': "w' = w\<lparr>jw_file := raw0\<rparr>" by (auto simp: replay_def split: sum.splits)
  show k: "disk we w' = disk we w" using load_kept(1) [OF l] w' by simp
  show "jw_key w' = jw_key w" by (simp add: w')
  show "log_ok we w'"
  proof (cases "jw_write_disabled w")
    case True
    with ok w' show ?thesis by (simp add: log_ok_def)
  next
    case False
    with ok have inv: "journal_inv we w" by (simp add: log_ok_def)
    have "raw0 = jw_file w"
    proof (cases r')
      case (Inr fs)
      with load_kept(2) [OF l _ _ Inr, of "w\<lparr>jw_file := raw0\<rparr>"] disk_inv [OF inv] have "fs = jw_frames w" by simp
      with load_and_recover_Inr [OF l [unfolded Inr]] have "raw0 = concat (map tf_record (jw_frames w))" by simp
      with inv show ?thesis by (simp add: journal_inv_def)
    next
      case (Inl e)
      from load_failed [OF l [unfolded Inl]] show ?thesis .
    qed
    with w' ok show ?thesis by simp
  qed
  show "fs = disk we w" if "r = Inr fs"
  proof -
    from that assms(1) l obtain gs vs where r': "r' = Inr gs" and f: "fs = filter (\<lambda>f. 1 \<le> tf_sequence f) gs"
      by (auto simp: replay_def bindE_Inr_iff split: sum.splits)
    from load_and_recover_Inr [OF l [unfolded r']] have "chain (we_frame we) GENESIS_HASH 1 gs" by blast
    from chain_all_positive [OF this] f load_kept(2) [OF l _ _ r', of "w\<lparr>jw_file := raw0\<rparr>"] show ?thesis by simp
  qed
qed

lemma torn_line:
  assumes "sealed_as fe a key f" and "k < length (tf_record f)"
  shows "line_frames fe key (split_lines (take k (tf_record f))) = []"
proof (cases "take k (tf_record f) = []")
  case False
  let ?p = "take k (tf_record f)"
  obtain t where t: "tf_record f = t @ newline" "one_line t" "t \<noteq> []" "hd t = CHR ''{''"
    using assms(1) unfolding sealed_as_def by blast
  from assms(2) t(1) have p: "?p = take k t" by (simp add: newline_def)
  have "strict_prefix ?p (tf_record f)" using assms(2) by (metis take_is_prefix strict_prefix_def length_take min.absorb4 less_irrefl)
  then obtain m where m: "decode_frame fe ?p key False = Inl (IncompleteFrameError m)"
    using assms(1) unfolding sealed_as_def by blast
  have "one_line ?p" using t(2) unfolding p by (auto simp: one_line_def dest: in_set_takeD)
  then show ?thesis using split_one_line [OF _ False] m by simp
qed (simp only: split_lines.simps [of "[]"], simp)

lemma stored_inv: "journal_inv we w \<Longrightarrow> list_all (stored (we_frame we) (jw_key w)) (jw_frames w)"
  by (simp add: journal_inv_def)

text \<open>A commit is refused, or tears the tail, or puts one frame with its events on disk, and it reports a frame only in that case.\<close>

lemma commit_log:
  assumes run: "commit we ao w a c wio aio = (w', a', r)" and ok: "log_ok we w" and dg: "digests_ok (we_frame we)" and fl: "floats_ok (we_frame we)"
    and c: "call_ok (we_frame we) c"
  obtains (same) e where "log_ok we w'" "jw_key w' = jw_key w" "disk we w' = disk we w" "r = Inl e"
    | (added) f where "log_ok we w'" "jw_key w' = jw_key w" "disk we w' = disk we w @ [f]" "tf_events f = map norm_event (cc_events c)"
        "r = Inl JOSError \<or> (\<exists>st. r = Inr (f, st))"
proof (cases "commit_checks we w c")
  case (Inl e)
  with run have "w' = w" "r = Inl e" by (auto simp: commit_def)
  with ok show thesis by (intro that(1)) simp_all
next
  case (Inr u)
  then have ck: "commit_checks we w c = Inr ()" by simp
  with ok have inv: "journal_inv we w" using commit_checks_Inr by (auto simp: log_ok_def)
  then have key: "32 \<le> length (jw_key w)" by (simp add: journal_inv_def)
  obtain f where f: "seal (we_frame we) (commit_args w c) (jw_key w) = Inr f" "sealed_as (we_frame we) (commit_args w c) (jw_key w) f"
    "journal_inv we (commit_durable (we_frame we) w c f)"
    by (rule commit_seals [OF inv dg ck c fl])
  have ev: "tf_events f = map norm_event (cc_events c)" using sealed_frame_fields(5) [OF f(2)] by (simp add: commit_args_def)
  have d: "disk we w = jw_frames w" by (rule disk_inv [OF inv])
  have full: "disk we (commit_durable (we_frame we) w c f) = disk we w @ [f]"
    using disk_inv [OF f(3)] d by (simp add: commit_durable_def)
  have full': "disk we v = disk we w @ [f]" if "jw_key v = jw_key w" "jw_file v = jw_file w @ tf_record f" for v
    using full that by (simp add: disk_def commit_durable_def)
  show thesis
  proof (cases wio)
    case (AppendFailed k)
    with run ck f(1) have w': "w' = w\<lparr>jw_file := jw_file w @ take k (tf_record f), jw_write_disabled := True\<rparr>" "r = Inl JOSError"
      by (auto simp: commit_def)
    have "log_ok we w'" "jw_key w' = jw_key w" using w'(1) key by (simp_all add: log_ok_def)
    moreover have "disk we w' = disk we w" if "k < length (tf_record f)"
    proof -
      have "disk we w' = jw_frames w @ line_frames (we_frame we) (jw_key w) (split_lines (take k (tf_record f)))"
        using disk_append [of we w' "jw_frames w" "take k (tf_record f)"] inv w'(1) by (simp add: journal_inv_def)
      with torn_line [OF f(2) that] d show ?thesis by simp
    qed
    ultimately show thesis using that full' [of w'] w' ev by (cases "k < length (tf_record f)") auto
  next
    case Appended
    obtain a2 cr where "ao_cas ao a aio (tf_sequence f - 1) (tf_previous_hash f) (tf_sequence f) (frame_hash (we_frame we) f) = (a2, cr)"
      by fastforce
    from commit_appended [OF ck f(1) this] run [unfolded Appended]
    have "w' = commit_durable (we_frame we) w c f \<or> w' = (commit_durable (we_frame we) w c f)\<lparr>jw_write_disabled := True\<rparr>" "\<exists>st. r = Inr (f, st)"
      by (auto split: if_splits)
    moreover from this(1) have "jw_key w' = jw_key w" "jw_file w' = jw_file w @ tf_record f" by (auto simp: commit_durable_def)
    moreover from calculation(1) have "log_ok we w'" using f(3) key by (auto simp: log_ok_def commit_durable_def)
    ultimately show thesis using that(2) full' ev by blast
  qed
qed

text \<open>A restart reads the file again, and refuses to start where the anchor disagrees.\<close>

definition restart_writer ::
  "writer_env \<Rightarrow> ('a, 'io) anchor_ops \<Rightarrow> 'a \<Rightarrow> int \<Rightarrow> bool \<Rightarrow> journal_writer \<Rightarrow> journal_writer \<times> (journal_exn + unit)" where
  "restart_writer we ao a epoch lock_free w =
     (case open_writer we ao a (jw_key w) epoch lock_free (jw_file w) of
        (raw0, Inl e) \<Rightarrow> (w\<lparr>jw_file := raw0, jw_write_disabled := True\<rparr>, Inl e)
      | (raw0, Inr w') \<Rightarrow> (w', Inr ()))"

lemma restart_log:
  assumes "restart_writer we ao a epoch lf w = (w', r)" and ok: "log_ok we w"
  shows "log_ok we w'" and "disk we w' = disk we w" and "jw_key w' = jw_key w"
proof -
  obtain raw0 res where o: "open_writer we ao a (jw_key w) epoch lf (jw_file w) = (raw0, res)" by fastforce
  have kept: "disk we v = disk we w" if "jw_key v = jw_key w" "jw_file v = raw0" for v
  proof -
    obtain raw1 r' where l: "load_and_recover we ao a (jw_key w) (jw_file w) = (raw1, r')" by fastforce
    with o have "raw0 = raw1 \<or> raw0 = jw_file w" by (auto simp: open_writer_def split: if_splits sum.splits)
    then show ?thesis using load_kept(1) [OF l that(1)] that by (auto simp: disk_def)
  qed
  show "log_ok we w'" "disk we w' = disk we w" "jw_key w' = jw_key w"
  proof (atomize (full), cases res)
    case (Inl e)
    with o assms(1) have "w' = w\<lparr>jw_file := raw0, jw_write_disabled := True\<rparr>" by (simp add: restart_writer_def)
    with ok kept [of w'] show "log_ok we w' \<and> disk we w' = disk we w \<and> jw_key w' = jw_key w" by (simp add: log_ok_def)
  next
    case (Inr v)
    with o assms(1) have "w' = v" by (simp add: restart_writer_def)
    with open_writer_Inr [OF o [unfolded Inr]] kept [of v] show "log_ok we w' \<and> disk we w' = disk we w \<and> jw_key w' = jw_key w"
      by (auto simp: log_ok_def journal_inv_def)
  qed
qed

section \<open>Growth\<close>

definition grows :: "writer_env \<Rightarrow> journal_writer \<Rightarrow> journal_writer \<Rightarrow> bool" where
  "grows we w w' \<longleftrightarrow> log_ok we w' \<and> jw_key w' = jw_key w \<and> prefix (disk we w) (disk we w')"

lemma grows_refl: "log_ok we w \<Longrightarrow> grows we w w"
  by (simp add: grows_def)

lemma grows_trans: "grows we u v \<Longrightarrow> grows we v w \<Longrightarrow> grows we u w"
  by (auto simp: grows_def)

lemma grows_ok: "grows we v w \<Longrightarrow> log_ok we w"
  by (simp add: grows_def)

lemma replay_grows: "replay we ao w a 1 = (w', r) \<Longrightarrow> log_ok we w \<Longrightarrow> grows we w w'"
  using replay_log(1,2,4) [of we ao w a w' r] by (simp add: grows_def)

lemma restart_grows: "restart_writer we ao a ep lf w = (w', r) \<Longrightarrow> log_ok we w \<Longrightarrow> grows we w w'"
  using restart_log [of we ao a ep lf w w' r] by (simp add: grows_def)

lemma commit_grows:
  assumes "commit we ao w a c wio aio = (w', a', r)" and "log_ok we w" "digests_ok (we_frame we)" "floats_ok (we_frame we)" "call_ok (we_frame we) c"
  shows "grows we w w'"
  using assms by (rule commit_log) (auto simp: grows_def)

lemma commit_run_grows:
  assumes "digests_ok (we_frame we)" "floats_ok (we_frame we)"
  shows "list_all (\<lambda>(c, _). call_ok (we_frame we) c) cs \<Longrightarrow> log_ok we w \<Longrightarrow> commit_run we ao (w, a) cs = (w', a') \<Longrightarrow> grows we w w'"
proof (induction cs arbitrary: w a)
  case Nil
  then show ?case by (simp add: grows_refl)
next
  case (Cons x cs)
  obtain c wio aio where x: "x = (c, wio, aio)" by (cases x)
  obtain v b r where v: "commit we ao w a c wio aio = (v, b, r)" by (cases "commit we ao w a c wio aio")
  from Cons.prems x v have "grows we w v" by (intro commit_grows [OF v _ assms]) simp_all
  moreover from Cons.prems x v have "commit_run we ao (v, b) cs = (w', a')" "list_all (\<lambda>(c, _). call_ok (we_frame we) c) cs" by simp_all
  ultimately show ?case using Cons.IH grows_ok grows_trans by blast
qed

section \<open>Projections of the journal\<close>

locale log_projection = event_sourced reduce invar kept
  for reduce :: "'s \<Rightarrow> 'e \<Rightarrow> 'x + 's" and invar :: "'s \<Rightarrow> bool" and kept :: "'s \<Rightarrow> 's \<Rightarrow> bool" +
  fixes init :: 's and events_of :: "transaction_frame list \<Rightarrow> 'e list"
  assumes init_invar: "invar init" and events_append: "events_of (fs @ gs) = events_of fs @ events_of gs"
begin

lemma rebuilt_invar: "foldE reduce init (events_of fs) = Inr s \<Longrightarrow> invar s"
  by (rule replay_invar [OF init_invar])

lemma rebuilt_prefix:
  assumes "foldE reduce init (events_of (fs @ gs)) = Inr t"
  obtains s where "foldE reduce init (events_of fs) = Inr s" "kept s t"
  using assms history_kept [OF init_invar] by (auto simp: events_append foldE_append elim!: bindE_InrE)

lemma rebuilt_later:
  assumes "grows we w w'" and "foldE reduce init (events_of (disk we w')) = Inr t"
  obtains s where "foldE reduce init (events_of (disk we w)) = Inr s" "kept s t"
  using assms unfolding grows_def prefix_def by (metis rebuilt_prefix)

end

section \<open>A journal of one frame\<close>

definition single_call :: "journal_event \<Rightarrow> commit_call" where
  "single_call e = \<lparr>cc_events = [e], cc_expected = [(je_aggregate_id e, 0)], cc_head_sequence = Some 0, cc_head_hash = Some [],
     cc_tx_id = ''tx_1'', cc_now = 0\<rparr>"

definition single_anchor :: anchor_state where
  "single_anchor = \<lparr>an_sequence = 1, an_frame_hash = GENESIS_HASH\<rparr>"

lemma single_journal:
  assumes "event_ok sample_frame_env e" and "event_text e"
  obtains f w where "commit sample_we memory_ops sample_writer anchor_default (single_call e) Appended () = (w, single_anchor, Inr (f, ANCHORED))"
    and "journal_inv sample_we w" "\<not> jw_write_disabled w" "jw_frames w = [f]" "tf_events f = [norm_event e]" "tf_sequence f = 1"
    and "replay sample_we memory_ops w single_anchor 1 = (w, Inr [f])"
proof -
  let ?c = "single_call e"
  have we: "digests_ok (we_frame sample_we)" "floats_ok (we_frame sample_we)" "fe_sha256 (we_frame sample_we) = (\<lambda>_. GENESIS_HASH)"
    by (simp_all add: sample_we_def sample_digests_ok sample_floats_ok) (simp add: sample_frame_env_def)
  have call: "call_ok (we_frame sample_we) ?c" using assms by (simp add: call_ok_def single_call_def dict_ok_def sample_we_def tail_ascii)
  have ck: "commit_checks sample_we sample_writer ?c = Inr ()"
    by (simp add: commit_checks_def ensure_writable_def sample_writer_def single_call_def validate_blob_refs_def sample_we_def version_of_def)
  obtain f where f: "seal (we_frame sample_we) (commit_args sample_writer ?c) (jw_key sample_writer) = Inr f"
    "sealed_as (we_frame sample_we) (commit_args sample_writer ?c) (jw_key sample_writer) f"
    "journal_inv sample_we (commit_durable (we_frame sample_we) sample_writer ?c f)"
    "tf_sequence f = jw_sequence sample_writer + 1" "tf_previous_hash f = jw_previous_hash sample_writer"
    by (rule commit_seals [OF sample_writer_inv(1) we(1) ck call we(2)])
  let ?w = "commit_durable (we_frame sample_we) sample_writer ?c f"
  have w: "jw_frames ?w = [f]" "\<not> jw_write_disabled ?w" by (simp_all add: commit_durable_def sample_writer_def)
  have one: "tf_sequence f = 1" using f(4) by (simp add: sample_writer_def)
  have ev: "tf_events f = [norm_event e]" using sealed_frame_fields(5) [OF f(2)] by (simp add: commit_args_def single_call_def)
  have "ao_cas memory_ops anchor_default () (tf_sequence f - 1) (tf_previous_hash f) (tf_sequence f) (frame_hash (we_frame sample_we) f) =
      (single_anchor, Inr True)"
    using f(5) one by (simp add: memory_ops_def memory_cas_def anchor_default_def frame_hash_def record_hash_def we(3) sample_writer_def
        GENESIS_HASH_def single_anchor_def)
  from commit_appended [OF ck f(1) this]
  have c: "commit sample_we memory_ops sample_writer anchor_default ?c Appended () = (?w, single_anchor, Inr (f, ANCHORED))" by simp
  have "load_and_recover sample_we memory_ops single_anchor (jw_key ?w) (concat (map tf_record [f])) = (concat (map tf_record [f]), Inr [f])"
    using f(3) w by (intro load_stored [where s = single_anchor])
      (auto simp: journal_inv_def blobs_published_def validate_blob_refs_def sample_we_def memory_ops_def memory_read_def)
  then have "replay sample_we memory_ops ?w single_anchor 1 = (?w, Inr [f])"
    using f(3) w one by (auto simp: replay_def journal_inv_def bindE_Inr_iff)
  with c f(3) w ev one show thesis by (intro that)
qed

end
