(* ===== verification/Hire_Views.thy ===== *)
theory Hire_Views
  imports Hire_State Projections Journal_Log
begin

text \<open>
  What the hiring service keeps of the journal: the kernel's projection, the hires and the manifest reauthorizations of
  \<^verbatim>\<open>src/src/autonomous/provisioning/manifest_reauthorization.py\<close>, and the methods of \<^verbatim>\<open>provisioning/hire_service.py\<close> that bring these
  views up to date: rebuilding them when another service has written, or applying one committed frame.
\<close>

section \<open>Manifest reauthorizations\<close>

datatype manifest_exn = ManifestReauthorizationError string

datatype manifest_phase = MP_PREPARED | MP_EXECUTING | MP_COMMITTED | MP_ACTION_REQUIRED

record manifest_state =
  mr_operation_id :: string
  mr_tenant_key :: string
  mr_agent_id :: string
  mr_bot_principal_id :: string
  mr_app_id :: string
  mr_desired_manifest_hash :: string
  mr_message_id :: string
  mr_employee_name :: string
  mr_phase :: manifest_phase
  mr_error_code :: string
  mr_evidence_source :: string

definition manifest_base_fields :: "string list" where
  "manifest_base_fields = [''tenant_key'', ''agent_id'', ''bot_principal_id'', ''app_id'', ''desired_manifest_hash'', ''message_id'', ''employee_name'']"

definition is_manifest_reauthorization_event :: "string \<Rightarrow> bool" where
  "is_manifest_reauthorization_event t \<longleftrightarrow> take 25 t = ''manifest.reauthorization.''"

definition manifest_text :: "pydict \<Rightarrow> string \<Rightarrow> manifest_exn + string" where
  "manifest_text p k = (case pstr (field_of p k) of
     Some s \<Rightarrow> if s = [] then Inl (ManifestReauthorizationError (k @ '' is required'')) else Inr s
   | None \<Rightarrow> Inl (ManifestReauthorizationError (k @ '' is required'')))"

definition manifest_prepared :: "journal_event \<Rightarrow> manifest_exn + manifest_state" where
  "manifest_prepared ev =
     (let p = je_payload ev in
      bindE (manifest_text p ''tenant_key'') (\<lambda>tenant.
      bindE (manifest_text p ''agent_id'') (\<lambda>agent.
      bindE (manifest_text p ''bot_principal_id'') (\<lambda>bot.
      bindE (manifest_text p ''app_id'') (\<lambda>app.
      bindE (manifest_text p ''desired_manifest_hash'') (\<lambda>desired.
      bindE (manifest_text p ''message_id'') (\<lambda>message.
      bindE (manifest_text p ''employee_name'') (\<lambda>name.
      Inr \<lparr>mr_operation_id = je_aggregate_id ev, mr_tenant_key = tenant, mr_agent_id = agent, mr_bot_principal_id = bot, mr_app_id = app,
        mr_desired_manifest_hash = desired, mr_message_id = message, mr_employee_name = name, mr_phase = MP_PREPARED,
        mr_error_code = [], mr_evidence_source = []\<rparr>))))))))"

definition apply_manifest_reauthorization_event :: "manifest_state option \<Rightarrow> journal_event \<Rightarrow> manifest_exn + manifest_state" where
  "apply_manifest_reauthorization_event current ev =
     (let p = je_payload ev; ty = je_event_type ev in
      if ty = ''manifest.reauthorization.prepared'' then
        (if current \<noteq> None \<or> \<not> exact_keys p manifest_base_fields then Inl (ManifestReauthorizationError ''invalid prepared operation'')
         else manifest_prepared ev)
      else case current of
        None \<Rightarrow> Inl (ManifestReauthorizationError ''operation must be prepared first'')
      | Some s \<Rightarrow>
          if ty = ''manifest.reauthorization.executing'' then
            (if p \<noteq> [] \<or> mr_phase s \<noteq> MP_PREPARED then Inl (ManifestReauthorizationError ''invalid executing transition'')
             else Inr (s\<lparr>mr_phase := MP_EXECUTING\<rparr>))
          else if ty = ''manifest.reauthorization.committed'' then
            (if \<not> exact_keys p [''observed_manifest_hash'', ''evidence_source''] \<or> mr_phase s \<noteq> MP_EXECUTING
             then Inl (ManifestReauthorizationError ''invalid committed transition'')
             else bindE (manifest_text p ''observed_manifest_hash'') (\<lambda>h.
               if h \<noteq> mr_desired_manifest_hash s then Inl (ManifestReauthorizationError ''invalid committed transition'')
               else bindE (manifest_text p ''evidence_source'') (\<lambda>src. Inr (s\<lparr>mr_phase := MP_COMMITTED, mr_evidence_source := src\<rparr>))))
          else if ty = ''manifest.reauthorization.action_required'' then
            (if \<not> exact_keys p [''error_code''] \<or> mr_phase s \<notin> {MP_PREPARED, MP_EXECUTING}
             then Inl (ManifestReauthorizationError ''invalid action-required transition'')
             else bindE (manifest_text p ''error_code'') (\<lambda>e. Inr (s\<lparr>mr_phase := MP_ACTION_REQUIRED, mr_error_code := e\<rparr>)))
          else Inl (ManifestReauthorizationError ''unknown reauthorization event''))"

type_synonym manifest_states = "(string, manifest_state) dict"

definition reduce_manifest :: "manifest_states \<Rightarrow> journal_event \<Rightarrow> manifest_exn + manifest_states" where
  "reduce_manifest sts ev =
     (if \<not> is_manifest_reauthorization_event (je_event_type ev) then Inr sts
      else bindE (apply_manifest_reauthorization_event (dget sts (je_aggregate_id ev)) ev) (\<lambda>s. Inr (dset sts (je_aggregate_id ev) s)))"

definition rebuild_manifest_reauthorizations :: "transaction_frame list \<Rightarrow> manifest_exn + manifest_states" where
  "rebuild_manifest_reauthorizations fs = foldE reduce_manifest [] (journal_events fs)"

section \<open>Views\<close>

record hire_views =
  hw_projection :: projection_state
  hw_hires :: "(string, durable_hire_state) dict"
  hw_manifests :: manifest_states

record views_env =
  vx_writer :: writer_env
  vx_projection :: projection_env
  vx_hire :: hire_env

datatype views_exn =
    HireAdmissionError string
  | ViewsTypeError string
  | ViewsJournal journal_exn
  | ViewsProjection projection_exn
  | ViewsHire hire_exn
  | ViewsManifest manifest_exn

definition rebuild_hires :: "views_env \<Rightarrow> transaction_frame list \<Rightarrow> hire_views \<Rightarrow> hire_views \<times> (views_exn + unit)" where
  "rebuild_hires vx fs v =
     (case hire_rebuild (vx_hire vx) fs of
        Inl e \<Rightarrow> (v, Inl (ViewsHire e))
      | Inr t \<Rightarrow>
          (let v1 = v\<lparr>hw_hires := ht_states t\<rparr> in
           case rebuild_manifest_reauthorizations fs of
             Inl e \<Rightarrow> (v1, Inl (ViewsManifest e))
           | Inr ms \<Rightarrow> (v1\<lparr>hw_manifests := ms\<rparr>, Inr ())))"

definition rebuild_views :: "views_env \<Rightarrow> transaction_frame list \<Rightarrow> hire_views \<Rightarrow> hire_views \<times> (views_exn + unit)" where
  "rebuild_views vx fs v =
     (case rebuild (vx_projection vx) (we_frame (vx_writer vx)) fs of
        (_, Inl e) \<Rightarrow> (v, Inl (ViewsProjection e))
      | (st, Inr _) \<Rightarrow> rebuild_hires vx fs (v\<lparr>hw_projection := st\<rparr>))"

definition journal_head :: "frame_env \<Rightarrow> journal_writer \<Rightarrow> int \<times> string" where
  "journal_head fe w = (case get_last_frame w of None \<Rightarrow> (0, []) | Some f \<Rightarrow> (tf_sequence f, frame_hash fe f))"

definition synchronize_views ::
  "views_env \<Rightarrow> ('a, 'io) anchor_ops \<Rightarrow> 'a \<Rightarrow> journal_writer \<Rightarrow> hire_views \<Rightarrow> journal_writer \<times> hire_views \<times> (views_exn + unit)" where
  "synchronize_views vx ao a w v =
     (if (ps_cursor_sequence (hw_projection v), ps_cursor_hash (hw_projection v)) = journal_head (we_frame (vx_writer vx)) w then (w, v, Inr ())
      else case replay (vx_writer vx) ao w a 1 of
        (w', Inl e) \<Rightarrow> (w', v, Inl (ViewsJournal e))
      | (w', Inr fs) \<Rightarrow> (w', rebuild_views vx fs v))"

definition apply_committed_frame ::
  "views_env \<Rightarrow> ('a, 'io) anchor_ops \<Rightarrow> 'a \<Rightarrow> journal_writer \<Rightarrow> hire_views \<Rightarrow> transaction_frame \<Rightarrow> journal_writer \<times> hire_views \<times> (views_exn + unit)" where
  "apply_committed_frame vx ao a w v f =
     (if \<not> tf_committed f then (w, v, Inl (ViewsTypeError ''frame must be a committed TransactionFrame''))
      else if tf_sequence f \<noteq> ps_cursor_sequence (hw_projection v) + 1 then (w, v, Inl (HireAdmissionError ''hire frame sequence is not continuous''))
      else case apply_frame (vx_projection vx) (we_frame (vx_writer vx)) (hw_projection v) f of
        (st, Inl e) \<Rightarrow> (w, v\<lparr>hw_projection := st\<rparr>, Inl (ViewsProjection e))
      | (st, Inr _) \<Rightarrow>
          (case replay (vx_writer vx) ao w a 1 of
             (w', Inl e) \<Rightarrow> (w', v\<lparr>hw_projection := st\<rparr>, Inl (ViewsJournal e))
           | (w', Inr fs) \<Rightarrow> (w', rebuild_hires vx fs (v\<lparr>hw_projection := st\<rparr>))))"

section \<open>The views follow the journal\<close>

text \<open>Views that show what the frames say.\<close>

definition views_of :: "views_env \<Rightarrow> transaction_frame list \<Rightarrow> hire_views \<Rightarrow> bool" where
  "views_of vx fs v \<longleftrightarrow> rebuild (vx_projection vx) (we_frame (vx_writer vx)) fs = (hw_projection v, Inr ()) \<and>
     (\<exists>t. hire_rebuild (vx_hire vx) fs = Inr t \<and> hw_hires v = ht_states t) \<and> rebuild_manifest_reauthorizations fs = Inr (hw_manifests v)"

lemma apply_frames_snoc:
  "apply_frames pe fe st fs = (st1, Inr ()) \<Longrightarrow> apply_frames pe fe st (fs @ [f]) = apply_frame pe fe st1 f"
proof (induction fs arbitrary: st)
  case (Cons g fs)
  obtain st' r where g: "apply_frame pe fe st g = (st', r)" by fastforce
  with Cons show ?case by (cases r) auto
qed (auto split: prod.split sum.split)

lemma rebuild_hires_shows:
  assumes "rebuild_hires vx fs v = (v', Inr ())"
  shows "hw_projection v' = hw_projection v" and "\<exists>t. hire_rebuild (vx_hire vx) fs = Inr t \<and> hw_hires v' = ht_states t"
    and "rebuild_manifest_reauthorizations fs = Inr (hw_manifests v')"
  using assms by (auto simp: rebuild_hires_def Let_def split: sum.splits)

lemma rebuild_views_shows: "rebuild_views vx fs v = (v', Inr ()) \<Longrightarrow> views_of vx fs v'"
  unfolding rebuild_views_def views_of_def by (auto split: prod.splits sum.splits dest: rebuild_hires_shows)

lemma synchronize_grows:
  assumes "synchronize_views vx ao a w v = (w', v', r)" and "log_ok (vx_writer vx) w"
  shows "grows (vx_writer vx) w w'"
  using assms replay_grows [of "vx_writer vx" ao w a] grows_refl
  by (auto simp: synchronize_views_def split: if_splits prod.splits sum.splits)

lemma apply_committed_grows:
  assumes "apply_committed_frame vx ao a w v f = (w', v', r)" and "log_ok (vx_writer vx) w"
  shows "grows (vx_writer vx) w w'"
  using assms replay_grows [of "vx_writer vx" ao w a] grows_refl
  by (auto simp: apply_committed_frame_def split: if_splits prod.splits sum.splits)

lemma apply_frames_cursor:
  "apply_frames pe fe st fs = (st1, Inr ()) \<Longrightarrow> fs \<noteq> [] \<Longrightarrow>
    (ps_cursor_sequence st1, ps_cursor_hash st1) = (tf_sequence (last fs), frame_hash fe (last fs))"
proof (induction fs rule: rev_induct)
  case (snoc f fs)
  obtain st2 r where r: "apply_frames pe fe st fs = (st2, r)" by fastforce
  show ?case
  proof (cases r)
    case (Inl e)
    have "snd (apply_frames pe fe st (fs @ gs)) = Inl e" if "apply_frames pe fe st fs = (st2, Inl e)" for gs
      using that by (induction fs arbitrary: st) (auto split: prod.splits sum.splits)
    with snoc.prems(1) r Inl show ?thesis by (metis snd_conv sum.distinct(1))
  next
    case (Inr u)
    with apply_frames_snoc r snoc.prems(1) have "apply_frame pe fe st2 f = (st1, Inr ())" by (metis old.unit.exhaust)
    then show ?thesis by (auto simp: apply_frame_def split: sum.splits prod.splits)
  qed
qed simp

lemma views_cursor:
  assumes "views_of vx fs v" and "chain (we_frame (vx_writer vx)) GENESIS_HASH 1 fs"
  shows "ps_cursor_sequence (hw_projection v) = int (length fs)"
proof (cases "fs = []")
  case True
  with assms(1) have "hw_projection v = projection_init" by (simp add: views_of_def rebuild_def)
  with True show ?thesis by (simp add: projection_init_def)
next
  case False
  from assms(1) have "apply_frames (vx_projection vx) (we_frame (vx_writer vx)) projection_init fs = (hw_projection v, Inr ())"
    by (simp add: views_of_def rebuild_def)
  from apply_frames_cursor [OF this False] chain_last [OF assms(2)] False show ?thesis by (simp add: last_sequence_def)
qed

lemma chain_prefix: "chain fe ph n (fs @ gs) \<Longrightarrow> chain fe ph n fs"
  by (induction fs arbitrary: ph n) auto


text \<open>The hires are a projection of the journal: what is closed or claimed stays so in every longer journal.\<close>

interpretation hire_log: log_projection "reduce_frame env" hire_inv hire_kept empty_tables "\<lambda>fs. fs"
  by unfold_locales (simp_all add: empty_inv)

section \<open>An example\<close>

definition sample_note :: journal_event where
  "sample_note = \<lparr>je_event_type = ''note'', je_aggregate_id = ''n1'', je_payload = [], je_timestamp = 0, je_payload_hash = GENESIS_HASH\<rparr>"

definition sample_views_env :: views_env where
  "sample_views_env = \<lparr>vx_writer = sample_we, vx_projection = sample_penv, vx_hire = example_hire_env\<rparr>"

definition no_views :: hire_views where
  "no_views = \<lparr>hw_projection = projection_init, hw_hires = [], hw_manifests = []\<rparr>"

lemma sample_note_ok: "event_ok sample_frame_env sample_note" "event_text sample_note" "norm_event sample_note = sample_note"
  by (simp_all add: event_ok_def event_text_def sample_note_def sample_frame_env_def json_text.simps dict_ok_def tail_ascii norm_event_def sorted_items_def)

lemma note_ignored: "apply_event sample_penv st sample_note = Inr st"
  by (simp add: apply_event_def apply_workforce_event_def APPLIERS_def REDUCERS_def sample_note_def)

lemma note_projected:
  assumes "tf_events f = [sample_note]"
  shows "apply_frame sample_penv fe st f = (st\<lparr>ps_cursor_sequence := tf_sequence f, ps_cursor_hash := frame_hash fe f\<rparr>, Inr ())"
proof -
  have "validate_workforce_frame_events [sample_note] = Inr ()"
    by (simp add: validate_workforce_frame_events_def validate_bot_binding_pairs_def is_workforce_event_def WORKFORCE_EVENTS_def sample_note_def)
  moreover have "normalize_workforce_aggregate_versions st vs [sample_note] = Inr st" for vs and st :: projection_state
    by (simp add: normalize_workforce_aggregate_versions_def is_workforce_event_def WORKFORCE_EVENTS_def sample_note_def)
  ultimately show ?thesis using assms by (simp add: apply_frame_def note_ignored)
qed

lemma note_hires: "tf_events f = [sample_note] \<Longrightarrow> hire_rebuild env [f] = Inr empty_tables"
  by (simp add: hire_rebuild_def reduce_frame_def empty_tables_def enumerate_eq_zip reduce_hire_def is_hire_admission_def hire_intent_of_def sample_note_def Let_def)

lemma note_manifests: "tf_events f = [sample_note] \<Longrightarrow> rebuild_manifest_reauthorizations [f] = Inr []"
  by (simp add: rebuild_manifest_reauthorizations_def journal_events_def reduce_manifest_def is_manifest_reauthorization_event_def sample_note_def)


end
