(* ===== verification/Fire_Authority.thy ===== *)
theory Fire_Authority
  imports Fire_State Hire_Views
begin

text \<open>
  The authority of a retirement, \<^verbatim>\<open>src/src/autonomous/provisioning/fire_authority.py\<close>: who may retire an employee, which
  resources the retirement must clean up, and the facts it commits to the journal. The state holds the journal writer, the views of the
  hiring service and the ingress service, which share the journal. Other services write to the journal whenever no guard of the writer is
  held: \<open>interfere\<close> lets them commit any transactions and change any of the views. The number of steps taken so far selects what the
  environment supplies next. The ghost field \<open>rt_calls\<close> records the calls of the effect ports.
\<close>

section \<open>Requests and targets\<close>

record employee_fire_request =
  fq_employee :: string
  fq_tenant_key :: string
  fq_message_id :: string
  fq_chat_id :: string
  fq_requester_principal_id :: string
  fq_drain :: bool

record employee_fire_target =
  ft_tenant_key :: string
  ft_agent_id :: string
  ft_employee_name :: string
  ft_bot_principal_id :: string
  ft_app_id :: string
  ft_credential_ref :: string
  ft_cleanup_mode :: fire_cleanup_mode

definition pre_binding :: "employee_fire_target \<Rightarrow> bool" where
  "pre_binding t \<longleftrightarrow> ft_cleanup_mode t \<noteq> CM_BOUND"

text \<open>The constructor: no field is empty or has white space at an end.\<close>

definition fire_request_init :: "(string \<Rightarrow> string) \<Rightarrow> employee_fire_request \<Rightarrow> py_exn + employee_fire_request" where
  "fire_request_init strip q =
     (case List.find (\<lambda>(n, v). v = [] \<or> v \<noteq> strip v) [(''employee'', fq_employee q), (''tenant_key'', fq_tenant_key q), (''message_id'', fq_message_id q),
        (''chat_id'', fq_chat_id q), (''requester_principal_id'', fq_requester_principal_id q)] of
        Some (n, _) \<Rightarrow> Inl (ValueError (n @ '' is required''))
      | None \<Rightarrow> Inr q)"

section \<open>State and environment\<close>

datatype retire_exn =
    FireServiceError string
  | RetireJournal journal_exn
  | RetireFrame frame_exn
  | RetireProjection fire_exn
  | RetireViews views_exn
  | RetireWorkforce workforce_exn
  | RetireIngress string
  | RetireUnicodeError
  | RetireRecursionError

record 'g ingress_view =
  iv_cursor_sequence :: int
  iv_cursor_hash :: string
  iv_state :: 'g

record ('a, 'g, 'w) retire_state =
  rt_writer :: journal_writer
  rt_anchor :: 'a
  rt_views :: hire_views
  rt_ingress :: "'g ingress_view"
  rt_world :: 'w
  rt_tick :: nat
  rt_calls :: "(string \<times> durable_fire_state) list"

text \<open>
  What the service is built with: the ingress reducer (\<open>None\<close> where it raises) and its rebuilding from the anchored frames; the administrators; the ports of
  the effects, where an exception of \<open>execute\<close> is swallowed and an observation that is no boolean or raises is \<open>None\<close>; the clock,
  what one commit meets, and what the other services do in between.
\<close>

record ('a, 'io, 'g, 'w) retire_env =
  re_views :: views_env
  re_anchor :: "('a, 'io) anchor_ops"
  re_fire :: fire_env
  re_ingress_rebuild :: "'g ingress_view \<Rightarrow> anchor_state \<Rightarrow> transaction_frame list \<Rightarrow> 'g ingress_view \<times> (string + unit)"
  re_ingress_event :: "'g \<Rightarrow> journal_event \<Rightarrow> int \<Rightarrow> string \<Rightarrow> string + 'g"
  re_is_ingress_event :: "string \<Rightarrow> bool"
  re_admins :: "string list"
  re_strip :: "string \<Rightarrow> string"
  re_execute :: "'w \<Rightarrow> string \<Rightarrow> durable_fire_state \<Rightarrow> 'w"
  re_observe :: "'w \<Rightarrow> string \<Rightarrow> durable_fire_state \<Rightarrow> 'w \<times> bool option"
  re_time :: "nat \<Rightarrow> timestamp"
  re_isotime :: "nat \<Rightarrow> string"
  re_io :: "nat \<Rightarrow> 'io journal_io"
  re_foreign :: "nat \<Rightarrow> (commit_call \<times> append_io \<times> 'io) list"
  re_foreign_views :: "nat \<Rightarrow> hire_views \<Rightarrow> hire_views"
  re_foreign_ingress :: "nat \<Rightarrow> 'g ingress_view \<Rightarrow> 'g ingress_view"

abbreviation re_writer :: "('a, 'io, 'g, 'w) retire_env \<Rightarrow> writer_env" where
  "re_writer re \<equiv> vx_writer (re_views re)"

abbreviation re_frame :: "('a, 'io, 'g, 'w) retire_env \<Rightarrow> frame_env" where
  "re_frame re \<equiv> we_frame (re_writer re)"

type_synonym ('a, 'g, 'w, 'r) retire_action = "(('a, 'g, 'w) retire_state, retire_exn, 'r) action"

definition interfere :: "('a, 'io, 'g, 'w) retire_env \<Rightarrow> ('a, 'g, 'w, unit) retire_action" where
  "interfere re = (\<lambda>sv.
     case commit_run (re_writer re) (re_anchor re) (rt_writer sv, rt_anchor sv) (re_foreign re (rt_tick sv)) of
       (w, a) \<Rightarrow> (sv\<lparr>rt_writer := w, rt_anchor := a, rt_views := re_foreign_views re (rt_tick sv) (rt_views sv),
         rt_ingress := re_foreign_ingress re (rt_tick sv) (rt_ingress sv), rt_tick := rt_tick sv + 1\<rparr>, Inr ()))"

section \<open>Reading and writing the journal\<close>

definition replay_journal :: "('a, 'io, 'g, 'w) retire_env \<Rightarrow> ('a, 'g, 'w, transaction_frame list) retire_action" where
  "replay_journal re = (\<lambda>sv.
     case replay (re_writer re) (re_anchor re) (rt_writer sv) (rt_anchor sv) 1 of
       (w, Inl e) \<Rightarrow> (sv\<lparr>rt_writer := w\<rparr>, Inl (RetireJournal e))
     | (w, Inr fs) \<Rightarrow> (sv\<lparr>rt_writer := w\<rparr>, Inr fs))"

definition fire_states_now :: "('a, 'io, 'g, 'w) retire_env \<Rightarrow> ('a, 'g, 'w, fire_states) retire_action" where
  "fire_states_now re = bindA (replay_journal re) (\<lambda>fs.
     case rebuild_fire_projection (re_fire re) fs of Inl e \<Rightarrow> raiseA (RetireProjection e) | Inr sts \<Rightarrow> returnA sts)"

text \<open>
  \<open>JournalEvent(...)\<close>: the constructor hashes the payload's text, so a string that has no UTF-8 encoding raises.
\<close>

definition new_event :: "('a, 'io, 'g, 'w) retire_env \<Rightarrow> string \<Rightarrow> string \<Rightarrow> pydict \<Rightarrow> ('a, 'g, 'w, journal_event) retire_action" where
  "new_event re ty aggregate_id payload = (\<lambda>sv.
     (sv\<lparr>rt_tick := rt_tick sv + 1\<rparr>,
      case event_init (re_frame re) (PStr ty) (PStr aggregate_id) (PDict payload) (PFloat (Fin (re_time re (rt_tick sv)))) (PStr []) of
        Inl e \<Rightarrow> Inl (RetireFrame e)
      | Inr ev \<Rightarrow> if event_text ev then Inr ev else Inl RetireUnicodeError))"

definition commit_events :: "('a, 'io, 'g, 'w) retire_env \<Rightarrow> string \<Rightarrow> journal_event list \<Rightarrow> ('a, 'g, 'w, transaction_frame) retire_action" where
  "commit_events re msg events = (\<lambda>sv.
     let w = rt_writer sv; io = re_io re (rt_tick sv); head = journal_head (re_frame re) w
     in case commit (re_writer re) (re_anchor re) w (rt_anchor sv)
          \<lparr>cc_events = events, cc_expected = get_aggregate_versions w (remdups (map je_aggregate_id events)),
           cc_head_sequence = Some (fst head), cc_head_hash = Some (snd head), cc_tx_id = ji_tx_id io, cc_now = ji_now io\<rparr>
          (ji_append io) (ji_anchor io) of
        (w', a, r) \<Rightarrow> (sv\<lparr>rt_writer := w', rt_anchor := a, rt_tick := rt_tick sv + 1\<rparr>,
          case r of Inl e \<Rightarrow> Inl (RetireJournal e)
          | Inr (f, DURABLE_NOT_ANCHORED) \<Rightarrow> Inl (FireServiceError msg)
          | Inr (f, ANCHORED) \<Rightarrow> Inr f))"

abbreviation commit_fact :: "('a, 'io, 'g, 'w) retire_env \<Rightarrow> journal_event list \<Rightarrow> ('a, 'g, 'w, transaction_frame) retire_action" where
  "commit_fact re \<equiv> commit_events re ''fire authority fact was not anchored''"

definition synchronize_hire :: "('a, 'io, 'g, 'w) retire_env \<Rightarrow> ('a, 'g, 'w, projection_state) retire_action" where
  "synchronize_hire re = (\<lambda>sv.
     case synchronize_views (re_views re) (re_anchor re) (rt_anchor sv) (rt_writer sv) (rt_views sv) of
       (w, v, r) \<Rightarrow> (sv\<lparr>rt_writer := w, rt_views := v\<rparr>, case r of Inl e \<Rightarrow> Inl (RetireViews e) | Inr _ \<Rightarrow> Inr (hw_projection v)))"

definition apply_hire :: "('a, 'io, 'g, 'w) retire_env \<Rightarrow> transaction_frame \<Rightarrow> ('a, 'g, 'w, unit) retire_action" where
  "apply_hire re f = (\<lambda>sv.
     case apply_committed_frame (re_views re) (re_anchor re) (rt_anchor sv) (rt_writer sv) (rt_views sv) f of
       (w, v, r) \<Rightarrow> (sv\<lparr>rt_writer := w, rt_views := v\<rparr>, case r of Inl e \<Rightarrow> Inl (RetireViews e) | Inr _ \<Rightarrow> Inr ()))"

text \<open>The ingress service compares its cursor with the anchor, and rebuilds from the replayed frames where they differ.\<close>

definition rebuild_ingress :: "('a, 'io, 'g, 'w) retire_env \<Rightarrow> anchor_state \<Rightarrow> ('a, 'g, 'w, unit) retire_action" where
  "rebuild_ingress re anchor = bindA (replay_journal re) (\<lambda>fs sv.
     case re_ingress_rebuild re (rt_ingress sv) anchor fs of
       (g, r) \<Rightarrow> (sv\<lparr>rt_ingress := g\<rparr>, case r of Inl m \<Rightarrow> Inl (RetireIngress m) | Inr _ \<Rightarrow> Inr ()))"

definition synchronize_ingress :: "('a, 'io, 'g, 'w) retire_env \<Rightarrow> ('a, 'g, 'w, unit) retire_action" where
  "synchronize_ingress re = (\<lambda>sv.
     case ao_read (re_anchor re) (rt_anchor sv) of
       Inl e \<Rightarrow> (sv, Inl (RetireJournal (JAnchor e)))
     | Inr anchor \<Rightarrow>
         if (iv_cursor_sequence (rt_ingress sv), iv_cursor_hash (rt_ingress sv)) =
           (an_sequence anchor, if an_sequence anchor = 0 then [] else an_frame_hash anchor) then (sv, Inr ())
         else rebuild_ingress re anchor sv)"

fun reduce_ingress :: "('a, 'io, 'g, 'w) retire_env \<Rightarrow> transaction_frame \<Rightarrow> 'g \<Rightarrow> journal_event list \<Rightarrow> 'g \<times> (string + unit)" where
  "reduce_ingress re f g [] = (g, Inr ())"
| "reduce_ingress re f g (ev # evs) =
     (if \<not> re_is_ingress_event re (je_event_type ev) then reduce_ingress re f g evs
      else case re_ingress_event re g ev (tf_sequence f) (frame_hash (re_frame re) f) of
        Inl m \<Rightarrow> (g, Inl m) | Inr g' \<Rightarrow> reduce_ingress re f g' evs)"

definition apply_ingress :: "('a, 'io, 'g, 'w) retire_env \<Rightarrow> transaction_frame \<Rightarrow> ('a, 'g, 'w, unit) retire_action" where
  "apply_ingress re f = (\<lambda>sv.
     let iv = rt_ingress sv in
     if \<not> tf_committed f then (sv, Inl (RetireIngress ''ingress frame must be committed''))
     else if tf_sequence f \<noteq> iv_cursor_sequence iv + 1 then (sv, Inl (RetireIngress ''ingress frame sequence is not continuous''))
     else if tf_previous_hash f \<noteq> (if iv_cursor_hash iv = [] then GENESIS_HASH else iv_cursor_hash iv)
     then (sv, Inl (RetireIngress ''ingress frame previous hash mismatch''))
     else case reduce_ingress re f (iv_state iv) (tf_events f) of
       (g, Inl m) \<Rightarrow> (sv\<lparr>rt_ingress := iv\<lparr>iv_state := g\<rparr>\<rparr>, Inl (RetireIngress m))
     | (g, Inr _) \<Rightarrow> (sv\<lparr>rt_ingress := \<lparr>iv_cursor_sequence = tf_sequence f, iv_cursor_hash = frame_hash (re_frame re) f, iv_state = g\<rparr>\<rparr>, Inr ()))"

section \<open>Resolving the employee\<close>

definition raise_fire :: "string \<Rightarrow> ('a, 'g, 'w, 'r) retire_action" where
  "raise_fire m = raiseA (FireServiceError m)"

definition authorize_request :: "('a, 'io, 'g, 'w) retire_env \<Rightarrow> employee_fire_request \<Rightarrow> ('a, 'g, 'w, unit) retire_action" where
  "authorize_request re q =
     (if fq_requester_principal_id q \<notin> set (re_admins re) then raise_fire ''fire is not authorized'' else returnA ())"

definition retirable_states :: "employee_state list" where
  "retirable_states = [employee_state.ES_PROVISIONING_APP, employee_state.ES_STORING_CREDENTIAL, employee_state.ES_CONFIGURING, employee_state.ES_VALIDATING, employee_state.ES_READY_PENDING_VERIFICATION,
     employee_state.ES_ACTIVE, employee_state.ES_ACTION_REQUIRED]"

definition hire_state_of :: "hire_views \<Rightarrow> string \<Rightarrow> retire_exn + durable_hire_state option" where
  "hire_state_of v agent_id =
     (case filter (\<lambda>s. hs_agent_id s = agent_id) (dvals (hw_hires v)) of
        [] \<Rightarrow> Inr None
      | [s] \<Rightarrow> Inr (Some s)
      | _ \<Rightarrow> Inl (FireServiceError ''employee hire authority is ambiguous''))"

definition metadata_for :: "durable_hire_state \<Rightarrow> string \<Rightarrow> (string, string) dict" where
  "metadata_for s eid = get_or (hs_effect_metadata s) eid []"

text \<open>\<open>d.get(k, "") or ...\<close>.\<close>

definition prebinding_app_id :: "durable_hire_state \<Rightarrow> string" where
  "prebinding_app_id s =
     (let m = get_or (metadata_for s ''register-app'') ''app_id'' []
      in if m \<noteq> [] then m else if hs_app_id s \<noteq> [] then hs_app_id s else hs_existing_app_id s)"

definition prebinding_target :: "employee_definition \<Rightarrow> durable_hire_state option \<Rightarrow> employee_fire_target" where
  "prebinding_target e h =
     (let t = \<lparr>ft_tenant_key = em_tenant_key e, ft_agent_id = em_agent_id e, ft_employee_name = em_name e, ft_bot_principal_id = [],
           ft_app_id = [], ft_credential_ref = [], ft_cleanup_mode = CM_EXTERNAL_UNKNOWN\<rparr>
      in case h of
           None \<Rightarrow> t
         | Some s \<Rightarrow>
             (let m = metadata_for s ''store-credential''; app = get_or m ''app_id'' []; cred = get_or m ''credential_ref'' []
              in if dget (hs_effects s) ''store-credential'' = Some HE_COMMITTED \<and> app \<noteq> [] \<and> cred \<noteq> [] \<and> hs_bot_principal_id s \<noteq> []
                 then t\<lparr>ft_bot_principal_id := hs_bot_principal_id s, ft_app_id := app, ft_credential_ref := cred, ft_cleanup_mode := CM_RECOVERABLE\<rparr>
                 else t\<lparr>ft_app_id := prebinding_app_id s,
                   ft_cleanup_mode := (if dget (hs_effects s) ''register-app'' \<in> {None, Some HE_PLANNED, Some HE_PREPARED}
                     then CM_SAFE_ABORT else CM_EXTERNAL_UNKNOWN)\<rparr>))"

definition bot_of :: "employee_definition \<Rightarrow> string" where
  "bot_of e = (case em_bot_principal_id e of None \<Rightarrow> [] | Some b \<Rightarrow> b)"

definition resolve_from_projection :: "employee_fire_request \<Rightarrow> hire_views \<Rightarrow> retire_exn + employee_fire_target" where
  "resolve_from_projection q v =
     (let p = hw_projection v;
          identity_matches = filter (\<lambda>e. em_tenant_key e = fq_tenant_key q \<and> em_worker_type e = WT_VISIBLE \<and>
            fq_employee q \<in> {em_agent_id e, em_name e}) (dvals (ws_employees p));
          matches = filter (\<lambda>e. em_state e \<in> set retirable_states) identity_matches
      in case matches of
           [e] \<Rightarrow>
             if bot_of e = [] then bindE (hire_state_of v (em_agent_id e)) (\<lambda>h. Inr (prebinding_target e h))
             else (case dget (ws_bot_principals p) (bot_of e) of
                 None \<Rightarrow> Inl (FireServiceError ''employee credential authority is unavailable'')
               | Some b \<Rightarrow>
                   if bp_tenant_key b \<noteq> em_tenant_key e \<or> bp_agent_id b \<noteq> em_agent_id e \<or> bp_app_id b = [] \<or> bp_credential_ref b = []
                   then Inl (FireServiceError ''employee credential authority is unavailable'')
                   else Inr \<lparr>ft_tenant_key = em_tenant_key e, ft_agent_id = em_agent_id e, ft_employee_name = em_name e,
                     ft_bot_principal_id = bot_of e, ft_app_id = bp_app_id b, ft_credential_ref = bp_credential_ref b,
                     ft_cleanup_mode = CM_BOUND\<rparr>)
         | _ \<Rightarrow>
             if matches = [] \<and> list_ex (\<lambda>e. em_state e = employee_state.ES_ARCHIVED) identity_matches
             then Inl (FireServiceError ''employee already archived'')
             else Inl (FireServiceError ''retirable employee was not uniquely resolved''))"

definition resolve :: "('a, 'io, 'g, 'w) retire_env \<Rightarrow> employee_fire_request \<Rightarrow> ('a, 'g, 'w, employee_fire_target) retire_action" where
  "resolve re q =
     bindA (authorize_request re q) (\<lambda>_.
     bindA (interfere re) (\<lambda>_.
     bindA (synchronize_hire re) (\<lambda>_.
     bindA (getA rt_views) (\<lambda>v. liftA (resolve_from_projection q v)))))"

section \<open>Admission\<close>

definition live_request :: "employee_fire_target \<Rightarrow> durable_fire_state \<Rightarrow> bool" where
  "live_request t s \<longleftrightarrow> fs_tenant_key s = ft_tenant_key t \<and> fs_agent_id s = ft_agent_id t \<and> fs_phase s \<in> {FP_RETIRING, FP_ACTION_REQUIRED}"

definition requested_payload :: "employee_fire_request \<Rightarrow> employee_fire_target \<Rightarrow> string \<Rightarrow> pydict" where
  "requested_payload q t i = [(''intent_id'', PStr i), (''tenant_key'', PStr (fq_tenant_key q)), (''message_id'', PStr (fq_message_id q)),
     (''chat_id'', PStr (fq_chat_id q)), (''requester_principal_id'', PStr (fq_requester_principal_id q)), (''agent_id'', PStr (ft_agent_id t)),
     (''employee_name'', PStr (ft_employee_name t)), (''bot_principal_id'', PStr (ft_bot_principal_id t)), (''app_id'', PStr (ft_app_id t)),
     (''credential_ref'', PStr (ft_credential_ref t)), (''drain'', PBool (fq_drain q)),
     (''cleanup_mode'', PStr (fire_cleanup_mode_value (ft_cleanup_mode t)))]"

text \<open>The effects of a hire that may be under way are set aside.\<close>

fun disposition_events ::
  "('a, 'io, 'g, 'w) retire_env \<Rightarrow> durable_hire_state \<Rightarrow> (string, hire_effect_state) dict \<Rightarrow> ('a, 'g, 'w, journal_event list) retire_action" where
  "disposition_events re s [] = returnA []"
| "disposition_events re s ((eid, st) # es) =
     (if st \<notin> {HE_PREPARED, HE_EXECUTING} then disposition_events re s es
      else if get_or (hs_effect_types s) eid [] = [] then raise_fire ''employee hire effect type is unavailable''
      else bindA (new_event re ''hire.effect.action_required'' (hs_intent_id s)
          [(''effect_id'', PStr eid), (''effect_type'', PStr (get_or (hs_effect_types s) eid [])),
           (''metadata'', PDict (map (map_prod id PStr) (dset (metadata_for s eid) ''error_code'' ''retirement_requested'')))]) (\<lambda>ev.
        bindA (disposition_events re s es) (\<lambda>evs. returnA (ev # evs))))"

definition hire_effect_dispositions :: "('a, 'io, 'g, 'w) retire_env \<Rightarrow> string \<Rightarrow> ('a, 'g, 'w, journal_event list) retire_action" where
  "hire_effect_dispositions re agent_id =
     bindA (getA rt_views) (\<lambda>v.
     bindA (liftA (hire_state_of v agent_id)) (\<lambda>h.
     case h of None \<Rightarrow> returnA [] | Some s \<Rightarrow> disposition_events re s (hs_effects s)))"

definition validate_events :: "('a, 'io, 'g, 'w) retire_env \<Rightarrow> projection_state \<Rightarrow> journal_event list \<Rightarrow> ('a, 'g, 'w, unit) retire_action" where
  "validate_events re p evs =
     (case validate_workforce_events (pe_casefold (vx_projection (re_views re))) p evs of Inl e \<Rightarrow> raiseA (RetireWorkforce e) | Inr _ \<Rightarrow> returnA ())"

definition state_event :: "('a, 'io, 'g, 'w) retire_env \<Rightarrow> string \<Rightarrow> employee_state \<Rightarrow> ('a, 'g, 'w, journal_event) retire_action" where
  "state_event re agent_id st = new_event re ''employee.state_changed'' agent_id [(''state'', PStr (employee_state_value st))]"

definition closed_event :: "('a, 'io, 'g, 'w) retire_env \<Rightarrow> employee_fire_target \<Rightarrow> ('a, 'g, 'w, journal_event) retire_action" where
  "closed_event re t = (\<lambda>sv. new_event re ''employee.ingress.closed'' (''employee-ingress:'' @ ft_tenant_key t @ '':'' @ ft_agent_id t)
     [(''tenant_key'', PStr (ft_tenant_key t)), (''agent_id'', PStr (ft_agent_id t)), (''reason_code'', PStr ''retiring''),
      (''closed_at'', PStr (re_isotime re (rt_tick sv)))] sv)"

definition admit ::
  "('a, 'io, 'g, 'w) retire_env \<Rightarrow> employee_fire_request \<Rightarrow> string \<Rightarrow> ('a, 'g, 'w, employee_fire_target) retire_action" where
  "admit re q i =
     bindA (interfere re) (\<lambda>_.
     bindA (synchronize_ingress re) (\<lambda>_.
     bindA (synchronize_hire re) (\<lambda>p.
     bindA (getA rt_views) (\<lambda>v.
     bindA (liftA (resolve_from_projection q v)) (\<lambda>t.
     bindA (fire_states_now re) (\<lambda>sts.
     if list_ex (live_request t) (dvals sts) then raise_fire ''employee retirement already in progress'' else
     bindA (new_event re ''fire.requested'' i (requested_payload q t i)) (\<lambda>requested.
     bindA (state_event re (ft_agent_id t) employee_state.ES_RETIRING) (\<lambda>retiring.
     bindA (closed_event re t) (\<lambda>closed.
     bindA (hire_effect_dispositions re (ft_agent_id t)) (\<lambda>dispositions.
     bindA (validate_events re p [retiring]) (\<lambda>_.
     bindA (commit_fact re (requested # dispositions @ [retiring, closed])) (\<lambda>f.
     bindA (apply_hire re f) (\<lambda>_.
     bindA (apply_ingress re f) (\<lambda>_.
     returnA t))))))))))))))"

section \<open>Facts of a retirement\<close>

definition commit_employee_state :: "('a, 'io, 'g, 'w) retire_env \<Rightarrow> string \<Rightarrow> employee_state \<Rightarrow> ('a, 'g, 'w, unit) retire_action" where
  "commit_employee_state re agent_id st =
     bindA (state_event re agent_id st) (\<lambda>ev.
     bindA (interfere re) (\<lambda>_.
     bindA (synchronize_hire re) (\<lambda>p.
     case dget (ws_employees p) agent_id of
       None \<Rightarrow> returnA ()
     | Some e \<Rightarrow>
         if em_state e = st \<or> em_state e = employee_state.ES_ARCHIVED then returnA ()
         else bindA (validate_events re p [ev]) (\<lambda>_.
           bindA (commit_fact re [ev]) (apply_hire re)))))"

definition mark_action_required :: "('a, 'io, 'g, 'w) retire_env \<Rightarrow> string \<Rightarrow> ('a, 'g, 'w, unit) retire_action" where
  "mark_action_required re agent_id = commit_employee_state re agent_id employee_state.ES_ACTION_REQUIRED"

definition confirmation_payload :: "employee_fire_request \<Rightarrow> string \<Rightarrow> string \<Rightarrow> pydict" where
  "confirmation_payload q ref at_time = [(''disposition_ref'', PStr ref), (''disposed_by'', PStr (fq_requester_principal_id q)), (''disposed_at'', PStr at_time),
     (''confirmation_message_id'', PStr (fq_message_id q))]"

definition awaits_confirmation :: "durable_fire_state \<Rightarrow> bool" where
  "awaits_confirmation s \<longleftrightarrow> fs_phase s = FP_ACTION_REQUIRED \<and> fs_cleanup_mode s = CM_EXTERNAL_UNKNOWN \<and>
     fs_error_code s = ''external_cleanup_authority_unavailable''"

definition confirm_disposition ::
  "('a, 'io, 'g, 'w) retire_env \<Rightarrow> employee_fire_request \<Rightarrow> durable_fire_state \<Rightarrow> string \<Rightarrow> ('a, 'g, 'w, unit) retire_action" where
  "confirm_disposition re q s ref =
     bindA (authorize_request re q) (\<lambda>_.
     if fq_tenant_key q \<noteq> fs_tenant_key s \<or> fq_employee q \<notin> {fs_agent_id s, fs_employee_name s} \<or> ref \<noteq> disposition_reference s
     then raise_fire ''external disposition reference mismatch'' else
     bindA (interfere re) (\<lambda>_.
     bindA (fire_states_now re) (\<lambda>sts.
     case dget sts (fs_intent_id s) of
       None \<Rightarrow> raise_fire ''external cleanup request is unavailable''
     | Some c \<Rightarrow>
         if fs_external_disposition_confirmed c then
           (if fs_external_disposition_ref c \<noteq> ref then raise_fire ''external disposition reference mismatch'' else returnA ())
         else if \<not> awaits_confirmation c \<or> ref \<noteq> disposition_reference c
         then raise_fire ''external cleanup request is not awaiting confirmation''
         else
           bindA (synchronize_hire re) (\<lambda>p.
           if (case dget (ws_employees p) (fs_agent_id s) of
                 None \<Rightarrow> True | Some e \<Rightarrow> em_tenant_key e \<noteq> fs_tenant_key s \<or> em_state e \<noteq> employee_state.ES_ACTION_REQUIRED)
           then raise_fire ''external cleanup request is not awaiting confirmation''
           else
             bindA (getA rt_tick) (\<lambda>k.
             bindA (new_event re ''fire.external_disposition_confirmed'' (fs_intent_id s) (confirmation_payload q ref (re_isotime re k))) (\<lambda>ev.
             bindA (commit_fact re [ev]) (apply_hire re)))))))"

text \<open>A bot principal that was planned but never bound has its credential in the metadata of the hire only.\<close>

definition recoverable_credential :: "employee_fire_target \<Rightarrow> durable_hire_state option \<Rightarrow> bool" where
  "recoverable_credential t h \<longleftrightarrow> (case h of None \<Rightarrow> False | Some s \<Rightarrow>
     ft_cleanup_mode t = CM_RECOVERABLE \<and> hs_bot_principal_id s = ft_bot_principal_id t \<and>
     dget (metadata_for s ''store-credential'') ''app_id'' = Some (ft_app_id t) \<and>
     dget (metadata_for s ''store-credential'') ''credential_ref'' = Some (ft_credential_ref t) \<and>
     dget (hs_effects s) ''store-credential'' = Some HE_COMMITTED)"

definition mark_credential_destroyed :: "('a, 'io, 'g, 'w) retire_env \<Rightarrow> employee_fire_target \<Rightarrow> ('a, 'g, 'w, unit) retire_action" where
  "mark_credential_destroyed re t =
     bindA (new_event re ''credential.destroyed'' (ft_bot_principal_id t) [(''credential_ref'', PStr (ft_credential_ref t))]) (\<lambda>ev.
     bindA (interfere re) (\<lambda>_.
     bindA (synchronize_hire re) (\<lambda>p.
     case dget (ws_bot_principals p) (ft_bot_principal_id t) of
       None \<Rightarrow>
         bindA (getA rt_views) (\<lambda>v.
         bindA (liftA (hire_state_of v (ft_agent_id t))) (\<lambda>h.
         if recoverable_credential t h then returnA () else raise_fire ''employee bot principal is unavailable''))
     | Some b \<Rightarrow>
         if bp_credential_ref b = [] then returnA ()
         else bindA (validate_events re p [ev]) (\<lambda>_.
           bindA (commit_fact re [ev]) (apply_hire re)))))"

definition mark_archived :: "('a, 'io, 'g, 'w) retire_env \<Rightarrow> string \<Rightarrow> string \<Rightarrow> bool \<Rightarrow> ('a, 'g, 'w, unit) retire_action" where
  "mark_archived re agent_id i confirmed =
     bindA (state_event re agent_id employee_state.ES_ARCHIVED) (\<lambda>archived.
     bindA (new_event re ''fire.completed'' i
       [(''external_app_disposition'', PStr (if confirmed then ''manual_disposition_confirmed'' else ''manual_deletion_required''))]) (\<lambda>completed.
     bindA (interfere re) (\<lambda>_.
     bindA (synchronize_hire re) (\<lambda>p.
     bindA (validate_events re p [archived]) (\<lambda>_.
     bindA (commit_fact re [archived, completed]) (apply_hire re))))))"

section \<open>What the authority does to the journal\<close>

text \<open>What the code relies on: digests and float texts as the frames need them, transaction identifiers that are text, and other services that commit events.\<close>

definition retire_env_ok :: "('a, 'io, 'g, 'w) retire_env \<Rightarrow> bool" where
  "retire_env_ok re \<longleftrightarrow> digests_ok (re_frame re) \<and> floats_ok (re_frame re) \<and>
     (\<forall>k. ji_tx_id (re_io re k) \<noteq> [] \<and> utf8_ok (ji_tx_id (re_io re k))) \<and>
     (\<forall>k. list_all (\<lambda>(c, _). call_ok (re_frame re) c) (re_foreign re k))"

text \<open>The journal only grows, and no effect port is called.\<close>

definition evolves :: "('a, 'io, 'g, 'w) retire_env \<Rightarrow> ('a, 'g, 'w) retire_state \<Rightarrow> ('a, 'g, 'w) retire_state \<Rightarrow> bool" where
  "evolves re s t \<longleftrightarrow> (log_ok (re_writer re) (rt_writer s) \<longrightarrow> grows (re_writer re) (rt_writer s) (rt_writer t) \<and> rt_calls t = rt_calls s)"

text \<open>Only \<open>resume\<close> of the service can run out of its depth.\<close>

definition proper :: "retire_exn \<Rightarrow> bool" where
  "proper x \<longleftrightarrow> x \<noteq> RetireRecursionError"

interpretation evolution: state_order "evolves re" proper
proof
  show "evolves re s s" for s by (simp add: evolves_def grows_refl)
  show "evolves re s u" if "evolves re s t" "evolves re t u" for s t u
    using that grows_ok grows_trans unfolding evolves_def by metis
qed

definition event_made :: "('a, 'io, 'g, 'w) retire_env \<Rightarrow> journal_event \<Rightarrow> bool" where
  "event_made re e \<longleftrightarrow> event_ok (re_frame re) e \<and> event_text e"

abbreviation any_result :: "'r \<Rightarrow> bool" where
  "any_result \<equiv> \<lambda>_. True"

abbreviation evolving :: "('a, 'io, 'g, 'w) retire_env \<Rightarrow> ('a, 'g, 'w, 'r) retire_action \<Rightarrow> bool" where
  "evolving re m \<equiv> does (evolves re) proper m any_result"

lemma does_interfere:
  assumes "retire_env_ok re"
  shows "evolving re (interfere re)"
proof (rule doesI)
  fix s t x assume i: "interfere re s = (t, x)"
  obtain w a where r: "commit_run (re_writer re) (re_anchor re) (rt_writer s, rt_anchor s) (re_foreign re (rt_tick s)) = (w, a)" by fastforce
  have "grows (re_writer re) (rt_writer s) w" if "log_ok (re_writer re) (rt_writer s)"
    using commit_run_grows [OF _ _ _ that r] assms by (simp add: retire_env_ok_def)
  with i r show "evolves re s t" by (auto simp: interfere_def evolves_def)
qed (auto simp: interfere_def split: prod.splits)

lemma does_replay: "evolving re (replay_journal re)"
  by (rule doesI) (auto simp: replay_journal_def evolves_def proper_def split: prod.splits sum.splits intro: replay_grows)

lemma does_states: "evolving re (fire_states_now re)"
  unfolding fire_states_now_def
  by (intro evolution.bind [OF does_replay]) (auto split: sum.split simp: proper_def intro: evolution.simple)

lemma does_new_event: "does (evolves re) proper (new_event re ty i p) (event_made re)"
  by (rule doesI) (auto simp: new_event_def evolves_def event_made_def proper_def intro: grows_refl split: sum.splits if_splits dest: event_init_ok)

lemma versions_dict: "dict_ok (get_aggregate_versions w ids)"
proof -
  have "dict_ok (foldl (\<lambda>m k. dset m k (version_of (jw_versions w) k)) m ids)" if "dict_ok m" for m
    using that by (induction ids arbitrary: m) (auto simp: dict_ok_def dset_def distinct_update)
  then show ?thesis by (simp add: get_aggregate_versions_def dict_ok_def)
qed

lemma commit_call_ok:
  assumes "retire_env_ok re" and "list_all (event_made re) events"
  shows "call_ok (re_frame re) \<lparr>cc_events = events, cc_expected = get_aggregate_versions w ids,
    cc_head_sequence = q, cc_head_hash = h, cc_tx_id = ji_tx_id (re_io re k), cc_now = now\<rparr>"
  using assms by (auto simp: call_ok_def versions_dict retire_env_ok_def event_made_def list_all_iff)

lemma does_commit:
  assumes "retire_env_ok re" and "list_all (event_made re) events"
  shows "evolving re (commit_events re msg events)"
proof (rule doesI)
  fix s t x assume c: "commit_events re msg events s = (t, x)"
  let ?io = "re_io re (rt_tick s)" and ?head = "journal_head (re_frame re) (rt_writer s)"
  obtain w a r where r: "commit (re_writer re) (re_anchor re) (rt_writer s) (rt_anchor s)
      \<lparr>cc_events = events, cc_expected = get_aggregate_versions (rt_writer s) (remdups (map je_aggregate_id events)),
       cc_head_sequence = Some (fst ?head), cc_head_hash = Some (snd ?head), cc_tx_id = ji_tx_id ?io, cc_now = ji_now ?io\<rparr>
      (ji_append ?io) (ji_anchor ?io) = (w, a, r)" by (rule prod_cases3)
  have "grows (re_writer re) (rt_writer s) w" if "log_ok (re_writer re) (rt_writer s)"
    using commit_grows [OF r that _ _ commit_call_ok [OF assms]] assms(1) by (simp add: retire_env_ok_def)
  with c r show "evolves re s t" by (auto simp: commit_events_def Let_def evolves_def)
next
  show "proper x" if "commit_events re msg events s = (t, Inl x)" for s t x
    using that by (auto simp: commit_events_def Let_def proper_def split: prod.splits sum.splits commit_state.splits)
qed simp

lemma does_synchronize_hire: "evolving re (synchronize_hire re)"
  by (rule doesI) (auto simp: synchronize_hire_def evolves_def proper_def split: prod.splits sum.splits intro: synchronize_grows)

lemma does_apply_hire: "evolving re (apply_hire re f)"
  by (rule doesI) (auto simp: apply_hire_def evolves_def proper_def split: prod.splits sum.splits intro: apply_committed_grows)

lemma does_ingress: "evolving re (synchronize_ingress re)" "evolving re (apply_ingress re f)"
proof -
  show "evolving re (apply_ingress re f)"
    by (rule doesI) (auto simp: apply_ingress_def evolves_def proper_def Let_def split: if_splits prod.splits sum.splits intro: grows_refl)
  have r: "evolving re (rebuild_ingress re anchor)" for anchor unfolding rebuild_ingress_def
    by (intro evolution.bind [OF does_replay] doesI) (auto simp: evolves_def proper_def split: prod.splits sum.splits intro: grows_refl)
  show "evolving re (synchronize_ingress re)"
    by (rule doesI) (auto simp: synchronize_ingress_def proper_def evolution.refl split: sum.splits if_splits dest: doesD(1) [OF r] doesD(3) [OF r])
qed

lemma does_raise: "does (evolves re) proper (raise_fire m) Q"
  unfolding raise_fire_def by (rule evolution.simple) (simp add: proper_def)

lemma hire_state_of_proper: "hire_state_of v a = Inl x \<Longrightarrow> proper x"
  by (auto simp: hire_state_of_def proper_def split: list.splits)

lemma resolve_proper: "resolve_from_projection q v = Inl x \<Longrightarrow> proper x"
  using hire_state_of_proper by (auto simp: resolve_from_projection_def Let_def proper_def split: list.splits if_splits option.splits elim!: bindE.elims)

lemma does_authorize: "evolving re (authorize_request re q)"
  unfolding authorize_request_def by (intro evolution.branch does_raise evolution.simple TrueI)

lemma does_validate: "evolving re (validate_events re p evs)"
  unfolding validate_events_def by (auto split: sum.split simp: proper_def intro: evolution.simple)

lemma does_state_event: "does (evolves re) proper (state_event re i st) (event_made re)"
  unfolding state_event_def by (rule does_new_event)

lemma does_closed_event: "does (evolves re) proper (closed_event re t) (event_made re)"
proof (rule doesI)
  show "evolves re s s'" if "closed_event re t s = (s', x)" for s s' x
    using doesD(1) [OF does_new_event that [unfolded closed_event_def]] .
  show "event_made re ev" if "closed_event re t s = (s', Inr ev)" for s s' ev
    using doesD(2) [OF does_new_event that [unfolded closed_event_def]] .
  show "proper x" if "closed_event re t s = (s', Inl x)" for s s' x
    using doesD(3) [OF does_new_event that [unfolded closed_event_def]] .
qed

lemma does_dispositions:
  "does (evolves re) proper (disposition_events re s es) (list_all (event_made re))"
  by (induction es) (auto intro!: evolution.rules does_raise does_new_event)

lemma does_effect_dispositions: "does (evolves re) proper (hire_effect_dispositions re a) (list_all (event_made re))"
  unfolding hire_effect_dispositions_def
  by (rule evolution.bind [where P = any_result], rule evolution.simple, simp, rule evolution.bind [where P = any_result], rule evolution.simple, simp, erule hire_state_of_proper)
    (auto split: option.split intro: evolution.simple does_dispositions)

lemmas does_facts = does_interfere does_replay does_states does_commit does_synchronize_hire does_apply_hire does_ingress does_authorize does_validate
  does_raise does_state_event does_closed_event does_effect_dispositions does_new_event

lemma does_commit_one:
  assumes "retire_env_ok re" and "event_made re ev"
  shows "evolving re (bindA (validate_events re p [ev]) (\<lambda>_. bindA (commit_fact re [ev]) (apply_hire re)))"
  by (rule evolution.bind [OF does_validate], rule evolution.bind [OF does_commit [OF assms(1)]]) (use assms(2) in \<open>auto intro: does_apply_hire\<close>)

lemma does_commit_employee_state:
  assumes "retire_env_ok re"
  shows "evolving re (commit_employee_state re a st)"
  unfolding commit_employee_state_def
  by (rule evolution.bind [OF does_state_event], rule evolution.bind [OF does_interfere [OF assms]], rule evolution.bind [OF does_synchronize_hire])
    (intro evolution.branch evolution.simple(1) TrueI does_commit_one assms)

lemma does_mark_credential_destroyed:
  assumes "retire_env_ok re"
  shows "evolving re (mark_credential_destroyed re t)"
proof -
  have "evolving re (bindA (getA rt_views) (\<lambda>v. bindA (liftA (hire_state_of v (ft_agent_id t))) (\<lambda>h.
      if recoverable_credential t h then returnA () else raise_fire ''employee bot principal is unavailable'')))"
    by (rule evolution.bind [where P = any_result], rule evolution.simple, rule TrueI, rule evolution.bind [where P = any_result], rule evolution.simple, rule TrueI,
        erule hire_state_of_proper)
      (intro evolution.branch(1) evolution.simple(1) does_raise TrueI)
  then show ?thesis unfolding mark_credential_destroyed_def
    by (intro evolution.bind [OF does_new_event] evolution.bind [OF does_interfere [OF assms]] evolution.bind [OF does_synchronize_hire]
        evolution.branch evolution.simple(1) TrueI does_commit_one assms)
qed

lemma does_mark_archived:
  assumes "retire_env_ok re"
  shows "evolving re (mark_archived re a i c)"
  unfolding mark_archived_def
  by (rule evolution.bind [OF does_state_event], rule evolution.bind [OF does_new_event], rule evolution.bind [OF does_interfere [OF assms]],
      rule evolution.bind [OF does_synchronize_hire], rule evolution.bind [OF does_validate], rule evolution.bind [OF does_commit [OF assms]])
    (auto intro: does_apply_hire)

lemma does_confirm:
  assumes "retire_env_ok re"
  shows "evolving re (confirm_disposition re q s ref)"
proof -
  have commit: "evolving re (bindA (getA rt_tick) (\<lambda>k. bindA (new_event re ty i (p k)) (\<lambda>ev. bindA (commit_fact re [ev]) (apply_hire re))))" for ty i p
    by (rule evolution.bind [where P = any_result], rule evolution.simple, simp,
        rule evolution.bind [OF does_new_event], rule evolution.bind [OF does_commit [OF assms]]) (auto intro: does_apply_hire)
  show ?thesis unfolding confirm_disposition_def
    by (rule evolution.bind [OF does_authorize], rule evolution.branch(1), rule does_raise, rule evolution.bind [OF does_interfere [OF assms]],
        rule evolution.bind [OF does_states], rule evolution.branch(2), rule does_raise, intro evolution.branch(1) does_raise evolution.simple(1) TrueI
        evolution.bind [OF does_synchronize_hire] commit)
qed

lemma does_resolve:
  assumes "retire_env_ok re"
  shows "evolving re (resolve re q)"
  unfolding resolve_def
  by (rule evolution.bind [OF does_authorize], rule evolution.bind [OF does_interfere [OF assms]], rule evolution.bind [OF does_synchronize_hire],
      rule evolution.bind [where P = any_result]) (auto intro: evolution.simple resolve_proper)

lemma does_admit:
  assumes "retire_env_ok re"
  shows "evolving re (admit re q i)"
proof -
  have commit: "evolving re (bindA (commit_fact re (requested # dispositions @ [retiring, closed])) (\<lambda>f. bindA (apply_hire re f) (\<lambda>_. bindA (apply_ingress re f) (\<lambda>_. returnA t))))"
    if "event_made re requested" "list_all (event_made re) dispositions" "event_made re retiring" "event_made re closed" for requested dispositions retiring closed t
    by (rule evolution.bind [OF does_commit [OF assms]], use that in simp, rule evolution.bind [OF does_apply_hire], rule evolution.bind [OF does_ingress(2)])
      (simp add: evolution.simple)
  show ?thesis unfolding admit_def
    by (rule evolution.bind [OF does_interfere [OF assms]], rule evolution.bind [OF does_ingress(1)], rule evolution.bind [OF does_synchronize_hire],
        rule evolution.bind [where P = any_result], rule evolution.simple, rule TrueI, rule evolution.bind [where P = any_result], rule evolution.simple, rule TrueI, erule resolve_proper,
        rule evolution.bind [OF does_states], rule evolution.branch(1), rule does_raise, rule evolution.bind [OF does_new_event], rule evolution.bind [OF does_state_event],
        rule evolution.bind [OF does_closed_event], rule evolution.bind [OF does_effect_dispositions], rule evolution.bind [OF does_validate], rule commit)
qed

end
