(* ===== verification/Fire_Service.thy ===== *)
theory Fire_Service
  imports Fire_Authority
begin

text \<open>
  The retirement service of \<^verbatim>\<open>src/src/autonomous/provisioning/fire_service.py\<close>: it admits a request, starts each cleanup after
  the journal holds its \<open>executing\<close> event, observes the outcome, and records it. The mutex of the service makes its operations
  atomic towards each other; other services commit in between, wherever the writer's guard is free (\<open>interfere\<close>). The authority is the
  interface \<open>FireAuthority\<close>, its operations a record, implemented by \<open>Fire_Authority\<close>. Two
  methods call each other (\<open>resume\<close> and \<open>reconcile_executing\<close>); the number bounds the depth, and one more than the number of
  cleanups is enough (\<open>Fire_Safety\<close>).
\<close>

section \<open>The authority\<close>

record ('a, 'g, 'w) fire_authority_ops =
  fa_authorize :: "employee_fire_request \<Rightarrow> ('a, 'g, 'w, unit) retire_action"
  fa_resolve :: "employee_fire_request \<Rightarrow> ('a, 'g, 'w, employee_fire_target) retire_action"
  fa_admit :: "employee_fire_request \<Rightarrow> employee_fire_target \<Rightarrow> string \<Rightarrow> ('a, 'g, 'w, employee_fire_target) retire_action"
  fa_mark_action_required :: "string \<Rightarrow> ('a, 'g, 'w, unit) retire_action"
  fa_confirm :: "employee_fire_request \<Rightarrow> durable_fire_state \<Rightarrow> string \<Rightarrow> ('a, 'g, 'w, unit) retire_action"
  fa_mark_credential_destroyed :: "employee_fire_target \<Rightarrow> ('a, 'g, 'w, unit) retire_action"
  fa_mark_archived :: "string \<Rightarrow> string \<Rightarrow> bool \<Rightarrow> ('a, 'g, 'w, unit) retire_action"

definition journal_fire_authority :: "('a, 'io, 'g, 'w) retire_env \<Rightarrow> ('a, 'g, 'w) fire_authority_ops" where
  "journal_fire_authority re = \<lparr>fa_authorize = authorize_request re, fa_resolve = resolve re, fa_admit = (\<lambda>q t i. admit re q i),
     fa_mark_action_required = mark_action_required re, fa_confirm = confirm_disposition re,
     fa_mark_credential_destroyed = mark_credential_destroyed re, fa_mark_archived = mark_archived re\<rparr>"

section \<open>The journal of the service\<close>

definition service_states :: "('a, 'io, 'g, 'w) retire_env \<Rightarrow> ('a, 'g, 'w, fire_states) retire_action" where
  "service_states re = bindA (interfere re) (\<lambda>_. fire_states_now re)"

definition require_fire :: "('a, 'io, 'g, 'w) retire_env \<Rightarrow> string \<Rightarrow> ('a, 'g, 'w, durable_fire_state) retire_action" where
  "require_fire re i = bindA (service_states re) (\<lambda>sts.
     case dget sts i of None \<Rightarrow> raise_fire ''unknown fire request'' | Some s \<Rightarrow> returnA s)"

definition commit_event :: "('a, 'io, 'g, 'w) retire_env \<Rightarrow> string \<Rightarrow> string \<Rightarrow> pydict \<Rightarrow> ('a, 'g, 'w, unit) retire_action" where
  "commit_event re ty i payload =
     bindA (new_event re ty i payload) (\<lambda>ev.
     bindA (interfere re) (\<lambda>_.
     bindA (commit_events re ''fire transition was not anchored'' [ev]) (\<lambda>_.
     bindA (service_states re) (\<lambda>_. returnA ()))))"

definition fire_transition ::
  "('a, 'io, 'g, 'w) retire_env \<Rightarrow> string \<Rightarrow> string \<Rightarrow> fire_effect_state \<Rightarrow> string \<Rightarrow> ('a, 'g, 'w, unit) retire_action" where
  "fire_transition re i n st error_code = commit_event re (''fire.effect.'' @ fire_effect_state_value st) i
     ((''effect_type'', PStr n) # (if error_code = [] then [] else [(''error_code'', PStr error_code)]))"

section \<open>Effects\<close>

definition execute_effect :: "('a, 'io, 'g, 'w) retire_env \<Rightarrow> durable_fire_state \<Rightarrow> string \<Rightarrow> ('a, 'g, 'w, unit) retire_action" where
  "execute_effect re s n = modifyA (\<lambda>sv. sv\<lparr>rt_world := re_execute re (rt_world sv) n s, rt_calls := rt_calls sv @ [(n, s)]\<rparr>)"

definition observe_effect :: "('a, 'io, 'g, 'w) retire_env \<Rightarrow> durable_fire_state \<Rightarrow> string \<Rightarrow> ('a, 'g, 'w, bool option) retire_action" where
  "observe_effect re s n = (\<lambda>sv. case re_observe re (rt_world sv) n s of (w, r) \<Rightarrow> (sv\<lparr>rt_world := w\<rparr>, Inr r))"

definition fire_action_required ::
  "('a, 'io, 'g, 'w) retire_env \<Rightarrow> ('a, 'g, 'w) fire_authority_ops \<Rightarrow> durable_fire_state \<Rightarrow> string \<Rightarrow> string \<Rightarrow> ('a, 'g, 'w, durable_fire_state) retire_action" where
  "fire_action_required re au s n error_code =
     bindA (fire_transition re (fs_intent_id s) n FE_ACTION_REQUIRED error_code) (\<lambda>_.
     bindA (fa_mark_action_required au (fs_agent_id s)) (\<lambda>_.
     require_fire re (fs_intent_id s)))"

definition reconcile_executing ::
  "('a, 'io, 'g, 'w) retire_env \<Rightarrow> ('a, 'g, 'w) fire_authority_ops \<Rightarrow> (string \<Rightarrow> ('a, 'g, 'w, durable_fire_state) retire_action) \<Rightarrow>
     durable_fire_state \<Rightarrow> string \<Rightarrow> ('a, 'g, 'w, durable_fire_state) retire_action" where
  "reconcile_executing re au again s n =
     bindA (observe_effect re s n) (\<lambda>observed.
     if observed \<noteq> Some True then fire_action_required re au s n ''recovery_outcome_unknown''
     else bindA (fire_transition re (fs_intent_id s) n FE_COMMITTED []) (\<lambda>_. again (fs_intent_id s)))"

text \<open>Without authority over the resources there is nothing to execute: the states of the effect are recorded one after the other.\<close>

definition record_effect :: "('a, 'io, 'g, 'w) retire_env \<Rightarrow> string \<Rightarrow> string \<Rightarrow> fire_effect_state option \<Rightarrow> ('a, 'g, 'w, unit) retire_action" where
  "record_effect re i n es =
     bindA (if es = None then fire_transition re i n FE_PREPARED [] else returnA ()) (\<lambda>_.
     bindA (if es = None \<or> es = Some FE_PREPARED then fire_transition re i n FE_EXECUTING [] else returnA ()) (\<lambda>_.
     if es = None \<or> es = Some FE_PREPARED \<or> es = Some FE_EXECUTING then fire_transition re i n FE_COMMITTED [] else returnA ()))"

definition credential_fact :: "('a, 'g, 'w) fire_authority_ops \<Rightarrow> employee_fire_target \<Rightarrow> string \<Rightarrow> ('a, 'g, 'w, unit) retire_action" where
  "credential_fact au t n = (if n = ''credential_destroy'' then fa_mark_credential_destroyed au t else returnA ())"

text \<open>One cleanup: \<open>Some s\<close> ends the loop with the state \<open>s\<close>, \<open>None\<close> goes on to the next.\<close>

definition run_effect ::
  "('a, 'io, 'g, 'w) retire_env \<Rightarrow> ('a, 'g, 'w) fire_authority_ops \<Rightarrow> employee_fire_target \<Rightarrow> string \<Rightarrow> string \<Rightarrow> fire_effect_state option \<Rightarrow>
     ('a, 'g, 'w, durable_fire_state option) retire_action" where
  "run_effect re au t i n es =
     bindA (if es = None then fire_transition re i n FE_PREPARED [] else returnA ()) (\<lambda>_.
     bindA (fire_transition re i n FE_EXECUTING []) (\<lambda>_.
     bindA (require_fire re i) (\<lambda>s.
     bindA (execute_effect re s n) (\<lambda>_.
     bindA (observe_effect re s n) (\<lambda>observed.
     if observed \<noteq> Some True then bindA (fire_action_required re au s n ''outcome_unknown'') (\<lambda>r. returnA (Some r))
     else
       bindA (fire_transition re i n FE_COMMITTED []) (\<lambda>_.
       bindA (credential_fact au t n) (\<lambda>_. returnA None)))))))"

definition no_authority :: "durable_fire_state \<Rightarrow> bool" where
  "no_authority s \<longleftrightarrow> fs_cleanup_mode s \<in> {CM_SAFE_ABORT, CM_EXTERNAL_UNKNOWN}"

definition resume_effect ::
  "('a, 'io, 'g, 'w) retire_env \<Rightarrow> ('a, 'g, 'w) fire_authority_ops \<Rightarrow> (string \<Rightarrow> ('a, 'g, 'w, durable_fire_state) retire_action) \<Rightarrow> employee_fire_target \<Rightarrow>
     string \<Rightarrow> string \<Rightarrow> ('a, 'g, 'w, durable_fire_state option) retire_action" where
  "resume_effect re au again t i n =
     bindA (require_fire re i) (\<lambda>s.
     let es = effect_state s n in
     if no_authority s \<and> n \<noteq> ''archive_move'' then
       (if es = Some FE_ACTION_REQUIRED then returnA (Some s) else bindA (record_effect re i n es) (\<lambda>_. returnA None))
     else if es = Some FE_COMMITTED then bindA (credential_fact au t n) (\<lambda>_. returnA None)
     else if es = Some FE_EXECUTING then bindA (reconcile_executing re au again s n) (\<lambda>r. returnA (Some r))
     else if es = Some FE_ACTION_REQUIRED then returnA (Some s)
     else run_effect re au t i n es)"

fun resume_effects ::
  "('a, 'io, 'g, 'w) retire_env \<Rightarrow> ('a, 'g, 'w) fire_authority_ops \<Rightarrow> (string \<Rightarrow> ('a, 'g, 'w, durable_fire_state) retire_action) \<Rightarrow> employee_fire_target \<Rightarrow>
     string \<Rightarrow> string list \<Rightarrow> ('a, 'g, 'w, durable_fire_state option) retire_action" where
  "resume_effects re au again t i [] = returnA None"
| "resume_effects re au again t i (n # ns) =
     bindA (resume_effect re au again t i n) (\<lambda>r. case r of Some s \<Rightarrow> returnA (Some s) | None \<Rightarrow> resume_effects re au again t i ns)"

definition target_of :: "durable_fire_state \<Rightarrow> employee_fire_target" where
  "target_of s = \<lparr>ft_tenant_key = fs_tenant_key s, ft_agent_id = fs_agent_id s, ft_employee_name = fs_employee_name s,
     ft_bot_principal_id = fs_bot_principal_id s, ft_app_id = fs_app_id s, ft_credential_ref = fs_credential_ref s, ft_cleanup_mode = fs_cleanup_mode s\<rparr>"

definition await_disposition ::
  "('a, 'io, 'g, 'w) retire_env \<Rightarrow> ('a, 'g, 'w) fire_authority_ops \<Rightarrow> string \<Rightarrow> durable_fire_state \<Rightarrow> ('a, 'g, 'w, durable_fire_state) retire_action" where
  "await_disposition re au i s =
     (if effect_state s ''credential_destroy'' = None then
        bindA (fire_transition re i ''credential_destroy'' FE_PREPARED []) (\<lambda>_.
        bindA (fire_transition re i ''credential_destroy'' FE_EXECUTING []) (\<lambda>_.
        bindA (require_fire re i) (\<lambda>s'. fire_action_required re au s' ''credential_destroy'' ''external_cleanup_authority_unavailable'')))
      else require_fire re i)"

definition finish_fire :: "('a, 'io, 'g, 'w) retire_env \<Rightarrow> ('a, 'g, 'w) fire_authority_ops \<Rightarrow> string \<Rightarrow> ('a, 'g, 'w, durable_fire_state) retire_action" where
  "finish_fire re au i =
     bindA (require_fire re i) (\<lambda>s.
     bindA (fa_mark_archived au (fs_agent_id s) i (fs_external_disposition_confirmed s)) (\<lambda>_. require_fire re i))"

fun resume :: "('a, 'io, 'g, 'w) retire_env \<Rightarrow> ('a, 'g, 'w) fire_authority_ops \<Rightarrow> nat \<Rightarrow> string \<Rightarrow> ('a, 'g, 'w, durable_fire_state) retire_action" where
  "resume re au 0 i = raiseA RetireRecursionError"
| "resume re au (Suc k) i =
     bindA (require_fire re i) (\<lambda>s.
     case fs_phase s of
       FP_ARCHIVED \<Rightarrow> returnA s
     | FP_SUPERSEDED \<Rightarrow> raise_fire ''fire request was superseded''
     | FP_ACTION_REQUIRED \<Rightarrow> returnA s
     | FP_RETIRING \<Rightarrow>
         if fs_cleanup_mode s = CM_EXTERNAL_UNKNOWN \<and> \<not> fs_external_disposition_confirmed s then await_disposition re au i s
         else bindA (resume_effects re au (resume re au k) (target_of s) i FIRE_EFFECT_ORDER) (\<lambda>r.
           case r of Some s' \<Rightarrow> returnA s' | None \<Rightarrow> finish_fire re au i))"

definition resume_depth :: nat where
  "resume_depth = Suc (length FIRE_EFFECT_ORDER)"

abbreviation resume_fire :: "('a, 'io, 'g, 'w) retire_env \<Rightarrow> ('a, 'g, 'w) fire_authority_ops \<Rightarrow> string \<Rightarrow> ('a, 'g, 'w, durable_fire_state) retire_action" where
  "resume_fire re au i \<equiv> resume re au resume_depth i"

section \<open>Coalescing requests\<close>

definition coordinates :: "durable_fire_state \<Rightarrow> string \<times> string \<times> string \<times> string \<times> string \<times> fire_cleanup_mode" where
  "coordinates s = (fs_tenant_key s, fs_agent_id s, fs_bot_principal_id s, fs_app_id s, fs_credential_ref s, fs_cleanup_mode s)"

definition earlier :: "durable_fire_state \<Rightarrow> durable_fire_state \<Rightarrow> bool" where
  "earlier s t \<longleftrightarrow> fs_requested_sequence s < fs_requested_sequence t \<or>
     fs_requested_sequence s = fs_requested_sequence t \<and> fs_intent_id s < fs_intent_id t"

definition earliest :: "durable_fire_state list \<Rightarrow> durable_fire_state" where
  "earliest ss = foldl (\<lambda>m s. if earlier s m then s else m) (hd ss) (tl ss)"

fun supersede_all :: "('a, 'io, 'g, 'w) retire_env \<Rightarrow> string \<Rightarrow> durable_fire_state list \<Rightarrow> ('a, 'g, 'w, unit) retire_action" where
  "supersede_all re canonical [] = returnA ()"
| "supersede_all re canonical (s # ss) =
     bindA (if fs_intent_id s = canonical \<or> fs_phase s \<notin> {FP_RETIRING, FP_ACTION_REQUIRED} then returnA ()
       else commit_event re ''fire.superseded'' (fs_intent_id s) [(''canonical_intent_id'', PStr canonical)])
     (\<lambda>_. supersede_all re canonical ss)"

definition coalesce_equivalent :: "('a, 'io, 'g, 'w) retire_env \<Rightarrow> durable_fire_state list \<Rightarrow> ('a, 'g, 'w, durable_fire_state) retire_action" where
  "coalesce_equivalent re ss =
     (if length (remdups (map coordinates ss)) \<noteq> 1 then raise_fire ''employee retirement authority is ambiguous''
      else
        let archived = filter (\<lambda>s. fs_phase s = FP_ARCHIVED) ss;
            canonical = fs_intent_id (earliest (if archived \<noteq> [] then archived else ss))
        in bindA (supersede_all re canonical ss) (\<lambda>_. require_fire re canonical))"

definition names_employee :: "employee_fire_request \<Rightarrow> durable_fire_state \<Rightarrow> bool" where
  "names_employee q s \<longleftrightarrow> fs_tenant_key s = fq_tenant_key q \<and> fq_employee q \<in> {fs_agent_id s, fs_employee_name s}"

definition coalesce_live_requests ::
  "('a, 'io, 'g, 'w) retire_env \<Rightarrow> employee_fire_request \<Rightarrow> ('a, 'g, 'w, durable_fire_state option) retire_action" where
  "coalesce_live_requests re q =
     bindA (service_states re) (\<lambda>sts.
     let ss = dvals sts; live = filter (\<lambda>s. names_employee q s \<and> fs_phase s \<in> {FP_RETIRING, FP_ACTION_REQUIRED}) ss in
     case remdups (map fs_agent_id live) of
       [] \<Rightarrow> returnA None
     | [agent_id] \<Rightarrow>
         bindA (coalesce_equivalent re (filter (\<lambda>s. fs_tenant_key s = fq_tenant_key q \<and> fs_agent_id s = agent_id \<and> fs_phase s \<noteq> FP_SUPERSEDED) ss))
           (\<lambda>s. returnA (Some s))
     | _ \<Rightarrow> raise_fire ''employee retirement authority is ambiguous'')"

definition retry_action_required ::
  "('a, 'io, 'g, 'w) retire_env \<Rightarrow> ('a, 'g, 'w) fire_authority_ops \<Rightarrow> string \<Rightarrow> ('a, 'g, 'w, durable_fire_state) retire_action" where
  "retry_action_required re au i =
     bindA (require_fire re i) (\<lambda>s.
     if fs_phase s \<noteq> FP_ACTION_REQUIRED then resume_fire re au i
     else if fs_error_code s = ''external_cleanup_authority_unavailable'' then returnA s
     else case filter (\<lambda>(n, st). st = FE_ACTION_REQUIRED) (fs_effects s) of
       [(n, _)] \<Rightarrow>
         bindA (observe_effect re s n) (\<lambda>observed.
         if observed \<noteq> Some True then returnA s
         else bindA (commit_event re ''fire.effect.reconciled'' i [(''effect_type'', PStr n), (''resolution_code'', PStr ''observed_committed'')]) (\<lambda>_.
           resume_fire re au i))
     | _ \<Rightarrow> raise_fire ''fire recovery effect is ambiguous'')"

definition retry_existing ::
  "('a, 'io, 'g, 'w) retire_env \<Rightarrow> ('a, 'g, 'w) fire_authority_ops \<Rightarrow> durable_fire_state \<Rightarrow> ('a, 'g, 'w, durable_fire_state) retire_action" where
  "retry_existing re au s =
     (if fs_phase s = FP_ARCHIVED then raise_fire ''employee already archived'' else retry_action_required re au (fs_intent_id s))"

section \<open>Operations\<close>

definition matches_existing :: "durable_fire_state \<Rightarrow> employee_fire_request \<Rightarrow> bool" where
  "matches_existing s q \<longleftrightarrow> fs_tenant_key s = fq_tenant_key q \<and> fs_message_id s = fq_message_id q \<and> fs_chat_id s = fq_chat_id q \<and>
     fs_requester_principal_id s = fq_requester_principal_id q \<and> fs_drain s = fq_drain q \<and> fq_employee q \<in> {fs_agent_id s, fs_employee_name s}"

definition matches_target :: "durable_fire_state \<Rightarrow> employee_fire_request \<Rightarrow> employee_fire_target \<Rightarrow> bool" where
  "matches_target s q t \<longleftrightarrow> fs_tenant_key s = fq_tenant_key q \<and> fs_message_id s = fq_message_id q \<and> fs_chat_id s = fq_chat_id q \<and>
     fs_requester_principal_id s = fq_requester_principal_id q \<and> fs_drain s = fq_drain q \<and> fs_agent_id s = ft_agent_id t \<and>
     fs_bot_principal_id s = ft_bot_principal_id t \<and> fs_app_id s = ft_app_id t \<and> fs_credential_ref s = ft_credential_ref t \<and>
     fs_cleanup_mode s = ft_cleanup_mode t"

definition fire_intent_id :: "frame_env \<Rightarrow> employee_fire_request \<Rightarrow> retire_exn + string" where
  "fire_intent_id fe q =
     (let raw = fq_tenant_key q @ [CHR 0x00] @ fq_message_id q
      in if utf8_ok raw then Inr (''fire_'' @ fe_sha256 fe raw) else Inl RetireUnicodeError)"

text \<open>\<open>try\<close> around one call: an exception goes to the handler, a result to the rest of the method.\<close>

definition tryA :: "('s, 'x, 'r) action \<Rightarrow> ('x \<Rightarrow> ('s, 'x, 'q) action) \<Rightarrow> ('r \<Rightarrow> ('s, 'x, 'q) action) \<Rightarrow> ('s, 'x, 'q) action" where
  "tryA m h f = (\<lambda>s. case m s of (t, Inl x) \<Rightarrow> h x t | (t, Inr r) \<Rightarrow> f r t)"

definition admission_failed ::
  "('a, 'io, 'g, 'w) retire_env \<Rightarrow> ('a, 'g, 'w) fire_authority_ops \<Rightarrow> employee_fire_request \<Rightarrow> retire_exn \<Rightarrow> ('a, 'g, 'w, durable_fire_state) retire_action" where
  "admission_failed re au q x =
     (if x \<noteq> FireServiceError ''employee retirement already in progress'' then raiseA x
      else bindA (coalesce_live_requests re q) (\<lambda>existing. case existing of None \<Rightarrow> raiseA x | Some s \<Rightarrow> retry_existing re au s))"

definition start_fire ::
  "('a, 'io, 'g, 'w) retire_env \<Rightarrow> ('a, 'g, 'w) fire_authority_ops \<Rightarrow> employee_fire_request \<Rightarrow> ('a, 'g, 'w, durable_fire_state) retire_action" where
  "start_fire re au q =
     bindA (fa_authorize au q) (\<lambda>_.
     bindA (liftA (fire_intent_id (re_frame re) q)) (\<lambda>i.
     bindA (service_states re) (\<lambda>sts.
     case dget sts i of
       Some s \<Rightarrow>
         if \<not> matches_existing s q then raise_fire ''fire idempotency conflict''
         else if fs_phase s = FP_SUPERSEDED then raise_fire ''fire request was superseded''
         else resume_fire re au i
     | None \<Rightarrow>
         bindA (coalesce_live_requests re q) (\<lambda>existing.
         case existing of
           Some s \<Rightarrow> retry_existing re au s
         | None \<Rightarrow>
             bindA (fa_resolve au q) (\<lambda>t0.
             tryA (fa_admit au q t0 i) (admission_failed re au q) (\<lambda>t.
               bindA (require_fire re i) (\<lambda>s.
               if \<not> matches_target s q t then raise_fire ''fire idempotency conflict'' else resume_fire re au i)))))))"

definition disposition_candidate :: "employee_fire_request \<Rightarrow> durable_fire_state \<Rightarrow> bool" where
  "disposition_candidate q s \<longleftrightarrow> names_employee q s \<and> fs_cleanup_mode s = CM_EXTERNAL_UNKNOWN \<and> fs_phase s \<noteq> FP_SUPERSEDED \<and>
     (fs_external_disposition_confirmed s \<or>
      fs_phase s = FP_ACTION_REQUIRED \<and> fs_error_code s = ''external_cleanup_authority_unavailable'')"

text \<open>The states a confirmation is for: those of the one agent that waits for it, or the ones with the reference.\<close>

definition disposition_matches :: "durable_fire_state list \<Rightarrow> string \<Rightarrow> retire_exn + durable_fire_state list" where
  "disposition_matches candidates ref =
     (let pending = filter (\<lambda>s. \<not> fs_external_disposition_confirmed s) candidates;
          referenced = filter (\<lambda>s. disposition_reference s = ref)
      in if pending = [] then Inr (if referenced candidates \<noteq> [] then referenced candidates else candidates)
         else
           let agents = remdups (map fs_agent_id pending);
               agents' = (if length agents > 1 then remdups (map fs_agent_id (referenced pending)) else agents)
           in case agents' of
                [agent_id] \<Rightarrow> Inr (filter (\<lambda>s. fs_agent_id s = agent_id) candidates)
              | _ \<Rightarrow> Inl (FireServiceError ''external cleanup request was not uniquely resolved''))"

definition confirm_external_disposition ::
  "('a, 'io, 'g, 'w) retire_env \<Rightarrow> ('a, 'g, 'w) fire_authority_ops \<Rightarrow> employee_fire_request \<Rightarrow> string \<Rightarrow> ('a, 'g, 'w, durable_fire_state) retire_action" where
  "confirm_external_disposition re au q ref =
     (if ref = [] \<or> ref \<noteq> re_strip re ref then raise_fire ''external disposition reference is required'' else
      bindA (fa_authorize au q) (\<lambda>_.
      bindA (service_states re) (\<lambda>sts.
      bindA (liftA (disposition_matches (filter (disposition_candidate q) (dvals sts)) ref)) (\<lambda>found.
      bindA (if length found > 1 then bindA (coalesce_equivalent re found) (\<lambda>s. returnA [s]) else returnA found) (\<lambda>one.
      case one of
        [s] \<Rightarrow>
          if ref \<noteq> disposition_reference s then raise_fire ''external disposition reference mismatch''
          else bindA (if fs_external_disposition_confirmed s then returnA () else fa_confirm au q s ref) (\<lambda>_. resume_fire re au (fs_intent_id s))
      | _ \<Rightarrow> raise_fire ''external cleanup request was not uniquely resolved'')))))"

definition group_states :: "durable_fire_state list \<Rightarrow> (string \<times> string, durable_fire_state list) dict" where
  "group_states ss = foldl (\<lambda>d s. let k = (fs_tenant_key s, fs_agent_id s) in dset d k (get_or d k [] @ [s])) []
     (filter (\<lambda>s. fs_phase s \<noteq> FP_SUPERSEDED) ss)"

fun recover_groups ::
  "('a, 'io, 'g, 'w) retire_env \<Rightarrow> ('a, 'g, 'w) fire_authority_ops \<Rightarrow> durable_fire_state list list \<Rightarrow> ('a, 'g, 'w, durable_fire_state list) retire_action" where
  "recover_groups re au [] = returnA []"
| "recover_groups re au (g # gs) =
     bindA (coalesce_equivalent re g) (\<lambda>s.
     bindA (if fs_phase s = FP_RETIRING then bindA (resume_fire re au (fs_intent_id s)) (\<lambda>r. returnA [r])
       else if fs_phase s = FP_ACTION_REQUIRED then bindA (fa_mark_action_required au (fs_agent_id s)) (\<lambda>_. returnA [])
       else returnA []) (\<lambda>rs.
     bindA (recover_groups re au gs) (\<lambda>more_states. returnA (rs @ more_states))))"

text \<open>\<open>sorted\<close> of pairs: by the second component, then stably by the first.\<close>

definition recover_fires :: "('a, 'io, 'g, 'w) retire_env \<Rightarrow> ('a, 'g, 'w) fire_authority_ops \<Rightarrow> ('a, 'g, 'w, durable_fire_state list) retire_action" where
  "recover_fires re au =
     bindA (service_states re) (\<lambda>sts.
     recover_groups re au (map snd (sort_key (\<lambda>e. fst (fst e)) (sort_key (\<lambda>e. snd (fst e)) (group_states (dvals sts))))))"

definition list_fires :: "('a, 'io, 'g, 'w) retire_env \<Rightarrow> ('a, 'g, 'w, durable_fire_state list) retire_action" where
  "list_fires re = bindA (service_states re) (\<lambda>sts. returnA (sort_key fs_requested_sequence (sort_key fs_intent_id (dvals sts))))"

section \<open>What the journal says about an effect\<close>

interpretation fire_log: log_projection "reduce_fire env" fire_inv fire_kept "[]" sequenced
  by unfold_locales (simp_all add: fire_inv_def sequenced_append)

definition effect_recorded :: "string \<Rightarrow> string \<Rightarrow> fire_effect_state \<Rightarrow> journal_event \<Rightarrow> bool" where
  "effect_recorded i n st ev \<longleftrightarrow> je_aggregate_id ev = i \<and> je_event_type ev = ''fire.effect.'' @ fire_effect_state_value st \<and>
     field_of (je_payload ev) ''effect_type'' = PStr n"

lemma executing_recorded: "executing_event i n = effect_recorded i n FE_EXECUTING"
  by (auto simp: fun_eq_iff executing_event_def effect_recorded_def)

lemma reduce_effect_event:
  assumes "reduce_fire env sts (q, ev) = Inr ts" and "effect_recorded i n st ev"
  obtains s t where "dget sts i = Some s" "effect_state s n = fire_predecessor st" "n \<in> set FIRE_EFFECT_ORDER"
    "ts = dset sts i t" "effect_state t n = Some st"
proof -
  from assms(2) have ev: "je_aggregate_id ev = i" "je_event_type ev = ''fire.effect.'' @ fire_effect_state_value st"
    "field_of (je_payload ev) ''effect_type'' = PStr n" by (simp_all add: effect_recorded_def)
  have "je_event_type ev \<noteq> ''fire.requested''" "starts_with (je_event_type ev) ''fire.''"
    by (cases st; simp add: ev(2) starts_with_def)+
  with assms(1) ev(1) obtain s t where s: "dget sts i = Some s" "fire_later env s ev q = Inr t" "ts = dset sts i t"
    unfolding reduce_fire_def Let_def fst_conv snd_conv by (auto split: option.splits elim!: bindE_InrE)
  have "fire_effect_event env s (fire_effect_state_value st) (je_payload ev) q = Inr t"
    using s(2) by (cases st) (simp_all add: fire_later_def Let_def ev(2) starts_with_def split: if_splits)
  then obtain m st' where m: "fire_effect_type (je_payload ev) = Some m" "effect_state s m = fire_predecessor st'" "effect_state t m = Some st'"
    "enum_of fire_effect_state_value fire_effect_state_members (fire_effect_state_value st) = Some st'"
    unfolding fire_effect_event_def by (auto simp: dget_with_effect fire_effect_type_Some split: option.splits if_splits bool.splits)
  with ev(3) have "m = n" "st' = st" "n \<in> set FIRE_EFFECT_ORDER" by (auto simp: fire_effect_type_Some fire_effect_state_enum.of_value)
  with m s show thesis by (intro that) simp_all
qed

definition began :: "fire_effect_state option \<Rightarrow> nat" where
  "began e = of_bool (e \<noteq> None \<and> e \<noteq> Some FE_PREPARED)"

lemma began_advances: "fire_predecessor st = e \<Longrightarrow> began e \<le> began (Some st)"
  by (cases st) (auto simp: began_def fire_predecessor_def)

lemma fire_step_began: "fire_step ev s t \<Longrightarrow> n \<in> set FIRE_EFFECT_ORDER \<Longrightarrow> began (effect_state s n) \<le> began (effect_state t n)"
  by (erule fire_step.cases) (auto simp: dget_with_effect began_advances, auto simp: began_def)

definition starts :: "string \<Rightarrow> string \<Rightarrow> (int \<times> journal_event) list \<Rightarrow> nat" where
  "starts i n es = length (filter (\<lambda>e. executing_event i n (snd e)) es)"

lemma starts_simps [simp]: "starts i n [] = 0" "starts i n (es @ fs) = starts i n es + starts i n fs"
  "starts i n [e] = of_bool (executing_event i n (snd e))"
  by (simp_all add: starts_def)

text \<open>In a journal that the projection accepts, every effect of a request is started at most once.\<close>

lemma starts_began:
  assumes "foldE (reduce_fire env) [] es = Inr sts"
  shows "\<forall>i n. starts i n es \<le> (case dget sts i of None \<Rightarrow> 0 | Some s \<Rightarrow> if n \<in> set FIRE_EFFECT_ORDER then began (effect_state s n) else 0)"
  using assms
proof (rule foldE_history)
  fix es e sts ts
  assume IH: "\<forall>i n. starts i n es \<le> (case dget sts i of None \<Rightarrow> 0 | Some s \<Rightarrow> if n \<in> set FIRE_EFFECT_ORDER then began (effect_state s n) else 0)"
    and r: "reduce_fire env sts e = Inr ts"
  obtain q ev where e: "e = (q, ev)" by (cases e)
  show "\<forall>i n. starts i n (es @ [e]) \<le> (case dget ts i of None \<Rightarrow> 0 | Some s \<Rightarrow> if n \<in> set FIRE_EFFECT_ORDER then began (effect_state s n) else 0)"
  proof (intro allI)
    fix i n
    note ih = IH [rule_format, of i n]
    show "starts i n (es @ [e]) \<le> (case dget ts i of None \<Rightarrow> 0 | Some s \<Rightarrow> if n \<in> set FIRE_EFFECT_ORDER then began (effect_state s n) else 0)"
    proof (cases "executing_event i n ev")
      case True
      then have "effect_recorded i n FE_EXECUTING ev" by (simp add: executing_recorded)
      from reduce_effect_event [OF r [unfolded e] this] obtain s t where s: "dget sts i = Some s" "effect_state s n = fire_predecessor FE_EXECUTING"
        "n \<in> set FIRE_EFFECT_ORDER" "ts = dset sts i t" "effect_state t n = Some FE_EXECUTING" .
      with ih e show ?thesis by (simp add: began_def fire_predecessor_def)
    next
      case False
      with e have same: "\<not> executing_event i n (snd e)" by simp
      from r [unfolded e] show ?thesis
      proof (cases rule: reduce_fire_cases)
        case (requested s)
        with ih same show ?thesis by (cases "i = je_aggregate_id ev") simp_all
      next
        case ignored
        with ih same show ?thesis by simp
      next
        case (step s t)
        with ih same fire_step_began [OF step(2), of n] show ?thesis by (cases "i = je_aggregate_id ev") (auto split: if_splits)
      qed
    qed
  qed
qed simp

lemma started_once:
  assumes "rebuild_fire_projection env fs = Inr sts"
  shows "starts i n (sequenced fs) \<le> 1"
proof -
  have "(case dget sts i of None \<Rightarrow> 0 | Some s \<Rightarrow> if n \<in> set FIRE_EFFECT_ORDER then began (effect_state s n) else 0) \<le> 1"
    by (simp add: began_def split: option.split)
  with starts_began [OF assms [unfolded rebuild_fire_projection_def]] show ?thesis by (meson le_trans)
qed

lemma committed_shown:
  assumes "foldE (reduce_fire env) [] es = Inr sts"
  shows "recorded (effect_recorded i n FE_COMMITTED) es \<longrightarrow> n \<in> set FIRE_EFFECT_ORDER \<and> (\<exists>s. dget sts i = Some s \<and> effect_state s n = Some FE_COMMITTED)"
  using assms
proof (rule foldE_history)
  fix es e sts ts
  assume f: "foldE (reduce_fire env) [] es = Inr sts" and r: "reduce_fire env sts e = Inr ts"
    and IH: "recorded (effect_recorded i n FE_COMMITTED) es \<longrightarrow> n \<in> set FIRE_EFFECT_ORDER \<and> (\<exists>s. dget sts i = Some s \<and> effect_state s n = Some FE_COMMITTED)"
  obtain q ev where e: "e = (q, ev)" by (cases e)
  have inv: "fire_inv sts" using fire.replay_invar [OF _ f] by (simp add: fire_inv_def)
  show "recorded (effect_recorded i n FE_COMMITTED) (es @ [e]) \<longrightarrow> n \<in> set FIRE_EFFECT_ORDER \<and> (\<exists>s. dget ts i = Some s \<and> effect_state s n = Some FE_COMMITTED)"
  proof (cases "effect_recorded i n FE_COMMITTED ev")
    case True
    from reduce_effect_event [OF r [unfolded e] True] obtain t where "ts = dset sts i t" "effect_state t n = Some FE_COMMITTED" "n \<in> set FIRE_EFFECT_ORDER" .
    then show ?thesis by simp
  next
    case False
    show ?thesis
    proof
      assume "recorded (effect_recorded i n FE_COMMITTED) (es @ [e])"
      with False e IH obtain s where s: "dget sts i = Some s" "effect_state s n = Some FE_COMMITTED" "n \<in> set FIRE_EFFECT_ORDER" by auto
      from fire.step_kept [OF inv r] s(1) obtain t where t: "dget ts i = Some t" "fire_state_kept s t" by (auto simp: fire_kept_def)
      with s(2,3) show "n \<in> set FIRE_EFFECT_ORDER \<and> (\<exists>s. dget ts i = Some s \<and> effect_state s n = Some FE_COMMITTED)"
        by (auto simp: fire_state_kept_def)
    qed
  qed
qed (simp add: recorded_def)

end
