(* ===== verification/Fire_Quiet.thy ===== *)
theory Fire_Quiet
  imports Fire_Service
begin

text \<open>
  The journal when nothing disturbs it: the writer may write, the anchor stands at its head, and what is replayed is what was
  committed. Here every read and every accepted write of the retirement service returns.
\<close>

section \<open>An undisturbed journal\<close>

text \<open>An anchor that accepts the successor of what it holds, as the anchors in memory and in a file do while their writes succeed.\<close>

definition anchor_answers :: "('a, 'io) anchor_ops \<Rightarrow> bool" where
  "anchor_answers ao \<longleftrightarrow> (\<forall>a io s h. ao_read ao a = Inr s \<and> 0 \<le> an_sequence s \<and> valid_hash_str (an_frame_hash s) \<and> valid_hash_str h \<longrightarrow>
     (\<exists>a'. ao_cas ao a io (an_sequence s) (an_frame_hash s) (an_sequence s + 1) h = (a', Inr True) \<and>
        ao_read ao a' = Inr \<lparr>an_sequence = an_sequence s + 1, an_frame_hash = h\<rparr>))"

lemma memory_answers: "anchor_answers memory_ops"
  by (auto simp: anchor_answers_def memory_ops_def memory_read_def memory_cas_def valid_hash_str_def)

definition undisturbed :: "('a, 'io, 'g, 'w) retire_env \<Rightarrow> nat \<Rightarrow> bool" where
  "undisturbed re k \<longleftrightarrow> retire_env_ok re \<and> we_validator (re_writer re) = None \<and> anchor_answers (re_anchor re) \<and>
     (\<forall>j<k. re_foreign re j = [] \<and> ji_append (re_io re j) = Appended)"

definition quiet :: "('a, 'io, 'g, 'w) retire_env \<Rightarrow> transaction_frame list \<Rightarrow> ('a, 'g, 'w) retire_state \<Rightarrow> bool" where
  "quiet re fs sv \<longleftrightarrow> journal_inv (re_writer re) (rt_writer sv) \<and> \<not> jw_write_disabled (rt_writer sv) \<and> \<not> jw_closed (rt_writer sv) \<and>
     jw_frames (rt_writer sv) = fs \<and> ao_read (re_anchor re) (rt_anchor sv) = Inr (head_of (rt_writer sv))"

lemma quiet_replay:
  assumes "quiet re fs sv" and "we_validator (re_writer re) = None"
  shows "replay_journal re sv = (sv, Inr fs)"
proof -
  let ?w = "rt_writer sv"
  from assms(1) have inv: "journal_inv (re_writer re) ?w" and fs: "jw_frames ?w = fs" and rd: "ao_read (re_anchor re) (rt_anchor sv) = Inr (head_of ?w)"
    by (simp_all add: quiet_def)
  have l: "load_and_recover (re_writer re) (re_anchor re) (rt_anchor sv) (jw_key ?w) (jw_file ?w) = (jw_file ?w, Inr fs)"
    using load_stored [OF _ _ _ rd, of "re_writer re" "jw_key ?w" fs] inv fs assms(2)
    by (simp add: journal_inv_def blobs_published_def validate_blob_refs_def list_all_iff)
  have "filter (\<lambda>f. 1 \<le> tf_sequence f) fs = fs" using inv fs chain_all_positive by (auto simp: journal_inv_def)
  with l inv fs have "replay (re_writer re) (re_anchor re) ?w (rt_anchor sv) 1 = (?w, Inr fs)"
    by (auto simp: replay_def journal_inv_def bindE_Inr_iff)
  then show ?thesis by (simp add: replay_journal_def)
qed

lemma quiet_interfere:
  assumes "undisturbed re k" and "quiet re fs sv" and "rt_tick sv < k"
  obtains t where "interfere re sv = (t, Inr ())" "quiet re fs t" "rt_tick t = Suc (rt_tick sv)" "rt_calls t = rt_calls sv" "rt_world t = rt_world sv"
  using assms by (simp add: interfere_def undisturbed_def quiet_def)

lemma quiet_states:
  assumes "undisturbed re k" and "quiet re fs sv" and "rt_tick sv < k" and "rebuild_fire_projection (re_fire re) fs = Inr sts"
  obtains t where "service_states re sv = (t, Inr sts)" "quiet re fs t" "rt_tick t = Suc (rt_tick sv)" "rt_calls t = rt_calls sv" "rt_world t = rt_world sv"
proof -
  from quiet_interfere [OF assms(1-3)] obtain t where t: "interfere re sv = (t, Inr ())" "quiet re fs t" "rt_tick t = Suc (rt_tick sv)"
    "rt_calls t = rt_calls sv" "rt_world t = rt_world sv" .
  with quiet_replay [OF t(2)] assms show thesis
    by (intro that [of t]) (simp_all add: service_states_def fire_states_now_def bindA_def returnA_def undisturbed_def)
qed

lemma quiet_require:
  assumes "undisturbed re k" and "quiet re fs sv" and "rt_tick sv < k" and "rebuild_fire_projection (re_fire re) fs = Inr sts" and "dget sts i = Some s"
  obtains t where "require_fire re i sv = (t, Inr s)" "quiet re fs t" "rt_tick t = Suc (rt_tick sv)" "rt_calls t = rt_calls sv" "rt_world t = rt_world sv"
proof -
  from quiet_states [OF assms(1-4)] obtain t where t: "service_states re sv = (t, Inr sts)" "quiet re fs t" "rt_tick t = Suc (rt_tick sv)"
    "rt_calls t = rt_calls sv" "rt_world t = rt_world sv" .
  with assms(5) show thesis by (intro that [of t]) (simp_all add: require_fire_def bindA_def returnA_def)
qed

text \<open>A commit of well-formed events is anchored.\<close>

lemma list_all_dset: "list_all P d \<Longrightarrow> P (k, v) \<Longrightarrow> list_all P (dset d k v)"
  unfolding dset_def by (induction d) auto

lemma versions_current: "list_all (\<lambda>(k, e). e = version_of (jw_versions w) k) (get_aggregate_versions w ids)"
  "set (dkeys (get_aggregate_versions w ids)) = set ids"
proof -
  have "list_all (\<lambda>(k, e). e = version_of (jw_versions w) k) (foldl (\<lambda>m k. dset m k (version_of (jw_versions w) k)) m ids) \<and>
      set (dkeys (foldl (\<lambda>m k. dset m k (version_of (jw_versions w) k)) m ids)) = set (dkeys m) \<union> set ids"
    if "list_all (\<lambda>(k, e). e = version_of (jw_versions w) k) m" for m
    using that
  proof (induction ids arbitrary: m)
    case (Cons k ids)
    have "list_all (\<lambda>(k, e). e = version_of (jw_versions w) k) (dset m k (version_of (jw_versions w) k))"
      using Cons.prems by (rule list_all_dset) simp
    from Cons.IH [OF this] show ?case by (auto simp: dset_def dom_update)
  qed simp
  from this [of "[]"] show "list_all (\<lambda>(k, e). e = version_of (jw_versions w) k) (get_aggregate_versions w ids)"
    "set (dkeys (get_aggregate_versions w ids)) = set ids" by (simp_all add: get_aggregate_versions_def)
qed

lemma quiet_commit:
  assumes un: "undisturbed re k" and q: "quiet re fs sv" and k: "rt_tick sv < k" and ev: "events \<noteq> []" "list_all (event_made re) events"
  obtains t f where "commit_events re msg events sv = (t, Inr f)" "quiet re (fs @ [f]) t" "tf_events f = map norm_event events"
    "tf_sequence f = last_sequence fs + 1" "rt_tick t = Suc (rt_tick sv)" "rt_calls t = rt_calls sv" "rt_world t = rt_world sv"
proof -
  let ?we = "re_writer re" and ?w = "rt_writer sv" and ?io = "re_io re (rt_tick sv)"
  let ?head = "journal_head (re_frame re) ?w"
  let ?c = "\<lparr>cc_events = events, cc_expected = get_aggregate_versions ?w (remdups (map je_aggregate_id events)),
     cc_head_sequence = Some (fst ?head), cc_head_hash = Some (snd ?head), cc_tx_id = ji_tx_id ?io, cc_now = ji_now ?io\<rparr>"
  from un have ok: "retire_env_ok re" and dg: "digests_ok (re_frame re)" and fl: "floats_ok (re_frame re)" and v: "we_validator ?we = None"
    and ans: "anchor_answers (re_anchor re)" and ap: "ji_append ?io = Appended" using k by (auto simp: undisturbed_def retire_env_ok_def)
  from q have inv: "journal_inv ?we ?w" and w: "\<not> jw_write_disabled ?w" "\<not> jw_closed ?w" "jw_frames ?w = fs"
    and rd: "ao_read (re_anchor re) (rt_anchor sv) = Inr (head_of ?w)" by (simp_all add: quiet_def)
  from inv w(3) have seq: "jw_sequence ?w = last_sequence fs" and ph: "jw_previous_hash ?w = head_hash (re_frame re) fs"
    and ch: "chain (re_frame re) GENESIS_HASH 1 fs" by (simp_all add: journal_inv_def)
  have pos: "0 \<le> last_sequence fs" "last_sequence fs = 0 \<longleftrightarrow> fs = []" using chain_last [OF ch] by auto
  have ck: "commit_checks ?we ?w ?c = Inr ()"
    using w v ev(1) versions_current [of ?w] seq ph pos
    by (simp add: commit_checks_def ensure_writable_def validate_blob_refs_def journal_head_def get_last_frame_def last_sequence_def head_hash_def)
  obtain f where f: "seal (re_frame re) (commit_args ?w ?c) (jw_key ?w) = Inr f" "sealed_as (re_frame re) (commit_args ?w ?c) (jw_key ?w) f"
    "journal_inv ?we (commit_durable (re_frame re) ?w ?c f)" "tf_sequence f = jw_sequence ?w + 1" "tf_previous_hash f = jw_previous_hash ?w"
    by (rule commit_seals [OF inv dg ck commit_call_ok [OF ok ev(2)] fl])
  let ?v = "commit_durable (re_frame re) ?w ?c f"
  have hash: "valid_hash_str (jw_previous_hash ?w)" "valid_hash_str (frame_hash (re_frame re) f)"
    using dg unfolding ph by (auto simp: digests_ok_def head_hash_def frame_hash_def record_hash_def)
  from ans rd pos(1) seq hash obtain a where a: "ao_cas (re_anchor re) (rt_anchor sv) (ji_anchor ?io) (jw_sequence ?w) (jw_previous_hash ?w)
      (jw_sequence ?w + 1) (frame_hash (re_frame re) f) = (a, Inr True)" "ao_read (re_anchor re) a = Inr \<lparr>an_sequence = jw_sequence ?w + 1, an_frame_hash = frame_hash (re_frame re) f\<rparr>"
    unfolding anchor_answers_def head_of_def by fastforce
  have c: "commit ?we (re_anchor re) ?w (rt_anchor sv) ?c Appended (ji_anchor ?io) = (?v, a, Inr (f, ANCHORED))"
    using commit_appended [OF ck f(1), of "re_anchor re" "rt_anchor sv" "ji_anchor ?io" a "Inr True"] a(1) f(4,5) by simp
  let ?t = "sv\<lparr>rt_writer := ?v, rt_anchor := a, rt_tick := Suc (rt_tick sv)\<rparr>"
  show thesis
  proof (rule that [of ?t f])
    show "commit_events re msg events sv = (?t, Inr f)" using c ap by (simp add: commit_events_def Let_def)
    show "quiet re (fs @ [f]) ?t" using f(3,4) a(2) w by (simp add: quiet_def commit_durable_def head_of_def)
    show "tf_events f = map norm_event events" using sealed_frame_fields(5) [OF f(2)] by (simp add: commit_args_def)
  qed (simp_all add: f(4) seq)
qed

section \<open>Transitions\<close>

definition moved :: "durable_fire_state \<Rightarrow> string \<Rightarrow> fire_effect_state \<Rightarrow> int \<Rightarrow> durable_fire_state" where
  "moved s n st q = s\<lparr>fs_effects := with_effect (fs_effects s) n st, fs_error_code := [], fs_last_sequence := q\<rparr>"

lemma reduce_moved:
  assumes "dget sts i = Some s" "fs_phase s = FP_RETIRING" "n \<in> set FIRE_EFFECT_ORDER" "effect_state s n = fire_predecessor st" "st \<noteq> FE_ACTION_REQUIRED"
    and "je_event_type ev = ''fire.effect.'' @ fire_effect_state_value st" "je_aggregate_id ev = i" "je_payload ev = [(''effect_type'', PStr n)]"
  shows "reduce_fire env sts (q, norm_event ev) = Inr (dset sts i (moved s n st q))"
proof -
  have p: "je_payload (norm_event ev) = [(''effect_type'', PStr n)]" using assms(8) by (simp add: norm_event_def sorted_items_def json_sorted.simps)
  then have n: "fire_effect_type (je_payload (norm_event ev)) = Some n" "fire_error_text env (je_payload (norm_event ev)) = []"
    using assms(3) by (simp_all add: fire_effect_type_Some field_of_def fire_error_text_def Let_def)
  have "je_event_type (norm_event ev) = ''fire.effect.'' @ fire_effect_state_value st" using assms(6) by (simp add: norm_event_def)
  then have "fire_later env s (norm_event ev) q = fire_effect_event env s (fire_effect_state_value st) (je_payload (norm_event ev)) q"
    using assms(2) by (cases st) (simp_all add: fire_later_def Let_def starts_with_def)
  also have "\<dots> = Inr (moved s n st q)"
    unfolding fire_effect_event_def n using p assms(4,5) by (simp add: fire_effect_state_enum.of_value moved_def)
  finally have "fire_later env s (norm_event ev) q = Inr (moved s n st q)" .
  with assms(1,6,7) show ?thesis by (cases st) (simp_all add: reduce_fire_def Let_def norm_event_def starts_with_def)
qed

lemma effect_names_text: "n \<in> set FIRE_EFFECT_ORDER \<Longrightarrow> utf8_ok n"
  by (auto simp: FIRE_EFFECT_ORDER_def utf8_simps)

lemma quiet_new_event:
  assumes "undisturbed re k" and "ty \<noteq> []" "utf8_ok ty" "i \<noteq> []" "utf8_ok i" "n \<in> set FIRE_EFFECT_ORDER"
  obtains ev where "new_event re ty i [(''effect_type'', PStr n)] sv = (sv\<lparr>rt_tick := Suc (rt_tick sv)\<rparr>, Inr ev)" "event_made re ev"
    "je_event_type ev = ty" "je_aggregate_id ev = i" "je_payload ev = [(''effect_type'', PStr n)]"
proof -
  obtain body where "json_text (fe_repr (re_frame re)) (PDict [(''effect_type'', PStr n)]) = Some body" by (simp add: json_text.simps json_item_def)
  with assms(2,4) obtain e where e: "event_init (re_frame re) (PStr ty) (PStr i) (PDict [(''effect_type'', PStr n)]) (PFloat (Fin (re_time re (rt_tick sv)))) (PStr []) = Inr e"
    "je_event_type e = ty" "je_aggregate_id e = i" "je_payload e = [(''effect_type'', PStr n)]"
    by (auto simp: event_init_def canonical_json_def Let_def neq_Nil_conv)
  have "event_text e" using e assms effect_names_text by (simp add: event_text_def dict_ok_def utf8_simps)
  with e(1) event_init_ok [OF e(1)] show thesis by (intro that [of e]) (simp_all add: new_event_def event_made_def e)
qed

lemma quiet_transition:
  assumes un: "undisturbed re k" and q: "quiet re fs sv" and k: "rt_tick sv + 4 \<le> k" and r: "rebuild_fire_projection (re_fire re) fs = Inr sts"
    and s: "dget sts i = Some s" "fs_phase s = FP_RETIRING" "i \<noteq> []" "utf8_ok i"
    and n: "n \<in> set FIRE_EFFECT_ORDER" "effect_state s n = fire_predecessor st" "st \<noteq> FE_ACTION_REQUIRED"
  obtains t f where "fire_transition re i n st [] sv = (t, Inr ())" "quiet re (fs @ [f]) t"
    "rebuild_fire_projection (re_fire re) (fs @ [f]) = Inr (dset sts i (moved s n st (last_sequence fs + 1)))"
    "rt_tick t = rt_tick sv + 4" "rt_calls t = rt_calls sv" "rt_world t = rt_world sv"
proof -
  let ?ty = "''fire.effect.'' @ fire_effect_state_value st"
  have "utf8_ok ?ty" by (cases st) (simp_all add: utf8_simps)
  from quiet_new_event [OF un _ this s(3,4) n(1), of sv] obtain ev where ev: "new_event re ?ty i [(''effect_type'', PStr n)] sv = (sv\<lparr>rt_tick := Suc (rt_tick sv)\<rparr>, Inr ev)"
    "event_made re ev" "je_event_type ev = ?ty" "je_aggregate_id ev = i" "je_payload ev = [(''effect_type'', PStr n)]" by auto
  let ?u = "sv\<lparr>rt_tick := Suc (rt_tick sv)\<rparr>"
  have "quiet re fs ?u" "rt_tick ?u < k" using q k by (simp_all add: quiet_def)
  from quiet_interfere [OF un this] obtain v where v: "interfere re ?u = (v, Inr ())" "quiet re fs v" "rt_tick v = rt_tick sv + 2"
    "rt_calls v = rt_calls sv" "rt_world v = rt_world sv" by auto
  have "rt_tick v < k" "list_all (event_made re) [ev]" using v(3) k ev(2) by simp_all
  from quiet_commit [OF un v(2) this(1) _ this(2), of "''fire transition was not anchored''"] obtain w f where
    w: "commit_events re ''fire transition was not anchored'' [ev] v = (w, Inr f)" "quiet re (fs @ [f]) w" "tf_events f = [norm_event ev]"
      "tf_sequence f = last_sequence fs + 1" "rt_tick w = Suc (rt_tick v)" "rt_calls w = rt_calls v" "rt_world w = rt_world v"
    by auto
  have r': "rebuild_fire_projection (re_fire re) (fs @ [f]) = Inr (dset sts i (moved s n st (last_sequence fs + 1)))"
    using r reduce_moved [OF s(1,2) n ev(3-5)] w(3,4)
    by (simp add: rebuild_fire_projection_def sequenced_append foldE_append) (simp add: sequenced_def)
  have "rt_tick w < k" using w(5) v(3) k by simp
  from quiet_states [OF un w(2) this r'] obtain t where t: "service_states re w = (t, Inr (dset sts i (moved s n st (last_sequence fs + 1))))"
    "quiet re (fs @ [f]) t" "rt_tick t = Suc (rt_tick w)" "rt_calls t = rt_calls w" "rt_world t = rt_world w" .
  have "fire_transition re i n st [] sv = (t, Inr ())"
    using ev(1) v(1) w(1) t(1) by (simp add: fire_transition_def commit_event_def bindA_def returnA_def)
  then show thesis using that [OF _ t(2) r'] t(3-5) w(5-7) v(3-5) by simp
qed

end
