(* ===== verification/Fire_Safety.thy ===== *)
theory Fire_Safety
  imports Fire_Quiet
begin

text \<open>
  What the retirement service does in every run: its operations in any order, restarts, other services committing in between, commits that
  fail at any byte. The invariant ties the calls of the cleanup ports to the starts on disk; each operation is a triple that keeps it. The locale
  \<open>fire_authority\<close> is the contract of the interface \<open>FireAuthority\<close>, and the authority over the journal interprets it.
\<close>

section \<open>What the service relies on\<close>

text \<open>
  The contract of an authority: whatever it does, the journal only grows and no cleanup port is called.
\<close>

locale fire_authority =
  fixes re :: "('a, 'io, 'g, 'w) retire_env" and au :: "('a, 'g, 'w) fire_authority_ops"
  assumes authorize: "retire_env_ok re \<Longrightarrow> evolving re (fa_authorize au q)"
    and resolves: "retire_env_ok re \<Longrightarrow> evolving re (fa_resolve au q)"
    and admits: "retire_env_ok re \<Longrightarrow> evolving re (fa_admit au q t i)"
    and marks_action_required: "retire_env_ok re \<Longrightarrow> evolving re (fa_mark_action_required au a)"
    and confirms: "retire_env_ok re \<Longrightarrow> evolving re (fa_confirm au q s ref)"
    and marks_destroyed: "retire_env_ok re \<Longrightarrow> evolving re (fa_mark_credential_destroyed au t)"
    and marks_archived: "retire_env_ok re \<Longrightarrow> evolving re (fa_mark_archived au a i c)"

interpretation journal_authority: fire_authority re "journal_fire_authority re"
  by unfold_locales
    (simp_all add: journal_fire_authority_def does_authorize does_resolve does_admit does_confirm does_mark_credential_destroyed does_mark_archived
      mark_action_required_def does_commit_employee_state)

section \<open>The journal and the calls\<close>

abbreviation shown_disk :: "('a, 'io, 'g, 'w) retire_env \<Rightarrow> ('a, 'g, 'w) retire_state \<Rightarrow> transaction_frame list" where
  "shown_disk re sv \<equiv> disk (re_writer re) (rt_writer sv)"

definition accepted :: "('a, 'io, 'g, 'w) retire_env \<Rightarrow> ('a, 'g, 'w) retire_state \<Rightarrow> fire_states \<Rightarrow> bool" where
  "accepted re sv sts \<longleftrightarrow> rebuild_fire_projection (re_fire re) (shown_disk re sv) = Inr sts"

text \<open>What the journal says of a request in every state it can be read in.\<close>

definition knows :: "('a, 'io, 'g, 'w) retire_env \<Rightarrow> string \<Rightarrow> (durable_fire_state \<Rightarrow> bool) \<Rightarrow> ('a, 'g, 'w) retire_state \<Rightarrow> bool" where
  "knows re i \<phi> sv \<longleftrightarrow> (\<forall>sts. accepted re sv sts \<longrightarrow> (\<exists>s. dget sts i = Some s \<and> \<phi> s))"

definition lasting :: "(durable_fire_state \<Rightarrow> bool) \<Rightarrow> bool" where
  "lasting \<phi> \<longleftrightarrow> (\<forall>s t. fire_state_kept s t \<and> \<phi> s \<longrightarrow> \<phi> t)"

definition stable :: "('a, 'io, 'g, 'w) retire_env \<Rightarrow> (('a, 'g, 'w) retire_state \<Rightarrow> bool) \<Rightarrow> bool" where
  "stable re K \<longleftrightarrow> (\<forall>s t. grows (re_writer re) (rt_writer s) (rt_writer t) \<and> K s \<longrightarrow> K t)"

lemma knows_stable:
  fixes re :: "('a, 'io, 'g, 'w) retire_env"
  assumes "lasting \<phi>"
  shows "stable re (knows re i \<phi>)"
  unfolding stable_def
proof (intro allI impI, elim conjE)
  fix s t :: "('a, 'g, 'w) retire_state"
  assume g: "grows (re_writer re) (rt_writer s) (rt_writer t)" and k: "knows re i \<phi> s"
  show "knows re i \<phi> t" unfolding knows_def
  proof (intro allI impI)
    fix ts assume "accepted re t ts"
    then obtain sts where "foldE (reduce_fire (re_fire re)) [] (sequenced (shown_disk re s)) = Inr sts" "fire_kept sts ts"
      using fire_log.rebuilt_later [OF g] unfolding accepted_def rebuild_fire_projection_def by blast
    then show "\<exists>u. dget ts i = Some u \<and> \<phi> u"
      using k assms unfolding knows_def accepted_def rebuild_fire_projection_def fire_kept_def lasting_def by metis
  qed
qed

lemma stable_conj: "stable re K \<Longrightarrow> stable re L \<Longrightarrow> stable re (\<lambda>s. K s \<and> L s)"
  by (auto simp: stable_def)

lemma stable_all: "(\<And>n. n \<in> N \<Longrightarrow> stable re (K n)) \<Longrightarrow> stable re (\<lambda>s. \<forall>n\<in>N. K n s)"
  unfolding stable_def by blast

lemma stable_True: "stable re (\<lambda>s. True)"
  by (simp add: stable_def)

definition calls_of :: "string \<Rightarrow> string \<Rightarrow> (string \<times> durable_fire_state) list \<Rightarrow> nat" where
  "calls_of i n cs = length (filter (\<lambda>(m, s). m = n \<and> fs_intent_id s = i) cs)"

text \<open>
  A cleanup may run when those before it are done, when the service has authority over the resources or only archives the
  employee's files, and, for resources nobody has authority over, when their disposition was confirmed.
\<close>

definition call_justified :: "string \<Rightarrow> durable_fire_state \<Rightarrow> bool" where
  "call_justified n s \<longleftrightarrow> n \<in> set FIRE_EFFECT_ORDER \<and>
     list_all (\<lambda>m. effect_state s m = Some FE_COMMITTED) (takeWhile (\<lambda>m. m \<noteq> n) FIRE_EFFECT_ORDER) \<and>
     (no_authority s \<longrightarrow> n = ''archive_move'') \<and> (fs_cleanup_mode s = CM_EXTERNAL_UNKNOWN \<longrightarrow> fs_external_disposition_confirmed s)"

definition retire_inv :: "('a, 'io, 'g, 'w) retire_env \<Rightarrow> ('a, 'g, 'w) retire_state \<Rightarrow> bool" where
  "retire_inv re sv \<longleftrightarrow> log_ok (re_writer re) (rt_writer sv) \<and>
     (\<forall>i n. calls_of i n (rt_calls sv) \<le> 1 \<and> calls_of i n (rt_calls sv) \<le> starts i n (sequenced (shown_disk re sv))) \<and>
     list_all (\<lambda>(n, s). call_justified n s) (rt_calls sv)"

lemma starts_grow: "grows we w w' \<Longrightarrow> starts i n (sequenced (disk we w)) \<le> starts i n (sequenced (disk we w'))"
  by (auto simp: grows_def prefix_def sequenced_append)

lemma retire_inv_evolves:
  assumes "evolves re s t" and inv: "retire_inv re s"
  shows "retire_inv re t"
proof -
  from assms have g: "grows (re_writer re) (rt_writer s) (rt_writer t)" and c: "rt_calls t = rt_calls s" by (auto simp: retire_inv_def evolves_def)
  have "calls_of i n (rt_calls t) \<le> starts i n (sequenced (shown_disk re t))" for i n
    using inv starts_grow [OF g, of i n] unfolding retire_inv_def c by (meson le_trans)
  with inv grows_ok [OF g] c show ?thesis by (simp add: retire_inv_def)
qed

definition during :: "('a, 'io, 'g, 'w) retire_env \<Rightarrow> (('a, 'g, 'w) retire_state \<Rightarrow> bool) \<Rightarrow> ('a, 'g, 'w) retire_state \<Rightarrow> bool" where
  "during re K sv \<longleftrightarrow> retire_inv re sv \<and> K sv"

definition safely :: "('a, 'io, 'g, 'w) retire_env \<Rightarrow> retire_exn \<Rightarrow> ('a, 'g, 'w) retire_state \<Rightarrow> bool" where
  "safely re x sv \<longleftrightarrow> retire_inv re sv \<and> proper x"

lemma during_evolves: "stable re K \<Longrightarrow> evolves re s t \<Longrightarrow> during re K s \<Longrightarrow> during re K t"
  using retire_inv_evolves unfolding during_def stable_def evolves_def retire_inv_def by blast

lemma evolving_triple:
  assumes "does (evolves re) proper m Q" and "stable re K"
  shows "triple (during re K) m (\<lambda>r t. during re K t \<and> Q r) (safely re)"
proof (rule tripleI)
  fix s t r assume s: "during re K s" and m: "m s = (t, Inr r)"
  from during_evolves [OF assms(2) doesD(1) [OF assms(1) m] s] doesD(2) [OF assms(1) m] show "during re K t \<and> Q r" by blast
next
  fix s t x assume s: "during re K s" and m: "m s = (t, Inl x)"
  from during_evolves [OF assms(2) doesD(1) [OF assms(1) m] s] doesD(3) [OF assms(1) m] show "safely re x t"
    by (simp add: safely_def during_def)
qed

section \<open>Steps of the service\<close>

lemma does_service_states: "retire_env_ok re \<Longrightarrow> evolving re (service_states re)"
  unfolding service_states_def by (intro evolution.bind [OF does_interfere] does_states)

lemma does_require: "retire_env_ok re \<Longrightarrow> evolving re (require_fire re i)"
  unfolding require_fire_def by (intro evolution.bind [OF does_service_states] evolution.branch does_raise evolution.simple(1) TrueI)

lemma does_commit_event: "retire_env_ok re \<Longrightarrow> evolving re (commit_event re ty i p)"
  unfolding commit_event_def
  by (intro evolution.bind [OF does_new_event] evolution.bind [OF does_interfere] evolution.bind [OF does_commit] evolution.bind [OF does_service_states]
      evolution.simple(1) TrueI) simp_all

lemma does_transition: "retire_env_ok re \<Longrightarrow> evolving re (fire_transition re i n st c)"
  unfolding fire_transition_def by (rule does_commit_event)

lemma states_accepted:
  assumes "fire_states_now re s = (t, Inr sts)" and "log_ok (re_writer re) (rt_writer s)"
  shows "accepted re t sts"
proof -
  from assms(1) obtain w fs where r: "replay (re_writer re) (re_anchor re) (rt_writer s) (rt_anchor s) 1 = (w, Inr fs)"
    and t: "t = s\<lparr>rt_writer := w\<rparr>" "rebuild_fire_projection (re_fire re) fs = Inr sts"
    by (auto simp: fire_states_now_def replay_journal_def bindA_def raiseA_def returnA_def split: prod.splits sum.splits)
  with replay_log(2,3) [OF r assms(2)] show ?thesis by (simp add: accepted_def)
qed

text \<open>After a read, the journal holds exactly what was read.\<close>

lemma service_states_triple:
  assumes "retire_env_ok re" and "stable re K"
  shows "triple (during re K) (service_states re) (\<lambda>sts t. during re K t \<and> accepted re t sts) (safely re)"
  unfolding service_states_def
proof (rule triple_bind [OF evolving_triple [OF does_interfere [OF assms(1)] assms(2)]], rule tripleI)
  fix s t r sts assume "during re K s \<and> True" and "fire_states_now re s = (t, Inr sts)"
  with evolving_triple [OF does_states assms(2)] states_accepted show "during re K t \<and> accepted re t sts"
    by (auto dest: tripleD(1) simp: during_def retire_inv_def)
next
  fix s t r x assume "during re K s \<and> True" and "fire_states_now re s = (t, Inl x)"
  with evolving_triple [OF does_states assms(2)] show "safely re x t" by (auto dest: tripleD(2))
qed

definition shows_request :: "('a, 'io, 'g, 'w) retire_env \<Rightarrow> string \<Rightarrow> durable_fire_state \<Rightarrow> ('a, 'g, 'w) retire_state \<Rightarrow> bool" where
  "shows_request re i s sv \<longleftrightarrow> (\<exists>sts. accepted re sv sts \<and> dget sts i = Some s)"

lemma require_triple:
  assumes "retire_env_ok re" and "stable re K"
  shows "triple (during re K) (require_fire re i) (\<lambda>s t. during re K t \<and> shows_request re i s t) (safely re)"
  unfolding require_fire_def
proof (rule triple_bind [OF service_states_triple [OF assms]], rule triple_option)
  fix sts
  show "triple (\<lambda>t. during re K t \<and> accepted re t sts) (raise_fire ''unknown fire request'') (\<lambda>s t. during re K t \<and> shows_request re i s t) (safely re)"
    by (rule tripleI) (auto simp: raise_fire_def raiseA_def safely_def during_def proper_def)
next
  fix sts :: fire_states and s assume "dget sts i = Some s"
  then show "triple (\<lambda>t. during re K t \<and> accepted re t sts) (returnA s) (\<lambda>s t. during re K t \<and> shows_request re i s t) (safely re)"
    by (auto simp: triple_def returnA_def shows_request_def)
qed

lemma knows_shown: "knows re i \<phi> sv \<Longrightarrow> shows_request re i s sv \<Longrightarrow> \<phi> s"
  unfolding knows_def shows_request_def accepted_def by auto

lemma shown_known: "shows_request re i s sv \<Longrightarrow> \<phi> s \<Longrightarrow> knows re i \<phi> sv"
  unfolding knows_def shows_request_def accepted_def by auto

lemma shown_intent: "shows_request re i s sv \<Longrightarrow> fs_intent_id s = i"
  using fire_log.rebuilt_invar unfolding shows_request_def accepted_def rebuild_fire_projection_def fire_inv_def fire_ok_def by blast

lemma shown_started_once: "shows_request re i s sv \<Longrightarrow> starts j n (sequenced (shown_disk re sv)) \<le> 1"
  unfolding shows_request_def accepted_def by (blast intro: started_once)

section \<open>Recording a transition\<close>

lemma new_event_fields: "new_event re ty i p s = (t, Inr ev) \<Longrightarrow> je_event_type ev = ty \<and> je_aggregate_id ev = i \<and> je_payload ev = p"
  by (auto simp: new_event_def event_init_def bindE_Inr_iff Let_def split: sum.splits if_splits elim!: nonempty_str.elims)

lemma transition_recorded:
  assumes "je_event_type ev = ''fire.effect.'' @ fire_effect_state_value st" "je_aggregate_id ev = i"
    "je_payload ev = (''effect_type'', PStr n) # (if c = [] then [] else [(''error_code'', PStr c)])"
  shows "effect_recorded i n st (norm_event ev)"
proof -
  have "field_of (sorted_items (je_payload ev)) ''effect_type'' = json_sorted (field_of (je_payload ev) ''effect_type'')"
    by (rule field_of_sorted_items) (simp_all add: assms(3) dict_ok_def)
  then have "field_of (sorted_items (je_payload ev)) ''effect_type'' = PStr n" by (simp add: assms(3) field_of_def json_sorted.simps)
  with assms show ?thesis by (simp add: effect_recorded_def norm_event_def)
qed

lemma commit_added:
  assumes "commit_events re msg events s = (t, Inr f)" and "retire_env_ok re" "list_all (event_made re) events" "log_ok (re_writer re) (rt_writer s)"
  shows "shown_disk re t = shown_disk re s @ [f]" and "tf_events f = map norm_event events" and "rt_calls t = rt_calls s"
proof -
  let ?io = "re_io re (rt_tick s)" and ?head = "journal_head (re_frame re) (rt_writer s)"
  obtain w a r where r: "commit (re_writer re) (re_anchor re) (rt_writer s) (rt_anchor s)
      \<lparr>cc_events = events, cc_expected = get_aggregate_versions (rt_writer s) (remdups (map je_aggregate_id events)),
       cc_head_sequence = Some (fst ?head), cc_head_hash = Some (snd ?head), cc_tx_id = ji_tx_id ?io, cc_now = ji_now ?io\<rparr>
      (ji_append ?io) (ji_anchor ?io) = (w, a, r)" by (rule prod_cases3)
  with assms(1) have t: "rt_writer t = w" "rt_calls t = rt_calls s" and "\<exists>st. r = Inr (f, st)"
    by (auto simp: commit_events_def Let_def split: sum.splits commit_state.splits)
  moreover from assms(2) have "digests_ok (re_frame re)" "floats_ok (re_frame re)" by (simp_all add: retire_env_ok_def)
  ultimately have "shown_disk re t = shown_disk re s @ [f] \<and> tf_events f = map norm_event events"
    using commit_log [OF r assms(4) _ _ commit_call_ok [OF assms(2,3)]] by auto
  with t show "shown_disk re t = shown_disk re s @ [f]" "tf_events f = map norm_event events" "rt_calls t = rt_calls s" by simp_all
qed

text \<open>A transition that returns is in the journal; one to \<open>executing\<close> is one more start than there were calls.\<close>

definition entered :: "('a, 'io, 'g, 'w) retire_env \<Rightarrow> string \<Rightarrow> string \<Rightarrow> fire_effect_state \<Rightarrow> ('a, 'g, 'w) retire_state \<Rightarrow> bool" where
  "entered re i n st sv \<longleftrightarrow> recorded (effect_recorded i n st) (sequenced (shown_disk re sv)) \<and>
     (st = FE_EXECUTING \<longrightarrow> calls_of i n (rt_calls sv) < starts i n (sequenced (shown_disk re sv)))"

lemma entered_evolves:
  assumes "evolves re s t" and "log_ok (re_writer re) (rt_writer s)" and "entered re i n st s"
  shows "entered re i n st t"
proof -
  from assms(1,2) have g: "grows (re_writer re) (rt_writer s) (rt_writer t)" and c: "rt_calls t = rt_calls s" by (simp_all add: evolves_def)
  have "recorded P (sequenced (shown_disk re s)) \<Longrightarrow> recorded P (sequenced (shown_disk re t))" for P
    using g by (auto simp: grows_def prefix_def sequenced_append recorded_def)
  with assms(3) starts_grow [OF g, of i n] c show ?thesis by (auto simp: entered_def)
qed

lemma entered_frame:
  assumes m: "does (evolves re) proper m Q" and K: "stable re K"
  shows "triple (\<lambda>s. during re K s \<and> entered re i n st s) m (\<lambda>r t. during re K t \<and> entered re i n st t \<and> Q r) (safely re)"
proof (rule tripleI)
  fix s t r assume s: "during re K s \<and> entered re i n st s" and r: "m s = (t, Inr r)"
  from s have "log_ok (re_writer re) (rt_writer s)" by (simp add: during_def retire_inv_def)
  with during_evolves [OF K doesD(1) [OF m r]] entered_evolves [OF doesD(1) [OF m r]] s doesD(2) [OF m r]
  show "during re K t \<and> entered re i n st t \<and> Q r" by blast
next
  fix s t x assume "during re K s \<and> entered re i n st s" and x: "m s = (t, Inl x)"
  with tripleD(2) [OF evolving_triple [OF m K] _ x] show "safely re x t" by blast
qed

lemma commit_enters:
  assumes "commit_events re msg [ev] s = (t, Inr f)" and "retire_env_ok re" "event_made re ev" and inv: "retire_inv re s"
    and ev: "effect_recorded i n st (norm_event ev)"
  shows "entered re i n st t"
proof -
  note added = commit_added [OF assms(1,2), simplified, OF assms(3)]
  from inv have ok: "log_ok (re_writer re) (rt_writer s)" "calls_of i n (rt_calls s) \<le> starts i n (sequenced (shown_disk re s))"
    by (simp_all add: retire_inv_def)
  with added [OF ok(1)] have seq: "sequenced (shown_disk re t) = sequenced (shown_disk re s) @ [(tf_sequence f, norm_event ev)]" "rt_calls t = rt_calls s"
    by (simp_all add: sequenced_append) (simp add: sequenced_def)
  with ev ok(2) show ?thesis by (auto simp: entered_def executing_recorded)
qed

lemma transition_triple:
  assumes ok: "retire_env_ok re" and K: "stable re K"
  shows "triple (during re K) (fire_transition re i n st c) (\<lambda>_ t. during re K t \<and> entered re i n st t) (safely re)"
proof -
  let ?p = "(''effect_type'', PStr n) # (if c = [] then [] else [(''error_code'', PStr c)])"
  let ?ev = "\<lambda>ev. event_made re ev \<and> effect_recorded i n st (norm_event ev)"
  have "does (evolves re) proper (new_event re (''fire.effect.'' @ fire_effect_state_value st) i ?p) ?ev"
  proof (rule doesI)
    fix s t ev assume e: "new_event re (''fire.effect.'' @ fire_effect_state_value st) i ?p s = (t, Inr ev)"
    from new_event_fields [OF e] show "?ev ev" using doesD(2) [OF does_new_event e] by (blast intro: transition_recorded)
  qed (erule doesD(1) [OF does_new_event], erule doesD(3) [OF does_new_event])
  note made = evolving_triple [OF this K]
  have wrote: "triple (\<lambda>t. during re K t \<and> ?ev ev) (commit_events re msg [ev]) (\<lambda>_ t. during re K t \<and> entered re i n st t) (safely re)" for ev msg
  proof (rule tripleI)
    fix s t f assume s: "during re K s \<and> ?ev ev" and c: "commit_events re msg [ev] s = (t, Inr f)"
    from s have "triple (during re K) (commit_events re msg [ev]) (\<lambda>r t. during re K t \<and> True) (safely re)"
      by (intro evolving_triple does_commit ok K) simp
    from tripleD(1) [OF this _ c] s commit_enters [OF c ok] show "during re K t \<and> entered re i n st t" by (auto simp: during_def)
  next
    fix s t x assume s: "during re K s \<and> ?ev ev" and c: "commit_events re msg [ev] s = (t, Inl x)"
    from s have "triple (during re K) (commit_events re msg [ev]) (\<lambda>r t. during re K t \<and> True) (safely re)"
      by (intro evolving_triple does_commit ok K) simp
    from tripleD(2) [OF this _ c] s show "safely re x t" by blast
  qed
  have read: "triple (\<lambda>t. during re K t \<and> entered re i n st t) (bindA (service_states re) (\<lambda>_. returnA ())) (\<lambda>_ t. during re K t \<and> entered re i n st t) (safely re)"
    by (rule triple_post [OF entered_frame [OF _ K, where Q = any_result]]) (auto intro: evolution.bind does_service_states ok evolution.simple)
  show ?thesis unfolding fire_transition_def commit_event_def
  proof (rule triple_bind [OF made], rule triple_bind [OF _ triple_bind [OF wrote read]])
    fix ev
    show "triple (\<lambda>t. during re K t \<and> ?ev ev) (interfere re) (\<lambda>_ t. during re K t \<and> ?ev ev) (safely re)"
      using tripleD [OF evolving_triple [OF does_interfere [OF ok] K]] by (intro tripleI) blast+
  qed
qed

lemma committed_known: "entered re i n FE_COMMITTED sv \<Longrightarrow> knows re i (\<lambda>s. n \<in> set FIRE_EFFECT_ORDER \<and> effect_state s n = Some FE_COMMITTED) sv"
  unfolding entered_def knows_def accepted_def rebuild_fire_projection_def using committed_shown by blast

lemma committed_lasting: "lasting (\<lambda>s. n \<in> set FIRE_EFFECT_ORDER \<and> effect_state s n = Some FE_COMMITTED)"
  by (auto simp: lasting_def fire_state_kept_def)

abbreviation effect_done :: "('a, 'io, 'g, 'w) retire_env \<Rightarrow> string \<Rightarrow> string \<Rightarrow> ('a, 'g, 'w) retire_state \<Rightarrow> bool" where
  "effect_done re i n \<equiv> knows re i (\<lambda>s. n \<in> set FIRE_EFFECT_ORDER \<and> effect_state s n = Some FE_COMMITTED)"

lemmas done_stable = knows_stable [OF committed_lasting]

lemma triple_assume: "(\<And>s. P s \<Longrightarrow> triple P m Q E) \<Longrightarrow> triple P m Q E"
  by (fastforce simp: triple_def)

lemma triple_try: "triple P m R E' \<Longrightarrow> (\<And>x. triple (E' x) (h x) Q E) \<Longrightarrow> (\<And>r. triple (R r) (f r) Q E) \<Longrightarrow> triple P (tryA m h f) Q E"
  unfolding triple_def tryA_def by (fastforce split: prod.splits sum.splits)

section \<open>Running the cleanups\<close>

text \<open>The one place where a port is called: after the start was recorded and read back.\<close>

lemma execute_triple:
  assumes "stable re K" and just: "\<And>sv. K sv \<Longrightarrow> shows_request re i s sv \<Longrightarrow> call_justified n s"
  shows "triple (\<lambda>t. during re K t \<and> entered re i n FE_EXECUTING t \<and> shows_request re i s t) (execute_effect re s n) (\<lambda>_. during re K) (safely re)"
proof (rule tripleI)
  fix sv t r assume sv: "during re K sv \<and> entered re i n FE_EXECUTING sv \<and> shows_request re i s sv" and e: "execute_effect re s n sv = (t, Inr r)"
  from e have t: "rt_writer t = rt_writer sv" "rt_calls t = rt_calls sv @ [(n, s)]" by (auto simp: execute_effect_def modifyA_def)
  from sv have inv: "retire_inv re sv" and k: "K sv" by (simp_all add: during_def)
  from inv have "grows (re_writer re) (rt_writer sv) (rt_writer t)" by (simp add: t(1) retire_inv_def grows_refl)
  with assms(1) k have kt: "K t" unfolding stable_def by blast
  from sv have "calls_of i n (rt_calls sv) < starts i n (sequenced (shown_disk re sv))" "starts i n (sequenced (shown_disk re sv)) \<le> 1"
    by (auto simp: entered_def intro: shown_started_once simp del: One_nat_def)
  then have fresh: "calls_of i n (rt_calls sv) = 0" "starts i n (sequenced (shown_disk re sv)) = 1" by simp_all
  have "calls_of j m (rt_calls t) = calls_of j m (rt_calls sv) + of_bool (m = n \<and> j = i)" for j m
    using sv shown_intent [of re i s sv] by (auto simp: t(2) calls_of_def)
  with inv t(1) fresh have "\<forall>j m. calls_of j m (rt_calls t) \<le> 1 \<and> calls_of j m (rt_calls t) \<le> starts j m (sequenced (shown_disk re t))"
    by (simp add: retire_inv_def)
  with inv t just [OF k] sv kt show "during re K t" by (simp add: during_def retire_inv_def)
qed (simp add: execute_effect_def modifyA_def)

lemma does_observe: "evolving re (observe_effect re s n)"
  by (rule doesI) (auto simp: observe_effect_def evolves_def grows_refl split: prod.splits)

text \<open>What the loop knows of the request: these cleanups are done, and its mode allows to go on.\<close>

definition going_on :: "('a, 'io, 'g, 'w) retire_env \<Rightarrow> string \<Rightarrow> string set \<Rightarrow> fire_cleanup_mode \<Rightarrow> ('a, 'g, 'w) retire_state \<Rightarrow> bool" where
  "going_on re i C m sv \<longleftrightarrow> (\<forall>n\<in>C. effect_done re i n sv) \<and>
     knows re i (\<lambda>s. fs_cleanup_mode s = m \<and> (m = CM_EXTERNAL_UNKNOWN \<longrightarrow> fs_external_disposition_confirmed s)) sv"

lemma going_on_stable: "stable re (going_on re i C m)"
  unfolding going_on_def
  by (intro stable_conj stable_all done_stable knows_stable) (auto simp: lasting_def fire_state_kept_def fire_identity_def)

lemma going_on_justified:
  assumes "going_on re i C m sv" and "shows_request re i s sv" and "FIRE_EFFECT_ORDER = pre @ n # ns" and "set pre \<subseteq> C" and "no_authority s \<longrightarrow> n = ''archive_move''"
  shows "call_justified n s"
proof -
  have "distinct (pre @ n # ns)" by (simp add: FIRE_EFFECT_ORDER_def flip: assms(3))
  then have "takeWhile (\<lambda>m. m \<noteq> n) FIRE_EFFECT_ORDER = pre" by (simp add: assms(3) takeWhile_append)
  moreover have "effect_state s m = Some FE_COMMITTED" if "m \<in> set pre" for m
    using that assms(1,2,4) knows_shown unfolding going_on_def by blast
  moreover have "fs_cleanup_mode s = CM_EXTERNAL_UNKNOWN \<longrightarrow> fs_external_disposition_confirmed s"
    using assms(1,2) knows_shown unfolding going_on_def by blast
  ultimately show ?thesis using assms(5) by (simp add: call_justified_def list_all_iff) (simp add: assms(3))
qed

context fire_authority
begin

lemma does_fire_action_required: "retire_env_ok re \<Longrightarrow> evolving re (fire_action_required re au s n c)"
  unfolding fire_action_required_def
  by (intro evolution.bind [OF does_transition] evolution.bind [OF marks_action_required] does_require)

lemma does_credential_fact: "retire_env_ok re \<Longrightarrow> evolving re (credential_fact au t n)"
  unfolding credential_fact_def by (intro evolution.branch marks_destroyed evolution.simple(1) TrueI)

lemma run_effect_triple:
  assumes ok: "retire_env_ok re" and K: "stable re K" and just: "\<And>s sv. K sv \<Longrightarrow> shows_request re i s sv \<Longrightarrow> call_justified n s"
  shows "triple (during re K) (run_effect re au t i n es) (\<lambda>r sv. during re K sv \<and> (r = None \<longrightarrow> effect_done re i n sv)) (safely re)"
proof -
  have start: "triple (during re K) (if es = None then fire_transition re i n FE_PREPARED [] else returnA ()) (\<lambda>_. during re K) (safely re)"
    by (rule triple_post [OF evolving_triple [OF _ K, where Q = any_result]]) (auto intro: evolution.branch does_transition ok evolution.simple)
  have read: "triple (\<lambda>sv. during re K sv \<and> entered re i n FE_EXECUTING sv) (require_fire re i)
      (\<lambda>s sv. during re K sv \<and> entered re i n FE_EXECUTING sv \<and> shows_request re i s sv) (safely re)"
    using tripleD [OF entered_frame [OF does_require [OF ok] K]] tripleD [OF require_triple [OF ok K]] by (intro tripleI) blast+
  have observe: "triple (during re K) (observe_effect re s n) (\<lambda>_. during re K) (safely re)" for s
    by (rule triple_post [OF evolving_triple [OF does_observe K]]) simp
  have unknown: "triple (during re K) (bindA (fire_action_required re au s n c) (\<lambda>r. returnA (Some r)))
      (\<lambda>r sv. during re K sv \<and> (r = None \<longrightarrow> effect_done re i n sv)) (safely re)" for s c
    by (rule triple_bind [OF evolving_triple [OF does_fire_action_required [OF ok] K]]) (auto simp: triple_def returnA_def)
  have fact: "triple (\<lambda>sv. during re K sv \<and> entered re i n FE_COMMITTED sv) (bindA (credential_fact au t n) (\<lambda>_. returnA None))
      (\<lambda>r sv. during re K sv \<and> (r = None \<longrightarrow> effect_done re i n sv)) (safely re)"
    by (rule triple_bind [OF entered_frame [OF does_credential_fact [OF ok] K]]) (auto simp: triple_def returnA_def intro: committed_known)
  show ?thesis unfolding run_effect_def
    by (rule triple_bind [OF start], rule triple_bind [OF transition_triple [OF ok K]], rule triple_bind [OF read],
        rule triple_bind [OF execute_triple [OF K just]], assumption, assumption, rule triple_bind [OF observe], rule triple_if, rule unknown,
        rule triple_bind [OF transition_triple [OF ok K]], rule fact)
qed

lemma record_effect_triple:
  assumes ok: "retire_env_ok re" and K: "stable re K" and es: "es \<noteq> Some FE_ACTION_REQUIRED"
    and shown: "es = Some FE_COMMITTED \<Longrightarrow> (\<And>sv. K sv \<Longrightarrow> effect_done re i n sv)"
  shows "triple (during re K) (bindA (record_effect re i n es) (\<lambda>_. returnA None)) (\<lambda>r sv. during re K sv \<and> (r = None \<longrightarrow> effect_done re i n sv)) (safely re)"
proof -
  have step: "triple (during re K) (if b then fire_transition re i n st [] else returnA ()) (\<lambda>_. during re K) (safely re)" for b st
    by (rule triple_post [OF evolving_triple [OF _ K, where Q = any_result]]) (auto intro: evolution.branch does_transition ok evolution.simple)
  have last: "triple (during re K) (if es = None \<or> es = Some FE_PREPARED \<or> es = Some FE_EXECUTING then fire_transition re i n FE_COMMITTED [] else returnA ())
      (\<lambda>_ sv. during re K sv \<and> effect_done re i n sv) (safely re)"
  proof (rule triple_if)
    show "triple (during re K) (fire_transition re i n FE_COMMITTED []) (\<lambda>_ sv. during re K sv \<and> effect_done re i n sv) (safely re)"
      by (rule triple_post [OF transition_triple [OF ok K]]) (auto intro: committed_known)
    assume "\<not> (es = None \<or> es = Some FE_PREPARED \<or> es = Some FE_EXECUTING)"
    with es have "es = Some FE_COMMITTED" by (cases es; cases "the es") auto
    with shown show "triple (during re K) (returnA ()) (\<lambda>_ sv. during re K sv \<and> effect_done re i n sv) (safely re)"
      by (auto simp: triple_def returnA_def during_def)
  qed
  show ?thesis unfolding record_effect_def
    by (rule triple_bind [OF triple_bind [OF step triple_bind [OF step last]]]) (auto simp: triple_def returnA_def)
qed

lemma resume_effect_triple:
  assumes ok: "retire_env_ok re" and K: "stable re K"
    and just: "\<And>s sv. K sv \<Longrightarrow> shows_request re i s sv \<Longrightarrow> (no_authority s \<longrightarrow> n = ''archive_move'') \<Longrightarrow> call_justified n s"
    and order: "n \<in> set FIRE_EFFECT_ORDER"
    and again: "\<And>s sv. K sv \<Longrightarrow> shows_request re i s sv \<Longrightarrow> effect_state s n = Some FE_EXECUTING \<Longrightarrow>
      triple (during re (\<lambda>sv. K sv \<and> effect_done re i n sv)) (again i) (\<lambda>_. retire_inv re) (safely re)"
  shows "triple (during re K) (resume_effect re au again t i n) (\<lambda>r sv. retire_inv re sv \<and> (r = None \<longrightarrow> K sv \<and> effect_done re i n sv)) (safely re)"
  unfolding resume_effect_def Let_def
proof (rule triple_bind [OF require_triple [OF ok K]])
  fix s
  let ?es = "effect_state s n" and ?Q = "\<lambda>r sv. retire_inv re sv \<and> (r = None \<longrightarrow> K sv \<and> effect_done re i n sv)"
  let ?P = "\<lambda>sv. during re K sv \<and> shows_request re i s sv"
  have post: "triple P m ?Q (safely re)" if "triple P m (\<lambda>r sv. during re L sv \<and> (r = None \<longrightarrow> effect_done re i n sv)) (safely re)" "\<And>sv. L sv \<Longrightarrow> K sv" for P m L
    by (rule triple_post [OF that(1)]) (auto simp: during_def that(2))
  have ret: "triple ?P (returnA (Some s)) ?Q (safely re)" by (auto simp: triple_def returnA_def during_def)
  let ?L = "\<lambda>sv. K sv \<and> effect_done re i n sv"
  have L: "stable re ?L" by (rule stable_conj [OF K done_stable])
  have known: "during re ?L sv" if "?P sv" "?es = Some FE_COMMITTED" for sv
    using that order shown_known [of re i s sv] by (auto simp: during_def)
  have recording: "triple ?P (bindA (record_effect re i n ?es) (\<lambda>_. returnA None)) ?Q (safely re)" if "?es \<noteq> Some FE_ACTION_REQUIRED"
  proof (cases "?es = Some FE_COMMITTED")
    case True
    have "triple (during re ?L) (bindA (record_effect re i n ?es) (\<lambda>_. returnA None)) ?Q (safely re)"
      by (rule post [OF record_effect_triple [OF ok L that]]) auto
    then show ?thesis by (rule triple_pre) (use known True in blast)
  next
    case False
    show ?thesis by (rule triple_pre [OF post [OF record_effect_triple [OF ok K that]]]) (use False in auto)
  qed
  have committed: "triple ?P (bindA (credential_fact au t n) (\<lambda>_. returnA None)) ?Q (safely re)" if "?es = Some FE_COMMITTED"
    by (rule triple_pre [OF triple_bind [OF evolving_triple [OF does_credential_fact [OF ok] L]]], rule triple_pre [OF triple_return])
      (use known that in \<open>auto simp: during_def\<close>)
  have reconcile: "triple ?P (bindA (reconcile_executing re au again s n) (\<lambda>r. returnA (Some r))) ?Q (safely re)" if es: "?es = Some FE_EXECUTING"
  proof (rule triple_assume)
    fix sv assume "?P sv"
    then have i: "fs_intent_id s = i" and next_round: "triple (during re ?L) (again i) (\<lambda>_. retire_inv re) (safely re)"
      using again [OF _ _ es] shown_intent by (auto simp: during_def)
    have unknown: "triple (during re K) (fire_action_required re au s n c) (\<lambda>_. retire_inv re) (safely re)" for c
      by (rule triple_post [OF evolving_triple [OF does_fire_action_required [OF ok] K]]) (auto simp: during_def)
    have "triple (during re K) (fire_transition re i n FE_COMMITTED []) (\<lambda>_. during re ?L) (safely re)"
      by (rule triple_post [OF transition_triple [OF ok K]]) (auto simp: during_def intro: committed_known)
    note found = triple_bind [OF this next_round]
    have observe: "triple (during re K) (observe_effect re s n) (\<lambda>_. during re K) (safely re)"
      by (rule triple_post [OF evolving_triple [OF does_observe K]]) simp
    have "triple (during re K) (reconcile_executing re au again s n) (\<lambda>_. retire_inv re) (safely re)"
      unfolding reconcile_executing_def i by (rule triple_bind [OF observe], rule triple_if, rule unknown, rule found)
    note rec = triple_pre [OF this, of ?P]
    show "triple ?P (bindA (reconcile_executing re au again s n) (\<lambda>r. returnA (Some r))) ?Q (safely re)"
      by (rule triple_bind [OF rec]) (auto simp: triple_def returnA_def)
  qed
  have run: "triple ?P (run_effect re au t i n ?es) ?Q (safely re)" if auth: "no_authority s \<longrightarrow> n = ''archive_move''"
  proof -
    let ?M = "\<lambda>sv. K sv \<and> knows re i (\<lambda>u. no_authority u = no_authority s) sv"
    have "lasting (\<lambda>u. no_authority u = no_authority s)" by (auto simp: lasting_def fire_state_kept_def fire_identity_def no_authority_def)
    then have M: "stable re ?M" by (rule stable_conj [OF K knows_stable])
    have "call_justified n u" if "?M sv" "shows_request re i u sv" for u sv
      using just that auth knows_shown by blast
    note run = post [OF run_effect_triple [OF ok M this]]
    show ?thesis by (rule triple_pre [OF run]) (auto simp: during_def intro: shown_known)
  qed
  show "triple ?P (if no_authority s \<and> n \<noteq> ''archive_move'' then
       (if ?es = Some FE_ACTION_REQUIRED then returnA (Some s) else bindA (record_effect re i n ?es) (\<lambda>_. returnA None))
     else if ?es = Some FE_COMMITTED then bindA (credential_fact au t n) (\<lambda>_. returnA None)
     else if ?es = Some FE_EXECUTING then bindA (reconcile_executing re au again s n) (\<lambda>r. returnA (Some r))
     else if ?es = Some FE_ACTION_REQUIRED then returnA (Some s)
     else run_effect re au t i n ?es) ?Q (safely re)"
    by (intro triple_if ret) (erule recording committed reconcile | rule run, blast)+
qed

lemma resume_effects_triple:
  assumes ok: "retire_env_ok re" 
    and again: "\<And>C. C \<subseteq> set FIRE_EFFECT_ORDER \<Longrightarrow> length FIRE_EFFECT_ORDER < k + card C \<Longrightarrow>
      triple (during re (\<lambda>sv. \<forall>n\<in>C. effect_done re i n sv)) (again i) (\<lambda>_. retire_inv re) (safely re)"
  shows "FIRE_EFFECT_ORDER = pre @ ns \<Longrightarrow> set pre \<subseteq> C \<Longrightarrow> C \<subseteq> set FIRE_EFFECT_ORDER \<Longrightarrow> length FIRE_EFFECT_ORDER < Suc k + card C \<Longrightarrow>
    triple (during re (going_on re i C m)) (resume_effects re au again t i ns) (\<lambda>_. retire_inv re) (safely re)"
proof (induction ns arbitrary: pre C)
  case Nil
  then show ?case by (auto simp: triple_def returnA_def during_def)
next
  case (Cons n ns)
  have n: "n \<in> set FIRE_EFFECT_ORDER" by (simp add: Cons.prems(1))
  have step: "triple (during re (going_on re i C m)) (resume_effect re au again t i n)
      (\<lambda>r sv. retire_inv re sv \<and> (r = None \<longrightarrow> going_on re i C m sv \<and> effect_done re i n sv)) (safely re)"
  proof (rule resume_effect_triple [OF ok going_on_stable _ n])
    show "call_justified n s" if "going_on re i C m sv" "shows_request re i s sv" "no_authority s \<longrightarrow> n = ''archive_move''" for s sv
      by (rule going_on_justified [OF that(1,2) Cons.prems(1,2) that(3)])
    show "triple (during re (\<lambda>sv. going_on re i C m sv \<and> effect_done re i n sv)) (again i) (\<lambda>_. retire_inv re) (safely re)"
      if "going_on re i C m sv" "shows_request re i s sv" "effect_state s n = Some FE_EXECUTING" for s sv
    proof -
      have "n \<notin> C" using that knows_shown unfolding going_on_def by fastforce
      moreover have "finite C" using Cons.prems(3) finite_subset by blast
      ultimately have "triple (during re (\<lambda>sv. \<forall>m\<in>insert n C. effect_done re i m sv)) (again i) (\<lambda>_. retire_inv re) (safely re)"
        using Cons.prems(3,4) n by (intro again) simp_all
      then show ?thesis by (rule triple_pre) (auto simp: during_def going_on_def)
    qed
  qed
  have rest: "triple (\<lambda>sv. retire_inv re sv \<and> going_on re i C m sv \<and> effect_done re i n sv) (resume_effects re au again t i ns) (\<lambda>_. retire_inv re) (safely re)"
  proof -
    have "card C \<le> card (insert n C)" using Cons.prems(3) finite_subset by (intro card_mono) auto
    with Cons.prems n have "triple (during re (going_on re i (insert n C) m)) (resume_effects re au again t i ns) (\<lambda>_. retire_inv re) (safely re)"
      by (intro Cons.IH [of "pre @ [n]"]) auto
    then show ?thesis by (rule triple_pre) (auto simp: during_def going_on_def)
  qed
  show ?case unfolding resume_effects.simps
  proof (rule triple_bind [OF step], rule triple_option)
    show "triple (\<lambda>sv. retire_inv re sv \<and> (r = None \<longrightarrow> going_on re i C m sv \<and> effect_done re i n sv)) (resume_effects re au again t i ns) (\<lambda>_. retire_inv re) (safely re)"
      if "r = None" for r :: "durable_fire_state option"
      using rest that by (auto elim: triple_pre)
  qed (auto simp: triple_def returnA_def)
qed

lemma evolving_safe: "does (evolves re) proper m Q \<Longrightarrow> triple (retire_inv re) m (\<lambda>r sv. retire_inv re sv) (safely re)"
  by (rule triple_pre [OF triple_post [OF evolving_triple [OF _ stable_True]]]) (auto simp: during_def)

lemma does_await:
  assumes "retire_env_ok re"
  shows "evolving re (await_disposition re au i s)"
  unfolding await_disposition_def
  by (intro evolution.branch evolution.bind [OF does_transition [OF assms]] evolution.bind [OF does_require [OF assms]] does_fire_action_required does_require assms)

lemma does_finish:
  assumes "retire_env_ok re"
  shows "evolving re (finish_fire re au i)"
  unfolding finish_fire_def by (intro evolution.bind [OF does_require [OF assms]] evolution.bind [OF marks_archived [OF assms]] does_require assms)

lemma resume_triple:
  assumes ok: "retire_env_ok re"
  shows "C \<subseteq> set FIRE_EFFECT_ORDER \<Longrightarrow> length FIRE_EFFECT_ORDER < k + card C \<Longrightarrow>
    triple (during re (\<lambda>sv. \<forall>n\<in>C. effect_done re i n sv)) (resume re au k i) (\<lambda>_. retire_inv re) (safely re)"
proof (induction k arbitrary: C)
  case 0
  then have "card C \<le> card (set FIRE_EFFECT_ORDER)" by (intro card_mono) simp_all
  with 0 card_length [of FIRE_EFFECT_ORDER] show ?case by simp
next
  case (Suc k)
  let ?D = "\<lambda>sv. \<forall>n\<in>C. effect_done re i n sv"
  have D: "stable re ?D" by (intro stable_all done_stable)
  show ?case unfolding resume.simps
  proof (rule triple_bind [OF require_triple [OF ok D]])
    fix s
    let ?P = "\<lambda>sv. during re ?D sv \<and> shows_request re i s sv"
    have ret: "triple ?P (returnA s) (\<lambda>_. retire_inv re) (safely re)" "triple ?P (raise_fire m) (\<lambda>_. retire_inv re) (safely re)" for m
      by (auto simp: triple_def returnA_def raise_fire_def raiseA_def during_def safely_def proper_def)
    have await: "triple ?P (await_disposition re au i s) (\<lambda>_. retire_inv re) (safely re)"
      by (rule triple_pre [OF evolving_safe [OF does_await [OF ok]]]) (simp add: during_def)
    have finish: "triple (retire_inv re) (case r of Some s' \<Rightarrow> returnA s' | None \<Rightarrow> finish_fire re au i) (\<lambda>_. retire_inv re) (safely re)" for r
      by (rule triple_option, rule evolving_safe [OF does_finish [OF ok]]) (simp add: triple_def returnA_def)
    have effects: "triple ?P (resume_effects re au (resume re au k) (target_of s) i FIRE_EFFECT_ORDER) (\<lambda>_. retire_inv re) (safely re)"
      if "\<not> (fs_cleanup_mode s = CM_EXTERNAL_UNKNOWN \<and> \<not> fs_external_disposition_confirmed s)"
    proof -
      have "triple (during re (going_on re i C (fs_cleanup_mode s))) (resume_effects re au (resume re au k) (target_of s) i FIRE_EFFECT_ORDER) (\<lambda>_. retire_inv re) (safely re)"
        by (rule resume_effects_triple [OF ok, where k = k and pre = "[]"]) (use Suc in simp_all)
      then show ?thesis by (rule triple_pre) (use that in \<open>auto simp: during_def going_on_def intro: shown_known\<close>)
    qed
    show "triple ?P (case fs_phase s of FP_ARCHIVED \<Rightarrow> returnA s | FP_SUPERSEDED \<Rightarrow> raise_fire ''fire request was superseded''
        | FP_ACTION_REQUIRED \<Rightarrow> returnA s
        | FP_RETIRING \<Rightarrow>
            if fs_cleanup_mode s = CM_EXTERNAL_UNKNOWN \<and> \<not> fs_external_disposition_confirmed s then await_disposition re au i s
            else bindA (resume_effects re au (resume re au k) (target_of s) i FIRE_EFFECT_ORDER) (\<lambda>r.
              case r of Some s' \<Rightarrow> returnA s' | None \<Rightarrow> finish_fire re au i)) (\<lambda>_. retire_inv re) (safely re)"
      by (cases "fs_phase s"; simp only: fire_phase.case ret; intro triple_if await triple_bind [OF effects finish])
  qed
qed

lemma resume_safe: "retire_env_ok re \<Longrightarrow> triple (retire_inv re) (resume_fire re au i) (\<lambda>_. retire_inv re) (safely re)"
  by (rule triple_pre [OF resume_triple [of "{}"]]) (simp_all add: during_def resume_depth_def)

text \<open>What an operation of the service may do: keep the invariant, whether it returns or raises, and never run out of its depth.\<close>

abbreviation safe :: "('a, 'g, 'w, 'r) retire_action \<Rightarrow> bool" where
  "safe m \<equiv> triple (retire_inv re) m (\<lambda>_. retire_inv re) (safely re)"

lemma safe_rules:
  "safe (returnA r)" "safe (raise_fire m)" "proper x \<Longrightarrow> safe (raiseA x)" "(\<And>x. e = Inl x \<Longrightarrow> proper x) \<Longrightarrow> safe (liftA e)"
  by (auto simp: triple_def returnA_def raise_fire_def raiseA_def liftA_def safely_def proper_def split: sum.split)

lemma safe_bind: "safe m \<Longrightarrow> (\<And>r. safe (f r)) \<Longrightarrow> safe (bindA m f)"
  by (rule triple_bind)

lemma safe_steps:
  assumes "retire_env_ok re"
  shows "safe (service_states re)" "safe (require_fire re i)" "safe (commit_event re ty i p)" "safe (observe_effect re s n)" "safe (fa_authorize au q)"
    "safe (fa_resolve au q)" "safe (fa_admit au q t i)" "safe (fa_mark_action_required au a)" "safe (fa_confirm au q s ref)" "safe (resume_fire re au i)"
  by (intro evolving_safe [OF does_service_states] evolving_safe [OF does_require] evolving_safe [OF does_commit_event] evolving_safe [OF does_observe]
      evolving_safe [OF authorize] evolving_safe [OF resolves] evolving_safe [OF admits] evolving_safe [OF marks_action_required] evolving_safe [OF confirms]
      resume_safe assms)+

lemma safe_supersede: "retire_env_ok re \<Longrightarrow> safe (supersede_all re c ss)"
  by (induction ss) (auto intro!: safe_bind safe_rules triple_if safe_steps)

lemma safe_coalesce: "retire_env_ok re \<Longrightarrow> safe (coalesce_equivalent re ss)"
  unfolding coalesce_equivalent_def Let_def by (intro triple_if safe_rules safe_bind safe_supersede safe_steps)

lemma safe_coalesce_live: "retire_env_ok re \<Longrightarrow> safe (coalesce_live_requests re q)"
  unfolding coalesce_live_requests_def Let_def
  by (rule safe_bind) (auto intro: safe_steps split: list.split intro!: safe_rules safe_bind safe_coalesce)

lemma safe_retry: "retire_env_ok re \<Longrightarrow> safe (retry_action_required re au i)"
  unfolding retry_action_required_def
  by (rule safe_bind) (auto intro: safe_steps split: list.split prod.split intro!: triple_if safe_rules safe_bind)

lemma safe_retry_existing: "retire_env_ok re \<Longrightarrow> safe (retry_existing re au s)"
  unfolding retry_existing_def by (intro triple_if safe_rules safe_retry)

lemma safe_admission_failed: "retire_env_ok re \<Longrightarrow> triple (safely re x) (admission_failed re au q x) (\<lambda>_. retire_inv re) (safely re)"
  unfolding admission_failed_def
proof (rule triple_if)
  show "triple (safely re x) (raiseA x) (\<lambda>_. retire_inv re) (safely re)" by (simp add: triple_def raiseA_def)
  assume "retire_env_ok re" "\<not> x \<noteq> FireServiceError ''employee retirement already in progress''"
  then have "safe (bindA (coalesce_live_requests re q) (\<lambda>existing. case existing of None \<Rightarrow> raiseA x | Some s \<Rightarrow> retry_existing re au s))"
    by (intro safe_bind safe_coalesce_live triple_option safe_retry_existing safe_rules(3)) (auto simp: proper_def)
  then show "triple (safely re x) (bindA (coalesce_live_requests re q) (\<lambda>existing. case existing of None \<Rightarrow> raiseA x | Some s \<Rightarrow> retry_existing re au s))
      (\<lambda>_. retire_inv re) (safely re)"
    by (rule triple_pre) (simp add: safely_def)
qed

lemma intent_proper: "fire_intent_id fe q = Inl x \<Longrightarrow> proper x"
  by (auto simp: fire_intent_id_def Let_def proper_def split: if_splits)

lemma safe_start:
  assumes "retire_env_ok re"
  shows "safe (start_fire re au q)"
proof -
  have "safe (tryA (fa_admit au q t0 i) (admission_failed re au q) (\<lambda>t. bindA (require_fire re i) (\<lambda>s.
      if \<not> matches_target s q t then raise_fire ''fire idempotency conflict'' else resume_fire re au i)))" for t0 i
    by (rule triple_try [OF safe_steps(7) [OF assms] safe_admission_failed [OF assms]]) (intro safe_bind safe_steps assms triple_if safe_rules)
  then show ?thesis unfolding start_fire_def
    by (intro safe_bind safe_steps assms safe_rules triple_option triple_if safe_coalesce_live safe_retry_existing) (erule intent_proper)
qed

lemma safe_confirm: "retire_env_ok re \<Longrightarrow> safe (confirm_external_disposition re au q ref)"
  unfolding confirm_external_disposition_def
  by (intro safe_bind safe_steps safe_rules triple_if safe_coalesce)
    (auto simp: disposition_matches_def Let_def proper_def split: if_splits list.splits intro!: triple_if safe_rules safe_bind safe_steps)

lemma safe_recover_groups: "retire_env_ok re \<Longrightarrow> safe (recover_groups re au gs)"
  by (induction gs) (auto intro!: safe_bind safe_rules triple_if safe_steps safe_coalesce)

lemma safe_recover: "retire_env_ok re \<Longrightarrow> safe (recover_fires re au)"
  unfolding recover_fires_def by (intro safe_bind safe_steps safe_recover_groups)

lemma safe_list: "retire_env_ok re \<Longrightarrow> safe (list_fires re)"
  unfolding list_fires_def by (intro safe_bind safe_steps safe_rules)

end

section \<open>Every cleanup runs at most once\<close>

text \<open>
  What happens to the service: its operations, in any order, and restarts of the process, which open the journal again and start with
  other views. A crash in the middle of an operation is a failed append, after which every write of the operation is refused.
\<close>

datatype 'g retire_call =
    StartFire employee_fire_request
  | ResumeFire string
  | ConfirmDisposition employee_fire_request string
  | RecoverFires
  | ListFires
  | RestartService int bool hire_views "'g ingress_view"

definition restart_service ::
  "('a, 'io, 'g, 'w) retire_env \<Rightarrow> int \<Rightarrow> bool \<Rightarrow> hire_views \<Rightarrow> 'g ingress_view \<Rightarrow> ('a, 'g, 'w, unit) retire_action" where
  "restart_service re epoch lock_free v g = (\<lambda>sv.
     case restart_writer (re_writer re) (re_anchor re) (rt_anchor sv) epoch lock_free (rt_writer sv) of
       (w, r) \<Rightarrow> (sv\<lparr>rt_writer := w, rt_views := v, rt_ingress := g\<rparr>, case r of Inl e \<Rightarrow> Inl (RetireJournal e) | Inr _ \<Rightarrow> Inr ()))"

fun perform :: "('a, 'io, 'g, 'w) retire_env \<Rightarrow> ('a, 'g, 'w) fire_authority_ops \<Rightarrow> 'g retire_call \<Rightarrow> ('a, 'g, 'w, durable_fire_state list) retire_action" where
  "perform re au (StartFire q) = bindA (start_fire re au q) (\<lambda>s. returnA [s])"
| "perform re au (ResumeFire i) = bindA (resume_fire re au i) (\<lambda>s. returnA [s])"
| "perform re au (ConfirmDisposition q ref) = bindA (confirm_external_disposition re au q ref) (\<lambda>s. returnA [s])"
| "perform re au RecoverFires = recover_fires re au"
| "perform re au ListFires = list_fires re"
| "perform re au (RestartService epoch lock_free v g) = bindA (restart_service re epoch lock_free v g) (\<lambda>_. returnA [])"

fun retire_run ::
  "('a, 'io, 'g, 'w) retire_env \<Rightarrow> ('a, 'g, 'w) fire_authority_ops \<Rightarrow> 'g retire_call list \<Rightarrow> ('a, 'g, 'w) retire_state \<Rightarrow>
     ('a, 'g, 'w) retire_state \<times> (retire_exn + durable_fire_state list) list" where
  "retire_run re au [] sv = (sv, [])"
| "retire_run re au (c # cs) sv =
     (case perform re au c sv of (sv1, r) \<Rightarrow> case retire_run re au cs sv1 of (sv2, rs) \<Rightarrow> (sv2, r # rs))"

lemma does_restart: "evolving re (restart_service re epoch lock_free v g)"
  by (rule doesI) (auto simp: restart_service_def evolves_def proper_def split: prod.splits sum.splits intro: restart_grows)

context fire_authority
begin

lemma safe_call: "retire_env_ok re \<Longrightarrow> safe (perform re au c)"
  by (cases c) (auto intro!: safe_bind safe_rules safe_start safe_confirm safe_recover safe_list resume_safe evolving_safe [OF does_restart])

lemma safe_run:
  assumes "retire_env_ok re"
  shows "retire_inv re sv \<Longrightarrow> retire_run re au cs sv = (sv', rs) \<Longrightarrow> retire_inv re sv' \<and> list_all (\<lambda>r. r \<noteq> Inl RetireRecursionError) rs"
proof (induction cs arbitrary: sv rs)
  case (Cons c cs)
  obtain sv1 r where c: "perform re au c sv = (sv1, r)" by fastforce
  obtain rs1 where rest: "retire_run re au cs sv1 = (sv', rs1)" "rs = r # rs1" using Cons.prems(2) c by (auto split: prod.splits)
  from safe_call [OF assms, of c] Cons.prems(1) c have "retire_inv re sv1 \<and> r \<noteq> Inl RetireRecursionError"
    by (cases r) (auto simp: triple_def safely_def proper_def split: prod.splits)
  with Cons.IH [of sv1 rs1] rest show ?case by simp
qed simp

end

text \<open>
  C10. A cleanup of a retirement is never started twice, and only when it may be: in every sequence of operations of the service and
  restarts, with other services committing to the journal in between and commits failing at any byte, each port is called at most once for a
  request; at each call the start is on disk, the cleanups before it are committed, resources the service has no authority over are left
  alone, and a disposition that has to be confirmed was confirmed. No operation exceeds its depth.
\<close>

theorem cleanups_run_once:
  assumes "retire_env_ok re" and "log_ok (re_writer re) (rt_writer sv)" and "rt_calls sv = []"
    and "retire_run re (journal_fire_authority re) cs sv = (sv', rs)"
  shows "list_all (\<lambda>(n, s). calls_of (fs_intent_id s) n (rt_calls sv') = 1 \<and> call_justified n s \<and>
      recorded (executing_event (fs_intent_id s) n) (sequenced (disk (re_writer re) (rt_writer sv')))) (rt_calls sv') \<and>
    list_all (\<lambda>r. r \<noteq> Inl RetireRecursionError) rs"
proof -
  have "retire_inv re sv" using assms(2,3) by (simp add: retire_inv_def calls_of_def)
  from journal_authority.safe_run [OF assms(1) this assms(4)]
  have inv: "retire_inv re sv'" and rs: "list_all (\<lambda>r. r \<noteq> Inl RetireRecursionError) rs" by blast+
  have "calls_of (fs_intent_id s) n (rt_calls sv') = 1 \<and> recorded (executing_event (fs_intent_id s) n) (sequenced (shown_disk re sv'))"
    if "(n, s) \<in> set (rt_calls sv')" for n s
  proof -
    have "calls_of (fs_intent_id s) n (rt_calls sv') \<noteq> 0" using that by (auto simp: calls_of_def filter_empty_conv)
    moreover have "calls_of (fs_intent_id s) n (rt_calls sv') \<le> 1"
      "calls_of (fs_intent_id s) n (rt_calls sv') \<le> starts (fs_intent_id s) n (sequenced (shown_disk re sv'))" using inv by (simp_all add: retire_inv_def)
    ultimately have "calls_of (fs_intent_id s) n (rt_calls sv') = 1" "starts (fs_intent_id s) n (sequenced (shown_disk re sv')) \<noteq> 0" by linarith+
    then show ?thesis by (auto simp: starts_def recorded_def list_ex_iff filter_empty_conv)
  qed
  with inv rs show ?thesis by (fastforce simp: retire_inv_def list_all_iff)
qed

section \<open>An example\<close>

definition sample_retire_env :: "(anchor_state, unit, unit, unit) retire_env" where
  "sample_retire_env = \<lparr>re_views = sample_views_env, re_anchor = memory_ops, re_fire = example_fire_env,
     re_ingress_rebuild = (\<lambda>g a fs. (g, Inr ())), re_ingress_event = (\<lambda>g ev q h. Inr g), re_is_ingress_event = (\<lambda>t. False),
     re_admins = [''owner''], re_strip = id, re_execute = (\<lambda>w n s. w), re_observe = (\<lambda>w n s. (w, Some True)), re_time = (\<lambda>k. 0),
     re_isotime = (\<lambda>k. ''2025-01-01''),
     re_io = (\<lambda>k. \<lparr>ji_tx_id = ''tx_1'', ji_event_time = 0, ji_now = 0, ji_append = (if k < 13 then Appended else AppendFailed 0), ji_anchor = ()\<rparr>),
     re_foreign = (\<lambda>k. []), re_foreign_views = (\<lambda>k v. v), re_foreign_ingress = (\<lambda>k g. g)\<rparr>"

definition sample_retirement :: journal_event where
  "sample_retirement = \<lparr>je_event_type = ''fire.requested'', je_aggregate_id = ''f1'', je_payload = requested_payload
     \<lparr>fq_employee = ''a1'', fq_tenant_key = ''t'', fq_message_id = ''m'', fq_chat_id = ''c'', fq_requester_principal_id = ''owner'', fq_drain = True\<rparr>
     \<lparr>ft_tenant_key = ''t'', ft_agent_id = ''a1'', ft_employee_name = ''Ann'', ft_bot_principal_id = ''b'', ft_app_id = ''x'', ft_credential_ref = ''r'',
       ft_cleanup_mode = CM_BOUND\<rparr> ''f1'', je_timestamp = 0, je_payload_hash = GENESIS_HASH\<rparr>"

definition sample_retire_state :: "journal_writer \<Rightarrow> (anchor_state, unit, unit) retire_state" where
  "sample_retire_state w = \<lparr>rt_writer = w, rt_anchor = single_anchor, rt_views = no_views,
     rt_ingress = \<lparr>iv_cursor_sequence = 0, iv_cursor_hash = [], iv_state = ()\<rparr>, rt_world = (), rt_tick = 0, rt_calls = []\<rparr>"

lemma sample_retirement_ok: "event_ok sample_frame_env sample_retirement" "event_text sample_retirement"
  by (simp_all add: event_ok_def event_text_def sample_retirement_def requested_payload_def sample_frame_env_def json_text.simps json_item_def dict_ok_def utf8_simps)

lemma sample_retirement_read:
  "(case reduce_fire example_fire_env [] (1, norm_event sample_retirement) of
      Inr sts \<Rightarrow> (case dget sts ''f1'' of Some s \<Rightarrow> fs_phase s = FP_RETIRING \<and> fs_cleanup_mode s = CM_BOUND \<and> fs_effects s = [] | None \<Rightarrow> False)
    | Inl _ \<Rightarrow> False) = True"
  by code_simp

lemma sample_undisturbed: "undisturbed sample_retire_env 13" "retire_env_ok sample_retire_env"
  by (simp_all add: undisturbed_def retire_env_ok_def sample_retire_env_def sample_views_env_def sample_we_def sample_digests_ok sample_floats_ok
      memory_answers utf8_simps)

lemma append_failed: "commit we ao w a c (AppendFailed k) io = (w', a', r) \<Longrightarrow> \<exists>e. r = Inl e"
  by (auto simp: commit_def Let_def split: sum.splits)

lemma failed_transition:
  assumes un: "undisturbed re k" and q: "quiet re fs sv" and k: "rt_tick sv + 2 \<le> k" and io: "ji_append (re_io re (rt_tick sv + 2)) = AppendFailed m"
    and i: "i \<noteq> []" "utf8_ok i" "n \<in> set FIRE_EFFECT_ORDER"
  obtains t x where "fire_transition re i n st [] sv = (t, Inl x)" "rt_calls t = rt_calls sv"
proof -
  let ?ty = "''fire.effect.'' @ fire_effect_state_value st"
  have "utf8_ok ?ty" by (cases st) (simp_all add: utf8_simps)
  from quiet_new_event [OF un _ this i, of sv] obtain ev where ev: "new_event re ?ty i [(''effect_type'', PStr n)] sv = (sv\<lparr>rt_tick := Suc (rt_tick sv)\<rparr>, Inr ev)" by auto
  let ?u = "sv\<lparr>rt_tick := Suc (rt_tick sv)\<rparr>"
  have "quiet re fs ?u" "rt_tick ?u < k" using q k by (simp_all add: quiet_def)
  from quiet_interfere [OF un this] obtain v where v: "interfere re ?u = (v, Inr ())" "rt_tick v = Suc (rt_tick ?u)" "rt_calls v = rt_calls ?u" .
  obtain t r where t: "commit_events re ''fire transition was not anchored'' [ev] v = (t, r)" by fastforce
  have c: "ji_append (re_io re (rt_tick v)) = AppendFailed m" using io v(2) by simp
  have "rt_calls t = rt_calls v \<and> (\<exists>x. r = Inl x)"
    using t append_failed unfolding commit_events_def Let_def c by (fastforce split: prod.splits sum.splits)
  then obtain x where "r = Inl x" "rt_calls t = rt_calls v" by blast
  with ev v t show thesis by (intro that [of t x]) (simp_all add: fire_transition_def commit_event_def bindA_def)
qed

text \<open>A first cleanup whose outcome cannot be recorded because the disk is full.\<close>

lemma interrupted_run:
  assumes un: "undisturbed re 13" and q: "quiet re fs sv" and tick: "rt_tick sv = 0" "rt_calls sv = []" and io: "ji_append (re_io re 13) = AppendFailed m"
    and r: "rebuild_fire_projection (re_fire re) fs = Inr sts"
    and s: "dget sts i = Some s" "fs_phase s = FP_RETIRING" "fs_cleanup_mode s = CM_BOUND" "fs_effects s = []" and i: "i \<noteq> []" "utf8_ok i"
    and reports: "\<And>w n u. re_observe re w n u = (w, Some True)"
  obtains t u x where "resume_fire re au i sv = (t, Inl x)" "rt_calls t = [(''execution_quiesce'', u)]" "fs_intent_id u = fs_intent_id s"
proof -
  let ?n = "''execution_quiesce''" and ?e = "last_sequence fs + 1"
  have n: "?n \<in> set FIRE_EFFECT_ORDER" by (simp add: FIRE_EFFECT_ORDER_def)
  have "rt_tick sv < 13" using tick by simp
  from quiet_require [OF un q this r s(1)] obtain sv1 where sv1: "require_fire re i sv = (sv1, Inr s)" "quiet re fs sv1"
    "rt_tick sv1 = Suc (rt_tick sv)" "rt_calls sv1 = rt_calls sv" .
  have "rt_tick sv1 < 13" using sv1(3) tick by simp
  from quiet_require [OF un sv1(2) this r s(1)] obtain sv2 where sv2: "require_fire re i sv1 = (sv2, Inr s)" "quiet re fs sv2"
    "rt_tick sv2 = Suc (rt_tick sv1)" "rt_calls sv2 = rt_calls sv1" .
  let ?s1 = "moved s ?n FE_PREPARED ?e"
  have "rt_tick sv2 + 4 \<le> 13" "effect_state s ?n = fire_predecessor FE_PREPARED" using sv2(3) sv1(3) tick s(4) by (simp_all add: fire_predecessor_def)
  from quiet_transition [OF un sv2(2) this(1) r s(1,2) i n this(2)] obtain sv3 f where sv3: "fire_transition re i ?n FE_PREPARED [] sv2 = (sv3, Inr ())"
    "quiet re (fs @ [f]) sv3" "rebuild_fire_projection (re_fire re) (fs @ [f]) = Inr (dset sts i ?s1)" "rt_tick sv3 = rt_tick sv2 + 4" "rt_calls sv3 = rt_calls sv2"
    by blast
  let ?s2 = "moved ?s1 ?n FE_EXECUTING (last_sequence (fs @ [f]) + 1)"
  have "dget (dset sts i ?s1) i = Some ?s1" "fs_phase ?s1 = FP_RETIRING" "effect_state ?s1 ?n = fire_predecessor FE_EXECUTING" "rt_tick sv3 + 4 \<le> 13"
    using s(2) n sv3(4) sv2(3) sv1(3) tick by (simp_all add: moved_def dget_with_effect fire_predecessor_def)
  from quiet_transition [OF un sv3(2) this(4) sv3(3) this(1,2) i n this(3)] obtain sv4 g where sv4: "fire_transition re i ?n FE_EXECUTING [] sv3 = (sv4, Inr ())"
    "quiet re ((fs @ [f]) @ [g]) sv4" "rebuild_fire_projection (re_fire re) ((fs @ [f]) @ [g]) = Inr (dset (dset sts i ?s1) i ?s2)"
    "rt_tick sv4 = rt_tick sv3 + 4" "rt_calls sv4 = rt_calls sv3" by blast
  have "dget (dset (dset sts i ?s1) i ?s2) i = Some ?s2" "rt_tick sv4 < 13" using sv4(4) sv3(4) sv2(3) sv1(3) tick by simp_all
  from quiet_require [OF un sv4(2) this(2) sv4(3) this(1)] obtain sv5 where sv5': "require_fire re i sv4 = (sv5, Inr ?s2)" "quiet re ((fs @ [f]) @ [g]) sv5"
    "rt_tick sv5 = Suc (rt_tick sv4)" "rt_calls sv5 = rt_calls sv4" .
  then have sv5: "require_fire re i sv4 = (sv5, Inr ?s2)" "quiet re (fs @ [f] @ [g]) sv5" "rt_tick sv5 = 11" "rt_calls sv5 = []"
    using sv4(4,5) sv3(4,5) sv2(3,4) sv1(3,4) tick by simp_all
  let ?sv6 = "sv5\<lparr>rt_world := re_execute re (rt_world sv5) ?n ?s2, rt_calls := [(?n, ?s2)]\<rparr>"
  have run: "execute_effect re ?s2 ?n sv5 = (?sv6, Inr ())" "observe_effect re ?s2 ?n ?sv6 = (?sv6, Inr (Some True))"
    using sv5(4) by (simp_all add: execute_effect_def modifyA_def observe_effect_def reports)
  have "quiet re (fs @ [f] @ [g]) ?sv6" using sv5(2) by (simp add: quiet_def)
  moreover have "rt_tick ?sv6 + 2 \<le> 13" "ji_append (re_io re (rt_tick ?sv6 + 2)) = AppendFailed m" using sv5(3) io by simp_all
  ultimately obtain t x where t: "fire_transition re i ?n FE_COMMITTED [] ?sv6 = (t, Inl x)" "rt_calls t = rt_calls ?sv6"
    by (rule failed_transition [OF un _ _ _ i n])
  have "run_effect re au tg i ?n None sv2 = (t, Inl x)" for tg
    unfolding run_effect_def bindA_def by (simp add: sv3(1) sv4(1) sv5(1) run t(1) del: fun_upd_apply)
  then have effect: "resume_effect re au again tg i ?n sv1 = (t, Inl x)" for again tg
    using s(3,4) by (simp add: resume_effect_def bindA_def sv2(1) no_authority_def Let_def)
  have order: "FIRE_EFFECT_ORDER = ?n # tl FIRE_EFFECT_ORDER" by (simp add: FIRE_EFFECT_ORDER_def)
  have effects: "resume_effects re au again tg i FIRE_EFFECT_ORDER sv1 = (t, Inl x)" for again tg
    by (subst order) (simp add: bindA_def effect)
  show thesis
  proof (rule that [of t x ?s2])
    show "resume_fire re au i sv = (t, Inl x)"
      using sv1(1) s(2,3) effects by (simp add: resume_depth_def bindA_def)
  qed (use t(2) in \<open>simp_all add: moved_def\<close>)
qed

text \<open>A journal whose only event is the given one.\<close>

lemma single_quiet:
  assumes "event_ok sample_frame_env e" "event_text e" and we: "re_writer re = sample_we" "re_anchor re = memory_ops"
  obtains f w where "quiet re [f] (sample_retire_state w)" "tf_events f = [norm_event e]" "tf_sequence f = 1" "log_ok sample_we w"
proof -
  obtain f w where w: "journal_inv sample_we w" "\<not> jw_write_disabled w" "jw_frames w = [f]" "tf_events f = [norm_event e]" "tf_sequence f = 1"
    "commit sample_we memory_ops sample_writer anchor_default (single_call e) Appended () = (w, single_anchor, Inr (f, ANCHORED))"
    by (rule single_journal [OF assms(1,2)]) blast
  have "\<not> jw_closed w" using w(6) by (auto simp: commit_def commit_durable_def sample_writer_def Let_def split: sum.splits if_splits prod.splits bool.splits)
  moreover have "head_of w = single_anchor"
    using w(1,3,5) by (simp add: journal_inv_def head_of_def single_anchor_def last_sequence_def head_hash_def frame_hash_def record_hash_def sample_we_def
        sample_frame_env_def)
  ultimately have "quiet re [f] (sample_retire_state w)"
    using w(1-3) by (simp add: quiet_def we sample_retire_state_def memory_ops_def memory_read_def)
  moreover from w(1) have "log_ok sample_we w" by (simp add: log_ok_def) (simp add: journal_inv_def)
  ultimately show thesis using w(4,5) by (intro that)
qed

theorem cleanups_run_once_witness:
  "\<exists>w sv' s rs. retire_run sample_retire_env (journal_fire_authority sample_retire_env) [ResumeFire ''f1''] (sample_retire_state w) = (sv', rs) \<and>
     rt_calls sv' = [(''execution_quiesce'', s)] \<and> calls_of (fs_intent_id s) ''execution_quiesce'' (rt_calls sv') = 1 \<and> call_justified ''execution_quiesce'' s \<and>
     recorded (executing_event (fs_intent_id s) ''execution_quiesce'') (sequenced (disk sample_we (rt_writer sv')))"
proof -
  let ?re = sample_retire_env
  have we: "re_writer ?re = sample_we" "re_anchor ?re = memory_ops" "re_fire ?re = example_fire_env"
    by (simp_all add: sample_retire_env_def sample_views_env_def)
  obtain f w where w: "quiet ?re [f] (sample_retire_state w)" "tf_events f = [norm_event sample_retirement]" "tf_sequence f = 1" "log_ok sample_we w"
    by (rule single_quiet [OF sample_retirement_ok we(1,2)])
  let ?sv = "sample_retire_state w"
  from sample_retirement_read obtain sts s where sts: "reduce_fire example_fire_env [] (1, norm_event sample_retirement) = Inr sts"
    and s: "dget sts ''f1'' = Some s" "fs_phase s = FP_RETIRING" "fs_cleanup_mode s = CM_BOUND" "fs_effects s = []"
    by (auto split: sum.splits option.splits)
  have r: "rebuild_fire_projection (re_fire ?re) [f] = Inr sts"
    using w(2,3) sts by (simp add: we rebuild_fire_projection_def sequenced_def)
  have sv: "rt_tick ?sv = 0" "rt_calls ?sv = []" "ji_append (re_io ?re 13) = AppendFailed 0" "\<And>w n u. re_observe ?re w n u = (w, Some True)"
    "utf8_ok ''f1''" by (simp_all add: sample_retire_state_def sample_retire_env_def utf8_simps)
  obtain t u x where t: "resume_fire ?re (journal_fire_authority ?re) ''f1'' ?sv = (t, Inl x)" "rt_calls t = [(''execution_quiesce'', u)]"
    by (rule interrupted_run [OF sample_undisturbed(1) w(1) sv(1-3) r s _ sv(5,4)]) blast+
  then have run: "retire_run ?re (journal_fire_authority ?re) [ResumeFire ''f1''] ?sv = (t, [Inl x])" by (simp add: bindA_def)
  have "log_ok (re_writer ?re) (rt_writer ?sv)" using w(4) by (simp add: we sample_retire_state_def)
  note once = cleanups_run_once [OF sample_undisturbed(2) this sv(2) run, unfolded we t(2)]
  show ?thesis by (intro exI conjI, rule run, rule t(2)) (use once t(2) in simp_all)
qed

end
