(* ===== verification/Fire_Progress.thy ===== *)
theory Fire_Progress
  imports Fire_Safety
begin

text \<open>
  A retirement that nothing disturbs goes through: \<open>resume\<close> brings every cleanup to \<open>committed\<close>, runs exactly those that were not yet
  started, and ends in the completion of the authority. The steps are triples whose exceptional part is arbitrary, since none of them raises.
\<close>

section \<open>A request on its way\<close>

definition stands :: "('a, 'io, 'g, 'w) retire_env \<Rightarrow> string \<Rightarrow> string list \<Rightarrow> durable_fire_state \<Rightarrow> ('a, 'g, 'w) retire_state \<Rightarrow> bool" where
  "stands re i cs s sv \<longleftrightarrow> map fst (rt_calls sv) = cs \<and>
     (\<exists>fs sts. quiet re fs sv \<and> rebuild_fire_projection (re_fire re) fs = Inr sts \<and> dget sts i = Some s)"

definition on_track :: "durable_fire_state \<Rightarrow> (string \<Rightarrow> fire_effect_state option) \<Rightarrow> durable_fire_state \<Rightarrow> bool" where
  "on_track s e t \<longleftrightarrow> fs_intent_id t = fs_intent_id s \<and> fs_phase t = FP_RETIRING \<and> target_of t = target_of s \<and>
     fs_external_disposition_confirmed t = fs_external_disposition_confirmed s \<and> (\<forall>n\<in>set FIRE_EFFECT_ORDER. effect_state t n = e n)"

definition stage ::
  "('a, 'io, 'g, 'w) retire_env \<Rightarrow> string \<Rightarrow> durable_fire_state \<Rightarrow> (string \<Rightarrow> fire_effect_state option) \<Rightarrow> string list \<Rightarrow> ('a, 'g, 'w) retire_state \<Rightarrow> bool" where
  "stage re i s e cs sv \<longleftrightarrow> (\<exists>t. stands re i cs t sv \<and> on_track s e t)"

lemma on_track_mode: "on_track s e t \<Longrightarrow> fs_cleanup_mode t = fs_cleanup_mode s \<and> fs_agent_id t = fs_agent_id s"
  by (simp add: on_track_def target_of_def)

lemma on_track_authority: "on_track s e t \<Longrightarrow> no_authority t = no_authority s"
  using on_track_mode by (auto simp: no_authority_def)

text \<open>Nothing disturbs the journal, every port reports its cleanup as done, and the authority records a destroyed credential.\<close>

definition smooth :: "('a, 'io, 'g, 'w) retire_env \<Rightarrow> ('a, 'g, 'w) fire_authority_ops \<Rightarrow> string \<Rightarrow> durable_fire_state \<Rightarrow> bool" where
  "smooth re au i s \<longleftrightarrow> (\<forall>k. undisturbed re k) \<and> (\<forall>w n u. snd (re_observe re w n u) = Some True) \<and> i \<noteq> [] \<and> utf8_ok i \<and>
     (\<not> no_authority s \<longrightarrow> (\<forall>cs t sv. stands re i cs t sv \<and> target_of t = target_of s \<longrightarrow>
        (\<exists>sv'. fa_mark_credential_destroyed au (target_of s) sv = (sv', Inr ()) \<and> stands re i cs t sv')))"

section \<open>Steps\<close>

lemma stage_require:
  assumes "smooth re au i s"
  shows "triple (stage re i s e cs) (require_fire re i) (\<lambda>t sv. stage re i s e cs sv \<and> on_track s e t) X"
proof (unfold triple_def, intro allI impI)
  fix sv assume "stage re i s e cs sv"
  then obtain t fs sts where t: "on_track s e t" "map fst (rt_calls sv) = cs" "quiet re fs sv" "rebuild_fire_projection (re_fire re) fs = Inr sts" "dget sts i = Some t"
    by (auto simp: stage_def stands_def)
  have "undisturbed re (Suc (rt_tick sv))" using assms by (simp add: smooth_def)
  from quiet_require [OF this t(3) _ t(4,5)] obtain sv' where "require_fire re i sv = (sv', Inr t)" "quiet re fs sv'" "rt_calls sv' = rt_calls sv" by auto
  with t show "case require_fire re i sv of (t, Inl x) \<Rightarrow> X x t | (sv', Inr t) \<Rightarrow> stage re i s e cs sv' \<and> on_track s e t"
    by (auto simp: stage_def stands_def)
qed

lemma stage_transition:
  assumes "smooth re au i s" and n: "n \<in> set FIRE_EFFECT_ORDER" "e n = fire_predecessor st" "st \<noteq> FE_ACTION_REQUIRED"
  shows "triple (stage re i s e cs) (fire_transition re i n st []) (\<lambda>_. stage re i s (e(n := Some st)) cs) X"
proof (unfold triple_def, intro allI impI)
  fix sv assume "stage re i s e cs sv"
  then obtain t fs sts where t: "on_track s e t" "map fst (rt_calls sv) = cs" "quiet re fs sv" "rebuild_fire_projection (re_fire re) fs = Inr sts" "dget sts i = Some t"
    by (auto simp: stage_def stands_def)
  have un: "undisturbed re (rt_tick sv + 4)" and i: "i \<noteq> []" "utf8_ok i" using assms(1) by (simp_all add: smooth_def)
  have phase: "fs_phase t = FP_RETIRING" and es: "effect_state t n = fire_predecessor st" using t(1) n by (simp_all add: on_track_def)
  let ?t = "moved t n st (last_sequence fs + 1)"
  from quiet_transition [OF un t(3) order.refl t(4,5) phase i n(1) es n(3)] obtain sv' f where sv': "fire_transition re i n st [] sv = (sv', Inr ())"
    "quiet re (fs @ [f]) sv'" "rebuild_fire_projection (re_fire re) (fs @ [f]) = Inr (dset sts i ?t)" "rt_calls sv' = rt_calls sv" by blast
  have "on_track s (e(n := Some st)) ?t" using t(1) by (auto simp: on_track_def moved_def target_of_def dget_with_effect)
  moreover have "stands re i cs ?t sv'"
    unfolding stands_def using sv'(2-4) t(2) by (intro conjI exI [of _ "fs @ [f]"] exI [of _ "dset sts i ?t"]) simp_all
  ultimately show "case fire_transition re i n st [] sv of (t, Inl x) \<Rightarrow> X x t | (sv', Inr _) \<Rightarrow> stage re i s (e(n := Some st)) cs sv'"
    by (auto simp: stage_def sv'(1))
qed

lemma stage_execute: "triple (stage re i s e cs) (execute_effect re t n) (\<lambda>_. stage re i s e (cs @ [n])) X"
  by (auto simp: triple_def execute_effect_def modifyA_def stage_def stands_def quiet_def)

lemma stage_observe:
  assumes "smooth re au i s"
  shows "triple (stage re i s e cs) (observe_effect re t n) (\<lambda>r sv. stage re i s e cs sv \<and> r = Some True) X"
proof (unfold triple_def, intro allI impI)
  fix sv assume s: "stage re i s e cs sv"
  obtain w r where r: "re_observe re (rt_world sv) n t = (w, r)" by fastforce
  then have "r = Some True" using assms unfolding smooth_def by (metis snd_conv)
  with s r show "case observe_effect re t n sv of (t, Inl x) \<Rightarrow> X x t | (sv', Inr r) \<Rightarrow> stage re i s e cs sv' \<and> r = Some True"
    by (auto simp: observe_effect_def stage_def stands_def quiet_def)
qed

lemma stage_credential:
  assumes "smooth re au i s" and "no_authority s \<longrightarrow> n = ''archive_move''"
  shows "triple (stage re i s e cs) (credential_fact au (target_of s) n) (\<lambda>_. stage re i s e cs) X"
proof (cases "n = ''credential_destroy''")
  case True
  with assms(2) have auth: "\<not> no_authority s" by auto
  show ?thesis
  proof (unfold triple_def, intro allI impI)
    fix sv assume "stage re i s e cs sv"
    then obtain t where t: "stands re i cs t sv" "on_track s e t" by (auto simp: stage_def)
    with assms(1) auth obtain sv' where "fa_mark_credential_destroyed au (target_of s) sv = (sv', Inr ())" "stands re i cs t sv'"
      unfolding smooth_def on_track_def by blast
    with t(2) True show "case credential_fact au (target_of s) n sv of (t, Inl x) \<Rightarrow> X x t | (sv', Inr _) \<Rightarrow> stage re i s e cs sv'"
      by (auto simp: credential_fact_def stage_def)
  qed
qed (simp add: credential_fact_def triple_def returnA_def)

lemma stage_return: "triple (stage re i s e cs) (returnA r) (\<lambda>r' sv. stage re i s e cs sv \<and> r' = r) X"
  by (simp add: triple_def returnA_def)

section \<open>Cleanups\<close>

lemma stage_prepare:
  assumes "smooth re au i s" and "n \<in> set FIRE_EFFECT_ORDER" and "e n = None \<or> e n = Some FE_PREPARED"
  shows "triple (stage re i s e cs) (if e n = None then fire_transition re i n FE_PREPARED [] else returnA ()) (\<lambda>_. stage re i s (e(n := Some FE_PREPARED)) cs) X"
proof (rule triple_if)
  assume "e n = None"
  then show "triple (stage re i s e cs) (fire_transition re i n FE_PREPARED []) (\<lambda>_. stage re i s (e(n := Some FE_PREPARED)) cs) X"
    by (intro stage_transition [OF assms(1,2)]) (simp_all add: fire_predecessor_def)
next
  assume "e n \<noteq> None"
  with assms(3) have "e(n := Some FE_PREPARED) = e" by (simp add: fun_upd_idem)
  then show "triple (stage re i s e cs) (returnA ()) (\<lambda>_. stage re i s (e(n := Some FE_PREPARED)) cs) X" by (simp add: triple_def returnA_def)
qed

lemma stage_run_effect:
  assumes sm: "smooth re au i s" and n: "n \<in> set FIRE_EFFECT_ORDER" and es: "e n = None \<or> e n = Some FE_PREPARED" and auth: "no_authority s \<longrightarrow> n = ''archive_move''"
  shows "triple (stage re i s e cs) (run_effect re au (target_of s) i n (e n)) (\<lambda>r sv. stage re i s (e(n := Some FE_COMMITTED)) (cs @ [n]) sv \<and> r = None) X"
proof -
  let ?p = "e(n := Some FE_PREPARED)" and ?x = "e(n := Some FE_EXECUTING)" and ?c = "e(n := Some FE_COMMITTED)"
  have prepare: "triple (stage re i s e cs) (if e n = None then fire_transition re i n FE_PREPARED [] else returnA ()) (\<lambda>_. stage re i s ?p cs) X"
    by (rule stage_prepare) (use sm n es in simp_all)
  have start: "triple (stage re i s ?p cs) (fire_transition re i n FE_EXECUTING []) (\<lambda>_. stage re i s ?x cs) X"
    using stage_transition [OF sm n, of ?p FE_EXECUTING cs] by (simp add: fire_predecessor_def)
  have "triple (stage re i s ?x (cs @ [n])) (fire_transition re i n FE_COMMITTED []) (\<lambda>_. stage re i s ?c (cs @ [n])) X"
    using stage_transition [OF sm n, of ?x FE_COMMITTED "cs @ [n]"] by (simp add: fire_predecessor_def)
  note finish = triple_bind [OF this triple_bind [OF stage_credential [OF sm auth] stage_return]]
  have observed: "triple (\<lambda>sv. stage re i s ?x (cs @ [n]) sv \<and> observed = Some True)
      (if observed \<noteq> Some True then bindA (fire_action_required re au u n ''outcome_unknown'') (\<lambda>r. returnA (Some r))
       else bindA (fire_transition re i n FE_COMMITTED []) (\<lambda>_. bindA (credential_fact au (target_of s) n) (\<lambda>_. returnA None)))
      (\<lambda>r sv. stage re i s ?c (cs @ [n]) sv \<and> r = None) X" for u observed
    by (rule triple_assume, simp) (rule triple_pre [OF finish], simp)
  show ?thesis unfolding run_effect_def
    by (rule triple_bind [OF prepare], rule triple_bind [OF start], rule triple_bind [OF stage_require [OF sm]],
        rule triple_pre [OF triple_bind [OF stage_execute triple_bind [OF stage_observe [OF sm] observed]]], simp)
qed

lemma stage_record_effect:
  assumes sm: "smooth re au i s" and n: "n \<in> set FIRE_EFFECT_ORDER" and es: "e n \<noteq> Some FE_ACTION_REQUIRED"
  shows "triple (stage re i s e cs) (bindA (record_effect re i n (e n)) (\<lambda>_. returnA None)) (\<lambda>r sv. stage re i s (e(n := Some FE_COMMITTED)) cs sv \<and> r = None) X"
proof -
  have step: "triple (stage re i s f cs) (if b then fire_transition re i n st [] else returnA ()) (\<lambda>_. stage re i s (if b then f(n := Some st) else f) cs) X"
    if "b \<Longrightarrow> f n = fire_predecessor st" "st \<noteq> FE_ACTION_REQUIRED" for f b st
    using that stage_transition [OF sm n, of f st cs] by (auto simp: triple_def returnA_def)
  let ?p = "if e n = None then e(n := Some FE_PREPARED) else e"
  let ?x = "if e n = None \<or> e n = Some FE_PREPARED then ?p(n := Some FE_EXECUTING) else ?p"
  let ?c = "if e n = None \<or> e n = Some FE_PREPARED \<or> e n = Some FE_EXECUTING then ?x(n := Some FE_COMMITTED) else ?x"
  have "?c = e(n := Some FE_COMMITTED)"
    using es by (cases "e n"; cases "the (e n)") (auto simp: fun_upd_idem)
  moreover have "triple (stage re i s e cs) (bindA (record_effect re i n (e n)) (\<lambda>_. returnA None)) (\<lambda>r sv. stage re i s ?c cs sv \<and> r = None) X"
    unfolding record_effect_def
    by (rule triple_bind [OF triple_bind [OF step triple_bind [OF step step]] stage_return]) (auto simp: fire_predecessor_def)
  ultimately show ?thesis by simp
qed

section \<open>The loop\<close>

definition to_run :: "durable_fire_state \<Rightarrow> (string \<Rightarrow> fire_effect_state option) \<Rightarrow> string \<Rightarrow> bool" where
  "to_run s e n \<longleftrightarrow> (e n = None \<or> e n = Some FE_PREPARED) \<and> (no_authority s \<longrightarrow> n = ''archive_move'')"

text \<open>A cleanup is brought to \<open>committed\<close>; one that was executing makes the method start over.\<close>

lemma stage_resume_effect:
  assumes sm: "smooth re au i s" and id: "fs_intent_id s = i" and n: "n \<in> set FIRE_EFFECT_ORDER" and es: "e n \<noteq> Some FE_ACTION_REQUIRED"
    and again: "e n = Some FE_EXECUTING \<Longrightarrow> triple (stage re i s (e(n := Some FE_COMMITTED)) cs) (again i) Q X"
  shows "triple (stage re i s e cs) (resume_effect re au again (target_of s) i n)
    (\<lambda>r sv. case r of None \<Rightarrow> stage re i s (e(n := Some FE_COMMITTED)) (cs @ filter (to_run s e) [n]) sv | Some t \<Rightarrow> Q t sv) X"
  (is "triple _ _ ?R X")
  unfolding resume_effect_def Let_def
proof (rule triple_bind [OF stage_require [OF sm]], rule triple_assume)
  fix t sv
  let ?P = "\<lambda>sv. stage re i s e cs sv \<and> on_track s e t" and ?c = "e(n := Some FE_COMMITTED)"
  assume "?P sv"
  then have t: "on_track s e t" by blast
  then have at: "effect_state t n = e n" "no_authority t = no_authority s" and intent: "fs_intent_id t = i"
    using n on_track_authority [OF t] id by (simp_all add: on_track_def)
  have recording: "triple ?P (bindA (record_effect re i n (e n)) (\<lambda>_. returnA None)) ?R X" if "no_authority s \<and> n \<noteq> ''archive_move''"
    by (rule triple_pre [OF triple_post [OF stage_record_effect [where e = e, OF sm n es]]]) (use that in \<open>auto simp: to_run_def\<close>)
  have committed: "triple ?P (bindA (credential_fact au (target_of s) n) (\<lambda>_. returnA None)) ?R X" if "no_authority s \<longrightarrow> n = ''archive_move''" "e n = Some FE_COMMITTED"
  proof -
    have "?c = e" using that(2) by (simp add: fun_upd_idem)
    then show ?thesis using that(2)
      by (intro triple_pre [OF triple_post [OF triple_bind [OF stage_credential [OF sm that(1)] stage_return]]]) (auto simp: to_run_def)
  qed
  have run: "triple ?P (run_effect re au (target_of s) i n (e n)) ?R X"
    if "no_authority s \<longrightarrow> n = ''archive_move''" "e n = None \<or> e n = Some FE_PREPARED"
    by (rule triple_pre [OF triple_post [OF stage_run_effect [where e = e, OF sm n that(2,1)]]]) (use that in \<open>auto simp: to_run_def\<close>)
  have reconcile: "triple ?P (bindA (reconcile_executing re au again t n) (\<lambda>r. returnA (Some r))) ?R X" if ex: "e n = Some FE_EXECUTING"
  proof -
    have "triple (stage re i s e cs) (fire_transition re i n FE_COMMITTED []) (\<lambda>_. stage re i s ?c cs) X"
      by (rule stage_transition [OF sm n]) (simp_all add: ex fire_predecessor_def)
    note found = triple_bind [OF this again [OF ex]]
    have "triple (\<lambda>sv. stage re i s e cs sv \<and> observed = Some True) (if observed \<noteq> Some True then fire_action_required re au t n ''recovery_outcome_unknown''
        else bindA (fire_transition re i n FE_COMMITTED []) (\<lambda>_. again i)) Q X" for observed
      by (rule triple_assume, simp) (rule triple_pre [OF found], simp)
    then have "triple (stage re i s e cs) (reconcile_executing re au again t n) Q X"
      unfolding reconcile_executing_def intent by (rule triple_bind [OF stage_observe [OF sm]])
    note rec = triple_pre [OF this, of ?P]
    show ?thesis by (rule triple_bind [OF rec]) (auto simp: triple_def returnA_def)
  qed
  have cases: "e n = None \<or> e n = Some FE_PREPARED" if "e n \<noteq> Some FE_COMMITTED" "e n \<noteq> Some FE_EXECUTING"
    using es that by (cases "e n"; cases "the (e n)") auto
  show "triple ?P (if no_authority t \<and> n \<noteq> ''archive_move'' then
       (if effect_state t n = Some FE_ACTION_REQUIRED then returnA (Some t) else bindA (record_effect re i n (effect_state t n)) (\<lambda>_. returnA None))
     else if effect_state t n = Some FE_COMMITTED then bindA (credential_fact au (target_of s) n) (\<lambda>_. returnA None)
     else if effect_state t n = Some FE_EXECUTING then bindA (reconcile_executing re au again t n) (\<lambda>r. returnA (Some r))
     else if effect_state t n = Some FE_ACTION_REQUIRED then returnA (Some t)
     else run_effect re au (target_of s) i n (effect_state t n)) ?R X"
    unfolding at by (intro triple_if) (use es cases recording committed reconcile run in blast)+
qed

definition committed_on :: "(string \<Rightarrow> fire_effect_state option) \<Rightarrow> string list \<Rightarrow> string \<Rightarrow> fire_effect_state option" where
  "committed_on e ns = (\<lambda>n. if n \<in> set ns then Some FE_COMMITTED else e n)"

lemma committed_on_Nil: "committed_on e [] = e"
  by (simp add: committed_on_def)

lemma committed_on_snoc: "(committed_on e ns)(n := Some FE_COMMITTED) = committed_on e (ns @ [n])"
  by (auto simp: committed_on_def)

lemma to_run_committed: "distinct (pre @ ns) \<Longrightarrow> filter (to_run s (committed_on e pre)) (pre @ ns) = filter (to_run s e) ns"
  by (auto simp: to_run_def committed_on_def filter_empty_conv intro!: filter_cong split: if_splits)

lemma stage_cong: "(\<And>n. n \<in> set FIRE_EFFECT_ORDER \<Longrightarrow> e n = f n) \<Longrightarrow> stage re i s e cs = stage re i s f cs"
  by (simp add: stage_def on_track_def fun_eq_iff cong: ball_cong)

lemma stage_resume_effects:
  assumes sm: "smooth re au i s" and id: "fs_intent_id s = i" and es: "\<forall>n\<in>set FIRE_EFFECT_ORDER. e n \<noteq> Some FE_ACTION_REQUIRED"
    and again: "\<And>pre n ns. FIRE_EFFECT_ORDER = pre @ n # ns \<Longrightarrow> e n = Some FE_EXECUTING \<Longrightarrow>
      triple (stage re i s (committed_on e (pre @ [n])) (cs @ filter (to_run s e) pre)) (again i) Q X"
  shows "FIRE_EFFECT_ORDER = pre @ ns \<Longrightarrow>
    triple (stage re i s (committed_on e pre) (cs @ filter (to_run s e) pre)) (resume_effects re au again (target_of s) i ns)
      (\<lambda>r sv. case r of None \<Rightarrow> stage re i s (\<lambda>n. Some FE_COMMITTED) (cs @ filter (to_run s e) FIRE_EFFECT_ORDER) sv | Some t \<Rightarrow> Q t sv) X"
proof (induction ns arbitrary: pre)
  case Nil
  have "stage re i s (committed_on e FIRE_EFFECT_ORDER) = stage re i s (\<lambda>n. Some FE_COMMITTED)"
    by (intro ext stage_cong [THEN fun_cong]) (simp add: committed_on_def)
  with Nil show ?case by (simp add: triple_def returnA_def)
next
  case (Cons n ns)
  let ?e = "committed_on e pre" and ?cs = "cs @ filter (to_run s e) pre"
  have n: "n \<in> set FIRE_EFFECT_ORDER" "n \<notin> set pre" using Cons.prems fire_order_distinct by (auto simp: Cons.prems simp del: fire_order_distinct)
  then have at: "?e n = e n" by (simp add: committed_on_def)
  have step: "triple (stage re i s ?e ?cs) (resume_effect re au again (target_of s) i n)
      (\<lambda>r sv. case r of None \<Rightarrow> stage re i s (?e(n := Some FE_COMMITTED)) (?cs @ filter (to_run s ?e) [n]) sv | Some t \<Rightarrow> Q t sv) X"
    by (rule stage_resume_effect [OF sm id n(1)]) (use es n at again [OF Cons.prems] in \<open>simp_all add: committed_on_snoc\<close>)
  have same: "filter (to_run s ?e) [n] = filter (to_run s e) [n]" by (simp add: to_run_def at)
  note rest = Cons.IH [of "pre @ [n]"]
  show ?case unfolding resume_effects.simps
  proof (rule triple_bind [OF step [unfolded committed_on_snoc same]], rule triple_option)
    fix r :: "durable_fire_state option" assume "r = None"
    then show "triple (\<lambda>sv. case r of None \<Rightarrow> stage re i s (committed_on e (pre @ [n])) (?cs @ filter (to_run s e) [n]) sv | Some t \<Rightarrow> Q t sv)
        (resume_effects re au again (target_of s) i ns)
        (\<lambda>r sv. case r of None \<Rightarrow> stage re i s (\<lambda>n. Some FE_COMMITTED) (cs @ filter (to_run s e) FIRE_EFFECT_ORDER) sv | Some t \<Rightarrow> Q t sv) X"
      using rest Cons.prems by simp
  qed (simp add: triple_def returnA_def)
qed

lemma stage_resume:
  assumes sm: "smooth re au i s" and id: "fs_intent_id s = i" and mode: "fs_cleanup_mode s = CM_EXTERNAL_UNKNOWN \<longrightarrow> fs_external_disposition_confirmed s"
  shows "\<forall>n\<in>set FIRE_EFFECT_ORDER. e n \<noteq> Some FE_ACTION_REQUIRED \<Longrightarrow> length (filter (\<lambda>n. e n \<noteq> Some FE_COMMITTED) FIRE_EFFECT_ORDER) < k \<Longrightarrow>
    triple (stage re i s (\<lambda>n. Some FE_COMMITTED) (cs @ filter (to_run s e) FIRE_EFFECT_ORDER)) (finish_fire re au i) Q X \<Longrightarrow>
    triple (stage re i s e cs) (resume re au k i) Q X"
proof (induction k arbitrary: e cs)
  case (Suc k)
  let ?all = "cs @ filter (to_run s e) FIRE_EFFECT_ORDER"
  have again: "triple (stage re i s (committed_on e (pre @ [n])) (cs @ filter (to_run s e) pre)) (resume re au k i) Q X"
    if o: "FIRE_EFFECT_ORDER = pre @ n # ns" and n: "e n = Some FE_EXECUTING" for pre n ns
  proof (rule Suc.IH)
    let ?f = "committed_on e (pre @ [n])"
    show "\<forall>n\<in>set FIRE_EFFECT_ORDER. ?f n \<noteq> Some FE_ACTION_REQUIRED" using Suc.prems(1) by (simp add: committed_on_def)
    have "length (filter (\<lambda>m. ?f m \<noteq> Some FE_COMMITTED) xs) \<le> length (filter (\<lambda>m. e m \<noteq> Some FE_COMMITTED) xs)" for xs
      by (induction xs) (simp_all add: committed_on_def)
    from this [of pre] this [of ns] have "length (filter (\<lambda>m. ?f m \<noteq> Some FE_COMMITTED) FIRE_EFFECT_ORDER) < length (filter (\<lambda>m. e m \<noteq> Some FE_COMMITTED) FIRE_EFFECT_ORDER)"
      by (simp add: o n) (simp add: committed_on_def)
    with Suc.prems(2) show "length (filter (\<lambda>n. ?f n \<noteq> Some FE_COMMITTED) FIRE_EFFECT_ORDER) < k" by simp
    have "distinct ((pre @ [n]) @ ns)" using fire_order_distinct unfolding o by simp
    from to_run_committed [OF this, of s e] have "(cs @ filter (to_run s e) pre) @ filter (to_run s ?f) FIRE_EFFECT_ORDER = ?all"
      by (simp add: o) (simp add: to_run_def n)
    with Suc.prems(3) show "triple (stage re i s (\<lambda>n. Some FE_COMMITTED) ((cs @ filter (to_run s e) pre) @ filter (to_run s ?f) FIRE_EFFECT_ORDER)) (finish_fire re au i) Q X"
      by simp
  qed
  have loop: "triple (stage re i s e cs) (resume_effects re au (resume re au k) (target_of s) i FIRE_EFFECT_ORDER)
      (\<lambda>r sv. case r of None \<Rightarrow> stage re i s (\<lambda>n. Some FE_COMMITTED) ?all sv | Some t \<Rightarrow> Q t sv) X"
    using stage_resume_effects [where e = e and again = "resume re au k" and pre = "[]" and ns = FIRE_EFFECT_ORDER, OF sm id Suc.prems(1) again]
    by (simp add: committed_on_Nil)
  have finish: "triple (\<lambda>sv. case r of None \<Rightarrow> stage re i s (\<lambda>n. Some FE_COMMITTED) ?all sv | Some t \<Rightarrow> Q t sv)
      (case r of Some s' \<Rightarrow> returnA s' | None \<Rightarrow> finish_fire re au i) Q X" for r
    using Suc.prems(3) by (cases r) (simp_all add: triple_def returnA_def)
  show ?case unfolding resume.simps
  proof (rule triple_bind [OF stage_require [OF sm]], rule triple_assume)
    fix t sv assume "stage re i s e cs sv \<and> on_track s e t"
    then have "on_track s e t" by blast
    then have t: "fs_phase t = FP_RETIRING" "target_of t = target_of s" "fs_cleanup_mode t = fs_cleanup_mode s"
      "fs_external_disposition_confirmed t = fs_external_disposition_confirmed s" using on_track_mode by (auto simp: on_track_def)
    have go: "\<not> (fs_cleanup_mode t = CM_EXTERNAL_UNKNOWN \<and> \<not> fs_external_disposition_confirmed t)" using mode t by simp
    note body = triple_pre [OF triple_bind [OF loop finish], of "\<lambda>sv. stage re i s e cs sv \<and> on_track s e t"]
    show "triple (\<lambda>sv. stage re i s e cs sv \<and> on_track s e t)
       (case fs_phase t of FP_ARCHIVED \<Rightarrow> returnA t | FP_SUPERSEDED \<Rightarrow> raise_fire ''fire request was superseded'' | FP_ACTION_REQUIRED \<Rightarrow> returnA t
        | FP_RETIRING \<Rightarrow>
            if fs_cleanup_mode t = CM_EXTERNAL_UNKNOWN \<and> \<not> fs_external_disposition_confirmed t then await_disposition re au i t
            else bindA (resume_effects re au (resume re au k) (target_of t) i FIRE_EFFECT_ORDER) (\<lambda>r.
              case r of Some s' \<Rightarrow> returnA s' | None \<Rightarrow> finish_fire re au i)) Q X"
      unfolding t(1,2) fire_phase.case if_not_P [OF go] by (rule body) simp
  qed
qed simp

section \<open>An undisturbed retirement goes through\<close>

lemma stands_intent: "stands re i cs s sv \<Longrightarrow> fs_intent_id s = i"
  using fire_log.rebuilt_invar unfolding stands_def rebuild_fire_projection_def fire_inv_def fire_ok_def by blast


section \<open>An example\<close>

definition calm_retire_env :: "(anchor_state, unit, unit, unit) retire_env" where
  "calm_retire_env = sample_retire_env\<lparr>re_io := (\<lambda>k. re_io sample_retire_env 0)\<rparr>"

text \<open>A hire that was given up before an application was registered: there is nothing to clean up but the files.\<close>

definition sample_abort :: journal_event where
  "sample_abort = \<lparr>je_event_type = ''fire.requested'', je_aggregate_id = ''f1'', je_payload = requested_payload
     \<lparr>fq_employee = ''a1'', fq_tenant_key = ''t'', fq_message_id = ''m'', fq_chat_id = ''c'', fq_requester_principal_id = ''owner'', fq_drain = True\<rparr>
     \<lparr>ft_tenant_key = ''t'', ft_agent_id = ''a1'', ft_employee_name = ''Ann'', ft_bot_principal_id = [], ft_app_id = [], ft_credential_ref = [],
       ft_cleanup_mode = CM_SAFE_ABORT\<rparr> ''f1'', je_timestamp = 0, je_payload_hash = GENESIS_HASH\<rparr>"

lemma sample_abort_ok: "event_ok sample_frame_env sample_abort" "event_text sample_abort"
  by (simp_all add: event_ok_def event_text_def sample_abort_def requested_payload_def sample_frame_env_def json_text.simps json_item_def dict_ok_def utf8_simps)

lemma sample_abort_read:
  "(case reduce_fire example_fire_env [] (1, norm_event sample_abort) of
      Inr sts \<Rightarrow> (case dget sts ''f1'' of Some s \<Rightarrow> fs_phase s = FP_RETIRING \<and> fs_cleanup_mode s = CM_SAFE_ABORT \<and> fs_effects s = [] | None \<Rightarrow> False)
    | Inl _ \<Rightarrow> False) = True"
  by code_simp

lemma calm_undisturbed: "undisturbed calm_retire_env k"
  by (simp add: undisturbed_def retire_env_ok_def calm_retire_env_def sample_retire_env_def sample_views_env_def sample_we_def sample_digests_ok sample_floats_ok
      memory_answers utf8_simps)


end
