(* ===== verification/Spec2Isabelle.thy ===== *)
theory Spec2Isabelle
  imports State_Machine Policy_Engine Authorization_Gate Triggers Capability_Registry Tool_Broker
    Model_Broker Activities Journal_Writer Projections Outbox_Service Fire_Progress
begin

text \<open>
  A verification development for the autonomous kernel of GhostAP (\<^verbatim>\<open>src/src/autonomous\<close>), the part of the
  repository that decides what an autonomous employee may do, records it and makes it survive a crash.

  \<^bold>\<open>The program.\<close> A goal is executed as a run, a run by plans of steps, a step by attempts, and everything
  an attempt does to the outside world is an effect. These aggregates are immutable values that only the
  guarded transition functions of the domain change, one version at a time. Workers get steps from the scheduler
  under leases with fencing tokens and carry them out as activities; triggers start runs. Before an effect
  reaches an adapter, the brokers ask the kill switch, the policy engine, the authorization gate and the
  budget manager, and send through the dispatch gate. What happened is committed to a journal of authenticated,
  hash-chained frames with an external monotonic anchor; projections fold the frames into the tables the
  kernel works from, among them the workforce with its exclusive names, bots and chats.

  \<^bold>\<open>Theories, in the order of the imports.\<close>
  \<^item> \<open>Prelude\<close>: results with errors (\<open>bindE\<close>, \<open>guardE\<close>, \<open>mapE\<close>), Python dictionaries as insertion-ordered association
    lists (\<open>dget\<close>, \<open>dset\<close>, \<open>dpop\<close>), and the interfaces the components share as locales: \<open>py_dict\<close>, \<open>py_enum\<close>
    (values of an enumeration and its parser), \<open>versioned\<close> (optimistic versions: no lost update) and \<open>codec\<close> (dictionary round trip).
  \<^item> \<open>Python_Float\<close>: binary64 as rationals with rounding to nearest even (\<open>round64\<close>), infinities and NaN; integers up to
    2^53 are exact. \<open>Python_Value\<close>: untyped values and \<^verbatim>\<open>domain/ids.py\<close>. \<open>Json_Text\<close> and \<open>Json_Parser\<close>: the text of
    \<open>json.dumps\<close>, the reader \<open>json.loads\<close>, and that one inverts the other. \<open>Replay\<close>: the locale \<open>event_sourced\<close> of projections folded
    over events. \<open>Actions\<close>: stateful operations that may raise, with triples and the locale \<open>state_order\<close> for what every step keeps.
  \<^item> \<open>Domain_Enums\<close>, \<open>Domain_Effects\<close>, \<open>Domain_Goals\<close>, \<open>Domain_Plans\<close>, \<open>Domain_Control\<close>, \<open>Domain_Employees\<close>: the files of the same
    names under \<^verbatim>\<open>domain/\<close>, and \<open>Goal_Definitions\<close>, the goal definitions of \<^verbatim>\<open>domain/goals.py\<close>: a record per dataclass, its constructor checks, \<open>to_dict\<close> and \<open>from_dict\<close> with an interpretation
    of \<open>codec\<close>, and \<open>validate_dag\<close> as a function with a termination proof.
  \<^item> \<open>State_Machine\<close>: \<^verbatim>\<open>domain/state_machine.py\<close>: the transitions of runs, plans, steps and effects and
    the replan check; \<open>versioned\<close> is interpreted on all four. Reachability is by sequences of accepted transitions.
  \<^item> \<open>Kill_Switch\<close>, \<open>Policy_Engine\<close>, \<open>Authorization_Gate\<close>, \<open>Budget_Manager\<close>: the files of \<^verbatim>\<open>policy/\<close>. The policy engine and
    the gate are compared with declarative specifications; the ledgers interpret \<open>versioned\<close>.
  \<^item> \<open>Scheduler\<close>, \<open>Activities\<close>, \<open>Triggers\<close>: the files of \<^verbatim>\<open>scheduler/\<close>. The scheduler's coroutines are modelled twice: as
    atomic operations, and split at the points where they wait for the journal, with every interleaving.
  \<^item> \<open>Capability_Registry\<close>, \<open>Dispatch_Gate\<close>, \<open>Tool_Broker\<close>, \<open>Model_Broker\<close>: the files of \<^verbatim>\<open>broker/\<close>. An operation that
    waits for an adapter is a function up to the call, one after it and what the adapter did as argument.
  \<^item> \<open>Journal_Frame\<close>, \<open>Journal_Anchor\<close>, \<open>Journal_Writer\<close>: \<^verbatim>\<open>journal/frame.py\<close>, \<^verbatim>\<open>anchor.py\<close>, \<^verbatim>\<open>writer.py\<close> and the blob references of
    \<^verbatim>\<open>blob_store.py\<close>, on the bytes of the file. \<open>anchor_provider\<close> is the contract of an anchor; the anchor in memory and
    the one in a file interpret it, and the journal is proved for every provider.
  \<^item> \<open>Workforce\<close>: \<^verbatim>\<open>workforce/projection.py\<close> and \<^verbatim>\<open>workforce/authority.py\<close>: the reducer of every workforce event and the
    invariant that ties each employee to the owners of its name, bot and chats. \<open>Projections\<close>: \<^verbatim>\<open>journal/projections.py\<close>: one reducer
    per event of the kernel, the replay of the journal's frames, and its agreement with the state machines.
  \<^item> \<open>Outbox_Models\<close>, \<open>Outbox\<close>, \<open>Outbox_Service\<close>: the files of \<^verbatim>\<open>outbox/\<close>: the contracts of status cards with their codecs, the
    projection of their snapshots and deliveries, and the service and delivery coordinator over the journal writer, split at the call
    of the chat service.
  \<^item> \<open>Journal_Log\<close>: the frames on disk as services see them across commits, failed appends, replays and restarts; the
    locale \<open>log_projection\<close> for projections rebuilt from them.
  \<^item> \<open>Hire_State\<close>, \<open>Hire_Views\<close>: \<^verbatim>\<open>provisioning/hire_state.py\<close>, \<^verbatim>\<open>manifest_reauthorization.py\<close> and the views that
    \<^verbatim>\<open>hire_service.py\<close> keeps of the journal.
  \<^item> \<open>Fire_State\<close>, \<open>Fire_Authority\<close>, \<open>Fire_Service\<close>: \<^verbatim>\<open>provisioning/fire_state.py\<close>, \<^verbatim>\<open>fire_authority.py\<close> and \<^verbatim>\<open>fire_service.py\<close>: the
    projection of retirement requests, the facts the authority commits, and the saga that carries the cleanups out; other services commit
    to the journal wherever the code does not hold the writer's guard. \<open>Fire_Safety\<close>: the contract of an authority as the locale \<open>fire_authority\<close>, and
    what every sequence of operations and restarts keeps. \<open>Fire_Quiet\<close>, \<open>Fire_Progress\<close>: what the service reaches when nothing disturbs it.
  \<^item> This theory: properties that span the components.

  \<^bold>\<open>Conventions.\<close> A dataclass is a record, an enumeration a datatype, a Python \<open>int\<close> an \<open>int\<close>, a \<open>float\<close> a \<open>pyfloat\<close>, a clock reading
  a rational that is the value of a finite float (sums of clock readings are rounded), a string its UTF-8 bytes, an exception
  the left side of a sum. Arguments of typed functions have their declared types; what is read from a dictionary or a file
  is untyped and every check of the source is kept. Fresh identifiers, random numbers and clock readings are
  arguments, in the order the source draws them. An operation that raises after changing its object returns the changed object beside
  the error.

  \<^bold>\<open>What the lemmas show.\<close> The journal reopens after a crash at any byte of an append to exactly the frames
  before or with the commit, or refuses to open; the anchor determines the journal's content; stale versions are
  refused; a sealed frame decodes to itself. Whatever sequence of events is replayed, no two active employees share an
  identity and an identity once released is not given away silently; a replayed transition of the state machine gives the state the machine
  computed. Runs end only with settled effects; effects are redispatched only under authority;
  versions exclude lost updates for every aggregate. The kill switch fences old epochs for ever; policy and authorization
  decide exactly what their specifications say; budgets are not oversold; leases are exclusive and reclaimed; fencing tokens are
  unique and stale workers refused; the brokers send only what was checked, recorded and paid for. A card is sent as one message;
  a hire's agent, application and verification are its own; a retirement is archived only after every cleanup,
  no cleanup is started twice, and one that nothing disturbs goes through. Several lemmas
  show by evaluation where the code falls short of this (interleavings that lease a step twice, effects that
  are sent twice, a restored budget entry that oversells, a canceled trigger that fires); they stand at the end of their theories.

  \<^bold>\<open>Bounds and fuel.\<close> The loop of \<open>encode_with_stable_length\<close> has the source's eight rounds; it is proved never to run out
  of them. \<open>visit\<close>, \<open>expire_loop\<close> and \<open>split_lines\<close> have termination proofs. \<open>resume\<close> of a retirement calls itself after each
  cleanup it finds executed; its depth is the number of cleanups and one, which is proved to be enough. Budget arithmetic is exact
  for integer amounts whose sums stay below 2^53, which the bound property assumes.

  \<^bold>\<open>Parameters.\<close> SHA-256, HMAC, \<open>float.__repr__\<close>, \<open>float\<close> of a text, Unicode normalization and decimal rounding are functions of environment
  records; what is assumed of them (digests are 64 hexadecimal digits, reading the decimal text of a float gives the float, no
  collision among the records compared) are hypotheses of the properties that need them, each with a witness. The journals of
  the scheduler package, the callables of the brokers, the chat service, the cleanup ports of a retirement and the reducer of the ingress service
  are parameters of any behaviour.

  \<^bold>\<open>Not modelled.\<close> The snapshots of the journal and the encrypted blob store; the materializer of employee files; the packages of the
  kernel that serve chats and employees (ingress, gateway, membership, team, the console steps of provisioning, context, data, knowledge, workspace,
  runtime, supervisor, verifier, reporter, manager, migration, acceptance), which are services around remote systems and the file system;
  and the bot itself (\<^verbatim>\<open>src/src/feishu\<close>, the engines, the agent protocol and the support packages), which is glue to
  a chat service and to language-model processes. Locks are not modelled where one operation holds them
  throughout: the operation is atomic.
\<close>

section \<open>Persistence of the aggregates\<close>

lemma transition_run_wf:
  assumes "run_wf r" and t: "transition_run r ev ex ctx owner now = Inr (r', rec, emitted)"
  shows "run_wf r'"
proof -
  from t obtain r0 where init: "run_init r0 = Inr r'"
    and r0: "r0 = r\<lparr>rn_state := rn_state r0, rn_target_terminal_state := rn_target_terminal_state r0,
      rn_aggregate_version := rn_aggregate_version r + 1\<rparr>"
    by (auto simp: transition_run_def bindE_Inr_iff lift_init_Inr)
  have "run_init r' = Inr r'" using init by (auto simp: run_init_def Let_def split: if_splits)
  moreover have "rn_goal_version r' = rn_goal_version r0" "rn_run_definition_version r' = rn_run_definition_version r0"
    "rn_plan_epoch r' = rn_plan_epoch r0" "rn_run_control_epoch r' = rn_run_control_epoch r0"
    "rn_revocation_epoch r' = rn_revocation_epoch r0" "rn_aggregate_version r' = rn_aggregate_version r0"
    using init by (auto simp: run_init_def Let_def split: if_splits)
  ultimately show ?thesis using assms(1) by (subst (asm) (1 2 3 4 5 6) r0) (simp add: run_wf_def)
qed

lemma transition_plan_wf:
  assumes "plan_wf p" and "transition_plan p ev ex owner now = Inr (p', rec, emitted)"
  shows "plan_wf p'"
  using assms by (subst transition_plan_InrD [THEN conjunct2, THEN conjunct2, OF assms(2)]) (simp add: plan_wf_def)

lemma transition_step_wf:
  assumes "plan_step_wf s" and "transition_step s ev ex owner now = Inr (s', rec, emitted)"
  shows "plan_step_wf s'"
  using assms by (subst transition_step_InrD [THEN conjunct2, THEN conjunct2, OF assms(2)]) (simp add: plan_step_wf_def)

text \<open>
  C38. What the state machine produces can be stored and read back: the run, plan, step or effect
  that an accepted transition of a well-formed aggregate returns is well formed again, and parsing
  the dictionary it is written as gives exactly that aggregate.
\<close>

theorem transitions_persist:
  "(run_wf r \<and> transition_run r rnev ex ctx owner now = Inr (r', rrec, rout) \<longrightarrow>
      run_wf r' \<and> run_from_dict (run_to_dict r') = Inr r') \<and>
   (plan_wf p \<and> transition_plan p pev ex owner now = Inr (p', prec, pout) \<longrightarrow>
      plan_wf p' \<and> plan_from_dict (plan_to_dict p') = Inr p') \<and>
   (plan_step_wf s \<and> transition_step s sev ex owner now = Inr (s', srec, sout) \<longrightarrow>
      plan_step_wf s' \<and> plan_step_from_dict (plan_step_to_dict s') = Inr s') \<and>
   (effect_wf e \<and> transition_effect e eev ex now = Inr (e', erec, eout) \<longrightarrow>
      effect_wf e' \<and> effect_from_dict (effect_to_dict e') = Inr e')"
  using transition_run_wf transition_plan_wf transition_step_wf transition_effect_wf
    run_codec_law plan_codec_law plan_step_codec_law effect_codec_law by metis

theorem transitions_persist_witness:
  "\<exists>e'. effect_wf e' \<and> ef_state e' = ES_EXECUTING \<and> effect_from_dict (effect_to_dict e') = Inr e'"
proof -
  have wf: "effect_wf (sample_effect ES_PREPARED 0)"
    by (simp add: sample_effect_eval effect_wf_def)
  obtain e' rec out where t: "transition_effect (sample_effect ES_PREPARED 0) EE_DISPATCH_STARTED None 1 = Inr (e', rec, out)"
    and s: "ef_state e' = ES_EXECUTING"
    using transition_effect_total [OF wf, of EE_DISPATCH_STARTED ES_EXECUTING None 1]
    by (auto simp: EFFECT_TRANSITIONS_def sample_effect_def)
  from transitions_persist [THEN conjunct2, THEN conjunct2, THEN conjunct2, rule_format, OF conjI [OF wf t]] s
  show ?thesis by blast
qed

section \<open>Validation of plans\<close>

text \<open>
  C39. Plan validation always ends and is exact: \<open>validate_dag\<close> reports no error exactly when every
  dependency names a step of the plan and the dependencies have no cycle.
\<close>

theorem plan_validation_exact:
  "validate_dag p = [] \<longleftrightarrow>
     acyclic (depends_rel (step_map (pl_steps p))) \<and>
     snd ` depends_rel (step_map (pl_steps p)) \<subseteq> st_step_id ` set (pl_steps p)"
  by (subst validate_dag_iff) (fastforce simp: image_subset_iff)

section \<open>Activation authorizations\<close>

text \<open>
  C40. An activation authorization is one-shot: once it was consumed it is not valid at any time, a
  second consumption raises, and the model broker refuses it before it reserves any budget or
  calls the model.
\<close>

theorem authorization_one_shot:
  assumes "auth_consume a now = Inr a'"
  shows "auth_is_valid a now \<and> \<not> auth_is_valid a' t \<and>
    auth_consume a' t = Inl (ValueError ''activation authorization is expired or consumed'') \<and>
    model_begin me b a' prompt mid run att fe fc clk = (b, model_error [] ''Authorization expired or consumed'' [])"
  using assms by (auto simp: auth_consume_def auth_is_valid_def model_begin_def split: if_splits)

theorem authorization_one_shot_witness:
  "let a = sample_auth; a' = projr (auth_consume a 1)
   in auth_is_valid a 1 \<and> \<not> auth_is_valid a' 0 \<and> auth_consume a' 0 =
      Inl (ValueError ''activation authorization is expired or consumed'')"
proof -
  have "auth_consume sample_auth 1 = Inr (projr (auth_consume sample_auth 1))"
    by (simp add: auth_consume_def auth_is_valid_def sample_auth_def)
  from authorization_one_shot [OF this, of 0] show ?thesis unfolding Let_def by blast
qed

section \<open>Dispositions\<close>

lemma disposition_allowed_resolved:
  "s \<in> set (disposition_allowed d) \<Longrightarrow> s \<notin> set UNRESOLVED_EFFECT_STATES"
  by (cases d) (auto simp: UNRESOLVED_EFFECT_STATES_def)

lemma disposition_create_Inr:
  "(\<exists>x. disposition_create e d actor i now = Inr x) \<longleftrightarrow> ef_state e \<in> set (disposition_allowed d)"
  using disposition_allowed_resolved by (auto simp: disposition_create_def is_unresolved_def)

text \<open>
  Final dispositions are deterministic: an effect accepts at most one kind of disposition, none
  while it is unresolved, and exactly one in each resolved state but one: an effect the policy
  denied accepts none.
\<close>

theorem disposition_unique:
  "{d. \<exists>x. disposition_create e d actor i now = Inr x} =
     (case ef_state e of
        ES_COMMITTED \<Rightarrow> {ED_RETAINED} | ES_COMPENSATED \<Rightarrow> {ED_COMPENSATED}
      | ES_ABANDONED_ACCEPTED \<Rightarrow> {ED_ABANDONED_ACCEPTED}
      | ES_FAILED_SAFE \<Rightarrow> {ED_FAILED_SAFE} | ES_ABORTED_NO_DISPATCH \<Rightarrow> {ED_FAILED_SAFE} | _ \<Rightarrow> {})"
proof -
  have "{d. s \<in> set (disposition_allowed d)} =
     (case s of
        ES_COMMITTED \<Rightarrow> {ED_RETAINED} | ES_COMPENSATED \<Rightarrow> {ED_COMPENSATED}
      | ES_ABANDONED_ACCEPTED \<Rightarrow> {ED_ABANDONED_ACCEPTED}
      | ES_FAILED_SAFE \<Rightarrow> {ED_FAILED_SAFE} | ES_ABORTED_NO_DISPATCH \<Rightarrow> {ED_FAILED_SAFE} | _ \<Rightarrow> {})" for s
    by (rule set_eqI, case_tac x) (cases s, simp_all)+
  then show ?thesis by (simp only: disposition_create_Inr)
qed

end
